(* ===== verification/Prelude.thy ===== *)
theory Prelude
  imports Complex_Main "HOL-Library.Word" "HOL-Library.State_Monad"
begin

text \<open>
  Shared vocabulary of the development: the machine integer types of the C++ code, the
  character and string primitives its parsers and name checks are written with, and the
  lemma collections that carry the component proofs.

  Unsigned C++ integers are \<open>HOL-Library.Word\<close> words of their width, so that every sum,
  difference and product wraps as it does in the program.  A \<open>string\<close> is a list of
  bytes; a \<open>std::string_view\<close> is its list of bytes, and a NUL terminated buffer is the
  list of the bytes in front of its terminator.
\<close>

section \<open>Machine integers\<close>

type_synonym u8 = "8 word"
type_synonym u16 = "16 word"
type_synonym u32 = "32 word"
type_synonym u64 = "64 word"

text \<open>
  \<open>int32_t\<close> and \<open>pid_t\<close> values are only compared and passed on by the modelled code, so
  they are integers; a cast into them wraps in two's complement.
\<close>

type_synonym i32 = int
type_synonym pid = int

definition wrap_i32 :: "int \<Rightarrow> i32" where
  "wrap_i32 x = signed_take_bit 31 x"

section \<open>Lemma collections\<close>

text \<open>
  \<open>code_consts\<close> collects the numeric constants of the headers (\<open>static constexpr\<close>
  members), \<open>io_rules\<close> the introduction rules of the effect calculus and
  \<open>io_specs\<close> what has been shown of the effects of each operation.
\<close>

named_theorems code_consts
named_theorems io_rules
named_theorems io_specs

section \<open>Characters\<close>

abbreviation "NUL \<equiv> CHR 0x00"
abbreviation "TAB \<equiv> CHR 0x09"
abbreviation "NL \<equiv> CHR 0x0A"
abbreviation "CR \<equiv> CHR 0x0D"

abbreviation byte_of :: "char \<Rightarrow> nat" where
  "byte_of c \<equiv> of_char c"

definition is_digit :: "char \<Rightarrow> bool" where
  "is_digit c \<longleftrightarrow> 48 \<le> byte_of c \<and> byte_of c \<le> 57"

definition digit_val :: "char \<Rightarrow> nat" where
  "digit_val c = byte_of c - 48"

lemma digit_val_le [simp]: "is_digit c \<Longrightarrow> digit_val c \<le> 9"
  by (auto simp: is_digit_def digit_val_def)

definition digit_char :: "nat \<Rightarrow> char" where
  "digit_char d = char_of (48 + d)"

lemma byte_of_digit_char [simp]: "d < 10 \<Longrightarrow> byte_of (digit_char d) = 48 + d"
  by (simp add: digit_char_def)

lemma is_digit_digit_char [simp]: "d < 10 \<Longrightarrow> is_digit (digit_char d)"
  by (simp add: is_digit_def)

lemma digit_val_digit_char [simp]: "d < 10 \<Longrightarrow> digit_val (digit_char d) = d"
  by (simp add: digit_val_def)

section \<open>Strings\<close>

definition starts_with :: "string \<Rightarrow> string \<Rightarrow> bool" where
  "starts_with s p \<longleftrightarrow> take (length p) s = p"

definition ends_with :: "string \<Rightarrow> string \<Rightarrow> bool" where
  "ends_with s p \<longleftrightarrow> length p \<le> length s \<and> drop (length s - length p) s = p"

fun str_contains :: "string \<Rightarrow> string \<Rightarrow> bool" where
  "str_contains [] p \<longleftrightarrow> p = []"
| "str_contains (c # s) p \<longleftrightarrow> starts_with (c # s) p \<or> str_contains s p"

lemma starts_with_append [simp]: "starts_with (p @ s) p"
  by (simp add: starts_with_def)

lemma starts_with_iff: "starts_with s p \<longleftrightarrow> (\<exists>t. s = p @ t)"
  by (metis append_eq_conv_conj append_take_drop_id starts_with_def)

lemma ends_with_iff: "ends_with s p \<longleftrightarrow> (\<exists>t. s = t @ p)"
  by (auto simp: ends_with_def) (metis append_take_drop_id)

lemma ends_with_append [simp]: "ends_with (t @ p) p"
  by (auto simp: ends_with_iff)

text \<open>The bytes in front of the terminator, as a C string function sees a buffer.\<close>

definition c_str :: "string \<Rightarrow> string" where
  "c_str s = takeWhile (\<lambda>c. c \<noteq> NUL) s"

lemma NUL_notin_c_str [simp]: "NUL \<notin> set (c_str s)"
  using set_takeWhileD by (fastforce simp: c_str_def)

lemma c_str_id: "NUL \<notin> set s \<Longrightarrow> c_str s = s"
  by (auto simp: c_str_def takeWhile_eq_all_conv)

text \<open>
  \<open>snprintf(buf, cap, ...)\<close> stores at most \<open>cap - 1\<close> bytes.
\<close>

definition snprintf_cut :: "nat \<Rightarrow> string \<Rightarrow> string" where
  "snprintf_cut cap s = take (cap - 1) s"

lemma length_snprintf_cut: "0 < cap \<Longrightarrow> length (snprintf_cut cap s) < cap"
  by (auto simp: snprintf_cut_def)

subsection \<open>Decimal numerals\<close>

fun show_nat :: "nat \<Rightarrow> string" where
  "show_nat n = (if n < 10 then [digit_char n] else show_nat (n div 10) @ [digit_char (n mod 10)])"

declare show_nat.simps [simp del]

definition show_int :: "int \<Rightarrow> string" where
  "show_int i = (if i < 0 then CHR ''-'' # show_nat (nat (- i)) else show_nat (nat i))"

text \<open>
  The digit loops of the parsers: \<open>v = v * 10 + (c - '0')\<close> in the parser's own integer
  type, over the longest run of digits.
\<close>

fun digits_val :: "'a::semiring_1 \<Rightarrow> string \<Rightarrow> 'a" where
  "digits_val v [] = v"
| "digits_val v (c # cs) = digits_val (v * 10 + of_nat (digit_val c)) cs"

lemma digits_val_append: "digits_val v (s @ t) = digits_val (digits_val v s) t"
  by (induction s arbitrary: v) auto

lemma show_nat_digits: "c \<in> set (show_nat n) \<Longrightarrow> is_digit c"
  by (induction n rule: show_nat.induct) (subst (asm) (2) show_nat.simps, auto split: if_splits)

lemma show_nat_ne [simp]: "show_nat n \<noteq> []"
  by (subst show_nat.simps) simp

lemma digits_val_show_nat: "(digits_val 0 (show_nat n) :: 'a::semiring_1) = of_nat n"
proof (induction n rule: show_nat.induct)
  case (1 n)
  show ?case
  proof (cases "n < 10")
    case True
    then show ?thesis by (subst show_nat.simps) simp
  next
    case False
    have "(digits_val 0 (show_nat n) :: 'a) = digits_val 0 (show_nat (n div 10)) * 10 + of_nat (n mod 10)"
      using False by (subst show_nat.simps) (simp add: digits_val_append)
    also have "\<dots> = of_nat (n div 10 * 10 + n mod 10)"
      using 1 False by (simp only: of_nat_add of_nat_mult of_nat_numeral not_False_eq_True)
    finally show ?thesis by (simp only: div_mult_mod_eq)
  qed
qed

text \<open>
  A run of digits at the front of a text and what follows it: every digit loop of the
  program is \<open>span_digits\<close> followed by \<open>digits_val\<close>.
\<close>

definition span_digits :: "string \<Rightarrow> string \<times> string" where
  "span_digits s = (takeWhile is_digit s, dropWhile is_digit s)"

lemma span_digits_append:
  "list_all is_digit d \<Longrightarrow> (s = [] \<or> \<not> is_digit (hd s)) \<Longrightarrow> span_digits (d @ s) = (d, s)"
  by (induction d) (cases s; auto simp: span_digits_def)+

end
