(* ===== verification/Floats.thy ===== *)
theory Floats
  imports Prelude "HOL-Library.Log_Nat"
begin

text \<open>
  IEEE-754 arithmetic, executable.  The C++ code computes thresholds, percentages and fan
  curves in \<open>double\<close> and \<open>float\<close>; here such a value is a finite rational, an infinity or a
  NaN, and every operation rounds its exact result to nearest, ties to even, in the
  format's precision and exponent range (subnormals included).  The sign of zero is the
  one part of the standard left out: no modelled code observes it.
\<close>

section \<open>Rounding to nearest even\<close>

definition pow2 :: "int \<Rightarrow> rat" where
  "pow2 k = (if 0 \<le> k then 2 ^ nat k else 1 / 2 ^ nat (- k))"

lemma pow2_powi: "pow2 k = 2 powi k"
  by (simp add: pow2_def power_int_def field_simps)

lemma pow2_pos [simp]: "0 < pow2 k"
  by (simp add: pow2_def)

lemma pow2_nonneg [simp]: "0 \<le> pow2 k"
  by (simp add: pow2_def)

lemma pow2_ne0 [simp]: "pow2 k \<noteq> 0"
  by (simp add: pow2_def)

lemma pow2_add: "pow2 (a + b) = pow2 a * pow2 b"
  by (simp add: pow2_powi power_int_add)

lemma pow2_diff: "pow2 (a - b) = pow2 a / pow2 b"
  by (simp add: pow2_powi power_int_diff)

lemma pow2_mono: "a \<le> b \<Longrightarrow> pow2 a \<le> pow2 b"
  by (simp add: pow2_powi power_int_increasing)

lemma pow2_less_iff: "pow2 a < pow2 b \<longleftrightarrow> a < b"
  by (metis linorder_not_le pow2_mono pow2_powi power_int_strict_increasing one_less_numeral_iff
      semiring_norm(76))

lemma pow2_of_int: "0 \<le> k \<Longrightarrow> pow2 k = of_int (2 ^ nat k)"
  by (simp add: pow2_def)

lemma pow2_nat: "pow2 (int n) = 2 ^ n"
  by (simp add: pow2_def)

text \<open>Rounding a rational to an integer.\<close>

definition round_half_even :: "rat \<Rightarrow> int" where
  "round_half_even x =
     (let f = \<lfloor>x\<rfloor>; r = x - of_int f
      in if r < 1 / 2 then f
         else if 1 / 2 < r then f + 1
         else if even f then f else f + 1)"

lemma round_half_even_of_int [simp]: "round_half_even (of_int z) = z"
  by (simp add: round_half_even_def)

lemma round_half_even_near: "\<bar>of_int (round_half_even x) - x\<bar> \<le> 1 / 2"
proof -
  have "of_int \<lfloor>x\<rfloor> \<le> x" "x < of_int \<lfloor>x\<rfloor> + 1" by linarith+
  then show ?thesis unfolding round_half_even_def Let_def by (auto simp: abs_if) linarith+
qed

lemma round_half_even_floor: "round_half_even x = \<lfloor>x\<rfloor> \<or> round_half_even x = \<lfloor>x\<rfloor> + 1"
  by (auto simp: round_half_even_def Let_def)

lemma round_half_even_mono: "x \<le> y \<Longrightarrow> round_half_even x \<le> round_half_even y"
proof -
  assume le: "x \<le> y"
  then have fl: "\<lfloor>x\<rfloor> \<le> \<lfloor>y\<rfloor>" by (rule floor_mono)
  show ?thesis
  proof (cases "\<lfloor>x\<rfloor> = \<lfloor>y\<rfloor>")
    case True
    with le show ?thesis by (auto simp: round_half_even_def Let_def)
  next
    case False
    with fl have "\<lfloor>x\<rfloor> + 1 \<le> \<lfloor>y\<rfloor>" by linarith
    then show ?thesis
      using round_half_even_floor [of x] round_half_even_floor [of y] by linarith
  qed
qed

lemma round_half_even_minus: "round_half_even (- x) = - round_half_even x"
proof (cases "x = of_int \<lfloor>x\<rfloor>")
  case True
  then show ?thesis by (metis of_int_minus round_half_even_of_int)
next
  case False
  have 1: "of_int \<lfloor>x\<rfloor> < x" using False of_int_floor_le [of x] by linarith
  have 2: "x < of_int \<lfloor>x\<rfloor> + 1" by linarith
  have fm: "\<lfloor>- x\<rfloor> = - \<lfloor>x\<rfloor> - 1"
    using 1 2 by (intro floor_unique) auto
  show ?thesis
    unfolding round_half_even_def Let_def fm by auto
qed

text \<open>The exponent of the leading bit of a positive rational.\<close>

definition floor_log2 :: "rat \<Rightarrow> int" where
  "floor_log2 x =
     (let (n, d) = quotient_of x; e = bitlen n - bitlen d
      in if pow2 e \<le> x then e else e - 1)"

lemma floor_log2_bounds:
  assumes "0 < x"
  shows "pow2 (floor_log2 x) \<le> x" and "x < pow2 (floor_log2 x + 1)"
proof -
  obtain n d where q: "quotient_of x = (n, d)" by (cases "quotient_of x")
  have d: "0 < d" using q by (rule quotient_of_denom_pos)
  have x: "x = of_int n / of_int d" using q by (rule quotient_of_div)
  have n: "0 < n" using assms x d by (simp add: zero_less_divide_iff)
  define a b where "a = bitlen n" and "b = bitlen d"
  have a1: "1 \<le> a" and b1: "1 \<le> b"
    using n d by (auto simp: a_def b_def bitlen_alt_def)
  have N: "pow2 (a - 1) \<le> of_int n" "of_int n < pow2 a"
    using bitlen_bounds [OF n] a1 unfolding a_def [symmetric]
    by (simp_all only: pow2_of_int of_int_le_iff of_int_less_iff diff_ge_0_iff_ge order_trans [OF zero_le_one])
  have D: "pow2 (b - 1) \<le> of_int d" "of_int d < pow2 b"
    using bitlen_bounds [OF d] b1 unfolding b_def [symmetric]
    by (simp_all only: pow2_of_int of_int_le_iff of_int_less_iff diff_ge_0_iff_ge order_trans [OF zero_le_one])
  have dp: "0 < (of_int d :: rat)" using d by simp
  have up: "x < pow2 (a - b + 1)"
  proof -
    have "of_int n < pow2 a" by (rule N)
    also have "pow2 a = pow2 (a - b + 1) * pow2 (b - 1)"
      by (simp flip: pow2_add)
    also have "\<dots> \<le> pow2 (a - b + 1) * of_int d"
      using D(1) by (intro mult_left_mono) auto
    finally show ?thesis using dp by (simp add: x pos_divide_less_eq)
  qed
  have lo: "pow2 (a - b - 1) \<le> x"
  proof -
    have "pow2 (a - b - 1) * of_int d \<le> pow2 (a - b - 1) * pow2 b"
      using D(2) by (intro mult_left_mono) auto
    also have "\<dots> = pow2 (a - 1)" by (simp flip: pow2_add)
    also have "\<dots> \<le> of_int n" by (rule N)
    finally show ?thesis using dp by (simp add: x pos_le_divide_eq)
  qed
  have f: "floor_log2 x = (if pow2 (a - b) \<le> x then a - b else a - b - 1)"
    by (simp add: floor_log2_def q a_def b_def)
  show "pow2 (floor_log2 x) \<le> x" "x < pow2 (floor_log2 x + 1)"
    using up lo by (auto simp: f)
qed

lemma floor_log2_mono:
  assumes "0 < x" "x \<le> y"
  shows "floor_log2 x \<le> floor_log2 y"
proof -
  have "pow2 (floor_log2 x) < pow2 (floor_log2 y + 1)"
    using floor_log2_bounds [of x] floor_log2_bounds [of y] assms by linarith
  then show ?thesis by (simp add: pow2_less_iff)
qed

lemma floor_log2_unique:
  assumes "pow2 e \<le> x" "x < pow2 (e + 1)"
  shows "floor_log2 x = e"
proof -
  have pos: "0 < x" using assms(1) pow2_pos [of e] by linarith
  have "pow2 e < pow2 (floor_log2 x + 1)" "pow2 (floor_log2 x) < pow2 (e + 1)"
    using floor_log2_bounds [OF pos] assms by linarith+
  then show ?thesis by (simp add: pow2_less_iff)
qed


section \<open>Rounding to a precision\<close>

text \<open>
  The quantum of \<open>x\<close> is the weight of its last significant bit: \<open>prec\<close> bits below the
  leading one, but never below the subnormal quantum of the format.
\<close>

definition quantum :: "nat \<Rightarrow> int \<Rightarrow> rat \<Rightarrow> int" where
  "quantum prec emin x = max (floor_log2 \<bar>x\<bar>) emin - int prec + 1"

definition rnd :: "nat \<Rightarrow> int \<Rightarrow> rat \<Rightarrow> rat" where
  "rnd prec emin x =
     (if x = 0 then 0
      else let q = pow2 (quantum prec emin x) in of_int (round_half_even (x / q)) * q)"

lemma rnd_0 [simp]: "rnd p e 0 = 0"
  by (simp add: rnd_def)

lemma rnd_minus: "rnd p e (- x) = - rnd p e x"
  by (simp add: rnd_def quantum_def Let_def round_half_even_minus)

definition representable :: "nat \<Rightarrow> int \<Rightarrow> rat \<Rightarrow> bool" where
  "representable p e y \<longleftrightarrow> (\<exists>m k. y = of_int m * pow2 k \<and> \<bar>m\<bar> \<le> 2 ^ p \<and> e - int p + 1 \<le> k)"

lemma representable_minus: "representable p e y \<Longrightarrow> representable p e (- y)"
  unfolding representable_def by (metis abs_minus_cancel mult_minus_left of_int_minus)

lemma rnd_integer_quotient:
  assumes "y = of_int z * pow2 (quantum p e y)"
  shows "rnd p e y = y"
proof (cases "y = 0")
  case False
  have "y / pow2 (quantum p e y) = of_int z"
    using assms by (metis nonzero_mult_div_cancel_right pow2_ne0)
  then show ?thesis using False assms by (simp add: rnd_def Let_def)
qed simp

lemma rnd_representable:
  assumes "representable p e y" and "1 \<le> p"
  shows "rnd p e y = y"
proof (cases "y = 0")
  case False
  obtain m k where y: "y = of_int m * pow2 k" and m: "\<bar>m\<bar> \<le> 2 ^ p" and k: "e - int p + 1 \<le> k"
    using assms(1) by (auto simp: representable_def)
  define q where "q = quantum p e y"
  have ay: "0 < \<bar>y\<bar>" using False by simp
  show ?thesis
  proof (cases "q \<le> k")
    case True
    have "y = of_int (m * 2 ^ nat (k - q)) * pow2 q"
      using True by (simp add: y pow2_diff flip: pow2_nat)
    then show ?thesis unfolding q_def by (rule rnd_integer_quotient)
  next
    case kq: False
    then have fl: "q = floor_log2 \<bar>y\<bar> - int p + 1"
      using k by (auto simp: q_def quantum_def)
    have "\<bar>of_int m :: rat\<bar> \<le> pow2 (int p)"
      using m by (simp add: pow2_nat) (metis of_int_abs of_int_le_iff of_int_numeral of_int_power)
    then have up: "\<bar>y\<bar> \<le> pow2 (int p + k)"
      by (simp add: y abs_mult pow2_add mult_right_mono)
    have "pow2 (floor_log2 \<bar>y\<bar>) \<le> pow2 (int p + k)"
      using floor_log2_bounds(1) [OF ay] up by linarith
    then have "floor_log2 \<bar>y\<bar> \<le> int p + k"
      using pow2_less_iff [of "int p + k" "floor_log2 \<bar>y\<bar>"] by linarith
    with kq fl have eq: "floor_log2 \<bar>y\<bar> = int p + k" by linarith
    then have "\<bar>y\<bar> = pow2 (int p + k)"
      using floor_log2_bounds(1) [OF ay] up by simp
    moreover have "q = k + 1" using fl eq by simp
    ultimately have "\<bar>y\<bar> = of_int (2 ^ (p - 1)) * pow2 q"
      using assms(2) by (simp add: pow2_nat [symmetric] of_nat_diff flip: pow2_add)
    then have "y = of_int (sgn_int_of y * 2 ^ (p - 1)) * pow2 q" if "sgn_int_of = (\<lambda>y. if y < 0 then - 1 else 1)" for sgn_int_of
      using that by (auto split: if_splits)
    then show ?thesis unfolding q_def by (blast intro: rnd_integer_quotient)
  qed
qed simp

lemma rnd_bounds_pos:
  fixes e :: int
  assumes "0 < x" and "1 \<le> p"
  defines "E \<equiv> max (floor_log2 x) e"
  shows "0 \<le> rnd p e x" and "rnd p e x \<le> pow2 (E + 1)"
    and "e \<le> floor_log2 x \<Longrightarrow> pow2 (floor_log2 x) \<le> rnd p e x"
proof -
  define q where "q = E - int p + 1"
  have r: "rnd p e x = of_int (round_half_even (x / pow2 q)) * pow2 q"
    using assms by (simp add: rnd_def quantum_def q_def Let_def)
  have nn: "0 \<le> round_half_even (x / pow2 q)"
    using round_half_even_mono [of 0 "x / pow2 q"] round_half_even_of_int [of 0] assms(1) by simp
  then show "0 \<le> rnd p e x" by (simp add: r)
  have "x < pow2 (E + 1)"
    using floor_log2_bounds(2) [OF assms(1)] pow2_mono [of "floor_log2 x + 1" "E + 1"]
    by (simp add: E_def)
  moreover have E1: "pow2 (E + 1) = of_int (2 ^ p) * pow2 q"
    by (simp add: q_def pow2_nat [symmetric] flip: pow2_add)
  ultimately have "x / pow2 q \<le> of_int (2 ^ p)"
    by (simp add: pos_divide_le_eq)
  then have "round_half_even (x / pow2 q) \<le> 2 ^ p"
    using round_half_even_mono round_half_even_of_int by metis
  then have "(of_int (round_half_even (x / pow2 q)) :: rat) \<le> of_int (2 ^ p)"
    by (simp only: of_int_le_iff)
  then show "rnd p e x \<le> pow2 (E + 1)"
    unfolding r E1 by (intro mult_right_mono) auto
  assume le: "e \<le> floor_log2 x"
  have E0: "pow2 (floor_log2 x) = of_int (2 ^ (p - 1)) * pow2 q"
    using assms(2) le by (simp add: q_def E_def pow2_nat [symmetric] of_nat_diff flip: pow2_add)
  have "of_int (2 ^ (p - 1)) \<le> x / pow2 q"
    using floor_log2_bounds(1) [OF assms(1)] unfolding E0 by (simp add: pos_le_divide_eq)
  then have "2 ^ (p - 1) \<le> round_half_even (x / pow2 q)"
    using round_half_even_mono round_half_even_of_int by metis
  then have "(of_int (2 ^ (p - 1)) :: rat) \<le> of_int (round_half_even (x / pow2 q))"
    by (simp only: of_int_le_iff)
  then show "pow2 (floor_log2 x) \<le> rnd p e x"
    unfolding r E0 by (intro mult_right_mono) auto
qed

lemma rnd_mono_pos:
  assumes "0 < x" "x \<le> y" "1 \<le> p"
  shows "rnd p e x \<le> rnd p e y"
proof -
  let ?E = "\<lambda>x. max (floor_log2 x) e"
  have y: "0 < y" using assms by linarith
  have le: "?E x \<le> ?E y" using floor_log2_mono [OF assms(1,2)] by auto
  show ?thesis
  proof (cases "?E x = ?E y")
    case True
    then have q: "quantum p e x = quantum p e y" using assms y by (simp add: quantum_def)
    have "round_half_even (x / pow2 (quantum p e y)) \<le> round_half_even (y / pow2 (quantum p e y))"
      using assms by (intro round_half_even_mono divide_right_mono) auto
    then show ?thesis
      using assms y by (simp add: rnd_def q Let_def mult_right_mono)
  next
    case False
    with le have "e \<le> floor_log2 y" and lt: "?E x + 1 \<le> floor_log2 y" by auto
    then have "pow2 (floor_log2 y) \<le> rnd p e y"
      using rnd_bounds_pos(3) [OF y assms(3)] by simp
    moreover have "rnd p e x \<le> pow2 (?E x + 1)"
      by (rule rnd_bounds_pos(2) [OF assms(1,3)])
    ultimately show ?thesis using pow2_mono [OF lt] by linarith
  qed
qed

lemma rnd_nonneg: "0 \<le> x \<Longrightarrow> 1 \<le> p \<Longrightarrow> 0 \<le> rnd p e x"
  using rnd_bounds_pos(1) [of x p e] by (cases "x = 0") auto

lemma rnd_mono: 
  assumes "x \<le> y" "1 \<le> p"
  shows "rnd p e x \<le> rnd p e y"
proof (cases "0 < x")
  case True
  then show ?thesis using assms by (rule rnd_mono_pos)
next
  case False
  then have nx: "0 \<le> rnd p e (- x)" using assms(2) by (intro rnd_nonneg) auto
  show ?thesis
  proof (cases "y < 0")
    case True
    then have "rnd p e (- y) \<le> rnd p e (- x)" using assms by (intro rnd_mono_pos) auto
    then show ?thesis by (simp add: rnd_minus)
  next
    case False
    then have "0 \<le> rnd p e y" using assms(2) by (intro rnd_nonneg) auto
    with nx show ?thesis by (simp add: rnd_minus)
  qed
qed

lemma rnd_le_representable: "x \<le> y \<Longrightarrow> representable p e y \<Longrightarrow> 1 \<le> p \<Longrightarrow> rnd p e x \<le> y"
  using rnd_mono [of x y p e] rnd_representable [of p e y] by simp

lemma representable_le_rnd: "y \<le> x \<Longrightarrow> representable p e y \<Longrightarrow> 1 \<le> p \<Longrightarrow> y \<le> rnd p e x"
  using rnd_mono [of y x p e] rnd_representable [of p e y] by simp

lemma representable_of_int:
  "\<bar>z\<bar> \<le> 2 ^ p \<Longrightarrow> e - int p + 1 \<le> 0 \<Longrightarrow> representable p e (of_int z)"
  unfolding representable_def by (intro exI [of _ z] exI [of _ 0]) (simp add: pow2_def)

lemma rnd_of_int: "\<bar>z\<bar> \<le> 2 ^ p \<Longrightarrow> e - int p + 1 \<le> 0 \<Longrightarrow> 1 \<le> p \<Longrightarrow> rnd p e (of_int z) = of_int z"
  by (simp add: representable_of_int rnd_representable)

section \<open>The formats and their values\<close>

datatype fmt = Binary32 | Binary64

fun prec :: "fmt \<Rightarrow> nat" where
  "prec Binary32 = 24"
| "prec Binary64 = 53"

fun emax :: "fmt \<Rightarrow> int" where
  "emax Binary32 = 127"
| "emax Binary64 = 1023"

definition emin :: "fmt \<Rightarrow> int" where
  "emin f = 1 - emax f"

lemma prec_ge1 [simp]: "Suc 0 \<le> prec f"
  by (cases f) auto

datatype fp = Fin rat | PInf | NInf | NaN

type_synonym float32 = fp
type_synonym float64 = fp

definition fp_round :: "fmt \<Rightarrow> rat \<Rightarrow> fp" where
  "fp_round f x =
     (let y = rnd (prec f) (emin f) x
      in if pow2 (emax f + 1) \<le> y then PInf
         else if y \<le> - pow2 (emax f + 1) then NInf
         else Fin y)"

fun fp_neg :: "fp \<Rightarrow> fp" where
  "fp_neg (Fin a) = Fin (- a)"
| "fp_neg PInf = NInf"
| "fp_neg NInf = PInf"
| "fp_neg NaN = NaN"

fun fp_abs :: "fp \<Rightarrow> fp" where
  "fp_abs (Fin a) = Fin \<bar>a\<bar>"
| "fp_abs PInf = PInf"
| "fp_abs NInf = PInf"
| "fp_abs NaN = NaN"

fun fp_add :: "fmt \<Rightarrow> fp \<Rightarrow> fp \<Rightarrow> fp" where
  "fp_add f (Fin a) (Fin b) = fp_round f (a + b)"
| "fp_add f NaN _ = NaN"
| "fp_add f _ NaN = NaN"
| "fp_add f PInf NInf = NaN"
| "fp_add f NInf PInf = NaN"
| "fp_add f PInf _ = PInf"
| "fp_add f NInf _ = NInf"
| "fp_add f _ b = b"

definition fp_sub :: "fmt \<Rightarrow> fp \<Rightarrow> fp \<Rightarrow> fp" where
  "fp_sub f a b = fp_add f a (fp_neg b)"

text \<open>The infinity with the sign of a finite factor; the product with zero is invalid.\<close>

definition fp_inf_of :: "rat \<Rightarrow> fp" where
  "fp_inf_of s = (if 0 < s then PInf else if s < 0 then NInf else NaN)"

fun fp_sign :: "fp \<Rightarrow> rat" where
  "fp_sign (Fin a) = (if 0 < a then 1 else if a < 0 then - 1 else 0)"
| "fp_sign PInf = 1"
| "fp_sign NInf = - 1"
| "fp_sign NaN = 0"

fun fp_mul :: "fmt \<Rightarrow> fp \<Rightarrow> fp \<Rightarrow> fp" where
  "fp_mul f (Fin a) (Fin b) = fp_round f (a * b)"
| "fp_mul f NaN _ = NaN"
| "fp_mul f _ NaN = NaN"
| "fp_mul f a b = fp_inf_of (fp_sign a * fp_sign b)"

text \<open>Division by zero yields the signed infinity, or NaN for a zero dividend.\<close>

fun fp_div :: "fmt \<Rightarrow> fp \<Rightarrow> fp \<Rightarrow> fp" where
  "fp_div f (Fin a) (Fin b) = (if b = 0 then fp_inf_of a else fp_round f (a / b))"
| "fp_div f NaN _ = NaN"
| "fp_div f _ NaN = NaN"
| "fp_div f (Fin a) _ = Fin 0"
| "fp_div f a (Fin b) = fp_inf_of (fp_sign a * (if b < 0 then - 1 else 1))"
| "fp_div f _ _ = NaN"

text \<open>The fused multiply-add of the vector path: one rounding of \<open>a * b + c\<close>.\<close>

definition fp_fma :: "fmt \<Rightarrow> fp \<Rightarrow> fp \<Rightarrow> fp \<Rightarrow> fp" where
  "fp_fma f a b c =
     (case (a, b, c) of
        (Fin x, Fin y, Fin z) \<Rightarrow> fp_round f (x * y + z)
      | _ \<Rightarrow> fp_add f (fp_mul f a b) c)"

text \<open>
  Correctly rounded square root: the integer root of the argument scaled to more than twice
  the precision, with a sticky half when the root is not exact.
\<close>

fun isqrt :: "nat \<Rightarrow> nat" where
  "isqrt n = (if n = 0 then 0
              else let r = 2 * isqrt (n div 4) in if (r + 1) * (r + 1) \<le> n then r + 1 else r)"

declare isqrt.simps [simp del]

definition rat_sqrt_scaled :: "nat \<Rightarrow> rat \<Rightarrow> rat" where
  "rat_sqrt_scaled p x =
     (let s = nat (int p + 2 - floor_log2 x div 2);
          y = x * 4 ^ s;
          m = isqrt (nat \<lfloor>y\<rfloor>)
      in if of_nat (m * m) = y then of_nat m / 2 ^ s
         else of_nat (2 * m + 1) / 2 ^ (s + 1))"

fun fp_sqrt :: "fmt \<Rightarrow> fp \<Rightarrow> fp" where
  "fp_sqrt f (Fin x) = (if x = 0 then Fin 0 else if x < 0 then NaN
                        else fp_round f (rat_sqrt_scaled (prec f) x))"
| "fp_sqrt f PInf = PInf"
| "fp_sqrt f _ = NaN"

section \<open>Comparisons, casts and clamping\<close>

text \<open>Every ordered comparison with a NaN is false.\<close>

fun fp_lt :: "fp \<Rightarrow> fp \<Rightarrow> bool" where
  "fp_lt (Fin a) (Fin b) \<longleftrightarrow> a < b"
| "fp_lt NaN _ \<longleftrightarrow> False"
| "fp_lt _ NaN \<longleftrightarrow> False"
| "fp_lt NInf b \<longleftrightarrow> b \<noteq> NInf"
| "fp_lt a PInf \<longleftrightarrow> a \<noteq> PInf"
| "fp_lt _ _ \<longleftrightarrow> False"

fun fp_le :: "fp \<Rightarrow> fp \<Rightarrow> bool" where
  "fp_le (Fin a) (Fin b) \<longleftrightarrow> a \<le> b"
| "fp_le NaN _ \<longleftrightarrow> False"
| "fp_le _ NaN \<longleftrightarrow> False"
| "fp_le NInf _ \<longleftrightarrow> True"
| "fp_le _ PInf \<longleftrightarrow> True"
| "fp_le _ _ \<longleftrightarrow> False"

abbreviation fp_gt :: "fp \<Rightarrow> fp \<Rightarrow> bool" where
  "fp_gt a b \<equiv> fp_lt b a"

abbreviation fp_ge :: "fp \<Rightarrow> fp \<Rightarrow> bool" where
  "fp_ge a b \<equiv> fp_le b a"

text \<open>\<open>std::clamp(v, lo, hi)\<close>; a NaN passes through.\<close>

definition fp_clamp :: "fp \<Rightarrow> fp \<Rightarrow> fp \<Rightarrow> fp" where
  "fp_clamp v lo hi = (if fp_lt v lo then lo else if fp_lt hi v then hi else v)"

text \<open>
  A cast of a floating value to an integer truncates; outside the target's range it is
  undefined behaviour, which is the result \<open>None\<close>.
\<close>

definition rat_trunc :: "rat \<Rightarrow> int" where
  "rat_trunc x = (if 0 \<le> x then \<lfloor>x\<rfloor> else \<lceil>x\<rceil>)"

fun fp_to_int :: "int \<Rightarrow> int \<Rightarrow> fp \<Rightarrow> int option" where
  "fp_to_int lo hi (Fin x) =
     (if lo \<le> rat_trunc x \<and> rat_trunc x \<le> hi then Some (rat_trunc x) else None)"
| "fp_to_int lo hi _ = None"

abbreviation fp_to_i32 :: "fp \<Rightarrow> int option" where
  "fp_to_i32 \<equiv> fp_to_int (- (2 ^ 31)) (2 ^ 31 - 1)"

definition fp_to_u64 :: "fp \<Rightarrow> u64 option" where
  "fp_to_u64 x = map_option of_int (fp_to_int 0 (2 ^ 64 - 1) x)"

definition fp_of_int :: "fmt \<Rightarrow> int \<Rightarrow> fp" where
  "fp_of_int f z = fp_round f (of_int z)"

definition fp_of_u64 :: "fmt \<Rightarrow> u64 \<Rightarrow> fp" where
  "fp_of_u64 f w = fp_of_int f (uint w)"

text \<open>A decimal literal of the source, rounded to the format by the compiler.\<close>

definition lit64 :: "rat \<Rightarrow> fp" where
  "lit64 x = fp_round Binary64 x"

definition lit32 :: "rat \<Rightarrow> fp" where
  "lit32 x = fp_round Binary32 x"

subsection \<open>Exactness and thresholds\<close>

lemma fp_round_in_range:
  assumes "\<bar>x\<bar> \<le> pow2 (emax f)"
  shows "fp_round f x = Fin (rnd (prec f) (emin f) x)"
proof -
  have rep: "representable (prec f) (emin f) (pow2 (emax f))"
    unfolding representable_def
    by (intro exI [of _ 1] exI [of _ "emax f"]) (cases f; simp add: emin_def)
  have lt: "pow2 (emax f) < pow2 (emax f + 1)" by (simp add: pow2_less_iff)
  have "x \<le> pow2 (emax f)" "- pow2 (emax f) \<le> x" using assms by linarith+
  then have "rnd (prec f) (emin f) x \<le> pow2 (emax f)" "- pow2 (emax f) \<le> rnd (prec f) (emin f) x"
    using rep by (simp_all add: rnd_le_representable representable_le_rnd representable_minus)
  with lt show ?thesis by (simp add: fp_round_def Let_def)
qed

lemma fp_round_of_int:
  assumes "\<bar>z\<bar> \<le> 2 ^ prec f"
  shows "fp_round f (of_int z) = Fin (of_int z)"
proof -
  have "(of_int \<bar>z\<bar> :: rat) \<le> of_int (2 ^ prec f)" using assms by (simp only: of_int_le_iff)
  also have "\<dots> = pow2 (int (prec f))" by (simp add: pow2_nat)
  also have "\<dots> \<le> pow2 (emax f)" by (intro pow2_mono) (cases f; simp)
  finally have "fp_round f (of_int z) = Fin (rnd (prec f) (emin f) (of_int z))"
    by (intro fp_round_in_range) simp
  moreover have "emin f - int (prec f) + 1 \<le> 0" by (cases f) (auto simp: emin_def)
  ultimately show ?thesis using assms rnd_of_int [OF assms] by simp
qed

lemma fp_of_int_exact: "\<bar>z\<bar> \<le> 2 ^ prec f \<Longrightarrow> fp_of_int f z = Fin (of_int z)"
  by (simp add: fp_of_int_def fp_round_of_int)

lemma lit64_numeral [simp]: "numeral n \<le> (2::int) ^ 53 \<Longrightarrow> lit64 (numeral n) = Fin (numeral n)"
  using fp_round_of_int [of "numeral n" Binary64] by (simp add: lit64_def)

lemma lit32_numeral [simp]: "numeral n \<le> (2::int) ^ 24 \<Longrightarrow> lit32 (numeral n) = Fin (numeral n)"
  using fp_round_of_int [of "numeral n" Binary32] by (simp add: lit32_def)

lemma lit_0_1 [simp]: "lit64 0 = Fin 0" "lit64 1 = Fin 1" "lit32 0 = Fin 0" "lit32 1 = Fin 1"
  using fp_round_of_int [of 0 Binary64] fp_round_of_int [of 1 Binary64]
    fp_round_of_int [of 0 Binary32] fp_round_of_int [of 1 Binary32]
  by (simp_all add: lit64_def lit32_def)

text \<open>Evaluation on integer values, as the simplifier uses it.\<close>

lemma fp_round_numeral [simp]:
  "numeral n \<le> (2::int) ^ prec f \<Longrightarrow> fp_round f (numeral n) = Fin (numeral n)"
  using fp_round_of_int [of "numeral n" f] by simp

lemma fp_round_0_1 [simp]: "fp_round f 0 = Fin 0" "fp_round f 1 = Fin 1"
  using fp_round_of_int [of 0 f] fp_round_of_int [of 1 f] by simp_all

lemma fp_of_int_simps [simp]:
  "numeral n \<le> (2::int) ^ prec f \<Longrightarrow> fp_of_int f (numeral n) = Fin (numeral n)"
  "fp_of_int f 0 = Fin 0" "fp_of_int f 1 = Fin 1"
  by (simp_all add: fp_of_int_def)

lemma rat_trunc_of_int [simp]: "rat_trunc (of_int z) = z" "rat_trunc (numeral n) = numeral n"
    "rat_trunc 0 = 0" "rat_trunc 1 = 1"
  by (simp_all add: rat_trunc_def)

text \<open>
  A quotient of integers compared with a small integer threshold: rounding cannot move it
  across, because the nearest quotient on the other side is farther away than the spacing of
  doubles.  So the \<open>double\<close> percentage tests of the guards decide exactly what the integer
  inequality says.
\<close>

lemma rnd_quotient_less_iff:
  fixes a b t e :: int
  assumes b: "0 < b" "b \<le> 2 ^ 46" and t: "0 < t" "t \<le> 128" and e: "e \<le> 0"
  shows "rnd 53 e (of_int a / of_int b) < of_int t \<longleftrightarrow> a < t * b"
proof
  have rep: "representable 53 e (of_int t)"
    using t e by (intro representable_of_int) auto
  assume lt: "rnd 53 e (of_int a / of_int b) < of_int t"
  have "\<not> (of_int t \<le> (of_int a / of_int b :: rat))"
    using representable_le_rnd [OF _ rep] lt by force
  then show "a < t * b"
    using b(1) by (metis of_int_less_iff of_int_mult not_le of_int_0_less_iff pos_less_divide_eq
        linorder_not_le pos_le_divide_eq)
next
  assume "a < t * b"
  then have "a + 1 \<le> t * b" by simp
  then have "(of_int (a + 1) :: rat) \<le> of_int (t * b)" by (simp only: of_int_le_iff)
  then have "(of_int a + 1) / of_int b \<le> (of_int t :: rat)"
    using b(1) by (simp add: pos_divide_le_eq)
  then have q: "of_int a / of_int b \<le> of_int t - 1 / (of_int b :: rat)"
    by (simp add: add_divide_distrib)
  have "(of_int b :: rat) \<le> of_int (2 ^ 46)" using b(2) by (simp only: of_int_le_iff)
  then have "1 / (2 ^ 46) \<le> 1 / (of_int b :: rat)"
    using b(1) by (intro divide_left_mono) auto
  with q have le: "of_int a / of_int b \<le> of_int t - 1 / (2 ^ 46 :: rat)" by linarith
  have eq: "of_int t - 1 / (2 ^ 46 :: rat) = of_int (t * 2 ^ 46 - 1) * pow2 (- 46)"
    by (simp add: pow2_def field_simps)
  have "representable 53 e (of_int t - 1 / 2 ^ 46)"
    unfolding eq representable_def
    using t e by (intro exI [of _ "t * 2 ^ 46 - 1"] exI [of _ "- 46"]) auto
  from rnd_le_representable [OF le this] show "rnd 53 e (of_int a / of_int b) < of_int t"
    by simp
qed

lemma fp_quotient:
  fixes a b :: int
  assumes "0 \<le> a" "a \<le> 2 ^ 53" "0 < b"
  shows "fp_div Binary64 (Fin (of_int a)) (Fin (of_int b)) = Fin (rnd 53 (emin Binary64) (of_int a / of_int b))"
proof -
  have "(of_int a :: rat) / of_int b \<le> of_int a" using assms by (simp add: divide_le_eq mult_le_cancel_left1)
  also have "\<dots> \<le> of_int (2 ^ 53)" using assms(2) by (simp only: of_int_le_iff)
  also have "\<dots> = pow2 53" by (simp add: pow2_def)
  also have "\<dots> \<le> pow2 (emax Binary64)" by (intro pow2_mono) simp
  finally have "\<bar>of_int a / of_int b\<bar> \<le> pow2 (emax Binary64)" using assms(1,3) by (simp add: abs_of_nonneg)
  from fp_round_in_range [OF this] assms(3) show ?thesis by simp
qed

lemma fp_quotient_lt_iff:
  fixes a b t :: int
  assumes "0 \<le> a" "a \<le> 2 ^ 53" "0 < b" "b \<le> 2 ^ 46" "0 < t" "t \<le> 128"
  shows "fp_lt (fp_div Binary64 (Fin (of_int a)) (Fin (of_int b))) (Fin (of_int t)) \<longleftrightarrow> a < t * b"
  unfolding fp_quotient [OF assms(1-3)]
  using assms rnd_quotient_less_iff [of b t "emin Binary64" a] by (simp add: emin_def)

lemma rnd_quotient_greater_iff:
  fixes a b t e :: int
  assumes b: "0 < b" "b \<le> 2 ^ 46" and t: "0 \<le> t" "t < 127" and e: "e \<le> 0"
  shows "of_int t < rnd 53 e (of_int a / of_int b) \<longleftrightarrow> t * b < a"
proof
  have rep: "representable 53 e (of_int t)"
    using t e by (intro representable_of_int) auto
  assume lt: "of_int t < rnd 53 e (of_int a / of_int b)"
  have "\<not> (of_int a / of_int b \<le> (of_int t :: rat))"
    using rnd_le_representable [OF _ rep] lt by force
  then show "t * b < a"
    using b(1) by (metis not_le of_int_0_less_iff of_int_le_iff of_int_mult pos_divide_le_eq)
next
  assume "t * b < a"
  then have "t * b + 1 \<le> a" by simp
  then have "of_int (t * b + 1) \<le> (of_int a :: rat)" by (simp only: of_int_le_iff)
  then have q: "of_int t + 1 / (of_int b :: rat) \<le> of_int a / of_int b"
    using b(1) by (simp add: pos_le_divide_eq distrib_right)
  have "(of_int b :: rat) \<le> of_int (2 ^ 46)" using b(2) by (simp only: of_int_le_iff)
  then have "1 / (2 ^ 46) \<le> 1 / (of_int b :: rat)"
    using b(1) by (intro divide_left_mono) auto
  with q have le: "of_int t + 1 / (2 ^ 46 :: rat) \<le> of_int a / of_int b" by linarith
  have eq: "of_int t + 1 / (2 ^ 46 :: rat) = of_int (t * 2 ^ 46 + 1) * pow2 (- 46)"
    by (simp add: pow2_def field_simps)
  have "representable 53 e (of_int t + 1 / 2 ^ 46)"
    unfolding eq representable_def
    using t e by (intro exI [of _ "t * 2 ^ 46 + 1"] exI [of _ "- 46"]) auto
  from representable_le_rnd [OF le this] show "of_int t < rnd 53 e (of_int a / of_int b)"
    by simp
qed

lemma fp_quotient_gt_iff:
  fixes a b t :: int
  assumes "0 \<le> a" "a \<le> 2 ^ 53" "0 < b" "b \<le> 2 ^ 46" "0 \<le> t" "t < 127"
  shows "fp_lt (Fin (of_int t)) (fp_div Binary64 (Fin (of_int a)) (Fin (of_int b))) \<longleftrightarrow> t * b < a"
  unfolding fp_quotient [OF assms(1-3)]
  using assms rnd_quotient_greater_iff [of b t "emin Binary64" a] by (simp add: emin_def)

end
