(* ===== verification/Os_Interface.thy ===== *)
theory Os_Interface
  imports Floats
begin

text \<open>
  The boundary between the daemon and the operating system.  The kernel, the C library's
  clocks and the system bus are not part of the repository: they are the record
  \<open>kernel\<close>, one function per call the code makes, each a function of the whole history of
  calls made so far.  So a theorem about every \<open>kernel\<close> holds for every environment the
  daemon can meet, including one in which other processes change the answer between two
  calls.  A computation of the daemon that makes calls is a state transformer over that
  history, written with the state monad of the library in the order the code makes them.
\<close>

section \<open>Calls\<close>

datatype file_kind = Regular | Directory | Socket | Fifo | BlockDev | CharDev | OtherKind

record stat_t =
  st_kind :: file_kind
  st_size :: int
  st_mtime :: int
  st_uid :: u32
  st_gid :: u32
  st_mode :: u32

text \<open>
  The constants of the kernel's wireless interface that the messages carry; they come from its
  headers.
\<close>

record nl_abi =
  nl_cmd_set_power_save :: u8
  nl_cmd_get_power_save :: u8
  nl_cmd_set_wiphy :: u8
  nl_attr_ifindex :: u16
  nl_attr_ps_state :: u16
  nl_attr_tx_setting :: u16
  nl_attr_tx_level :: u16
  nl_ps_enabled :: u32
  nl_ps_disabled :: u32
  nl_tx_automatic :: u32
  nl_tx_limited :: u32

record statvfs_t =
  f_blocks :: u64
  f_bavail :: u64
  f_frsize :: u64

record sysinfo_t =
  si_freeram :: u64
  si_totalswap :: u64
  si_freeswap :: u64
  si_mem_unit :: u64

text \<open>The type of a directory entry, as \<open>getdents\<close> reports it.\<close>

datatype entry_type = EntryDir | EntryLink | EntryRegular | EntryUnknown | EntryOther

text \<open>What a forked child is started for; its own program is modelled beside its caller.\<close>

datatype child_job =
    CreateSwapfile bool string u64
  | SwapoffOnly string
  | SwapoffAndUnlink string

datatype wait_result = StillRunning | WaitFailed | Exited int | Killed

datatype kill_result = KillOk | NoSuchProcess | KillOther

datatype sched_policy = SCHED_OTHER | SCHED_BATCH | SCHED_IDLE | SCHED_RAW int

text \<open>
  One constructor per call; a call that changes the system carries its outcome, so that a
  history tells what has been done.  The log calls carry the fields of the audit record.
\<close>

datatype event =
    EvReadFile string
  | EvOpenDir string
  | EvGetDents string "(string \<times> entry_type) list"
  | EvReadLink string
  | EvStat string
  | EvStatVfs string
  | EvStatFs string
  | EvAccess string
  | EvClock
  | EvSysInfo
  | EvGetEnv string
  | EvWait pid wait_result
  | EvUnlink string bool
  | EvRmdir string bool
  | EvMkdir string bool
  | EvRename string string bool
  | EvSwapon string int bool
  | EvSwapoff string bool
  | EvFork child_job pid
  | EvOpenWrite string bool
  | EvFallocate string u64 bool
  | EvExec string "string list"
  | EvWrite string string int
  | EvSetScheduler pid sched_policy bool
  | EvSetPriority pid int
  | EvSetAffinity pid "nat set" bool
  | EvPopen string
  | EvSystem string bool
  | EvOpenFd string bool
  | EvCloseFd string
  | EvIoPrio pid int int bool
  | EvKill pid int
  | EvPidfdOpen pid bool
  | EvOpenMaps pid bool
  | EvReadMaps pid
  | EvMadvisePageout pid "(u64 \<times> u64) list" int
  | EvBusOpen bool
  | EvBusName bool
  | EvBusEmit u8 bool
  | EvBusClose
  | EvAlert string
  | EvMitigation pid string string
  | EvRollback pid
  | EvGetTask pid
  | EvIfIndex string
  | EvNetlinkOpen bool
  | EvNetlink "u8 list"
  | EvOpenRead string bool
  | EvPerfOpen nat nat bool
  | EvPerfRead nat nat
  | EvMsr int
  | EvSetup string bool
  | EvArmTimer int int bool
  | EvSleep nat
  | EvReply string

type_synonym history = "event list"

record kernel =
  k_read_file :: "history \<Rightarrow> string \<Rightarrow> nat \<Rightarrow> string option"
  k_opendir :: "history \<Rightarrow> string \<Rightarrow> string list option"
  k_open_dents :: "history \<Rightarrow> string \<Rightarrow> nat option"
  k_getdents :: "history \<Rightarrow> string \<Rightarrow> (string \<times> entry_type) list"
  k_readlink :: "history \<Rightarrow> string \<Rightarrow> string option"
  k_stat :: "history \<Rightarrow> string \<Rightarrow> stat_t option"
  k_lstat :: "history \<Rightarrow> string \<Rightarrow> stat_t option"
  k_statvfs :: "history \<Rightarrow> string \<Rightarrow> statvfs_t option"
  k_statfs_type :: "history \<Rightarrow> string \<Rightarrow> u32 option"
  k_access_x :: "history \<Rightarrow> string \<Rightarrow> bool"
  k_now_real :: "history \<Rightarrow> u64"
  k_now_steady :: "history \<Rightarrow> u64"
  k_sysinfo :: "history \<Rightarrow> sysinfo_t option"
  k_getenv :: "history \<Rightarrow> string \<Rightarrow> string option"
  k_pw_dir :: "history \<Rightarrow> string option"
  k_waitpid :: "history \<Rightarrow> pid \<Rightarrow> wait_result"
  k_unlink :: "history \<Rightarrow> string \<Rightarrow> bool"
  k_rmdir :: "history \<Rightarrow> string \<Rightarrow> bool"
  k_mkdir :: "history \<Rightarrow> string \<Rightarrow> bool"
  k_rename :: "history \<Rightarrow> string \<Rightarrow> string \<Rightarrow> bool"
  k_swapon :: "history \<Rightarrow> string \<Rightarrow> int \<Rightarrow> bool"
  k_swapoff :: "history \<Rightarrow> string \<Rightarrow> bool"
  k_fork :: "history \<Rightarrow> child_job \<Rightarrow> pid"
  k_open_write :: "history \<Rightarrow> string \<Rightarrow> bool"
  k_fallocate :: "history \<Rightarrow> string \<Rightarrow> u64 \<Rightarrow> bool"
  k_exec :: "history \<Rightarrow> string \<Rightarrow> string list \<Rightarrow> int option"
  k_write :: "history \<Rightarrow> string \<Rightarrow> string \<Rightarrow> int"
  k_setscheduler :: "history \<Rightarrow> pid \<Rightarrow> sched_policy \<Rightarrow> bool"
  k_setaffinity :: "history \<Rightarrow> pid \<Rightarrow> nat set \<Rightarrow> bool"
  k_online_cpus :: int
  k_popen :: "history \<Rightarrow> string \<Rightarrow> string option"
  k_system :: "history \<Rightarrow> string \<Rightarrow> bool"
  k_ioprio_set :: "history \<Rightarrow> pid \<Rightarrow> int \<Rightarrow> int \<Rightarrow> bool"
  k_kill :: "history \<Rightarrow> pid \<Rightarrow> int \<Rightarrow> kill_result"
  k_pidfd_open :: "history \<Rightarrow> pid \<Rightarrow> bool"
  k_open_maps :: "history \<Rightarrow> pid \<Rightarrow> nat option"
  k_read_maps :: "history \<Rightarrow> pid \<Rightarrow> nat \<Rightarrow> string"
  k_madvise :: "history \<Rightarrow> pid \<Rightarrow> (u64 \<times> u64) list \<Rightarrow> int"
  k_bus_open :: "history \<Rightarrow> bool"
  k_bus_name :: "history \<Rightarrow> bool"
  k_bus_emit :: "history \<Rightarrow> u8 \<Rightarrow> bool"
  k_getpriority :: "history \<Rightarrow> pid \<Rightarrow> int"
  k_getscheduler :: "history \<Rightarrow> pid \<Rightarrow> int"
  k_getaffinity :: "history \<Rightarrow> pid \<Rightarrow> nat set option"
  k_exists :: "history \<Rightarrow> string \<Rightarrow> bool"
  k_ifindex :: "history \<Rightarrow> string \<Rightarrow> u32"
  k_netlink_open :: "history \<Rightarrow> bool"
  k_netlink :: "history \<Rightarrow> u8 list \<Rightarrow> u8 list option"
  k_nl_abi :: nl_abi
  k_euid :: u32
  k_self :: pid
  k_getppid :: "history \<Rightarrow> pid"
  k_errno_clear :: "history \<Rightarrow> bool"
  k_access_r :: "history \<Rightarrow> string \<Rightarrow> bool"
  k_open_ro :: "history \<Rightarrow> string \<Rightarrow> bool"
  k_perf_open :: "history \<Rightarrow> nat \<Rightarrow> nat \<Rightarrow> bool"
  k_perf_read :: "history \<Rightarrow> nat \<Rightarrow> nat \<Rightarrow> u64 option"
  k_msr :: "history \<Rightarrow> int \<Rightarrow> u64 option"
  k_now_boot :: "history \<Rightarrow> int"
  k_setup :: "history \<Rightarrow> string \<Rightarrow> bool"
  k_arm_timer :: "history \<Rightarrow> int \<Rightarrow> int \<Rightarrow> bool"
  k_now_ms :: "history \<Rightarrow> u64"
  k_receive :: "history \<Rightarrow> string option"

text \<open>A system on which nothing can be read or changed; the examples override what they need.\<close>

definition quiet_kernel :: kernel where
  "quiet_kernel =
     \<lparr>k_read_file = (\<lambda>_ _ _. None),
      k_opendir = (\<lambda>_ _. None),
      k_open_dents = (\<lambda>_ _. None),
      k_getdents = (\<lambda>_ _. []),
      k_readlink = (\<lambda>_ _. None),
      k_stat = (\<lambda>_ _. None),
      k_lstat = (\<lambda>_ _. None),
      k_statvfs = (\<lambda>_ _. None),
      k_statfs_type = (\<lambda>_ _. None),
      k_access_x = (\<lambda>_ _. False),
      k_now_real = (\<lambda>_. 0),
      k_now_steady = (\<lambda>_. 0),
      k_sysinfo = (\<lambda>_. None),
      k_getenv = (\<lambda>_ _. None),
      k_pw_dir = (\<lambda>_. None),
      k_waitpid = (\<lambda>_ _. StillRunning),
      k_unlink = (\<lambda>_ _. False),
      k_rmdir = (\<lambda>_ _. False),
      k_mkdir = (\<lambda>_ _. False),
      k_rename = (\<lambda>_ _ _. False),
      k_swapon = (\<lambda>_ _ _. False),
      k_swapoff = (\<lambda>_ _. False),
      k_fork = (\<lambda>_ _. - 1),
      k_open_write = (\<lambda>_ _. False),
      k_fallocate = (\<lambda>_ _ _. False),
      k_exec = (\<lambda>_ _ _. None),
      k_write = (\<lambda>_ _ _. 0),
      k_setscheduler = (\<lambda>_ _ _. False),
      k_setaffinity = (\<lambda>_ _ _. False),
      k_online_cpus = 8,
      k_popen = (\<lambda>_ _. None),
      k_system = (\<lambda>_ _. False),
      k_ioprio_set = (\<lambda>_ _ _ _. False),
      k_kill = (\<lambda>_ _ _. NoSuchProcess),
      k_pidfd_open = (\<lambda>_ _. False),
      k_open_maps = (\<lambda>_ _. None),
      k_read_maps = (\<lambda>_ _ _. []),
      k_madvise = (\<lambda>_ _ _. 0),
      k_bus_open = (\<lambda>_. False),
      k_bus_name = (\<lambda>_. False),
      k_bus_emit = (\<lambda>_ _. False),
      k_getpriority = (\<lambda>_ _. 0),
      k_getscheduler = (\<lambda>_ _. 0),
      k_getaffinity = (\<lambda>_ _. None),
      k_exists = (\<lambda>_ _. False),
      k_ifindex = (\<lambda>_ _. 0),
      k_netlink_open = (\<lambda>_. False),
      k_netlink = (\<lambda>_ _. None),
      k_nl_abi = \<lparr>nl_cmd_set_power_save = 61, nl_cmd_get_power_save = 62, nl_cmd_set_wiphy = 2,
        nl_attr_ifindex = 3, nl_attr_ps_state = 93, nl_attr_tx_setting = 97, nl_attr_tx_level = 98,
        nl_ps_enabled = 1, nl_ps_disabled = 0, nl_tx_automatic = 0, nl_tx_limited = 1\<rparr>,
      k_euid = 0, k_self = 4000, k_getppid = (\<lambda>_. 1), k_errno_clear = (\<lambda>_. True),
      k_access_r = (\<lambda>_ _. False), k_open_ro = (\<lambda>_ _. False), k_perf_open = (\<lambda>_ _ _. False),
      k_perf_read = (\<lambda>_ _ _. None), k_msr = (\<lambda>_ _. None), k_now_boot = (\<lambda>_. 0), k_setup = (\<lambda>_ _. False),
      k_arm_timer = (\<lambda>_ _ _. False), k_now_ms = (\<lambda>_. 0), k_receive = (\<lambda>_. None)\<rparr>"

type_synonym 'a io = "(history, 'a) state"

abbreviation return_io :: "'a \<Rightarrow> 'a io" where
  "return_io \<equiv> State_Monad.return"

definition syscall :: "(history \<Rightarrow> 'a) \<Rightarrow> ('a \<Rightarrow> event) \<Rightarrow> 'a io" where
  "syscall f ev = State (\<lambda>h. (f h, ev (f h) # h))"

lemma run_syscall [simp]: "run_state (syscall f ev) h = (f h, ev (f h) # h)"
  by (simp add: syscall_def)

definition log_event :: "event \<Rightarrow> unit io" where
  "log_event e = syscall (\<lambda>_. ()) (\<lambda>_. e)"

definition io_when :: "bool \<Rightarrow> unit io \<Rightarrow> unit io" where
  "io_when b m = (if b then m else return_io ())"

text \<open>
  \<open>open(O_RDONLY)\<close>, one \<open>read\<close> of at most \<open>n\<close> bytes, \<open>close\<close>.
\<close>

definition sys_read_file :: "kernel \<Rightarrow> string \<Rightarrow> nat \<Rightarrow> string option io" where
  "sys_read_file k p n =
     syscall (\<lambda>h. map_option (take n) (k_read_file k h p n)) (\<lambda>_. EvReadFile p)"

definition sys_opendir :: "kernel \<Rightarrow> string \<Rightarrow> string list option io" where
  "sys_opendir k p = syscall (\<lambda>h. k_opendir k h p) (\<lambda>_. EvOpenDir p)"

text \<open>
  A directory that is read in portions: a finite one, which answers the number of reads that
  \<open>k_open_dents\<close> gives and then reports its end (or an error) as the empty portion.
\<close>

definition sys_open_dents :: "kernel \<Rightarrow> string \<Rightarrow> nat option io" where
  "sys_open_dents k p = syscall (\<lambda>h. k_open_dents k h p) (\<lambda>_. EvOpenDir p)"

definition sys_getdents :: "kernel \<Rightarrow> string \<Rightarrow> (string \<times> entry_type) list io" where
  "sys_getdents k p = syscall (\<lambda>h. k_getdents k h p) (EvGetDents p)"

definition sys_getdents_end :: "string \<Rightarrow> (string \<times> entry_type) list io" where
  "sys_getdents_end p = syscall (\<lambda>_. []) (EvGetDents p)"

text \<open>\<open>readlink\<close> of at most \<open>n\<close> bytes.\<close>

definition sys_readlink :: "kernel \<Rightarrow> string \<Rightarrow> nat \<Rightarrow> string option io" where
  "sys_readlink k p n = syscall (\<lambda>h. map_option (take n) (k_readlink k h p)) (\<lambda>_. EvReadLink p)"

definition sys_stat :: "kernel \<Rightarrow> string \<Rightarrow> stat_t option io" where
  "sys_stat k p = syscall (\<lambda>h. k_stat k h p) (\<lambda>_. EvStat p)"

definition sys_lstat :: "kernel \<Rightarrow> string \<Rightarrow> stat_t option io" where
  "sys_lstat k p = syscall (\<lambda>h. k_lstat k h p) (\<lambda>_. EvStat p)"

definition sys_statvfs :: "kernel \<Rightarrow> string \<Rightarrow> statvfs_t option io" where
  "sys_statvfs k p = syscall (\<lambda>h. k_statvfs k h p) (\<lambda>_. EvStatVfs p)"

definition sys_statfs_type :: "kernel \<Rightarrow> string \<Rightarrow> u32 option io" where
  "sys_statfs_type k p = syscall (\<lambda>h. k_statfs_type k h p) (\<lambda>_. EvStatFs p)"

definition sys_access_x :: "kernel \<Rightarrow> string \<Rightarrow> bool io" where
  "sys_access_x k p = syscall (\<lambda>h. k_access_x k h p) (\<lambda>_. EvAccess p)"

definition sys_now_real :: "kernel \<Rightarrow> u64 io" where
  "sys_now_real k = syscall (k_now_real k) (\<lambda>_. EvClock)"

definition sys_now_steady :: "kernel \<Rightarrow> u64 io" where
  "sys_now_steady k = syscall (k_now_steady k) (\<lambda>_. EvClock)"

definition sys_sysinfo :: "kernel \<Rightarrow> sysinfo_t option io" where
  "sys_sysinfo k = syscall (k_sysinfo k) (\<lambda>_. EvSysInfo)"

definition sys_getenv :: "kernel \<Rightarrow> string \<Rightarrow> string option io" where
  "sys_getenv k n = syscall (\<lambda>h. k_getenv k h n) (\<lambda>_. EvGetEnv n)"

definition sys_pw_dir :: "kernel \<Rightarrow> string option io" where
  "sys_pw_dir k = syscall (k_pw_dir k) (\<lambda>_. EvGetEnv ''passwd'')"

definition sys_waitpid :: "kernel \<Rightarrow> pid \<Rightarrow> wait_result io" where
  "sys_waitpid k p = syscall (\<lambda>h. k_waitpid k h p) (EvWait p)"

definition sys_unlink :: "kernel \<Rightarrow> string \<Rightarrow> bool io" where
  "sys_unlink k p = syscall (\<lambda>h. k_unlink k h p) (EvUnlink p)"

definition sys_rmdir :: "kernel \<Rightarrow> string \<Rightarrow> bool io" where
  "sys_rmdir k p = syscall (\<lambda>h. k_rmdir k h p) (EvRmdir p)"

definition sys_mkdir :: "kernel \<Rightarrow> string \<Rightarrow> bool io" where
  "sys_mkdir k p = syscall (\<lambda>h. k_mkdir k h p) (EvMkdir p)"

definition sys_rename :: "kernel \<Rightarrow> string \<Rightarrow> string \<Rightarrow> bool io" where
  "sys_rename k p q = syscall (\<lambda>h. k_rename k h p q) (EvRename p q)"

definition sys_swapon :: "kernel \<Rightarrow> string \<Rightarrow> int \<Rightarrow> bool io" where
  "sys_swapon k p fl = syscall (\<lambda>h. k_swapon k h p fl) (EvSwapon p fl)"

definition sys_swapoff :: "kernel \<Rightarrow> string \<Rightarrow> bool io" where
  "sys_swapoff k p = syscall (\<lambda>h. k_swapoff k h p) (EvSwapoff p)"

definition sys_fork :: "kernel \<Rightarrow> child_job \<Rightarrow> pid io" where
  "sys_fork k j = syscall (\<lambda>h. k_fork k h j) (EvFork j)"

definition sys_open_write :: "kernel \<Rightarrow> string \<Rightarrow> bool io" where
  "sys_open_write k p = syscall (\<lambda>h. k_open_write k h p) (EvOpenWrite p)"

definition sys_fallocate :: "kernel \<Rightarrow> string \<Rightarrow> u64 \<Rightarrow> bool io" where
  "sys_fallocate k p n = syscall (\<lambda>h. k_fallocate k h p n) (EvFallocate p n)"

text \<open>\<open>execv\<close> and what becomes of the process: the program's exit status, or nothing when the call fails.\<close>

definition sys_exec :: "kernel \<Rightarrow> string \<Rightarrow> string list \<Rightarrow> int option io" where
  "sys_exec k bin args = syscall (\<lambda>h. k_exec k h bin args) (\<lambda>_. EvExec bin args)"

definition sys_write :: "kernel \<Rightarrow> string \<Rightarrow> string \<Rightarrow> int io" where
  "sys_write k p d = syscall (\<lambda>h. k_write k h p d) (EvWrite p d)"

definition sys_setscheduler :: "kernel \<Rightarrow> pid \<Rightarrow> sched_policy \<Rightarrow> bool io" where
  "sys_setscheduler k p pol = syscall (\<lambda>h. k_setscheduler k h p pol) (EvSetScheduler p pol)"

definition sys_setpriority :: "kernel \<Rightarrow> pid \<Rightarrow> int \<Rightarrow> unit io" where
  "sys_setpriority k p n = syscall (\<lambda>_. ()) (\<lambda>_. EvSetPriority p n)"

definition sys_setaffinity :: "kernel \<Rightarrow> pid \<Rightarrow> nat set \<Rightarrow> bool io" where
  "sys_setaffinity k p cs = syscall (\<lambda>h. k_setaffinity k h p cs) (EvSetAffinity p cs)"

text \<open>\<open>popen\<close>, one \<open>fread\<close> of at most \<open>n\<close> bytes, \<open>pclose\<close>; and \<open>system(cmd) == 0\<close>.\<close>

definition sys_popen :: "kernel \<Rightarrow> string \<Rightarrow> nat \<Rightarrow> string option io" where
  "sys_popen k c n = syscall (\<lambda>h. map_option (take n) (k_popen k h c)) (\<lambda>_. EvPopen c)"

definition sys_system :: "kernel \<Rightarrow> string \<Rightarrow> bool io" where
  "sys_system k c = syscall (\<lambda>h. k_system k h c) (EvSystem c)"

text \<open>A descriptor the daemon keeps open to hold a request, and its release.\<close>

definition sys_open_fd :: "kernel \<Rightarrow> string \<Rightarrow> bool io" where
  "sys_open_fd k p = syscall (\<lambda>h. k_open_write k h p) (EvOpenFd p)"

definition sys_close_fd :: "string \<Rightarrow> unit io" where
  "sys_close_fd p = syscall (\<lambda>_. ()) (\<lambda>_. EvCloseFd p)"

definition sys_ioprio_set :: "kernel \<Rightarrow> pid \<Rightarrow> int \<Rightarrow> int \<Rightarrow> bool io" where
  "sys_ioprio_set k p cls d = syscall (\<lambda>h. k_ioprio_set k h p cls d) (EvIoPrio p cls d)"

definition sys_kill :: "kernel \<Rightarrow> pid \<Rightarrow> int \<Rightarrow> kill_result io" where
  "sys_kill k p sig = syscall (\<lambda>h. k_kill k h p sig) (\<lambda>_. EvKill p sig)"

definition sys_pidfd_open :: "kernel \<Rightarrow> pid \<Rightarrow> bool io" where
  "sys_pidfd_open k p = syscall (\<lambda>h. k_pidfd_open k h p) (EvPidfdOpen p)"

text \<open>
  \<open>/proc/<pid>/maps\<close>: a finite file, which answers the number of reads that \<open>k_open_maps\<close> gives
  and then reports its end (or an error) as the empty list.
\<close>

definition sys_open_maps :: "kernel \<Rightarrow> pid \<Rightarrow> nat option io" where
  "sys_open_maps k p = syscall (\<lambda>h. k_open_maps k h p) (\<lambda>r. EvOpenMaps p (r \<noteq> None))"

definition sys_read_maps :: "kernel \<Rightarrow> pid \<Rightarrow> nat \<Rightarrow> string io" where
  "sys_read_maps k p n = syscall (\<lambda>h. take n (k_read_maps k h p n)) (\<lambda>_. EvReadMaps p)"

definition sys_read_maps_end :: "pid \<Rightarrow> string io" where
  "sys_read_maps_end p = syscall (\<lambda>_. []) (\<lambda>_. EvReadMaps p)"

definition sys_madvise :: "kernel \<Rightarrow> pid \<Rightarrow> (u64 \<times> u64) list \<Rightarrow> int io" where
  "sys_madvise k p iov = syscall (\<lambda>h. k_madvise k h p iov) (EvMadvisePageout p iov)"

definition sys_bus_open :: "kernel \<Rightarrow> bool io" where
  "sys_bus_open k = syscall (k_bus_open k) EvBusOpen"

definition sys_bus_name :: "kernel \<Rightarrow> bool io" where
  "sys_bus_name k = syscall (k_bus_name k) EvBusName"

definition sys_bus_emit :: "kernel \<Rightarrow> u8 \<Rightarrow> bool io" where
  "sys_bus_emit k l = syscall (\<lambda>h. k_bus_emit k h l) (EvBusEmit l)"

definition sys_bus_close :: "unit io" where
  "sys_bus_close = syscall (\<lambda>_. ()) (\<lambda>_. EvBusClose)"

text \<open>\<open>getpriority\<close>, \<open>sched_getscheduler\<close>, and \<open>sched_getaffinity\<close>, which may fail.\<close>

definition sys_getpriority :: "kernel \<Rightarrow> pid \<Rightarrow> int io" where
  "sys_getpriority k p = syscall (\<lambda>h. k_getpriority k h p) (\<lambda>_. EvGetTask p)"

definition sys_getscheduler :: "kernel \<Rightarrow> pid \<Rightarrow> int io" where
  "sys_getscheduler k p = syscall (\<lambda>h. k_getscheduler k h p) (\<lambda>_. EvGetTask p)"

definition sys_getaffinity :: "kernel \<Rightarrow> pid \<Rightarrow> nat set option io" where
  "sys_getaffinity k p = syscall (\<lambda>h. k_getaffinity k h p) (\<lambda>_. EvGetTask p)"

text \<open>
  The number of the parent, and whether \<open>errno\<close> is still zero after the calls made since it was
  cleared: every failing call sets it, so it too depends on the history.
\<close>

definition sys_getppid :: "kernel \<Rightarrow> pid io" where
  "sys_getppid k = syscall (k_getppid k) (\<lambda>_. EvGetTask 0)"

definition sys_errno_clear :: "kernel \<Rightarrow> bool io" where
  "sys_errno_clear k = syscall (k_errno_clear k) (\<lambda>_. EvGetTask 0)"

definition sys_exists :: "kernel \<Rightarrow> string \<Rightarrow> bool io" where
  "sys_exists k p = syscall (\<lambda>h. k_exists k h p) (\<lambda>_. EvAccess p)"

definition sys_access_r :: "kernel \<Rightarrow> string \<Rightarrow> bool io" where
  "sys_access_r k p = syscall (\<lambda>h. k_access_r k h p) (\<lambda>_. EvAccess p)"

text \<open>A generic netlink socket: opening it, and one request with its first reply datagram.\<close>

definition sys_ifindex :: "kernel \<Rightarrow> string \<Rightarrow> u32 io" where
  "sys_ifindex k n = syscall (\<lambda>h. k_ifindex k h n) (\<lambda>_. EvIfIndex n)"

definition sys_netlink_open :: "kernel \<Rightarrow> bool io" where
  "sys_netlink_open k = syscall (k_netlink_open k) EvNetlinkOpen"

definition sys_netlink :: "kernel \<Rightarrow> u8 list \<Rightarrow> nat \<Rightarrow> u8 list option io" where
  "sys_netlink k msg n = syscall (\<lambda>h. map_option (take n) (k_netlink k h msg)) (\<lambda>_. EvNetlink msg)"

text \<open>
  A descriptor the daemon keeps open for reading; what is read through it later is the file's content
  at that time.  A hardware counter per processor, a register of the processor, the clock that counts
  through suspension.
\<close>

definition sys_open_ro :: "kernel \<Rightarrow> string \<Rightarrow> bool io" where
  "sys_open_ro k p = syscall (\<lambda>h. k_open_ro k h p) (EvOpenRead p)"

definition sys_perf_open :: "kernel \<Rightarrow> nat \<Rightarrow> nat \<Rightarrow> bool io" where
  "sys_perf_open k cpu ev = syscall (\<lambda>h. k_perf_open k h cpu ev) (EvPerfOpen cpu ev)"

definition sys_perf_read :: "kernel \<Rightarrow> nat \<Rightarrow> nat \<Rightarrow> u64 option io" where
  "sys_perf_read k cpu ev = syscall (\<lambda>h. k_perf_read k h cpu ev) (\<lambda>_. EvPerfRead cpu ev)"

definition sys_msr :: "kernel \<Rightarrow> int \<Rightarrow> u64 option io" where
  "sys_msr k reg = syscall (\<lambda>h. k_msr k h reg) (\<lambda>_. EvMsr reg)"

definition sys_now_boot :: "kernel \<Rightarrow> int io" where
  "sys_now_boot k = syscall (k_now_boot k) (\<lambda>_. EvClock)"

text \<open>
  A call of which the code only uses whether it succeeded (\<open>open\<close> of a shared file, \<open>mmap\<close>, \<open>signalfd\<close>, ...), named by what it
  is for; the timer; a pause in milliseconds; a datagram sent back.
\<close>

definition sys_setup :: "kernel \<Rightarrow> string \<Rightarrow> bool io" where
  "sys_setup k what = syscall (\<lambda>h. k_setup k h what) (EvSetup what)"

definition sys_arm_timer :: "kernel \<Rightarrow> int \<Rightarrow> int \<Rightarrow> bool io" where
  "sys_arm_timer k sec nsec = syscall (\<lambda>h. k_arm_timer k h sec nsec) (EvArmTimer sec nsec)"

text \<open>The monotonic clock in milliseconds; a datagram that is waited for, if one comes in time.\<close>

definition sys_now_ms :: "kernel \<Rightarrow> u64 io" where
  "sys_now_ms k = syscall (k_now_ms k) (\<lambda>_. EvClock)"

definition sys_receive :: "kernel \<Rightarrow> nat \<Rightarrow> string option io" where
  "sys_receive k n = syscall (\<lambda>h. map_option (take n) (k_receive k h)) (\<lambda>_. EvSetup ''receive'' True)"

definition sys_sleep :: "nat \<Rightarrow> unit io" where
  "sys_sleep ms = syscall (\<lambda>_. ()) (\<lambda>_. EvSleep ms)"

definition sys_reply :: "string \<Rightarrow> unit io" where
  "sys_reply text = syscall (\<lambda>_. ()) (\<lambda>_. EvReply text)"

lemmas sys_defs = sys_now_ms_def sys_receive_def sys_open_ro_def sys_perf_open_def sys_perf_read_def sys_msr_def sys_now_boot_def sys_setup_def
  sys_arm_timer_def sys_sleep_def sys_reply_def sys_open_dents_def sys_getdents_def sys_getdents_end_def sys_readlink_def sys_access_r_def sys_getppid_def sys_errno_clear_def sys_getpriority_def sys_getscheduler_def sys_getaffinity_def sys_exists_def
  sys_ifindex_def sys_netlink_open_def sys_netlink_def sys_read_file_def sys_opendir_def sys_stat_def sys_lstat_def sys_statvfs_def
  sys_statfs_type_def sys_access_x_def sys_now_real_def sys_now_steady_def sys_sysinfo_def
  sys_getenv_def sys_pw_dir_def sys_waitpid_def sys_unlink_def sys_rmdir_def sys_mkdir_def sys_rename_def
  sys_swapon_def sys_swapoff_def sys_fork_def sys_open_write_def sys_fallocate_def sys_exec_def sys_write_def
  sys_setaffinity_def sys_popen_def sys_system_def sys_open_fd_def sys_close_fd_def
  sys_setscheduler_def sys_setpriority_def sys_ioprio_set_def sys_kill_def sys_pidfd_open_def
  sys_open_maps_def sys_read_maps_def sys_read_maps_end_def sys_madvise_def sys_bus_open_def sys_bus_name_def
  sys_bus_emit_def sys_bus_close_def log_event_def

section \<open>Loops\<close>

text \<open>
  The code's loops over directory entries, processes and table slots: they visit the
  elements in order as long as a condition on the loop's variables holds.
\<close>

fun io_for :: "('s \<Rightarrow> bool) \<Rightarrow> ('a \<Rightarrow> 's \<Rightarrow> 's io) \<Rightarrow> 'a list \<Rightarrow> 's \<Rightarrow> 's io" where
  "io_for g f [] s = return_io s"
| "io_for g f (x # xs) s =
     (if g s then do { s' \<leftarrow> f x s; io_for g f xs s' } else return_io s)"

lemma io_for_snoc: "io_for (\<lambda>_. True) f (xs @ [x]) s = io_for (\<lambda>_. True) f xs s \<bind> f x"
proof (induction xs arbitrary: s)
  case Nil
  have "io_for (\<lambda>_. True) f [] = return_io" by (rule ext) simp
  then show ?case by simp
next
  case (Cons y xs)
  then have "io_for (\<lambda>_. True) f (xs @ [x]) = (\<lambda>s. io_for (\<lambda>_. True) f xs s \<bind> f x)" by auto
  then show ?case by simp
qed

section \<open>What a computation does\<close>

text \<open>
  \<open>io_ok P m Q\<close>: run from any history, \<open>m\<close> only adds events that satisfy \<open>P\<close> and its
  result satisfies \<open>Q\<close>.  The rules follow the structure of the monadic code, so that a
  safety property of a component is proved by applying them and discharging the leaves.
\<close>

definition io_ok :: "(event \<Rightarrow> bool) \<Rightarrow> 'a io \<Rightarrow> ('a \<Rightarrow> bool) \<Rightarrow> bool" where
  "io_ok P m Q \<longleftrightarrow>
     (\<forall>h. (\<exists>es. snd (run_state m h) = es @ h \<and> list_all P es) \<and> Q (fst (run_state m h)))"

abbreviation emits :: "(event \<Rightarrow> bool) \<Rightarrow> 'a io \<Rightarrow> bool" where
  "emits P m \<equiv> io_ok P m (\<lambda>_. True)"

lemma io_ok_return [io_rules, intro]: "Q x \<Longrightarrow> io_ok P (return_io x) Q"
  by (simp add: io_ok_def)

lemma io_ok_bind:
  assumes "io_ok P m R" and "\<And>x. R x \<Longrightarrow> io_ok P (f x) Q"
  shows "io_ok P (m \<bind> f) Q"
  unfolding io_ok_def
proof (intro allI conjI)
  fix h
  obtain x h' where m: "run_state m h = (x, h')" by (cases "run_state m h")
  from assms(1) m obtain es where es: "h' = es @ h" "list_all P es" and R: "R x"
    unfolding io_ok_def by (metis fst_conv snd_conv)
  from assms(2) [OF R] obtain es' where
    es': "snd (run_state (f x) h') = es' @ h'" "list_all P es'" and Q: "Q (fst (run_state (f x) h'))"
    unfolding io_ok_def by blast
  show "\<exists>es. snd (run_state (m \<bind> f) h) = es @ h \<and> list_all P es"
    using m es es' by (intro exI [of _ "es' @ es"]) simp
  show "Q (fst (run_state (m \<bind> f) h))"
    using m Q by simp
qed

lemma io_ok_bind_any [io_rules]:
  "emits P m \<Longrightarrow> (\<And>x. io_ok P (f x) Q) \<Longrightarrow> io_ok P (m \<bind> f) Q"
  by (rule io_ok_bind) auto

lemma io_ok_mono: "io_ok P m Q \<Longrightarrow> (\<And>e. P e \<Longrightarrow> P' e) \<Longrightarrow> (\<And>x. Q x \<Longrightarrow> Q' x) \<Longrightarrow> io_ok P' m Q'"
  unfolding io_ok_def by (metis list.pred_mono_strong)

lemma io_ok_emits: "io_ok P m Q \<Longrightarrow> emits P m"
  by (rule io_ok_mono) auto

lemma io_ok_conj: "io_ok P m Q \<Longrightarrow> io_ok P' m Q' \<Longrightarrow> io_ok (\<lambda>e. P e \<and> P' e) m (\<lambda>x. Q x \<and> Q' x)"
  unfolding io_ok_def by (metis (mono_tags, lifting) append_same_eq list_all_iff)

lemma io_ok_if [io_rules]:
  "(b \<Longrightarrow> io_ok P m Q) \<Longrightarrow> (\<not> b \<Longrightarrow> io_ok P n Q) \<Longrightarrow> io_ok P (if b then m else n) Q"
  by auto

lemma io_ok_option [io_rules]:
  "(x = None \<Longrightarrow> io_ok P m Q) \<Longrightarrow> (\<And>y. x = Some y \<Longrightarrow> io_ok P (n y) Q) \<Longrightarrow>
   io_ok P (case x of None \<Rightarrow> m | Some y \<Rightarrow> n y) Q"
  by (cases x) auto

lemma io_ok_prod [io_rules]:
  "(\<And>a b. x = (a, b) \<Longrightarrow> io_ok P (f a b) Q) \<Longrightarrow> io_ok P (case x of (a, b) \<Rightarrow> f a b) Q"
  by (cases x) auto

lemma io_ok_let [io_rules]: "(\<And>x. x = v \<Longrightarrow> io_ok P (f x) Q) \<Longrightarrow> io_ok P (let x = v in f x) Q"
  by simp

lemma io_ok_when [io_rules]: "(b \<Longrightarrow> emits P m) \<Longrightarrow> emits P (io_when b m)"
  by (auto simp: io_when_def)

lemma io_ok_syscall: "(\<And>h. P (ev (f h))) \<Longrightarrow> (\<And>h. Q (f h)) \<Longrightarrow> io_ok P (syscall f ev) Q"
  by (simp add: io_ok_def)

lemma emits_syscall [io_rules]: "(\<And>r. P (ev r)) \<Longrightarrow> emits P (syscall f ev)"
  by (rule io_ok_syscall) auto

lemma io_ok_for:
  assumes "Q s" and "\<And>x s. x \<in> set xs \<Longrightarrow> g s \<Longrightarrow> Q s \<Longrightarrow> io_ok P (f x s) Q"
  shows "io_ok P (io_for g f xs s) Q"
  using assms
proof (induction xs arbitrary: s)
  case Nil
  then show ?case by (simp add: io_ok_return)
next
  case (Cons x xs)
  show ?case
    using Cons.prems Cons.IH by (auto intro!: io_ok_bind [where R = Q] io_ok_return)
qed

lemma emits_for [io_rules]: "(\<And>x s. x \<in> set xs \<Longrightarrow> g s \<Longrightarrow> emits P (f x s)) \<Longrightarrow> emits P (io_for g f xs s)"
  by (rule io_ok_for) auto

text \<open>From the calculus back to histories.\<close>

lemma io_okD:
  assumes "io_ok P m Q" and "run_state m h = (x, h')"
  shows "\<exists>es. h' = es @ h \<and> list_all P es" and "Q x"
  using assms unfolding io_ok_def by (metis fst_conv snd_conv)+

lemma emits_new_events:
  assumes "emits P m" and "snd (run_state m h) = es @ h"
  shows "\<forall>e \<in> set es. P e"
  using assms unfolding io_ok_def by (metis append_same_eq list_all_iff)

lemma sys_read_file_ok: "(P (EvReadFile p)) \<Longrightarrow>
    io_ok P (sys_read_file k p n) (\<lambda>r. \<forall>s. r = Some s \<longrightarrow> length s \<le> n)"
  unfolding sys_read_file_def by (rule io_ok_syscall) auto

section \<open>What holds of the history afterwards\<close>

text \<open>
  \<open>wp m Q h\<close>: run from history \<open>h\<close>, \<open>m\<close> ends with a result and a history that satisfy
  \<open>Q\<close>.  Its equations evaluate the monadic code, so the simplifier computes what a component
  does with the order of its calls.
\<close>

definition wp :: "'a io \<Rightarrow> ('a \<Rightarrow> history \<Rightarrow> bool) \<Rightarrow> history \<Rightarrow> bool" where
  "wp m Q h \<longleftrightarrow> (case run_state m h of (x, h') \<Rightarrow> Q x h')"

named_theorems wp_simps

lemma wp_return [wp_simps]: "wp (return_io x) Q h = Q x h"
  by (simp add: wp_def)

lemma wp_bind [wp_simps]: "wp (m \<bind> f) Q h = wp m (\<lambda>x. wp (f x) Q) h"
  by (simp add: wp_def split: prod.splits)

lemma wp_syscall [wp_simps]: "wp (syscall f ev) Q h = Q (f h) (ev (f h) # h)"
  by (simp add: wp_def)

lemma wp_if [wp_simps]: "wp (if b then m else n) Q h = (if b then wp m Q h else wp n Q h)"
  by simp

lemma wp_option [wp_simps]:
  "wp (case x of None \<Rightarrow> m | Some y \<Rightarrow> n y) Q h = (case x of None \<Rightarrow> wp m Q h | Some y \<Rightarrow> wp (n y) Q h)"
  by (cases x) auto

lemma wp_prod [wp_simps]: "wp (case x of (a, b) \<Rightarrow> f a b) Q h = (case x of (a, b) \<Rightarrow> wp (f a b) Q h)"
  by (cases x) auto

lemma wp_when [wp_simps]: "wp (io_when b m) Q h = (if b then wp m Q h else Q () h)"
  by (simp add: io_when_def wp_return)

lemma wp_mono: "wp m Q h \<Longrightarrow> (\<And>x h'. Q x h' \<Longrightarrow> Q' x h') \<Longrightarrow> wp m Q' h"
  by (auto simp: wp_def)

lemma wp_both: "wp m Q h \<Longrightarrow> wp m R h \<Longrightarrow> wp m (\<lambda>x h'. Q x h' \<and> R x h') h"
  by (auto simp: wp_def split: prod.splits)

lemma wp_then: "wp m R h \<Longrightarrow> (\<And>x h'. R x h' \<Longrightarrow> wp (f x) Q h') \<Longrightarrow> wp (m \<bind> f) Q h"
  by (simp add: wp_bind) (rule wp_mono)

lemma wp_ifI: "(b \<Longrightarrow> wp m Q h) \<Longrightarrow> (\<not> b \<Longrightarrow> wp n Q h) \<Longrightarrow> wp (if b then m else n) Q h"
  by simp

text \<open>Nothing need be known of a call whose every outcome is fine.\<close>

lemma wp_any: "(\<And>x h'. Q x h') \<Longrightarrow> wp m Q h"
  by (simp add: wp_def split: prod.splits)

lemma wp_for:
  assumes "I s h" and "\<And>x s h. x \<in> set xs \<Longrightarrow> g s \<Longrightarrow> I s h \<Longrightarrow> wp (f x s) I h"
  shows "wp (io_for g f xs s) I h"
  using assms
proof (induction xs arbitrary: s h)
  case Nil
  then show ?case by (simp add: wp_simps)
next
  case (Cons x xs)
  show ?case
    using Cons.prems(1) by (auto simp: wp_simps intro!: wp_mono [OF Cons.prems(2)] Cons.IH Cons.prems(2))
qed

lemma wp_run: "wp m Q h \<longleftrightarrow> Q (fst (run_state m h)) (snd (run_state m h))"
  by (simp add: wp_def split: prod.splits)

text \<open>A computation that only emits harmless events keeps what they keep.\<close>

lemma wp_emits:
  assumes "io_ok P m R" and "J h" and "\<And>e h. P e \<Longrightarrow> J h \<Longrightarrow> J (e # h)"
  shows "wp m (\<lambda>x h'. R x \<and> J h') h"
proof -
  obtain x h' where run: "run_state m h = (x, h')" by (cases "run_state m h")
  from io_okD [OF assms(1) run] obtain es where es: "h' = es @ h" "list_all P es" and "R x" by blast
  moreover have "J (es @ h)" using es(2) assms(2,3) by (induction es) auto
  ultimately show ?thesis by (simp add: wp_def run)
qed

end
