(* ===== verification/Containers.thy ===== *)
theory Containers
  imports Os_Interface
begin

text \<open>
  The fixed-capacity containers of \<^verbatim>\<open>src/core/custom_containers.hpp\<close>, and the kernel
  task name of \<^verbatim>\<open>types.hpp\<close>.  The template parameter \<open>Capacity\<close> is the argument
  \<open>cap\<close>.  A \<open>FixedVector\<close> is the list of its live elements with its overflow counter and
  canary; a \<open>FixedString\<close> keeps its byte buffer, because its operations write a
  terminator into it.  The two meet one contract, the locale \<open>bounded_buffer\<close>: adding to a
  full buffer loses the new element and nothing else.
\<close>

section \<open>The contract of a bounded buffer\<close>

locale bounded_buffer =
  fixes contents :: "'b \<Rightarrow> 'a list"
    and add :: "'a \<Rightarrow> 'b \<Rightarrow> 'b"
    and limit :: nat
    and ok :: "'b \<Rightarrow> bool"
  assumes ok_length: "ok b \<Longrightarrow> length (contents b) \<le> limit"
    and ok_add: "ok b \<Longrightarrow> ok (add x b)"
    and contents_add: "ok b \<Longrightarrow> contents (add x b) =
           (if length (contents b) < limit then contents b @ [x] else contents b)"
begin

lemma ok_fold: "ok b \<Longrightarrow> ok (fold add xs b)"
  by (induction xs arbitrary: b) (auto simp: ok_add)

lemma contents_fold: "ok b \<Longrightarrow> contents (fold add xs b) = take limit (contents b @ xs)"
proof (induction xs arbitrary: b)
  case Nil
  then show ?case using ok_length [OF Nil] by simp
next
  case (Cons x xs)
  have len: "length (contents b) \<le> limit" by (rule ok_length [OF Cons.prems])
  show ?case
  proof (cases "length (contents b) < limit")
    case True
    then show ?thesis using Cons.IH [OF ok_add [OF Cons.prems]] contents_add [OF Cons.prems] by simp
  next
    case False
    with len have "length (contents b) = limit" by simp
    then show ?thesis
      using Cons.IH [OF ok_add [OF Cons.prems]] contents_add [OF Cons.prems] by simp
  qed
qed

lemma length_fold_le: "ok b \<Longrightarrow> length (contents (fold add xs b)) \<le> limit"
  using ok_length ok_fold by blast

end

section \<open>FixedVector\<close>

definition VEC_CANARY :: u64 where
  [code_consts]: "VEC_CANARY = 0xDEADBEEFCAFE0001"

record 'a fvec =
  fv_items :: "'a list"
  fv_overflow :: u32
  fv_canary :: u64

definition fv_new :: "'a fvec" where
  "fv_new = \<lparr>fv_items = [], fv_overflow = 0, fv_canary = VEC_CANARY\<rparr>"

definition fv_size :: "'a fvec \<Rightarrow> nat" where
  "fv_size v = length (fv_items v)"

definition fv_is_empty :: "'a fvec \<Rightarrow> bool" where
  "fv_is_empty v \<longleftrightarrow> fv_size v = 0"

definition fv_full :: "nat \<Rightarrow> 'a fvec \<Rightarrow> bool" where
  "fv_full cap v \<longleftrightarrow> cap \<le> fv_size v"

definition fv_check_integrity :: "'a fvec \<Rightarrow> bool" where
  "fv_check_integrity v \<longleftrightarrow> fv_canary v = VEC_CANARY"

definition fv_overflow_occurred :: "'a fvec \<Rightarrow> bool" where
  "fv_overflow_occurred v \<longleftrightarrow> 0 < fv_overflow v"

definition fv_reset_overflow :: "'a fvec \<Rightarrow> 'a fvec" where
  "fv_reset_overflow v = v\<lparr>fv_overflow := 0\<rparr>"

text \<open>
  A reference handed out by an accessor: a live slot, or the class's static dummy
  instance when the vector is empty.  Indices saturate at the last element.
\<close>

datatype fv_ref = Slot nat | DummyInstance

definition fv_at :: "'a fvec \<Rightarrow> nat \<Rightarrow> fv_ref" where
  "fv_at v idx =
     (if fv_size v = 0 then DummyInstance
      else if fv_size v \<le> idx then Slot (fv_size v - 1) else Slot idx)"

definition fv_front :: "'a fvec \<Rightarrow> fv_ref" where
  "fv_front v = (if fv_size v = 0 then DummyInstance else Slot 0)"

definition fv_back :: "'a fvec \<Rightarrow> fv_ref" where
  "fv_back v = (if fv_size v = 0 then DummyInstance else Slot (fv_size v - 1))"

text \<open>Reading and writing through such a reference; the dummy is a separate object.\<close>

fun fv_load :: "'a \<Rightarrow> 'a fvec \<Rightarrow> fv_ref \<Rightarrow> 'a" where
  "fv_load dummy v (Slot i) = fv_items v ! i"
| "fv_load dummy v DummyInstance = dummy"

fun fv_store :: "'a \<Rightarrow> 'a \<times> 'a fvec \<Rightarrow> fv_ref \<Rightarrow> 'a \<times> 'a fvec" where
  "fv_store x (dummy, v) (Slot i) = (dummy, v\<lparr>fv_items := (fv_items v)[i := x]\<rparr>)"
| "fv_store x (dummy, v) DummyInstance = (x, v)"

definition fv_push_back :: "nat \<Rightarrow> 'a \<Rightarrow> 'a fvec \<Rightarrow> bool \<times> 'a fvec" where
  "fv_push_back cap x v =
     (if cap \<le> fv_size v then (False, v\<lparr>fv_overflow := fv_overflow v + 1\<rparr>)
      else (True, v\<lparr>fv_items := fv_items v @ [x]\<rparr>))"

definition fv_emplace_back :: "nat \<Rightarrow> 'a \<Rightarrow> 'a fvec \<Rightarrow> fv_ref \<times> 'a fvec" where
  "fv_emplace_back cap x v =
     (if cap \<le> fv_size v
      then (if 0 < fv_size v then Slot (fv_size v - 1) else DummyInstance,
            v\<lparr>fv_overflow := fv_overflow v + 1\<rparr>)
      else (Slot (fv_size v), v\<lparr>fv_items := fv_items v @ [x]\<rparr>))"

text \<open>
  \<open>insert\<close> takes an iterator, here its signed distance from \<open>begin()\<close>; one outside
  \<open>[begin(), end()]\<close> means the end.  The result is the position returned.
\<close>

definition fv_insert :: "nat \<Rightarrow> int \<Rightarrow> 'a \<Rightarrow> 'a fvec \<Rightarrow> nat \<times> 'a fvec" where
  "fv_insert cap pos x v =
     (if cap \<le> fv_size v then (fv_size v, v\<lparr>fv_overflow := fv_overflow v + 1\<rparr>)
      else let index = (if 0 \<le> pos \<and> pos \<le> int (fv_size v) then nat pos else fv_size v)
           in (index, v\<lparr>fv_items := take index (fv_items v) @ x # drop index (fv_items v)\<rparr>))"

definition fv_pop_back :: "'a fvec \<Rightarrow> 'a fvec" where
  "fv_pop_back v = (if 0 < fv_size v then v\<lparr>fv_items := butlast (fv_items v)\<rparr> else v)"

definition fv_clear :: "'a fvec \<Rightarrow> 'a fvec" where
  "fv_clear v = v\<lparr>fv_items := []\<rparr>"

definition fv_resize :: "nat \<Rightarrow> 'a \<Rightarrow> nat \<Rightarrow> 'a fvec \<Rightarrow> 'a fvec" where
  "fv_resize cap dflt n v =
     (let n = (if cap < n then cap else n)
      in if n < fv_size v then v\<lparr>fv_items := take n (fv_items v)\<rparr>
         else if fv_size v < n
              then v\<lparr>fv_items := fv_items v @ replicate (n - fv_size v) dflt\<rparr>
              else v)"

definition fv_copy_from :: "'a fvec \<Rightarrow> 'a fvec" where
  "fv_copy_from other =
     \<lparr>fv_items = fv_items other, fv_overflow = fv_overflow other, fv_canary = VEC_CANARY\<rparr>"

text \<open>A move copies the elements and clears the source, which keeps its overflow counter.\<close>

definition fv_move_from :: "'a fvec \<Rightarrow> 'a fvec \<times> 'a fvec" where
  "fv_move_from other = (fv_copy_from other, fv_clear other)"

definition fv_ok :: "nat \<Rightarrow> 'a fvec \<Rightarrow> bool" where
  "fv_ok cap v \<longleftrightarrow> fv_size v \<le> cap \<and> fv_check_integrity v"

lemmas fv_simps = fv_size_def fv_is_empty_def fv_full_def fv_check_integrity_def fv_ok_def

lemma fv_ok_new [simp, intro]: "fv_ok cap fv_new"
  by (simp add: fv_simps fv_new_def)

lemma fv_ok_push_back [intro]: "fv_ok cap v \<Longrightarrow> fv_ok cap (snd (fv_push_back cap x v))"
  by (auto simp: fv_simps fv_push_back_def)

lemma fv_ok_emplace_back [intro]: "fv_ok cap v \<Longrightarrow> fv_ok cap (snd (fv_emplace_back cap x v))"
  by (auto simp: fv_simps fv_emplace_back_def)

lemma fv_ok_insert [intro]: "fv_ok cap v \<Longrightarrow> fv_ok cap (snd (fv_insert cap p x v))"
  by (auto simp: fv_simps fv_insert_def Let_def)

lemma fv_ok_shrink [intro]:
  "fv_ok cap v \<Longrightarrow> fv_ok cap (fv_pop_back v)" "fv_ok cap v \<Longrightarrow> fv_ok cap (fv_clear v)"
  "fv_ok cap v \<Longrightarrow> fv_ok cap (fv_reset_overflow v)"
  by (auto simp: fv_simps fv_pop_back_def fv_clear_def fv_reset_overflow_def)

lemma fv_ok_resize [intro]: "fv_ok cap v \<Longrightarrow> fv_ok cap (fv_resize cap d n v)"
  by (auto simp: fv_simps fv_resize_def Let_def)

lemma fv_ok_copy_move [intro]:
  "fv_ok cap v \<Longrightarrow> fv_ok cap (fv_copy_from v)"
  "fv_ok cap v \<Longrightarrow> fv_ok cap (fst (fv_move_from v)) \<and> fv_ok cap (snd (fv_move_from v))"
  by (auto simp: fv_simps fv_copy_from_def fv_move_from_def fv_clear_def)

text \<open>Adding elements is the contract of a bounded buffer.\<close>

interpretation fv: bounded_buffer fv_items "\<lambda>x v. snd (fv_push_back cap x v)" cap "fv_ok cap"
  for cap
  by unfold_locales (auto simp: fv_simps fv_push_back_def)

lemma fv_push_back_items:
  "fv_items (snd (fv_push_back cap x v)) =
     (if length (fv_items v) < cap then fv_items v @ [x] else fv_items v)"
  by (auto simp: fv_push_back_def fv_size_def)

text \<open>Every reference an accessor gives out is a live slot, or the vector is empty.\<close>

definition fv_ref_valid :: "'a fvec \<Rightarrow> fv_ref \<Rightarrow> bool" where
  "fv_ref_valid v r \<longleftrightarrow> (case r of Slot i \<Rightarrow> i < fv_size v | DummyInstance \<Rightarrow> fv_size v = 0)"

lemma fv_accessors_valid:
  "fv_ref_valid v (fv_at v i)" "fv_ref_valid v (fv_front v)" "fv_ref_valid v (fv_back v)"
  by (auto simp: fv_ref_valid_def fv_at_def fv_front_def fv_back_def)

section \<open>FixedString\<close>

definition STR_CANARY :: u64 where
  [code_consts]: "STR_CANARY = 0x5354524741555244"

record fstr =
  fs_buf :: string
  fs_len :: nat
  fs_canary :: u64

text \<open>\<open>memcpy\<close> of \<open>s\<close> to offset \<open>off\<close> of a buffer.\<close>

definition buf_write :: "string \<Rightarrow> nat \<Rightarrow> string \<Rightarrow> string" where
  "buf_write buf off s = take off buf @ s @ drop (off + length s) buf"

lemma length_buf_write [simp]: "off + length s \<le> length buf \<Longrightarrow> length (buf_write buf off s) = length buf"
  by (simp add: buf_write_def)

lemma take_buf_write: "off + length s \<le> length buf \<Longrightarrow> take (off + length s) (buf_write buf off s) = take off buf @ s"
  by (simp add: buf_write_def)

lemma take_buf_write_front: "n \<le> off \<Longrightarrow> off \<le> length buf \<Longrightarrow> take n (buf_write buf off s) = take n buf"
  by (simp add: buf_write_def)

lemma nth_buf_write_one: "off < length buf \<Longrightarrow> buf_write buf off [c] ! off = c"
  by (simp add: buf_write_def nth_append)

definition fs_new :: "nat \<Rightarrow> fstr" where
  "fs_new cap = \<lparr>fs_buf = replicate cap NUL, fs_len = 0, fs_canary = STR_CANARY\<rparr>"

definition fs_view :: "fstr \<Rightarrow> string" where
  "fs_view s = take (fs_len s) (fs_buf s)"

definition fs_assign :: "nat \<Rightarrow> string \<Rightarrow> fstr \<Rightarrow> fstr" where
  "fs_assign cap sv s =
     (let len = min (length sv) (cap - 1)
      in s\<lparr>fs_len := len, fs_buf := buf_write (buf_write (fs_buf s) 0 (take len sv)) len [NUL]\<rparr>)"

definition fs_clear :: "fstr \<Rightarrow> fstr" where
  "fs_clear s = s\<lparr>fs_len := 0, fs_buf := buf_write (fs_buf s) 0 [NUL]\<rparr>"

definition fs_append :: "nat \<Rightarrow> string \<Rightarrow> fstr \<Rightarrow> bool \<times> fstr" where
  "fs_append cap sv s =
     (let avail = (cap - 1) - fs_len s; to_copy = min (length sv) avail;
          s' = (if 0 < to_copy
                then s\<lparr>fs_len := fs_len s + to_copy,
                       fs_buf := buf_write (buf_write (fs_buf s) (fs_len s) (take to_copy sv))
                                   (fs_len s + to_copy) [NUL]\<rparr>
                else s)
      in (to_copy = length sv, s'))"

definition fs_append_char :: "nat \<Rightarrow> char \<Rightarrow> fstr \<Rightarrow> bool \<times> fstr" where
  "fs_append_char cap c s =
     (if fs_len s + 1 < cap
      then (True, s\<lparr>fs_len := fs_len s + 1,
                   fs_buf := buf_write (buf_write (fs_buf s) (fs_len s) [c]) (fs_len s + 1) [NUL]\<rparr>)
      else (False, s))"

text \<open>\<open>std::to_chars\<close> into a scratch array: the decimal digits, or an error if they do not fit.\<close>

definition to_chars :: "nat \<Rightarrow> int \<Rightarrow> string option" where
  "to_chars room z = (let t = show_int z in if length t \<le> room then Some t else None)"

definition fs_append_i32 :: "nat \<Rightarrow> i32 \<Rightarrow> fstr \<Rightarrow> bool \<times> fstr" where
  "fs_append_i32 cap val s =
     (case to_chars 16 val of Some t \<Rightarrow> fs_append cap t s | None \<Rightarrow> (False, s))"

definition fs_append_u64 :: "nat \<Rightarrow> u64 \<Rightarrow> fstr \<Rightarrow> bool \<times> fstr" where
  "fs_append_u64 cap val s =
     (case to_chars 24 (uint val) of Some t \<Rightarrow> fs_append cap t s | None \<Rightarrow> (False, s))"

definition fs_index :: "fstr \<Rightarrow> nat \<Rightarrow> char" where
  "fs_index s i = (if fs_len s \<le> i then NUL else fs_buf s ! i)"

definition fs_check_integrity :: "nat \<Rightarrow> fstr \<Rightarrow> bool" where
  "fs_check_integrity cap s \<longleftrightarrow>
     fs_len s < cap \<and> fs_buf s ! fs_len s = NUL \<and> fs_canary s = STR_CANARY"

text \<open>The class invariant: the buffer has its static size and the integrity check holds.\<close>

definition fs_ok :: "nat \<Rightarrow> fstr \<Rightarrow> bool" where
  "fs_ok cap s \<longleftrightarrow> length (fs_buf s) = cap \<and> fs_check_integrity cap s"

lemma fs_ok_new [intro]: "1 < cap \<Longrightarrow> fs_ok cap (fs_new cap)"
  by (simp add: fs_ok_def fs_check_integrity_def fs_new_def)

text \<open>
  One write covers all mutators: copy \<open>t\<close> to offset \<open>off\<close> inside the string and terminate it.
\<close>

lemma fs_write_ok:
  assumes "fs_ok cap s" and "off \<le> fs_len s" and "off + length t < cap"
  defines "s' \<equiv> s\<lparr>fs_len := off + length t,
                  fs_buf := buf_write (buf_write (fs_buf s) off t) (off + length t) [NUL]\<rparr>"
  shows "fs_ok cap s'" and "fs_view s' = take off (fs_view s) @ t"
proof -
  have len: "length (fs_buf s) = cap" using assms(1) by (simp add: fs_ok_def)
  show "fs_ok cap s'"
    using assms len by (simp add: fs_ok_def fs_check_integrity_def nth_buf_write_one)
  show "fs_view s' = take off (fs_view s) @ t"
    using assms len by (simp add: fs_view_def take_buf_write_front take_buf_write min_absorb1)
qed

lemma fs_ok_assign [intro]: "1 < cap \<Longrightarrow> fs_ok cap s \<Longrightarrow> fs_ok cap (fs_assign cap sv s)"
  using fs_write_ok(1) [of cap s 0 "take (min (length sv) (cap - 1)) sv"]
  by (simp add: fs_assign_def Let_def min_absorb2)

lemma fs_view_assign:
  "1 < cap \<Longrightarrow> fs_ok cap s \<Longrightarrow> fs_view (fs_assign cap sv s) = take (cap - 1) sv"
  using fs_write_ok(2) [of cap s 0 "take (min (length sv) (cap - 1)) sv"]
  by (simp add: fs_assign_def Let_def min_absorb2) (metis take_all_iff nat_le_linear min.absorb1 min.absorb2)

lemma fs_append_spec:
  assumes "fs_ok cap s"
  shows "fs_ok cap (snd (fs_append cap sv s))"
    and "fs_view (snd (fs_append cap sv s)) = take (cap - 1) (fs_view s @ sv)"
    and "fst (fs_append cap sv s) \<longleftrightarrow> length (fs_view s) + length sv < cap"
proof -
  have len: "fs_len s < cap" "length (fs_buf s) = cap"
    using assms by (auto simp: fs_ok_def fs_check_integrity_def)
  then have vl: "length (fs_view s) = fs_len s" by (simp add: fs_view_def)
  define t where "t = take (min (length sv) (cap - 1 - fs_len s)) sv"
  have lt: "length t = min (length sv) (cap - 1 - fs_len s)" by (simp add: t_def)
  have tt: "take (cap - 1) (fs_view s @ sv) = fs_view s @ t"
    using len vl by (simp add: t_def min_def)
  note w = fs_write_ok [OF assms order_refl, of t]
  show "fs_ok cap (snd (fs_append cap sv s))"
    using w(1) assms len lt by (auto simp: fs_append_def Let_def t_def)
  show "fs_view (snd (fs_append cap sv s)) = take (cap - 1) (fs_view s @ sv)"
    using w(2) len lt vl unfolding tt by (auto simp: fs_append_def Let_def t_def)
  show "fst (fs_append cap sv s) \<longleftrightarrow> length (fs_view s) + length sv < cap"
    using len vl by (auto simp: fs_append_def Let_def)
qed

lemma fs_append_char_spec:
  assumes "fs_ok cap s"
  shows "fs_ok cap (snd (fs_append_char cap c s))"
    and "fs_view (snd (fs_append_char cap c s)) =
           (if length (fs_view s) < cap - 1 then fs_view s @ [c] else fs_view s)"
  using fs_write_ok [OF assms order_refl, of "[c]"] assms
  by (auto simp: fs_append_char_def fs_view_def fs_ok_def fs_check_integrity_def)

interpretation fs: bounded_buffer fs_view "\<lambda>c s. snd (fs_append_char cap c s)" "cap - 1" "fs_ok cap"
  for cap
proof
  fix b c
  assume ok: "fs_ok cap b"
  then show "length (fs_view b) \<le> cap - 1"
    by (auto simp: fs_view_def fs_ok_def fs_check_integrity_def)
  show "fs_ok cap (snd (fs_append_char cap c b))"
    "fs_view (snd (fs_append_char cap c b)) =
       (if length (fs_view b) < cap - 1 then fs_view b @ [c] else fs_view b)"
    using fs_append_char_spec [OF ok] by auto
qed

text \<open>The scratch arrays of the numeric appends are always large enough.\<close>

lemma length_show_nat: "n < 10 ^ d \<Longrightarrow> 0 < d \<Longrightarrow> length (show_nat n) \<le> d"
proof (induction d arbitrary: n)
  case (Suc d)
  show ?case
  proof (cases "n < 10")
    case True
    then show ?thesis by (subst show_nat.simps) simp
  next
    case False
    with Suc.prems have "n div 10 < 10 ^ d" "0 < d" by (auto intro: Nat.gr0I)
    with Suc.IH have "length (show_nat (n div 10)) \<le> d" by blast
    with False show ?thesis by (subst show_nat.simps) simp
  qed
qed simp

lemma to_chars_u64: "to_chars 24 (uint (w :: u64)) = Some (show_nat (unat w))"
proof -
  have "unat w < 2 ^ LENGTH(64)" by (rule unsigned_less)
  then have "unat w < 10 ^ 24" by simp
  then have "length (show_nat (unat w)) \<le> 24" by (intro length_show_nat) auto
  then show ?thesis by (simp add: to_chars_def show_int_def Let_def not_less)
qed

lemma fs_append_u64_spec: "fs_append_u64 cap w s = fs_append cap (show_nat (unat w)) s"
  by (simp add: fs_append_u64_def to_chars_u64)

section \<open>ProcessComm\<close>

text \<open>
  A task name: sixteen bytes, the terminator included (\<open>TASK_COMM_LEN\<close>).
\<close>

definition comm_of :: "string \<Rightarrow> string" where
  "comm_of sv = buf_write (replicate 16 NUL) 0 (take (min (length sv) 15) sv @ [NUL])"

definition comm_view :: "string \<Rightarrow> string" where
  "comm_view data = c_str data"

lemma length_comm_of [simp]: "length (comm_of sv) = 16"
  by (simp add: comm_of_def)

lemma comm_view_of: "NUL \<notin> set sv \<Longrightarrow> comm_view (comm_of sv) = take 15 sv"
proof -
  assume "NUL \<notin> set sv"
  then have "NUL \<notin> set (take 15 sv)" by (meson in_set_takeD)
  then show ?thesis
    by (simp add: comm_view_def comm_of_def buf_write_def c_str_def takeWhile_append2 takeWhile_tail min_def)
      (auto simp: takeWhile_append)
qed

section \<open>DoubleBufferedPool\<close>

text \<open>
  Two vectors and two pointers at them, always at different ones: \<open>pool_current_is_a\<close>
  tells which buffer \<open>current_\<close> points at.
\<close>

record 'a pool =
  buf_a :: "'a fvec"
  buf_b :: "'a fvec"
  pool_current_is_a :: bool

definition pool_new :: "'a pool" where
  "pool_new = \<lparr>buf_a = fv_new, buf_b = fv_new, pool_current_is_a = True\<rparr>"

definition pool_current :: "'a pool \<Rightarrow> 'a fvec" where
  "pool_current p = (if pool_current_is_a p then buf_a p else buf_b p)"

text \<open>\<open>next()\<close> and \<open>previous()\<close> both return \<open>*previous_\<close>.\<close>

definition pool_next :: "'a pool \<Rightarrow> 'a fvec" where
  "pool_next p = (if pool_current_is_a p then buf_b p else buf_a p)"

definition pool_previous :: "'a pool \<Rightarrow> 'a fvec" where
  "pool_previous p = (if pool_current_is_a p then buf_b p else buf_a p)"

definition pool_set_next :: "'a fvec \<Rightarrow> 'a pool \<Rightarrow> 'a pool" where
  "pool_set_next v p = (if pool_current_is_a p then p\<lparr>buf_b := v\<rparr> else p\<lparr>buf_a := v\<rparr>)"

definition pool_swap :: "'a pool \<Rightarrow> 'a pool" where
  "pool_swap p =
     (let p' = p\<lparr>pool_current_is_a := \<not> pool_current_is_a p\<rparr>
      in pool_set_next (fv_clear (pool_previous p')) p')"

definition pool_clear :: "'a pool \<Rightarrow> 'a pool" where
  "pool_clear p = \<lparr>buf_a = fv_clear (buf_a p), buf_b = fv_clear (buf_b p), pool_current_is_a = True\<rparr>"

lemma pool_swap_spec:
  "pool_current (pool_swap p) = pool_next p"
  "pool_next (pool_swap p) = fv_clear (pool_current p)"
  by (auto simp: pool_swap_def pool_current_def pool_next_def pool_previous_def pool_set_next_def Let_def)

section \<open>Properties\<close>

text \<open>However many texts are appended to an empty fixed string, the buffer's integrity check
  still holds and the string is the concatenation of the texts, cut at capacity minus one; the
  last append reports success exactly when nothing of it was cut.\<close>

theorem fixed_string_appends:
  assumes "1 < cap"
  shows "fs_ok cap (fold (\<lambda>t s. snd (fs_append cap t s)) ts (fs_new cap)) \<and>
    fs_view (fold (\<lambda>t s. snd (fs_append cap t s)) ts (fs_new cap)) = take (cap - 1) (concat ts) \<and>
    (fst (fs_append cap t (fold (\<lambda>t s. snd (fs_append cap t s)) ts (fs_new cap))) \<longleftrightarrow>
       length (take (cap - 1) (concat ts) @ t) < cap)"
proof -
  have gen: "fs_ok cap s \<Longrightarrow> fs_ok cap (fold (\<lambda>t s. snd (fs_append cap t s)) ts s) \<and>
      fs_view (fold (\<lambda>t s. snd (fs_append cap t s)) ts s) = take (cap - 1) (fs_view s @ concat ts)" for s ts
  proof (induction ts arbitrary: s)
    case Nil
    then have "length (fs_view s) \<le> cap - 1"
      by (auto simp: fs_view_def fs_ok_def fs_check_integrity_def)
    with Nil show ?case by simp
  next
    case (Cons t ts)
    have "take (cap - 1) (take (cap - 1) (fs_view s @ t) @ concat ts) = take (cap - 1) (fs_view s @ t @ concat ts)"
      by (simp add: min_def)
    then show ?case
      using Cons.IH [OF fs_append_spec(1) [OF Cons.prems]] fs_append_spec(2) [OF Cons.prems] by simp
  qed
  have new: "fs_ok cap (fs_new cap)" "fs_view (fs_new cap) = []"
    using fs_ok_new assms by simp (simp add: fs_view_def fs_new_def)
  show ?thesis
    using gen [OF new(1), of ts] fs_append_spec(3) [of cap _ t] new(2) by auto
qed

theorem fixed_string_appends_witness:
  "fs_view (fold (\<lambda>t s. snd (fs_append 8 t s)) [''WattC'', ''urb-daemon''] (fs_new 8)) = ''WattCur''"
  using fixed_string_appends [of 8 "[''WattC'', ''urb-daemon'']" "[]"] by simp

text \<open>A fixed vector never holds more than its capacity: after any sequence of pushes it holds
  the first \<open>cap\<close> elements in order, its canary is intact, and the overflow counter is the
  number of elements it refused (modulo its 32 bits).\<close>

theorem fixed_vector_pushes:
  "fv_items (fold (\<lambda>x v. snd (fv_push_back cap x v)) xs fv_new) = take cap xs \<and>
   fv_check_integrity (fold (\<lambda>x v. snd (fv_push_back cap x v)) xs fv_new) \<and>
   fv_overflow (fold (\<lambda>x v. snd (fv_push_back cap x v)) xs fv_new) = of_nat (length xs - cap)"
proof -
  have over: "fv_ok cap v \<Longrightarrow> fv_overflow (fold (\<lambda>x v. snd (fv_push_back cap x v)) xs v) =
      fv_overflow v + of_nat (length (fv_items v) + length xs - cap)" for v :: "'a fvec"
  proof (induction xs arbitrary: v)
    case (Cons x xs)
    have "fv_ok cap (snd (fv_push_back cap x v))" using Cons.prems by (rule fv_ok_push_back)
    from Cons.IH [OF this] Cons.prems show ?case
      by (auto simp: fv_push_back_def fv_simps Let_def not_le split: if_splits)
  qed (simp add: fv_simps)
  show ?thesis
    using fv.contents_fold [OF fv_ok_new, of cap xs] fv.ok_fold [OF fv_ok_new, of cap xs]
      over [OF fv_ok_new] by (simp add: fv_new_def fv_simps)
qed

end
