(* ===== verification/Types.thy ===== *)
theory Types
  imports Containers
begin

text \<open>
  The data that travels between the components (\<^verbatim>\<open>src/core/types.hpp\<close>): the analysis
  report of one cycle, with the fields the modelled components read.
\<close>

section \<open>Enumerations\<close>

datatype power_profile = Performance | Balanced | PowerSaver | UltraEndurance

fun profile_code :: "power_profile \<Rightarrow> nat" where
  "profile_code Performance = 0"
| "profile_code Balanced = 1"
| "profile_code PowerSaver = 2"
| "profile_code UltraEndurance = 3"

lemma profile_code_inj [simp]: "profile_code a = profile_code b \<longleftrightarrow> a = b"
  by (cases a; cases b) auto

text \<open>The enum is ordered by its underlying value; \<open><\<close> on it is used by the profile policy.\<close>

instantiation power_profile :: linorder
begin

definition less_eq_power_profile :: "power_profile \<Rightarrow> power_profile \<Rightarrow> bool" where
  "less_eq_power_profile a b \<longleftrightarrow> profile_code a \<le> profile_code b"

definition less_power_profile :: "power_profile \<Rightarrow> power_profile \<Rightarrow> bool" where
  "less_power_profile a b \<longleftrightarrow> profile_code a < profile_code b"

instance
  by intro_classes (auto simp: less_eq_power_profile_def less_power_profile_def)

end

datatype safety_tier =
  CriticalImmune | DesktopCore | DesktopShell | UserInteractive | BackgroundWorker | RunawayCandidate

fun tier_num :: "safety_tier \<Rightarrow> nat" where
  "tier_num CriticalImmune = 0"
| "tier_num DesktopCore = 1"
| "tier_num DesktopShell = 2"
| "tier_num UserInteractive = 3"
| "tier_num BackgroundWorker = 4"
| "tier_num RunawayCandidate = 5"

lemma tier_num_inj [simp]: "tier_num a = tier_num b \<longleftrightarrow> a = b"
  by (cases a; cases b) auto

instantiation safety_tier :: linorder
begin

definition less_eq_safety_tier :: "safety_tier \<Rightarrow> safety_tier \<Rightarrow> bool" where
  "less_eq_safety_tier a b \<longleftrightarrow> tier_num a \<le> tier_num b"

definition less_safety_tier :: "safety_tier \<Rightarrow> safety_tier \<Rightarrow> bool" where
  "less_safety_tier a b \<longleftrightarrow> tier_num a < tier_num b"

instance
  by intro_classes (auto simp: less_eq_safety_tier_def less_safety_tier_def)

end

text \<open>
  The report carries the tier as a byte, which the code casts back to the enum; a byte that
  is no enumerator compares unequal to all of them.
\<close>

definition tier_code :: "safety_tier \<Rightarrow> u8" where
  "tier_code t = of_nat (tier_num t)"

lemma tier_code_inj [simp]: "tier_code a = tier_code b \<longleftrightarrow> a = b"
  by (cases a; cases b) (simp_all add: tier_code_def)

section \<open>The report of a cycle\<close>

record proc_power =
  pp_pid :: pid
  pp_comm :: string
  pp_cpu_watts :: float64
  pp_wakeup_tax_watts :: float64
  pp_total_watts :: float64
  pp_wdi_score :: float64
  pp_wakeups_per_sec :: u64
  pp_is_runaway :: bool
  pp_cpu_core :: i32
  pp_num_threads :: u32
  pp_cross_ccx :: bool
  pp_timerslack_ns :: u64
  pp_rss_kib :: u64
  pp_pss_kib :: u64
  pp_majflt_per_sec :: u64
  pp_safety_tier :: u8

record hw_breakdown =
  hw_total_system_watts :: float64
  hw_cpu_package_watts :: float64
  hw_gpu_watts :: float64
  hw_display_watts :: float64
  hw_fan_watts :: float64
  hw_storage_watts :: float64
  hw_uncore_watts :: float64
  hw_is_battery_discharging :: bool
  hw_is_ac_passthrough :: bool
  hw_battery_capacity_percent :: u32
  hw_battery_health_percent :: float64
  hw_battery_hours_to_empty :: float64
  hw_cpu_temp_c :: float64
  hw_cpu_freq_avg_mhz :: float64
  hw_cpu_freq_max_mhz :: float64
  hw_fan_rpm :: u32
  hw_c0_active_percent :: float64
  hw_c3_deep_percent :: float64
  hw_display_brightness_percent :: float64
  hw_aspm_policy :: string

record report =
  rp_hardware :: hw_breakdown
  rp_top :: "proc_power fvec"
  rp_wakeups_per_sec :: u64
  rp_current_profile :: power_profile
  rp_feature_summary_count :: u64

abbreviation "TOP_CAPACITY \<equiv> (64 :: nat)"

abbreviation top_list :: "report \<Rightarrow> proc_power list" where
  "top_list r \<equiv> fv_items (rp_top r)"

abbreviation add64 :: "fp \<Rightarrow> fp \<Rightarrow> fp" where "add64 \<equiv> fp_add Binary64"
abbreviation mul64 :: "fp \<Rightarrow> fp \<Rightarrow> fp" where "mul64 \<equiv> fp_mul Binary64"
abbreviation div64 :: "fp \<Rightarrow> fp \<Rightarrow> fp" where "div64 \<equiv> fp_div Binary64"
abbreviation sub64 :: "fp \<Rightarrow> fp \<Rightarrow> fp" where "sub64 \<equiv> fp_sub Binary64"

definition domain_sum :: "hw_breakdown \<Rightarrow> float64" where
  "domain_sum h =
     add64 (add64 (add64 (add64 (add64 (hw_cpu_package_watts h) (hw_gpu_watts h))
       (hw_display_watts h)) (hw_fan_watts h)) (hw_storage_watts h)) (hw_uncore_watts h)"

definition effective_total_watts :: "hw_breakdown \<Rightarrow> float64" where
  "effective_total_watts h =
     (let hw_sum = domain_sum h
      in if hw_is_battery_discharging h \<and> fp_gt (hw_total_system_watts h) (Fin 0)
         then (if fp_gt (hw_total_system_watts h) hw_sum then hw_total_system_watts h else hw_sum)
         else if fp_gt hw_sum (Fin 0) then hw_sum else hw_total_system_watts h)"

text \<open>
  The effective total never under-reports the measured domains: whenever their sum is
  positive, it is at least that sum.
\<close>

lemma effective_total_ge_domains:
  assumes "fp_gt (domain_sum h) (Fin 0)"
  shows "fp_ge (effective_total_watts h) (domain_sum h)"
proof -
  have refl: "fp_le (domain_sum h) (domain_sum h)"
    using assms by (cases "domain_sum h") auto
  have "fp_lt a b \<Longrightarrow> fp_le a b" for a b
    by (cases a; cases b) auto
  with refl show ?thesis
    using assms by (auto simp: effective_total_watts_def Let_def)
qed

text \<open>Reports for the examples: a machine at rest with the given processes.\<close>

definition quiet_hardware :: hw_breakdown where
  "quiet_hardware = \<lparr>hw_total_system_watts = Fin 0, hw_cpu_package_watts = Fin 0, hw_gpu_watts = Fin 0,
     hw_display_watts = Fin 0, hw_fan_watts = Fin 0, hw_storage_watts = Fin 0, hw_uncore_watts = Fin 0,
     hw_is_battery_discharging = False, hw_is_ac_passthrough = False, hw_battery_capacity_percent = 80,
     hw_battery_health_percent = Fin 100, hw_battery_hours_to_empty = Fin 0, hw_cpu_temp_c = Fin 40,
     hw_cpu_freq_avg_mhz = Fin 400,
     hw_cpu_freq_max_mhz = Fin 4000, hw_fan_rpm = 0, hw_c0_active_percent = Fin 1, hw_c3_deep_percent = Fin 90,
     hw_display_brightness_percent = Fin 40, hw_aspm_policy = ''default''\<rparr>"

definition example_proc :: "pid \<Rightarrow> string \<Rightarrow> safety_tier \<Rightarrow> u64 \<Rightarrow> proc_power" where
  "example_proc p comm t pss = \<lparr>pp_pid = p, pp_comm = comm, pp_cpu_watts = Fin 0,
     pp_wakeup_tax_watts = Fin 0, pp_total_watts = Fin 0, pp_wdi_score = Fin 0, pp_wakeups_per_sec = 0,
     pp_is_runaway = False, pp_cpu_core = - 1, pp_num_threads = 1, pp_cross_ccx = False, pp_timerslack_ns = 50000, pp_rss_kib = pss, pp_pss_kib = pss, pp_majflt_per_sec = 0,
     pp_safety_tier = tier_code t\<rparr>"

definition report_of :: "proc_power list \<Rightarrow> report" where
  "report_of ps = \<lparr>rp_hardware = quiet_hardware, rp_top = fv_new\<lparr>fv_items := ps\<rparr>, rp_wakeups_per_sec = 0,
     rp_current_profile = Balanced, rp_feature_summary_count = 0\<rparr>"

lemma top_list_report_of [simp]: "top_list (report_of ps) = ps"
  by (simp add: report_of_def)

end
