(* ===== verification/Ipc.thy ===== *)
theory Ipc
  imports Types
begin

text \<open>
  The shared-memory channel of \<^verbatim>\<open>src/ipc\<close>: the seven-day history ring, the state block the
  tray reads, and the sequence lock both are published under.  The lock is modelled as
  an interleaving of one writer with one reader, step by step; the ring and the
  block are modelled as the values the writer computes.
\<close>

section \<open>The history ring\<close>

record history_point =
  hp_timestamp_sec :: u64
  hp_total_system_mw :: u32
  hp_cpu_package_mw :: u16
  hp_gpu_mw :: u16
  hp_cpu_temp_c :: u16
  hp_cpu_freq_mhz :: u16
  hp_battery_percent :: u8
  hp_battery_state :: u8
  hp_power_profile_mode :: u8
  hp_cstate_c3_percent :: u8
  hp_active_mitigations :: u8
  hp_mem_used_mb :: u16
  hp_swap_used_mb :: u16
  hp_top_proc_pss_mb :: u16

definition RING_CAPACITY :: nat where
  [code_consts]: "RING_CAPACITY = 60480"

text \<open>
  \<open>rg_cap\<close> is the static \<open>CAPACITY\<close>; the two indices stay below it, so their 32 bits never
  wrap.
\<close>

record 'p ring =
  rg_cap :: nat
  rg_seq :: u64
  rg_head :: nat
  rg_count :: nat
  rg_entries :: "'p list"

definition ring_new :: "nat \<Rightarrow> 'p \<Rightarrow> 'p ring" where
  "ring_new cap zero =
     \<lparr>rg_cap = cap, rg_seq = 0, rg_head = 0, rg_count = 0, rg_entries = replicate cap zero\<rparr>"

definition ring_append :: "'p \<Rightarrow> 'p ring \<Rightarrow> 'p ring" where
  "ring_append pt r =
     (let ver = rg_seq r; idx = rg_head r
      in r\<lparr>rg_entries := (rg_entries r)[idx := pt],
           rg_head := (idx + 1) mod rg_cap r,
           rg_count := (if rg_count r < rg_cap r then rg_count r + 1 else rg_count r),
           rg_seq := ver + 2\<rparr>)"

text \<open>
  The same append store by store: what a reader finds in the segment between two stores of the
  writer.  \<open>ring_append\<close> is where the last of them leaves the ring.
\<close>

definition ring_stages :: "'p \<Rightarrow> 'p ring \<Rightarrow> 'p ring list" where
  "ring_stages pt r =
     (let ver = rg_seq r; idx = rg_head r;
          marked = r\<lparr>rg_seq := ver + 1\<rparr>;
          stored = marked\<lparr>rg_entries := (rg_entries marked)[idx := pt]\<rparr>;
          moved = stored\<lparr>rg_head := (idx + 1) mod rg_cap r\<rparr>;
          counted = (if rg_count moved < rg_cap r then moved\<lparr>rg_count := rg_count moved + 1\<rparr> else moved);
          stable = counted\<lparr>rg_seq := ver + 2\<rparr>
      in [marked, stored, moved, counted, stable])"

lemma last_ring_stages: "last (ring_stages pt r) = ring_append pt r"
  by (simp add: ring_stages_def ring_append_def Let_def)

lemma ring_stages_seq: "w \<in> set (butlast (ring_stages pt r)) \<Longrightarrow> rg_seq w = rg_seq r + 1"
  by (auto simp: ring_stages_def Let_def)

text \<open>
  One pass of the reader's loop body with no concurrent writer: the entries copied, oldest
  first, or nothing while the version is odd.
\<close>

definition ring_copy :: "nat \<Rightarrow> 'p ring \<Rightarrow> 'p list" where
  "ring_copy max_entries r =
     (let c = min (rg_count r) max_entries;
          start = (if rg_count r < rg_cap r then 0 else rg_head r)
      in map (\<lambda>i. rg_entries r ! ((start + i) mod rg_cap r)) [0..<c])"

fun ring_read_loop :: "nat \<Rightarrow> nat \<Rightarrow> 'p ring \<Rightarrow> 'p list option" where
  "ring_read_loop 0 max_entries r = None"
| "ring_read_loop (Suc n) max_entries r =
     (if odd (uint (rg_seq r)) then ring_read_loop n max_entries r
      else Some (ring_copy max_entries r))"

text \<open>The reader's five attempts, on a ring that stays as it is while they last.\<close>

definition ring_read_snapshot :: "nat \<Rightarrow> 'p ring \<Rightarrow> 'p list option" where
  "ring_read_snapshot max_entries r =
     (if max_entries = 0 then None else ring_read_loop 5 max_entries r)"

text \<open>
  The abstract ring is the list of points still held, oldest first; the concrete one keeps
  them at \<open>start\<close>, \<open>start + 1\<close>, \dots modulo the capacity.
\<close>

definition ring_ok :: "'p ring \<Rightarrow> bool" where
  "ring_ok r \<longleftrightarrow>
     0 < rg_cap r \<and> length (rg_entries r) = rg_cap r \<and> rg_head r < rg_cap r \<and>
     rg_count r \<le> rg_cap r \<and> (rg_count r < rg_cap r \<longrightarrow> rg_head r = rg_count r) \<and>
     even (uint (rg_seq r))"

definition ring_abs :: "'p ring \<Rightarrow> 'p list" where
  "ring_abs r = (if rg_count r < rg_cap r then take (rg_count r) (rg_entries r)
                 else drop (rg_head r) (rg_entries r) @ take (rg_head r) (rg_entries r))"

definition ring_push_abs :: "nat \<Rightarrow> 'p \<Rightarrow> 'p list \<Rightarrow> 'p list" where
  "ring_push_abs cap pt xs = (if length xs < cap then xs @ [pt] else tl xs @ [pt])"

lemma even_uint_plus2: "even (uint (w :: u64)) \<Longrightarrow> even (uint (w + 2))"
proof -
  have "even (uint (w + 2)) \<longleftrightarrow> even (uint w + 2)"
    by (simp add: uint_word_ariths dvd_mod_iff)
  then show "even (uint w) \<Longrightarrow> even (uint (w + 2))" by simp
qed

lemma ring_ok_new [intro]: "0 < cap \<Longrightarrow> ring_ok (ring_new cap z)"
  by (simp add: ring_ok_def ring_new_def)

lemma length_ring_abs: "ring_ok r \<Longrightarrow> length (ring_abs r) = rg_count r"
  by (auto simp: ring_ok_def ring_abs_def)

lemma ring_ok_append [intro]: "ring_ok r \<Longrightarrow> ring_ok (ring_append pt r)"
  by (auto simp: ring_ok_def ring_append_def Let_def even_uint_plus2)

lemma ring_abs_append:
  assumes ok: "ring_ok r"
  shows "ring_abs (ring_append pt r) = ring_push_abs (rg_cap r) pt (ring_abs r)"
proof -
  let ?es = "rg_entries r" and ?h = "rg_head r" and ?n = "rg_cap r"
  have len: "length ?es = ?n" and h: "?h < ?n" and cnt: "rg_count r \<le> ?n"
    using ok by (auto simp: ring_ok_def)
  show ?thesis
  proof (cases "rg_count r < ?n")
    case True
    with ok have hc: "?h = rg_count r" by (simp add: ring_ok_def)
    have upd: "take (Suc ?h) (?es[?h := pt]) = take ?h ?es @ [pt]"
      using h len by (simp add: take_Suc_conv_app_nth)
    have full: "?es[?h := pt] = take ?h ?es @ [pt]" if "Suc ?h = ?n"
      using upd that len by (metis length_list_update order_refl take_all)
    have wrap: "Suc ?h mod ?n = 0" if "\<not> Suc ?h < ?n"
      using h that by (metis Suc_lessI mod_self)
    show ?thesis
      using True hc h len upd full wrap
      by (auto simp: ring_abs_def ring_append_def ring_push_abs_def Let_def)
  next
    case False
    with cnt have c: "rg_count r = ?n" by simp
    have dr: "drop ?h ?es = ?es ! ?h # drop (Suc ?h) ?es"
      using h len by (metis Cons_nth_drop_Suc)
    show ?thesis
    proof (cases "Suc ?h = ?n")
      case True
      then show ?thesis
        using c h len dr
        by (simp add: ring_abs_def ring_append_def ring_push_abs_def Let_def)
          (metis drop_all eq_imp_le hd_conv_nth lessI list_update_append1 list_update_length
            append_take_drop_id length_take min.absorb2 nat_less_le)
    next
      case False
      with h have "Suc ?h < ?n" by simp
      then show ?thesis
        using c h len dr
        by (simp add: ring_abs_def ring_append_def ring_push_abs_def Let_def take_Suc_conv_app_nth)
    qed
  qed
qed

lemma ring_copy_abs:
  assumes ok: "ring_ok r"
  shows "ring_copy m r = take m (ring_abs r)"
proof (rule nth_equalityI)
  have len: "length (rg_entries r) = rg_cap r" and h: "rg_head r < rg_cap r"
    using ok by (auto simp: ring_ok_def)
  show "length (ring_copy m r) = length (take m (ring_abs r))"
    using length_ring_abs [OF ok] by (simp add: ring_copy_def Let_def)
  fix i
  assume "i < length (ring_copy m r)"
  then have i: "i < rg_count r" "i < m" by (auto simp: ring_copy_def Let_def)
  show "ring_copy m r ! i = take m (ring_abs r) ! i"
  proof (cases "rg_count r < rg_cap r")
    case True
    then show ?thesis using i by (simp add: ring_copy_def ring_abs_def Let_def)
  next
    case False
    with ok i have ic: "i < rg_cap r" by (auto simp: ring_ok_def)
    show ?thesis
    proof (cases "rg_head r + i < rg_cap r")
      case True
      then have "i < rg_cap r - rg_head r" by simp
      then show ?thesis
        using True False i len by (simp add: ring_copy_def ring_abs_def Let_def nth_append)
    next
      case wrap: False
      then have "(rg_head r + i) mod rg_cap r = rg_head r + i - rg_cap r"
        using h ic by (simp add: mod_if)
      moreover have "\<not> i < rg_cap r - rg_head r" "i - (rg_cap r - rg_head r) = rg_head r + i - rg_cap r"
        "rg_head r + i - rg_cap r < rg_head r"
        using wrap h ic by linarith+
      ultimately show ?thesis
        using False i len by (simp add: ring_copy_def ring_abs_def Let_def nth_append)
    qed
  qed
qed

lemma ring_read_ok:
  "ring_ok r \<Longrightarrow> ring_read_snapshot m r = (if m = 0 then None else Some (take m (ring_abs r)))"
  by (simp add: ring_read_snapshot_def ring_copy_abs numeral_eq_Suc ring_ok_def)

lemma even_uint_plus1: "even (uint ((w :: u64) + 1)) \<longleftrightarrow> odd (uint w)"
  by (simp add: uint_word_ariths dvd_mod_iff)

lemma ring_read_even: "even (uint (rg_seq r)) \<Longrightarrow> ring_read_snapshot m r = (if m = 0 then None else Some (ring_copy m r))"
  by (simp add: ring_read_snapshot_def numeral_eq_Suc)

text \<open>
  When the sequence number was odd before the append, it is even while the append lasts: a reader is served whatever
  the stores have left so far.  On a full ring the point just written is then the oldest entry that it gets.
\<close>

lemma ring_torn_stage_read:
  assumes "odd (uint (rg_seq r))" and "w \<in> set (butlast (ring_stages pt r))" and "0 < m"
  shows "ring_read_snapshot m w = Some (ring_copy m w)"
  using ring_stages_seq [OF assms(2)] assms(1,3) by (simp add: ring_read_even even_uint_plus1)

lemma ring_torn_full_read:
  assumes "odd (uint (rg_seq r))" and "0 < m" and "rg_count r = rg_cap r" and "rg_head r < rg_cap r"
    and "length (rg_entries r) = rg_cap r"
  shows "\<exists>xs. ring_read_snapshot m (ring_stages pt r ! 1) = Some (pt # xs)"
proof -
  have w: "ring_stages pt r ! 1 \<in> set (butlast (ring_stages pt r))" by (simp add: ring_stages_def Let_def)
  have "ring_copy m (ring_stages pt r ! 1) = map (\<lambda>i. (rg_entries r)[rg_head r := pt] ! ((rg_head r + i) mod rg_cap r)) [0..<min (rg_cap r) m]"
    using assms(3) by (simp add: ring_copy_def ring_stages_def Let_def)
  moreover have "[0..<min (rg_cap r) m] = 0 # [1..<min (rg_cap r) m]"
    using assms(2,4) by (subst upt_conv_Cons) auto
  ultimately show ?thesis
    using ring_torn_stage_read [OF assms(1) w assms(2)] assms(4,5) by simp
qed

lemma ring_push_abs_fold:
  "length xs \<le> cap \<Longrightarrow> 0 < cap \<Longrightarrow>
   fold (ring_push_abs cap) pts xs = drop (length xs + length pts - cap) (xs @ pts)"
proof (induction pts arbitrary: xs)
  case Nil
  then show ?case by simp
next
  case (Cons p pts)
  have push: "ring_push_abs cap p xs = drop (length xs + 1 - cap) (xs @ [p])"
    using Cons.prems by (cases xs) (auto simp: ring_push_abs_def)
  have len: "length (ring_push_abs cap p xs) \<le> cap"
    using Cons.prems by (auto simp: ring_push_abs_def)
  have "fold (ring_push_abs cap) (p # pts) xs = fold (ring_push_abs cap) pts (ring_push_abs cap p xs)"
    by simp
  also have "\<dots> = drop (length (ring_push_abs cap p xs) + length pts - cap) (ring_push_abs cap p xs @ pts)"
    by (rule Cons.IH [OF len Cons.prems(2)])
  also have "\<dots> = drop (length xs + length (p # pts) - cap) (xs @ p # pts)"
  proof (cases "length xs < cap")
    case True
    then show ?thesis by (simp add: push)
  next
    case False
    with Cons.prems have "length xs = cap" by simp
    then show ?thesis using Cons.prems(2) by (cases xs) (auto simp: ring_push_abs_def)
  qed
  finally show ?case .
qed

lemma ring_fold_ok:
  "ring_ok r \<Longrightarrow> ring_ok (fold ring_append pts r) \<and>
     rg_cap (fold ring_append pts r) = rg_cap r \<and>
     ring_abs (fold ring_append pts r) = fold (ring_push_abs (rg_cap r)) pts (ring_abs r)"
proof (induction pts arbitrary: r)
  case (Cons p pts)
  have "rg_cap (ring_append p r) = rg_cap r" by (simp add: ring_append_def Let_def)
  with Cons.IH [OF ring_ok_append [OF Cons.prems, of p]] ring_abs_append [OF Cons.prems]
  show ?case by simp
qed simp

section \<open>The state block of the tray\<close>

record shared_culprit =
  sc_comm :: string
  sc_pid :: pid
  sc_drain_mw :: u32
  sc_domain_id :: u8
  sc_tier :: u8
  sc_rss_mb :: u16
  sc_pss_mb :: u16
  sc_majflt_s :: u16

record shared_state =
  ss_seq_version :: u64
  ss_system_drain_mw :: u32
  ss_battery_percent :: u8
  ss_battery_state :: u8
  ss_time_to_empty_min :: u16
  ss_active_mitigations :: u32
  ss_cpu_drain_mw :: u32
  ss_gpu_drain_mw :: u32
  ss_wakeups_per_sec :: u32
  ss_cpu_temp_c :: u16
  ss_fan_rpm :: u16
  ss_cstate_c3_percent :: u8
  ss_battery_health_percent :: u8
  ss_power_profile_mode :: u8
  ss_cpu_freq_mhz :: u16
  ss_culprits :: "shared_culprit list"

definition clamp_int :: "int \<Rightarrow> int \<Rightarrow> int \<Rightarrow> int" where
  "clamp_int lo hi x = (if x < lo then lo else if hi < x then hi else x)"

lemma clamp_int_range: "lo \<le> hi \<Longrightarrow> lo \<le> clamp_int lo hi x \<and> clamp_int lo hi x \<le> hi"
  by (auto simp: clamp_int_def)

text \<open>\<open>static_cast<uint32_t>(watts * 1000.0)\<close>; out of range it is undefined.\<close>

definition milliwatts :: "float64 \<Rightarrow> u32 option" where
  "milliwatts w = map_option of_int (fp_to_int 0 (2 ^ 32 - 1) (mul64 w (lit64 1000)))"

text \<open>\<open>std::clamp(static_cast<int>(x), 0, hi)\<close> stored in an unsigned field.\<close>

definition clamped_cast :: "int \<Rightarrow> float64 \<Rightarrow> 'a::len word option" where
  "clamped_cast hi x = map_option (\<lambda>z. of_int (clamp_int 0 hi z)) (fp_to_i32 x)"

text \<open>\<open>std::clamp(static_cast<double>(n) / d, 0.0, 65535.0)\<close> cast to \<open>uint16_t\<close>.\<close>

definition clamp_u16 :: "float64 \<Rightarrow> u16 option" where
  "clamp_u16 x = map_option of_int (fp_to_int 0 65535 (fp_clamp x (lit64 0) (lit64 65535)))"

definition kib_to_mb :: "u64 \<Rightarrow> u16 option" where
  "kib_to_mb n = clamp_u16 (div64 (fp_of_u64 Binary64 n) (lit64 1024))"

definition strncpy15 :: "string \<Rightarrow> string" where
  "strncpy15 src = (let s = take 15 (c_str src) in s @ replicate (15 - length s) NUL @ [NUL])"

definition culprit_of :: "shared_culprit \<Rightarrow> proc_power \<Rightarrow> shared_culprit option" where
  "culprit_of c p = do {
     drain \<leftarrow> milliwatts (pp_total_watts p);
     rss \<leftarrow> kib_to_mb (pp_rss_kib p);
     pss \<leftarrow> kib_to_mb (pp_pss_kib p);
     flt \<leftarrow> clamp_u16 (fp_of_u64 Binary64 (pp_majflt_per_sec p));
     Some (c\<lparr>sc_comm := strncpy15 (pp_comm p), sc_pid := pp_pid p, sc_drain_mw := drain,
             sc_tier := pp_safety_tier p, sc_domain_id := 0,
             sc_rss_mb := rss, sc_pss_mb := pss, sc_majflt_s := flt\<rparr>)
   }"

fun update_culprits :: "shared_culprit list \<Rightarrow> proc_power list \<Rightarrow> shared_culprit list option" where
  "update_culprits (c # cs) (p # ps) =
     do { c' \<leftarrow> culprit_of c p; cs' \<leftarrow> update_culprits cs ps; Some (c' # cs') }"
| "update_culprits cs _ = Some cs"

definition update_from_report :: "report \<Rightarrow> shared_state \<Rightarrow> shared_state option" where
  "update_from_report r s = do {
     let h = rp_hardware r;
     let ver = ss_seq_version s;
     drain \<leftarrow> milliwatts (effective_total_watts h);
     let batt = of_int (clamp_int 0 100 (wrap_i32 (uint (hw_battery_capacity_percent h))));
     let state = (if hw_is_ac_passthrough h then 2 else if hw_is_battery_discharging h then 1 else 0);
     tte \<leftarrow> clamped_cast 65535 (mul64 (hw_battery_hours_to_empty h) (lit64 60));
     cpu \<leftarrow> milliwatts (hw_cpu_package_watts h);
     gpu \<leftarrow> milliwatts (hw_gpu_watts h);
     temp \<leftarrow> clamped_cast 200 (hw_cpu_temp_c h);
     freq \<leftarrow> map_option of_int (fp_to_int 0 65535 (hw_cpu_freq_avg_mhz h));
     c3 \<leftarrow> clamped_cast 100 (hw_c3_deep_percent h);
     health \<leftarrow> clamped_cast 100 (hw_battery_health_percent h);
     culprits \<leftarrow> update_culprits (ss_culprits s) (take 2 (top_list r));
     Some (s\<lparr>ss_system_drain_mw := drain, ss_battery_percent := batt, ss_battery_state := state,
             ss_time_to_empty_min := tte, ss_active_mitigations := ucast (rp_feature_summary_count r),
             ss_cpu_drain_mw := cpu, ss_gpu_drain_mw := gpu,
             ss_wakeups_per_sec := ucast (rp_wakeups_per_sec r), ss_cpu_temp_c := temp,
             ss_cpu_freq_mhz := freq,
             ss_fan_rpm := of_int (clamp_int 0 20000 (uint (hw_fan_rpm h))),
             ss_cstate_c3_percent := c3, ss_battery_health_percent := health,
             ss_power_profile_mode := of_nat (profile_code (rp_current_profile r)),
             ss_culprits := culprits, ss_seq_version := ver + 2\<rparr>)
   }"

definition update_profile_mode :: "u8 \<Rightarrow> shared_state \<Rightarrow> shared_state" where
  "update_profile_mode mode s =
     (let ver = ss_seq_version s
      in s\<lparr>ss_power_profile_mode := mode, ss_seq_version := ver + 2\<rparr>)"

section \<open>The sequence lock under interleaving\<close>

text \<open>
  A writer makes the version odd, stores its cells one by one, and makes it even again; a
  reader loads the version, copies the cells in any order, loads the version again and
  accepts the copy when the two agree.  The loads and stores of the two sides interleave
  freely, each taking effect at once and in program order.  \<open>v0\<close> is the version the mapped
  segment holds when the daemon starts: the daemon adopts a block that a former daemon left,
  version included, so \<open>v0\<close> is even after a clean exit and odd when the former writer died
  between its two version stores.  \<open>sl_log\<close> is a ghost: the contents published so far, the initial one first.
  \<open>budget\<close> is the reader's retry bound (100 for the tray block, 5 for the ring).
\<close>

datatype 'w writer_pc = WIdle | WStoring "(nat \<times> 'w) list"

datatype 'w reader_pc =
    RStart nat
  | RCopying nat u64 "nat \<rightharpoonup> 'w"
  | RAccepted "nat \<rightharpoonup> 'w"
  | RGaveUp

record 'w seqlock =
  sl_seq :: u64
  sl_cells :: "'w list"
  sl_writer :: "'w writer_pc"
  sl_reader :: "'w reader_pc"
  sl_log :: "'w list list"

definition seqlock_init :: "u64 \<Rightarrow> 'w list \<Rightarrow> 'w seqlock" where
  "seqlock_init v0 cells =
     \<lparr>sl_seq = v0, sl_cells = cells, sl_writer = WIdle, sl_reader = RStart 0, sl_log = [cells]\<rparr>"

inductive seqlock_step :: "nat \<Rightarrow> 'w seqlock \<Rightarrow> 'w seqlock \<Rightarrow> bool" for budget where
  w_begin: "sl_writer s = WIdle \<Longrightarrow> \<forall>(i, x) \<in> set stores. i < length (sl_cells s) \<Longrightarrow>
     seqlock_step budget s (s\<lparr>sl_seq := sl_seq s + 1, sl_writer := WStoring stores\<rparr>)"
| w_store: "sl_writer s = WStoring ((i, x) # rest) \<Longrightarrow>
     seqlock_step budget s (s\<lparr>sl_cells := (sl_cells s)[i := x], sl_writer := WStoring rest\<rparr>)"
| w_end: "sl_writer s = WStoring [] \<Longrightarrow>
     seqlock_step budget s
       (s\<lparr>sl_seq := sl_seq s + 1, sl_writer := WIdle, sl_log := sl_log s @ [sl_cells s]\<rparr>)"
| r_exhausted: "sl_reader s = RStart n \<Longrightarrow> budget \<le> n \<Longrightarrow>
     seqlock_step budget s (s\<lparr>sl_reader := RGaveUp\<rparr>)"
| r_busy: "sl_reader s = RStart n \<Longrightarrow> n < budget \<Longrightarrow> odd (uint (sl_seq s)) \<Longrightarrow>
     seqlock_step budget s (s\<lparr>sl_reader := RStart (n + 1)\<rparr>)"
| r_load: "sl_reader s = RStart n \<Longrightarrow> n < budget \<Longrightarrow> even (uint (sl_seq s)) \<Longrightarrow>
     seqlock_step budget s (s\<lparr>sl_reader := RCopying (n + 1) (sl_seq s) Map.empty\<rparr>)"
| r_copy: "sl_reader s = RCopying n v1 m \<Longrightarrow> i < length (sl_cells s) \<Longrightarrow> m i = None \<Longrightarrow>
     seqlock_step budget s (s\<lparr>sl_reader := RCopying n v1 (m(i \<mapsto> sl_cells s ! i))\<rparr>)"
| r_accept: "sl_reader s = RCopying n v1 m \<Longrightarrow> dom m = {..<length (sl_cells s)} \<Longrightarrow> sl_seq s = v1 \<Longrightarrow>
     seqlock_step budget s (s\<lparr>sl_reader := RAccepted m\<rparr>)"
| r_retry: "sl_reader s = RCopying n v1 m \<Longrightarrow> dom m = {..<length (sl_cells s)} \<Longrightarrow> sl_seq s \<noteq> v1 \<Longrightarrow>
     seqlock_step budget s (s\<lparr>sl_reader := RStart n\<rparr>)"

inductive seqlock_reach :: "nat \<Rightarrow> u64 \<Rightarrow> 'w list \<Rightarrow> 'w seqlock \<Rightarrow> bool" for budget v0 cells where
  init: "seqlock_reach budget v0 cells (seqlock_init v0 cells)"
| step: "seqlock_reach budget v0 cells s \<Longrightarrow> seqlock_step budget s t \<Longrightarrow> seqlock_reach budget v0 cells t"

inductive_cases seqlock_stepE: "seqlock_step budget s t"

text \<open>The number of version stores so far; the version is this count modulo \<open>2 ^ 64\<close>.\<close>

definition sl_epoch :: "'w seqlock \<Rightarrow> nat" where
  "sl_epoch s = 2 * (length (sl_log s) - 1) + (if sl_writer s = WIdle then 0 else 1)"

definition sl_no_wrap :: "'w seqlock \<Rightarrow> bool" where
  "sl_no_wrap s \<longleftrightarrow> 2 * length (sl_log s) < 2 ^ 64"

definition sl_writer_inv :: "u64 \<Rightarrow> nat \<Rightarrow> 'w seqlock \<Rightarrow> bool" where
  "sl_writer_inv v0 n s \<longleftrightarrow>
     sl_log s \<noteq> [] \<and> sl_seq s = v0 + of_nat (sl_epoch s) \<and> length (sl_cells s) = n \<and>
     (\<forall>c \<in> set (sl_log s). length c = n) \<and> (sl_writer s = WIdle \<longrightarrow> last (sl_log s) = sl_cells s)"

text \<open>
  A copy in progress began at some published content \<open>k\<close>; as long as no version store has
  happened since, every cell copied is that content's.
\<close>

definition sl_copy_inv :: "u64 \<Rightarrow> u64 \<Rightarrow> (nat \<rightharpoonup> 'w) \<Rightarrow> 'w seqlock \<Rightarrow> bool" where
  "sl_copy_inv v0 v1 m s \<longleftrightarrow>
     (\<exists>k < length (sl_log s). v1 = v0 + of_nat (2 * k) \<and> 2 * k \<le> sl_epoch s \<and>
        (sl_epoch s = 2 * k \<longrightarrow> (\<forall>i x. m i = Some x \<longrightarrow> x = sl_log s ! k ! i)))"

definition sl_snapshot :: "(nat \<rightharpoonup> 'w) \<Rightarrow> 'w list \<Rightarrow> bool" where
  "sl_snapshot m c \<longleftrightarrow> dom m = {..<length c} \<and> (\<forall>i < length c. m i = Some (c ! i))"

definition sl_reader_inv :: "u64 \<Rightarrow> 'w seqlock \<Rightarrow> bool" where
  "sl_reader_inv v0 s \<longleftrightarrow>
     (case sl_reader s of
        RCopying n v1 m \<Rightarrow> sl_copy_inv v0 v1 m s
      | RAccepted m \<Rightarrow> (\<exists>c \<in> set (sl_log s). sl_snapshot m c)
      | _ \<Rightarrow> True)"

lemma sl_writer_inv_init: "sl_writer_inv v0 (length cells) (seqlock_init v0 cells)"
  by (simp add: sl_writer_inv_def seqlock_init_def sl_epoch_def)

lemma sl_epoch_simps:
  "sl_writer s = WIdle \<Longrightarrow> sl_log s \<noteq> [] \<Longrightarrow> sl_epoch s = 2 * (length (sl_log s) - 1)"
  "sl_epoch (s\<lparr>sl_reader := r\<rparr>) = sl_epoch s"
  by (auto simp: sl_epoch_def)

lemma sl_writer_inv_step:
  assumes "seqlock_step budget s t" and "sl_writer_inv v0 n s"
  shows "sl_writer_inv v0 n t"
  using assms
  by (induction rule: seqlock_step.induct)
    (auto simp: sl_writer_inv_def sl_epoch_def Suc_diff_Suc algebra_simps of_nat_diff neq_Nil_conv)

lemma seqlock_step_log:
  "seqlock_step budget s t \<Longrightarrow> \<exists>cs. sl_log t = sl_log s @ cs"
  by (induction rule: seqlock_step.induct) auto

lemma sl_no_wrap_back: "seqlock_step budget s t \<Longrightarrow> sl_no_wrap t \<Longrightarrow> sl_no_wrap s"
  using seqlock_step_log [of budget s t] by (auto simp: sl_no_wrap_def)

lemma of_nat_u64_inj:
  "(of_nat a :: u64) = of_nat b \<Longrightarrow> a < 2 ^ 64 \<Longrightarrow> b < 2 ^ 64 \<Longrightarrow> a = b"
  by (simp add: word_of_nat_eq_iff take_bit_nat_eq_self)

lemma even_uint_of_nat:
  assumes "even (uint (v :: u64))" and "n < 2 ^ 64"
  shows "even (uint (v + of_nat n)) \<longleftrightarrow> even n"
proof -
  have "even (uint (v + w)) \<longleftrightarrow> even (uint v + uint w)" for w by (simp add: uint_word_ariths dvd_mod_iff)
  moreover have "uint (of_nat n :: u64) = int n"
    using assms(2) by (simp add: uint_nat take_bit_nat_eq_self unsigned_of_nat)
  ultimately show ?thesis using assms(1) by simp
qed

lemma sl_epoch_bound: "sl_log s \<noteq> [] \<Longrightarrow> sl_no_wrap s \<Longrightarrow> sl_epoch s < 2 ^ 64"
  by (cases "sl_log s") (auto simp: sl_epoch_def sl_no_wrap_def)

lemma sl_idle_iff_even: "sl_writer s = WIdle \<longleftrightarrow> even (sl_epoch s)"
  by (auto simp: sl_epoch_def)

lemma sl_current_content:
  assumes "sl_writer_inv v0 n s" and "sl_epoch s = 2 * k"
  shows "sl_log s ! k = sl_cells s" and "k < length (sl_log s)" and "sl_writer s = WIdle"
proof -
  show idle: "sl_writer s = WIdle" using assms(2) by (simp add: sl_idle_iff_even)
  have ne: "sl_log s \<noteq> []" using assms(1) by (simp add: sl_writer_inv_def)
  have k: "k = length (sl_log s) - 1" using sl_epoch_simps(1) [OF idle ne] assms(2) by simp
  show "k < length (sl_log s)" using k ne by (simp add: k)
  show "sl_log s ! k = sl_cells s"
    using assms(1) idle k ne by (simp add: sl_writer_inv_def last_conv_nth)
qed

lemma sl_copy_inv_start:
  assumes "sl_writer_inv v0 n s" and "sl_no_wrap s" and "even (uint (sl_seq s))" and "even (uint v0)"
  shows "sl_copy_inv v0 (sl_seq s) Map.empty s"
proof -
  have ne: "sl_log s \<noteq> []" and seq: "sl_seq s = v0 + of_nat (sl_epoch s)"
    using assms(1) by (auto simp: sl_writer_inv_def)
  have "even (sl_epoch s)"
    using assms(3) even_uint_of_nat [OF assms(4) sl_epoch_bound [OF ne assms(2)]] seq by simp
  then obtain k where k: "sl_epoch s = 2 * k" by (elim evenE)
  with sl_current_content(2) [OF assms(1) k] seq show ?thesis
    unfolding sl_copy_inv_def by (intro exI [of _ k]) simp
qed

lemma sl_copy_inv_copy:
  assumes "sl_writer_inv v0 n s" and "sl_copy_inv v0 v1 m s"
  shows "sl_copy_inv v0 v1 (m(i \<mapsto> sl_cells s ! i)) s"
proof -
  from assms(2) obtain k where k: "k < length (sl_log s)" "v1 = v0 + of_nat (2 * k)" "2 * k \<le> sl_epoch s"
    and m: "sl_epoch s = 2 * k \<Longrightarrow> \<forall>i x. m i = Some x \<longrightarrow> x = sl_log s ! k ! i"
    unfolding sl_copy_inv_def by blast
  have "\<forall>j x. (m(i \<mapsto> sl_cells s ! i)) j = Some x \<longrightarrow> x = sl_log s ! k ! j" if "sl_epoch s = 2 * k"
    using m [OF that] sl_current_content(1) [OF assms(1) that] by auto
  with k show ?thesis unfolding sl_copy_inv_def by blast
qed

lemma sl_copy_inv_accept:
  assumes w: "sl_writer_inv v0 n s" and "sl_no_wrap s" and c: "sl_copy_inv v0 v1 m s"
    and d: "dom m = {..<length (sl_cells s)}" and v: "sl_seq s = v1"
  shows "\<exists>c \<in> set (sl_log s). sl_snapshot m c"
proof -
  from c obtain k where k: "k < length (sl_log s)" "v1 = v0 + of_nat (2 * k)" "2 * k \<le> sl_epoch s"
    and m: "sl_epoch s = 2 * k \<Longrightarrow> \<forall>i x. m i = Some x \<longrightarrow> x = sl_log s ! k ! i"
    unfolding sl_copy_inv_def by blast
  have ne: "sl_log s \<noteq> []" and seq: "sl_seq s = v0 + of_nat (sl_epoch s)"
    using w by (auto simp: sl_writer_inv_def)
  have b: "sl_epoch s < 2 ^ 64" by (rule sl_epoch_bound [OF ne assms(2)])
  have "(of_nat (sl_epoch s) :: u64) = of_nat (2 * k)" using v seq k(2) by (metis add_left_cancel)
  then have e: "sl_epoch s = 2 * k"
    using b k(3) by (intro of_nat_u64_inj) auto
  have "\<forall>i < length (sl_cells s). m i = Some (sl_cells s ! i)"
    using m [OF e] sl_current_content(1) [OF w e] d by (metis domD lessThan_iff)
  then have "sl_snapshot m (sl_cells s)" using d by (simp add: sl_snapshot_def)
  moreover have "sl_cells s \<in> set (sl_log s)"
    using sl_current_content(1,2) [OF w e] by (metis nth_mem)
  ultimately show ?thesis by blast
qed

text \<open>A step of the writer leaves an ongoing copy either untouched or doomed to be rejected.\<close>

lemma sl_copy_inv_writer:
  assumes w: "sl_writer_inv v0 n s" and c: "sl_copy_inv v0 v1 m s"
    and l: "sl_log t = sl_log s @ cs" and e: "sl_epoch s \<le> sl_epoch t"
    and stale: "sl_epoch t = sl_epoch s \<longrightarrow> odd (sl_epoch s)"
  shows "sl_copy_inv v0 v1 m t"
proof -
  from c obtain k where k: "k < length (sl_log s)" "v1 = v0 + of_nat (2 * k)" "2 * k \<le> sl_epoch s"
    unfolding sl_copy_inv_def by blast
  then have "sl_epoch t \<noteq> 2 * k" using e stale by auto
  with k l e show ?thesis unfolding sl_copy_inv_def by (intro exI [of _ k]) auto
qed

lemma sl_reader_inv_writer:
  assumes w: "sl_writer_inv v0 n s" and r: "sl_reader_inv v0 s"
    and same: "sl_reader t = sl_reader s" and l: "sl_log t = sl_log s @ cs"
    and e: "sl_epoch s \<le> sl_epoch t" and stale: "sl_epoch t = sl_epoch s \<longrightarrow> odd (sl_epoch s)"
  shows "sl_reader_inv v0 t"
  using r same l sl_copy_inv_writer [OF w _ l e stale]
  by (auto simp: sl_reader_inv_def split: reader_pc.splits)

lemma sl_reader_inv_step:
  assumes "seqlock_step budget s t" and w: "sl_writer_inv v0 n s" and r: "sl_reader_inv v0 s" and nw: "sl_no_wrap t"
    and ev: "even (uint v0)"
  shows "sl_reader_inv v0 t"
  using assms(1)
proof cases
  case (w_begin stores)
  then show ?thesis
    by (intro sl_reader_inv_writer [OF w r, where cs = "[]"]) (auto simp: sl_epoch_def)
next
  case (w_store i x rest)
  then show ?thesis
    by (intro sl_reader_inv_writer [OF w r, where cs = "[]"]) (auto simp: sl_epoch_def)
next
  case w_end
  have "sl_log s \<noteq> []" using w by (simp add: sl_writer_inv_def)
  with w_end show ?thesis
    by (intro sl_reader_inv_writer [OF w r, where cs = "[sl_cells s]"])
      (auto simp: sl_epoch_def neq_Nil_conv)
next
  case (r_load k)
  have "sl_no_wrap s" using sl_no_wrap_back assms(1) nw by blast
  from sl_copy_inv_start [OF w this _ ev] r_load show ?thesis
    by (auto simp: sl_reader_inv_def sl_copy_inv_def sl_epoch_simps)
next
  case (r_copy k v1 m i)
  with r have "sl_copy_inv v0 v1 m s" by (simp add: sl_reader_inv_def)
  from sl_copy_inv_copy [OF w this, of i] r_copy show ?thesis
    by (auto simp: sl_reader_inv_def sl_copy_inv_def sl_epoch_simps)
next
  case (r_accept k v1 m)
  have "sl_no_wrap s" using sl_no_wrap_back assms(1) nw by blast
  moreover have "sl_copy_inv v0 v1 m s" using r r_accept by (simp add: sl_reader_inv_def)
  ultimately have "\<exists>c \<in> set (sl_log s). sl_snapshot m c"
    using r_accept by (intro sl_copy_inv_accept [OF w])
  with r_accept show ?thesis by (simp add: sl_reader_inv_def)
qed (auto simp: sl_reader_inv_def)

lemma seqlock_reach_inv:
  assumes "seqlock_reach budget v0 cells s" and "sl_no_wrap s" and "even (uint v0)"
  shows "sl_writer_inv v0 (length cells) s \<and> sl_reader_inv v0 s"
  using assms
proof (induction rule: seqlock_reach.induct)
  case init
  show ?case using sl_writer_inv_init by (simp add: sl_reader_inv_def seqlock_init_def)
next
  case (step s t)
  have "sl_no_wrap s" using sl_no_wrap_back step by blast
  with step show ?case using sl_writer_inv_step sl_reader_inv_step by blast
qed

lemma seqlock_retries_bounded:
  "seqlock_reach budget v0 cells s \<Longrightarrow>
     (case sl_reader s of RStart n \<Rightarrow> n \<le> budget | RCopying n v m \<Rightarrow> 1 \<le> n \<and> n \<le> budget | _ \<Rightarrow> True)"
proof (induction rule: seqlock_reach.induct)
  case init
  show ?case by (simp add: seqlock_init_def)
next
  case (step s t)
  from step.hyps(2) step.IH show ?case by cases auto
qed

section \<open>Properties\<close>

lemma clamped_cast_le:
  assumes "clamped_cast hi x = Some (w :: 'a::len word)" and "0 \<le> hi" and "hi < 2 ^ LENGTH('a)"
  shows "uint w \<le> hi"
proof -
  from assms(1) obtain z where w: "w = of_int (clamp_int 0 hi z)"
    by (auto simp: clamped_cast_def)
  have "0 \<le> clamp_int 0 hi z" "clamp_int 0 hi z \<le> hi"
    using clamp_int_range [OF assms(2)] by auto
  then show ?thesis
    using w assms(3) by (simp add: unsigned_of_int take_bit_int_eq_self)
qed

text \<open>What one culprit record says of the process it is filled from.\<close>

definition culprit_matches :: "proc_power \<Rightarrow> shared_culprit \<Rightarrow> bool" where
  "culprit_matches p c \<longleftrightarrow>
     length (sc_comm c) = 16 \<and> last (sc_comm c) = NUL \<and> c_str (sc_comm c) = take 15 (c_str (pp_comm p)) \<and>
     sc_pid c = pp_pid p \<and> sc_tier c = pp_safety_tier p \<and> sc_domain_id c = 0 \<and>
     milliwatts (pp_total_watts p) = Some (sc_drain_mw c)"

lemma c_str_strncpy15: "c_str (strncpy15 src) = take 15 (c_str src)"
proof -
  have no_nul: "c \<noteq> NUL" if "c \<in> set (take 15 (c_str src))" for c
    using that set_take_subset [of 15 "c_str src"] by (auto simp: c_str_def dest: set_takeWhileD)
  then have "takeWhile (\<lambda>c. c \<noteq> NUL) (take 15 (c_str src) @ replicate n NUL @ [NUL]) = take 15 (c_str src)" for n
    using takeWhile_append2 [of "take 15 (c_str src)" "\<lambda>c. c \<noteq> NUL"] no_nul by (cases n) simp_all
  then show ?thesis by (simp add: strncpy15_def Let_def c_str_def)
qed

lemma culprit_of_matches: "culprit_of c p = Some c' \<Longrightarrow> culprit_matches p c'"
  using c_str_strncpy15 [of "pp_comm p"]
  by (auto simp: culprit_of_def culprit_matches_def strncpy15_def Let_def split: bind_splits)

lemma update_culprits_nth:
  "update_culprits cs ps = Some cs' \<Longrightarrow> length cs' = length cs \<and>
     (\<forall>i < length cs. if i < length ps then culprit_matches (ps ! i) (cs' ! i) else cs' ! i = cs ! i)"
proof (induction cs ps arbitrary: cs' rule: update_culprits.induct)
  case (1 c cs p ps)
  then obtain c' cs'' where c: "culprit_of c p = Some c'" and cs: "update_culprits cs ps = Some cs''"
    and eq: "cs' = c' # cs''"
    by (auto split: bind_splits)
  show ?case
    using "1.IH" [OF c cs] culprit_of_matches [OF c] eq
    by (auto simp: nth_Cons split: nat.split)
qed auto

lemma update_from_report_fields:
  assumes "update_from_report r s = Some s'"
  shows "\<exists>temp c3 health.
      milliwatts (effective_total_watts (rp_hardware r)) = Some (ss_system_drain_mw s') \<and>
      milliwatts (hw_cpu_package_watts (rp_hardware r)) = Some (ss_cpu_drain_mw s') \<and>
      milliwatts (hw_gpu_watts (rp_hardware r)) = Some (ss_gpu_drain_mw s') \<and>
      ss_battery_percent s' = of_int (clamp_int 0 100 (wrap_i32 (uint (hw_battery_capacity_percent (rp_hardware r))))) \<and>
      ss_battery_state s' = (if hw_is_ac_passthrough (rp_hardware r) then 2 else if hw_is_battery_discharging (rp_hardware r) then 1 else 0) \<and>
      clamped_cast 65535 (mul64 (hw_battery_hours_to_empty (rp_hardware r)) (lit64 60)) = Some (ss_time_to_empty_min s') \<and>
      ss_active_mitigations s' = ucast (rp_feature_summary_count r) \<and>
      ss_wakeups_per_sec s' = ucast (rp_wakeups_per_sec r) \<and>
      ss_fan_rpm s' = of_int (clamp_int 0 20000 (uint (hw_fan_rpm (rp_hardware r)))) \<and>
      clamped_cast 200 temp = Some (ss_cpu_temp_c s') \<and>
      clamped_cast 100 c3 = Some (ss_cstate_c3_percent s') \<and>
      clamped_cast 100 health = Some (ss_battery_health_percent s') \<and>
      ss_power_profile_mode s' = of_nat (profile_code (rp_current_profile r)) \<and>
      update_culprits (ss_culprits s) (take 2 (top_list r)) = Some (ss_culprits s') \<and>
      ss_seq_version s' = ss_seq_version s + 2"
  using assms unfolding update_from_report_def Let_def
  by (auto simp: bind_eq_Some_conv map_option_eq_Some)

lemma uint_clamp_word:
  "0 \<le> hi \<Longrightarrow> hi < 2 ^ LENGTH('a) \<Longrightarrow> uint (of_int (clamp_int 0 hi z) :: 'a::len word) \<le> hi"
  using clamp_int_range [of 0 hi z] by (simp add: unsigned_of_int take_bit_int_eq_self)

text \<open>
  An odd start version turns the check around: the version is even while the writer stores, so a reader that comes in
  the middle accepts half of the old content and half of the new one.
\<close>

lemma odd_start_accepts_torn:
  fixes v0 :: u64
  assumes odd: "odd (uint v0)" and b: "0 < budget"
  shows "\<exists>s. seqlock_reach budget v0 [a, a] s \<and> sl_no_wrap s \<and> sl_log s = [[a, a]] \<and> sl_reader s = RAccepted [0 \<mapsto> b, 1 \<mapsto> a]"
proof -
  let ?r = "seqlock_reach budget v0 [a, a]"
  have "?r \<lparr>sl_seq = v0, sl_cells = [a, a], sl_writer = WIdle, sl_reader = RStart 0, sl_log = [[a, a]]\<rparr>"
    using seqlock_reach.init [of budget v0 "[a, a]"] by (simp add: seqlock_init_def)
  from seqlock_reach.step [OF this w_begin [of _ "[(0, b), (1, b)]"]]
  have "?r \<lparr>sl_seq = v0 + 1, sl_cells = [a, a], sl_writer = WStoring [(0, b), (1, b)],
    sl_reader = RStart 0, sl_log = [[a, a]]\<rparr>" by simp
  from seqlock_reach.step [OF this w_store [of _ 0 b "[(1, b)]"]]
  have "?r \<lparr>sl_seq = v0 + 1, sl_cells = [b, a], sl_writer = WStoring [(1, b)],
    sl_reader = RStart 0, sl_log = [[a, a]]\<rparr>" by simp
  from seqlock_reach.step [OF this r_load [of _ 0]]
  have "?r \<lparr>sl_seq = v0 + 1, sl_cells = [b, a], sl_writer = WStoring [(1, b)],
    sl_reader = RCopying 1 (v0 + 1) Map.empty, sl_log = [[a, a]]\<rparr>" using odd b by (simp add: even_uint_plus1)
  from seqlock_reach.step [OF this r_copy [of _ 1 "v0 + 1" Map.empty 0]]
  have "?r \<lparr>sl_seq = v0 + 1, sl_cells = [b, a], sl_writer = WStoring [(1, b)],
    sl_reader = RCopying 1 (v0 + 1) [0 \<mapsto> b], sl_log = [[a, a]]\<rparr>" by simp
  from seqlock_reach.step [OF this r_copy [of _ 1 "v0 + 1" "[0 \<mapsto> b]" 1]]
  have "?r \<lparr>sl_seq = v0 + 1, sl_cells = [b, a], sl_writer = WStoring [(1, b)],
    sl_reader = RCopying 1 (v0 + 1) [0 \<mapsto> b, 1 \<mapsto> a], sl_log = [[a, a]]\<rparr>" by simp
  from seqlock_reach.step [OF this r_accept [of _ 1 "v0 + 1" "[0 \<mapsto> b, 1 \<mapsto> a]"]]
  have "?r \<lparr>sl_seq = v0 + 1, sl_cells = [b, a], sl_writer = WStoring [(1, b)],
    sl_reader = RAccepted [0 \<mapsto> b, 1 \<mapsto> a], sl_log = [[a, a]]\<rparr>"
    by (simp add: lessThan_Suc numeral_2_eq_2)
  then show ?thesis by (intro exI conjI, assumption) (simp_all add: sl_no_wrap_def)
qed

text \<open>C1. A copy of the shared block that a reader accepts is the content of one publication:
  however the reader's loads interleave with the writer's stores, no torn mixture of two
  publications passes the version check.  The block may start at any even version \<open>v0\<close>, since the
  daemon adopts a mapped block with the version it holds, and fewer than \<open>2 ^ 63\<close> publications happen.
  From an odd version, which a writer killed inside a publication leaves behind, it does not hold:
  see \<open>odd_start_accepts_torn\<close>.\<close>

theorem seqlock_accepts_published:
  assumes "seqlock_reach budget v0 cells s" and "even (uint v0)" and "sl_no_wrap s" and "sl_reader s = RAccepted m"
  shows "\<exists>c \<in> set (sl_log s). m = (\<lambda>i. if i < length c then Some (c ! i) else None)"
proof -
  from seqlock_reach_inv [OF assms(1,3,2)] assms(4) obtain c where
    "c \<in> set (sl_log s)" and "dom m = {..<length c}" and "\<forall>i < length c. m i = Some (c ! i)"
    by (auto simp: sl_reader_inv_def sl_snapshot_def)
  then show ?thesis
    by (intro bexI [of _ c] ext) (auto simp: domIff split: if_splits)
qed

theorem seqlock_accepts_published_witness:
  "\<exists>s :: nat seqlock. sl_reader s = RAccepted [0 \<mapsto> 7, 1 \<mapsto> 8 :: nat] \<and>
     (\<exists>c \<in> set (sl_log s). [0 \<mapsto> 7, 1 \<mapsto> 8] = (\<lambda>i. if i < length c then Some (c ! i) else None))"
proof -
  let ?r = "seqlock_reach 100 8 [3, 3 :: nat]"
  have "?r \<lparr>sl_seq = 8, sl_cells = [3, 3], sl_writer = WIdle, sl_reader = RStart 0, sl_log = [[3, 3]]\<rparr>"
    using seqlock_reach.init [of 100 8 "[3, 3 :: nat]"] by (simp add: seqlock_init_def)
  from seqlock_reach.step [OF this w_begin [of _ "[(0, 7), (1, 8)]"]]
  have "?r \<lparr>sl_seq = 9, sl_cells = [3, 3], sl_writer = WStoring [(0, 7), (1, 8)],
    sl_reader = RStart 0, sl_log = [[3, 3]]\<rparr>" by simp
  from seqlock_reach.step [OF this w_store [of _ 0 7 "[(1, 8)]"]]
  have "?r \<lparr>sl_seq = 9, sl_cells = [7, 3], sl_writer = WStoring [(1, 8)],
    sl_reader = RStart 0, sl_log = [[3, 3]]\<rparr>" by simp
  from seqlock_reach.step [OF this r_busy [of _ 0]]
  have "?r \<lparr>sl_seq = 9, sl_cells = [7, 3], sl_writer = WStoring [(1, 8)],
    sl_reader = RStart 1, sl_log = [[3, 3]]\<rparr>" by simp
  from seqlock_reach.step [OF this w_store [of _ 1 8 "[]"]]
  have "?r \<lparr>sl_seq = 9, sl_cells = [7, 8], sl_writer = WStoring [],
    sl_reader = RStart 1, sl_log = [[3, 3]]\<rparr>" by simp
  from seqlock_reach.step [OF this w_end]
  have "?r \<lparr>sl_seq = 10, sl_cells = [7, 8], sl_writer = WIdle,
    sl_reader = RStart 1, sl_log = [[3, 3], [7, 8]]\<rparr>" by simp
  from seqlock_reach.step [OF this r_load [of _ 1]]
  have "?r \<lparr>sl_seq = 10, sl_cells = [7, 8], sl_writer = WIdle,
    sl_reader = RCopying 2 10 Map.empty, sl_log = [[3, 3], [7, 8]]\<rparr>" by (simp add: numeral_2_eq_2)
  from seqlock_reach.step [OF this r_copy [of _ 2 10 Map.empty 0]]
  have "?r \<lparr>sl_seq = 10, sl_cells = [7, 8], sl_writer = WIdle,
    sl_reader = RCopying 2 10 [0 \<mapsto> 7], sl_log = [[3, 3], [7, 8]]\<rparr>" by simp
  from seqlock_reach.step [OF this r_copy [of _ 2 10 "[0 \<mapsto> 7]" 1]]
  have "?r \<lparr>sl_seq = 10, sl_cells = [7, 8], sl_writer = WIdle,
    sl_reader = RCopying 2 10 [0 \<mapsto> 7, 1 \<mapsto> 8], sl_log = [[3, 3], [7, 8]]\<rparr>" by simp
  from seqlock_reach.step [OF this r_accept [of _ 2 10 "[0 \<mapsto> 7, 1 \<mapsto> 8]"]]
  have r: "?r \<lparr>sl_seq = 10, sl_cells = [7, 8], sl_writer = WIdle,
    sl_reader = RAccepted [0 \<mapsto> 7, 1 \<mapsto> 8], sl_log = [[3, 3], [7, 8]]\<rparr>" (is "seqlock_reach _ _ _ ?s")
    by (simp add: lessThan_Suc numeral_2_eq_2)
  have n: "sl_no_wrap ?s" and a: "sl_reader ?s = RAccepted [0 \<mapsto> 7, 1 \<mapsto> 8]"
    by (simp_all add: sl_no_wrap_def)
  have "even (uint (8 :: u64))" by simp
  from seqlock_accepts_published [OF r this n a] a show ?thesis by blast
qed

text \<open>C2. The history ring: a reader that asks for \<open>m\<close> entries after any number of appends
  gets, oldest first, the first \<open>m\<close> of the last 60480 points appended.\<close>

theorem ring_reads_last_points:
  assumes "0 < m"
  shows "ring_read_snapshot m (fold ring_append pts (ring_new RING_CAPACITY z)) =
           Some (take m (drop (length pts - RING_CAPACITY) pts))"
proof -
  have cap: "0 < RING_CAPACITY" by (simp add: RING_CAPACITY_def)
  have new: "ring_abs (ring_new RING_CAPACITY z) = []" "rg_cap (ring_new RING_CAPACITY z) = RING_CAPACITY"
    using cap by (simp_all add: ring_abs_def ring_new_def)
  show ?thesis
    using ring_fold_ok [OF ring_ok_new [OF cap], of pts z] ring_push_abs_fold [of "[]" RING_CAPACITY pts] cap assms
    by (simp add: ring_read_ok new)
qed

theorem ring_reads_last_points_witness:
  "ring_read_snapshot 2 (fold ring_append [5, 6, 7] (ring_new RING_CAPACITY 0)) = Some [5, 6 :: nat]"
  using ring_reads_last_points [of 2 "[5, 6, 7]" 0] by (simp add: RING_CAPACITY_def)

text \<open>C3. Whenever the daemon publishes a report without an undefined float cast, the block it
  publishes is in range: the three percentages are at most 100, the temperature is at most 200 and
  the fan at most 20000; the battery state is 2 exactly on pass-through, 1 exactly when discharging
  otherwise, and else 0; the profile mode is the number of the report's profile, 0 to 3 (the field's
  comment documents 0 to 2, with 0 for Balanced); each culprit record whose process the report has
  carries that process's number, tier and draw, a zero domain and its name cut to fifteen bytes and
  terminated within sixteen; a record without a process is left as it was; the version advances by
  two.\<close>

theorem published_block_in_range:
  assumes "update_from_report r s = Some s'" and "length (ss_culprits s) = 2"
  shows "ss_battery_percent s' \<le> 100 \<and> ss_cstate_c3_percent s' \<le> 100 \<and>
    ss_battery_health_percent s' \<le> 100 \<and> ss_cpu_temp_c s' \<le> 200 \<and> ss_fan_rpm s' \<le> 20000 \<and>
    ss_battery_state s' =
      (if hw_is_ac_passthrough (rp_hardware r) then 2 else if hw_is_battery_discharging (rp_hardware r) then 1 else 0) \<and>
    unat (ss_power_profile_mode s') = profile_code (rp_current_profile r) \<and> ss_power_profile_mode s' \<le> 3 \<and>
    length (ss_culprits s') = 2 \<and>
    (\<forall>i < 2. if i < length (top_list r) then culprit_matches (top_list r ! i) (ss_culprits s' ! i)
            else ss_culprits s' ! i = ss_culprits s ! i) \<and>
    ss_seq_version s' = ss_seq_version s + 2"
proof -
  from update_from_report_fields [OF assms(1)] obtain temp c3 health where
    f: "ss_battery_percent s' = of_int (clamp_int 0 100 (wrap_i32 (uint (hw_battery_capacity_percent (rp_hardware r)))))"
      "ss_fan_rpm s' = of_int (clamp_int 0 20000 (uint (hw_fan_rpm (rp_hardware r))))"
      "clamped_cast 200 temp = Some (ss_cpu_temp_c s')" "clamped_cast 100 c3 = Some (ss_cstate_c3_percent s')"
      "clamped_cast 100 health = Some (ss_battery_health_percent s')"
      "update_culprits (ss_culprits s) (take 2 (top_list r)) = Some (ss_culprits s')"
      "ss_battery_state s' =
        (if hw_is_ac_passthrough (rp_hardware r) then 2 else if hw_is_battery_discharging (rp_hardware r) then 1 else 0)"
      "ss_power_profile_mode s' = of_nat (profile_code (rp_current_profile r))"
      "ss_seq_version s' = ss_seq_version s + 2"
    by blast
  have range: "ss_battery_percent s' \<le> 100" "ss_cstate_c3_percent s' \<le> 100" "ss_battery_health_percent s' \<le> 100"
    "ss_cpu_temp_c s' \<le> 200" "ss_fan_rpm s' \<le> 20000"
    using clamped_cast_le [OF f(3)] clamped_cast_le [OF f(4)] clamped_cast_le [OF f(5)]
      uint_clamp_word [of 100, where ?'a = 8] uint_clamp_word [of 20000, where ?'a = 16] f(1,2)
    by (simp_all add: word_le_def)
  have mode: "unat (ss_power_profile_mode s') = profile_code (rp_current_profile r)" "ss_power_profile_mode s' \<le> 3"
    unfolding f(8) by (cases "rp_current_profile r"; simp)+
  have culprits: "\<forall>i < 2. if i < length (top_list r) then culprit_matches (top_list r ! i) (ss_culprits s' ! i)
            else ss_culprits s' ! i = ss_culprits s ! i"
    using update_culprits_nth [OF f(6)] assms(2) by (auto split: if_splits)
  show ?thesis
    using range f(7) mode update_culprits_nth [OF f(6), THEN conjunct1] assms(2) culprits f(9)
    by (intro conjI) simp_all
qed

definition idle_report :: report where
  "idle_report =
     \<lparr>rp_hardware = \<lparr>hw_total_system_watts = Fin 12, hw_cpu_package_watts = Fin 5, hw_gpu_watts = Fin 1,
        hw_display_watts = Fin 2, hw_fan_watts = Fin 0, hw_storage_watts = Fin 1, hw_uncore_watts = Fin 1,
        hw_is_battery_discharging = True, hw_is_ac_passthrough = False,
        hw_battery_capacity_percent = 180, hw_battery_health_percent = Fin 91,
        hw_battery_hours_to_empty = Fin 3, hw_cpu_temp_c = Fin 300, hw_cpu_freq_avg_mhz = Fin 1400,
        hw_cpu_freq_max_mhz = Fin 1700, hw_fan_rpm = 30000, hw_c0_active_percent = Fin 10, hw_c3_deep_percent = Fin 80,
        hw_display_brightness_percent = Fin 60, hw_aspm_policy = ''default''\<rparr>,
      rp_top = \<lparr>fv_items = [\<lparr>pp_pid = 42, pp_comm = ''firefox'', pp_cpu_watts = Fin 1,
        pp_wakeup_tax_watts = Fin 0, pp_total_watts = Fin 2, pp_wdi_score = Fin 9, pp_wakeups_per_sec = 12,
        pp_is_runaway = False, pp_cpu_core = 3, pp_num_threads = 8, pp_cross_ccx = False, pp_timerslack_ns = 50000, pp_rss_kib = 204800, pp_pss_kib = 102400,
        pp_majflt_per_sec = 3, pp_safety_tier = 3\<rparr>], fv_overflow = 0, fv_canary = VEC_CANARY\<rparr>,
      rp_wakeups_per_sec = 500, rp_current_profile = Balanced, rp_feature_summary_count = 2\<rparr>"

definition blank_culprit :: shared_culprit where
  "blank_culprit = \<lparr>sc_comm = replicate 16 NUL, sc_pid = 0, sc_drain_mw = 0, sc_domain_id = 0,
     sc_tier = 0, sc_rss_mb = 0, sc_pss_mb = 0, sc_majflt_s = 0\<rparr>"

definition blank_block :: shared_state where
  "blank_block =
     \<lparr>ss_seq_version = 0, ss_system_drain_mw = 0, ss_battery_percent = 0, ss_battery_state = 0,
      ss_time_to_empty_min = 0, ss_active_mitigations = 0, ss_cpu_drain_mw = 0, ss_gpu_drain_mw = 0,
      ss_wakeups_per_sec = 0, ss_cpu_temp_c = 0, ss_fan_rpm = 0, ss_cstate_c3_percent = 0,
      ss_battery_health_percent = 0, ss_power_profile_mode = 0, ss_cpu_freq_mhz = 0,
      ss_culprits = [blank_culprit, blank_culprit]\<rparr>"

lemma idle_report_publishes: "update_from_report idle_report blank_block \<noteq> None"
  by (simp add: update_from_report_def idle_report_def blank_block_def Let_def milliwatts_def
    effective_total_watts_def domain_sum_def clamped_cast_def clamp_int_def culprit_of_def
    kib_to_mb_def clamp_u16_def fp_of_u64_def fp_clamp_def)

theorem published_block_in_range_witness:
  "\<exists>s'. update_from_report idle_report blank_block = Some s' \<and>
     ss_battery_percent s' \<le> 100 \<and> ss_cpu_temp_c s' \<le> 200 \<and> ss_fan_rpm s' \<le> 20000 \<and>
     unat (ss_power_profile_mode s') = 1 \<and> culprit_matches (hd (top_list idle_report)) (ss_culprits s' ! 0)"
proof -
  obtain s' where s': "update_from_report idle_report blank_block = Some s'"
    using idle_report_publishes by auto
  have two: "length (ss_culprits blank_block) = 2" by (simp add: blank_block_def)
  have one: "0 < length (top_list idle_report)" "hd (top_list idle_report) = top_list idle_report ! 0"
    and mode: "rp_current_profile idle_report = Balanced"
    by (simp_all add: idle_report_def)
  note r = published_block_in_range [OF s' two, unfolded mode]
  from r have "culprit_matches (hd (top_list idle_report)) (ss_culprits s' ! 0)" using one by (metis zero_less_numeral)
  with r s' show ?thesis by (intro exI [of _ s']) simp
qed

end
