(* ===== verification/Classifier.thy ===== *)
theory Classifier
  imports Types
begin

text \<open>
  The process knowledge base (\<^verbatim>\<open>src/policy/process_classifier.cpp\<close>): the safety tier of a
  task by its name, and what the tier permits.  The chains of comparisons are kept as lists
  of the compared names, in the order of the code.
\<close>

datatype mitigation_action =
    ActNone | SchedIdle | RelaxTimerSlack | MemoryReclaim | CgroupFreeze | Terminate | AffinityCap

record classification =
  cl_tier :: safety_tier
  cl_default_action :: mitigation_action
  cl_category :: string
  cl_can_throttle_scheduler :: bool
  cl_can_reclaim_memory :: bool
  cl_can_freeze :: bool

definition critical_names :: "string list" where
  "critical_names = [
    ''systemd'', ''init'', ''kthreadd'', ''pulseaudio'', ''jackdbus'', ''alsactl'',
    ''rtkit-daemon'', ''sndiod'', ''dbus-broker'', ''dbus-daemon'', ''seatd'', ''polkitd'',
    ''udevd'', ''systemd-journal'', ''systemd-resolve'', ''systemd-logind'', ''NetworkManager'',
    ''wpa_supplicant'', ''iwd'', ''bluetoothd'', ''upowerd'', ''acpid'', ''auditd'', ''fcitx5'',
    ''fcitx'', ''ibus-daemon'', ''ibus'', ''kded6'', ''kded5'', ''ksmserver'']"

definition critical_prefixes :: "string list" where
  "critical_prefixes = [
    ''kworker'', ''pipewire'', ''wireplumber'', ''jackd'', ''wattcurb'']"

definition desktop_core_names :: "string list" where
  "desktop_core_names = [
    ''kwin_wayland'', ''kwin_x11'', ''kwin'', ''mutter'', ''sway'', ''hyprland'', ''Xorg'',
    ''Xwayland'', ''weston'', ''foot'', ''kitty'', ''alacritty'', ''konsole'', ''wezterm'',
    ''gnome-terminal'', ''ptyxis'', ''xterm'', ''rxvt'', ''kmscon'', ''bash'', ''zsh'', ''fish'',
    ''tmux'', ''screen'', ''ssh'', ''opencode'', ''agy'', ''code'', ''cursor'', ''zed'', ''nvim'',
    ''emacs'']"

definition shell_names :: "string list" where
  "shell_names = [
    ''plasmashell'', ''gnome-shell'', ''xfce4-panel'', ''krunner'', ''polybar'', ''waybar'']"

definition worker_names :: "string list" where
  "worker_names = [
    ''updatedb'', ''locate'', ''packagekitd'', ''nextcloud'', ''dropbox'', ''rclone'',
    ''syncthing'', ''ksystemstats'', ''mandb'']"

definition worker_prefixes :: "string list" where
  "worker_prefixes = [
    ''baloo_file'', ''tracker-miner'', ''tracker-extract'', ''apt-daily'']"

definition interactive_names :: "string list" where
  "interactive_names = [
    ''chrome'', ''firefox'', ''zen-browser'', ''brave'', ''edge'', ''chromium'', ''claude'',
    ''clion'', ''pycharm'', ''slack'', ''discord'', ''telegram-deskto'', ''teams'', ''spotify'',
    ''steam'', ''obs'', ''ChatGPT'', ''codex'', ''code'', ''electron'', ''MainThread'', ''vscode'',
    ''code-insiders'', ''anki'', ''signal-desktop'', ''element'', ''mattermost'', ''zulip'',
    ''notion'', ''obsidian'', ''kdeconnectd'']"

definition named :: "string list \<Rightarrow> string list \<Rightarrow> string \<Rightarrow> bool" where
  "named names prefixes comm \<longleftrightarrow> comm \<in> set names \<or> list_ex (starts_with comm) prefixes"

definition classify :: "string \<Rightarrow> classification" where
  "classify comm =
     (if named critical_names critical_prefixes comm
      then \<lparr>cl_tier = CriticalImmune, cl_default_action = ActNone, cl_category = ''Critical System'',
            cl_can_throttle_scheduler = False, cl_can_reclaim_memory = False, cl_can_freeze = False\<rparr>
      else if named desktop_core_names [] comm
      then \<lparr>cl_tier = DesktopCore, cl_default_action = ActNone, cl_category = ''Desktop Core / Terminal'',
            cl_can_throttle_scheduler = False, cl_can_reclaim_memory = False, cl_can_freeze = False\<rparr>
      else if named shell_names [] comm
      then \<lparr>cl_tier = DesktopShell, cl_default_action = MemoryReclaim, cl_category = ''Desktop Shell'',
            cl_can_throttle_scheduler = False, cl_can_reclaim_memory = True, cl_can_freeze = False\<rparr>
      else if named worker_names worker_prefixes comm
      then \<lparr>cl_tier = BackgroundWorker, cl_default_action = SchedIdle,
            cl_category = ''Background Indexer/Sync'',
            cl_can_throttle_scheduler = True, cl_can_reclaim_memory = True, cl_can_freeze = False\<rparr>
      else if named interactive_names [] comm
      then \<lparr>cl_tier = UserInteractive, cl_default_action = RelaxTimerSlack,
            cl_category = ''Interactive App'',
            cl_can_throttle_scheduler = True, cl_can_reclaim_memory = True, cl_can_freeze = False\<rparr>
      else \<lparr>cl_tier = RunawayCandidate, cl_default_action = SchedIdle,
            cl_category = ''General / Worker'',
            cl_can_throttle_scheduler = True, cl_can_reclaim_memory = True, cl_can_freeze = False\<rparr>)"

fun tier_name :: "safety_tier \<Rightarrow> string" where
  "tier_name CriticalImmune = ''Tier 0 (Immune)''"
| "tier_name DesktopCore = ''Tier 1 (Compositor)''"
| "tier_name DesktopShell = ''Tier 2 (Shell)''"
| "tier_name UserInteractive = ''Tier 3 (User App)''"
| "tier_name BackgroundWorker = ''Tier 4 (Bg Worker)''"
| "tier_name RunawayCandidate = ''Tier 5 (Runaway)''"

fun action_name :: "mitigation_action \<Rightarrow> string" where
  "action_name ActNone = ''None''"
| "action_name SchedIdle = ''SCHED_IDLE''"
| "action_name RelaxTimerSlack = ''Relax Timer Slack''"
| "action_name MemoryReclaim = ''Reclaim Memory''"
| "action_name CgroupFreeze = ''Freeze Cgroup (Disabled)''"
| "action_name Terminate = ''Terminate (Prohibited)''"
| "action_name AffinityCap = ''AffinityCap (Headroom Guard)''"

abbreviation tier_of :: "string \<Rightarrow> safety_tier" where
  "tier_of comm \<equiv> cl_tier (classify comm)"

section \<open>What a tier permits\<close>

lemma classify_permissions:
  "cl_can_throttle_scheduler (classify c) \<longleftrightarrow> UserInteractive \<le> tier_of c"
  "cl_can_reclaim_memory (classify c) \<longleftrightarrow> DesktopShell \<le> tier_of c"
  "\<not> cl_can_freeze (classify c)"
  "cl_default_action (classify c) \<in> {ActNone, SchedIdle, RelaxTimerSlack, MemoryReclaim}"
  by (auto simp: classify_def less_eq_safety_tier_def)

lemma tier_critical_iff:
  "tier_of c = CriticalImmune \<longleftrightarrow> named critical_names critical_prefixes c"
  by (simp add: classify_def)

lemma starts_with_take_15:
  "length p \<le> 15 \<Longrightarrow> starts_with (take 15 s) p \<longleftrightarrow> starts_with s p"
  by (simp add: starts_with_def min_def)

text \<open>Every name and prefix of the tables fits the fifteen bytes of a kernel task name.\<close>

lemma table_names_fit:
  "list_all (\<lambda>n. length n \<le> 15) (critical_names @ critical_prefixes @ desktop_core_names @
     shell_names @ worker_names @ worker_prefixes @ interactive_names)"
  by (simp add: critical_names_def critical_prefixes_def desktop_core_names_def shell_names_def
      worker_names_def worker_prefixes_def interactive_names_def)

text \<open>The knowledge base is coherent for every name: scheduling may be throttled exactly from
  tier 3 on and memory reclaimed exactly from tier 2 on, nothing may be frozen, and the default
  action is never freezing, termination or the affinity cap.\<close>

theorem classification_coherent:
  "(cl_can_throttle_scheduler (classify c) \<longleftrightarrow> UserInteractive \<le> tier_of c) \<and>
   (cl_can_reclaim_memory (classify c) \<longleftrightarrow> DesktopShell \<le> tier_of c) \<and>
   \<not> cl_can_freeze (classify c) \<and>
   cl_default_action (classify c) \<notin> {CgroupFreeze, Terminate, AffinityCap}"
  using classify_permissions [of c] by auto

end
