(* ===== verification/C_Strings.thy ===== *)
theory C_Strings
  imports Types
begin

text \<open>
  The functions of the C library that the daemon's parsers call, on the bytes in front of the
  terminator: searches return the tail that starts at the match, number readers return the
  value and the tail after the last byte they consumed.  \<open>long\<close> is 64 bits wide, as on the
  platforms the daemon is built for.
\<close>

section \<open>Searching\<close>

fun strstr :: "string \<Rightarrow> string \<Rightarrow> string option" where
  "strstr [] p = (if p = [] then Some [] else None)"
| "strstr (c # s) p = (if starts_with (c # s) p then Some (c # s) else strstr s p)"

fun strchr :: "char \<Rightarrow> string \<Rightarrow> string option" where
  "strchr x [] = None"
| "strchr x (c # s) = (if c = x then Some (c # s) else strchr x s)"

lemma strstr_Some_iff_contains: "strstr s p \<noteq> None \<longleftrightarrow> str_contains s p"
  by (induction s) auto

lemma strstr_suffix: "strstr s p = Some t \<Longrightarrow> (\<exists>u. s = u @ t) \<and> starts_with t p"
proof (induction s)
  case Nil
  then show ?case by (auto simp: starts_with_def split: if_splits)
next
  case (Cons c s)
  show ?case
  proof (cases "starts_with (c # s) p")
    case True
    then show ?thesis using Cons.prems by (auto intro: exI [of _ "[]"])
  next
    case False
    with Cons show ?thesis by (auto intro: exI [of _ "c # _"] append_Cons [symmetric])
  qed
qed

text \<open>The line up to its newline, and what follows the newline.\<close>

definition take_line :: "string \<Rightarrow> string" where
  "take_line s = takeWhile (\<lambda>c. c \<noteq> NL) s"

definition drop_line :: "string \<Rightarrow> string" where
  "drop_line s = drop 1 (dropWhile (\<lambda>c. c \<noteq> NL) s)"

lemma length_drop_line [termination_simp]: "s \<noteq> [] \<Longrightarrow> length (drop_line s) < length s"
  by (cases s) (auto simp: drop_line_def intro: le_less_trans [OF length_dropWhile_le] diff_less_Suc
      le_imp_less_Suc order_trans [OF diff_le_self length_dropWhile_le])

fun lines_of :: "string \<Rightarrow> string list" where
  "lines_of s = (if s = [] then [] else take_line s # lines_of (drop_line s))"

declare lines_of.simps [simp del]

text \<open>Blanks inside a line.\<close>

definition is_blank :: "char \<Rightarrow> bool" where
  "is_blank c \<longleftrightarrow> c = CHR '' '' \<or> c = TAB"

definition skip_blanks :: "string \<Rightarrow> string" where
  "skip_blanks s = dropWhile is_blank s"

lemma length_skip_blanks: "length (skip_blanks s) \<le> length s"
  by (simp add: skip_blanks_def length_dropWhile_le)

section \<open>Integers\<close>

definition is_space :: "char \<Rightarrow> bool" where
  "is_space c \<longleftrightarrow> byte_of c = 32 \<or> (9 \<le> byte_of c \<and> byte_of c \<le> 13)"

definition skip_space :: "string \<Rightarrow> string" where
  "skip_space s = dropWhile is_space s"

definition split_sign :: "string \<Rightarrow> bool \<times> string" where
  "split_sign s =
     (case s of c # t \<Rightarrow> if c = CHR ''-'' then (True, t) else if c = CHR ''+'' then (False, t) else (False, s)
      | [] \<Rightarrow> (False, []))"

text \<open>
  \<open>strtol(s, &end, 10)\<close>: with no digits nothing is consumed; out of range it saturates.
\<close>

definition strtol :: "string \<Rightarrow> int \<times> string" where
  "strtol s =
     (let (neg, t) = split_sign (skip_space s); (d, rest) = span_digits t;
          v = digits_val (0 :: int) d; sv = (if neg then - v else v)
      in if d = [] then (0, s) else (max (- (2 ^ 63)) (min (2 ^ 63 - 1) sv), rest))"

definition strtoul :: "string \<Rightarrow> u64 \<times> string" where
  "strtoul s =
     (let (neg, t) = split_sign (skip_space s); (d, rest) = span_digits t;
          v = digits_val (0 :: int) d
      in if d = [] then (0, s)
         else (if 2 ^ 64 \<le> v then - 1 else if neg then - of_int v else of_int v, rest))"

text \<open>\<open>strtol(name, &end, 10)\<close> on a directory entry, accepted when it is all digits and positive.\<close>

definition entry_number :: "string \<Rightarrow> int option" where
  "entry_number name = (let (v, rest) = strtol name in if 0 < v \<and> rest = [] then Some v else None)"

lemma digits_val_of_nat: "digits_val (0 :: int) d = int (digits_val 0 d)"
proof -
  have "digits_val (int v) d = int (digits_val v d)" for v
    by (induction d arbitrary: v) (simp_all, metis of_nat_add of_nat_mult of_nat_numeral)
  from this [of 0] show ?thesis by simp
qed

lemma is_digit_not_space_sign: "is_digit c \<Longrightarrow> \<not> is_space c \<and> c \<noteq> CHR ''-'' \<and> c \<noteq> CHR ''+''"
  by (auto simp: is_digit_def is_space_def)

lemma list_all_show_nat: "list_all is_digit (show_nat n)"
  using show_nat_digits by (auto simp: list_all_iff)

lemma digits_front:
  assumes "list_all is_digit d" and "d \<noteq> []" and "s = [] \<or> \<not> is_digit (hd s)"
  shows "split_sign (skip_space (d @ s)) = (False, d @ s)" and "span_digits (d @ s) = (d, s)"
proof -
  from assms obtain c d' where d: "d = c # d'" "is_digit c" by (cases d) auto
  then show "split_sign (skip_space (d @ s)) = (False, d @ s)"
    using is_digit_not_space_sign [OF d(2)] by (simp add: skip_space_def split_sign_def)
  show "span_digits (d @ s) = (d, s)" using assms by (intro span_digits_append)
qed

lemma strtol_show_nat:
  "n < 2 ^ 63 \<Longrightarrow> s = [] \<or> \<not> is_digit (hd s) \<Longrightarrow> strtol (show_nat n @ s) = (int n, s)"
  using digits_front [OF list_all_show_nat show_nat_ne, of s n]
  by (simp add: strtol_def digits_val_show_nat)

lemma entry_number_show_nat: "0 < n \<Longrightarrow> n < 2 ^ 63 \<Longrightarrow> entry_number (show_nat n) = Some (int n)"
  using strtol_show_nat [of n "[]"] by (simp add: entry_number_def)

section \<open>Floating point\<close>

definition hex_val :: "char \<Rightarrow> nat option" where
  "hex_val c =
     (let b = byte_of c
      in if is_digit c then Some (b - 48) else if 97 \<le> b \<and> b \<le> 102 then Some (b - 87)
         else if 65 \<le> b \<and> b \<le> 70 then Some (b - 55) else None)"

definition dec_val :: "char \<Rightarrow> nat option" where
  "dec_val c = (if is_digit c then Some (digit_val c) else None)"

fun radix_val :: "nat \<Rightarrow> (char \<Rightarrow> nat option) \<Rightarrow> nat \<Rightarrow> string \<Rightarrow> nat" where
  "radix_val b f v [] = v"
| "radix_val b f v (c # s) = radix_val b f (v * b + (case f c of Some x \<Rightarrow> x | None \<Rightarrow> 0)) s"

text \<open>
  A mantissa: digits, an optional point, digits; its value as a rational, whether it has a
  digit at all, and the tail.
\<close>

definition read_mantissa :: "nat \<Rightarrow> (char \<Rightarrow> nat option) \<Rightarrow> string \<Rightarrow> rat \<times> bool \<times> string" where
  "read_mantissa b f s =
     (let isd = (\<lambda>c. f c \<noteq> None); ip = takeWhile isd s; r = dropWhile isd s
      in case r of
           c # r' \<Rightarrow>
             (if c = CHR ''.'' \<and> (ip \<noteq> [] \<or> takeWhile isd r' \<noteq> [])
              then let fp = takeWhile isd r'
                   in (of_nat (radix_val b f 0 (ip @ fp)) / of_nat (b ^ length fp), True, dropWhile isd r')
              else (of_nat (radix_val b f 0 ip), ip \<noteq> [], r))
         | [] \<Rightarrow> (of_nat (radix_val b f 0 ip), ip \<noteq> [], []))"

text \<open>An exponent part, taken only when a digit follows its marker and sign.\<close>

definition read_exponent :: "char list \<Rightarrow> string \<Rightarrow> int \<times> string" where
  "read_exponent marks s =
     (case s of
        c # t \<Rightarrow>
          (if c \<in> set marks
           then let (neg, u) = split_sign t; (d, rest) = span_digits u
                in if d = [] then (0, s)
                   else ((if neg then - digits_val 0 d else digits_val 0 d), rest)
           else (0, s))
      | [] \<Rightarrow> (0, []))"

definition to_lower :: "char \<Rightarrow> char" where
  "to_lower c = (if 65 \<le> byte_of c \<and> byte_of c \<le> 90 then char_of (byte_of c + 32 :: nat) else c)"

definition starts_with_nocase :: "string \<Rightarrow> string \<Rightarrow> bool" where
  "starts_with_nocase s p \<longleftrightarrow> map to_lower (take (length p) s) = p"

text \<open>
  \<open>strtod(s, &end)\<close>: correctly rounded, with the decimal, hexadecimal, infinity and NaN forms
  of the C standard (a NaN's optional payload in parentheses is left unconsumed, which no
  caller looks at).
\<close>

definition strtofp :: "fmt \<Rightarrow> string \<Rightarrow> fp \<times> string" where
  "strtofp f s =
     (let (neg, t) = split_sign (skip_space s); sg = (\<lambda>x. if neg then fp_neg x else x);
          (hm, hok, hr) = read_mantissa 16 hex_val (drop 2 t);
          (dm, dok, dr) = read_mantissa 10 dec_val t
      in if starts_with_nocase t ''0x'' \<and> hok
         then let (e, rest) = read_exponent ''pP'' hr in (sg (fp_round f (hm * 2 powi e)), rest)
         else if dok
         then let (e, rest) = read_exponent ''eE'' dr in (sg (fp_round f (dm * 10 powi e)), rest)
         else if starts_with_nocase t ''infinity'' then (sg PInf, drop 8 t)
         else if starts_with_nocase t ''inf'' then (sg PInf, drop 3 t)
         else if starts_with_nocase t ''nan'' then (NaN, drop 3 t)
         else (Fin 0, s))"

abbreviation strtod :: "string \<Rightarrow> float64 \<times> string" where
  "strtod \<equiv> strtofp Binary64"

text \<open>
  The conversions of \<open>sscanf\<close> the daemon uses: a literal, \<open>%d\<close> and \<open>%f\<close>; each fails when
  nothing matches.
\<close>

definition scan_lit :: "string \<Rightarrow> string \<Rightarrow> string option" where
  "scan_lit p s = (if starts_with s p then Some (drop (length p) s) else None)"

definition scan_int :: "string \<Rightarrow> (i32 \<times> string) option" where
  "scan_int s = (let (v, rest) = strtol s in if length rest < length s then Some (wrap_i32 v, rest) else None)"

definition scan_float :: "string \<Rightarrow> (float32 \<times> string) option" where
  "scan_float s =
     (let (v, rest) = strtofp Binary32 s in if length rest < length s then Some (v, rest) else None)"

lemma radix_val_digits:
  "list_all is_digit d \<Longrightarrow> radix_val 10 dec_val v d = digits_val v d"
  by (induction d arbitrary: v) (auto simp: dec_val_def)

end
