(* ===== verification/Actuators.thy ===== *)
theory Actuators
  imports Classifier C_Strings
begin

text \<open>
  The process actuators of the mitigation engine (\<^verbatim>\<open>src/policy/mitigation_engine.cpp\<close>): the
  sandboxed system call wrappers, the shields that keep a task from being demoted, and the
  operations that change a task's scheduling, timer slack, cgroup memory, freezer and CPU quota.
  The file's static variables are the record \<open>globals\<close>, passed to every operation.
\<close>

section \<open>Process-wide state\<close>

record globals =
  gl_sandbox :: bool
  gl_audio_active :: bool
  gl_audio_owners :: "pid list"
  gl_effective_profile :: power_profile
  gl_audio_pm_qos :: bool

abbreviation "MAX_AUDIO_OWNERS \<equiv> (8 :: nat)"
abbreviation "AUDIO_DMA_LATENCY_US \<equiv> (100 :: int)"

definition is_audio_owner :: "globals \<Rightarrow> pid \<Rightarrow> bool" where
  "is_audio_owner g p \<longleftrightarrow> \<not> p \<le> 1 \<and> p \<in> set (gl_audio_owners g)"

section \<open>Sandboxed wrappers\<close>

definition hw_open_write :: "globals \<Rightarrow> kernel \<Rightarrow> string \<Rightarrow> bool io" where
  "hw_open_write g k path = (if gl_sandbox g then return_io False else sys_open_write k path)"

definition hw_setpriority :: "globals \<Rightarrow> kernel \<Rightarrow> pid \<Rightarrow> int \<Rightarrow> unit io" where
  "hw_setpriority g k p prio = (if gl_sandbox g then return_io () else sys_setpriority k p prio)"

definition hw_sched_setaffinity :: "globals \<Rightarrow> kernel \<Rightarrow> pid \<Rightarrow> nat set \<Rightarrow> bool io" where
  "hw_sched_setaffinity g k p cs = (if gl_sandbox g then return_io False else sys_setaffinity k p cs)"

definition hw_sched_setscheduler :: "globals \<Rightarrow> kernel \<Rightarrow> pid \<Rightarrow> sched_policy \<Rightarrow> bool io" where
  "hw_sched_setscheduler g k p pol =
     (if gl_sandbox g then return_io False else sys_setscheduler k p pol)"

definition hw_ioprio_set :: "globals \<Rightarrow> kernel \<Rightarrow> pid \<Rightarrow> int \<Rightarrow> int \<Rightarrow> bool io" where
  "hw_ioprio_set g k p cls d = (if gl_sandbox g then return_io False else sys_ioprio_set k p cls d)"

definition hw_system :: "globals \<Rightarrow> kernel \<Rightarrow> string \<Rightarrow> bool io" where
  "hw_system g k cmd = (if gl_sandbox g then return_io True else sys_system k cmd)"

text \<open>\<open>::write\<close> on a descriptor of \<open>hw_open_write\<close>; the descriptor is closed after it.\<close>

definition write_file :: "globals \<Rightarrow> kernel \<Rightarrow> string \<Rightarrow> string \<Rightarrow> bool io" where
  "write_file g k path data = do {
     ok \<leftarrow> hw_open_write g k path;
     if \<not> ok then return_io False
     else do { n \<leftarrow> sys_write k path data; return_io (0 < n) }
   }"

section \<open>Reading procfs\<close>

definition proc_path :: "pid \<Rightarrow> string \<Rightarrow> string" where
  "proc_path p leaf = ''/proc/'' @ show_int p @ ''/'' @ leaf"

text \<open>
  \<open>core::fs::read_small_file\<close>: one read of at most \<open>max_len - 1\<close> bytes.
\<close>

definition read_small_file :: "kernel \<Rightarrow> string \<Rightarrow> nat \<Rightarrow> string option io" where
  "read_small_file k path max_len = sys_read_file k path (max_len - 1)"

definition rstrip :: "string \<Rightarrow> string" where
  "rstrip s = rev (dropWhile (\<lambda>c. c = NL \<or> c = CR \<or> c = CHR '' '') (rev s))"

text \<open>The task name the shields look at: nothing when it cannot be read or is empty.\<close>

definition comm_of_pid :: "kernel \<Rightarrow> pid \<Rightarrow> string option io" where
  "comm_of_pid k p = do {
     r \<leftarrow> read_small_file k (proc_path p ''comm'') 64;
     return_io (case r of None \<Rightarrow> None | Some s \<Rightarrow> if s = [] then None else Some (rstrip s))
   }"

definition immune_names :: "string list" where
  "immune_names = [''pulseaudio'', ''jackdbus'', ''alsactl'', ''rtkit-daemon'', ''sndiod'',
     ''systemd'', ''init'', ''kthreadd'', ''dbus-broker'', ''dbus-daemon'', ''seatd'', ''polkitd'',
     ''udevd'', ''kwin_wayland'', ''kwin_x11'', ''kwin'', ''mutter'', ''sway'', ''hyprland'',
     ''Xorg'', ''Xwayland'']"

definition immune_prefixes :: "string list" where
  "immune_prefixes = [''pipewire'', ''wireplumber'', ''jackd'', ''kworker'', ''wattcurb'']"

definition is_immune_process :: "globals \<Rightarrow> kernel \<Rightarrow> pid \<Rightarrow> bool io" where
  "is_immune_process g k p =
     (if p \<le> 1 then return_io True
      else do {
        c \<leftarrow> comm_of_pid k p;
        return_io (case c of None \<Rightarrow> False
                   | Some comm \<Rightarrow> is_audio_owner g p \<or> named immune_names immune_prefixes comm)
      })"

fun environ_has_display :: "string \<Rightarrow> bool" where
  "environ_has_display s =
     (if s = [] then False
      else let entry = takeWhile (\<lambda>c. c \<noteq> NUL) s
           in if starts_with entry ''WAYLAND_DISPLAY='' \<or> starts_with entry ''DISPLAY='' then True
              else if entry = [] then False
              else environ_has_display (drop (length entry + 1) s))"

declare environ_has_display.simps [simp del]

definition is_graphical_session_process :: "kernel \<Rightarrow> pid \<Rightarrow> bool io" where
  "is_graphical_session_process k p =
     (if p \<le> 1 then return_io False
      else do {
        r \<leftarrow> read_small_file k (proc_path p ''environ'') 4096;
        return_io (case r of None \<Rightarrow> False | Some s \<Rightarrow> environ_has_display s)
      })"

definition is_liveness_critical :: "kernel \<Rightarrow> pid \<Rightarrow> bool io" where
  "is_liveness_critical k p =
     (if p \<le> 1 then return_io True
      else do {
        c \<leftarrow> comm_of_pid k p;
        return_io (case c of None \<Rightarrow> False | Some comm \<Rightarrow> tier_of comm \<le> DesktopShell)
      })"

definition is_audio_shielded :: "globals \<Rightarrow> kernel \<Rightarrow> pid \<Rightarrow> bool io" where
  "is_audio_shielded g k p =
     (if \<not> gl_audio_active g \<or> p \<le> 1 then return_io False
      else do {
        c \<leftarrow> comm_of_pid k p;
        return_io (case c of None \<Rightarrow> False | Some comm \<Rightarrow> tier_of comm \<le> UserInteractive)
      })"

definition is_stall_shielded :: "kernel \<Rightarrow> pid \<Rightarrow> bool io" where
  "is_stall_shielded k p =
     (if p \<le> 1 then return_io False
      else do {
        c \<leftarrow> comm_of_pid k p;
        return_io (case c of None \<Rightarrow> False | Some comm \<Rightarrow> tier_of comm \<le> UserInteractive)
      })"

text \<open>
  A chain of guards of the form \<open>if (shield(pid)) return false;\<close>: the rest runs only when
  every shield lets the task through.
\<close>

fun unless_shielded :: "bool io list \<Rightarrow> bool io \<Rightarrow> bool io" where
  "unless_shielded [] m = m"
| "unless_shielded (sh # shs) m = do { b \<leftarrow> sh; if b then return_io False else unless_shielded shs m }"

section \<open>The audio state\<close>

record audio_scan =
  as_active :: bool
  as_owners :: "pid list"
  as_go :: bool

definition add_owner :: "pid \<Rightarrow> audio_scan \<Rightarrow> audio_scan" where
  "add_owner p st =
     (if p \<notin> set (as_owners st) \<and> length (as_owners st) < MAX_AUDIO_OWNERS
      then st\<lparr>as_owners := as_owners st @ [p]\<rparr> else st)"

text \<open>What one status file says; \<open>as_go\<close> is cleared by the loop's \<open>break\<close>.\<close>

definition scan_status :: "string \<Rightarrow> audio_scan \<Rightarrow> audio_scan" where
  "scan_status content st =
     (let buf = c_str content
      in if strstr buf ''RUNNING'' = None then st
         else let st' = st\<lparr>as_active := True\<rparr>
              in case strstr buf ''owner_pid'' of None \<Rightarrow> st'
                 | Some owner \<Rightarrow>
                     (case strchr (CHR '':'') owner of None \<Rightarrow> st'
                      | Some colon \<Rightarrow>
                          (let v = fst (strtol (drop 1 colon))
                           in if v \<le> 1 then st' else add_owner (wrap_i32 v) st')))"

definition scan_substream :: "kernel \<Rightarrow> string \<Rightarrow> nat \<Rightarrow> audio_scan \<Rightarrow> audio_scan io" where
  "scan_substream k pcm_path i st = do {
     let path = pcm_path @ ''/sub'' @ show_nat i @ ''/status'';
     if 192 \<le> length path then return_io (st\<lparr>as_go := False\<rparr>)
     else do {
       r \<leftarrow> read_small_file k path 256;
       return_io (case r of None \<Rightarrow> st\<lparr>as_go := False\<rparr>
         | Some s \<Rightarrow> if s = [] then st\<lparr>as_go := False\<rparr> else scan_status s st)
     }
   }"

definition is_playback_pcm :: "string \<Rightarrow> bool" where
  "is_playback_pcm name \<longleftrightarrow> 5 \<le> length name \<and> starts_with name ''pcm'' \<and> last name = CHR ''p''"

definition is_card_dir :: "string \<Rightarrow> bool" where
  "is_card_dir name \<longleftrightarrow>
     starts_with name ''card'' \<and> (case drop 4 name of c # _ \<Rightarrow> is_digit c | [] \<Rightarrow> False)"

definition scan_pcm :: "kernel \<Rightarrow> string \<Rightarrow> string \<Rightarrow> audio_scan \<Rightarrow> audio_scan io" where
  "scan_pcm k card_path name st =
     (if \<not> is_playback_pcm name then return_io st
      else io_for as_go (scan_substream k (card_path @ ''/'' @ name)) [0, 1, 2, 3] (st\<lparr>as_go := True\<rparr>))"

definition scan_card :: "kernel \<Rightarrow> string \<Rightarrow> audio_scan \<Rightarrow> audio_scan io" where
  "scan_card k name st =
     (let card_path = ''/proc/asound/'' @ name
      in if \<not> is_card_dir name \<or> 96 \<le> length card_path then return_io st
         else do {
           r \<leftarrow> sys_opendir k card_path;
           case r of None \<Rightarrow> return_io st | Some names \<Rightarrow> io_for (\<lambda>_. True) (scan_pcm k card_path) names st
         })"

definition refresh_audio_stream_state :: "kernel \<Rightarrow> globals \<Rightarrow> globals io" where
  "refresh_audio_stream_state k g = do {
     let st = \<lparr>as_active = False, as_owners = [], as_go = True\<rparr>;
     r \<leftarrow> sys_opendir k ''/proc/asound'';
     st' \<leftarrow> (case r of None \<Rightarrow> return_io st | Some names \<Rightarrow> io_for (\<lambda>_. True) (scan_card k) names st);
     return_io (g\<lparr>gl_audio_active := as_active st', gl_audio_owners := as_owners st'\<rparr>)
   }"

text \<open>The bytes of an \<open>int32_t\<close> as \<open>write\<close> sees them.\<close>

definition le_bytes32 :: "int \<Rightarrow> string" where
  "le_bytes32 v = map (\<lambda>i. char_of (nat (v div 256 ^ i mod 256))) [0..<4]"

definition set_audio_latency_floor :: "kernel \<Rightarrow> bool \<Rightarrow> globals \<Rightarrow> globals io" where
  "set_audio_latency_floor k engage g =
     (if engage
      then if gl_audio_pm_qos g then return_io g
           else do {
             ok \<leftarrow> (if gl_sandbox g then return_io False else sys_open_fd k ''/dev/cpu_dma_latency'');
             if \<not> ok then return_io g
             else do {
               n \<leftarrow> sys_write k ''/dev/cpu_dma_latency'' (le_bytes32 AUDIO_DMA_LATENCY_US);
               if n = 4 then return_io (g\<lparr>gl_audio_pm_qos := True\<rparr>)
               else do { sys_close_fd ''/dev/cpu_dma_latency''; return_io g }
             }
           }
      else if gl_audio_pm_qos g
           then do { sys_close_fd ''/dev/cpu_dma_latency''; return_io (g\<lparr>gl_audio_pm_qos := False\<rparr>) }
           else return_io g)"

section \<open>Cgroup paths\<close>

definition cgroup_line_path :: "nat \<Rightarrow> string \<Rightarrow> string option" where
  "cgroup_line_path out_cap rest =
     (let path = takeWhile (\<lambda>c. c \<noteq> NL \<and> c \<noteq> CR) rest; base = ''/sys/fs/cgroup''
      in if out_cap \<le> length base + length path + 1 then None
         else if path \<noteq> [] \<and> hd path = CHR ''/'' then Some (base @ path)
         else if path \<noteq> [] then Some (base @ ''/'' @ path)
         else Some base)"

fun find_cgroup_line :: "nat \<Rightarrow> string \<Rightarrow> string option" where
  "find_cgroup_line out_cap s =
     (if s = [] then None
      else if starts_with s ''0::'' then cgroup_line_path out_cap (drop 3 s)
      else find_cgroup_line out_cap (drop_line s))"

declare find_cgroup_line.simps [simp del]

definition resolve_cgroup_path :: "kernel \<Rightarrow> pid \<Rightarrow> nat \<Rightarrow> string option io" where
  "resolve_cgroup_path k p out_cap =
     (if p \<le> 1 \<or> out_cap < 32 then return_io None
      else do {
        r \<leftarrow> read_small_file k (proc_path p ''cgroup'') 512;
        return_io (case r of None \<Rightarrow> None | Some s \<Rightarrow> if s = [] then None else find_cgroup_line out_cap s)
      })"

text \<open>The callers print the path with \<open>%s\<close>, so it ends at a zero byte.\<close>

definition with_cgroup_file :: "globals \<Rightarrow> kernel \<Rightarrow> pid \<Rightarrow> string \<Rightarrow> (string \<Rightarrow> bool io) \<Rightarrow> bool io" where
  "with_cgroup_file g k p leaf body = do {
     r \<leftarrow> resolve_cgroup_path k p 256;
     case r of None \<Rightarrow> return_io False
     | Some cg \<Rightarrow> do {
         let path = c_str cg @ leaf;
         ok \<leftarrow> hw_open_write g k path;
         if \<not> ok then return_io False else body path
       }
   }"

section \<open>The operations\<close>

text \<open>\<open>/proc/<pid>/task\<close>: the threads the per-thread loops visit.\<close>

definition task_ids :: "kernel \<Rightarrow> pid \<Rightarrow> pid list option io" where
  "task_ids k p = do {
     r \<leftarrow> sys_opendir k (proc_path p ''task'');
     return_io (map_option (\<lambda>names.
       List.map_filter (\<lambda>n. if starts_with n ''.'' then None else map_option wrap_i32 (entry_number n)) names) r)
   }"

definition apply_sched_idle :: "globals \<Rightarrow> kernel \<Rightarrow> pid \<Rightarrow> bool io" where
  "apply_sched_idle g k p =
     (if p \<le> 1 then return_io False
      else unless_shielded
        [is_immune_process g k p, is_audio_shielded g k p, is_stall_shielded k p,
         is_liveness_critical k p, is_graphical_session_process k p]
        (do {
           sched_ok \<leftarrow> hw_sched_setscheduler g k p SCHED_IDLE;
           io_ok \<leftarrow> hw_ioprio_set g k p 3 7;
           return_io (sched_ok \<or> io_ok)
         }))"

definition policy_of :: "int \<Rightarrow> sched_policy" where
  "policy_of i = (if i = 0 then SCHED_OTHER else if i = 3 then SCHED_BATCH
                  else if i = 5 then SCHED_IDLE else SCHED_RAW i)"

definition restore_sched_normal :: "globals \<Rightarrow> kernel \<Rightarrow> pid \<Rightarrow> int \<Rightarrow> int \<Rightarrow> bool io" where
  "restore_sched_normal g k p original_policy original_nice =
     (if p \<le> 1 then return_io False
      else do {
        let pol = policy_of (if 0 \<le> original_policy then original_policy else 0);
        hw_setpriority g k p original_nice;
        sched_ok \<leftarrow> hw_sched_setscheduler g k p pol;
        ts \<leftarrow> task_ids k p;
        (case ts of None \<Rightarrow> return_io ()
         | Some tids \<Rightarrow> io_for (\<lambda>_. True) (\<lambda>t _. do {
             hw_sched_setscheduler g k t pol;
             hw_setpriority g k t original_nice }) tids ());
        io_ok \<leftarrow> hw_ioprio_set g k p 2 4;
        return_io (sched_ok \<or> io_ok)
      })"

definition apply_sched_batch :: "globals \<Rightarrow> kernel \<Rightarrow> pid \<Rightarrow> int \<Rightarrow> bool io" where
  "apply_sched_batch g k p nice_val =
     (if p \<le> 1 then return_io False
      else unless_shielded [is_immune_process g k p] (do {
        ok \<leftarrow> hw_sched_setscheduler g k p SCHED_BATCH;
        hw_setpriority g k p nice_val;
        ts \<leftarrow> task_ids k p;
        case ts of None \<Rightarrow> return_io ok
        | Some tids \<Rightarrow> io_for (\<lambda>_. True) (\<lambda>t any. do {
            b \<leftarrow> hw_sched_setscheduler g k t SCHED_BATCH;
            hw_setpriority g k t nice_val;
            return_io (any \<or> b) }) tids ok
      }))"

definition total_online_cpus :: "kernel \<Rightarrow> int" where
  "total_online_cpus k = (if 0 < k_online_cpus k then k_online_cpus k else 1)"

definition all_cores_cpuset :: "kernel \<Rightarrow> nat set" where
  "all_cores_cpuset k = {..<nat (total_online_cpus k)}"

definition headroom_allowed :: "int \<Rightarrow> power_profile \<Rightarrow> int" where
  "headroom_allowed n mode =
     (if 8 \<le> n then (case mode of UltraEndurance \<Rightarrow> max 2 (n div 2)
                     | PowerSaver \<Rightarrow> max 4 (n * 3 div 4)
                     | _ \<Rightarrow> max 1 (n - 2))
      else if 4 \<le> n then (case mode of UltraEndurance \<Rightarrow> max 1 (n div 2) | _ \<Rightarrow> max 1 (n - 1))
      else n)"

definition headroom_allowed_cpuset :: "kernel \<Rightarrow> power_profile \<Rightarrow> nat set" where
  "headroom_allowed_cpuset k mode = {..<nat (headroom_allowed (total_online_cpus k) mode)}"

definition reserved_headroom_cores :: "kernel \<Rightarrow> int" where
  "reserved_headroom_cores k =
     (let n = total_online_cpus k in if 8 \<le> n then 2 else if 4 \<le> n then 1 else 0)"

definition set_affinity_all_tasks :: "globals \<Rightarrow> kernel \<Rightarrow> pid \<Rightarrow> nat set \<Rightarrow> bool io" where
  "set_affinity_all_tasks g k p cs = do {
     ok \<leftarrow> hw_sched_setaffinity g k p cs;
     ts \<leftarrow> task_ids k p;
     case ts of None \<Rightarrow> return_io ok
     | Some tids \<Rightarrow> io_for (\<lambda>_. True) (\<lambda>t any. do {
         b \<leftarrow> hw_sched_setaffinity g k t cs; return_io (any \<or> b) }) tids ok
   }"

definition apply_core_affinity_cap :: "globals \<Rightarrow> kernel \<Rightarrow> pid \<Rightarrow> nat set option \<Rightarrow> bool io" where
  "apply_core_affinity_cap g k p allowed =
     (if p \<le> 1 then return_io False
      else unless_shielded [is_immune_process g k p]
        (set_affinity_all_tasks g k p
           (case allowed of Some cs \<Rightarrow> cs | None \<Rightarrow> headroom_allowed_cpuset k Balanced)))"

definition restore_core_affinity :: "globals \<Rightarrow> kernel \<Rightarrow> pid \<Rightarrow> nat set option \<Rightarrow> bool io" where
  "restore_core_affinity g k p target =
     (if p \<le> 1 then return_io False
      else set_affinity_all_tasks g k p (case target of Some cs \<Rightarrow> cs | None \<Rightarrow> all_cores_cpuset k))"

definition restore_process_affinity :: "globals \<Rightarrow> kernel \<Rightarrow> pid \<Rightarrow> nat set \<Rightarrow> bool io" where
  "restore_process_affinity g k p original =
     (if p \<le> 1 then return_io False
      else if original = {} then hw_sched_setaffinity g k p (all_cores_cpuset k)
      else hw_sched_setaffinity g k p original)"

definition DEFAULT_TIMERSLACK_NS :: u64 where
  [code_consts]: "DEFAULT_TIMERSLACK_NS = 50000"

definition apply_timer_slack :: "globals \<Rightarrow> kernel \<Rightarrow> pid \<Rightarrow> u64 \<Rightarrow> bool io" where
  "apply_timer_slack g k p slack_ns =
     (if p \<le> 1 \<or> slack_ns = 0 then return_io False
      else unless_shielded
        (if DEFAULT_TIMERSLACK_NS < slack_ns
         then [is_immune_process g k p, is_liveness_critical k p, is_audio_shielded g k p,
               is_graphical_session_process k p]
         else [])
        (write_file g k (proc_path p ''timerslack_ns'') (show_nat (unat slack_ns) @ [NL])))"

definition apply_memory_reclaim :: "globals \<Rightarrow> kernel \<Rightarrow> pid \<Rightarrow> u64 \<Rightarrow> bool \<Rightarrow> bool io" where
  "apply_memory_reclaim g k p bytes file_only =
     (if p \<le> 1 \<or> bytes = 0 then return_io False
      else with_cgroup_file g k p ''/memory.reclaim'' (\<lambda>path. do {
        let plain = show_nat (unat bytes) @ [NL];
        w \<leftarrow> sys_write k path (if file_only then show_nat (unat bytes) @ '' swappiness=0'' @ [NL] else plain);
        w' \<leftarrow> (if w < 0 \<and> file_only then sys_write k path plain else return_io w);
        return_io (0 < w')
      }))"

definition apply_cgroup_freeze :: "globals \<Rightarrow> kernel \<Rightarrow> pid \<Rightarrow> bool \<Rightarrow> bool io" where
  "apply_cgroup_freeze g k p freeze =
     unless_shielded
       (if freeze
        then [is_audio_shielded g k p, is_stall_shielded k p, is_liveness_critical k p,
              is_graphical_session_process k p]
        else [])
       (if p \<le> 1 then return_io False
        else if freeze
        then do { apply_sched_idle g k p; apply_timer_slack g k p 100000000; return_io False }
        else with_cgroup_file g k p ''/cgroup.freeze'' (\<lambda>path. do {
          w \<leftarrow> sys_write k path (''0'' @ [NL]); return_io (0 < w) }))"

definition apply_cgroup_cpu_quota :: "globals \<Rightarrow> kernel \<Rightarrow> pid \<Rightarrow> u32 \<Rightarrow> u32 \<Rightarrow> bool io" where
  "apply_cgroup_cpu_quota g k p max_quota_us period_us =
     (if p \<le> 1 then return_io False
      else unless_shielded [is_immune_process g k p]
        (with_cgroup_file g k p ''/cpu.max'' (\<lambda>path. do {
          w \<leftarrow> sys_write k path (show_nat (unat max_quota_us) @ '' '' @ show_nat (unat period_us) @ [NL]);
          return_io (0 < w) })))"

definition restore_cgroup_cpu_quota :: "globals \<Rightarrow> kernel \<Rightarrow> pid \<Rightarrow> bool io" where
  "restore_cgroup_cpu_quota g k p =
     (if p \<le> 1 then return_io False
      else with_cgroup_file g k p ''/cpu.max'' (\<lambda>path. do {
        w \<leftarrow> sys_write k path (''max 100000'' @ [NL]); return_io (0 < w) }))"

section \<open>Effects\<close>

text \<open>An event that changes nothing outside the daemon.\<close>

fun is_read_event :: "event \<Rightarrow> bool" where
  "is_read_event (EvReadFile _) = True"
| "is_read_event (EvOpenDir _) = True"
| "is_read_event (EvGetDents _ _) = True"
| "is_read_event (EvReadLink _) = True"
| "is_read_event (EvStat _) = True"
| "is_read_event (EvStatVfs _) = True"
| "is_read_event (EvStatFs _) = True"
| "is_read_event (EvAccess _) = True"
| "is_read_event EvClock = True"
| "is_read_event EvSysInfo = True"
| "is_read_event (EvGetEnv _) = True"
| "is_read_event (EvGetTask _) = True"
| "is_read_event (EvIfIndex _) = True"
| "is_read_event (EvOpenRead _ _) = True"
| "is_read_event (EvPerfOpen _ _ _) = True"
| "is_read_event (EvPerfRead _ _) = True"
| "is_read_event (EvMsr _) = True"
| "is_read_event _ = False"

lemmas shield_defs = is_immune_process_def is_liveness_critical_def is_audio_shielded_def
  is_stall_shielded_def is_graphical_session_process_def comm_of_pid_def read_small_file_def

lemma emits_comm_of_pid: "(\<And>q. P (EvReadFile q)) \<Longrightarrow> emits P (comm_of_pid k p)"
  unfolding comm_of_pid_def read_small_file_def sys_read_file_def by (intro io_rules) auto

text \<open>Every shield only reads.\<close>

lemma emits_shields [io_specs]:
  assumes "\<And>q. P (EvReadFile q)"
  shows "emits P (is_immune_process g k p)" and "emits P (is_liveness_critical k p)"
    and "emits P (is_audio_shielded g k p)" and "emits P (is_stall_shielded k p)"
    and "emits P (is_graphical_session_process k p)"
  unfolding is_immune_process_def is_liveness_critical_def is_audio_shielded_def
    is_stall_shielded_def is_graphical_session_process_def read_small_file_def sys_read_file_def
  by (intro io_rules emits_comm_of_pid assms TrueI)+

lemma emits_unless_shielded:
  "(\<And>sh. sh \<in> set shs \<Longrightarrow> emits P sh) \<Longrightarrow> emits P m \<Longrightarrow> emits P (unless_shielded shs m)"
  by (induction shs) (auto intro!: io_rules)

text \<open>A chain stops at the first shield that is known to answer yes.\<close>

lemma emits_unless_shielded_stop:
  assumes "\<And>sh. sh \<in> set shs \<Longrightarrow> emits P sh" and "sh \<in> set shs" and "io_ok P sh (\<lambda>b. b)"
  shows "io_ok P (unless_shielded shs m) (\<lambda>r. \<not> r)"
  using assms
proof (induction shs)
  case (Cons s shs)
  show ?case
  proof (cases "s = sh")
    case True
    show ?thesis
      unfolding True unless_shielded.simps
      by (rule io_ok_bind [OF Cons.prems(3)]) (auto intro: io_ok_return)
  next
    case False
    with Cons show ?thesis by (auto intro!: io_ok_bind [of _ s "\<lambda>_. True"] io_ok_return)
  qed
qed simp

declare unless_shielded.simps [simp del]

lemma emits_hw_open_write:
  "(\<And>ok. \<not> gl_sandbox g \<Longrightarrow> P (EvOpenWrite path ok)) \<Longrightarrow> emits P (hw_open_write g k path)"
  by (auto simp: hw_open_write_def sys_open_write_def intro!: io_rules)

lemma emits_write_file:
  "(\<And>ok. \<not> gl_sandbox g \<Longrightarrow> P (EvOpenWrite path ok)) \<Longrightarrow> (\<And>n. \<not> gl_sandbox g \<Longrightarrow> P (EvWrite path data n)) \<Longrightarrow>
   emits P (write_file g k path data)"
proof -
  assume a: "\<And>ok. \<not> gl_sandbox g \<Longrightarrow> P (EvOpenWrite path ok)" "\<And>n. \<not> gl_sandbox g \<Longrightarrow> P (EvWrite path data n)"
  have "io_ok P (hw_open_write g k path) (\<lambda>ok. ok \<longrightarrow> \<not> gl_sandbox g)"
    using a(1) by (auto simp: hw_open_write_def sys_open_write_def intro!: io_ok_syscall io_ok_return)
  from this show "emits P (write_file g k path data)"
    unfolding write_file_def sys_write_def
    by (rule io_ok_bind) (use a(2) in \<open>auto intro!: io_rules\<close>)
qed

text \<open>
  What the process actuators can do at most: read, open and write files, and change the
  scheduling of a task.  None of them kills, unlinks or swaps anything.
\<close>

fun actuator_event :: "event \<Rightarrow> bool" where
  "actuator_event (EvOpenWrite _ _) = True"
| "actuator_event (EvWrite _ _ _) = True"
| "actuator_event (EvSetScheduler _ _ _) = True"
| "actuator_event (EvSetPriority _ _) = True"
| "actuator_event (EvSetAffinity _ _ _) = True"
| "actuator_event (EvIoPrio _ _ _ _) = True"
| "actuator_event e = is_read_event e"

lemma read_actuator_event [simp]: "is_read_event e \<Longrightarrow> actuator_event e"
  by (cases e) auto

lemmas hw_defs = hw_setpriority_def hw_sched_setaffinity_def hw_sched_setscheduler_def
  hw_ioprio_set_def

lemma emits_hw:
  assumes "\<And>e. \<not> gl_sandbox g \<Longrightarrow> actuator_event e \<Longrightarrow> P e"
  shows "emits P (hw_setpriority g k p n)" and "emits P (hw_sched_setaffinity g k p cs)"
    and "emits P (hw_sched_setscheduler g k p pol)" and "emits P (hw_ioprio_set g k p c d)"
  unfolding hw_defs sys_defs using assms by (auto intro!: io_rules)

lemma emits_task_ids: "(\<And>q. P (EvOpenDir q)) \<Longrightarrow> emits P (task_ids k p)"
  unfolding task_ids_def sys_opendir_def by (auto intro!: io_rules)

lemma emits_resolve_cgroup_path: "(\<And>q. P (EvReadFile q)) \<Longrightarrow> emits P (resolve_cgroup_path k p c)"
  unfolding resolve_cgroup_path_def read_small_file_def sys_read_file_def by (auto intro!: io_rules)

lemma emits_with_cgroup_file:
  assumes "\<And>q. P (EvReadFile q)"
    and "\<And>path ok. \<not> gl_sandbox g \<Longrightarrow> P (EvOpenWrite (path @ leaf) ok)"
    and "\<And>path. \<not> gl_sandbox g \<Longrightarrow> emits P (body (path @ leaf))"
  shows "emits P (with_cgroup_file g k p leaf body)"
proof -
  have open_ok: "io_ok P (hw_open_write g k (path @ leaf)) (\<lambda>ok. ok \<longrightarrow> \<not> gl_sandbox g)" for path
    using assms(2) by (auto simp: hw_open_write_def sys_open_write_def intro!: io_ok_syscall io_ok_return)
  show ?thesis
    unfolding with_cgroup_file_def Let_def
    by (rule io_ok_bind_any, rule emits_resolve_cgroup_path, rule assms(1), rule io_ok_option)
      (auto intro!: io_ok_return io_ok_bind [OF open_ok] assms(3))
qed

lemma emits_set_affinity_all_tasks:
  "(\<And>q. P (EvOpenDir q)) \<Longrightarrow> (\<And>e. \<not> gl_sandbox g \<Longrightarrow> actuator_event e \<Longrightarrow> P e) \<Longrightarrow>
   emits P (set_affinity_all_tasks g k p cs)"
  unfolding set_affinity_all_tasks_def by (intro io_rules emits_hw emits_task_ids TrueI) auto

text \<open>
  One lemma for the effects of all of them: whatever predicate holds of the reads, and of the
  actuator events when the sandbox is off, holds of everything they do.
\<close>

lemma emits_actuators [io_specs]:
  assumes r: "\<And>e. is_read_event e \<Longrightarrow> P e"
    and a: "\<And>e. \<not> gl_sandbox g \<Longrightarrow> actuator_event e \<Longrightarrow> P e"
  shows "emits P (apply_sched_idle g k p)" and "emits P (restore_sched_normal g k p pol n)"
    and "emits P (apply_sched_batch g k p n)" and "emits P (apply_core_affinity_cap g k p cs)"
    and "emits P (restore_core_affinity g k p cs)" and "emits P (restore_process_affinity g k p c)"
    and "emits P (apply_timer_slack g k p sl)" and "emits P (apply_memory_reclaim g k p b fo)"
    and "emits P (apply_cgroup_cpu_quota g k p mq pq)" and "emits P (restore_cgroup_cpu_quota g k p)"
proof -
  have ev: "P e" if "gl_sandbox g \<longrightarrow> is_read_event e" "actuator_event e" for e
    using r a that by blast
  note rules = io_rules emits_hw emits_task_ids emits_shields emits_set_affinity_all_tasks
    emits_with_cgroup_file emits_write_file emits_unless_shielded
  show "emits P (apply_sched_idle g k p)"
    unfolding apply_sched_idle_def by (rule io_rules, rule io_rules, rule TrueI)
      (auto intro!: rules ev)
  show "emits P (restore_sched_normal g k p pol n)"
    unfolding restore_sched_normal_def Let_def by (auto intro!: rules ev)
  show "emits P (apply_sched_batch g k p n)"
    unfolding apply_sched_batch_def by (auto intro!: rules ev)
  show "emits P (apply_core_affinity_cap g k p cs)"
    unfolding apply_core_affinity_cap_def by (auto intro!: rules ev)
  show "emits P (restore_core_affinity g k p cs)"
    unfolding restore_core_affinity_def by (auto intro!: rules ev)
  show "emits P (restore_process_affinity g k p c)"
    unfolding restore_process_affinity_def by (auto intro!: rules ev)
  show "emits P (apply_timer_slack g k p sl)"
    unfolding apply_timer_slack_def by (auto intro!: rules ev split: if_splits)
  show "emits P (apply_memory_reclaim g k p b fo)"
    unfolding apply_memory_reclaim_def Let_def sys_write_def by (auto intro!: rules ev)
  show "emits P (apply_cgroup_cpu_quota g k p mq pq)"
    unfolding apply_cgroup_cpu_quota_def sys_write_def by (auto intro!: rules ev)
  show "emits P (restore_cgroup_cpu_quota g k p)"
    unfolding restore_cgroup_cpu_quota_def sys_write_def by (auto intro!: rules ev)
qed

lemma emits_cgroup_freeze [io_specs]:
  assumes "\<And>e. is_read_event e \<Longrightarrow> P e" and "\<And>e. \<not> gl_sandbox g \<Longrightarrow> actuator_event e \<Longrightarrow> P e"
  shows "emits P (apply_cgroup_freeze g k p b)"
proof -
  have ev: "P e" if "gl_sandbox g \<longrightarrow> is_read_event e" "actuator_event e" for e
    using assms that by blast
  show ?thesis
    unfolding apply_cgroup_freeze_def sys_write_def
    by (rule emits_unless_shielded)
      (auto intro!: io_rules emits_shields emits_with_cgroup_file emits_actuators ev split: if_splits)
qed

section \<open>Properties\<close>

text \<open>A task whose name, as the kernel reports it, stays \<open>name\<close>.\<close>

definition stable_comm :: "kernel \<Rightarrow> pid \<Rightarrow> string \<Rightarrow> bool" where
  "stable_comm k p name \<longleftrightarrow>
     name \<noteq> [] \<and> length name \<le> 15 \<and> last name \<notin> {NL, CR, CHR '' ''} \<and>
     (\<forall>h. k_read_file k h (proc_path p ''comm'') 63 = Some (name @ [NL]))"

lemma rstrip_name: "name \<noteq> [] \<Longrightarrow> last name \<notin> {NL, CR, CHR '' ''} \<Longrightarrow> rstrip (name @ [NL]) = name"
  by (cases name rule: rev_cases) (auto simp: rstrip_def)

lemma comm_of_pid_stable:
  assumes "stable_comm k p name" and "\<And>q. P (EvReadFile q)"
  shows "io_ok P (comm_of_pid k p) (\<lambda>c. c = Some name)"
proof -
  have len: "take 63 (name @ [NL]) = name @ [NL]" and rs: "rstrip (name @ [NL]) = name"
    using assms(1) rstrip_name by (auto simp: stable_comm_def)
  have "io_ok P (read_small_file k (proc_path p ''comm'') 64) (\<lambda>r. r = Some (name @ [NL]))"
    unfolding read_small_file_def sys_read_file_def
    using assms len by (intro io_ok_syscall) (auto simp: stable_comm_def)
  from this show ?thesis
    unfolding comm_of_pid_def by (rule io_ok_bind) (auto simp: rs intro!: io_ok_return)
qed

lemma stall_shield_stable:
  assumes "stable_comm k p name" and "1 < p" and "\<And>q. P (EvReadFile q)"
  shows "io_ok P (is_stall_shielded k p) (\<lambda>b. b = (tier_of name \<le> UserInteractive))"
    and "io_ok P (is_liveness_critical k p) (\<lambda>b. b = (tier_of name \<le> DesktopShell))"
proof -
  have c: "io_ok P (comm_of_pid k p) (\<lambda>c. c = Some name)"
    using assms by (intro comm_of_pid_stable)
  show "io_ok P (is_stall_shielded k p) (\<lambda>b. b = (tier_of name \<le> UserInteractive))"
    and "io_ok P (is_liveness_critical k p) (\<lambda>b. b = (tier_of name \<le> DesktopShell))"
    unfolding is_stall_shielded_def is_liveness_critical_def using assms(2)
    by (auto intro!: io_ok_bind [OF c] io_ok_return)
qed

text \<open>C4. A task that belongs to the user's desktop (tiers 0 to 3 of the knowledge base) is never
  demoted: whatever else the system answers, lowering it to the idle class and freezing its
  cgroup both report failure, and all they do is read.\<close>

theorem desktop_task_never_demoted:
  assumes "1 < p" and "stable_comm k p name" and "tier_of name \<le> UserInteractive"
  shows "io_ok is_read_event (apply_sched_idle g k p) (\<lambda>r. \<not> r) \<and>
         io_ok is_read_event (apply_cgroup_freeze g k p True) (\<lambda>r. \<not> r)"
proof -
  have sh: "io_ok is_read_event (is_stall_shielded k p) (\<lambda>b. b)"
    by (rule io_ok_mono, rule stall_shield_stable(1) [OF assms(2,1)]) (use assms(3) in auto)
  have "io_ok is_read_event (apply_sched_idle g k p) (\<lambda>r. \<not> r)"
    unfolding apply_sched_idle_def using assms(1)
    by (auto intro!: emits_unless_shielded_stop [OF _ _ sh] emits_shields)
  moreover have "io_ok is_read_event (apply_cgroup_freeze g k p True) (\<lambda>r. \<not> r)"
    unfolding apply_cgroup_freeze_def
    by (auto intro!: emits_unless_shielded_stop [OF _ _ sh] emits_shields)
  ultimately show ?thesis by blast
qed

definition quiet_globals :: globals where
  "quiet_globals = \<lparr>gl_sandbox = False, gl_audio_active = False, gl_audio_owners = [],
     gl_effective_profile = Balanced, gl_audio_pm_qos = False\<rparr>"

definition named_kernel :: "string \<Rightarrow> kernel" where
  "named_kernel name = quiet_kernel\<lparr>k_read_file := \<lambda>_ _ _. Some (name @ [NL])\<rparr>"

theorem desktop_task_never_demoted_witness:
  "io_ok is_read_event (apply_sched_idle quiet_globals (named_kernel ''firefox'') 42) (\<lambda>r. \<not> r)"
proof -
  have "stable_comm (named_kernel ''firefox'') 42 ''firefox''"
    by (simp add: stable_comm_def named_kernel_def)
  moreover have "tier_of ''firefox'' \<le> UserInteractive"
    by (simp add: classify_def named_def starts_with_def less_eq_safety_tier_def critical_names_def
        critical_prefixes_def desktop_core_names_def shell_names_def worker_names_def
        worker_prefixes_def interactive_names_def)
  ultimately show ?thesis
    using desktop_task_never_demoted [of 42 _ "''firefox''" quiet_globals] by simp
qed

text \<open>With the actuation sandbox engaged, no process actuator changes anything: each only
  reads.\<close>

theorem sandbox_only_reads:
  assumes "gl_sandbox g"
  shows "emits is_read_event (apply_sched_idle g k p) \<and> emits is_read_event (restore_sched_normal g k p pol n) \<and>
    emits is_read_event (apply_sched_batch g k p n) \<and> emits is_read_event (apply_core_affinity_cap g k p cs) \<and>
    emits is_read_event (restore_core_affinity g k p cs) \<and> emits is_read_event (apply_timer_slack g k p sl) \<and>
    emits is_read_event (apply_memory_reclaim g k p b fo) \<and> emits is_read_event (apply_cgroup_freeze g k p fr) \<and>
    emits is_read_event (apply_cgroup_cpu_quota g k p mq pq) \<and> emits is_read_event (restore_cgroup_cpu_quota g k p)"
  using assms by (auto intro!: emits_actuators emits_cgroup_freeze)

theorem sandbox_only_reads_witness:
  "emits is_read_event (apply_sched_batch (quiet_globals\<lparr>gl_sandbox := True\<rparr>) (named_kernel ''gcc'') 42 5)"
  using sandbox_only_reads [of "quiet_globals\<lparr>gl_sandbox := True\<rparr>"] by simp

fun thaws_only :: "event \<Rightarrow> bool" where
  "thaws_only (EvWrite path d _) = (if ends_with path ''/cgroup.freeze'' then d = ''0'' @ [NL] else True)"
| "thaws_only _ = True"

text \<open>The freezer is only ever released: every write to a \<^verbatim>\<open>cgroup.freeze\<close> file that the
  freeze operation makes, in either direction, writes \<^verbatim>\<open>0\<close>.\<close>

theorem freezer_only_thawed:
  "emits thaws_only (apply_cgroup_freeze g k p freeze)"
proof -
  let ?P = thaws_only
  have slack: "\<not> ends_with (proc_path p ''timerslack_ns'') ''/cgroup.freeze''"
  proof -
    have "last (proc_path p ''timerslack_ns'') = CHR ''s''" by (simp add: proc_path_def)
    then show ?thesis by (auto simp: ends_with_iff)
  qed
  have "emits ?P (apply_sched_idle g k p)"
    unfolding apply_sched_idle_def hw_defs sys_defs
    by (auto intro!: io_rules emits_unless_shielded emits_shields)
  moreover have "emits ?P (apply_timer_slack g k p 100000000)"
    unfolding apply_timer_slack_def using slack
    by (auto intro!: io_rules emits_unless_shielded emits_shields emits_write_file split: if_splits)
  ultimately show ?thesis
    unfolding apply_cgroup_freeze_def sys_write_def
    by (intro emits_unless_shielded)
      (auto intro!: io_rules emits_shields emits_with_cgroup_file split: if_splits)
qed

text \<open>The anti-starvation cap keeps the machine usable: at least one core stays allowed, never
  more than there are, a stricter profile never allows more cores, and from eight cores on
  Balanced and Performance leave two free.\<close>

theorem headroom_cap_bounds:
  assumes "1 \<le> n"
  shows "1 \<le> headroom_allowed n m \<and> headroom_allowed n m \<le> n \<and>
    (m \<le> m' \<longrightarrow> headroom_allowed n m' \<le> headroom_allowed n m) \<and>
    (8 \<le> n \<and> m \<le> Balanced \<longrightarrow> headroom_allowed n m = n - 2)"
  using assms
  by (cases m; cases m') (auto simp: headroom_allowed_def less_eq_power_profile_def)

theorem headroom_cap_bounds_witness:
  "headroom_allowed 16 UltraEndurance = 8 \<and> headroom_allowed 16 UltraEndurance \<le> headroom_allowed 16 Balanced \<and>
   headroom_allowed 16 Balanced = 14"
  using headroom_cap_bounds [of 16 Balanced UltraEndurance]
  by (simp add: headroom_allowed_def less_eq_power_profile_def)

end
