(* ===== verification/Fan_Curve.thy ===== *)
theory Fan_Curve
  imports Actuators "HOL-Library.Monad_Syntax"
begin

text \<open>
  The fan curve engine (\<^verbatim>\<open>src/policy/fan_curve_engine.cpp\<close>): custom control points, the
  monotone cubic spline in single precision, its lookup table of fan levels over 30 to 70
  degrees, and the text form the curves are stored and sent in.  \<open>eval_path\<close> tells which
  evaluation routine the build and the processor's features select.
\<close>

section \<open>Data\<close>

type_synonym control_point = "float32 \<times> float32"

record profile_curve =
  pc_points :: "control_point list"
  pc_levels :: "u8 list"
  pc_pcts :: "float32 list"
  pc_is_custom :: bool

record fan_engine =
  fe_fast_levels :: "u8 list list"
  fe_fast_pcts :: "float32 list list"
  fe_curves :: "profile_curve list"

abbreviation "LOOKUP_TABLE_SIZE \<equiv> (41 :: nat)"
abbreviation "MAX_POINTS \<equiv> (10 :: nat)"
abbreviation "MIN_POINTS \<equiv> (2 :: nat)"
abbreviation "LOOKUP_PAD \<equiv> (48 :: nat)"

definition FAN_LEVEL_FULL_SPEED :: u8 where
  [code_consts]: "FAN_LEVEL_FULL_SPEED = 8"

abbreviation add32 :: "fp \<Rightarrow> fp \<Rightarrow> fp" where "add32 \<equiv> fp_add Binary32"
abbreviation sub32 :: "fp \<Rightarrow> fp \<Rightarrow> fp" where "sub32 \<equiv> fp_sub Binary32"
abbreviation mul32 :: "fp \<Rightarrow> fp \<Rightarrow> fp" where "mul32 \<equiv> fp_mul Binary32"
abbreviation div32 :: "fp \<Rightarrow> fp \<Rightarrow> fp" where "div32 \<equiv> fp_div Binary32"
abbreviation sqrt32 :: "fp \<Rightarrow> fp" where "sqrt32 \<equiv> fp_sqrt Binary32"

datatype eval_path = ScalarPath | AvxPath | AvxFmaPath

section \<open>The spline\<close>

definition pct_to_thinkpad_level :: "float32 \<Rightarrow> bool \<Rightarrow> u8" where
  "pct_to_thinkpad_level pct allow_fan_stop =
     (if fp_le pct (Fin 0) then (if allow_fan_stop then 0 else 1)
      else if fp_ge pct (Fin 90) then FAN_LEVEL_FULL_SPEED
      else if fp_lt pct (Fin 15) then 1
      else if fp_lt pct (Fin 30) then 2
      else if fp_lt pct (Fin 45) then 3
      else if fp_lt pct (Fin 60) then 4
      else if fp_lt pct (Fin 75) then 5
      else 6)"

text \<open>The interval lengths, kept positive, and the slopes of the chords.\<close>

definition interval_h :: "control_point \<Rightarrow> control_point \<Rightarrow> float32" where
  "interval_h p q =
     (let h = sub32 (fst q) (fst p) in if fp_le h (lit32 (1 / 10000)) then lit32 (1 / 10000) else h)"

definition intervals :: "control_point list \<Rightarrow> float32 list" where
  "intervals pts = map2 interval_h pts (tl pts)"

definition chord_slopes :: "control_point list \<Rightarrow> float32 list" where
  "chord_slopes pts =
     map2 (\<lambda>h (p, q). div32 (sub32 (snd q) (snd p)) h) (intervals pts) (zip pts (tl pts))"

definition initial_tangents :: "float32 list \<Rightarrow> float32 list" where
  "initial_tangents delta =
     hd delta # map2 (\<lambda>d e. mul32 (lit32 (1 / 2)) (add32 d e)) delta (tl delta) @ [last delta]"

text \<open>
  The Fritsch-Carlson pass over the intervals in order; \<open>alpha\<close> and \<open>beta\<close> are computed
  before the tangents are zeroed, and reused after it.
\<close>

definition fc_step :: "float32 list \<Rightarrow> nat \<Rightarrow> float32 list \<Rightarrow> float32 list" where
  "fc_step delta i m =
     (let d = delta ! i
      in if fp_lt (fp_abs d) (lit32 (1 / 100000)) then m[i := Fin 0, i + 1 := Fin 0]
         else
           let alpha = div32 (m ! i) d; beta = div32 (m ! (i + 1)) d;
               m1 = (if fp_lt alpha (Fin 0) then m[i := Fin 0] else m);
               m2 = (if fp_lt beta (Fin 0) then m1[i + 1 := Fin 0] else m1);
               hyp = add32 (mul32 alpha alpha) (mul32 beta beta)
           in if fp_gt hyp (Fin 9)
              then let tau = div32 (Fin 3) (sqrt32 hyp)
                   in m2[i := mul32 (mul32 tau alpha) d, i + 1 := mul32 (mul32 tau beta) d]
              else m2)"

definition fritsch_carlson :: "float32 list \<Rightarrow> float32 list \<Rightarrow> float32 list" where
  "fritsch_carlson delta m = fold (fc_step delta) [0..<length delta] m"

record cubic =
  c0 :: float32
  c1 :: float32
  c2 :: float32
  c3 :: float32

definition cubic_of :: "float32 \<Rightarrow> float32 \<Rightarrow> float32 \<Rightarrow> float32 \<Rightarrow> float32 \<Rightarrow> cubic" where
  "cubic_of y0 y1 hi m0 m1 =
     \<lparr>c0 = y0, c1 = mul32 hi m0,
      c2 = sub32 (sub32 (add32 (mul32 (Fin (- 3)) y0) (mul32 (Fin 3) y1)) (mul32 (mul32 (Fin 2) hi) m0))
             (mul32 hi m1),
      c3 = add32 (add32 (sub32 (mul32 (Fin 2) y0) (mul32 (Fin 2) y1)) (mul32 hi m0)) (mul32 hi m1)\<rparr>"

definition cubics :: "control_point list \<Rightarrow> float32 list \<Rightarrow> float32 list \<Rightarrow> cubic list" where
  "cubics pts h m =
     map (\<lambda>i. cubic_of (snd (pts ! i)) (snd (pts ! (i + 1))) (h ! i) (m ! i) (m ! (i + 1))) [0..<length h]"

text \<open>The last interval whose left end the temperature has reached.\<close>

definition segment_of :: "control_point list \<Rightarrow> nat \<Rightarrow> float32 \<Rightarrow> nat" where
  "segment_of pts n t = fold (\<lambda>i seg. if fp_ge t (fst (pts ! i)) then i else seg) [0..<n] 0"

definition unit_pos :: "control_point list \<Rightarrow> float32 list \<Rightarrow> nat \<Rightarrow> float32 \<Rightarrow> float32" where
  "unit_pos pts h seg t = fp_clamp (div32 (sub32 t (fst (pts ! seg))) (h ! seg)) (Fin 0) (Fin 1)"

definition eval_scalar :: "float32 \<Rightarrow> cubic \<Rightarrow> float32" where
  "eval_scalar u c =
     fp_clamp (add32 (c0 c) (mul32 u (add32 (c1 c) (mul32 u (add32 (c2 c) (mul32 u (c3 c)))))))
       (Fin 0) (Fin 100)"

text \<open>\<open>maxps\<close> and \<open>minps\<close> return their second operand unless the comparison holds.\<close>

definition maxps :: "float32 \<Rightarrow> float32 \<Rightarrow> float32" where
  "maxps a b = (if fp_gt a b then a else b)"

definition minps :: "float32 \<Rightarrow> float32 \<Rightarrow> float32" where
  "minps a b = (if fp_lt a b then a else b)"

definition eval_avx :: "float32 \<Rightarrow> cubic \<Rightarrow> float32" where
  "eval_avx u c =
     (let r = add32 (c2 c) (mul32 u (c3 c));
          r = add32 (c1 c) (mul32 u r);
          r = add32 (c0 c) (mul32 u r)
      in minps (maxps r (Fin 0)) (Fin 100))"

definition eval_fma :: "float32 \<Rightarrow> cubic \<Rightarrow> float32" where
  "eval_fma u c =
     (let r = fp_fma Binary32 u (c3 c) (c2 c);
          r = fp_fma Binary32 u r (c1 c);
          r = fp_fma Binary32 u r (c0 c)
      in minps (maxps r (Fin 0)) (Fin 100))"

fun eval_at :: "eval_path \<Rightarrow> float32 \<Rightarrow> cubic \<Rightarrow> float32" where
  "eval_at ScalarPath = eval_scalar"
| "eval_at AvxPath = eval_avx"
| "eval_at AvxFmaPath = eval_fma"

definition eval_spline :: "eval_path \<Rightarrow> control_point list \<Rightarrow> float32 list \<Rightarrow> cubic list \<Rightarrow> float32 list" where
  "eval_spline path pts h cs =
     map (\<lambda>k. let t = add32 (Fin 30) (fp_of_int Binary32 (int k)); seg = segment_of pts (length h) t;
                  u = unit_pos pts h seg t
              in eval_at path u (cs ! seg)) [0..<40]"

definition spline_pcts :: "eval_path \<Rightarrow> control_point list \<Rightarrow> float32 list" where
  "spline_pcts path pts =
     (let h = intervals pts; delta = chord_slopes pts;
          m = fritsch_carlson delta (initial_tangents delta)
      in eval_spline path pts h (cubics pts h m) @ [Fin 100])"

text \<open>The table of percentages and levels; nothing for a wrong number of points.\<close>

definition compute_spline_lookup ::
  "eval_path \<Rightarrow> control_point list \<Rightarrow> bool \<Rightarrow> (u8 list \<times> float32 list) option" where
  "compute_spline_lookup path pts allow_fan_stop =
     (if length pts < MIN_POINTS \<or> MAX_POINTS < length pts then None
      else let pcts = spline_pcts path pts
           in Some ((map (\<lambda>x. pct_to_thinkpad_level x allow_fan_stop) pcts)[40 := FAN_LEVEL_FULL_SPEED], pcts))"

section \<open>Curves\<close>

definition sync_fast_lookup :: "nat \<Rightarrow> fan_engine \<Rightarrow> fan_engine" where
  "sync_fast_lookup i e =
     e\<lparr>fe_fast_levels := (fe_fast_levels e)[i := pc_levels (fe_curves e ! i)],
       fe_fast_pcts := (fe_fast_pcts e)[i := pc_pcts (fe_curves e ! i)]\<rparr>"

text \<open>Install points in a profile: the tables overwrite the first 41 of their 48 cells.\<close>

definition install_curve :: "eval_path \<Rightarrow> nat \<Rightarrow> control_point list \<Rightarrow> bool \<Rightarrow> fan_engine \<Rightarrow> fan_engine" where
  "install_curve path i pts custom e =
     (let c = (fe_curves e ! i)\<lparr>pc_points := pts, pc_is_custom := custom\<rparr>;
          c' = (case compute_spline_lookup path pts (i = 3) of
                  None \<Rightarrow> c
                | Some (lv, pc) \<Rightarrow> c\<lparr>pc_levels := lv @ drop LOOKUP_TABLE_SIZE (pc_levels c),
                                     pc_pcts := pc @ drop LOOKUP_TABLE_SIZE (pc_pcts c)\<rparr>)
      in sync_fast_lookup i (e\<lparr>fe_curves := (fe_curves e)[i := c']\<rparr>))"

definition default_points :: "nat \<Rightarrow> control_point list" where
  "default_points i =
     (if i = 0 then [(Fin 30, Fin 20), (Fin 40, Fin 40), (Fin 50, Fin 65), (Fin 60, Fin 85), (Fin 70, Fin 100)]
      else if i = 1 then [(Fin 30, Fin 15), (Fin 40, Fin 25), (Fin 50, Fin 45), (Fin 60, Fin 70), (Fin 70, Fin 100)]
      else if i = 2 then [(Fin 30, Fin 10), (Fin 40, Fin 20), (Fin 50, Fin 35), (Fin 60, Fin 55), (Fin 70, Fin 100)]
      else [(Fin 30, Fin 0), (Fin 40, Fin 0), (Fin 50, Fin 25), (Fin 60, Fin 50), (Fin 70, Fin 100)])"

definition reset_to_defaults :: "eval_path \<Rightarrow> int \<Rightarrow> fan_engine \<Rightarrow> fan_engine" where
  "reset_to_defaults path profile_idx e =
     (let init = (\<lambda>i. install_curve path i (default_points i) False)
      in if profile_idx = 0 \<or> profile_idx = 1 \<or> profile_idx = 2 \<or> profile_idx = 3
         then init (nat profile_idx) e
         else init 3 (init 2 (init 1 (init 0 e))))"

definition blank_curve :: profile_curve where
  "blank_curve = \<lparr>pc_points = [], pc_levels = replicate LOOKUP_PAD 0,
     pc_pcts = replicate LOOKUP_PAD (Fin 0), pc_is_custom = False\<rparr>"

definition fan_engine_new :: "eval_path \<Rightarrow> fan_engine" where
  "fan_engine_new path = reset_to_defaults path (- 1)
     \<lparr>fe_fast_levels = replicate 4 (replicate LOOKUP_PAD 0),
      fe_fast_pcts = replicate 4 (replicate LOOKUP_PAD (Fin 0)),
      fe_curves = replicate 4 blank_curve\<rparr>"

definition temps_increase :: "control_point list \<Rightarrow> bool" where
  "temps_increase pts \<longleftrightarrow> list_all (\<lambda>(p, q). \<not> fp_le (fst q) (fst p)) (zip pts (tl pts))"

definition clamp_points :: "control_point list \<Rightarrow> control_point list" where
  "clamp_points pts =
     (let cl = map (\<lambda>(t, s). (fp_clamp t (Fin 30) (Fin 70), fp_clamp s (Fin 0) (Fin 100))) pts;
          n = length pts;
          front = cl[0 := (Fin 30, snd (cl ! 0))]
      in front[n - 1 := (Fin 70, Fin 100)])"

definition set_profile_curve ::
  "eval_path \<Rightarrow> int \<Rightarrow> control_point list \<Rightarrow> fan_engine \<Rightarrow> bool \<times> fan_engine" where
  "set_profile_curve path profile_idx pts e =
     (if profile_idx < 0 \<or> 3 < profile_idx then (False, e)
      else if length pts < MIN_POINTS \<or> MAX_POINTS < length pts then (False, e)
      else if \<not> temps_increase pts then (False, e)
      else (True, install_curve path (nat profile_idx) (clamp_points pts) True e))"

definition get_profile_curve :: "int \<Rightarrow> fan_engine \<Rightarrow> profile_curve" where
  "get_profile_curve i e = fe_curves e ! nat (if i < 0 \<or> 3 < i then 1 else i)"

definition is_profile_custom :: "int \<Rightarrow> fan_engine \<Rightarrow> bool" where
  "is_profile_custom i e \<longleftrightarrow> \<not> (i < 0 \<or> 3 < i) \<and> pc_is_custom (fe_curves e ! nat i)"

text \<open>
  The queries of the monitoring cycle; a temperature that is not a number reaches the cast,
  where the program's behaviour is undefined.
\<close>

definition get_fan_level_for_temp :: "int \<Rightarrow> float64 \<Rightarrow> fan_engine \<Rightarrow> u8 option" where
  "get_fan_level_for_temp profile_idx t e =
     (let i = nat (if profile_idx < 0 \<or> 3 < profile_idx then 1 else profile_idx)
      in if fp_le t (Fin 0) then Some 0
         else if fp_ge t (Fin 70) then Some FAN_LEVEL_FULL_SPEED
         else if fp_le t (Fin 30) then Some (fe_fast_levels e ! i ! 0)
         else map_option (\<lambda>z. fe_fast_levels e ! i ! nat (z - 30)) (fp_to_i32 t))"

definition get_fan_pct_for_temp :: "int \<Rightarrow> float64 \<Rightarrow> fan_engine \<Rightarrow> float32 option" where
  "get_fan_pct_for_temp profile_idx t e =
     (let i = nat (if profile_idx < 0 \<or> 3 < profile_idx then 1 else profile_idx)
      in if fp_le t (Fin 0) then Some (Fin 0)
         else if fp_ge t (Fin 70) then Some (Fin 100)
         else if fp_le t (Fin 30) then Some (fe_fast_pcts e ! i ! 0)
         else map_option (\<lambda>z. fe_fast_pcts e ! i ! nat (z - 30)) (fp_to_i32 t))"

section \<open>The text form\<close>

text \<open>\<open>%.1f\<close>: the exact value rounded to one decimal, ties to even.\<close>

definition show_fixed1 :: "fp \<Rightarrow> string" where
  "show_fixed1 x =
     (case x of
        Fin r \<Rightarrow> (let z = round_half_even (r * 10); n = nat \<bar>z\<bar>
                  in (if r < 0 then ''-'' else []) @ show_nat (n div 10) @ ''.'' @ show_nat (n mod 10))
      | PInf \<Rightarrow> ''inf'' | NInf \<Rightarrow> ''-inf'' | NaN \<Rightarrow> ''nan'')"

definition point_line :: "nat \<Rightarrow> control_point \<Rightarrow> string" where
  "point_line i p = ''PT_'' @ show_nat i @ ''='' @ show_fixed1 (fst p) @ '','' @ show_fixed1 (snd p) @ [NL]"

definition profile_text :: "nat \<Rightarrow> profile_curve \<Rightarrow> string" where
  "profile_text p c =
     ''PROFILE_'' @ show_nat p @ ''_POINTS='' @ show_nat (length (pc_points c)) @ [NL] @
     ''PROFILE_'' @ show_nat p @ ''_CUSTOM='' @ (if pc_is_custom c then ''1'' else ''0'') @ [NL] @
     concat (map (\<lambda>i. point_line i (pc_points c ! i)) [0..<length (pc_points c)])"

definition serialize_curves :: "fan_engine \<Rightarrow> string" where
  "serialize_curves e = concat (map (\<lambda>p. profile_text p (fe_curves e ! p)) [0..<4])"

text \<open>\<open>sscanf(line, "PROFILE_%d_POINTS=%d", ...)\<close> and its two companions.\<close>

definition scan_header :: "string \<Rightarrow> string \<Rightarrow> (i32 \<times> i32) option" where
  "scan_header leaf s = do {
     s \<leftarrow> scan_lit ''PROFILE_'' s; (a, s) \<leftarrow> scan_int s; s \<leftarrow> scan_lit leaf s;
     (b, _) \<leftarrow> scan_int s; Some (a, b) }"

definition scan_point :: "string \<Rightarrow> control_point option" where
  "scan_point s = do {
     s \<leftarrow> scan_lit ''PT_'' s; (_, s) \<leftarrow> scan_int s; s \<leftarrow> scan_lit ''='' s;
     (t, s) \<leftarrow> scan_float s; s \<leftarrow> scan_lit '','' s; (v, _) \<leftarrow> scan_float s; Some (t, v) }"

definition strip_cr :: "string \<Rightarrow> string" where
  "strip_cr line = (if line \<noteq> [] \<and> last line = CR then butlast line else line)"

text \<open>
  What the inner loop makes of one line: skip it, take a custom flag or a point, or stop
  because the next profile starts.
\<close>

datatype point_line_kind = SkipLine | CustomLine i32 | PointLine control_point | NextProfile

definition classify_line :: "i32 \<Rightarrow> string \<Rightarrow> point_line_kind" where
  "classify_line prof line =
     (if line = [] \<or> 128 \<le> length line then SkipLine
      else let buf = c_str line; custom = scan_header ''_CUSTOM='' buf
           in if custom \<noteq> None \<and> fst (the custom) = prof then CustomLine (snd (the custom))
              else case scan_point buf of
                     Some pt \<Rightarrow> PointLine pt
                   | None \<Rightarrow> if starts_with buf ''PROFILE_'' then NextProfile else SkipLine)"

fun parse_points :: "i32 \<Rightarrow> nat \<Rightarrow> string \<Rightarrow> control_point list \<Rightarrow> i32 \<Rightarrow> control_point list \<times> i32 \<times> string" where
  "parse_points prof need data pts flag =
     (if data = [] \<or> need \<le> length pts then (pts, flag, data)
      else case classify_line prof (strip_cr (take_line data)) of
             SkipLine \<Rightarrow> parse_points prof need (drop_line data) pts flag
           | CustomLine v \<Rightarrow> parse_points prof need (drop_line data) pts v
           | PointLine pt \<Rightarrow> parse_points prof need (drop_line data) (pts @ [pt]) flag
           | NextProfile \<Rightarrow> (pts, flag, data))"

declare parse_points.simps [simp del]

lemma parse_points_rest: "length (snd (snd (parse_points prof need data pts flag))) \<le> length data"
proof (induction prof need data pts flag rule: parse_points.induct)
  case (1 prof need data pts flag)
  show ?case
  proof (cases "data = [] \<or> need \<le> length pts")
    case True
    then show ?thesis by (subst parse_points.simps) simp
  next
    case False
    then have "length (drop_line data) \<le> length data"
      using length_drop_line [of data] by simp
    then show ?thesis
      using 1 False
      by (subst parse_points.simps) (auto split: point_line_kind.splits intro: order_trans)
  qed
qed

definition set_custom_flag :: "nat \<Rightarrow> bool \<Rightarrow> fan_engine \<Rightarrow> fan_engine" where
  "set_custom_flag i b e = e\<lparr>fe_curves := (fe_curves e)[i := (fe_curves e ! i)\<lparr>pc_is_custom := b\<rparr>]\<rparr>"

text \<open>One profile block of the outer loop: the engine, the count, and where to go on.\<close>

definition read_profile ::
  "eval_path \<Rightarrow> i32 \<Rightarrow> i32 \<Rightarrow> string \<Rightarrow> fan_engine \<times> nat \<Rightarrow> (fan_engine \<times> nat) \<times> string" where
  "read_profile path prof cnt data st =
     (if 0 \<le> prof \<and> prof \<le> 3 \<and> int MIN_POINTS \<le> cnt \<and> cnt \<le> int MAX_POINTS
      then let (pts, flag, rest) = parse_points prof (nat cnt) data [] 1; (e, parsed) = st
           in if length pts = nat cnt
              then let (ok, e') = set_profile_curve path prof pts e
                   in (if ok then (set_custom_flag (nat prof) (flag \<noteq> 0) e', parsed + 1) else (e', parsed), rest)
              else (st, rest)
      else (st, data))"

lemma read_profile_rest: "length (snd (read_profile path prof cnt data st)) \<le> length data"
  using parse_points_rest [of prof "nat cnt" data "[]" 1]
  by (auto simp: read_profile_def Let_def split: prod.splits)

function parse_curves :: "eval_path \<Rightarrow> string \<Rightarrow> fan_engine \<times> nat \<Rightarrow> fan_engine \<times> nat" where
  "parse_curves path data st =
     (if data = [] then st
      else let line = strip_cr (take_line data); rest = drop_line data
           in if line = [] \<or> 128 \<le> length line then parse_curves path rest st
              else case scan_header ''_POINTS='' (c_str line) of
                None \<Rightarrow> parse_curves path rest st
              | Some (prof, cnt) \<Rightarrow>
                  parse_curves path (snd (read_profile path prof cnt rest st)) (fst (read_profile path prof cnt rest st)))"
  by pat_completeness auto

termination
  by (relation "measure (\<lambda>(_, data, _). length data)")
    (auto simp: length_drop_line intro: le_less_trans [OF read_profile_rest])

declare parse_curves.simps [simp del]

definition deserialize_curves :: "eval_path \<Rightarrow> string \<Rightarrow> fan_engine \<Rightarrow> bool \<times> fan_engine" where
  "deserialize_curves path data e =
     (if data = [] then (False, e) else let (e', n) = parse_curves path data (e, 0) in (0 < n, e'))"

section \<open>Files\<close>

definition DEFAULT_CONFIG_PATH :: string where
  "DEFAULT_CONFIG_PATH = ''/var/lib/wattcurb/fan_curves.conf''"

definition FALLBACK_CONFIG_PATH :: string where
  "FALLBACK_CONFIG_PATH = ''/etc/wattcurb/fan_curves.conf''"

text \<open>The directories above a file, outermost first.\<close>

definition dir_part :: "string \<Rightarrow> string option" where
  "dir_part p =
     (if CHR ''/'' \<in> set p then Some (rev (drop 1 (dropWhile (\<lambda>c. c \<noteq> CHR ''/'') (rev p)))) else None)"

definition dir_prefixes :: "string \<Rightarrow> string list" where
  "dir_prefixes dir =
     map (\<lambda>i. take i dir) (filter (\<lambda>i. i = length dir \<or> dir ! i = CHR ''/'') [1..<length dir + 1])"

definition ensure_dir_exists :: "kernel \<Rightarrow> string \<Rightarrow> bool io" where
  "ensure_dir_exists k file_path =
     (if file_path = [] then return_io False
      else case dir_part file_path of None \<Rightarrow> return_io True
      | Some dir \<Rightarrow>
          (if dir = [] then return_io True
           else do {
             io_for (\<lambda>_. True) (\<lambda>sub _. do {
               st \<leftarrow> sys_stat k sub;
               if st = None then do { sys_mkdir k sub; return_io () } else return_io () }) (dir_prefixes dir) ();
             return_io True }))"

definition resolve_user_config_path :: "kernel \<Rightarrow> string io" where
  "resolve_user_config_path k = do {
     env \<leftarrow> sys_getenv k ''HOME'';
     home \<leftarrow> (case env of Some h \<Rightarrow> if h = [] then sys_pw_dir k else return_io (Some h)
              | None \<Rightarrow> sys_pw_dir k);
     return_io (case home of Some h \<Rightarrow> if h = [] then [] else h @ ''/.config/wattcurb/fan_curves.conf''
                | None \<Rightarrow> [])
   }"

definition try_load :: "eval_path \<Rightarrow> kernel \<Rightarrow> string \<Rightarrow> fan_engine \<Rightarrow> (bool \<times> fan_engine) io" where
  "try_load path k file e =
     (if file = [] then return_io (False, e)
      else do {
        r \<leftarrow> sys_read_file k file 65537;
        return_io (case r of None \<Rightarrow> (False, e)
          | Some buf \<Rightarrow> if buf = [] \<or> 65536 < length buf then (False, e) else deserialize_curves path buf e)
      })"

definition load_from_file :: "eval_path \<Rightarrow> kernel \<Rightarrow> string \<Rightarrow> fan_engine \<Rightarrow> (bool \<times> fan_engine) io" where
  "load_from_file path k file e =
     (if file \<noteq> [] then try_load path k file e
      else do {
        iso \<leftarrow> sys_getenv k ''WATTCURB_TEST_ISOLATE'';
        if iso \<noteq> None then return_io (False, e)
        else do {
          (ok, e) \<leftarrow> try_load path k DEFAULT_CONFIG_PATH e;
          if ok then return_io (True, e)
          else do {
            (ok, e) \<leftarrow> try_load path k FALLBACK_CONFIG_PATH e;
            if ok then return_io (True, e)
            else do {
              user \<leftarrow> resolve_user_config_path k;
              if user = [] then return_io (False, e) else try_load path k user e
            }}}})"

definition try_save :: "kernel \<Rightarrow> string \<Rightarrow> fan_engine \<Rightarrow> bool io" where
  "try_save k file e =
     (if file = [] then return_io False
      else do {
        ensure_dir_exists k file;
        ok \<leftarrow> sys_open_write k file;
        if \<not> ok then return_io False
        else do {
          let content = serialize_curves e;
          w \<leftarrow> sys_write k file content;
          return_io (w = int (length content))
        }})"

definition save_to_file :: "kernel \<Rightarrow> string \<Rightarrow> fan_engine \<Rightarrow> bool io" where
  "save_to_file k file e =
     (if file \<noteq> [] then try_save k file e
      else do {
        iso \<leftarrow> sys_getenv k ''WATTCURB_TEST_ISOLATE'';
        if iso \<noteq> None then return_io False
        else do {
          ok \<leftarrow> try_save k DEFAULT_CONFIG_PATH e;
          if ok then return_io True
          else do {
            user \<leftarrow> resolve_user_config_path k;
            if user = [] then return_io False else try_save k user e
          }}})"

definition initialize :: "eval_path \<Rightarrow> kernel \<Rightarrow> fan_engine \<Rightarrow> fan_engine io" where
  "initialize path k e = do {
     (ok, e') \<leftarrow> load_from_file path k [] e;
     return_io (if ok then e' else reset_to_defaults path (- 1) e')
   }"

section \<open>Invariant\<close>

lemma length_spline_pcts: "length (spline_pcts path pts) = 41"
  by (simp add: spline_pcts_def eval_spline_def Let_def)

lemma level_range:
  "pct_to_thinkpad_level x stop \<le> 8"
  by (auto simp: pct_to_thinkpad_level_def FAN_LEVEL_FULL_SPEED_def)

lemma level_range_pos: "1 \<le> pct_to_thinkpad_level x False"
  by (auto simp: pct_to_thinkpad_level_def FAN_LEVEL_FULL_SPEED_def)

text \<open>A table of profile \<open>i\<close>: full size, levels in range, full speed at 70 degrees, and no
  stopped fan except in the last profile.\<close>

definition levels_ok :: "nat \<Rightarrow> u8 list \<Rightarrow> bool" where
  "levels_ok i lv \<longleftrightarrow> length lv = LOOKUP_PAD \<and> lv ! 40 = FAN_LEVEL_FULL_SPEED \<and>
     (\<forall>j < LOOKUP_TABLE_SIZE. lv ! j \<le> 8 \<and> (i \<noteq> 3 \<longrightarrow> 1 \<le> lv ! j))"

definition fe_shape :: "fan_engine \<Rightarrow> bool" where
  "fe_shape e \<longleftrightarrow> length (fe_fast_levels e) = 4 \<and> length (fe_fast_pcts e) = 4 \<and> length (fe_curves e) = 4 \<and>
     (\<forall>i < 4. length (pc_levels (fe_curves e ! i)) = LOOKUP_PAD)"

definition fe_ok :: "fan_engine \<Rightarrow> bool" where
  "fe_ok e \<longleftrightarrow> fe_shape e \<and> (\<forall>i < 4. levels_ok i (fe_fast_levels e ! i))"

lemma compute_spline_lookup_ok:
  assumes "compute_spline_lookup path pts (i = 3) = Some (lv, pc)" and "length rest = LOOKUP_PAD"
  shows "levels_ok i (lv @ drop LOOKUP_TABLE_SIZE rest)"
proof -
  have lv: "lv = (map (\<lambda>x. pct_to_thinkpad_level x (i = 3)) (spline_pcts path pts))[40 := FAN_LEVEL_FULL_SPEED]"
    using assms(1) by (auto simp: compute_spline_lookup_def Let_def split: if_splits)
  have len: "length lv = 41" by (simp add: lv length_spline_pcts)
  have "lv ! j \<le> 8 \<and> (i \<noteq> 3 \<longrightarrow> 1 \<le> lv ! j)" if "j < 41" for j
    using that level_range level_range_pos by (cases "j = 40")
      (auto simp: lv length_spline_pcts FAN_LEVEL_FULL_SPEED_def)
  moreover have "lv ! 40 = FAN_LEVEL_FULL_SPEED" by (simp add: lv length_spline_pcts)
  ultimately show ?thesis
    using assms(2) len by (auto simp: levels_ok_def nth_append)
qed

lemma compute_spline_lookup_total:
  "MIN_POINTS \<le> length pts \<Longrightarrow> length pts \<le> MAX_POINTS \<Longrightarrow>
   \<exists>lv pc. compute_spline_lookup path pts stop = Some (lv, pc)"
  by (simp add: compute_spline_lookup_def Let_def)

lemma install_curve_fields:
  assumes "fe_shape e" and "i < 4" and "MIN_POINTS \<le> length pts" and "length pts \<le> MAX_POINTS"
  shows "fe_shape (install_curve path i pts custom e)"
    and "levels_ok i (fe_fast_levels (install_curve path i pts custom e) ! i)"
    and "j \<noteq> i \<Longrightarrow> fe_fast_levels (install_curve path i pts custom e) ! j = fe_fast_levels e ! j"
proof -
  obtain lv pc where c: "compute_spline_lookup path pts (i = 3) = Some (lv, pc)"
    using compute_spline_lookup_total assms(3,4) by blast
  have len: "length (pc_levels (fe_curves e ! i)) = LOOKUP_PAD" using assms(1,2) by (simp add: fe_shape_def)
  note lo = compute_spline_lookup_ok [OF c len]
  show "fe_shape (install_curve path i pts custom e)"
    using assms(1,2) lo
    by (auto simp: install_curve_def Let_def c fe_shape_def sync_fast_lookup_def nth_list_update levels_ok_def)
  show "levels_ok i (fe_fast_levels (install_curve path i pts custom e) ! i)"
    using assms(1,2) lo by (simp add: install_curve_def Let_def c fe_shape_def sync_fast_lookup_def)
  show "j \<noteq> i \<Longrightarrow> fe_fast_levels (install_curve path i pts custom e) ! j = fe_fast_levels e ! j"
    by (simp add: install_curve_def Let_def c sync_fast_lookup_def)
qed

lemma fe_ok_install:
  "fe_ok e \<Longrightarrow> i < 4 \<Longrightarrow> MIN_POINTS \<le> length pts \<Longrightarrow> length pts \<le> MAX_POINTS \<Longrightarrow>
   fe_ok (install_curve path i pts custom e)"
  unfolding fe_ok_def using install_curve_fields [of e i pts] by metis

lemma length_default_points: "length (default_points i) = 5"
  by (simp add: default_points_def)

lemma less_4_cases: "(i :: nat) < 4 \<longleftrightarrow> i = 0 \<or> i = 1 \<or> i = 2 \<or> i = 3"
  by auto

lemma fe_ok_new [intro]: "fe_ok (fan_engine_new path)"
proof -
  have step: "fe_shape (install_curve path i (default_points i) False e) \<and>
      levels_ok i (fe_fast_levels (install_curve path i (default_points i) False e) ! i) \<and>
      (\<forall>j. j \<noteq> i \<longrightarrow> fe_fast_levels (install_curve path i (default_points i) False e) ! j = fe_fast_levels e ! j)"
    if "fe_shape e" "i < 4" for e i
    using install_curve_fields [OF that] length_default_points by simp
  define e0 :: fan_engine where "e0 = \<lparr>fe_fast_levels = replicate 4 (replicate LOOKUP_PAD 0),
      fe_fast_pcts = replicate 4 (replicate LOOKUP_PAD (Fin 0)), fe_curves = replicate 4 blank_curve\<rparr>"
  have s0: "fe_shape e0" by (simp add: e0_def fe_shape_def blank_curve_def)
  note s1 = step [OF s0, of 0]
  note s2 = step [OF conjunct1 [OF s1], of 1]
  note s3 = step [OF conjunct1 [OF s2], of 2]
  note s4 = step [OF conjunct1 [OF s3], of 3]
  show ?thesis
    using s1 s2 s3 s4 by (auto simp: fan_engine_new_def reset_to_defaults_def Let_def fe_ok_def less_4_cases e0_def [symmetric])
qed

lemma fe_ok_reset [intro]: "fe_ok e \<Longrightarrow> fe_ok (reset_to_defaults path i e)"
  by (auto simp: reset_to_defaults_def Let_def length_default_points intro!: fe_ok_install)

lemma length_clamp_points [simp]: "length (clamp_points pts) = length pts"
  by (simp add: clamp_points_def Let_def)

lemma fe_ok_set_profile_curve: "fe_ok e \<Longrightarrow> fe_ok (snd (set_profile_curve path i pts e))"
  by (auto simp: set_profile_curve_def intro!: fe_ok_install)

lemma fe_ok_set_custom_flag: "fe_ok e \<Longrightarrow> fe_ok (set_custom_flag i b e)"
  by (cases "i < length (fe_curves e)")
    (auto simp: fe_ok_def fe_shape_def set_custom_flag_def nth_list_update)

lemma fe_ok_read_profile: "fe_ok (fst st) \<Longrightarrow> fe_ok (fst (fst (read_profile path prof cnt data st)))"
  using fe_ok_set_profile_curve [of "fst st" path prof] fe_ok_set_custom_flag
  by (auto simp: read_profile_def Let_def split: prod.splits) (metis snd_conv)+

lemma fe_ok_parse_curves: "fe_ok (fst st) \<Longrightarrow> fe_ok (fst (parse_curves path data st))"
proof (induction path data st rule: parse_curves.induct)
  case (1 path data st)
  then show ?case
    using fe_ok_read_profile [of st]
    by (subst parse_curves.simps) (auto simp: Let_def split: option.splits)
qed

lemma fe_ok_deserialize [intro]: "fe_ok e \<Longrightarrow> fe_ok (snd (deserialize_curves path data e))"
  using fe_ok_parse_curves [of "(e, 0)" path data]
  by (auto simp: deserialize_curves_def split: prod.splits)

section \<open>Properties\<close>

text \<open>What can happen to an engine: an edit from a client, a reset, a stored text.\<close>

datatype fan_op = SetCurve int "control_point list" | ResetCurve int | LoadText string

fun fan_apply :: "eval_path \<Rightarrow> fan_op \<Rightarrow> fan_engine \<Rightarrow> fan_engine" where
  "fan_apply path (SetCurve i pts) e = snd (set_profile_curve path i pts e)"
| "fan_apply path (ResetCurve i) e = reset_to_defaults path i e"
| "fan_apply path (LoadText data) e = snd (deserialize_curves path data e)"

lemma fe_ok_ops: "fe_ok e \<Longrightarrow> fe_ok (fold (fan_apply path) ops e)"
proof (induction ops arbitrary: e)
  case (Cons op ops)
  then have "fe_ok (fan_apply path op e)"
    by (cases op) (auto intro: fe_ok_set_profile_curve)
  with Cons.IH show ?case by simp
qed simp

lemma floor_table_index:
  "30 < t \<Longrightarrow> t < (70 :: rat) \<Longrightarrow> fp_to_i32 (Fin t) = Some \<lfloor>t\<rfloor> \<and> nat (\<lfloor>t\<rfloor> - 30) < 40"
proof -
  assume t: "30 < t" "t < 70"
  then have "30 \<le> \<lfloor>t\<rfloor>" and u: "\<lfloor>t\<rfloor> < 70" by (simp_all add: le_floor_iff floor_less_iff)
  moreover have "rat_trunc t = \<lfloor>t\<rfloor>" using t by (simp add: rat_trunc_def)
  moreover have "nat (\<lfloor>t\<rfloor> - 30) < 40" using u by arith
  ultimately show ?thesis by simp
qed

text \<open>C5. Whatever curves a client sets or a file holds, a warm machine is cooled: for every
  positive temperature the query returns a level up to 8, at 70 degrees and above it is full
  speed, and outside the UltraEndurance profile the fan is never stopped.\<close>

theorem fan_query_safe:
  assumes "0 < t"
  shows "\<exists>l. get_fan_level_for_temp i (Fin t) (fold (fan_apply path) ops (fan_engine_new path)) = Some l \<and>
    l \<le> 8 \<and> (70 \<le> t \<longrightarrow> l = FAN_LEVEL_FULL_SPEED) \<and> (i \<noteq> 3 \<longrightarrow> 1 \<le> l)"
proof -
  define e where "e = fold (fan_apply path) ops (fan_engine_new path)"
  define p where "p = nat (if i < 0 \<or> 3 < i then 1 else i)"
  have p: "p < 4" "i \<noteq> 3 \<longrightarrow> p \<noteq> 3" by (auto simp: p_def)
  have "levels_ok p (fe_fast_levels e ! p)"
    using fe_ok_ops [OF fe_ok_new, of path ops path] p(1) by (simp add: fe_ok_def e_def)
  then have lv: "fe_fast_levels e ! p ! j \<le> 8 \<and> (i \<noteq> 3 \<longrightarrow> 1 \<le> fe_fast_levels e ! p ! j)" if "j < 41" for j
    using that p(2) by (auto simp: levels_ok_def)
  consider "70 \<le> t" | "t \<le> 30" | "30 < t" "t < 70" by linarith
  then show ?thesis
  proof cases
    case 1
    then show ?thesis using assms by (simp add: get_fan_level_for_temp_def FAN_LEVEL_FULL_SPEED_def)
  next
    case 2
    then show ?thesis
      using assms lv [of 0] by (simp add: get_fan_level_for_temp_def e_def [symmetric] p_def [symmetric])
  next
    case 3
    then show ?thesis
      using floor_table_index [OF 3] lv [of "nat (\<lfloor>t\<rfloor> - 30)"]
      by (simp add: get_fan_level_for_temp_def e_def [symmetric] p_def [symmetric] del: fp_to_int.simps)
  qed
qed

theorem fan_query_safe_witness:
  "\<exists>l. get_fan_level_for_temp 0 (Fin 82)
     (fold (fan_apply ScalarPath) [SetCurve 0 [(Fin 30, Fin 0), (Fin 70, Fin 20)]] (fan_engine_new ScalarPath)) = Some l \<and>
     l = FAN_LEVEL_FULL_SPEED"
  using fan_query_safe [of 82 0 ScalarPath "[SetCurve 0 [(Fin 30, Fin 0), (Fin 70, Fin 20)]]"] by auto

text \<open>The vector routine without fused multiply-add computes what the scalar routine computes,
  except that a NaN becomes zero percent where the scalar routine keeps it.\<close>

theorem vector_spline_agrees:
  "eval_at AvxPath u c =
     (if eval_at ScalarPath u c = NaN then Fin 0 else eval_at ScalarPath u c)"
proof -
  define r where "r = add32 (c0 c) (mul32 u (add32 (c1 c) (mul32 u (add32 (c2 c) (mul32 u (c3 c))))))"
  have s: "eval_at ScalarPath u c = fp_clamp r (Fin 0) (Fin 100)"
    by (simp add: eval_scalar_def r_def)
  have a: "eval_at AvxPath u c = minps (maxps r (Fin 0)) (Fin 100)"
    by (simp add: eval_avx_def r_def Let_def)
  show ?thesis
    unfolding s a by (cases r) (auto simp: fp_clamp_def maxps_def minps_def)
qed

end
