(* ===== verification/Platform.thy ===== *)
theory Platform
  imports Fan_Curve
begin

text \<open>
  The profile policy and the platform limits of the mitigation engine
  (\<^verbatim>\<open>src/policy/mitigation_engine.cpp\<close>): which power profile is in force, the CPU frequency
  ceiling, the fan, and the SMU power limits with their verification.  The captured hardware
  baseline and the file's static counters are the record \<open>platform\<close>.
\<close>

section \<open>The profile in force\<close>

record demotion_latch =
  crossed_30 :: bool
  crossed_20 :: bool

definition rearm_latch :: "bool \<Rightarrow> float64 \<Rightarrow> demotion_latch \<Rightarrow> demotion_latch" where
  "rearm_latch on_battery pct l =
     (let l1 = (if \<not> on_battery \<or> fp_gt pct (Fin 35) then l\<lparr>crossed_30 := False\<rparr> else l)
      in if \<not> on_battery \<or> fp_gt pct (Fin 25) then l1\<lparr>crossed_20 := False\<rparr> else l1)"

definition resolve_profile ::
  "power_profile \<Rightarrow> bool \<Rightarrow> float64 \<Rightarrow> demotion_latch \<Rightarrow> power_profile \<times> demotion_latch" where
  "resolve_profile current on_battery pct l =
     (let l = rearm_latch on_battery pct l
      in if \<not> on_battery then (current, l)
         else if fp_le pct (Fin 5) then (UltraEndurance, l)
         else
           let hit20 = fp_le pct (Fin 20) \<and> \<not> crossed_20 l;
               l' = (if hit20 then l\<lparr>crossed_20 := True, crossed_30 := True\<rparr> else l)
           in if hit20 \<and> current < PowerSaver then (PowerSaver, l')
              else
                let hit30 = fp_le pct (Fin 30) \<and> \<not> crossed_30 l';
                    l'' = (if hit30 then l'\<lparr>crossed_30 := True\<rparr> else l')
                in if hit30 \<and> current = Performance then (Balanced, l'') else (current, l''))"

record profile_state =
  ps_override :: "power_profile option"
  ps_current :: power_profile
  ps_latch :: demotion_latch

definition determine_profile :: "bool \<Rightarrow> float64 \<Rightarrow> profile_state \<Rightarrow> power_profile \<times> profile_state" where
  "determine_profile on_battery pct s =
     (let current = (case ps_override s of Some m \<Rightarrow> m | None \<Rightarrow> ps_current s);
          (target, l) = resolve_profile current on_battery pct (ps_latch s);
          s' = s\<lparr>ps_latch := l\<rparr>
      in (target, if ps_override s \<noteq> None \<and> Some target \<noteq> ps_override s
                  then s'\<lparr>ps_override := Some target\<rparr> else s'))"

section \<open>Pure decisions\<close>

text \<open>\<open>static_cast<uint64_t>\<close> of a product in doubles; the guards keep it in range.\<close>

definition is_frequency_starved :: "u64 \<Rightarrow> u64 \<Rightarrow> float64 \<Rightarrow> i32 \<Rightarrow> bool option" where
  "is_frequency_starved observed_max_khz hw_max_khz load1 ncpu =
     (if hw_max_khz = 0 \<or> ncpu \<le> 0 then Some False
      else if fp_lt load1 (mul64 (lit64 (1 / 4)) (fp_of_int Binary64 ncpu)) then Some False
      else map_option (\<lambda>lim. observed_max_khz < lim)
             (fp_to_u64 (mul64 (lit64 (85 / 100)) (fp_of_u64 Binary64 hw_max_khz))))"

definition builder_names :: "string list" where
  "builder_names = [''gcc'', ''g++'', ''clang'', ''clang++'', ''rustc'', ''cargo'', ''ninja'', ''make'',
     ''python3'', ''python'', ''node'', ''java'', ''ffmpeg'', ''as'', ''ld'']"

definition builder_prefixes :: "string list" where
  "builder_prefixes = [''cc1'', ''rust-lld'', ''Isolated Web Co'']"

definition is_heavy_compute_candidate :: "proc_power \<Rightarrow> bool" where
  "is_heavy_compute_candidate p =
     (if pp_pid p \<le> 1 then False
      else if pp_safety_tier p = tier_code CriticalImmune \<or> pp_safety_tier p = tier_code DesktopCore then False
      else let comm = c_str (pp_comm p)
      in if list_ex (starts_with comm) [''wattcurb'', ''pipewire'', ''wireplumber''] then False
      else if named builder_names builder_prefixes comm \<and>
              (fp_gt (pp_cpu_watts p) (lit64 (4 / 10)) \<or> 2 \<le> pp_num_threads p) then True
      else if fp_gt (pp_cpu_watts p) (lit64 (8 / 10)) then True
      else if 4 \<le> pp_num_threads p \<and> fp_gt (pp_cpu_watts p) (lit64 (1 / 4)) then True
      else fp_gt (pp_wdi_score p) (Fin 4) \<and> fp_gt (pp_cpu_watts p) (lit64 (2 / 10)))"

definition pci_class_allows_runtime_pm :: "u32 \<Rightarrow> bool \<Rightarrow> bool" where
  "pci_class_allows_runtime_pm pci_class audio_active =
     (let cc = and (drop_bit 16 pci_class) 0xFF; ss = and (drop_bit 8 pci_class) 0xFF
      in if cc = 0x02 then True
         else if cc = 0x08 \<and> ss = 0x05 then True
         else if cc = 0x04 then \<not> audio_active
         else False)"

definition is_shell_safe_char :: "char \<Rightarrow> bool" where
  "is_shell_safe_char c \<longleftrightarrow>
     (let b = byte_of c
      in (65 \<le> b \<and> b \<le> 90) \<or> (97 \<le> b \<and> b \<le> 122) \<or> (48 \<le> b \<and> b \<le> 57) \<or>
         c = CHR ''.'' \<or> c = CHR ''_'' \<or> c = CHR ''-'')"

definition is_safe_wayland_component :: "string \<Rightarrow> bool" where
  "is_safe_wayland_component s \<longleftrightarrow> s \<noteq> [] \<and> list_all is_shell_safe_char s"

definition is_safe_run_user_dir :: "string \<Rightarrow> bool" where
  "is_safe_run_user_dir s \<longleftrightarrow>
     starts_with s ''/run/user/'' \<and> drop 10 s \<noteq> [] \<and> list_all is_digit (drop 10 s)"

section \<open>State\<close>

record platform =
  pl_hw_max_freq_khz :: u32
  pl_ceiling_assertions :: u64
  pl_fan_level_baseline :: string
  pl_fan_level_modified :: bool
  pl_last_fan_level :: int
  pl_fan_applications :: u64
  pl_smu_stapm_mw :: u32
  pl_smu_fast_mw :: u32
  pl_smu_slow_mw :: u32
  pl_smu_apu_slow_mw :: u32
  pl_smu_tctl_c :: u32
  pl_smu_limits_modified :: bool
  pl_ryzenadj :: "string option"
  pl_ryzenadj_checked :: bool
  pl_tctl_clamp_reported :: bool
  pl_clawback_reported :: bool

definition platform_init :: platform where
  "platform_init = \<lparr>pl_hw_max_freq_khz = 0, pl_ceiling_assertions = 0,
     pl_fan_level_baseline = ''auto'', pl_fan_level_modified = False, pl_last_fan_level = - 1,
     pl_fan_applications = 0, pl_smu_stapm_mw = 0, pl_smu_fast_mw = 0, pl_smu_slow_mw = 0,
     pl_smu_apu_slow_mw = 0, pl_smu_tctl_c = 0, pl_smu_limits_modified = False,
     pl_ryzenadj = None, pl_ryzenadj_checked = False, pl_tctl_clamp_reported = False,
     pl_clawback_reported = False\<rparr>"

section \<open>The CPU frequency ceiling\<close>

definition cpufreq_path :: "int \<Rightarrow> string \<Rightarrow> string" where
  "cpufreq_path i leaf = ''/sys/devices/system/cpu/cpu'' @ show_int i @ ''/cpufreq/'' @ leaf"

text \<open>\<open>static_cast<uint32_t>(strtoul(...))\<close> of a small file; nothing when it is unreadable or empty.\<close>

definition read_u32_file :: "kernel \<Rightarrow> string \<Rightarrow> nat \<Rightarrow> u32 option io" where
  "read_u32_file k path len = do {
     r \<leftarrow> read_small_file k path len;
     return_io (case r of None \<Rightarrow> None
                | Some s \<Rightarrow> if s = [] then None else Some (ucast (fst (strtoul (c_str s)))))
   }"

definition set_cpu_boost :: "globals \<Rightarrow> kernel \<Rightarrow> bool \<Rightarrow> bool io" where
  "set_cpu_boost g k enable =
     write_file g k ''/sys/devices/system/cpu/cpufreq/boost'' (if enable then ''1'' @ [NL] else ''0'' @ [NL])"

definition assert_cpu_ceiling_one :: "globals \<Rightarrow> kernel \<Rightarrow> u32 \<Rightarrow> int \<Rightarrow> bool \<Rightarrow> bool io" where
  "assert_cpu_ceiling_one g k hw_max i repaired = do {
     cur \<leftarrow> read_u32_file k (cpufreq_path i ''scaling_max_freq'') 31;
     if (case cur of Some v \<Rightarrow> hw_max \<le> v | None \<Rightarrow> False) then return_io repaired
     else do {
       w \<leftarrow> write_file g k (cpufreq_path i ''scaling_max_freq'') (show_nat (unat hw_max) @ [NL]);
       return_io (w \<or> repaired)
     }
   }"

definition assert_unrestricted_cpu_ceiling :: "globals \<Rightarrow> kernel \<Rightarrow> platform \<Rightarrow> (bool \<times> platform) io" where
  "assert_unrestricted_cpu_ceiling g k pl = do {
     let pl = pl\<lparr>pl_ceiling_assertions := pl_ceiling_assertions pl + 1\<rparr>;
     hw_max \<leftarrow> (if pl_hw_max_freq_khz pl = 0
        then do { v \<leftarrow> read_u32_file k (cpufreq_path 0 ''cpuinfo_max_freq'') 31;
                  return_io (case v of Some v \<Rightarrow> v | None \<Rightarrow> 0) }
        else return_io (pl_hw_max_freq_khz pl));
     if hw_max = 0 then return_io (False, pl)
     else do {
       repaired \<leftarrow> io_for (\<lambda>_. True) (assert_cpu_ceiling_one g k hw_max)
                     (map int [0..<min 256 (nat (total_online_cpus k))]) False;
       set_cpu_boost g k True;
       return_io (repaired, pl)
     }
   }"

definition set_cpu_scaling_max_freq :: "globals \<Rightarrow> kernel \<Rightarrow> u32 \<Rightarrow> bool io" where
  "set_cpu_scaling_max_freq g k khz = do {
     m \<leftarrow> read_u32_file k (cpufreq_path 0 ''cpuinfo_min_freq'') 32;
     let khz = (case m of Some hw_min \<Rightarrow> if 0 < hw_min \<and> khz < hw_min then hw_min else khz | None \<Rightarrow> khz);
     if khz = 0 then return_io False
     else do {
       m \<leftarrow> read_u32_file k (cpufreq_path 0 ''cpuinfo_min_freq'') 31;
       let hw_min = (case m of Some v \<Rightarrow> v | None \<Rightarrow> 0);
       let target = (if 0 < hw_min \<and> khz < hw_min then hw_min else khz);
       io_for (\<lambda>_. True) (\<lambda>i any. do {
           w \<leftarrow> write_file g k (cpufreq_path i ''scaling_max_freq'') (show_nat (unat target) @ [NL]);
           return_io (w \<or> any) })
         (map int [0..<nat (total_online_cpus k)]) False
     }
   }"

section \<open>The fan\<close>

abbreviation "FULL_SPEED \<equiv> (8 :: int)"

text \<open>The common curve: \<open>-1\<close> without a reading; a NaN temperature reaches the undefined cast.\<close>

definition fan_level_for_temp :: "float64 \<Rightarrow> float64 \<Rightarrow> int option" where
  "fan_level_for_temp t full =
     (if fp_le t (Fin 0) then Some (- 1)
      else let full = (if \<not> fp_gt full (Fin 35) then Fin 60 else full)
      in if fp_ge t full then Some FULL_SPEED
      else if fp_le t (Fin 35) then Some 1
      else let min_frac = lit64 (2 / 10);
               frac = add64 min_frac (mul64 (div64 (sub64 t (Fin 35)) (sub64 full (Fin 35)))
                        (sub64 (Fin 1) min_frac))
      in map_option (\<lambda>lvl. if lvl < 1 then 1 else if 6 < lvl then 6 else lvl)
           (fp_to_i32 (add64 (mul64 frac (Fin 7)) (lit64 (1 / 2)))))"

definition fan_full_temp_for_profile :: "power_profile \<Rightarrow> float64" where
  "fan_full_temp_for_profile mode = (if mode = Balanced then Fin 70 else Fin 60)"

definition fan_level_for_temp_in_profile :: "fan_engine \<Rightarrow> float64 \<Rightarrow> power_profile \<Rightarrow> int option" where
  "fan_level_for_temp_in_profile e t mode =
     (let idx = int (profile_code mode)
      in if is_profile_custom idx e
         then map_option uint (get_fan_level_for_temp idx t e)
         else if mode = UltraEndurance \<and> fp_gt t (Fin 0) \<and> fp_le t (Fin 45) then Some 0
         else fan_level_for_temp t (fan_full_temp_for_profile mode))"

text \<open>The text after \<^verbatim>\<open>level:\<close> in the fan's status file.\<close>

definition fan_level_field :: "string \<Rightarrow> string option" where
  "fan_level_field content = map_option (\<lambda>lv. skip_blanks (drop 6 lv)) (strstr (c_str content) ''level:'')"

definition fan_state_matches :: "kernel \<Rightarrow> int \<Rightarrow> bool io" where
  "fan_state_matches k expected = do {
     r \<leftarrow> read_small_file k ''/proc/acpi/ibm/fan'' 256;
     return_io (case r of None \<Rightarrow> True
       | Some s \<Rightarrow>
           (if s = [] then True
            else case fan_level_field s of None \<Rightarrow> True
            | Some lv \<Rightarrow>
                let actual = (if starts_with lv ''disengaged'' \<or> starts_with lv ''full-speed'' then FULL_SPEED
                              else if lv \<noteq> [] \<and> is_digit (hd lv) then wrap_i32 (fst (strtol lv))
                              else - 1)
                in actual = expected))
   }"

definition FAN_PATH :: string where "FAN_PATH = ''/proc/acpi/ibm/fan''"

definition fan_baseline_of :: "string \<Rightarrow> string \<Rightarrow> string" where
  "fan_baseline_of content old =
     (case fan_level_field content of None \<Rightarrow> old
      | Some lv \<Rightarrow>
          let v = take 15 (takeWhile (\<lambda>c. c \<noteq> NL \<and> c \<noteq> CR \<and> c \<noteq> CHR '' '') lv)
          in if v = [] then ''auto'' else v)"

definition set_fan_level :: "globals \<Rightarrow> kernel \<Rightarrow> string \<Rightarrow> platform \<Rightarrow> (bool \<times> platform) io" where
  "set_fan_level g k level pl =
     (if level = [] then return_io (False, pl)
      else do {
        pl \<leftarrow> (if pl_fan_level_modified pl then return_io pl
               else do {
                 r \<leftarrow> read_small_file k FAN_PATH 256;
                 return_io (case r of Some s \<Rightarrow>
                     (if s = [] then pl
                      else pl\<lparr>pl_fan_level_baseline := fan_baseline_of s (pl_fan_level_baseline pl)\<rparr>)
                   | None \<Rightarrow> pl) });
        w \<leftarrow> write_file g k FAN_PATH (snprintf_cut 48 (''level '' @ level @ [NL]));
        return_io (if w then (True, pl\<lparr>pl_fan_level_modified := True\<rparr>) else (False, pl))
      })"

definition restore_fan_level :: "globals \<Rightarrow> kernel \<Rightarrow> platform \<Rightarrow> (bool \<times> platform) io" where
  "restore_fan_level g k pl =
     (if \<not> pl_fan_level_modified pl then return_io (True, pl)
      else do {
        let lv = (if pl_fan_level_baseline pl \<noteq> [] then pl_fan_level_baseline pl else ''auto'');
        w \<leftarrow> write_file g k FAN_PATH (snprintf_cut 48 (''level '' @ lv @ [NL]));
        return_io (w, if w then pl\<lparr>pl_fan_level_modified := False, pl_last_fan_level := - 1\<rparr> else pl)
      })"

text \<open>
  The level written, or \<open>-1\<close>; \<open>None\<close> is the undefined cast of a NaN temperature.
\<close>

definition apply_fan_for_temp ::
  "globals \<Rightarrow> kernel \<Rightarrow> fan_engine \<Rightarrow> float64 \<Rightarrow> power_profile \<Rightarrow> platform \<Rightarrow> (int \<times> platform) option io" where
  "apply_fan_for_temp g k e t mode pl = do {
     let pl = pl\<lparr>pl_fan_applications := pl_fan_applications pl + 1\<rparr>;
     case fan_level_for_temp_in_profile e t mode of None \<Rightarrow> return_io None
     | Some lvl \<Rightarrow>
         (if lvl < 0 then return_io (Some (- 1, pl))
          else do {
            held \<leftarrow> (if lvl = pl_last_fan_level pl
                     then (if lvl \<noteq> FULL_SPEED then return_io True else fan_state_matches k FULL_SPEED)
                     else return_io False);
            if held then return_io (Some (lvl, pl))
            else do {
              (ok, pl) \<leftarrow> set_fan_level g k (if lvl = FULL_SPEED then ''full-speed'' else show_int lvl) pl;
              return_io (Some (if ok then (lvl, pl\<lparr>pl_last_fan_level := lvl\<rparr>) else (- 1, pl)))
            }})
   }"

section \<open>SMU limits\<close>

text \<open>
  One row of the \<^verbatim>\<open>ryzenadj -i\<close> table, \<^verbatim>\<open>| name | value | argument |\<close>: the first number after
  the second bar of the first line that holds the row's name; zero when there is none.
\<close>

definition is_number_start :: "char \<Rightarrow> bool" where
  "is_number_start c \<longleftrightarrow> is_digit c \<or> c = CHR ''-''"

text \<open>
  The number is read with \<open>strtod\<close> from the text itself, so it may run past the line's end;
  \<open>tail\<close> is the text from the line on.
\<close>

definition smu_line_value :: "string \<Rightarrow> float64" where
  "smu_line_value tail =
     (let line = take_line tail
      in case strchr (CHR ''|'') line of None \<Rightarrow> Fin 0
         | Some b1 \<Rightarrow>
             (case strchr (CHR ''|'') (drop 1 b1) of None \<Rightarrow> Fin 0
              | Some b2 \<Rightarrow>
                  (let v = dropWhile (\<lambda>c. \<not> is_number_start c) (drop 1 b2)
                   in if v = [] then Fin 0
                      else let d = fst (strtod (drop (length line - length v) tail))
                           in if fp_gt d (Fin 0) then d else Fin 0)))"

fun smu_rows :: "string \<Rightarrow> string \<Rightarrow> float64" where
  "smu_rows text row_name =
     (if text = [] then Fin 0
      else if str_contains (take_line text) row_name then smu_line_value text
      else smu_rows (drop_line text) row_name)"

declare smu_rows.simps [simp del]

definition parse_smu_limit_row :: "string \<Rightarrow> string \<Rightarrow> float64" where
  "parse_smu_limit_row text row_name = (if row_name = [] then Fin 0 else smu_rows (c_str text) row_name)"

definition ryzenadj_candidates :: "string list" where
  "ryzenadj_candidates = [''/usr/local/bin/ryzenadj'', ''/usr/bin/ryzenadj'']"

definition find_ryzenadj :: "kernel \<Rightarrow> platform \<Rightarrow> (string option \<times> platform) io" where
  "find_ryzenadj k pl =
     (if pl_ryzenadj_checked pl then return_io (pl_ryzenadj pl, pl)
      else do {
        found \<leftarrow> io_for (\<lambda>f. f = None) (\<lambda>c _. do {
            ok \<leftarrow> sys_access_x k c; return_io (if ok then Some c else None) }) ryzenadj_candidates None;
        return_io (found, pl\<lparr>pl_ryzenadj := found, pl_ryzenadj_checked := True\<rparr>)
      })"

definition read_ryzenadj_table :: "kernel \<Rightarrow> platform \<Rightarrow> (string option \<times> platform) io" where
  "read_ryzenadj_table k pl = do {
     (tool, pl) \<leftarrow> find_ryzenadj k pl;
     case tool of None \<Rightarrow> return_io (None, pl)
     | Some t \<Rightarrow> do {
         r \<leftarrow> sys_popen k (t @ '' -i 2>/dev/null'') 8191;
         return_io (case r of Some s \<Rightarrow> if s = [] then None else Some s | None \<Rightarrow> None, pl)
       }
   }"

text \<open>A row scaled and rounded to an unsigned value; \<open>None\<close> is a cast out of range.\<close>

definition read_back_limit ::
  "kernel \<Rightarrow> string \<Rightarrow> float64 \<Rightarrow> platform \<Rightarrow> (u32 option \<times> platform) io" where
  "read_back_limit k row scale pl = do {
     (table, pl) \<leftarrow> read_ryzenadj_table k pl;
     let w = (case table of None \<Rightarrow> Fin 0 | Some t \<Rightarrow> parse_smu_limit_row t row);
     return_io (if fp_gt w (Fin 0)
                then map_option of_int (fp_to_int 0 (2 ^ 32 - 1) (add64 (mul64 w scale) (lit64 (1 / 2))))
                else Some 0, pl)
   }"

definition SMU_TCTL_PERF_C :: u32 where [code_consts]: "SMU_TCTL_PERF_C = 85"
definition SMU_APU_SKIN_PERF_C :: u32 where [code_consts]: "SMU_APU_SKIN_PERF_C = 85"
definition SMU_STAPM_PERF_MW :: u32 where [code_consts]: "SMU_STAPM_PERF_MW = 28000"
definition SMU_FAST_PERF_MW :: u32 where [code_consts]: "SMU_FAST_PERF_MW = 35000"
definition SMU_SLOW_PERF_MW :: u32 where [code_consts]: "SMU_SLOW_PERF_MW = 30000"
definition SMU_STAPM_CLAWED_BACK_MW :: u32 where [code_consts]: "SMU_STAPM_CLAWED_BACK_MW = 18000"

definition smu_limit_needs_reassert :: "u32 \<Rightarrow> bool" where
  "smu_limit_needs_reassert observed \<longleftrightarrow> observed \<noteq> 0 \<and> observed < SMU_STAPM_CLAWED_BACK_MW"

definition show_u32 :: "u32 \<Rightarrow> string" where
  "show_u32 w = show_nat (unat w)"

definition smu_raise_cmd :: "string \<Rightarrow> string" where
  "smu_raise_cmd tool =
     tool @ '' --tctl-temp='' @ show_u32 SMU_TCTL_PERF_C @ '' --apu-skin-temp='' @ show_u32 SMU_APU_SKIN_PERF_C @
     '' --stapm-limit='' @ show_u32 SMU_STAPM_PERF_MW @ '' --fast-limit='' @ show_u32 SMU_FAST_PERF_MW @
     '' --slow-limit='' @ show_u32 SMU_SLOW_PERF_MW @ '' --apu-slow-limit='' @ show_u32 SMU_SLOW_PERF_MW @
     '' >/dev/null 2>&1''"

definition apply_smu_performance_limits :: "globals \<Rightarrow> kernel \<Rightarrow> platform \<Rightarrow> (bool \<times> platform) option io" where
  "apply_smu_performance_limits g k pl =
     (if gl_sandbox g then return_io (Some (False, pl))
      else do {
        (tool, pl) \<leftarrow> find_ryzenadj k pl;
        case tool of None \<Rightarrow> return_io (Some (False, pl))
        | Some t \<Rightarrow>
            (if pl_smu_stapm_mw pl = 0 \<or> pl_smu_tctl_c pl = 0 then return_io (Some (False, pl))
             else do {
               ok \<leftarrow> hw_system g k (smu_raise_cmd t);
               if \<not> ok then return_io (Some (False, pl))
               else do {
                 let pl = pl\<lparr>pl_smu_limits_modified := True\<rparr>;
                 if pl_tctl_clamp_reported pl then return_io (Some (True, pl))
                 else do {
                   (eff, pl) \<leftarrow> read_back_limit k ''THM LIMIT CORE'' (Fin 1) (pl\<lparr>pl_tctl_clamp_reported := True\<rparr>);
                   case eff of None \<Rightarrow> return_io None
                   | Some v \<Rightarrow> do {
                       io_when (v \<noteq> 0 \<and> v < SMU_TCTL_PERF_C) (log_event (EvAlert ''INFO''));
                       return_io (Some (True, pl)) }
                 }}})
      })"

datatype smu_verify_result = Unavailable | NotUnrestricted | ReadFailed | Healthy | Reasserted | Refused

definition verify_and_reassert_smu_limits ::
  "globals \<Rightarrow> kernel \<Rightarrow> power_profile \<Rightarrow> platform \<Rightarrow> (smu_verify_result \<times> platform) option io" where
  "verify_and_reassert_smu_limits g k mode pl =
     (if gl_sandbox g then return_io (Some (Unavailable, pl))
      else do {
        (tool, pl) \<leftarrow> find_ryzenadj k pl;
        if tool = None then return_io (Some (Unavailable, pl))
        else if mode \<noteq> Performance \<and> mode \<noteq> Balanced then return_io (Some (NotUnrestricted, pl))
        else if pl_smu_stapm_mw pl = 0 then return_io (Some (Unavailable, pl))
        else do {
          (obs, pl) \<leftarrow> read_back_limit k ''STAPM LIMIT'' (Fin 1000) pl;
          case obs of None \<Rightarrow> return_io None
          | Some v \<Rightarrow>
              (if v = 0 then return_io (Some (ReadFailed, pl))
               else if \<not> smu_limit_needs_reassert v
               then return_io (Some (Healthy, pl\<lparr>pl_clawback_reported := False\<rparr>))
               else do {
                 r \<leftarrow> apply_smu_performance_limits g k pl;
                 case r of None \<Rightarrow> return_io None
                 | Some (reapplied, pl) \<Rightarrow> do {
                     io_when (\<not> pl_clawback_reported pl)
                       (log_event (EvAlert (if reapplied then ''WARN'' else ''ERROR'')));
                     return_io (Some (if reapplied then Reasserted else Refused,
                                      pl\<lparr>pl_clawback_reported := True\<rparr>)) }
               })
        }})"

text \<open>
  The restore command, field by field as \<open>snprintf\<close> appends them; a captured zero is never
  written back.
\<close>

definition smu_restore_cmd :: "string \<Rightarrow> platform \<Rightarrow> string" where
  "smu_restore_cmd tool pl =
     (let apu_slow = (if pl_smu_apu_slow_mw pl \<noteq> 0 then pl_smu_apu_slow_mw pl else pl_smu_slow_mw pl);
          field = (\<lambda>flag v. if v = 0 then [] else flag @ show_u32 v)
      in tool @ '' --tctl-temp='' @ show_u32 (pl_smu_tctl_c pl) @
         field '' --stapm-limit='' (pl_smu_stapm_mw pl) @ field '' --fast-limit='' (pl_smu_fast_mw pl) @
         field '' --slow-limit='' (pl_smu_slow_mw pl) @ field '' --apu-slow-limit='' apu_slow @
         '' >/dev/null 2>&1'')"

definition restore_smu_limits :: "globals \<Rightarrow> kernel \<Rightarrow> platform \<Rightarrow> (bool \<times> platform) io" where
  "restore_smu_limits g k pl =
     (if \<not> pl_smu_limits_modified pl then return_io (True, pl)
      else do {
        (tool, pl) \<leftarrow> find_ryzenadj k pl;
        case tool of None \<Rightarrow> return_io (False, pl)
        | Some t \<Rightarrow>
            (if pl_smu_stapm_mw pl = 0 \<or> pl_smu_tctl_c pl = 0
             then return_io (False, pl\<lparr>pl_smu_limits_modified := False\<rparr>)
             else do {
               ok \<leftarrow> hw_system g k (smu_restore_cmd t pl);
               return_io (ok, if ok then pl\<lparr>pl_smu_limits_modified := False\<rparr> else pl)
             })
      })"

section \<open>Properties\<close>

lemma rearm_latch_simps:
  "on_battery \<Longrightarrow> \<not> fp_gt pct (Fin 25) \<Longrightarrow> \<not> fp_gt pct (Fin 35) \<Longrightarrow> rearm_latch on_battery pct l = l"
  by (simp add: rearm_latch_def)

text \<open>C6. The battery rules never work against the user: on AC power the chosen profile stands,
  on battery the profile only ever moves towards more saving, above 30 percent it does not
  move at all, and at 5 percent or less it is UltraEndurance.\<close>

theorem resolve_profile_only_saves:
  "current \<le> fst (resolve_profile current on_battery pct l) \<and>
   (\<not> on_battery \<longrightarrow> fst (resolve_profile current on_battery pct l) = current) \<and>
   (fp_gt pct (Fin 30) \<longrightarrow> fst (resolve_profile current on_battery pct l) = current) \<and>
   (on_battery \<and> fp_le pct (Fin 5) \<longrightarrow> fst (resolve_profile current on_battery pct l) = UltraEndurance)"
proof -
  have "fp_gt pct (Fin 30) \<Longrightarrow> \<not> fp_le pct (Fin 5) \<and> \<not> fp_le pct (Fin 20) \<and> \<not> fp_le pct (Fin 30)"
    by (cases pct) auto
  then show ?thesis
    by (cases current) (auto simp: resolve_profile_def Let_def less_eq_power_profile_def less_power_profile_def)
qed

theorem resolve_profile_only_saves_witness:
  "fst (resolve_profile Performance True (Fin 4) \<lparr>crossed_30 = True, crossed_20 = True\<rparr>) = UltraEndurance"
  using resolve_profile_only_saves [of Performance True "Fin 4" "\<lparr>crossed_30 = True, crossed_20 = True\<rparr>"] by simp

text \<open>
  A discharge: the readings of successive cycles with whatever profile the user has chosen by
  then, and the number of times the rules overrode that choice.
\<close>

fun demotions :: "demotion_latch \<Rightarrow> (power_profile \<times> float64) list \<Rightarrow> nat" where
  "demotions l [] = 0"
| "demotions l ((current, pct) # rs) =
     (let (m, l') = resolve_profile current True pct l
      in (if m = current then 0 else 1) + demotions l' rs)"

definition in_discharge_band :: "float64 \<Rightarrow> bool" where
  "in_discharge_band pct \<longleftrightarrow> fp_gt pct (Fin 5) \<and> fp_le pct (Fin 25)"

lemma band_simps:
  "in_discharge_band pct \<Longrightarrow> \<not> fp_le pct (Fin 5) \<and> \<not> fp_gt pct (Fin 25) \<and> \<not> fp_gt pct (Fin 35) \<and> fp_le pct (Fin 30)"
  by (cases pct) (auto simp: in_discharge_band_def)

lemma resolve_in_band:
  assumes "in_discharge_band pct"
  shows "resolve_profile current True pct l =
    (if fp_le pct (Fin 20) \<and> \<not> crossed_20 l
     then (if current < PowerSaver then PowerSaver else current, l\<lparr>crossed_20 := True, crossed_30 := True\<rparr>)
     else (if \<not> crossed_30 l \<and> current = Performance then Balanced else current, l\<lparr>crossed_30 := True\<rparr>))"
  using band_simps [OF assms] by (auto simp: resolve_profile_def rearm_latch_simps Let_def)

lemma demotions_bound:
  "\<forall>(c, pct) \<in> set rs. in_discharge_band pct \<Longrightarrow>
   demotions l rs \<le> (if crossed_20 l then 0 else 1) + (if crossed_30 l then 0 else 1)"
proof (induction rs arbitrary: l)
  case (Cons r rs)
  obtain c pct where r: "r = (c, pct)" by (cases r)
  with Cons.prems have b: "in_discharge_band pct" and rest: "\<forall>(c, pct) \<in> set rs. in_discharge_band pct" by auto
  show ?case
    using Cons.IH [OF rest, of "l\<lparr>crossed_20 := True, crossed_30 := True\<rparr>"]
      Cons.IH [OF rest, of "l\<lparr>crossed_30 := True\<rparr>"]
    by (auto simp: r resolve_in_band [OF b])
qed simp

text \<open>The rules do not fight the user: while the battery falls through 25 to 5 percent, however
  often the user picks another profile again, the choice is overridden at most twice, and not
  at all once both thresholds have been crossed.\<close>

theorem profile_overridden_at_most_twice:
  assumes "\<forall>(current, pct) \<in> set rs. in_discharge_band pct"
  shows "demotions l rs \<le> 2 \<and> (crossed_20 l \<and> crossed_30 l \<longrightarrow> demotions l rs = 0)"
  using demotions_bound [OF assms, of l] by (auto split: if_splits)

theorem profile_overridden_at_most_twice_witness:
  "demotions \<lparr>crossed_30 = False, crossed_20 = False\<rparr>
     [(Performance, Fin 24), (Performance, Fin 19), (Performance, Fin 18), (Performance, Fin 12)] \<le> 2"
  using profile_overridden_at_most_twice
    [of "[(Performance, Fin 24), (Performance, Fin 19), (Performance, Fin 18), (Performance, Fin 12)]"]
  by (simp add: in_discharge_band_def)

text \<open>
  Rounding is monotone, so the fan curve, a chain of roundings and steps that grow with the
  temperature, is monotone as well.
\<close>

lemma fp_round64_mono:
  assumes "x \<le> y" and "\<bar>x\<bar> \<le> 10 ^ 9" and "\<bar>y\<bar> \<le> 10 ^ 9"
  shows "\<exists>a b. fp_round Binary64 x = Fin a \<and> fp_round Binary64 y = Fin b \<and> a \<le> b"
proof -
  have big: "(10 :: rat) ^ 9 \<le> pow2 (emax Binary64)"
  proof -
    have "(10 :: rat) ^ 9 \<le> 2 ^ 1023" by simp
    then show ?thesis by (simp add: pow2_of_int)
  qed
  have "\<bar>x\<bar> \<le> pow2 (emax Binary64)" "\<bar>y\<bar> \<le> pow2 (emax Binary64)" using assms(2,3) big by linarith+
  moreover have "rnd (prec Binary64) (emin Binary64) x \<le> rnd (prec Binary64) (emin Binary64) y"
    using assms(1) by (intro rnd_mono) auto
  ultimately show ?thesis by (auto simp: fp_round_in_range)
qed

lemma fp_round64_between:
  assumes "of_int lo \<le> x" and "x \<le> of_int hi" and "\<bar>lo\<bar> \<le> 10 ^ 9" and "\<bar>hi\<bar> \<le> 10 ^ 9"
  shows "\<exists>a. fp_round Binary64 x = Fin a \<and> of_int lo \<le> a \<and> a \<le> of_int hi"
proof -
  have b: "\<bar>of_int lo :: rat\<bar> \<le> 10 ^ 9" "\<bar>of_int hi :: rat\<bar> \<le> 10 ^ 9"
    using assms(3,4) by (simp_all only: of_int_abs [symmetric] of_int_le_numeral_power_cancel_iff)
  have x: "\<bar>x\<bar> \<le> 10 ^ 9" using assms(1,2) b by linarith
  have e: "fp_round Binary64 (of_int lo) = Fin (of_int lo)" "fp_round Binary64 (of_int hi) = Fin (of_int hi)"
    using assms(3,4) by (auto intro!: fp_round_of_int)
  from fp_round64_mono [OF assms(1) b(1) x] fp_round64_mono [OF assms(2) x b(2)] e
  show ?thesis by auto
qed

lemma round_pair:
  assumes "x \<le> y" and "of_int lo \<le> x" and "y \<le> of_int hi" and "\<bar>lo\<bar> \<le> 10 ^ 9" and "\<bar>hi\<bar> \<le> 10 ^ 9"
  obtains a b where "fp_round Binary64 x = Fin a" and "fp_round Binary64 y = Fin b" and "a \<le> b"
    and "of_int lo \<le> a" and "b \<le> of_int hi"
proof -
  have l: "of_int lo \<le> y" "x \<le> of_int hi" using assms(1-3) by linarith+
  have b: "\<bar>of_int lo :: rat\<bar> \<le> 10 ^ 9" "\<bar>of_int hi :: rat\<bar> \<le> 10 ^ 9"
    using assms(4,5) by (simp_all only: of_int_abs [symmetric] of_int_le_numeral_power_cancel_iff)
  have "\<bar>x\<bar> \<le> 10 ^ 9" "\<bar>y\<bar> \<le> 10 ^ 9" using l assms(2,3) b by linarith+
  from fp_round64_mono [OF assms(1) this] fp_round64_between [OF assms(2) l(2) assms(4,5)]
    fp_round64_between [OF l(1) assms(3) assms(4,5)] that
  show thesis by auto
qed

definition ramp_value :: "rat \<Rightarrow> rat \<Rightarrow> fp" where
  "ramp_value full t =
     add64 (mul64 (add64 (lit64 (2 / 10)) (mul64 (div64 (sub64 (Fin t) (Fin 35)) (sub64 (Fin full) (Fin 35)))
        (sub64 (Fin 1) (lit64 (2 / 10))))) (Fin 7)) (lit64 (1 / 2))"

lemma ramp_value_mono:
  assumes "full = 60 \<or> full = 70" and "35 \<le> t" and "t \<le> t'" and "t' \<le> 70"
  obtains v v' where "ramp_value full t = Fin v" and "ramp_value full t' = Fin v'"
    and "0 \<le> v" and "v \<le> v'" and "v' \<le> 22"
proof -
  have w: "sub64 (Fin full) (Fin 35) = Fin (full - 35)"
    using assms(1) by (auto simp: fp_sub_def)
  obtain r where r: "lit64 (2 / 10) = Fin r" "0 \<le> r" "r \<le> 1"
    by (rule round_pair [of "2 / 10" "2 / 10" 0 1]) (auto simp: lit64_def)
  obtain h where h: "lit64 (1 / 2) = Fin h" "0 \<le> h" "h \<le> 1"
    by (rule round_pair [of "1 / 2" "1 / 2" 0 1]) (auto simp: lit64_def)
  obtain s where s: "fp_round Binary64 (1 - r) = Fin s" "0 \<le> s" "s \<le> 1"
    by (rule round_pair [of "1 - r" "1 - r" 0 1]) (use r in auto)
  obtain a1 b1 where 1: "fp_round Binary64 (t - 35) = Fin a1" "fp_round Binary64 (t' - 35) = Fin b1"
      "a1 \<le> b1" "0 \<le> a1" "b1 \<le> 35"
    by (rule round_pair [of "t - 35" "t' - 35" 0 35]) (use assms(2-4) in auto)
  obtain a2 b2 where 2: "fp_round Binary64 (a1 / (full - 35)) = Fin a2"
      "fp_round Binary64 (b1 / (full - 35)) = Fin b2" "a2 \<le> b2" "0 \<le> a2" "b2 \<le> 2"
    by (rule round_pair [of "a1 / (full - 35)" "b1 / (full - 35)" 0 2])
      (use 1 assms(1) in \<open>auto simp: divide_right_mono\<close>)
  have ms: "a2 * s \<le> b2 * s" using 2 s by (auto intro!: mult_mono)
  have "b2 * s \<le> 2 * 1" using 2 s by (intro mult_mono) auto
  then have ms2: "b2 * s \<le> 2" by simp
  obtain a3 b3 where 3: "fp_round Binary64 (a2 * s) = Fin a3" "fp_round Binary64 (b2 * s) = Fin b3"
      "a3 \<le> b3" "0 \<le> a3" "b3 \<le> 2"
    by (rule round_pair [of "a2 * s" "b2 * s" 0 2]) (use ms ms2 2 s in auto)
  obtain a4 b4 where 4: "fp_round Binary64 (r + a3) = Fin a4" "fp_round Binary64 (r + b3) = Fin b4"
      "a4 \<le> b4" "0 \<le> a4" "b4 \<le> 3"
    by (rule round_pair [of "r + a3" "r + b3" 0 3]) (use 3 r in auto)
  obtain a5 b5 where 5: "fp_round Binary64 (a4 * 7) = Fin a5" "fp_round Binary64 (b4 * 7) = Fin b5"
      "a5 \<le> b5" "0 \<le> a5" "b5 \<le> 21"
    by (rule round_pair [of "a4 * 7" "b4 * 7" 0 21]) (use 4 in auto)
  obtain a6 b6 where 6: "fp_round Binary64 (a5 + h) = Fin a6" "fp_round Binary64 (b5 + h) = Fin b6"
      "a6 \<le> b6" "0 \<le> a6" "b6 \<le> 22"
    by (rule round_pair [of "a5 + h" "b5 + h" 0 22]) (use 5 h in auto)
  have "full - 35 \<noteq> 0" using assms(1) by auto
  then show thesis
    using 1 2 3 4 5 6 r h s w assms(1) that [of a6 b6]
    by (simp add: ramp_value_def fp_sub_def)
qed

lemma rat_trunc_mono: "x \<le> y \<Longrightarrow> rat_trunc x \<le> rat_trunc y"
proof -
  assume xy: "x \<le> y"
  consider "0 \<le> x" | "x < 0" "0 \<le> y" | "y < 0" using xy by linarith
  then show ?thesis
  proof cases
    case 2
    then have "\<lceil>x\<rceil> \<le> 0" "0 \<le> \<lfloor>y\<rfloor>" by (simp_all add: ceiling_le_iff)
    moreover have "rat_trunc x = \<lceil>x\<rceil>" "rat_trunc y = \<lfloor>y\<rfloor>"
      using 2 by (simp_all add: rat_trunc_def)
    ultimately show ?thesis by linarith
  qed (use xy in \<open>auto simp: rat_trunc_def floor_mono ceiling_mono\<close>)
qed

definition ramp_level :: "int \<Rightarrow> int" where
  "ramp_level lvl = (if lvl < 1 then 1 else if 6 < lvl then 6 else lvl)"

lemma fan_level_ramp:
  assumes "full = 60 \<or> full = 70" and "35 < t" and "t < full"
  shows "fan_level_for_temp (Fin t) (Fin full) = map_option ramp_level (fp_to_i32 (ramp_value full t))"
  using assms by (auto simp: fan_level_for_temp_def Let_def ramp_value_def ramp_level_def [abs_def])

lemma fan_level_cases:
  assumes "full = 60 \<or> full = 70"
  shows "t \<le> 0 \<Longrightarrow> fan_level_for_temp (Fin t) (Fin full) = Some (- 1)"
    and "0 < t \<Longrightarrow> t \<le> 35 \<Longrightarrow> fan_level_for_temp (Fin t) (Fin full) = Some 1"
    and "full \<le> t \<Longrightarrow> fan_level_for_temp (Fin t) (Fin full) = Some FULL_SPEED"
  using assms by (auto simp: fan_level_for_temp_def Let_def)

lemma fan_level_ramp_mono:
  assumes "full = 60 \<or> full = 70" and "35 < t" and "t \<le> t'" and "t' < full"
  obtains l l' where "fan_level_for_temp (Fin t) (Fin full) = Some l"
    and "fan_level_for_temp (Fin t') (Fin full) = Some l'" and "1 \<le> l" and "l \<le> l'" and "l' \<le> 6"
proof -
  obtain v v' where v: "ramp_value full t = Fin v" "ramp_value full t' = Fin v'" "0 \<le> v" "v \<le> v'" "v' \<le> 22"
    by (rule ramp_value_mono [of full t t']) (use assms in auto)
  have "rat_trunc v \<le> rat_trunc v'" "0 \<le> rat_trunc v" "rat_trunc v' \<le> 22"
    using v rat_trunc_mono [of v v'] rat_trunc_mono [of 0 v] rat_trunc_mono [of v' 22] by auto
  then show thesis
    using v assms that [of "ramp_level (rat_trunc v)" "ramp_level (rat_trunc v')"]
    by (simp add: fan_level_ramp ramp_level_def)
qed

text \<open>The built-in fan curves cool: for every finite temperature the level exists, it is full
  speed from the profile's anchor on, it is between 1 and 6 below it, and a hotter part never
  gets a lower level, through all roundings of the double computation.\<close>

theorem fan_level_monotone:
  assumes "t \<le> t'"
  shows "\<exists>l l'. fan_level_for_temp (Fin t) (fan_full_temp_for_profile mode) = Some l \<and>
    fan_level_for_temp (Fin t') (fan_full_temp_for_profile mode) = Some l' \<and> l \<le> l' \<and>
    (70 \<le> t \<longrightarrow> l = FULL_SPEED) \<and> (0 < t \<longrightarrow> 1 \<le> l)"
proof -
  obtain full where full: "fan_full_temp_for_profile mode = Fin full" "full = 60 \<or> full = 70"
    by (cases "mode = Balanced") (auto simp: fan_full_temp_for_profile_def)
  have some: "\<exists>l. fan_level_for_temp (Fin x) (Fin full) = Some l \<and> 1 \<le> l \<and> l \<le> 6" if "35 < x" "x < full" for x
    by (rule fan_level_ramp_mono [OF full(2) that(1) order_refl that(2)]) auto
  note c = fan_level_cases [OF full(2)]
  consider "t \<le> 0" | "0 < t" "t \<le> 35" | "35 < t" "t' < full" | "35 < t" "t < full" "full \<le> t'" | "full \<le> t"
    using assms by linarith
  then show ?thesis
  proof cases
    case 1
    then show ?thesis
      using c [of t] c [of t'] some [of t'] full by (cases "t' \<le> 35"; cases "t' < full"; cases "t' \<le> 0") auto
  next
    case 2
    then show ?thesis
      using c [of t] c [of t'] some [of t'] full assms by (cases "t' \<le> 35"; cases "t' < full") auto
  next
    case 3
    then have "\<not> 70 \<le> t" using full(2) assms by auto
    with full(1) show ?thesis
      by (auto intro: fan_level_ramp_mono [OF full(2) 3(1) assms 3(2)])
  next
    case 4
    then show ?thesis using c [of t'] some [of t] full by auto
  next
    case 5
    then show ?thesis using c [of t] c [of t'] assms full by auto
  qed
qed

theorem fan_level_monotone_witness:
  "\<exists>l l'. fan_level_for_temp (Fin 45) (Fin 70) = Some l \<and> fan_level_for_temp (Fin 52) (Fin 70) = Some l' \<and>
     l \<le> l' \<and> 1 \<le> l"
  using fan_level_monotone [of 45 52 Balanced] by (auto simp: fan_full_temp_for_profile_def)

text \<open>A missing temperature is told apart only by the built-in curves: with a reading of zero or
  less they command nothing, but a profile with a custom curve is commanded level 0, which
  stops the fan.\<close>

theorem custom_curve_stops_fan_without_reading:
  assumes "fp_le t (Fin 0)"
  shows "fan_level_for_temp_in_profile e t mode =
    (if is_profile_custom (int (profile_code mode)) e then Some 0 else Some (- 1))"
proof -
  have "\<not> fp_gt t (Fin 0)" using assms by (cases t) auto
  then show ?thesis
    using assms by (simp add: fan_level_for_temp_in_profile_def get_fan_level_for_temp_def
        fan_level_for_temp_def Let_def)
qed

theorem custom_curve_stops_fan_without_reading_witness:
  "fan_level_for_temp_in_profile
     (snd (set_profile_curve ScalarPath 0 [(Fin 30, Fin 50), (Fin 70, Fin 100)] (fan_engine_new ScalarPath)))
     (Fin 0) Performance = Some 0"
proof -
  have "is_profile_custom 0 (snd (set_profile_curve ScalarPath 0 [(Fin 30, Fin 50), (Fin 70, Fin 100)]
      (fan_engine_new ScalarPath)))"
    using fe_ok_new [of ScalarPath] compute_spline_lookup_total [of "clamp_points [(Fin 30, Fin 50), (Fin 70, Fin 100)]"]
    by (auto simp: is_profile_custom_def set_profile_curve_def temps_increase_def install_curve_def Let_def
        sync_fast_lookup_def fe_ok_def fe_shape_def split: option.splits)
  then show ?thesis
    using custom_curve_stops_fan_without_reading [of "Fin 0" _ Performance] by simp
qed

text \<open>Every byte with a meaning to \<^verbatim>\<open>/bin/sh\<close> that the check has to keep out.\<close>

definition shell_special :: "char set" where
  "shell_special = set ('' ;&|$`()<>[]{}*?!#~^=%+:@,/'' @ [CHR 0x22, CHR 0x27, CHR 0x5C, NL, TAB, CR])"

text \<open>Nothing the desktop-session check lets through can inject a command: a compositor socket
  name that passes holds no character that is special to the shell, and a runtime directory that
  passes is \<^verbatim>\<open>/run/user/\<close> followed by digits only.\<close>

theorem session_names_shell_safe:
  "(is_safe_wayland_component s \<longrightarrow> s \<noteq> [] \<and> set s \<inter> shell_special = {}) \<and>
   (is_safe_run_user_dir d \<longrightarrow> (\<exists>n. d = ''/run/user/'' @ n \<and> n \<noteq> [] \<and> list_all is_digit n))"
proof
  have "\<not> is_shell_safe_char c" if "c \<in> shell_special" for c
    using that by (auto simp: shell_special_def is_shell_safe_char_def)
  then show "is_safe_wayland_component s \<longrightarrow> s \<noteq> [] \<and> set s \<inter> shell_special = {}"
    by (auto simp: is_safe_wayland_component_def list_all_iff)
  show "is_safe_run_user_dir d \<longrightarrow> (\<exists>n. d = ''/run/user/'' @ n \<and> n \<noteq> [] \<and> list_all is_digit n)"
    by (auto simp: is_safe_run_user_dir_def starts_with_iff)
qed

theorem session_names_shell_safe_witness:
  "set ''wayland-0'' \<inter> shell_special = {} \<and> \<not> is_safe_wayland_component ''wayland-0;chmod''"
  using session_names_shell_safe [of "''wayland-0''" "[]"]
  by (simp add: is_safe_wayland_component_def is_shell_safe_char_def)

end
