(* ===== verification/Swap_Tier.thy ===== *)
theory Swap_Tier
  imports Actuators
begin

text \<open>
  The swap tier manager (\<^verbatim>\<open>src/policy/swap_tier_manager.cpp\<close>): the parser of
  \<^verbatim>\<open>/proc/swaps\<close> and what it derives from the devices, compressed memory against disk.
\<close>

record swap_device =
  sd_name :: string
  sd_size_kb :: u64
  sd_used_kb :: u64
  sd_priority :: i32
  sd_is_zram :: bool

abbreviation "MAX_SWAP_DEVICES \<equiv> (8 :: nat)"

record swap_tier =
  st_devices :: "swap_device fvec"
  st_zram_total_kb :: u64
  st_zram_used_kb :: u64
  st_disk_total_kb :: u64
  st_disk_used_kb :: u64
  st_zram_priority :: i32
  st_max_disk_priority :: i32

definition swap_tier_init :: swap_tier where
  "swap_tier_init = \<lparr>st_devices = fv_new, st_zram_total_kb = 0, st_zram_used_kb = 0,
     st_disk_total_kb = 0, st_disk_used_kb = 0, st_zram_priority = - 1000, st_max_disk_priority = - 1000\<rparr>"

section \<open>Parsing\<close>

definition is_field_char :: "char \<Rightarrow> bool" where
  "is_field_char c \<longleftrightarrow> \<not> is_blank c \<and> c \<noteq> NL"

definition parse_u64 :: "string \<Rightarrow> (u64 \<times> string) option" where
  "parse_u64 s =
     (let (d, rest) = span_digits (skip_blanks s) in if d = [] then None else Some (digits_val 0 d, rest))"

text \<open>The value is accumulated in 64 bits and cast down to 32.\<close>

definition parse_i32 :: "string \<Rightarrow> (i32 \<times> string) option" where
  "parse_i32 s =
     (let (neg, t) = split_sign (skip_blanks s); (d, rest) = span_digits t; v = digits_val (0 :: int) d
      in if d = [] then None else Some (wrap_i32 (if neg then - v else v), rest))"

definition parse_swap_line :: "string \<Rightarrow> swap_device option" where
  "parse_swap_line line =
     (let name = take 63 (takeWhile is_field_char line);
          r = dropWhile is_field_char line;
          r = dropWhile is_field_char (skip_blanks r)
      in do {
        (sz, r) \<leftarrow> parse_u64 r;
        (used, r) \<leftarrow> parse_u64 r;
        (prio, _) \<leftarrow> parse_i32 r;
        Some \<lparr>sd_name = c_str name, sd_size_kb = sz, sd_used_kb = used, sd_priority = prio,
              sd_is_zram = (strstr (c_str name) ''zram'' \<noteq> None)\<rparr>
      })"

function parse_swap_lines :: "string \<Rightarrow> swap_device fvec \<Rightarrow> swap_device fvec" where
  "parse_swap_lines s out =
     (let t = skip_blanks s
      in if t = [] then out
         else if hd t = NL then parse_swap_lines (tl t) out
         else if takeWhile is_field_char (take_line t) = [] \<or> MAX_SWAP_DEVICES \<le> fv_size out then out
         else case parse_swap_line (take_line t) of None \<Rightarrow> out
              | Some d \<Rightarrow> parse_swap_lines (drop_line t) (snd (fv_push_back MAX_SWAP_DEVICES d out)))"
  by pat_completeness auto

termination
proof (relation "measure (\<lambda>(s, _). length s)")
  fix s t :: string and d :: swap_device and out :: "swap_device fvec"
  assume t: "t = skip_blanks s" "t \<noteq> []"
  have len: "length t \<le> length s" using length_skip_blanks t by simp
  have "length (tl t) < length t" "length (drop_line t) < length t"
    using t(2) length_drop_line [of t] by auto
  then show "((tl t, out), s, out) \<in> measure (\<lambda>(s, _). length s)"
    and "((drop_line t, snd (fv_push_back MAX_SWAP_DEVICES d out)), s, out) \<in> measure (\<lambda>(s, _). length s)"
    using len by auto
qed simp

declare parse_swap_lines.simps [simp del]

definition parse_swaps_buffer :: "string \<Rightarrow> swap_device fvec \<Rightarrow> bool \<times> swap_device fvec" where
  "parse_swaps_buffer buf out =
     (let out = fv_clear out
      in if buf = [] then (False, out)
         else let out = parse_swap_lines (drop_line buf) out in (\<not> fv_is_empty out, out))"

section \<open>Totals\<close>

definition add_device :: "swap_device \<Rightarrow> swap_tier \<Rightarrow> swap_tier" where
  "add_device d s =
     (if sd_is_zram d
      then s\<lparr>st_zram_total_kb := st_zram_total_kb s + sd_size_kb d,
             st_zram_used_kb := st_zram_used_kb s + sd_used_kb d,
             st_zram_priority := (if st_zram_priority s < sd_priority d then sd_priority d else st_zram_priority s)\<rparr>
      else s\<lparr>st_disk_total_kb := st_disk_total_kb s + sd_size_kb d,
             st_disk_used_kb := st_disk_used_kb s + sd_used_kb d,
             st_max_disk_priority :=
               (if st_max_disk_priority s < sd_priority d then sd_priority d else st_max_disk_priority s)\<rparr>)"

definition refresh_from :: "string \<Rightarrow> swap_tier \<Rightarrow> bool \<times> swap_tier" where
  "refresh_from buf s =
     (let (ok, devs) = parse_swaps_buffer buf (st_devices s); s = s\<lparr>st_devices := devs\<rparr>
      in if \<not> ok then (False, s)
         else (True, fold add_device (fv_items devs)
                (s\<lparr>st_zram_total_kb := 0, st_zram_used_kb := 0, st_disk_total_kb := 0, st_disk_used_kb := 0,
                   st_zram_priority := - 1000, st_max_disk_priority := - 1000\<rparr>)))"

definition swap_refresh :: "kernel \<Rightarrow> swap_tier \<Rightarrow> (bool \<times> swap_tier) io" where
  "swap_refresh k s = do {
     r \<leftarrow> read_small_file k ''/proc/swaps'' 2048;
     return_io (case r of None \<Rightarrow> (False, s) | Some buf \<Rightarrow> if buf = [] then (False, s) else refresh_from buf s)
   }"

definition has_zram :: "swap_tier \<Rightarrow> bool" where
  "has_zram s \<longleftrightarrow> 0 < st_zram_total_kb s"

definition usage_pct :: "u64 \<Rightarrow> u64 \<Rightarrow> float64" where
  "usage_pct used tot = div64 (mul64 (fp_of_u64 Binary64 used) (Fin 100)) (fp_of_u64 Binary64 tot)"

definition zram_usage_pct :: "swap_tier \<Rightarrow> float64" where
  "zram_usage_pct s = (if st_zram_total_kb s = 0 then Fin 0 else usage_pct (st_zram_used_kb s) (st_zram_total_kb s))"

definition is_zram_saturated :: "swap_tier \<Rightarrow> bool" where
  "is_zram_saturated s \<longleftrightarrow> fp_ge (zram_usage_pct s) (Fin 85)"

definition disk_swap_usage_pct :: "swap_tier \<Rightarrow> float64" where
  "disk_swap_usage_pct s =
     (if st_disk_total_kb s = 0 then Fin 0 else usage_pct (st_disk_used_kb s) (st_disk_total_kb s))"

definition is_zram_prioritized :: "swap_tier \<Rightarrow> bool" where
  "is_zram_prioritized s \<longleftrightarrow>
     (if st_zram_total_kb s = 0 then False
      else if st_disk_total_kb s = 0 then True
      else st_max_disk_priority s < st_zram_priority s)"

text \<open>\<open>strtoull\<close> of a small sysfs file, 63 bytes at most.\<close>

definition read_u64_file :: "kernel \<Rightarrow> string \<Rightarrow> u64 option io" where
  "read_u64_file k path = do {
     r \<leftarrow> read_small_file k path 64;
     return_io (case r of None \<Rightarrow> None | Some s \<Rightarrow> if s = [] then None else Some (fst (strtoul (c_str s))))
   }"

definition read_zram_compression_ratio :: "kernel \<Rightarrow> string \<Rightarrow> float64 io" where
  "read_zram_compression_ratio k zram_name = do {
     let path = (\<lambda>leaf. snprintf_cut 128 (''/sys/block/'' @ zram_name @ leaf));
     orig \<leftarrow> read_u64_file k (path ''/orig_data_size'');
     case orig of None \<Rightarrow> return_io (Fin 1)
     | Some orig \<Rightarrow> do {
         compr \<leftarrow> read_u64_file k (path ''/compr_data_size'');
         return_io (case compr of None \<Rightarrow> Fin 1
           | Some compr \<Rightarrow>
               if compr = 0 then Fin 1 else div64 (fp_of_u64 Binary64 orig) (fp_of_u64 Binary64 compr)) }
   }"

section \<open>Effects\<close>

lemma emits_swap_refresh [io_specs]: "(\<And>q. P (EvReadFile q)) \<Longrightarrow> emits P (swap_refresh k s)"
  unfolding swap_refresh_def read_small_file_def sys_read_file_def by (intro io_rules) auto

section \<open>Parsing what the kernel prints\<close>

text \<open>
  The text of \<^verbatim>\<open>/proc/swaps\<close>: a header line, then one line per device with its name, type,
  size, used size and priority, separated by tabs or spaces.
\<close>

definition swap_line :: "string \<Rightarrow> swap_device \<Rightarrow> string" where
  "swap_line tp d =
     sd_name d @ [TAB] @ tp @ [TAB] @ show_nat (unat (sd_size_kb d)) @ [TAB] @
     show_nat (unat (sd_used_kb d)) @ [TAB] @ show_int (sd_priority d)"

definition swaps_text :: "string \<Rightarrow> string \<Rightarrow> swap_device list \<Rightarrow> string" where
  "swaps_text header tp ds = header @ [NL] @ concat (map (\<lambda>d. swap_line tp d @ [NL]) ds)"

definition field_ok :: "string \<Rightarrow> bool" where
  "field_ok s \<longleftrightarrow> s \<noteq> [] \<and> list_all is_field_char s \<and> NUL \<notin> set s"

definition device_ok :: "swap_device \<Rightarrow> bool" where
  "device_ok d \<longleftrightarrow> field_ok (sd_name d) \<and> length (sd_name d) \<le> 63 \<and>
     - (2 ^ 31) \<le> sd_priority d \<and> sd_priority d < 2 ^ 31 \<and>
     sd_is_zram d = str_contains (sd_name d) ''zram''"

lemma digit_field: "is_digit c \<Longrightarrow> is_field_char c \<and> \<not> is_blank c"
  by (auto simp: is_digit_def is_field_char_def is_blank_def)

lemma span_field:
  "list_all is_field_char s \<Longrightarrow> t = [] \<or> \<not> is_field_char (hd t) \<Longrightarrow>
   takeWhile is_field_char (s @ t) = s \<and> dropWhile is_field_char (s @ t) = t"
  by (induction s) (cases t; auto)+

lemma skip_blanks_field: "s \<noteq> [] \<Longrightarrow> \<not> is_blank (hd s) \<Longrightarrow> skip_blanks s = s"
  by (cases s) (auto simp: skip_blanks_def)

lemma skip_blanks_tab [simp]: "skip_blanks (TAB # s) = skip_blanks s"
  by (simp add: skip_blanks_def is_blank_def)

lemma hd_show_nat: "is_digit (hd (show_nat n))"
  using show_nat_digits [of "hd (show_nat n)" n] by simp

lemma parse_u64_show:
  assumes "t = [] \<or> \<not> is_digit (hd t)"
  shows "parse_u64 (TAB # show_nat (unat w) @ t) = Some (w, t)"
proof -
  have "skip_blanks (show_nat (unat w) @ t) = show_nat (unat w) @ t"
    using hd_show_nat digit_field by (intro skip_blanks_field) (auto simp: hd_append)
  moreover have "span_digits (show_nat (unat w) @ t) = (show_nat (unat w), t)"
    using digits_front(2) [OF list_all_show_nat show_nat_ne assms] .
  ultimately show ?thesis
    by (simp add: parse_u64_def digits_val_show_nat)
qed

lemma parse_i32_show:
  assumes "- (2 ^ 31) \<le> z" and "z < 2 ^ 31"
  shows "parse_i32 (TAB # show_int z) = Some (z, [])"
proof -
  have sb: "skip_blanks (show_int z) = show_int z"
    using hd_show_nat digit_field
    by (intro skip_blanks_field) (auto simp: show_int_def is_blank_def)
  have sp: "span_digits (show_nat n) = (show_nat n, [])" for n
    using span_digits_append [of "show_nat n" "[]"] list_all_show_nat by simp
  have sg: "split_sign (show_nat n) = (False, show_nat n)" for n
    using is_digit_not_space_sign [OF hd_show_nat [of n]] by (cases "show_nat n") (auto simp: split_sign_def)
  have w: "wrap_i32 z = z"
    using assms by (simp add: wrap_i32_def signed_take_bit_int_eq_self)
  show ?thesis
  proof (cases "z < 0")
    case True
    then show ?thesis
      using w by (simp add: parse_i32_def sb, simp add: show_int_def split_sign_def sp digits_val_show_nat)
  next
    case False
    then show ?thesis
      using w by (simp add: parse_i32_def sb, simp add: show_int_def sg sp digits_val_show_nat)
  qed
qed

lemma show_int_chars: "c \<in> set (show_int z) \<Longrightarrow> is_field_char c"
  using show_nat_digits digit_field
  by (auto simp: show_int_def is_field_char_def is_blank_def split: if_splits)

lemma parse_swap_line_ok:
  assumes "device_ok d" and "field_ok tp"
  shows "parse_swap_line (swap_line tp d) = Some d"
proof -
  let ?r3 = "TAB # show_int (sd_priority d)"
  let ?r2 = "TAB # show_nat (unat (sd_used_kb d)) @ ?r3"
  let ?r1 = "TAB # show_nat (unat (sd_size_kb d)) @ ?r2"
  have tab: "\<not> is_field_char TAB" "\<not> is_digit TAB"
    by (auto simp: is_field_char_def is_blank_def is_digit_def)
  have name: "takeWhile is_field_char (swap_line tp d) = sd_name d"
    "dropWhile is_field_char (swap_line tp d) = TAB # tp @ ?r1"
    using span_field [of "sd_name d" "TAB # tp @ ?r1"] assms(1) tab
    by (auto simp: swap_line_def device_ok_def field_ok_def)
  have ty: "dropWhile is_field_char (skip_blanks (TAB # tp @ ?r1)) = ?r1"
  proof -
    have "skip_blanks (tp @ ?r1) = tp @ ?r1"
      using assms(2) by (intro skip_blanks_field) (cases tp; auto simp: field_ok_def is_field_char_def)+
    then show ?thesis
      using span_field [of tp ?r1] assms(2) tab by (simp add: field_ok_def)
  qed
  have nul: "c_str (sd_name d) = sd_name d" using assms(1) by (auto simp: device_ok_def field_ok_def c_str_id)
  have zram: "(strstr (sd_name d) ''zram'' \<noteq> None) = sd_is_zram d"
    using assms(1) strstr_Some_iff_contains by (simp add: device_ok_def)
  have u1: "parse_u64 ?r1 = Some (sd_size_kb d, ?r2)" and u2: "parse_u64 ?r2 = Some (sd_used_kb d, ?r3)"
    using parse_u64_show tab by simp_all
  have p: "parse_i32 ?r3 = Some (sd_priority d, [])"
    using assms(1) by (intro parse_i32_show) (auto simp: device_ok_def)
  have len: "take 63 (sd_name d) = sd_name d" using assms(1) by (simp add: device_ok_def)
  show ?thesis
    unfolding parse_swap_line_def Let_def name ty
    using zram by (simp add: u1 u2 p len nul)
qed

lemma swap_line_no_newline: "device_ok d \<Longrightarrow> field_ok tp \<Longrightarrow> NL \<notin> set (swap_line tp d)"
  using show_int_chars [of NL "sd_priority d"] show_nat_digits [of NL] digit_field
  by (auto simp: swap_line_def device_ok_def field_ok_def list_all_iff is_field_char_def)

lemma take_drop_line: "NL \<notin> set l \<Longrightarrow> take_line (l @ NL # t) = l \<and> drop_line (l @ NL # t) = t"
  by (induction l) (auto simp: take_line_def drop_line_def)

lemma parse_swap_lines_ok:
  assumes "list_all device_ok ds" and "field_ok tp" and "fv_size out + length ds \<le> MAX_SWAP_DEVICES"
  shows "fv_items (parse_swap_lines (concat (map (\<lambda>d. swap_line tp d @ [NL]) ds)) out) = fv_items out @ ds"
  using assms
proof (induction ds arbitrary: out)
  case Nil
  show ?case by (subst parse_swap_lines.simps) (simp add: skip_blanks_def)
next
  case (Cons d ds)
  let ?rest = "concat (map (\<lambda>d. swap_line tp d @ [NL]) ds)"
  let ?t = "swap_line tp d @ NL # ?rest"
  have d: "device_ok d" "list_all device_ok ds" using Cons.prems(1) by auto
  then have fd: "field_ok (sd_name d)" by (simp add: device_ok_def)
  then have hd: "sd_name d \<noteq> []" "is_field_char (hd (sd_name d))" by (auto simp: field_ok_def list_all_iff)
  have hdt: "hd ?t = hd (sd_name d)" "?t \<noteq> []" using hd by (auto simp: swap_line_def)
  have sb: "skip_blanks ?t = ?t"
    using hdt hd(2) by (intro skip_blanks_field) (auto simp: is_field_char_def)
  have nl: "hd ?t \<noteq> NL" using hdt hd(2) by (auto simp: is_field_char_def)
  have line: "take_line ?t = swap_line tp d" "drop_line ?t = ?rest"
    using take_drop_line [OF swap_line_no_newline [OF d(1) Cons.prems(2)]] by auto
  have nm: "takeWhile is_field_char (swap_line tp d) \<noteq> []"
    using hd by (cases "sd_name d") (auto simp: swap_line_def)
  have push: "fv_items (snd (fv_push_back MAX_SWAP_DEVICES d out)) = fv_items out @ [d]"
    "fv_size (snd (fv_push_back MAX_SWAP_DEVICES d out)) = fv_size out + 1"
    using Cons.prems(3) by (auto simp: fv_push_back_def fv_simps Let_def)
  have IH: "fv_items (parse_swap_lines ?rest (snd (fv_push_back MAX_SWAP_DEVICES d out))) = fv_items out @ d # ds"
    using Cons.IH [OF d(2) Cons.prems(2)] push Cons.prems(3) by simp
  have "parse_swap_lines ?t out = parse_swap_lines ?rest (snd (fv_push_back MAX_SWAP_DEVICES d out))"
    using sb hdt(2) nl nm line parse_swap_line_ok [OF d(1) Cons.prems(2)] Cons.prems(3)
    by (subst parse_swap_lines.simps) (simp add: Let_def)
  with IH show ?case by simp
qed

text \<open>The percentage tests decide exactly what the integer inequality says.\<close>

lemma usage_pct_quotient:
  assumes "uint used \<le> 2 ^ 46" "0 < uint tot" "uint tot \<le> 2 ^ 46"
  shows "usage_pct used tot = fp_div Binary64 (Fin (of_int (100 * uint used))) (Fin (of_int (uint tot)))"
proof -
  have "fp_of_u64 Binary64 used = Fin (of_int (uint used))" "fp_of_u64 Binary64 tot = Fin (of_int (uint tot))"
    using assms by (simp_all add: fp_of_u64_def fp_of_int_exact)
  moreover have "fp_round Binary64 (of_int (uint used * 100)) = Fin (of_int (uint used * 100))"
    using assms(1) by (intro fp_round_of_int) auto
  ultimately show ?thesis by (simp add: usage_pct_def mult.commute)
qed

lemma usage_pct_lt_iff:
  assumes "uint used \<le> 2 ^ 46" "0 < uint tot" "uint tot \<le> 2 ^ 46" "0 < p" "p \<le> 128"
  shows "fp_lt (usage_pct used tot) (Fin (of_int p)) \<longleftrightarrow> 100 * uint used < p * uint tot"
  unfolding usage_pct_quotient [OF assms(1-3)]
  by (rule fp_quotient_lt_iff) (use assms in auto)

lemma usage_pct_ge_iff:
  assumes "uint used \<le> 2 ^ 46" "0 < uint tot" "uint tot \<le> 2 ^ 46" "0 < p" "p \<le> 128"
  shows "fp_ge (usage_pct used tot) (Fin (of_int p)) \<longleftrightarrow> p * uint tot \<le> 100 * uint used"
  using usage_pct_lt_iff [OF assms] usage_pct_quotient [OF assms(1-3)] fp_quotient [of "100 * uint used" "uint tot"] assms
  by (simp add: not_less [symmetric])

lemma usage_pct_gt_iff:
  assumes "uint used \<le> 2 ^ 46" "0 < uint tot" "uint tot \<le> 2 ^ 46" "0 \<le> p" "p < 127"
  shows "fp_lt (Fin (of_int p)) (usage_pct used tot) \<longleftrightarrow> p * uint tot < 100 * uint used"
  unfolding usage_pct_quotient [OF assms(1-3)]
  by (rule fp_quotient_gt_iff) (use assms in auto)

section \<open>Properties\<close>

definition zram_devices :: "swap_device list \<Rightarrow> swap_device list" where
  "zram_devices ds = filter sd_is_zram ds"

definition disk_devices :: "swap_device list \<Rightarrow> swap_device list" where
  "disk_devices ds = filter (\<lambda>d. \<not> sd_is_zram d) ds"

lemma fold_add_device:
  "st_zram_total_kb (fold add_device ds s) = st_zram_total_kb s + sum_list (map sd_size_kb (zram_devices ds)) \<and>
   st_zram_used_kb (fold add_device ds s) = st_zram_used_kb s + sum_list (map sd_used_kb (zram_devices ds)) \<and>
   st_disk_total_kb (fold add_device ds s) = st_disk_total_kb s + sum_list (map sd_size_kb (disk_devices ds)) \<and>
   st_disk_used_kb (fold add_device ds s) = st_disk_used_kb s + sum_list (map sd_used_kb (disk_devices ds)) \<and>
   st_devices (fold add_device ds s) = st_devices s"
  by (induction ds arbitrary: s) (auto simp: add_device_def zram_devices_def disk_devices_def ac_simps)

text \<open>A refresh understands what the kernel prints: from the text of up to eight devices it
  recovers exactly these devices in order, and the four totals are the sums over the compressed
  and the disk devices.\<close>

theorem swap_refresh_recovers_devices:
  fixes s :: swap_tier
  assumes "list_all device_ok ds" and "ds \<noteq> []" and "length ds \<le> MAX_SWAP_DEVICES" and "field_ok tp"
    and "NL \<notin> set header"
  defines "s' \<equiv> snd (refresh_from (swaps_text header tp ds) s)"
  shows "fst (refresh_from (swaps_text header tp ds) s) \<and> fv_items (st_devices s') = ds \<and>
    st_zram_total_kb s' = sum_list (map sd_size_kb (zram_devices ds)) \<and>
    st_zram_used_kb s' = sum_list (map sd_used_kb (zram_devices ds)) \<and>
    st_disk_total_kb s' = sum_list (map sd_size_kb (disk_devices ds)) \<and>
    st_disk_used_kb s' = sum_list (map sd_used_kb (disk_devices ds))"
proof -
  let ?out = "parse_swap_lines (concat (map (\<lambda>d. swap_line tp d @ [NL]) ds)) (fv_clear (st_devices s))"
  have "drop_line (swaps_text header tp ds) = concat (map (\<lambda>d. swap_line tp d @ [NL]) ds)"
    using take_drop_line [OF assms(5)] by (simp add: swaps_text_def)
  moreover have items: "fv_items ?out = ds"
    using parse_swap_lines_ok [OF assms(1,4), of "fv_clear (st_devices s)"] assms(3)
    by (simp add: fv_clear_def fv_simps)
  moreover have "swaps_text header tp ds \<noteq> []" by (simp add: swaps_text_def)
  ultimately have "parse_swaps_buffer (swaps_text header tp ds) (st_devices s) = (True, ?out)"
    using assms(2) by (simp add: parse_swaps_buffer_def fv_is_empty_def fv_size_def Let_def)
  then show ?thesis
    using items fold_add_device [of ds] by (simp add: s'_def refresh_from_def)
qed

definition zram0 :: swap_device where
  "zram0 = \<lparr>sd_name = ''/dev/zram0'', sd_size_kb = 8000000, sd_used_kb = 1200, sd_priority = 100, sd_is_zram = True\<rparr>"

definition swapfile0 :: swap_device where
  "swapfile0 = \<lparr>sd_name = ''/swap/swapfile'', sd_size_kb = 4000000, sd_used_kb = 0, sd_priority = - 2, sd_is_zram = False\<rparr>"

theorem swap_refresh_recovers_devices_witness:
  "st_zram_total_kb (snd (refresh_from (swaps_text ''Filename'' ''file'' [zram0, swapfile0]) swap_tier_init)) = 8000000 \<and>
   st_disk_total_kb (snd (refresh_from (swaps_text ''Filename'' ''file'' [zram0, swapfile0]) swap_tier_init)) = 4000000"
  using swap_refresh_recovers_devices [of "[zram0, swapfile0]" "''file''" "''Filename''" swap_tier_init]
  by (simp add: zram0_def swapfile0_def device_ok_def field_ok_def is_field_char_def is_blank_def
      starts_with_def zram_devices_def disk_devices_def)

text \<open>A refresh that finds no device at all fails and leaves the totals of the previous refresh
  in place beside an empty device list, so the last swap device that disappears is still
  counted.\<close>

theorem swap_refresh_keeps_stale_totals:
  assumes "NL \<notin> set header"
  shows "refresh_from (swaps_text header tp []) s = (False, s\<lparr>st_devices := fv_clear (st_devices s)\<rparr>)"
proof -
  have "drop_line (swaps_text header tp []) = []" "swaps_text header tp [] \<noteq> []"
    using take_drop_line [OF assms, of "[]"] by (auto simp: swaps_text_def)
  moreover have "parse_swap_lines [] out = out" for out
    by (subst parse_swap_lines.simps) (simp add: skip_blanks_def)
  ultimately show ?thesis
    by (simp add: refresh_from_def parse_swaps_buffer_def Let_def fv_clear_def fv_simps)
qed

theorem swap_refresh_keeps_stale_totals_witness:
  "st_disk_total_kb (snd (refresh_from (swaps_text ''Filename'' ''file'' []) (swap_tier_init\<lparr>st_disk_total_kb := 4000000\<rparr>))) = 4000000"
  using swap_refresh_keeps_stale_totals [of "''Filename''" "''file''" "swap_tier_init\<lparr>st_disk_total_kb := 4000000\<rparr>"] by simp

end
