(* ===== verification/Machines.thy ===== *)
theory Machines
  imports Os_Interface
begin

text \<open>
  What a computation returns and what it is sure to do, whatever the system answers; and two
  contracts that the engines of the daemon share.  An engine is driven by the main loop
  through its operations in any order: what every single operation keeps, every sequence of
  operations keeps.  And an engine with a cooldown spaces its actuations.
\<close>

section \<open>Results and certain events\<close>

text \<open>What every run of a computation returns, whatever the system answers.\<close>

definition yields :: "'a io \<Rightarrow> ('a \<Rightarrow> bool) \<Rightarrow> bool" where
  "yields m Q \<longleftrightarrow> (\<forall>h. Q (fst (run_state m h)))"

lemma yields_return [simp]: "yields (return_io x) Q \<longleftrightarrow> Q x"
  by (simp add: yields_def)

lemma yields_bind: "yields m R \<Longrightarrow> (\<And>x. R x \<Longrightarrow> yields (f x) Q) \<Longrightarrow> yields (m \<bind> f) Q"
  by (auto simp: yields_def split: prod.splits) (metis fst_conv)

lemma yields_any: "(\<And>x. yields (f x) Q) \<Longrightarrow> yields (m \<bind> f) Q"
  by (rule yields_bind [where R = "\<lambda>_. True"]) (auto simp: yields_def)

lemma yields_for:
  "Q s \<Longrightarrow> (\<And>x s. Q s \<Longrightarrow> g s \<Longrightarrow> yields (f x s) Q) \<Longrightarrow> yields (io_for g f xs s) Q"
proof (induction xs arbitrary: s)
  case (Cons x xs)
  then show ?case by (auto intro!: yields_bind [where R = Q])
qed simp

lemma yields_wp: "yields m Q \<Longrightarrow> wp m (\<lambda>x _. Q x) h"
  by (simp add: yields_def wp_run)

text \<open>Some event of a kind is sure to happen.\<close>

definition does :: "(event \<Rightarrow> bool) \<Rightarrow> 'a io \<Rightarrow> bool" where
  "does P m \<longleftrightarrow> (\<forall>h. \<exists>es. snd (run_state m h) = es @ h \<and> (\<exists>e \<in> set es. P e))"

lemma does_first_when:
  "does P m \<Longrightarrow> yields m R \<Longrightarrow> (\<And>x. R x \<Longrightarrow> emits (\<lambda>_. True) (f x)) \<Longrightarrow> does P (m \<bind> f)"
  unfolding does_def
proof
  fix h assume m: "\<forall>h. \<exists>es. snd (run_state m h) = es @ h \<and> (\<exists>e \<in> set es. P e)" and r: "yields m R"
    and f: "\<And>x. R x \<Longrightarrow> emits (\<lambda>_. True) (f x)"
  obtain x h' where run: "run_state m h = (x, h')" by (cases "run_state m h")
  obtain es where "h' = es @ h" "\<exists>e \<in> set es. P e" using m run by (metis snd_conv)
  moreover have "R x" using r run by (metis yields_def fst_conv)
  moreover from this obtain es' where "snd (run_state (f x) h') = es' @ h'" using f [of x] unfolding io_ok_def by blast
  ultimately show "\<exists>es. snd (run_state (m \<bind> f) h) = es @ h \<and> (\<exists>e \<in> set es. P e)"
    using run by (intro exI [of _ "es' @ es"]) auto
qed

lemma does_first: "does P m \<Longrightarrow> (\<And>x. emits (\<lambda>_. True) (f x)) \<Longrightarrow> does P (m \<bind> f)"
  by (rule does_first_when [where R = "\<lambda>_. True"]) (auto simp: yields_def)

lemma does_then: "io_ok (\<lambda>_. True) m R \<Longrightarrow> (\<And>x. R x \<Longrightarrow> does P (f x)) \<Longrightarrow> does P (m \<bind> f)"
  unfolding does_def
proof
  fix h assume m: "io_ok (\<lambda>_. True) m R" and f: "\<And>x. R x \<Longrightarrow> \<forall>h. \<exists>es. snd (run_state (f x) h) = es @ h \<and> (\<exists>e \<in> set es. P e)"
  obtain x h' where run: "run_state m h = (x, h')" by (cases "run_state m h")
  obtain es where "h' = es @ h" using io_okD(1) [OF m run] by blast
  moreover obtain es' where "snd (run_state (f x) h') = es' @ h'" "\<exists>e \<in> set es'. P e"
    using f [OF io_okD(2) [OF m run]] by blast
  ultimately show "\<exists>es. snd (run_state (m \<bind> f) h) = es @ h \<and> (\<exists>e \<in> set es. P e)"
    using run by (intro exI [of _ "es' @ es"]) auto
qed

lemma does_for: "x \<in> set xs \<Longrightarrow> (\<And>s. does P (f x s)) \<Longrightarrow> (\<And>y s. emits (\<lambda>_. True) (f y s)) \<Longrightarrow> does P (io_for (\<lambda>_. True) f xs s)"
proof (induction xs arbitrary: s)
  case (Cons y ys)
  show ?case
  proof (cases "x = y")
    case True
    then show ?thesis using Cons.prems by (auto intro!: does_first emits_for)
  next
    case False
    then show ?thesis using Cons by (auto intro!: does_then [where R = "\<lambda>_. True"])
  qed
qed simp

lemma does_syscall: "(\<And>r. P (ev r)) \<Longrightarrow> does P (syscall f ev)"
  by (simp add: does_def)

lemma does_bind_any: "emits (\<lambda>_. True) m \<Longrightarrow> (\<And>x. does P (f x)) \<Longrightarrow> does P (m \<bind> f)"
  by (rule does_then)

section \<open>Operations in any order\<close>

text \<open>
  \<open>step op\<close> is one call of a public operation, \<open>inv\<close> relates the engine's state to the
  history of system calls.
\<close>

locale io_machine =
  fixes step :: "'op \<Rightarrow> 's \<Rightarrow> 's io"
    and inv :: "'s \<Rightarrow> history \<Rightarrow> bool"
  assumes step_inv: "inv s h \<Longrightarrow> wp (step op s) inv h"
begin

lemma run_inv: "inv s h \<Longrightarrow> wp (io_for (\<lambda>_. True) step ops s) inv h"
  by (rule wp_for) (auto intro: step_inv)

lemma run_final:
  "inv s h \<Longrightarrow> inv (fst (run_state (io_for (\<lambda>_. True) step ops s) h))
     (snd (run_state (io_for (\<lambda>_. True) step ops s) h))"
  using run_inv by (simp add: wp_run)

lemma run_every_prefix:
  "inv s h \<Longrightarrow> wp (io_for (\<lambda>_. True) step (take n ops) s) inv h"
  by (rule run_inv)

end

text \<open>
  An engine whose state satisfies \<open>calm\<close> only makes calls of the kind \<open>P\<close>; the contract of the
  sandbox and of the operations that only read.
\<close>

locale calm_machine =
  fixes step :: "'op \<Rightarrow> 's \<Rightarrow> 's io"
    and calm :: "'s \<Rightarrow> bool"
    and P :: "event \<Rightarrow> bool"
  assumes step_calm: "calm s \<Longrightarrow> io_ok P (step op s) calm"
begin

lemma run_calm: "calm s \<Longrightarrow> io_ok P (io_for (\<lambda>_. True) step ops s) calm"
  by (rule io_ok_for) (auto intro: step_calm)

lemma run_events: "calm s \<Longrightarrow> emits P (io_for (\<lambda>_. True) step ops s)"
  by (rule io_ok_emits [OF run_calm])

end

text \<open>A calm engine keeps every property of the history that its events cannot break.\<close>

sublocale calm_machine \<subseteq> io_machine step "\<lambda>s h. calm s \<and> list_all P h"
proof
  fix s h op
  assume "calm s \<and> list_all P h"
  then show "wp (step op s) (\<lambda>s h. calm s \<and> list_all P h) h"
    using wp_emits [OF step_calm, of s "list_all P" h op] by simp
qed

section \<open>Cooldowns\<close>

text \<open>
  \<open>tick now s s' acted\<close>: one evaluation at time \<open>now\<close>; \<open>paced_run tick s0 acts now s\<close>: a run
  from \<open>s0\<close> under a clock that does not go back, with the times of its actuations, the latest
  first.
\<close>

inductive paced_run :: "(u64 \<Rightarrow> 's \<Rightarrow> 's \<Rightarrow> bool \<Rightarrow> bool) \<Rightarrow> 's \<Rightarrow> u64 list \<Rightarrow> u64 \<Rightarrow> 's \<Rightarrow> bool"
  for tick s0 where
  start: "paced_run tick s0 [] 0 s0"
| idle: "paced_run tick s0 acts t s \<Longrightarrow> t \<le> now \<Longrightarrow> tick now s s' False \<Longrightarrow> paced_run tick s0 acts now s'"
| acting: "paced_run tick s0 acts t s \<Longrightarrow> t \<le> now \<Longrightarrow> 0 < now \<Longrightarrow> tick now s s' True \<Longrightarrow>
    paced_run tick s0 (now # acts) now s'"

fun spaced :: "u64 \<Rightarrow> u64 list \<Rightarrow> bool" where
  "spaced gap (a # b # ts) \<longleftrightarrow> b \<le> a \<and> gap \<le> a - b \<and> spaced gap (b # ts)"
| "spaced gap _ \<longleftrightarrow> True"

locale paced =
  fixes last_run :: "'s \<Rightarrow> u64"
    and gap :: u64
    and tick :: "u64 \<Rightarrow> 's \<Rightarrow> 's \<Rightarrow> bool \<Rightarrow> bool"
  assumes acts: "tick now s s' True \<Longrightarrow>
      last_run s' = now \<and> (last_run s = 0 \<or> now < last_run s \<or> gap \<le> now - last_run s)"
    and idles: "tick now s s' False \<Longrightarrow> last_run s' = last_run s"
begin

lemma run_last:
  assumes "paced_run tick s0 acts t s" and "last_run s0 = 0"
  shows "last_run s = (case acts of [] \<Rightarrow> 0 | a # _ \<Rightarrow> a) \<and> list_all (\<lambda>a. 0 < a \<and> a \<le> t) acts \<and>
    spaced gap acts"
  using assms
proof (induction rule: paced_run.induct)
  case (idle acts t s now s')
  then show ?case using idles by (auto simp: list_all_iff)
next
  case (acting acts t s now s')
  then have IH: "last_run s = (case acts of [] \<Rightarrow> 0 | a # _ \<Rightarrow> a)" "list_all (\<lambda>a. 0 < a \<and> a \<le> t) acts"
    "spaced gap acts" by auto
  have now: "last_run s' = now" "last_run s = 0 \<or> now < last_run s \<or> gap \<le> now - last_run s"
    using acts [OF acting.hyps(4)] by auto
  show ?case
  proof (cases acts)
    case (Cons a as)
    then have a: "last_run s = a" "0 < a" "a \<le> t" using IH by auto
    with acting.hyps(2) have "a \<le> now" by auto
    moreover from this have "gap \<le> now - a" using now(2) a by auto
    ultimately show ?thesis using Cons now(1) IH acting.hyps(2,3) by (auto simp: list_all_iff)
  qed (use now(1) acting.hyps in auto)
qed auto

lemma run_spaced: "paced_run tick s0 acts t s \<Longrightarrow> last_run s0 = 0 \<Longrightarrow> spaced gap acts"
  using run_last by blast

end

end
