(* ===== verification/Swap_Expander.thy ===== *)
theory Swap_Expander
  imports Swap_Tier Machines
begin

text \<open>
  The swap expander (\<^verbatim>\<open>src/policy/swap_expander.cpp\<close>): dynamic swap files that grow the swap
  tier under pressure and are given back afterwards, and the migration of an oversized base
  swap file to a smaller one.  The slow work runs in forked children; a child's own program is
  \<open>create_swapfile_child\<close> and its companions, the parent sees only the exit status.
\<close>

section \<open>Constants and state\<close>

definition INCREMENT_BYTES :: u64 where [code_consts]: "INCREMENT_BYTES = 8589934592"
definition DISK_FREE_FLOOR_BYTES :: u64 where [code_consts]: "DISK_FREE_FLOOR_BYTES = 21474836480"
definition EXPAND_SWAP_FREE_MIN_KB :: u64 where [code_consts]: "EXPAND_SWAP_FREE_MIN_KB = 6291456"
definition TARGET_BASE_SIZE_BYTES :: u64 where [code_consts]: "TARGET_BASE_SIZE_BYTES = 8589934592"
definition MIN_ELIGIBLE_BASE_SIZE_BYTES :: u64 where [code_consts]: "MIN_ELIGIBLE_BASE_SIZE_BYTES = 17179869184"
definition MAX_WINDOW_PEAK_USED_KB :: u64 where
  [code_consts]: "MAX_WINDOW_PEAK_USED_KB = TARGET_BASE_SIZE_BYTES div 1024 * 70 div 100"
definition OBSERVATION_WINDOW_SEC :: u64 where [code_consts]: "OBSERVATION_WINDOW_SEC = 7200"
definition MIN_FS_FREE_FOR_MIGRATE :: u64 where [code_consts]: "MIN_FS_FREE_FOR_MIGRATE = 17179869184"
definition BASE_MIGRATION_COOLDOWN_SEC :: u64 where [code_consts]: "BASE_MIGRATION_COOLDOWN_SEC = 86400"

abbreviation "MAX_FILES \<equiv> (4 :: nat)"

definition BASE_SWAP_PATH :: string where "BASE_SWAP_PATH = ''/swap/swapfile''"
definition BASE_SWAP_NEW_PATH :: string where "BASE_SWAP_NEW_PATH = ''/swap/swapfile.new''"
definition SWAP_DIR :: string where "SWAP_DIR = ''/swap''"

datatype migration_state = MigIdle | CreatingNew | SwappingOffOld | MigCompleted

record swap_expander =
  se_files :: "string list"
  se_pending_pid :: pid
  se_pending_path :: string
  se_state :: migration_state
  se_base_child :: pid
  se_window_start :: u64
  se_peak_used_kb :: u64
  se_last_migration :: u64

definition swap_expander_init :: swap_expander where
  "swap_expander_init = \<lparr>se_files = [], se_pending_pid = - 1, se_pending_path = [], se_state = MigIdle,
     se_base_child = - 1, se_window_start = 0, se_peak_used_kb = 0, se_last_migration = 0\<rparr>"

definition active_count :: "swap_expander \<Rightarrow> nat" where
  "active_count s = length (se_files s)"

definition added_bytes :: "swap_expander \<Rightarrow> u64" where
  "added_bytes s = of_nat (active_count s) * INCREMENT_BYTES"

section \<open>Decisions\<close>

definition pct_of :: "u64 \<Rightarrow> u64 \<Rightarrow> float64" where
  "pct_of part whole = (if whole = 0 then Fin 100 else usage_pct part whole)"

definition should_expand :: "u64 \<Rightarrow> u64 \<Rightarrow> bool" where
  "should_expand swap_total_kb swap_free_kb =
     (if swap_total_kb = 0 then False
      else fp_lt (pct_of swap_free_kb swap_total_kb) (Fin 25) \<or> swap_free_kb < EXPAND_SWAP_FREE_MIN_KB)"

definition budget_allows :: "u64 \<Rightarrow> nat \<Rightarrow> bool" where
  "budget_allows fs_free_bytes active_files =
     (if MAX_FILES \<le> active_files then False
      else if fs_free_bytes = 0 then False
      else INCREMENT_BYTES + DISK_FREE_FLOOR_BYTES \<le> fs_free_bytes)"

definition used_of :: "u64 \<Rightarrow> u64 \<Rightarrow> u64" where
  "used_of total_kb free_kb = (if free_kb < total_kb then total_kb - free_kb else 0)"

definition safe_to_release :: "u64 \<Rightarrow> u64 \<Rightarrow> u64 \<Rightarrow> bool" where
  "safe_to_release swap_total_kb swap_free_kb file_bytes =
     (if swap_total_kb = 0 then True
      else let file_kb = file_bytes div 1024
      in if swap_total_kb \<le> file_kb then False
         else fp_lt (fp_of_u64 Binary64 (used_of swap_total_kb swap_free_kb))
                (mul64 (fp_of_u64 Binary64 (swap_total_kb - file_kb)) (lit64 (70 / 100))))"

definition is_eligible_for_right_sizing :: "u64 \<Rightarrow> u64 \<Rightarrow> u64 \<Rightarrow> u64 \<Rightarrow> bool" where
  "is_eligible_for_right_sizing window_sec peak_used_kb base_size fs_free \<longleftrightarrow>
     OBSERVATION_WINDOW_SEC \<le> window_sec \<and> peak_used_kb \<le> MAX_WINDOW_PEAK_USED_KB \<and>
     MIN_ELIGIBLE_BASE_SIZE_BYTES \<le> base_size \<and> MIN_FS_FREE_FOR_MIGRATE \<le> fs_free"

definition is_safe_to_migrate :: "u64 \<Rightarrow> u64 \<Rightarrow> u64 \<Rightarrow> bool" where
  "is_safe_to_migrate used_kb target_bytes fs_free \<longleftrightarrow>
     used_kb \<le> target_bytes div 1024 * 70 div 100 \<and> MIN_FS_FREE_FOR_MIGRATE \<le> fs_free"

definition dyn_path :: "nat \<Rightarrow> string" where
  "dyn_path i = SWAP_DIR @ ''/'' @ ''wattcurb-dyn-'' @ show_nat i @ ''.swap''"

section \<open>Questions to the system\<close>

definition swap_dir_free_bytes :: "kernel \<Rightarrow> u64 io" where
  "swap_dir_free_bytes k = do {
     r \<leftarrow> sys_statvfs k SWAP_DIR;
     return_io (case r of None \<Rightarrow> 0 | Some v \<Rightarrow> f_bavail v * f_frsize v)
   }"

definition dir_is_btrfs :: "kernel \<Rightarrow> bool io" where
  "dir_is_btrfs k = do { r \<leftarrow> sys_statfs_type k SWAP_DIR; return_io (r = Some 0x9123683E) }"

definition is_swap_active :: "kernel \<Rightarrow> string \<Rightarrow> bool io" where
  "is_swap_active k path = do {
     r \<leftarrow> read_small_file k ''/proc/swaps'' 4096;
     return_io (case r of None \<Rightarrow> False | Some s \<Rightarrow> s \<noteq> [] \<and> strstr (c_str s) path \<noteq> None)
   }"

definition get_file_size_bytes :: "kernel \<Rightarrow> string \<Rightarrow> u64 io" where
  "get_file_size_bytes k path = do {
     r \<leftarrow> sys_stat k path; return_io (case r of None \<Rightarrow> 0 | Some st \<Rightarrow> of_int (st_size st)) }"

definition budget_exhausted :: "kernel \<Rightarrow> swap_expander \<Rightarrow> bool io" where
  "budget_exhausted k s = do { b \<leftarrow> swap_dir_free_bytes k; return_io (\<not> budget_allows b (active_count s)) }"

section \<open>The children\<close>

definition BTRFS_BIN :: string where "BTRFS_BIN = ''/usr/bin/btrfs''"
definition MKSWAP_BIN :: string where "MKSWAP_BIN = ''/usr/sbin/mkswap''"
definition MKSWAP_BIN_ALT :: string where "MKSWAP_BIN_ALT = ''/usr/bin/mkswap''"

text \<open>The exit status of each child.\<close>

definition create_swapfile_child :: "kernel \<Rightarrow> bool \<Rightarrow> string \<Rightarrow> u64 \<Rightarrow> int io" where
  "create_swapfile_child k btrfs path size_bytes =
     (if btrfs
      then do {
        r \<leftarrow> sys_exec k BTRFS_BIN [''btrfs'', ''filesystem'', ''mkswapfile'', ''--size'',
               show_nat (unat (drop_bit 30 size_bytes)) @ ''g'', path];
        return_io (case r of Some st \<Rightarrow> st | None \<Rightarrow> 127)
      }
      else do {
        ok \<leftarrow> sys_open_write k path;
        if \<not> ok then return_io 120
        else do {
          al \<leftarrow> sys_fallocate k path size_bytes;
          if \<not> al then do { sys_unlink k path; return_io 121 }
          else do {
            r \<leftarrow> sys_exec k MKSWAP_BIN [''mkswap'', path];
            case r of Some st \<Rightarrow> return_io st
            | None \<Rightarrow> do {
                r \<leftarrow> sys_exec k MKSWAP_BIN_ALT [''mkswap'', path];
                case r of Some st \<Rightarrow> return_io st
                | None \<Rightarrow> do { sys_unlink k path; return_io 127 } }
          }}})"

definition swapoff_child :: "kernel \<Rightarrow> string \<Rightarrow> int io" where
  "swapoff_child k path = do { ok \<leftarrow> sys_swapoff k path; return_io (if ok then 0 else 1) }"

definition release_child :: "kernel \<Rightarrow> string \<Rightarrow> int io" where
  "release_child k path = do {
     ok \<leftarrow> sys_swapoff k path;
     if ok then do { sys_unlink k path; return_io 0 } else return_io 1
   }"

definition spawn_create_size :: "kernel \<Rightarrow> string \<Rightarrow> u64 \<Rightarrow> pid io" where
  "spawn_create_size k path size_bytes = do {
     b \<leftarrow> dir_is_btrfs k;
     btrfs \<leftarrow> (if b then sys_access_x k BTRFS_BIN else return_io False);
     sys_fork k (CreateSwapfile btrfs path size_bytes)
   }"

section \<open>Dynamic files\<close>

definition initialize_one :: "globals \<Rightarrow> kernel \<Rightarrow> nat \<Rightarrow> swap_expander \<Rightarrow> swap_expander io" where
  "initialize_one g k i s = do {
     st \<leftarrow> sys_stat k (dyn_path i);
     if st = None then return_io s
     else do {
       act \<leftarrow> is_swap_active k (dyn_path i);
       if act then do {
         log_event (EvAlert ''SWAP'');
         return_io (if active_count s < MAX_FILES then s\<lparr>se_files := se_files s @ [dyn_path i]\<rparr> else s)
       }
       else if gl_sandbox g then return_io s
       else do { sys_unlink k (dyn_path i); log_event (EvAlert ''SWAP''); return_io s }
     }
   }"

definition expander_initialize :: "globals \<Rightarrow> kernel \<Rightarrow> swap_expander \<Rightarrow> swap_expander io" where
  "expander_initialize g k s = io_for (\<lambda>_. True) (initialize_one g k) [0..<MAX_FILES] s"

text \<open>The lowest index whose file does not exist.\<close>

fun free_index :: "kernel \<Rightarrow> nat list \<Rightarrow> nat option io" where
  "free_index k [] = return_io None"
| "free_index k (i # is) = do {
     st \<leftarrow> sys_stat k (dyn_path i);
     if st = None then return_io (Some i) else free_index k is
   }"

definition ensure_headroom :: "globals \<Rightarrow> kernel \<Rightarrow> u64 \<Rightarrow> u64 \<Rightarrow> swap_expander \<Rightarrow> (bool \<times> swap_expander) io" where
  "ensure_headroom g k swap_total_kb swap_free_kb s =
     (if 0 < se_pending_pid s then return_io (True, s)
      else if \<not> should_expand swap_total_kb swap_free_kb then return_io (False, s)
      else do {
        free_bytes \<leftarrow> swap_dir_free_bytes k;
        if \<not> budget_allows free_bytes (active_count s) then return_io (False, s)
        else do {
          idx \<leftarrow> free_index k [0..<MAX_FILES];
          case idx of None \<Rightarrow> return_io (False, s)
          | Some i \<Rightarrow>
              (if gl_sandbox g then return_io (False, s)
               else do {
                 p \<leftarrow> spawn_create_size k (dyn_path i) INCREMENT_BYTES;
                 if p < 0 then return_io (False, s)
                 else do {
                   log_event (EvAlert ''SWAP'');
                   return_io (True, s\<lparr>se_pending_pid := p, se_pending_path := dyn_path i\<rparr>)
                 }})
        }})"

definition poll_pending :: "kernel \<Rightarrow> swap_expander \<Rightarrow> swap_expander io" where
  "poll_pending k s =
     (if se_pending_pid s \<le> 0 then return_io s
      else do {
        r \<leftarrow> sys_waitpid k (se_pending_pid s);
        if r = StillRunning then return_io s
        else do {
          let path = se_pending_path s;
          let s = s\<lparr>se_pending_pid := - 1, se_pending_path := []\<rparr>;
          if r \<noteq> Exited 0 then do { sys_unlink k path; log_event (EvAlert ''SWAP''); return_io s }
          else do {
            on \<leftarrow> sys_swapon k path 0;
            if \<not> on then do { sys_unlink k path; log_event (EvAlert ''SWAP''); return_io s }
            else do {
              log_event (EvAlert ''SWAP'');
              return_io (if active_count s < MAX_FILES then s\<lparr>se_files := se_files s @ [path]\<rparr> else s)
            }}}})"

definition maybe_release :: "globals \<Rightarrow> kernel \<Rightarrow> u64 \<Rightarrow> u64 \<Rightarrow> swap_expander \<Rightarrow> swap_expander io" where
  "maybe_release g k swap_total_kb swap_free_kb s =
     (if active_count s = 0 \<or> 0 < se_pending_pid s then return_io s
      else if gl_sandbox g then return_io s
      else if \<not> safe_to_release swap_total_kb swap_free_kb INCREMENT_BYTES then return_io s
      else do {
        p \<leftarrow> sys_fork k (SwapoffAndUnlink (last (se_files s)));
        if p < 0 then return_io s
        else do {
          sys_waitpid k p;
          log_event (EvAlert ''SWAP'');
          return_io (s\<lparr>se_files := butlast (se_files s)\<rparr>)
        }})"

section \<open>Base migration\<close>

definition start_window :: "u64 \<Rightarrow> u64 \<Rightarrow> swap_expander \<Rightarrow> swap_expander" where
  "start_window now_sec used_kb s =
     (let s = (if se_window_start s = 0 then s\<lparr>se_window_start := now_sec, se_peak_used_kb := used_kb\<rparr> else s)
      in if se_peak_used_kb s < used_kb then s\<lparr>se_peak_used_kb := used_kb\<rparr> else s)"

definition migration_cooling :: "u64 \<Rightarrow> swap_expander \<Rightarrow> bool" where
  "migration_cooling now_sec s \<longleftrightarrow>
     0 < se_last_migration s \<and> now_sec - se_last_migration s < BASE_MIGRATION_COOLDOWN_SEC"

definition evaluate_base_right_sizing ::
  "globals \<Rightarrow> kernel \<Rightarrow> u64 \<Rightarrow> u64 \<Rightarrow> u64 \<Rightarrow> swap_expander \<Rightarrow> swap_expander io" where
  "evaluate_base_right_sizing g k now_sec swap_total_kb swap_free_kb s =
     (if se_state s \<noteq> MigIdle then return_io s
      else if migration_cooling now_sec s then return_io s
      else do {
        let used_kb = used_of swap_total_kb swap_free_kb;
        let s = start_window now_sec used_kb s;
        if MAX_WINDOW_PEAK_USED_KB < used_kb
        then return_io (s\<lparr>se_window_start := now_sec, se_peak_used_kb := used_kb\<rparr>)
        else do {
          let elapsed = (if se_window_start s \<le> now_sec then now_sec - se_window_start s else 0);
          base_size \<leftarrow> get_file_size_bytes k BASE_SWAP_PATH;
          fs_free \<leftarrow> swap_dir_free_bytes k;
          if \<not> is_eligible_for_right_sizing elapsed (se_peak_used_kb s) base_size fs_free then return_io s
          else if \<not> is_safe_to_migrate used_kb TARGET_BASE_SIZE_BYTES fs_free then return_io s
          else do {
            act \<leftarrow> is_swap_active k BASE_SWAP_PATH;
            if \<not> act then return_io s
            else if gl_sandbox g then return_io s
            else do {
              sys_unlink k BASE_SWAP_NEW_PATH;
              p \<leftarrow> spawn_create_size k BASE_SWAP_NEW_PATH TARGET_BASE_SIZE_BYTES;
              if p < 0 then return_io s
              else do {
                log_event (EvAlert ''SWAP'');
                return_io (s\<lparr>se_base_child := p, se_state := CreatingNew\<rparr>)
              }}}}})"

definition after_create :: "kernel \<Rightarrow> bool \<Rightarrow> swap_expander \<Rightarrow> swap_expander io" where
  "after_create k child_ok s =
     (if \<not> child_ok
      then do { sys_unlink k BASE_SWAP_NEW_PATH; log_event (EvAlert ''SWAP''); return_io (s\<lparr>se_state := MigIdle\<rparr>) }
      else do {
        on \<leftarrow> sys_swapon k BASE_SWAP_NEW_PATH 0;
        if \<not> on
        then do { sys_unlink k BASE_SWAP_NEW_PATH; log_event (EvAlert ''SWAP''); return_io (s\<lparr>se_state := MigIdle\<rparr>) }
        else do {
          off \<leftarrow> sys_fork k (SwapoffOnly BASE_SWAP_PATH);
          if off < 0
          then do { sys_swapoff k BASE_SWAP_NEW_PATH; sys_unlink k BASE_SWAP_NEW_PATH;
                    return_io (s\<lparr>se_state := MigIdle\<rparr>) }
          else do {
            log_event (EvAlert ''SWAP'');
            return_io (s\<lparr>se_base_child := off, se_state := SwappingOffOld\<rparr>)
          }}})"

text \<open>The success branch leaves \<open>MigCompleted\<close> behind only for the assignment that follows it.\<close>

definition after_swapoff :: "kernel \<Rightarrow> bool \<Rightarrow> swap_expander \<Rightarrow> swap_expander io" where
  "after_swapoff k child_ok s =
     (if \<not> child_ok
      then do { sys_swapoff k BASE_SWAP_NEW_PATH; sys_unlink k BASE_SWAP_NEW_PATH;
                log_event (EvAlert ''SWAP''); return_io (s\<lparr>se_state := MigIdle\<rparr>) }
      else do {
        sys_unlink k BASE_SWAP_PATH;
        moved \<leftarrow> sys_rename k BASE_SWAP_NEW_PATH BASE_SWAP_PATH;
        s \<leftarrow> (if moved
              then do {
                now \<leftarrow> sys_now_real k;
                log_event (EvAlert ''SWAP'');
                return_io (s\<lparr>se_state := MigCompleted, se_last_migration := now, se_window_start := 0\<rparr>) }
              else do { sys_rename k BASE_SWAP_NEW_PATH BASE_SWAP_PATH; return_io s });
        return_io (s\<lparr>se_state := MigIdle\<rparr>)
      })"

definition poll_base_migration :: "kernel \<Rightarrow> swap_expander \<Rightarrow> swap_expander io" where
  "poll_base_migration k s =
     (if se_state s = MigIdle then return_io s
      else if se_base_child s \<le> 0 then return_io s
      else do {
        r \<leftarrow> sys_waitpid k (se_base_child s);
        if r = StillRunning then return_io s
        else do {
          let s = s\<lparr>se_base_child := - 1\<rparr>;
          case se_state s of
            CreatingNew \<Rightarrow> after_create k (r = Exited 0) s
          | SwappingOffOld \<Rightarrow> after_swapoff k (r = Exited 0) s
          | _ \<Rightarrow> return_io s
        }})"

section \<open>The migration never loses the swap space\<close>

text \<open>\<open>new_on h\<close>: the last call of the history that touched the new base file switched it on.\<close>

fun new_on :: "history \<Rightarrow> bool" where
  "new_on [] = False"
| "new_on (e # h) =
     (case e of
        EvSwapon p _ ok \<Rightarrow> (if p = BASE_SWAP_NEW_PATH then ok else new_on h)
      | EvSwapoff p _ \<Rightarrow> (if p = BASE_SWAP_NEW_PATH then False else new_on h)
      | EvUnlink p _ \<Rightarrow> (if p = BASE_SWAP_NEW_PATH then False else new_on h)
      | _ \<Rightarrow> new_on h)"

definition is_dyn_path :: "string \<Rightarrow> bool" where
  "is_dyn_path p \<longleftrightarrow> p \<in> set (map dyn_path [0..<MAX_FILES])"

text \<open>
  What every event needs of the history before it: the old base file is deleted only directly
  after the child that switched it off reported success, with the new one on; it is switched
  off only with the new one on; and files are created and released only under their fixed
  names and sizes.
\<close>

fun confirmed_off :: "history \<Rightarrow> bool" where
  "confirmed_off [] = False"
| "confirmed_off (e # h) =
     (case e of
        EvWait p r \<Rightarrow> r = Exited 0 \<and> EvFork (SwapoffOnly BASE_SWAP_PATH) p \<in> set h \<and> new_on h
      | _ \<Rightarrow> False)"

fun job_safe :: "child_job \<Rightarrow> history \<Rightarrow> bool" where
  "job_safe (SwapoffOnly p) h = (p = BASE_SWAP_PATH \<and> new_on h)"
| "job_safe (SwapoffAndUnlink p) h = is_dyn_path p"
| "job_safe (CreateSwapfile _ p sz) h = (sz = INCREMENT_BYTES \<and> (p = BASE_SWAP_NEW_PATH \<or> is_dyn_path p))"

definition event_safe :: "event \<Rightarrow> history \<Rightarrow> bool" where
  "event_safe e h =
     (case e of
        EvUnlink p _ \<Rightarrow> (if p = BASE_SWAP_PATH then confirmed_off h else p = BASE_SWAP_NEW_PATH \<or> is_dyn_path p)
      | EvFork job _ \<Rightarrow> job_safe job h
      | EvSwapoff p _ \<Rightarrow> p = BASE_SWAP_NEW_PATH
      | EvKill _ _ \<Rightarrow> False
      | _ \<Rightarrow> True)"

fun safe_history :: "history \<Rightarrow> bool" where
  "safe_history [] = True"
| "safe_history (e # h) = (event_safe e h \<and> safe_history h)"

definition expander_inv :: "swap_expander \<Rightarrow> history \<Rightarrow> bool" where
  "expander_inv s h \<longleftrightarrow> safe_history h \<and> active_count s \<le> MAX_FILES \<and>
     list_all is_dyn_path (se_files s) \<and> (0 < se_pending_pid s \<longrightarrow> is_dyn_path (se_pending_path s)) \<and>
     (se_state s = SwappingOffOld \<and> 0 < se_base_child s \<longrightarrow>
        new_on h \<and> EvFork (SwapoffOnly BASE_SWAP_PATH) (se_base_child s) \<in> set h)"

lemma dyn_path_neq: "is_dyn_path p \<Longrightarrow> p \<noteq> BASE_SWAP_PATH \<and> p \<noteq> BASE_SWAP_NEW_PATH"
proof -
  assume "is_dyn_path p"
  then obtain i where "p = dyn_path i" unfolding is_dyn_path_def by auto
  then have "last p = CHR ''p''" by (simp add: dyn_path_def)
  moreover have "last BASE_SWAP_PATH = CHR ''e''" "last BASE_SWAP_NEW_PATH = CHR ''w''"
    by (simp_all add: BASE_SWAP_PATH_def BASE_SWAP_NEW_PATH_def)
  ultimately show ?thesis by auto
qed

lemma base_paths_neq [simp]: "BASE_SWAP_NEW_PATH \<noteq> BASE_SWAP_PATH" "BASE_SWAP_PATH \<noteq> BASE_SWAP_NEW_PATH"
  by (simp_all add: BASE_SWAP_PATH_def BASE_SWAP_NEW_PATH_def)

lemma is_dyn_path_index: "i < MAX_FILES \<Longrightarrow> is_dyn_path (dyn_path i)"
  by (auto simp: is_dyn_path_def)

lemma target_is_increment [simp]: "TARGET_BASE_SIZE_BYTES = INCREMENT_BYTES"
  by (simp add: TARGET_BASE_SIZE_BYTES_def INCREMENT_BYTES_def)

lemmas question_defs = swap_dir_free_bytes_def dir_is_btrfs_def is_swap_active_def get_file_size_bytes_def
  read_small_file_def spawn_create_size_def

text \<open>Events that neither touch the new base file nor need anything.\<close>

definition neutral_event :: "event \<Rightarrow> bool" where
  "neutral_event e = (case e of EvAlert _ \<Rightarrow> True | EvWait _ _ \<Rightarrow> True | _ \<Rightarrow> is_read_event e)"

lemma neutral_keeps: "neutral_event e \<Longrightarrow> expander_inv s h \<Longrightarrow> expander_inv s (e # h)"
  by (cases e) (auto simp: expander_inv_def event_safe_def neutral_event_def)

lemma wp_neutral: "emits neutral_event m \<Longrightarrow> expander_inv s h \<Longrightarrow> wp m (\<lambda>_. expander_inv s) h"
  using wp_emits [of neutral_event m "\<lambda>_. True" "expander_inv s" h] neutral_keeps
  by (auto elim: wp_mono)

lemma emits_questions:
  "emits neutral_event (swap_dir_free_bytes k)" "emits neutral_event (dir_is_btrfs k)"
  "emits neutral_event (is_swap_active k p)" "emits neutral_event (get_file_size_bytes k p)"
  unfolding question_defs sys_defs by (intro io_rules; simp add: neutral_event_def)+

lemma wp_neutral_bind:
  "emits neutral_event m \<Longrightarrow> expander_inv s h \<Longrightarrow> (\<And>x h'. expander_inv s h' \<Longrightarrow> wp (f x) Q h') \<Longrightarrow>
   wp (m \<bind> f) Q h"
  unfolding wp_bind by (rule wp_mono [OF wp_neutral])

text \<open>One lemma per kind of call the expander makes.\<close>

lemma inv_alert: "expander_inv s h \<Longrightarrow> expander_inv s (EvAlert c # h)"
  by (rule neutral_keeps) (simp_all add: neutral_event_def)

lemma inv_wait: "expander_inv s h \<Longrightarrow> expander_inv s (EvWait p r # h)"
  by (rule neutral_keeps) (simp_all add: neutral_event_def)

lemma inv_clock: "expander_inv s h \<Longrightarrow> expander_inv s (EvClock # h)"
  by (rule neutral_keeps) (simp_all add: neutral_event_def)

lemma inv_access: "expander_inv s h \<Longrightarrow> expander_inv s (EvAccess p # h)"
  by (rule neutral_keeps) (simp_all add: neutral_event_def)

lemma inv_dyn_file:
  assumes "expander_inv s h" and "is_dyn_path p"
  shows "expander_inv s (EvUnlink p ok # h)" and "expander_inv s (EvSwapon p fl ok # h)"
    and "expander_inv s (EvFork (CreateSwapfile b p INCREMENT_BYTES) q # h)"
    and "expander_inv s (EvFork (SwapoffAndUnlink p) q # h)"
  using assms dyn_path_neq [OF assms(2)] by (auto simp: expander_inv_def event_safe_def)

text \<open>The parts of the invariant that speak of the state.\<close>

lemma inv_update:
  assumes "expander_inv s h" and "is_dyn_path p" and "active_count s < MAX_FILES"
  shows "expander_inv (s\<lparr>se_files := se_files s @ [p]\<rparr>) h"
  using assms by (auto simp: expander_inv_def active_count_def)

lemma inv_state_changes:
  assumes "expander_inv s h"
  shows "expander_inv (s\<lparr>se_pending_pid := - 1, se_pending_path := []\<rparr>) h"
    and "is_dyn_path p \<Longrightarrow> expander_inv (s\<lparr>se_pending_pid := q, se_pending_path := p\<rparr>) h"
    and "expander_inv (s\<lparr>se_files := butlast (se_files s)\<rparr>) h"
    and "expander_inv (s\<lparr>se_window_start := w, se_peak_used_kb := u\<rparr>) h"
    and "expander_inv (s\<lparr>se_peak_used_kb := u\<rparr>) h"
    and "expander_inv (s\<lparr>se_base_child := q, se_state := CreatingNew\<rparr>) h"
    and "expander_inv (s\<lparr>se_state := MigIdle\<rparr>) h"
    and "expander_inv (s\<lparr>se_state := MigCompleted, se_last_migration := w, se_window_start := u\<rparr>) h"
    and "expander_inv (s\<lparr>se_base_child := - 1\<rparr>) h"
  using assms by (auto simp: expander_inv_def active_count_def list_all_iff dest: in_set_butlastD)

lemma inv_start_window: "expander_inv s h \<Longrightarrow> expander_inv (start_window n u s) h"
  by (auto simp: start_window_def Let_def intro: inv_state_changes)

lemma wp_initialize_one:
  assumes "expander_inv s h" and "i < MAX_FILES"
  shows "wp (initialize_one g k i s) expander_inv h"
  unfolding initialize_one_def
proof (rule wp_neutral_bind [OF _ assms(1)])
  show "emits neutral_event (sys_stat k (dyn_path i))"
    unfolding sys_stat_def by (intro io_rules) (simp add: neutral_event_def)
  fix st h' assume inv: "expander_inv s h'"
  note dyn = is_dyn_path_index [OF assms(2)]
  show "wp (if st = None then return_io s else do {
       act \<leftarrow> is_swap_active k (dyn_path i);
       if act then do {
         log_event (EvAlert ''SWAP'');
         return_io (if active_count s < MAX_FILES then s\<lparr>se_files := se_files s @ [dyn_path i]\<rparr> else s)
       }
       else if gl_sandbox g then return_io s
       else do { sys_unlink k (dyn_path i); log_event (EvAlert ''SWAP''); return_io s }
     }) expander_inv h'"
    using inv
    by (auto simp: wp_return wp_if intro!: wp_neutral_bind [OF emits_questions(3) inv])
      (auto simp: sys_defs wp_simps intro!: inv_alert inv_update inv_dyn_file dyn)
qed

lemma wp_free_index:
  "expander_inv s h \<Longrightarrow> wp (free_index k is) (\<lambda>r h'. expander_inv s h' \<and> (\<forall>i. r = Some i \<longrightarrow> i \<in> set is)) h"
proof (induction "is" arbitrary: h)
  case (Cons i "is")
  have "emits neutral_event (sys_stat k (dyn_path i))"
    unfolding sys_stat_def by (intro io_rules) (simp add: neutral_event_def)
  then show ?case
    unfolding free_index.simps
    by (rule wp_neutral_bind [OF _ Cons.prems]) (auto simp: wp_simps intro!: wp_mono [OF Cons.IH])
qed (simp add: wp_simps)

lemma wp_spawn_create:
  assumes "expander_inv s h" and "p = BASE_SWAP_NEW_PATH \<or> is_dyn_path p"
  shows "wp (spawn_create_size k p INCREMENT_BYTES) (\<lambda>_. expander_inv s) h"
proof -
  have fork: "expander_inv s h' \<Longrightarrow> expander_inv s (EvFork (CreateSwapfile b p INCREMENT_BYTES) q # h')" for h' b q
    using assms(2) by (auto simp: expander_inv_def event_safe_def)
  show ?thesis
    unfolding spawn_create_size_def
    by (rule wp_neutral_bind [OF emits_questions(2) assms(1)])
      (auto simp: sys_defs wp_simps intro!: fork inv_access)
qed

lemma wp_ensure_headroom:
  assumes "expander_inv s h"
  shows "wp (ensure_headroom g k t f s) (\<lambda>(_, s') h'. expander_inv s' h') h"
proof -
  have spawn: "wp (do {
       p \<leftarrow> spawn_create_size k (dyn_path i) INCREMENT_BYTES;
       if p < 0 then return_io (False, s)
       else do { log_event (EvAlert ''SWAP'');
                 return_io (True, s\<lparr>se_pending_pid := p, se_pending_path := dyn_path i\<rparr>) }})
     (\<lambda>(_, s') h'. expander_inv s' h') h'" if "expander_inv s h'" "i < MAX_FILES" for h' i
    unfolding wp_bind
    by (rule wp_mono, rule wp_spawn_create [OF that(1)])
      (auto simp: log_event_def wp_simps is_dyn_path_index that(2) intro!: inv_alert inv_state_changes)
  have idx: "wp (free_index k [0..<MAX_FILES]) (\<lambda>r h'. expander_inv s h' \<and> (\<forall>i. r = Some i \<longrightarrow> i < MAX_FILES)) h'"
    if "expander_inv s h'" for h'
    using wp_free_index [OF that, of k "[0..<MAX_FILES]"] by (rule wp_mono) auto
  show ?thesis
    unfolding ensure_headroom_def
    using assms
    by (auto simp: wp_return intro!: wp_neutral_bind [OF emits_questions(1) assms])
      (auto simp: wp_return wp_bind [of "free_index _ _"] intro!: wp_mono [OF idx] spawn split: option.splits)
qed

lemma wp_poll_pending: "expander_inv s h \<Longrightarrow> wp (poll_pending k s) expander_inv h"
  by (auto simp: poll_pending_def sys_defs wp_simps Let_def expander_inv_def event_safe_def active_count_def
      dest: dyn_path_neq)

lemma wp_maybe_release: "expander_inv s h \<Longrightarrow> wp (maybe_release g k t f s) expander_inv h"
proof -
  assume inv: "expander_inv s h"
  have dyn: "is_dyn_path (last (se_files s))" if "active_count s \<noteq> 0"
    using inv that by (auto simp: expander_inv_def active_count_def list_all_iff)
  show ?thesis
    using inv dyn
    by (auto simp: maybe_release_def sys_defs wp_simps intro!: inv_alert inv_wait inv_state_changes inv_dyn_file)
qed

text \<open>The calls of the migration on its own two files.\<close>

lemma inv_new_file:
  assumes "expander_inv s h" and "se_state s \<noteq> SwappingOffOld \<or> se_base_child s \<le> 0"
  shows "expander_inv s (EvUnlink BASE_SWAP_NEW_PATH ok # h)"
    and "expander_inv s (EvSwapon BASE_SWAP_NEW_PATH fl ok # h)"
    and "expander_inv s (EvSwapoff BASE_SWAP_NEW_PATH ok # h)"
  using assms by (auto simp: expander_inv_def event_safe_def)

lemma inv_rename: "expander_inv s h \<Longrightarrow> expander_inv s (EvRename p q ok # h)"
  by (auto simp: expander_inv_def event_safe_def)

lemma wp_evaluate:
  assumes "expander_inv s h"
  shows "wp (evaluate_base_right_sizing g k n t f s) expander_inv h"
proof (cases "se_state s = MigIdle")
  case True
  have spawn: "wp (do {
       p \<leftarrow> spawn_create_size k BASE_SWAP_NEW_PATH INCREMENT_BYTES;
       if p < 0 then return_io s1
       else do { log_event (EvAlert ''SWAP'');
                 return_io (s1\<lparr>se_base_child := p, se_state := CreatingNew\<rparr>) }}) expander_inv h1"
    if "expander_inv s1 h1" for s1 h1
    using that
    by (auto simp: log_event_def wp_simps intro!: inv_alert inv_state_changes wp_mono [OF wp_spawn_create])
  define s1 where "s1 = start_window n (used_of t f) s"
  have inv: "expander_inv s1 h" and idle: "se_state s1 = MigIdle"
    using inv_start_window [OF assms] True by (auto simp: s1_def start_window_def Let_def)
  show ?thesis
  proof (cases "migration_cooling n s")
    case False
    show ?thesis
      unfolding evaluate_base_right_sizing_def Let_def s1_def [symmetric]
      using inv idle True False
      by (auto simp: wp_return wp_if intro!: inv_state_changes(4)
          wp_neutral_bind [OF emits_questions(4) inv] wp_neutral_bind [OF emits_questions(1), of s1]
          wp_neutral_bind [OF emits_questions(3), of s1])
        (auto simp: sys_unlink_def wp_syscall wp_bind [of "syscall _ _"] wp_return wp_if
          intro!: inv_new_file(1) spawn)
  qed (simp add: evaluate_base_right_sizing_def wp_return assms)
qed (simp add: evaluate_base_right_sizing_def wp_return assms)

lemma wp_poll_migration:
  assumes "expander_inv s h"
  shows "wp (poll_base_migration k s) expander_inv h"
proof -
  have create: "wp (after_create k c s1) expander_inv h1"
    if "expander_inv s1 h1" "se_base_child s1 = - 1" for s1 h1 c
    using that
    by (auto simp: after_create_def sys_defs wp_simps expander_inv_def event_safe_def active_count_def)
  have swapoff: "wp (after_swapoff k c (s\<lparr>se_base_child := - 1\<rparr>)) expander_inv (EvWait (se_base_child s) r # h)"
    if "se_state s = SwappingOffOld" "0 < se_base_child s" "c \<longleftrightarrow> r = Exited 0" for c r
    using assms that
    by (auto simp: after_swapoff_def sys_defs wp_simps expander_inv_def event_safe_def active_count_def)
  show ?thesis
    using assms
    by (auto simp: poll_base_migration_def sys_waitpid_def wp_simps Let_def not_le
        intro!: inv_wait inv_state_changes create swapoff split: migration_state.splits)
qed

lemma wp_expander_initialize:
  "expander_inv s h \<Longrightarrow> wp (expander_initialize g k s) expander_inv h"
  unfolding expander_initialize_def by (rule wp_for) (auto intro: wp_initialize_one)

section \<open>Every sequence of operations\<close>

text \<open>The public operations of the class, as the main loop may call them in any order.\<close>

datatype expander_op =
    OpInitialize
  | OpEnsureHeadroom u64 u64
  | OpPollPending
  | OpMaybeRelease u64 u64
  | OpEvaluateBase u64 u64 u64
  | OpPollMigration

fun expander_step :: "globals \<Rightarrow> kernel \<Rightarrow> expander_op \<Rightarrow> swap_expander \<Rightarrow> swap_expander io" where
  "expander_step g k OpInitialize s = expander_initialize g k s"
| "expander_step g k (OpEnsureHeadroom total_kb free_kb) s =
     do { (_, s') \<leftarrow> ensure_headroom g k total_kb free_kb s; return_io s' }"
| "expander_step g k OpPollPending s = poll_pending k s"
| "expander_step g k (OpMaybeRelease total_kb free_kb) s = maybe_release g k total_kb free_kb s"
| "expander_step g k (OpEvaluateBase now_sec total_kb free_kb) s =
     evaluate_base_right_sizing g k now_sec total_kb free_kb s"
| "expander_step g k OpPollMigration s = poll_base_migration k s"

definition expander_run :: "globals \<Rightarrow> kernel \<Rightarrow> expander_op list \<Rightarrow> swap_expander \<Rightarrow> swap_expander io" where
  "expander_run g k ops s = io_for (\<lambda>_. True) (expander_step g k) ops s"

lemma wp_expander_step: "expander_inv s h \<Longrightarrow> wp (expander_step g k op s) expander_inv h"
  by (cases op)
    (auto simp: wp_bind wp_prod wp_return case_prod_unfold wp_poll_pending wp_maybe_release wp_evaluate
      wp_poll_migration wp_expander_initialize intro!: wp_mono [OF wp_ensure_headroom])

lemma expander_inv_init: "expander_inv swap_expander_init []"
  by (simp add: expander_inv_def swap_expander_init_def active_count_def)

interpretation expander: io_machine "expander_step g k" expander_inv for g k
  by unfold_locales (rule wp_expander_step)

lemma wp_expander_run: "wp (expander_run g k ops swap_expander_init) expander_inv []"
  unfolding expander_run_def by (rule expander.run_inv [OF expander_inv_init])

text \<open>C7. Whatever order the main loop calls the swap expander's operations in, and whatever the
  system answers: the base swap file is deleted only right after its \<open>swapoff\<close> child exited
  with 0 while the new base file is switched on, it is switched off only while the new one is on,
  files are created and released only under the fixed dynamic names and with the fixed size, no
  process is ever signalled, and at most four dynamic files are tracked.\<close>

theorem swap_space_never_lost:
  "case run_state (expander_run g k ops swap_expander_init) [] of
     (s, h) \<Rightarrow> safe_history h \<and> active_count s \<le> MAX_FILES \<and> list_all is_dyn_path (se_files s)"
  using wp_expander_run [of g k ops] by (auto simp: wp_run expander_inv_def split: prod.splits)

section \<open>The decisions as integer inequalities\<close>

text \<open>The expansion test decides what the integers say, for sizes up to 64 PiB: there is swap,
  and less than a quarter of it or less than 6 GiB of it is free.\<close>

theorem should_expand_threshold:
  assumes "uint swap_total_kb \<le> 2 ^ 46" and "uint swap_free_kb \<le> 2 ^ 46"
  shows "should_expand swap_total_kb swap_free_kb \<longleftrightarrow>
    0 < uint swap_total_kb \<and> (4 * uint swap_free_kb < uint swap_total_kb \<or> uint swap_free_kb < 6291456)"
proof (cases "swap_total_kb = 0")
  case False
  then have pos: "0 < uint swap_total_kb" by (simp add: word_neq_0_conv word_less_def)
  have "fp_lt (usage_pct swap_free_kb swap_total_kb) (Fin (of_int 25)) \<longleftrightarrow>
    100 * uint swap_free_kb < 25 * uint swap_total_kb"
    using assms pos by (intro usage_pct_lt_iff) auto
  with False pos show ?thesis
    by (auto simp: should_expand_def pct_of_def EXPAND_SWAP_FREE_MIN_KB_def word_less_def)
qed (simp add: should_expand_def)

theorem should_expand_threshold_witness:
  "should_expand 8000000 1999999 \<and> \<not> should_expand 33554432 8388608"
  using should_expand_threshold [of 8000000 1999999] should_expand_threshold [of 33554432 8388608] by simp

lemma lit_07_le: "\<exists>c. lit64 (70 / 100) = Fin c \<and> 1 / 2 \<le> c \<and> c \<le> 1"
proof -
  have "(1::rat) \<le> pow2 (emax Binary64)" using pow2_mono [of 0 1023] by (simp add: pow2_def)
  then have "lit64 (70 / 100) = Fin (rnd 53 (emin Binary64) (70 / 100))"
    unfolding lit64_def by (subst fp_round_in_range) auto
  moreover have "rnd 53 (emin Binary64) (70 / 100) \<le> of_int 1"
    by (rule rnd_le_representable) (use representable_of_int [of 1 53 "emin Binary64"] in \<open>auto simp: emin_def\<close>)
  moreover have "representable 53 (emin Binary64) (1 / 2)"
    unfolding representable_def by (intro exI [of _ 1] exI [of _ "- 1"]) (simp add: emin_def pow2_def)
  then have "1 / 2 \<le> rnd 53 (emin Binary64) (70 / 100)"
    by (intro representable_le_rnd) auto
  ultimately show ?thesis by auto
qed

text \<open>A dynamic file is given back only when everything swapped out still fits: the used space
  is below what remains of the swap without the file.\<close>

theorem released_swap_still_fits:
  assumes "safe_to_release swap_total_kb swap_free_kb file_bytes" and "swap_total_kb \<noteq> 0"
    and "uint swap_total_kb \<le> 2 ^ 53"
  shows "uint (used_of swap_total_kb swap_free_kb) < uint swap_total_kb - uint file_bytes div 1024"
proof -
  let ?fk = "file_bytes div 1024"
  let ?rem = "swap_total_kb - ?fk"
  have fk: "uint ?fk = uint file_bytes div 1024" by (simp add: uint_div)
  from assms(1,2) have lt: "?fk < swap_total_kb"
    by (auto simp: safe_to_release_def Let_def split: if_splits)
  then have rem: "uint ?rem = uint swap_total_kb - uint file_bytes div 1024"
    using fk uint_minus_simple_alt [of ?fk swap_total_kb] by (simp add: word_le_def word_less_def)
  let ?used = "used_of swap_total_kb swap_free_kb"
  have used: "uint ?used \<le> uint swap_total_kb"
    using uint_minus_simple_alt [of swap_free_kb swap_total_kb]
    by (auto simp: used_of_def word_le_def word_less_def)
  obtain c where c: "lit64 (70 / 100) = Fin c" "0 \<le> c" "c \<le> 1"
    using lit_07_le by (meson order_trans zero_le_divide_1_iff zero_le_numeral)
  define r where "r = uint ?rem"
  have remb: "0 \<le> r" "r \<le> 2 ^ 53" unfolding r_def using rem assms(3) uint_nonnegative [of ?fk] uint_nonnegative [of ?rem] fk by linarith+
  let ?x = "rnd 53 (emin Binary64) (of_int r * c)"
  have prod: "of_int r * c \<le> of_int r" using c(3) remb(1) by (intro mult_left_le) (simp_all only: of_int_0_le_iff)
  have "of_int r \<le> (of_int (2 ^ 53) :: rat)" using remb(2) by (simp only: of_int_le_iff)
  also have "\<dots> = pow2 53" by (simp add: pow2_def)
  also have "\<dots> \<le> pow2 (emax Binary64)" by (intro pow2_mono) simp
  finally have range: "\<bar>of_int r * c\<bar> \<le> pow2 (emax Binary64)" using prod c(2) remb(1) by (simp add: abs_of_nonneg)
  have le: "?x \<le> of_int r"
    by (rule rnd_le_representable [OF prod]) (use remb in \<open>auto simp: emin_def intro: representable_of_int\<close>)
  have "mul64 (fp_of_u64 Binary64 ?rem) (lit64 (70 / 100)) = Fin ?x"
    using remb c(1) fp_round_in_range [OF range]
    by (simp add: r_def fp_of_u64_def fp_of_int_exact)
  moreover have "fp_of_u64 Binary64 ?used = Fin (of_int (uint ?used))"
    using used assms(3) by (simp add: fp_of_u64_def fp_of_int_exact)
  ultimately have "of_int (uint ?used) < ?x"
    using assms(1,2) lt by (simp add: safe_to_release_def Let_def not_le [symmetric])
  with le have "(of_int (uint ?used) :: rat) < of_int r" by linarith
  then show ?thesis using rem by (simp only: of_int_less_iff r_def)
qed

theorem released_swap_still_fits_witness:
  "uint (used_of 16777216 16777216) < (16777216::int) - 8589934592 div 1024"
proof -
  obtain c where c: "lit64 (70 / 100) = Fin c" "1 / 2 \<le> c" "c \<le> 1" using lit_07_le by blast
  have "representable 53 (emin Binary64) (of_int 4194304)"
    by (rule representable_of_int) (auto simp: emin_def)
  moreover have "of_int 4194304 \<le> 8388608 * c" using c(2) by simp
  ultimately have pos: "of_int 4194304 \<le> rnd 53 (emin Binary64) (8388608 * c)"
    by (intro representable_le_rnd) auto
  have "pow2 23 \<le> pow2 (emax Binary64)" by (intro pow2_mono) simp
  then have "fp_round Binary64 (8388608 * c) = Fin (rnd 53 (emin Binary64) (8388608 * c))"
    using c(2,3) by (subst fp_round_in_range) (auto simp: pow2_def abs_of_nonneg)
  then have "safe_to_release 16777216 16777216 8589934592"
    using c(1) pos by (simp add: safe_to_release_def used_of_def fp_of_u64_def)
  then show ?thesis
    using released_swap_still_fits [of 16777216 16777216 8589934592] by simp
qed

section \<open>The sandbox\<close>

definition expander_quiet :: "swap_expander \<Rightarrow> bool" where
  "expander_quiet s \<longleftrightarrow> se_pending_pid s \<le> 0 \<and> se_state s = MigIdle"

definition report_event :: "event \<Rightarrow> bool" where
  "report_event e = (case e of EvAlert _ \<Rightarrow> True | _ \<Rightarrow> is_read_event e)"

lemma report_events [simp]:
  "report_event (EvAlert c)" "is_read_event e \<Longrightarrow> report_event e"
  by (cases e; simp add: report_event_def)+

lemma emits_report_questions:
  "emits report_event (swap_dir_free_bytes k)" "emits report_event (is_swap_active k p)"
  "emits report_event (get_file_size_bytes k p)" "emits report_event (sys_stat k p)"
  unfolding question_defs sys_defs by (intro io_rules; simp)+

lemma emits_free_index: "emits report_event (free_index k is)"
  by (induction "is") (auto simp: intro!: io_rules emits_report_questions)

lemma quiet_start_window: "expander_quiet s \<Longrightarrow> expander_quiet (start_window n u s)"
  by (simp add: expander_quiet_def start_window_def Let_def)

lemma quiet_initialize_one:
  assumes "gl_sandbox g" and "expander_quiet s"
  shows "io_ok report_event (initialize_one g k i s) expander_quiet"
  using assms unfolding initialize_one_def log_event_def
  by (auto intro!: io_rules emits_report_questions simp: expander_quiet_def)

lemma quiet_step:
  assumes "gl_sandbox g" and "expander_quiet s"
  shows "io_ok report_event (expander_step g k op s) expander_quiet"
proof -
  have idle: "\<not> 0 < se_pending_pid s" "se_state s = MigIdle" using assms(2) by (auto simp: expander_quiet_def)
  have init: "io_ok report_event (expander_initialize g k s) expander_quiet"
    unfolding expander_initialize_def using assms by (intro io_ok_for quiet_initialize_one)
  have ensure: "io_ok report_event (ensure_headroom g k t f s) (\<lambda>(_, s'). expander_quiet s')" for t f
    unfolding ensure_headroom_def using assms idle
    by (auto intro!: io_rules emits_report_questions emits_free_index)
  have window: "expander_quiet (start_window n u s\<lparr>se_window_start := n, se_peak_used_kb := u\<rparr>)" for n u
    using quiet_start_window [OF assms(2)] by (simp add: expander_quiet_def)
  have evaluate: "io_ok report_event (evaluate_base_right_sizing g k n t f s) expander_quiet" for n t f
    unfolding evaluate_base_right_sizing_def Let_def using assms idle window
    by (auto intro!: io_rules emits_report_questions quiet_start_window)
  show ?thesis
  proof (cases op)
    case (OpEnsureHeadroom t f)
    then show ?thesis by (auto intro!: io_ok_bind [OF ensure] io_rules)
  qed (use idle assms in \<open>auto intro: init evaluate simp: poll_pending_def maybe_release_def
      poll_base_migration_def io_ok_return\<close>)
qed

interpretation sandboxed: calm_machine "expander_step (g\<lparr>gl_sandbox := True\<rparr>) k" expander_quiet report_event for g k
  by unfold_locales (auto intro: quiet_step)

text \<open>With the actuation sandbox engaged the swap expander, driven through any sequence of its
  operations, only reads and logs: no child is forked, no file is created or deleted, no swap area
  is switched on or off.\<close>

theorem sandboxed_expander_only_reports:
  assumes "gl_sandbox g"
  shows "emits report_event (expander_run g k ops swap_expander_init)"
proof -
  have "g\<lparr>gl_sandbox := True\<rparr> = g" using assms by (cases g) auto
  then show ?thesis
    using sandboxed.run_events [of swap_expander_init g k ops]
    by (simp add: expander_run_def expander_quiet_def swap_expander_init_def)
qed

theorem sandboxed_expander_only_reports_witness:
  "emits report_event (expander_run (quiet_globals\<lparr>gl_sandbox := True\<rparr>) quiet_kernel
     [OpInitialize, OpEnsureHeadroom 8000000 100] swap_expander_init)"
  by (rule sandboxed_expander_only_reports) simp

end
