(* ===== verification/Pageout.thy ===== *)
theory Pageout
  imports Actuators Machines
begin

unbundle bit_operations_syntax

text \<open>
  The pageout actuator (\<^verbatim>\<open>src/policy/process_pageout_actuator.cpp\<close>): it reads a process's
  memory map in pieces of 4 KiB, collects its writable private anonymous ranges and hands them
  to the kernel in batches, for the background processes of a report.
\<close>

section \<open>Reading a line of the map\<close>

fun hex_run :: "u64 \<Rightarrow> string \<Rightarrow> u64 \<times> string" where
  "hex_run v [] = (v, [])"
| "hex_run v (c # s) = (case hex_val c of None \<Rightarrow> (v, c # s) | Some d \<Rightarrow> hex_run (push_bit 4 v OR of_nat d) s)"

definition parse_hex_u64 :: "string \<Rightarrow> (u64 \<times> string) option" where
  "parse_hex_u64 s = (let (v, r) = hex_run 0 s in if r = s then None else Some (v, r))"

definition skip_field :: "string \<Rightarrow> string" where
  "skip_field s = dropWhile (\<lambda>c. c \<noteq> CHR '' '') (dropWhile (\<lambda>c. c = CHR '' '') s)"

text \<open>The two addresses, and what follows them; without a dash the second one stays zero.\<close>

definition parse_range :: "string \<Rightarrow> (u64 \<times> u64 \<times> string) option" where
  "parse_range line =
     (case parse_hex_u64 line of None \<Rightarrow> None
      | Some (a, r) \<Rightarrow>
          (if r \<noteq> [] \<and> hd r = CHR ''-''
           then (case parse_hex_u64 (tl r) of None \<Rightarrow> None | Some (b, r') \<Rightarrow> Some (a, b, r'))
           else Some (a, 0, r)))"

definition anonymous_range :: "string \<Rightarrow> (u64 \<times> u64) option" where
  "anonymous_range line =
     (case parse_range line of None \<Rightarrow> None
      | Some (a, b, p) \<Rightarrow>
          (if 5 < length p \<and> hd p = CHR '' ''
           then let q = tl p
                in if q ! 0 = CHR ''r'' \<and> q ! 1 = CHR ''w'' \<and> q ! 3 = CHR ''p''
                   then let f = dropWhile (\<lambda>c. c = CHR '' '') (skip_field (skip_field (drop 4 q)));
                            inode = (digits_val 0 (takeWhile is_digit f) :: u64)
                        in if inode = 0 \<and> a < b then Some (a, b) else None
                   else None
           else None))"

section \<open>Batches\<close>

abbreviation "MAX_IOV_BATCH \<equiv> (16 :: nat)"
abbreviation "MAPS_BUF \<equiv> (4096 :: nat)"

definition MIN_VMA_SIZE_BYTES :: u64 where [code_consts]: "MIN_VMA_SIZE_BYTES = 65536"
definition MAX_PAGEOUT_PER_PROCESS :: u64 where [code_consts]: "MAX_PAGEOUT_PER_PROCESS = 536870912"

record page_scan =
  ps_iov :: "(u64 \<times> u64) list"
  ps_total :: u64
  ps_vmas :: u32

record pageout_result =
  pr_success :: bool
  pr_bytes :: u64
  pr_vma_count :: u32

definition flush_batch :: "kernel \<Rightarrow> pid \<Rightarrow> page_scan \<Rightarrow> page_scan io" where
  "flush_batch k p st =
     (if ps_iov st = [] then return_io st
      else do {
        r \<leftarrow> sys_madvise k p (ps_iov st);
        return_io (st\<lparr>ps_iov := [], ps_total := (if 0 \<le> r then ps_total st + of_int r else ps_total st)\<rparr>)
      })"

definition scan_line :: "kernel \<Rightarrow> pid \<Rightarrow> u64 \<Rightarrow> string \<Rightarrow> page_scan \<Rightarrow> page_scan io" where
  "scan_line k p max_bytes line st =
     (case anonymous_range line of None \<Rightarrow> return_io st
      | Some (a, b) \<Rightarrow>
          (if b - a < MIN_VMA_SIZE_BYTES then return_io st
           else do {
             let claim = min (b - a) (max_bytes - ps_total st);
             let st = st\<lparr>ps_iov := ps_iov st @ [(a, claim)], ps_vmas := ps_vmas st + 1\<rparr>;
             if MAX_IOV_BATCH \<le> length (ps_iov st) then flush_batch k p st else return_io st
           }))"

text \<open>The first complete line of the buffer; \<open>strchr\<close> does not look beyond a zero byte.\<close>

definition split_line :: "string \<Rightarrow> (string \<times> string) option" where
  "split_line s =
     (let l = takeWhile (\<lambda>c. c \<noteq> NL \<and> c \<noteq> NUL) s; r = drop (length l) s
      in if r \<noteq> [] \<and> hd r = NL then Some (l, tl r) else None)"

lemma split_line_shorter: "split_line s = Some (l, r) \<Longrightarrow> length r < length s"
  by (auto simp: split_line_def Let_def split: if_splits)

function scan_lines :: "kernel \<Rightarrow> pid \<Rightarrow> u64 \<Rightarrow> string \<Rightarrow> page_scan \<Rightarrow> (string \<times> page_scan) io" where
  "scan_lines k p max_bytes s st =
     (if s = [] \<or> max_bytes \<le> ps_total st then return_io (s, st)
      else case split_line s of None \<Rightarrow> return_io (s, st)
           | Some (l, r) \<Rightarrow> do { st' \<leftarrow> scan_line k p max_bytes l st; scan_lines k p max_bytes r st' })"
  by pat_completeness auto

termination
  by (relation "measure (\<lambda>(k, p, m, s, st). length s)") (auto dest: split_line_shorter)

declare scan_lines.simps [simp del]

text \<open>
  The reads: \<open>n\<close> of them bring data.  What is left of the last line is carried over to the
  front of the buffer; a line that fills it leaves no room, and the empty read ends the scan.
\<close>

fun pageout_loop :: "kernel \<Rightarrow> pid \<Rightarrow> u64 \<Rightarrow> nat \<Rightarrow> string \<Rightarrow> page_scan \<Rightarrow> page_scan io" where
  "pageout_loop k p max_bytes 0 carry st =
     (if max_bytes \<le> ps_total st then return_io st
      else do { sys_read_maps_end p; return_io st })"
| "pageout_loop k p max_bytes (Suc n) carry st =
     (if max_bytes \<le> ps_total st then return_io st
      else do {
        piece \<leftarrow> sys_read_maps k p (MAPS_BUF - length carry - 1);
        if piece = [] then return_io st
        else do {
          (rest, st) \<leftarrow> scan_lines k p max_bytes (carry @ piece) st;
          pageout_loop k p max_bytes n rest st
        }})"

definition no_pageout :: pageout_result where
  "no_pageout = \<lparr>pr_success = False, pr_bytes = 0, pr_vma_count = 0\<rparr>"

definition pageout_process :: "kernel \<Rightarrow> pid \<Rightarrow> u64 \<Rightarrow> pageout_result io" where
  "pageout_process k p max_bytes =
     (if p \<le> 1 then return_io no_pageout
      else do {
        fd \<leftarrow> sys_pidfd_open k p;
        if \<not> fd then return_io no_pageout
        else do {
          maps \<leftarrow> sys_open_maps k p;
          case maps of None \<Rightarrow> return_io no_pageout
          | Some n \<Rightarrow> do {
              st \<leftarrow> pageout_loop k p max_bytes n [] \<lparr>ps_iov = [], ps_total = 0, ps_vmas = 0\<rparr>;
              st \<leftarrow> flush_batch k p st;
              return_io \<lparr>pr_success = (0 < ps_total st), pr_bytes = ps_total st, pr_vma_count = ps_vmas st\<rparr>
            }}})"

section \<open>Candidates\<close>

definition is_exempt :: "pid \<Rightarrow> pid \<Rightarrow> u8 \<Rightarrow> bool \<Rightarrow> bool" where
  "is_exempt p protected_pid tier is_audio_active =
     (if p \<le> 1 then True
      else if protected_pid \<noteq> 0 \<and> p = protected_pid then True
      else if is_audio_active then True
      else tier \<in> tier_code ` {CriticalImmune, DesktopCore, DesktopShell})"

definition pageout_target :: "pid \<Rightarrow> proc_power \<Rightarrow> bool" where
  "pageout_target protected_pid pr =
     (if pp_pid pr \<le> 1 then False
      else if is_exempt (pp_pid pr) protected_pid (pp_safety_tier pr) False then False
      else if pp_safety_tier pr \<notin> tier_code ` {BackgroundWorker, RunawayCandidate, UserInteractive} then False
      else 65536 \<le> pp_pss_kib pr)"

text \<open>The loop's variables: the bytes so far and the number of processes paged out.\<close>

definition pageout_one :: "kernel \<Rightarrow> pid \<Rightarrow> proc_power \<Rightarrow> u64 \<times> nat \<Rightarrow> (u64 \<times> nat) io" where
  "pageout_one k protected_pid pr acc =
     (if \<not> pageout_target protected_pid pr then return_io acc
      else do {
        res \<leftarrow> pageout_process k (pp_pid pr) MAX_PAGEOUT_PER_PROCESS;
        if pr_success res \<and> 0 < pr_bytes res
        then do {
          log_event (EvMitigation (pp_pid pr) (pp_comm pr) ''ProcessPageout'');
          return_io (fst acc + pr_bytes res, snd acc + 1)
        }
        else return_io acc
      })"

definition pageout_candidates :: "kernel \<Rightarrow> report \<Rightarrow> pid \<Rightarrow> nat \<Rightarrow> u64 io" where
  "pageout_candidates k r protected_pid max_candidates = do {
     acc \<leftarrow> io_for (\<lambda>acc. snd acc < max_candidates) (pageout_one k protected_pid) (top_list r) (0, 0);
     return_io (fst acc)
   }"

section \<open>What a pageout does\<close>

text \<open>Every batch is for this process, not empty, at most sixteen ranges long, and no range is
  longer than the limit.\<close>

definition batch_ok :: "u64 \<Rightarrow> (u64 \<times> u64) list \<Rightarrow> bool" where
  "batch_ok max_bytes iov \<longleftrightarrow> length iov \<le> MAX_IOV_BATCH \<and> list_all (\<lambda>(_, l). 0 < l \<and> l \<le> max_bytes) iov"

definition pageout_event :: "pid \<Rightarrow> u64 \<Rightarrow> event \<Rightarrow> bool" where
  "pageout_event p max_bytes e =
     (case e of
        EvPidfdOpen q _ \<Rightarrow> q = p
      | EvOpenMaps q _ \<Rightarrow> q = p
      | EvReadMaps q \<Rightarrow> q = p
      | EvMadvisePageout q iov _ \<Rightarrow> q = p \<and> iov \<noteq> [] \<and> batch_ok max_bytes iov
      | _ \<Rightarrow> False)"

lemma pageout_event_simps [simp]:
  "pageout_event p m (EvPidfdOpen q b) \<longleftrightarrow> q = p" "pageout_event p m (EvOpenMaps q b) \<longleftrightarrow> q = p"
  "pageout_event p m (EvReadMaps q) \<longleftrightarrow> q = p"
  "pageout_event p m (EvMadvisePageout q iov n) \<longleftrightarrow> q = p \<and> iov \<noteq> [] \<and> batch_ok m iov"
  by (simp_all add: pageout_event_def)

definition scan_ok :: "u64 \<Rightarrow> page_scan \<Rightarrow> bool" where
  "scan_ok max_bytes st \<longleftrightarrow> length (ps_iov st) < MAX_IOV_BATCH \<and> batch_ok max_bytes (ps_iov st)"

lemma flush_batch_ok:
  "batch_ok m (ps_iov st) \<Longrightarrow> io_ok (pageout_event p m) (flush_batch k p st) (scan_ok m)"
  unfolding flush_batch_def sys_madvise_def
  by (auto intro!: io_rules simp: scan_ok_def batch_ok_def)

lemma scan_line_ok:
  assumes "scan_ok m st" and "ps_total st < m"
  shows "io_ok (pageout_event p m) (scan_line k p m line st) (scan_ok m)"
proof -
  have claim: "0 < min (b - a) (m - ps_total st) \<and> min (b - a) (m - ps_total st) \<le> m"
    if "MIN_VMA_SIZE_BYTES \<le> b - a" for a b :: u64
  proof -
    have "0 < MIN_VMA_SIZE_BYTES" by (simp add: code_consts)
    moreover have "m - ps_total st \<le> m" using assms(2) by (simp add: word_sub_le)
    moreover have "0 < m - ps_total st" using assms(2) by (auto simp: word_neq_0_conv [symmetric])
    ultimately show ?thesis using that by (auto simp: min_def)
  qed
  show ?thesis
    unfolding scan_line_def Let_def
    using assms claim
    by (auto intro!: io_rules flush_batch_ok simp: not_less not_le scan_ok_def batch_ok_def)
qed

lemma scan_lines_ok:
  "scan_ok m st \<Longrightarrow> io_ok (pageout_event p m) (scan_lines k p m s st) (\<lambda>(_, st'). scan_ok m st')"
proof (induction k p m s st rule: scan_lines.induct)
  case (1 k p m s st)
  show ?case
    using 1
    by (subst scan_lines.simps)
      (auto intro!: io_ok_return io_ok_bind [OF scan_line_ok] simp: not_le split: option.splits)
qed

lemma pageout_loop_ok:
  "scan_ok m st \<Longrightarrow> io_ok (pageout_event p m) (pageout_loop k p m n carry st) (scan_ok m)"
proof (induction n arbitrary: carry st)
  case 0
  then show ?case
    by (auto intro!: io_rules simp: sys_read_maps_end_def)
next
  case (Suc n)
  have "io_ok (pageout_event p m) (scan_lines k p m (carry @ piece) st \<bind>
      (\<lambda>(rest, st). pageout_loop k p m n rest st)) (scan_ok m)" for piece
    by (rule io_ok_bind [OF scan_lines_ok [OF Suc.prems]]) (auto intro: Suc.IH)
  with Suc.prems show ?case
    unfolding pageout_loop.simps sys_read_maps_def
    by (auto simp: io_ok_return intro!: io_ok_bind_any [OF emits_syscall])
qed

lemma pageout_process_ok: "emits (pageout_event p m) (pageout_process k p m)"
proof -
  have init: "scan_ok m \<lparr>ps_iov = [], ps_total = 0, ps_vmas = 0\<rparr>" by (simp add: scan_ok_def batch_ok_def)
  have loop: "emits (pageout_event p m) (do {
      st \<leftarrow> pageout_loop k p m n [] \<lparr>ps_iov = [], ps_total = 0, ps_vmas = 0\<rparr>;
      st \<leftarrow> flush_batch k p st;
      return_io \<lparr>pr_success = (0 < ps_total st), pr_bytes = ps_total st, pr_vma_count = ps_vmas st\<rparr> })" for n
    by (rule io_ok_bind [OF pageout_loop_ok [OF init]], rule io_ok_bind_any,
        rule io_ok_emits, rule flush_batch_ok) (auto simp: scan_ok_def)
  show ?thesis
    unfolding pageout_process_def sys_pidfd_open_def sys_open_maps_def
    by (auto intro!: io_rules loop)
qed

definition candidate_event :: "report \<Rightarrow> pid \<Rightarrow> event \<Rightarrow> bool" where
  "candidate_event r protected_pid e =
     (\<exists>pr. pr \<in> set (top_list r) \<and> pp_pid pr \<noteq> protected_pid \<and> 1 < pp_pid pr \<and> 65536 \<le> pp_pss_kib pr \<and>
        pp_safety_tier pr \<in> tier_code ` {UserInteractive, BackgroundWorker, RunawayCandidate} \<and>
        (pageout_event (pp_pid pr) MAX_PAGEOUT_PER_PROCESS e \<or>
         e = EvMitigation (pp_pid pr) (pp_comm pr) ''ProcessPageout''))"

lemma emits_pageout_candidates [io_specs]:
  "emits (candidate_event r protected_pid) (pageout_candidates k r protected_pid n)"
proof -
  have target: "pp_pid pr \<noteq> protected_pid \<and> 1 < pp_pid pr \<and> 65536 \<le> pp_pss_kib pr \<and>
      pp_safety_tier pr \<in> tier_code ` {UserInteractive, BackgroundWorker, RunawayCandidate}"
    if "pageout_target protected_pid pr" for pr
    using that by (auto simp: pageout_target_def is_exempt_def split: if_splits)
  have one: "emits (candidate_event r protected_pid) (pageout_one k protected_pid pr acc)"
    if pr: "pr \<in> set (top_list r)" for pr acc
  proof (cases "pageout_target protected_pid pr")
    case True
    from target [OF this] have ev: "candidate_event r protected_pid e"
      if "pageout_event (pp_pid pr) MAX_PAGEOUT_PER_PROCESS e \<or> e = EvMitigation (pp_pid pr) (pp_comm pr) ''ProcessPageout''"
      for e using pr that unfolding candidate_event_def by blast
    then have "emits (candidate_event r protected_pid) (pageout_process k (pp_pid pr) MAX_PAGEOUT_PER_PROCESS)"
      by (intro io_ok_mono [OF pageout_process_ok]) auto
    with ev show ?thesis
      unfolding pageout_one_def log_event_def by (auto intro!: io_rules)
  qed (simp add: pageout_one_def io_ok_return)
  show ?thesis
    unfolding pageout_candidates_def by (auto intro!: io_rules one)
qed

definition huge_line :: "u64 \<Rightarrow> string \<Rightarrow> bool" where
  "huge_line m line \<longleftrightarrow>
     NL \<notin> set line \<and> NUL \<notin> set line \<and>
     (case anonymous_range line of None \<Rightarrow> False | Some (a, b) \<Rightarrow> m \<le> b - a)"

text \<open>A pageout pass only touches processes of the report that are not the protected one, hold
  at least 64 MiB and are of one of the three tiers that permit it; it hands their ranges over in
  non-empty batches of at most sixteen, none longer than 512 MiB, and sends no signal.\<close>

theorem pageout_only_candidates:
  "emits (candidate_event r protected_pid) (pageout_candidates k r protected_pid n)"
  by (rule emits_pageout_candidates)

lemma split_line_first: "NL \<notin> set l \<Longrightarrow> NUL \<notin> set l \<Longrightarrow> split_line (l @ NL # s) = Some (l, s)"
proof -
  assume "NL \<notin> set l" "NUL \<notin> set l"
  then have "takeWhile (\<lambda>c. c \<noteq> NL \<and> c \<noteq> NUL) (l @ NL # s) = l"
    by (induction l) auto
  then show ?thesis by (simp add: split_line_def Let_def)
qed

lemma scan_lines_huge:
  assumes "list_all (huge_line m) ls" and "MIN_VMA_SIZE_BYTES \<le> m" and "ps_total st < m"
    and "length (ps_iov st) + length ls < MAX_IOV_BATCH"
  shows "run_state (scan_lines k p m (concat (map (\<lambda>l. l @ [NL]) ls)) st) h =
    (([], st\<lparr>ps_iov := ps_iov st @ map (\<lambda>l. (fst (the (anonymous_range l)), m - ps_total st)) ls,
              ps_vmas := ps_vmas st + of_nat (length ls)\<rparr>), h)"
  using assms
proof (induction ls arbitrary: st)
  case Nil
  then show ?case by (subst scan_lines.simps) simp
next
  case (Cons l ls)
  from Cons.prems(1) obtain a b where l: "NL \<notin> set l" "NUL \<notin> set l" "anonymous_range l = Some (a, b)" "m \<le> b - a"
    by (auto simp: huge_line_def split: option.splits)
  have "m - ps_total st \<le> m" using Cons.prems(3) by (simp add: word_sub_le)
  then have min: "min (b - a) (m - ps_total st) = m - ps_total st" using l(4) by (intro min_absorb2) (rule order_trans)
  let ?st = "st\<lparr>ps_iov := ps_iov st @ [(a, m - ps_total st)], ps_vmas := ps_vmas st + 1\<rparr>"
  have "scan_line k p m l st = return_io ?st"
    using l(3) min Cons.prems(4) order_trans [OF Cons.prems(2) l(4)]
    by (simp add: scan_line_def Let_def leD)
  moreover have "split_line ((l @ [NL]) @ concat (map (\<lambda>l. l @ [NL]) ls)) = Some (l, concat (map (\<lambda>l. l @ [NL]) ls))"
    using split_line_first [OF l(1,2)] by simp
  ultimately show ?case
    using Cons.IH [of ?st] Cons.prems l(3)
    by (subst scan_lines.simps) (simp add: not_le algebra_simps)
qed

text \<open>The limit of 512 MiB holds for every single range, not for the process: as long as a batch
  is not handed over, each further large range is claimed with the whole limit again.\<close>

theorem pageout_cap_is_per_range:
  assumes "list_all (huge_line m) ls" and "MIN_VMA_SIZE_BYTES \<le> m" and "length ls < MAX_IOV_BATCH"
  shows "run_state (scan_lines k p m (concat (map (\<lambda>l. l @ [NL]) ls)) \<lparr>ps_iov = [], ps_total = 0, ps_vmas = 0\<rparr>) h =
    (([], \<lparr>ps_iov = map (\<lambda>l. (fst (the (anonymous_range l)), m)) ls, ps_total = 0,
            ps_vmas = of_nat (length ls)\<rparr>), h)"
proof -
  have "0 < MIN_VMA_SIZE_BYTES" by (simp add: code_consts)
  from this assms(2) have "0 < m" by (rule less_le_trans)
  then show ?thesis using scan_lines_huge [OF assms(1,2), of "\<lparr>ps_iov = [], ps_total = 0, ps_vmas = 0\<rparr>"] assms(3) by simp
qed

definition map_line1 :: string where "map_line1 = ''7f0000000000-7f0040000000 rw-p 00000000 00:00 0''"
definition map_line2 :: string where "map_line2 = ''7f1000000000-7f1040000000 rw-p 00000000 00:00 0''"

theorem pageout_cap_is_per_range_witness:
  "fst (run_state (scan_lines quiet_kernel 42 MAX_PAGEOUT_PER_PROCESS (concat (map (\<lambda>l. l @ [NL]) [map_line1, map_line2]))
     \<lparr>ps_iov = [], ps_total = 0, ps_vmas = 0\<rparr>) []) =
   ([], \<lparr>ps_iov = [(0x7f0000000000, 536870912), (0x7f1000000000, 536870912)], ps_total = 0, ps_vmas = 2\<rparr>)"
proof -
  have r: "anonymous_range map_line1 = Some (0x7f0000000000, 0x7f0040000000)"
    "anonymous_range map_line2 = Some (0x7f1000000000, 0x7f1040000000)"
    unfolding map_line1_def map_line2_def by code_simp+
  have "NL \<notin> set map_line1 \<and> NUL \<notin> set map_line1 \<and> NL \<notin> set map_line2 \<and> NUL \<notin> set map_line2"
    unfolding map_line1_def map_line2_def by code_simp
  then have "list_all (huge_line MAX_PAGEOUT_PER_PROCESS) [map_line1, map_line2]"
    using r by (simp add: huge_line_def code_consts)
  then show ?thesis
    using pageout_cap_is_per_range [of MAX_PAGEOUT_PER_PROCESS "[map_line1, map_line2]"] r
    by (simp add: code_consts)
qed

end
