(* ===== verification/Pressure_Sample.thy ===== *)
theory Pressure_Sample
  imports Swap_Tier
begin

text \<open>
  What the memory pressure guard decides on (\<^verbatim>\<open>src/policy/memory_pressure_guard.cpp\<close>, the
  pure functions): the sample, the parsers of \<^verbatim>\<open>/proc/meminfo\<close> and
  \<^verbatim>\<open>/proc/pressure/memory\<close>, and the tier with its hysteresis.
\<close>

datatype pressure_tier = TierNormal | TierAdvisory | TierThrottle

fun pressure_code :: "pressure_tier \<Rightarrow> nat" where
  "pressure_code TierNormal = 0"
| "pressure_code TierAdvisory = 1"
| "pressure_code TierThrottle = 2"

lemma pressure_code_inj [simp]: "pressure_code a = pressure_code b \<longleftrightarrow> a = b"
  by (cases a; cases b) auto

instantiation pressure_tier :: linorder
begin

definition less_eq_pressure_tier :: "pressure_tier \<Rightarrow> pressure_tier \<Rightarrow> bool" where
  "less_eq_pressure_tier a b \<longleftrightarrow> pressure_code a \<le> pressure_code b"

definition less_pressure_tier :: "pressure_tier \<Rightarrow> pressure_tier \<Rightarrow> bool" where
  "less_pressure_tier a b \<longleftrightarrow> pressure_code a < pressure_code b"

instance
  by intro_classes (auto simp: less_eq_pressure_tier_def less_pressure_tier_def)

end

record pressure_sample =
  ms_mem_total_kb :: u64
  ms_mem_available_kb :: u64
  ms_swap_total_kb :: u64
  ms_swap_free_kb :: u64
  ms_psi_some_avg10 :: float64
  ms_psi_full_avg10 :: float64

definition pressure_sample_init :: pressure_sample where
  "pressure_sample_init = \<lparr>ms_mem_total_kb = 0, ms_mem_available_kb = 0, ms_swap_total_kb = 0,
     ms_swap_free_kb = 0, ms_psi_some_avg10 = Fin 0, ms_psi_full_avg10 = Fin 0\<rparr>"

section \<open>Parsing\<close>

text \<open>The number behind a key at the start of a line; the first line with the key decides.\<close>

fun find_kb_field :: "string \<Rightarrow> string \<Rightarrow> u64 option" where
  "find_kb_field s key =
     (if s = [] then None
      else if starts_with s key
      then let (d, _) = span_digits (skip_blanks (drop (length key) s))
           in if d = [] then None else Some (digits_val 0 d)
      else find_kb_field (drop_line s) key)"

declare find_kb_field.simps [simp del]

text \<open>
  The tag is searched in the row itself, and at least one byte must follow it in the buffer.
\<close>

fun find_tag :: "string \<Rightarrow> string \<Rightarrow> string option" where
  "find_tag [] tag = None"
| "find_tag (c # s) tag =
     (if length (c # s) \<le> length tag \<or> c = NL then None
      else if starts_with (c # s) tag then Some (drop (length tag) (c # s))
      else find_tag s tag)"

fun find_psi_avg10 :: "string \<Rightarrow> string \<Rightarrow> float64 option" where
  "find_psi_avg10 s row =
     (if s = [] then None
      else if starts_with s row
      then (case find_tag s ''avg10='' of None \<Rightarrow> None | Some t \<Rightarrow> Some (fst (strtod (c_str t))))
      else find_psi_avg10 (drop_line s) row)"

declare find_psi_avg10.simps [simp del]

abbreviation or_zero :: "u64 option \<Rightarrow> u64" where
  "or_zero x \<equiv> (case x of None \<Rightarrow> 0 | Some v \<Rightarrow> v)"

definition parse_meminfo :: "string \<Rightarrow> pressure_sample \<Rightarrow> pressure_sample option" where
  "parse_meminfo buf s =
     (if buf = [] then None
      else case find_kb_field buf ''MemTotal:'' of None \<Rightarrow> None
      | Some v \<Rightarrow> Some (s\<lparr>ms_mem_total_kb := v,
          ms_mem_available_kb := or_zero (find_kb_field buf ''MemAvailable:''),
          ms_swap_total_kb := or_zero (find_kb_field buf ''SwapTotal:''),
          ms_swap_free_kb := or_zero (find_kb_field buf ''SwapFree:'')\<rparr>))"

definition parse_psi :: "string \<Rightarrow> pressure_sample \<Rightarrow> bool \<times> pressure_sample" where
  "parse_psi buf s =
     (if buf = [] then (False, s)
      else let some = find_psi_avg10 buf ''some ''; full = find_psi_avg10 buf ''full '';
               s = (case some of None \<Rightarrow> s | Some v \<Rightarrow> s\<lparr>ms_psi_some_avg10 := v\<rparr>);
               s = (case full of None \<Rightarrow> s | Some v \<Rightarrow> s\<lparr>ms_psi_full_avg10 := v\<rparr>)
           in (some \<noteq> None \<or> full \<noteq> None, s))"

section \<open>The tier\<close>

definition pressure_pct :: "u64 \<Rightarrow> u64 \<Rightarrow> float64" where
  "pressure_pct part whole = (if whole = 0 then Fin 100 else usage_pct part whole)"

definition swap_free_pct :: "pressure_sample \<Rightarrow> float64" where
  "swap_free_pct s = (if 0 < ms_swap_total_kb s then pressure_pct (ms_swap_free_kb s) (ms_swap_total_kb s) else Fin 100)"

definition mem_avail_pct :: "pressure_sample \<Rightarrow> float64" where
  "mem_avail_pct s = pressure_pct (ms_mem_available_kb s) (ms_mem_total_kb s)"

definition raw_tier :: "pressure_sample \<Rightarrow> pressure_tier" where
  "raw_tier s =
     (let has_swap = (0 < ms_swap_total_kb s)
      in if (has_swap \<and> fp_lt (swap_free_pct s) (Fin 12)) \<or> fp_lt (mem_avail_pct s) (Fin 8) \<or>
            fp_gt (ms_psi_full_avg10 s) (Fin 25)
         then TierThrottle
         else if (has_swap \<and> fp_lt (swap_free_pct s) (Fin 30)) \<or> fp_lt (mem_avail_pct s) (Fin 15) \<or>
            fp_gt (ms_psi_full_avg10 s) (Fin 10)
         then TierAdvisory
         else TierNormal)"

definition in_release_band :: "pressure_sample \<Rightarrow> bool" where
  "in_release_band s \<longleftrightarrow>
     (\<not> 0 < ms_swap_total_kb s \<or> fp_gt (swap_free_pct s) (Fin 45)) \<and>
     fp_gt (mem_avail_pct s) (Fin 25) \<and> fp_lt (ms_psi_full_avg10 s) (Fin 5)"

definition classify_pressure :: "pressure_sample \<Rightarrow> pressure_tier \<Rightarrow> pressure_tier" where
  "classify_pressure s previous =
     (let raw = raw_tier s
      in if previous \<le> raw then raw
         else if \<not> in_release_band s then previous
         else if previous = TierThrottle then TierAdvisory
         else TierNormal)"

section \<open>The tier in integers\<close>

definition sane_sample :: "pressure_sample \<Rightarrow> bool" where
  "sane_sample s \<longleftrightarrow> 0 < uint (ms_mem_total_kb s) \<and> uint (ms_mem_total_kb s) \<le> 2 ^ 46 \<and>
     uint (ms_mem_available_kb s) \<le> 2 ^ 46 \<and> uint (ms_swap_total_kb s) \<le> 2 ^ 46 \<and>
     uint (ms_swap_free_kb s) \<le> 2 ^ 46 \<and> (\<exists>q. ms_psi_full_avg10 s = Fin q)"

definition psi_full :: "pressure_sample \<Rightarrow> rat" where
  "psi_full s = (case ms_psi_full_avg10 s of Fin q \<Rightarrow> q | _ \<Rightarrow> 0)"

text \<open>Swap free, memory available and stalls are below, below and above their limits.\<close>

definition strained :: "pressure_sample \<Rightarrow> int \<Rightarrow> int \<Rightarrow> rat \<Rightarrow> bool" where
  "strained s sw mem psi \<longleftrightarrow>
     (0 < uint (ms_swap_total_kb s) \<and> 100 * uint (ms_swap_free_kb s) < sw * uint (ms_swap_total_kb s)) \<or>
     100 * uint (ms_mem_available_kb s) < mem * uint (ms_mem_total_kb s) \<or> psi < psi_full s"

definition relaxed :: "pressure_sample \<Rightarrow> bool" where
  "relaxed s \<longleftrightarrow>
     (0 < uint (ms_swap_total_kb s) \<longrightarrow> 45 * uint (ms_swap_total_kb s) < 100 * uint (ms_swap_free_kb s)) \<and>
     25 * uint (ms_mem_total_kb s) < 100 * uint (ms_mem_available_kb s) \<and> psi_full s < 5"

definition tier_spec :: "pressure_sample \<Rightarrow> pressure_tier \<Rightarrow> pressure_tier" where
  "tier_spec s previous =
     (if strained s 12 8 25 then TierThrottle
      else if strained s 30 15 10 \<and> previous \<noteq> TierThrottle then TierAdvisory
      else if \<not> relaxed s then previous
      else if previous = TierThrottle then TierAdvisory
      else TierNormal)"

lemma word_pos_uint: "(0 < w) = (0 < uint w)" for w :: u64
  by (simp add: word_less_def)

lemma swap_lt: "sane_sample s \<Longrightarrow> 0 < ms_swap_total_kb s \<Longrightarrow> 0 < p \<Longrightarrow> p \<le> 128 \<Longrightarrow>
  fp_lt (swap_free_pct s) (Fin (of_int p)) \<longleftrightarrow> 100 * uint (ms_swap_free_kb s) < p * uint (ms_swap_total_kb s)"
  using usage_pct_lt_iff [of "ms_swap_free_kb s" "ms_swap_total_kb s" p]
  by (auto simp: sane_sample_def swap_free_pct_def pressure_pct_def word_pos_uint)

lemma swap_gt: "sane_sample s \<Longrightarrow> 0 < ms_swap_total_kb s \<Longrightarrow> 0 \<le> p \<Longrightarrow> p < 127 \<Longrightarrow>
  fp_gt (swap_free_pct s) (Fin (of_int p)) \<longleftrightarrow> p * uint (ms_swap_total_kb s) < 100 * uint (ms_swap_free_kb s)"
  using usage_pct_gt_iff [of "ms_swap_free_kb s" "ms_swap_total_kb s" p]
  by (auto simp: sane_sample_def swap_free_pct_def pressure_pct_def word_pos_uint)

lemma mem_lt: "sane_sample s \<Longrightarrow> 0 < p \<Longrightarrow> p \<le> 128 \<Longrightarrow>
  fp_lt (mem_avail_pct s) (Fin (of_int p)) \<longleftrightarrow> 100 * uint (ms_mem_available_kb s) < p * uint (ms_mem_total_kb s)"
  using usage_pct_lt_iff [of "ms_mem_available_kb s" "ms_mem_total_kb s" p]
  by (auto simp: sane_sample_def mem_avail_pct_def pressure_pct_def word_pos_uint)

lemma mem_gt: "sane_sample s \<Longrightarrow> 0 \<le> p \<Longrightarrow> p < 127 \<Longrightarrow>
  fp_gt (mem_avail_pct s) (Fin (of_int p)) \<longleftrightarrow> p * uint (ms_mem_total_kb s) < 100 * uint (ms_mem_available_kb s)"
  using usage_pct_gt_iff [of "ms_mem_available_kb s" "ms_mem_total_kb s" p]
  by (auto simp: sane_sample_def mem_avail_pct_def pressure_pct_def word_pos_uint)

lemma psi_cmp:
  assumes "sane_sample s"
  shows "fp_gt (ms_psi_full_avg10 s) (Fin q) \<longleftrightarrow> q < psi_full s" and "fp_lt (ms_psi_full_avg10 s) (Fin q) \<longleftrightarrow> psi_full s < q"
  using assms by (auto simp: sane_sample_def psi_full_def)

lemma raw_tier_spec:
  "sane_sample s \<Longrightarrow> raw_tier s = (if strained s 12 8 25 then TierThrottle else if strained s 30 15 10 then TierAdvisory else TierNormal)"
  using swap_lt [of s 12] swap_lt [of s 30] mem_lt [of s 8] mem_lt [of s 15] psi_cmp [of s]
  by (cases "0 < uint (ms_swap_total_kb s)") (simp_all add: raw_tier_def strained_def Let_def word_pos_uint)

lemma release_spec: "sane_sample s \<Longrightarrow> in_release_band s \<longleftrightarrow> relaxed s"
  using swap_gt [of s 45] mem_gt [of s 25] psi_cmp [of s]
  by (auto simp: in_release_band_def relaxed_def word_pos_uint)

lemma relaxed_not_strained: "sane_sample s \<Longrightarrow> relaxed s \<Longrightarrow> \<not> strained s 30 15 10 \<and> \<not> strained s 12 8 25"
  by (auto simp: relaxed_def strained_def sane_sample_def)

text \<open>For every sample with sizes up to 64 PiB the tier is decided by the integer inequalities:
  the throttle criteria enter at once, the advisory criteria enter from below, and a tier is left,
  one step at a time, only when swap, memory and stalls are all inside the release band.\<close>

theorem tier_by_integers:
  assumes "sane_sample s"
  shows "classify_pressure s previous = tier_spec s previous"
  unfolding classify_pressure_def tier_spec_def Let_def raw_tier_spec [OF assms] release_spec [OF assms]
  using relaxed_not_strained [OF assms]
  by (cases previous) (auto simp: less_eq_pressure_tier_def)

definition calm_sample :: pressure_sample where
  "calm_sample = \<lparr>ms_mem_total_kb = 16000000, ms_mem_available_kb = 9000000, ms_swap_total_kb = 24000000,
     ms_swap_free_kb = 20000000, ms_psi_some_avg10 = Fin 0, ms_psi_full_avg10 = Fin 0\<rparr>"

theorem tier_by_integers_witness:
  "classify_pressure calm_sample TierThrottle = TierAdvisory \<and>
   classify_pressure (calm_sample\<lparr>ms_swap_free_kb := 200\<rparr>) TierNormal = TierThrottle"
proof -
  have "sane_sample calm_sample" "sane_sample (calm_sample\<lparr>ms_swap_free_kb := 200\<rparr>)"
    by (simp_all add: sane_sample_def calm_sample_def)
  from tier_by_integers [OF this(1)] tier_by_integers [OF this(2)] show ?thesis
    by (simp add: tier_spec_def strained_def relaxed_def psi_full_def calm_sample_def)
qed

section \<open>Reading the memory statistics\<close>

definition meminfo_key :: "string \<Rightarrow> bool" where
  "meminfo_key k \<longleftrightarrow> k \<noteq> [] \<and> NL \<notin> set k \<and> CHR '':'' \<notin> set k"

definition meminfo_line :: "string \<times> nat \<Rightarrow> string" where
  "meminfo_line e = fst e @ '':   '' @ show_nat (snd e) @ '' kB''"

definition meminfo_text :: "(string \<times> nat) list \<Rightarrow> string" where
  "meminfo_text es = concat (map (\<lambda>e. meminfo_line e @ [NL]) es)"

lemma takeWhile_until: "c \<notin> set k \<Longrightarrow> takeWhile (\<lambda>x. x \<noteq> c) (k @ c # s) = k"
  by (induction k) auto

lemma keys_differ:
  assumes "CHR '':'' \<notin> set k" and "CHR '':'' \<notin> set k'"
  shows "starts_with (k' @ CHR '':'' # s) (k @ '':'') \<longleftrightarrow> k' = k"
proof
  assume "starts_with (k' @ CHR '':'' # s) (k @ '':'')"
  then obtain t where "k' @ CHR '':'' # s = k @ CHR '':'' # t" by (auto simp: starts_with_iff)
  then have "takeWhile (\<lambda>c. c \<noteq> CHR '':'') (k' @ CHR '':'' # s) = takeWhile (\<lambda>c. c \<noteq> CHR '':'') (k @ CHR '':'' # t)"
    by simp
  with assms show "k' = k" by (simp add: takeWhile_until)
qed (auto simp: starts_with_iff)

lemma find_kb_field_text:
  assumes "meminfo_key k" and "list_all (meminfo_key \<circ> fst) es"
  shows "find_kb_field (meminfo_text es) (k @ '':'') = map_option of_nat (map_of es k)"
  using assms(2)
proof (induction es)
  case Nil
  then show ?case by (subst find_kb_field.simps) (simp add: meminfo_text_def)
next
  case (Cons e es)
  obtain k' v where e: "e = (k', v)" by (cases e)
  let ?rest = "'' kB'' @ NL # meminfo_text es"
  have t: "meminfo_text (e # es) = k' @ CHR '':'' # ''   '' @ show_nat v @ ?rest"
    by (simp add: meminfo_text_def meminfo_line_def e)
  have sw: "starts_with (meminfo_text (e # es)) (k @ '':'') \<longleftrightarrow> k' = k"
    unfolding t using assms(1) Cons.prems by (intro keys_differ) (auto simp: meminfo_key_def e)
  have line: "NL \<notin> set (meminfo_line e)"
    using Cons.prems show_nat_digits [of NL v] by (auto simp: meminfo_line_def meminfo_key_def e is_digit_def)
  then have drop: "drop_line (meminfo_text (e # es)) = meminfo_text es"
    using take_drop_line by (simp add: meminfo_text_def)
  have hd: "\<not> is_blank (hd (show_nat v))"
    using show_nat_digits [of "hd (show_nat v)" v] by (auto simp: is_blank_def is_digit_def)
  have "skip_blanks (''   '' @ show_nat v @ ?rest) = show_nat v @ ?rest"
    using hd by (cases "show_nat v") (simp_all add: skip_blanks_def is_blank_def)
  moreover have "span_digits (show_nat v @ ?rest) = (show_nat v, ?rest)"
    by (intro span_digits_append list_all_show_nat) (simp add: is_digit_def)
  ultimately have num: "find_kb_field (meminfo_text (e # es)) (k @ '':'') = Some (of_nat v)" if "k' = k"
    using that sw by (subst find_kb_field.simps) (simp add: t digits_val_show_nat)
  have ne: "meminfo_text (e # es) \<noteq> []" by (simp add: meminfo_text_def meminfo_line_def)
  show ?case
  proof (cases "k' = k")
    case False
    then have "find_kb_field (meminfo_text (e # es)) (k @ '':'') = find_kb_field (meminfo_text es) (k @ '':'')"
      using sw ne drop by (subst find_kb_field.simps) simp
    with False Cons show ?thesis by (simp add: e)
  qed (use num e in simp)
qed

text \<open>From the statistics the kernel prints, in whatever order and with whatever other entries
  between them, the parser recovers the four sizes; the three optional ones read as zero when
  they are missing, and a text without a total is refused.\<close>

theorem meminfo_recovers_sizes:
  assumes "list_all (meminfo_key \<circ> fst) es"
  shows "parse_meminfo (meminfo_text es) s =
    map_option (\<lambda>total. s\<lparr>ms_mem_total_kb := of_nat total,
      ms_mem_available_kb := (case map_of es ''MemAvailable'' of None \<Rightarrow> 0 | Some v \<Rightarrow> of_nat v),
      ms_swap_total_kb := (case map_of es ''SwapTotal'' of None \<Rightarrow> 0 | Some v \<Rightarrow> of_nat v),
      ms_swap_free_kb := (case map_of es ''SwapFree'' of None \<Rightarrow> 0 | Some v \<Rightarrow> of_nat v)\<rparr>)
    (map_of es ''MemTotal'')"
proof -
  have f: "find_kb_field (meminfo_text es) (k @ '':'') = map_option of_nat (map_of es k)" if "meminfo_key k" for k
    using find_kb_field_text [OF that assms] .
  have key: "meminfo_key ''MemTotal''" "meminfo_key ''MemAvailable''" "meminfo_key ''SwapTotal''" "meminfo_key ''SwapFree''"
    by (simp_all add: meminfo_key_def)
  show ?thesis
    using f [OF key(1)] f [OF key(2)] f [OF key(3)] f [OF key(4)]
    by (cases es) (auto simp: parse_meminfo_def meminfo_text_def meminfo_line_def split: option.splits)
qed

theorem meminfo_recovers_sizes_witness:
  "map_option ms_swap_free_kb (parse_meminfo
     (meminfo_text [(''MemTotal'', 15710204), (''Cached'', 12), (''SwapFree'', 200), (''SwapTotal'', 24000000)])
     pressure_sample_init) = Some 200"
  using meminfo_recovers_sizes
    [of "[(''MemTotal'', 15710204), (''Cached'', 12), (''SwapFree'', 200), (''SwapTotal'', 24000000)]" pressure_sample_init]
  by (simp add: meminfo_key_def)

end
