(* ===== verification/Low_Memory.thy ===== *)
theory Low_Memory
  imports Actuators Machines
begin

text \<open>
  The low memory notifier (\<^verbatim>\<open>src/policy/low_memory_notifier.cpp\<close>): a signal with a level on
  the system bus, not repeated for the same level within fifteen seconds.
\<close>

definition LEVEL_NORMAL :: u8 where [code_consts]: "LEVEL_NORMAL = 0"
definition LEVEL_MODERATE :: u8 where [code_consts]: "LEVEL_MODERATE = 100"
definition LEVEL_CRITICAL :: u8 where [code_consts]: "LEVEL_CRITICAL = 255"
definition REPEAT_COOLDOWN_SEC :: u64 where [code_consts]: "REPEAT_COOLDOWN_SEC = 15"

record notifier =
  nt_bus :: bool
  nt_last_level :: u8
  nt_last_emit :: u64
  nt_name_claimed :: bool

definition notifier_init :: notifier where
  "notifier_init = \<lparr>nt_bus = False, nt_last_level = 0, nt_last_emit = 0, nt_name_claimed = False\<rparr>"

definition notifier_initialize :: "kernel \<Rightarrow> notifier \<Rightarrow> (bool \<times> notifier) io" where
  "notifier_initialize k s =
     (if nt_bus s then return_io (True, s)
      else do {
        ok \<leftarrow> sys_bus_open k;
        if \<not> ok then return_io (False, s)
        else do {
          named \<leftarrow> sys_bus_name k;
          return_io (True, s\<lparr>nt_bus := True, nt_name_claimed := named\<rparr>)
        }})"

text \<open>A time of zero asks for the monotonic clock.\<close>

definition notify :: "kernel \<Rightarrow> u8 \<Rightarrow> u64 \<Rightarrow> notifier \<Rightarrow> (bool \<times> notifier) io" where
  "notify k level now_sec s = do {
     (ok, s) \<leftarrow> (if nt_bus s then return_io (True, s) else notifier_initialize k s);
     if \<not> ok then return_io (False, s)
     else do {
       now_sec \<leftarrow> (if now_sec = 0 then sys_now_steady k else return_io now_sec);
       if level = LEVEL_NORMAL \<and> nt_last_level s = LEVEL_NORMAL then return_io (True, s)
       else if level = nt_last_level s \<and> now_sec - nt_last_emit s < REPEAT_COOLDOWN_SEC
       then return_io (False, s)
       else do {
         sent \<leftarrow> sys_bus_emit k level;
         if sent then do {
           log_event (EvAlert ''MEMORY_GC'');
           return_io (True, s\<lparr>nt_last_level := level, nt_last_emit := now_sec\<rparr>)
         }
         else return_io (False, s)
       }
     }
   }"

definition notifier_shutdown :: "kernel \<Rightarrow> notifier \<Rightarrow> notifier io" where
  "notifier_shutdown k s = do {
     s \<leftarrow> (if nt_bus s
          then do {
            s \<leftarrow> (if nt_last_level s \<noteq> LEVEL_NORMAL
                 then do { now \<leftarrow> sys_now_steady k; (_, s) \<leftarrow> notify k LEVEL_NORMAL now s; return_io s }
                 else return_io s);
            sys_bus_close;
            return_io (s\<lparr>nt_bus := False\<rparr>) }
          else return_io s);
     return_io (s\<lparr>nt_last_level := LEVEL_NORMAL, nt_last_emit := 0, nt_name_claimed := False\<rparr>)
   }"

lemmas notifier_defs = notify_def notifier_initialize_def notifier_shutdown_def

text \<open>The notifier talks to the bus, reads the clock and logs.\<close>

definition bus_event :: "event \<Rightarrow> bool" where
  "bus_event e = (case e of EvBusOpen _ \<Rightarrow> True | EvBusName _ \<Rightarrow> True | EvBusEmit _ _ \<Rightarrow> True
     | EvBusClose \<Rightarrow> True | EvClock \<Rightarrow> True | EvAlert _ \<Rightarrow> True | _ \<Rightarrow> False)"

lemma bus_event_simps [simp]:
  "bus_event (EvBusOpen b)" "bus_event (EvBusName b)" "bus_event (EvBusEmit l b)" "bus_event EvBusClose"
  "bus_event EvClock" "bus_event (EvAlert c)"
  by (simp_all add: bus_event_def)

lemma emits_notifier [io_specs]:
  assumes "\<And>e. bus_event e \<Longrightarrow> P e"
  shows "emits P (notifier_initialize k s)" and "emits P (notify k l n s)"
    and "emits P (notifier_shutdown k s)"
proof -
  show init: "emits P (notifier_initialize k s)" for s
    unfolding notifier_initialize_def sys_defs by (auto intro!: io_rules assms)
  show level: "emits P (notify k l n s)" for l n s
    unfolding notify_def sys_defs by (auto intro!: io_rules init assms)
  show "emits P (notifier_shutdown k s)"
    unfolding notifier_shutdown_def sys_defs by (auto intro!: io_rules level assms)
qed

section \<open>Properties\<close>

text \<open>The level of the last signal the bus took, as the recipients know it.\<close>

fun announced :: "history \<Rightarrow> u8" where
  "announced [] = LEVEL_NORMAL"
| "announced (e # h) = (case e of EvBusEmit l ok \<Rightarrow> if ok then l else announced h | _ \<Rightarrow> announced h)"

text \<open>The operations between start and shutdown.\<close>

datatype notifier_op = OpBusInitialize | OpNotify u8 u64

fun notifier_step :: "kernel \<Rightarrow> notifier_op \<Rightarrow> notifier \<Rightarrow> notifier io" where
  "notifier_step k OpBusInitialize s = do { (_, s') \<leftarrow> notifier_initialize k s; return_io s' }"
| "notifier_step k (OpNotify l n) s = do { (_, s') \<leftarrow> notify k l n s; return_io s' }"

definition notifier_run :: "kernel \<Rightarrow> notifier_op list \<Rightarrow> notifier \<Rightarrow> notifier io" where
  "notifier_run k ops s = io_for (\<lambda>_. True) (notifier_step k) ops s"

text \<open>No announcement of the level normal follows another one.\<close>

fun normal_once :: "history \<Rightarrow> bool" where
  "normal_once [] = True"
| "normal_once (e # h) =
     ((case e of EvBusEmit l _ \<Rightarrow> l = LEVEL_NORMAL \<longrightarrow> announced h \<noteq> LEVEL_NORMAL | _ \<Rightarrow> True) \<and> normal_once h)"

definition notifier_inv :: "notifier \<Rightarrow> history \<Rightarrow> bool" where
  "notifier_inv s h \<longleftrightarrow> nt_last_level s = announced h \<and> normal_once h"

lemma notifier_step_inv: "notifier_inv s h \<Longrightarrow> wp (notifier_step k op s) notifier_inv h"
  by (cases op) (auto simp: notifier_defs sys_defs wp_simps notifier_inv_def)

interpretation notifier: io_machine "notifier_step k" notifier_inv for k
  by unfold_locales (rule notifier_step_inv)

text \<open>Between start and shutdown the notifier always knows the level its recipients were last
  told, whatever signals the bus refuses, and it never announces the level normal to recipients
  that are already at normal.\<close>

theorem notifier_knows_announced_level:
  "case run_state (notifier_run k ops notifier_init) [] of
     (s, h) \<Rightarrow> nt_last_level s = announced h \<and> normal_once h"
proof -
  have "notifier_inv notifier_init []" by (simp add: notifier_inv_def notifier_init_def code_consts)
  from notifier.run_inv [OF this, of k ops] show ?thesis
    unfolding notifier_run_def wp_def notifier_inv_def .
qed

text \<open>Announcing moderate and then critical in one tick defeats the repeat limit: from a
  connected notifier whose last level is critical, both signals go out again, whatever the times.\<close>

theorem alternating_levels_never_rate_limited:
  assumes "nt_bus s" and "nt_last_level s = LEVEL_CRITICAL" and "\<And>h l. k_bus_emit k h l"
    and "t1 \<noteq> 0" and "t2 \<noteq> 0"
  shows "case run_state (notifier_run k [OpNotify LEVEL_MODERATE t1, OpNotify LEVEL_CRITICAL t2] s) h of
     (s', h') \<Rightarrow> nt_last_level s' = LEVEL_CRITICAL \<and>
       h' = [EvAlert ''MEMORY_GC'', EvBusEmit LEVEL_CRITICAL True,
             EvAlert ''MEMORY_GC'', EvBusEmit LEVEL_MODERATE True] @ h"
  using assms by (simp add: notifier_run_def notifier_defs sys_defs code_consts)

theorem alternating_levels_never_rate_limited_witness:
  "length (snd (run_state (notifier_run (quiet_kernel\<lparr>k_bus_emit := (\<lambda>_ _. True)\<rparr>)
     [OpNotify LEVEL_MODERATE 1000, OpNotify LEVEL_CRITICAL 1000]
     (notifier_init\<lparr>nt_bus := True, nt_last_level := LEVEL_CRITICAL, nt_last_emit := 999\<rparr>)) [])) = 4"
  using alternating_levels_never_rate_limited
    [of "notifier_init\<lparr>nt_bus := True, nt_last_level := LEVEL_CRITICAL, nt_last_emit := 999\<rparr>"
        "quiet_kernel\<lparr>k_bus_emit := (\<lambda>_ _. True)\<rparr>" 1000 1000 "[]"]
  by (simp add: split: prod.splits)

end
