(* ===== verification/Targeted_Reclaim.thy ===== *)
theory Targeted_Reclaim
  imports Pressure_Sample Low_Memory
begin

text \<open>
  The targeted reclaim of application memory (\<^verbatim>\<open>src/policy/targeted_app_reclaim.cpp\<close>): under
  pressure, at most every twenty minutes, a low memory warning and the reclaim of a fixed amount
  from the cgroups of at most two large processes.
\<close>

definition COOLDOWN_SEC :: u64 where [code_consts]: "COOLDOWN_SEC = 1200"
definition RECLAIM_BYTES_PER_PASS :: u64 where [code_consts]: "RECLAIM_BYTES_PER_PASS = 268435456"
definition MIN_CANDIDATE_PSS_KIB :: u64 where [code_consts]: "MIN_CANDIDATE_PSS_KIB = 262144"
abbreviation "MAX_RECLAIM_TARGETS \<equiv> (2 :: nat)"

record reclaim_telemetry =
  rt_last_sec :: u64
  rt_total_bytes :: u64
  rt_count :: u32
  rt_pids :: "pid list"

definition telemetry_init :: reclaim_telemetry where
  "telemetry_init = \<lparr>rt_last_sec = 0, rt_total_bytes = 0, rt_count = 0, rt_pids = [0, 0]\<rparr>"

definition is_eligible_candidate :: "proc_power \<Rightarrow> bool" where
  "is_eligible_candidate pr =
     (if pp_pid pr \<le> 1 then False
      else if pp_pss_kib pr < MIN_CANDIDATE_PSS_KIB then False
      else pp_safety_tier pr \<notin> tier_code ` {CriticalImmune, DesktopCore, DesktopShell})"

definition is_pressure_satisfied :: "pressure_sample \<Rightarrow> pressure_tier \<Rightarrow> bool" where
  "is_pressure_satisfied s tier =
     (if tier \<noteq> TierNormal then True
      else if fp_gt (ms_psi_full_avg10 s) (Fin 5) then True
      else if 0 < ms_mem_total_kb s \<and> fp_lt (usage_pct (ms_mem_available_kb s) (ms_mem_total_kb s)) (Fin 20) then True
      else if 0 < ms_swap_total_kb s \<and> fp_lt (usage_pct (ms_swap_free_kb s) (ms_swap_total_kb s)) (Fin 35) then True
      else False)"

definition is_cooldown_expired :: "u64 \<Rightarrow> u64 \<Rightarrow> u64 \<Rightarrow> bool" where
  "is_cooldown_expired now_sec last_reclaim_sec cooldown_sec =
     (if last_reclaim_sec = 0 then True
      else if now_sec < last_reclaim_sec then True
      else cooldown_sec \<le> now_sec - last_reclaim_sec)"

text \<open>The loop's variables: the number of processes reclaimed and the telemetry.\<close>

definition reclaim_one ::
  "globals \<Rightarrow> kernel \<Rightarrow> proc_power \<Rightarrow> nat \<times> reclaim_telemetry \<Rightarrow> (nat \<times> reclaim_telemetry) io" where
  "reclaim_one g k pr acc =
     (if \<not> is_eligible_candidate pr then return_io acc
      else do {
        ok \<leftarrow> apply_memory_reclaim g k (pp_pid pr) RECLAIM_BYTES_PER_PASS False;
        if \<not> ok then return_io acc
        else do {
          let (acted, s) = acc;
          log_event (EvMitigation (pp_pid pr) (pp_comm pr) ''TargetedAppReclaim'');
          return_io (acted + 1, s\<lparr>rt_pids := (rt_pids s)[acted := pp_pid pr],
                                  rt_total_bytes := rt_total_bytes s + RECLAIM_BYTES_PER_PASS\<rparr>)
        }
      })"

definition targeted_evaluate ::
  "globals \<Rightarrow> kernel \<Rightarrow> report \<Rightarrow> pressure_sample \<Rightarrow> pressure_tier \<Rightarrow> u64 \<Rightarrow> notifier \<Rightarrow> reclaim_telemetry \<Rightarrow>
   (nat \<times> notifier \<times> reclaim_telemetry) io" where
  "targeted_evaluate g k r sample tier now_sec nt s =
     (if \<not> is_pressure_satisfied sample tier then return_io (0, nt, s)
      else if \<not> is_cooldown_expired now_sec (rt_last_sec s) COOLDOWN_SEC then return_io (0, nt, s)
      else do {
        (_, nt) \<leftarrow> notify k LEVEL_MODERATE now_sec nt;
        (acted, s) \<leftarrow> io_for (\<lambda>acc. fst acc < MAX_RECLAIM_TARGETS) (reclaim_one g k) (top_list r)
                      (0, s\<lparr>rt_pids := [0, 0]\<rparr>);
        log_event (EvAlert ''MEMORY_HYGIENE'');
        return_io (acted, nt, s\<lparr>rt_last_sec := now_sec, rt_count := rt_count s + 1\<rparr>)
      })"

section \<open>Effects\<close>

definition targeted_event :: "globals \<Rightarrow> event \<Rightarrow> bool" where
  "targeted_event g e \<longleftrightarrow> bus_event e \<or> is_read_event e \<or> (\<not> gl_sandbox g \<and> actuator_event e) \<or>
     (\<exists>p c. e = EvMitigation p c ''TargetedAppReclaim'')"

lemma emits_targeted_from:
  assumes "\<And>e. bus_event e \<Longrightarrow> P e" and "\<And>p c. P (EvMitigation p c ''TargetedAppReclaim'')"
    and "\<And>p. emits P (apply_memory_reclaim g k p RECLAIM_BYTES_PER_PASS False)"
  shows "emits P (targeted_evaluate g k r sample tier n nt s)"
proof -
  have one: "emits P (reclaim_one g k pr acc)" for pr acc
    unfolding reclaim_one_def Let_def log_event_def
    by (auto intro!: io_rules assms split: prod.splits)
  show ?thesis
    unfolding targeted_evaluate_def log_event_def
    by (auto intro!: io_rules emits_notifier one assms)
qed

lemma emits_targeted [io_specs]: "emits (targeted_event g) (targeted_evaluate g k r sample tier n nt s)"
  by (rule emits_targeted_from) (auto simp: targeted_event_def intro!: emits_actuators)

section \<open>Properties\<close>

text \<open>What a pass leaves: at most two processes, each of them eligible, each for 256 MiB.\<close>

definition pass_ok :: "report \<Rightarrow> u64 \<Rightarrow> nat \<times> reclaim_telemetry \<Rightarrow> bool" where
  "pass_ok r bytes0 acc \<longleftrightarrow>
     fst acc \<le> MAX_RECLAIM_TARGETS \<and> length (rt_pids (snd acc)) = 2 \<and>
     rt_total_bytes (snd acc) = bytes0 + of_nat (fst acc) * RECLAIM_BYTES_PER_PASS \<and>
     (\<forall>i < fst acc. \<exists>pr \<in> set (top_list r). is_eligible_candidate pr \<and> rt_pids (snd acc) ! i = pp_pid pr)"

lemma pass_ok_step:
  assumes "pass_ok r b acc" and "fst acc < MAX_RECLAIM_TARGETS" and "pr \<in> set (top_list r)"
  shows "wp (reclaim_one g k pr acc) (\<lambda>acc _. pass_ok r b acc) h"
proof (cases "is_eligible_candidate pr")
  case True
  have "pass_ok r b (fst acc + 1, snd acc\<lparr>rt_pids := (rt_pids (snd acc))[fst acc := pp_pid pr],
      rt_total_bytes := rt_total_bytes (snd acc) + RECLAIM_BYTES_PER_PASS\<rparr>)"
    using assms True by (auto simp: pass_ok_def nth_list_update less_Suc_eq algebra_simps)
  then show ?thesis
    using True assms(1)
    by (auto simp: reclaim_one_def log_event_def wp_simps Let_def case_prod_unfold
        intro!: wp_any [of _ "apply_memory_reclaim g k (pp_pid pr) RECLAIM_BYTES_PER_PASS False"])
qed (simp add: reclaim_one_def wp_simps assms(1))

text \<open>An evaluation is idle, or a pass after which whatever its loop keeps holds.\<close>

lemma wp_targeted:
  assumes "\<And>h. wp (io_for (\<lambda>acc. fst acc < MAX_RECLAIM_TARGETS) (reclaim_one g k) (top_list r)
      (0, s\<lparr>rt_pids := [0, 0]\<rparr>)) (\<lambda>acc _. I acc) h"
    and "Q (0, s)"
    and "\<And>acc. is_cooldown_expired now_sec (rt_last_sec s) COOLDOWN_SEC \<Longrightarrow> I acc \<Longrightarrow>
      Q (fst acc, (snd acc)\<lparr>rt_last_sec := now_sec, rt_count := rt_count (snd acc) + 1\<rparr>)"
  shows "wp (targeted_evaluate g k r sample tier now_sec nt s) (\<lambda>(n, _, s') _. Q (n, s')) h"
proof (cases "is_pressure_satisfied sample tier \<and> is_cooldown_expired now_sec (rt_last_sec s) COOLDOWN_SEC")
  case True
  have rest: "wp (do {
        (acted, s) \<leftarrow> io_for (\<lambda>acc. fst acc < MAX_RECLAIM_TARGETS) (reclaim_one g k) (top_list r)
                      (0, s\<lparr>rt_pids := [0, 0]\<rparr>);
        log_event (EvAlert ''MEMORY_HYGIENE'');
        return_io (acted, nt, s\<lparr>rt_last_sec := now_sec, rt_count := rt_count s + 1\<rparr>) })
      (\<lambda>(n, _, s') _. Q (n, s')) h1" for nt h1
    unfolding wp_bind
    by (rule wp_mono [OF assms(1)]) (use True in \<open>auto simp: wp_simps log_event_def case_prod_unfold intro: assms(3)\<close>)
  have notified: "wp (notify k LEVEL_MODERATE now_sec nt \<bind> m) R h" if "\<And>x h1. wp (m x) R h1" for m R
    unfolding wp_bind by (rule wp_any) (rule that)
  show ?thesis
    using True rest [unfolded case_prod_unfold]
    by (auto simp: targeted_evaluate_def case_prod_unfold intro!: notified)
next
  case False
  then show ?thesis using assms(2) by (auto simp: targeted_evaluate_def wp_simps)
qed

text \<open>A system in which every task lives in the cgroup \<^verbatim>\<open>/app\<close> and its files can be written.\<close>

definition cgroup_kernel :: kernel where
  "cgroup_kernel = quiet_kernel\<lparr>
     k_read_file := (\<lambda>_ p _. if ends_with p ''/cgroup'' then Some (''0::/app'' @ [NL]) else None),
     k_open_write := (\<lambda>_ _. True), k_write := (\<lambda>_ _ d. int (length d))\<rparr>"

definition two_apps :: report where
  "two_apps = report_of [example_proc 900 ''plasmashell'' DesktopShell 500000,
     example_proc 901 ''chrome'' UserInteractive 900000, example_proc 902 ''code'' UserInteractive 1000]"

definition pass_at :: "u64 \<Rightarrow> reclaim_telemetry \<Rightarrow> ((nat \<times> notifier \<times> reclaim_telemetry) \<times> history)" where
  "pass_at t s = run_state (targeted_evaluate quiet_globals cgroup_kernel two_apps pressure_sample_init
     TierThrottle t notifier_init s) []"

abbreviation "state_after p \<equiv> snd (snd (fst p))"

lemma pass_at_acts:
  assumes "is_cooldown_expired t (rt_last_sec s) COOLDOWN_SEC"
  shows "fst (fst (pass_at t s)) = 1 \<and> rt_last_sec (state_after (pass_at t s)) = t \<and>
    rt_count (state_after (pass_at t s)) = rt_count s + 1"
proof -
  have line: "find_cgroup_line n (''0::/app'' @ [NL]) = cgroup_line_path n (''/app'' @ [NL])" for n
    by (subst find_cgroup_line.simps) (simp add: starts_with_def)
  have path: "cgroup_line_path 256 (''/app'' @ [NL]) = Some ''/sys/fs/cgroup/app''"
    by (simp add: cgroup_line_path_def Let_def)
  have cg: "ends_with (proc_path p ''cgroup'') ''/cgroup''" for p
    using ends_with_append [of "''/proc/'' @ show_int p" "''/cgroup''"] by (simp add: proc_path_def)
  have reclaim: "fst (run_state (apply_memory_reclaim quiet_globals cgroup_kernel p RECLAIM_BYTES_PER_PASS False) h)" if "1 < p" for p h
    using that line path cg
    by (simp add: apply_memory_reclaim_def with_cgroup_file_def resolve_cgroup_path_def read_small_file_def
        cgroup_kernel_def sys_defs hw_open_write_def quiet_globals_def code_consts Let_def)
  show ?thesis
    using reclaim [of 901] assms
    by (simp add: pass_at_def targeted_evaluate_def two_apps_def notifier_defs sys_defs
        is_pressure_satisfied_def notifier_init_def
        reclaim_one_def is_eligible_candidate_def example_proc_def code_consts case_prod_unfold Let_def)
qed

text \<open>A pass reclaims from at most two processes, each of them eligible (large, and of none of the
  three protected tiers), records who they were, and counts 256 MiB for each.\<close>

theorem targeted_pass_bounded:
  assumes "run_state (targeted_evaluate g k r sample tier now_sec nt s) h = ((n, nt', s'), h')"
  shows "n \<le> MAX_RECLAIM_TARGETS \<and> rt_total_bytes s' = rt_total_bytes s + of_nat n * RECLAIM_BYTES_PER_PASS \<and>
    (\<forall>i < n. \<exists>pr \<in> set (top_list r). is_eligible_candidate pr \<and> rt_pids s' ! i = pp_pid pr)"
proof -
  have loop: "wp (io_for (\<lambda>acc. fst acc < MAX_RECLAIM_TARGETS) (reclaim_one g k) (top_list r) (0, s\<lparr>rt_pids := [0, 0]\<rparr>))
     (\<lambda>acc _. pass_ok r (rt_total_bytes s) acc) h1" for h1
    by (rule wp_for) (simp add: pass_ok_def, rule pass_ok_step)
  let ?Q = "\<lambda>(n, s'). n \<le> MAX_RECLAIM_TARGETS \<and>
        rt_total_bytes s' = rt_total_bytes s + of_nat n * RECLAIM_BYTES_PER_PASS \<and>
        (\<forall>i < n. \<exists>pr \<in> set (top_list r). is_eligible_candidate pr \<and> rt_pids s' ! i = pp_pid pr)"
  have "wp (targeted_evaluate g k r sample tier now_sec nt s) (\<lambda>(n, _, s') _. ?Q (n, s')) h"
    by (rule wp_targeted [OF loop]) (auto simp: pass_ok_def)
  with assms show ?thesis by (simp add: wp_def)
qed

theorem targeted_pass_bounded_witness:
  "rt_total_bytes (state_after (pass_at 5000 telemetry_init)) = 268435456"
proof -
  obtain n nt' s' h' where run: "pass_at 5000 telemetry_init = ((n, nt', s'), h')" by (metis prod_cases3 surj_pair)
  have "n = 1"
    using pass_at_acts [of 5000 telemetry_init] run by (simp add: is_cooldown_expired_def telemetry_init_def)
  with targeted_pass_bounded [OF run [unfolded pass_at_def]] run show ?thesis
    by (simp add: telemetry_init_def code_consts)
qed

text \<open>One evaluation and whether it was a pass.\<close>

definition targeted_tick :: "u64 \<Rightarrow> reclaim_telemetry \<Rightarrow> reclaim_telemetry \<Rightarrow> bool \<Rightarrow> bool" where
  "targeted_tick now_sec s s' acted \<longleftrightarrow>
     acted = (rt_count s' \<noteq> rt_count s) \<and>
     (\<exists>g k r sample tier nt h n nt' h'.
        run_state (targeted_evaluate g k r sample tier now_sec nt s) h = ((n, nt', s'), h'))"

lemma reclaim_one_keeps:
  "wp (reclaim_one g k pr acc) (\<lambda>acc' _. rt_last_sec (snd acc') = rt_last_sec (snd acc) \<and>
     rt_count (snd acc') = rt_count (snd acc)) h"
  by (auto simp: reclaim_one_def log_event_def wp_simps Let_def case_prod_unfold
      intro!: wp_any [of _ "apply_memory_reclaim g k (pp_pid pr) RECLAIM_BYTES_PER_PASS False"])

lemma targeted_tick_cases:
  assumes "targeted_tick now_sec s s' acted"
  shows "if acted then is_cooldown_expired now_sec (rt_last_sec s) COOLDOWN_SEC \<and> rt_last_sec s' = now_sec
         else s' = s"
proof -
  from assms obtain g k r sample tier nt h n nt' h' where
    run: "run_state (targeted_evaluate g k r sample tier now_sec nt s) h = ((n, nt', s'), h')"
    and acted: "acted = (rt_count s' \<noteq> rt_count s)" by (auto simp: targeted_tick_def)
  have loop: "wp (io_for (\<lambda>acc. fst acc < MAX_RECLAIM_TARGETS) (reclaim_one g k) (top_list r) (0, s\<lparr>rt_pids := [0, 0]\<rparr>))
     (\<lambda>acc _. rt_count (snd acc) = rt_count s) h1" for h1
    by (rule wp_for) (auto intro: wp_mono [OF reclaim_one_keeps])
  let ?Q = "\<lambda>(n, s'). (s' = s \<and> rt_count s' = rt_count s) \<or>
        (is_cooldown_expired now_sec (rt_last_sec s) COOLDOWN_SEC \<and> rt_last_sec s' = now_sec \<and>
         rt_count s' = rt_count s + 1)"
  have "wp (targeted_evaluate g k r sample tier now_sec nt s) (\<lambda>(n, _, s') _. ?Q (n, s')) h"
    by (rule wp_targeted [OF loop]) auto
  with run acted show ?thesis by (auto simp: wp_def)
qed

interpretation targeted: paced rt_last_sec COOLDOWN_SEC targeted_tick
  by unfold_locales (auto dest!: targeted_tick_cases simp: is_cooldown_expired_def split: if_splits)

text \<open>However often the guard evaluates the engine, with whatever reports and whatever answers of
  the system, two passes are at least twenty minutes apart, under a clock that does not go back.\<close>

theorem targeted_passes_spaced:
  assumes "paced_run targeted_tick telemetry_init acts now_sec s"
  shows "spaced COOLDOWN_SEC acts"
  using targeted.run_spaced [OF assms] by (simp add: telemetry_init_def)

lemma tick_pass_at:
  assumes "is_cooldown_expired t (rt_last_sec s) COOLDOWN_SEC"
  shows "targeted_tick t s (state_after (pass_at t s)) True"
proof -
  obtain n nt' s' h' where run: "pass_at t s = ((n, nt', s'), h')" by (metis prod_cases3 surj_pair)
  with pass_at_acts [OF assms] show ?thesis
    unfolding targeted_tick_def pass_at_def by fastforce
qed

theorem targeted_passes_spaced_witness: "spaced COOLDOWN_SEC [6500, 5000]"
proof -
  let ?s = "state_after (pass_at 5000 telemetry_init)"
  have e1: "is_cooldown_expired 5000 (rt_last_sec telemetry_init) COOLDOWN_SEC"
    by (simp add: is_cooldown_expired_def telemetry_init_def)
  have "rt_last_sec ?s = 5000" using pass_at_acts [OF e1] by simp
  then have e2: "is_cooldown_expired 6500 (rt_last_sec ?s) COOLDOWN_SEC"
    by (simp add: is_cooldown_expired_def code_consts)
  have "paced_run targeted_tick telemetry_init [5000] 5000 ?s"
    using paced_run.acting [of targeted_tick telemetry_init "[]" 0 telemetry_init 5000 ?s]
      paced_run.start [of targeted_tick telemetry_init] tick_pass_at [OF e1] by simp
  then have "paced_run targeted_tick telemetry_init [6500, 5000] 6500 (state_after (pass_at 6500 ?s))"
    using paced_run.acting [of targeted_tick telemetry_init "[5000]" 5000 ?s 6500 "state_after (pass_at 6500 ?s)"]
      tick_pass_at [OF e2] by simp
  from targeted_passes_spaced [OF this] show ?thesis .
qed

end
