(* ===== verification/Hygiene.thy ===== *)
theory Hygiene
  imports Swap_Tier Machines
begin

text \<open>
  The memory hygiene engine (\<^verbatim>\<open>src/policy/memory_hygiene_engine.cpp\<close>): it removes stale
  files of build tools below \<^verbatim>\<open>/tmp\<close>, demotes a runaway worker, and moves swapped pages
  back into an idle machine's memory, with cooldowns between its actions.  A float to integer
  cast outside the target's range is undefined behaviour, which is the result \<open>None\<close>.
\<close>

section \<open>Constants and state\<close>

definition TMPFS_TRIGGER_USED_BYTES :: u64 where [code_consts]: "TMPFS_TRIGGER_USED_BYTES = 2147483648"
definition ORPHAN_MIN_AGE_SEC :: u64 where [code_consts]: "ORPHAN_MIN_AGE_SEC = 3600"
definition MIN_SWAP_RECLAIM_BYTES :: u64 where [code_consts]: "MIN_SWAP_RECLAIM_BYTES = 2147483648"
definition SWAP_HEADROOM_SAFETY_MARGIN_BYTES :: u64 where
  [code_consts]: "SWAP_HEADROOM_SAFETY_MARGIN_BYTES = 3221225472"
definition TMPFS_SCAN_COOLDOWN_BASE_SEC :: u64 where [code_consts]: "TMPFS_SCAN_COOLDOWN_BASE_SEC = 900"
definition SWAP_EVAL_COOLDOWN_BASE_SEC :: u64 where [code_consts]: "SWAP_EVAL_COOLDOWN_BASE_SEC = 1800"
definition POST_RECLAIM_QUENCH_SEC :: u64 where [code_consts]: "POST_RECLAIM_QUENCH_SEC = 3600"
definition MAX_COOLDOWN_BACKOFF_SEC :: u64 where [code_consts]: "MAX_COOLDOWN_BACKOFF_SEC = 7200"

abbreviation "MAX_SCAN_LEVELS \<equiv> (2 :: nat)"
abbreviation "MAX_INSPECTED_ENTRIES \<equiv> (64 :: nat)"
abbreviation "MAX_ORPHANS \<equiv> (16 :: nat)"

datatype hygiene_strategy = HoldAndProtect | TmpfsOrphanEvict | BatchSoftClamp | SafeIdleDeswap

record orphan =
  or_path :: string
  or_bytes :: u64
  or_mtime :: u64

record hygiene_sample =
  hs_tmpfs_total_kb :: u64
  hs_tmpfs_used_kb :: u64
  hs_zram_used_kb :: u64
  hs_disk_swap_used_kb :: u64
  hs_mem_available_kb :: u64
  hs_stale_count :: nat
  hs_stale_bytes :: u64
  hs_batch_pid :: pid
  hs_on_ac :: bool
  hs_idle :: bool

definition hygiene_sample_init :: hygiene_sample where
  "hygiene_sample_init = \<lparr>hs_tmpfs_total_kb = 0, hs_tmpfs_used_kb = 0, hs_zram_used_kb = 0,
     hs_disk_swap_used_kb = 0, hs_mem_available_kb = 0, hs_stale_count = 0, hs_stale_bytes = 0,
     hs_batch_pid = 0, hs_on_ac = True, hs_idle = False\<rparr>"

record hygiene =
  hy_last_sample :: hygiene_sample
  hy_last_strategy :: hygiene_strategy
  hy_last_scan :: u64
  hy_last_swap_eval :: u64
  hy_last_reclaim :: u64
  hy_tmpfs_cooldown :: u64
  hy_swap_cooldown :: u64
  hy_evicted_bytes :: u64
  hy_evicted_count :: u32

definition hygiene_new :: hygiene where
  "hygiene_new = \<lparr>hy_last_sample = hygiene_sample_init, hy_last_strategy = HoldAndProtect,
     hy_last_scan = 0, hy_last_swap_eval = 0, hy_last_reclaim = 0,
     hy_tmpfs_cooldown = TMPFS_SCAN_COOLDOWN_BASE_SEC, hy_swap_cooldown = SWAP_EVAL_COOLDOWN_BASE_SEC,
     hy_evicted_bytes = 0, hy_evicted_count = 0\<rparr>"

definition hygiene_initialize :: "hygiene \<Rightarrow> hygiene" where
  "hygiene_initialize s = s\<lparr>hy_tmpfs_cooldown := TMPFS_SCAN_COOLDOWN_BASE_SEC,
     hy_swap_cooldown := SWAP_EVAL_COOLDOWN_BASE_SEC, hy_last_scan := 0, hy_last_swap_eval := 0,
     hy_last_reclaim := 0, hy_evicted_bytes := 0, hy_evicted_count := 0\<rparr>"

section \<open>Directories\<close>

definition is_dot_entry :: "string \<Rightarrow> bool" where
  "is_dot_entry name \<longleftrightarrow> name = ''.'' \<or> name = ''..''"

text \<open>\<open>snprintf\<close> of a path into a buffer of 512 bytes; a path that does not fit is skipped.\<close>

definition sub_path :: "string \<Rightarrow> string \<Rightarrow> string option" where
  "sub_path dir name = (let p = dir @ ''/'' @ name in if length p < 512 then Some p else None)"

text \<open>
  The recursion of the code counts the depth up to two; here the first argument counts the
  levels that are left.
\<close>

fun safe_remove_directory_contents :: "kernel \<Rightarrow> nat \<Rightarrow> string \<Rightarrow> bool io" where
  "safe_remove_directory_contents k 0 dir = return_io False"
| "safe_remove_directory_contents k (Suc levels) dir = do {
     r \<leftarrow> sys_opendir k dir;
     case r of None \<Rightarrow> return_io False
     | Some names \<Rightarrow> do {
         io_for (\<lambda>_. True) (\<lambda>name _.
           if is_dot_entry name then return_io ()
           else case sub_path dir name of None \<Rightarrow> return_io ()
           | Some p \<Rightarrow> do {
               st \<leftarrow> sys_lstat k p;
               case st of None \<Rightarrow> return_io ()
               | Some st \<Rightarrow>
                   (if st_kind st = Directory
                    then do { safe_remove_directory_contents k levels p; sys_rmdir k p; return_io () }
                    else do { sys_unlink k p; return_io () })
             }) names ();
         return_io True
       }
   }"

text \<open>The loop's variables: the entries inspected and the bytes so far.\<close>

fun estimate_dir_bytes :: "kernel \<Rightarrow> nat \<Rightarrow> string \<Rightarrow> u64 io" where
  "estimate_dir_bytes k 0 dir = return_io 0"
| "estimate_dir_bytes k (Suc levels) dir = do {
     r \<leftarrow> sys_opendir k dir;
     case r of None \<Rightarrow> return_io 0
     | Some names \<Rightarrow> do {
         acc \<leftarrow> io_for (\<lambda>acc. fst acc < MAX_INSPECTED_ENTRIES) (\<lambda>name acc.
           if is_dot_entry name then return_io acc
           else case sub_path dir name of None \<Rightarrow> return_io (fst acc + 1, snd acc)
           | Some p \<Rightarrow> do {
               st \<leftarrow> sys_lstat k p;
               case st of None \<Rightarrow> return_io (fst acc + 1, snd acc)
               | Some st \<Rightarrow>
                   (if st_kind st = Directory
                    then do { b \<leftarrow> estimate_dir_bytes k levels p;
                              return_io (fst acc + 1, snd acc + of_int (st_size st) + b) }
                    else return_io (fst acc + 1, snd acc + of_int (st_size st)))
             }) names (0, 0);
         return_io (snd acc)
       }
   }"

section \<open>Decisions\<close>

definition check_tmpfs_fast_filter :: "kernel \<Rightarrow> string \<Rightarrow> (bool \<times> u64 \<times> u64) io" where
  "check_tmpfs_fast_filter k mount_point = do {
     r \<leftarrow> sys_statvfs k mount_point;
     return_io (case r of None \<Rightarrow> (False, 0, 0)
       | Some v \<Rightarrow>
           (if f_blocks v = 0 then (False, 0, 0)
            else let total_bytes = f_blocks v * f_frsize v; avail_bytes = f_bavail v * f_frsize v;
                     used_bytes = (if avail_bytes < total_bytes then total_bytes - avail_bytes else 0);
                     used_pct = mul64 (div64 (fp_of_u64 Binary64 used_bytes) (fp_of_u64 Binary64 total_bytes)) (Fin 100)
                 in (fp_ge used_pct (Fin 70) \<or> TMPFS_TRIGGER_USED_BYTES \<le> used_bytes,
                     total_bytes div 1024, used_bytes div 1024)))
   }"

definition tmp_whitelist :: "string list" where
  "tmp_whitelist = [''/tmp/.X11-unix'', ''/tmp/.ICE-unix'', ''/tmp/wayland-'', ''/tmp/pulse-'',
     ''/tmp/pipewire-'', ''/tmp/systemd-private-'', ''/tmp/runtime-'', ''/tmp/.font-unix'',
     ''/tmp/.Test-unix'', ''/tmp/ssh-'', ''/tmp/dbus-'']"

definition is_system_whitelisted :: "string \<Rightarrow> bool" where
  "is_system_whitelisted path \<longleftrightarrow> list_ex (starts_with path) tmp_whitelist"

definition is_file_type_immune :: "file_kind \<Rightarrow> string \<Rightarrow> bool" where
  "is_file_type_immune kind filename \<longleftrightarrow>
     kind \<in> {Socket, Fifo, BlockDev, CharDev} \<or> ends_with filename ''.lock''"

definition is_process_dead :: "kernel \<Rightarrow> pid \<Rightarrow> bool io" where
  "is_process_dead k p =
     (if p \<le> 1 then return_io False
      else do { r \<leftarrow> sys_kill k p 0; return_io (r = NoSuchProcess) })"

definition assert_swap_margin :: "u64 \<Rightarrow> u64 \<Rightarrow> bool option" where
  "assert_swap_margin mem_avail_kb swap_used_kb =
     map_option (\<lambda>twice. twice + SWAP_HEADROOM_SAFETY_MARGIN_BYTES div 1024 \<le> mem_avail_kb)
       (fp_to_u64 (mul64 (fp_of_u64 Binary64 swap_used_kb) (Fin 2)))"

definition compute_backoff :: "u64 \<Rightarrow> bool \<Rightarrow> u64" where
  "compute_backoff current_cooldown actionable =
     (if actionable then TMPFS_SCAN_COOLDOWN_BASE_SEC else min (current_cooldown * 2) MAX_COOLDOWN_BACKOFF_SEC)"

definition select_strategy :: "hygiene_sample \<Rightarrow> hygiene_strategy option" where
  "select_strategy s =
     (if 1073741824 \<le> hs_stale_bytes s then Some TmpfsOrphanEvict
      else if 0 < hs_batch_pid s \<and> hs_mem_available_kb s < 2097152 then Some BatchSoftClamp
      else if hs_on_ac s \<and> hs_idle s \<and> MIN_SWAP_RECLAIM_BYTES \<le> hs_disk_swap_used_kb s * 1024
      then map_option (\<lambda>ok. if ok then SafeIdleDeswap else HoldAndProtect)
             (assert_swap_margin (hs_mem_available_kb s) (hs_zram_used_kb s + hs_disk_swap_used_kb s))
      else Some HoldAndProtect)"

section \<open>Orphans\<close>

definition matches_transient :: "string \<Rightarrow> bool" where
  "matches_transient name \<longleftrightarrow>
     list_ex (starts_with name) [''claude-'', ''CMake'', ''node-compile-cache'', ''lazen-'', ''.tmp-''] \<or>
     list_ex (ends_with name) [''.tmp'', ''.ppm'']"

definition old_enough :: "u64 \<Rightarrow> stat_t \<Rightarrow> bool" where
  "old_enough now_sec st \<longleftrightarrow>
     of_int (st_mtime st) < now_sec \<and> \<not> now_sec - of_int (st_mtime st) < ORPHAN_MIN_AGE_SEC"

text \<open>One entry of \<^verbatim>\<open>/tmp\<close>; the loop's variables are the entries inspected and the candidates.\<close>

definition scan_entry :: "kernel \<Rightarrow> u64 \<Rightarrow> string \<Rightarrow> nat \<times> orphan fvec \<Rightarrow> (nat \<times> orphan fvec) io" where
  "scan_entry k now_sec name acc =
     (if is_dot_entry name then return_io acc
      else do {
        let skip = (fst acc + 1, snd acc);
        case sub_path ''/tmp'' name of None \<Rightarrow> return_io skip
        | Some path \<Rightarrow>
            (if is_system_whitelisted path then return_io skip
             else do {
               st \<leftarrow> sys_lstat k path;
               case st of None \<Rightarrow> return_io skip
               | Some st \<Rightarrow>
                   (if is_file_type_immune (st_kind st) name then return_io skip
                    else if \<not> old_enough now_sec st then return_io skip
                    else if \<not> matches_transient name then return_io skip
                    else do {
                      bytes \<leftarrow> (if st_kind st = Directory then estimate_dir_bytes k MAX_SCAN_LEVELS path
                               else return_io (of_int (st_size st)));
                      return_io (fst acc + 1, snd (fv_push_back MAX_ORPHANS
                        \<lparr>or_path = take 255 path, or_bytes = bytes, or_mtime = of_int (st_mtime st)\<rparr> (snd acc)))
                    })
             })
      })"

definition scan_tmpfs_orphans :: "kernel \<Rightarrow> orphan fvec \<Rightarrow> u64 \<Rightarrow> (bool \<times> orphan fvec) io" where
  "scan_tmpfs_orphans k out now_sec = do {
     let out = fv_clear out;
     r \<leftarrow> sys_opendir k ''/tmp'';
     case r of None \<Rightarrow> return_io (False, out)
     | Some names \<Rightarrow> do {
         acc \<leftarrow> io_for (\<lambda>acc. fst acc < MAX_INSPECTED_ENTRIES \<and> fv_size (snd acc) < MAX_ORPHANS)
                  (scan_entry k now_sec) names (0, out);
         return_io (\<not> fv_is_empty (snd acc), snd acc)
       }
   }"

definition evict_one :: "kernel \<Rightarrow> orphan \<Rightarrow> u32 \<times> hygiene \<Rightarrow> (u32 \<times> hygiene) io" where
  "evict_one k c acc =
     (let p = or_path c;
          evicted = (fst acc + 1, (snd acc)\<lparr>hy_evicted_bytes := hy_evicted_bytes (snd acc) + or_bytes c\<rparr>)
      in if \<not> starts_with p ''/tmp/'' \<or> str_contains p ''..'' then return_io acc
         else if is_system_whitelisted p then return_io acc
         else do {
           st \<leftarrow> sys_lstat k p;
           case st of None \<Rightarrow> return_io acc
           | Some st \<Rightarrow>
               (if is_file_type_immune (st_kind st) p then return_io acc
                else if st_kind st = Directory
                then do {
                  safe_remove_directory_contents k MAX_SCAN_LEVELS p;
                  ok \<leftarrow> sys_rmdir k p;
                  return_io (if ok then evicted else acc) }
                else do {
                  ok \<leftarrow> sys_unlink k p;
                  return_io (if ok then evicted else acc) })
         })"

definition evict_tmpfs_orphans :: "kernel \<Rightarrow> orphan list \<Rightarrow> hygiene \<Rightarrow> (u32 \<times> hygiene) io" where
  "evict_tmpfs_orphans k candidates s = do {
     (count, s) \<leftarrow> io_for (\<lambda>_. True) (evict_one k) candidates (0, s);
     return_io (count, s\<lparr>hy_evicted_count := hy_evicted_count s + count\<rparr>)
   }"

section \<open>The other actuators\<close>

definition actuate_batch_soft_clamp :: "kernel \<Rightarrow> pid \<Rightarrow> bool io" where
  "actuate_batch_soft_clamp k p = (if p \<le> 1 then return_io False else sys_setscheduler k p SCHED_IDLE)"

definition actuate_safe_deswap :: "kernel \<Rightarrow> u64 \<Rightarrow> u64 \<Rightarrow> bool option io" where
  "actuate_safe_deswap k mem_avail_kb swap_used_kb =
     (case assert_swap_margin mem_avail_kb swap_used_kb of None \<Rightarrow> return_io None
      | Some ok \<Rightarrow>
          (if \<not> ok then return_io (Some False)
           else do {
             off \<leftarrow> sys_swapoff k ''/swap/swapfile'';
             if \<not> off then return_io (Some False)
             else do {
               fd \<leftarrow> sys_open_write k ''/sys/block/zram0/compact'';
               io_when fd (do { sys_write k ''/sys/block/zram0/compact'' (''1'' @ [NL]); return_io () });
               sys_swapon k ''/swap/swapfile'' (- 1);
               return_io (Some True)
             }}))"

section \<open>The evaluation\<close>

definition sysinfo_sample :: "sysinfo_t option \<Rightarrow> hygiene_sample \<Rightarrow> hygiene_sample" where
  "sysinfo_sample si s =
     (case si of None \<Rightarrow> s
      | Some i \<Rightarrow>
          (let total_swap = si_totalswap i * si_mem_unit i; free_swap = si_freeswap i * si_mem_unit i
           in s\<lparr>hs_mem_available_kb := si_freeram i * si_mem_unit i div 1024,
                hs_disk_swap_used_kb := (if free_swap < total_swap then (total_swap - free_swap) div 1024 else 0)\<rparr>))"

definition deep_scan :: "kernel \<Rightarrow> bool \<Rightarrow> u64 \<Rightarrow> hygiene_sample \<Rightarrow> hygiene \<Rightarrow>
    (orphan list \<times> hygiene_sample \<times> hygiene) io" where
  "deep_scan k inflated now_sec sample s =
     (if inflated \<and> hy_tmpfs_cooldown s \<le> now_sec - hy_last_scan s
      then do {
        (_, out) \<leftarrow> scan_tmpfs_orphans k fv_new now_sec;
        let cs = fv_items out;
        let stale = fold (\<lambda>c b. b + or_bytes c) cs (hs_stale_bytes sample);
        return_io (cs, sample\<lparr>hs_stale_bytes := stale, hs_stale_count := length cs\<rparr>,
          s\<lparr>hy_last_scan := now_sec, hy_tmpfs_cooldown := compute_backoff (hy_tmpfs_cooldown s) (0 < stale)\<rparr>)
      }
      else return_io ([], sample, s))"

definition batch_worker :: "report \<Rightarrow> pid" where
  "batch_worker r =
     (case List.find (\<lambda>pr. 1 < pp_pid pr \<and>
             (fp_gt (pp_total_watts pr) (Fin 3) \<or> fp_gt (pp_wdi_score pr) (Fin 50))) (top_list r)
      of None \<Rightarrow> 0 | Some pr \<Rightarrow> pp_pid pr)"

definition actuate_strategy :: "kernel \<Rightarrow> u64 \<Rightarrow> orphan list \<Rightarrow> hygiene_sample \<Rightarrow> hygiene_strategy \<Rightarrow>
    hygiene \<Rightarrow> hygiene option io" where
  "actuate_strategy k now_sec candidates sample strategy s =
     (case strategy of
        TmpfsOrphanEvict \<Rightarrow>
          (if candidates \<noteq> []
           then do {
             (_, s) \<leftarrow> evict_tmpfs_orphans k candidates s;
             return_io (Some (s\<lparr>hy_last_reclaim := now_sec, hy_tmpfs_cooldown := TMPFS_SCAN_COOLDOWN_BASE_SEC\<rparr>)) }
           else return_io (Some s))
      | BatchSoftClamp \<Rightarrow>
          (if 0 < hs_batch_pid sample
           then do { actuate_batch_soft_clamp k (hs_batch_pid sample); return_io (Some s) }
           else return_io (Some s))
      | SafeIdleDeswap \<Rightarrow>
          (if hy_swap_cooldown s \<le> now_sec - hy_last_swap_eval s
           then do {
             let s = s\<lparr>hy_last_swap_eval := now_sec\<rparr>;
             r \<leftarrow> actuate_safe_deswap k (hs_mem_available_kb sample) (hs_disk_swap_used_kb sample);
             return_io (case r of None \<Rightarrow> None
               | Some True \<Rightarrow> Some (s\<lparr>hy_last_reclaim := now_sec\<rparr>)
               | Some False \<Rightarrow> Some (s\<lparr>hy_swap_cooldown := compute_backoff (hy_swap_cooldown s) False\<rparr>)) }
           else return_io (Some s))
      | HoldAndProtect \<Rightarrow> return_io (Some s))"

definition hygiene_evaluate :: "kernel \<Rightarrow> report \<Rightarrow> bool \<Rightarrow> bool \<Rightarrow> u64 \<Rightarrow> hygiene \<Rightarrow> hygiene option io" where
  "hygiene_evaluate k r on_ac idle now_sec s =
     (if 0 < hy_last_reclaim s \<and> now_sec - hy_last_reclaim s < POST_RECLAIM_QUENCH_SEC
      then return_io (Some (s\<lparr>hy_last_strategy := HoldAndProtect\<rparr>))
      else do {
        si \<leftarrow> sys_sysinfo k;
        let sample = sysinfo_sample si (hygiene_sample_init\<lparr>hs_on_ac := on_ac, hs_idle := idle\<rparr>);
        (inflated, total_kb, used_kb) \<leftarrow> check_tmpfs_fast_filter k ''/tmp'';
        let sample = sample\<lparr>hs_tmpfs_total_kb := total_kb, hs_tmpfs_used_kb := used_kb\<rparr>;
        (candidates, sample, s) \<leftarrow> deep_scan k inflated now_sec sample s;
        let sample = sample\<lparr>hs_batch_pid := batch_worker r\<rparr>;
        case select_strategy sample of None \<Rightarrow> return_io None
        | Some strategy \<Rightarrow>
            actuate_strategy k now_sec candidates sample strategy
              (s\<lparr>hy_last_strategy := strategy, hy_last_sample := sample\<rparr>)
      })"

section \<open>What the engine does\<close>

text \<open>
  The kinds of calls, coarsely: of a deletion only that it lies below \<^verbatim>\<open>/tmp\<close> and not below a name of the session.
  What a deletion needs besides is said by \<open>deletions_ok\<close> further on.
\<close>

definition tmp_disposable :: "string \<Rightarrow> bool" where
  "tmp_disposable p \<longleftrightarrow> starts_with p ''/tmp/'' \<and> \<not> is_system_whitelisted p"

definition hygiene_event :: "event \<Rightarrow> bool" where
  "hygiene_event e =
     (case e of
        EvUnlink p _ \<Rightarrow> tmp_disposable p
      | EvRmdir p _ \<Rightarrow> tmp_disposable p
      | EvSetScheduler p pol _ \<Rightarrow> 1 < p \<and> pol = SCHED_IDLE
      | EvSwapoff p _ \<Rightarrow> p = ''/swap/swapfile''
      | EvSwapon p _ _ \<Rightarrow> p = ''/swap/swapfile''
      | EvOpenWrite p _ \<Rightarrow> p = ''/sys/block/zram0/compact''
      | EvWrite p _ _ \<Rightarrow> p = ''/sys/block/zram0/compact''
      | _ \<Rightarrow> is_read_event e)"

lemma hygiene_event_simps [simp]:
  "hygiene_event (EvUnlink p b) \<longleftrightarrow> tmp_disposable p" "hygiene_event (EvRmdir p b) \<longleftrightarrow> tmp_disposable p"
  "hygiene_event (EvSetScheduler q pol b) \<longleftrightarrow> 1 < q \<and> pol = SCHED_IDLE"
  "hygiene_event (EvSwapoff p b) \<longleftrightarrow> p = ''/swap/swapfile''" "hygiene_event (EvSwapon p fl b) \<longleftrightarrow> p = ''/swap/swapfile''"
  "hygiene_event (EvOpenWrite p b) \<longleftrightarrow> p = ''/sys/block/zram0/compact''"
  "hygiene_event (EvWrite p d n) \<longleftrightarrow> p = ''/sys/block/zram0/compact''"
  "hygiene_event (EvOpenDir p)" "hygiene_event (EvStat p)" "hygiene_event (EvStatVfs p)" "hygiene_event EvSysInfo"
  by (simp_all add: hygiene_event_def)

text \<open>No whitelisted name has a slash behind \<^verbatim>\<open>/tmp/\<close>, so what lies below a disposable
  directory is disposable.\<close>

lemma whitelist_one_level: "w \<in> set tmp_whitelist \<Longrightarrow> starts_with w ''/tmp/'' \<and> CHR ''/'' \<notin> set (drop 5 w)"
  by (auto simp: tmp_whitelist_def starts_with_def)

lemma disposable_below: "tmp_disposable p \<Longrightarrow> tmp_disposable (p @ CHR ''/'' # q)"
proof -
  assume p: "tmp_disposable p"
  have "\<not> starts_with (p @ CHR ''/'' # q) w" if w: "w \<in> set tmp_whitelist" for w
  proof
    assume sw: "starts_with (p @ CHR ''/'' # q) w"
    have not: "\<not> starts_with p w" using p w by (auto simp: tmp_disposable_def is_system_whitelisted_def list_ex_iff)
    have len: "length p < length w"
    proof (rule ccontr)
      assume "\<not> length p < length w"
      with sw have "starts_with p w" by (simp add: starts_with_def)
      with not show False ..
    qed
    have "length (''/tmp/'') \<le> length p" using p by (auto simp: tmp_disposable_def starts_with_iff)
    moreover have "w ! length p = (p @ CHR ''/'' # q) ! length p"
      using sw len by (metis nth_take starts_with_def)
    then have "w ! length p = CHR ''/''" by simp
    ultimately have "drop 5 w ! (length p - 5) = CHR ''/''" "length p - 5 < length (drop 5 w)" using len by auto
    then have "CHR ''/'' \<in> set (drop 5 w)" by (metis nth_mem)
    with whitelist_one_level [OF w] show False by simp
  qed
  then show ?thesis
    using p by (auto simp: tmp_disposable_def is_system_whitelisted_def list_ex_iff starts_with_iff)
qed

lemma disposable_sub_path: "tmp_disposable dir \<Longrightarrow> sub_path dir name = Some p \<Longrightarrow> tmp_disposable p"
  using disposable_below by (auto simp: sub_path_def Let_def split: if_splits)

lemma emits_remove_contents:
  "tmp_disposable dir \<Longrightarrow> emits hygiene_event (safe_remove_directory_contents k n dir)"
proof (induction n arbitrary: dir)
  case (Suc n)
  then show ?case
    unfolding safe_remove_directory_contents.simps sys_defs
    by (auto intro!: io_rules dest: disposable_sub_path)
qed (simp add: io_ok_return)

lemma emits_estimate: "emits hygiene_event (estimate_dir_bytes k n dir)"
proof (induction n arbitrary: dir)
  case (Suc n)
  then show ?case unfolding estimate_dir_bytes.simps sys_defs by (auto intro!: io_rules)
qed (simp add: io_ok_return)

lemma emits_scan: "emits hygiene_event (scan_tmpfs_orphans k out now_sec)"
  unfolding scan_tmpfs_orphans_def scan_entry_def Let_def sys_defs
  by (auto intro!: io_rules emits_estimate)

lemma emits_evict: "emits hygiene_event (evict_tmpfs_orphans k cs s)"
proof -
  have "emits hygiene_event (evict_one k c acc)" for c acc
  proof (cases "starts_with (or_path c) ''/tmp/'' \<and> \<not> is_system_whitelisted (or_path c)")
    case True
    then have "tmp_disposable (or_path c)" by (simp add: tmp_disposable_def)
    then show ?thesis
      unfolding evict_one_def Let_def sys_defs by (auto intro!: io_rules emits_remove_contents)
  qed (auto simp: evict_one_def Let_def io_ok_return)
  then show ?thesis unfolding evict_tmpfs_orphans_def by (auto intro!: io_rules)
qed

lemma emits_deswap: "emits hygiene_event (actuate_safe_deswap k a b)"
  unfolding actuate_safe_deswap_def sys_defs by (auto intro!: io_rules)

lemma emits_actuate_strategy: "emits hygiene_event (actuate_strategy k n cs sm st s)"
  unfolding actuate_strategy_def actuate_batch_soft_clamp_def Let_def sys_setscheduler_def
  by (cases st) (auto intro!: io_rules emits_evict emits_deswap)

lemma emits_fast_filter: "emits hygiene_event (check_tmpfs_fast_filter k p)"
  unfolding check_tmpfs_fast_filter_def sys_defs by (auto intro!: io_rules)

lemma emits_deep_scan: "emits hygiene_event (deep_scan k b n sm s)"
  unfolding deep_scan_def Let_def by (auto intro!: io_rules emits_scan)

lemma emits_hygiene [io_specs]: "emits hygiene_event (hygiene_evaluate k r on_ac idle now_sec s)"
  unfolding hygiene_evaluate_def Let_def sys_sysinfo_def
  by (auto intro!: io_rules emits_fast_filter emits_deep_scan emits_actuate_strategy)

section \<open>What may be deleted\<close>

text \<open>
  The specification of the deletions, read off the calls and the answers of the system.  \<open>build_leftover\<close>: the names that
  build tools leave behind.  \<open>session_path\<close>: the directories of the running session.
\<close>

definition build_leftover :: "string \<Rightarrow> bool" where
  "build_leftover name \<longleftrightarrow> (\<exists>q. name = ''claude-'' @ q \<or> name = ''CMake'' @ q \<or> name = ''node-compile-cache'' @ q \<or>
     name = ''lazen-'' @ q \<or> name = ''.tmp-'' @ q \<or> name = q @ ''.tmp'' \<or> name = q @ ''.ppm'')"

definition session_path :: "string \<Rightarrow> bool" where
  "session_path p \<longleftrightarrow> (\<exists>q. p = ''/tmp/.X11-unix'' @ q \<or> p = ''/tmp/.ICE-unix'' @ q \<or> p = ''/tmp/wayland-'' @ q \<or>
     p = ''/tmp/pulse-'' @ q \<or> p = ''/tmp/pipewire-'' @ q \<or> p = ''/tmp/systemd-private-'' @ q \<or> p = ''/tmp/runtime-'' @ q \<or>
     p = ''/tmp/.font-unix'' @ q \<or> p = ''/tmp/.Test-unix'' @ q \<or> p = ''/tmp/ssh-'' @ q \<or> p = ''/tmp/dbus-'' @ q)"

text \<open>What a lookup told: no socket, pipe or device, and no lock file; and for an hour nobody has written to it.\<close>

definition plain_thing :: "string \<Rightarrow> stat_t \<Rightarrow> bool" where
  "plain_thing name st \<longleftrightarrow> st_kind st \<noteq> Socket \<and> st_kind st \<noteq> Fifo \<and> st_kind st \<noteq> BlockDev \<and> st_kind st \<noteq> CharDev \<and>
     (\<nexists>q. name = q @ ''.lock'')"

definition hour_old :: "u64 \<Rightarrow> stat_t \<Rightarrow> bool" where
  "hour_old now_sec st \<longleftrightarrow> uint (of_int (st_mtime st) :: u64) + 3600 \<le> uint now_sec"

text \<open>\<open>told k p st h\<close>: the history \<open>h\<close> holds a lookup of \<open>p\<close> that the system answered with \<open>st\<close>.\<close>

definition told :: "kernel \<Rightarrow> string \<Rightarrow> stat_t \<Rightarrow> history \<Rightarrow> bool" where
  "told k p st h \<longleftrightarrow> (\<exists>later earlier. h = later @ EvStat p # earlier \<and> k_lstat k earlier p = Some st)"

text \<open>
  A path is condemned when it was found in the listing of \<^verbatim>\<open>/tmp\<close> under the name of a leftover, looked up as plain and an
  hour old, is not a session's and has no double dot, and was looked up as plain once more.  The path of the candidate is cut
  at 255 characters.
\<close>

definition found :: "kernel \<Rightarrow> u64 \<Rightarrow> string \<Rightarrow> history \<Rightarrow> bool" where
  "found k now_sec root_dir h \<longleftrightarrow> (\<exists>name st. root_dir = take 255 (''/tmp/'' @ name) \<and> build_leftover name \<and>
     told k (''/tmp/'' @ name) st h \<and> plain_thing name st \<and> hour_old now_sec st)"

definition condemned :: "kernel \<Rightarrow> u64 \<Rightarrow> string \<Rightarrow> history \<Rightarrow> bool" where
  "condemned k now_sec root_dir h \<longleftrightarrow> found k now_sec root_dir h \<and> \<not> session_path root_dir \<and>
     (\<exists>q. root_dir = ''/tmp/'' @ q) \<and> (\<nexists>q r. root_dir = q @ ''..'' @ r) \<and>
     (\<exists>st. told k root_dir st h \<and> plain_thing root_dir st)"

definition inside :: "string \<Rightarrow> string list \<Rightarrow> string" where
  "inside root_dir names = root_dir @ concat (map (\<lambda>n. ''/'' @ n) names)"

definition within_two :: "string list \<Rightarrow> bool" where
  "within_two names \<longleftrightarrow> length names \<le> 2 \<and> ''.'' \<notin> set names \<and> ''..'' \<notin> set names"

text \<open>
  Only condemned paths and what lies at most two levels inside them are deleted; a file right after a lookup that told that
  it is no directory (and plain, for the condemned path itself), a directory after one that told it is.
\<close>

fun deletions_ok :: "kernel \<Rightarrow> u64 \<Rightarrow> history \<Rightarrow> bool" where
  "deletions_ok k now_sec [] \<longleftrightarrow> True"
| "deletions_ok k now_sec (e # h) \<longleftrightarrow> deletions_ok k now_sec h \<and>
     (case e of
        EvUnlink p _ \<Rightarrow> (\<exists>root_dir names. p = inside root_dir names \<and> within_two names \<and> condemned k now_sec root_dir h \<and>
          (\<exists>h' st. h = EvStat p # h' \<and> k_lstat k h' p = Some st \<and> st_kind st \<noteq> Directory \<and> (names = [] \<longrightarrow> plain_thing p st)))
      | EvRmdir p _ \<Rightarrow> (\<exists>root_dir names. p = inside root_dir names \<and> within_two names \<and> condemned k now_sec root_dir h \<and>
          (\<exists>st. told k p st h \<and> st_kind st = Directory))
      | EvRename _ _ _ \<Rightarrow> False
      | _ \<Rightarrow> True)"

definition looks :: "event \<Rightarrow> bool" where
  "looks e \<longleftrightarrow> (case e of EvUnlink _ _ \<Rightarrow> False | EvRmdir _ _ \<Rightarrow> False | EvRename _ _ _ \<Rightarrow> False | _ \<Rightarrow> True)"

lemma looks_simps [simp]:
  "looks (EvOpenDir p)" "looks (EvStat p)" "looks (EvStatVfs p)" "looks EvSysInfo" "looks (EvSetScheduler q pol b)"
  "looks (EvSwapoff p b)" "looks (EvSwapon p n b)" "looks (EvOpenWrite p b)" "looks (EvWrite p d n)"
  by (simp_all add: looks_def)

lemma looks_ok: "looks e \<Longrightarrow> deletions_ok k now_sec (e # h) \<longleftrightarrow> deletions_ok k now_sec h"
  by (cases e) (auto simp: looks_def)

lemma told_later: "told k p st h \<Longrightarrow> told k p st (e # h)"
  unfolding told_def by (metis append_Cons)

lemma told_now: "k_lstat k h p = Some st \<Longrightarrow> told k p st (EvStat p # h)"
  unfolding told_def by (rule exI [of _ "[]"]) auto

lemma found_later: "found k now_sec p h \<Longrightarrow> found k now_sec p (e # h)"
  unfolding found_def using told_later by blast

lemma condemned_later: "condemned k now_sec p h \<Longrightarrow> condemned k now_sec p (e # h)"
  unfolding condemned_def using told_later found_later by blast

text \<open>The tests of the code say what the specification says.\<close>

lemma whitelist_session: "is_system_whitelisted p \<longleftrightarrow> session_path p"
  by (simp only: is_system_whitelisted_def tmp_whitelist_def session_path_def list_ex_iff list.set insert_iff empty_iff
      bex_simps Bex_def simp_thms starts_with_iff ex_disj_distrib conj_disj_distribR)

lemma transient_leftover: "matches_transient name \<longleftrightarrow> build_leftover name"
  by (simp only: matches_transient_def build_leftover_def list_ex_iff list.set insert_iff empty_iff
      bex_simps Bex_def simp_thms starts_with_iff ends_with_iff ex_disj_distrib conj_disj_distribR disj_assoc)

lemma not_immune_plain: "\<not> is_file_type_immune (st_kind st) name \<longleftrightarrow> plain_thing name st"
  unfolding is_file_type_immune_def plain_thing_def ends_with_iff by auto

lemma old_enough_hour: "old_enough now_sec st \<Longrightarrow> hour_old now_sec st"
proof -
  assume "old_enough now_sec st"
  then have m: "of_int (st_mtime st) < now_sec" and d: "3600 \<le> now_sec - of_int (st_mtime st)"
    by (auto simp: old_enough_def code_consts not_less)
  have "uint (now_sec - of_int (st_mtime st)) = uint now_sec - uint (of_int (st_mtime st) :: u64)"
    using m by (simp add: uint_minus_simple_alt [THEN iffD1] less_imp_le)
  with d show ?thesis by (simp add: hour_old_def word_le_def)
qed

lemma str_contains_iff: "str_contains s p \<longleftrightarrow> (\<exists>q r. s = q @ p @ r)"
proof (induction s)
  case (Cons c s)
  have "(\<exists>q r. c # s = q @ p @ r) \<longleftrightarrow> (\<exists>r. c # s = p @ r) \<or> (\<exists>q r. s = q @ p @ r)"
    by (metis append_Cons append_Nil append_eq_Cons_conv)
  then show ?case using Cons by (simp add: starts_with_iff)
qed simp

text \<open>All candidates so far are found, and all deletions so far were right.\<close>

definition sifted :: "kernel \<Rightarrow> u64 \<Rightarrow> orphan list \<Rightarrow> history \<Rightarrow> bool" where
  "sifted k now_sec cs h \<longleftrightarrow> deletions_ok k now_sec h \<and> (\<forall>c \<in> set cs. found k now_sec (or_path c) h)"

lemma sifted_looks: "looks e \<Longrightarrow> sifted k now_sec cs h \<Longrightarrow> sifted k now_sec cs (e # h)"
  using looks_ok found_later by (auto simp: sifted_def)

lemma sifted_nil: "sifted k now_sec [] = deletions_ok k now_sec"
  by (rule ext) (simp add: sifted_def)

lemma wp_looks:
  assumes "emits looks m" "sifted k now_sec cs h"
  shows "wp m (\<lambda>_. sifted k now_sec cs) h"
  using wp_emits [where P = looks and J = "sifted k now_sec cs", OF assms] sifted_looks by (auto elim: wp_mono)

text \<open>The scan: every candidate is found.\<close>

lemma estimate_looks: "emits looks (estimate_dir_bytes k n dir)"
proof (induction n arbitrary: dir)
  case (Suc n)
  then show ?case unfolding estimate_dir_bytes.simps sys_defs by (auto intro!: io_rules)
qed (simp add: io_ok_return)

lemma pushed_sifted:
  assumes "sifted k now_sec (fv_items v) h" "found k now_sec (or_path c) h"
  shows "sifted k now_sec (fv_items (snd (fv_push_back n c v))) h"
  using assms by (auto simp: sifted_def fv_push_back_def fv_simps Let_def)

lemma wp_scan_entry:
  assumes "sifted k now_sec (fv_items (snd acc)) h"
  shows "wp (scan_entry k now_sec name acc) (\<lambda>acc. sifted k now_sec (fv_items (snd acc))) h"
proof -
  let ?Q = "\<lambda>acc. sifted k now_sec (fv_items (snd acc))" and ?p = "''/tmp'' @ ''/'' @ name"
  have push: "wp (do {
        bytes \<leftarrow> (if st_kind st = Directory then estimate_dir_bytes k MAX_SCAN_LEVELS ?p else return_io (of_int (st_size st)));
        return_io (fst acc + 1, snd (fv_push_back MAX_ORPHANS
          \<lparr>or_path = take 255 ?p, or_bytes = bytes, or_mtime = of_int (st_mtime st)\<rparr> (snd acc))) }) ?Q (EvStat ?p # h)"
    if "k_lstat k h ?p = Some st" "plain_thing name st" "hour_old now_sec st" "build_leftover name" for st
  proof -
    let ?J = "\<lambda>h'. sifted k now_sec (fv_items (snd acc)) h' \<and> found k now_sec (take 255 ?p) h'"
    have "found k now_sec (take 255 ?p) (EvStat ?p # h)"
      using told_now [OF that(1)] that(2-4) unfolding found_def by auto
    then have "?J (EvStat ?p # h)" using sifted_looks assms by simp
    moreover have "emits looks (if st_kind st = Directory then estimate_dir_bytes k MAX_SCAN_LEVELS ?p
        else return_io (of_int (st_size st)))" by (auto intro!: io_rules estimate_looks)
    ultimately have "wp (if st_kind st = Directory then estimate_dir_bytes k MAX_SCAN_LEVELS ?p
        else return_io (of_int (st_size st))) (\<lambda>x h'. True \<and> ?J h') (EvStat ?p # h)"
      by (intro wp_emits [where P = looks]) (auto intro: sifted_looks found_later)
    then show ?thesis
      by (rule wp_then) (auto simp: wp_return intro!: pushed_sifted)
  qed
  have skip: "wp (return_io (n, snd acc)) ?Q h'" if "sifted k now_sec (fv_items (snd acc)) h'" for n h'
    using that by (simp add: wp_return)
  have seen: "sifted k now_sec (fv_items (snd acc)) (EvStat ?p # h)" by (rule sifted_looks [OF _ assms]) simp
  show ?thesis
  proof (cases "is_dot_entry name")
    case True
    then show ?thesis using assms by (simp add: scan_entry_def wp_return)
  next
    case dots: False
    show ?thesis
    proof (cases "sub_path ''/tmp'' name")
      case None
      then show ?thesis using dots skip [OF assms] by (simp add: scan_entry_def)
    next
      case (Some path)
      then have path: "path = ?p" by (auto simp: sub_path_def Let_def split: if_splits)
      show ?thesis
        unfolding scan_entry_def if_not_P [OF dots] Let_def Some option.case path
      proof (rule wp_ifI, rule skip [OF assms], unfold sys_lstat_def wp_bind wp_syscall)
        show "wp (case k_lstat k h ?p of None \<Rightarrow> return_io (fst acc + 1, snd acc)
            | Some st \<Rightarrow> if is_file_type_immune (st_kind st) name then return_io (fst acc + 1, snd acc)
                else if \<not> old_enough now_sec st then return_io (fst acc + 1, snd acc)
                else if \<not> matches_transient name then return_io (fst acc + 1, snd acc)
                else do {
                  bytes \<leftarrow> (if st_kind st = Directory then estimate_dir_bytes k MAX_SCAN_LEVELS ?p else return_io (of_int (st_size st)));
                  return_io (fst acc + 1, snd (fv_push_back MAX_ORPHANS
                    \<lparr>or_path = take 255 ?p, or_bytes = bytes, or_mtime = of_int (st_mtime st)\<rparr> (snd acc))) })
            ?Q (EvStat ?p # h)"
        proof (cases "k_lstat k h ?p")
          case None
          then show ?thesis unfolding None option.case by - (rule skip [OF seen])
        next
          case (Some st)
          show ?thesis
            unfolding Some option.case
            by (intro wp_ifI skip [OF seen] push [OF Some])
              (auto simp: not_immune_plain [symmetric] transient_leftover [symmetric] intro: old_enough_hour)
        qed
      qed
    qed
  qed
qed

lemma wp_scan:
  assumes "deletions_ok k now_sec h"
  shows "wp (scan_tmpfs_orphans k out now_sec) (\<lambda>(_, out). sifted k now_sec (fv_items out)) h"
proof -
  have start: "sifted k now_sec (fv_items (fv_clear out)) h'" if "deletions_ok k now_sec h'" for h'
    using that by (simp add: sifted_def fv_clear_def fv_simps)
  have opened: "deletions_ok k now_sec (EvOpenDir ''/tmp'' # h)" using assms by simp
  show ?thesis
    unfolding scan_tmpfs_orphans_def Let_def sys_opendir_def wp_bind wp_syscall
  proof (cases "k_opendir k h ''/tmp''")
    case None
    then show "wp (case k_opendir k h ''/tmp'' of None \<Rightarrow> return_io (False, fv_clear out) | Some names \<Rightarrow> do {
         acc \<leftarrow> io_for (\<lambda>acc. fst acc < MAX_INSPECTED_ENTRIES \<and> fv_size (snd acc) < MAX_ORPHANS)
                  (scan_entry k now_sec) names (0, fv_clear out);
         return_io (\<not> fv_is_empty (snd acc), snd acc) }) (\<lambda>(_, out). sifted k now_sec (fv_items out)) (EvOpenDir ''/tmp'' # h)"
      using start [OF opened] by (simp add: wp_return)
  next
    case (Some names)
    have "wp (io_for (\<lambda>acc. fst acc < MAX_INSPECTED_ENTRIES \<and> fv_size (snd acc) < MAX_ORPHANS)
        (scan_entry k now_sec) names (0, fv_clear out)) (\<lambda>acc. sifted k now_sec (fv_items (snd acc))) (EvOpenDir ''/tmp'' # h)"
      by (rule wp_for) (use start [OF opened] wp_scan_entry in auto)
    then show "wp (case k_opendir k h ''/tmp'' of None \<Rightarrow> return_io (False, fv_clear out) | Some names \<Rightarrow> do {
         acc \<leftarrow> io_for (\<lambda>acc. fst acc < MAX_INSPECTED_ENTRIES \<and> fv_size (snd acc) < MAX_ORPHANS)
                  (scan_entry k now_sec) names (0, fv_clear out);
         return_io (\<not> fv_is_empty (snd acc), snd acc) }) (\<lambda>(_, out). sifted k now_sec (fv_items out)) (EvOpenDir ''/tmp'' # h)"
      unfolding Some option.case by (rule wp_then) (simp add: wp_return)
  qed
qed

text \<open>The eviction: inside a condemned directory, with \<open>base\<close> an earlier point of the history.\<close>

definition evicting :: "kernel \<Rightarrow> u64 \<Rightarrow> orphan list \<Rightarrow> string \<Rightarrow> history \<Rightarrow> history \<Rightarrow> bool" where
  "evicting k now_sec cs root_dir base h \<longleftrightarrow>
     sifted k now_sec cs h \<and> condemned k now_sec root_dir h \<and> (\<exists>later. h = later @ base)"

lemma evicting_looks: "looks e \<Longrightarrow> evicting k now_sec cs r base h \<Longrightarrow> evicting k now_sec cs r base (e # h)"
  using sifted_looks condemned_later unfolding evicting_def by (metis append_Cons)

lemma evicting_rebase: "evicting k now_sec cs r base h \<Longrightarrow> evicting k now_sec cs r h h"
  unfolding evicting_def by (metis append_Nil)

lemma evicting_back:
  "evicting k now_sec cs r base h \<Longrightarrow> evicting k now_sec cs r (es @ h) h' \<Longrightarrow> evicting k now_sec cs r base h'"
  unfolding evicting_def by (metis append_assoc)

lemma evicting_delete:
  assumes "evicting k now_sec cs r base h" and "deletions_ok k now_sec (e # h)"
  shows "evicting k now_sec cs r base (e # h)"
  using assms found_later condemned_later unfolding evicting_def sifted_def by (metis append_Cons)

lemma inside_snoc: "inside r (names @ [n]) = inside r names @ ''/'' @ n"
  by (simp add: inside_def)

lemma wp_remove_contents:
  "evicting k now_sec cs r base h \<Longrightarrow> within_two names \<Longrightarrow> length names + n \<le> 2 \<Longrightarrow>
   wp (safe_remove_directory_contents k n (inside r names)) (\<lambda>_. evicting k now_sec cs r base) h"
proof (induction n arbitrary: names base h)
  case 0
  then show ?case by (simp add: wp_return)
next
  case (Suc n)
  let ?d = "inside r names" and ?E = "evicting k now_sec cs r base"
  have entry: "wp (do {
        st \<leftarrow> sys_lstat k p;
        case st of None \<Rightarrow> return_io ()
        | Some st \<Rightarrow> if st_kind st = Directory then do { safe_remove_directory_contents k n p; sys_rmdir k p; return_io () }
            else do { sys_unlink k p; return_io () } }) (\<lambda>_. ?E) h'"
    if h': "?E h'" and name: "\<not> is_dot_entry name" and p: "p = inside r (names @ [name])" for name p h'
  proof -
    have two: "within_two (names @ [name])" "length (names @ [name]) + n \<le> 2"
      using Suc.prems(2,3) name by (auto simp: within_two_def is_dot_entry_def)
    have seen: "?E (EvStat p # h')" by (rule evicting_looks [OF _ h']) simp
    show ?thesis
    proof (cases "k_lstat k h' p")
      case None
      then show ?thesis using seen by (simp add: sys_lstat_def wp_simps)
    next
      case (Some st)
      show ?thesis
      proof (cases "st_kind st = Directory")
        case True
        have rm: "?E (EvRmdir p ok # h'')" if "evicting k now_sec cs r (EvStat p # h') h''" for ok h''
        proof (rule evicting_delete)
          show "?E h''" by (rule evicting_back [OF h', of "[EvStat p]"]) (use that in simp)
          have "told k p st h''" using that Some unfolding evicting_def told_def by blast
          then have "\<exists>root_dir names. p = inside root_dir names \<and> within_two names \<and> condemned k now_sec root_dir h'' \<and>
              (\<exists>st. told k p st h'' \<and> st_kind st = Directory)"
            using that two(1) p True unfolding evicting_def by blast
          then show "deletions_ok k now_sec (EvRmdir p ok # h'')" using that by (simp add: evicting_def sifted_def)
        qed
        have "wp (safe_remove_directory_contents k n p) (\<lambda>_. evicting k now_sec cs r (EvStat p # h')) (EvStat p # h')"
          unfolding p by (rule Suc.IH [OF evicting_rebase [OF seen [unfolded p]] two])
        then have "wp (do { safe_remove_directory_contents k n p; sys_rmdir k p; return_io () }) (\<lambda>_. ?E) (EvStat p # h')"
          by (rule wp_then) (use rm in \<open>simp add: sys_rmdir_def wp_simps\<close>)
        then show ?thesis using Some True by (simp add: sys_lstat_def wp_bind wp_syscall)
      next
        case False
        have "?E (EvUnlink p ok # EvStat p # h')" for ok
          by (rule evicting_delete [OF seen]) (use seen two(1) p False Some in \<open>auto simp: evicting_def sifted_def\<close>)
        then show ?thesis using Some False by (simp add: sys_lstat_def sys_unlink_def wp_simps)
      qed
    qed
  qed
  have loop: "wp (io_for (\<lambda>_. True) (\<lambda>name _.
        if is_dot_entry name then return_io ()
        else case sub_path ?d name of None \<Rightarrow> return_io ()
        | Some p \<Rightarrow> do {
            st \<leftarrow> sys_lstat k p;
            case st of None \<Rightarrow> return_io ()
            | Some st \<Rightarrow> if st_kind st = Directory then do { safe_remove_directory_contents k n p; sys_rmdir k p; return_io () }
                else do { sys_unlink k p; return_io () } }) entries ()) (\<lambda>_. ?E) (EvOpenDir ?d # h)" for entries
  proof (rule wp_for)
    show "?E (EvOpenDir ?d # h)" by (rule evicting_looks [OF _ Suc.prems(1)]) simp
    fix name h' assume h': "?E h'"
    have "wp (return_io ()) (\<lambda>_. ?E) h'" using h' by (simp add: wp_return)
    then show "wp (if is_dot_entry name then return_io ()
        else case sub_path ?d name of None \<Rightarrow> return_io ()
        | Some p \<Rightarrow> do {
            st \<leftarrow> sys_lstat k p;
            case st of None \<Rightarrow> return_io ()
            | Some st \<Rightarrow> if st_kind st = Directory then do { safe_remove_directory_contents k n p; sys_rmdir k p; return_io () }
                else do { sys_unlink k p; return_io () } }) (\<lambda>_. ?E) h'"
      using entry [OF h'] inside_snoc by (auto simp: sub_path_def Let_def split: option.splits if_splits)
  qed
  show ?case
    unfolding safe_remove_directory_contents.simps sys_opendir_def wp_bind wp_syscall
    using evicting_looks [OF _ Suc.prems(1), of "EvOpenDir ?d"]
    by (auto simp: wp_return split: option.splits intro!: wp_then [OF loop])
qed

lemma wp_evict_one:
  assumes "sifted k now_sec cs h" "c \<in> set cs"
  shows "wp (evict_one k c acc) (\<lambda>_. sifted k now_sec cs) h"
proof -
  let ?p = "or_path c" and ?S = "\<lambda>_. sifted k now_sec cs"
  have stay: "wp (return_io x) ?S h" for x :: "u32 \<times> hygiene" using assms(1) by (simp add: wp_return)
  have seen: "sifted k now_sec cs (EvStat ?p # h)" by (rule sifted_looks [OF _ assms(1)]) simp
  have self: "inside ?p [] = ?p" and two: "within_two []" by (simp_all add: inside_def within_two_def)
  have gone: "sifted k now_sec cs h'" if "evicting k now_sec cs ?p base h'" for base h' using that by (simp add: evicting_def)
  show ?thesis
  proof (cases "\<not> starts_with ?p ''/tmp/'' \<or> str_contains ?p ''..'' \<or> is_system_whitelisted ?p")
    case True
    then show ?thesis using stay by (auto simp: evict_one_def Let_def)
  next
    case False
    then have path: "\<exists>q. ?p = ''/tmp/'' @ q" "\<nexists>q r. ?p = q @ ''..'' @ r" "\<not> session_path ?p"
      unfolding starts_with_iff str_contains_iff whitelist_session by blast+
    show ?thesis
    proof (cases "k_lstat k h ?p")
      case None
      then show ?thesis using False seen by (simp add: evict_one_def Let_def sys_lstat_def wp_simps)
    next
      case (Some st)
      show ?thesis
      proof (cases "is_file_type_immune (st_kind st) ?p")
        case True
        then show ?thesis using False Some seen by (simp add: evict_one_def Let_def sys_lstat_def wp_simps)
      next
        case plain: False
        then have st: "plain_thing ?p st" by (simp add: not_immune_plain)
        have cond: "condemned k now_sec ?p (EvStat ?p # h)"
          using path told_now [OF Some] st assms seen unfolding condemned_def sifted_def by blast
        then have start: "evicting k now_sec cs ?p (EvStat ?p # h) (EvStat ?p # h)" using seen by (simp add: evicting_def)
        show ?thesis
        proof (cases "st_kind st = Directory")
          case True
          have rm: "sifted k now_sec cs (EvRmdir ?p ok # h')" if "evicting k now_sec cs ?p (EvStat ?p # h) h'" for ok h'
          proof (rule gone, rule evicting_delete [OF that])
            have "told k ?p st h'" using that Some unfolding evicting_def told_def by blast
            then show "deletions_ok k now_sec (EvRmdir ?p ok # h')"
              using that True two self [symmetric] by (auto simp: evicting_def sifted_def)
          qed
          have "wp (safe_remove_directory_contents k MAX_SCAN_LEVELS ?p) (\<lambda>_. evicting k now_sec cs ?p (EvStat ?p # h)) (EvStat ?p # h)"
            using wp_remove_contents [OF start two, of 2] self by simp
          then have "wp (do { safe_remove_directory_contents k MAX_SCAN_LEVELS ?p; ok \<leftarrow> sys_rmdir k ?p;
              return_io (if ok then x else acc) }) ?S (EvStat ?p # h)" for x
            by (rule wp_then) (use rm in \<open>simp add: sys_rmdir_def wp_simps\<close>)
          then show ?thesis using False Some plain True by (simp add: evict_one_def Let_def sys_lstat_def wp_bind wp_syscall)
        next
          case reg: False
          have "sifted k now_sec cs (EvUnlink ?p ok # EvStat ?p # h)" for ok
          proof (rule gone, rule evicting_delete [OF start])
            show "deletions_ok k now_sec (EvUnlink ?p ok # EvStat ?p # h)"
              using seen cond two self [symmetric] reg Some st by (auto simp: sifted_def)
          qed
          then show ?thesis
            using False Some plain reg by (simp add: evict_one_def Let_def sys_lstat_def sys_unlink_def wp_simps)
        qed
      qed
    qed
  qed
qed

lemma wp_evict:
  assumes "sifted k now_sec cs h"
  shows "wp (evict_tmpfs_orphans k cs s) (\<lambda>_. deletions_ok k now_sec) h"
proof -
  have "wp (io_for (\<lambda>_. True) (evict_one k) cs (0, s)) (\<lambda>_. sifted k now_sec cs) h"
    by (rule wp_for) (use assms wp_evict_one in auto)
  then show ?thesis
    unfolding evict_tmpfs_orphans_def by (rule wp_then) (auto simp: wp_simps sifted_def split: prod.splits)
qed

lemma wp_actuate_strategy:
  assumes "sifted k now_sec cs h"
  shows "wp (actuate_strategy k now_sec cs sm st s) (\<lambda>_. deletions_ok k now_sec) h"
proof -
  have quiet: "wp m (\<lambda>_. deletions_ok k now_sec) h" if "emits looks m" for m :: "hygiene option io"
    using wp_looks [OF that assms] by (rule wp_mono) (simp add: sifted_def)
  have deswap: "emits looks (actuate_safe_deswap k a b)" for a b
    unfolding actuate_safe_deswap_def sys_defs by (auto intro!: io_rules)
  have "deletions_ok k now_sec h" using assms by (simp add: sifted_def)
  then have evict: "wp (actuate_strategy k now_sec cs sm TmpfsOrphanEvict s) (\<lambda>_. deletions_ok k now_sec) h"
    unfolding actuate_strategy_def hygiene_strategy.case
    by (intro wp_ifI) (auto simp: wp_return split_def intro!: wp_then [OF wp_evict [OF assms]])
  show ?thesis
  proof (cases "st = TmpfsOrphanEvict")
    case False
    have "emits looks (actuate_strategy k now_sec cs sm st s)"
      using False unfolding actuate_strategy_def actuate_batch_soft_clamp_def Let_def sys_setscheduler_def
      by (cases st) (auto intro!: io_rules deswap)
    then show ?thesis by (rule quiet)
  qed (use evict in simp)
qed

lemma wp_deep_scan:
  assumes "deletions_ok k now_sec h"
  shows "wp (deep_scan k b now_sec sm s) (\<lambda>(cs, _). sifted k now_sec cs) h"
  unfolding deep_scan_def Let_def
  by (rule wp_ifI, rule wp_then [OF wp_scan [OF assms]]) (use assms in \<open>auto simp: wp_simps sifted_def\<close>)

lemma wp_hygiene:
  assumes "deletions_ok k now_sec h"
  shows "wp (hygiene_evaluate k r on_ac idle now_sec s) (\<lambda>_. deletions_ok k now_sec) h"
proof -
  have ok: "wp m (\<lambda>_. deletions_ok k now_sec) h'" if "emits looks m" "deletions_ok k now_sec h'" for m :: "'a io" and h'
    using wp_looks [OF that(1), of k now_sec "[]", unfolded sifted_nil, OF that(2)] .
  have filter_ok: "emits looks (check_tmpfs_fast_filter k p)" for p
    unfolding check_tmpfs_fast_filter_def sys_defs by (auto intro!: io_rules)
  have info: "emits looks (sys_sysinfo k)" unfolding sys_sysinfo_def by (auto intro!: io_rules)
  have rest: "wp (deep_scan k b now_sec sm s \<bind> (\<lambda>(cs, sm, s).
      case select_strategy (sm\<lparr>hs_batch_pid := batch_worker r\<rparr>) of None \<Rightarrow> return_io None
      | Some st \<Rightarrow> actuate_strategy k now_sec cs (sm\<lparr>hs_batch_pid := batch_worker r\<rparr>) st
          (s\<lparr>hy_last_strategy := st, hy_last_sample := sm\<lparr>hs_batch_pid := batch_worker r\<rparr>\<rparr>)))
      (\<lambda>_. deletions_ok k now_sec) h'" if "deletions_ok k now_sec h'" for b sm s h'
    by (rule wp_then [OF wp_deep_scan [OF that]])
      (auto simp: wp_return sifted_def split: option.splits intro: wp_actuate_strategy [unfolded sifted_def])
  show ?thesis
    unfolding hygiene_evaluate_def Let_def
    by (rule wp_ifI, simp add: wp_return assms, rule wp_then [OF ok [OF info assms]],
        rule wp_then [OF ok [OF filter_ok]], assumption) (auto intro!: rest)
qed

text \<open>
  A run that deletes: \<^verbatim>\<open>/tmp\<close> is three quarters full, a leftover directory of 2 GiB is older than an hour, a temporary
  file is fresh and one belongs to a session.
\<close>

definition stale_kernel :: kernel where
  "stale_kernel = quiet_kernel\<lparr>
     k_statvfs := (\<lambda>_ _. Some \<lparr>f_blocks = 4194304, f_bavail = 1048576, f_frsize = 4096\<rparr>),
     k_opendir := (\<lambda>_ p. if p = ''/tmp'' then Some [''.'', ''ssh-x.tmp'', ''claude-1'', ''new.tmp''] else if p = ''/tmp/claude-1'' then Some [''a'', ''..''] else None),
     k_lstat := (\<lambda>_ p. Some \<lparr>st_kind = (if p = ''/tmp/claude-1'' then Directory else Regular), st_size = 2147483648,
       st_mtime = (if p = ''/tmp/new.tmp'' then 9000 else 1000), st_uid = 0, st_gid = 0, st_mode = 420\<rparr>),
     k_unlink := (\<lambda>_ _. True), k_rmdir := (\<lambda>_ _. True)\<rparr>"

lemma stale_answers:
  "k_statvfs stale_kernel h p = Some \<lparr>f_blocks = 4194304, f_bavail = 1048576, f_frsize = 4096\<rparr>"
  "k_sysinfo stale_kernel h = None"
  "k_opendir stale_kernel h p = (if p = ''/tmp'' then Some [''.'', ''ssh-x.tmp'', ''claude-1'', ''new.tmp''] else if p = ''/tmp/claude-1'' then Some [''a'', ''..''] else None)"
  "k_lstat stale_kernel h p = Some \<lparr>st_kind = (if p = ''/tmp/claude-1'' then Directory else Regular), st_size = 2147483648,
       st_mtime = (if p = ''/tmp/new.tmp'' then 9000 else 1000), st_uid = 0, st_gid = 0, st_mode = 420\<rparr>"
  "k_unlink stale_kernel h p" "k_rmdir stale_kernel h p"
  by (simp_all add: stale_kernel_def quiet_kernel_def)

lemma two_levels:
  "safe_remove_directory_contents k 2 = safe_remove_directory_contents k (Suc (Suc 0))"
  "estimate_dir_bytes k 2 = estimate_dir_bytes k (Suc (Suc 0))"
  by (simp_all add: numeral_2_eq_2)

lemma stale_fresh: "hy_last_reclaim hygiene_new = 0" by (simp add: hygiene_new_def)

lemma stale_full: "run_state (check_tmpfs_fast_filter stale_kernel ''/tmp'') h = ((True, 16777216, 12582912), EvStatVfs ''/tmp'' # h)"
  by (simp add: check_tmpfs_fast_filter_def sys_defs stale_answers code_consts word_le_def word_less_def)

lemma stale_scanned: "hs_stale_bytes sm = 0 \<Longrightarrow> run_state (deep_scan stale_kernel True 10000 sm hygiene_new) h =
  (([\<lparr>or_path = ''/tmp/claude-1'', or_bytes = 2147483648, or_mtime = 1000\<rparr>], sm\<lparr>hs_stale_bytes := 2147483648, hs_stale_count := 1\<rparr>,
     hygiene_new\<lparr>hy_last_scan := 10000\<rparr>),
    [EvStat ''/tmp/new.tmp'', EvStat ''/tmp/claude-1/a'', EvOpenDir ''/tmp/claude-1'', EvStat ''/tmp/claude-1'', EvOpenDir ''/tmp''] @ h)"
  by (simp add: Let_def deep_scan_def hygiene_new_def code_consts sys_defs stale_answers compute_backoff_def
     scan_tmpfs_orphans_def scan_entry_def is_dot_entry_def sub_path_def
     is_system_whitelisted_def tmp_whitelist_def starts_with_def ends_with_def is_file_type_immune_def old_enough_def matches_transient_def
     fv_simps fv_new_def fv_clear_def fv_push_back_def two_levels)

text \<open>Only the old directory goes, its one file first.\<close>

lemma stale_directory_goes:
  "take 4 (snd (run_state (hygiene_evaluate stale_kernel (report_of []) True False 10000 hygiene_new) [])) =
     [EvRmdir ''/tmp/claude-1'' True, EvUnlink ''/tmp/claude-1/a'' True, EvStat ''/tmp/claude-1/a'', EvOpenDir ''/tmp/claude-1'']"
  by (simp add: Let_def hygiene_evaluate_def code_consts sys_defs stale_answers stale_full stale_scanned stale_fresh
     sysinfo_sample_def is_dot_entry_def sub_path_def
     is_system_whitelisted_def tmp_whitelist_def starts_with_def ends_with_def is_file_type_immune_def
     select_strategy_def actuate_strategy_def evict_tmpfs_orphans_def evict_one_def hygiene_sample_init_def two_levels)


section \<open>The margin of the swap recovery\<close>

lemma double_exact:
  assumes "0 \<le> u" and "u \<le> 2 ^ 53"
  shows "mul64 (Fin (of_int u)) (Fin 2) = Fin (of_int (2 * u))"
proof -
  have "u * 2 \<le> 2 ^ 54" using assms(2) by simp
  then have "(of_int (u * 2) :: rat) \<le> of_int (2 ^ 54)" by (simp only: of_int_le_iff)
  also have "\<dots> = pow2 54" by (simp add: pow2_def)
  also have "\<dots> \<le> pow2 (emax Binary64)" by (intro pow2_mono) simp
  finally have range: "\<bar>of_int (u * 2) :: rat\<bar> \<le> pow2 (emax Binary64)"
    using assms(1) by (simp only: of_int_abs [symmetric] abs_of_nonneg mult_nonneg_nonneg zero_le_numeral)
  have "representable 53 (emin Binary64) (of_int (u * 2))"
    unfolding representable_def
    using assms by (intro exI [of _ u] exI [of _ 1]) (simp add: pow2_def emin_def)
  then have "rnd 53 (emin Binary64) (of_int (u * 2)) = of_int (u * 2)" by (intro rnd_representable) auto
  with fp_round_in_range [OF range] show ?thesis by (simp add: mult.commute)
qed

lemma swap_margin_iff:
  assumes "uint swap_used_kb \<le> 2 ^ 53"
  shows "assert_swap_margin mem_avail_kb swap_used_kb =
    Some (2 * uint swap_used_kb + 3145728 \<le> uint mem_avail_kb)"
proof -
  have "mul64 (fp_of_u64 Binary64 swap_used_kb) (Fin 2) = Fin (of_int (2 * uint swap_used_kb))"
    using double_exact [of "uint swap_used_kb"] assms by (simp add: fp_of_u64_def fp_of_int_exact)
  moreover have "fp_to_u64 (Fin (of_int (2 * uint swap_used_kb))) = Some (2 * swap_used_kb)"
    using assms rat_trunc_of_int(1) [of "2 * uint swap_used_kb"] by (simp add: fp_to_u64_def)
  moreover have "uint (2 * swap_used_kb) = 2 * uint swap_used_kb"
    using assms by (simp add: uint_word_ariths)
  then have "uint (2 * swap_used_kb + 3145728) = 2 * uint swap_used_kb + 3145728"
    using assms by (simp add: uint_plus_simple_iff uint_word_ariths)
  ultimately show ?thesis by (simp add: assert_swap_margin_def code_consts word_le_def)
qed

definition swapoff_only_if :: "bool \<Rightarrow> event \<Rightarrow> bool" where
  "swapoff_only_if b e = (case e of EvSwapoff _ _ \<Rightarrow> b | _ \<Rightarrow> True)"

text \<open>The base swap file is switched off only when the available memory covers twice the used
  swap and 3 GiB more, and then the recovery never meets an undefined cast.\<close>

theorem deswap_needs_margin:
  assumes "uint swap_used_kb \<le> 2 ^ 53"
  shows "io_ok (swapoff_only_if (2 * uint swap_used_kb + 3145728 \<le> uint mem_avail_kb))
    (actuate_safe_deswap k mem_avail_kb swap_used_kb) (\<lambda>r. r \<noteq> None)"
  unfolding actuate_safe_deswap_def swap_margin_iff [OF assms] sys_defs
  by (auto intro!: io_rules io_ok_return simp: swapoff_only_if_def)

theorem deswap_needs_margin_witness:
  "io_ok (swapoff_only_if False) (actuate_safe_deswap quiet_kernel 9000000 4000000) (\<lambda>r. r \<noteq> None)"
  using deswap_needs_margin [of 4000000 9000000 quiet_kernel] by simp

section \<open>The age of the orphans\<close>

definition keeps_files :: "event \<Rightarrow> bool" where
  "keeps_files e = (case e of EvUnlink _ _ \<Rightarrow> False | EvRmdir _ _ \<Rightarrow> False | _ \<Rightarrow> True)"

definition no_older_file :: "kernel \<Rightarrow> u64 \<Rightarrow> bool" where
  "no_older_file k now_sec \<longleftrightarrow> (\<forall>h p st. k_lstat k h p = Some st \<longrightarrow> now_sec \<le> of_int (st_mtime st))"

lemma keeps_files_simps [simp]:
  "keeps_files (EvOpenDir p)" "keeps_files (EvStat p)" "keeps_files (EvStatVfs p)" "keeps_files EvSysInfo"
  "keeps_files (EvSetScheduler q pol b)" "keeps_files (EvSwapoff p b)" "keeps_files (EvSwapon p n b)"
  "keeps_files (EvOpenWrite p b)" "keeps_files (EvWrite p d n)"
  by (simp_all add: keeps_files_def)

lemma scan_finds_nothing:
  assumes "no_older_file k now_sec"
  shows "io_ok keeps_files (scan_tmpfs_orphans k fv_new now_sec) (\<lambda>(_, out). fv_items out = [])"
proof -
  have lstat: "io_ok keeps_files (sys_lstat k p) (\<lambda>st. \<forall>s. st = Some s \<longrightarrow> \<not> old_enough now_sec s)" for p
    unfolding sys_lstat_def using assms
    by (intro io_ok_syscall) (auto simp: no_older_file_def old_enough_def not_less [symmetric])
  have entry: "io_ok keeps_files (scan_entry k now_sec name acc) (\<lambda>acc. fv_items (snd acc) = [])"
    if "fv_items (snd acc) = []" for name acc
    unfolding scan_entry_def Let_def
    using that by (auto intro!: io_ok_return io_ok_bind [OF lstat] split: option.splits)
  have loop: "io_ok keeps_files (io_for (\<lambda>acc. fst acc < MAX_INSPECTED_ENTRIES \<and> fv_size (snd acc) < MAX_ORPHANS)
      (scan_entry k now_sec) names (0, fv_clear fv_new)) (\<lambda>acc. fv_items (snd acc) = [])" for names
    by (rule io_ok_for) (auto simp: fv_clear_def fv_simps intro: entry)
  have rest: "io_ok keeps_files (io_for (\<lambda>acc. fst acc < MAX_INSPECTED_ENTRIES \<and> fv_size (snd acc) < MAX_ORPHANS)
      (scan_entry k now_sec) names (0, fv_clear fv_new) \<bind> (\<lambda>acc. return_io (\<not> fv_is_empty (snd acc), snd acc)))
      (\<lambda>(_, out). fv_items out = [])" for names
    by (rule io_ok_bind [OF loop]) (auto intro: io_ok_return)
  have "fv_items (fv_clear fv_new) = []" by (simp add: fv_clear_def fv_simps)
  then show ?thesis
    unfolding scan_tmpfs_orphans_def Let_def sys_opendir_def
    by (intro io_ok_bind_any [OF emits_syscall] io_ok_option rest io_ok_return) auto
qed

text \<open>No file is ever evicted under a clock that is not ahead of the files' modification times:
  the guard passes the seconds since boot where the modification times count from 1970, so on a
  running machine the eviction cannot find a single candidate.\<close>

theorem uptime_clock_never_evicts:
  assumes "no_older_file k now_sec"
  shows "emits keeps_files (hygiene_evaluate k r on_ac idle now_sec s)"
proof -
  have deep: "io_ok keeps_files (deep_scan k b now_sec sm s) (\<lambda>(cs, _). cs = [])" for b sm s
    unfolding deep_scan_def Let_def
    by (auto intro!: io_ok_return io_ok_bind [OF scan_finds_nothing [OF assms]])
  have filter_ok: "emits keeps_files (check_tmpfs_fast_filter k p)" for p
    unfolding check_tmpfs_fast_filter_def sys_defs by (auto intro!: io_rules)
  have deswap: "emits keeps_files (actuate_safe_deswap k a b)" for a b
    unfolding actuate_safe_deswap_def sys_defs by (auto intro!: io_rules)
  have act: "emits keeps_files (actuate_strategy k now_sec [] sm st s)" for sm st s
    unfolding actuate_strategy_def actuate_batch_soft_clamp_def Let_def sys_setscheduler_def
    by (cases st) (auto intro!: io_rules deswap)
  have rest: "emits keeps_files (deep_scan k b now_sec sm s \<bind> (\<lambda>(cs, sm, s).
      case select_strategy (sm\<lparr>hs_batch_pid := batch_worker r\<rparr>) of None \<Rightarrow> return_io None
      | Some st \<Rightarrow> actuate_strategy k now_sec cs (sm\<lparr>hs_batch_pid := batch_worker r\<rparr>) st
          (s\<lparr>hy_last_strategy := st, hy_last_sample := sm\<lparr>hs_batch_pid := batch_worker r\<rparr>\<rparr>)))" for b sm s
    by (rule io_ok_bind [OF deep]) (auto intro!: io_rules act)
  show ?thesis
    unfolding hygiene_evaluate_def Let_def sys_sysinfo_def
    by (auto intro!: io_ok_return io_ok_bind_any [OF emits_syscall] io_ok_bind_any [OF filter_ok] rest)
qed

text \<open>A machine that has been up for a day, with an old directory of a build tool.\<close>

definition day_old_kernel :: kernel where
  "day_old_kernel = quiet_kernel\<lparr>k_lstat := (\<lambda>_ _. Some \<lparr>st_kind = Directory, st_size = 4096, st_mtime = 1700000000, st_uid = 0, st_gid = 0, st_mode = 493\<rparr>)\<rparr>"

theorem uptime_clock_never_evicts_witness:
  "emits keeps_files (hygiene_evaluate day_old_kernel (report_of []) True True 86400 hygiene_new)"
  by (rule uptime_clock_never_evicts) (simp add: no_older_file_def day_old_kernel_def)

text \<open>The soft clamp looks at no shield: the first process of the report that draws more than 3 W
  is demoted to the idle class when memory is short, whatever its tier is and whether or not the
  sandbox is engaged.\<close>

theorem soft_clamp_ignores_shields:
  assumes "hy_last_reclaim s = 0" and "top_list r = pr # rest" and "1 < pp_pid pr"
    and "fp_gt (pp_total_watts pr) (Fin 3)"
    and "\<And>h. k_sysinfo k h = Some \<lparr>si_freeram = 0, si_totalswap = 0, si_freeswap = 0, si_mem_unit = 1\<rparr>"
    and "\<And>h. k_statvfs k h ''/tmp'' = None"
  shows "\<exists>ok. EvSetScheduler (pp_pid pr) SCHED_IDLE ok \<in>
    set (snd (run_state (hygiene_evaluate k r on_ac idle now_sec s) h))"
  using assms
  by (simp add: hygiene_evaluate_def sys_defs check_tmpfs_fast_filter_def deep_scan_def batch_worker_def
      select_strategy_def sysinfo_sample_def hygiene_sample_init_def actuate_strategy_def
      actuate_batch_soft_clamp_def Let_def) blast

definition low_memory_kernel :: kernel where
  "low_memory_kernel = quiet_kernel\<lparr>k_sysinfo :=
     (\<lambda>_. Some \<lparr>si_freeram = 0, si_totalswap = 0, si_freeswap = 0, si_mem_unit = 1\<rparr>)\<rparr>"

definition hot_compositor :: report where
  "hot_compositor = report_of [(example_proc 700 ''kwin_wayland'' DesktopCore 300000)\<lparr>pp_total_watts := Fin 4\<rparr>]"

theorem soft_clamp_ignores_shields_witness:
  "\<exists>ok. EvSetScheduler 700 SCHED_IDLE ok \<in>
    set (snd (run_state (hygiene_evaluate low_memory_kernel hot_compositor True False 500 hygiene_new) []))"
  using soft_clamp_ignores_shields [of hygiene_new hot_compositor
      "(example_proc 700 ''kwin_wayland'' DesktopCore 300000)\<lparr>pp_total_watts := Fin 4\<rparr>" "[]" low_memory_kernel True False 500 "[]"]
  by (simp add: hygiene_new_def hot_compositor_def low_memory_kernel_def quiet_kernel_def example_proc_def)

end
