(* ===== verification/Pressure_Guard.thy ===== *)
theory Pressure_Guard
  imports Swap_Expander Pageout Targeted_Reclaim Hygiene
begin

text \<open>
  The memory pressure guard (\<^verbatim>\<open>src/policy/memory_pressure_guard.cpp\<close>): it samples the memory,
  classifies the pressure, and drives the notifier, the reclaim of file pages, the pageout, the
  swap expander, the CPU throttle, the targeted reclaim and the hygiene engine, in the order that
  the tier and the power profile ask for.
\<close>

section \<open>State\<close>

record throttled =
  tp_pid :: pid
  tp_quota :: bool
  tp_idle :: bool

record guard =
  gd_expander :: swap_expander
  gd_notifier :: notifier
  gd_swap_tier :: swap_tier
  gd_hygiene :: hygiene
  gd_telemetry :: reclaim_telemetry
  gd_logged_exhausted :: bool
  gd_meminfo_fd :: bool
  gd_psi_fd :: bool
  gd_tier :: pressure_tier
  gd_last :: pressure_sample
  gd_throttled :: "throttled fvec"
  gd_suspend_swap_feed :: bool

definition guard_init :: guard where
  "guard_init = \<lparr>gd_expander = swap_expander_init, gd_notifier = notifier_init, gd_swap_tier = swap_tier_init,
     gd_hygiene = hygiene_new, gd_telemetry = telemetry_init, gd_logged_exhausted = False,
     gd_meminfo_fd = False, gd_psi_fd = False, gd_tier = TierNormal, gd_last = pressure_sample_init,
     gd_throttled = fv_new, gd_suspend_swap_feed = False\<rparr>"

definition THROTTLE_QUOTA_US :: u32 where [code_consts]: "THROTTLE_QUOTA_US = 20000"
definition THROTTLE_PERIOD_US :: u32 where [code_consts]: "THROTTLE_PERIOD_US = 100000"
definition MIN_TARGET_RSS_KIB :: u64 where [code_consts]: "MIN_TARGET_RSS_KIB = 262144"
abbreviation "MAX_THROTTLED \<equiv> (16 :: nat)"
abbreviation "MAX_RECLAIMED_PER_CYCLE \<equiv> (8 :: nat)"

definition PSI_TRIGGER :: string where "PSI_TRIGGER = ''some 150000 2000000''"

definition PSI_TRIGGER_FALLBACKS :: "string list" where
  "PSI_TRIGGER_FALLBACKS = [''some 200000 2000000'', ''some 400000 4000000'', ''some 1000000 10000000'']"

section \<open>Releasing the throttles\<close>

definition release_one :: "globals \<Rightarrow> kernel \<Rightarrow> throttled \<Rightarrow> unit \<Rightarrow> unit io" where
  "release_one g k t u = do {
     io_when (tp_quota t) (do { restore_cgroup_cpu_quota g k (tp_pid t); return_io () });
     io_when (tp_idle t) (do { restore_sched_normal g k (tp_pid t) 0 0; return_io () });
     log_event (EvRollback (tp_pid t))
   }"

definition release_all :: "globals \<Rightarrow> kernel \<Rightarrow> guard \<Rightarrow> guard io" where
  "release_all g k s = do {
     io_for (\<lambda>_. True) (release_one g k) (fv_items (gd_throttled s)) ();
     return_io (s\<lparr>gd_throttled := fv_clear (gd_throttled s)\<rparr>)
   }"

section \<open>Start and shutdown\<close>

definition try_trigger :: "kernel \<Rightarrow> string \<Rightarrow> bool io" where
  "try_trigger k spec = do {
     fd \<leftarrow> sys_open_fd k ''/proc/pressure/memory'';
     if \<not> fd then return_io False
     else do {
       n \<leftarrow> sys_write k ''/proc/pressure/memory'' spec;
       if n < 0 then do { sys_close_fd ''/proc/pressure/memory''; return_io False } else return_io True
     }
   }"

definition arm_psi :: "kernel \<Rightarrow> bool io" where
  "arm_psi k = do {
     armed \<leftarrow> try_trigger k PSI_TRIGGER;
     io_for (\<lambda>armed. \<not> armed) (\<lambda>spec _. try_trigger k spec) PSI_TRIGGER_FALLBACKS armed
   }"

definition guard_initialize :: "globals \<Rightarrow> kernel \<Rightarrow> guard \<Rightarrow> (bool \<times> guard) io" where
  "guard_initialize g k s = do {
     fd \<leftarrow> (if gd_meminfo_fd s then return_io True else sys_open_fd k ''/proc/meminfo'');
     let s = s\<lparr>gd_meminfo_fd := fd\<rparr>;
     if \<not> fd then return_io (False, s)
     else do {
       ex \<leftarrow> expander_initialize g k (gd_expander s);
       (_, nt) \<leftarrow> notifier_initialize k (gd_notifier s);
       (_, st) \<leftarrow> swap_refresh k (gd_swap_tier s);
       psi \<leftarrow> (if gd_psi_fd s then return_io True else arm_psi k);
       return_io (True, s\<lparr>gd_expander := ex, gd_notifier := nt, gd_swap_tier := st, gd_psi_fd := psi\<rparr>)
     }
   }"

definition guard_shutdown :: "globals \<Rightarrow> kernel \<Rightarrow> guard \<Rightarrow> guard io" where
  "guard_shutdown g k s = do {
     s \<leftarrow> release_all g k s;
     nt \<leftarrow> notifier_shutdown k (gd_notifier s);
     io_when (gd_psi_fd s) (sys_close_fd ''/proc/pressure/memory'');
     io_when (gd_meminfo_fd s) (sys_close_fd ''/proc/meminfo'');
     return_io (s\<lparr>gd_notifier := nt, gd_psi_fd := False, gd_meminfo_fd := False\<rparr>)
   }"

section \<open>Sampling\<close>

definition guard_sample :: "kernel \<Rightarrow> guard \<Rightarrow> pressure_sample option io" where
  "guard_sample k s =
     (if \<not> gd_meminfo_fd s then return_io None
      else do {
        buf \<leftarrow> sys_read_file k ''/proc/meminfo'' 2047;
        case (case buf of None \<Rightarrow> None | Some b \<Rightarrow> parse_meminfo b pressure_sample_init) of
          None \<Rightarrow> return_io None
        | Some out \<Rightarrow> do {
            pbuf \<leftarrow> sys_read_file k ''/proc/pressure/memory'' 255;
            return_io (Some (case pbuf of None \<Rightarrow> out | Some b \<Rightarrow> snd (parse_psi b out)))
          }
      })"

section \<open>The rungs of the ladder\<close>

definition is_advisory_target :: "proc_power \<Rightarrow> bool" where
  "is_advisory_target pr =
     (if pp_pid pr \<le> 1 then False
      else if pp_pss_kib pr < MIN_TARGET_RSS_KIB then False
      else pp_safety_tier pr \<in> tier_code ` {BackgroundWorker, RunawayCandidate})"

definition advisory_one :: "globals \<Rightarrow> kernel \<Rightarrow> proc_power \<Rightarrow> nat \<Rightarrow> nat io" where
  "advisory_one g k pr acted =
     (if \<not> is_advisory_target pr then return_io acted
      else do {
        ok \<leftarrow> apply_memory_reclaim g k (pp_pid pr) (pp_pss_kib pr * 1024 div 4) True;
        return_io (if ok then acted + 1 else acted)
      })"

definition actuate_advisory :: "globals \<Rightarrow> kernel \<Rightarrow> report \<Rightarrow> unit io" where
  "actuate_advisory g k r = do {
     io_for (\<lambda>acted. acted < MAX_RECLAIMED_PER_CYCLE) (advisory_one g k) (top_list r) 0;
     return_io ()
   }"

definition is_throttle_candidate :: "proc_power \<Rightarrow> pid \<Rightarrow> bool" where
  "is_throttle_candidate pr protected_pid =
     (if pp_pid pr \<le> 1 then False
      else if protected_pid \<noteq> 0 \<and> pp_pid pr = protected_pid then False
      else if pp_pss_kib pr < MIN_TARGET_RSS_KIB then False
      else pp_safety_tier pr \<notin> tier_code ` {CriticalImmune, DesktopCore, DesktopShell})"

definition actuate_pageout :: "kernel \<Rightarrow> report \<Rightarrow> pid \<Rightarrow> guard \<Rightarrow> guard io" where
  "actuate_pageout k r protected_pid s = do {
     (_, st) \<leftarrow> swap_refresh k (gd_swap_tier s);
     io_when (has_zram st \<and> \<not> is_zram_saturated st)
       (do { pageout_candidates k r protected_pid 4; return_io () });
     return_io (s\<lparr>gd_swap_tier := st\<rparr>)
   }"

definition throttle_one :: "globals \<Rightarrow> kernel \<Rightarrow> pid \<Rightarrow> proc_power \<Rightarrow> throttled fvec \<Rightarrow> throttled fvec io" where
  "throttle_one g k protected_pid pr ts =
     (if \<not> is_throttle_candidate pr protected_pid then return_io ts
      else if pp_pid pr \<in> tp_pid ` set (fv_items ts) then return_io ts
      else do {
        quota \<leftarrow> apply_cgroup_cpu_quota g k (pp_pid pr) THROTTLE_QUOTA_US THROTTLE_PERIOD_US;
        idle \<leftarrow> apply_sched_idle g k (pp_pid pr);
        if \<not> quota \<and> \<not> idle then return_io ts
        else do {
          log_event (EvMitigation (pp_pid pr) (pp_comm pr) ''MemoryPressureThrottle'');
          return_io (snd (fv_push_back MAX_THROTTLED \<lparr>tp_pid = pp_pid pr, tp_quota = quota, tp_idle = idle\<rparr> ts))
        }
      })"

definition actuate_throttle :: "globals \<Rightarrow> kernel \<Rightarrow> report \<Rightarrow> pid \<Rightarrow> guard \<Rightarrow> guard io" where
  "actuate_throttle g k r protected_pid s = do {
     ts \<leftarrow> io_for (\<lambda>ts. fv_size ts < MAX_THROTTLED) (throttle_one g k protected_pid) (top_list r) (gd_throttled s);
     return_io (s\<lparr>gd_throttled := ts\<rparr>)
   }"

definition throttle_permitted :: "power_profile \<Rightarrow> bool \<Rightarrow> bool \<Rightarrow> bool" where
  "throttle_permitted profile in_flight exhausted =
     (if profile \<noteq> Performance then True else \<not> in_flight \<and> exhausted)"

section \<open>The evaluation\<close>

definition guard_notify :: "kernel \<Rightarrow> u8 \<Rightarrow> guard \<Rightarrow> guard io" where
  "guard_notify k level s = do {
     (_, nt) \<leftarrow> notify k level 0 (gd_notifier s);
     return_io (s\<lparr>gd_notifier := nt\<rparr>)
   }"

definition guard_trim :: "globals \<Rightarrow> kernel \<Rightarrow> pressure_tier \<Rightarrow> pressure_sample \<Rightarrow> guard \<Rightarrow> guard io" where
  "guard_trim g k previous sm s = do {
     s \<leftarrow> guard_notify k LEVEL_NORMAL s;
     s \<leftarrow> (if previous \<noteq> TierNormal then release_all g k s else return_io s);
     ex \<leftarrow> maybe_release g k (ms_swap_total_kb sm) (ms_swap_free_kb sm) (gd_expander s);
     return_io (s\<lparr>gd_expander := ex\<rparr>)
   }"

definition guard_reclaim :: "globals \<Rightarrow> kernel \<Rightarrow> u8 \<Rightarrow> report \<Rightarrow> pid \<Rightarrow> guard \<Rightarrow> guard io" where
  "guard_reclaim g k level r protected_pid s = do {
     s \<leftarrow> guard_notify k level s;
     actuate_advisory g k r;
     actuate_pageout k r protected_pid s
   }"

definition performance_ladder ::
  "globals \<Rightarrow> kernel \<Rightarrow> report \<Rightarrow> pid \<Rightarrow> pressure_tier \<Rightarrow> pressure_tier \<Rightarrow> pressure_sample \<Rightarrow> guard \<Rightarrow> guard io" where
  "performance_ladder g k r protected_pid previous next_tier sm s = do {
     (growing, ex) \<leftarrow> ensure_headroom g k (ms_swap_total_kb sm) (ms_swap_free_kb sm) (gd_expander s);
     let s = s\<lparr>gd_expander := ex\<rparr>;
     if next_tier = TierNormal then guard_trim g k previous sm s
     else do {
       s \<leftarrow> guard_reclaim g k LEVEL_MODERATE r protected_pid s;
       exhausted \<leftarrow> budget_exhausted k (gd_expander s);
       if next_tier = TierThrottle \<and> throttle_permitted Performance growing exhausted
       then do {
         s \<leftarrow> guard_notify k LEVEL_CRITICAL s;
         io_when (\<not> gd_logged_exhausted s) (log_event (EvAlert ''SWAP''));
         actuate_throttle g k r protected_pid (s\<lparr>gd_logged_exhausted := True\<rparr>)
       }
       else release_all g k (s\<lparr>gd_logged_exhausted := False\<rparr>)
     }
   }"

definition ordinary_ladder ::
  "globals \<Rightarrow> kernel \<Rightarrow> report \<Rightarrow> pid \<Rightarrow> pressure_tier \<Rightarrow> pressure_tier \<Rightarrow> pressure_sample \<Rightarrow> guard \<Rightarrow> guard io" where
  "ordinary_ladder g k r protected_pid previous next_tier sm s =
     (case next_tier of
        TierNormal \<Rightarrow> guard_trim g k previous sm s
      | TierAdvisory \<Rightarrow> do {
          s \<leftarrow> (if previous = TierThrottle then release_all g k s else return_io s);
          guard_reclaim g k LEVEL_MODERATE r protected_pid s }
      | TierThrottle \<Rightarrow> do {
          s \<leftarrow> guard_reclaim g k LEVEL_CRITICAL r protected_pid s;
          (_, ex) \<leftarrow> ensure_headroom g k (ms_swap_total_kb sm) (ms_swap_free_kb sm) (gd_expander s);
          actuate_throttle g k r protected_pid (s\<lparr>gd_expander := ex\<rparr>) })"

definition is_idle_machine :: "report \<Rightarrow> pid \<Rightarrow> bool" where
  "is_idle_machine r protected_pid \<longleftrightarrow>
     protected_pid \<le> 0 \<or>
     (fp_lt (hw_c0_active_percent (rp_hardware r)) (Fin 8) \<and> fp_lt (hw_cpu_package_watts (rp_hardware r)) (Fin (7 / 2)))"

definition guard_engines :: "globals \<Rightarrow> kernel \<Rightarrow> report \<Rightarrow> pid \<Rightarrow> pressure_tier \<Rightarrow> pressure_sample \<Rightarrow> guard \<Rightarrow> guard option io" where
  "guard_engines g k r protected_pid next_tier sm s = do {
     now_sec \<leftarrow> sys_now_steady k;
     (_, nt, tel) \<leftarrow> targeted_evaluate g k r sm next_tier now_sec (gd_notifier s) (gd_telemetry s);
     hy \<leftarrow> hygiene_evaluate k r (\<not> hw_is_battery_discharging (rp_hardware r)) (is_idle_machine r protected_pid)
            now_sec (gd_hygiene s);
     return_io (case hy of None \<Rightarrow> None
       | Some hy \<Rightarrow> Some (s\<lparr>gd_notifier := nt, gd_telemetry := tel, gd_hygiene := hy\<rparr>))
   }"

text \<open>The polls of the swap expander that precede the ladder.\<close>

definition guard_expander_polls :: "globals \<Rightarrow> kernel \<Rightarrow> pressure_tier \<Rightarrow> pressure_sample \<Rightarrow> guard \<Rightarrow> guard io" where
  "guard_expander_polls g k next_tier sm s = do {
     ex \<leftarrow> poll_pending k (gd_expander s);
     ex \<leftarrow> poll_base_migration k ex;
     ex \<leftarrow> (if next_tier = TierNormal
           then do { now_sec \<leftarrow> sys_now_real k;
                     evaluate_base_right_sizing g k now_sec (ms_swap_total_kb sm) (ms_swap_free_kb sm) ex }
           else return_io ex);
     return_io (s\<lparr>gd_expander := ex\<rparr>)
   }"

definition guard_act ::
  "globals \<Rightarrow> kernel \<Rightarrow> report \<Rightarrow> pid \<Rightarrow> power_profile \<Rightarrow> pressure_sample \<Rightarrow> guard \<Rightarrow> guard option io" where
  "guard_act g k r protected_pid profile sm s =
     (let previous = gd_tier s;
          next_tier = classify_pressure sm previous in
      do {
        io_when (next_tier \<noteq> previous) (log_event (EvAlert ''MEMORY''));
        s \<leftarrow> guard_expander_polls g k next_tier sm
          (s\<lparr>gd_last := sm, gd_tier := next_tier, gd_suspend_swap_feed := (next_tier \<noteq> TierNormal)\<rparr>);
        if profile = Performance
        then do { s \<leftarrow> performance_ladder g k r protected_pid previous next_tier sm s; return_io (Some s) }
        else do {
          s \<leftarrow> ordinary_ladder g k r protected_pid previous next_tier sm s;
          guard_engines g k r protected_pid next_tier sm s
        }
      })"

definition guard_evaluate ::
  "globals \<Rightarrow> kernel \<Rightarrow> report \<Rightarrow> pid \<Rightarrow> power_profile \<Rightarrow> guard \<Rightarrow> guard option io" where
  "guard_evaluate g k r protected_pid profile s = do {
     sample \<leftarrow> guard_sample k s;
     case sample of None \<Rightarrow> return_io (Some s)
     | Some sm \<Rightarrow> guard_act g k r protected_pid profile sm s
   }"

section \<open>Effects\<close>

text \<open>
  \<open>peaceful\<close>: no signal, no shell, and no write to a cgroup freezer.  \<open>background_event\<close>: besides,
  nothing that the audit log counts as applying or releasing a throttle.  \<open>calm_event\<close>: besides, neither
  the I/O priority of a process nor the CPU quota of a cgroup is set.
\<close>

definition peaceful :: "event \<Rightarrow> bool" where
  "peaceful e = (case e of EvKill _ _ \<Rightarrow> False | EvSystem _ _ \<Rightarrow> False | EvPopen _ \<Rightarrow> False
     | EvExec _ _ \<Rightarrow> False | EvWrite p _ _ \<Rightarrow> \<not> ends_with p ''/cgroup.freeze'' | _ \<Rightarrow> True)"

definition audit_neutral :: "event \<Rightarrow> bool" where
  "audit_neutral e = (case e of EvMitigation _ _ a \<Rightarrow> a \<noteq> ''MemoryPressureThrottle'' | EvRollback _ \<Rightarrow> False | _ \<Rightarrow> True)"

definition throttle_neutral :: "event \<Rightarrow> bool" where
  "throttle_neutral e = (case e of EvIoPrio _ _ _ _ \<Rightarrow> False | EvWrite p _ _ \<Rightarrow> \<not> ends_with p ''/cpu.max'' | _ \<Rightarrow> True)"

definition background_event :: "event \<Rightarrow> bool" where
  "background_event e \<longleftrightarrow> peaceful e \<and> audit_neutral e"

definition calm_event :: "event \<Rightarrow> bool" where
  "calm_event e \<longleftrightarrow> background_event e \<and> throttle_neutral e"

lemmas background_defs = calm_event_def background_event_def peaceful_def audit_neutral_def throttle_neutral_def

lemma ends_with_last: "ends_with s p \<Longrightarrow> p \<noteq> [] \<Longrightarrow> last s = last p"
  by (auto simp: ends_with_iff)

lemma background_simps [simp]:
  "calm_event (EvReadFile p)" "calm_event (EvOpenDir p)" "calm_event (EvStat p)"
  "calm_event (EvStatVfs p)" "calm_event (EvStatFs p)" "calm_event (EvAccess p)"
  "calm_event EvClock" "calm_event (EvAlert c)" "calm_event (EvWait q w)"
  "calm_event (EvUnlink p b)" "calm_event (EvSwapon p n b)" "calm_event (EvSwapoff p b)"
  "calm_event (EvRename p p' b)" "calm_event (EvFork j q)" "calm_event (EvOpenWrite p b)"
  "calm_event (EvSetScheduler q pol b)" "calm_event (EvSetPriority q m)"
  "calm_event (EvOpenFd p b)" "calm_event (EvCloseFd p)"
  "calm_event (EvMitigation q c a) \<longleftrightarrow> a \<noteq> ''MemoryPressureThrottle''"
  by (simp_all add: background_defs)

lemma peaceful_audit [simp]: "peaceful (EvRollback p)" "peaceful (EvMitigation p c a)"
  by (simp_all add: peaceful_def)

lemma background_write:
  "p \<noteq> [] \<Longrightarrow> last p \<noteq> CHR ''e'' \<Longrightarrow> background_event (EvWrite p d n)"
  "p \<noteq> [] \<Longrightarrow> last p \<noteq> CHR ''e'' \<Longrightarrow> last p \<noteq> CHR ''x'' \<Longrightarrow> calm_event (EvWrite p d n)"
  using ends_with_last [of p "''/cgroup.freeze''"] ends_with_last [of p "''/cpu.max''"] by (auto simp: background_defs)

lemma calm_background: "calm_event e \<Longrightarrow> background_event e"
  by (simp add: calm_event_def)

lemma background_calls [simp]:
  "background_event (EvReadFile p)" "background_event (EvOpenDir p)" "background_event (EvOpenWrite p b)"
  "background_event (EvSetScheduler q pol b)" "background_event (EvSetPriority q m)" "background_event (EvIoPrio q cl lv b)"
  by (simp_all add: background_defs)

lemma read_background: "is_read_event e \<Longrightarrow> calm_event e"
  by (cases e) (auto simp: background_defs)

lemma emits_calm_reclaim: "emits calm_event (apply_memory_reclaim g k p b fo)"
  unfolding apply_memory_reclaim_def Let_def sys_write_def
  by (auto intro!: io_rules emits_shields emits_with_cgroup_file emits_unless_shielded background_write)

lemma emits_background_files:
  "emits background_event (apply_cgroup_cpu_quota g k p q per)"
  "emits background_event (restore_cgroup_cpu_quota g k p)"
  "emits background_event (apply_sched_idle g k p)"
  "emits background_event (restore_sched_normal g k p pol n)"
proof -
  note rules = io_rules emits_shields emits_with_cgroup_file emits_unless_shielded emits_task_ids
  show "emits background_event (apply_cgroup_cpu_quota g k p q per)"
    unfolding apply_cgroup_cpu_quota_def sys_write_def by (auto intro!: rules background_write)
  show "emits background_event (restore_cgroup_cpu_quota g k p)"
    unfolding restore_cgroup_cpu_quota_def sys_write_def by (auto intro!: rules background_write)
  show "emits background_event (apply_sched_idle g k p)"
    unfolding apply_sched_idle_def hw_defs sys_defs by (auto intro!: rules)
  show "emits background_event (restore_sched_normal g k p pol n)"
    unfolding restore_sched_normal_def Let_def hw_defs sys_defs by (auto intro!: rules)
qed

lemma emits_background_expander:
  "emits calm_event (expander_initialize g k s)"
  "emits calm_event (ensure_headroom g k t f s)"
  "emits calm_event (poll_pending k s)"
  "emits calm_event (maybe_release g k t f s)"
  "emits calm_event (evaluate_base_right_sizing g k n t f s)"
  "emits calm_event (poll_base_migration k s)"
  "emits calm_event (budget_exhausted k s)"
proof -
  note defs = question_defs sys_defs Let_def
  have ask: "emits calm_event (swap_dir_free_bytes k)" "emits calm_event (is_swap_active k p)"
    "emits calm_event (get_file_size_bytes k p)" for p
    unfolding defs by (auto intro!: io_rules)
  have spawn: "emits calm_event (spawn_create_size k p n)" for p n
    unfolding defs by (auto intro!: io_rules)
  have idx: "emits calm_event (free_index k is)" for "is"
    by (induction "is") (auto intro!: io_rules simp: sys_stat_def)
  have one: "emits calm_event (initialize_one g k i s)" for i s
    unfolding initialize_one_def sys_stat_def sys_unlink_def log_event_def by (auto intro!: io_rules ask)
  show "emits calm_event (expander_initialize g k s)"
    unfolding expander_initialize_def by (auto intro!: io_rules one)
  show "emits calm_event (ensure_headroom g k t f s)"
    unfolding ensure_headroom_def log_event_def by (auto intro!: io_rules ask idx spawn)
  show "emits calm_event (poll_pending k s)"
    unfolding poll_pending_def sys_waitpid_def sys_unlink_def sys_swapon_def log_event_def Let_def
    by (auto intro!: io_rules)
  show "emits calm_event (maybe_release g k t f s)"
    unfolding maybe_release_def sys_fork_def sys_waitpid_def log_event_def by (auto intro!: io_rules)
  show "emits calm_event (evaluate_base_right_sizing g k n t f s)"
    unfolding evaluate_base_right_sizing_def Let_def sys_unlink_def log_event_def
    by (auto intro!: io_rules ask spawn)
  have create: "emits calm_event (after_create k c s)" for c s
    unfolding after_create_def sys_defs by (auto intro!: io_rules)
  have off: "emits calm_event (after_swapoff k c s)" for c s
    unfolding after_swapoff_def sys_defs by (auto intro!: io_rules)
  show "emits calm_event (poll_base_migration k s)"
    unfolding poll_base_migration_def sys_waitpid_def Let_def
    by (auto intro!: io_rules create off split: migration_state.splits)
  show "emits calm_event (budget_exhausted k s)"
    unfolding budget_exhausted_def by (auto intro!: io_rules ask)
qed

lemma emits_background_engines:
  "emits calm_event (notify k l n nt)" "emits calm_event (notifier_initialize k nt)"
  "emits calm_event (notifier_shutdown k nt)"
  "emits calm_event (swap_refresh k st)"
  "emits calm_event (pageout_candidates k r p m)"
  "emits calm_event (targeted_evaluate g k r sm t n nt tel)"
  "emits calm_event (hygiene_evaluate k r b b' n hy)"
proof -
  have bus: "bus_event e \<Longrightarrow> calm_event e" for e
    by (cases e) (auto simp: bus_event_def background_defs)
  then show "emits calm_event (notify k l n nt)" "emits calm_event (notifier_initialize k nt)"
    "emits calm_event (notifier_shutdown k nt)"
    by (auto intro!: emits_notifier)
  show "emits calm_event (swap_refresh k st)" by (auto intro!: emits_swap_refresh)
  have "candidate_event r p e \<Longrightarrow> calm_event e" for e
    by (cases e) (auto simp: candidate_event_def pageout_event_def background_defs)
  then show "emits calm_event (pageout_candidates k r p m)"
    by (rule io_ok_mono [OF emits_pageout_candidates]) auto
  show "emits calm_event (targeted_evaluate g k r sm t n nt tel)"
    by (rule emits_targeted_from) (auto intro!: bus emits_calm_reclaim)
  have "\<not> ends_with ''/sys/block/zram0/compact'' ''/cgroup.freeze''"
    "\<not> ends_with ''/sys/block/zram0/compact'' ''/cpu.max''" by (simp_all add: ends_with_def)
  then have "hygiene_event e \<Longrightarrow> calm_event e" for e
    by (cases e) (auto simp: hygiene_event_def background_defs)
  then show "emits calm_event (hygiene_evaluate k r b b' n hy)"
    by (rule io_ok_mono [OF emits_hygiene]) auto
qed

lemma emits_background_rungs:
  "emits calm_event (guard_sample k s)"
  "emits calm_event (actuate_advisory g k r)"
  "emits calm_event (actuate_pageout k r p s)"
  "emits calm_event (guard_notify k l s)"
  "emits calm_event (guard_reclaim g k l r p s)"
  "emits calm_event (guard_expander_polls g k nx sm s)"
  "emits calm_event (guard_engines g k r p nx sm s)"
  "emits calm_event (guard_initialize g k s)"
proof -
  note bg = emits_calm_reclaim emits_background_expander emits_background_engines
  show "emits calm_event (guard_sample k s)"
    unfolding guard_sample_def sys_read_file_def by (auto intro!: io_rules)
  show advisory: "emits calm_event (actuate_advisory g k r)"
    unfolding actuate_advisory_def advisory_one_def by (auto intro!: io_rules bg)
  show pageout: "emits calm_event (actuate_pageout k r p s)" for s
    unfolding actuate_pageout_def by (auto intro!: io_rules bg)
  show notif: "emits calm_event (guard_notify k l s)" for s
    unfolding guard_notify_def by (auto intro!: io_rules bg)
  show "emits calm_event (guard_reclaim g k l r p s)"
    unfolding guard_reclaim_def by (auto intro!: io_rules advisory pageout notif)
  show "emits calm_event (guard_expander_polls g k nx sm s)"
    unfolding guard_expander_polls_def sys_now_real_def by (auto intro!: io_rules bg)
  show "emits calm_event (guard_engines g k r p nx sm s)"
    unfolding guard_engines_def sys_now_steady_def by (auto intro!: io_rules bg)
  have "emits calm_event (try_trigger k spec)" for spec
    unfolding try_trigger_def sys_open_fd_def sys_write_def sys_close_fd_def
    by (auto intro!: io_rules background_write)
  then have "emits calm_event (arm_psi k)"
    unfolding arm_psi_def by (auto intro!: io_rules)
  then show "emits calm_event (guard_initialize g k s)"
    unfolding guard_initialize_def sys_open_fd_def Let_def by (auto intro!: io_rules bg)
qed

section \<open>The throttle table\<close>

text \<open>The processes that the audit log shows as throttled and not yet released, the latest first.\<close>

fun held :: "history \<Rightarrow> pid list" where
  "held [] = []"
| "held (e # h) =
     (case e of
        EvMitigation p _ a \<Rightarrow> if a = ''MemoryPressureThrottle'' then p # held h else held h
      | EvRollback p \<Rightarrow> removeAll p (held h)
      | _ \<Rightarrow> held h)"

text \<open>
  What a throttle sets on the system, read off the calls themselves.  \<open>cpu_low h q\<close>: process \<open>q\<close> was put into
  the idle class as the first half of a throttle (the call that sets the idle I/O class follows at once), and
  nobody has tried to put it back into the ordinary class since.  \<open>io_low h q\<close>: it was put into the idle I/O
  class and nobody has tried to give it the ordinary one.  \<open>capped h f\<close>: a quota was written to the \<open>cpu.max\<close>
  file \<open>f\<close> and nobody has tried to write \<open>max\<close> to it since.
\<close>

fun cpu_low :: "history \<Rightarrow> pid \<Rightarrow> bool" where
  "cpu_low [] q = False"
| "cpu_low (e # h) q =
     (case e of
        EvIoPrio p c d ok \<Rightarrow> cpu_low h q \<or> (p = q \<and> c = 3 \<and> take 1 h = [EvSetScheduler q SCHED_IDLE True])
      | EvSetScheduler p pol ok \<Rightarrow> cpu_low h q \<and> \<not> (p = q \<and> pol = SCHED_OTHER)
      | _ \<Rightarrow> cpu_low h q)"

fun io_low :: "history \<Rightarrow> pid \<Rightarrow> bool" where
  "io_low [] q = False"
| "io_low (e # h) q =
     (case e of
        EvIoPrio p c d ok \<Rightarrow> if p = q \<and> c = 3 then ok \<or> io_low h q else io_low h q \<and> \<not> (p = q \<and> c = 2 \<and> d = 4)
      | _ \<Rightarrow> io_low h q)"

fun capped :: "history \<Rightarrow> string \<Rightarrow> bool" where
  "capped [] f = False"
| "capped (e # h) f =
     (case e of
        EvWrite p d n \<Rightarrow>
          if p = f \<and> ends_with f ''/cpu.max'' then d \<noteq> ''max 100000'' @ [NL] \<and> (0 < n \<or> capped h f) else capped h f
      | _ \<Rightarrow> capped h f)"

text \<open>A system on which no process changes its cgroup and every \<open>cpu.max\<close> file can be opened.\<close>

definition cgroup_of :: "kernel \<Rightarrow> pid \<Rightarrow> string option" where
  "cgroup_of k p = fst (run_state (resolve_cgroup_path k p 256) [])"

definition quota_files :: "kernel \<Rightarrow> pid \<Rightarrow> string set" where
  "quota_files k p = (case cgroup_of k p of None \<Rightarrow> {} | Some cg \<Rightarrow> {c_str cg @ ''/cpu.max''})"

definition steady_cgroups :: "kernel \<Rightarrow> bool" where
  "steady_cgroups k \<longleftrightarrow> (\<forall>h p. 1 < p \<longrightarrow> fst (run_state (resolve_cgroup_path k p 256) h) = cgroup_of k p \<and>
     (\<forall>f \<in> quota_files k p. k_open_write k h f))"

text \<open>At most the processes and files named are throttled.\<close>

definition lowered :: "kernel \<Rightarrow> pid set \<Rightarrow> pid set \<Rightarrow> string set \<Rightarrow> history \<Rightarrow> bool" where
  "lowered k C I W h \<longleftrightarrow> (\<forall>q. cpu_low h q \<longrightarrow> q \<in> C) \<and> (\<forall>q. io_low h q \<longrightarrow> q \<in> I) \<and>
     (steady_cgroups k \<longrightarrow> (\<forall>f. capped h f \<longrightarrow> f \<in> W))"

definition idled :: "globals \<Rightarrow> throttled list \<Rightarrow> pid set" where
  "idled g ts = (if gl_sandbox g then {} else tp_pid ` set (filter tp_idle ts))"

definition quotas :: "globals \<Rightarrow> kernel \<Rightarrow> throttled list \<Rightarrow> string set" where
  "quotas g k ts = (if gl_sandbox g then {} else \<Union>t \<in> set (filter tp_quota ts). quota_files k (tp_pid t))"

definition tabled :: "globals \<Rightarrow> kernel \<Rightarrow> throttled list \<Rightarrow> history \<Rightarrow> bool" where
  "tabled g k ts h \<longleftrightarrow> lowered k (idled g ts) (idled g ts) (quotas g k ts) h"

lemma calm_lowered: "calm_event e \<Longrightarrow> lowered k C I W h \<Longrightarrow> lowered k C I W (e # h)"
  by (cases e) (auto simp: lowered_def background_defs)

lemma lowered_mono: "lowered k C I W h \<Longrightarrow> C \<subseteq> C' \<Longrightarrow> I \<subseteq> I' \<Longrightarrow> W \<subseteq> W' \<Longrightarrow> lowered k C' I' W' h"
  by (auto simp: lowered_def)

lemma wp_calm: "io_ok calm_event m R \<Longrightarrow> lowered k C I W h \<Longrightarrow> wp m (\<lambda>x h'. R x \<and> lowered k C I W h') h"
  by (rule wp_emits [where P = calm_event]) (auto intro: calm_lowered)

text \<open>The table says what the audit log says; with \<open>tabled\<close>, it also names all that is throttled on the system.\<close>

definition ledger :: "throttled fvec \<Rightarrow> history \<Rightarrow> bool" where
  "ledger ts h \<longleftrightarrow> held h = rev (map tp_pid (fv_items ts)) \<and> distinct (map tp_pid (fv_items ts)) \<and>
     fv_size ts \<le> MAX_THROTTLED \<and> list_all peaceful h \<and> list_all (\<lambda>t. 1 < tp_pid t) (fv_items ts)"

definition table_inv :: "globals \<Rightarrow> kernel \<Rightarrow> throttled fvec \<Rightarrow> history \<Rightarrow> bool" where
  "table_inv g k ts h \<longleftrightarrow> ledger ts h \<and> tabled g k (fv_items ts) h"

lemma background_ledger: "background_event e \<Longrightarrow> ledger ts h \<Longrightarrow> ledger ts (e # h)"
  by (cases e) (auto simp: ledger_def background_defs)

lemma wp_background_ledger: "emits background_event m \<Longrightarrow> ledger ts h \<Longrightarrow> wp m (\<lambda>_. ledger ts) h"
  using wp_emits [of background_event m "\<lambda>_. True" "ledger ts" h] background_ledger by (auto elim: wp_mono)

lemma background_keeps: "calm_event e \<Longrightarrow> table_inv g k ts h \<Longrightarrow> table_inv g k ts (e # h)"
  by (simp add: table_inv_def tabled_def calm_lowered background_ledger calm_background)

lemma wp_background: "emits calm_event m \<Longrightarrow> table_inv g k ts h \<Longrightarrow> wp m (\<lambda>_. table_inv g k ts) h"
  using wp_emits [of calm_event m "\<lambda>_. True" "table_inv g k ts" h] background_keeps
  by (auto elim: wp_mono)

lemma wp_background_bind:
  "emits calm_event m \<Longrightarrow> table_inv g k ts h \<Longrightarrow> (\<And>x h'. table_inv g k ts h' \<Longrightarrow> wp (f x) Q h') \<Longrightarrow>
   wp (m \<bind> f) Q h"
  unfolding wp_bind by (rule wp_mono [OF wp_background])

definition held_is :: "pid list \<Rightarrow> unit \<Rightarrow> history \<Rightarrow> bool" where
  "held_is ps u h \<longleftrightarrow> held h = ps \<and> list_all peaceful h"

lemma wp_background_held: "emits background_event m \<Longrightarrow> held_is ps () h \<Longrightarrow> wp m (\<lambda>_. held_is ps ()) h"
proof -
  have "background_event e \<Longrightarrow> held_is ps () h \<Longrightarrow> held_is ps () (e # h)" for e h
    by (cases e) (auto simp: held_is_def background_defs)
  then show "emits background_event m \<Longrightarrow> held_is ps () h \<Longrightarrow> wp m (\<lambda>_. held_is ps ()) h"
    using wp_emits [of background_event m "\<lambda>_. True" "held_is ps ()" h] by (auto elim: wp_mono)
qed

lemma wp_release_one:
  assumes "held_is (ps @ [tp_pid t]) () h" and "tp_pid t \<notin> set ps"
  shows "wp (release_one g k t u) (held_is ps) h"
proof -
  have quota: "emits background_event (io_when b (do { restore_cgroup_cpu_quota g k p; return_io () }))" for b p
    by (intro io_rules emits_background_files TrueI)
  have idle: "emits background_event (io_when b (do { restore_sched_normal g k p 0 0; return_io () }))" for b p
    by (intro io_rules emits_background_files TrueI)
  have "wp (log_event (EvRollback (tp_pid t))) (held_is ps) h'" if "held_is (ps @ [tp_pid t]) () h'" for h'
    using that assms(2) by (simp add: log_event_def wp_syscall held_is_def)
  then show ?thesis
    unfolding release_one_def wp_bind
    by (intro wp_mono [OF wp_background_held [OF quota assms(1)]] wp_mono [OF wp_background_held [OF idle]])
qed

lemma wp_release_loop:
  "held_is (rev (map tp_pid ts)) () h \<Longrightarrow> distinct (map tp_pid ts) \<Longrightarrow>
   wp (io_for (\<lambda>_. True) (release_one g k) ts ()) (held_is []) h"
proof (induction ts arbitrary: h)
  case (Cons t ts)
  have "wp (release_one g k t ()) (held_is (rev (map tp_pid ts))) h"
    using Cons.prems by (intro wp_release_one) auto
  with Cons.IH Cons.prems(2) show ?case
    by (auto simp: wp_bind elim: wp_mono)
qed (simp add: wp_return)

text \<open>Setting and releasing the two halves of a throttle.\<close>

lemma wp_calm_then:
  "io_ok calm_event m R \<Longrightarrow> lowered k C I W h \<Longrightarrow> (\<And>x h'. R x \<Longrightarrow> lowered k C I W h' \<Longrightarrow> wp (f x) Q h') \<Longrightarrow> wp (m \<bind> f) Q h"
  by (rule wp_then [OF wp_calm]) auto

lemma calm_reads: "is_read_event e \<Longrightarrow> calm_event e"
  by (rule read_background)

lemma calm_resolve: "io_ok calm_event (resolve_cgroup_path k p 256) (\<lambda>r. steady_cgroups k \<longrightarrow> 1 < p \<longrightarrow> r = cgroup_of k p)"
  using emits_resolve_cgroup_path [of calm_event k p 256] by (auto simp: io_ok_def steady_cgroups_def)

lemma wp_with_quota_file:
  assumes "lowered k C I W h" "1 < p" "\<not> gl_sandbox g"
    and body: "\<And>f h'. lowered k C I W h' \<Longrightarrow> ends_with f ''/cpu.max'' \<Longrightarrow> (steady_cgroups k \<longrightarrow> quota_files k p = {f}) \<Longrightarrow> wp (body f) Q h'"
    and none: "\<And>h'. lowered k C I W h' \<Longrightarrow> (steady_cgroups k \<longrightarrow> quota_files k p = {}) \<Longrightarrow> Q False h'"
  shows "wp (with_cgroup_file g k p ''/cpu.max'' body) Q h"
  unfolding with_cgroup_file_def Let_def
proof (rule wp_calm_then [OF calm_resolve assms(1)])
  fix r h' assume r: "steady_cgroups k \<longrightarrow> 1 < p \<longrightarrow> r = cgroup_of k p" and h': "lowered k C I W h'"
  show "wp (case r of None \<Rightarrow> return_io False | Some cg \<Rightarrow> do {
      ok \<leftarrow> hw_open_write g k (c_str cg @ ''/cpu.max'');
      if \<not> ok then return_io False else body (c_str cg @ ''/cpu.max'') }) Q h'"
  proof (cases r)
    case None
    then show ?thesis using none [OF h'] r assms(2) by (simp add: wp_return quota_files_def)
  next
    case (Some cg)
    have files: "steady_cgroups k \<longrightarrow> quota_files k p = {c_str cg @ ''/cpu.max''}"
      using r assms(2) Some by (auto simp: quota_files_def split: option.splits)
    have op: "lowered k C I W (EvOpenWrite f b # h')" for f b using h' by (simp add: calm_lowered)
    have "k_open_write k h' (c_str cg @ ''/cpu.max'')" if "steady_cgroups k"
      using that files assms(2) by (auto simp: steady_cgroups_def)
    then show ?thesis
      using files body [OF op _ files] none [OF op] assms(3)
      by (auto simp: Some hw_open_write_def sys_open_write_def wp_simps)
  qed
qed

lemma lowered_write:
  assumes "lowered k C I W h" and "steady_cgroups k \<longrightarrow> F = {f}" and "ends_with f ''/cpu.max''"
  shows "lowered k C I (W \<union> (if 0 < n then F else {})) (EvWrite f d n # h)"
    and "lowered k C I (W - F) (EvWrite f (''max 100000'' @ [NL]) n # h)"
  using assms by (auto simp: lowered_def)

lemma wp_quota:
  assumes "lowered k C I W h" "\<not> gl_sandbox g"
  shows "wp (apply_cgroup_cpu_quota g k p q per) (\<lambda>b. lowered k C I (W \<union> (if b then quota_files k p else {}))) h"
proof (cases "p \<le> 1")
  case False
  have shield: "io_ok calm_event (is_immune_process g k p) (\<lambda>_. True)" by (rule emits_shields) simp
  show ?thesis
    unfolding apply_cgroup_cpu_quota_def if_not_P [OF False] unless_shielded.simps
  proof (rule wp_calm_then [OF shield assms(1)], rule wp_ifI)
    fix b h' assume h': "lowered k C I W h'"
    show "wp (return_io False) (\<lambda>b. lowered k C I (W \<union> (if b then quota_files k p else {}))) h'" using h' by (simp add: wp_return)
    show "wp (with_cgroup_file g k p ''/cpu.max'' (\<lambda>path. do {
          w \<leftarrow> sys_write k path (show_nat (unat q) @ '' '' @ show_nat (unat per) @ [NL]); return_io (0 < w) }))
        (\<lambda>b. lowered k C I (W \<union> (if b then quota_files k p else {}))) h'"
    proof (rule wp_with_quota_file [OF h' _ assms(2)])
      show "1 < p" using False by simp
      show "lowered k C I (W \<union> (if False then quota_files k p else {})) h''" if "lowered k C I W h''" for h'' using that by simp
      show "wp (do { w \<leftarrow> sys_write k f d; return_io (0 < w) }) (\<lambda>b. lowered k C I (W \<union> (if b then quota_files k p else {}))) h''"
        if "lowered k C I W h''" "ends_with f ''/cpu.max''" "steady_cgroups k \<longrightarrow> quota_files k p = {f}" for f d h''
        unfolding sys_write_def wp_bind wp_syscall wp_return by (rule lowered_write(1) [OF that(1,3,2)])
    qed
  qed
qed (use assms in \<open>simp add: apply_cgroup_cpu_quota_def wp_return\<close>)

lemma wp_unquota:
  assumes "lowered k C I W h" "\<not> gl_sandbox g" "1 < p"
  shows "wp (restore_cgroup_cpu_quota g k p) (\<lambda>_. lowered k C I (W - quota_files k p)) h"
proof -
  have "wp (with_cgroup_file g k p ''/cpu.max'' (\<lambda>f. do { w \<leftarrow> sys_write k f (''max 100000'' @ [NL]); return_io (0 < w) }))
      (\<lambda>_. lowered k C I (W - quota_files k p)) h"
  proof (rule wp_with_quota_file [OF assms(1,3,2)])
    show "lowered k C I (W - quota_files k p) h'" if "lowered k C I W h'" "steady_cgroups k \<longrightarrow> quota_files k p = {}" for h'
      using that by (auto simp: lowered_def)
    show "wp (do { w \<leftarrow> sys_write k f (''max 100000'' @ [NL]); return_io (0 < w) }) (\<lambda>_. lowered k C I (W - quota_files k p)) h'"
      if "lowered k C I W h'" "ends_with f ''/cpu.max''" "steady_cgroups k \<longrightarrow> quota_files k p = {f}" for f h'
      unfolding sys_write_def wp_bind wp_syscall wp_return by (rule lowered_write(2) [OF that(1,3,2)])
  qed
  then show ?thesis using assms(3) by (simp add: restore_cgroup_cpu_quota_def)
qed

lemma wp_idle:
  assumes "lowered k C I W h" "\<not> gl_sandbox g"
  shows "wp (apply_sched_idle g k p) (\<lambda>b. lowered k (C \<union> (if b then {p} else {})) (I \<union> (if b then {p} else {})) W) h"
proof (cases "p \<le> 1")
  case False
  let ?Q = "\<lambda>b. lowered k (C \<union> (if b then {p} else {})) (I \<union> (if b then {p} else {})) W"
  have chain: "wp (unless_shielded shs m) ?Q h" if "\<And>sh. sh \<in> set shs \<Longrightarrow> emits calm_event sh"
    and "\<And>h. lowered k C I W h \<Longrightarrow> wp m ?Q h" and "lowered k C I W h" for shs m h
    using that
  proof (induction shs arbitrary: h)
    case (Cons sh shs)
    show ?case
      unfolding unless_shielded.simps
      by (rule wp_calm_then [OF Cons.prems(1) Cons.prems(3)]) (auto simp: wp_return intro!: Cons.IH Cons.prems(1,2))
  next
    case Nil
    show ?case unfolding unless_shielded.simps by (rule Nil(2) [OF Nil(3)])
  qed
  show ?thesis
    unfolding apply_sched_idle_def if_not_P [OF False]
    by (rule chain [OF _ _ assms(1)])
      (use assms(2) in \<open>auto simp: hw_defs sys_defs wp_simps lowered_def intro!: emits_shields\<close>)
qed (use assms in \<open>simp add: apply_sched_idle_def wp_return\<close>)

lemma wp_unidle:
  assumes "lowered k C I W h" "\<not> gl_sandbox g" "1 < p"
  shows "wp (restore_sched_normal g k p 0 0) (\<lambda>_. lowered k (C - {p}) (I - {p}) W) h"
proof -
  have prio: "lowered k C I W (EvSetPriority p 0 # h)" by (rule calm_lowered [OF _ assms(1)]) simp
  have sched: "lowered k (C - {p}) I W (EvSetScheduler p SCHED_OTHER b # EvSetPriority p 0 # h)" for b
    using prio by (auto simp: lowered_def)
  have io: "wp (do { io_ok \<leftarrow> hw_ioprio_set g k p 2 4; return_io (b \<or> io_ok) }) (\<lambda>_. lowered k (C - {p}) (I - {p}) W) h'"
    if "lowered k (C - {p}) I W h'" for b h'
    using that assms(2) by (auto simp: hw_ioprio_set_def sys_ioprio_set_def wp_simps lowered_def)
  have threads: "emits calm_event (case ts of None \<Rightarrow> return_io () | Some tids \<Rightarrow> io_for (\<lambda>_. True) (\<lambda>t _. do {
      hw_sched_setscheduler g k t pol; hw_setpriority g k t 0 }) tids ())" for ts pol
    unfolding hw_defs sys_defs by (auto intro!: io_rules)
  have tasks: "emits calm_event (task_ids k p)" by (rule emits_task_ids) simp
  have rest: "wp (do { ts \<leftarrow> task_ids k p;
      (case ts of None \<Rightarrow> return_io () | Some tids \<Rightarrow> io_for (\<lambda>_. True) (\<lambda>t _. do {
         hw_sched_setscheduler g k t SCHED_OTHER; hw_setpriority g k t 0 }) tids ());
      io_ok \<leftarrow> hw_ioprio_set g k p 2 4; return_io (b \<or> io_ok) }) (\<lambda>_. lowered k (C - {p}) (I - {p}) W) h'"
    if "lowered k (C - {p}) I W h'" for b h'
    by (rule wp_calm_then [OF tasks that], rule wp_calm_then [OF threads], assumption, rule io)
  show ?thesis
    using assms(2,3) rest [OF sched]
    by (simp add: restore_sched_normal_def policy_of_def hw_setpriority_def hw_sched_setscheduler_def sys_setpriority_def
        sys_setscheduler_def wp_simps)
qed

text \<open>In the sandbox neither half does anything.\<close>

lemma boxed_calm:
  assumes "gl_sandbox g"
  shows "emits calm_event (apply_sched_idle g k p)" "emits calm_event (restore_sched_normal g k p pol n)"
    "emits calm_event (apply_cgroup_cpu_quota g k p q per)" "emits calm_event (restore_cgroup_cpu_quota g k p)"
  using assms by (auto intro!: emits_actuators calm_reads)

lemma tabled_drop:
  assumes "\<not> gl_sandbox g" and "lowered k (idled g (t # ts) - (if tp_idle t then {tp_pid t} else {}))
    (idled g (t # ts) - (if tp_idle t then {tp_pid t} else {})) (quotas g k (t # ts) - (if tp_quota t then quota_files k (tp_pid t) else {})) h"
  shows "tabled g k ts h"
  unfolding tabled_def by (rule lowered_mono [OF assms(2)]) (use assms(1) in \<open>auto simp: idled_def quotas_def split: if_splits\<close>)

lemma wp_release_tabled:
  assumes "tabled g k (t # ts) h" and "1 < tp_pid t"
  shows "wp (release_one g k t u) (\<lambda>_. tabled g k ts) h"
proof (cases "gl_sandbox g")
  case True
  have quota: "emits calm_event (io_when (tp_quota t) (do { restore_cgroup_cpu_quota g k (tp_pid t); return_io () }))"
    and idle: "emits calm_event (io_when (tp_idle t) (do { restore_sched_normal g k (tp_pid t) 0 0; return_io () }))"
    by (auto intro!: io_rules boxed_calm True)
  have none: "tabled g k ts' = lowered k {} {} {}" for ts' using True by (auto simp: fun_eq_iff tabled_def idled_def quotas_def)
  have log: "wp (log_event (EvRollback (tp_pid t))) (\<lambda>_. lowered k {} {} {}) h'" if "lowered k {} {} {} h'" for h'
    using that by (simp add: log_event_def wp_syscall lowered_def)
  show ?thesis
    unfolding release_one_def none
    by (rule wp_calm_then [OF quota], rule assms(1) [unfolded none], rule wp_calm_then [OF idle], assumption, rule log)
next
  case False
  let ?C = "idled g (t # ts)" and ?W = "quotas g k (t # ts)"
  have quota: "wp (io_when (tp_quota t) (do { restore_cgroup_cpu_quota g k (tp_pid t); return_io () }))
      (\<lambda>_. lowered k ?C ?C (?W - (if tp_quota t then quota_files k (tp_pid t) else {}))) h"
  proof (cases "tp_quota t")
    case True
    have "wp (do { restore_cgroup_cpu_quota g k (tp_pid t); return_io () })
        (\<lambda>_. lowered k ?C ?C (?W - quota_files k (tp_pid t))) h"
      by (rule wp_then [OF wp_unquota [OF assms(1) [unfolded tabled_def] False assms(2)]]) (simp add: wp_return)
    with True show ?thesis by (simp add: wp_when)
  qed (use assms(1) in \<open>simp add: wp_when tabled_def\<close>)
  have idle: "wp (io_when (tp_idle t) (do { restore_sched_normal g k (tp_pid t) 0 0; return_io () }))
      (\<lambda>_. lowered k (?C - (if tp_idle t then {tp_pid t} else {})) (?C - (if tp_idle t then {tp_pid t} else {})) W) h'"
    if "lowered k ?C ?C W h'" for W h'
  proof (cases "tp_idle t")
    case True
    have "wp (do { restore_sched_normal g k (tp_pid t) 0 0; return_io () }) (\<lambda>_. lowered k (?C - {tp_pid t}) (?C - {tp_pid t}) W) h'"
      by (rule wp_then [OF wp_unidle [OF that False assms(2)]]) (simp add: wp_return)
    with True show ?thesis by (simp add: wp_when)
  qed (use that in \<open>simp add: wp_when\<close>)
  have log: "lowered k C I W h' \<Longrightarrow> lowered k C I W (EvRollback (tp_pid t) # h')" for C I W h'
    by (simp add: lowered_def)
  show ?thesis
    unfolding release_one_def
    by (rule wp_then [OF quota], rule wp_then [OF idle], assumption)
      (auto simp: log_event_def wp_syscall intro!: tabled_drop [OF False] log)
qed

lemma wp_release_tables:
  "tabled g k ts h \<Longrightarrow> list_all (\<lambda>t. 1 < tp_pid t) ts \<Longrightarrow> wp (io_for (\<lambda>_. True) (release_one g k) ts ()) (\<lambda>_. tabled g k []) h"
proof (induction ts arbitrary: h)
  case (Cons t ts)
  then show ?case by (auto simp: wp_bind intro: wp_mono [OF wp_release_tabled])
qed (simp add: wp_return)

lemma wp_release_all:
  assumes "table_inv g k (gd_throttled s) h"
    and "\<And>h'. table_inv g k (fv_clear (gd_throttled s)) h' \<Longrightarrow> Q (s\<lparr>gd_throttled := fv_clear (gd_throttled s)\<rparr>) h'"
  shows "wp (release_all g k s) Q h"
  unfolding release_all_def wp_bind
  by (rule wp_mono [OF wp_both [OF wp_release_loop wp_release_tables]])
    (use assms in \<open>auto simp: table_inv_def ledger_def held_is_def wp_return fv_clear_def fv_simps\<close>)

lemma pushed_items: "fv_size ts < MAX_THROTTLED \<Longrightarrow> fv_items (snd (fv_push_back MAX_THROTTLED t ts)) = fv_items ts @ [t]"
  by (simp add: fv_push_back_def fv_simps Let_def)

lemma wp_throttle_ledger:
  assumes "ledger ts h" and "fv_size ts < MAX_THROTTLED"
  shows "wp (throttle_one g k p pr ts) ledger h"
proof -
  have push: "ledger (snd (fv_push_back MAX_THROTTLED \<lparr>tp_pid = pp_pid pr, tp_quota = q, tp_idle = i\<rparr> ts))
      (EvMitigation (pp_pid pr) c ''MemoryPressureThrottle'' # h')"
    if "ledger ts h'" "pp_pid pr \<notin> tp_pid ` set (fv_items ts)" "is_throttle_candidate pr p" for q i c h'
    using that assms(2)
    by (auto simp: ledger_def is_throttle_candidate_def fv_push_back_def fv_simps Let_def split: if_splits)
  show ?thesis
    unfolding throttle_one_def
    using assms(1)
    by (auto simp: wp_return intro!: wp_then [OF wp_background_ledger [OF emits_background_files(1)]]
        wp_then [OF wp_background_ledger [OF emits_background_files(3)]])
      (auto simp: wp_simps log_event_def intro!: push)
qed

lemma tabled_snoc:
  assumes "\<not> gl_sandbox g" and "lowered k (idled g ts \<union> (if i then {p} else {})) (idled g ts \<union> (if i then {p} else {}))
    (quotas g k ts \<union> (if q then quota_files k p else {})) h"
  shows "tabled g k (ts @ [\<lparr>tp_pid = p, tp_quota = q, tp_idle = i\<rparr>]) h"
proof -
  have "idled g ts \<union> (if i then {p} else {}) = idled g (ts @ [\<lparr>tp_pid = p, tp_quota = q, tp_idle = i\<rparr>])"
    using assms(1) by (simp add: idled_def)
  moreover have "quotas g k ts \<union> (if q then quota_files k p else {}) = quotas g k (ts @ [\<lparr>tp_pid = p, tp_quota = q, tp_idle = i\<rparr>])"
    using assms(1) by (simp add: quotas_def Un_commute)
  ultimately show ?thesis using assms(2) by (simp add: tabled_def)
qed

lemma wp_throttle_tabled:
  assumes "tabled g k (fv_items ts) h" and "fv_size ts < MAX_THROTTLED"
  shows "wp (throttle_one g k p pr ts) (\<lambda>ts. tabled g k (fv_items ts)) h"
proof -
  define enter where "enter q i = do {
      log_event (EvMitigation (pp_pid pr) (pp_comm pr) ''MemoryPressureThrottle'');
      return_io (snd (fv_push_back MAX_THROTTLED \<lparr>tp_pid = pp_pid pr, tp_quota = q, tp_idle = i\<rparr> ts)) }" for q i
  let ?file = "\<lambda>q. if q then quota_files k (pp_pid pr) else {}" and ?pid = "\<lambda>i. if i then {pp_pid pr} else {}"
  let ?C = "idled g (fv_items ts)" and ?W = "quotas g k (fv_items ts)"
  have log: "lowered k C I W h' \<Longrightarrow> lowered k C I W (EvMitigation q c a # h')" for C I W q c a h'
    by (simp add: lowered_def)
  have enter: "wp (enter q i) (\<lambda>ts. tabled g k (fv_items ts)) h'"
    if "tabled g k (fv_items ts @ [\<lparr>tp_pid = pp_pid pr, tp_quota = q, tp_idle = i\<rparr>]) h'" for q i h'
    using that log unfolding enter_def log_event_def wp_bind wp_syscall wp_return pushed_items [OF assms(2)] tabled_def by blast
  have none: "tabled g k ts' = lowered k {} {} {}" if "gl_sandbox g" for ts'
    using that by (auto simp: fun_eq_iff tabled_def idled_def quotas_def)
  have boxed: "wp (if \<not> q \<and> \<not> i then return_io ts else enter q i) (\<lambda>ts. tabled g k (fv_items ts)) h'"
    if "gl_sandbox g" "lowered k {} {} {} h'" for q i h'
    by (rule wp_ifI, simp add: wp_return none [OF that(1)] that(2), rule enter, simp add: none [OF that(1)] that(2))
  have free: "wp (if \<not> q \<and> \<not> i then return_io ts else enter q i) (\<lambda>ts. tabled g k (fv_items ts)) h'"
    if "\<not> gl_sandbox g" "lowered k (?C \<union> ?pid i) (?C \<union> ?pid i) (?W \<union> ?file q) h'" for q i h'
    by (rule wp_ifI, use that(2) in \<open>simp add: wp_return tabled_def\<close>, rule enter, rule tabled_snoc [OF that])
  have "wp (apply_cgroup_cpu_quota g k (pp_pid pr) THROTTLE_QUOTA_US THROTTLE_PERIOD_US \<bind> (\<lambda>q.
      apply_sched_idle g k (pp_pid pr) \<bind> (\<lambda>i. if \<not> q \<and> \<not> i then return_io ts else enter q i))) (\<lambda>ts. tabled g k (fv_items ts)) h"
  proof (cases "gl_sandbox g")
    case True
    then have "lowered k {} {} {} h" using assms(1) by (simp add: tabled_def idled_def quotas_def)
    then show ?thesis
      by - (rule wp_calm_then [OF boxed_calm(3) [OF True]], assumption, rule wp_calm_then [OF boxed_calm(1) [OF True]],
        assumption, rule boxed [OF True])
  next
    case False
    show ?thesis
      by (rule wp_then [OF wp_quota [OF assms(1) [unfolded tabled_def] False]], rule wp_then [OF wp_idle [OF _ False]], assumption)
        (rule free [OF False])
  qed
  then show ?thesis
    using assms(1) unfolding throttle_one_def enter_def by - (intro wp_ifI, simp_all only: wp_return)
qed

lemma wp_throttle_one:
  "table_inv g k ts h \<Longrightarrow> fv_size ts < MAX_THROTTLED \<Longrightarrow> wp (throttle_one g k p pr ts) (table_inv g k) h"
  using wp_both [OF wp_throttle_ledger wp_throttle_tabled] unfolding table_inv_def ledger_def by blast

lemma wp_actuate_throttle:
  assumes "table_inv g k (gd_throttled s) h" and "\<And>ts h'. table_inv g k ts h' \<Longrightarrow> Q (s\<lparr>gd_throttled := ts\<rparr>) h'"
  shows "wp (actuate_throttle g k r p s) Q h"
  unfolding actuate_throttle_def wp_bind
  by (rule wp_mono [OF wp_for [where I = "table_inv g k"]]) (use assms wp_throttle_one in \<open>auto simp: wp_return\<close>)

section \<open>The ladder\<close>

text \<open>
  The rungs that leave the table and the tier alone, and what a computation made of background
  calls does with them: it keeps the table's invariant, and its result still has that table.
\<close>

definition same_table :: "guard \<Rightarrow> guard \<Rightarrow> bool" where
  "same_table s s' \<longleftrightarrow> gd_throttled s' = gd_throttled s \<and> gd_tier s' = gd_tier s"

abbreviation keeps_table :: "guard \<Rightarrow> guard io \<Rightarrow> bool" where
  "keeps_table s m \<equiv> io_ok calm_event m (same_table s)"

lemma wp_rung:
  assumes "io_ok calm_event m R" and "table_inv g k ts h"
    and "\<And>x h'. R x \<Longrightarrow> table_inv g k ts h' \<Longrightarrow> Q x h'"
  shows "wp m Q h"
proof -
  have "wp m (\<lambda>x h'. R x \<and> table_inv g k ts h') h"
    using assms(1,2) by (rule wp_emits) (rule background_keeps)
  then show ?thesis by (rule wp_mono) (use assms(3) in auto)
qed

lemma keeps_notify: "keeps_table s (guard_notify k l s)"
  unfolding guard_notify_def
  by (rule io_ok_bind_any [OF emits_background_engines(1)]) (auto simp: same_table_def)

lemma keeps_pageout: "keeps_table s (actuate_pageout k r p s)"
  unfolding actuate_pageout_def
  by (rule io_ok_bind_any [OF emits_background_engines(4)])
    (auto intro!: io_ok_bind_any [OF io_ok_when] io_ok_bind_any [OF emits_background_engines(5)]
      simp: same_table_def)

lemma keeps_reclaim: "keeps_table s (guard_reclaim g k l r p s)"
  unfolding guard_reclaim_def
  by (rule io_ok_bind [OF keeps_notify], rule io_ok_bind_any [OF emits_background_rungs(2)],
      rule io_ok_mono [OF keeps_pageout]) (auto simp: same_table_def)

lemma keeps_polls: "keeps_table s (guard_expander_polls g k nx sm s)"
  unfolding guard_expander_polls_def sys_now_real_def
  by (auto intro!: io_ok_bind_any [OF emits_background_expander(3)] io_ok_bind_any [OF emits_background_expander(6)]
      io_ok_bind_any [OF emits_syscall] io_ok_bind_any [OF emits_background_expander(5)] io_ok_return
      simp: same_table_def)

lemma keeps_engines:
  "io_ok calm_event (guard_engines g k r p nx sm s) (\<lambda>x. case x of None \<Rightarrow> True | Some s' \<Rightarrow> same_table s s')"
  unfolding guard_engines_def sys_now_steady_def
  by (auto intro!: io_ok_bind_any [OF emits_syscall] io_ok_bind_any [OF emits_background_engines(6)]
      io_ok_bind_any [OF emits_background_engines(7)] io_ok_return
      simp: same_table_def split: option.splits)

section \<open>The invariant of the guard\<close>

text \<open>
  The table says what the audit log says, and it is empty unless the pressure is at the throttle
  tier.  \<open>climbing\<close>: inside an evaluation, where the tier is the new one and the table is that of
  the previous one.
\<close>

definition guard_inv :: "globals \<Rightarrow> kernel \<Rightarrow> guard \<Rightarrow> history \<Rightarrow> bool" where
  "guard_inv g k s h \<longleftrightarrow> table_inv g k (gd_throttled s) h \<and>
     (fv_items (gd_throttled s) \<noteq> [] \<longrightarrow> gd_tier s = TierThrottle)"

definition climbing :: "globals \<Rightarrow> kernel \<Rightarrow> pressure_tier \<Rightarrow> pressure_tier \<Rightarrow> guard \<Rightarrow> history \<Rightarrow> bool" where
  "climbing g k previous nx s h \<longleftrightarrow> table_inv g k (gd_throttled s) h \<and> gd_tier s = nx \<and>
     (fv_items (gd_throttled s) \<noteq> [] \<longrightarrow> previous = TierThrottle)"

lemma fv_clear_items [simp]: "fv_items (fv_clear ts) = []"
  by (simp add: fv_clear_def fv_simps)

lemma wp_keeps:
  assumes "keeps_table s m" and "climbing g k p nx s h" and "\<And>s' h'. climbing g k p nx s' h' \<Longrightarrow> Q s' h'"
  shows "wp m Q h"
  by (rule wp_rung [OF assms(1)]) (use assms(2,3) in \<open>auto simp: climbing_def same_table_def\<close>)

lemma wp_keeps_bind:
  "keeps_table s m \<Longrightarrow> climbing g k p nx s h \<Longrightarrow> (\<And>s' h'. climbing g k p nx s' h' \<Longrightarrow> wp (f s') Q h') \<Longrightarrow>
   wp (m \<bind> f) Q h"
  unfolding wp_bind by (rule wp_keeps)

lemma wp_climbing_bind:
  "emits calm_event m \<Longrightarrow> climbing g k p nx s h \<Longrightarrow> (\<And>x h'. climbing g k p nx s h' \<Longrightarrow> wp (f x) Q h') \<Longrightarrow>
   wp (m \<bind> f) Q h"
  by (rule wp_background_bind) (auto simp: climbing_def)

lemma climbing_updates [simp]:
  "climbing g k p nx (s\<lparr>gd_expander := ex\<rparr>) h = climbing g k p nx s h"
  "climbing g k p nx (s\<lparr>gd_logged_exhausted := b\<rparr>) h = climbing g k p nx s h"
  by (simp_all add: climbing_def)

lemma wp_release:
  "climbing g k p nx s h \<Longrightarrow> (\<And>s' h'. climbing g k TierNormal nx s' h' \<Longrightarrow> Q s' h') \<Longrightarrow> wp (release_all g k s) Q h"
  by (rule wp_release_all) (auto simp: climbing_def)

lemma wp_release_if_bind:
  assumes "climbing g k p nx s h" and "\<not> b \<Longrightarrow> p \<noteq> TierThrottle"
    and "\<And>s' h'. climbing g k TierNormal nx s' h' \<Longrightarrow> wp (f s') Q h'"
  shows "wp ((if b then release_all g k s else return_io s) \<bind> f) Q h"
  using assms unfolding wp_bind wp_if wp_return
  by (auto intro!: wp_release simp: climbing_def)

text \<open>What an evaluation leaves behind.\<close>

abbreviation settled :: "globals \<Rightarrow> kernel \<Rightarrow> pressure_tier \<Rightarrow> guard \<Rightarrow> history \<Rightarrow> bool" where
  "settled g k nx s h \<equiv> guard_inv g k s h \<and> gd_tier s = nx"

lemma climbing_done:
  "climbing g k p nx s h \<Longrightarrow> p \<noteq> TierThrottle \<or> nx = TierThrottle \<Longrightarrow> settled g k nx s h"
  by (auto simp: climbing_def guard_inv_def)

lemma wp_throttle:
  assumes "climbing g k p TierThrottle s h"
  shows "wp (actuate_throttle g k r pid s) (settled g k TierThrottle) h"
  by (rule wp_actuate_throttle) (use assms in \<open>auto simp: climbing_def guard_inv_def\<close>)

lemma wp_trim:
  assumes "climbing g k p nx s h"
  shows "wp (guard_trim g k p sm s) (settled g k nx) h"
proof -
  have "wp (maybe_release g k t f ex \<bind> (\<lambda>ex. return_io (s'\<lparr>gd_expander := ex\<rparr>))) (settled g k nx) h'"
    if "climbing g k TierNormal nx s' h'" for t f ex s' h'
    by (rule wp_climbing_bind [OF emits_background_expander(4) that])
      (auto simp only: wp_return intro!: climbing_done [of _ _ TierNormal] climbing_updates [THEN iffD2])
  then show ?thesis
    unfolding guard_trim_def
    by (intro wp_keeps_bind [OF keeps_notify assms] wp_release_if_bind) auto
qed

lemma wp_performance:
  assumes "climbing g k p nx s h"
  shows "wp (performance_ladder g k r pid p nx sm s) (settled g k nx) h"
proof -
  have throttle: "wp (do { s \<leftarrow> guard_notify k LEVEL_CRITICAL s;
        io_when (\<not> gd_logged_exhausted s) (log_event (EvAlert ''SWAP''));
        actuate_throttle g k r pid (s\<lparr>gd_logged_exhausted := True\<rparr>) }) (settled g k TierThrottle) h"
    if "climbing g k p TierThrottle s h" for s h
    by (intro wp_keeps_bind [OF keeps_notify that] wp_climbing_bind [where m = "io_when _ _"] wp_throttle
        io_rules climbing_updates [THEN iffD2])
      (auto simp: log_event_def intro!: io_rules)
  have release: "wp (release_all g k (s\<lparr>gd_logged_exhausted := False\<rparr>)) (settled g k nx) h"
    if "climbing g k p nx s h" for s h
    by (rule wp_release [OF climbing_updates(2) [THEN iffD2, OF that]], rule climbing_done, assumption, simp)
  have rest: "wp (do { s \<leftarrow> guard_reclaim g k LEVEL_MODERATE r pid s;
        exhausted \<leftarrow> budget_exhausted k (gd_expander s);
        if nx = TierThrottle \<and> throttle_permitted Performance growing exhausted
        then do { s \<leftarrow> guard_notify k LEVEL_CRITICAL s;
          io_when (\<not> gd_logged_exhausted s) (log_event (EvAlert ''SWAP''));
          actuate_throttle g k r pid (s\<lparr>gd_logged_exhausted := True\<rparr>) }
        else release_all g k (s\<lparr>gd_logged_exhausted := False\<rparr>) }) (settled g k nx) h"
    if "climbing g k p nx s h" for s h growing
    by (rule wp_keeps_bind [OF keeps_reclaim that], rule wp_climbing_bind [OF emits_background_expander(7)], assumption)
      (auto intro: throttle release)
  show ?thesis
    unfolding performance_ladder_def Let_def
    by (rule wp_climbing_bind [OF emits_background_expander(2) assms])
      (auto intro!: wp_trim rest climbing_updates [THEN iffD2])
qed

lemma wp_ordinary:
  assumes "climbing g k p nx s h"
  shows "wp (ordinary_ladder g k r pid p nx sm s) (settled g k nx) h"
proof (cases nx)
  case TierNormal
  with assms show ?thesis by (simp add: ordinary_ladder_def wp_trim)
next
  case TierAdvisory
  have "wp (guard_reclaim g k LEVEL_MODERATE r pid s') (settled g k nx) h'" if "climbing g k TierNormal nx s' h'" for s' h'
    by (rule wp_keeps [OF keeps_reclaim that], rule climbing_done, assumption, simp)
  then show ?thesis
    unfolding ordinary_ladder_def TierAdvisory pressure_tier.case
    by (intro wp_release_if_bind [OF assms [unfolded TierAdvisory]]) auto
next
  case TierThrottle
  with assms show ?thesis
    unfolding ordinary_ladder_def TierThrottle pressure_tier.case
    by (auto intro!: wp_keeps_bind [OF keeps_reclaim] wp_climbing_bind [OF emits_background_expander(2)] wp_throttle
        climbing_updates [THEN iffD2])
qed

definition guard_left :: "globals \<Rightarrow> kernel \<Rightarrow> guard option \<Rightarrow> history \<Rightarrow> bool" where
  "guard_left g k x h \<longleftrightarrow> (case x of None \<Rightarrow> list_all peaceful h | Some s \<Rightarrow> guard_inv g k s h)"

lemma guard_left_simps [simp]:
  "guard_left g k None h = list_all peaceful h" "guard_left g k (Some s) h = guard_inv g k s h"
  by (simp_all add: guard_left_def)

lemma wp_act:
  assumes "guard_inv g k s h"
  shows "wp (guard_act g k r pid profile sm s) (guard_left g k) h"
proof -
  have engines: "wp (guard_engines g k r pid nx sm s') (guard_left g k) h'" if "settled g k nx s' h'" for nx s' h'
    by (rule wp_rung [OF keeps_engines, where ts = "gd_throttled s'"])
      (use that in \<open>auto simp: guard_inv_def same_table_def table_inv_def ledger_def split: option.splits\<close>)
  have ladder: "wp (if profile = Performance
      then do { s \<leftarrow> performance_ladder g k r pid p nx sm s'; return_io (Some s) }
      else do { s \<leftarrow> ordinary_ladder g k r pid p nx sm s'; guard_engines g k r pid nx sm s }) (guard_left g k) h'"
    if "climbing g k p nx s' h'" for p nx s' h'
    unfolding wp_if wp_bind
    by (auto intro!: wp_mono [OF wp_performance [OF that]] wp_mono [OF wp_ordinary [OF that]] engines simp: wp_return)
  have "emits calm_event (io_when b (log_event (EvAlert ''MEMORY'')))" for b
    by (simp add: log_event_def io_rules)
  moreover have "climbing g k (gd_tier s) nx (s\<lparr>gd_last := sm, gd_tier := nx, gd_suspend_swap_feed := b\<rparr>) h" for nx b
    using assms by (auto simp: climbing_def guard_inv_def)
  ultimately show ?thesis
    unfolding guard_act_def Let_def
    by (rule wp_climbing_bind) (rule wp_keeps_bind [OF keeps_polls], assumption, rule ladder)
qed

lemma wp_guard_evaluate:
  assumes "guard_inv g k s h"
  shows "wp (guard_evaluate g k r pid profile s) (guard_left g k) h"
  unfolding guard_evaluate_def
proof (rule wp_background_bind [OF emits_background_rungs(1)])
  show "table_inv g k (gd_throttled s) h" using assms by (simp add: guard_inv_def)
  fix x h'
  assume "table_inv g k (gd_throttled s) h'"
  with assms have "guard_inv g k s h'" by (simp add: guard_inv_def)
  then show "wp (case x of None \<Rightarrow> return_io (Some s) | Some sm \<Rightarrow> guard_act g k r pid profile sm s) (guard_left g k) h'"
    by (auto simp: wp_return intro!: wp_act split: option.splits)
qed

text \<open>Shutdown: nothing is held afterwards.\<close>

lemma wp_shutdown:
  assumes "guard_inv g k s h"
  shows "wp (guard_shutdown g k s) (\<lambda>s' h'. guard_inv g k s' h' \<and> fv_items (gd_throttled s') = []) h"
proof -
  have "climbing g k (gd_tier s) (gd_tier s) s h"
    using assms by (auto simp: climbing_def guard_inv_def)
  moreover have "wp (do {
      nt \<leftarrow> notifier_shutdown k (gd_notifier s');
      io_when (gd_psi_fd s') (sys_close_fd ''/proc/pressure/memory'');
      io_when (gd_meminfo_fd s') (sys_close_fd ''/proc/meminfo'');
      return_io (s'\<lparr>gd_notifier := nt, gd_psi_fd := False, gd_meminfo_fd := False\<rparr>) })
      (\<lambda>s' h'. guard_inv g k s' h' \<and> fv_items (gd_throttled s') = []) h'"
    if "climbing g k TierNormal (gd_tier s) s' h'" for s' h'
    by (intro wp_climbing_bind [OF _ that] wp_climbing_bind [where m = "io_when _ _"] emits_background_engines io_rules)
      (auto simp: sys_close_fd_def wp_return climbing_def guard_inv_def intro!: io_rules)
  ultimately show ?thesis
    unfolding guard_shutdown_def wp_bind by (rule wp_release)
qed

section \<open>Any sequence of calls\<close>

datatype guard_call = GuardInitialize | GuardEvaluate report pid power_profile | GuardShutdown

text \<open>After undefined behaviour (\<open>None\<close>) nothing more is said of the guard.\<close>

definition guard_step :: "globals \<Rightarrow> kernel \<Rightarrow> guard_call \<Rightarrow> guard option \<Rightarrow> guard option io" where
  "guard_step g k call x = (case x of None \<Rightarrow> return_io None
     | Some s \<Rightarrow> (case call of
         GuardInitialize \<Rightarrow> do { (_, s) \<leftarrow> guard_initialize g k s; return_io (Some s) }
       | GuardEvaluate r pid profile \<Rightarrow> guard_evaluate g k r pid profile s
       | GuardShutdown \<Rightarrow> do { s \<leftarrow> guard_shutdown g k s; return_io (Some s) }))"

definition guard_run :: "globals \<Rightarrow> kernel \<Rightarrow> guard_call list \<Rightarrow> guard option io" where
  "guard_run g k calls = io_for (\<lambda>_. True) (guard_step g k) calls (Some guard_init)"

lemma keeps_initialize: "io_ok calm_event (guard_initialize g k s) (\<lambda>(_, s'). same_table s s')"
proof -
  have fd: "emits calm_event (if b then return_io True else sys_open_fd k p)" for b p
    by (auto simp: sys_open_fd_def intro!: io_rules)
  have "emits calm_event (arm_psi k)"
    unfolding arm_psi_def try_trigger_def sys_open_fd_def sys_write_def sys_close_fd_def
    by (auto intro!: io_rules background_write)
  then have psi: "emits calm_event (if b then return_io True else arm_psi k)" for b
    by (auto intro!: io_rules)
  show ?thesis
    unfolding guard_initialize_def Let_def
    by (auto intro!: io_ok_bind_any [OF fd] io_ok_if io_ok_bind_any [OF emits_background_expander(1)]
        io_ok_bind_any [OF emits_background_engines(2)] io_ok_bind_any [OF emits_background_engines(4)]
        io_ok_bind_any [OF psi] simp: same_table_def simp del: if_split split del: if_split)
qed

lemma guard_step_inv:
  assumes "guard_left g k x h"
  shows "wp (guard_step g k call x) (guard_left g k) h"
proof (cases x)
  case (Some s)
  with assms have inv: "guard_inv g k s h" by simp
  show ?thesis
  proof (cases call)
    case GuardInitialize
    have "wp (guard_initialize g k s) (\<lambda>(_, s'). guard_inv g k s') h"
      by (rule wp_rung [OF keeps_initialize, where ts = "gd_throttled s"])
        (use inv in \<open>auto simp: guard_inv_def same_table_def\<close>)
    then show ?thesis
      unfolding Some GuardInitialize guard_step_def option.case guard_call.case wp_bind
      by (rule wp_mono) (auto simp: wp_return)
  next
    case GuardEvaluate
    then show ?thesis using Some wp_guard_evaluate [OF inv] by (simp add: guard_step_def)
  next
    case GuardShutdown
    then show ?thesis
      using Some by (auto simp: guard_step_def wp_bind wp_return intro: wp_mono [OF wp_shutdown [OF inv]])
  qed
qed (use assms in \<open>simp add: guard_step_def wp_return\<close>)

interpretation pressure_guard: io_machine "guard_step g k" "guard_left g k" for g k
  by unfold_locales (rule guard_step_inv)

lemma guard_run_inv: "wp (guard_run g k calls) (guard_left g k) []"
  unfolding guard_run_def
  by (rule pressure_guard.run_inv) (simp add: guard_inv_def table_inv_def ledger_def tabled_def lowered_def guard_init_def fv_new_def fv_simps)

section \<open>Whom a throttle may hit\<close>

definition throttles_only :: "report \<Rightarrow> pid \<Rightarrow> event \<Rightarrow> bool" where
  "throttles_only r protected_pid e = (case e of
     EvMitigation p c a \<Rightarrow> a \<noteq> ''MemoryPressureThrottle'' \<or>
       (\<exists>pr \<in> set (top_list r). pp_pid pr = p \<and> pp_comm pr = c \<and> is_throttle_candidate pr protected_pid)
   | _ \<Rightarrow> True)"

lemma throttles_only_background: "background_event e \<Longrightarrow> throttles_only r p e"
  by (cases e) (auto simp: throttles_only_def background_defs)

lemma emits_throttles_only:
  "emits background_event m \<Longrightarrow> emits (throttles_only r p) m" "emits calm_event m \<Longrightarrow> emits (throttles_only r p) m"
  by (auto elim!: io_ok_mono intro: throttles_only_background calm_background)

lemma release_throttles_only: "emits (throttles_only r p) (release_all g k s)"
  unfolding release_all_def release_one_def log_event_def
  by (auto intro!: io_rules emits_background_files [THEN emits_throttles_only(1)] simp: throttles_only_def)

lemma actuate_throttles_only: "emits (throttles_only r p) (actuate_throttle g k r p s)"
proof -
  have "emits (throttles_only r p) (throttle_one g k p pr ts)" if "pr \<in> set (top_list r)" for pr ts
    unfolding throttle_one_def log_event_def using that
    by (auto intro!: io_rules emits_background_files [THEN emits_throttles_only(1)] simp: throttles_only_def)
  then show ?thesis unfolding actuate_throttle_def by (auto intro!: io_rules)
qed

lemma evaluate_throttles_only: "emits (throttles_only r p) (guard_evaluate g k r p profile s)"
proof -
  note bg = emits_throttles_only(2) [OF emits_background_expander(4)] emits_throttles_only(2) [OF emits_background_expander(2)]
    emits_throttles_only(2) [OF emits_background_expander(7)] emits_background_rungs [THEN emits_throttles_only(2)]
  have trim: "emits (throttles_only r p) (guard_trim g k pv sm s)" for pv sm s
    unfolding guard_trim_def by (auto intro!: io_rules bg release_throttles_only)
  have "emits (throttles_only r p) (performance_ladder g k r p pv nx sm s)" for pv nx sm s
    unfolding performance_ladder_def Let_def log_event_def
    by (auto intro!: io_rules bg trim release_throttles_only actuate_throttles_only simp: throttles_only_def)
  moreover have "emits (throttles_only r p) (ordinary_ladder g k r p pv nx sm s)" for pv nx sm s
    unfolding ordinary_ladder_def
    by (auto intro!: io_rules bg trim release_throttles_only actuate_throttles_only split: pressure_tier.splits)
  ultimately have "emits (throttles_only r p) (guard_act g k r p profile sm s)" for sm s
    unfolding guard_act_def Let_def log_event_def by (auto intro!: io_rules bg simp: throttles_only_def)
  then show ?thesis
    unfolding guard_evaluate_def by (auto intro!: io_rules bg)
qed

section \<open>Properties\<close>

text \<open>C9. Whatever the kernel answers and in whatever order the daemon initialises, evaluates and
  shuts down, the guard's table lists exactly the processes that the audit log shows as throttled
  and not yet released, each once and at most sixteen of them; and no process is held unless the
  last classification was the throttle tier.
\<close>

theorem guard_throttle_ledger:
  "case run_state (guard_run g k calls) [] of (None, h) \<Rightarrow> True
   | (Some s, h) \<Rightarrow> held h = rev (map tp_pid (fv_items (gd_throttled s))) \<and> distinct (held h) \<and>
       length (held h) \<le> 16 \<and> (gd_tier s = TierThrottle \<or> held h = [])"
  using guard_run_inv [of g k calls]
  by (auto simp: wp_def guard_inv_def table_inv_def ledger_def fv_simps split: prod.splits option.splits)

lemma tabled_empty: "tabled g k [] h \<longleftrightarrow> (\<forall>p. \<not> cpu_low h p \<and> \<not> io_low h p) \<and> (steady_cgroups k \<longrightarrow> (\<forall>f. \<not> capped h f))"
  by (auto simp: tabled_def lowered_def idled_def quotas_def)

lemma shutdown_left:
  assumes "guard_inv g k s h" and "fv_items (gd_throttled s) = []"
  shows "held h = []" and "\<not> cpu_low h p" and "\<not> io_low h p" and "steady_cgroups k \<Longrightarrow> \<not> capped h f"
  using assms by (simp_all add: guard_inv_def table_inv_def ledger_def tabled_empty)

text \<open>C10. Shutting down gives every throttle back: after any sequence of calls that ends with the
  shutdown, the audit log shows no process as still held and the table is empty; on the system, every
  process that a throttle put into the idle class has since been told to return to the ordinary one, and
  every process that it put into the idle I/O class to the ordinary one; and if no process changes its
  cgroup and the \<open>cpu.max\<close> files can be opened, every file that got a quota has since been written \<open>max\<close>.
\<close>

theorem guard_shutdown_releases:
  "case run_state (guard_run g k (calls @ [GuardShutdown])) [] of (None, h) \<Rightarrow> True
   | (Some s, h) \<Rightarrow> held h = [] \<and> fv_items (gd_throttled s) = [] \<and>
       (\<forall>p. \<not> cpu_low h p \<and> \<not> io_low h p) \<and> (steady_cgroups k \<longrightarrow> (\<forall>f. \<not> capped h f))"
proof -
  have "wp (guard_step g k GuardShutdown x)
      (\<lambda>x h. case x of None \<Rightarrow> True | Some s \<Rightarrow> guard_inv g k s h \<and> fv_items (gd_throttled s) = []) h"
    if "guard_left g k x h" for x h
    using that by (cases x) (auto simp: guard_step_def wp_return wp_bind intro: wp_mono [OF wp_shutdown])
  then have "wp (guard_run g k (calls @ [GuardShutdown]))
      (\<lambda>x h. case x of None \<Rightarrow> True | Some s \<Rightarrow> guard_inv g k s h \<and> fv_items (gd_throttled s) = []) []"
    using guard_run_inv [of g k calls] by (auto simp: guard_run_def io_for_snoc wp_bind elim: wp_mono)
  then show ?thesis
    using shutdown_left by (fastforce simp: wp_def split: prod.splits option.splits)
qed

text \<open>A machine short of memory and swap, on which every process lives in one cgroup and every call succeeds.\<close>

definition pressed_kernel :: kernel where
  "pressed_kernel = quiet_kernel\<lparr>
     k_read_file := (\<lambda>_ p _. if ends_with p ''/cgroup'' then Some (''0::/app'' @ [NL])
       else if p = ''/proc/meminfo'' then Some (''MemTotal: 1000000 kB'' @ [NL] @ ''MemAvailable: 900 kB'' @ [NL]
         @ ''SwapTotal: 900000 kB'' @ [NL] @ ''SwapFree: 900 kB'' @ [NL]) else None),
     k_open_write := (\<lambda>_ _. True), k_write := (\<lambda>_ _ d. int (length d)),
     k_setscheduler := (\<lambda>_ _ _. True), k_ioprio_set := (\<lambda>_ _ _ _. True)\<rparr>"

definition hungry_report :: report where
  "hungry_report = report_of [example_proc 700 ''cc1plus'' BackgroundWorker 900000, example_proc 701 ''ld'' BackgroundWorker 900000]"

lemma pressed_steady: "steady_cgroups pressed_kernel"
proof -
  have line: "find_cgroup_line n (''0::/app'' @ [NL]) = cgroup_line_path n (''/app'' @ [NL])" for n
    by (subst find_cgroup_line.simps) (simp add: starts_with_def)
  have path: "cgroup_line_path 256 (''/app'' @ [NL]) = Some ''/sys/fs/cgroup/app''"
    by (simp add: cgroup_line_path_def Let_def)
  have cg: "ends_with (proc_path p ''cgroup'') ''/cgroup''" for p
    using ends_with_append [of "''/proc/'' @ show_int p" "''/cgroup''"] by (simp add: proc_path_def)
  have "fst (run_state (resolve_cgroup_path pressed_kernel p 256) h) = Some ''/sys/fs/cgroup/app''" if "1 < p" for p h
    using that line path cg
    by (simp add: resolve_cgroup_path_def read_small_file_def pressed_kernel_def sys_defs)
  then show ?thesis by (simp add: steady_cgroups_def cgroup_of_def pressed_kernel_def)
qed

theorem guard_shutdown_releases_witness:
  "case run_state (guard_run quiet_globals pressed_kernel [GuardInitialize, GuardEvaluate hungry_report 0 Balanced, GuardShutdown]) []
   of (None, h) \<Rightarrow> True
   | (Some s, h) \<Rightarrow> held h = [] \<and> (\<forall>p. \<not> cpu_low h p \<and> \<not> io_low h p) \<and> (\<forall>f. \<not> capped h f)"
  using guard_shutdown_releases [where g = quiet_globals and k = pressed_kernel and calls = "[GuardInitialize, GuardEvaluate hungry_report 0 Balanced]"]
    pressed_steady
  by (auto split: prod.splits option.splits)

text \<open>The guard is peaceful: no sequence of calls, whatever the kernel answers, sends a signal,
  runs a shell or another program in the daemon, or freezes a cgroup.
\<close>

theorem guard_peaceful: "list_all peaceful (snd (run_state (guard_run g k calls) []))"
  using guard_run_inv [of g k calls]
  by (auto simp: wp_def guard_inv_def table_inv_def ledger_def guard_left_def split: prod.splits option.splits)

text \<open>An evaluation throttles only processes of its report that are candidates: never process 1,
  the protected foreground process, a process smaller than 256 MiB, or one of the critical, desktop
  core and shell tiers.
\<close>

theorem guard_throttles_candidates: "emits (throttles_only r protected_pid) (guard_evaluate g k r protected_pid profile s)"
  by (rule evaluate_throttles_only)

end
