(* ===== verification/Disk_Guard.thy ===== *)
theory Disk_Guard
  imports Machines "HOL-Library.Sublist"
begin

text \<open>
  The disk pressure guard (\<^verbatim>\<open>src/policy/disk_pressure_guard.cpp\<close>): when the root file system is
  nine tenths full it deletes archived journals and old core dumps, then package caches, then old
  temporary files, within a budget per pass and with a cooldown between passes.
\<close>

section \<open>State\<close>

record disk_sample =
  ds_total_bytes :: u64
  ds_avail_bytes :: u64
  ds_used_bytes :: u64
  ds_used_pct :: float64
  ds_satisfied :: bool

definition disk_sample_init :: disk_sample where
  "disk_sample_init = \<lparr>ds_total_bytes = 0, ds_avail_bytes = 0, ds_used_bytes = 0, ds_used_pct = Fin 0,
     ds_satisfied = False\<rparr>"

record disk_guard =
  dg_last_sample :: u64
  dg_last_reclaim :: u64
  dg_total_reclaimed :: u64
  dg_events :: u32

definition disk_guard_init :: disk_guard where
  "disk_guard_init = \<lparr>dg_last_sample = 0, dg_last_reclaim = 0, dg_total_reclaimed = 0, dg_events = 0\<rparr>"

definition DISK_PRESSURE_THRESHOLD_PCT :: float64 where "DISK_PRESSURE_THRESHOLD_PCT = Fin 90"
definition DISK_RELEASE_THRESHOLD_PCT :: float64 where "DISK_RELEASE_THRESHOLD_PCT = Fin 88"
definition DISK_COOLDOWN_SEC :: u64 where "DISK_COOLDOWN_SEC = 300"
definition MAX_BATCH_RECLAIM_BYTES :: u64 where "MAX_BATCH_RECLAIM_BYTES = 512 * 1024 * 1024"
definition TMP_FILE_MAX_AGE_SEC :: u64 where "TMP_FILE_MAX_AGE_SEC = 7 * 86400"

definition disk_reset_metrics :: "disk_guard \<Rightarrow> disk_guard" where
  "disk_reset_metrics s = s\<lparr>dg_last_sample := 0, dg_last_reclaim := 0, dg_total_reclaimed := 0, dg_events := 0\<rparr>"

definition disk_cooldown_expired :: "u64 \<Rightarrow> disk_guard \<Rightarrow> bool" where
  "disk_cooldown_expired now_sec s =
     (if dg_last_reclaim s = 0 then True else dg_last_reclaim s + DISK_COOLDOWN_SEC \<le> now_sec)"

section \<open>Sampling\<close>

definition disk_sample_of :: "statvfs_t \<Rightarrow> disk_sample" where
  "disk_sample_of st =
     (let tot = f_blocks st * f_frsize st;
          avail = f_bavail st * f_frsize st;
          used = (if avail < tot then tot - avail else 0);
          pct = (if 0 < tot then fp_mul Binary64 (fp_div Binary64 (fp_of_u64 Binary64 used) (fp_of_u64 Binary64 tot)) (Fin 100)
                 else Fin 0)
      in \<lparr>ds_total_bytes = tot, ds_avail_bytes = avail, ds_used_bytes = used, ds_used_pct = pct,
          ds_satisfied = fp_ge pct DISK_PRESSURE_THRESHOLD_PCT\<rparr>)"

definition sample_storage :: "kernel \<Rightarrow> string \<Rightarrow> disk_sample io" where
  "sample_storage k mount_path = do {
     st \<leftarrow> sys_statvfs k mount_path;
     return_io (case st of None \<Rightarrow> disk_sample_init | Some st \<Rightarrow> disk_sample_of st)
   }"

section \<open>Sweeping a directory\<close>

definition is_hidden :: "string \<Rightarrow> bool" where
  "is_hidden name \<longleftrightarrow> name \<noteq> [] \<and> hd name = CHR ''.''"

definition unlink_counted :: "kernel \<Rightarrow> string \<Rightarrow> stat_t \<Rightarrow> u64 \<Rightarrow> u64 io" where
  "unlink_counted k p st reclaimed = do {
     ok \<leftarrow> sys_unlink k p;
     return_io (if ok then reclaimed + word_of_int (st_size st) else reclaimed)
   }"

text \<open>Delete a regular file whose status satisfies \<open>old\<close>; otherwise leave it.\<close>

definition sweep_file :: "kernel \<Rightarrow> string \<Rightarrow> (stat_t \<Rightarrow> bool) \<Rightarrow> u64 \<Rightarrow> u64 io" where
  "sweep_file k p old reclaimed = do {
     st \<leftarrow> sys_lstat k p;
     case st of None \<Rightarrow> return_io reclaimed
     | Some st \<Rightarrow> (if st_kind st = Regular \<and> old st then unlink_counted k p st reclaimed else return_io reclaimed)
   }"

text \<open>Visit the entries of a directory while the budget lasts.\<close>

definition sweep_entries :: "kernel \<Rightarrow> string \<Rightarrow> u64 \<Rightarrow> (string \<Rightarrow> u64 \<Rightarrow> u64 io) \<Rightarrow> u64 \<Rightarrow> u64 io" where
  "sweep_entries k dir budget f reclaimed = do {
     names \<leftarrow> sys_opendir k dir;
     case names of None \<Rightarrow> return_io reclaimed
     | Some names \<Rightarrow> io_for (\<lambda>reclaimed. reclaimed < budget)
         (\<lambda>name reclaimed. if is_hidden name then return_io reclaimed else f name reclaimed) names reclaimed
   }"

section \<open>Journals and core dumps\<close>

definition JOURNAL_DIR :: string where "JOURNAL_DIR = ''/var/log/journal''"
definition COREDUMP_DIR :: string where "COREDUMP_DIR = ''/var/lib/systemd/coredump''"

definition sweep_sub_journal :: "kernel \<Rightarrow> string \<Rightarrow> string \<Rightarrow> u64 \<Rightarrow> u64 io" where
  "sweep_sub_journal k dir name reclaimed =
     (let p = dir @ ''/'' @ name in
      if ends_with p ''.journal~'' then sweep_file k p (\<lambda>_. True) reclaimed else return_io reclaimed)"

definition sweep_journal_entry :: "kernel \<Rightarrow> string \<Rightarrow> u64 \<Rightarrow> string \<Rightarrow> u64 \<Rightarrow> u64 io" where
  "sweep_journal_entry k base budget name reclaimed =
     (let p = base @ ''/'' @ name in
      do {
        st \<leftarrow> sys_lstat k p;
        case st of None \<Rightarrow> return_io reclaimed
        | Some st \<Rightarrow>
            (if st_kind st = Directory then sweep_entries k p budget (sweep_sub_journal k p) reclaimed
             else if st_kind st = Regular \<and> ends_with p ''.journal~'' then unlink_counted k p st reclaimed
             else return_io reclaimed)
      })"

definition old_coredump :: "int \<Rightarrow> stat_t \<Rightarrow> bool" where
  "old_coredump now_sys st \<longleftrightarrow> st_mtime st < now_sys \<and> 3 * 86400 \<le> now_sys - st_mtime st"

definition sweep_journal_and_dumps :: "kernel \<Rightarrow> u64 \<Rightarrow> u64 io" where
  "sweep_journal_and_dumps k budget =
     (if budget = 0 then return_io 0
      else do {
        reclaimed \<leftarrow> sweep_entries k JOURNAL_DIR budget (sweep_journal_entry k JOURNAL_DIR budget) 0;
        if reclaimed < budget
        then do {
          names \<leftarrow> sys_opendir k COREDUMP_DIR;
          case names of None \<Rightarrow> return_io reclaimed
          | Some names \<Rightarrow> do {
              now_sys \<leftarrow> sys_now_real k;
              io_for (\<lambda>reclaimed. reclaimed < budget)
                (\<lambda>name reclaimed. if is_hidden name then return_io reclaimed
                   else sweep_file k (COREDUMP_DIR @ ''/'' @ name) (old_coredump (sint now_sys)) reclaimed)
                names reclaimed
            }
        }
        else return_io reclaimed
      })"

section \<open>Package caches and temporary files\<close>

definition sweep_cache_entry :: "kernel \<Rightarrow> string \<Rightarrow> string \<Rightarrow> string \<Rightarrow> u64 \<Rightarrow> u64 io" where
  "sweep_cache_entry k dir ext name reclaimed =
     (if name = ''lock'' \<or> name = ''partial'' then return_io reclaimed
      else let p = dir @ ''/'' @ name in
        if ends_with p ext then sweep_file k p (\<lambda>_. True) reclaimed else return_io reclaimed)"

definition APT_DIR :: string where "APT_DIR = ''/var/cache/apt/archives''"
definition PACMAN_DIR :: string where "PACMAN_DIR = ''/var/cache/pacman/pkg''"

definition sweep_package_caches :: "kernel \<Rightarrow> u64 \<Rightarrow> u64 io" where
  "sweep_package_caches k budget =
     (if budget = 0 then return_io 0
      else do {
        reclaimed \<leftarrow> sweep_entries k APT_DIR budget (sweep_cache_entry k APT_DIR ''.deb'') 0;
        if reclaimed < budget
        then sweep_entries k PACMAN_DIR budget (sweep_cache_entry k PACMAN_DIR ''.pkg.tar.zst'') reclaimed
        else return_io reclaimed
      })"

definition is_excluded_tmp :: "string \<Rightarrow> bool" where
  "is_excluded_tmp name \<longleftrightarrow>
     ends_with name ''.lock'' \<or> ends_with name ''.pid'' \<or> ends_with name ''.sock'' \<or>
     starts_with name ''.X11-unix'' \<or> starts_with name ''.ICE-unix'' \<or> starts_with name ''systemd''"

definition old_tmp :: "u64 \<Rightarrow> stat_t \<Rightarrow> bool" where
  "old_tmp now_sec st \<longleftrightarrow> word_of_int (st_mtime st) < now_sec \<and>
     TMP_FILE_MAX_AGE_SEC \<le> now_sec - word_of_int (st_mtime st)"

definition sweep_tmp_entry :: "kernel \<Rightarrow> string \<Rightarrow> u64 \<Rightarrow> string \<Rightarrow> u64 \<Rightarrow> u64 io" where
  "sweep_tmp_entry k dir now_sec name reclaimed =
     (if is_excluded_tmp name then return_io reclaimed
      else sweep_file k (dir @ ''/'' @ name) (old_tmp now_sec) reclaimed)"

definition sweep_old_tmp_files :: "kernel \<Rightarrow> string \<Rightarrow> u64 \<Rightarrow> u64 \<Rightarrow> u64 io" where
  "sweep_old_tmp_files k dir budget now_sec =
     (if budget = 0 then return_io 0 else sweep_entries k dir budget (sweep_tmp_entry k dir now_sec) 0)"

section \<open>A pass and its schedule\<close>

text \<open>A tier of the pass: it runs while the budget lasts, with what is left of it.\<close>

definition reclaim_tier :: "u64 \<Rightarrow> (u64 \<Rightarrow> u64 io) \<Rightarrow> u64 \<Rightarrow> u64 io" where
  "reclaim_tier max_bytes sweep total_reclaimed =
     (if total_reclaimed < max_bytes
      then do { n \<leftarrow> sweep (max_bytes - total_reclaimed); return_io (total_reclaimed + n) }
      else return_io total_reclaimed)"

definition reclaim_tiers :: "kernel \<Rightarrow> u64 \<Rightarrow> u64 io" where
  "reclaim_tiers k max_bytes = do {
     now_sec \<leftarrow> sys_now_real k;
     n \<leftarrow> reclaim_tier max_bytes (sweep_journal_and_dumps k) 0;
     check1 \<leftarrow> sample_storage k ''/'';
     if fp_lt (ds_used_pct check1) DISK_RELEASE_THRESHOLD_PCT then return_io n
     else do {
       n \<leftarrow> reclaim_tier max_bytes (sweep_package_caches k) n;
       check2 \<leftarrow> sample_storage k ''/'';
       if fp_lt (ds_used_pct check2) DISK_RELEASE_THRESHOLD_PCT then return_io n
       else do {
         n \<leftarrow> reclaim_tier max_bytes (\<lambda>b. sweep_old_tmp_files k ''/tmp'' b now_sec) n;
         reclaim_tier max_bytes (\<lambda>b. sweep_old_tmp_files k ''/var/tmp'' b now_sec) n
       }
     }
   }"

definition reclaim_tiered_storage :: "kernel \<Rightarrow> u64 \<Rightarrow> disk_guard \<Rightarrow> (u64 \<times> disk_guard) io" where
  "reclaim_tiered_storage k max_bytes s = do {
     n \<leftarrow> reclaim_tiers k max_bytes;
     return_io (n, s\<lparr>dg_total_reclaimed := dg_total_reclaimed s + n\<rparr>)
   }"

definition disk_evaluate :: "kernel \<Rightarrow> disk_guard \<Rightarrow> (bool \<times> disk_guard) io" where
  "disk_evaluate k s = do {
     now_sec \<leftarrow> sys_now_steady k;
     if now_sec < dg_last_sample s + 30 then return_io (False, s)
     else do {
       let s = s\<lparr>dg_last_sample := now_sec\<rparr>;
       sample \<leftarrow> sample_storage k ''/'';
       if \<not> ds_satisfied sample then return_io (False, s)
       else if \<not> disk_cooldown_expired now_sec s then return_io (False, s)
       else do {
         (reclaimed, s) \<leftarrow> reclaim_tiered_storage k MAX_BATCH_RECLAIM_BYTES s;
         let s = s\<lparr>dg_last_reclaim := now_sec, dg_events := dg_events s + 1\<rparr>;
         if 0 < reclaimed then do { log_event (EvAlert ''STORAGE''); return_io (True, s) }
         else return_io (False, s)
       }
     }
   }"

section \<open>What a pass may delete\<close>

text \<open>
  \<open>may_delete now p st\<close>: the path is one of the documented kinds and the status that was read
  for it is a regular file's, old enough at time \<open>now\<close> where an age is asked for.
\<close>

definition in_dir :: "string \<Rightarrow> string \<Rightarrow> bool" where
  "in_dir dir p \<longleftrightarrow> starts_with p (dir @ ''/'')"

lemma in_dir_append [simp]: "in_dir dir (dir @ CHR ''/'' # name)"
  using starts_with_append [of "dir @ ''/''" name] by (simp add: in_dir_def)

definition tmp_entry :: "string \<Rightarrow> string \<Rightarrow> bool" where
  "tmp_entry dir p \<longleftrightarrow> in_dir dir p \<and>
     (let name = drop (length dir + 1) p in
      \<not> starts_with name ''.'' \<and> \<not> starts_with name ''systemd'' \<and> \<not> ends_with name ''.lock'' \<and>
      \<not> ends_with name ''.pid'' \<and> \<not> ends_with name ''.sock'')"

lemma tmp_entry_sweepable:
  "\<not> is_hidden name \<Longrightarrow> \<not> is_excluded_tmp name \<Longrightarrow> tmp_entry dir (dir @ ''/'' @ name)"
  by (auto simp: tmp_entry_def is_hidden_def is_excluded_tmp_def starts_with_iff)

definition days_old :: "int \<Rightarrow> u64 \<Rightarrow> stat_t \<Rightarrow> bool" where
  "days_old days now_sec st \<longleftrightarrow> uint (word_of_int (st_mtime st) :: u64) + days * 86400 \<le> uint now_sec"

lemma old_tmp_week: "old_tmp now_sec st \<Longrightarrow> days_old 7 now_sec st"
  by (auto simp: old_tmp_def days_old_def TMP_FILE_MAX_AGE_SEC_def word_le_def word_less_def uint_sub_if'
      split: if_splits)

definition may_delete :: "u64 \<Rightarrow> string \<Rightarrow> stat_t \<Rightarrow> bool" where
  "may_delete now_sec p st \<longleftrightarrow> st_kind st = Regular \<and>
     (in_dir JOURNAL_DIR p \<and> ends_with p ''.journal~'' \<or>
      in_dir COREDUMP_DIR p \<and> 3 * 86400 \<le> sint now_sec - st_mtime st \<or>
      in_dir APT_DIR p \<and> ends_with p ''.deb'' \<or>
      in_dir PACMAN_DIR p \<and> ends_with p ''.pkg.tar.zst'' \<or>
      (tmp_entry ''/tmp'' p \<or> tmp_entry ''/var/tmp'' p) \<and> days_old 7 now_sec st)"

text \<open>
  Every deletion of the history follows immediately on the reading of the file's status, which
  allows it under a clock reading that came before.
\<close>

fun deletions_checked :: "kernel \<Rightarrow> history \<Rightarrow> bool" where
  "deletions_checked k [] \<longleftrightarrow> True"
| "deletions_checked k (e # h) \<longleftrightarrow> deletions_checked k h \<and>
     (case e of
        EvUnlink p _ \<Rightarrow> (\<exists>h' st h0. h = EvStat p # h' \<and> k_lstat k h' p = Some st \<and> suffix h0 h' \<and>
          may_delete (k_now_real k h0) p st)
      | EvRmdir _ _ \<Rightarrow> False | EvRename _ _ _ \<Rightarrow> False | EvWrite _ _ _ \<Rightarrow> False | EvKill _ _ \<Rightarrow> False
      | EvSystem _ _ \<Rightarrow> False | EvExec _ _ \<Rightarrow> False | EvFork _ _ \<Rightarrow> False
      | _ \<Rightarrow> True)"

definition sweeping :: "kernel \<Rightarrow> history \<Rightarrow> history \<Rightarrow> bool" where
  "sweeping k h0 h \<longleftrightarrow> suffix h0 h \<and> deletions_checked k h"

lemma sweeping_reads [simp, intro]:
  assumes "sweeping k h0 h"
  shows "sweeping k h0 (EvStat p # h)" "sweeping k h0 (EvOpenDir p # h)" "sweeping k h0 (EvClock # h)"
    "sweeping k h0 (EvStatVfs p # h)" "sweeping k h0 (EvAlert c # h)"
  using assms by (auto simp: sweeping_def suffix_Cons)

lemma sweeping_unlink:
  assumes "sweeping k h0 h" and "k_lstat k h p = Some st" and "may_delete (k_now_real k h0) p st"
  shows "sweeping k h0 (EvUnlink p b # EvStat p # h)"
  using assms by (auto simp: sweeping_def suffix_Cons)

lemma wp_unlink_counted:
  assumes "sweeping k h0 h" and "k_lstat k h p = Some st" and "may_delete (k_now_real k h0) p st"
  shows "wp (unlink_counted k p st n) (\<lambda>_. sweeping k h0) (EvStat p # h)"
  using sweeping_unlink [OF assms] by (simp add: unlink_counted_def sys_unlink_def wp_simps)

lemma wp_sweep_file:
  assumes "sweeping k h0 h" and "\<And>st. st_kind st = Regular \<Longrightarrow> old st \<Longrightarrow> may_delete (k_now_real k h0) p st"
  shows "wp (sweep_file k p old n) (\<lambda>_. sweeping k h0) h"
  using assms by (auto simp: sweep_file_def sys_lstat_def wp_simps intro!: wp_unlink_counted split: option.splits)

lemma wp_visible_entries:
  assumes "sweeping k h0 h"
    and "\<And>name n h. sweeping k h0 h \<Longrightarrow> \<not> is_hidden name \<Longrightarrow> wp (f name n) (\<lambda>_. sweeping k h0) h"
  shows "wp (io_for (\<lambda>n. n < budget) (\<lambda>name n. if is_hidden name then return_io n else f name n) names n)
    (\<lambda>_. sweeping k h0) h"
  by (rule wp_for [where I = "\<lambda>_. sweeping k h0"]) (use assms in \<open>auto simp: wp_return\<close>)

lemma wp_sweep_entries:
  assumes "sweeping k h0 h"
    and "\<And>name n h. sweeping k h0 h \<Longrightarrow> \<not> is_hidden name \<Longrightarrow> wp (f name n) (\<lambda>_. sweeping k h0) h"
  shows "wp (sweep_entries k dir budget f n) (\<lambda>_. sweeping k h0) h"
  unfolding sweep_entries_def sys_opendir_def wp_bind wp_syscall wp_option
  using assms by (auto simp: wp_return intro!: wp_visible_entries split: option.splits)

lemma may_delete_kinds:
  "st_kind st = Regular \<Longrightarrow> in_dir JOURNAL_DIR p \<Longrightarrow> ends_with p ''.journal~'' \<Longrightarrow> may_delete t p st"
  "st_kind st = Regular \<Longrightarrow> in_dir COREDUMP_DIR p \<Longrightarrow> old_coredump (sint t) st \<Longrightarrow> may_delete t p st"
  "st_kind st = Regular \<Longrightarrow> tmp_entry d p \<Longrightarrow> d \<in> {''/tmp'', ''/var/tmp''} \<Longrightarrow> old_tmp t st \<Longrightarrow> may_delete t p st"
  by (auto simp: may_delete_def old_coredump_def dest: old_tmp_week)

lemma wp_sweep_journal_entry:
  assumes "sweeping k h0 h"
  shows "wp (sweep_journal_entry k JOURNAL_DIR budget name n) (\<lambda>_. sweeping k h0) h"
proof -
  have nested: "in_dir JOURNAL_DIR ((JOURNAL_DIR @ ''/'' @ name) @ ''/'' @ sub)" for sub
    by (simp add: in_dir_def starts_with_iff)
  have sub: "wp (sweep_sub_journal k (JOURNAL_DIR @ ''/'' @ name) sub n) (\<lambda>_. sweeping k h0) h"
    if "sweeping k h0 h" for sub n h
    unfolding sweep_sub_journal_def Let_def wp_if wp_return
    using that by (auto intro!: wp_sweep_file may_delete_kinds(1) nested [simplified])
  show ?thesis
    unfolding sweep_journal_entry_def Let_def sys_lstat_def wp_bind wp_syscall wp_option wp_if wp_return
    using assms
    by (auto intro!: wp_sweep_entries sub [simplified] wp_unlink_counted may_delete_kinds(1) split: option.splits)
qed

lemma wp_sweep_journal_and_dumps:
  assumes "sweeping k h0 h"
  shows "wp (sweep_journal_and_dumps k budget) (\<lambda>_. sweeping k h0) h"
proof -
  have cores: "wp (io_for (\<lambda>n. n < budget) (\<lambda>name n. if is_hidden name then return_io n
      else sweep_file k (COREDUMP_DIR @ ''/'' @ name) (old_coredump (sint (k_now_real k h1))) n) names n)
      (\<lambda>_. sweeping k h0) (EvClock # h1)" if "sweeping k h0 h1" for names n h1
  proof -
    have "sweeping k h1 (EvClock # h1)" using that by (auto simp: sweeping_def suffix_Cons)
    then have "wp (io_for (\<lambda>n. n < budget) (\<lambda>name n. if is_hidden name then return_io n
      else sweep_file k (COREDUMP_DIR @ ''/'' @ name) (old_coredump (sint (k_now_real k h1))) n) names n)
      (\<lambda>_. sweeping k h1) (EvClock # h1)"
      by (intro wp_visible_entries wp_sweep_file may_delete_kinds(2)) auto
    then show ?thesis
      by (rule wp_mono) (use that in \<open>auto simp: sweeping_def intro: suffix_order.trans\<close>)
  qed
  show ?thesis
    unfolding sweep_journal_and_dumps_def wp_if wp_bind
    by (auto simp: assms wp_return sys_opendir_def sys_now_real_def wp_syscall wp_bind wp_option
        intro!: wp_mono [OF wp_sweep_entries [OF assms wp_sweep_journal_entry]] cores [simplified] split: option.splits)
qed

lemma wp_sweep_package_caches:
  assumes "sweeping k h0 h"
  shows "wp (sweep_package_caches k budget) (\<lambda>_. sweeping k h0) h"
proof -
  have entry: "wp (sweep_cache_entry k dir ext name n) (\<lambda>_. sweeping k h0) h"
    if "sweeping k h0 h" "(dir, ext) \<in> {(APT_DIR, ''.deb''), (PACMAN_DIR, ''.pkg.tar.zst'')}" for dir ext name n h
    unfolding sweep_cache_entry_def Let_def wp_if wp_return
    using that by (auto intro!: wp_sweep_file simp: may_delete_def)
  show ?thesis
    unfolding sweep_package_caches_def wp_if wp_bind
    by (auto simp: assms wp_return intro!: wp_mono [OF wp_sweep_entries [OF assms]] wp_sweep_entries entry)
qed

lemma wp_sweep_old_tmp_files:
  assumes "sweeping k h0 h" and "dir \<in> {''/tmp'', ''/var/tmp''}"
  shows "wp (sweep_old_tmp_files k dir budget (k_now_real k h0)) (\<lambda>_. sweeping k h0) h"
proof -
  have "wp (sweep_tmp_entry k dir (k_now_real k h0) name n) (\<lambda>_. sweeping k h0) h"
    if "sweeping k h0 h" "\<not> is_hidden name" for name n h
  proof -
    show ?thesis
      unfolding sweep_tmp_entry_def wp_if wp_return
      using that(1) assms(2) tmp_entry_sweepable [OF that(2)]
      by (auto intro!: wp_sweep_file may_delete_kinds(3))
  qed
  then show ?thesis
    unfolding sweep_old_tmp_files_def wp_if wp_return
    using assms(1) by (auto intro!: wp_sweep_entries)
qed

lemma wp_reclaim_tier:
  assumes "sweeping k h0 h" and "\<And>b h. sweeping k h0 h \<Longrightarrow> wp (sweep b) (\<lambda>_. sweeping k h0) h"
  shows "wp (reclaim_tier m sweep n) (\<lambda>_. sweeping k h0) h"
  unfolding reclaim_tier_def wp_if wp_bind wp_return using assms by auto

lemma wp_sample_storage: "sweeping k h0 h \<Longrightarrow> wp (sample_storage k p) (\<lambda>_. sweeping k h0) h"
  by (auto simp: sample_storage_def sys_statvfs_def wp_simps)

lemma wp_reclaim_tiers:
  assumes "deletions_checked k h"
  shows "wp (reclaim_tiers k m) (\<lambda>_. deletions_checked k) h"
proof -
  have tiers: "wp (reclaim_tier m (sweep_journal_and_dumps k) n) (\<lambda>_. sweeping k h) h'"
    "wp (reclaim_tier m (sweep_package_caches k) n) (\<lambda>_. sweeping k h) h'"
    "wp (reclaim_tier m (\<lambda>b. sweep_old_tmp_files k ''/tmp'' b (k_now_real k h)) n) (\<lambda>_. sweeping k h) h'"
    "wp (reclaim_tier m (\<lambda>b. sweep_old_tmp_files k ''/var/tmp'' b (k_now_real k h)) n) (\<lambda>_. sweeping k h) h'"
    if "sweeping k h h'" for n h'
    using that
    by (auto intro: wp_reclaim_tier wp_sweep_journal_and_dumps wp_sweep_package_caches wp_sweep_old_tmp_files)
  have "sweeping k h (EvClock # h)" using assms by (auto simp: sweeping_def suffix_Cons)
  then have "wp (reclaim_tiers k m) (\<lambda>_. sweeping k h) h"
    unfolding reclaim_tiers_def sys_now_real_def wp_bind wp_syscall wp_if wp_return
    by (auto intro!: wp_mono [OF tiers(1)] wp_mono [OF tiers(2)] wp_mono [OF tiers(3)] tiers(4)
        wp_mono [OF wp_sample_storage])
  then show ?thesis by (rule wp_mono) (simp add: sweeping_def)
qed

lemma wp_disk_evaluate:
  assumes "deletions_checked k h"
  shows "wp (disk_evaluate k s) (\<lambda>_. deletions_checked k) h"
proof -
  have "deletions_checked k (EvStatVfs ''/'' # EvClock # h)" using assms by simp
  then show ?thesis
    unfolding disk_evaluate_def reclaim_tiered_storage_def Let_def sample_storage_def
    using assms by (auto simp: wp_simps sys_defs intro!: wp_mono [OF wp_reclaim_tiers])
qed

interpretation disk: io_machine "\<lambda>_ s. do { (b, s) \<leftarrow> disk_evaluate k s; return_io s }" "\<lambda>_. deletions_checked k" for k
  by unfold_locales (auto simp: wp_simps case_prod_unfold intro!: wp_mono [OF wp_disk_evaluate])

section \<open>The budget\<close>

text \<open>
  When no file is larger than \<open>M\<close>, a sweep with a budget \<open>b\<close> counts less than \<open>b + M\<close>: it stops
  only once the budget is reached, after the file that reached it.
\<close>

definition files_up_to :: "int \<Rightarrow> kernel \<Rightarrow> bool" where
  "files_up_to M k \<longleftrightarrow> (\<forall>h p st. k_lstat k h p = Some st \<longrightarrow> 0 \<le> st_size st \<and> st_size st \<le> M)"

abbreviation counts_below :: "int \<Rightarrow> u64 io \<Rightarrow> bool" where
  "counts_below b m \<equiv> io_ok (\<lambda>_. True) m (\<lambda>n. uint n < b)"

lemma counts_unlink:
  assumes "uint n < uint b" and "0 \<le> st_size st" and "st_size st \<le> M" and "M \<le> 2 ^ 62" and "uint b \<le> 2 ^ 62"
  shows "counts_below (uint b + M) (unlink_counted k p st n)"
proof -
  have "uint (n + word_of_int (st_size st)) \<le> uint n + st_size st"
    using assms by (simp add: uint_word_of_int uint_plus_if' take_bit_eq_mod)
  then show ?thesis
    unfolding unlink_counted_def sys_unlink_def using assms
    by (intro io_ok_bind_any) (auto intro!: io_ok_return io_rules)
qed

lemma counts_sweep_file:
  assumes "files_up_to M k" "uint n < uint b" "0 \<le> M" "M \<le> 2 ^ 62" "uint b \<le> 2 ^ 62"
  shows "counts_below (uint b + M) (sweep_file k p old n)"
  unfolding sweep_file_def
proof (rule io_ok_bind [where R = "\<lambda>st. \<forall>s. st = Some s \<longrightarrow> 0 \<le> st_size s \<and> st_size s \<le> M"])
  show "io_ok (\<lambda>_. True) (sys_lstat k p) (\<lambda>st. \<forall>s. st = Some s \<longrightarrow> 0 \<le> st_size s \<and> st_size s \<le> M)"
    using assms(1) unfolding sys_lstat_def files_up_to_def by (intro io_ok_syscall) auto
qed (use assms in \<open>auto intro!: io_ok_return counts_unlink split: option.splits\<close>)

lemma counts_mono: "counts_below b m \<Longrightarrow> b \<le> b' \<Longrightarrow> counts_below b' m"
  by (erule io_ok_mono) auto

lemma counts_visible:
  assumes "uint n < uint b + M" and "\<And>name n. uint n < uint b \<Longrightarrow> counts_below (uint b + M) (f name n)" and "0 \<le> M"
  shows "counts_below (uint b + M)
    (io_for (\<lambda>n. n < b) (\<lambda>name n. if is_hidden name then return_io n else f name n) names n)"
  by (rule io_ok_for) (use assms in \<open>auto simp: word_less_def intro!: io_ok_return\<close>)

lemma counts_sweep_entries:
  assumes "uint n < uint b + M" and "\<And>name n. uint n < uint b \<Longrightarrow> counts_below (uint b + M) (f name n)" and "0 \<le> M"
  shows "counts_below (uint b + M) (sweep_entries k dir b f n)"
  unfolding sweep_entries_def sys_opendir_def
  by (rule io_ok_bind_any)
    (use assms counts_visible [OF assms(1,2,3)] in \<open>auto intro!: io_ok_return io_rules split: option.splits\<close>)

lemma counts_sweeps:
  assumes "files_up_to M k" "0 \<le> M" "M \<le> 2 ^ 62" "uint b \<le> 2 ^ 62" "0 < uint b"
  shows "counts_below (uint b + M) (sweep_journal_and_dumps k b)"
    and "counts_below (uint b + M) (sweep_package_caches k b)"
    and "counts_below (uint b + M) (sweep_old_tmp_files k dir b t)"
proof -
  have one: "counts_below (uint b + M) (sweep_file k p old n)" if "uint n < uint b" for p old n
    using counts_sweep_file [OF assms(1) that assms(2-4)] .
  have stay: "counts_below (uint b + M) (return_io n)" if "uint n < uint b" for n
    using that assms(2) by (auto intro!: io_ok_return)
  have sub: "counts_below (uint b + M) (sweep_sub_journal k d name n)" if "uint n < uint b" for d name n
    using one [OF that] stay [OF that] by (simp add: sweep_sub_journal_def Let_def)
  have entry: "counts_below (uint b + M) (sweep_journal_entry k d b name n)" if "uint n < uint b" for d name n
    unfolding sweep_journal_entry_def Let_def
  proof (rule io_ok_bind [where R = "\<lambda>st. \<forall>s. st = Some s \<longrightarrow> 0 \<le> st_size s \<and> st_size s \<le> M"])
    show "io_ok (\<lambda>_. True) (sys_lstat k (d @ ''/'' @ name)) (\<lambda>st. \<forall>s. st = Some s \<longrightarrow> 0 \<le> st_size s \<and> st_size s \<le> M)"
      using assms(1) unfolding sys_lstat_def files_up_to_def by (intro io_ok_syscall) auto
  qed (use assms that in \<open>auto intro!: stay counts_unlink counts_sweep_entries sub split: option.splits\<close>)
  have cache: "counts_below (uint b + M) (sweep_cache_entry k d ext name n)" if "uint n < uint b" for d ext name n
    using one [OF that] stay [OF that] by (simp add: sweep_cache_entry_def Let_def)
  have tmp: "counts_below (uint b + M) (sweep_tmp_entry k d t name n)" if "uint n < uint b" for d t name n
    using one [OF that] stay [OF that] by (simp add: sweep_tmp_entry_def)
  have zero: "uint (0 :: u64) < uint b + M" using assms(2,5) by simp
  have run: "(if b = 0 then x else y) = y" for x y :: "u64 io" using assms(5) by auto
  show "counts_below (uint b + M) (sweep_journal_and_dumps k b)"
    unfolding sweep_journal_and_dumps_def run
    by (rule io_ok_bind [OF counts_sweep_entries [OF zero entry assms(2)]],
        auto simp: sys_defs intro!: io_ok_return io_ok_bind_any counts_visible one io_rules assms(2) split: option.splits)
  show "counts_below (uint b + M) (sweep_package_caches k b)"
    unfolding sweep_package_caches_def run
    by (rule io_ok_bind [OF counts_sweep_entries [OF zero cache assms(2)]],
        auto intro!: io_ok_return counts_sweep_entries cache assms(2))
  show "counts_below (uint b + M) (sweep_old_tmp_files k dir b t)"
    unfolding sweep_old_tmp_files_def run
    by (rule counts_sweep_entries [OF zero tmp assms(2)])
qed

lemma counts_tier:
  assumes "\<And>b. 0 < uint b \<Longrightarrow> uint b \<le> 2 ^ 62 \<Longrightarrow> counts_below (uint b + M) (sweep b)"
    and "uint n < uint m + M" and "0 \<le> M" and "M \<le> 2 ^ 62" and "uint m \<le> 2 ^ 62"
  shows "counts_below (uint m + M) (reclaim_tier m sweep n)"
proof (cases "n < m")
  case True
  then have left: "uint (m - n) = uint m - uint n" by (simp add: uint_sub_if' word_less_def)
  have "counts_below (uint (m - n) + M) (sweep (m - n))"
  proof (rule assms(1))
    have "0 \<le> uint n" by simp
    with left assms(5) show "uint (m - n) \<le> 2 ^ 62" by linarith
  qed (use True left in \<open>simp add: word_less_def\<close>)
  moreover have "uint (n + r) < uint m + M" if "uint r < uint (m - n) + M" for r
  proof -
    have "uint n + uint r < 2 ^ 64" using that left assms(4,5) by auto
    then have "uint (n + r) = uint n + uint r" by (simp add: uint_plus_if')
    with that left show ?thesis by simp
  qed
  ultimately show ?thesis
    unfolding reclaim_tier_def using True by (auto intro!: io_ok_bind io_ok_return)
next
  case False
  with assms(2) show ?thesis by (auto simp: reclaim_tier_def intro!: io_ok_return)
qed

lemma counts_reclaim_tiers:
  assumes "files_up_to M k" "0 \<le> M" "M \<le> 2 ^ 62" "uint m \<le> 2 ^ 62" "0 < uint m"
  shows "counts_below (uint m + M) (reclaim_tiers k m)"
proof -
  have tiers: "counts_below (uint m + M) (reclaim_tier m (sweep_journal_and_dumps k) n)"
    "counts_below (uint m + M) (reclaim_tier m (sweep_package_caches k) n)"
    "counts_below (uint m + M) (reclaim_tier m (\<lambda>b. sweep_old_tmp_files k d b t) n)"
    if "uint n < uint m + M" for n d t
    using that by (auto intro!: counts_tier counts_sweeps assms)
  have zero: "uint (0 :: u64) < uint m + M" using assms by simp
  have sample: "emits (\<lambda>_. True) (sample_storage k p)" for p
    unfolding sample_storage_def sys_defs by (auto intro!: io_rules)
  show ?thesis
    unfolding reclaim_tiers_def sys_now_real_def
    by (rule io_ok_bind_any, rule emits_syscall, simp, rule io_ok_bind [OF tiers(1) [OF zero]])
      (auto intro!: io_ok_bind_any [OF sample] io_ok_if io_ok_return io_ok_bind [OF tiers(2)]
        io_ok_bind [OF tiers(3)] tiers(3))
qed

section \<open>The cooldown\<close>

lemma wp_disk_schedule:
  "wp (disk_evaluate k s) (\<lambda>(b, s') _.
      dg_events s' = dg_events s \<and> dg_last_reclaim s' = dg_last_reclaim s \<or>
      dg_events s' = dg_events s + 1 \<and> dg_last_reclaim s' = k_now_steady k h \<and>
      disk_cooldown_expired (k_now_steady k h) s) h"
  unfolding disk_evaluate_def reclaim_tiered_storage_def Let_def sample_storage_def
  by (auto simp: wp_simps sys_defs disk_cooldown_expired_def intro!: wp_any [of _ "reclaim_tiers _ _"])

text \<open>
  One evaluation at time \<open>now\<close> and whether it was a pass.  Seconds since boot stay far below the
  range of the type, so that adding the cooldown does not wrap.
\<close>

definition disk_tick :: "u64 \<Rightarrow> disk_guard \<Rightarrow> disk_guard \<Rightarrow> bool \<Rightarrow> bool" where
  "disk_tick now_sec s s' acted \<longleftrightarrow>
     acted = (dg_events s' \<noteq> dg_events s) \<and> dg_last_reclaim s < 2 ^ 63 \<and>
     (\<exists>k h b h'. k_now_steady k h = now_sec \<and> run_state (disk_evaluate k s) h = ((b, s'), h'))"

lemma disk_tick_cases:
  assumes "disk_tick now_sec s s' acted"
  shows "if acted then dg_last_reclaim s' = now_sec \<and> disk_cooldown_expired now_sec s \<and> dg_last_reclaim s < 2 ^ 63
         else dg_last_reclaim s' = dg_last_reclaim s"
proof -
  from assms obtain k h b h' where "k_now_steady k h = now_sec" "run_state (disk_evaluate k s) h = ((b, s'), h')"
    and "acted = (dg_events s' \<noteq> dg_events s)" "dg_last_reclaim s < 2 ^ 63" by (auto simp: disk_tick_def)
  with wp_disk_schedule [of k s h] show ?thesis by (auto simp: wp_def)
qed

lemma cooldown_gap:
  assumes "l < 2 ^ 63" and "l + DISK_COOLDOWN_SEC \<le> now"
  shows "DISK_COOLDOWN_SEC \<le> now - (l :: u64)"
  using assms by (simp add: word_le_def word_less_def uint_plus_if' uint_sub_if' DISK_COOLDOWN_SEC_def split: if_splits)

interpretation disk_pace: paced dg_last_reclaim DISK_COOLDOWN_SEC disk_tick
  by unfold_locales (auto dest!: disk_tick_cases dest: cooldown_gap [simplified] simp: disk_cooldown_expired_def split: if_splits)

section \<open>The percentage\<close>

text \<open>The two roundings of the percentage at the threshold: 9/10 is rounded up, and so the product is 90.\<close>

lemma rnd_nine_tenths: "rnd 53 (emin Binary64) (9 / 10) = 8106479329266893 / 2 ^ 53"
proof -
  have "floor_log2 (9 / 10) = - 1" by (rule floor_log2_unique) (simp_all add: pow2_def)
  then have "quantum 53 (emin Binary64) (9 / 10) = - 53" by (simp add: quantum_def emin_def)
  moreover have "\<lfloor>40532396646334464 / 5 :: rat\<rfloor> = 8106479329266892" by (simp add: floor_eq_iff)
  then have "round_half_even (9 / 10 / pow2 (- 53)) = 8106479329266893"
    by (simp add: round_half_even_def pow2_def)
  ultimately show ?thesis by (simp add: rnd_def pow2_def)
qed

lemma rnd_ninety: "rnd 53 (emin Binary64) (8106479329266893 / 2 ^ 53 * 100) = 90"
proof -
  have "floor_log2 (8106479329266893 / 2 ^ 53 * 100) = 6" by (rule floor_log2_unique) (simp_all add: pow2_def)
  then have "quantum 53 (emin Binary64) (8106479329266893 / 2 ^ 53 * 100) = - 46" by (simp add: quantum_def emin_def)
  moreover have "\<lfloor>202661983231672325 / 32 :: rat\<rfloor> = 6333186975989760" by (simp add: floor_eq_iff)
  then have "round_half_even (8106479329266893 / 2 ^ 53 * 100 / pow2 (- 46)) = 90 * 2 ^ 46"
    by (simp add: round_half_even_def pow2_def)
  ultimately show ?thesis by (simp add: rnd_def pow2_def)
qed

lemma percent_at_least_90:
  fixes used tot :: int
  assumes "0 < tot" "tot \<le> 2 ^ 53" "0 \<le> used" "used \<le> tot" "90 * tot \<le> 100 * used"
  shows "fp_ge (fp_mul Binary64 (fp_div Binary64 (Fin (of_int used)) (Fin (of_int tot))) (Fin 100)) (Fin 90)"
proof -
  define q r :: rat where "q = of_int used / of_int tot" and "r = rnd 53 (emin Binary64) q"
  have "(of_int (90 * tot) :: rat) \<le> of_int (100 * used)" using assms(5) by (simp only: of_int_le_iff)
  then have u: "9 * (of_int tot :: rat) \<le> 10 * of_int used" by simp
  have q: "9 / 10 \<le> q" "q \<le> 1"
    using assms(1,4) u by (simp_all add: q_def field_simps)
  have "r \<le> 1"
    unfolding r_def using q(2) representable_of_int [of 1 53 "emin Binary64"]
    by (intro rnd_le_representable) (auto simp: emin_def)
  moreover have r: "8106479329266893 / 2 ^ 53 \<le> r"
    unfolding r_def using rnd_mono [OF q(1), of 53 "emin Binary64"] by (simp only: rnd_nine_tenths)
  ultimately have "\<bar>r * 100\<bar> \<le> pow2 (emax Binary64)"
    using pow2_mono [of 7 "emax Binary64"] by (simp add: pow2_def)
  then have "fp_mul Binary64 (fp_div Binary64 (Fin (of_int used)) (Fin (of_int tot))) (Fin 100)
      = Fin (rnd 53 (emin Binary64) (r * 100))"
    using fp_quotient [of used tot] assms fp_round_in_range [of "r * 100" Binary64] by (simp add: q_def r_def)
  moreover have "90 \<le> rnd 53 (emin Binary64) (r * 100)"
    using rnd_mono [of "8106479329266893 / 2 ^ 53 * 100" "r * 100" 53 "emin Binary64"] r by (simp only: rnd_ninety)
  ultimately show ?thesis by simp
qed

section \<open>Properties\<close>

text \<open>C11. Every deletion of the disk guard follows immediately on the reading of the file's status that
  allows it: whatever the kernel answers and however often the guard is called, only regular files
  are deleted, and only archived journals, core dumps of three days, cached packages, and files of
  seven days in the two directories for temporary files that are no lock, socket or pid file.
\<close>

theorem disk_deletes_only_checked_files:
  "deletions_checked k (snd (run_state (io_for (\<lambda>_. True)
     (\<lambda>_ s. do { (b, s) \<leftarrow> disk_evaluate k s; return_io s }) calls s) []))"
  using disk.run_inv [of k "[]" calls s] by (simp add: wp_run)

text \<open>When no file is larger than \<open>M\<close>, a pass counts less than 512 MiB plus \<open>M\<close>: the budget ends
  the pass after the file that exhausts it.
\<close>

theorem disk_pass_within_budget:
  assumes "files_up_to M k" and "0 \<le> M" and "M \<le> 2 ^ 62"
  shows "io_ok (\<lambda>_. True) (reclaim_tiered_storage k MAX_BATCH_RECLAIM_BYTES s)
    (\<lambda>(n, s'). uint n < 2 ^ 29 + M \<and> dg_total_reclaimed s' = dg_total_reclaimed s + n)"
  unfolding reclaim_tiered_storage_def
  using counts_reclaim_tiers [OF assms, of MAX_BATCH_RECLAIM_BYTES]
  by (auto intro!: io_ok_bind io_ok_return simp: MAX_BATCH_RECLAIM_BYTES_def)

text \<open>One archived journal of 1 GiB: the pass deletes it, twice the budget.\<close>

definition big_journal :: kernel where
  "big_journal = quiet_kernel\<lparr>
     k_opendir := (\<lambda>_ d. if d = ''/var/log/journal'' then Some [''a.journal~''] else None),
     k_lstat := (\<lambda>_ _. Some \<lparr>st_kind = Regular, st_size = 1073741824, st_mtime = 0, st_uid = 0, st_gid = 0, st_mode = 493\<rparr>),
     k_unlink := (\<lambda>_ _. True)\<rparr>"

theorem disk_pass_within_budget_witness:
  "fst (fst (run_state (reclaim_tiered_storage big_journal MAX_BATCH_RECLAIM_BYTES disk_guard_init) [])) = 1073741824 \<and>
   dg_total_reclaimed (snd (fst (run_state (reclaim_tiered_storage big_journal MAX_BATCH_RECLAIM_BYTES disk_guard_init) []))) = 1073741824"
proof -
  have "files_up_to 1073741824 big_journal" by (simp add: files_up_to_def big_journal_def)
  then have "io_ok (\<lambda>_. True) (reclaim_tiered_storage big_journal MAX_BATCH_RECLAIM_BYTES disk_guard_init)
    (\<lambda>(n, s'). uint n < 2 ^ 29 + 1073741824 \<and> dg_total_reclaimed s' = dg_total_reclaimed disk_guard_init + n)"
    by (rule disk_pass_within_budget) simp_all
  moreover have "fst (fst (run_state (reclaim_tiered_storage big_journal MAX_BATCH_RECLAIM_BYTES disk_guard_init) [])) = 1073741824"
    by (simp add: reclaim_tiered_storage_def reclaim_tiers_def reclaim_tier_def sweep_journal_and_dumps_def
        sweep_package_caches_def sweep_entries_def sweep_journal_entry_def unlink_counted_def sample_storage_def
        sys_defs big_journal_def quiet_kernel_def MAX_BATCH_RECLAIM_BYTES_def is_hidden_def JOURNAL_DIR_def
        ends_with_def disk_sample_init_def DISK_RELEASE_THRESHOLD_PCT_def Let_def)
  ultimately show ?thesis
    by (auto simp: io_ok_def disk_guard_init_def case_prod_unfold)
qed

text \<open>Under a clock that does not go back two passes are at least 300 seconds apart, whatever the
  guard finds in between.
\<close>

theorem disk_passes_spaced:
  assumes "paced_run disk_tick disk_guard_init acts now_sec s"
  shows "spaced DISK_COOLDOWN_SEC acts"
  using disk_pace.run_spaced [OF assms] by (simp add: disk_guard_init_def)

text \<open>A full disk on which nothing can be deleted, seen at a given time.\<close>

definition full_disk :: "u64 \<Rightarrow> kernel" where
  "full_disk t = quiet_kernel\<lparr>
     k_statvfs := (\<lambda>_ _. Some \<lparr>f_blocks = 100, f_bavail = 0, f_frsize = 1\<rparr>), k_now_steady := (\<lambda>_. t)\<rparr>"

lemma full_disk_acts:
  assumes "dg_last_sample s + 30 \<le> t" and "disk_cooldown_expired t s" and "dg_last_reclaim s < 2 ^ 63"
  shows "disk_tick t s (s\<lparr>dg_last_sample := t, dg_last_reclaim := t, dg_events := dg_events s + 1\<rparr>) True"
proof -
  have full: "disk_sample_of \<lparr>f_blocks = 100, f_bavail = 0, f_frsize = 1\<rparr> =
      \<lparr>ds_total_bytes = 100, ds_avail_bytes = 0, ds_used_bytes = 100, ds_used_pct = Fin 100, ds_satisfied = True\<rparr>"
    by (simp add: disk_sample_of_def Let_def DISK_PRESSURE_THRESHOLD_PCT_def fp_of_u64_def)
  have "fst (run_state (disk_evaluate (full_disk t) s) []) =
      (False, s\<lparr>dg_last_sample := t, dg_last_reclaim := t, dg_events := dg_events s + 1\<rparr>)"
    using assms(1,2)
    by (simp add: disk_evaluate_def reclaim_tiered_storage_def reclaim_tiers_def reclaim_tier_def
        sweep_journal_and_dumps_def sweep_package_caches_def sweep_old_tmp_files_def sweep_entries_def
        sample_storage_def sys_defs full_disk_def quiet_kernel_def MAX_BATCH_RECLAIM_BYTES_def full
        DISK_RELEASE_THRESHOLD_PCT_def disk_cooldown_expired_def Let_def)
  then show ?thesis
    using assms(3) unfolding disk_tick_def
    by (intro conjI exI [of _ "full_disk t"] exI [of _ "[]"] exI [of _ False]
        exI [of _ "snd (run_state (disk_evaluate (full_disk t) s) [])"])
      (auto simp: full_disk_def prod_eq_iff)
qed

theorem disk_passes_spaced_witness: "spaced DISK_COOLDOWN_SEC [700, 400]"
proof -
  let ?s = "\<lambda>t s. s\<lparr>dg_last_sample := t, dg_last_reclaim := t, dg_events := dg_events s + 1\<rparr>"
  have "disk_tick 400 disk_guard_init (?s 400 disk_guard_init) True"
    by (rule full_disk_acts) (simp_all add: disk_guard_init_def disk_cooldown_expired_def)
  moreover have "disk_tick 700 (?s 400 disk_guard_init) (?s 700 (?s 400 disk_guard_init)) True"
    by (rule full_disk_acts) (simp_all add: disk_guard_init_def disk_cooldown_expired_def DISK_COOLDOWN_SEC_def)
  ultimately have "paced_run disk_tick disk_guard_init [700, 400] 700 (?s 700 (?s 400 disk_guard_init))"
    using paced_run.acting [of disk_tick disk_guard_init "[]" 0 disk_guard_init 400]
      paced_run.acting [of disk_tick disk_guard_init "[400]" 400 "?s 400 disk_guard_init" 700]
      paced_run.start [of disk_tick disk_guard_init] by auto
  then show ?thesis by (rule disk_passes_spaced)
qed

text \<open>A full disk is never overlooked: for file systems up to 8 PiB, the pressure test is positive
  whenever nine tenths of the bytes are in use, although the percentage is computed with two
  roundings.
\<close>

theorem disk_pressure_never_missed:
  assumes "0 < ds_total_bytes (disk_sample_of st)" and "ds_total_bytes (disk_sample_of st) \<le> 2 ^ 53"
    and "90 * uint (ds_total_bytes (disk_sample_of st)) \<le> 100 * uint (ds_used_bytes (disk_sample_of st))"
  shows "ds_satisfied (disk_sample_of st)"
proof -
  let ?t = "f_blocks st * f_frsize st" and ?u = "ds_used_bytes (disk_sample_of st)"
  have t: "0 < uint ?t" "uint ?t \<le> 2 ^ 53" "0 < ?t"
    using assms(1,2) by (simp_all add: disk_sample_of_def Let_def word_less_def word_le_def)
  have u: "uint ?u \<le> uint ?t"
    by (simp add: disk_sample_of_def Let_def uint_sub_if' word_less_def)
  have "fp_of_u64 Binary64 ?t = Fin (of_int (uint ?t))" "fp_of_u64 Binary64 ?u = Fin (of_int (uint ?u))"
    using t u by (simp_all add: fp_of_u64_def fp_of_int_exact)
  moreover have "fp_ge (fp_mul Binary64 (fp_div Binary64 (Fin (of_int (uint ?u))) (Fin (of_int (uint ?t)))) (Fin 100)) (Fin 90)"
    using t u assms(3) by (intro percent_at_least_90) (simp_all add: disk_sample_of_def Let_def)
  ultimately show ?thesis
    using t(3) by (simp add: disk_sample_of_def Let_def DISK_PRESSURE_THRESHOLD_PCT_def)
qed

theorem disk_pressure_never_missed_witness:
  "ds_satisfied (disk_sample_of \<lparr>f_blocks = 10, f_bavail = 1, f_frsize = 4096\<rparr>)"
  by (rule disk_pressure_never_missed) (simp_all add: disk_sample_of_def Let_def)

end
