(* ===== verification/Netlink.thy ===== *)
theory Netlink
  imports Actuators
begin

text \<open>
  The wireless control messages of the mitigation engine (\<^verbatim>\<open>src/policy/mitigation_engine.cpp\<close>):
  generic netlink requests built attribute by attribute in a buffer of 512 bytes, and the walk over
  the attributes of a reply.  Multi-byte fields are little-endian, as on the machines the daemon
  runs on.
\<close>

section \<open>Fields\<close>

definition le16 :: "u16 \<Rightarrow> u8 list" where
  "le16 w = [ucast w, ucast (drop_bit 8 w)]"

definition le32 :: "u32 \<Rightarrow> u8 list" where
  "le32 w = [ucast w, ucast (drop_bit 8 w), ucast (drop_bit 16 w), ucast (drop_bit 24 w)]"

definition le16_at :: "nat \<Rightarrow> u8 list \<Rightarrow> u16" where
  "le16_at i bs = or (ucast (bs ! i)) (push_bit 8 (ucast (bs ! (i + 1))))"

definition le32_at :: "nat \<Rightarrow> u8 list \<Rightarrow> u32" where
  "le32_at i bs = or (or (ucast (bs ! i)) (push_bit 8 (ucast (bs ! (i + 1)))))
     (or (push_bit 16 (ucast (bs ! (i + 2)))) (push_bit 24 (ucast (bs ! (i + 3)))))"

definition nl_align :: "nat \<Rightarrow> nat" where
  "nl_align n = (n + 3) div 4 * 4"

lemma nl_align_ge: "n \<le> nl_align n"
  unfolding nl_align_def by linarith

abbreviation "NL_MSG_CAPACITY \<equiv> (512 :: nat)"
abbreviation "NL_REPLY_CAPACITY \<equiv> (2048 :: nat)"
abbreviation "NLMSG_HDRLEN \<equiv> (16 :: nat)"
abbreviation "GENL_HDRLEN \<equiv> (4 :: nat)"
abbreviation "NL_ATTR_HDRLEN \<equiv> (4 :: nat)"

section \<open>Messages\<close>

text \<open>
  A message under construction: the fields of its header, and the bytes after it; \<open>nlmsg_len\<close> is
  the length of both.
\<close>

record nl_msg =
  nm_type :: u16
  nm_flags :: u16
  nm_seq :: u32
  nm_body :: "u8 list"

definition nm_len :: "nl_msg \<Rightarrow> nat" where
  "nm_len m = NLMSG_HDRLEN + length (nm_body m)"

definition nl_bytes :: "nl_msg \<Rightarrow> u8 list" where
  "nl_bytes m = le32 (of_nat (nm_len m)) @ le16 (nm_type m) @ le16 (nm_flags m) @ le32 (nm_seq m) @ le32 0 @ nm_body m"

definition nl_request :: "u16 \<Rightarrow> u16 \<Rightarrow> u32 \<Rightarrow> u8 \<Rightarrow> u8 \<Rightarrow> nl_msg" where
  "nl_request typ flags seq cmd version =
     \<lparr>nm_type = typ, nm_flags = flags, nm_seq = seq, nm_body = [cmd, version, 0, 0]\<rparr>"

definition attr_bytes :: "u16 \<Rightarrow> u8 list \<Rightarrow> u8 list" where
  "attr_bytes typ payload =
     (let attr_len = NL_ATTR_HDRLEN + length payload in
      le16 (of_nat attr_len) @ le16 typ @ payload @ replicate (nl_align attr_len - attr_len) 0)"

definition nl_append_attr :: "nat \<Rightarrow> u16 \<Rightarrow> u8 list \<Rightarrow> nl_msg \<Rightarrow> nl_msg option" where
  "nl_append_attr cap typ payload m =
     (let offset = nl_align (nm_len m); attr_len = NL_ATTR_HDRLEN + length payload in
      if cap < offset + nl_align attr_len then None
      else Some (m\<lparr>nm_body := nm_body m @ replicate (offset - nm_len m) 0 @ attr_bytes typ payload\<rparr>))"

text \<open>
  The walk over attributes: \<open>p\<close> holds the bytes from the current attribute to the end of the
  payload.
\<close>

function nl_find_attr :: "u16 \<Rightarrow> nat \<Rightarrow> u8 list \<Rightarrow> u8 list option" where
  "nl_find_attr typ out_len p =
     (if length p < NL_ATTR_HDRLEN then None
      else let nla_len = unat (le16_at 0 p); nla_type = le16_at 2 p in
        if nla_len < NL_ATTR_HDRLEN then None
        else if length p < nla_len then None
        else if nla_type = typ \<and> NL_ATTR_HDRLEN + out_len \<le> nla_len then Some (take out_len (drop NL_ATTR_HDRLEN p))
        else nl_find_attr typ out_len (drop (nl_align nla_len) p))"
  by pat_completeness auto

termination
proof (relation "measure (\<lambda>(_, _, p). length p)")
  fix ty :: u16 and out_len :: nat and p :: "u8 list" and nla_len :: nat and nla_type :: u16
  assume "\<not> length p < 4" "\<not> nla_len < 4"
  then show "((ty, out_len, drop (nl_align nla_len) p), (ty, out_len, p)) \<in> measure (\<lambda>(_, _, p). length p)"
    using nl_align_ge [of nla_len] by auto
qed simp

declare nl_find_attr.simps [simp del]

section \<open>Transactions\<close>

definition NLMSG_ERROR :: u16 where "NLMSG_ERROR = 2"
definition NLM_F_REQUEST :: u16 where "NLM_F_REQUEST = 1"
definition NLM_F_ACK :: u16 where "NLM_F_ACK = 4"

text \<open>The attributes of a reply that is complete and no error.\<close>

definition nl_reply_payload :: "u8 list option \<Rightarrow> u8 list option" where
  "nl_reply_payload reply =
     (case reply of None \<Rightarrow> None
      | Some r \<Rightarrow>
          (if length r < NLMSG_HDRLEN then None
           else if le16_at 4 r = NLMSG_ERROR then None
           else let len = unat (le32_at 0 r) in
             if length r < len then None
             else Some (drop (NLMSG_HDRLEN + GENL_HDRLEN) (take len r))))"

text \<open>
  An acknowledgement is an error message with code zero.  The code tests the length the header
  claims, not the length received; an error code beyond the bytes received is indeterminate,
  which is the result \<open>None\<close>.
\<close>

definition nl_reply_acked :: "u8 list option \<Rightarrow> bool option" where
  "nl_reply_acked reply =
     (case reply of None \<Rightarrow> Some False
      | Some r \<Rightarrow>
          (if length r < NLMSG_HDRLEN then Some False
           else if le16_at 4 r \<noteq> NLMSG_ERROR then Some False
           else if unat (le32_at 0 r) < NLMSG_HDRLEN + 20 then Some False
           else if length r < NLMSG_HDRLEN + 4 then None
           else Some (le32_at NLMSG_HDRLEN r = 0)))"

definition NL80211_GENL_NAME :: string where "NL80211_GENL_NAME = ''nl80211''"

definition family_request :: "nl_msg option" where
  "family_request = nl_append_attr NL_MSG_CAPACITY 2 (map (\<lambda>c. of_nat (byte_of c)) (NL80211_GENL_NAME @ [NUL]))
     (nl_request 16 NLM_F_REQUEST 1 3 1)"

text \<open>The family id, looked up once; zero is a failed lookup.\<close>

definition nl80211_family_id :: "kernel \<Rightarrow> u16 \<Rightarrow> u16 io" where
  "nl80211_family_id k family =
     (if family \<noteq> 0 then return_io family
      else case family_request of None \<Rightarrow> return_io 0
      | Some m \<Rightarrow> do {
          reply \<leftarrow> sys_netlink k (nl_bytes m) NL_REPLY_CAPACITY;
          return_io (case nl_reply_payload reply of None \<Rightarrow> 0
            | Some p \<Rightarrow> (case nl_find_attr 1 2 p of None \<Rightarrow> 0 | Some v \<Rightarrow> le16_at 0 v))
        })"

definition nl80211_build :: "nl_abi \<Rightarrow> u16 \<Rightarrow> u8 \<Rightarrow> u16 \<Rightarrow> u32 \<Rightarrow> nl_msg option" where
  "nl80211_build abi family cmd extra_flags ifindex =
     nl_append_attr NL_MSG_CAPACITY (nl_attr_ifindex abi) (le32 ifindex)
       (nl_request family (or NLM_F_REQUEST extra_flags) 2 cmd 0)"

definition power_save_request :: "nl_abi \<Rightarrow> u16 \<Rightarrow> u32 \<Rightarrow> bool \<Rightarrow> nl_msg option" where
  "power_save_request abi family ifindex enable =
     Option.bind (nl80211_build abi family (nl_cmd_set_power_save abi) NLM_F_ACK ifindex)
       (nl_append_attr NL_MSG_CAPACITY (nl_attr_ps_state abi)
          (le32 (if enable then nl_ps_enabled abi else nl_ps_disabled abi)))"

definition tx_power_request :: "nl_abi \<Rightarrow> u16 \<Rightarrow> u32 \<Rightarrow> bool \<Rightarrow> u32 \<Rightarrow> nl_msg option" where
  "tx_power_request abi family ifindex automatic mbm =
     Option.bind (nl80211_build abi family (nl_cmd_set_wiphy abi) NLM_F_ACK ifindex) (\<lambda>m.
       Option.bind (nl_append_attr NL_MSG_CAPACITY (nl_attr_tx_setting abi)
           (le32 (if automatic then nl_tx_automatic abi else nl_tx_limited abi)) m) (\<lambda>m.
         if automatic then Some m
         else nl_append_attr NL_MSG_CAPACITY (nl_attr_tx_level abi) (le32 mbm) m))"

definition get_power_save_request :: "nl_abi \<Rightarrow> u16 \<Rightarrow> u32 \<Rightarrow> nl_msg option" where
  "get_power_save_request abi family ifindex = nl80211_build abi family (nl_cmd_get_power_save abi) 0 ifindex"

text \<open>
  One transaction: the interface's index, a socket, the family, the request.  The second component
  of the result is the family cache.
\<close>

definition nl80211_transact ::
  "kernel \<Rightarrow> string \<Rightarrow> (u16 \<Rightarrow> u32 \<Rightarrow> nl_msg option) \<Rightarrow> u16 \<Rightarrow> (u8 list option \<times> u16) io" where
  "nl80211_transact k ifname request family = do {
     ifindex \<leftarrow> sys_ifindex k ifname;
     if ifindex = 0 then return_io (None, family)
     else do {
       fd \<leftarrow> sys_netlink_open k;
       if \<not> fd then return_io (None, family)
       else do {
         fam \<leftarrow> nl80211_family_id k family;
         if fam = 0 then return_io (None, family)
         else case request fam ifindex of None \<Rightarrow> return_io (None, fam)
         | Some m \<Rightarrow> do {
             reply \<leftarrow> sys_netlink k (nl_bytes m) NL_REPLY_CAPACITY;
             return_io (reply, fam)
           }
       }
     }
   }"

definition nl80211_set_power_save :: "globals \<Rightarrow> kernel \<Rightarrow> string \<Rightarrow> bool \<Rightarrow> u16 \<Rightarrow> (bool option \<times> u16) io" where
  "nl80211_set_power_save g k ifname enable family =
     (if gl_sandbox g then return_io (Some False, family)
      else do {
        (reply, fam) \<leftarrow> nl80211_transact k ifname (\<lambda>f i. power_save_request (k_nl_abi k) f i enable) family;
        return_io (nl_reply_acked reply, fam)
      })"

definition nl80211_set_tx_power :: "kernel \<Rightarrow> string \<Rightarrow> bool \<Rightarrow> u32 \<Rightarrow> u16 \<Rightarrow> (bool option \<times> u16) io" where
  "nl80211_set_tx_power k ifname automatic mbm family = do {
     (reply, fam) \<leftarrow> nl80211_transact k ifname (\<lambda>f i. tx_power_request (k_nl_abi k) f i automatic mbm) family;
     return_io (nl_reply_acked reply, fam)
   }"

definition nl80211_get_power_save :: "kernel \<Rightarrow> string \<Rightarrow> u16 \<Rightarrow> (bool option \<times> u16) io" where
  "nl80211_get_power_save k ifname family = do {
     (reply, fam) \<leftarrow> nl80211_transact k ifname (get_power_save_request (k_nl_abi k)) family;
     return_io (case nl_reply_payload reply of None \<Rightarrow> None
       | Some p \<Rightarrow> map_option (\<lambda>v. le32_at 0 v = nl_ps_enabled (k_nl_abi k)) (nl_find_attr (nl_attr_ps_state (k_nl_abi k)) 4 p),
       fam)
   }"

text \<open>The first interface below \<^verbatim>\<open>/sys/class/net\<close> that has a wireless directory.\<close>

definition detect_wireless_ifname :: "kernel \<Rightarrow> nat \<Rightarrow> string option io" where
  "detect_wireless_ifname k cap = do {
     names \<leftarrow> sys_opendir k ''/sys/class/net'';
     case names of None \<Rightarrow> return_io None
     | Some names \<Rightarrow> io_for (\<lambda>found. found = None)
         (\<lambda>name _. if starts_with name ''.'' then return_io None
            else do {
              ok \<leftarrow> sys_exists k (snprintf_cut 128 (''/sys/class/net/'' @ name @ ''/wireless''));
              return_io (if ok then Some (take (cap - 1) name) else None)
            }) names None
   }"

section \<open>Decoding what was built\<close>

lemma length_le [simp]: "length (le16 w16) = 2" "length (le32 w32) = 4"
  by (simp_all add: le16_def le32_def)

lemma le16_at_le16 [simp]: "le16_at 0 (le16 w @ bs) = w"
proof -
  have "or (ucast (ucast w :: u8)) (push_bit 8 (ucast (ucast (drop_bit 8 w) :: u8))) = w"
    by (rule bit_word_eqI) (auto simp: bit_simps)
  then show ?thesis by (simp add: le16_at_def le16_def)
qed

lemma le32_at_le32 [simp]: "le32_at 0 (le32 w @ bs) = w"
proof -
  have "or (or (ucast (ucast w :: u8)) (push_bit 8 (ucast (ucast (drop_bit 8 w) :: u8))))
     (or (push_bit 16 (ucast (ucast (drop_bit 16 w) :: u8))) (push_bit 24 (ucast (ucast (drop_bit 24 w) :: u8)))) = w"
  proof (rule bit_word_eqI)
    fix n assume "n < LENGTH(32)"
    then consider "n < 8" | "8 \<le> n" "n < 16" | "16 \<le> n" "n < 24" | "24 \<le> n" "n < 32" by force
    then show "bit (or (or (ucast (ucast w :: u8) :: u32) (push_bit 8 (ucast (ucast (drop_bit 8 w) :: u8))))
      (or (push_bit 16 (ucast (ucast (drop_bit 16 w) :: u8))) (push_bit 24 (ucast (ucast (drop_bit 24 w) :: u8))))) n = bit w n"
      by cases (auto simp: bit_simps)
  qed
  then show ?thesis by (simp add: le32_at_def le32_def)
qed

lemma le16_at_2 [simp]: "le16_at 2 (le16 w @ bs) = le16_at 0 bs"
  by (simp add: le16_at_def le16_def numeral_2_eq_2)

lemma length_attr_bytes [simp]: "length (attr_bytes ty p) = nl_align (4 + length p)"
  using nl_align_ge [of "4 + length p"] by (simp add: attr_bytes_def Let_def)

lemma nl_align_mod [simp]: "nl_align n mod 4 = 0" "n mod 4 = 0 \<Longrightarrow> nl_align n = n"
  by (auto simp: nl_align_def)

text \<open>One step of the walk, over an attribute as the builder writes it.\<close>

lemma nl_find_attr_step:
  assumes "length p < 60000"
  shows "nl_find_attr ty n (attr_bytes t p @ rest) =
    (if t = ty \<and> n \<le> length p then Some (take n p) else nl_find_attr ty n rest)"
proof -
  define bs where "bs = attr_bytes t p @ rest"
  have "unat (of_nat (4 + length p) :: u16) = 4 + length p"
    using assms by (simp add: unat_of_nat take_bit_eq_mod del: of_nat_add)
  moreover have "le16_at 0 bs = of_nat (4 + length p)" "le16_at 2 bs = t"
    by (simp_all add: bs_def attr_bytes_def Let_def)
  moreover have "drop 4 bs = p @ replicate (nl_align (4 + length p) - (4 + length p)) 0 @ rest"
    by (simp add: bs_def attr_bytes_def Let_def le16_def)
  moreover have "drop (nl_align (4 + length p)) bs = rest" "4 + length p \<le> length bs"
    using nl_align_ge [of "4 + length p"] by (simp_all add: bs_def)
  ultimately have "nl_find_attr ty n bs = (if t = ty \<and> n \<le> length p then Some (take n p) else nl_find_attr ty n rest)"
    by (subst nl_find_attr.simps) (simp add: Let_def del: of_nat_add of_nat_numeral)
  then show ?thesis by (simp add: bs_def)
qed

definition attrs_bytes :: "(u16 \<times> u8 list) list \<Rightarrow> u8 list" where
  "attrs_bytes as = concat (map (\<lambda>(t, p). attr_bytes t p) as)"

text \<open>The walk finds the first attribute of the type that is long enough.\<close>

lemma nl_find_attr_attrs:
  "\<forall>(t, p) \<in> set as. length p < 60000 \<Longrightarrow>
   nl_find_attr ty n (attrs_bytes as) = map_option (\<lambda>(_, p). take n p) (find (\<lambda>(t, p). t = ty \<and> n \<le> length p) as)"
proof (induction as)
  case Nil
  show ?case by (subst nl_find_attr.simps) (simp add: attrs_bytes_def)
next
  case (Cons a as)
  obtain t p where a: "a = (t, p)" by (cases a)
  have "attrs_bytes (a # as) = attr_bytes t p @ attrs_bytes as" by (simp add: attrs_bytes_def a)
  with Cons show ?case by (auto simp: a nl_find_attr_step)
qed

lemma length_attrs_bytes: "length (attrs_bytes as) = (\<Sum>(t, p) \<leftarrow> as. nl_align (4 + length p))"
  by (induction as) (auto simp: attrs_bytes_def)

lemma nl_append_aligned:
  assumes "nm_len m mod 4 = 0" and "nm_len m + nl_align (4 + length p) \<le> cap"
  shows "nl_append_attr cap ty p m = Some (m\<lparr>nm_body := nm_body m @ attr_bytes ty p\<rparr>)"
  using assms by (simp add: nl_append_attr_def Let_def)

lemma request_bodies:
  "power_save_request abi fam i enable = Some \<lparr>nm_type = fam, nm_flags = or NLM_F_REQUEST NLM_F_ACK, nm_seq = 2,
     nm_body = [nl_cmd_set_power_save abi, 0, 0, 0] @ attrs_bytes [(nl_attr_ifindex abi, le32 i),
       (nl_attr_ps_state abi, le32 (if enable then nl_ps_enabled abi else nl_ps_disabled abi))]\<rparr>"
  "tx_power_request abi fam i automatic mbm = Some \<lparr>nm_type = fam, nm_flags = or NLM_F_REQUEST NLM_F_ACK, nm_seq = 2,
     nm_body = [nl_cmd_set_wiphy abi, 0, 0, 0] @ attrs_bytes ([(nl_attr_ifindex abi, le32 i),
       (nl_attr_tx_setting abi, le32 (if automatic then nl_tx_automatic abi else nl_tx_limited abi))] @
       (if automatic then [] else [(nl_attr_tx_level abi, le32 mbm)]))\<rparr>"
  by (simp_all add: power_save_request_def tx_power_request_def nl80211_build_def nl_request_def
      nl_append_aligned nm_len_def nl_align_def attrs_bytes_def)

section \<open>Properties\<close>

text \<open>What a receiver of a message sees.\<close>

definition nl_attr_of :: "u16 \<Rightarrow> nl_msg \<Rightarrow> u8 list option" where
  "nl_attr_of ty m = nl_find_attr ty 4 (drop (NLMSG_HDRLEN + GENL_HDRLEN) (nl_bytes m))"

lemma nl_attr_of_body: "nl_attr_of ty m = nl_find_attr ty 4 (drop 4 (nm_body m))"
  by (simp add: nl_attr_of_def nl_bytes_def le16_def le32_def)

text \<open>C12. The wireless requests say what the caller asked for: each fits in the buffer, carries its
  own length, and decoding it with the daemon's own attribute walk gives back the interface, the
  power-save state, the transmit-power setting and, for a limit, the level.
\<close>

theorem wireless_requests_decode:
  assumes "distinct [nl_attr_ifindex abi, nl_attr_ps_state abi, nl_attr_tx_setting abi, nl_attr_tx_level abi]"
  shows "\<exists>ps tx. power_save_request abi fam i enable = Some ps \<and> tx_power_request abi fam i automatic mbm = Some tx \<and>
    (\<forall>m \<in> {ps, tx}. length (nl_bytes m) \<le> 512 \<and> le32_at 0 (nl_bytes m) = of_nat (length (nl_bytes m)) \<and>
       nl_attr_of (nl_attr_ifindex abi) m = Some (le32 i)) \<and>
    nl_attr_of (nl_attr_ps_state abi) ps = Some (le32 (if enable then nl_ps_enabled abi else nl_ps_disabled abi)) \<and>
    nl_attr_of (nl_attr_tx_setting abi) tx = Some (le32 (if automatic then nl_tx_automatic abi else nl_tx_limited abi)) \<and>
    nl_attr_of (nl_attr_tx_level abi) tx = (if automatic then None else Some (le32 mbm))"
proof -
  have "length (nl_bytes m) = nm_len m" "le32_at 0 (nl_bytes m) = of_nat (nm_len m)" for m
    by (simp_all add: nl_bytes_def nm_len_def)
  then show ?thesis
    using assms
    by (simp add: request_bodies nl_attr_of_body nl_find_attr_attrs nm_len_def length_attrs_bytes nl_align_def)
qed

theorem wireless_requests_decode_witness:
  "\<exists>tx. tx_power_request (k_nl_abi quiet_kernel) 28 3 False 1200 = Some tx \<and> nl_attr_of 98 tx = Some [0xB0, 4, 0, 0]"
  using wireless_requests_decode [of "k_nl_abi quiet_kernel" 28 3 True False 1200]
  by (auto simp: quiet_kernel_def le32_def)

end
