(* ===== verification/Desktop.thy ===== *)
theory Desktop
  imports Platform
begin

text \<open>
  Commands for the desktop session (\<^verbatim>\<open>src/policy/mitigation_engine.cpp\<close>): the daemon runs as
  root, finds the graphical session below \<^verbatim>\<open>/run/user\<close> and hands a command line to the shell that
  drops to the session's user.  The names it finds there are chosen by that user, so the properties
  say what of them can reach the shell.
\<close>

section \<open>The session\<close>

record desktop_session =
  ds_uid :: u32
  ds_gid :: u32
  ds_runtime_dir :: string
  ds_wayland_display :: string
  ds_valid :: bool

definition no_session :: desktop_session where
  "no_session = \<lparr>ds_uid = 0, ds_gid = 0, ds_runtime_dir = [], ds_wayland_display = [], ds_valid = False\<rparr>"

text \<open>The entries of a runtime directory that name a compositor's socket.\<close>

definition is_compositor_socket :: "string \<Rightarrow> bool" where
  "is_compositor_socket name \<longleftrightarrow>
     starts_with name ''wayland-'' \<and> \<not> str_contains name ''.lock'' \<and> is_safe_wayland_component name"

definition first_socket :: "string list \<Rightarrow> string option" where
  "first_socket names = map_option (take 31) (find is_compositor_socket names)"

record session_scan =
  sc_best :: desktop_session
  sc_fallback :: desktop_session

definition candidate_dir :: "string \<Rightarrow> string option" where
  "candidate_dir name =
     (if name = [] \<or> \<not> list_all is_digit name then None
      else let dir = ''/run/user/'' @ name in if 64 \<le> length dir then None else Some dir)"

definition scan_session :: "kernel \<Rightarrow> string \<Rightarrow> session_scan \<Rightarrow> session_scan io" where
  "scan_session k name sc =
     (case candidate_dir name of None \<Rightarrow> return_io sc
      | Some dir \<Rightarrow> do {
          st \<leftarrow> sys_stat k dir;
          case st of None \<Rightarrow> return_io sc
          | Some st \<Rightarrow>
              (if st_kind st \<noteq> Directory \<or> st_uid st < 1000 then return_io sc
               else do {
                 let cand = \<lparr>ds_uid = st_uid st, ds_gid = st_gid st, ds_runtime_dir = dir,
                             ds_wayland_display = ''wayland-0'', ds_valid = True\<rparr>;
                 let sc = (if ds_valid (sc_fallback sc) then sc else sc\<lparr>sc_fallback := cand\<rparr>);
                 names \<leftarrow> sys_opendir k dir;
                 return_io (case names of None \<Rightarrow> sc
                   | Some names \<Rightarrow>
                       (case first_socket names of None \<Rightarrow> sc
                        | Some s \<Rightarrow> sc\<lparr>sc_best := cand\<lparr>ds_wayland_display := s\<rparr>\<rparr>))
               })
        })"

definition detect_desktop_session :: "kernel \<Rightarrow> desktop_session io" where
  "detect_desktop_session k = do {
     names \<leftarrow> sys_opendir k ''/run/user'';
     case names of None \<Rightarrow> return_io no_session
     | Some names \<Rightarrow> do {
         sc \<leftarrow> io_for (\<lambda>sc. \<not> ds_valid (sc_best sc)) (scan_session k) names
                 \<lparr>sc_best = no_session, sc_fallback = no_session\<rparr>;
         return_io (if ds_valid (sc_best sc) then sc_best sc else sc_fallback sc)
       }
   }"

section \<open>The command\<close>

text \<open>The command line; \<open>None\<close> when it would be cut at the buffer's 512 bytes.\<close>

definition desktop_cmd :: "bool \<Rightarrow> desktop_session \<Rightarrow> string \<Rightarrow> string" where
  "desktop_cmd as_root s body =
     ''export WAYLAND_DISPLAY='' @ ds_wayland_display s @ '' XDG_RUNTIME_DIR='' @ ds_runtime_dir s @
     (if as_root
      then ''; setpriv --reuid='' @ show_u32 (ds_uid s) @ '' --regid='' @ show_u32 (ds_gid s) @
           '' --clear-groups sh -c '' @ [CHR 0x27] @ body @ [CHR 0x27] @ '' >/dev/null 2>&1 &''
      else ''; ( '' @ body @ '' ) >/dev/null 2>&1 &'')"

definition execute_user_desktop_cmd :: "globals \<Rightarrow> kernel \<Rightarrow> string \<Rightarrow> bool io" where
  "execute_user_desktop_cmd g k body = do {
     mock \<leftarrow> sys_getenv k ''WATTCURB_TEST_MOCK_DESKTOP'';
     if mock \<noteq> None then return_io True
     else if CHR 0x27 \<in> set body then return_io False
     else do {
       s \<leftarrow> detect_desktop_session k;
       if \<not> ds_valid s then return_io False
       else if \<not> is_safe_wayland_component (ds_wayland_display s) \<or> \<not> is_safe_run_user_dir (ds_runtime_dir s)
       then return_io False
       else do {
         let cmd = desktop_cmd (k_euid k = 0) s body;
         if 512 \<le> length cmd then return_io False else hw_system g k cmd
       }
     }
   }"

section \<open>What it does\<close>

text \<open>A shell command is a desktop command for this body with checked names.\<close>

definition desktop_command_of :: "string \<Rightarrow> string \<Rightarrow> bool" where
  "desktop_command_of body cmd \<longleftrightarrow>
     (\<exists>as_root s. cmd = desktop_cmd as_root s body \<and> is_safe_wayland_component (ds_wayland_display s) \<and>
        is_safe_run_user_dir (ds_runtime_dir s))"

lemma emits_detect_desktop_session:
  assumes "\<And>e. is_read_event e \<Longrightarrow> P e"
  shows "emits P (detect_desktop_session k)"
proof -
  have "emits P (scan_session k name sc)" for name sc
    unfolding scan_session_def sys_defs Let_def using assms by (auto intro!: io_rules)
  then show ?thesis
    unfolding detect_desktop_session_def sys_defs using assms by (auto intro!: io_rules)
qed

lemma emits_desktop_cmd:
  assumes r: "\<And>e. is_read_event e \<Longrightarrow> P e"
    and c: "\<And>cmd ok. \<not> gl_sandbox g \<Longrightarrow> desktop_command_of body cmd \<Longrightarrow> P (EvSystem cmd ok)"
  shows "emits P (execute_user_desktop_cmd g k body)"
proof -
  have "emits P (hw_system g k cmd)" if "desktop_command_of body cmd" for cmd
    unfolding hw_system_def sys_defs using c that by (auto intro!: io_rules)
  then show ?thesis
    unfolding execute_user_desktop_cmd_def Let_def sys_getenv_def
    using r by (auto intro!: io_rules emits_detect_desktop_session simp: desktop_command_of_def)
qed

end
