(* ===== verification/Knobs.thy ===== *)
theory Knobs
  imports Desktop Netlink
begin

text \<open>
  The hardware knobs of the mitigation engine (\<^verbatim>\<open>src/policy/mitigation_engine.cpp\<close>): one
  definition per \<open>set_\<close> and \<open>restore_\<close> function.  The captured hardware baseline, with the flags
  that say which knobs the daemon holds, is the record \<open>baseline\<close>; the fan and the SMU fields of the
  same struct are in the record \<open>platform\<close>.
\<close>

section \<open>State\<close>

record baseline =
  bl_captured :: bool
  bl_platform_profile :: string
  bl_cpu_governor :: string
  bl_cpu_boost :: int
  bl_aspm_policy :: string
  bl_scaling_max_khz :: u32
  bl_orphaned_cap_repaired :: bool
  bl_panel_power_savings :: u32
  bl_gpu_dpm_level :: string
  bl_smt_control :: string
  bl_bluetooth_blocked :: bool
  bl_backlight_brightness :: u32
  bl_backlight_max :: u32
  bl_backlight_capped :: bool
  bl_kwin_blur_unloaded :: bool
  bl_drrs_applied :: bool
  bl_baloo_suspended :: bool
  bl_wifi_txpower_capped :: bool
  bl_vm_writeback_cs :: u32
  bl_vm_expire_cs :: u32
  bl_vm_laptop_mode :: u32
  bl_vm_modified :: bool
  bl_audio_power_save :: i32
  bl_audio_controller :: string
  bl_audio_modified :: bool
  bl_pcie_pm_modified :: bool
  bl_usb_pm_modified :: bool
  bl_perf_pm_qos :: bool
  bl_gpu_mode :: i32
  bl_gpu_mode_modified :: bool
  bl_nvme_latency_us :: u32
  bl_nvme_apst_modified :: bool
  bl_nvme_control :: "string list"
  bl_nvme_control_modified :: bool
  bl_sched_cost_ns :: u64
  bl_sched_cost_modified :: bool
  bl_wifi_power_save :: bool
  bl_wifi_ps_disabled :: bool
  bl_unleash_engaged :: bool
  bl_codec_suspended :: i32

abbreviation "MAX_NVME_CONTROLLERS \<equiv> (4 :: nat)"

definition baseline_init :: baseline where
  "baseline_init = \<lparr>bl_captured = False, bl_platform_profile = ''balanced'', bl_cpu_governor = ''schedutil'',
     bl_cpu_boost = 1, bl_aspm_policy = ''default'', bl_scaling_max_khz = 0, bl_orphaned_cap_repaired = False,
     bl_panel_power_savings = 1, bl_gpu_dpm_level = ''auto'', bl_smt_control = ''on'',
     bl_bluetooth_blocked = False, bl_backlight_brightness = 0, bl_backlight_max = 0,
     bl_backlight_capped = False, bl_kwin_blur_unloaded = False, bl_drrs_applied = False,
     bl_baloo_suspended = False, bl_wifi_txpower_capped = False, bl_vm_writeback_cs = 500,
     bl_vm_expire_cs = 3000, bl_vm_laptop_mode = 0, bl_vm_modified = False, bl_audio_power_save = - 1,
     bl_audio_controller = ''N'', bl_audio_modified = False, bl_pcie_pm_modified = False,
     bl_usb_pm_modified = False, bl_perf_pm_qos = False, bl_gpu_mode = - 1, bl_gpu_mode_modified = False,
     bl_nvme_latency_us = 100000, bl_nvme_apst_modified = False, bl_nvme_control = [[], [], [], []],
     bl_nvme_control_modified = False, bl_sched_cost_ns = 500000, bl_sched_cost_modified = False,
     bl_wifi_power_save = True, bl_wifi_ps_disabled = False, bl_unleash_engaged = False,
     bl_codec_suspended = - 1\<rparr>"

text \<open>The function-local and file-local statics of the engine that are no baseline.\<close>

record statics =
  sx_epp_applied :: bool
  sx_competitor_checked :: bool
  sx_competitor :: "string option"
  sx_competitor_probe :: u32
  sx_conflict_logged :: bool
  sx_nl_family :: u16

definition statics_init :: statics where
  "statics_init = \<lparr>sx_epp_applied = False, sx_competitor_checked = False, sx_competitor = None,
     sx_competitor_probe = 0, sx_conflict_logged = False, sx_nl_family = 0\<rparr>"

section \<open>Files\<close>

definition atoi :: "string \<Rightarrow> i32" where
  "atoi s = wrap_i32 (fst (strtol (c_str s)))"

definition show_i32 :: "i32 \<Rightarrow> string" where
  "show_i32 = show_int"

text \<open>A small file that can be read and is not empty.\<close>

definition read_some :: "kernel \<Rightarrow> string \<Rightarrow> nat \<Rightarrow> string option io" where
  "read_some k path len = do {
     r \<leftarrow> read_small_file k path len;
     return_io (case r of None \<Rightarrow> None | Some s \<Rightarrow> if s = [] then None else Some s)
   }"

text \<open>\<open>open\<close>, one \<open>write\<close>, and a second \<open>write\<close> of a newline; nothing when the file cannot be opened.\<close>

definition write_line :: "globals \<Rightarrow> kernel \<Rightarrow> string \<Rightarrow> string \<Rightarrow> bool option io" where
  "write_line g k path data = do {
     ok \<leftarrow> hw_open_write g k path;
     if \<not> ok then return_io None
     else do { n \<leftarrow> sys_write k path data; sys_write k path [NL]; return_io (Some (0 < n)) }
   }"

text \<open>The same with one write, for the knobs that ask whether the file could be opened.\<close>

definition write_opened :: "globals \<Rightarrow> kernel \<Rightarrow> string \<Rightarrow> string \<Rightarrow> bool option io" where
  "write_opened g k path data = do {
     ok \<leftarrow> hw_open_write g k path;
     if \<not> ok then return_io None else do { n \<leftarrow> sys_write k path data; return_io (Some (0 < n)) }
   }"

definition write_u32_sysctl :: "globals \<Rightarrow> kernel \<Rightarrow> string \<Rightarrow> u32 \<Rightarrow> bool io" where
  "write_u32_sysctl g k path v = write_file g k path (show_u32 v @ [NL])"

text \<open>Write to the first of these files that opens.\<close>

fun write_first :: "globals \<Rightarrow> kernel \<Rightarrow> string list \<Rightarrow> string \<Rightarrow> bool option io" where
  "write_first g k [] data = return_io None"
| "write_first g k (p # ps) data = do {
     r \<leftarrow> write_opened g k p data;
     case r of Some ok \<Rightarrow> return_io (Some ok) | None \<Rightarrow> write_first g k ps data
   }"

section \<open>The firmware's platform profile\<close>

definition competitors :: "(string \<times> string) list" where
  "competitors = [(''power-profiles-'', ''power-profiles-daemon''), (''tuned'', ''tuned''), (''tlp'', ''tlp''),
     (''auto-cpufreq'', ''auto-cpufreq'')]"

definition rstrip_nl :: "string \<Rightarrow> string" where
  "rstrip_nl s = rev (dropWhile (\<lambda>c. c = NL \<or> c = CR) (rev s))"

definition competing_power_manager :: "kernel \<Rightarrow> string option io" where
  "competing_power_manager k = do {
     names \<leftarrow> sys_opendir k ''/proc'';
     case names of None \<Rightarrow> return_io None
     | Some names \<Rightarrow> io_for (\<lambda>found. found = None) (\<lambda>name _.
         if name = [] \<or> \<not> is_digit (hd name) then return_io None
         else do {
           r \<leftarrow> read_some k (snprintf_cut 64 (''/proc/'' @ name @ ''/comm'')) 32;
           return_io (case r of None \<Rightarrow> None | Some s \<Rightarrow> map_of competitors (c_str (rstrip_nl s)))
         }) names None
   }"

definition PLATFORM_PROFILE :: string where
  "PLATFORM_PROFILE = ''/sys/firmware/acpi/platform_profile''"

definition ppd_name :: "string \<Rightarrow> string" where
  "ppd_name profile = (if profile = ''performance'' then ''performance''
     else if profile = ''low-power'' then ''power-saver'' else ''balanced'')"

definition ppd_cmd :: "string \<Rightarrow> string" where
  "ppd_cmd profile = ''powerprofilesctl set '' @ ppd_name profile @ '' 2>/dev/null''"

definition probe_competitor :: "kernel \<Rightarrow> statics \<Rightarrow> statics io" where
  "probe_competitor k x =
     (if \<not> sx_competitor_checked x
      then do { c \<leftarrow> competing_power_manager k;
                return_io (x\<lparr>sx_competitor := c, sx_competitor_checked := True\<rparr>) }
      else let x = x\<lparr>sx_competitor_probe := sx_competitor_probe x + 1\<rparr>
           in if sx_competitor_probe x mod 100 = 0
              then do { c \<leftarrow> competing_power_manager k; return_io (x\<lparr>sx_competitor := c\<rparr>) }
              else return_io x)"

definition set_platform_profile :: "globals \<Rightarrow> kernel \<Rightarrow> string \<Rightarrow> statics \<Rightarrow> (bool \<times> statics) io" where
  "set_platform_profile g k profile x = do {
     cur \<leftarrow> read_some k PLATFORM_PROFILE 31;
     if (case cur of Some s \<Rightarrow> c_str (rstrip_nl s) = profile | None \<Rightarrow> False) then return_io (True, x)
     else do {
       x \<leftarrow> probe_competitor k x;
       case sx_competitor x of
         Some c \<Rightarrow>
           (if str_contains c ''power-profiles-daemon''
            then do {
              ok \<leftarrow> hw_system g k (ppd_cmd profile);
              io_when (\<not> ok) (log_event (EvAlert ''CONFLICT''));
              return_io (ok, x) }
            else do {
              io_when (\<not> sx_conflict_logged x) (log_event (EvAlert ''CONFLICT''));
              return_io (False, x\<lparr>sx_conflict_logged := True\<rparr>) })
       | None \<Rightarrow> do {
           w \<leftarrow> write_line g k PLATFORM_PROFILE profile;
           return_io (w = Some True, x) }
     }
   }"

section \<open>Processor\<close>

text \<open>Write the same text to a file of every processor below a bound.\<close>

definition write_each_cpu :: "globals \<Rightarrow> kernel \<Rightarrow> nat \<Rightarrow> string \<Rightarrow> string \<Rightarrow> bool io" where
  "write_each_cpu g k n leaf data = io_for (\<lambda>_. True)
     (\<lambda>i any. do { w \<leftarrow> write_file g k (cpufreq_path i leaf) data; return_io (w \<or> any) }) (map int [0..<n]) False"

definition set_cpu_governor :: "globals \<Rightarrow> kernel \<Rightarrow> string \<Rightarrow> bool io" where
  "set_cpu_governor g k governor = write_each_cpu g k (nat (total_online_cpus k)) ''scaling_governor'' governor"

definition set_cpu_epp_policy :: "globals \<Rightarrow> kernel \<Rightarrow> string \<Rightarrow> statics \<Rightarrow> (bool \<times> statics) io" where
  "set_cpu_epp_policy g k policy x = do {
     any \<leftarrow> write_each_cpu g k (nat (total_online_cpus k)) ''energy_performance_preference'' policy;
     return_io (any, x\<lparr>sx_epp_applied := any\<rparr>)
   }"

definition enforce_cpu_freq_floor :: "globals \<Rightarrow> kernel \<Rightarrow> unit io" where
  "enforce_cpu_freq_floor g k = do {
     m \<leftarrow> read_u32_file k (cpufreq_path 0 ''cpuinfo_min_freq'') 32;
     case m of None \<Rightarrow> return_io ()
     | Some hw_min \<Rightarrow>
         (if hw_min = 0 then return_io ()
          else do {
            write_each_cpu g k (min 256 (nat (total_online_cpus k))) ''scaling_min_freq'' (show_u32 hw_min @ [NL]);
            return_io ()
          })
   }"

definition SMT_CONTROL :: string where "SMT_CONTROL = ''/sys/devices/system/cpu/smt/control''"

definition set_smt_control :: "globals \<Rightarrow> kernel \<Rightarrow> string \<Rightarrow> bool io" where
  "set_smt_control g k state = do { w \<leftarrow> write_line g k SMT_CONTROL state; return_io (w = Some True) }"

definition SCHED_COST :: string where "SCHED_COST = ''/proc/sys/kernel/sched_migration_cost_ns''"

definition set_sched_migration_cost :: "globals \<Rightarrow> kernel \<Rightarrow> u64 \<Rightarrow> baseline \<Rightarrow> (bool \<times> baseline) io" where
  "set_sched_migration_cost g k cost b = do {
     w \<leftarrow> write_opened g k SCHED_COST (show_nat (unat cost) @ [NL]);
     return_io (if w = None then (False, b) else (True, b\<lparr>bl_sched_cost_modified := True\<rparr>))
   }"

definition restore_sched_migration_cost_baseline :: "globals \<Rightarrow> kernel \<Rightarrow> baseline \<Rightarrow> (bool \<times> baseline) io" where
  "restore_sched_migration_cost_baseline g k b =
     (if \<not> bl_sched_cost_modified b then return_io (True, b)
      else do {
        (_, b) \<leftarrow> set_sched_migration_cost g k (bl_sched_cost_ns b) b;
        return_io (True, b\<lparr>bl_sched_cost_modified := False\<rparr>)
      })"

definition CPU_DMA_LATENCY :: string where "CPU_DMA_LATENCY = ''/dev/cpu_dma_latency''"

definition set_performance_pm_qos :: "globals \<Rightarrow> kernel \<Rightarrow> bool \<Rightarrow> baseline \<Rightarrow> baseline io" where
  "set_performance_pm_qos g k enable b =
     (if enable
      then if bl_perf_pm_qos b then return_io b
           else do {
             ok \<leftarrow> (if gl_sandbox g then return_io False else sys_open_fd k CPU_DMA_LATENCY);
             if \<not> ok then return_io b
             else do {
               n \<leftarrow> sys_write k CPU_DMA_LATENCY (le_bytes32 0);
               if n = 4 then return_io (b\<lparr>bl_perf_pm_qos := True\<rparr>)
               else do { sys_close_fd CPU_DMA_LATENCY; return_io b }
             }
           }
      else if bl_perf_pm_qos b
           then do { sys_close_fd CPU_DMA_LATENCY; return_io (b\<lparr>bl_perf_pm_qos := False\<rparr>) }
           else return_io b)"

section \<open>Buses\<close>

definition ASPM_POLICY :: string where "ASPM_POLICY = ''/sys/module/pcie_aspm/parameters/policy''"

definition set_pcie_aspm_policy :: "globals \<Rightarrow> kernel \<Rightarrow> string \<Rightarrow> bool io" where
  "set_pcie_aspm_policy g k policy = write_file g k ASPM_POLICY policy"

text \<open>\<open>strtoul\<close> with base 16: blanks, a sign, an optional \<^verbatim>\<open>0x\<close>, hexadecimal digits.\<close>

definition strtoul16 :: "string \<Rightarrow> u64" where
  "strtoul16 s =
     (let (neg, t) = split_sign (skip_space s);
          t = (if starts_with_nocase t ''0x'' \<and> (case drop 2 t of c # _ \<Rightarrow> hex_val c \<noteq> None | [] \<Rightarrow> False)
               then drop 2 t else t);
          v = radix_val 16 hex_val 0 (takeWhile (\<lambda>c. hex_val c \<noteq> None) t)
      in if 2 ^ 64 \<le> v then - 1 else if neg then - of_nat v else of_nat v)"

definition pci_control_path :: "string \<Rightarrow> string" where
  "pci_control_path name = snprintf_cut 256 (''/sys/bus/pci/devices/'' @ name @ ''/power/control'')"

definition pci_runtime_pm_one :: "globals \<Rightarrow> kernel \<Rightarrow> string \<Rightarrow> unit io" where
  "pci_runtime_pm_one g k name =
     (if starts_with name ''.'' then return_io ()
      else do {
        r \<leftarrow> read_some k (snprintf_cut 256 (''/sys/bus/pci/devices/'' @ name @ ''/class'')) 31;
        case r of None \<Rightarrow> return_io ()
        | Some s \<Rightarrow>
            (if \<not> pci_class_allows_runtime_pm (ucast (strtoul16 (c_str s))) (gl_audio_active g) then return_io ()
             else do {
               write_file g k (pci_control_path name) (''auto'' @ [NL]);
               return_io ()
             })
      })"

definition apply_pcie_runtime_pm_auto :: "globals \<Rightarrow> kernel \<Rightarrow> unit io" where
  "apply_pcie_runtime_pm_auto g k = do {
     names \<leftarrow> sys_opendir k ''/sys/bus/pci/devices'';
     case names of None \<Rightarrow> return_io ()
     | Some names \<Rightarrow> io_for (\<lambda>_. True) (\<lambda>name _. pci_runtime_pm_one g k name) names ()
   }"

text \<open>Input devices (class 03) and Bluetooth adapters (class e0) are immune.\<close>

definition immune_usb_class :: "string option \<Rightarrow> bool" where
  "immune_usb_class r =
     (case r of None \<Rightarrow> False | Some s \<Rightarrow> str_contains (c_str s) ''03'' \<or> str_contains (c_str s) ''e0'')"

definition usb_dev_path :: "string \<Rightarrow> string" where
  "usb_dev_path name = snprintf_cut 256 (''/sys/bus/usb/devices/'' @ name)"

definition usb_control_path :: "string \<Rightarrow> string" where
  "usb_control_path name = snprintf_cut 320 (usb_dev_path name @ ''/power/control'')"

definition is_immune_usb :: "kernel \<Rightarrow> string \<Rightarrow> bool io" where
  "is_immune_usb k name = do {
     r \<leftarrow> read_some k (snprintf_cut 320 (usb_dev_path name @ ''/bDeviceClass'')) 15;
     if immune_usb_class r then return_io True
     else do {
       subs \<leftarrow> sys_opendir k (usb_dev_path name);
       case subs of None \<Rightarrow> return_io False
       | Some subs \<Rightarrow> io_for (\<lambda>immune. \<not> immune) (\<lambda>sub _.
           if CHR '':'' \<notin> set sub then return_io False
           else do {
             r \<leftarrow> read_some k (snprintf_cut 384 (usb_dev_path name @ ''/'' @ sub @ ''/bInterfaceClass'')) 15;
             return_io (immune_usb_class r)
           }) subs False
     }
   }"

definition usb_runtime_pm_one :: "globals \<Rightarrow> kernel \<Rightarrow> string \<Rightarrow> unit io" where
  "usb_runtime_pm_one g k name =
     (if starts_with name ''.'' \<or> CHR '':'' \<in> set name then return_io ()
      else do {
        immune \<leftarrow> is_immune_usb k name;
        if immune then return_io ()
        else do {
          write_file g k (usb_control_path name) (''auto'' @ [NL]);
          return_io ()
        }
      })"

definition apply_usb_runtime_pm_auto :: "globals \<Rightarrow> kernel \<Rightarrow> unit io" where
  "apply_usb_runtime_pm_auto g k = do {
     names \<leftarrow> sys_opendir k ''/sys/bus/usb/devices'';
     case names of None \<Rightarrow> return_io ()
     | Some names \<Rightarrow> io_for (\<lambda>_. True) (\<lambda>name _. usb_runtime_pm_one g k name) names ()
   }"

end
