(* ===== verification/Peripherals.thy ===== *)
theory Peripherals
  imports Knobs
begin

text \<open>
  The knobs of the peripherals (\<^verbatim>\<open>src/policy/mitigation_engine.cpp\<close>): graphics, storage, wireless,
  display, desktop services, writeback and the audio codec.
\<close>

section \<open>Graphics\<close>

definition PANEL_PATHS :: "string list" where
  "PANEL_PATHS = [''/sys/class/drm/card1-eDP-1/amdgpu/panel_power_savings'',
     ''/sys/class/drm/card0-eDP-1/amdgpu/panel_power_savings'']"

text \<open>Write to the first file that takes it.\<close>

fun write_first_ok :: "globals \<Rightarrow> kernel \<Rightarrow> string list \<Rightarrow> string \<Rightarrow> bool io" where
  "write_first_ok g k [] data = return_io False"
| "write_first_ok g k (p # ps) data = do {
     w \<leftarrow> write_file g k p data; if w then return_io True else write_first_ok g k ps data
   }"

definition set_panel_power_savings :: "globals \<Rightarrow> kernel \<Rightarrow> u32 \<Rightarrow> bool io" where
  "set_panel_power_savings g k level = write_first_ok g k PANEL_PATHS (show_u32 level @ [NL])"

definition GPU_DIRS :: "string list" where
  "GPU_DIRS = [''/sys/class/drm/card1/device'', ''/sys/class/drm/card0/device'']"

definition GPU_DPM_PATHS :: "string list" where
  "GPU_DPM_PATHS = map (\<lambda>d. d @ ''/power_dpm_force_performance_level'') GPU_DIRS"

definition GPU_MODE_PATHS :: "string list" where
  "GPU_MODE_PATHS = map (\<lambda>d. d @ ''/pp_power_profile_mode'') GPU_DIRS"

definition set_gpu_dpm_level :: "globals \<Rightarrow> kernel \<Rightarrow> string \<Rightarrow> bool io" where
  "set_gpu_dpm_level g k level = io_for (\<lambda>fin. \<not> fin)
     (\<lambda>p _. do { w \<leftarrow> write_line g k p level; return_io (w \<noteq> None) }) GPU_DPM_PATHS False"

definition set_gpu_max_clock :: "globals \<Rightarrow> kernel \<Rightarrow> u32 \<Rightarrow> bool io" where
  "set_gpu_max_clock g k mhz = set_gpu_dpm_level g k ''low''"

definition restore_gpu_max_clock :: "globals \<Rightarrow> kernel \<Rightarrow> baseline \<Rightarrow> bool io" where
  "restore_gpu_max_clock g k b =
     set_gpu_dpm_level g k (if bl_gpu_dpm_level b \<noteq> [] then bl_gpu_dpm_level b else ''auto'')"

definition set_gpu_power_profile_mode :: "globals \<Rightarrow> kernel \<Rightarrow> i32 \<Rightarrow> baseline \<Rightarrow> (bool \<times> baseline) io" where
  "set_gpu_power_profile_mode g k mode b = do {
     w \<leftarrow> write_first g k GPU_MODE_PATHS (show_i32 mode @ [NL]);
     return_io (if w = None then (False, b) else (True, b\<lparr>bl_gpu_mode_modified := True\<rparr>))
   }"

definition restore_gpu_power_profile_mode_baseline :: "globals \<Rightarrow> kernel \<Rightarrow> baseline \<Rightarrow> (bool \<times> baseline) io" where
  "restore_gpu_power_profile_mode_baseline g k b =
     (if \<not> bl_gpu_mode_modified b then return_io (True, b)
      else do {
        (_, b) \<leftarrow> set_gpu_power_profile_mode g k (if 0 \<le> bl_gpu_mode b then bl_gpu_mode b else 0) b;
        return_io (True, b\<lparr>bl_gpu_mode_modified := False\<rparr>)
      })"

text \<open>The number at the start of the first row that holds a star.\<close>

fun active_gpu_row :: "string \<Rightarrow> i32 option" where
  "active_gpu_row s =
     (if s = [] then None
      else if CHR ''*'' \<in> set (take_line s) then Some (wrap_i32 (fst (strtol s)))
      else active_gpu_row (drop_line s))"

declare active_gpu_row.simps [simp del]

definition read_gpu_power_profile_mode :: "kernel \<Rightarrow> i32 io" where
  "read_gpu_power_profile_mode k = do {
     m \<leftarrow> io_for (\<lambda>m. m = None) (\<lambda>p _. do {
         r \<leftarrow> read_some k p 4096;
         return_io (case r of None \<Rightarrow> None | Some s \<Rightarrow> active_gpu_row (c_str s)) }) GPU_MODE_PATHS None;
     return_io (case m of Some v \<Rightarrow> v | None \<Rightarrow> - 1)
   }"

section \<open>Storage\<close>

definition NVME_LATENCY :: string where
  "NVME_LATENCY = ''/sys/module/nvme_core/parameters/default_ps_max_latency_us''"

definition nvme_control_path :: "nat \<Rightarrow> string" where
  "nvme_control_path i = ''/sys/class/nvme/nvme'' @ show_nat i @ ''/power/control''"

definition set_nvme_apst_max_latency :: "globals \<Rightarrow> kernel \<Rightarrow> u32 \<Rightarrow> baseline \<Rightarrow> (bool \<times> baseline) io" where
  "set_nvme_apst_max_latency g k us b = do {
     w \<leftarrow> write_opened g k NVME_LATENCY (show_u32 us @ [NL]);
     return_io (if w = None then (False, b) else (True, b\<lparr>bl_nvme_apst_modified := True\<rparr>))
   }"

definition set_nvme_power_control :: "globals \<Rightarrow> kernel \<Rightarrow> string \<Rightarrow> baseline \<Rightarrow> (bool \<times> baseline) io" where
  "set_nvme_power_control g k value b =
     (if value = [] then return_io (False, b)
      else do {
        actuated \<leftarrow> io_for (\<lambda>_. True) (\<lambda>i any. do {
            w \<leftarrow> write_file g k (nvme_control_path i) (snprintf_cut 16 (value @ [NL]));
            return_io (w \<or> any) }) [0..<MAX_NVME_CONTROLLERS] False;
        return_io (actuated, if actuated then b\<lparr>bl_nvme_control_modified := True\<rparr> else b)
      })"

definition restore_nvme_power_control_baseline :: "globals \<Rightarrow> kernel \<Rightarrow> baseline \<Rightarrow> (bool \<times> baseline) io" where
  "restore_nvme_power_control_baseline g k b =
     (if \<not> bl_nvme_control_modified b then return_io (True, b)
      else do {
        io_for (\<lambda>_. True) (\<lambda>i _. do {
            let v = bl_nvme_control b ! i;
            io_when (v \<noteq> [])
              (do { write_file g k (nvme_control_path i) (snprintf_cut 16 (v @ [NL])); return_io () }) })
          [0..<MAX_NVME_CONTROLLERS] ();
        return_io (True, b\<lparr>bl_nvme_control_modified := False\<rparr>)
      })"

definition restore_nvme_apst_baseline :: "globals \<Rightarrow> kernel \<Rightarrow> baseline \<Rightarrow> (bool \<times> baseline) io" where
  "restore_nvme_apst_baseline g k b = do {
     (_, b) \<leftarrow> restore_nvme_power_control_baseline g k b;
     if \<not> bl_nvme_apst_modified b then return_io (True, b)
     else do {
       (_, b) \<leftarrow> set_nvme_apst_max_latency g k (bl_nvme_latency_us b) b;
       return_io (True, b\<lparr>bl_nvme_apst_modified := False\<rparr>)
     }
   }"

section \<open>Wireless\<close>

definition wifi_control_path :: "string \<Rightarrow> string" where
  "wifi_control_path ifname = snprintf_cut 96 (''/sys/class/net/'' @ ifname @ ''/device/power/control'')"

definition set_wifi_powersave ::
  "globals \<Rightarrow> kernel \<Rightarrow> bool \<Rightarrow> baseline \<times> statics \<Rightarrow> (bool \<times> baseline \<times> statics) option io" where
  "set_wifi_powersave g k enable s =
     (let (b, x) = s
      in if gl_sandbox g then return_io (Some (True, b\<lparr>bl_wifi_ps_disabled := \<not> enable\<rparr>, x))
      else do {
        ifname \<leftarrow> detect_wireless_ifname k 32;
        case ifname of None \<Rightarrow> return_io (Some (False, b\<lparr>bl_wifi_ps_disabled := False\<rparr>, x))
        | Some ifname \<Rightarrow> do {
            pm_ok \<leftarrow> write_file g k (wifi_control_path ifname) (if enable then ''auto'' @ [NL] else ''on'' @ [NL]);
            (ps_ok, fam) \<leftarrow> nl80211_set_power_save g k ifname enable (sx_nl_family x);
            return_io (case ps_ok of None \<Rightarrow> None
              | Some ps_ok \<Rightarrow> let actuated = pm_ok \<or> ps_ok
                 in Some (actuated, b\<lparr>bl_wifi_ps_disabled := actuated \<and> \<not> enable\<rparr>, x\<lparr>sx_nl_family := fam\<rparr>))
          }
      })"

definition restore_wifi_powersave_baseline ::
  "globals \<Rightarrow> kernel \<Rightarrow> baseline \<times> statics \<Rightarrow> (bool \<times> baseline \<times> statics) option io" where
  "restore_wifi_powersave_baseline g k s =
     (let (b, x) = s
      in if \<not> bl_wifi_ps_disabled b then return_io (Some (True, b, x))
      else do {
        r \<leftarrow> set_wifi_powersave g k (bl_wifi_power_save b) (b, x);
        return_io (map_option (\<lambda>(_, b, x). (True, b\<lparr>bl_wifi_ps_disabled := False\<rparr>, x)) r)
      })"

definition set_wifi_txpower_limit ::
  "globals \<Rightarrow> kernel \<Rightarrow> u32 \<Rightarrow> baseline \<times> statics \<Rightarrow> (bool \<times> baseline \<times> statics) option io" where
  "set_wifi_txpower_limit g k mbm s =
     (let (b, x) = s
      in if gl_sandbox g then return_io (Some (True, b\<lparr>bl_wifi_txpower_capped := True\<rparr>, x))
      else do {
        ifname \<leftarrow> detect_wireless_ifname k 32;
        case ifname of None \<Rightarrow> return_io (Some (False, b, x))
        | Some ifname \<Rightarrow> do {
            (ok, fam) \<leftarrow> nl80211_set_tx_power k ifname False mbm (sx_nl_family x);
            return_io (map_option (\<lambda>ok. (ok, b\<lparr>bl_wifi_txpower_capped := True\<rparr>, x\<lparr>sx_nl_family := fam\<rparr>)) ok)
          }
      })"

definition restore_wifi_txpower ::
  "globals \<Rightarrow> kernel \<Rightarrow> baseline \<times> statics \<Rightarrow> (bool \<times> baseline \<times> statics) option io" where
  "restore_wifi_txpower g k s =
     (let (b, x) = s; freed = b\<lparr>bl_wifi_txpower_capped := False\<rparr>
      in if \<not> bl_wifi_txpower_capped b then return_io (Some (False, b, x))
      else if gl_sandbox g then return_io (Some (True, freed, x))
      else do {
        ifname \<leftarrow> detect_wireless_ifname k 32;
        case ifname of None \<Rightarrow> return_io (Some (False, freed, x))
        | Some ifname \<Rightarrow> do {
            (ok, fam) \<leftarrow> nl80211_set_tx_power k ifname True 0 (sx_nl_family x);
            return_io (map_option (\<lambda>ok. (ok, freed, x\<lparr>sx_nl_family := fam\<rparr>)) ok)
          }
      })"

definition rfkill_path :: "nat \<Rightarrow> string \<Rightarrow> string" where
  "rfkill_path r leaf = ''/sys/class/rfkill/rfkill'' @ show_nat r @ ''/'' @ leaf"

definition is_bluetooth :: "string option \<Rightarrow> bool" where
  "is_bluetooth r = (case r of None \<Rightarrow> False | Some s \<Rightarrow> starts_with s ''bluetooth'')"

definition BLUETOOTH_ON :: string where
  "BLUETOOTH_ON = ''bluetoothctl power on 2>/dev/null &''"

definition set_bluetooth_blocked :: "globals \<Rightarrow> kernel \<Rightarrow> bool \<Rightarrow> bool io" where
  "set_bluetooth_blocked g k block = do {
     any \<leftarrow> io_for (\<lambda>_. True) (\<lambda>r any. do {
         t \<leftarrow> read_some k (rfkill_path r ''type'') 31;
         if \<not> is_bluetooth t then return_io any
         else do { w \<leftarrow> write_file g k (rfkill_path r ''soft'') (if block then ''1'' @ [NL] else ''0'' @ [NL]);
                   return_io (w \<or> any) } }) [0..<16] False;
     io_when (\<not> block) (do { execute_user_desktop_cmd g k BLUETOOTH_ON; return_io () });
     return_io any
   }"

section \<open>Display\<close>

definition BACKLIGHT_DIRS :: "string list" where
  "BACKLIGHT_DIRS = [''/sys/class/backlight/amdgpu_bl1'', ''/sys/class/backlight/amdgpu_bl0'',
     ''/sys/class/backlight/intel_backlight'']"

abbreviation brightness_path :: "string \<Rightarrow> string" where
  "brightness_path d \<equiv> d @ ''/brightness''"

definition backlight_cap :: "u32 \<Rightarrow> float64 \<Rightarrow> u32 option" where
  "backlight_cap max_b max_pct =
     (let pct = (if fp_lt max_pct (Fin 10) then Fin 10 else if fp_lt (Fin 100) max_pct then Fin 100 else max_pct)
      in map_option of_int (fp_to_int 0 (2 ^ 32 - 1) (mul64 (fp_of_int Binary64 (uint max_b)) (div64 pct (Fin 100)))))"

text \<open>
  One device: the first component of the result is the function's return, \<open>None\<close> for the next
  device; the outer \<open>None\<close> is a cast out of range.
\<close>

definition cap_backlight_one ::
  "globals \<Rightarrow> kernel \<Rightarrow> float64 \<Rightarrow> string \<Rightarrow> bool \<times> baseline \<Rightarrow> (bool \<times> baseline) option io" where
  "cap_backlight_one g k max_pct dir acc =
     (let b = snd acc in do {
        m \<leftarrow> read_u32_file k (dir @ ''/max_brightness'') 31;
        case m of None \<Rightarrow> return_io (Some (False, b))
        | Some max_b \<Rightarrow>
            (if max_b = 0 then return_io (Some (False, b))
             else do {
               c \<leftarrow> read_u32_file k (brightness_path dir) 31;
               case c of None \<Rightarrow> return_io (Some (False, b))
               | Some cur_b \<Rightarrow>
                   (let b = (if bl_backlight_capped b then b
                             else b\<lparr>bl_backlight_brightness := cur_b, bl_backlight_max := max_b\<rparr>)
                    in case backlight_cap max_b max_pct of None \<Rightarrow> return_io None
                    | Some cap_b \<Rightarrow>
                        (if \<not> cap_b < cur_b then return_io (Some (False, b))
                         else do {
                           w \<leftarrow> write_opened g k (brightness_path dir) (show_u32 cap_b @ [NL]);
                           return_io (Some (if w = None then (False, b)
                                            else (True, b\<lparr>bl_backlight_capped := True\<rparr>)))
                         }))
             })
      })"

definition cap_display_backlight :: "globals \<Rightarrow> kernel \<Rightarrow> float64 \<Rightarrow> baseline \<Rightarrow> (bool \<times> baseline) option io" where
  "cap_display_backlight g k max_pct b =
     io_for (\<lambda>acc. case acc of None \<Rightarrow> False | Some (fin, _) \<Rightarrow> \<not> fin)
       (\<lambda>dir acc. cap_backlight_one g k max_pct dir (the acc)) BACKLIGHT_DIRS (Some (False, b))"

definition restore_display_backlight :: "globals \<Rightarrow> kernel \<Rightarrow> baseline \<Rightarrow> (bool \<times> baseline) io" where
  "restore_display_backlight g k b =
     (if \<not> bl_backlight_capped b \<or> bl_backlight_brightness b = 0 then return_io (False, b)
      else do {
        w \<leftarrow> write_first g k (map brightness_path BACKLIGHT_DIRS) (show_u32 (bl_backlight_brightness b) @ [NL]);
        return_io (if w = None then (False, b) else (True, b\<lparr>bl_backlight_capped := False\<rparr>))
      })"

section \<open>Desktop services\<close>

definition DRRS_LOW :: string where "DRRS_LOW = ''kscreen-doctor output.1.mode.2''"
definition DRRS_HIGH :: string where "DRRS_HIGH = ''kscreen-doctor output.1.mode.1''"
definition BLUR_OFF :: string where "BLUR_OFF = ''qdbus6 org.kde.KWin /Effects unloadEffect blur''"
definition BLUR_ON :: string where "BLUR_ON = ''qdbus6 org.kde.KWin /Effects loadEffect blur''"
definition BALOO_OFF :: string where
  "BALOO_OFF = ''balooctl6 suspend 2>/dev/null || balooctl suspend 2>/dev/null''"
definition BALOO_ON :: string where
  "BALOO_ON = ''balooctl6 resume 2>/dev/null || balooctl resume 2>/dev/null''"

definition set_display_refresh_rate :: "globals \<Rightarrow> kernel \<Rightarrow> u32 \<Rightarrow> baseline \<Rightarrow> (bool \<times> baseline) io" where
  "set_display_refresh_rate g k hz b =
     (let target = (hz \<le> 50)
      in if bl_drrs_applied b = target then return_io (True, b)
      else do {
        ok \<leftarrow> execute_user_desktop_cmd g k (if target then DRRS_LOW else DRRS_HIGH);
        return_io (ok, b\<lparr>bl_drrs_applied := target\<rparr>)
      })"

definition set_kwin_effects_suspended :: "globals \<Rightarrow> kernel \<Rightarrow> bool \<Rightarrow> baseline \<Rightarrow> (bool \<times> baseline) io" where
  "set_kwin_effects_suspended g k suspend b =
     (if bl_kwin_blur_unloaded b = suspend then return_io (True, b)
      else do {
        ok \<leftarrow> execute_user_desktop_cmd g k (if suspend then BLUR_OFF else BLUR_ON);
        return_io (ok, b\<lparr>bl_kwin_blur_unloaded := suspend\<rparr>)
      })"

definition set_baloo_suspended :: "globals \<Rightarrow> kernel \<Rightarrow> bool \<Rightarrow> baseline \<Rightarrow> (bool \<times> baseline) io" where
  "set_baloo_suspended g k suspend b =
     (if bl_baloo_suspended b = suspend then return_io (True, b)
      else do {
        ok \<leftarrow> execute_user_desktop_cmd g k (if suspend then BALOO_OFF else BALOO_ON);
        return_io (ok, b\<lparr>bl_baloo_suspended := suspend\<rparr>)
      })"

definition vram_cache_owners :: "string list" where
  "vram_cache_owners = [''chrome'', ''chromium'', ''msedge'', ''code'', ''slack'', ''discord'', ''chatgpt'', ''electron'']"

definition vram_gc_one :: "globals \<Rightarrow> kernel \<Rightarrow> bool \<Rightarrow> string \<Rightarrow> unit io" where
  "vram_gc_one g k hold name =
     (if name = [] \<or> \<not> is_digit (hd name) then return_io ()
      else let p = atoi name
      in if p \<le> 1 then return_io ()
      else do {
        r \<leftarrow> sys_read_file k (proc_path p ''comm'') 31;
        case r of None \<Rightarrow> return_io ()
        | Some s \<Rightarrow>
            (if s = [] then return_io ()
             else let comm = (if last s = NL then butlast s else s)
             in io_when (comm \<in> set vram_cache_owners)
                  (do { apply_memory_reclaim g k p (100 * 1024 * 1024) hold; return_io () }))
      })"

definition trigger_3tier_vram_gc :: "globals \<Rightarrow> kernel \<Rightarrow> bool \<Rightarrow> baseline \<Rightarrow> baseline io" where
  "trigger_3tier_vram_gc g k hold b = do {
     (_, b) \<leftarrow> set_kwin_effects_suspended g k True b;
     names \<leftarrow> sys_opendir k ''/proc'';
     (case names of None \<Rightarrow> return_io ()
      | Some names \<Rightarrow> io_for (\<lambda>_. True) (\<lambda>name _. vram_gc_one g k hold name) names ());
     return_io b
   }"

section \<open>Writeback\<close>

definition VM_WRITEBACK :: string where "VM_WRITEBACK = ''/proc/sys/vm/dirty_writeback_centisecs''"
definition VM_EXPIRE :: string where "VM_EXPIRE = ''/proc/sys/vm/dirty_expire_centisecs''"
definition VM_LAPTOP :: string where "VM_LAPTOP = ''/proc/sys/vm/laptop_mode''"

definition set_vm_dirty_writeback_centisecs :: "globals \<Rightarrow> kernel \<Rightarrow> u32 \<Rightarrow> bool io" where
  "set_vm_dirty_writeback_centisecs g k cs = write_u32_sysctl g k VM_WRITEBACK cs"

definition set_vm_dirty_expire_centisecs :: "globals \<Rightarrow> kernel \<Rightarrow> u32 \<Rightarrow> bool io" where
  "set_vm_dirty_expire_centisecs g k cs = write_u32_sysctl g k VM_EXPIRE cs"

definition set_vm_laptop_mode :: "globals \<Rightarrow> kernel \<Rightarrow> u32 \<Rightarrow> bool io" where
  "set_vm_laptop_mode g k mode = write_u32_sysctl g k VM_LAPTOP mode"

definition restore_vm_writeback_baseline :: "globals \<Rightarrow> kernel \<Rightarrow> baseline \<Rightarrow> (bool \<times> baseline) io" where
  "restore_vm_writeback_baseline g k b =
     (if \<not> bl_captured b then return_io (False, b)
      else do {
        set_vm_dirty_writeback_centisecs g k (bl_vm_writeback_cs b);
        set_vm_dirty_expire_centisecs g k (bl_vm_expire_cs b);
        set_vm_laptop_mode g k (bl_vm_laptop_mode b);
        return_io (True, b\<lparr>bl_vm_modified := False\<rparr>)
      })"

section \<open>The audio codec\<close>

definition AUDIO_POWER_SAVE :: string where
  "AUDIO_POWER_SAVE = ''/sys/module/snd_hda_intel/parameters/power_save''"
definition AUDIO_CONTROLLER :: string where
  "AUDIO_CONTROLLER = ''/sys/module/snd_hda_intel/parameters/power_save_controller''"

definition set_audio_codec_power_save ::
  "globals \<Rightarrow> kernel \<Rightarrow> i32 \<Rightarrow> bool \<Rightarrow> baseline \<Rightarrow> (bool \<times> baseline) io" where
  "set_audio_codec_power_save g k seconds controller b = do {
     ok \<leftarrow> write_file g k AUDIO_POWER_SAVE (show_i32 seconds @ [NL]);
     write_file g k AUDIO_CONTROLLER (if controller then ''Y'' @ [NL] else ''N'' @ [NL]);
     return_io (ok, b\<lparr>bl_audio_modified := True\<rparr>)
   }"

definition restore_audio_codec_baseline :: "globals \<Rightarrow> kernel \<Rightarrow> baseline \<Rightarrow> (bool \<times> baseline) io" where
  "restore_audio_codec_baseline g k b =
     (if \<not> bl_audio_modified b then return_io (True, b)
      else do {
        io_when (0 \<le> bl_audio_power_save b)
          (do { write_file g k AUDIO_POWER_SAVE (show_i32 (bl_audio_power_save b) @ [NL]); return_io () });
        io_when (bl_audio_controller b \<noteq> [])
          (do { write_file g k AUDIO_CONTROLLER (snprintf_cut 16 (bl_audio_controller b @ [NL])); return_io () });
        return_io (True, b\<lparr>bl_audio_modified := False\<rparr>)
      })"

end
