(* ===== verification/Topology.thy ===== *)
theory Topology
  imports Peripherals
begin

text \<open>
  The cluster topology of the processor, the elevation of interactive tasks, and the healing of
  tasks a previous run left demoted or confined (\<^verbatim>\<open>src/policy/mitigation_engine.cpp\<close>).
\<close>

section \<open>Processor lists\<close>

abbreviation "CPU_SETSIZE \<equiv> (1024 :: int)"

definition skip_list_sep :: "string \<Rightarrow> string" where
  "skip_list_sep s = dropWhile (\<lambda>c. c = CHR '' '' \<or> c = TAB \<or> c = NL \<or> c = CHR '','') s"

lemma length_skip_list_sep: "length (skip_list_sep s) \<le> length s"
  by (simp add: skip_list_sep_def length_dropWhile_le)

lemma length_strtol:
  "length (snd (strtol s)) \<le> length s" "snd (strtol s) \<noteq> s \<Longrightarrow> length (snd (strtol s)) < length s"
proof -
  obtain neg t where sp: "split_sign (skip_space s) = (neg, t)" by (cases "split_sign (skip_space s)")
  have "length (snd (split_sign u)) \<le> length u" for u
    by (cases u) (auto simp: split_sign_def)
  then have "length t \<le> length (skip_space s)" using sp by (metis snd_conv)
  then have t: "length t \<le> length s"
    using length_dropWhile_le [of is_space s] by (simp add: skip_space_def)
  have "snd (strtol s) = s \<or> length (snd (strtol s)) < length s"
  proof (cases "takeWhile is_digit t = []")
    case True
    then show ?thesis by (simp add: strtol_def sp span_digits_def)
  next
    case False
    have "length (takeWhile is_digit t) + length (dropWhile is_digit t) = length t"
      by (metis length_append takeWhile_dropWhile_id)
    then have "length (dropWhile is_digit t) < length s" using False t by (cases "takeWhile is_digit t") auto
    then show ?thesis using False by (simp add: strtol_def sp span_digits_def Let_def)
  qed
  then show "length (snd (strtol s)) \<le> length s" "snd (strtol s) \<noteq> s \<Longrightarrow> length (snd (strtol s)) < length s"
    by auto
qed

text \<open>One range: its bounds and the text after it.\<close>

definition cpulist_range :: "string \<Rightarrow> int \<times> int \<times> string" where
  "cpulist_range p =
     (let (first, rest) = strtol p
      in if rest \<noteq> [] \<and> hd rest = CHR ''-''
         then let (last, rest') = strtol (tl rest) in (first, last, rest') else (first, first, rest))"

lemma length_cpulist_range:
  "snd (strtol p) \<noteq> p \<Longrightarrow> length (snd (snd (cpulist_range p))) < length p"
  using length_strtol [of p] length_strtol(1) [of "tl (snd (strtol p))"]
  by (auto simp: cpulist_range_def split: prod.splits)

function parse_cpulist_from :: "string \<Rightarrow> nat set \<Rightarrow> nat set" where
  "parse_cpulist_from s cs =
     (let p = skip_list_sep s
      in if p = [] \<or> snd (strtol p) = p then cs
         else let (first, last, rest) = cpulist_range p
              in parse_cpulist_from rest
                   (if 0 \<le> first \<and> first \<le> last \<and> last < CPU_SETSIZE then cs \<union> {nat first..nat last} else cs))"
  by pat_completeness auto
termination
proof (relation "measure (\<lambda>(s, _). length s)", goal_cases)
  case (2 s cs p x first y last rest)
  then have "length rest < length p" using length_cpulist_range [of p] by (metis snd_conv)
  then show ?case using length_skip_list_sep [of s] 2(1) by simp
qed simp

declare parse_cpulist_from.simps [simp del]

definition parse_cpulist :: "string \<Rightarrow> nat set" where
  "parse_cpulist buf = parse_cpulist_from (c_str buf) {}"

section \<open>Clusters\<close>

record topology =
  tp_total_cpus :: int
  tp_cluster_count :: int
  tp_c1 :: "nat set"
  tp_c2 :: "nat set"
  tp_interactive_shield :: "nat set"
  tp_all_cores :: "nat set"

definition l3_list_path :: "int \<Rightarrow> string" where
  "l3_list_path c = ''/sys/devices/system/cpu/cpu'' @ show_int c @ ''/cache/index3/shared_cpu_list''"

text \<open>The clusters that share a last-level cache; nothing when the files do not show two of them.\<close>

definition read_l3_clusters :: "kernel \<Rightarrow> (nat set \<times> nat set) option io" where
  "read_l3_clusters k = do {
     r \<leftarrow> sys_read_file k (l3_list_path 0) 63;
     case r of None \<Rightarrow> return_io None
     | Some s \<Rightarrow>
         (if s = [] then return_io None
          else let m1 = parse_cpulist s
          in case find (\<lambda>c. c \<notin> m1) [0..<nat (total_online_cpus k)] of None \<Rightarrow> return_io None
          | Some c \<Rightarrow> do {
              r \<leftarrow> sys_read_file k (l3_list_path (int c)) 63;
              return_io (case r of None \<Rightarrow> None | Some s \<Rightarrow> if s = [] then None else Some (m1, parse_cpulist s))
            })
   }"

definition uniform_clusters :: "nat \<Rightarrow> int \<times> nat set \<times> nat set" where
  "uniform_clusters n =
     (if 4 \<le> n then (2, {..<n div 2}, {n div 2..<n}) else (1, {..<n}, {..<n}))"

text \<open>The first half of the first cluster, at least one processor.\<close>

definition interactive_shield :: "nat \<Rightarrow> nat set \<Rightarrow> nat set" where
  "interactive_shield n m1 =
     (let cs = filter (\<lambda>c. c \<in> m1) [0..<n] in set (take (max 1 (length cs div 2)) cs))"

definition detect_topology :: "kernel \<Rightarrow> topology io" where
  "detect_topology k = do {
     l3 \<leftarrow> read_l3_clusters k;
     let n = nat (total_online_cpus k);
     let (count, m1, m2) = (case l3 of Some (m1, m2) \<Rightarrow> (2, m1, m2) | None \<Rightarrow> uniform_clusters n);
     return_io \<lparr>tp_total_cpus = total_online_cpus k, tp_cluster_count = count, tp_c1 = m1, tp_c2 = m2,
       tp_interactive_shield = interactive_shield n m1, tp_all_cores = all_cores_cpuset k\<rparr>
   }"

text \<open>Detected once; the cache is the function's static.\<close>

definition get_cluster_topology :: "kernel \<Rightarrow> topology option \<Rightarrow> (topology \<times> topology option) io" where
  "get_cluster_topology k cache =
     (case cache of Some t \<Rightarrow> return_io (t, cache)
      | None \<Rightarrow> do { t \<leftarrow> detect_topology k; return_io (t, Some t) })"

section \<open>Interactive tasks\<close>

definition is_interactive_terminal_or_shell :: "string \<Rightarrow> bool" where
  "is_interactive_terminal_or_shell comm \<longleftrightarrow> comm \<in> {''konsole'', ''alacritty'', ''kitty'', ''foot'', ''wezterm'',
     ''ptyxis'', ''gnome-terminal'', ''xterm'', ''rxvt'', ''bash'', ''zsh'', ''fish'', ''tmux'', ''screen'', ''ssh''}"

definition is_desktop_compositor :: "string \<Rightarrow> bool" where
  "is_desktop_compositor comm \<longleftrightarrow> comm \<in> {''kwin_wayland'', ''kwin_x11'', ''kwin'', ''mutter'', ''sway'',
     ''hyprland'', ''Xorg'', ''Xwayland'', ''weston''}"

definition shield_interactive_process ::
  "globals \<Rightarrow> kernel \<Rightarrow> pid \<Rightarrow> string \<Rightarrow> topology option \<Rightarrow> (bool \<times> topology option) io" where
  "shield_interactive_process g k p comm cache =
     (if p \<le> 1 then return_io (False, cache)
      else do {
        let target = (if is_desktop_compositor comm then - 10 else - 5);
        cur \<leftarrow> sys_getpriority k p;
        io_when (target < cur) (hw_setpriority g k p target);
        if gl_effective_profile g = Performance
        then do { hw_sched_setaffinity g k p (all_cores_cpuset k); return_io (True, cache) }
        else do {
          (t, cache) \<leftarrow> get_cluster_topology k cache;
          hw_sched_setaffinity g k p (tp_c1 t);
          return_io (True, cache)
        }
      })"

text \<open>The processes below \<^verbatim>\<open>/proc\<close>: entries that start with a digit, read with \<open>atoi\<close>.\<close>

definition proc_pid :: "string \<Rightarrow> pid option" where
  "proc_pid name =
     (if name = [] \<or> \<not> is_digit (hd name) then None else let p = atoi name in if p \<le> 1 then None else Some p)"

definition for_each_pid :: "kernel \<Rightarrow> (pid \<Rightarrow> 's \<Rightarrow> 's io) \<Rightarrow> 's \<Rightarrow> 's io" where
  "for_each_pid k f s = do {
     names \<leftarrow> sys_opendir k ''/proc'';
     case names of None \<Rightarrow> return_io s
     | Some names \<Rightarrow> io_for (\<lambda>_. True)
         (\<lambda>name s. case proc_pid name of None \<Rightarrow> return_io s | Some p \<Rightarrow> f p s) names s
   }"

definition shield_terminal :: "globals \<Rightarrow> kernel \<Rightarrow> pid \<Rightarrow> topology option \<Rightarrow> topology option io" where
  "shield_terminal g k p cache = do {
     r \<leftarrow> sys_read_file k (proc_path p ''comm'') 63;
     case r of None \<Rightarrow> return_io cache
     | Some s \<Rightarrow>
         (if s = [] then return_io cache
          else let comm = (if last s = NL then butlast s else s)
          in if is_interactive_terminal_or_shell comm \<or> is_desktop_compositor comm
             then do { (_, cache) \<leftarrow> shield_interactive_process g k p comm cache; return_io cache }
             else return_io cache)
   }"

definition shield_all_interactive_terminals :: "globals \<Rightarrow> kernel \<Rightarrow> topology option \<Rightarrow> topology option io" where
  "shield_all_interactive_terminals g k cache = for_each_pid k (shield_terminal g k) cache"

section \<open>Healing\<close>

text \<open>A disjunction of checks, each made only when the ones before it say no.\<close>

fun any_check :: "bool io list \<Rightarrow> bool io" where
  "any_check [] = return_io False"
| "any_check (c # cs) = do { b \<leftarrow> c; if b then return_io True else any_check cs }"

definition heal_one :: "globals \<Rightarrow> kernel \<Rightarrow> pid \<Rightarrow> unit io" where
  "heal_one g k p = do {
     sched \<leftarrow> sys_getscheduler k p;
     if sched \<noteq> 5 then return_io ()
     else do {
       protect \<leftarrow> any_check [is_immune_process g k p, is_liveness_critical k p, is_audio_shielded g k p,
                    is_graphical_session_process k p];
       io_when protect (do {
         restore_sched_normal g k p 0 0;
         apply_timer_slack g k p 50000;
         hw_sched_setaffinity g k p (all_cores_cpuset k);
         return_io () })
     }
   }"

definition heal_over_throttled_processes :: "globals \<Rightarrow> kernel \<Rightarrow> unit io" where
  "heal_over_throttled_processes g k = for_each_pid k (\<lambda>p _. heal_one g k p) ()"

fun every_second :: "'a list \<Rightarrow> 'a list" where
  "every_second (x # _ # xs) = x # every_second xs"
| "every_second xs = xs"

definition strided :: "nat set \<Rightarrow> nat set" where
  "strided base = set (every_second (filter (\<lambda>c. c \<in> base) [0..<1024]))"

definition mask_matches_engine_pattern :: "kernel \<Rightarrow> topology \<Rightarrow> nat set \<Rightarrow> bool" where
  "mask_matches_engine_pattern k t cs \<longleftrightarrow>
     cs = tp_c1 t \<or> cs = tp_c2 t \<or> cs = tp_interactive_shield t \<or>
     list_ex (\<lambda>m. cs = headroom_allowed_cpuset k m) [Performance, Balanced, PowerSaver, UltraEndurance] \<or>
     list_ex (\<lambda>base. strided base \<noteq> {} \<and> cs = strided base) [tp_c1 t, tp_c2 t, tp_all_cores t]"

definition repair_one :: "globals \<Rightarrow> kernel \<Rightarrow> pid \<Rightarrow> nat \<times> topology option \<Rightarrow> (nat \<times> topology option) io" where
  "repair_one g k p s = do {
     m \<leftarrow> sys_getaffinity k p;
     case m of None \<Rightarrow> return_io s
     | Some cs \<Rightarrow>
         (if total_online_cpus k \<le> int (card cs) then return_io s
          else do {
            (t, cache) \<leftarrow> get_cluster_topology k (snd s);
            if \<not> mask_matches_engine_pattern k t cs then return_io (fst s, cache)
            else do {
              ok \<leftarrow> hw_sched_setaffinity g k p (all_cores_cpuset k);
              return_io (if ok then fst s + 1 else fst s, cache)
            }
          })
   }"

definition repair_orphaned_affinity_masks :: "globals \<Rightarrow> kernel \<Rightarrow> topology option \<Rightarrow> topology option io" where
  "repair_orphaned_affinity_masks g k cache =
     (if total_online_cpus k \<le> 1 then return_io cache
      else do {
        (repaired, cache) \<leftarrow> for_each_pid k (repair_one g k) (0, cache);
        io_when (0 < repaired) (log_event (EvAlert ''REPAIR''));
        return_io cache
      })"

section \<open>The audio stack\<close>

definition audio_services :: "string list" where
  "audio_services = [''pipewire.service'', ''pipewire-pulse.service'', ''wireplumber.service'',
     ''pulseaudio.service'', ''plasma-kwin_wayland.service'', ''app-kwin_wayland.service'']"

definition user_slices :: "string list" where
  "user_slices = [''session.slice'', ''app.slice'']"

text \<open>The user's number in the name of a user slice.\<close>

definition slice_uid :: "string \<Rightarrow> string option" where
  "slice_uid name =
     (if \<not> starts_with name ''user-'' then None
      else case strstr name ''.slice'' of None \<Rightarrow> None
      | Some dot \<Rightarrow>
          (if drop 6 dot \<noteq> [] then None
           else let uid = drop 5 (take (length name - length dot) name)
                in if 32 \<le> length uid then None else Some uid))"

definition service_procs_path :: "string \<Rightarrow> string \<Rightarrow> string \<Rightarrow> string \<Rightarrow> string" where
  "service_procs_path name uid slc svc = snprintf_cut 384
     (''/sys/fs/cgroup/user.slice/'' @ name @ ''/user@'' @ uid @ ''.service/'' @ slc @ ''/'' @ svc @ ''/cgroup.procs'')"

text \<open>The numbers in a process list, up to the first text that is none.\<close>

function pid_tokens :: "string \<Rightarrow> int list" where
  "pid_tokens s =
     (let p = dropWhile (\<lambda>c. c = CHR '' '' \<or> c = NL \<or> c = CR) s
      in if p = [] then []
         else let (v, rest) = strtol p in if rest = p then [] else v # pid_tokens rest)"
  by pat_completeness auto
termination
proof (relation "measure length", goal_cases)
  case (2 s p x v rest)
  then have "length rest < length p" using length_strtol(2) [of p] by (metis snd_conv)
  then show ?case using length_dropWhile_le [of "\<lambda>c. c = CHR '' '' \<or> c = NL \<or> c = CR" s] 2(1) by simp
qed simp

declare pid_tokens.simps [simp del]

definition elevate_audio :: "globals \<Rightarrow> kernel \<Rightarrow> int \<Rightarrow> int \<Rightarrow> unit io" where
  "elevate_audio g k target_nice pid_val =
     (if pid_val \<le> 1 then return_io ()
      else do {
        let p = wrap_i32 pid_val;
        sched \<leftarrow> sys_getscheduler k p;
        io_when (sched = 5) (do { restore_sched_normal g k p 0 0; return_io () });
        hw_setpriority g k p target_nice;
        hw_sched_setaffinity g k p (all_cores_cpuset k);
        return_io ()
      })"

definition heal_service :: "globals \<Rightarrow> kernel \<Rightarrow> string \<Rightarrow> string \<Rightarrow> string \<Rightarrow> string \<Rightarrow> unit io" where
  "heal_service g k name uid svc slc = do {
     r \<leftarrow> read_some k (service_procs_path name uid slc svc) 128;
     case r of None \<Rightarrow> return_io ()
     | Some s \<Rightarrow> io_for (\<lambda>_. True)
         (\<lambda>v _. elevate_audio g k (if str_contains svc ''kwin'' then - 10 else - 19) v) (pid_tokens (c_str s)) ()
   }"

definition heal_user_slice :: "globals \<Rightarrow> kernel \<Rightarrow> string \<Rightarrow> unit io" where
  "heal_user_slice g k name =
     (case slice_uid name of None \<Rightarrow> return_io ()
      | Some uid \<Rightarrow> io_for (\<lambda>_. True) (\<lambda>svc _.
          io_for (\<lambda>_. True) (\<lambda>slc _. heal_service g k name uid svc slc) user_slices ()) audio_services ())"

text \<open>The codec's suspend timer is parked while a stream plays, and put back afterwards.\<close>

definition park_codec :: "globals \<Rightarrow> kernel \<Rightarrow> baseline \<Rightarrow> baseline io" where
  "park_codec g k b =
     (if gl_audio_active g
      then if 0 \<le> bl_codec_suspended b then return_io b
           else do {
             r \<leftarrow> read_some k AUDIO_POWER_SAVE 16;
             let cur = (case r of None \<Rightarrow> 0 | Some s \<Rightarrow> atoi s);
             if \<not> 0 < cur then return_io b
             else do {
               (_, b) \<leftarrow> set_audio_codec_power_save g k 0 False (b\<lparr>bl_codec_suspended := cur\<rparr>);
               return_io b
             }
           }
      else if \<not> 0 \<le> bl_codec_suspended b then return_io b
      else do {
        (_, b) \<leftarrow> set_audio_codec_power_save g k (bl_codec_suspended b) True b;
        return_io (b\<lparr>bl_codec_suspended := - 1\<rparr>)
      })"

definition audit_and_heal_audio_stack :: "kernel \<Rightarrow> globals \<times> baseline \<Rightarrow> (globals \<times> baseline) io" where
  "audit_and_heal_audio_stack k s = do {
     heal_over_throttled_processes (fst s) k;
     g \<leftarrow> refresh_audio_stream_state k (fst s);
     g \<leftarrow> set_audio_latency_floor k (gl_audio_active g) g;
     b \<leftarrow> park_codec g k (snd s);
     names \<leftarrow> sys_opendir k ''/sys/fs/cgroup/user.slice'';
     (case names of None \<Rightarrow> return_io ()
      | Some names \<Rightarrow> io_for (\<lambda>_. True) (\<lambda>name _. heal_user_slice g k name) names ());
     return_io (g, b)
   }"

lemma emits_topology_reads: "emits is_read_event (get_cluster_topology k cache)"
  unfolding get_cluster_topology_def detect_topology_def read_l3_clusters_def Let_def sys_read_file_def
  by (auto intro!: io_rules split: option.splits)

end
