(* ===== verification/Profiles.thy ===== *)
theory Profiles
  imports Topology
begin

text \<open>
  Power profiles (\<^verbatim>\<open>src/policy/mitigation_engine.cpp\<close>): capturing the hardware baseline, applying
  a profile and restoring the baseline, as the sequences of knob operations the code runs.  The
  engine's whole state is the record \<open>engine\<close>.
\<close>

section \<open>The engine's state\<close>

record engine =
  en_globals :: globals
  en_base :: baseline
  en_statics :: statics
  en_platform :: platform
  en_topology :: "topology option"

text \<open>
  A step of a sequence; \<open>None\<close> is undefined behaviour (a cast out of range, an indeterminate
  byte), after which nothing is said.
\<close>

type_synonym engine_step = "engine \<Rightarrow> engine option io"

fun run_steps :: "engine_step list \<Rightarrow> engine_step" where
  "run_steps [] e = return_io (Some e)"
| "run_steps (st # sts) e = do {
     r \<leftarrow> st e;
     case r of None \<Rightarrow> return_io None | Some e \<Rightarrow> run_steps sts e
   }"

text \<open>The knob operations as steps, by the part of the state they work on.\<close>

definition step_io :: "(globals \<Rightarrow> 'a io) \<Rightarrow> engine_step" where
  "step_io f e = do { f (en_globals e); return_io (Some e) }"

definition step_base :: "(globals \<Rightarrow> baseline \<Rightarrow> (bool \<times> baseline) io) \<Rightarrow> engine_step" where
  "step_base f e = do { (_, b) \<leftarrow> f (en_globals e) (en_base e); return_io (Some (e\<lparr>en_base := b\<rparr>)) }"

definition step_statics :: "(globals \<Rightarrow> statics \<Rightarrow> (bool \<times> statics) io) \<Rightarrow> engine_step" where
  "step_statics f e = do { (_, x) \<leftarrow> f (en_globals e) (en_statics e); return_io (Some (e\<lparr>en_statics := x\<rparr>)) }"

definition step_wifi ::
  "(globals \<Rightarrow> baseline \<times> statics \<Rightarrow> (bool \<times> baseline \<times> statics) option io) \<Rightarrow> engine_step" where
  "step_wifi f e = do {
     r \<leftarrow> f (en_globals e) (en_base e, en_statics e);
     return_io (map_option (\<lambda>(_, b, x). e\<lparr>en_base := b, en_statics := x\<rparr>) r)
   }"

definition step_platform :: "(globals \<Rightarrow> platform \<Rightarrow> (bool \<times> platform) io) \<Rightarrow> engine_step" where
  "step_platform f e = do {
     (_, pl) \<leftarrow> f (en_globals e) (en_platform e);
     return_io (Some (e\<lparr>en_platform := pl\<rparr>))
   }"

definition step_smu :: "(globals \<Rightarrow> platform \<Rightarrow> (bool \<times> platform) option io) \<Rightarrow> engine_step" where
  "step_smu f e = do {
     r \<leftarrow> f (en_globals e) (en_platform e);
     return_io (map_option (\<lambda>(_, pl). e\<lparr>en_platform := pl\<rparr>) r)
   }"

definition step_when :: "(engine \<Rightarrow> bool) \<Rightarrow> engine_step \<Rightarrow> engine_step" where
  "step_when c st e = (if c e then st e else return_io (Some e))"

definition step_set :: "(baseline \<Rightarrow> baseline) \<Rightarrow> engine_step" where
  "step_set f e = return_io (Some (e\<lparr>en_base := f (en_base e)\<rparr>))"

text \<open>A step that reads the state it is applied to, such as a captured value.\<close>

definition step_of :: "(engine \<Rightarrow> engine_step) \<Rightarrow> engine_step" where
  "step_of f e = f e e"

section \<open>Capturing the baseline\<close>

text \<open>\<open>strncpy\<close> of a stripped file into a field of \<open>n\<close> bytes.\<close>

definition field_of :: "nat \<Rightarrow> string \<Rightarrow> string" where
  "field_of n s = take (n - 1) (c_str (rstrip s))"

definition capture_line :: "kernel \<Rightarrow> string \<Rightarrow> nat \<Rightarrow> string \<Rightarrow> string io" where
  "capture_line k path n deflt = do {
     r \<leftarrow> read_some k path 127;
     return_io (case r of None \<Rightarrow> deflt | Some s \<Rightarrow> field_of n s)
   }"

definition capture_u32 :: "kernel \<Rightarrow> string \<Rightarrow> nat \<Rightarrow> u32 \<Rightarrow> u32 io" where
  "capture_u32 k path len deflt = do {
     r \<leftarrow> read_u32_file k path len;
     return_io (case r of None \<Rightarrow> deflt | Some v \<Rightarrow> v)
   }"

text \<open>The policy between the brackets.\<close>

definition bracketed :: "string \<Rightarrow> string" where
  "bracketed s =
     (let l = length (takeWhile (\<lambda>c. c \<noteq> CHR ''['') s); r = length (takeWhile (\<lambda>c. c \<noteq> CHR '']'') s)
      in if l < length s \<and> r < length s \<and> l + 1 < r then take (min (r - l - 1) 31) (drop (l + 1) s) else ''default'')"

definition BOOST_PATH :: string where "BOOST_PATH = ''/sys/devices/system/cpu/cpufreq/boost''"

text \<open>A frequency that must be positive.\<close>

definition capture_khz :: "kernel \<Rightarrow> string \<Rightarrow> u32 \<Rightarrow> u32 io" where
  "capture_khz k path deflt = do {
     r \<leftarrow> read_some k path 127;
     return_io (case r of None \<Rightarrow> deflt
       | Some s \<Rightarrow> let v = fst (strtol (c_str s)) in if 0 < v then of_int v else deflt)
   }"

definition capture_processor :: "kernel \<Rightarrow> baseline \<times> platform \<Rightarrow> (baseline \<times> platform) io" where
  "capture_processor k s = do {
     pp \<leftarrow> capture_line k PLATFORM_PROFILE 32 ''balanced'';
     gov \<leftarrow> capture_line k (cpufreq_path 0 ''scaling_governor'') 32 ''schedutil'';
     boost \<leftarrow> read_some k BOOST_PATH 127;
     aspm \<leftarrow> read_some k ASPM_POLICY 127;
     hw_max \<leftarrow> capture_khz k (cpufreq_path 0 ''cpuinfo_max_freq'') 0;
     cur_max \<leftarrow> capture_khz k (cpufreq_path 0 ''scaling_max_freq'') 1700000;
     let orphaned = (0 < hw_max \<and> cur_max < hw_max);
     io_when orphaned (log_event (EvAlert ''REPAIR''));
     let boost = (case boost of None \<Rightarrow> 1 | Some s \<Rightarrow> if hd s = CHR ''1'' then 1 else 0);
     let repaired = bl_orphaned_cap_repaired (fst s) \<or> orphaned;
     return_io
       ((fst s)\<lparr>bl_platform_profile := pp, bl_cpu_governor := gov,
          bl_cpu_boost := (if repaired \<and> boost = 0 then 1 else boost),
          bl_aspm_policy := (case aspm of None \<Rightarrow> ''default'' | Some s \<Rightarrow> bracketed (c_str s)),
          bl_scaling_max_khz := (if orphaned then hw_max else cur_max),
          bl_orphaned_cap_repaired := repaired\<rparr>,
        (snd s)\<lparr>pl_hw_max_freq_khz := hw_max\<rparr>)
   }"

definition capture_first_line :: "kernel \<Rightarrow> string list \<Rightarrow> string \<Rightarrow> string io" where
  "capture_first_line k paths deflt = do {
     r \<leftarrow> io_for (\<lambda>r. r = None) (\<lambda>p _. read_some k p 127) paths None;
     return_io (case r of None \<Rightarrow> deflt | Some s \<Rightarrow> field_of 32 s)
   }"

definition capture_bluetooth :: "kernel \<Rightarrow> bool io" where
  "capture_bluetooth k = do {
     r \<leftarrow> io_for (\<lambda>r. r = None) (\<lambda>i _. do {
         t \<leftarrow> read_some k (rfkill_path i ''type'') 127;
         if \<not> is_bluetooth t then return_io None
         else do { soft \<leftarrow> read_some k (rfkill_path i ''soft'') 127;
                   return_io (map_option (\<lambda>s. hd s = CHR ''1'') soft) } }) [0..<16] None;
     return_io (r = Some True)
   }"

definition capture_backlight :: "kernel \<Rightarrow> baseline \<Rightarrow> baseline io" where
  "capture_backlight k b = do {
     (_, b) \<leftarrow> io_for (\<lambda>acc. \<not> fst acc) (\<lambda>d acc. do {
         m \<leftarrow> read_u32_file k (d @ ''/max_brightness'') 127;
         case m of None \<Rightarrow> return_io acc
         | Some m \<Rightarrow> do {
             let b = (snd acc)\<lparr>bl_backlight_max := m\<rparr>;
             c \<leftarrow> read_u32_file k (brightness_path d) 127;
             return_io (case c of None \<Rightarrow> (False, b) | Some c \<Rightarrow> (True, b\<lparr>bl_backlight_brightness := c\<rparr>))
           } }) BACKLIGHT_DIRS (False, b);
     return_io b
   }"

definition capture_peripherals :: "kernel \<Rightarrow> baseline \<Rightarrow> baseline io" where
  "capture_peripherals k b = do {
     p1 \<leftarrow> read_u32_file k (PANEL_PATHS ! 0) 127;
     panel \<leftarrow> (case p1 of Some v \<Rightarrow> return_io v | None \<Rightarrow> capture_u32 k (PANEL_PATHS ! 1) 127 1);
     dpm \<leftarrow> capture_first_line k GPU_DPM_PATHS (bl_gpu_dpm_level b);
     smt \<leftarrow> capture_line k SMT_CONTROL 16 ''on'';
     bt \<leftarrow> capture_bluetooth k;
     b \<leftarrow> capture_backlight k
       (b\<lparr>bl_panel_power_savings := panel, bl_gpu_dpm_level := dpm, bl_smt_control := smt, bl_bluetooth_blocked := bt\<rparr>);
     wb \<leftarrow> capture_u32 k VM_WRITEBACK 127 500;
     ex \<leftarrow> capture_u32 k VM_EXPIRE 127 3000;
     lm \<leftarrow> capture_u32 k VM_LAPTOP 127 0;
     ps \<leftarrow> read_some k AUDIO_POWER_SAVE 15;
     ctl \<leftarrow> read_some k AUDIO_CONTROLLER 7;
     return_io (b\<lparr>bl_vm_writeback_cs := wb, bl_vm_expire_cs := ex, bl_vm_laptop_mode := lm, bl_vm_modified := False,
       bl_audio_power_save := (case ps of None \<Rightarrow> bl_audio_power_save b | Some s \<Rightarrow> atoi s),
       bl_audio_controller := (case ctl of None \<Rightarrow> bl_audio_controller b
         | Some s \<Rightarrow> c_str (if last s = NL \<or> last s = CR then butlast s else s))\<rparr>)
   }"

definition capture_nvme_control :: "kernel \<Rightarrow> baseline \<Rightarrow> baseline io" where
  "capture_nvme_control k b = io_for (\<lambda>_. True) (\<lambda>i b. do {
       r \<leftarrow> read_some k (nvme_control_path i) 127;
       return_io (case r of None \<Rightarrow> b
         | Some s \<Rightarrow> b\<lparr>bl_nvme_control := (bl_nvme_control b)[i := field_of 8 s]\<rparr>) }) [0..<MAX_NVME_CONTROLLERS] b"

definition capture_performance ::
  "kernel \<Rightarrow> baseline \<times> statics \<Rightarrow> (baseline \<times> statics) io" where
  "capture_performance k s = do {
     let b = fst s;
     let x = snd s;
     us \<leftarrow> capture_u32 k NVME_LATENCY 127 (bl_nvme_latency_us b);
     cost \<leftarrow> read_some k SCHED_COST 127;
     mode \<leftarrow> read_gpu_power_profile_mode k;
     b \<leftarrow> capture_nvme_control k (b\<lparr>bl_nvme_latency_us := us, bl_gpu_mode := mode,
         bl_sched_cost_ns := (case cost of None \<Rightarrow> bl_sched_cost_ns b | Some s \<Rightarrow> fst (strtoul (c_str s)))\<rparr>);
     ifname \<leftarrow> detect_wireless_ifname k 32;
     case ifname of None \<Rightarrow> return_io (b, x)
     | Some ifname \<Rightarrow> do {
         (ps, fam) \<leftarrow> nl80211_get_power_save k ifname (sx_nl_family x);
         return_io (case ps of None \<Rightarrow> b | Some v \<Rightarrow> b\<lparr>bl_wifi_power_save := v\<rparr>, x\<lparr>sx_nl_family := fam\<rparr>)
       }
   }"

definition capture_fan :: "kernel \<Rightarrow> platform \<Rightarrow> platform io" where
  "capture_fan k pl = do {
     r \<leftarrow> sys_read_file k FAN_PATH 255;
     return_io (pl\<lparr>pl_fan_level_baseline :=
       (case r of None \<Rightarrow> ''auto'' | Some s \<Rightarrow> if s = [] then ''auto'' else fan_baseline_of s ''auto'')\<rparr>)
   }"

text \<open>\<open>popen\<close> and the lines that \<open>fgets\<close> takes from it, at most \<open>n - 1\<close> bytes each.\<close>

definition sys_popen_text :: "kernel \<Rightarrow> string \<Rightarrow> string option io" where
  "sys_popen_text k c = syscall (\<lambda>h. k_popen k h c) (\<lambda>_. EvPopen c)"

function fgets_lines :: "nat \<Rightarrow> string \<Rightarrow> string list" where
  "fgets_lines n s =
     (if s = [] then []
      else let l = take (max 1 (n - 1)) (takeWhile (\<lambda>c. c \<noteq> NL) s @ (if NL \<in> set s then [NL] else []))
           in l # fgets_lines n (drop (length l) s))"
  by pat_completeness auto
termination
  by (relation "measure (\<lambda>(_, s). length s)") (auto simp: neq_Nil_conv)

declare fgets_lines.simps [simp del]

text \<open>The first number after the first bar of a line.\<close>

definition smu_field :: "string \<Rightarrow> float64" where
  "smu_field line =
     (case strchr (CHR ''|'') line of None \<Rightarrow> Fin 0
      | Some b \<Rightarrow> fst (strtod (dropWhile (\<lambda>c. \<not> is_number_start c) (drop 1 b))))"

definition smu_round :: "float64 \<Rightarrow> u32 option" where
  "smu_round v = map_option of_int (fp_to_int 0 (2 ^ 32 - 1) (add64 v (lit64 (1 / 2))))"

definition smu_power_mw :: "string \<Rightarrow> u32 option" where
  "smu_power_mw line =
     (let w = smu_field line in if fp_le w (Fin 0) then Some 0 else smu_round (mul64 w (Fin 1000)))"

definition capture_smu_line :: "string \<Rightarrow> platform \<Rightarrow> platform option" where
  "capture_smu_line line pl =
     (let line = c_str line
      in if str_contains line ''STAPM LIMIT'' then map_option (\<lambda>v. pl\<lparr>pl_smu_stapm_mw := v\<rparr>) (smu_power_mw line)
      else if str_contains line ''PPT LIMIT FAST'' then map_option (\<lambda>v. pl\<lparr>pl_smu_fast_mw := v\<rparr>) (smu_power_mw line)
      else if str_contains line ''PPT LIMIT SLOW'' then map_option (\<lambda>v. pl\<lparr>pl_smu_slow_mw := v\<rparr>) (smu_power_mw line)
      else if str_contains line ''APU SLOW LIMIT'' then map_option (\<lambda>v. pl\<lparr>pl_smu_apu_slow_mw := v\<rparr>) (smu_power_mw line)
      else if str_contains line ''THM LIMIT CORE''
           then let c = smu_field line
                in if fp_gt c (Fin 0) then map_option (\<lambda>v. pl\<lparr>pl_smu_tctl_c := v\<rparr>) (smu_round c) else Some pl
      else Some pl)"

definition capture_smu :: "kernel \<Rightarrow> platform \<Rightarrow> platform option io" where
  "capture_smu k pl = do {
     (tool, pl) \<leftarrow> find_ryzenadj k pl;
     case tool of None \<Rightarrow> do { log_event (EvAlert ''WARN''); return_io (Some pl) }
     | Some t \<Rightarrow> do {
         out \<leftarrow> sys_popen_text k (t @ '' -i 2>/dev/null'');
         return_io (case out of None \<Rightarrow> Some pl
           | Some s \<Rightarrow> fold (\<lambda>l pl. Option.bind pl (capture_smu_line l)) (fgets_lines 256 s) (Some pl))
       }
   }"

definition capture_hardware_baseline :: "kernel \<Rightarrow> engine_step" where
  "capture_hardware_baseline k e =
     (if bl_captured (en_base e) then return_io (Some e)
      else do {
        (b, pl) \<leftarrow> capture_processor k (en_base e, en_platform e);
        b \<leftarrow> capture_peripherals k b;
        (b, x) \<leftarrow> capture_performance k (b, en_statics e);
        pl \<leftarrow> capture_fan k pl;
        pl \<leftarrow> capture_smu k pl;
        return_io (map_option (\<lambda>pl. e\<lparr>en_base := b\<lparr>bl_captured := True\<rparr>, en_statics := x, en_platform := pl\<rparr>) pl)
      })"

section \<open>Releasing and restoring\<close>

definition release_performance_unleash :: "kernel \<Rightarrow> engine_step" where
  "release_performance_unleash k = run_steps
     [step_base (\<lambda>g b. do { b \<leftarrow> set_performance_pm_qos g k False b; return_io (True, b) }),
      step_base (\<lambda>g. restore_gpu_power_profile_mode_baseline g k),
      step_base (\<lambda>g. restore_nvme_apst_baseline g k),
      step_wifi (\<lambda>g. restore_wifi_powersave_baseline g k),
      step_base (\<lambda>g. restore_sched_migration_cost_baseline g k),
      step_platform (\<lambda>g. restore_smu_limits g k),
      step_platform (\<lambda>g. restore_fan_level g k),
      step_set (\<lambda>b. b\<lparr>bl_unleash_engaged := False\<rparr>)]"

text \<open>The block that every profile but UltraEndurance ends with, and the restore shares.\<close>

definition undo_ultra_endurance :: "kernel \<Rightarrow> engine_step list" where
  "undo_ultra_endurance k =
     [step_of (\<lambda>e. step_io (\<lambda>g. set_smt_control g k (bl_smt_control (en_base e)))),
      step_of (\<lambda>e. step_io (\<lambda>g. set_bluetooth_blocked g k (bl_bluetooth_blocked (en_base e)))),
      step_base (\<lambda>g. restore_display_backlight g k),
      step_when (\<lambda>e. bl_drrs_applied (en_base e)) (step_base (\<lambda>g. set_display_refresh_rate g k 60)),
      step_when (\<lambda>e. bl_kwin_blur_unloaded (en_base e)) (step_base (\<lambda>g. set_kwin_effects_suspended g k False)),
      step_when (\<lambda>e. bl_baloo_suspended (en_base e)) (step_base (\<lambda>g. set_baloo_suspended g k False)),
      step_wifi (\<lambda>g. restore_wifi_txpower g k),
      step_when (\<lambda>e. bl_vm_modified (en_base e)) (step_base (\<lambda>g. restore_vm_writeback_baseline g k)),
      step_when (\<lambda>e. bl_audio_modified (en_base e)) (step_base (\<lambda>g. restore_audio_codec_baseline g k))]"

definition release_audio_floor :: "kernel \<Rightarrow> engine_step" where
  "release_audio_floor k e = do {
     g \<leftarrow> set_audio_latency_floor k False (en_globals e);
     return_io (Some (e\<lparr>en_globals := g\<rparr>))
   }"

definition restore_hardware_baseline :: "kernel \<Rightarrow> engine_step" where
  "restore_hardware_baseline k e =
     (if \<not> bl_captured (en_base e) then return_io (Some e)
      else run_steps
        ([step_of (\<lambda>e. step_statics (\<lambda>g. set_platform_profile g k (bl_platform_profile (en_base e)))),
          step_of (\<lambda>e. step_io (\<lambda>g. set_cpu_governor g k (bl_cpu_governor (en_base e)))),
          step_of (\<lambda>e. step_io (\<lambda>g. set_cpu_boost g k (bl_cpu_boost (en_base e) \<noteq> 0))),
          step_of (\<lambda>e. step_io (\<lambda>g. set_pcie_aspm_policy g k (bl_aspm_policy (en_base e)))),
          step_when (\<lambda>e. 0 < bl_scaling_max_khz (en_base e))
            (step_of (\<lambda>e. step_io (\<lambda>g. set_cpu_scaling_max_freq g k (bl_scaling_max_khz (en_base e))))),
          step_of (\<lambda>e. step_io (\<lambda>g. set_panel_power_savings g k (bl_panel_power_savings (en_base e)))),
          step_of (\<lambda>e. step_io (\<lambda>g. restore_gpu_max_clock g k (en_base e))),
          step_when (\<lambda>e. bl_gpu_dpm_level (en_base e) \<noteq> [])
            (step_of (\<lambda>e. step_io (\<lambda>g. set_gpu_dpm_level g k (bl_gpu_dpm_level (en_base e)))))] @
         undo_ultra_endurance k @
         [release_performance_unleash k,
          release_audio_floor k,
          step_when (\<lambda>e. 0 \<le> bl_codec_suspended (en_base e)) (step_set (\<lambda>b. b\<lparr>bl_codec_suspended := - 1\<rparr>))]) e)"

section \<open>Applying a profile\<close>

definition ULTRA_DIRTY_WRITEBACK_CS :: u32 where "ULTRA_DIRTY_WRITEBACK_CS = 1500"
definition ULTRA_DIRTY_EXPIRE_CS :: u32 where "ULTRA_DIRTY_EXPIRE_CS = 3000"

definition performance_steps :: "kernel \<Rightarrow> engine_step list" where
  "performance_steps k =
     [step_statics (\<lambda>g. set_platform_profile g k ''performance''),
      step_io (\<lambda>g. set_cpu_governor g k ''performance''),
      step_io (\<lambda>g. set_cpu_boost g k True),
      step_platform (\<lambda>g. assert_unrestricted_cpu_ceiling g k),
      step_io (\<lambda>g. set_pcie_aspm_policy g k ''performance''),
      step_io (\<lambda>g. set_panel_power_savings g k 0),
      step_statics (\<lambda>g. set_cpu_epp_policy g k ''performance''),
      step_of (\<lambda>e. step_io (\<lambda>g. restore_gpu_max_clock g k (en_base e))),
      step_io (\<lambda>g. set_gpu_dpm_level g k ''auto''),
      step_base (\<lambda>g b. do { b \<leftarrow> set_performance_pm_qos g k False b; return_io (True, b) }),
      step_base (\<lambda>g. set_gpu_power_profile_mode g k 1),
      step_base (\<lambda>g. set_nvme_apst_max_latency g k 0),
      step_base (\<lambda>g. set_nvme_power_control g k ''on''),
      step_wifi (\<lambda>g. set_wifi_powersave g k False),
      step_base (\<lambda>g. set_sched_migration_cost g k 5000000),
      step_smu (\<lambda>g. apply_smu_performance_limits g k),
      step_set (\<lambda>b. b\<lparr>bl_unleash_engaged := True\<rparr>)] @ undo_ultra_endurance k"

definition balanced_steps :: "kernel \<Rightarrow> engine_step list" where
  "balanced_steps k =
     [release_performance_unleash k,
      step_statics (\<lambda>g. set_platform_profile g k ''balanced''),
      step_io (\<lambda>g. set_cpu_governor g k ''schedutil''),
      step_io (\<lambda>g. set_cpu_boost g k True),
      step_platform (\<lambda>g. assert_unrestricted_cpu_ceiling g k),
      step_smu (\<lambda>g. apply_smu_performance_limits g k),
      step_of (\<lambda>e. step_io (\<lambda>g. set_pcie_aspm_policy g k (bl_aspm_policy (en_base e)))),
      step_io (\<lambda>g. set_panel_power_savings g k 1),
      step_statics (\<lambda>g. set_cpu_epp_policy g k ''balance_performance''),
      step_of (\<lambda>e. step_io (\<lambda>g. restore_gpu_max_clock g k (en_base e))),
      step_io (\<lambda>g. set_gpu_dpm_level g k ''auto'')] @ undo_ultra_endurance k"

definition power_saver_steps :: "kernel \<Rightarrow> engine_step list" where
  "power_saver_steps k =
     [release_performance_unleash k,
      step_statics (\<lambda>g. set_platform_profile g k ''low-power''),
      step_io (\<lambda>g. set_cpu_governor g k ''schedutil''),
      step_io (\<lambda>g. set_cpu_boost g k False),
      step_io (\<lambda>g. set_cpu_scaling_max_freq g k 1700000),
      step_io (\<lambda>g. set_pcie_aspm_policy g k ''powersave''),
      step_io (\<lambda>g. set_panel_power_savings g k 2),
      step_statics (\<lambda>g. set_cpu_epp_policy g k ''balance_power''),
      step_of (\<lambda>e. step_io (\<lambda>g. restore_gpu_max_clock g k (en_base e))),
      step_io (\<lambda>g. set_gpu_dpm_level g k ''auto'')] @ undo_ultra_endurance k"

definition step_backlight_cap :: "kernel \<Rightarrow> float64 \<Rightarrow> engine_step" where
  "step_backlight_cap k pct e = do {
     r \<leftarrow> cap_display_backlight (en_globals e) k pct (en_base e);
     return_io (map_option (\<lambda>(_, b). e\<lparr>en_base := b\<rparr>) r)
   }"

text \<open>\<open>hold\<close>: the memory guard is keeping swap from filling (\<open>swap_feeding_suspended\<close>).\<close>

definition ultra_endurance_steps :: "kernel \<Rightarrow> bool \<Rightarrow> engine_step list" where
  "ultra_endurance_steps k hold =
     [release_performance_unleash k,
      step_statics (\<lambda>g. set_platform_profile g k ''low-power''),
      step_io (\<lambda>g. set_cpu_governor g k ''powersave''),
      step_io (\<lambda>g. set_cpu_boost g k False),
      step_io (\<lambda>g. set_cpu_scaling_max_freq g k 1400000),
      step_io (\<lambda>g. do {
        ok \<leftarrow> set_pcie_aspm_policy g k ''powersupersave'';
        if ok then return_io True else set_pcie_aspm_policy g k ''powersave'' }),
      step_io (\<lambda>g. set_panel_power_savings g k 2),
      step_statics (\<lambda>g. set_cpu_epp_policy g k ''power''),
      step_io (\<lambda>g. set_gpu_max_clock g k 640),
      step_io (\<lambda>g. set_gpu_dpm_level g k ''low''),
      step_base (\<lambda>g b. do { b \<leftarrow> trigger_3tier_vram_gc g k hold b; return_io (True, b) }),
      step_io (\<lambda>g. set_bluetooth_blocked g k False),
      step_backlight_cap k (Fin 35),
      step_base (\<lambda>g. set_display_refresh_rate g k 48),
      step_base (\<lambda>g. set_kwin_effects_suspended g k True),
      step_base (\<lambda>g. set_baloo_suspended g k True),
      step_wifi (\<lambda>g. set_wifi_txpower_limit g k 1200),
      step_io (\<lambda>g. set_vm_dirty_writeback_centisecs g k ULTRA_DIRTY_WRITEBACK_CS),
      step_io (\<lambda>g. set_vm_dirty_expire_centisecs g k ULTRA_DIRTY_EXPIRE_CS),
      step_io (\<lambda>g. set_vm_laptop_mode g k 2),
      step_set (\<lambda>b. b\<lparr>bl_vm_modified := True\<rparr>),
      step_io (\<lambda>g. apply_pcie_runtime_pm_auto g k),
      step_io (\<lambda>g. apply_usb_runtime_pm_auto g k),
      step_set (\<lambda>b. b\<lparr>bl_pcie_pm_modified := True, bl_usb_pm_modified := True\<rparr>),
      step_base (\<lambda>g. set_audio_codec_power_save g k 10 True)]"

definition profile_steps :: "kernel \<Rightarrow> bool \<Rightarrow> power_profile \<Rightarrow> engine_step list" where
  "profile_steps k hold mode =
     (case mode of Performance \<Rightarrow> performance_steps k | Balanced \<Rightarrow> balanced_steps k
      | PowerSaver \<Rightarrow> power_saver_steps k | UltraEndurance \<Rightarrow> ultra_endurance_steps k hold)"

definition apply_power_profile :: "kernel \<Rightarrow> bool \<Rightarrow> power_profile \<Rightarrow> engine_step" where
  "apply_power_profile k hold mode = run_steps
     ([step_when (\<lambda>e. \<not> bl_captured (en_base e)) (capture_hardware_baseline k),
       step_io (\<lambda>g. enforce_cpu_freq_floor g k)] @ profile_steps k hold mode)"

end
