(* ===== verification/Knob_Effects.thy ===== *)
theory Knob_Effects
  imports Profiles
begin

text \<open>
  What the knob operations do to the system.  The locale \<open>knob_effects\<close> states the contract once
  for an arbitrary predicate on events: if it holds of reads and of the events on a knob's own
  files, then it holds of everything the knob's operations do.  It is used at three predicates:
  what a profile may do at all, what it may do in the sandbox, and what leaves a given file alone.
\<close>

text \<open>A request to the wireless driver that changes nothing.\<close>

definition nl_query :: "nl_abi \<Rightarrow> u8 list \<Rightarrow> bool" where
  "nl_query abi msg \<longleftrightarrow> (\<exists>m. msg = nl_bytes m \<and>
     (Some m = family_request \<or> (\<exists>f i. Some m = get_power_save_request abi f i)))"

definition smu_table_cmd :: "string \<Rightarrow> bool" where
  "smu_table_cmd c \<longleftrightarrow> (\<exists>t \<in> set ryzenadj_candidates. c = t @ '' -i 2>/dev/null'')"

locale knob_effects =
  fixes P :: "event \<Rightarrow> bool" and sb :: bool and abi :: nl_abi
  assumes reads: "is_read_event e \<Longrightarrow> P e"
    and alerts: "P (EvAlert a)"
    and sockets: "P (EvNetlinkOpen ok)"
    and queries: "nl_query abi msg \<Longrightarrow> P (EvNetlink msg)"
    and tables: "smu_table_cmd c \<Longrightarrow> P (EvPopen c)"
    and closes: "P (EvCloseFd p)"
begin

text \<open>The globals carry the sandbox switch \<open>sb\<close>.\<close>

definition boxed :: "globals \<Rightarrow> bool" where
  "boxed g \<longleftrightarrow> gl_sandbox g = sb"

definition may_write :: "string \<Rightarrow> bool" where
  "may_write p \<longleftrightarrow> sb \<or> (\<forall>ok. P (EvOpenWrite p ok)) \<and> (\<forall>d n. P (EvWrite p d n))"

definition may_run :: "string \<Rightarrow> bool" where
  "may_run c \<longleftrightarrow> sb \<or> (\<forall>ok. P (EvSystem c ok))"

definition may_desktop :: "string \<Rightarrow> bool" where
  "may_desktop body \<longleftrightarrow> (\<forall>cmd. desktop_command_of body cmd \<longrightarrow> may_run cmd)"

definition may_transmit :: bool where
  "may_transmit \<longleftrightarrow> sb \<or> (\<forall>msg. P (EvNetlink msg))"

lemma read_small [io_specs]: "emits P (read_small_file k p n)"
  unfolding read_small_file_def sys_read_file_def using reads by (auto intro!: io_rules)

lemma read_some_file: "emits P (read_some k p n)"
  unfolding read_some_def by (auto intro!: io_rules read_small)

lemma read_u32: "emits P (read_u32_file k p n)"
  unfolding read_u32_file_def by (auto intro!: io_rules read_small)

lemma open_write: "boxed g \<Longrightarrow> may_write p \<Longrightarrow> io_ok P (hw_open_write g k p) (\<lambda>ok. ok \<longrightarrow> \<not> sb)"
  by (auto simp: boxed_def hw_open_write_def sys_open_write_def may_write_def intro!: io_ok_syscall io_ok_return)

lemma opened:
  assumes "boxed g" "may_write p" "\<not> sb \<Longrightarrow> emits P m" "emits P n"
  shows "emits P (hw_open_write g k p \<bind> (\<lambda>ok. if \<not> ok then n else m))"
  by (rule io_ok_bind [OF open_write]) (use assms in auto)

lemma write_sys: "may_write p \<Longrightarrow> \<not> sb \<Longrightarrow> emits P (sys_write k p d)"
  unfolding sys_write_def may_write_def by (auto intro!: io_rules)

lemma write_plain: "boxed g \<Longrightarrow> may_write p \<Longrightarrow> emits P (write_file g k p d)"
  unfolding write_file_def by (rule opened) (auto intro!: io_rules write_sys)

lemma write_nl: "boxed g \<Longrightarrow> may_write p \<Longrightarrow> emits P (write_line g k p d)"
  unfolding write_line_def by (rule opened) (auto intro!: io_rules write_sys)

lemma write_if_opened: "boxed g \<Longrightarrow> may_write p \<Longrightarrow> emits P (write_opened g k p d)"
  unfolding write_opened_def by (rule opened) (auto intro!: io_rules write_sys)

lemma write_first_of:
  "boxed g \<Longrightarrow> \<forall>p \<in> set ps. may_write p \<Longrightarrow> emits P (write_first g k ps d)"
  by (induction ps) (auto intro!: io_rules write_if_opened)

lemma write_first_ok_of:
  "boxed g \<Longrightarrow> \<forall>p \<in> set ps. may_write p \<Longrightarrow> emits P (write_first_ok g k ps d)"
  by (induction ps) (auto intro!: io_rules write_plain)

lemma write_cpus:
  "boxed g \<Longrightarrow> (\<And>i. may_write (cpufreq_path i leaf)) \<Longrightarrow> emits P (write_each_cpu g k n leaf d)"
  unfolding write_each_cpu_def by (auto intro!: io_rules write_plain)

lemma run: "boxed g \<Longrightarrow> may_run c \<Longrightarrow> emits P (hw_system g k c)"
  unfolding hw_system_def sys_system_def by (auto simp: boxed_def may_run_def intro!: io_rules)

lemma desktop: "boxed g \<Longrightarrow> may_desktop body \<Longrightarrow> emits P (execute_user_desktop_cmd g k body)"
  by (rule emits_desktop_cmd, rule reads, assumption) (unfold boxed_def may_desktop_def may_run_def, blast)

subsection \<open>Processor and buses\<close>

lemma competing: "emits P (competing_power_manager k)"
  unfolding competing_power_manager_def sys_opendir_def
  using reads by (auto intro!: io_rules read_some_file)

lemma platform_profile:
  assumes "boxed g" "may_write PLATFORM_PROFILE" "\<And>p. may_run (ppd_cmd p)"
  shows "emits P (set_platform_profile g k profile x)"
proof -
  have "emits P (probe_competitor k x)" for x
    unfolding probe_competitor_def Let_def by (auto intro!: io_rules competing)
  then show ?thesis
    unfolding set_platform_profile_def log_event_def
    using assms alerts by (auto intro!: io_rules read_some_file write_nl run)
qed

lemma governor:
  "boxed g \<Longrightarrow> (\<And>i. may_write (cpufreq_path i ''scaling_governor'')) \<Longrightarrow> emits P (set_cpu_governor g k gov)"
  unfolding set_cpu_governor_def by (auto intro!: write_cpus)

lemma epp:
  "boxed g \<Longrightarrow> (\<And>i. may_write (cpufreq_path i ''energy_performance_preference'')) \<Longrightarrow>
   emits P (set_cpu_epp_policy g k pol x)"
  unfolding set_cpu_epp_policy_def by (auto intro!: io_rules write_cpus)

lemma freq_floor:
  "boxed g \<Longrightarrow> (\<And>i. may_write (cpufreq_path i ''scaling_min_freq'')) \<Longrightarrow> emits P (enforce_cpu_freq_floor g k)"
  unfolding enforce_cpu_freq_floor_def by (auto intro!: io_rules write_cpus read_u32)

lemma boost: "boxed g \<Longrightarrow> may_write BOOST_PATH \<Longrightarrow> emits P (set_cpu_boost g k on)"
  unfolding set_cpu_boost_def BOOST_PATH_def by (auto intro!: write_plain)

lemma max_freq:
  assumes "boxed g" "\<And>i. may_write (cpufreq_path i ''scaling_max_freq'')"
  shows "emits P (set_cpu_scaling_max_freq g k khz)"
  unfolding set_cpu_scaling_max_freq_def Let_def
  using assms by (auto intro!: io_rules read_u32 write_plain split: if_splits option.splits)

lemma freq_ceiling:
  assumes "boxed g" "\<And>i. may_write (cpufreq_path i ''scaling_max_freq'')" "may_write BOOST_PATH"
  shows "emits P (assert_unrestricted_cpu_ceiling g k pl)"
proof -
  have "emits P (assert_cpu_ceiling_one g k m i r)" for m i r
    unfolding assert_cpu_ceiling_one_def using assms by (auto intro!: io_rules read_u32 write_plain)
  then show ?thesis
    unfolding assert_unrestricted_cpu_ceiling_def Let_def using assms by (auto intro!: io_rules read_u32 boost)
qed

lemma smt: "boxed g \<Longrightarrow> may_write SMT_CONTROL \<Longrightarrow> emits P (set_smt_control g k s)"
  unfolding set_smt_control_def by (auto intro!: io_rules write_nl)

lemma aspm: "boxed g \<Longrightarrow> may_write ASPM_POLICY \<Longrightarrow> emits P (set_pcie_aspm_policy g k s)"
  unfolding set_pcie_aspm_policy_def by (auto intro!: write_plain)

lemma migration_cost:
  assumes "boxed g" "may_write SCHED_COST"
  shows "emits P (set_sched_migration_cost g k c b)" "emits P (restore_sched_migration_cost_baseline g k b)"
  unfolding restore_sched_migration_cost_baseline_def set_sched_migration_cost_def
  using assms by (auto intro!: io_rules write_if_opened)

lemma pm_qos_off: "emits P (set_performance_pm_qos g k False b)"
  unfolding set_performance_pm_qos_def sys_close_fd_def using closes by (auto intro!: io_rules)

lemma pci_pm:
  assumes "boxed g" "\<And>n. may_write (pci_control_path n)"
  shows "emits P (apply_pcie_runtime_pm_auto g k)"
proof -
  have "emits P (pci_runtime_pm_one g k n)" for n
    unfolding pci_runtime_pm_one_def using assms by (auto intro!: io_rules read_some_file write_plain)
  then show ?thesis
    unfolding apply_pcie_runtime_pm_auto_def sys_opendir_def using reads by (auto intro!: io_rules)
qed

lemma usb_pm:
  assumes "boxed g" "\<And>n. may_write (usb_control_path n)"
  shows "emits P (apply_usb_runtime_pm_auto g k)"
proof -
  have "emits P (is_immune_usb k n)" for n
    unfolding is_immune_usb_def sys_opendir_def using reads by (auto intro!: io_rules read_some_file)
  then have "emits P (usb_runtime_pm_one g k n)" for n
    unfolding usb_runtime_pm_one_def using assms by (auto intro!: io_rules write_plain)
  then show ?thesis
    unfolding apply_usb_runtime_pm_auto_def sys_opendir_def using reads by (auto intro!: io_rules)
qed

subsection \<open>Peripherals\<close>

lemma panel: "boxed g \<Longrightarrow> \<forall>p \<in> set PANEL_PATHS. may_write p \<Longrightarrow> emits P (set_panel_power_savings g k l)"
  unfolding set_panel_power_savings_def by (rule write_first_ok_of)

lemma gpu_dpm:
  assumes "boxed g" "\<forall>p \<in> set GPU_DPM_PATHS. may_write p"
  shows "emits P (set_gpu_dpm_level g k l)" "emits P (set_gpu_max_clock g k mhz)" "emits P (restore_gpu_max_clock g k b)"
  unfolding set_gpu_max_clock_def restore_gpu_max_clock_def set_gpu_dpm_level_def
  using assms by (auto intro!: io_rules write_nl)

lemma gpu_mode:
  assumes "boxed g" "\<forall>p \<in> set GPU_MODE_PATHS. may_write p"
  shows "emits P (set_gpu_power_profile_mode g k m b)" "emits P (restore_gpu_power_profile_mode_baseline g k b)"
  unfolding restore_gpu_power_profile_mode_baseline_def set_gpu_power_profile_mode_def
  using assms by (auto intro!: io_rules write_first_of)

lemma read_gpu_mode: "emits P (read_gpu_power_profile_mode k)"
  unfolding read_gpu_power_profile_mode_def by (auto intro!: io_rules read_some_file)

lemma nvme_latency:
  "boxed g \<Longrightarrow> may_write NVME_LATENCY \<Longrightarrow> emits P (set_nvme_apst_max_latency g k us b)"
  unfolding set_nvme_apst_max_latency_def by (auto intro!: io_rules write_if_opened)

lemma nvme_control:
  assumes "boxed g" "\<And>i. may_write (nvme_control_path i)"
  shows "emits P (set_nvme_power_control g k v b)" "emits P (restore_nvme_power_control_baseline g k b)"
  unfolding set_nvme_power_control_def restore_nvme_power_control_baseline_def Let_def
  using assms by (auto intro!: io_rules write_plain)

lemma nvme_restore:
  assumes "boxed g" "\<And>i. may_write (nvme_control_path i)" "may_write NVME_LATENCY"
  shows "emits P (restore_nvme_apst_baseline g k b)"
  unfolding restore_nvme_apst_baseline_def using assms by (auto intro!: io_rules nvme_control nvme_latency)

lemma family: "emits P (nl80211_family_id k f)"
proof -
  have "P (EvNetlink (nl_bytes m))" if "family_request = Some m" for m
    using that by (intro queries) (auto simp: nl_query_def)
  then show ?thesis
    unfolding nl80211_family_id_def sys_netlink_def by (auto intro!: io_rules)
qed

lemma transact:
  assumes "\<And>f i m. req f i = Some m \<Longrightarrow> P (EvNetlink (nl_bytes m))"
  shows "emits P (nl80211_transact k ifn req f)"
proof -
  have "P (EvIfIndex n)" for n using reads by simp
  then show ?thesis
    unfolding nl80211_transact_def sys_netlink_def sys_ifindex_def sys_netlink_open_def
    using assms sockets by (auto intro!: io_rules family)
qed

lemma get_power_save: "abi = k_nl_abi k \<Longrightarrow> emits P (nl80211_get_power_save k ifn f)"
proof -
  assume "abi = k_nl_abi k"
  then have "P (EvNetlink (nl_bytes m))" if "get_power_save_request (k_nl_abi k) fam i = Some m" for fam i m
    using that by (intro queries) (unfold nl_query_def, metis)
  then show ?thesis
    unfolding nl80211_get_power_save_def by (auto intro!: io_rules transact)
qed

lemma set_power_save: "boxed g \<Longrightarrow> may_transmit \<Longrightarrow> emits P (nl80211_set_power_save g k ifn on f)"
  unfolding nl80211_set_power_save_def may_transmit_def boxed_def by (auto intro!: io_rules transact)

lemma set_tx_power: "boxed g \<Longrightarrow> \<not> gl_sandbox g \<Longrightarrow> may_transmit \<Longrightarrow> emits P (nl80211_set_tx_power k ifn a mbm f)"
  unfolding nl80211_set_tx_power_def may_transmit_def boxed_def by (auto intro!: io_rules transact)

lemma find_wireless: "emits P (detect_wireless_ifname k n)"
  unfolding detect_wireless_ifname_def sys_opendir_def sys_exists_def using reads by (auto intro!: io_rules)

lemma wifi_power_save:
  assumes "boxed g" "\<And>n. may_write (wifi_control_path n)" may_transmit
  shows "emits P (set_wifi_powersave g k on s)" "emits P (restore_wifi_powersave_baseline g k s)"
proof -
  show *: "emits P (set_wifi_powersave g k on s)" for on s
    unfolding set_wifi_powersave_def Let_def
    using assms by (auto intro!: io_rules find_wireless write_plain set_power_save)
  show "emits P (restore_wifi_powersave_baseline g k s)"
    unfolding restore_wifi_powersave_baseline_def Let_def by (auto intro!: io_rules *)
qed

lemma wifi_tx:
  assumes "boxed g" may_transmit
  shows "emits P (set_wifi_txpower_limit g k mbm s)" "emits P (restore_wifi_txpower g k s)"
  unfolding set_wifi_txpower_limit_def restore_wifi_txpower_def Let_def
  using assms by (auto intro!: io_rules find_wireless set_tx_power)

lemma bluetooth:
  assumes "boxed g" "\<And>i. may_write (rfkill_path i ''soft'')" "may_desktop BLUETOOTH_ON"
  shows "emits P (set_bluetooth_blocked g k blk)"
  unfolding set_bluetooth_blocked_def using assms by (auto intro!: io_rules read_some_file write_plain desktop)

lemma backlight_down:
  assumes "boxed g" "\<forall>d \<in> set BACKLIGHT_DIRS. may_write (brightness_path d)"
  shows "emits P (cap_display_backlight g k pct b)"
proof -
  have one: "emits P (cap_backlight_one g k pct d acc)" if "d \<in> set BACKLIGHT_DIRS" for d acc
    unfolding cap_backlight_one_def Let_def
    using assms that by (auto intro!: io_rules read_u32 write_if_opened)
  show ?thesis unfolding cap_display_backlight_def by (intro emits_for one)
qed

lemma backlight_up:
  assumes "boxed g" "\<forall>d \<in> set BACKLIGHT_DIRS. may_write (brightness_path d)"
  shows "emits P (restore_display_backlight g k b)"
  unfolding restore_display_backlight_def using assms by (auto intro!: io_rules write_first_of)

lemma refresh_rate:
  "boxed g \<Longrightarrow> may_desktop DRRS_LOW \<Longrightarrow> may_desktop DRRS_HIGH \<Longrightarrow> emits P (set_display_refresh_rate g k hz b)"
  unfolding set_display_refresh_rate_def Let_def by (auto intro!: io_rules desktop split: if_splits)

lemma kwin:
  "boxed g \<Longrightarrow> may_desktop BLUR_OFF \<Longrightarrow> may_desktop BLUR_ON \<Longrightarrow> emits P (set_kwin_effects_suspended g k on b)"
  unfolding set_kwin_effects_suspended_def by (auto intro!: io_rules desktop split: if_splits)

lemma baloo:
  "boxed g \<Longrightarrow> may_desktop BALOO_OFF \<Longrightarrow> may_desktop BALOO_ON \<Longrightarrow> emits P (set_baloo_suspended g k on b)"
  unfolding set_baloo_suspended_def by (auto intro!: io_rules desktop split: if_splits)

lemma sysctl: "boxed g \<Longrightarrow> may_write p \<Longrightarrow> emits P (write_u32_sysctl g k p v)"
  unfolding write_u32_sysctl_def by (rule write_plain)

lemma writeback:
  assumes "boxed g" "may_write VM_WRITEBACK" "may_write VM_EXPIRE" "may_write VM_LAPTOP"
  shows "emits P (set_vm_dirty_writeback_centisecs g k cs)" "emits P (set_vm_dirty_expire_centisecs g k cs)"
    "emits P (set_vm_laptop_mode g k m)" "emits P (restore_vm_writeback_baseline g k b)"
  unfolding restore_vm_writeback_baseline_def set_vm_dirty_writeback_centisecs_def
    set_vm_dirty_expire_centisecs_def set_vm_laptop_mode_def
  using assms by (auto intro!: io_rules sysctl)

lemma codec:
  assumes "boxed g" "may_write AUDIO_POWER_SAVE" "may_write AUDIO_CONTROLLER"
  shows "emits P (set_audio_codec_power_save g k sec c b)" "emits P (restore_audio_codec_baseline g k b)"
  unfolding set_audio_codec_power_save_def restore_audio_codec_baseline_def
  using assms by (auto intro!: io_rules write_plain)

lemma audio_floor_off: "emits P (set_audio_latency_floor k False g)"
  unfolding set_audio_latency_floor_def sys_close_fd_def using closes by (auto intro!: io_rules)

text \<open>The cgroup file of a reclaim lies below the cgroup file system.\<close>

lemma cgroup_below:
  "io_ok P (resolve_cgroup_path k p n) (\<lambda>r. \<forall>cg. r = Some cg \<longrightarrow> starts_with cg ''/sys/fs/cgroup'')"
proof -
  have line: "cgroup_line_path n rest = Some cg \<Longrightarrow> starts_with cg ''/sys/fs/cgroup''" for n rest cg
    by (auto simp: cgroup_line_path_def Let_def starts_with_iff split: if_splits)
  have "find_cgroup_line n s = Some cg \<Longrightarrow> starts_with cg ''/sys/fs/cgroup''" for s cg
    by (induction n s rule: find_cgroup_line.induct)
      (subst (asm) (2) find_cgroup_line.simps, auto dest: line split: if_splits)
  then show ?thesis
    unfolding resolve_cgroup_path_def
    by (auto intro!: io_ok_bind_any [OF read_small] io_rules split: option.splits if_splits)
qed

lemma reclaim:
  assumes "boxed g" "\<And>cg. starts_with cg ''/sys/fs/cgroup'' \<Longrightarrow> may_write (c_str cg @ ''/memory.reclaim'')"
  shows "emits P (apply_memory_reclaim g k p n f)"
proof -
  have cg: "emits P (with_cgroup_file g k p ''/memory.reclaim'' body)"
    if body: "\<And>path. \<not> sb \<Longrightarrow> may_write path \<Longrightarrow> emits P (body path)" for body
    unfolding with_cgroup_file_def Let_def
    by (rule io_ok_bind [OF cgroup_below], rule io_ok_option, rule io_ok_return, rule TrueI, rule opened [OF assms(1)])
      (auto intro!: io_ok_return body assms(2))
  show ?thesis
    unfolding apply_memory_reclaim_def Let_def
    by (rule io_ok_if, rule io_ok_return, rule TrueI, rule cg) (intro io_rules write_sys TrueI)
qed

lemma vram_gc:
  assumes "boxed g" "\<And>cg. starts_with cg ''/sys/fs/cgroup'' \<Longrightarrow> may_write (c_str cg @ ''/memory.reclaim'')"
    "may_desktop BLUR_OFF" "may_desktop BLUR_ON"
  shows "emits P (trigger_3tier_vram_gc g k hold b)"
proof -
  have "emits P (vram_gc_one g k hold n)" for n
    unfolding vram_gc_one_def Let_def sys_read_file_def using assms reads by (auto intro!: io_rules reclaim)
  then show ?thesis
    unfolding trigger_3tier_vram_gc_def sys_opendir_def using assms reads by (auto intro!: io_rules kwin)
qed

subsection \<open>Steps\<close>

text \<open>The sandbox switch and the known tool never change.\<close>

definition steady :: "engine \<Rightarrow> bool" where
  "steady e \<longleftrightarrow> boxed (en_globals e) \<and>
     (\<forall>t. pl_ryzenadj (en_platform e) = Some t \<longrightarrow> t \<in> set ryzenadj_candidates)"

definition known_tool :: "platform \<Rightarrow> bool" where
  "known_tool pl \<longleftrightarrow> (\<forall>t. pl_ryzenadj pl = Some t \<longrightarrow> t \<in> set ryzenadj_candidates)"

definition step_ok :: "engine_step \<Rightarrow> bool" where
  "step_ok st \<longleftrightarrow> (\<forall>e. steady e \<longrightarrow> io_ok P (st e) (\<lambda>r. \<forall>e'. r = Some e' \<longrightarrow> steady e'))"

lemma step_okI: "(\<And>e. steady e \<Longrightarrow> io_ok P (st e) (\<lambda>r. \<forall>e'. r = Some e' \<longrightarrow> steady e')) \<Longrightarrow> step_ok st"
  by (simp add: step_ok_def)

lemma step_okD: "step_ok st \<Longrightarrow> steady e \<Longrightarrow> io_ok P (st e) (\<lambda>r. \<forall>e'. r = Some e' \<longrightarrow> steady e')"
  by (simp add: step_ok_def)

lemma steps: "(\<And>st. st \<in> set sts \<Longrightarrow> step_ok st) \<Longrightarrow> step_ok (run_steps sts)"
proof (induction sts)
  case Nil
  show ?case by (rule step_okI) (auto intro!: io_ok_return)
next
  case (Cons st sts)
  then have ok: "step_ok st" "step_ok (run_steps sts)" by auto
  show ?case
    by (intro step_okI)
      (auto intro!: io_ok_bind [where R = "\<lambda>r. \<forall>e'. r = Some e' \<longrightarrow> steady e'"] io_ok_return
          step_okD [OF ok(1)] step_okD [OF ok(2)] split: option.splits)
qed

lemma step_io_ok: "(\<And>g. boxed g \<Longrightarrow> emits P (f g)) \<Longrightarrow> step_ok (step_io f)"
  by (rule step_okI) (auto simp: step_io_def steady_def intro!: io_ok_bind_any io_ok_return)

lemma step_base_ok: "(\<And>g b. boxed g \<Longrightarrow> emits P (f g b)) \<Longrightarrow> step_ok (step_base f)"
  by (rule step_okI) (auto simp: step_base_def steady_def intro!: io_ok_bind_any io_ok_return split: prod.splits)

lemma step_statics_ok: "(\<And>g x. boxed g \<Longrightarrow> emits P (f g x)) \<Longrightarrow> step_ok (step_statics f)"
  by (rule step_okI) (auto simp: step_statics_def steady_def intro!: io_ok_bind_any io_ok_return split: prod.splits)

lemma step_wifi_ok: "(\<And>g s. boxed g \<Longrightarrow> emits P (f g s)) \<Longrightarrow> step_ok (step_wifi f)"
  by (rule step_okI) (auto simp: step_wifi_def steady_def intro!: io_ok_bind_any io_ok_return split: prod.splits option.splits)

lemma step_platform_ok:
  "(\<And>g pl. boxed g \<Longrightarrow> known_tool pl \<Longrightarrow> io_ok P (f g pl) (\<lambda>(_, pl). known_tool pl)) \<Longrightarrow>
   step_ok (step_platform f)"
  by (rule step_okI)
    (auto simp: step_platform_def steady_def known_tool_def split: prod.splits
      intro!: io_ok_bind [where R = "\<lambda>(_, pl). known_tool pl"] io_ok_return)

lemma step_smu_ok:
  "(\<And>g pl. boxed g \<Longrightarrow> known_tool pl \<Longrightarrow> io_ok P (f g pl) (\<lambda>r. \<forall>b pl. r = Some (b, pl) \<longrightarrow> known_tool pl)) \<Longrightarrow>
   step_ok (step_smu f)"
  by (rule step_okI)
    (auto simp: step_smu_def steady_def known_tool_def
      intro!: io_ok_bind [where R = "\<lambda>r. \<forall>b pl. r = Some (b, pl) \<longrightarrow> known_tool pl"] io_ok_return)

lemma step_when_ok: "step_ok st \<Longrightarrow> step_ok (step_when c st)"
  by (auto simp: step_ok_def step_when_def intro!: io_ok_return)

lemma step_set_ok: "step_ok (step_set f)"
  by (auto simp: step_ok_def step_set_def steady_def intro!: io_ok_return)

lemma step_of_ok: "(\<And>e. step_ok (f e)) \<Longrightarrow> step_ok (step_of f)"
  by (auto simp: step_ok_def step_of_def)

lemma step_backlight_ok:
  assumes "\<forall>d \<in> set BACKLIGHT_DIRS. may_write (brightness_path d)"
  shows "step_ok (step_backlight_cap k pct)"
  by (rule step_okI)
    (auto simp: step_backlight_cap_def steady_def intro!: io_ok_bind_any [OF backlight_down] io_ok_return assms
      split: prod.splits)

lemma step_audio_ok: "step_ok (release_audio_floor k)"
proof (rule step_okI)
  fix e assume e: "steady e"
  have "io_ok P (set_audio_latency_floor k False g) (\<lambda>g'. gl_sandbox g' = gl_sandbox g)" for g
    unfolding set_audio_latency_floor_def sys_close_fd_def using closes
    by (auto intro!: io_ok_bind_any emits_syscall io_ok_return)
  then show "io_ok P (release_audio_floor k e) (\<lambda>r. \<forall>e'. r = Some e' \<longrightarrow> steady e')"
    unfolding release_audio_floor_def
    by (rule io_ok_bind) (use e in \<open>auto simp: steady_def boxed_def intro!: io_ok_return\<close>)
qed

subsection \<open>The fan and the SMU\<close>

lemma find_tool: "known_tool pl \<Longrightarrow> io_ok P (find_ryzenadj k pl) (\<lambda>(t, pl). known_tool pl \<and> (\<forall>c. t = Some c \<longrightarrow> c \<in> set ryzenadj_candidates))"
proof -
  have "io_ok P (io_for (\<lambda>f. f = None) (\<lambda>c _. do { ok \<leftarrow> sys_access_x k c; return_io (if ok then Some c else None) })
     ryzenadj_candidates None) (\<lambda>f. \<forall>c. f = Some c \<longrightarrow> c \<in> set ryzenadj_candidates)"
    unfolding sys_access_x_def using reads by (auto intro!: io_ok_for io_ok_bind_any emits_syscall io_ok_return split: if_splits)
  then show "known_tool pl \<Longrightarrow> ?thesis"
    unfolding find_ryzenadj_def known_tool_def
    by (auto intro!: io_ok_return io_ok_bind [where R = "\<lambda>f. \<forall>c. f = Some c \<longrightarrow> c \<in> set ryzenadj_candidates"])
qed

lemma read_back: "known_tool pl \<Longrightarrow> io_ok P (read_back_limit k row sc pl) (\<lambda>(_, pl). known_tool pl)"
proof -
  assume pl: "known_tool pl"
  have "io_ok P (read_ryzenadj_table k pl) (\<lambda>(_, pl). known_tool pl)"
    unfolding read_ryzenadj_table_def sys_popen_def
    by (rule io_ok_bind [OF find_tool [OF pl]])
      (auto intro!: io_ok_return io_ok_bind_any emits_syscall tables simp: smu_table_cmd_def split: option.splits)
  then show ?thesis
    unfolding read_back_limit_def Let_def by (rule io_ok_bind) (auto intro!: io_ok_return)
qed

lemma smu_raise:
  assumes "boxed g" "\<And>t. t \<in> set ryzenadj_candidates \<Longrightarrow> may_run (smu_raise_cmd t)" "known_tool pl"
  shows "io_ok P (apply_smu_performance_limits g k pl) (\<lambda>r. \<forall>b pl. r = Some (b, pl) \<longrightarrow> known_tool pl)"
proof -
  have upd: "known_tool pl \<Longrightarrow> known_tool (pl\<lparr>pl_smu_limits_modified := a\<rparr>)"
    "known_tool pl \<Longrightarrow> known_tool (pl\<lparr>pl_smu_limits_modified := a, pl_tctl_clamp_reported := c\<rparr>)" for pl a c
    by (simp_all add: known_tool_def)
  show ?thesis
    unfolding apply_smu_performance_limits_def Let_def log_event_def
    by (auto intro!: io_ok_return io_ok_bind [OF find_tool] io_ok_bind_any [OF run] io_ok_bind [OF read_back]
        io_ok_bind_any [OF io_ok_when] emits_syscall alerts assms upd split: option.splits)
qed

lemma smu_restore:
  assumes "boxed g" "\<And>t pl. t \<in> set ryzenadj_candidates \<Longrightarrow> may_run (smu_restore_cmd t pl)" "known_tool pl"
  shows "io_ok P (restore_smu_limits g k pl) (\<lambda>(_, pl). known_tool pl)"
proof -
  have upd: "known_tool pl \<Longrightarrow> known_tool (pl\<lparr>pl_smu_limits_modified := a\<rparr>)" for pl a
    by (simp add: known_tool_def)
  show ?thesis
    unfolding restore_smu_limits_def
    by (auto intro!: io_ok_return io_ok_bind [OF find_tool] io_ok_bind_any [OF run] assms upd split: option.splits)
qed

lemma fan_restore:
  assumes "boxed g" "may_write FAN_PATH" "known_tool pl"
  shows "io_ok P (restore_fan_level g k pl) (\<lambda>(_, pl). known_tool pl)"
proof -
  have upd: "known_tool pl \<Longrightarrow> known_tool (pl\<lparr>pl_fan_level_modified := a, pl_last_fan_level := c\<rparr>)" for pl a c
    by (simp add: known_tool_def)
  show ?thesis
    unfolding restore_fan_level_def Let_def
    by (auto intro!: io_ok_return io_ok_bind_any [OF write_plain] assms upd)
qed

lemma ceiling_tool:
  assumes "boxed g" "\<And>i. may_write (cpufreq_path i ''scaling_max_freq'')" "may_write BOOST_PATH" "known_tool pl"
  shows "io_ok P (assert_unrestricted_cpu_ceiling g k pl) (\<lambda>(_, pl). known_tool pl)"
proof -
  have one: "emits P (assert_cpu_ceiling_one g k m i r)" for m i r
    unfolding assert_cpu_ceiling_one_def using assms by (auto intro!: io_rules read_u32 write_plain)
  have upd: "known_tool (pl\<lparr>pl_ceiling_assertions := c\<rparr>)" for c using assms(4) by (simp add: known_tool_def)
  show ?thesis
    unfolding assert_unrestricted_cpu_ceiling_def Let_def
    by (intro io_ok_bind_any io_ok_if io_ok_return emits_for boost one read_u32 TrueI assms) (auto simp: upd)
qed

end

end
