(* ===== verification/Profile_Safety.thy ===== *)
theory Profile_Safety
  imports Knob_Effects Machines
begin

text \<open>
  What profile changes may do to the system, whatever their order: the contract of
  \<open>Knob_Effects\<close> at the events that are allowed, and at those that are allowed in the sandbox.
\<close>

text \<open>The files a profile may write, and the commands it may run.\<close>

definition knob_path :: "string \<Rightarrow> bool" where
  "knob_path p \<longleftrightarrow> starts_with p ''/sys/'' \<or> starts_with p ''/proc/sys/'' \<or> p = FAN_PATH"

definition desktop_bodies :: "string list" where
  "desktop_bodies = [BLUETOOTH_ON, DRRS_LOW, DRRS_HIGH, BLUR_OFF, BLUR_ON, BALOO_OFF, BALOO_ON]"

definition profile_cmd :: "string \<Rightarrow> bool" where
  "profile_cmd c \<longleftrightarrow> (\<exists>p. c = ppd_cmd p) \<or> (\<exists>body \<in> set desktop_bodies. desktop_command_of body c) \<or>
     (\<exists>t \<in> set ryzenadj_candidates. c = smu_raise_cmd t \<or> (\<exists>pl. c = smu_restore_cmd t pl))"

lemma knob_paths [simp]:
  "knob_path PLATFORM_PROFILE" "knob_path (cpufreq_path i leaf)" "knob_path BOOST_PATH" "knob_path SMT_CONTROL"
  "knob_path ASPM_POLICY" "knob_path SCHED_COST" "p \<in> set PANEL_PATHS \<Longrightarrow> knob_path p"
  "p \<in> set GPU_DPM_PATHS \<Longrightarrow> knob_path p" "p \<in> set GPU_MODE_PATHS \<Longrightarrow> knob_path p" "knob_path NVME_LATENCY"
  "knob_path (nvme_control_path j)" "knob_path (rfkill_path j leaf)"
  "d \<in> set BACKLIGHT_DIRS \<Longrightarrow> knob_path (brightness_path d)" "knob_path VM_WRITEBACK" "knob_path VM_EXPIRE"
  "knob_path VM_LAPTOP" "knob_path AUDIO_POWER_SAVE" "knob_path AUDIO_CONTROLLER" "knob_path FAN_PATH"
  by (auto simp: knob_path_def starts_with_def PLATFORM_PROFILE_def cpufreq_path_def BOOST_PATH_def SMT_CONTROL_def
      ASPM_POLICY_def SCHED_COST_def PANEL_PATHS_def GPU_DPM_PATHS_def GPU_MODE_PATHS_def GPU_DIRS_def
      NVME_LATENCY_def nvme_control_path_def rfkill_path_def BACKLIGHT_DIRS_def VM_WRITEBACK_def VM_EXPIRE_def
      VM_LAPTOP_def AUDIO_POWER_SAVE_def AUDIO_CONTROLLER_def)

lemma starts_with_cut: "length p < n \<Longrightarrow> starts_with (snprintf_cut n (p @ s)) p"
  by (simp add: starts_with_def snprintf_cut_def)

lemma knob_paths_cut [simp]:
  "knob_path (wifi_control_path n)" "knob_path (pci_control_path n)" "knob_path (usb_control_path n)"
  using starts_with_cut [of "''/sys/''" 96 "''class/net/'' @ n @ ''/device/power/control''"]
    starts_with_cut [of "''/sys/''" 256 "''bus/pci/devices/'' @ n @ ''/power/control''"]
  by (auto simp: knob_path_def wifi_control_path_def pci_control_path_def usb_control_path_def usb_dev_path_def
      starts_with_def snprintf_cut_def)

lemma knob_path_reclaim [simp]: "starts_with cg ''/sys/fs/cgroup'' \<Longrightarrow> knob_path (c_str cg @ ''/memory.reclaim'')"
proof -
  assume "starts_with cg ''/sys/fs/cgroup''"
  then obtain s where "cg = ''/sys/fs/cgroup'' @ s" by (auto simp: starts_with_iff)
  then show ?thesis by (simp add: knob_path_def starts_with_def c_str_def)
qed

context knob_effects
begin

definition may_all :: bool where
  "may_all \<longleftrightarrow> (\<forall>p. knob_path p \<longrightarrow> may_write p) \<and> (\<forall>c. profile_cmd c \<longrightarrow> may_run c) \<and> may_transmit"

lemma may_allD:
  assumes may_all
  shows "knob_path p \<Longrightarrow> may_write p" "may_run (ppd_cmd q)" "body \<in> set desktop_bodies \<Longrightarrow> may_desktop body"
    "t \<in> set ryzenadj_candidates \<Longrightarrow> may_run (smu_raise_cmd t)"
    "t \<in> set ryzenadj_candidates \<Longrightarrow> may_run (smu_restore_cmd t pl)" may_transmit
  using assms by (auto simp: may_all_def may_desktop_def profile_cmd_def)

lemma bodies [simp]: "BLUETOOTH_ON \<in> set desktop_bodies" "DRRS_LOW \<in> set desktop_bodies" "DRRS_HIGH \<in> set desktop_bodies"
  "BLUR_OFF \<in> set desktop_bodies" "BLUR_ON \<in> set desktop_bodies" "BALOO_OFF \<in> set desktop_bodies"
  "BALOO_ON \<in> set desktop_bodies"
  by (simp_all add: desktop_bodies_def)

lemmas knobs = platform_profile governor epp freq_floor boost max_freq smt aspm migration_cost pm_qos_off pci_pm
  usb_pm panel gpu_dpm gpu_mode nvme_latency nvme_control nvme_restore wifi_power_save wifi_tx bluetooth
  backlight_up refresh_rate kwin baloo writeback codec vram_gc

lemmas step_rules = step_io_ok step_base_ok step_statics_ok step_wifi_ok step_platform_ok step_smu_ok step_when_ok
  step_set_ok step_of_ok step_backlight_ok step_audio_ok

lemma release_ok: "may_all \<Longrightarrow> step_ok (release_performance_unleash k)"
  unfolding release_performance_unleash_def
  by (rule steps)
    (auto intro!: step_rules knobs smu_restore fan_restore io_ok_bind_any io_ok_return may_allD)

lemma undo_ok: "may_all \<Longrightarrow> st \<in> set (undo_ultra_endurance k) \<Longrightarrow> step_ok st"
  unfolding undo_ultra_endurance_def by (auto intro!: step_rules knobs may_allD)

lemma restore_ok: "may_all \<Longrightarrow> step_ok (restore_hardware_baseline k)"
proof -
  assume may_all
  have "step_ok (run_steps ([step_of (\<lambda>e. step_statics (\<lambda>g. set_platform_profile g k (bl_platform_profile (en_base e)))),
          step_of (\<lambda>e. step_io (\<lambda>g. set_cpu_governor g k (bl_cpu_governor (en_base e)))),
          step_of (\<lambda>e. step_io (\<lambda>g. set_cpu_boost g k (bl_cpu_boost (en_base e) \<noteq> 0))),
          step_of (\<lambda>e. step_io (\<lambda>g. set_pcie_aspm_policy g k (bl_aspm_policy (en_base e)))),
          step_when (\<lambda>e. 0 < bl_scaling_max_khz (en_base e))
            (step_of (\<lambda>e. step_io (\<lambda>g. set_cpu_scaling_max_freq g k (bl_scaling_max_khz (en_base e))))),
          step_of (\<lambda>e. step_io (\<lambda>g. set_panel_power_savings g k (bl_panel_power_savings (en_base e)))),
          step_of (\<lambda>e. step_io (\<lambda>g. restore_gpu_max_clock g k (en_base e))),
          step_when (\<lambda>e. bl_gpu_dpm_level (en_base e) \<noteq> [])
            (step_of (\<lambda>e. step_io (\<lambda>g. set_gpu_dpm_level g k (bl_gpu_dpm_level (en_base e)))))] @
         undo_ultra_endurance k @
         [release_performance_unleash k,
          release_audio_floor k,
          step_when (\<lambda>e. 0 \<le> bl_codec_suspended (en_base e)) (step_set (\<lambda>b. b\<lparr>bl_codec_suspended := - 1\<rparr>))]))"
    using \<open>may_all\<close>
    by (intro steps) (auto intro!: step_rules knobs release_ok may_allD intro: undo_ok)
  then show ?thesis
    unfolding step_ok_def restore_hardware_baseline_def by (auto intro!: io_ok_return)
qed

lemma profile_ok: "may_all \<Longrightarrow> st \<in> set (profile_steps k hold m) \<Longrightarrow> step_ok st"
  unfolding profile_steps_def performance_steps_def balanced_steps_def power_saver_steps_def ultra_endurance_steps_def
  by (auto intro!: step_rules knobs ceiling_tool smu_raise release_ok io_ok_bind_any io_ok_return io_ok_if
      may_allD intro: undo_ok split: power_profile.splits)

end
context knob_effects
begin

lemma capture_files:
  "emits P (capture_line k p n d)" "emits P (capture_u32 k p m v)" "emits P (capture_khz k p v)"
  "emits P (capture_first_line k ps d)" "emits P (capture_bluetooth k)" "emits P (capture_backlight k b)"
  "emits P (capture_nvme_control k b)"
  unfolding capture_line_def capture_u32_def capture_khz_def capture_first_line_def capture_bluetooth_def
    capture_backlight_def capture_nvme_control_def Let_def
  by (auto intro!: io_rules read_some_file read_u32)

lemma capture_parts:
  "emits P (capture_processor k s)" "emits P (capture_peripherals k b)"
  unfolding capture_processor_def capture_peripherals_def Let_def log_event_def
  using alerts by (auto intro!: io_rules capture_files read_some_file read_u32)

lemma capture_perf: "abi = k_nl_abi k \<Longrightarrow> emits P (capture_performance k s)"
  unfolding capture_performance_def Let_def
  by (auto intro!: io_rules capture_files read_some_file read_gpu_mode find_wireless get_power_save)

lemma capture_smu_line_tool: "capture_smu_line l pl = Some pl' \<Longrightarrow> known_tool pl' = known_tool pl"
  by (auto simp: capture_smu_line_def Let_def known_tool_def split: if_splits)

lemma capture_smu_tool:
  "fold (\<lambda>l pl. Option.bind pl (capture_smu_line l)) ls (Some pl) = Some pl' \<Longrightarrow> known_tool pl' = known_tool pl"
proof (induction ls arbitrary: pl)
  case (Cons l ls)
  have none: "fold (\<lambda>l pl. Option.bind pl (capture_smu_line l)) ls None = None" for ls
    by (induction ls) auto
  show ?case
    using Cons.prems Cons.IH by (cases "capture_smu_line l pl") (auto simp: none dest: capture_smu_line_tool)
qed simp

lemma capture_smu_ok: "known_tool pl \<Longrightarrow> io_ok P (capture_smu k pl) (\<lambda>r. \<forall>pl. r = Some pl \<longrightarrow> known_tool pl)"
  unfolding capture_smu_def log_event_def sys_popen_text_def
  by (rule io_ok_bind [OF find_tool])
    (auto intro!: io_ok_return io_ok_bind_any emits_syscall alerts tables simp: smu_table_cmd_def capture_smu_tool
      split: option.splits)

lemma capture_ok: "abi = k_nl_abi k \<Longrightarrow> step_ok (capture_hardware_baseline k)"
proof (rule step_okI)
  fix e assume abi: "abi = k_nl_abi k" and e: "steady e"
  then have tool: "known_tool (en_platform e)" by (simp add: steady_def known_tool_def)
  have proc: "io_ok P (capture_processor k (b, pl)) (\<lambda>(b, pl'). known_tool pl')" if "known_tool pl" for b pl
    unfolding capture_processor_def Let_def log_event_def
    by (intro io_ok_bind_any capture_files read_some_file io_ok_when emits_syscall alerts io_ok_return)
      (use that in \<open>simp add: known_tool_def\<close>)
  have fan: "io_ok P (capture_fan k pl) known_tool" if "known_tool pl" for pl
    unfolding capture_fan_def sys_read_file_def
    using that reads by (auto intro!: io_ok_bind_any emits_syscall io_ok_return simp: known_tool_def)
  show "io_ok P (capture_hardware_baseline k e) (\<lambda>r. \<forall>e'. r = Some e' \<longrightarrow> steady e')"
    unfolding capture_hardware_baseline_def
    by (auto intro!: io_ok_return io_ok_bind [OF proc] io_ok_bind_any [OF capture_parts(2)]
        io_ok_bind_any [OF capture_perf] io_ok_bind [OF fan] io_ok_bind [OF capture_smu_ok] abi tool
        simp: known_tool_def steady_def e [unfolded steady_def])
qed

lemma apply_ok: "abi = k_nl_abi k \<Longrightarrow> may_all \<Longrightarrow> step_ok (apply_power_profile k hold m)"
  unfolding apply_power_profile_def
  by (rule steps) (auto intro!: step_rules capture_ok freq_floor may_allD intro: profile_ok)

end

section \<open>What a profile may do\<close>

text \<open>
  The public operations on profiles, in any order.  After undefined behaviour (\<open>None\<close>) nothing
  more is said.
\<close>

datatype profile_op = Capture | Apply power_profile bool | RestoreBaseline

definition profile_step :: "kernel \<Rightarrow> profile_op \<Rightarrow> engine option \<Rightarrow> engine option io" where
  "profile_step k op s =
     (case s of None \<Rightarrow> return_io None
      | Some e \<Rightarrow> (case op of Capture \<Rightarrow> capture_hardware_baseline k e
                  | Apply m hold \<Rightarrow> apply_power_profile k hold m e
                  | RestoreBaseline \<Rightarrow> restore_hardware_baseline k e))"

fun profile_event :: "nl_abi \<Rightarrow> bool \<Rightarrow> event \<Rightarrow> bool" where
  "profile_event abi sb (EvOpenWrite p ok) = (\<not> sb \<and> knob_path p)"
| "profile_event abi sb (EvWrite p d n) = (\<not> sb \<and> knob_path p)"
| "profile_event abi sb (EvSystem c ok) = (\<not> sb \<and> profile_cmd c)"
| "profile_event abi sb (EvNetlink msg) = (\<not> sb \<or> nl_query abi msg)"
| "profile_event abi sb (EvNetlinkOpen ok) = True"
| "profile_event abi sb (EvPopen c) = smu_table_cmd c"
| "profile_event abi sb (EvAlert a) = True"
| "profile_event abi sb (EvCloseFd p) = True"
| "profile_event abi sb e = is_read_event e"

definition engine_ok :: "bool \<Rightarrow> engine \<Rightarrow> bool" where
  "engine_ok sb e \<longleftrightarrow> gl_sandbox (en_globals e) = sb \<and>
     (\<forall>t. pl_ryzenadj (en_platform e) = Some t \<longrightarrow> t \<in> set ryzenadj_candidates)"

interpretation profiles: knob_effects "profile_event abi sb" sb abi for sb abi
proof
  show "profile_event abi sb e" if "is_read_event e" for e using that by (cases e) auto
qed auto

lemma profiles_steady: "profiles.steady sb = engine_ok sb"
  by (rule ext) (simp add: profiles.steady_def engine_ok_def profiles.boxed_def)

lemma profiles_may_all: "profiles.may_all sb abi"
  by (auto simp: profiles.may_all_def profiles.may_write_def profiles.may_run_def profiles.may_transmit_def)

definition calm_engine :: "bool \<Rightarrow> engine option \<Rightarrow> bool" where
  "calm_engine sb s \<longleftrightarrow> (\<forall>e. s = Some e \<longrightarrow> engine_ok sb e)"

interpretation profile_machine: calm_machine "profile_step k" "calm_engine sb" "profile_event (k_nl_abi k) sb" for k sb
proof
  fix s op assume s: "calm_engine sb s"
  show "io_ok (profile_event (k_nl_abi k) sb) (profile_step k op s) (calm_engine sb)"
  proof (cases s)
    case None
    then show ?thesis by (auto simp: profile_step_def calm_engine_def intro: io_ok_return)
  next
    case (Some e)
    then have e: "profiles.steady sb e" using s by (simp add: calm_engine_def profiles_steady)
    have run: "io_ok (profile_event (k_nl_abi k) sb) (st e) (calm_engine sb)"
      if "profiles.step_ok (k_nl_abi k) sb st" for st
      using profiles.step_okD [OF that e] by (simp add: calm_engine_def [abs_def] profiles_steady)
    show ?thesis
      using Some run [OF profiles.capture_ok [OF refl]] run [OF profiles.apply_ok [OF refl profiles_may_all]]
        run [OF profiles.restore_ok [OF profiles_may_all]]
      by (cases op) (simp_all add: profile_step_def)
  qed
qed

section \<open>Properties\<close>

text \<open>C13. Whatever sequence of captures, profile changes and restores runs, the daemon only writes
  below \<^verbatim>\<open>/sys\<close> and \<^verbatim>\<open>/proc/sys\<close> and to the fan file, and every command it hands to a shell is one
  of its fixed texts, with at most a checked socket name and a checked runtime directory in it; it
  never signals, reschedules, deletes, forks or swaps.  In the sandbox it writes nothing, runs no
  command, and asks the wireless driver only for its state.
\<close>

theorem profiles_touch_only_knobs:
  assumes "engine_ok sb e"
  shows "emits (profile_event (k_nl_abi k) sb) (io_for (\<lambda>_. True) (profile_step k) ops (Some e))"
  by (rule profile_machine.run_events) (simp add: calm_engine_def assms)

definition example_engine :: engine where
  "example_engine = \<lparr>en_globals = \<lparr>gl_sandbox = False, gl_audio_active = False, gl_audio_owners = [],
     gl_effective_profile = Balanced, gl_audio_pm_qos = False\<rparr>, en_base = baseline_init\<lparr>bl_captured := True\<rparr>,
     en_statics = statics_init, en_platform = platform_init, en_topology = None\<rparr>"

theorem profiles_touch_only_knobs_witness:
  "emits (profile_event (k_nl_abi quiet_kernel) False)
     (io_for (\<lambda>_. True) (profile_step quiet_kernel) [Apply UltraEndurance True, RestoreBaseline] (Some example_engine))"
  by (rule profiles_touch_only_knobs) (simp add: engine_ok_def example_engine_def platform_init_def)

end
