(* ===== verification/Profile_Trace.thy ===== *)
theory Profile_Trace
  imports Profile_Safety
begin

text \<open>
  What profile changes leave behind.  Four knobs of the baseline (writeback, the audio codec, the
  scheduler's migration cost, the storage latency) are followed through every sequence of captures,
  profile changes and restores: a knob that the last operations release holds its captured content
  again.  Most steps of a profile are inert (they touch no traced file and no traced field); the few
  that are not each move one knob between held and released.
\<close>

section \<open>Traced knobs\<close>

text \<open>
  Four knobs that a profile takes and another must give back, each with the flag that records
  that the daemon holds it, and its files with their baseline contents.
\<close>

datatype knob = VmKnob | AudioKnob | SchedKnob | NvmeKnob

fun knob_held :: "baseline \<Rightarrow> knob \<Rightarrow> bool" where
  "knob_held b VmKnob = bl_vm_modified b"
| "knob_held b AudioKnob = bl_audio_modified b"
| "knob_held b SchedKnob = bl_sched_cost_modified b"
| "knob_held b NvmeKnob = bl_nvme_apst_modified b"

fun knob_files :: "baseline \<Rightarrow> knob \<Rightarrow> (string \<times> string) list" where
  "knob_files b VmKnob = [(VM_WRITEBACK, show_u32 (bl_vm_writeback_cs b) @ [NL]),
     (VM_EXPIRE, show_u32 (bl_vm_expire_cs b) @ [NL]), (VM_LAPTOP, show_u32 (bl_vm_laptop_mode b) @ [NL])]"
| "knob_files b AudioKnob =
     (if 0 \<le> bl_audio_power_save b then [(AUDIO_POWER_SAVE, show_i32 (bl_audio_power_save b) @ [NL])] else []) @
     (if bl_audio_controller b \<noteq> [] then [(AUDIO_CONTROLLER, snprintf_cut 16 (bl_audio_controller b @ [NL]))] else [])"
| "knob_files b SchedKnob = [(SCHED_COST, show_nat (unat (bl_sched_cost_ns b)) @ [NL])]"
| "knob_files b NvmeKnob = [(NVME_LATENCY, show_u32 (bl_nvme_latency_us b) @ [NL])]"

definition traced_files :: "string list" where
  "traced_files = [VM_WRITEBACK, VM_EXPIRE, VM_LAPTOP, AUDIO_POWER_SAVE, AUDIO_CONTROLLER, SCHED_COST, NVME_LATENCY]"

lemma knob_files_traced: "(p, d) \<in> set (knob_files b x) \<Longrightarrow> p \<in> set traced_files"
  by (cases x) (auto simp: traced_files_def split: if_splits)

lemma traced_distinct [simp]: "distinct traced_files"
  by (simp add: traced_files_def VM_WRITEBACK_def VM_EXPIRE_def VM_LAPTOP_def AUDIO_POWER_SAVE_def AUDIO_CONTROLLER_def
      SCHED_COST_def NVME_LATENCY_def)

text \<open>What the file holds: the last write that was taken.\<close>

fun last_write :: "string \<Rightarrow> history \<Rightarrow> string option" where
  "last_write p [] = None"
| "last_write p (EvWrite q d n # h) = (if q = p \<and> 0 < n then Some d else last_write p h)"
| "last_write p (_ # h) = last_write p h"

definition at_baseline :: "baseline \<Rightarrow> history \<Rightarrow> knob \<Rightarrow> bool" where
  "at_baseline b h x \<longleftrightarrow> (\<forall>(p, d) \<in> set (knob_files b x). last_write p h = None \<or> last_write p h = Some d)"

text \<open>A system whose files can be opened and take what is written.\<close>

definition takes_writes :: "kernel \<Rightarrow> bool" where
  "takes_writes k \<longleftrightarrow> (\<forall>p \<in> set traced_files. \<forall>h d. k_open_write k h p \<and> 0 < k_write k h p d)"

text \<open>At most the knobs \<open>K\<close> are held, and every other file is as the user left it.\<close>

definition holding :: "knob set \<Rightarrow> engine \<Rightarrow> history \<Rightarrow> bool" where
  "holding K e h \<longleftrightarrow> engine_ok False e \<and> bl_captured (en_base e) \<and>
     (\<forall>x. (knob_held (en_base e) x \<longrightarrow> x \<in> K) \<and> (\<not> knob_held (en_base e) x \<longrightarrow> at_baseline (en_base e) h x))"

text \<open>What the invariant depends on.\<close>

definition traced_view :: "baseline \<Rightarrow> _" where
  "traced_view b = (bl_captured b, knob_held b, knob_files b)"

section \<open>Steps that leave the traced files alone\<close>

fun untraced :: "event \<Rightarrow> bool" where
  "untraced (EvWrite p d n) = (p \<notin> set traced_files)"
| "untraced _ = True"

lemma last_write_untraced: "list_all untraced es \<Longrightarrow> p \<in> set traced_files \<Longrightarrow> last_write p (es @ h) = last_write p h"
proof (induction es)
  case (Cons e es)
  then show ?case by (cases e) auto
qed simp

interpretation frame: knob_effects untraced False abi for abi
proof
  show "untraced e" if "is_read_event e" for e using that by (cases e) auto
qed auto

lemma frame_simps [simp]: "frame.may_write p \<longleftrightarrow> p \<notin> set traced_files" "frame.may_run c" frame.may_transmit
    "frame.may_desktop body" "frame.boxed g \<longleftrightarrow> \<not> gl_sandbox g" "frame.steady e \<longleftrightarrow> engine_ok False e"
  by (auto simp: frame.may_write_def frame.may_run_def frame.may_transmit_def frame.may_desktop_def frame.boxed_def
      frame.steady_def engine_ok_def)

definition keeps_view :: "engine_step \<Rightarrow> bool" where
  "keeps_view st \<longleftrightarrow>
     (\<forall>e h. wp (st e) (\<lambda>r _. \<forall>e'. r = Some e' \<longrightarrow> traced_view (en_base e') = traced_view (en_base e)) h)"

definition inert :: "engine_step \<Rightarrow> bool" where
  "inert st \<longleftrightarrow> frame.step_ok st \<and> keeps_view st"

lemma wp_conj: "wp m Q h \<Longrightarrow> wp m Q' h \<Longrightarrow> wp m (\<lambda>x h'. Q x h' \<and> Q' x h') h"
  by (auto simp: wp_def split: prod.splits)

text \<open>One step takes the set of held knobs to another.\<close>

definition takes :: "engine_step \<Rightarrow> (knob set \<Rightarrow> knob set) \<Rightarrow> bool" where
  "takes st f \<longleftrightarrow> (\<forall>K e h. holding K e h \<longrightarrow>
     wp (st e) (\<lambda>r h'. \<forall>e'. r = Some e' \<longrightarrow> holding (f K) e' h' \<and> knob_files (en_base e') = knob_files (en_base e)) h)"

lemma at_baseline_frame:
  "list_all untraced es \<Longrightarrow> knob_files b' x = knob_files b x \<Longrightarrow> at_baseline b' (es @ h) x = at_baseline b h x"
  unfolding at_baseline_def using last_write_untraced [OF _ knob_files_traced] by (auto split: prod.splits)

lemma holding_frame:
  assumes "holding K e h" "engine_ok False e'" "list_all untraced es" "traced_view (en_base e') = traced_view (en_base e)"
  shows "holding K e' (es @ h)"
proof -
  have "knob_held (en_base e') x = knob_held (en_base e) x" "knob_files (en_base e') x = knob_files (en_base e) x" for x
    using assms(4) by (auto simp: traced_view_def dest: fun_cong)
  then show ?thesis using assms by (simp add: holding_def traced_view_def at_baseline_frame)
qed

lemma inert_takes: "inert st \<Longrightarrow> takes st (\<lambda>K. K)"
  unfolding takes_def
proof (intro allI impI)
  fix K e h assume st: "inert st" and h: "holding K e h"
  obtain r h' where run: "run_state (st e) h = (r, h')" by (cases "run_state (st e) h")
  have "frame.steady e" using h by (simp add: holding_def)
  then have ok: "io_ok untraced (st e) (\<lambda>r. \<forall>e'. r = Some e' \<longrightarrow> frame.steady e')"
    using st frame.step_okD [of st e] by (simp add: inert_def)
  obtain es where es: "h' = es @ h" "list_all untraced es" using io_okD(1) [OF ok run] by blast
  have "\<forall>e'. r = Some e' \<longrightarrow> engine_ok False e'" using io_okD(2) [OF ok run] by simp
  moreover have "\<forall>e'. r = Some e' \<longrightarrow> traced_view (en_base e') = traced_view (en_base e)"
  proof -
    have "wp (st e) (\<lambda>r _. \<forall>e'. r = Some e' \<longrightarrow> traced_view (en_base e') = traced_view (en_base e)) h"
      using st by (simp add: inert_def keeps_view_def)
    then show ?thesis by (simp only: wp_def run prod.case)
  qed
  moreover have "knob_files (en_base e') = knob_files (en_base e)" if "traced_view (en_base e') = traced_view (en_base e)" for e'
    using that by (simp add: traced_view_def)
  ultimately show "wp (st e) (\<lambda>r h'. \<forall>e'. r = Some e' \<longrightarrow>
      holding K e' h' \<and> knob_files (en_base e') = knob_files (en_base e)) h"
    using holding_frame [OF h _ es(2)] by (simp only: wp_def run prod.case es(1)) blast
qed

lemma takes_mono: "takes st f \<Longrightarrow> (\<And>K. f K \<subseteq> f' K) \<Longrightarrow> takes st f'"
  unfolding takes_def
  by (intro allI impI) (erule allE, erule allE, erule allE, erule impE, assumption, erule wp_mono, auto simp: holding_def)

lemma takes_Nil: "takes (run_steps []) (\<lambda>K. K)"
  by (simp add: takes_def wp_simps)

lemma takesD: "takes st f \<Longrightarrow> holding K e h \<Longrightarrow> wp (st e) (\<lambda>r h'. \<forall>e'. r = Some e' \<longrightarrow>
    holding (f K) e' h' \<and> knob_files (en_base e') = knob_files (en_base e)) h"
  by (simp add: takes_def)

lemma takes_Cons:
  assumes "takes st f" "takes (run_steps sts) f'"
  shows "takes (run_steps (st # sts)) (\<lambda>K. f' (f K))"
  unfolding takes_def run_steps.simps wp_bind
proof (intro allI impI)
  fix K e h
  assume h: "holding K e h"
  show "wp (st e) (\<lambda>x. wp (case x of None \<Rightarrow> return_io None | Some e \<Rightarrow> run_steps sts e)
      (\<lambda>r h'. \<forall>e'. r = Some e' \<longrightarrow> holding (f' (f K)) e' h' \<and> knob_files (en_base e') = knob_files (en_base e))) h"
  proof (rule wp_mono [OF takesD [OF assms(1) h]])
    fix r h'
    assume r: "\<forall>e'. r = Some e' \<longrightarrow> holding (f K) e' h' \<and> knob_files (en_base e') = knob_files (en_base e)"
    show "wp (case r of None \<Rightarrow> return_io None | Some e \<Rightarrow> run_steps sts e)
      (\<lambda>r h'. \<forall>e'. r = Some e' \<longrightarrow> holding (f' (f K)) e' h' \<and> knob_files (en_base e') = knob_files (en_base e)) h'"
    proof (cases r)
      case (Some e1)
      with r have "holding (f K) e1 h'" and eq: "knob_files (en_base e1) = knob_files (en_base e)" by auto
      from takesD [OF assms(2) this(1)] show ?thesis unfolding Some eq by (simp add: wp_simps)
    qed (simp add: wp_simps)
  qed
qed

lemma run_steps_append:
  "run_steps (s1 @ s2) e = run_steps s1 e \<bind> (\<lambda>r. case r of None \<Rightarrow> return_io None | Some e \<Rightarrow> run_steps s2 e)"
proof (induction s1 arbitrary: e)
  case (Cons st s1)
  have "(\<lambda>r. case r of None \<Rightarrow> return_io None | Some e \<Rightarrow> run_steps (s1 @ s2) e) =
      (\<lambda>r. (case r of None \<Rightarrow> return_io None | Some e \<Rightarrow> run_steps s1 e) \<bind>
        (\<lambda>r. case r of None \<Rightarrow> return_io None | Some e \<Rightarrow> run_steps s2 e))"
    by (rule ext) (auto simp: Cons.IH split: option.split)
  then show ?case by (simp only: append_Cons run_steps.simps bind_assoc)
qed simp

lemma takes_append:
  assumes "takes (run_steps s1) f" "takes (run_steps s2) f'"
  shows "takes (run_steps (s1 @ s2)) (\<lambda>K. f' (f K))"
proof -
  have "run_steps (s1 @ s2) = run_steps (run_steps s1 # s2)"
    by (rule ext) (simp add: run_steps_append)
  then show ?thesis by (simp only: takes_Cons [OF assms])
qed

lemma takes_inert: "takes (run_steps sts) f \<Longrightarrow> inert st \<Longrightarrow> takes (run_steps (st # sts)) f"
  by (rule takes_Cons [OF inert_takes])

subsection \<open>Fields that are not traced\<close>

lemma traced_view_eqI:
  "bl_captured b' = bl_captured b \<Longrightarrow> bl_vm_modified b' = bl_vm_modified b \<Longrightarrow> bl_audio_modified b' = bl_audio_modified b \<Longrightarrow>
   bl_sched_cost_modified b' = bl_sched_cost_modified b \<Longrightarrow> bl_nvme_apst_modified b' = bl_nvme_apst_modified b \<Longrightarrow>
   bl_vm_writeback_cs b' = bl_vm_writeback_cs b \<Longrightarrow> bl_vm_expire_cs b' = bl_vm_expire_cs b \<Longrightarrow>
   bl_vm_laptop_mode b' = bl_vm_laptop_mode b \<Longrightarrow> bl_audio_power_save b' = bl_audio_power_save b \<Longrightarrow>
   bl_audio_controller b' = bl_audio_controller b \<Longrightarrow> bl_sched_cost_ns b' = bl_sched_cost_ns b \<Longrightarrow>
   bl_nvme_latency_us b' = bl_nvme_latency_us b \<Longrightarrow> traced_view b' = traced_view b"
proof -
  assume eqs: "bl_captured b' = bl_captured b" "bl_vm_modified b' = bl_vm_modified b" "bl_audio_modified b' = bl_audio_modified b"
   "bl_sched_cost_modified b' = bl_sched_cost_modified b" "bl_nvme_apst_modified b' = bl_nvme_apst_modified b"
   "bl_vm_writeback_cs b' = bl_vm_writeback_cs b" "bl_vm_expire_cs b' = bl_vm_expire_cs b"
   "bl_vm_laptop_mode b' = bl_vm_laptop_mode b" "bl_audio_power_save b' = bl_audio_power_save b"
   "bl_audio_controller b' = bl_audio_controller b" "bl_sched_cost_ns b' = bl_sched_cost_ns b"
   "bl_nvme_latency_us b' = bl_nvme_latency_us b"
  have "knob_held b' x = knob_held b x" "knob_files b' x = knob_files b x" for x
    using eqs by (cases x; simp)+
  then show ?thesis using eqs(1) by (auto simp: traced_view_def)
qed

lemma traced_view_simps [simp]:
  "traced_view (b\<lparr>bl_backlight_capped := c\<rparr>) = traced_view b" "traced_view (b\<lparr>bl_backlight_brightness := u, bl_backlight_max := v\<rparr>) = traced_view b"
  "traced_view (b\<lparr>bl_kwin_blur_unloaded := c\<rparr>) = traced_view b" "traced_view (b\<lparr>bl_drrs_applied := c\<rparr>) = traced_view b"
  "traced_view (b\<lparr>bl_baloo_suspended := c\<rparr>) = traced_view b" "traced_view (b\<lparr>bl_wifi_txpower_capped := c\<rparr>) = traced_view b"
  "traced_view (b\<lparr>bl_pcie_pm_modified := c, bl_usb_pm_modified := d\<rparr>) = traced_view b"
  "traced_view (b\<lparr>bl_perf_pm_qos := c\<rparr>) = traced_view b" "traced_view (b\<lparr>bl_gpu_mode_modified := c\<rparr>) = traced_view b"
  "traced_view (b\<lparr>bl_nvme_control_modified := c\<rparr>) = traced_view b" "traced_view (b\<lparr>bl_wifi_ps_disabled := c\<rparr>) = traced_view b"
  "traced_view (b\<lparr>bl_unleash_engaged := c\<rparr>) = traced_view b" "traced_view (b\<lparr>bl_codec_suspended := i\<rparr>) = traced_view b"
  by (rule traced_view_eqI; simp)+

abbreviation view_ok :: "(bool \<times> baseline) io \<Rightarrow> baseline \<Rightarrow> bool" where
  "view_ok m b \<equiv> yields m (\<lambda>(_, b'). traced_view b' = traced_view b)"

lemma view_ok_mode: "view_ok (set_gpu_power_profile_mode g k i b) b"
  unfolding set_gpu_power_profile_mode_def by (auto intro!: yields_any)

lemma view_ok_kwin: "view_ok (set_kwin_effects_suspended g k c b) b"
  unfolding set_kwin_effects_suspended_def by (auto intro!: yields_any)

lemma view_ok_knobs:
  "view_ok (restore_gpu_power_profile_mode_baseline g k b) b"
  "view_ok (set_nvme_power_control g k s b) b" "view_ok (restore_nvme_power_control_baseline g k b) b"
  "view_ok (restore_display_backlight g k b) b"
  "view_ok (set_display_refresh_rate g k hz b) b"
  "view_ok (set_baloo_suspended g k c b) b"
  "view_ok (do { b \<leftarrow> set_performance_pm_qos g k False b; return_io (True, b) }) b"
  "view_ok (do { b \<leftarrow> trigger_3tier_vram_gc g k hold b; return_io (True, b) }) b"
proof -
  have gc: "yields (trigger_3tier_vram_gc g k hold b) (\<lambda>b'. traced_view b' = traced_view b)"
    unfolding trigger_3tier_vram_gc_def by (auto intro!: yields_any yields_bind [OF view_ok_kwin])
  have qos: "yields (set_performance_pm_qos g k False b) (\<lambda>b'. traced_view b' = traced_view b)"
    unfolding set_performance_pm_qos_def by (auto intro!: yields_any)
  show "view_ok (restore_gpu_power_profile_mode_baseline g k b) b"
    unfolding restore_gpu_power_profile_mode_baseline_def by (auto intro!: yields_bind [OF view_ok_mode])
  show "view_ok (do { b \<leftarrow> set_performance_pm_qos g k False b; return_io (True, b) }) b"
    "view_ok (do { b \<leftarrow> trigger_3tier_vram_gc g k hold b; return_io (True, b) }) b"
    by (auto intro!: yields_bind [OF gc] yields_bind [OF qos])
qed (auto simp: set_nvme_power_control_def restore_nvme_power_control_baseline_def restore_display_backlight_def
    set_display_refresh_rate_def set_baloo_suspended_def Let_def intro!: yields_any)

text \<open>The same for the wireless operations, which may be undefined, and for the backlight.\<close>

abbreviation wifi_ok :: "(bool \<times> baseline \<times> statics) option io \<Rightarrow> baseline \<Rightarrow> bool" where
  "wifi_ok m b \<equiv> yields m (\<lambda>r. \<forall>x b' s. r = Some (x, b', s) \<longrightarrow> traced_view b' = traced_view b)"

lemma wifi_ok_knobs:
  "wifi_ok (set_wifi_powersave g k on (b, s)) b" "wifi_ok (restore_wifi_powersave_baseline g k (b, s)) b"
  "wifi_ok (set_wifi_txpower_limit g k mbm (b, s)) b" "wifi_ok (restore_wifi_txpower g k (b, s)) b"
proof -
  show *: "wifi_ok (set_wifi_powersave g k on (b, s)) b" for on
    unfolding set_wifi_powersave_def Let_def by (auto intro!: yields_any split: option.splits)
  show "wifi_ok (restore_wifi_powersave_baseline g k (b, s)) b"
    unfolding restore_wifi_powersave_baseline_def Let_def by (auto intro!: yields_bind [OF *])
qed (auto simp: set_wifi_txpower_limit_def restore_wifi_txpower_def Let_def intro!: yields_any split: option.splits)

lemma view_ok_backlight:
  "yields (cap_display_backlight g k pct b) (\<lambda>r. \<forall>f b'. r = Some (f, b') \<longrightarrow> traced_view b' = traced_view b)"
proof -
  let ?Q = "\<lambda>r :: (bool \<times> baseline) option. \<forall>f b'. r = Some (f, b') \<longrightarrow> traced_view b' = traced_view b"
  have one: "yields (cap_backlight_one g k pct d acc) ?Q" if "traced_view (snd acc) = traced_view b" for d acc
    unfolding cap_backlight_one_def Let_def using that by (auto intro!: yields_any split: option.splits)
  show ?thesis
    unfolding cap_display_backlight_def by (rule yields_for) (auto intro!: one split: option.splits)
qed

section \<open>The steps\<close>

lemma inert_io: "(\<And>g. \<not> gl_sandbox g \<Longrightarrow> emits untraced (f g)) \<Longrightarrow> inert (step_io f)"
  unfolding inert_def keeps_view_def
  by (intro conjI frame.step_io_ok allI yields_wp) (auto simp: step_io_def intro!: yields_any)

lemma inert_statics: "(\<And>g x. \<not> gl_sandbox g \<Longrightarrow> emits untraced (f g x)) \<Longrightarrow> inert (step_statics f)"
  unfolding inert_def keeps_view_def
  by (intro conjI frame.step_statics_ok allI yields_wp) (auto simp: step_statics_def intro!: yields_any)

lemma inert_base:
  "(\<And>g b. \<not> gl_sandbox g \<Longrightarrow> emits untraced (f g b)) \<Longrightarrow> (\<And>g b. view_ok (f g b) b) \<Longrightarrow> inert (step_base f)"
  unfolding inert_def keeps_view_def
  by (intro conjI frame.step_base_ok allI yields_wp)
    (auto simp: step_base_def intro!: yields_bind [where R = "\<lambda>(_, b'). traced_view b' = traced_view b" for b])

lemma inert_wifi:
  "(\<And>g s. \<not> gl_sandbox g \<Longrightarrow> emits untraced (f g s)) \<Longrightarrow> (\<And>g b x. wifi_ok (f g (b, x)) b) \<Longrightarrow> inert (step_wifi f)"
  unfolding inert_def keeps_view_def
proof (intro conjI frame.step_wifi_ok allI yields_wp)
  fix e :: engine assume "\<And>g b x. wifi_ok (f g (b, x)) b"
  then have "wifi_ok (f (en_globals e) (en_base e, en_statics e)) (en_base e)" .
  then show "yields (step_wifi f e) (\<lambda>r. \<forall>e'. r = Some e' \<longrightarrow> traced_view (en_base e') = traced_view (en_base e))"
    unfolding step_wifi_def by (rule yields_bind) auto
qed auto

lemma inert_platform: "frame.step_ok (step_platform f) \<Longrightarrow> inert (step_platform f)"
  unfolding inert_def keeps_view_def
  by (intro conjI allI yields_wp) (auto simp: step_platform_def intro!: yields_any)

lemma inert_smu: "frame.step_ok (step_smu f) \<Longrightarrow> inert (step_smu f)"
  unfolding inert_def keeps_view_def
  by (intro conjI allI yields_wp) (auto simp: step_smu_def intro!: yields_any)

lemma inert_set: "(\<And>b. traced_view (f b) = traced_view b) \<Longrightarrow> inert (step_set f)"
  unfolding inert_def keeps_view_def
  by (intro conjI frame.step_set_ok allI yields_wp) (simp add: step_set_def)

lemma inert_when: "inert st \<Longrightarrow> inert (step_when c st)"
  unfolding inert_def keeps_view_def
  by (auto intro: frame.step_when_ok simp: step_when_def wp_simps)

lemma inert_of: "(\<And>e. inert (f e)) \<Longrightarrow> inert (step_of f)"
  unfolding inert_def keeps_view_def
  by (auto intro: frame.step_of_ok simp: step_of_def)

text \<open>No other knob has a traced file.\<close>

lemma traced_heads: "p \<in> set traced_files \<Longrightarrow> take 7 p \<in> {''/proc/s'', ''/sys/mo''}"
  by (auto simp: traced_files_def VM_WRITEBACK_def VM_EXPIRE_def VM_LAPTOP_def AUDIO_POWER_SAVE_def AUDIO_CONTROLLER_def
      SCHED_COST_def NVME_LATENCY_def)

lemma untraced_paths [simp]:
  "PLATFORM_PROFILE \<notin> set traced_files" "cpufreq_path i leaf \<notin> set traced_files" "BOOST_PATH \<notin> set traced_files"
  "SMT_CONTROL \<notin> set traced_files" "p \<in> set PANEL_PATHS \<Longrightarrow> p \<notin> set traced_files"
  "p \<in> set GPU_DPM_PATHS \<Longrightarrow> p \<notin> set traced_files" "p \<in> set GPU_MODE_PATHS \<Longrightarrow> p \<notin> set traced_files"
  "nvme_control_path j \<notin> set traced_files" "rfkill_path j leaf \<notin> set traced_files"
  "d \<in> set BACKLIGHT_DIRS \<Longrightarrow> brightness_path d \<notin> set traced_files" "FAN_PATH \<notin> set traced_files"
  "wifi_control_path n \<notin> set traced_files" "pci_control_path n \<notin> set traced_files" "usb_control_path n \<notin> set traced_files"
  by (auto dest!: traced_heads simp: PLATFORM_PROFILE_def cpufreq_path_def BOOST_PATH_def SMT_CONTROL_def
      PANEL_PATHS_def GPU_DPM_PATHS_def GPU_MODE_PATHS_def GPU_DIRS_def nvme_control_path_def rfkill_path_def
      BACKLIGHT_DIRS_def FAN_PATH_def wifi_control_path_def pci_control_path_def usb_control_path_def usb_dev_path_def
      snprintf_cut_def)

lemma untraced_aspm [simp]: "ASPM_POLICY \<notin> set traced_files"
  by (simp add: ASPM_POLICY_def traced_files_def VM_WRITEBACK_def VM_EXPIRE_def VM_LAPTOP_def AUDIO_POWER_SAVE_def
      AUDIO_CONTROLLER_def SCHED_COST_def NVME_LATENCY_def)

lemma untraced_reclaim [simp]: "starts_with cg ''/sys/fs/cgroup'' \<Longrightarrow> c_str cg @ ''/memory.reclaim'' \<notin> set traced_files"
  by (auto dest!: traced_heads simp: starts_with_iff c_str_def)

section \<open>The traced steps\<close>

lemma traced_neq [simp]:
  "VM_WRITEBACK \<noteq> VM_EXPIRE" "VM_WRITEBACK \<noteq> VM_LAPTOP" "VM_WRITEBACK \<noteq> AUDIO_POWER_SAVE" "VM_WRITEBACK \<noteq> AUDIO_CONTROLLER"
  "VM_WRITEBACK \<noteq> SCHED_COST" "VM_WRITEBACK \<noteq> NVME_LATENCY" "VM_EXPIRE \<noteq> VM_LAPTOP" "VM_EXPIRE \<noteq> AUDIO_POWER_SAVE"
  "VM_EXPIRE \<noteq> AUDIO_CONTROLLER" "VM_EXPIRE \<noteq> SCHED_COST" "VM_EXPIRE \<noteq> NVME_LATENCY" "VM_LAPTOP \<noteq> AUDIO_POWER_SAVE"
  "VM_LAPTOP \<noteq> AUDIO_CONTROLLER" "VM_LAPTOP \<noteq> SCHED_COST" "VM_LAPTOP \<noteq> NVME_LATENCY" "AUDIO_POWER_SAVE \<noteq> AUDIO_CONTROLLER"
  "AUDIO_POWER_SAVE \<noteq> SCHED_COST" "AUDIO_POWER_SAVE \<noteq> NVME_LATENCY" "AUDIO_CONTROLLER \<noteq> SCHED_COST"
  "AUDIO_CONTROLLER \<noteq> NVME_LATENCY" "SCHED_COST \<noteq> NVME_LATENCY"
  using traced_distinct by (simp_all add: traced_files_def)

lemmas traced_neqs [simp] = traced_neq [symmetric]

lemma traced_mem [simp]: "VM_WRITEBACK \<in> set traced_files" "VM_EXPIRE \<in> set traced_files" "VM_LAPTOP \<in> set traced_files"
  "AUDIO_POWER_SAVE \<in> set traced_files" "AUDIO_CONTROLLER \<in> set traced_files" "SCHED_COST \<in> set traced_files"
  "NVME_LATENCY \<in> set traced_files"
  by (simp_all add: traced_files_def)

text \<open>A write to a traced file succeeds.\<close>

lemma wp_traced_write:
  assumes "takes_writes k" "\<not> gl_sandbox g" "p \<in> set traced_files"
    and "\<And>n. 0 < n \<Longrightarrow> Q True (EvWrite p d n # EvOpenWrite p True # h)"
  shows "wp (write_file g k p d) Q h"
  using assms by (simp add: write_file_def hw_open_write_def sys_defs wp_simps takes_writes_def)

lemma wp_traced_open:
  assumes "takes_writes k" "\<not> gl_sandbox g" "p \<in> set traced_files"
    and "\<And>n. 0 < n \<Longrightarrow> Q (Some True) (EvWrite p d n # EvOpenWrite p True # h)"
  shows "wp (write_opened g k p d) Q h"
  using assms by (simp add: write_opened_def hw_open_write_def sys_defs wp_simps takes_writes_def)

lemma wp_codec_writes:
  assumes "takes_writes k" "\<not> gl_sandbox g"
    and "\<And>n m. 0 < n \<Longrightarrow> 0 < m \<Longrightarrow> Q (True, b\<lparr>bl_audio_modified := True\<rparr>)
      (EvWrite AUDIO_CONTROLLER (if c then ''Y'' @ [NL] else ''N'' @ [NL]) m # EvOpenWrite AUDIO_CONTROLLER True #
       EvWrite AUDIO_POWER_SAVE (show_i32 s @ [NL]) n # EvOpenWrite AUDIO_POWER_SAVE True # h)"
  shows "wp (set_audio_codec_power_save g k s c b) Q h"
  unfolding set_audio_codec_power_save_def wp_bind
  by (rule wp_traced_write [OF assms(1,2)], simp, rule wp_traced_write [OF assms(1,2)], simp) (simp add: wp_simps assms(3))

text \<open>A step that changes one knob.\<close>

lemma holding_change:
  assumes "holding K e h" "en_globals e' = en_globals e" "en_platform e' = en_platform e"
    and "bl_captured (en_base e')" "knob_files (en_base e') = knob_files (en_base e)"
    and "\<And>y. y \<noteq> x \<Longrightarrow> knob_held (en_base e') y = knob_held (en_base e) y"
    and "\<And>y p d. y \<noteq> x \<Longrightarrow> (p, d) \<in> set (knob_files (en_base e) y) \<Longrightarrow> last_write p h' = last_write p h"
    and "knob_held (en_base e') x \<Longrightarrow> x \<in> K'" "\<not> knob_held (en_base e') x \<Longrightarrow> at_baseline (en_base e') h' x"
    and "K - {x} \<subseteq> K'"
  shows "holding K' e' h'"
proof -
  have "(knob_held (en_base e') y \<longrightarrow> y \<in> K') \<and> (\<not> knob_held (en_base e') y \<longrightarrow> at_baseline (en_base e') h' y)" for y
  proof (cases "y = x")
    case False
    then have "(knob_held (en_base e) y \<longrightarrow> y \<in> K') \<and> (\<not> knob_held (en_base e) y \<longrightarrow> at_baseline (en_base e) h y)"
      using assms(1,10) by (auto simp: holding_def)
    moreover have "at_baseline (en_base e') h' y = at_baseline (en_base e) h y"
      unfolding at_baseline_def assms(5) using assms(7) [OF False] by (auto split: prod.splits)
    ultimately show ?thesis using assms(6) [OF False] by simp
  qed (use assms(8,9) in blast)
  then show ?thesis using assms(1-4) by (auto simp: holding_def engine_ok_def)
qed

lemma knob_files_flags [simp]:
  "knob_files (b\<lparr>bl_vm_modified := c\<rparr>) = knob_files b" "knob_files (b\<lparr>bl_audio_modified := c\<rparr>) = knob_files b"
  "knob_files (b\<lparr>bl_sched_cost_modified := c\<rparr>) = knob_files b" "knob_files (b\<lparr>bl_nvme_apst_modified := c\<rparr>) = knob_files b"
  by (rule ext, case_tac x, simp_all)+

lemma knob_held_flags [simp]:
  "knob_held (b\<lparr>bl_vm_modified := c\<rparr>) = (knob_held b)(VmKnob := c)"
  "knob_held (b\<lparr>bl_audio_modified := c\<rparr>) = (knob_held b)(AudioKnob := c)"
  "knob_held (b\<lparr>bl_sched_cost_modified := c\<rparr>) = (knob_held b)(SchedKnob := c)"
  "knob_held (b\<lparr>bl_nvme_apst_modified := c\<rparr>) = (knob_held b)(NvmeKnob := c)"
  by (rule ext, case_tac x, simp_all)+

lemma file_owner:
  "(VM_WRITEBACK, d) \<in> set (knob_files b y) \<Longrightarrow> y = VmKnob" "(VM_EXPIRE, d) \<in> set (knob_files b y) \<Longrightarrow> y = VmKnob"
  "(VM_LAPTOP, d) \<in> set (knob_files b y) \<Longrightarrow> y = VmKnob" "(AUDIO_POWER_SAVE, d) \<in> set (knob_files b y) \<Longrightarrow> y = AudioKnob"
  "(AUDIO_CONTROLLER, d) \<in> set (knob_files b y) \<Longrightarrow> y = AudioKnob" "(SCHED_COST, d) \<in> set (knob_files b y) \<Longrightarrow> y = SchedKnob"
  "(NVME_LATENCY, d) \<in> set (knob_files b y) \<Longrightarrow> y = NvmeKnob"
  by (cases y; auto split: if_splits)+

lemma takesI:
  "(\<And>K e h. holding K e h \<Longrightarrow> \<not> gl_sandbox (en_globals e) \<Longrightarrow> bl_captured (en_base e) \<Longrightarrow>
     wp (st e) (\<lambda>r h'. \<forall>e'. r = Some e' \<longrightarrow> holding (f K) e' h' \<and> knob_files (en_base e') = knob_files (en_base e)) h) \<Longrightarrow> takes st f"
  by (simp add: takes_def holding_def engine_ok_def)

lemma holding_released: "holding K e h \<Longrightarrow> \<not> knob_held (en_base e) x \<Longrightarrow> holding (K - {x}) e h"
  by (auto simp: holding_def)

lemma wp_open_write:
  assumes "takes_writes k" "\<not> gl_sandbox g" "p \<in> set traced_files"
    and "\<And>n. 0 < n \<Longrightarrow> wp (f (Some True)) Q (EvWrite p d n # EvOpenWrite p True # h)"
  shows "wp (write_opened g k p d \<bind> f) Q h"
  unfolding wp_bind using assms by (rule wp_traced_open)

lemma wp_write:
  assumes "takes_writes k" "\<not> gl_sandbox g" "p \<in> set traced_files"
    and "\<And>n. 0 < n \<Longrightarrow> wp (f True) Q (EvWrite p d n # EvOpenWrite p True # h)"
  shows "wp (write_file g k p d \<bind> f) Q h"
  unfolding wp_bind using assms by (rule wp_traced_write)

text \<open>Storage and scheduler: one file each.\<close>

lemma takes_nvme: "takes_writes k \<Longrightarrow> takes (step_base (\<lambda>g. set_nvme_apst_max_latency g k us)) (insert NvmeKnob)"
  unfolding step_base_def set_nvme_apst_max_latency_def
  by (rule takesI, auto simp: wp_simps intro!: wp_traced_open, rule holding_change [where x = NvmeKnob], assumption)
    (auto dest: file_owner)

lemma takes_sched: "takes_writes k \<Longrightarrow> takes (step_base (\<lambda>g. set_sched_migration_cost g k c)) (insert SchedKnob)"
  unfolding step_base_def set_sched_migration_cost_def
  by (rule takesI, auto simp: wp_simps intro!: wp_traced_open, rule holding_change [where x = SchedKnob], assumption)
    (auto dest: file_owner)

lemma takes_sched_restore:
  "takes_writes k \<Longrightarrow> takes (step_base (\<lambda>g. restore_sched_migration_cost_baseline g k)) (\<lambda>K. K - {SchedKnob})"
  unfolding step_base_def restore_sched_migration_cost_baseline_def set_sched_migration_cost_def
  by (rule takesI, auto simp: wp_simps intro!: wp_traced_open holding_released, rule holding_change [where x = SchedKnob], assumption)
    (auto simp: at_baseline_def dest: file_owner)

lemma takes_nvme_restore:
  assumes "takes_writes k"
  shows "takes (step_base (\<lambda>g. restore_nvme_apst_baseline g k)) (\<lambda>K. K - {NvmeKnob})"
proof -
  let ?latency = "\<lambda>g b. if \<not> bl_nvme_apst_modified b then return_io (True, b)
    else do { (_, b) \<leftarrow> set_nvme_apst_max_latency g k (bl_nvme_latency_us b) b;
              return_io (True, b\<lparr>bl_nvme_apst_modified := False\<rparr>) }"
  have "takes (step_base ?latency) (\<lambda>K. K - {NvmeKnob})"
    unfolding step_base_def set_nvme_apst_max_latency_def using assms
    by (intro takesI) (auto simp: wp_simps intro!: wp_traced_open holding_released,
      rule holding_change [where x = NvmeKnob], assumption, auto simp: at_baseline_def dest: file_owner)
  moreover have "inert (step_base (\<lambda>g. restore_nvme_power_control_baseline g k))"
    by (rule inert_base) (auto intro!: frame.nvme_control view_ok_knobs)
  ultimately have "takes (run_steps [step_base (\<lambda>g. restore_nvme_power_control_baseline g k), step_base ?latency])
      (\<lambda>K. K - {NvmeKnob})"
    using takes_inert [OF takes_Cons [OF _ takes_Nil]] by blast
  moreover have "step_base (\<lambda>g. restore_nvme_apst_baseline g k) =
      run_steps [step_base (\<lambda>g. restore_nvme_power_control_baseline g k), step_base ?latency]"
    unfolding restore_nvme_apst_baseline_def step_base_def
    by (rule ext) (auto simp: case_prod_beta intro!: arg_cong2 [where f = State_Monad.bind] ext)
  ultimately show ?thesis by simp
qed

text \<open>The audio codec: two files.\<close>

lemma takes_codec: "takes_writes k \<Longrightarrow> takes (step_base (\<lambda>g. set_audio_codec_power_save g k s c)) (insert AudioKnob)"
  unfolding step_base_def
  by (rule takesI, auto simp: wp_simps intro!: wp_codec_writes, (rule holding_change [where x = AudioKnob], assumption,
      auto dest: file_owner)+)

lemma takes_codec_restore:
  assumes k: "takes_writes k"
  shows "takes (step_when (\<lambda>e. bl_audio_modified (en_base e)) (step_base (\<lambda>g. restore_audio_codec_baseline g k))) (\<lambda>K. K - {AudioKnob})"
proof (rule takesI)
  fix K and e :: engine and h assume e: "holding K e h" "\<not> gl_sandbox (en_globals e)" "bl_captured (en_base e)"
  show "wp (step_when (\<lambda>e. bl_audio_modified (en_base e)) (step_base (\<lambda>g. restore_audio_codec_baseline g k)) e)
      (\<lambda>r h'. \<forall>e'. r = Some e' \<longrightarrow> holding (K - {AudioKnob}) e' h' \<and> knob_files (en_base e') = knob_files (en_base e)) h"
    unfolding step_when_def step_base_def restore_audio_codec_baseline_def
    by (auto simp: wp_simps e intro!: wp_traced_write [OF k e(2)] holding_released [OF e(1)],
      (rule holding_change [OF e(1), where x = AudioKnob], auto simp: at_baseline_def e dest: file_owner)+)
qed

text \<open>Writeback: three files, taken one by one and then marked.\<close>

lemma takes_writeback:
  assumes k: "takes_writes k"
  shows "takes (run_steps [step_io (\<lambda>g. set_vm_dirty_writeback_centisecs g k w), step_io (\<lambda>g. set_vm_dirty_expire_centisecs g k x),
      step_io (\<lambda>g. set_vm_laptop_mode g k l), step_set (\<lambda>b. b\<lparr>bl_vm_modified := True\<rparr>)]) (insert VmKnob)"
proof (rule takesI)
  fix K and e :: engine and h assume e: "holding K e h" "\<not> gl_sandbox (en_globals e)" "bl_captured (en_base e)"
  show "wp (run_steps [step_io (\<lambda>g. set_vm_dirty_writeback_centisecs g k w), step_io (\<lambda>g. set_vm_dirty_expire_centisecs g k x),
      step_io (\<lambda>g. set_vm_laptop_mode g k l), step_set (\<lambda>b. b\<lparr>bl_vm_modified := True\<rparr>)] e)
      (\<lambda>r h'. \<forall>e'. r = Some e' \<longrightarrow> holding (insert VmKnob K) e' h' \<and> knob_files (en_base e') = knob_files (en_base e)) h"
    unfolding run_steps.simps step_io_def step_set_def set_vm_dirty_writeback_centisecs_def set_vm_dirty_expire_centisecs_def
      set_vm_laptop_mode_def write_u32_sysctl_def
    by (auto simp: wp_simps e intro!: wp_traced_write [OF k e(2)], rule holding_change [OF e(1), where x = VmKnob])
      (auto simp: e dest: file_owner)
qed

lemma takes_writeback_restore:
  assumes k: "takes_writes k"
  shows "takes (step_when (\<lambda>e. bl_vm_modified (en_base e)) (step_base (\<lambda>g. restore_vm_writeback_baseline g k))) (\<lambda>K. K - {VmKnob})"
proof (rule takesI)
  fix K and e :: engine and h assume e: "holding K e h" "\<not> gl_sandbox (en_globals e)" "bl_captured (en_base e)"
  show "wp (step_when (\<lambda>e. bl_vm_modified (en_base e)) (step_base (\<lambda>g. restore_vm_writeback_baseline g k)) e)
      (\<lambda>r h'. \<forall>e'. r = Some e' \<longrightarrow> holding (K - {VmKnob}) e' h' \<and> knob_files (en_base e') = knob_files (en_base e)) h"
    unfolding step_when_def step_base_def restore_vm_writeback_baseline_def set_vm_dirty_writeback_centisecs_def
      set_vm_dirty_expire_centisecs_def set_vm_laptop_mode_def write_u32_sysctl_def
    by (auto simp: wp_simps e intro!: wp_traced_write [OF k e(2)] holding_released [OF e(1)],
      rule holding_change [OF e(1), where x = VmKnob]) (auto simp: at_baseline_def e dest: file_owner)
qed

section \<open>Profiles\<close>

lemmas frame_knobs = frame.platform_profile frame.governor frame.epp frame.boost frame.max_freq frame.smt frame.aspm
  frame.pm_qos_off frame.pci_pm frame.usb_pm frame.panel frame.gpu_dpm frame.gpu_mode frame.nvme_control
  frame.wifi_power_save frame.wifi_tx frame.bluetooth frame.backlight_up frame.refresh_rate frame.kwin frame.baloo
  frame.vram_gc frame.ceiling_tool frame.smu_raise frame.smu_restore frame.fan_restore frame.freq_floor
  frame.step_platform_ok frame.step_smu_ok

lemmas inert_rules = inert_io inert_statics inert_base inert_wifi inert_platform inert_smu inert_when inert_of

lemma inert_backlight: "inert (step_backlight_cap k pct)"
  unfolding inert_def keeps_view_def
proof (intro conjI allI yields_wp frame.step_backlight_ok)
  fix e :: engine
  show "yields (step_backlight_cap k pct e) (\<lambda>r. \<forall>e'. r = Some e' \<longrightarrow> traced_view (en_base e') = traced_view (en_base e))"
    unfolding step_backlight_cap_def by (rule yields_bind [OF view_ok_backlight]) auto
qed simp

lemma inert_audio_floor: "inert (release_audio_floor k)"
  unfolding inert_def keeps_view_def
  by (intro conjI allI yields_wp frame.step_audio_ok) (auto simp: release_audio_floor_def intro!: yields_any)

lemma takes_release:
  assumes "takes_writes k"
  shows "takes (release_performance_unleash k) (\<lambda>K. K - {NvmeKnob, SchedKnob})"
proof -
  have "takes (release_performance_unleash k) (\<lambda>K. K - {NvmeKnob} - {SchedKnob})"
    unfolding release_performance_unleash_def
    by (rule takes_inert takes_Nil takes_Cons [OF takes_sched_restore [OF assms]] takes_Cons [OF takes_nvme_restore [OF assms]])+
      (auto intro!: inert_rules inert_set frame_knobs view_ok_knobs wifi_ok_knobs io_ok_bind_any io_ok_return)
  then show ?thesis by (rule takes_mono) auto
qed

lemma takes_undo:
  assumes "takes_writes k"
  shows "takes (run_steps (undo_ultra_endurance k)) (\<lambda>K. K - {VmKnob, AudioKnob})"
proof -
  have "takes (run_steps (undo_ultra_endurance k)) (\<lambda>K. K - {VmKnob} - {AudioKnob})"
    unfolding undo_ultra_endurance_def
    by (rule takes_Cons [OF takes_writeback_restore [OF assms]] takes_Cons [OF takes_codec_restore [OF assms]] takes_Nil
        takes_inert)+
      (auto intro!: inert_rules frame_knobs view_ok_knobs view_ok_kwin wifi_ok_knobs)
  then show ?thesis by (rule takes_mono) auto
qed

text \<open>Each profile ends with the knobs it keeps; the restore with none.\<close>

fun knobs_after :: "power_profile \<Rightarrow> knob set \<Rightarrow> knob set" where
  "knobs_after Performance K = K \<union> {SchedKnob, NvmeKnob} - {VmKnob, AudioKnob}"
| "knobs_after Balanced K = {}"
| "knobs_after PowerSaver K = {}"
| "knobs_after UltraEndurance K = K - {SchedKnob, NvmeKnob} \<union> {VmKnob, AudioKnob}"

lemma all_knobs: "K - {NvmeKnob, SchedKnob} - {VmKnob, AudioKnob} = {}"
  using knob.exhaust by blast

lemma takes_performance:
  assumes "takes_writes k"
  shows "takes (run_steps (performance_steps k)) (knobs_after Performance)"
proof -
  have "takes (run_steps (performance_steps k)) (\<lambda>K. insert SchedKnob (insert NvmeKnob K) - {VmKnob, AudioKnob})"
    unfolding performance_steps_def append.simps
    by (rule takes_Cons [OF takes_sched [OF assms]] takes_Cons [OF takes_nvme [OF assms]] takes_inert takes_undo [OF assms])+
      (auto intro!: inert_rules inert_set frame_knobs view_ok_knobs view_ok_mode wifi_ok_knobs io_ok_bind_any io_ok_return)
  then show ?thesis by (rule takes_mono) auto
qed

lemma takes_balanced:
  assumes "takes_writes k"
  shows "takes (run_steps (balanced_steps k)) (knobs_after Balanced)"
proof -
  have "takes (run_steps (balanced_steps k)) (\<lambda>K. K - {NvmeKnob, SchedKnob} - {VmKnob, AudioKnob})"
    unfolding balanced_steps_def append.simps
    by (rule takes_Cons [OF takes_release [OF assms]] takes_inert takes_undo [OF assms])+
      (auto intro!: inert_rules frame_knobs)
  then show ?thesis by (rule takes_mono) (simp add: all_knobs)
qed

lemma takes_power_saver:
  assumes "takes_writes k"
  shows "takes (run_steps (power_saver_steps k)) (knobs_after PowerSaver)"
proof -
  have "takes (run_steps (power_saver_steps k)) (\<lambda>K. K - {NvmeKnob, SchedKnob} - {VmKnob, AudioKnob})"
    unfolding power_saver_steps_def append.simps
    by (rule takes_Cons [OF takes_release [OF assms]] takes_inert takes_undo [OF assms])+
      (auto intro!: inert_rules frame_knobs)
  then show ?thesis by (rule takes_mono) (simp add: all_knobs)
qed

lemma takes_ultra:
  assumes "takes_writes k"
  shows "takes (run_steps (ultra_endurance_steps k hold)) (knobs_after UltraEndurance)"
proof -
  have vm: "takes (run_steps (step_io (\<lambda>g. set_vm_dirty_writeback_centisecs g k w) #
      step_io (\<lambda>g. set_vm_dirty_expire_centisecs g k x) # step_io (\<lambda>g. set_vm_laptop_mode g k l) #
      step_set (\<lambda>b. b\<lparr>bl_vm_modified := True\<rparr>) # sts)) (\<lambda>K. f (insert VmKnob K))"
    if "takes (run_steps sts) f" for w x l sts f
    using takes_append [OF takes_writeback [OF assms] that] by (simp only: append.simps)
  have "takes (run_steps (ultra_endurance_steps k hold)) (\<lambda>K. insert AudioKnob (insert VmKnob (K - {NvmeKnob, SchedKnob})))"
    unfolding ultra_endurance_steps_def
    by (rule vm takes_Cons [OF takes_release [OF assms]] takes_Cons [OF takes_codec [OF assms]] takes_Nil takes_inert)+
      (auto intro!: inert_rules inert_set inert_backlight frame_knobs view_ok_knobs view_ok_kwin wifi_ok_knobs
        io_ok_bind_any io_ok_return io_ok_if)
  then show ?thesis by (rule takes_mono) auto
qed

lemma takes_profile: "takes_writes k \<Longrightarrow> takes (run_steps (profile_steps k hold m)) (knobs_after m)"
  by (cases m) (simp_all add: profile_steps_def takes_performance takes_balanced takes_power_saver takes_ultra)

lemma takes_restore:
  assumes "takes_writes k"
  shows "takes (restore_hardware_baseline k) (\<lambda>K. {})"
proof -
  let ?front = "[step_of (\<lambda>e. step_statics (\<lambda>g. set_platform_profile g k (bl_platform_profile (en_base e)))),
          step_of (\<lambda>e. step_io (\<lambda>g. set_cpu_governor g k (bl_cpu_governor (en_base e)))),
          step_of (\<lambda>e. step_io (\<lambda>g. set_cpu_boost g k (bl_cpu_boost (en_base e) \<noteq> 0))),
          step_of (\<lambda>e. step_io (\<lambda>g. set_pcie_aspm_policy g k (bl_aspm_policy (en_base e)))),
          step_when (\<lambda>e. 0 < bl_scaling_max_khz (en_base e))
            (step_of (\<lambda>e. step_io (\<lambda>g. set_cpu_scaling_max_freq g k (bl_scaling_max_khz (en_base e))))),
          step_of (\<lambda>e. step_io (\<lambda>g. set_panel_power_savings g k (bl_panel_power_savings (en_base e)))),
          step_of (\<lambda>e. step_io (\<lambda>g. restore_gpu_max_clock g k (en_base e))),
          step_when (\<lambda>e. bl_gpu_dpm_level (en_base e) \<noteq> [])
            (step_of (\<lambda>e. step_io (\<lambda>g. set_gpu_dpm_level g k (bl_gpu_dpm_level (en_base e)))))]"
  let ?after = "[release_performance_unleash k, release_audio_floor k,
          step_when (\<lambda>e. 0 \<le> bl_codec_suspended (en_base e)) (step_set (\<lambda>b. b\<lparr>bl_codec_suspended := - 1\<rparr>))]"
  have part1: "takes (run_steps ?front) (\<lambda>K. K)"
    by (rule takes_inert takes_Nil)+ (auto intro!: inert_rules frame_knobs)
  have part2: "takes (run_steps ?after) (\<lambda>K. K - {NvmeKnob, SchedKnob})"
    by (rule takes_Cons [OF takes_release [OF assms]] takes_inert takes_Nil)+
      (auto intro!: inert_rules inert_set inert_audio_floor)
  have "takes (run_steps (?front @ undo_ultra_endurance k @ ?after)) (\<lambda>K. K - {VmKnob, AudioKnob} - {NvmeKnob, SchedKnob})"
    by (rule takes_append [OF part1 takes_append [OF takes_undo [OF assms] part2]])
  then have steps: "takes (run_steps (?front @ undo_ultra_endurance k @ ?after)) (\<lambda>K. {})"
    by (rule takes_mono) (use all_knobs in blast)
  show ?thesis
  proof (rule takesI)
    fix K and e :: engine and h
    assume h: "holding K e h" and b: "bl_captured (en_base e)"
    show "wp (restore_hardware_baseline k e)
       (\<lambda>r h'. \<forall>e'. r = Some e' \<longrightarrow> holding {} e' h' \<and> knob_files (en_base e') = knob_files (en_base e)) h"
      using takesD [OF steps h] b unfolding restore_hardware_baseline_def by (simp only: not_True_eq_False if_False)
  qed
qed

section \<open>The machine\<close>

text \<open>Before the baseline is captured no traced file has been written.\<close>

definition fresh :: "engine \<Rightarrow> history \<Rightarrow> bool" where
  "fresh e h \<longleftrightarrow> engine_ok False e \<and> \<not> bl_captured (en_base e) \<and> (\<forall>x. \<not> knob_held (en_base e) x) \<and>
     (\<forall>p \<in> set traced_files. last_write p h = None)"

fun op_knobs :: "profile_op \<Rightarrow> knob set \<Rightarrow> knob set" where
  "op_knobs Capture K = K"
| "op_knobs (Apply m hold) K = knobs_after m K"
| "op_knobs RestoreBaseline K = {}"

definition tracking :: "knob set \<Rightarrow> engine option \<Rightarrow> history \<Rightarrow> bool" where
  "tracking K s h \<longleftrightarrow> (\<forall>e. s = Some e \<longrightarrow> fresh e h \<or> holding K e h)"

lemma tracking_None [simp]: "tracking K None h"
  by (simp add: tracking_def)

definition no_flags :: "baseline \<Rightarrow> bool" where
  "no_flags b \<longleftrightarrow> \<not> bl_vm_modified b \<and> \<not> bl_audio_modified b \<and> \<not> bl_sched_cost_modified b \<and> \<not> bl_nvme_apst_modified b"

lemma no_flags_iff: "no_flags b \<longleftrightarrow> (\<forall>x. \<not> knob_held b x)"
proof
  assume "no_flags b"
  then show "\<forall>x. \<not> knob_held b x" unfolding no_flags_def by (intro allI) (case_tac x, auto)
next
  assume "\<forall>x. \<not> knob_held b x"
  then show "no_flags b" unfolding no_flags_def by (metis knob_held.simps)
qed

lemma capture_flags:
  assumes "no_flags (en_base e)" "\<not> bl_captured (en_base e)"
  shows "yields (capture_hardware_baseline k e) (\<lambda>r. \<forall>e'. r = Some e' \<longrightarrow> bl_captured (en_base e') \<and> no_flags (en_base e'))"
proof -
  have 1: "yields (capture_processor k (b, pl)) (\<lambda>(b', _). no_flags b')" if "no_flags b" for b pl
    unfolding capture_processor_def Let_def using that by (auto intro!: yields_any simp: no_flags_def)
  have lights: "yields (capture_backlight k b) no_flags" if "no_flags b" for b
    unfolding capture_backlight_def Let_def
    by (rule yields_bind, rule yields_for [where Q = "\<lambda>acc. no_flags (snd acc)"])
      (use that in \<open>auto intro!: yields_any simp: no_flags_def split: option.splits\<close>)
  have 2: "yields (capture_peripherals k b) no_flags" if "no_flags b" for b
    unfolding capture_peripherals_def Let_def
    by (rule yields_any, rule yields_any, rule yields_any, rule yields_any, rule yields_any, rule yields_bind [OF lights])
      (use that in \<open>auto intro!: yields_any simp: no_flags_def\<close>)
  have ctl: "yields (capture_nvme_control k b) no_flags" if "no_flags b" for b
    unfolding capture_nvme_control_def
    by (rule yields_for) (use that in \<open>auto intro!: yields_any simp: no_flags_def split: option.splits\<close>)
  have 3: "yields (capture_performance k (b, x)) (\<lambda>(b', _). no_flags b')" if "no_flags b" for b x
    unfolding capture_performance_def Let_def fst_conv snd_conv
    by (rule yields_any, rule yields_any, rule yields_any, rule yields_bind [OF ctl])
      (use that in \<open>auto intro!: yields_any simp: no_flags_def split: option.splits\<close>)
  show ?thesis
    unfolding capture_hardware_baseline_def
    by (simp add: assms(2), rule yields_bind [OF 1 [OF assms(1)]], clarsimp, rule yields_bind [OF 2], assumption,
        rule yields_bind [OF 3], assumption, clarsimp, rule yields_any, rule yields_any)
      (auto simp: no_flags_def)
qed

text \<open>The captures only read, so a first capture leaves every traced file as it was.\<close>

lemma tracking_capture:
  assumes "fresh e h"
  shows "wp (capture_hardware_baseline k e) (\<lambda>r h'. \<forall>e'. r = Some e' \<longrightarrow> holding K e' h') h"
proof -
  have e: "frame.steady e" "no_flags (en_base e)" "\<not> bl_captured (en_base e)"
    using assms by (auto simp: fresh_def no_flags_iff)
  obtain r h' where run: "run_state (capture_hardware_baseline k e) h = (r, h')" by (cases "run_state (capture_hardware_baseline k e) h")
  have ok: "io_ok untraced (capture_hardware_baseline k e) (\<lambda>r. \<forall>e'. r = Some e' \<longrightarrow> frame.steady e')"
    by (rule frame.step_okD [OF frame.capture_ok [OF refl] e(1)])
  obtain es where es: "h' = es @ h" "list_all untraced es" using io_okD(1) [OF ok run] by blast
  have kept: "p \<in> set traced_files \<Longrightarrow> last_write p h' = None" for p
    using es assms by (simp add: last_write_untraced fresh_def)
  have "\<forall>e'. r = Some e' \<longrightarrow> engine_ok False e'" using io_okD(2) [OF ok run] by simp
  moreover have "\<forall>e'. r = Some e' \<longrightarrow> bl_captured (en_base e') \<and> no_flags (en_base e')"
    using capture_flags [OF e(2,3)] run unfolding yields_def by (metis fst_conv)
  moreover have "at_baseline b h' x" for b x
    using kept knob_files_traced by (fastforce simp: at_baseline_def)
  ultimately show ?thesis by (auto simp: wp_def run holding_def no_flags_iff)
qed

lemma tracking_apply:
  assumes k: "takes_writes k" and e: "fresh e h \<or> holding K e h"
  shows "wp (apply_power_profile k hold m e) (\<lambda>r h'. \<forall>e'. r = Some e' \<longrightarrow> holding (knobs_after m K) e' h' \<and>
    (bl_captured (en_base e) \<longrightarrow> knob_files (en_base e') = knob_files (en_base e))) h"
proof -
  let ?rest = "run_steps (step_io (\<lambda>g. enforce_cpu_freq_floor g k) # profile_steps k hold m)"
  have rest: "takes ?rest (knobs_after m)"
    by (rule takes_inert [OF takes_profile [OF k]]) (auto intro!: inert_rules frame_knobs)
  have first: "wp (step_when (\<lambda>e. \<not> bl_captured (en_base e)) (capture_hardware_baseline k) e)
      (\<lambda>r h'. \<forall>e1. r = Some e1 \<longrightarrow> holding K e1 h' \<and>
        (bl_captured (en_base e) \<longrightarrow> knob_files (en_base e1) = knob_files (en_base e))) h"
    using e
  proof
    assume "fresh e h"
    then have "\<not> bl_captured (en_base e)" by (simp add: fresh_def)
    then show ?thesis using tracking_capture [OF \<open>fresh e h\<close>, of k K] by (simp add: step_when_def)
  next
    assume "holding K e h"
    then show ?thesis by (simp add: step_when_def holding_def wp_simps)
  qed
  show ?thesis
    unfolding apply_power_profile_def append.simps run_steps.simps(2) [of "step_when _ _"] wp_bind
  proof (rule wp_mono [OF first])
    fix r h' assume r: "\<forall>e1. r = Some e1 \<longrightarrow> holding K e1 h' \<and>
        (bl_captured (en_base e) \<longrightarrow> knob_files (en_base e1) = knob_files (en_base e))"
    show "wp (case r of None \<Rightarrow> return_io None | Some e \<Rightarrow> ?rest e) (\<lambda>r h'. \<forall>e'. r = Some e' \<longrightarrow> holding (knobs_after m K) e' h' \<and>
      (bl_captured (en_base e) \<longrightarrow> knob_files (en_base e') = knob_files (en_base e))) h'"
    proof (cases r)
      case (Some e1)
      then have "holding K e1 h'" using r by blast
      from takesD [OF rest this] have "wp (?rest e1) (\<lambda>r h'. \<forall>e'. r = Some e' \<longrightarrow> holding (knobs_after m K) e' h' \<and>
          (bl_captured (en_base e) \<longrightarrow> knob_files (en_base e') = knob_files (en_base e))) h'"
        by (rule wp_mono) (use r Some in auto)
      then show ?thesis unfolding Some option.case .
    qed (simp add: wp_simps)
  qed
qed

lemma tracking_step:
  assumes "takes_writes k" "tracking K s h"
  shows "wp (profile_step k op s) (\<lambda>s' h'. tracking (op_knobs op K) s' h' \<and>
    (\<forall>e e'. s = Some e \<longrightarrow> s' = Some e' \<longrightarrow> bl_captured (en_base e) \<longrightarrow>
       bl_captured (en_base e') \<and> knob_files (en_base e') = knob_files (en_base e))) h"
proof (cases s)
  case (Some e)
  then have e: "fresh e h \<or> holding K e h" using assms(2) by (simp add: tracking_def)
  show ?thesis
  proof (cases op)
    case Capture
    have "wp (capture_hardware_baseline k e) (\<lambda>r h'. \<forall>e'. r = Some e' \<longrightarrow> holding K e' h' \<and>
        (bl_captured (en_base e) \<longrightarrow> knob_files (en_base e') = knob_files (en_base e))) h"
      using e
    proof
      assume "fresh e h"
      then show ?thesis by (intro wp_mono [OF tracking_capture [of e h k K]]) (auto simp: fresh_def)
    qed (simp add: capture_hardware_baseline_def holding_def wp_simps)
    then show ?thesis unfolding Some Capture profile_step_def
      by (simp, rule wp_mono) (auto simp: tracking_def holding_def)
  next
    case (Apply m hold)
    show ?thesis unfolding Some Apply profile_step_def
      by (simp, rule wp_mono [OF tracking_apply [OF assms(1) e]]) (auto simp: tracking_def holding_def)
  next
    case RestoreBaseline
    show ?thesis
      using e
    proof
      assume "fresh e h"
      then show ?thesis unfolding Some RestoreBaseline profile_step_def
        by (auto simp: restore_hardware_baseline_def wp_simps tracking_def fresh_def)
    next
      assume "holding K e h"
      from takesD [OF takes_restore [OF assms(1)] this] show ?thesis
        unfolding Some RestoreBaseline profile_step_def
        by (simp, rule wp_mono) (auto simp: tracking_def holding_def)
    qed
  qed
qed (simp add: profile_step_def wp_simps)

lemma tracking_run:
  assumes "takes_writes k" "tracking K s h"
  shows "wp (io_for (\<lambda>_. True) (profile_step k) ops s) (\<lambda>s' h'. tracking (fold op_knobs ops K) s' h' \<and>
    (\<forall>e e'. s = Some e \<longrightarrow> s' = Some e' \<longrightarrow> bl_captured (en_base e) \<longrightarrow> knob_files (en_base e') = knob_files (en_base e))) h"
  using assms(2)
proof (induction ops arbitrary: K s h)
  case Nil
  then show ?case by (simp add: wp_simps)
next
  case (Cons op ops)
  show ?case
    unfolding io_for.simps wp_bind if_True
  proof (rule wp_mono [OF tracking_step [OF assms(1) Cons.prems, of op]])
    fix s1 h1
    assume 1: "tracking (op_knobs op K) s1 h1 \<and> (\<forall>e e'. s = Some e \<longrightarrow> s1 = Some e' \<longrightarrow> bl_captured (en_base e) \<longrightarrow>
       bl_captured (en_base e') \<and> knob_files (en_base e') = knob_files (en_base e))"
    show "wp (io_for (\<lambda>_. True) (profile_step k) ops s1) (\<lambda>s' h'. tracking (fold op_knobs (op # ops) K) s' h' \<and>
      (\<forall>e e'. s = Some e \<longrightarrow> s' = Some e' \<longrightarrow> bl_captured (en_base e) \<longrightarrow> knob_files (en_base e') = knob_files (en_base e))) h1"
    proof (cases s1)
      case None
      have "io_for (\<lambda>_. True) (profile_step k) ops None = return_io None"
        by (induction ops) (simp_all add: profile_step_def)
      then show ?thesis unfolding None by (simp add: wp_simps)
    next
      case (Some e1)
      show ?thesis
        using Cons.IH [OF conjunct1 [OF 1]] by (rule wp_mono) (use 1 Some in auto)
    qed
  qed
qed

section \<open>Properties\<close>

abbreviation run_profiles :: "kernel \<Rightarrow> profile_op list \<Rightarrow> engine option \<Rightarrow> engine option io" where
  "run_profiles k \<equiv> io_for (\<lambda>_. True) (profile_step k)"

text \<open>C14. On a system whose traced files take what is written to them, whatever captures, profile
  changes and restores ran before and after the baseline was captured: once the operations release
  a knob (any change to Balanced or PowerSaver or a restore releases all four, Performance releases
  writeback and audio, UltraEndurance releases storage and scheduler), its flag is clear and each of
  its files was either never written or last written with exactly the content captured first.
\<close>

theorem profiles_leave_no_trace:
  assumes "takes_writes k" "fresh e h"
    and "run_state (run_profiles k before (Some e)) h = (Some e1, h1)" "bl_captured (en_base e1)"
    and "run_state (run_profiles k after (Some e1)) h1 = (Some e2, h2)"
    and "x \<notin> fold op_knobs (before @ after) {}"
  shows "\<not> knob_held (en_base e2) x \<and> at_baseline (en_base e1) h2 x"
proof -
  have 1: "tracking (fold op_knobs before {}) (Some e1) h1"
    using tracking_run [OF assms(1), of "{}" "Some e" h before] assms(2,3) by (simp add: tracking_def wp_def)
  have "tracking (fold op_knobs (before @ after) {}) (Some e2) h2 \<and> knob_files (en_base e2) = knob_files (en_base e1)"
    using tracking_run [OF assms(1) 1, of after] assms(4,5) by (simp add: wp_def)
  then have "fresh e2 h2 \<or> holding (fold op_knobs (before @ after) {}) e2 h2" "knob_files (en_base e2) = knob_files (en_base e1)"
    by (auto simp: tracking_def)
  then show ?thesis
    using assms(6) by (auto simp: holding_def fresh_def at_baseline_def dest: knob_files_traced)
qed

definition open_kernel :: kernel where
  "open_kernel = quiet_kernel\<lparr>k_open_write := (\<lambda>_ _. True), k_write := (\<lambda>_ _ _. 1)\<rparr>"

definition first_engine :: engine where
  "first_engine = example_engine\<lparr>en_base := baseline_init\<rparr>"

text \<open>On that system no step meets an undefined case: there is no SMU tool and no wireless interface.\<close>

definition defined :: "engine_step \<Rightarrow> bool" where
  "defined st \<longleftrightarrow> (\<forall>e. yields (st e) (\<lambda>r. r \<noteq> None))"

lemma defined_run: "\<forall>st \<in> set sts. defined st \<Longrightarrow> defined (run_steps sts)"
proof (induction sts)
  case (Cons st sts)
  then have "yields (st e) (\<lambda>r. r \<noteq> None)" "yields (run_steps sts e) (\<lambda>r. r \<noteq> None)" for e
    by (auto simp: defined_def)
  then show ?case unfolding defined_def by (auto intro!: yields_bind [where R = "\<lambda>r. r \<noteq> None"])
qed (simp add: defined_def)

lemma defined_basic [simp]: "defined (step_io f)" "defined (step_base f2)" "defined (step_statics f3)" "defined (step_platform f4)"
  "defined (step_set u)"
  by (auto simp: defined_def step_io_def step_base_def step_statics_def step_platform_def step_set_def intro!: yields_any)

lemma defined_some: "(\<And>g s. yields (w g s) (\<lambda>r. r \<noteq> None)) \<Longrightarrow> defined (step_wifi w)"
  "(\<And>g s. yields (m g s) (\<lambda>r. r \<noteq> None)) \<Longrightarrow> defined (step_smu m)"
  unfolding defined_def step_wifi_def step_smu_def
  by (intro allI yields_bind [where R = "\<lambda>r. r \<noteq> None"]; auto)+

lemma defined_cond: "defined st \<Longrightarrow> defined (step_when c st)" "(\<And>e. defined (g e)) \<Longrightarrow> defined (step_of g)"
  by (auto simp: defined_def step_when_def step_of_def)

lemma open_kernel_calls: "yields (detect_wireless_ifname open_kernel n) (\<lambda>r. r = None)"
  "\<not> gl_sandbox g \<Longrightarrow> yields (hw_system g open_kernel c) (\<lambda>ok. \<not> ok)" "yields (sys_popen_text open_kernel c) (\<lambda>r. r = None)"
  by (auto simp: yields_def detect_wireless_ifname_def hw_system_def sys_popen_text_def sys_defs open_kernel_def quiet_kernel_def)

lemma open_kernel_knobs:
  "yields (set_wifi_powersave g open_kernel on s) (\<lambda>r. r \<noteq> None)"
  "yields (restore_wifi_powersave_baseline g open_kernel s) (\<lambda>r. r \<noteq> None)"
  "yields (restore_wifi_txpower g open_kernel s) (\<lambda>r. r \<noteq> None)"
  "yields (apply_smu_performance_limits g open_kernel pl) (\<lambda>r. r \<noteq> None)"
  "yields (capture_hardware_baseline open_kernel e) (\<lambda>r. r \<noteq> None)"
proof -
  show *: "yields (set_wifi_powersave g open_kernel on s) (\<lambda>r. r \<noteq> None)" for on s
    unfolding set_wifi_powersave_def Let_def by (auto intro!: yields_bind [OF open_kernel_calls(1)] split: prod.splits)
  show "yields (restore_wifi_powersave_baseline g open_kernel s) (\<lambda>r. r \<noteq> None)"
    unfolding restore_wifi_powersave_baseline_def Let_def by (auto intro!: yields_bind [OF *] split: prod.splits)
  show "yields (restore_wifi_txpower g open_kernel s) (\<lambda>r. r \<noteq> None)"
    unfolding restore_wifi_txpower_def Let_def by (auto intro!: yields_bind [OF open_kernel_calls(1)] split: prod.splits)
  show "yields (apply_smu_performance_limits g open_kernel pl) (\<lambda>r. r \<noteq> None)"
  proof (cases "gl_sandbox g")
    case False
    show ?thesis
      unfolding apply_smu_performance_limits_def
      by (simp only: False if_False, rule yields_any)
        (auto simp del: not_None_eq split: option.split intro!: yields_bind [OF open_kernel_calls(2) [OF False]])
  qed (simp add: apply_smu_performance_limits_def del: not_None_eq)
  have "yields (capture_smu open_kernel pl) (\<lambda>r. r \<noteq> None)" for pl
    unfolding capture_smu_def
    by (rule yields_any) (auto split: option.split intro!: yields_any [where m = "log_event _"] yields_bind [OF open_kernel_calls(3)])
  then have smu: "yields (capture_smu open_kernel pl \<bind> (\<lambda>pl. return_io (map_option (f pl) pl))) (\<lambda>r. r \<noteq> None)" for pl f
    by (rule yields_bind) auto
  show "yields (capture_hardware_baseline open_kernel e) (\<lambda>r. r \<noteq> None)"
  proof (cases "bl_captured (en_base e)")
    case False
    show ?thesis
      unfolding capture_hardware_baseline_def
      by (simp only: False if_False, rule yields_any)
        (clarsimp simp del: not_None_eq, rule yields_any, rule yields_any, clarsimp simp del: not_None_eq, rule yields_any, rule smu)
  qed (simp add: capture_hardware_baseline_def)
qed

lemma open_kernel_apply:
  assumes "m = Performance \<or> m = PowerSaver"
  shows "defined (apply_power_profile open_kernel hold m)"
proof -
  have release: "defined (release_performance_unleash open_kernel)"
    unfolding release_performance_unleash_def by (rule defined_run) (auto intro!: defined_some open_kernel_knobs)
  have undo: "\<forall>st \<in> set (undo_ultra_endurance open_kernel). defined st"
    unfolding undo_ultra_endurance_def by (auto intro!: defined_some defined_cond open_kernel_knobs)
  have cap: "defined (capture_hardware_baseline open_kernel)"
    using open_kernel_knobs(5) by (simp add: defined_def)
  show ?thesis
    unfolding apply_power_profile_def profile_steps_def performance_steps_def power_saver_steps_def
    by (rule defined_run, use assms undo in \<open>auto intro!: defined_some defined_cond open_kernel_knobs release cap\<close>)
qed

lemma open_kernel_runs:
  "list_all (\<lambda>op. op = Capture \<or> op = Apply Performance False \<or> op = Apply PowerSaver False) ops \<Longrightarrow>
   \<exists>e' h'. run_state (run_profiles open_kernel ops (Some e)) h = (Some e', h')"
proof (induction ops arbitrary: e h)
  case (Cons op ops)
  have "fst (run_state (profile_step open_kernel op (Some e)) h) \<noteq> None"
    using Cons.prems open_kernel_knobs(5) open_kernel_apply by (auto simp: profile_step_def defined_def yields_def)
  then show ?case using Cons by (cases "run_state (profile_step open_kernel op (Some e)) h") auto
qed simp

theorem profiles_leave_no_trace_witness:
  "\<exists>e1 h1 e2 h2. run_state (run_profiles open_kernel [Capture] (Some first_engine)) [] = (Some e1, h1) \<and>
     run_state (run_profiles open_kernel [Apply Performance False, Apply PowerSaver False] (Some e1)) h1 = (Some e2, h2) \<and>
     \<not> knob_held (en_base e2) SchedKnob \<and> at_baseline (en_base e1) h2 SchedKnob"
proof -
  obtain e1 h1 where 1: "run_state (run_profiles open_kernel [Capture] (Some first_engine)) [] = (Some e1, h1)"
    using open_kernel_runs [of "[Capture]"] by fastforce
  obtain e2 h2 where 2: "run_state (run_profiles open_kernel [Apply Performance False, Apply PowerSaver False] (Some e1)) h1 = (Some e2, h2)"
    using open_kernel_runs [of "[Apply Performance False, Apply PowerSaver False]"] by fastforce
  have k: "takes_writes open_kernel" by (simp add: takes_writes_def open_kernel_def)
  have fresh: "fresh first_engine []"
    by (auto simp: fresh_def engine_ok_def first_engine_def example_engine_def platform_init_def baseline_init_def
        no_flags_iff [symmetric] no_flags_def)
  have "bl_captured (en_base e1)"
    using capture_flags [of first_engine open_kernel] fresh 1
    by (auto simp: fresh_def no_flags_iff [symmetric] profile_step_def yields_def split: prod.splits) (metis fst_conv)
  then show ?thesis
    using profiles_leave_no_trace [OF k fresh 1 _ 2, of SchedKnob] 1 2 by auto
qed

end
