(* ===== verification/Features.thy ===== *)
theory Features
  imports Profiles
begin

text \<open>
  The feature manager (\<^verbatim>\<open>src/policy/battery_feature.cpp\<close>), through which the daemon evaluates every
  cycle: the switches and counters of the features, the identity of a process, the actuation
  primitives, the table of tracked mitigations, and the evaluation itself with its frequency and SMU
  watchdogs.  The summary texts and log lines are left out; the number of summaries is kept.
\<close>

section \<open>Features\<close>

datatype feature_id = SchedIdleThrottle | TimerSlackCoalescing | ProactiveMemoryReclaim | CgroupFreezer
  | ZenCcxAffinityPinning | DisplayBacklightFloor | PcieAspmEnforcer | AntiStarvationHeadroom | FeatureCount

definition feature_ids :: "feature_id list" where
  "feature_ids = [SchedIdleThrottle, TimerSlackCoalescing, ProactiveMemoryReclaim, CgroupFreezer,
     ZenCcxAffinityPinning, DisplayBacklightFloor, PcieAspmEnforcer, AntiStarvationHeadroom]"

text \<open>Of a descriptor only the default of the switch is used; its texts describe the feature.\<close>

definition default_enabled :: "feature_id \<Rightarrow> bool" where
  "default_enabled f \<longleftrightarrow> f \<noteq> CgroupFreezer \<and> f \<noteq> FeatureCount"

record metrics =
  mt_enabled :: bool
  mt_actions :: nat
  mt_reclaimed :: u64
  mt_watts :: float64
  mt_pids :: "pid list"

abbreviation "MAX_TARGETED_PIDS \<equiv> (16 :: nat)"
abbreviation "MAX_TRACKED_MITIGATIONS \<equiv> (128 :: nat)"

record tracked =
  tm_pid :: pid
  tm_start_ticks :: u64
  tm_comm :: string
  tm_feature :: feature_id
  tm_timestamp :: u64
  tm_nice :: int
  tm_policy :: int
  tm_slack :: u64
  tm_affinity :: "nat set"

record features =
  ft_metrics :: "feature_id \<Rightarrow> metrics"
  ft_tracked :: "tracked list"
  ft_override :: "power_profile option"
  ft_latch :: demotion_latch
  ft_last_profile :: "power_profile option"

definition features_init :: features where
  "features_init = \<lparr>ft_metrics = (\<lambda>f. \<lparr>mt_enabled = default_enabled f, mt_actions = 0, mt_reclaimed = 0,
       mt_watts = Fin 0, mt_pids = []\<rparr>),
     ft_tracked = [], ft_override = None, ft_latch = \<lparr>crossed_30 = False, crossed_20 = False\<rparr>,
     ft_last_profile = None\<rparr>"

definition set_feature_enabled :: "feature_id \<Rightarrow> bool \<Rightarrow> features \<Rightarrow> features" where
  "set_feature_enabled f on s =
     (if f = FeatureCount then s
      else s\<lparr>ft_metrics := (ft_metrics s)(f := (ft_metrics s f)\<lparr>mt_enabled := on\<rparr>)\<rparr>)"

definition is_feature_enabled :: "feature_id \<Rightarrow> features \<Rightarrow> bool" where
  "is_feature_enabled f s \<longleftrightarrow> f \<noteq> FeatureCount \<and> mt_enabled (ft_metrics s f)"

definition set_override_profile :: "power_profile option \<Rightarrow> features \<Rightarrow> features" where
  "set_override_profile m s = s\<lparr>ft_override := m\<rparr>"

section \<open>Process identity\<close>

text \<open>The text behind the last closing parenthesis, which ends the task name.\<close>

definition after_comm :: "string \<Rightarrow> string option" where
  "after_comm s = (if CHR '')'' \<in> set s then Some (rev (takeWhile (\<lambda>c. c \<noteq> CHR '')'') (rev s))) else None)"

definition skip_sp :: "string \<Rightarrow> string" where
  "skip_sp s = dropWhile (\<lambda>c. c = CHR '' '') s"

definition skip_word :: "string \<Rightarrow> string" where
  "skip_word s = dropWhile (\<lambda>c. c \<noteq> CHR '' '') s"

fun skip_tokens :: "nat \<Rightarrow> string \<Rightarrow> string option" where
  "skip_tokens 0 s = Some s"
| "skip_tokens (Suc n) s = (let p = skip_sp s in if p = [] then None else skip_tokens n (skip_word p))"

definition start_ticks_of :: "string \<Rightarrow> u64" where
  "start_ticks_of s =
     (case Option.bind (after_comm s) (skip_tokens 19) of None \<Rightarrow> 0
      | Some p \<Rightarrow> let p = skip_sp p in if p = [] then 0 else fst (strtoul p))"

definition ppid_of :: "string \<Rightarrow> pid" where
  "ppid_of s =
     (case after_comm s of None \<Rightarrow> 0
      | Some p \<Rightarrow>
          let p = skip_sp (skip_word (skip_sp p))
          in if p = [] then 0
             else let v = fst (strtol p) in if 1 < v \<and> v < 2 ^ 31 - 1 then v else 0)"

definition read_proc_start_ticks :: "kernel \<Rightarrow> pid \<Rightarrow> u64 io" where
  "read_proc_start_ticks k p =
     (if p \<le> 0 then return_io 0
      else do { r \<leftarrow> read_some k (proc_path p ''stat'') 512;
                return_io (case r of None \<Rightarrow> 0 | Some s \<Rightarrow> start_ticks_of (c_str s)) })"

definition same_process :: "kernel \<Rightarrow> pid \<Rightarrow> u64 \<Rightarrow> bool io" where
  "same_process k p recorded =
     (if p \<le> 1 \<or> recorded = 0 then return_io False
      else do { t \<leftarrow> read_proc_start_ticks k p; return_io (t = recorded) })"

definition read_proc_ppid :: "kernel \<Rightarrow> pid \<Rightarrow> pid io" where
  "read_proc_ppid k p =
     (if p \<le> 1 then return_io 0
      else do { r \<leftarrow> read_some k (proc_path p ''stat'') 512;
                return_io (case r of None \<Rightarrow> 0 | Some s \<Rightarrow> ppid_of (c_str s)) })"

text \<open>The walk to the ancestors; the first argument is the depth that is left.\<close>

fun user_app_walk :: "kernel \<Rightarrow> nat \<Rightarrow> pid \<Rightarrow> bool io" where
  "user_app_walk k 0 cur = return_io False"
| "user_app_walk k (Suc depth) cur = do {
     ppid \<leftarrow> read_proc_ppid k cur;
     if ppid \<le> 1 then return_io False
     else do {
       r \<leftarrow> read_some k (proc_path ppid ''comm'') 63;
       case r of None \<Rightarrow> return_io False
       | Some s \<Rightarrow>
           (let comm = rstrip_nl s; tier = tier_of comm
            in if tier = BackgroundWorker \<or> tier = RunawayCandidate then return_io False
               else if tier = UserInteractive then return_io True
               else if comm = ''systemd'' \<or> comm = ''init'' then return_io False
               else user_app_walk k depth ppid)
     }
   }"

definition is_user_app_tree :: "kernel \<Rightarrow> pid \<Rightarrow> bool io" where
  "is_user_app_tree k p = (if p \<le> 1 then return_io False else user_app_walk k 8 p)"

section \<open>Actuation primitives\<close>

definition actuate_sched_idle :: "globals \<Rightarrow> kernel \<Rightarrow> pid \<Rightarrow> bool io" where
  "actuate_sched_idle g k p = apply_sched_idle g k p"

definition actuate_timer_slack :: "globals \<Rightarrow> kernel \<Rightarrow> pid \<Rightarrow> u64 \<Rightarrow> bool io" where
  "actuate_timer_slack g k p slack = apply_timer_slack g k p slack"

definition actuate_memory_reclaim :: "globals \<Rightarrow> kernel \<Rightarrow> bool \<Rightarrow> pid \<Rightarrow> u64 \<Rightarrow> bool io" where
  "actuate_memory_reclaim g k hold p bytes = apply_memory_reclaim g k p bytes hold"

definition actuate_cgroup_freeze :: "globals \<Rightarrow> kernel \<Rightarrow> pid \<Rightarrow> bool \<Rightarrow> bool io" where
  "actuate_cgroup_freeze g k p freeze = apply_cgroup_freeze g k p freeze"

text \<open>The direct system call: this primitive does not go through the sandbox.\<close>

definition actuate_ccx_affinity :: "kernel \<Rightarrow> pid \<Rightarrow> i32 \<Rightarrow> topology option \<Rightarrow> (bool \<times> topology option) io" where
  "actuate_ccx_affinity k p core cache =
     (if p \<le> 1 \<or> core < 0 then return_io (False, cache)
      else do {
        (t, cache) \<leftarrow> get_cluster_topology k cache;
        ok \<leftarrow> (if 2 \<le> tp_cluster_count t
               then sys_setaffinity k p (if nat core \<in> tp_c1 t then tp_c1 t else tp_c2 t)
               else let base = nat core div 8 * 8
                    in sys_setaffinity k p ({base..<base + 8} \<inter> {..<nat CPU_SETSIZE}));
        return_io (ok, cache)
      })"

definition comm_or_default :: "string \<Rightarrow> string" where
  "comm_or_default comm = (if comm = [] then ''runaway-task'' else comm)"

definition actuate_anti_starvation_cap :: "globals \<Rightarrow> kernel \<Rightarrow> pid \<Rightarrow> power_profile \<Rightarrow> string \<Rightarrow> bool io" where
  "actuate_anti_starvation_cap g k p mode comm =
     (if mode = Performance then return_io False
      else do {
        aff \<leftarrow> apply_core_affinity_cap g k p (Some (headroom_allowed_cpuset k mode));
        batch \<leftarrow> apply_sched_batch g k p (if mode = UltraEndurance then 15 else 10);
        io_when (mode = UltraEndurance) (do { apply_cgroup_cpu_quota g k p 400000 100000; return_io () });
        io_when (aff \<or> batch) (log_event (EvMitigation p (comm_or_default comm) ''AntiStarvationCap''));
        return_io (aff \<or> batch)
      })"

definition actuate_anti_starvation_restore ::
  "globals \<Rightarrow> kernel \<Rightarrow> pid \<Rightarrow> nat set option \<Rightarrow> int \<Rightarrow> int \<Rightarrow> string \<Rightarrow> bool io" where
  "actuate_anti_starvation_restore g k p target policy nice comm = do {
     aff \<leftarrow> restore_core_affinity g k p target;
     norm \<leftarrow> restore_sched_normal g k p policy nice;
     restore_cgroup_cpu_quota g k p;
     io_when (aff \<or> norm) (log_event (EvRollback p));
     return_io (aff \<or> norm)
   }"

section \<open>Releasing\<close>

definition slack_or_default :: "u64 \<Rightarrow> u64" where
  "slack_or_default ns = (if 0 < ns then ns else 50000)"

definition rollback_one :: "globals \<Rightarrow> kernel \<Rightarrow> tracked \<Rightarrow> unit io" where
  "rollback_one g k tm =
     (if tm_pid tm \<le> 1 then return_io ()
      else do {
        same \<leftarrow> same_process k (tm_pid tm) (tm_start_ticks tm);
        if \<not> same then return_io ()
        else do {
          actuate_cgroup_freeze g k (tm_pid tm) False;
          restore_sched_normal g k (tm_pid tm) (tm_policy tm) (tm_nice tm);
          apply_timer_slack g k (tm_pid tm) (slack_or_default (tm_slack tm));
          restore_process_affinity g k (tm_pid tm) (tm_affinity tm);
          return_io ()
        }
      })"

definition rollback_all_tracked :: "globals \<Rightarrow> kernel \<Rightarrow> features \<Rightarrow> features io" where
  "rollback_all_tracked g k s = do {
     io_for (\<lambda>_. True) (\<lambda>tm _. rollback_one g k tm) (ft_tracked s) ();
     return_io (s\<lparr>ft_tracked := []\<rparr>)
   }"

text \<open>\<open>m_tracked[i] = m_tracked.back(); m_tracked.pop_back();\<close>\<close>

definition swap_remove :: "nat \<Rightarrow> 'a list \<Rightarrow> 'a list" where
  "swap_remove i xs = butlast (xs[i := last xs])"

lemma length_swap_remove [simp]: "length (swap_remove i xs) = length xs - 1"
  by (simp add: swap_remove_def)

section \<open>One cycle\<close>

record status =
  ms_profile :: power_profile
  ms_throttled :: nat
  ms_frozen :: nat
  ms_reclaimed :: u64
  ms_savings :: float64
  ms_summaries :: nat

definition status_init :: status where
  "status_init = \<lparr>ms_profile = Balanced, ms_throttled = 0, ms_frozen = 0, ms_reclaimed = 0, ms_savings = Fin 0,
     ms_summaries = 0\<rparr>"

text \<open>The function-local statics of the evaluation.\<close>

record watchdog =
  wd_streak :: u32
  wd_logged :: bool
  wd_last_smu_verify :: u64

definition watchdog_init :: watchdog where
  "watchdog_init = \<lparr>wd_streak = 0, wd_logged = False, wd_last_smu_verify = 0\<rparr>"

record cycle =
  cy_engine :: engine
  cy_features :: features
  cy_watch :: watchdog
  cy_status :: status

abbreviation cy_globals :: "cycle \<Rightarrow> globals" where
  "cy_globals c \<equiv> en_globals (cy_engine c)"

definition with_features :: "(features \<Rightarrow> features) \<Rightarrow> cycle \<Rightarrow> cycle" where
  "with_features f c = c\<lparr>cy_features := f (cy_features c)\<rparr>"

definition with_status :: "(status \<Rightarrow> status) \<Rightarrow> cycle \<Rightarrow> cycle" where
  "with_status f c = c\<lparr>cy_status := f (cy_status c)\<rparr>"

definition reset_metrics :: "features \<Rightarrow> features" where
  "reset_metrics s = s\<lparr>ft_metrics := (\<lambda>f. (ft_metrics s f)\<lparr>mt_actions := 0, mt_reclaimed := 0, mt_watts := Fin 0, mt_pids := []\<rparr>)\<rparr>"

text \<open>One action of a feature on a process, with the watts it is estimated to save.\<close>

definition count_action :: "feature_id \<Rightarrow> pid \<Rightarrow> float64 \<Rightarrow> features \<Rightarrow> features" where
  "count_action f p watts s =
     (let m = ft_metrics s f
      in s\<lparr>ft_metrics := (ft_metrics s)(f := m\<lparr>mt_actions := mt_actions m + 1, mt_watts := add64 (mt_watts m) watts,
           mt_pids := (if length (mt_pids m) < MAX_TARGETED_PIDS then mt_pids m @ [p] else mt_pids m)\<rparr>)\<rparr>)"

definition count_reclaim :: "u64 \<Rightarrow> features \<Rightarrow> features" where
  "count_reclaim bytes s =
     s\<lparr>ft_metrics := (ft_metrics s)(ProactiveMemoryReclaim := (ft_metrics s ProactiveMemoryReclaim)
         \<lparr>mt_reclaimed := mt_reclaimed (ft_metrics s ProactiveMemoryReclaim) + bytes\<rparr>)\<rparr>"

definition add_savings :: "float64 \<Rightarrow> status \<Rightarrow> status" where
  "add_savings w st = st\<lparr>ms_savings := add64 (ms_savings st) w\<rparr>"

definition add_throttled :: "status \<Rightarrow> status" where
  "add_throttled st = st\<lparr>ms_throttled := ms_throttled st + 1\<rparr>"

definition add_reclaimed :: "u64 \<Rightarrow> status \<Rightarrow> status" where
  "add_reclaimed bytes st = st\<lparr>ms_reclaimed := ms_reclaimed st + bytes\<rparr>"

definition begin_cycle :: "kernel \<Rightarrow> bool \<Rightarrow> float64 \<Rightarrow> cycle \<Rightarrow> cycle io" where
  "begin_cycle k on_battery pct c = do {
     let e = cy_engine c;
     (g, b) \<leftarrow> audit_and_heal_audio_stack k (en_globals e, en_base e);
     let s = reset_metrics (cy_features c);
     let (eff, latch) = resolve_profile (case ft_override s of Some m \<Rightarrow> m | None \<Rightarrow> Balanced) on_battery pct (ft_latch s);
     let ov = (if ft_override s \<noteq> None \<and> ft_override s \<noteq> Some eff then Some eff else ft_override s);
     return_io (c\<lparr>cy_engine := e\<lparr>en_globals := g\<lparr>gl_effective_profile := eff\<rparr>, en_base := b\<rparr>,
       cy_features := s\<lparr>ft_latch := latch, ft_override := ov\<rparr>, cy_status := status_init\<lparr>ms_profile := eff\<rparr>\<rparr>)
   }"

subsection \<open>The frequency watchdog\<close>

definition FREQ_STARVED_TRIP_CYCLES :: u32 where [code_consts]: "FREQ_STARVED_TRIP_CYCLES = 5"

definition read_load :: "kernel \<Rightarrow> float64 io" where
  "read_load k = do {
     r \<leftarrow> read_some k ''/proc/loadavg'' 31;
     return_io (case r of None \<Rightarrow> Fin 0 | Some s \<Rightarrow> fst (strtod (c_str s)))
   }"

definition wanted_profile :: "power_profile \<Rightarrow> string" where
  "wanted_profile eff = (if eff = Performance then ''performance'' else ''balanced'')"

definition assert_ceiling :: "kernel \<Rightarrow> cycle \<Rightarrow> (bool \<times> cycle) io" where
  "assert_ceiling k c = do {
     (r, pl) \<leftarrow> assert_unrestricted_cpu_ceiling (cy_globals c) k (en_platform (cy_engine c));
     return_io (r, c\<lparr>cy_engine := (cy_engine c)\<lparr>en_platform := pl\<rparr>\<rparr>)
   }"

definition assert_platform_profile :: "kernel \<Rightarrow> string \<Rightarrow> cycle \<Rightarrow> cycle io" where
  "assert_platform_profile k want c = do {
     (_, x) \<leftarrow> set_platform_profile (cy_globals c) k want (en_statics (cy_engine c));
     return_io (c\<lparr>cy_engine := (cy_engine c)\<lparr>en_statics := x\<rparr>\<rparr>)
   }"

text \<open>What a tripped watchdog does; \<open>None\<close> when the SMU operation is undefined.\<close>

definition repair_frequency :: "kernel \<Rightarrow> power_profile \<Rightarrow> cycle \<Rightarrow> cycle option io" where
  "repair_frequency k eff c = do {
     (_, c) \<leftarrow> assert_ceiling k c;
     c \<leftarrow> assert_platform_profile k (wanted_profile eff) c;
     (tool, pl) \<leftarrow> find_ryzenadj k (en_platform (cy_engine c));
     let perf = (eff = Performance \<or> eff = Balanced);
     r \<leftarrow> (if tool \<noteq> None \<and> perf then apply_smu_performance_limits (cy_globals c) k pl
           else return_io (Some (False, pl)));
     case r of None \<Rightarrow> return_io None
     | Some (_, pl) \<Rightarrow> do {
         let w = cy_watch c;
         io_when (\<not> wd_logged w) (log_event (EvAlert ''WARN''));
         return_io (Some (c\<lparr>cy_engine := (cy_engine c)\<lparr>en_platform := pl\<rparr>,
           cy_watch := w\<lparr>wd_logged := True, wd_streak := 0\<rparr>\<rparr>))
       }
   }"

definition watch_frequency :: "kernel \<Rightarrow> report \<Rightarrow> power_profile \<Rightarrow> cycle \<Rightarrow> cycle option io" where
  "watch_frequency k r eff c =
     (if eff \<noteq> Performance \<and> eff \<noteq> Balanced then return_io (Some c)
      else do {
        (repaired, c) \<leftarrow> assert_ceiling k c;
        io_when repaired (log_event (EvAlert ''REPAIR''));
        c \<leftarrow> assert_platform_profile k (wanted_profile eff) c;
        let hw_max = ucast (pl_hw_max_freq_khz (en_platform (cy_engine c)));
        hw_max \<leftarrow> (if hw_max = 0
           then do { s \<leftarrow> read_some k (cpufreq_path 0 ''cpuinfo_max_freq'') 31;
                     return_io (case s of None \<Rightarrow> 0 | Some s \<Rightarrow> fst (strtoul (c_str s))) }
           else return_io hw_max);
        case fp_to_u64 (mul64 (hw_cpu_freq_max_mhz (rp_hardware r)) (Fin 1000)) of None \<Rightarrow> return_io None
        | Some observed \<Rightarrow> do {
            load1 \<leftarrow> read_load k;
            case is_frequency_starved observed hw_max load1 (total_online_cpus k) of None \<Rightarrow> return_io None
            | Some starved \<Rightarrow>
                (let w = cy_watch c
                 in if starved
                    then let streak = wd_streak w + 1; c = c\<lparr>cy_watch := w\<lparr>wd_streak := streak\<rparr>\<rparr>
                         in if FREQ_STARVED_TRIP_CYCLES \<le> streak then repair_frequency k eff c else return_io (Some c)
                    else do {
                      io_when (wd_logged w) (log_event (EvAlert ''INFO''));
                      return_io (Some (c\<lparr>cy_watch := w\<lparr>wd_logged := False, wd_streak := 0\<rparr>\<rparr>))
                    })
          }
      })"

subsection \<open>The fan and the SMU limits\<close>

definition drive_fan :: "kernel \<Rightarrow> fan_engine \<Rightarrow> report \<Rightarrow> power_profile \<Rightarrow> cycle \<Rightarrow> cycle option io" where
  "drive_fan k fe r eff c = do {
     x \<leftarrow> apply_fan_for_temp (cy_globals c) k fe (hw_cpu_temp_c (rp_hardware r)) eff (en_platform (cy_engine c));
     return_io (map_option (\<lambda>(_, pl). c\<lparr>cy_engine := (cy_engine c)\<lparr>en_platform := pl\<rparr>\<rparr>) x)
   }"

definition SMU_VERIFY_INTERVAL_SEC :: u64 where [code_consts]: "SMU_VERIFY_INTERVAL_SEC = 60"

definition smu_verify_min_load :: "power_profile \<Rightarrow> float64" where
  "smu_verify_min_load mode = (if mode = Performance then lit64 (1 / 2) else Fin 1)"

definition verify_smu :: "kernel \<Rightarrow> power_profile \<Rightarrow> cycle \<Rightarrow> cycle option io" where
  "verify_smu k eff c = do {
     now_sec \<leftarrow> sys_now_real k;
     let w = cy_watch c;
     if \<not> wd_last_smu_verify w + SMU_VERIFY_INTERVAL_SEC \<le> now_sec then return_io (Some c)
     else do {
       let c = c\<lparr>cy_watch := w\<lparr>wd_last_smu_verify := now_sec\<rparr>\<rparr>;
       load1 \<leftarrow> read_load k;
       if \<not> fp_ge load1 (smu_verify_min_load eff) then return_io (Some c)
       else do {
         x \<leftarrow> verify_and_reassert_smu_limits (cy_globals c) k eff (en_platform (cy_engine c));
         return_io (map_option (\<lambda>(_, pl). c\<lparr>cy_engine := (cy_engine c)\<lparr>en_platform := pl\<rparr>\<rparr>) x)
       }
     }
   }"

subsection \<open>Changing the profile\<close>

text \<open>The loop that releases the throttled entries in Performance.\<close>

definition unthrottle_one :: "globals \<Rightarrow> kernel \<Rightarrow> tracked \<Rightarrow> unit io" where
  "unthrottle_one g k tm = do {
     io_when (tm_feature tm = CgroupFreezer) (do { actuate_cgroup_freeze g k (tm_pid tm) False; return_io () });
     restore_sched_normal g k (tm_pid tm) (tm_policy tm) (tm_nice tm);
     apply_timer_slack g k (tm_pid tm) (slack_or_default (tm_slack tm));
     return_io ()
   }"

function unthrottle :: "globals \<Rightarrow> kernel \<Rightarrow> nat \<Rightarrow> tracked list \<Rightarrow> tracked list io" where
  "unthrottle g k i tms =
     (if length tms \<le> i then return_io tms
      else if tm_feature (tms ! i) = CgroupFreezer \<or> tm_feature (tms ! i) = SchedIdleThrottle
      then do { unthrottle_one g k (tms ! i); unthrottle g k i (swap_remove i tms) }
      else unthrottle g k (i + 1) tms)"
  by pat_completeness auto
termination
  by (relation "measure (\<lambda>(_, _, i, tms). length tms - i)") auto

declare unthrottle.simps [simp del]

definition change_profile :: "kernel \<Rightarrow> power_profile \<Rightarrow> cycle \<Rightarrow> cycle io" where
  "change_profile k eff c = do {
     let s = cy_features c;
     s \<leftarrow> (if ft_last_profile s \<noteq> None \<and> ft_last_profile s \<noteq> Some eff
           then rollback_all_tracked (cy_globals c) k s else return_io s);
     let s = s\<lparr>ft_last_profile := Some eff\<rparr>;
     tms \<leftarrow> (if eff = Performance then unthrottle (cy_globals c) k 0 (ft_tracked s) else return_io (ft_tracked s));
     return_io (c\<lparr>cy_features := s\<lparr>ft_tracked := tms\<rparr>\<rparr>)
   }"

section \<open>Processes\<close>

datatype aggressiveness = Conservative | Moderate | Progressive

definition aggressiveness_of :: "power_profile \<Rightarrow> aggressiveness" where
  "aggressiveness_of eff = (if eff = UltraEndurance then Progressive else if eff = PowerSaver then Moderate else Conservative)"

abbreviation has_tier :: "proc_power \<Rightarrow> safety_tier \<Rightarrow> bool" where
  "has_tier p t \<equiv> pp_safety_tier p = tier_code t"

text \<open>Reclaiming from a process: on success it is counted for the feature and for the cycle.\<close>

definition reclaim_from :: "kernel \<Rightarrow> bool \<Rightarrow> proc_power \<Rightarrow> u64 \<Rightarrow> float64 \<Rightarrow> cycle \<Rightarrow> cycle io" where
  "reclaim_from k hold p bytes watts c = do {
     ok \<leftarrow> actuate_memory_reclaim (cy_globals c) k hold (pp_pid p) bytes;
     return_io (if ok
       then with_status (\<lambda>st. add_savings watts (add_reclaimed bytes st))
              (with_features (\<lambda>s. count_reclaim bytes (count_action ProactiveMemoryReclaim (pp_pid p) watts s)) c)
       else c)
   }"

definition shell_reclaim :: "kernel \<Rightarrow> bool \<Rightarrow> aggressiveness \<Rightarrow> proc_power \<Rightarrow> cycle \<Rightarrow> cycle io" where
  "shell_reclaim k hold a p c =
     (if a = Progressive \<and> 250 * 1024 < pp_pss_kib p then reclaim_from k hold p (64 * 1024 * 1024) (lit64 (5 / 100)) c
      else return_io c)"

definition should_throttle :: "aggressiveness \<Rightarrow> proc_power \<Rightarrow> bool" where
  "should_throttle a p =
     (if has_tier p BackgroundWorker
      then a = Progressive \<or>
           (a = Moderate \<and> (fp_gt (pp_wdi_score p) (Fin 3) \<or> 50 < pp_wakeups_per_sec p)) \<or>
           fp_gt (pp_wdi_score p) (Fin 10) \<or> fp_gt (pp_cpu_watts p) (lit64 (3 / 2))
      else if has_tier p RunawayCandidate then pp_is_runaway p \<or> fp_gt (pp_wdi_score p) (Fin 10)
      else False)"

definition throttle_feature :: "kernel \<Rightarrow> aggressiveness \<Rightarrow> proc_power \<Rightarrow> cycle \<Rightarrow> cycle io" where
  "throttle_feature k a p c =
     (if \<not> (is_feature_enabled SchedIdleThrottle (cy_features c) \<and> should_throttle a p) then return_io c
      else do {
        ok \<leftarrow> actuate_sched_idle (cy_globals c) k (pp_pid p);
        let savings = mul64 (pp_cpu_watts p) (lit64 (4 / 10));
        return_io (if ok
          then with_status (\<lambda>st. add_savings savings (add_throttled st))
                 (with_features (count_action SchedIdleThrottle (pp_pid p) savings) c)
          else c)
      })"

definition should_relax :: "aggressiveness \<Rightarrow> proc_power \<Rightarrow> bool" where
  "should_relax a p \<longleftrightarrow>
     (has_tier p BackgroundWorker \<and> 80 < pp_wakeups_per_sec p) \<or>
     (has_tier p UserInteractive \<and> a = Progressive \<and> 250 < pp_wakeups_per_sec p) \<or>
     (has_tier p RunawayCandidate \<and> 100 < pp_wakeups_per_sec p)"

definition slack_feature :: "kernel \<Rightarrow> aggressiveness \<Rightarrow> proc_power \<Rightarrow> cycle \<Rightarrow> cycle io" where
  "slack_feature k a p c =
     (if \<not> (is_feature_enabled TimerSlackCoalescing (cy_features c) \<and> should_relax a p \<and> pp_timerslack_ns p < 100000000)
      then return_io c
      else do {
        ok \<leftarrow> actuate_timer_slack (cy_globals c) k (pp_pid p) 100000000;
        let savings = mul64 (pp_wakeup_tax_watts p) (lit64 (1 / 2));
        return_io (if ok
          then with_status (add_savings savings) (with_features (count_action TimerSlackCoalescing (pp_pid p) savings) c)
          else c)
      })"

definition should_reclaim :: "aggressiveness \<Rightarrow> proc_power \<Rightarrow> bool" where
  "should_reclaim a p \<longleftrightarrow>
     (has_tier p BackgroundWorker \<and> 80 * 1024 < pp_pss_kib p) \<or>
     (has_tier p UserInteractive \<and> a \<noteq> Conservative \<and> 400 * 1024 < pp_pss_kib p \<and> fp_lt (pp_cpu_watts p) (lit64 (2 / 10)))"

definition reclaim_feature :: "kernel \<Rightarrow> bool \<Rightarrow> aggressiveness \<Rightarrow> proc_power \<Rightarrow> cycle \<Rightarrow> cycle io" where
  "reclaim_feature k hold a p c =
     (let bytes = min (pp_pss_kib p * 1024 div 2) (128 * 1024 * 1024)
      in if is_feature_enabled ProactiveMemoryReclaim (cy_features c) \<and> should_reclaim a p \<and> 0 < bytes
         then reclaim_from k hold p bytes (lit64 (4 / 100)) c else return_io c)"

definition freezer_feature :: "kernel \<Rightarrow> aggressiveness \<Rightarrow> proc_power \<Rightarrow> cycle \<Rightarrow> cycle io" where
  "freezer_feature k a p c = do {
     io_when (is_feature_enabled CgroupFreezer (cy_features c) \<and> a = Progressive \<and>
              (has_tier p BackgroundWorker \<or> has_tier p RunawayCandidate))
       (do { actuate_sched_idle (cy_globals c) k (pp_pid p);
             actuate_timer_slack (cy_globals c) k (pp_pid p) 100000000; return_io () });
     return_io c
   }"

definition ccx_feature :: "kernel \<Rightarrow> proc_power \<Rightarrow> cycle \<Rightarrow> cycle io" where
  "ccx_feature k p c =
     (if \<not> (is_feature_enabled ZenCcxAffinityPinning (cy_features c) \<and> pp_cross_ccx p \<and> 0 \<le> pp_cpu_core p)
      then return_io c
      else do {
        (ok, tp) \<leftarrow> actuate_ccx_affinity k (pp_pid p) (pp_cpu_core p) (en_topology (cy_engine c));
        let c = c\<lparr>cy_engine := (cy_engine c)\<lparr>en_topology := tp\<rparr>\<rparr>;
        return_io (if ok
          then with_status (add_savings (lit64 (15 / 100)))
                 (with_features (count_action ZenCcxAffinityPinning (pp_pid p) (lit64 (15 / 100))) c)
          else c)
      })"

text \<open>The features that are off in Performance; the desktop shell only has memory reclaimed.\<close>

definition saving_features :: "kernel \<Rightarrow> bool \<Rightarrow> aggressiveness \<Rightarrow> proc_power \<Rightarrow> cycle \<Rightarrow> cycle io" where
  "saving_features k hold a p c = do {
     c \<leftarrow> throttle_feature k a p c;
     c \<leftarrow> slack_feature k a p c;
     c \<leftarrow> reclaim_feature k hold a p c;
     c \<leftarrow> freezer_feature k a p c;
     ccx_feature k p c
   }"

definition cap_threshold :: "power_profile \<Rightarrow> float64" where
  "cap_threshold eff = (case eff of UltraEndurance \<Rightarrow> lit64 (2 / 10) | PowerSaver \<Rightarrow> lit64 (7 / 10)
     | Performance \<Rightarrow> Fin 2 | Balanced \<Rightarrow> lit64 (12 / 10))"

definition should_cap :: "power_profile \<Rightarrow> proc_power \<Rightarrow> bool" where
  "should_cap eff p \<longleftrightarrow>
     (let w = pp_cpu_watts p; ultra = (eff = UltraEndurance)
      in fp_gt w (cap_threshold eff) \<or>
         (4 \<le> pp_num_threads p \<and> fp_gt w (lit64 (25 / 100))) \<or>
         (ultra \<and> 2 \<le> pp_num_threads p \<and> fp_gt w (lit64 (12 / 100))) \<or>
         fp_gt (pp_wdi_score p) (if ultra then Fin 4 else Fin 6) \<or> pp_is_runaway p \<or>
         (has_tier p BackgroundWorker \<and> fp_gt w (if ultra then lit64 (15 / 100) else lit64 (20 / 100))) \<or>
         (has_tier p RunawayCandidate \<and> fp_gt w (if ultra then lit64 (15 / 100) else lit64 (25 / 100))))"

definition is_tracked :: "pid \<Rightarrow> tracked list \<Rightarrow> bool" where
  "is_tracked p tms \<longleftrightarrow> list_ex (\<lambda>tm. tm_pid tm = p \<and> tm_feature tm = AntiStarvationHeadroom) tms"

text \<open>Capping, with the state of the task read first and recorded afterwards.\<close>

definition cap_process :: "kernel \<Rightarrow> power_profile \<Rightarrow> proc_power \<Rightarrow> cycle \<Rightarrow> cycle io" where
  "cap_process k eff p c = do {
     nice \<leftarrow> sys_getpriority k (pp_pid p);
     pol \<leftarrow> sys_getscheduler k (pp_pid p);
     aff \<leftarrow> sys_getaffinity k (pp_pid p);
     ok \<leftarrow> actuate_anti_starvation_cap (cy_globals c) k (pp_pid p) eff (c_str (pp_comm p));
     if \<not> ok then return_io c
     else do {
       let savings = mul64 (pp_cpu_watts p) (lit64 (15 / 100));
       let c = with_features (count_action AntiStarvationHeadroom (pp_pid p) savings) c;
       c \<leftarrow> (if length (ft_tracked (cy_features c)) < MAX_TRACKED_MITIGATIONS
             then do {
               now_sec \<leftarrow> sys_now_real k;
               ticks \<leftarrow> read_proc_start_ticks k (pp_pid p);
               return_io (with_features (\<lambda>s. s\<lparr>ft_tracked := ft_tracked s @ [\<lparr>tm_pid = pp_pid p, tm_start_ticks = ticks,
                 tm_comm = take 15 (c_str (pp_comm p)), tm_feature = AntiStarvationHeadroom, tm_timestamp = now_sec,
                 tm_nice = nice, tm_policy = (if 0 \<le> pol then pol else 0), tm_slack = pp_timerslack_ns p,
                 tm_affinity = (case aff of None \<Rightarrow> {} | Some cs \<Rightarrow> cs)\<rparr>]\<rparr>) c)
             }
             else return_io c);
       return_io (with_status (\<lambda>st. add_savings savings (add_throttled st)) c)
     }
   }"

definition headroom_feature :: "kernel \<Rightarrow> power_profile \<Rightarrow> proc_power \<Rightarrow> cycle \<Rightarrow> cycle io" where
  "headroom_feature k eff p c =
     (if \<not> is_feature_enabled AntiStarvationHeadroom (cy_features c) then return_io c
      else do {
        immune \<leftarrow> (if has_tier p CriticalImmune \<or> has_tier p DesktopCore then return_io True
                   else is_immune_process (cy_globals c) k (pp_pid p));
        let tms = ft_tracked (cy_features c);
        if immune \<or> \<not> should_cap eff p then return_io c
        else if is_tracked (pp_pid p) tms \<or> MAX_TRACKED_MITIGATIONS \<le> length tms then return_io c
        else cap_process k eff p c
      })"

definition evaluate_process :: "kernel \<Rightarrow> bool \<Rightarrow> power_profile \<Rightarrow> proc_power \<Rightarrow> cycle \<Rightarrow> cycle io" where
  "evaluate_process k hold eff p c =
     (if pp_pid p \<le> 1 then return_io c
      else do {
        user \<leftarrow> (if has_tier p UserInteractive then return_io True else is_user_app_tree k (pp_pid p));
        if user then return_io c
        else if has_tier p DesktopCore
        then do {
          (_, tp) \<leftarrow> shield_interactive_process (cy_globals c) k (pp_pid p) (comm_view (pp_comm p)) (en_topology (cy_engine c));
          return_io (c\<lparr>cy_engine := (cy_engine c)\<lparr>en_topology := tp\<rparr>\<rparr>)
        }
        else if has_tier p CriticalImmune then return_io c
        else let a = aggressiveness_of eff
        in if eff = Performance then headroom_feature k eff p c
        else if has_tier p DesktopShell \<and> is_feature_enabled ProactiveMemoryReclaim (cy_features c)
        then shell_reclaim k hold a p c
        else do { c \<leftarrow> saving_features k hold a p c; headroom_feature k eff p c }
      })"

section \<open>De-escalation\<close>

definition deescalate_watts :: "power_profile \<Rightarrow> float64" where
  "deescalate_watts eff = (case eff of UltraEndurance \<Rightarrow> lit64 (10 / 100) | PowerSaver \<Rightarrow> lit64 (25 / 100)
     | Performance \<Rightarrow> lit64 (80 / 100) | Balanced \<Rightarrow> lit64 (40 / 100))"

text \<open>Held for fifteen seconds; afterwards the first entry of the report with its number decides.\<close>

definition still_greedy :: "u64 \<Rightarrow> float64 \<Rightarrow> proc_power list \<Rightarrow> tracked \<Rightarrow> bool" where
  "still_greedy now_sec w ps tm =
     (if tm_timestamp tm \<le> now_sec \<and> now_sec - tm_timestamp tm < 15 then True
      else case find (\<lambda>p. pp_pid p = tm_pid tm) ps of None \<Rightarrow> False
           | Some p \<Rightarrow> fp_gt (pp_cpu_watts p) w \<or> fp_gt (pp_wdi_score p) (lit64 (35 / 10)) \<or>
               (4 \<le> pp_num_threads p \<and> fp_gt (pp_cpu_watts p) (lit64 (15 / 100))))"

definition release_capped :: "globals \<Rightarrow> kernel \<Rightarrow> tracked \<Rightarrow> unit io" where
  "release_capped g k tm = do {
     same \<leftarrow> same_process k (tm_pid tm) (tm_start_ticks tm);
     io_when same
       (do { actuate_anti_starvation_restore g k (tm_pid tm) (Some (tm_affinity tm)) (tm_policy tm) (tm_nice tm) (tm_comm tm);
             return_io () })
   }"

function deescalate :: "globals \<Rightarrow> kernel \<Rightarrow> (tracked \<Rightarrow> bool) \<Rightarrow> nat \<Rightarrow> tracked list \<Rightarrow> tracked list io" where
  "deescalate g k greedy i tms =
     (if length tms \<le> i then return_io tms
      else if tm_feature (tms ! i) = AntiStarvationHeadroom \<and> \<not> greedy (tms ! i)
      then do { release_capped g k (tms ! i); deescalate g k greedy i (swap_remove i tms) }
      else deescalate g k greedy (i + 1) tms)"
  by pat_completeness auto
termination
  by (relation "measure (\<lambda>(_, _, _, i, tms). length tms - i)") auto

declare deescalate.simps [simp del]

section \<open>The evaluation\<close>

definition advise :: "feature_id \<Rightarrow> float64 \<Rightarrow> features \<Rightarrow> features" where
  "advise f watts s = s\<lparr>ft_metrics := (ft_metrics s)(f := (ft_metrics s f)\<lparr>mt_actions := 1, mt_watts := watts\<rparr>)\<rparr>"

definition advisory_features :: "report \<Rightarrow> bool \<Rightarrow> float64 \<Rightarrow> features \<Rightarrow> features" where
  "advisory_features r on_battery pct s =
     (let h = rp_hardware r;
          s = (if is_feature_enabled DisplayBacklightFloor s \<and> on_battery \<and> fp_lt pct (Fin 30) \<and>
                  fp_gt (hw_display_brightness_percent h) (Fin 50)
               then advise DisplayBacklightFloor (mul64 (hw_display_watts h) (lit64 (35 / 100))) s else s)
      in if is_feature_enabled PcieAspmEnforcer s \<and> on_battery \<and> hw_aspm_policy h \<noteq> ''powersave''
         then advise PcieAspmEnforcer (lit64 (30 / 100)) s else s)"

definition has_summary :: "metrics \<Rightarrow> bool" where
  "has_summary m \<longleftrightarrow> 0 < mt_actions m \<or> fp_gt (mt_watts m) (Fin 0)"

definition finish_cycle :: "kernel \<Rightarrow> report \<Rightarrow> bool \<Rightarrow> float64 \<Rightarrow> power_profile \<Rightarrow> cycle \<Rightarrow> cycle io" where
  "finish_cycle k r on_battery pct eff c = do {
     now_sec \<leftarrow> sys_now_real k;
     tms \<leftarrow> deescalate (cy_globals c) k (still_greedy now_sec (deescalate_watts eff) (top_list r)) 0
              (ft_tracked (cy_features c));
     let s = advisory_features r on_battery pct ((cy_features c)\<lparr>ft_tracked := tms\<rparr>);
     let n = length (filter (\<lambda>f. has_summary (ft_metrics s f)) feature_ids);
     return_io (c\<lparr>cy_features := s, cy_status := (cy_status c)\<lparr>ms_summaries := min n 8\<rparr>\<rparr>)
   }"

definition then_some :: "'a option io \<Rightarrow> ('a \<Rightarrow> 'b option io) \<Rightarrow> 'b option io" where
  "then_some m f = do { r \<leftarrow> m; case r of None \<Rightarrow> return_io None | Some x \<Rightarrow> f x }"

definition feature_evaluate ::
  "kernel \<Rightarrow> fan_engine \<Rightarrow> bool \<Rightarrow> report \<Rightarrow> bool \<Rightarrow> float64 \<Rightarrow> cycle \<Rightarrow> cycle option io" where
  "feature_evaluate k fe hold r on_battery pct c = do {
     c \<leftarrow> begin_cycle k on_battery pct c;
     let eff = ms_profile (cy_status c);
     then_some (watch_frequency k r eff c) (\<lambda>c.
       then_some (drive_fan k fe r eff c) (\<lambda>c.
         then_some (verify_smu k eff c) (\<lambda>c. do {
           c \<leftarrow> change_profile k eff c;
           c \<leftarrow> io_for (\<lambda>_. True) (evaluate_process k hold eff) (top_list r) c;
           c \<leftarrow> finish_cycle k r on_battery pct eff c;
           return_io (Some c)
         })))
   }"

text \<open>The report carries the status to the other components.\<close>

definition report_with_status :: "status \<Rightarrow> report \<Rightarrow> report" where
  "report_with_status st r = r\<lparr>rp_current_profile := ms_profile st, rp_feature_summary_count := of_nat (ms_summaries st)\<rparr>"

end
