(* ===== verification/Feature_Ledger.thy ===== *)
theory Feature_Ledger
  imports Features Profile_Safety "HOL-Library.Multiset"
begin

text \<open>
  What the feature manager records and whom it leaves alone: the table of tracked mitigations, the
  immunity of user applications and of the Performance profile, and the meaning of the ancestry walk.
\<close>

section \<open>The ledger\<close>

text \<open>
  What the entries of the table are: at most 128, one per process, and only the headroom cap is
  ever recorded.
\<close>

definition ledger_ok :: "tracked list \<Rightarrow> bool" where
  "ledger_ok tms \<longleftrightarrow> length tms \<le> MAX_TRACKED_MITIGATIONS \<and> distinct (map tm_pid tms) \<and>
     (\<forall>tm \<in> set tms. tm_feature tm = AntiStarvationHeadroom \<and> 1 < tm_pid tm \<and> 0 \<le> tm_policy tm)"

lemma mset_swap_remove: "i < length xs \<Longrightarrow> add_mset (xs ! i) (mset (swap_remove i xs)) = mset xs"
proof -
  assume i: "i < length xs"
  then obtain ys y where xs: "xs = ys @ [y]" by (cases xs rule: rev_cases) auto
  show ?thesis
  proof (cases "i < length ys")
    case True
    then show ?thesis by (simp add: xs swap_remove_def list_update_append mset_update nth_append)
  next
    case False
    then have "i = length ys" using i xs by simp
    then show ?thesis by (simp add: xs swap_remove_def list_update_append nth_append)
  qed
qed

lemma ledger_remove: "ledger_ok tms \<Longrightarrow> i < length tms \<Longrightarrow> ledger_ok (swap_remove i tms)"
proof -
  assume ok: "ledger_ok tms" and i: "i < length tms"
  have m: "mset tms = mset (tms ! i # swap_remove i tms)" using mset_swap_remove [OF i] by simp
  then have "distinct (map tm_pid (tms ! i # swap_remove i tms))"
    using ok unfolding ledger_ok_def by (metis mset_eq_imp_distinct_iff mset_map)
  moreover have "set (swap_remove i tms) \<subseteq> set tms"
    using m by (metis set_mset_mset set_subset_Cons)
  ultimately show ?thesis using ok by (auto simp: ledger_ok_def)
qed

abbreviation table :: "cycle \<Rightarrow> tracked list" where
  "table c \<equiv> ft_tracked (cy_features c)"

abbreviation keeps_table :: "cycle io \<Rightarrow> cycle \<Rightarrow> bool" where
  "keeps_table m c \<equiv> yields m (\<lambda>c'. table c' = table c)"

abbreviation keeps_table_opt :: "cycle option io \<Rightarrow> cycle \<Rightarrow> bool" where
  "keeps_table_opt m c \<equiv> yields m (\<lambda>r. \<forall>c'. r = Some c' \<longrightarrow> table c' = table c)"

lemma table_simps [simp]:
  "table (with_status u c) = table c" "ft_tracked (count_action f p w s) = ft_tracked s"
  "ft_tracked (count_reclaim b s) = ft_tracked s" "ft_tracked (reset_metrics s) = ft_tracked s"
  "cy_features (with_features h c) = h (cy_features c)" "ft_tracked (advise f w s) = ft_tracked s"
  by (simp_all add: with_status_def with_features_def count_action_def count_reclaim_def reset_metrics_def Let_def advise_def)

lemma begin_keeps: "keeps_table (begin_cycle k on_battery pct c) c"
  unfolding begin_cycle_def Let_def by (auto intro!: yields_any split: prod.splits)

lemma ceiling_keeps: "yields (assert_ceiling k c) (\<lambda>(_, c'). table c' = table c)"
  unfolding assert_ceiling_def by (auto intro!: yields_any)

lemma platform_keeps: "keeps_table (assert_platform_profile k want c) c"
  unfolding assert_platform_profile_def by (auto intro!: yields_any)

lemma repair_keeps: "keeps_table_opt (repair_frequency k eff c) c"
  unfolding repair_frequency_def Let_def
  by (rule yields_bind [OF ceiling_keeps], clarsimp, rule yields_bind [OF platform_keeps])
    (auto intro!: yields_any split: option.splits)

lemma watch_keeps: "keeps_table_opt (watch_frequency k r eff c) c"
proof (cases "eff \<noteq> Performance \<and> eff \<noteq> Balanced")
  case False
  have watch: "keeps_table_opt (repair_frequency k eff (c1\<lparr>cy_watch := w\<rparr>)) c" if "table c1 = table c" for c1 w
    using repair_keeps [of k eff "c1\<lparr>cy_watch := w\<rparr>"] that by simp
  show ?thesis
    unfolding watch_frequency_def if_not_P [OF False] Let_def
    by (rule yields_bind [OF ceiling_keeps], clarsimp, rule yields_any, rule yields_bind [OF platform_keeps], rule yields_any)
      (auto intro!: yields_any watch split: option.split)
qed (simp add: watch_frequency_def)

lemma fan_keeps: "keeps_table_opt (drive_fan k fe r eff c) c"
  unfolding drive_fan_def by (auto intro!: yields_any)

lemma verify_keeps: "keeps_table_opt (verify_smu k eff c) c"
  unfolding verify_smu_def Let_def by (auto intro!: yields_any)

lemma feature_keeps:
  "keeps_table (throttle_feature k a p c) c" "keeps_table (slack_feature k a p c) c"
  "keeps_table (reclaim_feature k hold a p c) c" "keeps_table (freezer_feature k a p c) c"
  "keeps_table (ccx_feature k p c) c" "keeps_table (shell_reclaim k hold a p c) c"
  unfolding throttle_feature_def slack_feature_def reclaim_feature_def freezer_feature_def ccx_feature_def
    shell_reclaim_def reclaim_from_def Let_def
  by (auto intro!: yields_any)

lemma saving_keeps: "keeps_table (saving_features k hold a p c) c"
proof -
  have chain: "yields (m c1 \<bind> f) Q" if "table c1 = table c" "\<And>c. keeps_table (m c) c"
      "\<And>c2. table c2 = table c \<Longrightarrow> yields (f c2) Q" for m f Q c1
    using that by (intro yields_bind [OF that(2)]) auto
  show ?thesis
    unfolding saving_features_def
    by (intro chain [OF _ feature_keeps(1)] chain [OF _ feature_keeps(2)] chain [OF _ feature_keeps(3)]
        chain [OF _ feature_keeps(4)] refl)
      (use feature_keeps(5) in metis)+
qed

lemma cap_ledger:
  assumes "ledger_ok (table c)" "1 < pp_pid p" "\<not> is_tracked (pp_pid p) (table c)"
  shows "yields (cap_process k eff p c) (\<lambda>c'. ledger_ok (table c'))"
proof -
  have new: "pp_pid p \<notin> tm_pid ` set (table c)"
    using assms(1,3) by (auto simp: ledger_ok_def is_tracked_def list_ex_iff)
  show ?thesis
    unfolding cap_process_def Let_def
    using assms(1,2) new by (auto intro!: yields_any simp: ledger_ok_def)
qed

lemma headroom_ledger:
  "ledger_ok (table c) \<Longrightarrow> 1 < pp_pid p \<Longrightarrow> yields (headroom_feature k eff p c) (\<lambda>c'. ledger_ok (table c'))"
  unfolding headroom_feature_def Let_def by (auto intro!: yields_any cap_ledger)

lemma process_ledger:
  assumes "ledger_ok (table c)"
  shows "yields (evaluate_process k hold eff p c) (\<lambda>c'. ledger_ok (table c'))"
proof -
  have sav: "yields (saving_features k hold a p c \<bind> headroom_feature k eff p) (\<lambda>c'. ledger_ok (table c'))"
    if "1 < pp_pid p" for a
    using assms that by (intro yields_bind [OF saving_keeps]) (auto intro: headroom_ledger)
  have shell: "yields (shell_reclaim k hold a p c) (\<lambda>c'. ledger_ok (table c'))" for a
    using feature_keeps(6) [of k hold a p c] assms by (auto simp: yields_def)
  show ?thesis
    unfolding evaluate_process_def Let_def
    using assms by (auto intro!: yields_any [where m = "shield_interactive_process _ _ _ _ _"]
        yields_any [where m = "is_user_app_tree _ _"] sav shell headroom_ledger)
qed

lemma release_ledger:
  "ledger_ok tms \<Longrightarrow> yields (unthrottle g k i tms) ledger_ok" "ledger_ok tms \<Longrightarrow> yields (deescalate g k greedy i tms) ledger_ok"
proof -
  show "ledger_ok tms \<Longrightarrow> yields (unthrottle g k i tms) ledger_ok"
  proof (induction g k i tms rule: unthrottle.induct)
    case (1 g k i tms)
    show ?case using 1(3) 1(2) by (subst unthrottle.simps) (auto intro!: yields_any 1(1) ledger_remove)
  qed
  show "ledger_ok tms \<Longrightarrow> yields (deescalate g k greedy i tms) ledger_ok"
  proof (induction g k greedy i tms rule: deescalate.induct)
    case (1 g k greedy i tms)
    show ?case using 1(3) 1(2) by (subst deescalate.simps) (auto intro!: yields_any 1(1) ledger_remove)
  qed
qed

lemma ledger_empty [simp]: "ledger_ok []"
  by (simp add: ledger_ok_def)

lemma rollback_empties: "yields (rollback_all_tracked g k s) (\<lambda>s'. ft_tracked s' = [])"
  unfolding rollback_all_tracked_def by (auto intro!: yields_any)

lemma change_ledger: "ledger_ok (table c) \<Longrightarrow> yields (change_profile k eff c) (\<lambda>c'. ledger_ok (table c'))"
  unfolding change_profile_def Let_def
  by (rule yields_bind [where R = "\<lambda>s. ledger_ok (ft_tracked s)"])
    (auto intro!: yields_bind [where R = ledger_ok] release_ledger yields_bind [OF rollback_empties]
      simp: yields_def [of "rollback_all_tracked _ _ _"] rollback_empties [unfolded yields_def])

lemma finish_ledger: "ledger_ok (table c) \<Longrightarrow> yields (finish_cycle k r on_battery pct eff c) (\<lambda>c'. ledger_ok (table c'))"
  unfolding finish_cycle_def Let_def advisory_features_def
  by (auto intro!: yields_any [where m = "sys_now_real k"] yields_bind [OF release_ledger(2)])

text \<open>The public operations in any order; \<open>None\<close> follows undefined behaviour.\<close>

datatype feature_op = Evaluate report bool float64 bool | EnableFeature feature_id bool
  | OverrideProfile "power_profile option" | Destroy

definition feature_step :: "kernel \<Rightarrow> fan_engine \<Rightarrow> feature_op \<Rightarrow> cycle option \<Rightarrow> cycle option io" where
  "feature_step k fe op s =
     (case s of None \<Rightarrow> return_io None
      | Some c \<Rightarrow> (case op of
          Evaluate r on_battery pct hold \<Rightarrow> feature_evaluate k fe hold r on_battery pct c
        | EnableFeature f on \<Rightarrow> return_io (Some (with_features (set_feature_enabled f on) c))
        | OverrideProfile m \<Rightarrow> return_io (Some (with_features (set_override_profile m) c))
        | Destroy \<Rightarrow> do { s \<leftarrow> rollback_all_tracked (cy_globals c) k (cy_features c);
                          return_io (Some (c\<lparr>cy_features := s\<rparr>)) }))"

definition ledger_inv :: "cycle option \<Rightarrow> history \<Rightarrow> bool" where
  "ledger_inv s h \<longleftrightarrow> (\<forall>c. s = Some c \<longrightarrow> ledger_ok (table c))"

lemma yields_then: "yields m (\<lambda>r. \<forall>x. r = Some x \<longrightarrow> R x) \<Longrightarrow> (\<And>x. R x \<Longrightarrow> yields (f x) Q) \<Longrightarrow> Q None \<Longrightarrow> yields (then_some m f) Q"
  unfolding then_some_def by (erule yields_bind) (auto split: option.split)

lemma evaluate_ledger:
  assumes "ledger_ok (table c)"
  shows "yields (feature_evaluate k fe hold r on_battery pct c) (\<lambda>r. \<forall>c'. r = Some c' \<longrightarrow> ledger_ok (table c'))"
  unfolding feature_evaluate_def Let_def
proof (rule yields_bind [OF begin_keeps], rule yields_then [OF watch_keeps], rule yields_then [OF fan_keeps],
    rule yields_then [OF verify_keeps])
  fix c1 c2 c3 c4 :: cycle
  assume "table c1 = table c" "table c2 = table c1" "table c3 = table c2" "table c4 = table c3"
  then have ok: "ledger_ok (table c4)" using assms by simp
  show "yields (do { c \<leftarrow> change_profile k (ms_profile (cy_status c1)) c4;
           c \<leftarrow> io_for (\<lambda>_. True) (evaluate_process k hold (ms_profile (cy_status c1))) (top_list r) c;
           c \<leftarrow> finish_cycle k r on_battery pct (ms_profile (cy_status c1)) c;
           return_io (Some c) }) (\<lambda>r. \<forall>c'. r = Some c' \<longrightarrow> ledger_ok (table c'))"
    by (rule yields_bind [OF change_ledger [OF ok]], rule yields_bind, rule yields_for, assumption, erule process_ledger,
        rule yields_bind, erule finish_ledger) simp
qed simp_all

interpretation feature_machine: io_machine "feature_step k fe" ledger_inv for k fe
proof
  fix s h op assume s: "ledger_inv s h"
  have "yields (feature_step k fe op s) (\<lambda>s'. \<forall>c. s' = Some c \<longrightarrow> ledger_ok (table c))"
  proof (cases s)
    case (Some c)
    then have ok: "ledger_ok (table c)" using s by (simp add: ledger_inv_def)
    then show ?thesis
      using evaluate_ledger [OF ok]
      by (cases op) (auto simp: feature_step_def Some set_feature_enabled_def set_override_profile_def
          intro!: yields_bind [OF rollback_empties])
  qed (simp add: feature_step_def)
  then show "wp (feature_step k fe op s) ledger_inv h"
    unfolding ledger_inv_def [abs_def] by (rule yields_wp)
qed

text \<open>C15. Whatever evaluations, switches, overrides and destructions run, in any order and on any system,
  the table holds at most 128 entries, one per process, and only headroom caps: a task moved to the
  idle class, slowed in its timers or pinned to a core complex is never recorded, so no release ever
  returns it.
\<close>

theorem feature_ledger_kept:
  "wp (io_for (\<lambda>_. True) (feature_step k fe) ops (Some (c\<lparr>cy_features := features_init\<rparr>))) ledger_inv h"
  by (rule feature_machine.run_inv) (simp add: ledger_inv_def features_init_def)

section \<open>Tasks that are left alone\<close>

lemma reads_some: "emits is_read_event (read_some k p n)"
  unfolding read_some_def read_small_file_def sys_read_file_def by (auto intro!: io_rules)

lemma reads_ticks: "emits is_read_event (read_proc_start_ticks k p)"
  unfolding read_proc_start_ticks_def by (auto intro!: io_rules reads_some)

lemma reads_same: "emits is_read_event (same_process k p t)"
  unfolding same_process_def by (auto intro!: io_rules reads_ticks)

lemma reads_walk: "emits is_read_event (user_app_walk k d p)"
proof (induction d arbitrary: p)
  case (Suc d)
  then show ?case
    unfolding user_app_walk.simps(2) read_proc_ppid_def Let_def by (auto intro!: io_rules reads_some)
qed (auto intro: io_ok_return)

lemma reads_tree: "emits is_read_event (is_user_app_tree k p)"
  unfolding is_user_app_tree_def by (auto intro!: io_rules reads_walk)

lemma headroom_off: "io_ok is_read_event (headroom_feature k Performance p c) (\<lambda>c'. c' = c)"
proof -
  have imm: "emits is_read_event (is_immune_process g k q)" for g q by (rule emits_shields) simp
  have cap: "io_ok is_read_event (cap_process k Performance p c) (\<lambda>c'. c' = c)"
    unfolding cap_process_def actuate_anti_starvation_cap_def sys_defs
    by (auto intro!: io_ok_bind_any emits_syscall io_ok_return)
  show ?thesis
    unfolding headroom_feature_def Let_def by (auto intro!: io_ok_bind_any [where m = "is_immune_process _ _ _"] imm cap io_ok_return)
qed

text \<open>C16. Nothing is done to a process of tier 0 or 3, to a process whose ancestry reaches a user
  application at that moment, or, in Performance, to any process but the desktop core (which is
  raised): the evaluation only reads and leaves every table, counter and setting as it was.
\<close>

theorem user_apps_left_alone:
  assumes "has_tier p CriticalImmune \<or> has_tier p UserInteractive \<or>
      fst (run_state (is_user_app_tree k (pp_pid p)) h) \<or> (eff = Performance \<and> \<not> has_tier p DesktopCore)"
  shows "\<exists>es. run_state (evaluate_process k hold eff p c) h = (c, es @ h) \<and> list_all is_read_event es"
proof -
  have calm: ?thesis if "io_ok is_read_event (evaluate_process k hold eff p c) (\<lambda>c'. c' = c)"
    using that unfolding io_ok_def by (metis prod.collapse)
  show ?thesis
  proof (cases "pp_pid p \<le> 1 \<or> has_tier p UserInteractive")
    case True
    then show ?thesis by (auto simp: evaluate_process_def)
  next
    case False
    obtain u h' where run: "run_state (is_user_app_tree k (pp_pid p)) h = (u, h')"
      by (cases "run_state (is_user_app_tree k (pp_pid p)) h")
    obtain es where es: "h' = es @ h" "list_all is_read_event es"
      using io_okD(1) [OF reads_tree run] by blast
    show ?thesis
    proof (cases u)
      case True
      then show ?thesis using False run es by (simp add: evaluate_process_def)
    next
      case u: False
      then have "has_tier p CriticalImmune \<or> (eff = Performance \<and> \<not> has_tier p DesktopCore)"
        using assms run False by auto
      then have "io_ok is_read_event (evaluate_process k hold eff p c) (\<lambda>c'. c' = c)"
        unfolding evaluate_process_def Let_def using False
        by (auto intro!: io_ok_bind_any [where m = "is_user_app_tree _ _"] reads_tree io_ok_return headroom_off)
      then show ?thesis by (rule calm)
    qed
  qed
qed

theorem user_apps_left_alone_witness:
  "\<exists>es. run_state (evaluate_process quiet_kernel False UltraEndurance (example_proc 500 ''firefox'' UserInteractive 900000)
      \<lparr>cy_engine = example_engine, cy_features = features_init, cy_watch = watchdog_init, cy_status = status_init\<rparr>) [] =
     (\<lparr>cy_engine = example_engine, cy_features = features_init, cy_watch = watchdog_init, cy_status = status_init\<rparr>, es @ []) \<and>
     list_all is_read_event es"
  by (rule user_apps_left_alone) (simp add: example_proc_def)

section \<open>The ancestry walk\<close>

text \<open>
  On a process table that does not change during the walk: \<open>parent\<close> and \<open>app_name\<close> are what the files
  say.
\<close>

definition parent_in :: "kernel \<Rightarrow> pid \<Rightarrow> pid" where
  "parent_in k p = (if p \<le> 1 then 0 else
     case k_read_file k [] (proc_path p ''stat'') 511 of None \<Rightarrow> 0
     | Some s \<Rightarrow> if take 511 s = [] then 0 else ppid_of (c_str (take 511 s)))"

definition name_in :: "kernel \<Rightarrow> pid \<Rightarrow> string option" where
  "name_in k p = (case k_read_file k [] (proc_path p ''comm'') 62 of None \<Rightarrow> None
     | Some s \<Rightarrow> if take 62 s = [] then None else Some (rstrip_nl (take 62 s)))"

definition static_files :: "kernel \<Rightarrow> bool" where
  "static_files k \<longleftrightarrow> (\<forall>h p n. k_read_file k h p n = k_read_file k [] p n)"

text \<open>An ancestor that is an application, and one the walk passes through.\<close>

definition is_app :: "kernel \<Rightarrow> pid \<Rightarrow> bool" where
  "is_app k p \<longleftrightarrow> 1 < p \<and> (\<exists>n. name_in k p = Some n \<and> tier_of n = UserInteractive)"

definition passes :: "kernel \<Rightarrow> pid \<Rightarrow> bool" where
  "passes k p \<longleftrightarrow> 1 < p \<and> (\<exists>n. name_in k p = Some n \<and> tier_of n \<le> DesktopShell \<and> n \<noteq> ''systemd'' \<and> n \<noteq> ''init'')"

definition ancestor :: "kernel \<Rightarrow> nat \<Rightarrow> pid \<Rightarrow> pid" where
  "ancestor k n p = (parent_in k ^^ n) p"

fun reaches_app :: "kernel \<Rightarrow> nat \<Rightarrow> pid \<Rightarrow> bool" where
  "reaches_app k 0 p \<longleftrightarrow> False"
| "reaches_app k (Suc d) p \<longleftrightarrow> is_app k (parent_in k p) \<or> (passes k (parent_in k p) \<and> reaches_app k d (parent_in k p))"

lemma reaches_app_iff:
  "reaches_app k d p \<longleftrightarrow> (\<exists>n. 1 \<le> n \<and> n \<le> d \<and> is_app k (ancestor k n p) \<and>
     (\<forall>m. 1 \<le> m \<and> m < n \<longrightarrow> passes k (ancestor k m p)))"
proof (induction d arbitrary: p)
  case (Suc d)
  have anc: "ancestor k (Suc m) p = ancestor k m (parent_in k p)" for m
    by (simp only: ancestor_def funpow_Suc_right o_apply)
  let ?q = "parent_in k p"
  have "(\<exists>n. 1 \<le> n \<and> n \<le> Suc d \<and> is_app k (ancestor k n p) \<and> (\<forall>m. 1 \<le> m \<and> m < n \<longrightarrow> passes k (ancestor k m p))) \<longleftrightarrow>
      (\<exists>n \<le> d. is_app k (ancestor k n ?q) \<and> (\<forall>m < n. passes k (ancestor k m ?q)))"
  proof
    assume "\<exists>n. 1 \<le> n \<and> n \<le> Suc d \<and> is_app k (ancestor k n p) \<and> (\<forall>m. 1 \<le> m \<and> m < n \<longrightarrow> passes k (ancestor k m p))"
    then obtain n where n: "1 \<le> n" "n \<le> Suc d" "is_app k (ancestor k n p)" "\<forall>m. 1 \<le> m \<and> m < n \<longrightarrow> passes k (ancestor k m p)"
      by blast
    then obtain n' where "n = Suc n'" by (cases n) auto
    then show "\<exists>n \<le> d. is_app k (ancestor k n ?q) \<and> (\<forall>m < n. passes k (ancestor k m ?q))"
      using n anc by (intro exI [of _ n']) (metis Suc_le_mono Suc_mono le_numeral_extra(4) One_nat_def Suc_leI zero_less_Suc)
  next
    assume "\<exists>n \<le> d. is_app k (ancestor k n ?q) \<and> (\<forall>m < n. passes k (ancestor k m ?q))"
    then obtain n where n: "n \<le> d" "is_app k (ancestor k n ?q)" "\<forall>m < n. passes k (ancestor k m ?q)" by blast
    have "passes k (ancestor k m p)" if "1 \<le> m \<and> m < Suc n" for m
      using that n(3) anc by (cases m) auto
    then show "\<exists>n. 1 \<le> n \<and> n \<le> Suc d \<and> is_app k (ancestor k n p) \<and> (\<forall>m. 1 \<le> m \<and> m < n \<longrightarrow> passes k (ancestor k m p))"
      using n(1,2) anc by (intro exI [of _ "Suc n"]) auto
  qed
  also have "\<dots> \<longleftrightarrow> is_app k ?q \<or> (passes k ?q \<and> (\<exists>n. 1 \<le> n \<and> n \<le> d \<and> is_app k (ancestor k n ?q) \<and>
      (\<forall>m. 1 \<le> m \<and> m < n \<longrightarrow> passes k (ancestor k m ?q))))"
  proof -
    have 0: "ancestor k 0 ?q = ?q" by (simp add: ancestor_def)
    have "(\<exists>n \<le> d. is_app k (ancestor k n ?q) \<and> (\<forall>m < n. passes k (ancestor k m ?q))) \<longleftrightarrow>
        is_app k ?q \<or> (\<exists>n. 1 \<le> n \<and> n \<le> d \<and> is_app k (ancestor k n ?q) \<and> (\<forall>m < n. passes k (ancestor k m ?q)))"
      using 0 by (metis One_nat_def Suc_leI le0 less_nat_zero_code neq0_conv)
    also have "\<dots> \<longleftrightarrow> is_app k ?q \<or> (passes k ?q \<and> (\<exists>n. 1 \<le> n \<and> n \<le> d \<and> is_app k (ancestor k n ?q) \<and>
        (\<forall>m. 1 \<le> m \<and> m < n \<longrightarrow> passes k (ancestor k m ?q))))"
      using 0 by (metis (no_types, lifting) One_nat_def Suc_leI Suc_le_eq neq0_conv)
    finally show ?thesis .
  qed
  finally show ?case using Suc.IH [of ?q] by simp
qed simp

lemma static_read_some:
  assumes "static_files k"
  shows "fst (run_state (read_some k p n) h) =
     (case k_read_file k [] p (n - 1) of None \<Rightarrow> None | Some s \<Rightarrow> if take (n - 1) s = [] then None else Some (take (n - 1) s))"
proof -
  have "k_read_file k h p (n - 1) = k_read_file k [] p (n - 1)" using assms unfolding static_files_def by blast
  then show ?thesis
    by (cases "k_read_file k [] p (n - 1)") (simp_all add: read_some_def read_small_file_def sys_read_file_def)
qed

lemma static_ppid: "static_files k \<Longrightarrow> fst (run_state (read_proc_ppid k p) h) = parent_in k p"
  using static_read_some [of k "proc_path p ''stat''" 512 h]
  by (cases "run_state (read_some k (proc_path p ''stat'') 512) h")
    (auto simp: read_proc_ppid_def parent_in_def split: option.splits)

lemma static_name:
  "static_files k \<Longrightarrow> map_option rstrip_nl (fst (run_state (read_some k (proc_path p ''comm'') 63) h)) = name_in k p"
  using static_read_some [of k "proc_path p ''comm''" 63 h] by (auto simp: name_in_def split: option.splits)

lemma tier_split: "t = BackgroundWorker \<or> t = RunawayCandidate \<or> t = UserInteractive \<or> t \<le> DesktopShell"
  by (cases t) (auto simp: less_eq_safety_tier_def)

lemma tier_low: "t \<le> DesktopShell \<Longrightarrow> t \<noteq> BackgroundWorker \<and> t \<noteq> RunawayCandidate \<and> t \<noteq> UserInteractive"
  by (cases t) (auto simp: less_eq_safety_tier_def)

lemma walk_reaches:
  assumes "static_files k"
  shows "fst (run_state (user_app_walk k d p) h) \<longleftrightarrow> reaches_app k d p"
proof (induction d arbitrary: p h)
  case (Suc d)
  obtain q h1 where q: "run_state (read_proc_ppid k p) h = (q, h1)" by (cases "run_state (read_proc_ppid k p) h")
  then have par: "parent_in k p = q" using static_ppid [OF assms, of p h] by simp
  obtain r h2 where r: "run_state (read_some k (proc_path q ''comm'') 63) h1 = (r, h2)"
    by (cases "run_state (read_some k (proc_path q ''comm'') 63) h1")
  then have name: "name_in k q = map_option rstrip_nl r" using static_name [OF assms, of q h1] by simp
  show ?case
  proof (cases "q \<le> 1 \<or> r = None")
    case True
    then show ?thesis using q r par name by (auto simp: is_app_def passes_def)
  next
    case False
    then obtain s where s: "r = Some s" by blast
    then show ?thesis
      using q r par name False Suc.IH tier_split [of "tier_of (rstrip_nl s)"] tier_low [of "tier_of (rstrip_nl s)"]
      by (auto simp: is_app_def passes_def Let_def)
  qed
qed simp

text \<open>While the process table stands still, the walk answers yes exactly when one of the first eight
  ancestors is a user application and every process between them is named, is no worker or runaway,
  and is not the session's or the system's init.
\<close>

theorem user_app_tree_meaning:
  assumes "static_files k"
  shows "fst (run_state (is_user_app_tree k p) h) \<longleftrightarrow>
    1 < p \<and> (\<exists>n. 1 \<le> n \<and> n \<le> 8 \<and> is_app k (ancestor k n p) \<and>
      (\<forall>m. 1 \<le> m \<and> m < n \<longrightarrow> passes k (ancestor k m p)))"
  using walk_reaches [OF assms] by (simp add: is_user_app_tree_def reaches_app_iff not_le)

text \<open>A renderer whose parent is the browser.\<close>

definition app_kernel :: kernel where
  "app_kernel = quiet_kernel\<lparr>k_read_file := (\<lambda>_ p _. if p = proc_path 500 ''stat'' then Some ''500 (Web Content) S 400 1''
     else if p = proc_path 400 ''comm'' then Some (''firefox'' @ [NL]) else None)\<rparr>"

theorem user_app_tree_meaning_witness: "fst (run_state (is_user_app_tree app_kernel 500) [])"
proof -
  have static: "static_files app_kernel" by (simp add: static_files_def app_kernel_def)
  have "parent_in app_kernel 500 = 400" by code_simp
  moreover have "is_app app_kernel 400"
  proof -
    have "name_in app_kernel 400 = Some ''firefox''" "tier_of ''firefox'' = UserInteractive" by code_simp+
    then show ?thesis by (simp add: is_app_def)
  qed
  ultimately show ?thesis
    by (subst user_app_tree_meaning [OF static]) (auto intro!: exI [of _ 1] simp: ancestor_def)
qed

end
