(* ===== verification/Feature_Release.thy ===== *)
theory Feature_Release
  imports Feature_Ledger
begin

text \<open>
  How the feature manager gives back what it took: the identity of a task, the release of the table
  on a profile change and at the end, and the status line the identity is read from.
\<close>

section \<open>Releasing a cap\<close>

text \<open>The start time that the task's status shows, and whether it is still the recorded task.\<close>

definition ticks_at :: "kernel \<Rightarrow> history \<Rightarrow> pid \<Rightarrow> u64" where
  "ticks_at k h p = (case k_read_file k h (proc_path p ''stat'') 511 of None \<Rightarrow> 0
     | Some s \<Rightarrow> if take 511 s = [] then 0 else start_ticks_of (c_str (take 511 s)))"

definition recycled :: "kernel \<Rightarrow> tracked \<Rightarrow> bool" where
  "recycled k tm \<longleftrightarrow> tm_start_ticks tm = 0 \<or> (\<forall>h. ticks_at k h (tm_pid tm) \<noteq> tm_start_ticks tm)"

definition alive :: "kernel \<Rightarrow> tracked \<Rightarrow> bool" where
  "alive k tm \<longleftrightarrow> 1 < tm_pid tm \<and> tm_start_ticks tm \<noteq> 0 \<and> (\<forall>h. ticks_at k h (tm_pid tm) = tm_start_ticks tm)"

lemma run_ticks: "0 < p \<Longrightarrow> fst (run_state (read_proc_start_ticks k p) h) = ticks_at k h p"
  by (cases "k_read_file k h (proc_path p ''stat'') 511")
    (simp_all add: read_proc_start_ticks_def read_some_def read_small_file_def sys_read_file_def ticks_at_def)

lemma recycled_check: "recycled k tm \<Longrightarrow> io_ok is_read_event (same_process k (tm_pid tm) (tm_start_ticks tm)) (\<lambda>b. \<not> b)"
proof (cases "tm_pid tm \<le> 1 \<or> tm_start_ticks tm = 0")
  case False
  assume "recycled k tm"
  then have "io_ok is_read_event (read_proc_start_ticks k (tm_pid tm)) (\<lambda>t. t \<noteq> tm_start_ticks tm)"
    using reads_ticks [of k "tm_pid tm"] run_ticks [of "tm_pid tm" k] False by (auto simp: io_ok_def recycled_def)
  then show ?thesis
    using False unfolding same_process_def by (auto intro!: io_ok_bind [where R = "\<lambda>t. t \<noteq> tm_start_ticks tm"] io_ok_return)
qed (auto simp: same_process_def intro: io_ok_return)

lemma alive_check: "alive k tm \<Longrightarrow> io_ok is_read_event (same_process k (tm_pid tm) (tm_start_ticks tm)) (\<lambda>b. b)"
proof -
  assume a: "alive k tm"
  then have "io_ok is_read_event (read_proc_start_ticks k (tm_pid tm)) (\<lambda>t. t = tm_start_ticks tm)"
    using reads_ticks [of k "tm_pid tm"] run_ticks [of "tm_pid tm" k] by (auto simp: io_ok_def alive_def)
  then show ?thesis
    using a unfolding same_process_def alive_def
    by (auto intro!: io_ok_bind [where R = "\<lambda>t. t = tm_start_ticks tm"] io_ok_return)
qed

lemma recycled_release:
  "recycled k tm \<Longrightarrow> emits is_read_event (rollback_one g k tm)" "recycled k tm \<Longrightarrow> emits is_read_event (release_capped g k tm)"
  unfolding rollback_one_def release_capped_def
  by (auto intro!: io_ok_return io_ok_bind [OF recycled_check] simp: io_when_def)

lemma recycled_rollback:
  assumes "\<forall>tm \<in> set (ft_tracked s). recycled k tm"
  shows "io_ok is_read_event (rollback_all_tracked g k s) (\<lambda>s'. ft_tracked s' = [])"
  unfolding rollback_all_tracked_def
  by (rule io_ok_bind_any, rule emits_for) (use assms in \<open>auto intro!: recycled_release io_ok_return\<close>)

text \<open>C17. A task whose number now belongs to another process (its start time is not the recorded one, or
  none was recorded) is never restored: releasing the whole table then only reads, and so does the
  release of a single cap whose load has subsided.
\<close>

theorem recycled_tasks_left_alone:
  assumes "\<forall>tm \<in> set (ft_tracked s). recycled k tm"
  shows "io_ok is_read_event (rollback_all_tracked g k s) (\<lambda>s'. ft_tracked s' = []) \<and>
    (\<forall>greedy. emits is_read_event (deescalate g k greedy 0 (ft_tracked s)))"
proof -
  have sub: "set (swap_remove i tms) \<subseteq> set tms" if "i < length tms" for i :: nat and tms :: "tracked list"
    using mset_swap_remove [OF that] by (metis set_mset_mset set_mset_add_mset_insert subset_insertI)
  have "\<forall>tm \<in> set tms. recycled k tm \<Longrightarrow> emits is_read_event (deescalate g k greedy i tms)" for greedy i tms
  proof (induction g k greedy i tms rule: deescalate.induct)
    case (1 g k greedy i tms)
    show ?case
    proof (cases "length tms \<le> i")
      case False
      then have "\<forall>tm \<in> set (swap_remove i tms). recycled k tm" "recycled k (tms ! i)" using sub [of i tms] 1(3) by auto
      then show ?thesis
        using False 1 by (subst deescalate.simps) (auto intro!: io_ok_bind_any recycled_release(2))
    qed (subst deescalate.simps, auto intro: io_ok_return)
  qed
  then show ?thesis using recycled_rollback assms by blast
qed

definition example_tracked :: tracked where
  "example_tracked = \<lparr>tm_pid = 500, tm_start_ticks = 77, tm_comm = ''cc1'', tm_feature = AntiStarvationHeadroom,
     tm_timestamp = 3, tm_nice = 0, tm_policy = 0, tm_slack = 50000, tm_affinity = {0..<8}\<rparr>"

theorem recycled_tasks_left_alone_witness:
  "io_ok is_read_event (rollback_all_tracked (en_globals example_engine) quiet_kernel
     (features_init\<lparr>ft_tracked := [example_tracked]\<rparr>)) (\<lambda>s'. ft_tracked s' = [])"
  by (rule conjunct1 [OF recycled_tasks_left_alone])
    (simp add: recycled_def ticks_at_def example_tracked_def quiet_kernel_def)

definition saved_mask :: "kernel \<Rightarrow> tracked \<Rightarrow> nat set" where
  "saved_mask k tm = (if tm_affinity tm = {} then all_cores_cpuset k else tm_affinity tm)"

text \<open>What releasing the table may do: masks are the saved ones, and no CPU quota is written.\<close>

definition rollback_event :: "kernel \<Rightarrow> features \<Rightarrow> event \<Rightarrow> bool" where
  "rollback_event k s e \<longleftrightarrow>
     (case e of EvSetAffinity p cs ok \<Rightarrow> (\<exists>tm \<in> set (ft_tracked s). tm_pid tm = p \<and> cs = saved_mask k tm)
      | EvOpenWrite path ok \<Rightarrow> ends_with path ''/timerslack_ns'' \<or> ends_with path ''/cgroup.freeze''
      | EvWrite path d n \<Rightarrow> ends_with path ''/timerslack_ns'' \<or> (ends_with path ''/cgroup.freeze'' \<and> d = ''0'' @ [NL])
      | _ \<Rightarrow> actuator_event e)"

lemma rollback_event_simps [simp]:
  "is_read_event e \<Longrightarrow> rollback_event k s e" "rollback_event k s (EvSetScheduler p pol ok)" "rollback_event k s (EvSetPriority p n)"
  "rollback_event k s (EvIoPrio p c d ok)"
  by (cases e) (auto simp: rollback_event_def)

lemma rollback_events: "tm \<in> set (ft_tracked s) \<Longrightarrow> emits (rollback_event k s) (rollback_one g k tm)"
proof -
  assume tm: "tm \<in> set (ft_tracked s)"
  have reads: "emits (rollback_event k s) (same_process k p t)" for p t
    by (rule io_ok_mono [OF reads_same]) auto
  have freeze: "emits (rollback_event k s) (actuate_cgroup_freeze g k p False)" for p
    unfolding actuate_cgroup_freeze_def apply_cgroup_freeze_def sys_write_def
    by (auto simp: unless_shielded.simps intro!: io_ok_return emits_with_cgroup_file io_ok_bind_any emits_syscall)
      (auto simp: rollback_event_def ends_with_iff)
  have normal: "emits (rollback_event k s) (restore_sched_normal g k p pol n)" for p pol n
    unfolding restore_sched_normal_def task_ids_def sys_defs hw_defs Let_def
    by (auto intro!: io_rules)
  have slack: "emits (rollback_event k s) (apply_timer_slack g k p ns)" for p ns
  proof -
    have "ends_with (proc_path p ''timerslack_ns'') ''/timerslack_ns''"
      unfolding ends_with_iff proc_path_def by (intro exI [of _ "''/proc/'' @ show_int p"]) simp
    then have "emits (rollback_event k s) (write_file g k (proc_path p ''timerslack_ns'') d)" for d
      by (intro emits_write_file) (simp_all add: rollback_event_def)
    then show ?thesis
      unfolding apply_timer_slack_def by (auto intro!: io_ok_return emits_unless_shielded emits_shields split: if_splits)
  qed
  have mask: "emits (rollback_event k s) (restore_process_affinity g k (tm_pid tm) (tm_affinity tm))"
    unfolding restore_process_affinity_def hw_defs sys_defs
    using tm by (auto intro!: io_rules bexI [of _ tm] simp: rollback_event_def saved_mask_def)
  show ?thesis
    unfolding rollback_one_def by (intro io_rules reads freeze normal slack mask TrueI)
qed

lemma does_rollback_one:
  assumes "\<not> gl_sandbox g" "alive k tm"
  shows "does (\<lambda>e. \<exists>ok. e = EvSetAffinity (tm_pid tm) (saved_mask k tm) ok) (rollback_one g k tm)"
    and "does (\<lambda>e. \<exists>ok. e = EvSetScheduler (tm_pid tm) (policy_of (max 0 (tm_policy tm))) ok) (rollback_one g k tm)"
    and "does (\<lambda>e. e = EvSetPriority (tm_pid tm) (tm_nice tm)) (rollback_one g k tm)"
proof -
  have pid: "\<not> tm_pid tm \<le> 1" using assms(2) by (simp add: alive_def)
  have same: "io_ok (\<lambda>_. True) (same_process k (tm_pid tm) (tm_start_ticks tm)) (\<lambda>b. b)"
    by (rule io_ok_mono [OF alive_check [OF assms(2)]]) auto
  have ext: "emits (\<lambda>_. True) (actuate_cgroup_freeze g k p b)" "emits (\<lambda>_. True) (restore_sched_normal g k p pol n)"
    "emits (\<lambda>_. True) (apply_timer_slack g k p ns)" "emits (\<lambda>_. True) (restore_process_affinity g k p cs)" for p b pol n ns cs
    unfolding actuate_cgroup_freeze_def by (auto intro: emits_actuators emits_cgroup_freeze)
  have mask: "does (\<lambda>e. \<exists>ok. e = EvSetAffinity (tm_pid tm) (saved_mask k tm) ok)
      (restore_process_affinity g k (tm_pid tm) (tm_affinity tm))"
    using assms(1) pid by (auto simp: restore_process_affinity_def hw_sched_setaffinity_def sys_setaffinity_def saved_mask_def
        intro!: does_syscall)
  have pol: "policy_of (max 0 i) = policy_of (if 0 \<le> i then i else 0)" for i :: int by (simp add: max_def)
  have rest: "emits (\<lambda>_. True) (task_ids k p \<bind> (\<lambda>ts. f ts))" if "\<And>ts. emits (\<lambda>_. True) (f ts)" for p f
    using that by (auto intro!: io_ok_bind_any emits_task_ids)
  have tail: "emits (\<lambda>_. True) (case ts of None \<Rightarrow> return_io () | Some tids \<Rightarrow> io_for (\<lambda>_. True)
        (\<lambda>t _. do { hw_sched_setscheduler g k t pl; hw_setpriority g k t n }) tids ())" for ts pl n
    by (auto intro!: io_rules emits_hw)
  have sched: "does (\<lambda>e. \<exists>ok. e = EvSetScheduler (tm_pid tm) (policy_of (max 0 (tm_policy tm))) ok)
      (restore_sched_normal g k (tm_pid tm) (tm_policy tm) (tm_nice tm))"
    unfolding restore_sched_normal_def Let_def pol if_not_P [OF pid]
    by (rule does_bind_any, rule emits_hw, rule TrueI, rule does_first)
      (auto intro!: does_syscall emits_hw rest io_ok_bind_any tail io_ok_return
        simp: hw_sched_setscheduler_def sys_setscheduler_def assms(1))
  have prio: "does (\<lambda>e. e = EvSetPriority (tm_pid tm) (tm_nice tm)) (restore_sched_normal g k (tm_pid tm) (tm_policy tm) (tm_nice tm))"
    unfolding restore_sched_normal_def Let_def using assms(1) pid
    by (auto intro!: does_first emits_hw rest io_ok_bind_any tail io_ok_return does_syscall simp: hw_setpriority_def sys_setpriority_def)
  show "does (\<lambda>e. \<exists>ok. e = EvSetAffinity (tm_pid tm) (saved_mask k tm) ok) (rollback_one g k tm)"
    unfolding rollback_one_def using pid
    by (simp, intro does_then [OF same]) (auto intro!: does_bind_any [OF ext(1)] does_bind_any [OF ext(2)]
        does_bind_any [OF ext(3)] does_first [OF mask] io_ok_return)
  show "does (\<lambda>e. \<exists>ok. e = EvSetScheduler (tm_pid tm) (policy_of (max 0 (tm_policy tm))) ok) (rollback_one g k tm)"
    unfolding rollback_one_def using pid
    by (simp, intro does_then [OF same]) (auto intro!: does_bind_any [OF ext(1)] does_first [OF sched] io_ok_bind_any ext io_ok_return)
  show "does (\<lambda>e. e = EvSetPriority (tm_pid tm) (tm_nice tm)) (rollback_one g k tm)"
    unfolding rollback_one_def using pid
    by (simp, intro does_then [OF same]) (auto intro!: does_bind_any [OF ext(1)] does_first [OF prio] io_ok_bind_any ext io_ok_return)
qed

lemma does_rollback:
  assumes "tm \<in> set (ft_tracked s)" "does P (rollback_one g k tm)"
  shows "does P (rollback_all_tracked g k s)"
proof -
  have "emits (\<lambda>_. True) (rollback_one g k x)" for x
  proof -
    have "x \<in> set (ft_tracked (s\<lparr>ft_tracked := [x]\<rparr>))" by simp
    from io_ok_mono [OF rollback_events [OF this, of k g]] show ?thesis by simp
  qed
  then show ?thesis
    unfolding rollback_all_tracked_def
    by (intro does_first does_for [OF assms(1)]) (auto intro: assms(2) io_ok_return)
qed

lemma rollback_all_events: "io_ok (rollback_event k s) (rollback_all_tracked g k s) (\<lambda>s'. ft_tracked s' = [])"
  unfolding rollback_all_tracked_def
  by (rule io_ok_bind_any, rule emits_for, rule rollback_events) (auto intro: io_ok_return)

text \<open>C18. Releasing the table: every task that is still the recorded process gets its saved affinity mask
  (all processors when none was saved), its scheduling class and its nice value back, no task gets a
  mask that was not saved for it, and the table is empty afterwards.  The CPU quota that UltraEndurance
  sets is not lifted, because nothing but timer slack and freezer files is written.
\<close>

theorem rollback_gives_back:
  assumes "\<not> gl_sandbox g" "tm \<in> set (ft_tracked s)" "alive k tm"
  shows "does (\<lambda>e. \<exists>ok. e = EvSetAffinity (tm_pid tm) (saved_mask k tm) ok) (rollback_all_tracked g k s) \<and>
    does (\<lambda>e. \<exists>ok. e = EvSetScheduler (tm_pid tm) (policy_of (max 0 (tm_policy tm))) ok) (rollback_all_tracked g k s) \<and>
    does (\<lambda>e. e = EvSetPriority (tm_pid tm) (tm_nice tm)) (rollback_all_tracked g k s) \<and>
    io_ok (rollback_event k s) (rollback_all_tracked g k s) (\<lambda>s'. ft_tracked s' = [])"
  using does_rollback [OF assms(2)] does_rollback_one [OF assms(1,3)] rollback_all_events by blast

text \<open>A system on which the task's status shows the recorded start time.\<close>

definition living_kernel :: kernel where
  "living_kernel = quiet_kernel\<lparr>k_read_file := (\<lambda>_ p _. if p = proc_path 500 ''stat''
     then Some ''500 (cc1) R 9 500 500 0 -1 0 0 0 0 0 5 1 0 0 20 0 1 0 77 1000'' else None)\<rparr>"

theorem rollback_gives_back_witness:
  "does (\<lambda>e. \<exists>ok. e = EvSetAffinity 500 {0..<8} ok) (rollback_all_tracked (en_globals example_engine) living_kernel
     (features_init\<lparr>ft_tracked := [example_tracked]\<rparr>))"
proof -
  have "alive living_kernel example_tracked"
    unfolding alive_def ticks_at_def living_kernel_def example_tracked_def by simp code_simp
  then show ?thesis
    using rollback_gives_back [of "en_globals example_engine" example_tracked
        "features_init\<lparr>ft_tracked := [example_tracked]\<rparr>" living_kernel]
    by (simp add: example_engine_def saved_mask_def example_tracked_def)
qed

text \<open>A change of the effective profile releases every task the old profile capped before the new
  profile decides anything: each live one gets its mask and class back, and the table is empty.
\<close>

theorem profile_change_releases:
  assumes "\<not> gl_sandbox (cy_globals c)" "ft_last_profile (cy_features c) = Some old" "old \<noteq> eff"
    and "tm \<in> set (table c)" "alive k tm"
  shows "does (\<lambda>e. \<exists>ok. e = EvSetAffinity (tm_pid tm) (saved_mask k tm) ok) (change_profile k eff c) \<and>
    does (\<lambda>e. \<exists>ok. e = EvSetScheduler (tm_pid tm) (policy_of (max 0 (tm_policy tm))) ok) (change_profile k eff c) \<and>
    yields (change_profile k eff c) (\<lambda>c'. table c' = [] \<and> ft_last_profile (cy_features c') = Some eff)"
proof -
  have unth: "unthrottle g k 0 [] = return_io []" for g by (subst unthrottle.simps) simp
  have change: "change_profile k eff c = rollback_all_tracked (cy_globals c) k (cy_features c) \<bind>
      (\<lambda>s. (if eff = Performance then unthrottle (cy_globals c) k 0 (ft_tracked s) else return_io (ft_tracked s)) \<bind>
        (\<lambda>tms. return_io (c\<lparr>cy_features := s\<lparr>ft_last_profile := Some eff, ft_tracked := tms\<rparr>\<rparr>)))"
    using assms(2,3) by (simp add: change_profile_def Let_def cong: if_cong)
  have does: "does P (change_profile k eff c)" if P: "does P (rollback_one (cy_globals c) k tm)" for P
    unfolding change
    by (rule does_first_when [OF does_rollback [OF assms(4) P] rollback_empties]) (auto simp: unth intro: io_ok_return)
  have "yields (change_profile k eff c) (\<lambda>c'. table c' = [] \<and> ft_last_profile (cy_features c') = Some eff)"
    unfolding change by (rule yields_bind [OF rollback_empties]) (auto simp: unth)
  then show ?thesis using does does_rollback_one(1,2) [OF assms(1,5)] by blast
qed

definition example_cycle :: "power_profile option \<Rightarrow> tracked list \<Rightarrow> cycle" where
  "example_cycle old tms = \<lparr>cy_engine = example_engine, cy_features = features_init\<lparr>ft_tracked := tms, ft_last_profile := old\<rparr>,
     cy_watch = watchdog_init, cy_status = status_init\<rparr>"

theorem profile_change_releases_witness:
  "yields (change_profile living_kernel Performance (example_cycle (Some UltraEndurance) [example_tracked]))
     (\<lambda>c'. table c' = [] \<and> ft_last_profile (cy_features c') = Some Performance)"
proof -
  have "alive living_kernel example_tracked"
    unfolding alive_def ticks_at_def living_kernel_def example_tracked_def by simp code_simp
  then show ?thesis
    using profile_change_releases [of "example_cycle (Some UltraEndurance) [example_tracked]" UltraEndurance Performance
        example_tracked living_kernel]
    by (simp add: example_cycle_def example_engine_def)
qed

section \<open>The sandbox\<close>

text \<open>Pinning a task to a core complex does not ask the sandbox: with the feature enabled, a
  migrating task of the report gets its affinity changed whether the sandbox is on or off.
\<close>

theorem ccx_pinning_ignores_sandbox:
  assumes "is_feature_enabled ZenCcxAffinityPinning (cy_features c)" "pp_cross_ccx p" "0 \<le> pp_cpu_core p" "1 < pp_pid p"
  shows "does (\<lambda>e. \<exists>cs ok. e = EvSetAffinity (pp_pid p) cs ok) (ccx_feature k p c)"
proof -
  have ext: "emits (\<lambda>_. True) (get_cluster_topology k cache)" for cache
    unfolding get_cluster_topology_def detect_topology_def read_l3_clusters_def Let_def sys_read_file_def
    by (auto intro!: io_rules split: option.splits)
  have "does (\<lambda>e. \<exists>cs ok. e = EvSetAffinity (pp_pid p) cs ok) (actuate_ccx_affinity k (pp_pid p) (pp_cpu_core p) cache)" for cache
    using assms(3,4) unfolding actuate_ccx_affinity_def Let_def sys_setaffinity_def
    by (auto intro!: does_bind_any [OF ext] does_first io_ok_return does_syscall)
  then show ?thesis
    unfolding ccx_feature_def using assms by (auto intro!: does_first io_ok_return simp: Let_def)
qed

theorem ccx_pinning_ignores_sandbox_witness:
  "does (\<lambda>e. \<exists>cs ok. e = EvSetAffinity 500 cs ok) (ccx_feature quiet_kernel
     ((example_proc 500 ''cc1'' BackgroundWorker 1000)\<lparr>pp_cross_ccx := True, pp_cpu_core := 3\<rparr>)
     (example_cycle None []\<lparr>cy_engine := example_engine\<lparr>en_globals := (en_globals example_engine)\<lparr>gl_sandbox := True\<rparr>\<rparr>\<rparr>))"
  using ccx_pinning_ignores_sandbox [of "example_cycle None []\<lparr>cy_engine := example_engine\<lparr>en_globals :=
      (en_globals example_engine)\<lparr>gl_sandbox := True\<rparr>\<rparr>\<rparr>" "(example_proc 500 ''cc1'' BackgroundWorker 1000)\<lparr>pp_cross_ccx := True, pp_cpu_core := 3\<rparr>"
      quiet_kernel]
  by (simp add: example_cycle_def is_feature_enabled_def features_init_def default_enabled_def example_proc_def)

section \<open>The start time in a status line\<close>

text \<open>
  The line the kernel writes: the number, the task name in parentheses, the state, the parent, and
  more fields, each a word; the twentieth word after the name is the start time.
\<close>

definition stat_line :: "pid \<Rightarrow> string \<Rightarrow> string list \<Rightarrow> string" where
  "stat_line p comm ws = show_int p @ '' ('' @ comm @ CHR '')'' # concat (map (\<lambda>f. CHR '' '' # f) ws) @ [NL]"

definition is_word :: "string \<Rightarrow> bool" where
  "is_word f \<longleftrightarrow> f \<noteq> [] \<and> CHR '' '' \<notin> set f \<and> CHR '')'' \<notin> set f"

lemma after_comm_append: "CHR '')'' \<notin> set t \<Longrightarrow> after_comm (s @ CHR '')'' # t) = Some t"
proof -
  assume t: "CHR '')'' \<notin> set t"
  have "takeWhile (\<lambda>c. c \<noteq> CHR '')'') (rev t @ CHR '')'' # rev s) = rev t"
    using t by (subst takeWhile_append2) auto
  then show ?thesis by (simp add: after_comm_def)
qed

lemma skip_word_word: "is_word f \<Longrightarrow> t = [] \<or> hd t = CHR '' '' \<Longrightarrow> skip_word (f @ t) = t"
proof -
  assume "is_word f" "t = [] \<or> hd t = CHR '' ''"
  then have "skip_word (f @ t) = skip_word t" "skip_word t = t"
    by (auto simp: skip_word_def is_word_def intro!: dropWhile_append2, cases t, auto)
  then show ?thesis by simp
qed

lemma skip_sp_word: "is_word f \<Longrightarrow> skip_sp (CHR '' '' # f @ t) = f @ t"
  by (cases f) (auto simp: skip_sp_def is_word_def)

abbreviation spaced_words :: "string list \<Rightarrow> string" where
  "spaced_words ws \<equiv> concat (map (\<lambda>f. CHR '' '' # f) ws)"

lemma spaced_words_head: "rest = [] \<or> hd rest = CHR '' '' \<Longrightarrow> spaced_words ws @ rest = [] \<or> hd (spaced_words ws @ rest) = CHR '' ''"
  by (cases ws) auto

lemma skip_tokens_words:
  "list_all is_word ws \<Longrightarrow> rest = [] \<or> hd rest = CHR '' '' \<Longrightarrow>
   skip_tokens (length ws) (spaced_words ws @ rest) = Some rest"
proof (induction ws)
  case (Cons f fs)
  have f: "is_word f" using Cons.prems by simp
  have "skip_sp (spaced_words (f # fs) @ rest) = f @ spaced_words fs @ rest"
    using skip_sp_word [OF f, of "spaced_words fs @ rest"] by simp
  moreover have "skip_word (f @ spaced_words fs @ rest) = spaced_words fs @ rest"
    by (rule skip_word_word [OF f spaced_words_head [OF Cons.prems(2)]])
  ultimately show ?case using Cons f by (simp add: Let_def is_word_def)
qed simp

lemma strtoul_show_nat:
  "n < 2 ^ 64 \<Longrightarrow> s = [] \<or> \<not> is_digit (hd s) \<Longrightarrow> strtoul (show_nat n @ s) = (of_nat n, s)"
  using digits_front [OF list_all_show_nat show_nat_ne, of s n]
  by (simp add: strtoul_def digits_val_show_nat)

lemma is_word_show_nat: "is_word (show_nat n)"
proof -
  have "is_digit c" if "c \<in> set (show_nat n)" for c using that by (rule show_nat_digits)
  moreover have "\<not> is_digit (CHR '' '')" "\<not> is_digit (CHR '')'')" by (simp_all add: is_digit_def)
  ultimately show ?thesis by (auto simp: is_word_def)
qed

lemma start_ticks_word:
  assumes "after_comm s = Some (spaced_words ws @ CHR '' '' # show_nat ticks @ rest)" "list_all is_word ws" "length ws = 19"
    "ticks < 2 ^ 64" "rest = [] \<or> \<not> is_digit (hd rest)"
  shows "start_ticks_of s = of_nat ticks"
proof -
  have "skip_tokens 19 (spaced_words ws @ CHR '' '' # show_nat ticks @ rest) = Some (CHR '' '' # show_nat ticks @ rest)"
    using skip_tokens_words [OF assms(2), of "CHR '' '' # show_nat ticks @ rest"] assms(3) by simp
  then show ?thesis
    using skip_sp_word [OF is_word_show_nat, of ticks rest] strtoul_show_nat [OF assms(4,5)]
    by (simp add: start_ticks_of_def assms(1))
qed

lemma ppid_word:
  assumes "after_comm s = Some (CHR '' '' # state @ CHR '' '' # show_nat parent @ rest)" "is_word state"
    "1 < parent" "parent < 2 ^ 31 - 1" "rest = [] \<or> \<not> is_digit (hd rest)"
  shows "ppid_of s = int parent"
proof -
  have "skip_sp (skip_word (skip_sp (CHR '' '' # state @ CHR '' '' # show_nat parent @ rest))) = show_nat parent @ rest"
    using skip_sp_word [OF assms(2)] skip_word_word [OF assms(2), of "CHR '' '' # show_nat parent @ rest"]
      skip_sp_word [OF is_word_show_nat, of parent rest] by simp
  then show ?thesis
    using strtol_show_nat [of parent rest] assms(3-5) by (simp add: ppid_of_def assms(1) Let_def)
qed

lemma after_comm_line:
  assumes "list_all is_word ws"
  shows "after_comm (stat_line p comm ws) = Some (spaced_words ws @ [NL])"
proof -
  have "CHR '')'' \<notin> set (spaced_words ws @ [NL])"
    using assms by (induction ws) (auto simp: is_word_def)
  from after_comm_append [OF this, of "show_int p @ '' ('' @ comm"] show ?thesis
    unfolding stat_line_def by (simp only: append_assoc)
qed

text \<open>From the status line of a process, whatever its name holds (blanks and parentheses included),
  the parser recovers the parent's number and the start time.
\<close>

theorem status_line_recovers:
  assumes "list_all is_word (state # mid @ post)" "length mid = 17" "ticks < 2 ^ 64" "1 < parent" "parent < 2 ^ 31 - 1"
  shows "start_ticks_of (stat_line p comm (state # show_nat parent # mid @ show_nat ticks # post)) = of_nat ticks \<and>
    ppid_of (stat_line p comm (state # show_nat parent # mid @ show_nat ticks # post)) = int parent"
proof -
  let ?ws = "state # show_nat parent # mid @ show_nat ticks # post"
  have words: "list_all is_word ?ws" using assms(1) is_word_show_nat by simp
  have nodigit: "spaced_words ws @ [NL] = [] \<or> \<not> is_digit (hd (spaced_words ws @ [NL]))" for ws
    by (cases ws) (simp_all add: is_digit_def)
  have after: "after_comm (stat_line p comm ?ws) = Some (spaced_words ?ws @ [NL])"
    by (rule after_comm_line [OF words])
  have "start_ticks_of (stat_line p comm ?ws) = of_nat ticks"
  proof (rule start_ticks_word)
    show "after_comm (stat_line p comm ?ws) =
        Some (spaced_words (state # show_nat parent # mid) @ CHR '' '' # show_nat ticks @ spaced_words post @ [NL])"
      by (simp add: after)
  qed (use words assms nodigit in auto)
  moreover have "ppid_of (stat_line p comm ?ws) = int parent"
  proof (rule ppid_word)
    show "after_comm (stat_line p comm ?ws) =
        Some (CHR '' '' # state @ CHR '' '' # show_nat parent @ spaced_words (mid @ show_nat ticks # post) @ [NL])"
      by (simp add: after)
    show "spaced_words (mid @ show_nat ticks # post) @ [NL] = [] \<or>
        \<not> is_digit (hd (spaced_words (mid @ show_nat ticks # post) @ [NL]))" by (rule nodigit)
  qed (use words assms in auto)
  ultimately show ?thesis ..
qed

theorem status_line_recovers_witness:
  "ppid_of (stat_line 500 ''a) b (c'' (''S'' # show_nat 9 # replicate 17 ''0'' @ show_nat 77 # [''1''])) = int 9"
  by (rule conjunct2 [OF status_line_recovers]) (simp_all add: is_word_def list_all_iff)

end
