(* ===== verification/Window_Governor.thy ===== *)
theory Window_Governor
  imports Topology Machines
begin

text \<open>
  The latency request (\<^verbatim>\<open>src/policy/pm_qos_controller.cpp\<close>) and the governor of desktop windows
  (\<^verbatim>\<open>src/policy/window_aware_governor.cpp\<close>): minimized windows are slowed in two stages, the window
  in the foreground is given a guarantee, and both are taken back.  The topology of the processor
  is detected once and passed along.
\<close>

section \<open>The latency request\<close>

abbreviation "DMA_LATENCY \<equiv> ''/dev/cpu_dma_latency''"

text \<open>The state is whether the descriptor is open; the result tells whether four bytes were taken.\<close>

definition pin_c0_latency :: "kernel \<Rightarrow> int \<Rightarrow> bool \<Rightarrow> (bool \<times> bool) io" where
  "pin_c0_latency k max_us pinned =
     (if pinned then do { n \<leftarrow> sys_write k DMA_LATENCY (le_bytes32 max_us); return_io (n = 4, True) }
      else do {
        ok \<leftarrow> sys_open_fd k DMA_LATENCY;
        if \<not> ok then return_io (False, False)
        else do {
          n \<leftarrow> sys_write k DMA_LATENCY (le_bytes32 max_us);
          if n \<noteq> 4 then do { sys_close_fd DMA_LATENCY; return_io (False, False) }
          else return_io (True, True)
        }
      })"

definition release_latency_pin :: "bool \<Rightarrow> bool io" where
  "release_latency_pin pinned =
     (if pinned then do { sys_close_fd DMA_LATENCY; return_io False } else return_io False)"

section \<open>Windows\<close>

datatype suppression = ActiveForeground | C1_SoftCoalesced | C2_DeepIdleThrottled

record window =
  wn_pid :: pid
  wn_minimized_at :: u64
  wn_state :: suppression
  wn_audio :: bool
  wn_nice :: int
  wn_policy :: int
  wn_slack :: u64

record snapshot =
  sn_pid :: pid
  sn_nice :: int
  sn_policy :: int
  sn_affinity :: "nat set"
  sn_slack :: u64
  sn_original :: bool
  sn_active :: bool

abbreviation "MAX_TRACKED_WINDOWS \<equiv> (64 :: nat)"

definition snapshot_init :: snapshot where
  "snapshot_init = \<lparr>sn_pid = 0, sn_nice = 0, sn_policy = 0, sn_affinity = {}, sn_slack = 50000,
     sn_original = False, sn_active = False\<rparr>"

record governor =
  gv_windows :: "window list"
  gv_active :: snapshot
  gv_pinned :: bool
  gv_topology :: "topology option"

definition governor_init :: "topology option \<Rightarrow> governor" where
  "governor_init t = \<lparr>gv_windows = [], gv_active = snapshot_init, gv_pinned = False, gv_topology = t\<rparr>"

definition find_entry :: "pid \<Rightarrow> window list \<Rightarrow> window option" where
  "find_entry p ws = find (\<lambda>w. wn_pid w = p) ws"

text \<open>An assignment through the pointer that \<open>find_entry_mut\<close> returns.\<close>

fun update_entry :: "pid \<Rightarrow> (window \<Rightarrow> window) \<Rightarrow> window list \<Rightarrow> window list" where
  "update_entry p f [] = []"
| "update_entry p f (w # ws) = (if wn_pid w = p then f w # ws else w # update_entry p f ws)"

definition with_windows :: "(window list \<Rightarrow> window list) \<Rightarrow> governor \<Rightarrow> governor" where
  "with_windows f gv = gv\<lparr>gv_windows := f (gv_windows gv)\<rparr>"

definition c2_threshold_sec :: "power_profile \<Rightarrow> u64" where
  "c2_threshold_sec mode = (case mode of Performance \<Rightarrow> 600 | Balanced \<Rightarrow> 60 | _ \<Rightarrow> 0)"

text \<open>The process is the daemon itself, its parent, or no process at all.\<close>

definition is_own_process :: "kernel \<Rightarrow> pid \<Rightarrow> bool io" where
  "is_own_process k p =
     (if p \<le> 1 \<or> p = k_self k then return_io True
      else do { parent \<leftarrow> sys_getppid k; return_io (p = parent) })"

definition unthrottle_immediate :: "globals \<Rightarrow> kernel \<Rightarrow> pid \<Rightarrow> governor \<Rightarrow> (bool \<times> governor) io" where
  "unthrottle_immediate g k p gv =
     (case find_entry p (gv_windows gv) of
        None \<Rightarrow> return_io (False, gv)
      | Some w \<Rightarrow>
          if wn_state w = ActiveForeground then return_io (True, gv)
          else do {
            io_when (\<not> gl_sandbox g) (do {
              (if 0 \<le> wn_policy w
               then do { sys_setscheduler k p (policy_of (wn_policy w)); return_io () }
               else do { restore_sched_normal g k p 0 0; return_io () });
              sys_setpriority k p (wn_nice w);
              apply_timer_slack g k p (if 0 < wn_slack w then wn_slack w else 50000);
              return_io ()
            });
            return_io (True, with_windows (update_entry p (\<lambda>w. w\<lparr>wn_state := ActiveForeground\<rparr>)) gv)
          })"

section \<open>The foreground window\<close>

definition release_active_window :: "globals \<Rightarrow> kernel \<Rightarrow> governor \<Rightarrow> governor io" where
  "release_active_window g k gv =
     (let a = gv_active gv
      in if \<not> sn_active a then return_io gv
         else do {
           io_when (sn_original a \<and> 1 < sn_pid a \<and> \<not> gl_sandbox g) (do {
             sys_setpriority k (sn_pid a) (sn_nice a);
             sys_setscheduler k (sn_pid a) (policy_of (sn_policy a));
             sys_setaffinity k (sn_pid a) (sn_affinity a);
             apply_timer_slack g k (sn_pid a) (sn_slack a);
             return_io ()
           });
           pinned \<leftarrow> release_latency_pin (gv_pinned gv);
           return_io (gv\<lparr>gv_active := snapshot_init, gv_pinned := pinned\<rparr>)
         })"

definition read_slack :: "kernel \<Rightarrow> pid \<Rightarrow> u64 io" where
  "read_slack k p = do {
     r \<leftarrow> sys_read_file k (proc_path p ''timerslack_ns'') 31;
     return_io (case r of None \<Rightarrow> 50000 | Some s \<Rightarrow> if s = [] then 50000 else fst (strtoul (c_str s)))
   }"

text \<open>\<open>errno\<close> is looked at only after the last of these calls.\<close>

definition capture_snapshot :: "kernel \<Rightarrow> pid \<Rightarrow> snapshot io" where
  "capture_snapshot k p = do {
     nice \<leftarrow> sys_getpriority k p;
     pol \<leftarrow> sys_getscheduler k p;
     aff \<leftarrow> sys_getaffinity k p;
     slack \<leftarrow> read_slack k p;
     clear \<leftarrow> sys_errno_clear k;
     return_io \<lparr>sn_pid = p, sn_nice = (if clear then nice else 0), sn_policy = (if 0 \<le> pol then pol else 0),
       sn_affinity = (case aff of None \<Rightarrow> {} | Some cs \<Rightarrow> cs), sn_slack = (if 0 < slack then slack else 50000),
       sn_original = (aff \<noteq> None), sn_active = True\<rparr>
   }"

text \<open>The guarantee of the window with process \<open>p\<close>, once its former state is recorded.\<close>

definition elevate_window :: "globals \<Rightarrow> kernel \<Rightarrow> pid \<Rightarrow> governor \<Rightarrow> governor io" where
  "elevate_window g k p gv = do {
     let act = (\<not> gl_sandbox g);
     io_when act (sys_setpriority k p (- 10));
     (t, cache) \<leftarrow> get_cluster_topology k (gv_topology gv);
     io_when act (do { sys_setaffinity k p (tp_c1 t); apply_timer_slack g k p 10000; sys_ioprio_set k p 2 0; return_io () });
     pinned \<leftarrow> (if act then do { (_, b) \<leftarrow> pin_c0_latency k 0 (gv_pinned gv); return_io b }
                else return_io (gv_pinned gv));
     return_io (gv\<lparr>gv_topology := cache, gv_pinned := pinned\<rparr>)
   }"

definition engage_active_window :: "globals \<Rightarrow> kernel \<Rightarrow> pid \<Rightarrow> string \<Rightarrow> governor \<Rightarrow> (bool \<times> governor) io" where
  "engage_active_window g k p comm gv = do {
     own \<leftarrow> is_own_process k p;
     if own then return_io (False, gv)
     else if sn_active (gv_active gv) \<and> sn_pid (gv_active gv) = p
     then do {
       pinned \<leftarrow> (if gl_sandbox g then return_io (gv_pinned gv)
                  else do { (_, b) \<leftarrow> pin_c0_latency k 0 (gv_pinned gv); return_io b });
       return_io (True, gv\<lparr>gv_pinned := pinned\<rparr>)
     }
     else do {
       gv \<leftarrow> release_active_window g k gv;
       sn \<leftarrow> capture_snapshot k p;
       gv \<leftarrow> elevate_window g k p (gv\<lparr>gv_active := sn\<rparr>);
       (_, gv) \<leftarrow> unthrottle_immediate g k p gv;
       io_when (\<not> gl_sandbox g) (log_event (EvMitigation p (c_str comm) ''ACTIVE_WINDOW_C0_GUARANTEE''));
       return_io (True, gv)
     }
   }"

section \<open>Minimized windows\<close>

definition new_window :: "kernel \<Rightarrow> pid \<Rightarrow> u64 \<Rightarrow> bool \<Rightarrow> window io" where
  "new_window k p now_sec audio = do {
     nice \<leftarrow> sys_getpriority k p;
     pol \<leftarrow> sys_getscheduler k p;
     clear \<leftarrow> sys_errno_clear k;
     return_io \<lparr>wn_pid = p, wn_minimized_at = now_sec, wn_state = ActiveForeground, wn_audio = audio,
       wn_nice = (if clear then nice else 0), wn_policy = (if 0 \<le> pol then pol else 0), wn_slack = 50000\<rparr>
   }"

definition deep_throttle :: "globals \<Rightarrow> kernel \<Rightarrow> pid \<Rightarrow> unit io" where
  "deep_throttle g k p = io_when (\<not> gl_sandbox g)
     (do { apply_sched_idle g k p; apply_timer_slack g k p 1000000000; return_io () })"

text \<open>The stage that the profile asks for.\<close>

definition suppress_window :: "globals \<Rightarrow> kernel \<Rightarrow> power_profile \<Rightarrow> bool \<Rightarrow> window \<Rightarrow> window io" where
  "suppress_window g k mode audio w =
     (if c2_threshold_sec mode = 0 \<and> \<not> audio
      then if wn_state w \<noteq> C2_DeepIdleThrottled
           then do { deep_throttle g k (wn_pid w); return_io (w\<lparr>wn_state := C2_DeepIdleThrottled\<rparr>) }
           else return_io w
      else if wn_state w = ActiveForeground
           then do {
             io_when (\<not> gl_sandbox g) (do {
               sys_setpriority k (wn_pid w) (min 19 (wn_nice w + 10));
               apply_timer_slack g k (wn_pid w) 100000000; return_io () });
             return_io (w\<lparr>wn_state := C1_SoftCoalesced\<rparr>)
           }
           else return_io w)"

definition minimize_window ::
  "globals \<Rightarrow> kernel \<Rightarrow> pid \<Rightarrow> u64 \<Rightarrow> power_profile \<Rightarrow> bool \<Rightarrow> governor \<Rightarrow> governor io" where
  "minimize_window g k p now_sec mode audio gv =
     (case find_entry p (gv_windows gv) of
        None \<Rightarrow>
          if MAX_TRACKED_WINDOWS \<le> length (gv_windows gv) then return_io gv
          else do {
            w \<leftarrow> new_window k p now_sec audio;
            w \<leftarrow> suppress_window g k mode audio w;
            return_io (with_windows (\<lambda>ws. ws @ [w]) gv)
          }
      | Some w \<Rightarrow> do {
          w \<leftarrow> suppress_window g k mode audio (w\<lparr>wn_audio := audio, wn_minimized_at :=
                 (if wn_state w = ActiveForeground then now_sec else wn_minimized_at w)\<rparr>);
          return_io (with_windows (update_entry p (\<lambda>_. w)) gv)
        })"

definition on_window_state_changed ::
  "globals \<Rightarrow> kernel \<Rightarrow> pid \<Rightarrow> bool \<Rightarrow> bool \<Rightarrow> u64 \<Rightarrow> power_profile \<Rightarrow> bool \<Rightarrow> governor \<Rightarrow> governor io" where
  "on_window_state_changed g k p minimized active now_sec mode audio gv = do {
     own \<leftarrow> is_own_process k p;
     if own then return_io gv
     else if active then do { (_, gv) \<leftarrow> engage_active_window g k p [] gv; return_io gv }
     else do {
       gv \<leftarrow> (if sn_active (gv_active gv) \<and> sn_pid (gv_active gv) = p then release_active_window g k gv
              else return_io gv);
       if \<not> minimized then do { (_, gv) \<leftarrow> unthrottle_immediate g k p gv; return_io gv }
       else minimize_window g k p now_sec mode audio gv
     }
   }"

text \<open>A softly slowed window without audio goes to the deep stage after the profile's time.\<close>

definition may_escalate :: "u64 \<Rightarrow> power_profile \<Rightarrow> window \<Rightarrow> bool" where
  "may_escalate now_sec mode w \<longleftrightarrow>
     wn_state w = C1_SoftCoalesced \<and> \<not> wn_audio w \<and>
     wn_minimized_at w \<le> now_sec \<and> c2_threshold_sec mode \<le> now_sec - wn_minimized_at w"

definition escalate :: "globals \<Rightarrow> kernel \<Rightarrow> u64 \<Rightarrow> power_profile \<Rightarrow> window \<Rightarrow> window io" where
  "escalate g k now_sec mode w =
     (if may_escalate now_sec mode w
      then do { deep_throttle g k (wn_pid w); return_io (w\<lparr>wn_state := C2_DeepIdleThrottled\<rparr>) }
      else return_io w)"

definition evaluate_hysteresis :: "globals \<Rightarrow> kernel \<Rightarrow> u64 \<Rightarrow> power_profile \<Rightarrow> governor \<Rightarrow> governor io" where
  "evaluate_hysteresis g k now_sec mode gv = do {
     ws \<leftarrow> io_for (\<lambda>_. True) (\<lambda>w done_ws. do { w' \<leftarrow> escalate g k now_sec mode w; return_io (done_ws @ [w']) })
            (gv_windows gv) [];
     return_io (gv\<lparr>gv_windows := ws\<rparr>)
   }"

section \<open>Taking everything back\<close>

definition governor_rollback :: "globals \<Rightarrow> kernel \<Rightarrow> governor \<Rightarrow> governor io" where
  "governor_rollback g k gv = do {
     gv \<leftarrow> release_active_window g k gv;
     gv \<leftarrow> io_for (\<lambda>_. True) (\<lambda>p gv. do { (_, gv) \<leftarrow> unthrottle_immediate g k p gv; return_io gv })
             (map wn_pid (gv_windows gv)) gv;
     return_io (gv\<lparr>gv_windows := []\<rparr>)
   }"

end
