(* ===== verification/Window_Safety.thy ===== *)
theory Window_Safety
  imports Window_Governor Knob_Effects
begin

text \<open>
  The window governor over any sequence of window events: its table and its latency request, what
  it may do to the system, which windows it slows, and what it gives back.
\<close>

section \<open>The table\<close>

definition table_pids :: "governor \<Rightarrow> pid list" where
  "table_pids gv = map wn_pid (gv_windows gv)"

definition foreign :: "kernel \<Rightarrow> pid \<Rightarrow> bool" where
  "foreign k p \<longleftrightarrow> 1 < p \<and> p \<noteq> k_self k"

definition governor_ok :: "kernel \<Rightarrow> governor \<Rightarrow> bool" where
  "governor_ok k gv \<longleftrightarrow>
     length (gv_windows gv) \<le> MAX_TRACKED_WINDOWS \<and> distinct (table_pids gv) \<and>
     (\<forall>w \<in> set (gv_windows gv). foreign k (wn_pid w) \<and> 0 \<le> wn_policy w) \<and>
     (sn_active (gv_active gv) \<longrightarrow> foreign k (sn_pid (gv_active gv))) \<and>
     (gv_pinned gv \<longrightarrow> sn_active (gv_active gv))"

text \<open>
  What the governor may do.  It changes the class, the nice value, the processors and the timer slack
  of other processes and holds the latency request; nothing is stopped, killed, frozen or deleted.
\<close>

definition governor_event :: "kernel \<Rightarrow> event \<Rightarrow> bool" where
  "governor_event k e \<longleftrightarrow>
     (case e of EvSetScheduler p pol ok \<Rightarrow> foreign k p
      | EvSetPriority p n \<Rightarrow> foreign k p
      | EvSetAffinity p cs ok \<Rightarrow> foreign k p
      | EvIoPrio p c d ok \<Rightarrow> foreign k p
      | EvOpenWrite path ok \<Rightarrow> \<exists>p. foreign k p \<and> path = proc_path p ''timerslack_ns''
      | EvWrite path d n \<Rightarrow> path = DMA_LATENCY \<or> (\<exists>p. foreign k p \<and> path = proc_path p ''timerslack_ns'')
      | EvOpenFd path ok \<Rightarrow> path = DMA_LATENCY
      | EvCloseFd path \<Rightarrow> path = DMA_LATENCY
      | EvMitigation p c d \<Rightarrow> foreign k p
      | _ \<Rightarrow> is_read_event e)"

text \<open>Everything but opening and closing a descriptor.\<close>

definition fd_neutral :: "event \<Rightarrow> bool" where
  "fd_neutral e \<longleftrightarrow> (case e of EvOpenFd _ _ \<Rightarrow> False | EvCloseFd _ \<Rightarrow> False | _ \<Rightarrow> True)"

abbreviation gentle :: "kernel \<Rightarrow> event \<Rightarrow> bool" where
  "gentle k e \<equiv> governor_event k e \<and> fd_neutral e"

lemma gentle_simps [simp]:
  "is_read_event e \<Longrightarrow> governor_event k e" "is_read_event e \<Longrightarrow> fd_neutral e"
  by (cases e; simp add: governor_event_def fd_neutral_def)+

lemma gentle_actions:
  "foreign k p \<Longrightarrow> gentle k (EvSetScheduler p pol ok)" "foreign k p \<Longrightarrow> gentle k (EvSetPriority p n)"
  "foreign k p \<Longrightarrow> gentle k (EvSetAffinity p cs ok)" "foreign k p \<Longrightarrow> gentle k (EvIoPrio p c d ok)"
  "foreign k p \<Longrightarrow> gentle k (EvOpenWrite (proc_path p ''timerslack_ns'') ok)"
  "foreign k p \<Longrightarrow> gentle k (EvWrite (proc_path p ''timerslack_ns'') dat n)"
  "foreign k p \<Longrightarrow> gentle k (EvMitigation p cm ac)" "gentle k (EvWrite DMA_LATENCY dat n)"
  by (auto simp: governor_event_def fd_neutral_def)

section \<open>The effect of each operation\<close>

lemma gentle_slack: "foreign k p \<Longrightarrow> emits (gentle k) (apply_timer_slack g k p sl)"
  unfolding apply_timer_slack_def
  by (auto intro!: io_rules emits_unless_shielded emits_shields emits_write_file gentle_actions split: if_splits)

lemma gentle_idle: "foreign k p \<Longrightarrow> emits (gentle k) (apply_sched_idle g k p)"
  unfolding apply_sched_idle_def hw_defs sys_defs
  by (auto intro!: io_rules emits_unless_shielded emits_shields gentle_actions)

lemma gentle_deep: "foreign k p \<Longrightarrow> emits (gentle k) (deep_throttle g k p)"
  unfolding deep_throttle_def by (auto intro!: io_rules gentle_slack gentle_idle)

lemma gentle_topology: "emits (gentle k) (get_cluster_topology k cache)"
  by (rule io_ok_mono [OF emits_topology_reads]) auto

lemma own_process: "io_ok (gentle k) (is_own_process k p) (\<lambda>own. \<not> own \<longrightarrow> foreign k p)"
  unfolding is_own_process_def sys_getppid_def foreign_def by (auto intro!: io_rules io_ok_return)

lemma find_entryD: "find_entry p ws = Some w \<Longrightarrow> w \<in> set ws \<and> wn_pid w = p"
  by (auto simp: find_entry_def find_Some_iff)

lemma find_entry_None: "find_entry p ws = None \<longleftrightarrow> p \<notin> set (map wn_pid ws)"
  by (auto simp: find_entry_def find_None_iff)

lemma update_entry_pids: "(\<And>w. wn_pid w = p \<Longrightarrow> wn_pid (f w) = p) \<Longrightarrow> map wn_pid (update_entry p f ws) = map wn_pid ws"
  by (induction ws) auto

lemma update_entry_all:
  "\<forall>w \<in> set ws. P w \<Longrightarrow> (\<And>w. wn_pid w = p \<Longrightarrow> P w \<Longrightarrow> P (f w)) \<Longrightarrow> \<forall>w \<in> set (update_entry p f ws). P w"
  by (induction ws) auto

lemma length_update_entry [simp]: "length (update_entry p f ws) = length ws"
  by (induction ws) auto

text \<open>What a change of one window keeps.\<close>

lemma governor_ok_update:
  assumes "governor_ok k gv" "\<And>w. wn_pid w = p \<Longrightarrow> 0 \<le> wn_policy w \<Longrightarrow> wn_pid (f w) = p \<and> 0 \<le> wn_policy (f w)"
  shows "governor_ok k (with_windows (update_entry p f) gv)"
proof -
  have "table_pids (with_windows (update_entry p f) gv) = table_pids gv"
  proof -
    have "map wn_pid (update_entry p f ws) = map wn_pid ws" if "\<forall>w \<in> set ws. 0 \<le> wn_policy w" for ws
      using that assms(2) by (induction ws) auto
    then show ?thesis using assms(1) by (simp add: table_pids_def with_windows_def governor_ok_def)
  qed
  moreover have "\<forall>w \<in> set (update_entry p f (gv_windows gv)). foreign k (wn_pid w) \<and> 0 \<le> wn_policy w"
    by (rule update_entry_all) (use assms in \<open>auto simp: governor_ok_def\<close>)
  ultimately show ?thesis using assms(1) by (simp add: governor_ok_def with_windows_def)
qed

lemma unthrottle_ok:
  assumes "governor_ok k gv" "foreign k p"
  shows "io_ok (gentle k) (unthrottle_immediate g k p gv)
    (\<lambda>(_, gv'). governor_ok k gv' \<and> gv_pinned gv' = gv_pinned gv \<and> gv_active gv' = gv_active gv)"
proof (cases "find_entry p (gv_windows gv)")
  case (Some w)
  have w: "0 \<le> wn_policy w" using assms(1) find_entryD [OF Some] by (auto simp: governor_ok_def)
  have "governor_ok k (with_windows (update_entry p (\<lambda>w. w\<lparr>wn_state := ActiveForeground\<rparr>)) gv)"
    by (rule governor_ok_update [OF assms(1)]) auto
  then show ?thesis
    using assms w unfolding unthrottle_immediate_def Some sys_defs
    by (auto intro!: io_rules io_ok_return gentle_slack gentle_actions simp: with_windows_def)
qed (use assms in \<open>auto simp: unthrottle_immediate_def intro!: io_ok_return\<close>)

lemma snapshot_taken: "foreign k p \<Longrightarrow> io_ok (gentle k) (capture_snapshot k p) (\<lambda>sn. sn_active sn \<and> foreign k (sn_pid sn))"
  unfolding capture_snapshot_def read_slack_def sys_defs by (auto intro!: io_rules io_ok_return)

lemma suppress_ok:
  "foreign k (wn_pid w) \<Longrightarrow> 0 \<le> wn_policy w \<Longrightarrow>
   io_ok (gentle k) (suppress_window g k mode audio w) (\<lambda>w'. wn_pid w' = wn_pid w \<and> 0 \<le> wn_policy w')"
  unfolding suppress_window_def sys_defs
  by (auto intro!: io_rules io_ok_return gentle_slack gentle_deep gentle_actions)

lemma new_window_ok: "io_ok (gentle k) (new_window k p t a) (\<lambda>w. wn_pid w = p \<and> 0 \<le> wn_policy w)"
  unfolding new_window_def sys_defs by (auto intro!: io_rules io_ok_return)

lemma minimize_ok:
  assumes ok: "governor_ok k gv" and p: "foreign k p"
  shows "io_ok (gentle k) (minimize_window g k p t mode audio gv)
    (\<lambda>gv'. governor_ok k gv' \<and> gv_pinned gv' = gv_pinned gv)"
proof (cases "find_entry p (gv_windows gv)")
  case None
  have grown: "governor_ok k (with_windows (\<lambda>ws. ws @ [w]) gv)"
    if "wn_pid w = p" "0 \<le> wn_policy w" "length (gv_windows gv) < MAX_TRACKED_WINDOWS" for w
    using that ok p None by (auto simp: governor_ok_def with_windows_def table_pids_def find_entry_None)
  have "io_ok (gentle k) (suppress_window g k mode audio w \<bind> (\<lambda>w. return_io (with_windows (\<lambda>ws. ws @ [w]) gv)))
      (\<lambda>gv'. governor_ok k gv' \<and> gv_pinned gv' = gv_pinned gv)"
    if "wn_pid w = p \<and> 0 \<le> wn_policy w" "length (gv_windows gv) < MAX_TRACKED_WINDOWS" for w
    by (rule io_ok_bind [OF suppress_ok])
      (use that p grown in \<open>auto intro!: io_ok_return simp: with_windows_def\<close>)
  then show ?thesis
    using ok unfolding minimize_window_def None
    by (auto intro!: io_ok_return io_ok_bind [OF new_window_ok])
next
  case (Some w)
  have w: "wn_pid w = p" "0 \<le> wn_policy w" using ok find_entryD [OF Some] by (auto simp: governor_ok_def)
  have "governor_ok k (with_windows (update_entry p (\<lambda>_. w')) gv)" if "wn_pid w' = p" "0 \<le> wn_policy w'" for w'
    by (rule governor_ok_update [OF ok]) (use that in auto)
  then show ?thesis
    using w p unfolding minimize_window_def Some
    by (auto intro!: io_ok_return io_ok_bind [OF suppress_ok] simp: with_windows_def)
qed

text \<open>
  When a window is due for the deep stage, in seconds on the number line and without a word of the governor's own
  functions: ten minutes after it was minimized in Performance, one minute in Balanced, at once in the two saving
  profiles; never while it plays, and only from the soft stage.
\<close>

fun deep_after :: "power_profile \<Rightarrow> int" where
  "deep_after Performance = 600"
| "deep_after Balanced = 60"
| "deep_after PowerSaver = 0"
| "deep_after UltraEndurance = 0"

definition due :: "u64 \<Rightarrow> power_profile \<Rightarrow> window \<Rightarrow> bool" where
  "due t mode w \<longleftrightarrow> wn_state w = C1_SoftCoalesced \<and> \<not> wn_audio w \<and> uint (wn_minimized_at w) + deep_after mode \<le> uint t"

lemma threshold_value: "uint (c2_threshold_sec mode) = deep_after mode"
  by (cases mode) (simp_all add: c2_threshold_sec_def)

lemma may_escalate_due: "may_escalate t mode w \<longleftrightarrow> due t mode w"
proof (cases "wn_minimized_at w \<le> t")
  case True
  then have "uint (t - wn_minimized_at w) = uint t - uint (wn_minimized_at w)" by (simp add: uint_minus_simple_alt [THEN iffD1])
  with True show ?thesis
    by (auto simp: may_escalate_def due_def word_le_def threshold_value)
next
  case False
  moreover have "0 \<le> deep_after mode" by (cases mode) simp_all
  ultimately show ?thesis by (auto simp: may_escalate_def due_def word_le_def)
qed

definition escalated :: "u64 \<Rightarrow> power_profile \<Rightarrow> window \<Rightarrow> window" where
  "escalated t mode w = (if due t mode w then w\<lparr>wn_state := C2_DeepIdleThrottled\<rparr> else w)"

lemma escalated_same [simp]: "wn_pid (escalated t mode w) = wn_pid w" "wn_policy (escalated t mode w) = wn_policy w"
  "wn_pid \<circ> escalated t mode = wn_pid"
  by (auto simp: escalated_def)

lemma escalate_ok:
  "foreign k (wn_pid w) \<Longrightarrow>
   io_ok (gentle k) (escalate g k t mode w)
     (\<lambda>w'. w' = escalated t mode w)"
  unfolding escalate_def escalated_def may_escalate_due by (auto intro!: io_rules io_ok_return gentle_deep)

lemma for_map:
  assumes "\<And>w. w \<in> set ws \<Longrightarrow> io_ok P (f w) (\<lambda>w'. w' = h w)"
  shows "io_ok P (io_for (\<lambda>_. True) (\<lambda>w acc. do { w' \<leftarrow> f w; return_io (acc @ [w']) }) ws acc) (\<lambda>r. r = acc @ map h ws)"
  using assms
proof (induction ws arbitrary: acc)
  case Nil
  then show ?case by (auto intro: io_ok_return)
next
  case (Cons w ws)
  have tail: "io_ok P (io_for (\<lambda>_. True) (\<lambda>w acc. do { w' \<leftarrow> f w; return_io (acc @ [w']) }) ws (acc @ [h w]))
      (\<lambda>r. r = acc @ map h (w # ws))"
    using Cons.IH [of "acc @ [h w]"] Cons.prems by simp
  have "io_ok P (f w \<bind> (\<lambda>w'. return_io (acc @ [w']))) (\<lambda>r. r = acc @ [h w])"
    by (rule io_ok_bind [OF Cons.prems]) (auto intro: io_ok_return)
  then show ?case
    unfolding io_for.simps if_True by (rule io_ok_bind) (use tail in simp)
qed

section \<open>The latency request over a run\<close>

text \<open>Whether the descriptor of the latency request is open, as the history tells.\<close>

fun pin_held :: "history \<Rightarrow> bool" where
  "pin_held [] = False"
| "pin_held (e # h) = (case e of EvOpenFd path ok \<Rightarrow> (path = DMA_LATENCY \<and> ok) \<or> pin_held h
     | EvCloseFd path \<Rightarrow> path \<noteq> DMA_LATENCY \<and> pin_held h | _ \<Rightarrow> pin_held h)"

definition governor_inv :: "kernel \<Rightarrow> governor \<Rightarrow> history \<Rightarrow> bool" where
  "governor_inv k gv h \<longleftrightarrow> governor_ok k gv \<and> pin_held h = gv_pinned gv \<and> list_all (governor_event k) h"

definition pin_state :: "kernel \<Rightarrow> bool \<Rightarrow> history \<Rightarrow> bool" where
  "pin_state k b h \<longleftrightarrow> pin_held h = b \<and> list_all (governor_event k) h"

lemma governor_inv_iff: "governor_inv k gv h \<longleftrightarrow> governor_ok k gv \<and> pin_state k (gv_pinned gv) h"
  by (auto simp: governor_inv_def pin_state_def)

lemma gentle_keeps: "io_ok (gentle k) m R \<Longrightarrow> pin_state k b h \<Longrightarrow> wp m (\<lambda>x h'. R x \<and> pin_state k b h') h"
proof (rule wp_emits [where P = "gentle k"], assumption, assumption)
  fix e h assume "gentle k e" "pin_state k b h"
  then show "pin_state k b (e # h)" by (cases e) (auto simp: pin_state_def fd_neutral_def)
qed

lemma gentle_then:
  "io_ok (gentle k) m R \<Longrightarrow> pin_state k b h \<Longrightarrow> (\<And>x h'. R x \<Longrightarrow> pin_state k b h' \<Longrightarrow> wp (f x) Q h') \<Longrightarrow> wp (m \<bind> f) Q h"
  by (simp add: wp_bind) (rule wp_mono [OF gentle_keeps], assumption+, blast)

lemma release_pin: "pin_state k b h \<Longrightarrow> wp (release_latency_pin b) (\<lambda>b' h'. \<not> b' \<and> pin_state k False h') h"
  by (simp add: release_latency_pin_def sys_close_fd_def wp_simps pin_state_def governor_event_def)

lemma take_pin: "pin_state k b h \<Longrightarrow> wp (pin_c0_latency k us b) (\<lambda>(_, b') h'. pin_state k b' h') h"
  by (simp add: pin_c0_latency_def sys_defs wp_simps pin_state_def governor_event_def)

lemma snapshot_init_inactive [simp]: "\<not> sn_active snapshot_init"
  by (simp add: snapshot_init_def)

lemma release_keeps:
  assumes "governor_inv k gv h"
  shows "wp (release_active_window g k gv)
    (\<lambda>gv' h'. governor_inv k gv' h' \<and> \<not> sn_active (gv_active gv') \<and> gv_windows gv' = gv_windows gv) h"
proof (cases "sn_active (gv_active gv)")
  case True
  then have "foreign k (sn_pid (gv_active gv))" using assms by (simp add: governor_inv_def governor_ok_def)
  then have restore: "emits (gentle k) (io_when b (do {
      sys_setpriority k (sn_pid (gv_active gv)) n; sys_setscheduler k (sn_pid (gv_active gv)) pol;
      sys_setaffinity k (sn_pid (gv_active gv)) cs; apply_timer_slack g k (sn_pid (gv_active gv)) sl; return_io () }))" for b n pol cs sl
    unfolding sys_defs by (auto intro!: io_rules io_ok_return gentle_slack gentle_actions)
  have after: "governor_ok k (gv\<lparr>gv_active := snapshot_init, gv_pinned := b\<rparr>)" if "\<not> b" for b
    using assms that by (simp add: governor_inv_def governor_ok_def table_pids_def snapshot_init_def)
  show ?thesis
    unfolding release_active_window_def Let_def if_not_P [OF not_not [THEN iffD2, OF True]]
  proof (rule gentle_then [OF restore])
    show "pin_state k (gv_pinned gv) h" using assms by (simp add: governor_inv_iff)
    fix h' assume "pin_state k (gv_pinned gv) h'"
    then show "wp (do { pinned \<leftarrow> release_latency_pin (gv_pinned gv);
        return_io (gv\<lparr>gv_active := snapshot_init, gv_pinned := pinned\<rparr>) })
        (\<lambda>gv' h'. governor_inv k gv' h' \<and> \<not> sn_active (gv_active gv') \<and> gv_windows gv' = gv_windows gv) h'"
      unfolding wp_bind wp_return
      by (rule wp_mono [OF release_pin]) (auto simp: governor_inv_iff after)
  qed
qed (use assms in \<open>simp add: release_active_window_def wp_simps\<close>)

lemma elevate_keeps:
  assumes ok: "governor_ok k gv" and pin: "pin_state k (gv_pinned gv) h" and p: "foreign k p" and a: "sn_active (gv_active gv)"
  shows "wp (elevate_window g k p gv) (\<lambda>gv' h'. governor_inv k gv' h' \<and> gv_active gv' = gv_active gv \<and>
    gv_windows gv' = gv_windows gv) h"
proof -
  have e1: "emits (gentle k) (io_when b (sys_setpriority k p n))" for b n
    unfolding sys_defs using p by (auto intro!: io_rules gentle_actions)
  have e2: "emits (gentle k) (io_when b (do { sys_setaffinity k p cs; apply_timer_slack g k p 10000; sys_ioprio_set k p 2 0; return_io () }))" for b cs
    unfolding sys_defs using p by (auto intro!: io_rules io_ok_return gentle_slack gentle_actions)
  have new: "governor_ok k (gv\<lparr>gv_topology := c, gv_pinned := b\<rparr>)" for c b
    using ok a by (simp add: governor_ok_def table_pids_def)
  have new': "governor_ok k (gv\<lparr>gv_topology := c\<rparr>)" for c
    using ok a pin by (simp add: governor_ok_def table_pids_def)
  have pinning: "wp (do { pinned \<leftarrow> (if act then do { (_, b) \<leftarrow> pin_c0_latency k 0 (gv_pinned gv); return_io b }
                 else return_io (gv_pinned gv));
      return_io (gv\<lparr>gv_topology := c, gv_pinned := pinned\<rparr>) })
      (\<lambda>gv' h'. governor_inv k gv' h' \<and> gv_active gv' = gv_active gv \<and> gv_windows gv' = gv_windows gv) h'"
    if "pin_state k (gv_pinned gv) h'" for act c h'
    by (auto simp: wp_simps governor_inv_iff new new' that intro!: wp_mono [OF take_pin])
  show ?thesis
    unfolding elevate_window_def Let_def
    by (rule gentle_then [OF e1 pin], rule gentle_then [OF gentle_topology], assumption, unfold split_paired_all prod.case,
        rule gentle_then [OF e2], assumption, rule pinning)
qed

lemma engage_keeps:
  assumes inv: "governor_inv k gv h"
  shows "wp (engage_active_window g k p comm gv) (\<lambda>(_, gv') h'. governor_inv k gv' h') h"
proof -
  have pin: "pin_state k (gv_pinned gv) h" using inv by (simp add: governor_inv_iff)
  have again: "wp (do { pinned \<leftarrow> (if b then return_io (gv_pinned gv)
                  else do { (_, b) \<leftarrow> pin_c0_latency k 0 (gv_pinned gv); return_io b });
       return_io (True, gv\<lparr>gv_pinned := pinned\<rparr>) }) (\<lambda>(_, gv') h'. governor_inv k gv' h') h'"
    if "sn_active (gv_active gv)" "pin_state k (gv_pinned gv) h'" for b h'
  proof -
    have "governor_ok k (gv\<lparr>gv_pinned := c\<rparr>)" for c
      using inv that(1) by (simp add: governor_inv_def governor_ok_def table_pids_def)
    then show ?thesis
      using inv that(2) by (auto simp: wp_simps governor_inv_iff intro!: wp_mono [OF take_pin])
  qed
  have log: "emits (gentle k) (io_when b (log_event (EvMitigation p c d)))" if "foreign k p" for b c d
    using that unfolding log_event_def by (auto intro!: io_rules gentle_actions)
  have named: "wp (do { (_, gv) \<leftarrow> unthrottle_immediate g k p gv; io_when b (log_event (EvMitigation p c d)); return_io (True, gv) })
      (\<lambda>(_, gv') h'. governor_inv k gv' h') h'" if "governor_inv k gv h'" "foreign k p" for b c d gv h'
    by (rule gentle_then [OF unthrottle_ok [OF _ that(2)]])
      (use that in \<open>auto simp: governor_inv_iff wp_return intro!: gentle_then [OF log]\<close>)
  have captured: "governor_ok k (gv\<lparr>gv_active := sn\<rparr>)" if "governor_ok k gv" "sn_active sn \<and> foreign k (sn_pid sn)" for gv sn
    using that by (simp add: governor_ok_def table_pids_def)
  have fresh: "wp (do {
       gv \<leftarrow> release_active_window g k gv;
       sn \<leftarrow> capture_snapshot k p;
       gv \<leftarrow> elevate_window g k p (gv\<lparr>gv_active := sn\<rparr>);
       (_, gv) \<leftarrow> unthrottle_immediate g k p gv;
       io_when (\<not> gl_sandbox g) (log_event (EvMitigation p (c_str comm) ''ACTIVE_WINDOW_C0_GUARANTEE''));
       return_io (True, gv) }) (\<lambda>(_, gv') h'. governor_inv k gv' h') h'"
    if "governor_inv k gv h'" and p: "foreign k p" for h'
  proof (rule wp_then [OF release_keeps [OF that(1)]], rule gentle_then [OF snapshot_taken [OF p]])
    fix gv1 h1 and sn :: snapshot and h2
    assume gv1: "governor_inv k gv1 h1 \<and> \<not> sn_active (gv_active gv1) \<and> gv_windows gv1 = gv_windows gv"
    then show "pin_state k (gv_pinned gv1) h1" by (simp add: governor_inv_iff)
    assume sn: "sn_active sn \<and> foreign k (sn_pid sn)" and h2: "pin_state k (gv_pinned gv1) h2"
    have ok: "governor_ok k (gv1\<lparr>gv_active := sn\<rparr>)" using gv1 by (intro captured sn) (simp add: governor_inv_iff)
    show "wp (do { gv \<leftarrow> elevate_window g k p (gv1\<lparr>gv_active := sn\<rparr>);
       (_, gv) \<leftarrow> unthrottle_immediate g k p gv;
       io_when (\<not> gl_sandbox g) (log_event (EvMitigation p (c_str comm) ''ACTIVE_WINDOW_C0_GUARANTEE''));
       return_io (True, gv) }) (\<lambda>(_, gv') h'. governor_inv k gv' h') h2"
      by (rule wp_then [OF elevate_keeps [OF ok _ p]]) (use sn h2 p in \<open>auto intro!: named\<close>)
  qed
  have here: "governor_inv k gv h'" if "pin_state k (gv_pinned gv) h'" for h'
    using inv that by (simp add: governor_inv_iff)
  show ?thesis
    unfolding engage_active_window_def
    by (rule gentle_then [OF own_process pin], rule wp_ifI, simp add: wp_return here, rule wp_ifI, rule again, simp, assumption,
        rule fresh, erule here, simp)
qed

lemma unthrottle_keeps:
  assumes "governor_inv k gv h"
  shows "wp (unthrottle_immediate g k p gv) (\<lambda>(_, gv') h'. governor_inv k gv' h') h"
proof (cases "find_entry p (gv_windows gv)")
  case (Some w)
  then have "foreign k p" using assms find_entryD [OF Some] by (auto simp: governor_inv_def governor_ok_def)
  then show ?thesis
    using assms by (intro wp_mono [OF gentle_keeps [OF unthrottle_ok]]) (auto simp: governor_inv_iff)
qed (use assms in \<open>simp add: unthrottle_immediate_def wp_return\<close>)

lemma changed_keeps:
  assumes inv: "governor_inv k gv h"
  shows "wp (on_window_state_changed g k p minimized active t mode audio gv) (governor_inv k) h"
proof -
  have pin: "pin_state k (gv_pinned gv) h" using inv by (simp add: governor_inv_iff)
  have here: "governor_inv k gv h'" if "pin_state k (gv_pinned gv) h'" for h'
    using inv that by (simp add: governor_inv_iff)
  have focus: "wp (do { (_, gv) \<leftarrow> engage_active_window g k p [] gv; return_io gv }) (governor_inv k) h'"
    if "governor_inv k gv h'" for h'
    by (rule wp_then [OF engage_keeps [OF that]]) (auto simp: wp_return)
  have shown: "wp (do { (_, gv) \<leftarrow> unthrottle_immediate g k p gv'; return_io gv }) (governor_inv k) h'"
    if "governor_inv k gv' h'" for gv' h'
    by (rule wp_then [OF unthrottle_keeps [OF that]]) (auto simp: wp_return)
  have hidden: "wp (minimize_window g k p t mode audio gv') (governor_inv k) h'"
    if "governor_inv k gv' h'" "foreign k p" for gv' h'
    by (rule wp_mono [OF gentle_keeps [OF minimize_ok]]) (use that in \<open>auto simp: governor_inv_iff\<close>)
  have released: "wp (if b then release_active_window g k gv else return_io gv) (governor_inv k) h'"
    if "governor_inv k gv h'" for b h'
    using that by (auto simp: wp_return intro: wp_mono [OF release_keeps])
  show ?thesis
    unfolding on_window_state_changed_def
    by (rule gentle_then [OF own_process pin], rule wp_ifI, simp add: wp_return here, rule wp_ifI, rule focus, erule here,
        rule wp_then, rule released, erule here, rule wp_ifI, erule shown, erule hidden, simp)
qed

lemma hysteresis_result:
  assumes "\<forall>w \<in> set (gv_windows gv). foreign k (wn_pid w)"
  shows "io_ok (gentle k) (evaluate_hysteresis g k t mode gv)
    (\<lambda>gv'. gv' = gv\<lparr>gv_windows := map (escalated t mode) (gv_windows gv)\<rparr>)"
  unfolding evaluate_hysteresis_def
  by (rule io_ok_bind [OF for_map [OF escalate_ok]]) (use assms in \<open>auto intro!: io_ok_return\<close>)

lemma hysteresis_keeps:
  assumes "governor_inv k gv h"
  shows "wp (evaluate_hysteresis g k t mode gv) (governor_inv k) h"
proof -
  have "table_pids (gv\<lparr>gv_windows := map (escalated t mode) (gv_windows gv)\<rparr>) = table_pids gv"
    by (simp add: table_pids_def)
  then have "governor_ok k (gv\<lparr>gv_windows := map (escalated t mode) (gv_windows gv)\<rparr>)"
    using assms by (auto simp: governor_inv_def governor_ok_def)
  then show ?thesis
    using assms by (intro wp_mono [OF gentle_keeps [OF hysteresis_result]]) (auto simp: governor_inv_iff governor_ok_def)
qed

lemma governor_rollback_keeps:
  assumes "governor_inv k gv h"
  shows "wp (governor_rollback g k gv)
    (\<lambda>gv' h'. governor_inv k gv' h' \<and> gv_windows gv' = [] \<and> \<not> sn_active (gv_active gv') \<and> \<not> gv_pinned gv') h"
proof -
  have loop: "wp (io_for (\<lambda>_. True) (\<lambda>p gv. do { (_, gv) \<leftarrow> unthrottle_immediate g k p gv; return_io gv }) ps gv')
      (\<lambda>gv' h'. governor_inv k gv' h' \<and> \<not> sn_active (gv_active gv')) h'"
    if "governor_inv k gv' h'" "\<not> sn_active (gv_active gv')" for ps gv' h'
  proof (rule wp_for)
    fix p gv1 h1 assume inv1: "governor_inv k gv1 h1 \<and> \<not> sn_active (gv_active gv1)"
    have quiet: "yields (unthrottle_immediate g k p gv1) (\<lambda>(_, gv'). gv_active gv' = gv_active gv1)"
      unfolding unthrottle_immediate_def
      by (cases "find_entry p (gv_windows gv1)") (auto intro!: yields_any simp: with_windows_def)
    have "wp (unthrottle_immediate g k p gv1) (\<lambda>(_, gv') h'. governor_inv k gv' h' \<and> \<not> sn_active (gv_active gv')) h1"
      using unthrottle_keeps [of k gv1 h1 g p] yields_wp [OF quiet, of h1] inv1 by (auto simp: wp_run)
    then show "wp (do { (_, gv) \<leftarrow> unthrottle_immediate g k p gv1; return_io gv })
        (\<lambda>gv' h'. governor_inv k gv' h' \<and> \<not> sn_active (gv_active gv')) h1"
      by (rule wp_then) (auto simp: wp_return)
  qed (use that in simp)
  have emptied: "governor_inv k (gv'\<lparr>gv_windows := []\<rparr>) h' \<and> \<not> gv_pinned gv'"
    if "governor_inv k gv' h'" "\<not> sn_active (gv_active gv')" for gv' h'
    using that by (auto simp: governor_inv_def governor_ok_def table_pids_def)
  show ?thesis
    unfolding governor_rollback_def
    by (rule wp_then [OF release_keeps [OF assms]], rule wp_then [OF loop]) (auto simp: wp_return emptied)
qed

section \<open>The machine\<close>

datatype governor_op =
    WindowChanged pid bool bool u64 power_profile bool
  | Hysteresis u64 power_profile
  | EngageWindow pid string
  | ReleaseActive
  | Unthrottle pid
  | RollbackWindows

definition governor_step :: "globals \<Rightarrow> kernel \<Rightarrow> governor_op \<Rightarrow> governor \<Rightarrow> governor io" where
  "governor_step g k op gv =
     (case op of WindowChanged p minimized active t mode audio \<Rightarrow> on_window_state_changed g k p minimized active t mode audio gv
      | Hysteresis t mode \<Rightarrow> evaluate_hysteresis g k t mode gv
      | EngageWindow p comm \<Rightarrow> do { (_, gv) \<leftarrow> engage_active_window g k p comm gv; return_io gv }
      | ReleaseActive \<Rightarrow> release_active_window g k gv
      | Unthrottle p \<Rightarrow> do { (_, gv) \<leftarrow> unthrottle_immediate g k p gv; return_io gv }
      | RollbackWindows \<Rightarrow> governor_rollback g k gv)"

interpretation window_machine: io_machine "governor_step g k" "governor_inv k" for g k
proof
  fix gv h op assume inv: "governor_inv k gv h"
  show "wp (governor_step g k op gv) (governor_inv k) h"
  proof (cases op)
    case (EngageWindow p comm)
    show ?thesis
      unfolding governor_step_def EngageWindow governor_op.case
      by (rule wp_then [OF engage_keeps [OF inv]]) (auto simp: wp_return)
  next
    case (Unthrottle p)
    show ?thesis
      unfolding governor_step_def Unthrottle governor_op.case
      by (rule wp_then [OF unthrottle_keeps [OF inv]]) (auto simp: wp_return)
  next
    case RollbackWindows
    show ?thesis
      unfolding governor_step_def RollbackWindows governor_op.case
      by (rule wp_mono [OF governor_rollback_keeps [OF inv]]) simp
  next
    case ReleaseActive
    show ?thesis
      unfolding governor_step_def ReleaseActive governor_op.case
      by (rule wp_mono [OF release_keeps [OF inv]]) simp
  qed (simp_all add: governor_step_def changed_keeps [OF inv] hysteresis_keeps [OF inv])
qed

lemma governor_starts: "governor_inv k (governor_init t) []"
  by (simp add: governor_inv_def governor_ok_def governor_init_def table_pids_def)

text \<open>C19. Whatever window events, evaluations and releases run, in any order and on any system: the
  table holds at most 64 windows, one per process, none of them the daemon's own; the latency request
  is held only while a window has the guarantee; and its descriptor is open in the system exactly when
  the governor thinks so, so none is leaked.
\<close>

theorem governor_ledger_kept:
  "wp (io_for (\<lambda>_. True) (governor_step g k) ops (governor_init t))
     (\<lambda>gv h. governor_ok k gv \<and> pin_held h = gv_pinned gv) []"
  by (rule wp_mono [OF window_machine.run_inv [OF governor_starts]]) (simp add: governor_inv_def)

text \<open>No sequence of window events stops, freezes or kills a process, writes a file other than a
  timer slack or the latency request, or changes the daemon itself or process 1.
\<close>

theorem governor_never_halts:
  "wp (io_for (\<lambda>_. True) (governor_step g k) ops (governor_init t)) (\<lambda>_ h. list_all (governor_event k) h) []"
  by (rule wp_mono [OF window_machine.run_inv [OF governor_starts]]) (simp add: governor_inv_def)

text \<open>A step of the deep stage for one process.\<close>

fun deepens :: "pid \<Rightarrow> event \<Rightarrow> bool" where
  "deepens p (EvSetScheduler q pol ok) = (q = p \<and> pol = SCHED_IDLE)"
| "deepens p (EvIoPrio q c d ok) = (q = p \<and> c = 3 \<and> d = 7)"
| "deepens p (EvOpenWrite path ok) = (path = proc_path p ''timerslack_ns'')"
| "deepens p (EvWrite path d n) = (path = proc_path p ''timerslack_ns'')"
| "deepens p e = False"

lemma deep_deepens: "emits (\<lambda>e. is_read_event e \<or> deepens p e) (deep_throttle g k p)"
  unfolding deep_throttle_def apply_timer_slack_def apply_sched_idle_def hw_defs sys_defs
  by (auto intro!: io_rules emits_unless_shielded emits_shields emits_write_file split: if_splits)

text \<open>What is sure to happen to a process that none of the shields of the two calls protects.\<close>

definition unshielded :: "globals \<Rightarrow> kernel \<Rightarrow> pid \<Rightarrow> bool" where
  "unshielded g k p \<longleftrightarrow> 1 < p \<and>
     (\<forall>h. \<not> fst (run_state (is_immune_process g k p) h) \<and> \<not> fst (run_state (is_audio_shielded g k p) h) \<and>
        \<not> fst (run_state (is_stall_shielded k p) h) \<and> \<not> fst (run_state (is_liveness_critical k p) h) \<and>
        \<not> fst (run_state (is_graphical_session_process k p) h))"

lemma does_unless_shielded:
  assumes "\<And>sh. sh \<in> set shs \<Longrightarrow> io_ok (\<lambda>_. True) sh (\<lambda>b. \<not> b)" and "does P m"
  shows "does P (unless_shielded shs m)"
  using assms(1)
proof (induction shs)
  case (Cons sh shs)
  show ?case
    unfolding unless_shielded.simps
    by (rule does_then [OF Cons.prems]) (use Cons in auto)
qed (use assms(2) in \<open>unfold unless_shielded.simps\<close>)

lemma shields_pass:
  assumes "unshielded g k p" and "sh \<in> {is_immune_process g k p, is_audio_shielded g k p, is_stall_shielded k p,
    is_liveness_critical k p, is_graphical_session_process k p}"
  shows "io_ok (\<lambda>_. True) sh (\<lambda>b. \<not> b)"
proof -
  have "emits (\<lambda>_. True) sh" using assms(2) by (auto intro: emits_shields)
  moreover have "\<not> fst (run_state sh h)" for h using assms by (auto simp: unshielded_def)
  ultimately show ?thesis by (simp add: io_ok_def)
qed

lemma deep_throttle_does:
  assumes "unshielded g k p" and "\<not> gl_sandbox g"
  shows "does (\<lambda>e. \<exists>ok. e = EvSetScheduler p SCHED_IDLE ok) (deep_throttle g k p)"
    and "does (\<lambda>e. \<exists>ok. e = EvIoPrio p 3 7 ok) (deep_throttle g k p)"
    and "(\<And>h. k_open_write k h (proc_path p ''timerslack_ns'')) \<Longrightarrow>
      does (\<lambda>e. \<exists>n. e = EvWrite (proc_path p ''timerslack_ns'') (''1000000000'' @ [NL]) n) (deep_throttle g k p)"
proof -
  have p: "\<not> p \<le> 1" using assms(1) by (simp add: unshielded_def)
  have all: "emits (\<lambda>_. True) (apply_sched_idle g k p)" "emits (\<lambda>_. True) (apply_timer_slack g k p n)" for n
    by (rule emits_actuators; simp)+
  have shields: "io_ok (\<lambda>_. True) sh (\<lambda>b. \<not> b)" if "sh \<in> set [is_immune_process g k p, is_audio_shielded g k p,
      is_stall_shielded k p, is_liveness_critical k p, is_graphical_session_process k p]" for sh
    using that by (intro shields_pass [OF assms(1)]) auto
  have hw: "emits (\<lambda>_. True) (hw_sched_setscheduler g k p SCHED_IDLE)" "emits (\<lambda>_. True) (hw_ioprio_set g k p 3 7)"
    by (rule emits_hw; simp)+
  have sched: "does (\<lambda>e. \<exists>ok. e = EvSetScheduler p SCHED_IDLE ok) (apply_sched_idle g k p)"
    unfolding apply_sched_idle_def if_not_P [OF p]
  proof (rule does_unless_shielded [OF shields], assumption, rule does_first)
    show "does (\<lambda>e. \<exists>ok. e = EvSetScheduler p SCHED_IDLE ok) (hw_sched_setscheduler g k p SCHED_IDLE)"
      using assms(2) by (auto simp: hw_sched_setscheduler_def sys_setscheduler_def intro!: does_syscall)
  qed (auto intro!: io_ok_bind_any [OF hw(2)] io_ok_return)
  have io: "does (\<lambda>e. \<exists>ok. e = EvIoPrio p 3 7 ok) (apply_sched_idle g k p)"
    unfolding apply_sched_idle_def if_not_P [OF p]
  proof (rule does_unless_shielded [OF shields], assumption, rule does_bind_any [OF hw(1)], rule does_first)
    show "does (\<lambda>e. \<exists>ok. e = EvIoPrio p 3 7 ok) (hw_ioprio_set g k p 3 7)"
      using assms(2) by (auto simp: hw_ioprio_set_def sys_ioprio_set_def intro!: does_syscall)
  qed (auto intro!: io_ok_return)
  have slack: "does (\<lambda>e. \<exists>n. e = EvWrite (proc_path p ''timerslack_ns'') (''1000000000'' @ [NL]) n) (apply_timer_slack g k p 1000000000)"
    if "\<And>h. k_open_write k h (proc_path p ''timerslack_ns'')"
  proof -
    have data: "show_nat (unat (1000000000 :: u64)) = ''1000000000''" by (simp add: show_nat.simps) code_simp
    have op: "io_ok (\<lambda>_. True) (hw_open_write g k (proc_path p ''timerslack_ns'')) (\<lambda>ok. ok)"
      using that assms(2) by (auto simp: hw_open_write_def sys_open_write_def intro!: io_ok_syscall)
    have "does (\<lambda>e. \<exists>n. e = EvWrite (proc_path p ''timerslack_ns'') (''1000000000'' @ [NL]) n)
        (write_file g k (proc_path p ''timerslack_ns'') (show_nat (unat (1000000000 :: u64)) @ [NL]))"
      unfolding write_file_def data
      by (rule does_then [OF op]) (auto intro!: does_first does_syscall io_ok_return simp: sys_write_def)
    then show ?thesis
      using p unfolding apply_timer_slack_def
      by (auto intro!: does_unless_shielded shields)
  qed
  have both: "deep_throttle g k p = apply_sched_idle g k p \<bind> (\<lambda>_. apply_timer_slack g k p 1000000000 \<bind> (\<lambda>_. return_io ()))"
    using assms(2) by (simp add: deep_throttle_def io_when_def)
  show "does (\<lambda>e. \<exists>ok. e = EvSetScheduler p SCHED_IDLE ok) (deep_throttle g k p)"
    and "does (\<lambda>e. \<exists>ok. e = EvIoPrio p 3 7 ok) (deep_throttle g k p)"
    unfolding both
    by (rule does_first [OF sched], intro io_ok_bind_any [OF all(2)] io_ok_return TrueI)
      (rule does_first [OF io], intro io_ok_bind_any [OF all(2)] io_ok_return TrueI)
  show "does (\<lambda>e. \<exists>n. e = EvWrite (proc_path p ''timerslack_ns'') (''1000000000'' @ [NL]) n) (deep_throttle g k p)"
    if "\<And>h. k_open_write k h (proc_path p ''timerslack_ns'')"
    unfolding both by (rule does_bind_any [OF all(1)], rule does_first [OF slack [OF that]]) (simp add: io_ok_return)
qed

lemma hysteresis_does:
  assumes "w \<in> set (gv_windows gv)" "due t mode w" "does P (deep_throttle g k (wn_pid w))"
  shows "does P (evaluate_hysteresis g k t mode gv)"
proof -
  have esc: "emits (\<lambda>_. True) (escalate g k t mode w')" for w'
    unfolding escalate_def by (auto intro!: io_rules io_ok_mono [OF deep_deepens])
  have "does P (escalate g k t mode w)"
    using assms(2,3) by (simp add: escalate_def may_escalate_due does_first io_ok_return)
  then have "does P (io_for (\<lambda>_. True) (\<lambda>w ws. do { w' \<leftarrow> escalate g k t mode w; return_io (ws @ [w']) }) (gv_windows gv) [])"
    by (intro does_for [OF assms(1)] does_first) (auto intro!: io_ok_bind_any [OF esc] io_ok_return)
  then show ?thesis unfolding evaluate_hysteresis_def by (rule does_first) (auto intro: io_ok_return)
qed

text \<open>C20. An evaluation moves exactly the windows that are softly slowed, play no audio and have been
  minimized for ten minutes in Performance, one minute in Balanced or any time in the saving profiles
  to the deep stage, leaves every other window's record alone, and touches no other process.  And it does
  slow them: outside the sandbox each such window whose process no shield protects is put into the idle
  class and the idle I/O class, and a timer slack of one second is written for it if the file opens.
\<close>

theorem hysteresis_escalates_exactly:
  "io_ok (\<lambda>e. is_read_event e \<or> (\<exists>w \<in> set (gv_windows gv). due t mode w \<and> deepens (wn_pid w) e))
     (evaluate_hysteresis g k t mode gv) (\<lambda>gv'. gv' = gv\<lparr>gv_windows := map (escalated t mode) (gv_windows gv)\<rparr>) \<and>
   (\<forall>w \<in> set (gv_windows gv). due t mode w \<and> unshielded g k (wn_pid w) \<and> \<not> gl_sandbox g \<longrightarrow>
      does (\<lambda>e. \<exists>ok. e = EvSetScheduler (wn_pid w) SCHED_IDLE ok) (evaluate_hysteresis g k t mode gv) \<and>
      does (\<lambda>e. \<exists>ok. e = EvIoPrio (wn_pid w) 3 7 ok) (evaluate_hysteresis g k t mode gv) \<and>
      ((\<forall>h. k_open_write k h (proc_path (wn_pid w) ''timerslack_ns'')) \<longrightarrow>
         does (\<lambda>e. \<exists>n. e = EvWrite (proc_path (wn_pid w) ''timerslack_ns'') (''1000000000'' @ [NL]) n)
           (evaluate_hysteresis g k t mode gv)))"
    (is "io_ok ?P _ _ \<and> _")
proof (rule conjI)
  have esc: "io_ok ?P (escalate g k t mode w) (\<lambda>w'. w' = escalated t mode w)" if w: "w \<in> set (gv_windows gv)" for w
  proof (cases "due t mode w")
    case True
    have "emits ?P (deep_throttle g k (wn_pid w))"
      by (rule io_ok_mono [OF deep_deepens]) (use w True in auto)
    then show ?thesis using True by (auto simp: escalate_def escalated_def may_escalate_due intro!: io_ok_bind_any io_ok_return)
  qed (auto simp: escalate_def escalated_def may_escalate_due intro: io_ok_return)
  show "io_ok ?P (evaluate_hysteresis g k t mode gv) (\<lambda>gv'. gv' = gv\<lparr>gv_windows := map (escalated t mode) (gv_windows gv)\<rparr>)"
    unfolding evaluate_hysteresis_def
    by (rule io_ok_bind [OF for_map [OF esc]]) (auto intro!: io_ok_return)
qed (use deep_throttle_does hysteresis_does in blast)

text \<open>A window of a compiler that was minimized at second 100, one minute later.\<close>

definition build_window :: window where
  "build_window = \<lparr>wn_pid = 500, wn_minimized_at = 100, wn_state = C1_SoftCoalesced, wn_audio = False, wn_nice = 0,
     wn_policy = 0, wn_slack = 50000\<rparr>"

definition build_kernel :: kernel where
  "build_kernel = quiet_kernel\<lparr>k_read_file := (\<lambda>_ _ _. None), k_open_write := (\<lambda>_ _. True)\<rparr>"

theorem hysteresis_escalates_exactly_witness:
  "due 160 Balanced build_window \<and> unshielded quiet_globals build_kernel 500 \<and>
   does (\<lambda>e. \<exists>ok. e = EvSetScheduler 500 SCHED_IDLE ok)
     (evaluate_hysteresis quiet_globals build_kernel 160 Balanced ((governor_init None)\<lparr>gv_windows := [build_window]\<rparr>)) \<and>
   does (\<lambda>e. \<exists>n. e = EvWrite (proc_path 500 ''timerslack_ns'') (''1000000000'' @ [NL]) n)
     (evaluate_hysteresis quiet_globals build_kernel 160 Balanced ((governor_init None)\<lparr>gv_windows := [build_window]\<rparr>))"
proof -
  have due: "due 160 Balanced build_window" by (simp add: due_def build_window_def)
  have free: "unshielded quiet_globals build_kernel 500"
    by (simp add: unshielded_def is_immune_process_def is_audio_shielded_def is_stall_shielded_def is_liveness_critical_def
        is_graphical_session_process_def comm_of_pid_def read_small_file_def sys_read_file_def build_kernel_def quiet_globals_def)
  show ?thesis
    using hysteresis_escalates_exactly [of "(governor_init None)\<lparr>gv_windows := [build_window]\<rparr>" 160 Balanced quiet_globals build_kernel]
      due free
    by (simp add: governor_init_def build_window_def build_kernel_def quiet_globals_def)
qed

end
