(* ===== verification/Window_Release.thy ===== *)
theory Window_Release
  imports Window_Safety Feature_Release
begin

text \<open>
  What the window governor gives back: the release of everything, and the penalty that a window
  keeps when it is focused while it is still slowed.
\<close>

section \<open>Releasing everything\<close>

lemma ext_unthrottle: "emits (\<lambda>_. True) (unthrottle_immediate g k p gv)"
  unfolding unthrottle_immediate_def sys_defs
  by (auto intro!: io_rules emits_actuators split: option.split)

lemma ext_release: "emits (\<lambda>_. True) (release_active_window g k gv)"
  unfolding release_active_window_def release_latency_pin_def Let_def sys_defs
  by (auto intro!: io_rules emits_actuators)

lemma find_entry_mem: "distinct (map wn_pid ws) \<Longrightarrow> w \<in> set ws \<Longrightarrow> find_entry (wn_pid w) ws = Some w"
  unfolding find_entry_def by (induction ws) (auto intro: rev_image_eqI)

lemma find_entry_append: "find_entry p ws = None \<Longrightarrow> wn_pid w = p \<Longrightarrow> find_entry p (ws @ [w]) = Some w"
  unfolding find_entry_def by (induction ws) (auto split: if_splits)

lemma find_update_other: "p \<noteq> q \<Longrightarrow> (\<And>w. wn_pid (f w) = wn_pid w) \<Longrightarrow> find_entry p (update_entry q f ws) = find_entry p ws"
  by (induction ws) (auto simp: find_entry_def)

lemma find_update_same: "(\<And>w. wn_pid (f w) = wn_pid w) \<Longrightarrow> find_entry p (update_entry p f ws) = map_option f (find_entry p ws)"
  by (induction ws) (auto simp: find_entry_def)

text \<open>Releasing one window leaves the entries of the others alone.\<close>

lemma unthrottle_others:
  "p \<noteq> q \<Longrightarrow> yields (unthrottle_immediate g k q gv) (\<lambda>(_, gv'). find_entry p (gv_windows gv') = find_entry p (gv_windows gv))"
  unfolding unthrottle_immediate_def
  by (cases "find_entry q (gv_windows gv)") (auto intro!: yields_any simp: with_windows_def find_update_other)

lemma release_same_windows: "yields (release_active_window g k gv) (\<lambda>gv'. gv_windows gv' = gv_windows gv)"
  unfolding release_active_window_def Let_def by (auto intro!: yields_any)

lemma unthrottle_does:
  assumes "find_entry (wn_pid w) (gv_windows gv) = Some w" "wn_state w \<noteq> ActiveForeground" "\<not> gl_sandbox g" "0 \<le> wn_policy w"
  shows "does (\<lambda>e. \<exists>ok. e = EvSetScheduler (wn_pid w) (policy_of (wn_policy w)) ok) (unthrottle_immediate g k (wn_pid w) gv)"
    and "does (\<lambda>e. e = EvSetPriority (wn_pid w) (wn_nice w)) (unthrottle_immediate g k (wn_pid w) gv)"
proof -
  let ?w = "wn_pid w"
  let ?body = "\<lambda>slack. do { do { sys_setscheduler k ?w (policy_of (wn_policy w)); return_io () };
      sys_setpriority k ?w (wn_nice w); apply_timer_slack g k ?w slack; return_io () }"
  have shape: "unthrottle_immediate g k ?w gv = do { ?body (if 0 < wn_slack w then wn_slack w else 50000);
      return_io (True, with_windows (update_entry ?w (\<lambda>w. w\<lparr>wn_state := ActiveForeground\<rparr>)) gv) }"
    using assms by (simp add: unthrottle_immediate_def io_when_def)
  have slack: "emits (\<lambda>_. True) (apply_timer_slack g k ?w sl)" for sl by (rule emits_actuators) auto
  have "does (\<lambda>e. \<exists>ok. e = EvSetScheduler ?w (policy_of (wn_policy w)) ok) (?body sl)" for sl
    unfolding sys_setscheduler_def sys_setpriority_def
    by (rule does_first, rule does_first, rule does_syscall) (auto intro!: io_rules slack)
  moreover have "does (\<lambda>e. e = EvSetPriority ?w (wn_nice w)) (?body sl)" for sl
    unfolding sys_setscheduler_def sys_setpriority_def
    by (rule does_bind_any, force intro!: io_rules, rule does_first, rule does_syscall) (auto intro!: io_rules slack)
  moreover have "does P (unthrottle_immediate g k ?w gv)" if "\<And>sl. does P (?body sl)" for P
    unfolding shape by (rule does_first [OF that]) (auto intro: io_ok_return)
  ultimately show "does (\<lambda>e. \<exists>ok. e = EvSetScheduler ?w (policy_of (wn_policy w)) ok) (unthrottle_immediate g k ?w gv)"
    and "does (\<lambda>e. e = EvSetPriority ?w (wn_nice w)) (unthrottle_immediate g k ?w gv)" by blast+
qed

lemma loop_does:
  assumes "find_entry p (gv_windows gv) = Some w" "p \<in> set ps" and loop: "loop = (\<lambda>p gv. do { (_, gv) \<leftarrow> unthrottle_immediate g k p gv; return_io gv })"
    and "\<And>gv. find_entry p (gv_windows gv) = Some w \<Longrightarrow> does P (unthrottle_immediate g k p gv)"
  shows "does P (io_for (\<lambda>_. True) loop ps gv)"
  using assms(1,2)
proof (induction ps arbitrary: gv)
  case (Cons q qs)
  have ext: "emits (\<lambda>_. True) (loop q gv)" for q gv
    unfolding loop by (auto intro!: io_rules ext_unthrottle)
  show ?case
  proof (cases "q = p")
    case True
    have "does P (loop p gv)" unfolding loop using assms(4) [OF Cons.prems(1)] by (auto intro!: does_first io_rules)
    then show ?thesis using True by (auto intro!: does_first emits_for ext)
  next
    case False
    have "yields (loop q gv) (\<lambda>gv'. find_entry p (gv_windows gv') = Some w)"
      unfolding loop by (rule yields_bind [OF unthrottle_others [of p q]]) (use False Cons.prems in auto)
    then have "io_ok (\<lambda>_. True) (loop q gv) (\<lambda>gv'. find_entry p (gv_windows gv') = Some w)"
      using ext [of q gv] by (simp add: io_ok_def yields_def)
    then show ?thesis
      using Cons False by (auto intro!: does_then)
  qed
qed simp

text \<open>C21. The release of everything, which the daemon runs when it stops, gives every slowed window its
  scheduling class and nice value back and leaves no window, no guarantee and no open latency
  request.
\<close>

theorem governor_rollback_releases:
  assumes "governor_inv k gv h" "\<not> gl_sandbox g"
  shows "wp (governor_rollback g k gv) (\<lambda>gv' h'. gv_windows gv' = [] \<and> \<not> sn_active (gv_active gv') \<and> \<not> pin_held h') h \<and>
    (\<forall>w \<in> set (gv_windows gv). wn_state w \<noteq> ActiveForeground \<longrightarrow>
       does (\<lambda>e. \<exists>ok. e = EvSetScheduler (wn_pid w) (policy_of (wn_policy w)) ok) (governor_rollback g k gv) \<and>
       does (\<lambda>e. e = EvSetPriority (wn_pid w) (wn_nice w)) (governor_rollback g k gv))"
proof -
  have ok: "governor_ok k gv" using assms(1) by (simp add: governor_inv_def)
  have "does P (governor_rollback g k gv)"
    if w: "w \<in> set (gv_windows gv)"
      and P: "\<And>gv. find_entry (wn_pid w) (gv_windows gv) = Some w \<Longrightarrow> does P (unthrottle_immediate g k (wn_pid w) gv)" for P w
  proof -
    have found: "find_entry (wn_pid w) (gv_windows gv) = Some w"
      using ok w by (intro find_entry_mem) (auto simp: governor_ok_def table_pids_def)
    have same: "io_ok (\<lambda>_. True) (release_active_window g k gv) (\<lambda>gv'. gv_windows gv' = gv_windows gv)"
      using ext_release [of g k gv] release_same_windows [of g k gv] by (simp add: io_ok_def yields_def)
    show ?thesis
      unfolding governor_rollback_def
      by (rule does_then [OF same], rule does_first, rule loop_does [where w = w and p = "wn_pid w", OF _ _ refl P])
        (use found w in \<open>auto intro!: io_rules\<close>)
  qed
  moreover have "wp (governor_rollback g k gv)
      (\<lambda>gv' h'. gv_windows gv' = [] \<and> \<not> sn_active (gv_active gv') \<and> \<not> pin_held h') h"
    by (rule wp_mono [OF governor_rollback_keeps [OF assms(1)]]) (auto simp: governor_inv_def)
  moreover have "0 \<le> wn_policy w" if "w \<in> set (gv_windows gv)" for w
    using ok that by (auto simp: governor_ok_def)
  ultimately show ?thesis using unthrottle_does assms(2) by blast
qed

definition soft_window :: "pid \<Rightarrow> window" where
  "soft_window p = \<lparr>wn_pid = p, wn_minimized_at = 100, wn_state = C1_SoftCoalesced, wn_audio = False,
     wn_nice = 5, wn_policy = 0, wn_slack = 50000\<rparr>"

definition example_governor :: governor where
  "example_governor = (governor_init None)\<lparr>gv_windows := [soft_window 500]\<rparr>"

theorem governor_rollback_releases_witness:
  "does (\<lambda>e. e = EvSetPriority 500 5) (governor_rollback quiet_globals quiet_kernel example_governor)"
proof -
  have inv: "governor_inv quiet_kernel example_governor []"
    by (simp add: example_governor_def governor_init_def governor_inv_def governor_ok_def table_pids_def
        soft_window_def foreign_def quiet_kernel_def)
  have on: "\<not> gl_sandbox quiet_globals" by (simp add: quiet_globals_def)
  show ?thesis
    using conjunct2 [OF governor_rollback_releases [OF inv on]] by (simp add: example_governor_def soft_window_def)
qed

section \<open>The penalty of a focused window\<close>

text \<open>The nice value of a process, as the history tells: the last one set, or \<open>base\<close>.\<close>

fun nice_in :: "int \<Rightarrow> pid \<Rightarrow> history \<Rightarrow> int" where
  "nice_in base p [] = base"
| "nice_in base p (e # h) = (case e of EvSetPriority q n \<Rightarrow> if q = p then n else nice_in base p h | _ \<Rightarrow> nice_in base p h)"

fun no_nice :: "event \<Rightarrow> bool" where
  "no_nice (EvSetPriority _ _) = False"
| "no_nice _ = True"

lemma no_nice_read [simp]: "is_read_event e \<Longrightarrow> no_nice e"
  by (cases e) auto

lemma nice_then:
  "io_ok no_nice m R \<Longrightarrow> nice_in base p h = v \<Longrightarrow> (\<And>x h'. R x \<Longrightarrow> nice_in base p h' = v \<Longrightarrow> wp (f x) Q h') \<Longrightarrow> wp (m \<bind> f) Q h"
proof (rule wp_then [OF wp_emits [where P = no_nice and J = "\<lambda>h. nice_in base p h = v"]], assumption, assumption)
  fix e h assume "no_nice e" "nice_in base p h = v"
  then show "nice_in base p (e # h) = v" by (cases e) auto
qed blast

lemma nice_last: "io_ok no_nice m R \<Longrightarrow> nice_in base p h = v \<Longrightarrow> (\<And>x h'. R x \<Longrightarrow> nice_in base p h' = v \<Longrightarrow> Q x h') \<Longrightarrow> wp m Q h"
  using nice_then [of m R base p h v return_io Q] by (simp add: wp_return)

lemma no_nice_slack: "emits no_nice (apply_timer_slack g k p sl)"
  unfolding apply_timer_slack_def
  by (auto intro!: io_rules emits_unless_shielded emits_shields emits_write_file split: if_splits)

lemma no_nice_topology: "emits no_nice (get_cluster_topology k cache)"
  by (rule io_ok_mono [OF emits_topology_reads]) auto

lemma no_nice_pin: "emits no_nice (pin_c0_latency k us b)"
  unfolding pin_c0_latency_def sys_defs by (auto intro!: io_rules)

text \<open>A system that reports the nice value of \<open>p\<close> truly, on which \<open>p\<close> is another process.\<close>

definition reports_nice :: "kernel \<Rightarrow> int \<Rightarrow> pid \<Rightarrow> bool" where
  "reports_nice k base p \<longleftrightarrow> foreign k p \<and>
     (\<forall>h. k_getppid k h \<noteq> p \<and> k_getpriority k h p = nice_in base p h \<and> k_errno_clear k h \<and> k_getaffinity k h p \<noteq> None)"

lemma own_no: "reports_nice k base p \<Longrightarrow> io_ok no_nice (is_own_process k p) (\<lambda>own. \<not> own)"
  unfolding is_own_process_def sys_getppid_def reports_nice_def foreign_def
  by (auto intro!: io_ok_bind [OF io_ok_syscall [where Q = "\<lambda>q. q \<noteq> p"]] io_ok_return)

text \<open>Minimized, a new window is recorded with its nice value and slowed by ten.\<close>

lemma minimized_nice:
  assumes "reports_nice k base p" "\<not> gl_sandbox g" "c2_threshold_sec mode \<noteq> 0 \<or> audio"
    and "find_entry p (gv_windows gv) = None" "length (gv_windows gv) < MAX_TRACKED_WINDOWS" "\<not> sn_active (gv_active gv)"
    and "nice_in base p h = n"
  shows "wp (on_window_state_changed g k p True False t mode audio gv)
    (\<lambda>gv' h'. nice_in base p h' = min 19 (n + 10) \<and> \<not> sn_active (gv_active gv') \<and>
       (\<exists>w. find_entry p (gv_windows gv') = Some w \<and> wn_pid w = p \<and> wn_nice w = n \<and> 0 \<le> wn_policy w \<and>
          wn_state w = C1_SoftCoalesced)) h"
proof -
  let ?w = "\<lambda>pol. \<lparr>wn_pid = p, wn_minimized_at = t, wn_state = C1_SoftCoalesced, wn_audio = audio,
       wn_nice = n, wn_policy = (if 0 \<le> pol then pol else 0), wn_slack = 50000\<rparr>"
  have grown: "find_entry p (gv_windows gv @ [w]) = Some w" if "wn_pid w = p" for w
    using assms(4) that find_entry_append by simp
  have fresh: "wp (do { w \<leftarrow> new_window k p t audio; w \<leftarrow> suppress_window g k mode audio w;
      return_io (with_windows (\<lambda>ws. ws @ [w]) gv) })
    (\<lambda>gv' h'. nice_in base p h' = min 19 (n + 10) \<and> \<not> sn_active (gv_active gv') \<and>
       (\<exists>w. find_entry p (gv_windows gv') = Some w \<and> wn_pid w = p \<and> wn_nice w = n \<and> 0 \<le> wn_policy w \<and>
          wn_state w = C1_SoftCoalesced)) h'" if "nice_in base p h' = n" for h'
    using assms that
    by (auto simp: new_window_def suppress_window_def sys_getpriority_def sys_getscheduler_def sys_errno_clear_def
        sys_setpriority_def wp_simps reports_nice_def grown with_windows_def intro!: nice_last [where base = base and p = p, OF no_nice_slack])
  show ?thesis
    unfolding on_window_state_changed_def minimize_window_def assms(4)
    by (rule nice_then [OF own_no [OF assms(1)] assms(7)]) (use assms fresh in \<open>simp add: wp_return wp_bind\<close>)
qed

text \<open>Focused, its guarantee is recorded over the penalty, raised, and then lowered again.\<close>

definition focused_over :: "pid \<Rightarrow> int \<Rightarrow> governor \<Rightarrow> bool" where
  "focused_over p v gv \<longleftrightarrow> sn_active (gv_active gv) \<and> sn_pid (gv_active gv) = p \<and> sn_nice (gv_active gv) = v \<and>
     sn_original (gv_active gv) \<and> (\<exists>w. find_entry p (gv_windows gv) = Some w \<and> wn_state w = ActiveForeground)"

lemma captured_nice:
  assumes "reports_nice k base p" "nice_in base p h = v"
  shows "wp (capture_snapshot k p) (\<lambda>sn h'. sn_active sn \<and> sn_pid sn = p \<and> sn_nice sn = v \<and> sn_original sn \<and> nice_in base p h' = v) h"
  using assms by (auto simp: capture_snapshot_def read_slack_def sys_getpriority_def sys_getscheduler_def
      sys_getaffinity_def sys_read_file_def sys_errno_clear_def wp_simps reports_nice_def)

lemma elevated_nice:
  assumes "\<not> gl_sandbox g"
  shows "wp (elevate_window g k p gv) (\<lambda>gv' _. gv_active gv' = gv_active gv \<and> gv_windows gv' = gv_windows gv) h"
  unfolding elevate_window_def Let_def wp_bind split_def wp_return by (intro wp_any) simp_all

lemma unthrottled_nice:
  assumes "\<not> gl_sandbox g" "find_entry p (gv_windows gv) = Some w" "0 \<le> wn_policy w" "wn_state w \<noteq> ActiveForeground"
  shows "wp (unthrottle_immediate g k p gv) (\<lambda>(_, gv') h'. nice_in base p h' = wn_nice w \<and> gv_active gv' = gv_active gv \<and>
    (\<exists>w. find_entry p (gv_windows gv') = Some w \<and> wn_state w = ActiveForeground)) h"
  using assms by (auto simp: unthrottle_immediate_def io_when_def wp_simps sys_setscheduler_def sys_setpriority_def
      with_windows_def find_update_same intro!: nice_last [where base = base and p = p, OF no_nice_slack])

lemma focused_nice:
  assumes k: "reports_nice k base p" and g: "\<not> gl_sandbox g" "\<not> sn_active (gv_active gv)"
    and w: "find_entry p (gv_windows gv) = Some w" "0 \<le> wn_policy w" "wn_state w = C1_SoftCoalesced"
    and v: "nice_in base p h = v"
  shows "wp (on_window_state_changed g k p minimized True t mode audio gv)
    (\<lambda>gv' h'. nice_in base p h' = wn_nice w \<and> focused_over p v gv') h"
proof -
  have tail: "wp (do { (_, gv) \<leftarrow> unthrottle_immediate g k p gv1;
       io_when (\<not> gl_sandbox g) (log_event (EvMitigation p c d)); return_io (True, gv) })
      (\<lambda>(_, gv') h'. nice_in base p h' = wn_nice w \<and> focused_over p v gv') h'"
    if "gv_windows gv1 = gv_windows gv" "sn_active (gv_active gv1) \<and> sn_pid (gv_active gv1) = p \<and> sn_nice (gv_active gv1) = v \<and>
       sn_original (gv_active gv1)" for gv1 c d h'
    by (rule wp_then [OF unthrottled_nice [where w = w and base = base]])
      (use that w g in \<open>auto simp: wp_simps log_event_def focused_over_def\<close>)
  have engage: "wp (engage_active_window g k p c gv) (\<lambda>(_, gv') h'. nice_in base p h' = wn_nice w \<and> focused_over p v gv') h'"
    if "nice_in base p h' = v" for c h'
    unfolding engage_active_window_def
  proof (rule nice_then [OF own_no [OF k] that])
    fix own h1 assume own: "\<not> own" and v1: "nice_in base p h1 = v"
    have release: "release_active_window g k gv = return_io gv" using g by (simp add: release_active_window_def)
    have "wp (do { sn \<leftarrow> capture_snapshot k p; gv \<leftarrow> elevate_window g k p (gv\<lparr>gv_active := sn\<rparr>);
        (_, gv) \<leftarrow> unthrottle_immediate g k p gv;
        io_when (\<not> gl_sandbox g) (log_event (EvMitigation p (c_str c) ''ACTIVE_WINDOW_C0_GUARANTEE''));
        return_io (True, gv) }) (\<lambda>(_, gv') h'. nice_in base p h' = wn_nice w \<and> focused_over p v gv') h1"
      by (rule wp_then [OF captured_nice [OF k v1]], rule wp_then [OF elevated_nice [OF g(1)]], rule tail) auto
    then show "wp (if own then return_io (False, gv)
     else if sn_active (gv_active gv) \<and> sn_pid (gv_active gv) = p
     then do {
       pinned \<leftarrow> (if gl_sandbox g then return_io (gv_pinned gv)
                  else do { (_, b) \<leftarrow> pin_c0_latency k 0 (gv_pinned gv); return_io b });
       return_io (True, gv\<lparr>gv_pinned := pinned\<rparr>)
     }
     else do {
       gv \<leftarrow> release_active_window g k gv;
       sn \<leftarrow> capture_snapshot k p;
       gv \<leftarrow> elevate_window g k p (gv\<lparr>gv_active := sn\<rparr>);
       (_, gv) \<leftarrow> unthrottle_immediate g k p gv;
       io_when (\<not> gl_sandbox g) (log_event (EvMitigation p (c_str c) ''ACTIVE_WINDOW_C0_GUARANTEE''));
       return_io (True, gv)
     }) (\<lambda>(_, gv') h'. nice_in base p h' = wn_nice w \<and> focused_over p v gv') h1"
      using own g release by simp
  qed
  show ?thesis
    unfolding on_window_state_changed_def
    by (rule nice_then [OF own_no [OF k] v]) (auto simp: wp_return intro!: wp_then [OF engage])
qed

text \<open>Out of focus again, the recorded value is written, and the entry counts as not slowed.\<close>

lemma blurred_nice:
  assumes k: "reports_nice k base p" and g: "\<not> gl_sandbox g" and gv: "focused_over p v gv" and h: "nice_in base p h = n"
  shows "wp (on_window_state_changed g k p False False t mode audio gv)
    (\<lambda>gv' h'. nice_in base p h' = v \<and> \<not> sn_active (gv_active gv') \<and>
       (\<exists>w. find_entry p (gv_windows gv') = Some w \<and> wn_state w = ActiveForeground)) h"
proof -
  obtain w where w: "find_entry p (gv_windows gv) = Some w" "wn_state w = ActiveForeground"
    using gv by (auto simp: focused_over_def)
  have p: "1 < p" using k by (simp add: reports_nice_def foreign_def)
  have quiet: "emits no_nice (release_latency_pin b)" for b
    unfolding release_latency_pin_def sys_close_fd_def by (auto intro!: io_rules)
  have release: "wp (release_active_window g k gv)
      (\<lambda>gv' h'. nice_in base p h' = v \<and> gv_active gv' = snapshot_init \<and> gv_windows gv' = gv_windows gv) h'" for h'
    using gv p g unfolding release_active_window_def focused_over_def
    by (auto simp: Let_def io_when_def wp_simps sys_setpriority_def sys_setscheduler_def sys_setaffinity_def
        intro!: nice_last [where base = base and p = p, OF no_nice_slack] nice_last [where base = base and p = p, OF quiet])
  have shown: "wp (do { (_, gv) \<leftarrow> unthrottle_immediate g k p gv1; return_io gv })
      (\<lambda>gv' h'. nice_in base p h' = v \<and> \<not> sn_active (gv_active gv') \<and>
       (\<exists>w. find_entry p (gv_windows gv') = Some w \<and> wn_state w = ActiveForeground)) h'"
    if "nice_in base p h' = v" "gv_active gv1 = snapshot_init" "gv_windows gv1 = gv_windows gv" for gv1 h'
    using that w by (simp add: unthrottle_immediate_def wp_simps)
  show ?thesis
    unfolding on_window_state_changed_def
    by (rule nice_then [OF own_no [OF k] h], rule wp_ifI, simp, rule wp_ifI, simp, rule wp_then, rule wp_ifI, rule release,
        use gv in \<open>simp add: focused_over_def\<close>, rule wp_ifI, rule shown, auto)
qed

text \<open>C22. A window that is focused while it is slowed keeps the penalty for good.  Minimizing slows it by
  ten; focusing it records the slowed value as the one to return to, and then undoes the raise of the
  guarantee itself; when the focus leaves, the slowed value is written back, and because the entry
  counts as not slowed no later event of the visible window lifts it.
\<close>

theorem focused_window_keeps_penalty:
  assumes "reports_nice k base p" "\<not> gl_sandbox g" "c2_threshold_sec mode \<noteq> 0"
    and "find_entry p (gv_windows gv) = None" "length (gv_windows gv) < MAX_TRACKED_WINDOWS" "\<not> sn_active (gv_active gv)"
  shows "wp (do { gv \<leftarrow> on_window_state_changed g k p True False t1 mode False gv;
                  on_window_state_changed g k p False True t2 mode False gv })
      (\<lambda>_ h'. nice_in base p h' = nice_in base p h) h \<and>
    wp (do { gv \<leftarrow> on_window_state_changed g k p True False t1 mode False gv;
             gv \<leftarrow> on_window_state_changed g k p False True t2 mode False gv;
             on_window_state_changed g k p False False t3 mode False gv })
      (\<lambda>gv' h'. nice_in base p h' = min 19 (nice_in base p h + 10) \<and> \<not> sn_active (gv_active gv') \<and>
         (\<exists>w. find_entry p (gv_windows gv') = Some w \<and> wn_state w = ActiveForeground)) h"
proof -
  let ?v = "min 19 (nice_in base p h + 10)"
  let ?slowed = "\<lambda>gv' h'. nice_in base p h' = ?v \<and> \<not> sn_active (gv_active gv') \<and>
       (\<exists>w. find_entry p (gv_windows gv') = Some w \<and> wn_pid w = p \<and> wn_nice w = nice_in base p h \<and> 0 \<le> wn_policy w \<and>
          wn_state w = C1_SoftCoalesced)"
  have slow: "wp (on_window_state_changed g k p True False t1 mode False gv) ?slowed h"
    by (rule minimized_nice [OF assms(1,2) _ assms(4-6) refl]) (use assms(3) in simp)
  have focus: "wp (on_window_state_changed g k p False True t2 mode False gv')
      (\<lambda>gv' h'. nice_in base p h' = nice_in base p h \<and> focused_over p ?v gv') h'" if "?slowed gv' h'" for gv' h'
    using that focused_nice [OF assms(1,2), of gv' _ h' ?v False t2 mode False] by auto
  show ?thesis
  proof (intro conjI)
    show "wp (do { gv \<leftarrow> on_window_state_changed g k p True False t1 mode False gv;
                  on_window_state_changed g k p False True t2 mode False gv })
      (\<lambda>_ h'. nice_in base p h' = nice_in base p h) h"
      by (rule wp_then [OF slow], rule wp_mono, erule focus) simp
    show "wp (do { gv \<leftarrow> on_window_state_changed g k p True False t1 mode False gv;
             gv \<leftarrow> on_window_state_changed g k p False True t2 mode False gv;
             on_window_state_changed g k p False False t3 mode False gv })
      (\<lambda>gv' h'. nice_in base p h' = ?v \<and> \<not> sn_active (gv_active gv') \<and>
         (\<exists>w. find_entry p (gv_windows gv') = Some w \<and> wn_state w = ActiveForeground)) h"
      by (rule wp_then [OF slow], rule wp_then, erule focus, elim conjE, rule blurred_nice [OF assms(1,2)], assumption+)
  qed
qed

definition shell_kernel :: kernel where
  "shell_kernel = quiet_kernel\<lparr>k_getpriority := (\<lambda>h p. nice_in 0 p h), k_getaffinity := (\<lambda>_ _. Some {0..<8})\<rparr>"

theorem focused_window_keeps_penalty_witness:
  "wp (do { gv \<leftarrow> on_window_state_changed quiet_globals shell_kernel 500 True False 100 Balanced False (governor_init None);
            gv \<leftarrow> on_window_state_changed quiet_globals shell_kernel 500 False True 130 Balanced False gv;
            on_window_state_changed quiet_globals shell_kernel 500 False False 160 Balanced False gv })
     (\<lambda>_ h'. nice_in 0 500 h' = 10) []"
proof -
  have "reports_nice shell_kernel 0 500" "\<not> gl_sandbox quiet_globals" "c2_threshold_sec Balanced \<noteq> 0"
    "find_entry 500 (gv_windows (governor_init None)) = None" "length (gv_windows (governor_init None)) < MAX_TRACKED_WINDOWS"
    "\<not> sn_active (gv_active (governor_init None))"
    by (simp_all add: reports_nice_def foreign_def shell_kernel_def quiet_kernel_def quiet_globals_def c2_threshold_sec_def
        governor_init_def find_entry_def)
  from conjunct2 [OF focused_window_keeps_penalty [OF this, where h = "[]"]]
  show ?thesis by (rule wp_mono) simp
qed

end
