(* ===== verification/Mitigation.thy ===== *)
theory Mitigation
  imports Features
begin

text \<open>
  The evaluation of the mitigation engine (\<^verbatim>\<open>src/policy/mitigation_engine.cpp\<close>,
  \<^verbatim>\<open>evaluate_and_actuate\<close>, \<^verbatim>\<open>rollback_all\<close> and \<^verbatim>\<open>thaw_all_frozen\<close>): the ladder that is used
  outside the daemon's own cycle, with its own table of held tasks.  Texts of summaries and of log
  lines are left out; the number of summaries is kept.
\<close>

section \<open>State\<close>

record held =
  hm_pid :: pid
  hm_tier :: u8
  hm_action :: mitigation_action
  hm_nice :: int
  hm_policy :: int
  hm_slack :: u64
  hm_affinity :: "nat set"
  hm_affinity_capped :: bool
  hm_batch_applied :: bool
  hm_idle_applied :: bool
  hm_dispersed :: bool
  hm_low_ticks :: u32

record mitigation =
  mi_engine :: engine
  mi_profile :: profile_state
  mi_aspm_modified :: bool
  mi_backlight_capped :: bool
  mi_scan_counter :: u32
  mi_tracked :: "held list"

abbreviation mi_globals :: "mitigation \<Rightarrow> globals" where
  "mi_globals m \<equiv> en_globals (mi_engine m)"

section \<open>Releasing\<close>

definition release_held :: "globals \<Rightarrow> kernel \<Rightarrow> held \<Rightarrow> unit io" where
  "release_held g k tm = do {
     io_when (hm_affinity_capped tm) (do { restore_core_affinity g k (hm_pid tm) (Some (hm_affinity tm)); return_io () });
     io_when (hm_batch_applied tm \<or> hm_idle_applied tm \<or> hm_action tm = SchedIdle \<or> hm_action tm = CgroupFreeze)
       (do {
         io_when (hm_action tm = CgroupFreeze) (do { apply_cgroup_freeze g k (hm_pid tm) False; return_io () });
         restore_sched_normal g k (hm_pid tm) (hm_policy tm) (hm_nice tm);
         return_io ()
       });
     io_when (0 < hm_slack tm) (do { apply_timer_slack g k (hm_pid tm) (hm_slack tm); return_io () })
   }"

definition release_table :: "globals \<Rightarrow> kernel \<Rightarrow> held list \<Rightarrow> unit io" where
  "release_table g k tms = io_for (\<lambda>_. True) (\<lambda>tm _. release_held g k tm) tms ()"

definition heal_audio :: "kernel \<Rightarrow> mitigation \<Rightarrow> mitigation io" where
  "heal_audio k m = do {
     (g, b) \<leftarrow> audit_and_heal_audio_stack k (mi_globals m, en_base (mi_engine m));
     return_io (m\<lparr>mi_engine := (mi_engine m)\<lparr>en_globals := g, en_base := b\<rparr>\<rparr>)
   }"

definition hardware_release :: "kernel \<Rightarrow> bool \<Rightarrow> bool \<Rightarrow> engine_step" where
  "hardware_release k aspm_modified backlight_capped = run_steps
     [step_when (\<lambda>_. aspm_modified) (step_of (\<lambda>e. step_io (\<lambda>g. set_pcie_aspm_policy g k (bl_aspm_policy (en_base e))))),
      step_when (\<lambda>_. backlight_capped) (step_base (\<lambda>g. restore_display_backlight g k)),
      step_when (\<lambda>e. bl_vm_modified (en_base e)) (step_base (\<lambda>g. restore_vm_writeback_baseline g k)),
      step_when (\<lambda>e. bl_captured (en_base e)) (restore_hardware_baseline k)]"

definition mitigation_rollback :: "kernel \<Rightarrow> mitigation \<Rightarrow> mitigation option io" where
  "mitigation_rollback k m = do {
     m \<leftarrow> heal_audio k m;
     release_table (mi_globals m) k (mi_tracked m);
     e \<leftarrow> hardware_release k (mi_aspm_modified m) (mi_backlight_capped m) (mi_engine m);
     return_io (map_option (\<lambda>e. m\<lparr>mi_engine := e, mi_tracked := [], mi_aspm_modified := False,
       mi_backlight_capped := False\<rparr>) e)
   }"

definition thaw_one :: "globals \<Rightarrow> kernel \<Rightarrow> held \<Rightarrow> held io" where
  "thaw_one g k tm =
     (if hm_action tm = CgroupFreeze
      then do {
        apply_cgroup_freeze g k (hm_pid tm) False;
        apply_sched_idle g k (hm_pid tm);
        return_io (tm\<lparr>hm_action := SchedIdle\<rparr>)
      }
      else return_io tm)"

fun thaw_table :: "globals \<Rightarrow> kernel \<Rightarrow> held list \<Rightarrow> held list io" where
  "thaw_table g k [] = return_io []"
| "thaw_table g k (tm # tms) = do {
     tm \<leftarrow> thaw_one g k tm;
     tms \<leftarrow> thaw_table g k tms;
     return_io (tm # tms)
   }"

definition thaw_all_frozen :: "kernel \<Rightarrow> mitigation \<Rightarrow> mitigation io" where
  "thaw_all_frozen k m = do {
     tms \<leftarrow> thaw_table (mi_globals m) k (mi_tracked m);
     let m = m\<lparr>mi_tracked := tms\<rparr>;
     if \<not> mi_backlight_capped m then return_io m
     else do {
       (_, b) \<leftarrow> restore_display_backlight (mi_globals m) k (en_base (mi_engine m));
       return_io (m\<lparr>mi_engine := (mi_engine m)\<lparr>en_base := b\<rparr>, mi_backlight_capped := False\<rparr>)
     }
   }"

section \<open>The change of profile\<close>

definition enter_profile :: "kernel \<Rightarrow> power_profile \<Rightarrow> power_profile \<Rightarrow> mitigation \<Rightarrow> mitigation option io" where
  "enter_profile k from to m =
     (if from = UltraEndurance \<and> to = PowerSaver then do { m \<leftarrow> thaw_all_frozen k m; return_io (Some m) }
      else if to = PowerSaver then return_io (Some (m\<lparr>mi_aspm_modified := True\<rparr>))
      else if to = UltraEndurance
      then do {
        e \<leftarrow> step_backlight_cap k (Fin 35) (mi_engine m);
        return_io (map_option (\<lambda>e. m\<lparr>mi_engine := e, mi_aspm_modified := True, mi_backlight_capped := True\<rparr>) e)
      }
      else return_io (Some m))"

definition switch_profile :: "kernel \<Rightarrow> bool \<Rightarrow> power_profile \<Rightarrow> mitigation \<Rightarrow> mitigation option io" where
  "switch_profile k hold target m =
     (let old = ps_current (mi_profile m)
      in if old = target then return_io (Some m)
         else then_some (if target = Performance \<or> target = Balanced then mitigation_rollback k m else return_io (Some m))
           (\<lambda>m. then_some (do { e \<leftarrow> apply_power_profile k hold target (mi_engine m);
                               return_io (map_option (\<lambda>e. m\<lparr>mi_engine := e\<rparr>) e) })
             (\<lambda>m. then_some (enter_profile k old target m)
               (\<lambda>m. return_io (Some (m\<lparr>mi_profile := (mi_profile m)\<lparr>ps_current := target\<rparr>\<rparr>))))))"

definition periodic_shield :: "kernel \<Rightarrow> mitigation \<Rightarrow> mitigation io" where
  "periodic_shield k m = do {
     let m' = m\<lparr>mi_scan_counter := mi_scan_counter m + 1\<rparr>;
     if mi_scan_counter m mod 10 \<noteq> 0 then return_io m'
     else do {
       tp \<leftarrow> shield_all_interactive_terminals (mi_globals m') k (en_topology (mi_engine m'));
       return_io (m'\<lparr>mi_engine := (mi_engine m')\<lparr>en_topology := tp\<rparr>\<rparr>)
     }
   }"

definition shield_process :: "kernel \<Rightarrow> proc_power \<Rightarrow> mitigation \<Rightarrow> mitigation io" where
  "shield_process k p m = do {
     (_, tp) \<leftarrow> shield_interactive_process (mi_globals m) k (pp_pid p) (comm_view (pp_comm p)) (en_topology (mi_engine m));
     return_io (m\<lparr>mi_engine := (mi_engine m)\<lparr>en_topology := tp\<rparr>\<rparr>)
   }"

section \<open>Decisions about one task\<close>

definition held_throttle :: "power_profile \<Rightarrow> proc_power \<Rightarrow> bool" where
  "held_throttle mode p =
     (if has_tier p BackgroundWorker
      then (if mode = UltraEndurance then True
            else if mode = PowerSaver then fp_gt (pp_wdi_score p) (Fin 3) \<or> 50 < pp_wakeups_per_sec p
            else fp_gt (pp_wdi_score p) (Fin 10) \<or> fp_gt (pp_cpu_watts p) (lit64 (3 / 2)))
      else has_tier p RunawayCandidate \<and> (pp_is_runaway p \<or> fp_gt (pp_wdi_score p) (Fin 10)))"

definition held_relax :: "power_profile \<Rightarrow> proc_power \<Rightarrow> bool" where
  "held_relax mode p =
     (if has_tier p BackgroundWorker
      then (if mode = UltraEndurance then True
            else if mode = PowerSaver then 100 < pp_wakeups_per_sec p else 250 < pp_wakeups_per_sec p)
      else if has_tier p RunawayCandidate then pp_is_runaway p \<or> fp_gt (pp_wdi_score p) (Fin 10)
      else has_tier p UserInteractive \<and> mode = UltraEndurance \<and> 300 < pp_wakeups_per_sec p)"

definition held_reclaim :: "power_profile \<Rightarrow> proc_power \<Rightarrow> bool" where
  "held_reclaim mode p =
     (if has_tier p BackgroundWorker
      then (if mode = UltraEndurance then 50 * 1024 < pp_pss_kib p
            else mode = PowerSaver \<and> 100 * 1024 < pp_pss_kib p)
      else if has_tier p RunawayCandidate
      then (pp_is_runaway p \<or> fp_gt (pp_wdi_score p) (Fin 10)) \<and> mode = UltraEndurance
      else has_tier p UserInteractive \<and> mode \<noteq> Balanced \<and> 500 * 1024 < pp_pss_kib p \<and>
           fp_lt (pp_cpu_watts p) (lit64 (2 / 10)))"

definition held_cap_watts :: "power_profile \<Rightarrow> float64" where
  "held_cap_watts mode = (case mode of UltraEndurance \<Rightarrow> lit64 (35 / 100) | PowerSaver \<Rightarrow> lit64 (70 / 100)
     | Performance \<Rightarrow> Fin 2 | Balanced \<Rightarrow> lit64 (12 / 10))"

definition held_cap :: "power_profile \<Rightarrow> proc_power \<Rightarrow> bool" where
  "held_cap mode p \<longleftrightarrow>
     fp_gt (pp_cpu_watts p) (held_cap_watts mode) \<or>
     (4 \<le> pp_num_threads p \<and> fp_gt (pp_cpu_watts p) (lit64 (25 / 100))) \<or>
     fp_gt (pp_wdi_score p) (Fin 6) \<or> pp_is_runaway p \<or>
     (has_tier p BackgroundWorker \<and> fp_gt (pp_cpu_watts p) (lit64 (20 / 100))) \<or>
     (has_tier p RunawayCandidate \<and> fp_gt (pp_cpu_watts p) (lit64 (25 / 100)))"

definition held_for :: "pid \<Rightarrow> held list \<Rightarrow> bool" where
  "held_for p tms \<longleftrightarrow> list_ex (\<lambda>tm. hm_pid tm = p) tms"

section \<open>Acting on one task\<close>

text \<open>What the code keeps of a task: its settings at this moment.\<close>

definition record_held :: "proc_power \<Rightarrow> mitigation_action \<Rightarrow> int \<Rightarrow> int \<Rightarrow> nat set option \<Rightarrow> held" where
  "record_held p act nice pol aff =
     \<lparr>hm_pid = pp_pid p, hm_tier = pp_safety_tier p, hm_action = act, hm_nice = nice,
      hm_policy = (if 0 \<le> pol then pol else 0), hm_slack = pp_timerslack_ns p,
      hm_affinity = (case aff of None \<Rightarrow> {} | Some cs \<Rightarrow> cs), hm_affinity_capped = (act = AffinityCap),
      hm_batch_applied = (act = AffinityCap), hm_idle_applied = (act = SchedIdle),
      hm_dispersed = False, hm_low_ticks = 0\<rparr>"

definition throttle_held :: "kernel \<Rightarrow> proc_power \<Rightarrow> mitigation \<times> status \<Rightarrow> (mitigation \<times> status) io" where
  "throttle_held k p ms =
     (let (m, st) = ms
      in if MAX_TRACKED_MITIGATIONS \<le> length (mi_tracked m) then return_io ms
         else do {
           nice \<leftarrow> sys_getpriority k (pp_pid p);
           pol \<leftarrow> sys_getscheduler k (pp_pid p);
           aff \<leftarrow> sys_getaffinity k (pp_pid p);
           ok \<leftarrow> apply_sched_idle (mi_globals m) k (pp_pid p);
           return_io (if ok
             then (m\<lparr>mi_tracked := mi_tracked m @ [record_held p SchedIdle nice pol aff]\<rparr>,
                   add_savings (mul64 (pp_cpu_watts p) (lit64 (4 / 10))) (add_throttled st))
             else ms)
         })"

definition relax_held :: "kernel \<Rightarrow> proc_power \<Rightarrow> mitigation \<times> status \<Rightarrow> (mitigation \<times> status) io" where
  "relax_held k p ms =
     (if 100000000 \<le> pp_timerslack_ns p then return_io ms
      else do {
        ok \<leftarrow> apply_timer_slack (mi_globals (fst ms)) k (pp_pid p) 100000000;
        return_io (if ok then (fst ms, add_savings (mul64 (pp_wakeup_tax_watts p) (lit64 (1 / 2))) (snd ms)) else ms)
      })"

definition reclaim_held ::
  "kernel \<Rightarrow> bool \<Rightarrow> proc_power \<Rightarrow> u64 \<Rightarrow> float64 \<Rightarrow> mitigation \<times> status \<Rightarrow> (mitigation \<times> status) io" where
  "reclaim_held k hold p bytes watts ms = do {
     ok \<leftarrow> apply_memory_reclaim (mi_globals (fst ms)) k (pp_pid p) bytes hold;
     return_io (if ok then (fst ms, add_savings watts (add_reclaimed bytes (snd ms))) else ms)
   }"

definition mark_capped :: "pid \<Rightarrow> bool \<Rightarrow> held \<Rightarrow> held" where
  "mark_capped p dispersed tm =
     tm\<lparr>hm_affinity_capped := True, hm_batch_applied := True, hm_dispersed := hm_dispersed tm \<or> dispersed\<rparr>"

fun update_first :: "('a \<Rightarrow> bool) \<Rightarrow> ('a \<Rightarrow> 'a) \<Rightarrow> 'a list \<Rightarrow> 'a list" where
  "update_first c f [] = []"
| "update_first c f (x # xs) = (if c x then f x # xs else x # update_first c f xs)"

text \<open>Capping; \<open>already\<close> tells whether the table listed the task before anything was done to it.\<close>

definition record_cap :: "kernel \<Rightarrow> bool \<Rightarrow> proc_power \<Rightarrow> held \<Rightarrow> mitigation \<Rightarrow> mitigation io" where
  "record_cap k already p entry m = do {
     let mode = ps_current (mi_profile m);
     apply_sched_batch (mi_globals m) k (pp_pid p)
       (if mode = UltraEndurance then 15 else if mode = Performance then 5 else 10);
     return_io (if \<not> already \<and> length (mi_tracked m) < MAX_TRACKED_MITIGATIONS
       then m\<lparr>mi_tracked := mi_tracked m @ [entry]\<rparr>
       else if already
       then m\<lparr>mi_tracked := update_first (\<lambda>tm. hm_pid tm = pp_pid p) (mark_capped (pp_pid p) (hm_dispersed entry)) (mi_tracked m)\<rparr>
       else m)
   }"

definition cap_on :: "kernel \<Rightarrow> bool \<Rightarrow> proc_power \<Rightarrow> held \<Rightarrow> topology \<Rightarrow> mitigation \<Rightarrow> mitigation io" where
  "cap_on k already p entry t m = do {
     let dispersed = (is_heavy_compute_candidate p \<and> 2 \<le> tp_cluster_count t);
     ok \<leftarrow> apply_core_affinity_cap (mi_globals m) k (pp_pid p)
            (Some (if dispersed then tp_c2 t else headroom_allowed_cpuset k (ps_current (mi_profile m))));
     if ok then record_cap k already p (entry\<lparr>hm_dispersed := dispersed\<rparr>) m else return_io m
   }"

definition cap_held :: "kernel \<Rightarrow> bool \<Rightarrow> proc_power \<Rightarrow> mitigation \<Rightarrow> mitigation io" where
  "cap_held k already p m = do {
     nice \<leftarrow> sys_getpriority k (pp_pid p);
     pol \<leftarrow> sys_getscheduler k (pp_pid p);
     aff \<leftarrow> sys_getaffinity k (pp_pid p);
     (t, tp) \<leftarrow> get_cluster_topology k (en_topology (mi_engine m));
     cap_on k already p (record_held p AffinityCap nice pol aff) t (m\<lparr>mi_engine := (mi_engine m)\<lparr>en_topology := tp\<rparr>\<rparr>)
   }"

definition worker_ladder :: "kernel \<Rightarrow> bool \<Rightarrow> proc_power \<Rightarrow> mitigation \<times> status \<Rightarrow> (mitigation \<times> status) io" where
  "worker_ladder k hold p ms = do {
     let mode = ps_current (mi_profile (fst ms));
     let already = held_for (pp_pid p) (mi_tracked (fst ms));
     ms \<leftarrow> (if held_throttle mode p \<and> \<not> already then throttle_held k p ms else return_io ms);
     ms \<leftarrow> (if held_relax mode p then relax_held k p ms else return_io ms);
     let bytes = min (pp_pss_kib p * 1024 div 2) (128 * 1024 * 1024);
     ms \<leftarrow> (if held_reclaim mode p \<and> 0 < bytes then reclaim_held k hold p bytes (lit64 (4 / 100)) ms else return_io ms);
     immune \<leftarrow> (if has_tier p CriticalImmune \<or> has_tier p DesktopCore then return_io True
                else is_immune_process (mi_globals (fst ms)) k (pp_pid p));
     if immune \<or> \<not> held_cap mode p then return_io ms
     else do { m \<leftarrow> cap_held k already p (fst ms); return_io (m, snd ms) }
   }"

definition inspect_process :: "kernel \<Rightarrow> bool \<Rightarrow> proc_power \<Rightarrow> mitigation \<times> status \<Rightarrow> (mitigation \<times> status) io" where
  "inspect_process k hold p ms =
     (if pp_pid p \<le> 1 then return_io ms
      else if has_tier p DesktopCore then do { m \<leftarrow> shield_process k p (fst ms); return_io (m, snd ms) }
      else if has_tier p CriticalImmune then return_io ms
      else do {
        user \<leftarrow> (if has_tier p UserInteractive then return_io True else is_user_app_tree k (pp_pid p));
        if user then return_io ms
        else if has_tier p DesktopShell
        then (if ps_current (mi_profile (fst ms)) = UltraEndurance \<and> 250 * 1024 < pp_pss_kib p
              then reclaim_held k hold p (64 * 1024 * 1024) (lit64 (5 / 100)) ms else return_io ms)
        else worker_ladder k hold p ms
      })"

section \<open>De-escalation\<close>

definition watts_of :: "proc_power list \<Rightarrow> pid \<Rightarrow> float64 option" where
  "watts_of ps p = map_option pp_cpu_watts (find (\<lambda>q. pp_pid q = p) ps)"

definition subsided :: "proc_power list \<Rightarrow> held \<Rightarrow> bool" where
  "subsided ps tm = (case watts_of ps (hm_pid tm) of None \<Rightarrow> True | Some w \<Rightarrow> fp_lt w (lit64 (30 / 100)))"

function walk_dispersed :: "globals \<Rightarrow> kernel \<Rightarrow> proc_power list \<Rightarrow> nat \<Rightarrow> held list \<Rightarrow> held list io" where
  "walk_dispersed g k ps i tms =
     (if length tms \<le> i then return_io tms
      else let tm = tms ! i
      in if \<not> hm_dispersed tm then walk_dispersed g k ps (i + 1) tms
      else do {
        r \<leftarrow> sys_kill k (hm_pid tm) 0;
        if r \<noteq> KillOk then walk_dispersed g k ps i (swap_remove i tms)
        else let ticks = (if subsided ps tm then hm_low_ticks tm + 1 else 0)
        in if 2 \<le> ticks
           then do {
             restore_core_affinity g k (hm_pid tm) (Some (hm_affinity tm));
             restore_sched_normal g k (hm_pid tm) (hm_policy tm) (hm_nice tm);
             log_event (EvRollback (hm_pid tm));
             walk_dispersed g k ps i (swap_remove i tms)
           }
           else walk_dispersed g k ps (i + 1) (tms[i := tm\<lparr>hm_low_ticks := ticks\<rparr>])
      })"
  by pat_completeness auto
termination
  by (relation "measure (\<lambda>(_, _, _, i, tms). length tms - i)") auto

declare walk_dispersed.simps [simp del]

section \<open>The evaluation\<close>

definition hardware_summaries :: "bool \<Rightarrow> power_profile \<Rightarrow> nat" where
  "hardware_summaries epp mode =
     (case mode of Performance \<Rightarrow> 3 | Balanced \<Rightarrow> 0
      | PowerSaver \<Rightarrow> 1 + of_bool epp | UltraEndurance \<Rightarrow> 3 + of_bool epp)"

definition performance_cycle :: "kernel \<Rightarrow> report \<Rightarrow> mitigation \<Rightarrow> mitigation io" where
  "performance_cycle k r m = do {
     m \<leftarrow> heal_audio k m;
     io_for (\<lambda>_. True) (\<lambda>p m. if pp_pid p \<le> 1 \<or> \<not> has_tier p DesktopCore then return_io m else shield_process k p m)
       (top_list r) m
   }"

definition mitigation_evaluate ::
  "kernel \<Rightarrow> bool \<Rightarrow> report \<Rightarrow> bool \<Rightarrow> float64 \<Rightarrow> mitigation \<Rightarrow> (mitigation \<times> status) option io" where
  "mitigation_evaluate k hold r on_battery pct m = do {
     m \<leftarrow> heal_audio k m;
     let (target, ps) = determine_profile on_battery pct (mi_profile m);
     then_some (switch_profile k hold target (m\<lparr>mi_profile := ps\<rparr>)) (\<lambda>m. do {
       let mode = ps_current (mi_profile m);
       m \<leftarrow> periodic_shield k m;
       let st = status_init\<lparr>ms_profile := mode,
         ms_summaries := hardware_summaries (sx_epp_applied (en_statics (mi_engine m))) mode\<rparr>;
       if mode = Performance then do { m \<leftarrow> performance_cycle k r m; return_io (Some (m, st)) }
       else do {
         ms \<leftarrow> io_for (\<lambda>_. True) (inspect_process k hold) (top_list r) (m, st);
         tms \<leftarrow> walk_dispersed (mi_globals (fst ms)) k (top_list r) 0 (mi_tracked (fst ms));
         return_io (Some ((fst ms)\<lparr>mi_tracked := tms\<rparr>, snd ms))
       }
     })
   }"

end
