(* ===== verification/Mitigation_Release.thy ===== *)
theory Mitigation_Release
  imports Mitigation Profile_Safety Feature_Ledger
begin

text \<open>
  What the mitigation engine's own table records, and what its release gives back.
\<close>

section \<open>The table\<close>

text \<open>
  At most 128 entries, each for a task above the first; a task may be listed twice, because the
  ladder looks the table up before it acts and can then record both an idle class and a CPU cap.
\<close>

definition held_ok :: "held list \<Rightarrow> bool" where
  "held_ok tms \<longleftrightarrow> length tms \<le> MAX_TRACKED_MITIGATIONS \<and>
     (\<forall>tm \<in> set tms. 1 < hm_pid tm \<and> 0 \<le> hm_policy tm) \<and> (\<forall>p. length (filter (\<lambda>tm. hm_pid tm = p) tms) \<le> 2)"

abbreviation entries :: "pid \<Rightarrow> held list \<Rightarrow> nat" where
  "entries p tms \<equiv> length (filter (\<lambda>tm. hm_pid tm = p) tms)"

lemma held_for_entries: "held_for p tms \<longleftrightarrow> 0 < entries p tms"
  by (auto simp: held_for_def list_ex_iff filter_empty_conv)

lemma held_empty [simp]: "held_ok []"
  by (simp add: held_ok_def)

lemma record_held_simps [simp]:
  "hm_pid (record_held p a n pol aff) = pp_pid p" "0 \<le> hm_policy (record_held p a n pol aff)"
  by (simp_all add: record_held_def)

lemma held_remove: "held_ok tms \<Longrightarrow> i < length tms \<Longrightarrow> held_ok (swap_remove i tms)"
proof -
  assume ok: "held_ok tms" and i: "i < length tms"
  have m: "mset tms = mset (tms ! i # swap_remove i tms)" using mset_swap_remove [OF i] by simp
  have sub: "entries p (swap_remove i tms) \<le> entries p tms" for p
  proof -
    have "size (filter_mset (\<lambda>tm. hm_pid tm = p) (mset (swap_remove i tms))) \<le> size (filter_mset (\<lambda>tm. hm_pid tm = p) (mset tms))"
      unfolding m by (intro size_mset_mono) auto
    then show ?thesis by (metis mset_filter size_mset)
  qed
  have "set (swap_remove i tms) \<subseteq> set tms" using m by (metis set_mset_mset set_subset_Cons)
  then show ?thesis using ok unfolding held_ok_def by (auto intro: order_trans [OF sub])
qed

lemma held_update: "held_ok tms \<Longrightarrow> i < length tms \<Longrightarrow> hm_pid tm = hm_pid (tms ! i) \<Longrightarrow> hm_policy tm = hm_policy (tms ! i) \<Longrightarrow>
   held_ok (tms[i := tm])"
proof -
  assume ok: "held_ok tms" "i < length tms" "hm_pid tm = hm_pid (tms ! i)" "hm_policy tm = hm_policy (tms ! i)"
  have pids: "map hm_pid (tms[i := tm]) = map hm_pid tms" using ok(2,3) by (simp add: list_eq_iff_nth_eq nth_list_update)
  have "entries p ts = length (filter (\<lambda>q. q = p) (map hm_pid ts))" for p ts by (simp add: filter_map o_def)
  then have "entries p (tms[i := tm]) = entries p tms" for p using pids by metis
  moreover have "1 < hm_pid tm' \<and> 0 \<le> hm_policy tm'" if "tm' \<in> set (tms[i := tm])" for tm'
    using that ok set_update_subset_insert [of tms i tm] nth_mem [of i tms] by (auto simp: held_ok_def)
  ultimately show ?thesis using ok by (simp add: held_ok_def)
qed

lemma update_first_pids:
  "map hm_pid (update_first c (mark_capped p d) tms) = map hm_pid tms"
  "map hm_policy (update_first c (mark_capped p d) tms) = map hm_policy tms"
  by (induction tms) (auto simp: mark_capped_def)

lemma held_by_fields:
  "map hm_pid ts = map hm_pid tms \<Longrightarrow> map hm_policy ts = map hm_policy tms \<Longrightarrow> held_ok tms \<Longrightarrow> held_ok ts"
proof -
  assume f: "map hm_pid ts = map hm_pid tms" "map hm_policy ts = map hm_policy tms" and ok: "held_ok tms"
  have "entries p ts = length (filter (\<lambda>q. q = p) (map hm_pid ts))" for p ts by (simp add: filter_map o_def)
  then have "entries p ts = entries p tms" for p using f(1) by metis
  moreover have "hm_pid ` set ts = hm_pid ` set tms" "hm_policy ` set ts = hm_policy ` set tms"
    using f by (metis set_map)+
  moreover have "length ts = length tms" using f(1) by (metis length_map)
  ultimately show ?thesis using ok by (simp add: held_ok_def) (smt (verit) image_iff)
qed

lemma thaw_fields:
  "yields (thaw_table g k tms) (\<lambda>ts. map hm_pid ts = map hm_pid tms \<and> map hm_policy ts = map hm_policy tms)"
proof (induction tms)
  case (Cons tm tms)
  have one: "yields (thaw_one g k tm) (\<lambda>t. hm_pid t = hm_pid tm \<and> hm_policy t = hm_policy tm)"
    unfolding thaw_one_def by (auto intro!: yields_any)
  show ?case
    unfolding thaw_table.simps by (rule yields_bind [OF one], rule yields_bind [OF Cons.IH]) auto
qed simp

lemma walk_held: "held_ok tms \<Longrightarrow> yields (walk_dispersed g k ps i tms) held_ok"
proof (induction "length tms - i" arbitrary: i tms rule: less_induct)
  case less
  have drop: "yields (walk_dispersed g k ps i (swap_remove i tms)) held_ok" if "i < length tms"
    by (rule less(1)) (use that less(2) held_remove in auto)
  have keep: "yields (walk_dispersed g k ps (i + 1) tms) held_ok" if "i < length tms"
    by (rule less(1)) (use that less(2) in auto)
  have tick: "yields (walk_dispersed g k ps (i + 1) (tms[i := (tms ! i)\<lparr>hm_low_ticks := n\<rparr>])) held_ok" if "i < length tms" for n
    by (rule less(1)) (use that less(2) held_update in auto)
  show ?case
    using less(2) drop keep tick by (subst walk_dispersed.simps) (simp add: Let_def yields_any)
qed

definition tracked_ok :: "mitigation \<Rightarrow> bool" where
  "tracked_ok m \<longleftrightarrow> held_ok (mi_tracked m)"

lemma heal_tracked: "yields (heal_audio k m) (\<lambda>m'. mi_tracked m' = mi_tracked m)"
  unfolding heal_audio_def by (auto intro!: yields_any split: prod.splits)

lemma shield_tracked: "yields (shield_process k p m) (\<lambda>m'. mi_tracked m' = mi_tracked m)"
  unfolding shield_process_def by (auto intro!: yields_any split: prod.splits)

text \<open>One task adds at most one entry for the idle class and one for the cap.\<close>

definition room :: "pid \<Rightarrow> nat \<Rightarrow> held list \<Rightarrow> bool" where
  "room p n tms \<longleftrightarrow> held_ok tms \<and> entries p tms \<le> n"

lemma room_add:
  "room p n tms \<Longrightarrow> n < 2 \<Longrightarrow> length tms < MAX_TRACKED_MITIGATIONS \<Longrightarrow> hm_pid tm = p \<Longrightarrow> 1 < p \<Longrightarrow> 0 \<le> hm_policy tm \<Longrightarrow>
   room p (Suc n) (tms @ [tm])"
  by (auto simp: room_def held_ok_def)

lemma room_weaken: "room p n tms \<Longrightarrow> n \<le> n' \<Longrightarrow> room p n' tms"
  by (simp add: room_def)

lemma throttle_room:
  "room (pp_pid p) 0 (mi_tracked m) \<Longrightarrow> 1 < pp_pid p \<Longrightarrow> yields (throttle_held k p (m, st)) (\<lambda>(m', _). room (pp_pid p) 1 (mi_tracked m'))"
  unfolding throttle_held_def
  by (auto intro!: yields_any room_add [of _ 0, simplified] intro: room_weaken)

lemma ladder_keeps:
  "yields (relax_held k p ms) (\<lambda>ms'. fst ms' = fst ms)" "yields (reclaim_held k hold p b w ms) (\<lambda>ms'. fst ms' = fst ms)"
  unfolding relax_held_def reclaim_held_def by (auto intro!: yields_any)

lemma cap_room:
  assumes "if already then held_ok (mi_tracked m) else room (pp_pid p) 1 (mi_tracked m)" "1 < pp_pid p"
  shows "yields (cap_held k already p m) (\<lambda>m'. held_ok (mi_tracked m'))"
proof -
  have add: "held_ok (mi_tracked m @ [e])"
    if "\<not> already" "length (mi_tracked m) < MAX_TRACKED_MITIGATIONS" "hm_pid e = pp_pid p" "0 \<le> hm_policy e" for e
    using room_add [of "pp_pid p" 1 "mi_tracked m" e] assms that by (simp add: room_def)
  have same: "held_ok (mi_tracked m)" using assms(1) by (auto simp: room_def split: if_splits)
  have mark: "held_ok (update_first c (mark_capped q d) (mi_tracked m))" for c q d
    by (rule held_by_fields [OF update_first_pids same])
  have on: "yields (cap_on k already p e t m') (\<lambda>m'. held_ok (mi_tracked m'))"
    if "mi_tracked m' = mi_tracked m" "hm_pid e = pp_pid p" "0 \<le> hm_policy e" for e t m'
    unfolding cap_on_def record_cap_def Let_def using that add same mark by (auto intro!: yields_any)
  show ?thesis
    unfolding cap_held_def by (intro yields_any) (auto split: prod.split intro!: on)
qed

lemma ladder_tracked:
  assumes "tracked_ok m" "1 < pp_pid p"
  shows "yields (worker_ladder k hold p (m, st)) (\<lambda>(m', _). tracked_ok m')"
proof -
  let ?already = "held_for (pp_pid p) (mi_tracked m)"
  let ?R = "\<lambda>ms. if ?already then held_ok (mi_tracked (fst ms)) else room (pp_pid p) 1 (mi_tracked (fst ms))"
  have "room (pp_pid p) 0 (mi_tracked m)" if "\<not> ?already"
    using that assms(1) by (simp add: room_def tracked_ok_def held_for_entries)
  then have throttle: "yields (if t \<and> \<not> ?already then throttle_held k p (m, st) else return_io (m, st)) ?R" for t
    using throttle_room [of p m k st] assms
    by (auto simp: tracked_ok_def case_prod_beta' intro: room_weaken)
  have keep: "yields (if b then relax_held k p ms else return_io ms) ?R"
      "yields (if b then reclaim_held k hold p bts w ms else return_io ms) ?R" if "?R ms" for b ms bts w
    using that ladder_keeps(1) [of k p ms] ladder_keeps(2) [of k hold p bts w ms] by (auto simp: yields_def)
  have last: "yields (if immune \<or> \<not> c then return_io ms else do { m \<leftarrow> cap_held k ?already p (fst ms); return_io (m, snd ms) })
      (\<lambda>(m', _). tracked_ok m')" if "?R ms" for immune c ms
    using that cap_room [of ?already "fst ms" p k] assms(2)
    by (auto intro!: yields_bind [OF cap_room] simp: tracked_ok_def room_def split: if_splits)
  show ?thesis
    unfolding worker_ladder_def Let_def fst_conv
    by (rule yields_bind [OF throttle], rule yields_bind [OF keep(1)], assumption, rule yields_bind [OF keep(2)], assumption,
        rule yields_any, rule last)
qed

lemma inspect_tracked:
  assumes "tracked_ok m"
  shows "yields (inspect_process k hold p (m, st)) (\<lambda>(m', _). tracked_ok m')"
proof -
  have shell: "yields (reclaim_held k hold p b w (m, st)) (\<lambda>(m', _). tracked_ok m')" for b w
    using ladder_keeps(2) [of k hold p b w "(m, st)"] assms by (auto simp: yields_def case_prod_beta)
  have shield: "yields (do { m' \<leftarrow> shield_process k p m; return_io (m', st) }) (\<lambda>(m', _). tracked_ok m')"
    using assms by (auto intro!: yields_bind [OF shield_tracked] simp: tracked_ok_def)
  show ?thesis
    unfolding inspect_process_def fst_conv snd_conv
    using assms by (auto intro!: yields_any [where m = "is_user_app_tree _ _"] shell shield ladder_tracked)
qed

lemma rollback_tracked: "yields (mitigation_rollback k m) (\<lambda>r. \<forall>m'. r = Some m' \<longrightarrow> mi_tracked m' = [])"
  unfolding mitigation_rollback_def by (auto intro!: yields_any)

lemma thaw_tracked: "tracked_ok m \<Longrightarrow> yields (thaw_all_frozen k m) tracked_ok"
  unfolding thaw_all_frozen_def Let_def tracked_ok_def
  by (rule yields_bind [OF thaw_fields]) (auto intro!: yields_any intro: held_by_fields)

lemma switch_tracked:
  assumes "tracked_ok m"
  shows "yields (switch_profile k hold target m) (\<lambda>r. \<forall>m'. r = Some m' \<longrightarrow> tracked_ok m')"
proof -
  have roll: "yields (mitigation_rollback k m) (\<lambda>r. \<forall>m'. r = Some m' \<longrightarrow> tracked_ok m')"
    using rollback_tracked [of k m] by (auto simp: yields_def tracked_ok_def)
  have actuate: "yields (do { e \<leftarrow> apply_power_profile k hold target (mi_engine m); return_io (map_option (\<lambda>e. m\<lparr>mi_engine := e\<rparr>) e) })
      (\<lambda>r. \<forall>m'. r = Some m' \<longrightarrow> tracked_ok m')" if "tracked_ok m" for m
    using that by (auto intro!: yields_any simp: tracked_ok_def)
  have enter: "yields (enter_profile k old target m) (\<lambda>r. \<forall>m'. r = Some m' \<longrightarrow> tracked_ok m')" if "tracked_ok m" for m old
    using that unfolding enter_profile_def
    by (auto intro!: yields_bind [OF thaw_tracked] yields_any [where m = "step_backlight_cap _ _ _"] simp: tracked_ok_def)
  have first: "yields (if target = Performance \<or> target = Balanced then mitigation_rollback k m else return_io (Some m))
      (\<lambda>r. \<forall>m'. r = Some m' \<longrightarrow> tracked_ok m')"
    using roll assms by simp
  have last: "yields (return_io (Some (m\<lparr>mi_profile := ps\<rparr>))) (\<lambda>r. \<forall>m'. r = Some m' \<longrightarrow> tracked_ok m')" if "tracked_ok m" for m ps
    using that by (simp add: tracked_ok_def)
  have chain: "yields (then_some (if target = Performance \<or> target = Balanced then mitigation_rollback k m else return_io (Some m))
           (\<lambda>m. then_some (do { e \<leftarrow> apply_power_profile k hold target (mi_engine m);
                               return_io (map_option (\<lambda>e. m\<lparr>mi_engine := e\<rparr>) e) })
             (\<lambda>m. then_some (enter_profile k old target m)
               (\<lambda>m. return_io (Some (m\<lparr>mi_profile := (mi_profile m)\<lparr>ps_current := target\<rparr>\<rparr>))))))
      (\<lambda>r. \<forall>m'. r = Some m' \<longrightarrow> tracked_ok m')" for old
    by (rule yields_then [OF first], rule yields_then [OF actuate], assumption, rule yields_then [OF enter], assumption,
        rule last, assumption) simp_all
  show ?thesis
    unfolding switch_profile_def Let_def using assms chain by simp
qed

text \<open>The public operations; \<open>None\<close> follows undefined behaviour.\<close>

datatype mitigation_op = EvaluateMitigation report bool float64 bool | RollbackMitigation | ThawMitigation
  | OverrideMitigation "power_profile option"

definition mitigation_step :: "kernel \<Rightarrow> mitigation_op \<Rightarrow> mitigation option \<Rightarrow> mitigation option io" where
  "mitigation_step k op s =
     (case s of None \<Rightarrow> return_io None
      | Some m \<Rightarrow> (case op of
          EvaluateMitigation r on_battery pct hold \<Rightarrow> do {
            r \<leftarrow> mitigation_evaluate k hold r on_battery pct m; return_io (map_option fst r) }
        | RollbackMitigation \<Rightarrow> mitigation_rollback k m
        | ThawMitigation \<Rightarrow> do { m \<leftarrow> thaw_all_frozen k m; return_io (Some m) }
        | OverrideMitigation o' \<Rightarrow> return_io (Some (m\<lparr>mi_profile := (mi_profile m)\<lparr>ps_override := o'\<rparr>\<rparr>))))"

definition mitigation_inv :: "mitigation option \<Rightarrow> history \<Rightarrow> bool" where
  "mitigation_inv s h \<longleftrightarrow> (\<forall>m. s = Some m \<longrightarrow> tracked_ok m)"

lemma periodic_tracked: "yields (periodic_shield k m) (\<lambda>m'. mi_tracked m' = mi_tracked m)"
  unfolding periodic_shield_def Let_def by (auto intro!: yields_any)

lemma performance_tracked: "tracked_ok m \<Longrightarrow> yields (performance_cycle k r m) tracked_ok"
proof -
  assume ok: "tracked_ok m"
  have one: "yields (if c then return_io m else shield_process k p m) tracked_ok" if "tracked_ok m" for c p m
    using shield_tracked [of k p m] that by (auto simp: yields_def tracked_ok_def)
  show ?thesis
    unfolding performance_cycle_def
    by (rule yields_bind [OF heal_tracked], rule yields_for) (use ok one in \<open>auto simp: tracked_ok_def\<close>)
qed

lemma evaluate_tracked:
  assumes "tracked_ok m"
  shows "yields (mitigation_evaluate k hold r on_battery pct m) (\<lambda>res. \<forall>ms. res = Some ms \<longrightarrow> tracked_ok (fst ms))"
proof -
  have loop: "yields (io_for (\<lambda>_. True) (inspect_process k hold) ps (m, st)) (\<lambda>ms. tracked_ok (fst ms))" if "tracked_ok m" for m st ps
  proof (rule yields_for)
    fix p and ms :: "mitigation \<times> status" assume "tracked_ok (fst ms)"
    then show "yields (inspect_process k hold p ms) (\<lambda>ms. tracked_ok (fst ms))"
      using inspect_tracked [of "fst ms" k hold p "snd ms"] by (simp add: case_prod_beta')
  qed (use that in simp)
  have walk: "yields (walk_dispersed g k ps i (mi_tracked m')) held_ok" if "tracked_ok m'" for g ps i m'
    using walk_held that by (simp add: tracked_ok_def)
  show ?thesis
    unfolding mitigation_evaluate_def Let_def
    apply (rule yields_bind [OF heal_tracked])
    apply (clarsimp split: prod.split)
    apply (rule yields_then [OF switch_tracked])
    using assms apply (simp add: tracked_ok_def)
    apply (rule yields_bind [OF periodic_tracked])
    apply (auto intro!: yields_bind [OF performance_tracked] yields_bind [OF loop] yields_bind [OF walk] simp: tracked_ok_def)
    done
qed

lemma mitigation_step_ok: "mitigation_inv s h \<Longrightarrow> wp (mitigation_step k op s) mitigation_inv h"
proof (cases s)
  case (Some m)
  assume "mitigation_inv s h"
  then have m: "tracked_ok m" by (simp add: Some mitigation_inv_def)
  have "yields (mitigation_step k op (Some m)) (\<lambda>r. \<forall>m'. r = Some m' \<longrightarrow> tracked_ok m')"
  proof (cases op)
    case (EvaluateMitigation r on_battery pct hold)
    then show ?thesis using evaluate_tracked [OF m] by (auto simp: mitigation_step_def intro!: yields_bind [OF evaluate_tracked [OF m]])
  next
    case RollbackMitigation
    then show ?thesis using rollback_tracked [of k m] by (auto simp: mitigation_step_def tracked_ok_def yields_def)
  next
    case ThawMitigation
    then show ?thesis by (auto simp: mitigation_step_def intro!: yields_bind [OF thaw_tracked [OF m]])
  next
    case (OverrideMitigation o')
    then show ?thesis using m by (simp add: mitigation_step_def tracked_ok_def)
  qed
  then show ?thesis using yields_wp by (fastforce simp: Some mitigation_inv_def intro: wp_mono)
qed (simp add: mitigation_step_def mitigation_inv_def wp_simps)

interpretation mitigation_machine: io_machine "mitigation_step k" mitigation_inv for k
  by unfold_locales (rule mitigation_step_ok)

definition mitigation_init :: "engine \<Rightarrow> mitigation" where
  "mitigation_init e = \<lparr>mi_engine = e, mi_profile = \<lparr>ps_override = None, ps_current = Balanced,
     ps_latch = \<lparr>crossed_30 = False, crossed_20 = False\<rparr>\<rparr>, mi_aspm_modified = False, mi_backlight_capped = False,
     mi_scan_counter = 0, mi_tracked = []\<rparr>"

text \<open>C24. Whatever evaluations, releases and profile changes run, the engine's own table holds at most 128
  entries, each for a task above the first, and at most two for one task.
\<close>

theorem mitigation_ledger_kept:
  "wp (io_for (\<lambda>_. True) (mitigation_step k) ops (Some (mitigation_init e)))
     (\<lambda>s h. case s of None \<Rightarrow> True
        | Some m \<Rightarrow> length (mi_tracked m) \<le> 128 \<and>
            list_all (\<lambda>tm. 1 < hm_pid tm \<and> entries (hm_pid tm) (mi_tracked m) \<le> 2) (mi_tracked m)) []"
  by (rule wp_mono [OF mitigation_machine.run_inv])
    (auto simp: mitigation_inv_def tracked_ok_def held_ok_def mitigation_init_def list_all_iff split: option.splits)

section \<open>A demotion that outlives its release\<close>

text \<open>The scheduling class of a task, as the calls so far have left it.\<close>

fun class_set :: "pid \<Rightarrow> history \<Rightarrow> sched_policy option" where
  "class_set p [] = None"
| "class_set p (EvSetScheduler q pol ok # h) = (if q = p \<and> ok then Some pol else class_set p h)"
| "class_set p (e # h) = class_set p h"

fun policy_code :: "sched_policy \<Rightarrow> int" where
  "policy_code SCHED_OTHER = 0" | "policy_code SCHED_BATCH = 3" | "policy_code SCHED_IDLE = 5" | "policy_code (SCHED_RAW i) = i"

text \<open>A system that takes the changes of a task's class and tells them when asked.\<close>

definition tells_class :: "kernel \<Rightarrow> pid \<Rightarrow> sched_policy \<Rightarrow> bool" where
  "tells_class k p pol0 \<longleftrightarrow>
     (\<forall>h. k_getscheduler k h p = policy_code (case class_set p h of None \<Rightarrow> pol0 | Some pol \<Rightarrow> pol)) \<and>
     (\<forall>h q pol. k_setscheduler k h q pol)"

fun no_class :: "event \<Rightarrow> bool" where
  "no_class (EvSetScheduler _ _ _) = False"
| "no_class e = True"

lemma no_class_read [simp]: "is_read_event e \<Longrightarrow> no_class e"
  by (cases e) auto

lemma class_unchanged: "emits no_class m \<Longrightarrow> wp m (\<lambda>_ h'. class_set p h' = class_set p h) h"
proof -
  assume m: "emits no_class m"
  have "class_set p (e # h') = class_set p h'" if "no_class e" for e h' using that by (cases e) auto
  then show ?thesis using wp_emits [OF m, of "\<lambda>h'. class_set p h' = class_set p h" h] by simp
qed

lemma class_after: "emits no_class m \<Longrightarrow> class_set p h = c \<Longrightarrow> (\<And>x h'. class_set p h' = c \<Longrightarrow> wp (f x) Q h') \<Longrightarrow> wp (m \<bind> f) Q h"
  by (rule wp_then [OF class_unchanged]) auto

lemma no_class_affinity: "emits no_class (set_affinity_all_tasks g k p cs)"
  unfolding set_affinity_all_tasks_def hw_defs sys_defs by (auto intro!: io_rules emits_task_ids)

lemma no_class_actions:
  "emits no_class (apply_timer_slack g k p sl)" "emits no_class (apply_memory_reclaim g k p b fo)"
  "emits no_class (apply_core_affinity_cap g k p cs)" "emits no_class (restore_core_affinity g k p cs')"
  "emits no_class (is_immune_process g k p)" "emits no_class (get_cluster_topology k cache)"
  "emits no_class (apply_cgroup_freeze g k p False)"
proof -
  show "emits no_class (apply_timer_slack g k p sl)"
    unfolding apply_timer_slack_def by (auto intro!: io_rules emits_unless_shielded emits_shields emits_write_file)
  show "emits no_class (apply_memory_reclaim g k p b fo)"
    unfolding apply_memory_reclaim_def Let_def sys_write_def by (auto intro!: io_rules emits_with_cgroup_file)
  show "emits no_class (apply_core_affinity_cap g k p cs)" and "emits no_class (restore_core_affinity g k p cs')"
    unfolding apply_core_affinity_cap_def restore_core_affinity_def
    by (auto intro!: io_rules emits_unless_shielded emits_shields no_class_affinity)
  show "emits no_class (is_immune_process g k p)" by (rule emits_shields) simp
  show "emits no_class (get_cluster_topology k cache)" by (rule io_ok_mono [OF emits_topology_reads]) auto
  show "emits no_class (apply_cgroup_freeze g k p False)"
    unfolding apply_cgroup_freeze_def sys_write_def by (auto intro!: io_rules emits_unless_shielded emits_shields emits_with_cgroup_file)
qed

lemma wp_unless: "(\<And>h. wp m Q h) \<Longrightarrow> (\<And>h. Q False h) \<Longrightarrow> wp (unless_shielded shs m) Q h"
proof (induction shs arbitrary: h)
  case (Cons sh shs)
  have "wp (if b then return_io False else unless_shielded shs m) Q h'" for b h'
    using Cons by (simp add: wp_return)
  then show ?case unfolding unless_shielded.simps wp_bind by (rule wp_any)
next
  case Nil
  show ?case unfolding unless_shielded.simps by (rule Nil(1))
qed

lemma idle_class:
  assumes "tells_class k p pol0" "\<not> gl_sandbox g"
  shows "wp (apply_sched_idle g k p) (\<lambda>ok h'. ok \<longrightarrow> class_set p h' = Some SCHED_IDLE) h"
proof -
  have "wp (do { sched_ok \<leftarrow> hw_sched_setscheduler g k p SCHED_IDLE; io_ok \<leftarrow> hw_ioprio_set g k p 3 7; return_io (sched_ok \<or> io_ok) })
      (\<lambda>ok h'. ok \<longrightarrow> class_set p h' = Some SCHED_IDLE) h" for h
    using assms by (simp add: hw_defs sys_defs wp_simps tells_class_def)
  then show ?thesis
    unfolding apply_sched_idle_def by (intro wp_ifI wp_unless) (simp_all add: wp_return)
qed

lemma restore_class:
  assumes "tells_class k p pol0" "\<not> gl_sandbox g" "1 < p" "0 \<le> pol"
  shows "wp (restore_sched_normal g k p pol nice) (\<lambda>_ h'. class_set p h' = Some (policy_of pol)) h"
proof -
  let ?C = "\<lambda>h. class_set p h = Some (policy_of pol)"
  have loop: "wp (io_for (\<lambda>_. True) (\<lambda>t _. do { hw_sched_setscheduler g k t (policy_of pol); hw_setpriority g k t nice }) tids ())
      (\<lambda>_. ?C) h" if "?C h" for tids h
    by (rule wp_for) (use that assms in \<open>auto simp: hw_defs sys_defs wp_simps tells_class_def\<close>)
  have rest: "wp (do { ts \<leftarrow> task_ids k p;
        (case ts of None \<Rightarrow> return_io ()
         | Some tids \<Rightarrow> io_for (\<lambda>_. True) (\<lambda>t _. do { hw_sched_setscheduler g k t (policy_of pol); hw_setpriority g k t nice }) tids ());
        io_ok \<leftarrow> hw_ioprio_set g k p 2 4;
        return_io (s \<or> io_ok) }) (\<lambda>_. ?C) h" if "?C h" for s h
  proof (rule class_after [OF emits_task_ids], simp, rule that, rule wp_then [where R = "\<lambda>_. ?C"])
    show "wp (case ts of None \<Rightarrow> return_io ()
       | Some tids \<Rightarrow> io_for (\<lambda>_. True) (\<lambda>t _. do { hw_sched_setscheduler g k t (policy_of pol); hw_setpriority g k t nice }) tids ())
      (\<lambda>_. ?C) h'" if "?C h'" for ts h' using that loop by (cases ts) (simp_all add: wp_return)
  qed (simp add: hw_defs sys_defs wp_simps assms)
  show ?thesis
    unfolding restore_sched_normal_def Let_def if_P [OF assms(4)]
  proof (rule wp_ifI)
    have prio: "wp (hw_setpriority g k p nice) (\<lambda>_ _. True) h" by (rule wp_any) simp
    have sched: "wp (hw_sched_setscheduler g k p (policy_of pol)) (\<lambda>_. ?C) h" for h
      using assms by (simp add: hw_defs sys_defs wp_simps tells_class_def)
    show "wp (do { hw_setpriority g k p nice; sched_ok \<leftarrow> hw_sched_setscheduler g k p (policy_of pol);
        ts \<leftarrow> task_ids k p;
        (case ts of None \<Rightarrow> return_io ()
         | Some tids \<Rightarrow> io_for (\<lambda>_. True) (\<lambda>t _. do { hw_sched_setscheduler g k t (policy_of pol); hw_setpriority g k t nice }) tids ());
        io_ok \<leftarrow> hw_ioprio_set g k p 2 4;
        return_io (sched_ok \<or> io_ok) }) (\<lambda>_. ?C) h"
      by (rule wp_then [OF prio], rule wp_then [OF sched], rule rest)
  qed (use assms in simp)
qed

lemma release_held_class:
  assumes "tells_class k p pol0" "\<not> gl_sandbox g" "1 < p" "hm_pid tm = p" "hm_batch_applied tm" "0 \<le> hm_policy tm"
  shows "wp (release_held g k tm) (\<lambda>_ h'. class_set p h' = Some (policy_of (hm_policy tm))) h"
proof -
  let ?C = "\<lambda>h. class_set p h = Some (policy_of (hm_policy tm))"
  have "wp (do { apply_timer_slack g k p sl; return_io () }) (\<lambda>_. ?C) h" if "?C h" for sl h
    by (rule class_after [OF no_class_actions(1)], rule that, simp add: wp_return)
  then have slack: "wp (io_when b (do { apply_timer_slack g k p sl; return_io () })) (\<lambda>_. ?C) h" if "?C h" for b sl h
    using that by (simp add: wp_when)
  have restored: "wp (do { io_when c (do { apply_cgroup_freeze g k p False; return_io () });
      restore_sched_normal g k p (hm_policy tm) n; return_io () }) (\<lambda>_. ?C) h" for c n h
    unfolding wp_bind wp_return by (rule wp_any, rule restore_class [OF assms(1-3,6)])
  have taken: "io_when (hm_batch_applied tm \<or> x) m = m" for x m by (simp add: io_when_def assms(5))
  show ?thesis
    unfolding release_held_def taken assms(4)
    by (rule wp_then [where R = "\<lambda>_ _. True"], rule wp_any, simp, rule wp_then [OF restored], rule slack)
qed

lemma no_class_hardware:
  assumes "engine_ok sb e"
  shows "emits no_class (hardware_release k a b e)"
proof -
  have step: "profiles.step_ok abi sb (hardware_release k a b)" for abi
    unfolding hardware_release_def
    by (rule profiles.steps) (auto intro!: profiles.step_rules profiles.knobs profiles.restore_ok profiles_may_all
        profiles.may_allD [OF profiles_may_all])
  have "no_class ev" if "profile_event abi sb ev" for abi ev using that by (cases ev) auto
  then show ?thesis
    using io_ok_mono [OF profiles.step_okD [OF step]] assms by (metis (no_types, lifting) profiles_steady)
qed

lemma heal_keeps: "yields (heal_audio k m) (\<lambda>m'. mi_tracked m' = mi_tracked m \<and>
   gl_sandbox (mi_globals m') = gl_sandbox (mi_globals m) \<and> en_platform (mi_engine m') = en_platform (mi_engine m))"
proof -
  have scan: "yields (refresh_audio_stream_state k g) (\<lambda>g'. gl_sandbox g' = gl_sandbox g)" for g
    unfolding refresh_audio_stream_state_def Let_def by (auto intro!: yields_any)
  have floor: "yields (set_audio_latency_floor k on g) (\<lambda>g'. gl_sandbox g' = gl_sandbox g)" for on g
    unfolding set_audio_latency_floor_def Let_def by (auto intro!: yields_any)
  have "yields (audit_and_heal_audio_stack k (g, b)) (\<lambda>(g', b'). gl_sandbox g' = gl_sandbox g)" for g b
    unfolding audit_and_heal_audio_stack_def fst_conv
    by (rule yields_any, rule yields_bind [OF scan], rule yields_bind [OF floor]) (auto intro!: yields_any)
  then show ?thesis
    unfolding heal_audio_def by (rule yields_bind) auto
qed

text \<open>The ladder looks its table up once, throttles, and then caps; the cap records the class the
  throttle has just set.\<close>

definition granted :: "globals \<Rightarrow> kernel \<Rightarrow> pid \<Rightarrow> bool" where
  "granted g k p \<longleftrightarrow> (\<forall>h. fst (run_state (apply_sched_idle g k p) h)) \<and>
     (\<forall>h cs. fst (run_state (apply_core_affinity_cap g k p (Some cs)) h))"

lemma granted_wp:
  "granted g k p \<Longrightarrow> wp (apply_sched_idle g k p) (\<lambda>ok _. ok) h"
  "granted g k p \<Longrightarrow> wp (apply_core_affinity_cap g k p (Some cs)) (\<lambda>ok _. ok) h"
  by (simp_all add: granted_def wp_run)

lemma granted_not_immune: "granted g k p \<Longrightarrow> 1 < p \<Longrightarrow> wp (is_immune_process g k p) (\<lambda>b _. \<not> b) h"
proof -
  assume g: "granted g k p" "1 < p"
  have "fst (run_state (apply_sched_idle g k p) h)" using g by (simp add: granted_def)
  moreover have "\<not> fst (run_state (apply_sched_idle g k p) h)" if "fst (run_state (is_immune_process g k p) h)"
    using g(2) that by (cases "run_state (is_immune_process g k p) h") (simp add: apply_sched_idle_def unless_shielded.simps(2))
  ultimately show ?thesis by (auto simp: wp_run)
qed

definition twice_held :: "mitigation \<Rightarrow> pid \<Rightarrow> mitigation \<Rightarrow> bool" where
  "twice_held m p m' \<longleftrightarrow> (\<exists>e1 e2. mi_tracked m' = mi_tracked m @ [e1, e2] \<and> hm_pid e1 = p \<and> hm_pid e2 = p \<and>
     hm_batch_applied e2 \<and> hm_policy e2 = 5)"

lemma throttle_once:
  assumes "tells_class k (pp_pid p) pol0" "\<not> gl_sandbox (mi_globals m)" "granted (mi_globals m) k (pp_pid p)"
    "length (mi_tracked m) < MAX_TRACKED_MITIGATIONS"
  shows "wp (throttle_held k p (m, st)) (\<lambda>ms h. (\<exists>e1. fst ms = m\<lparr>mi_tracked := mi_tracked m @ [e1]\<rparr> \<and> hm_pid e1 = pp_pid p) \<and>
     class_set (pp_pid p) h = Some SCHED_IDLE) h"
proof -
  have idle: "wp (apply_sched_idle (mi_globals m) k (pp_pid p)) (\<lambda>ok h. ok \<and> class_set (pp_pid p) h = Some SCHED_IDLE) h" for h
    by (rule wp_mono [OF wp_both [OF granted_wp(1) [OF assms(3)] idle_class [OF assms(1,2)]]]) auto
  show ?thesis
    unfolding throttle_held_def Let_def prod.case if_not_P [OF linorder_not_le [THEN iffD2, OF assms(4)]]
    by (rule wp_then [where R = "\<lambda>_ _. True"], rule wp_any, simp, rule wp_then [where R = "\<lambda>_ _. True"], rule wp_any, simp,
        rule wp_then [where R = "\<lambda>_ _. True"], rule wp_any, simp, rule wp_then [OF idle]) (auto simp: wp_return)
qed

lemma cap_after_throttle:
  assumes "tells_class k (pp_pid p) pol0" "granted (mi_globals m) k (pp_pid p)" "length (mi_tracked m) < MAX_TRACKED_MITIGATIONS"
    "class_set (pp_pid p) h = Some SCHED_IDLE"
  shows "wp (cap_held k False p m) (\<lambda>m' _. (\<exists>e2. mi_tracked m' = mi_tracked m @ [e2] \<and> hm_pid e2 = pp_pid p \<and>
     hm_batch_applied e2 \<and> hm_policy e2 = 5) \<and> mi_globals m' = mi_globals m \<and> en_platform (mi_engine m') = en_platform (mi_engine m)) h"
proof -
  have pol: "wp (sys_getscheduler k (pp_pid p)) (\<lambda>pol _. pol = 5) h'" if "class_set (pp_pid p) h' = Some SCHED_IDLE" for h'
    using assms(1) that by (simp add: sys_getscheduler_def wp_simps tells_class_def)
  have nice: "wp (sys_getpriority k (pp_pid p)) (\<lambda>_ h'. class_set (pp_pid p) h' = Some SCHED_IDLE) h"
    using assms(4) by (simp add: sys_getpriority_def wp_simps)
  let ?Q = "\<lambda>m' _. (\<exists>e2. mi_tracked m' = mi_tracked m @ [e2] \<and> hm_pid e2 = pp_pid p \<and>
     hm_batch_applied e2 \<and> hm_policy e2 = 5) \<and> mi_globals m' = mi_globals m \<and> en_platform (mi_engine m') = en_platform (mi_engine m)"
  have recorded: "wp (record_cap k False p e m') ?Q h"
    if "hm_pid e = pp_pid p" "hm_batch_applied e" "hm_policy e = 5" "m' = m\<lparr>mi_engine := (mi_engine m)\<lparr>en_topology := tp\<rparr>\<rparr>" for e m' tp h
    unfolding record_cap_def Let_def wp_bind wp_return by (rule wp_any) (use that assms(3) in simp)
  have on: "wp (cap_on k False p (record_held p AffinityCap n 5 aff) t m') ?Q h"
    if "m' = m\<lparr>mi_engine := (mi_engine m)\<lparr>en_topology := tp\<rparr>\<rparr>" for n aff t m' tp h
  proof -
    have "granted (mi_globals m') k (pp_pid p)" using assms(2) that by simp
    then show ?thesis
      unfolding cap_on_def Let_def
      by (rule wp_then [OF granted_wp(2)]) (use that in \<open>auto intro!: recorded simp: record_held_def\<close>)
  qed
  have last: "wp (case r of (t, tp) \<Rightarrow> cap_on k False p (record_held p AffinityCap n 5 aff) t
      (m\<lparr>mi_engine := (mi_engine m)\<lparr>en_topology := tp\<rparr>\<rparr>)) ?Q h" for r n aff h
    by (cases r) (simp add: on)
  show ?thesis
    unfolding cap_held_def
    by (rule wp_then [OF nice], rule wp_then [OF pol], assumption, hypsubst, rule wp_then [where R = "\<lambda>_ _. True"], rule wp_any, simp,
        rule wp_then [where R = "\<lambda>_ _. True"], rule wp_any, simp, rule last)
qed

lemma no_class_ladder: "emits no_class (relax_held k p ms)" "emits no_class (reclaim_held k hold p bts w ms)"
  unfolding relax_held_def reclaim_held_def by (auto intro!: io_rules no_class_actions)

definition once_held :: "mitigation \<Rightarrow> pid \<Rightarrow> mitigation \<times> status \<Rightarrow> history \<Rightarrow> bool" where
  "once_held m p ms h \<longleftrightarrow> (\<exists>e1. fst ms = m\<lparr>mi_tracked := mi_tracked m @ [e1]\<rparr> \<and> hm_pid e1 = p) \<and> class_set p h = Some SCHED_IDLE"

lemma once_kept:
  "once_held m q ms h \<Longrightarrow> wp (if b then relax_held k p ms else return_io ms) (once_held m q) h"
  "once_held m q ms h \<Longrightarrow> wp (if b then reclaim_held k hold p bts w ms else return_io ms) (once_held m q) h"
proof -
  have keep: "wp n (once_held m q) h" if "yields n (\<lambda>ms'. fst ms' = fst ms)" "emits no_class n" "once_held m q ms h" for n
    by (rule wp_mono [OF wp_both [OF yields_wp [OF that(1)] class_unchanged [OF that(2), of q]]])
      (use that(3) in \<open>auto simp: once_held_def\<close>)
  assume "once_held m q ms h"
  then show "wp (if b then relax_held k p ms else return_io ms) (once_held m q) h"
    and "wp (if b then reclaim_held k hold p bts w ms else return_io ms) (once_held m q) h"
    by (auto intro!: keep ladder_keeps no_class_ladder simp: wp_return)
qed

definition seconded :: "mitigation \<Rightarrow> pid \<Rightarrow> mitigation \<Rightarrow> bool" where
  "seconded m p m' \<longleftrightarrow> engine_ok False (mi_engine m') \<and> twice_held m p m'"

lemma once_then_cap:
  assumes "tells_class k (pp_pid p) pol0" "granted (mi_globals m) k (pp_pid p)" "engine_ok False (mi_engine m)"
    "length (mi_tracked m) + 2 \<le> 128" "once_held m (pp_pid p) ms h"
  shows "wp (do { m' \<leftarrow> cap_held k False p (fst ms); return_io (m', snd ms) }) (\<lambda>ms _. seconded m (pp_pid p) (fst ms)) h"
proof -
  obtain e1 where e1: "fst ms = m\<lparr>mi_tracked := mi_tracked m @ [e1]\<rparr>" "hm_pid e1 = pp_pid p"
    and idle: "class_set (pp_pid p) h = Some SCHED_IDLE" using assms(5) by (auto simp: once_held_def)
  have "wp (cap_held k False p (fst ms)) (\<lambda>m' _. seconded m (pp_pid p) m') h"
    by (rule wp_mono [OF cap_after_throttle [OF assms(1) _ _ idle]])
      (use e1 assms(2-4) in \<open>auto simp: twice_held_def engine_ok_def seconded_def\<close>)
  then show ?thesis unfolding wp_bind wp_return fst_conv .
qed

lemma once_not_immune:
  assumes "granted (mi_globals m) k p" "1 < p" "once_held m p ms h"
  shows "wp (is_immune_process (mi_globals (fst ms)) k p) (\<lambda>b h. \<not> b \<and> once_held m p ms h) h"
proof -
  have g: "granted (mi_globals (fst ms)) k p" using assms(1,3) by (auto simp: once_held_def)
  show ?thesis
    by (rule wp_mono [OF wp_both [OF granted_not_immune [OF g assms(2)] class_unchanged [where p = p, OF no_class_actions(5)]]])
      (use assms(3) in \<open>auto simp: once_held_def\<close>)
qed

lemma ladder_twice:
  assumes "tells_class k (pp_pid p) pol0" "granted (mi_globals m) k (pp_pid p)" "engine_ok False (mi_engine m)"
    "1 < pp_pid p" "length (mi_tracked m) + 2 \<le> 128" "\<not> held_for (pp_pid p) (mi_tracked m)"
    "held_throttle (ps_current (mi_profile m)) p" "held_cap (ps_current (mi_profile m)) p"
    "\<not> (has_tier p CriticalImmune \<or> has_tier p DesktopCore)"
  shows "wp (worker_ladder k hold p (m, st)) (\<lambda>ms _. seconded m (pp_pid p) (fst ms)) h"
proof -
  let ?R = "once_held m (pp_pid p)"
  have sb: "\<not> gl_sandbox (mi_globals m)" using assms(3) by (simp add: engine_ok_def)
  have throttle: "wp (if held_throttle (ps_current (mi_profile m)) p \<and> \<not> held_for (pp_pid p) (mi_tracked m)
      then throttle_held k p (m, st) else return_io (m, st)) ?R h"
    using throttle_once [OF assms(1) sb assms(2), of st h] assms(5,6,7) by (simp add: once_held_def [abs_def])
  have immune: "wp (if has_tier p CriticalImmune \<or> has_tier p DesktopCore then return_io True
      else is_immune_process (mi_globals (fst ms)) k (pp_pid p)) (\<lambda>b h. \<not> b \<and> ?R ms h) h" if "?R ms h" for ms h
    using once_not_immune [OF assms(2,4) that] assms(9) by simp
  have cap: "wp (if b \<or> \<not> held_cap (ps_current (mi_profile m)) p then return_io ms
      else do { m' \<leftarrow> cap_held k (held_for (pp_pid p) (mi_tracked m)) p (fst ms); return_io (m', snd ms) })
      (\<lambda>ms _. seconded m (pp_pid p) (fst ms)) h" if "\<not> b \<and> ?R ms h" for ms b h
    using once_then_cap [OF assms(1,2,3,5)] that assms(6,8) by simp
  show ?thesis
    unfolding worker_ladder_def Let_def fst_conv
    by (rule wp_then [OF throttle], rule wp_then [OF once_kept(1)], assumption, rule wp_then [OF once_kept(2)], assumption,
        rule wp_then [OF immune], assumption, rule cap)
qed

lemma rollback_leaves_idle:
  assumes "tells_class k p pol0" "1 < p" "seconded m p m'"
  shows "wp (mitigation_rollback k m') (\<lambda>r h. class_set p h = Some SCHED_IDLE) h"
proof -
  let ?I = "\<lambda>h. class_set p h = Some SCHED_IDLE"
  obtain e1 e2 where tms: "mi_tracked m' = (mi_tracked m @ [e1]) @ [e2]" and e2: "hm_pid e2 = p" "hm_batch_applied e2" "hm_policy e2 = 5"
    using assms(3) by (auto simp: seconded_def twice_held_def)
  have table: "wp (release_table g k (mi_tracked m')) (\<lambda>_. ?I) h" if "\<not> gl_sandbox g" for g h
  proof -
    have "wp (release_held g k e2) (\<lambda>_. ?I) h" for h
      using release_held_class [OF assms(1) that assms(2) e2(1,2)] e2(3) by (simp add: policy_of_def)
    then show ?thesis
      unfolding release_table_def tms io_for_snoc by (rule wp_then [where R = "\<lambda>_ _. True", rotated]) (rule wp_any, simp)
  qed
  have heal: "wp (heal_audio k m') (\<lambda>n _. mi_tracked n = mi_tracked m' \<and> engine_ok False (mi_engine n)) h"
    by (rule wp_mono [OF yields_wp [OF heal_keeps]]) (use assms(3) in \<open>auto simp: seconded_def engine_ok_def\<close>)
  have rest: "wp (do { release_table (mi_globals n) k (mi_tracked n);
      e \<leftarrow> hardware_release k a b (mi_engine n); return_io (f e) }) (\<lambda>_. ?I) h"
    if "mi_tracked n = mi_tracked m' \<and> engine_ok False (mi_engine n)" for n a b h and f :: "engine option \<Rightarrow> mitigation option"
  proof -
    have t: "wp (release_table (mi_globals n) k (mi_tracked n)) (\<lambda>_. ?I) h" using that table by (simp add: engine_ok_def)
    have "emits no_class (hardware_release k a b (mi_engine n))" using that by (blast intro: no_class_hardware)
    then show ?thesis
      by (intro wp_then [OF t] class_after [where c = "Some SCHED_IDLE" and p = p]) (simp_all add: wp_return)
  qed
  show ?thesis
    unfolding mitigation_rollback_def by (rule wp_then [OF heal], rule rest)
qed

text \<open>C25. A task that the ladder throttles and caps in one pass is recorded twice, the second time with
  the idle class the throttle has just set as its original one.  So the release leaves it in the idle class for
  good: on a system that takes and tells the class, after one inspection and the release of the table the
  last class set is idle, whatever it was before.
\<close>

theorem idle_outlives_release:
  assumes "tells_class k (pp_pid p) pol0" "granted (mi_globals m) k (pp_pid p)" "engine_ok False (mi_engine m)"
    "1 < pp_pid p" "length (mi_tracked m) + 2 \<le> 128" "\<not> held_for (pp_pid p) (mi_tracked m)"
    "held_throttle (ps_current (mi_profile m)) p" "held_cap (ps_current (mi_profile m)) p"
    "\<forall>h. \<not> fst (run_state (is_user_app_tree k (pp_pid p)) h)"
  shows "wp (do { ms \<leftarrow> inspect_process k hold p (m, st); r \<leftarrow> mitigation_rollback k (fst ms); return_io (fst ms, r) })
    (\<lambda>(m', r) h. twice_held m (pp_pid p) m' \<and> (\<forall>m2. r = Some m2 \<longrightarrow> mi_tracked m2 = []) \<and>
       class_set (pp_pid p) h = Some SCHED_IDLE) h"
proof -
  have tiers: "\<not> has_tier p DesktopCore" "\<not> has_tier p CriticalImmune" "\<not> has_tier p UserInteractive" "\<not> has_tier p DesktopShell"
    using assms(7) by (auto simp: held_throttle_def split: if_splits)
  have user: "wp (if has_tier p UserInteractive then return_io True else is_user_app_tree k (pp_pid p)) (\<lambda>b _. \<not> b) h"
    using tiers assms(9) by (simp add: wp_run)
  have inspect: "wp (inspect_process k hold p (m, st)) (\<lambda>ms _. seconded m (pp_pid p) (fst ms)) h"
  proof -
    have "wp (do { user \<leftarrow> is_user_app_tree k (pp_pid p); if user then return_io (m, st) else worker_ladder k hold p (m, st) })
        (\<lambda>ms _. seconded m (pp_pid p) (fst ms)) h"
      by (rule wp_then [where R = "\<lambda>b _. \<not> b"]) (use tiers user ladder_twice [OF assms(1-8)] in simp_all)
    then show ?thesis unfolding inspect_process_def using tiers assms(4) by simp
  qed
  have release: "wp (mitigation_rollback k m') (\<lambda>r h. (\<forall>m2. r = Some m2 \<longrightarrow> mi_tracked m2 = []) \<and>
      class_set (pp_pid p) h = Some SCHED_IDLE) h" if "seconded m (pp_pid p) m'" for m' h
    by (rule wp_both [OF yields_wp [OF rollback_tracked] rollback_leaves_idle [OF assms(1,4) that]])
  have both: "wp (do { r \<leftarrow> mitigation_rollback k m'; return_io (m', r) }) (\<lambda>(m', r) h. twice_held m (pp_pid p) m' \<and>
      (\<forall>m2. r = Some m2 \<longrightarrow> mi_tracked m2 = []) \<and> class_set (pp_pid p) h = Some SCHED_IDLE) h" if "seconded m (pp_pid p) m'" for m' h
    by (rule wp_then [OF release [OF that]]) (use that in \<open>simp add: wp_return seconded_def\<close>)
  show ?thesis
    by (rule wp_then [OF inspect], rule both)
qed

definition honest_kernel :: kernel where
  "honest_kernel = quiet_kernel\<lparr>k_setscheduler := (\<lambda>_ _ _. True), k_setaffinity := (\<lambda>_ _ _. True),
     k_getscheduler := (\<lambda>h p. policy_code (case class_set p h of None \<Rightarrow> SCHED_OTHER | Some pol \<Rightarrow> pol))\<rparr>"

definition indexer :: proc_power where
  "indexer = (example_proc 500 ''baloo_file'' BackgroundWorker 900000)\<lparr>pp_is_runaway := True\<rparr>"

definition ultra_mitigation :: mitigation where
  "ultra_mitigation = (mitigation_init example_engine)\<lparr>mi_profile := \<lparr>ps_override = None, ps_current = UltraEndurance,
     ps_latch = \<lparr>crossed_30 = False, crossed_20 = False\<rparr>\<rparr>\<rparr>"

lemma indexer_granted: "granted (mi_globals ultra_mitigation) honest_kernel (pp_pid indexer)"
  by (simp add: granted_def apply_sched_idle_def apply_core_affinity_cap_def unless_shielded.simps set_affinity_all_tasks_def
      shield_defs hw_defs sys_defs task_ids_def honest_kernel_def quiet_kernel_def indexer_def example_proc_def
      ultra_mitigation_def mitigation_init_def example_engine_def)

theorem idle_outlives_release_witness:
  "wp (do { ms \<leftarrow> inspect_process honest_kernel False indexer (ultra_mitigation, status_init);
      r \<leftarrow> mitigation_rollback honest_kernel (fst ms); return_io (fst ms, r) })
    (\<lambda>(m', r) h. twice_held ultra_mitigation (pp_pid indexer) m' \<and>
      (\<forall>m2. r = Some m2 \<longrightarrow> mi_tracked m2 = []) \<and> class_set (pp_pid indexer) h = Some SCHED_IDLE) []"
proof (rule idle_outlives_release [OF _ indexer_granted])
  show "tells_class honest_kernel (pp_pid indexer) SCHED_OTHER" by (simp add: tells_class_def honest_kernel_def)
  show "engine_ok False (mi_engine ultra_mitigation)"
    by (simp add: ultra_mitigation_def mitigation_init_def engine_ok_def example_engine_def platform_init_def)
  show "\<forall>h. \<not> fst (run_state (is_user_app_tree honest_kernel (pp_pid indexer)) h)"
    by (simp add: is_user_app_tree_def numeral_eq_Suc read_proc_ppid_def read_some_def read_small_file_def sys_read_file_def honest_kernel_def
        quiet_kernel_def indexer_def example_proc_def)
qed (simp_all add: indexer_def example_proc_def ultra_mitigation_def mitigation_init_def held_for_def held_throttle_def held_cap_def)

end
