(* ===== verification/Coordinator.thy ===== *)
theory Coordinator
  imports Mitigation_Release Window_Governor
begin

text \<open>
  The rollback coordinator (\<^verbatim>\<open>src/policy/unified_rollback_coordinator.cpp\<close>): one call that releases the
  windows and then the mitigations and the hardware, with a state of its own that is to spare it.
\<close>

record rollback_state =
  rb_last_ns :: u64
  rb_executed :: u32
  rb_clean :: bool

definition rollback_state_init :: rollback_state where
  "rollback_state_init = \<lparr>rb_last_ns = 0, rb_executed = 0, rb_clean = True\<rparr>"

definition nothing_tracked :: "mitigation \<Rightarrow> governor \<Rightarrow> bool" where
  "nothing_tracked m gv \<longleftrightarrow> gv_windows gv = [] \<and> \<not> sn_active (gv_active gv) \<and> mi_tracked m = []"

definition execute_rapid_rollback ::
  "kernel \<Rightarrow> u64 \<Rightarrow> rollback_state \<times> mitigation \<times> governor \<Rightarrow> (rollback_state \<times> mitigation \<times> governor) option io" where
  "execute_rapid_rollback k now_ns s =
     (let (rs, m, gv) = s
      in if rb_clean rs \<and> nothing_tracked m gv then return_io (Some s)
         else do {
           gv \<leftarrow> governor_rollback (mi_globals m) k gv;
           r \<leftarrow> mitigation_rollback k m;
           return_io (map_option (\<lambda>m. (rs\<lparr>rb_last_ns := now_ns, rb_executed := rb_executed rs + 1, rb_clean := True\<rparr>, m, gv)) r)
         })"

text \<open>A release while something happened in between: the engine and the governor are whatever they are by then.\<close>

definition coordinator_step ::
  "kernel \<Rightarrow> u64 \<times> mitigation \<times> governor \<Rightarrow> rollback_state option \<Rightarrow> rollback_state option io" where
  "coordinator_step k op rs =
     (case rs of None \<Rightarrow> return_io None
      | Some rs \<Rightarrow> do { r \<leftarrow> execute_rapid_rollback k (fst op) (rs, snd op); return_io (map_option fst r) })"

definition still_clean :: "rollback_state option \<Rightarrow> history \<Rightarrow> bool" where
  "still_clean s h \<longleftrightarrow> (\<forall>rs. s = Some rs \<longrightarrow> rb_clean rs)"

lemma rapid_keeps_clean:
  "rb_clean rs \<Longrightarrow> yields (execute_rapid_rollback k now (rs, m, gv)) (\<lambda>r. \<forall>s. r = Some s \<longrightarrow> rb_clean (fst s))"
  unfolding execute_rapid_rollback_def Let_def by (auto intro!: yields_any)

lemma coordinator_step_ok: "still_clean s h \<Longrightarrow> wp (coordinator_step k op s) still_clean h"
proof (cases s)
  case (Some rs)
  assume "still_clean s h"
  then have "rb_clean rs" by (simp add: Some still_clean_def)
  moreover obtain now m gv where "op = (now, m, gv)" by (cases op)
  ultimately have "yields (coordinator_step k op s) (\<lambda>s'. \<forall>rs'. s' = Some rs' \<longrightarrow> rb_clean rs')"
    by (auto simp: coordinator_step_def Some intro!: yields_bind [OF rapid_keeps_clean])
  then show ?thesis using yields_wp by (fastforce simp: still_clean_def intro: wp_mono)
qed (simp add: coordinator_step_def still_clean_def wp_simps)

interpretation coordinator_machine: io_machine "coordinator_step k" still_clean for k
  by unfold_locales (rule coordinator_step_ok)

text \<open>The flag that tells a clean baseline starts set and is never cleared.  So after any releases, with any
  state of the engine and the governor at each of them, a release that finds both tables empty returns at
  once: it makes no call and changes nothing, also when the engine has the link policy, the backlight or
  any other hardware setting modified.
\<close>

theorem rapid_rollback_skips_hardware:
  assumes "nothing_tracked m gv"
  shows "wp (io_for (\<lambda>_. True) (coordinator_step k) ops (Some rollback_state_init))
    (\<lambda>s h. \<forall>rs. s = Some rs \<longrightarrow> run_state (execute_rapid_rollback k now (rs, m, gv)) h = (Some (rs, m, gv), h)) []"
  by (rule wp_mono [OF coordinator_machine.run_inv])
    (use assms in \<open>auto simp: still_clean_def rollback_state_init_def execute_rapid_rollback_def\<close>)

theorem rapid_rollback_skips_hardware_witness:
  "wp (io_for (\<lambda>_. True) (coordinator_step quiet_kernel) [] (Some rollback_state_init))
    (\<lambda>s h. \<forall>rs. s = Some rs \<longrightarrow> run_state (execute_rapid_rollback quiet_kernel 7
       (rs, ultra_mitigation\<lparr>mi_aspm_modified := True, mi_backlight_capped := True\<rparr>, governor_init None)) h =
     (Some (rs, ultra_mitigation\<lparr>mi_aspm_modified := True, mi_backlight_capped := True\<rparr>, governor_init None), h)) []"
  by (rule rapid_rollback_skips_hardware)
    (simp add: nothing_tracked_def governor_init_def snapshot_init_def ultra_mitigation_def mitigation_init_def)

text \<open>Otherwise everything is released.\<close>

lemma rapid_rollback_releases:
  "\<not> nothing_tracked m gv \<Longrightarrow>
   yields (execute_rapid_rollback k now (rs, m, gv)) (\<lambda>r. \<forall>rs' m' gv'. r = Some (rs', m', gv') \<longrightarrow> mi_tracked m' = [] \<and>
     \<not> mi_aspm_modified m' \<and> \<not> mi_backlight_capped m' \<and> rb_executed rs' = rb_executed rs + 1 \<and> rb_last_ns rs' = now)"
  unfolding execute_rapid_rollback_def mitigation_rollback_def Let_def by (auto intro!: yields_any)

end
