(* ===== verification/Bus_Controller.thy ===== *)
theory Bus_Controller
  imports Actuators Machines
begin

text \<open>
  The hardware bus controller (\<^verbatim>\<open>src/policy/hardware_bus_controller.cpp\<close>): on battery it lowers the
  power of the panel, the PCI links, the audio codec, the statistics timer and a few PCI devices, and
  on mains or in Performance it writes the captured baseline back.
\<close>

section \<open>Files\<close>

text \<open>A plain open, one write, close; unlike the actuators it does not look at the sandbox.\<close>

definition bus_write :: "kernel \<Rightarrow> string \<Rightarrow> string \<Rightarrow> bool io" where
  "bus_write k path str =
     (if path = [] then return_io False
      else do {
        ok \<leftarrow> sys_open_write k path;
        if \<not> ok then return_io False
        else do { w \<leftarrow> sys_write k path str; return_io (w = int (length str)) }
      })"

definition read_small_text :: "kernel \<Rightarrow> string \<Rightarrow> nat \<Rightarrow> string option io" where
  "read_small_text k path max_len =
     (if path = [] then return_io None
      else do {
        r \<leftarrow> sys_read_file k path (max_len - 1);
        return_io (case r of None \<Rightarrow> None | Some s \<Rightarrow> if s = [] then None else Some s)
      })"

abbreviation "BUS_ASPM \<equiv> ''/sys/module/pcie_aspm/parameters/policy''"
abbreviation "BUS_HDA \<equiv> ''/sys/module/snd_hda_intel/parameters/power_save''"
abbreviation "BUS_VM_STAT \<equiv> ''/proc/sys/vm/stat_interval''"
abbreviation "BUS_ETH_PCI \<equiv> ''/sys/bus/pci/devices/0000:02:00.0''"

definition abm_candidates :: "string list" where
  "abm_candidates = [''/sys/class/drm/card1-eDP-1/amdgpu/panel_power_savings'',
     ''/sys/class/drm/card0-eDP-1/amdgpu/panel_power_savings'']"

definition eth_candidates :: "string list" where
  "eth_candidates = [''/sys/class/net/enp2s0f0/carrier'', ''/sys/class/net/eth0/carrier'']"

definition aux_pci :: "string list" where
  "aux_pci = [''/sys/bus/pci/devices/0000:02:00.1'', ''/sys/bus/pci/devices/0000:02:00.2'',
     ''/sys/bus/pci/devices/0000:02:00.3'', ''/sys/bus/pci/devices/0000:02:00.4'', ''/sys/bus/pci/devices/0000:06:00.1'']"

definition power_control :: "string \<Rightarrow> string" where
  "power_control dev = dev @ ''/power/control''"

section \<open>Primitives\<close>

definition line_of :: "u32 \<Rightarrow> string" where
  "line_of v = show_nat (unat v) @ [NL]"

definition set_display_abm :: "kernel \<Rightarrow> string \<Rightarrow> u32 \<Rightarrow> bool io" where
  "set_display_abm k path level = (if path = [] then return_io False else bus_write k path (line_of (min level 4)))"

definition set_pcie_aspm :: "kernel \<Rightarrow> string \<Rightarrow> bool io" where
  "set_pcie_aspm k pol =
     (if pol = [] then return_io False else bus_write k BUS_ASPM (snprintf_cut 64 (pol @ [NL])))"

definition set_hda_power_save :: "kernel \<Rightarrow> u32 \<Rightarrow> bool io" where
  "set_hda_power_save k seconds = bus_write k BUS_HDA (line_of seconds)"

definition clamp_stat_interval :: "u32 \<Rightarrow> u32" where
  "clamp_stat_interval seconds = max 1 (min seconds 60)"

definition set_vm_stat_interval :: "kernel \<Rightarrow> u32 \<Rightarrow> bool io" where
  "set_vm_stat_interval k seconds = bus_write k BUS_VM_STAT (line_of (clamp_stat_interval seconds))"

definition set_pci_power_control :: "kernel \<Rightarrow> string \<Rightarrow> bool \<Rightarrow> bool io" where
  "set_pci_power_control k dev auto_suspend =
     (if dev = [] then return_io False
      else bus_write k (snprintf_cut 160 (power_control dev)) ((if auto_suspend then ''auto'' else ''on'') @ [NL]))"

definition is_ethernet_carrier_connected :: "kernel \<Rightarrow> string \<Rightarrow> bool io" where
  "is_ethernet_carrier_connected k path = do {
     r \<leftarrow> read_small_text k path 16;
     return_io (case r of None \<Rightarrow> False | Some s \<Rightarrow> hd s = CHR ''1'')
   }"

section \<open>The baseline\<close>

record bus_baseline =
  bb_captured :: bool
  bb_abm_level :: u32
  bb_aspm :: string
  bb_hda :: u32
  bb_vm_stat :: u32
  bb_abm_path :: string
  bb_has_abm :: bool
  bb_pci_path :: string
  bb_has_pci :: bool
  bb_carrier :: string

record bus_controller =
  bc_base :: bus_baseline
  bc_applied :: bool
  bc_last_on_battery :: bool
  bc_last_mode :: power_profile

definition bus_init :: bus_controller where
  "bus_init = \<lparr>bc_base = \<lparr>bb_captured = False, bb_abm_level = 0, bb_aspm = ''default'', bb_hda = 10, bb_vm_stat = 1,
       bb_abm_path = [], bb_has_abm = False, bb_pci_path = [], bb_has_pci = False, bb_carrier = []\<rparr>,
     bc_applied = False, bc_last_on_battery = False, bc_last_mode = Balanced\<rparr>"

definition number_in :: "string \<Rightarrow> u32" where
  "number_in s = ucast (fst (strtoul (c_str s)))"

text \<open>The first candidate that can be read.\<close>

fun capture_abm :: "kernel \<Rightarrow> string list \<Rightarrow> bus_baseline \<Rightarrow> bus_baseline io" where
  "capture_abm k [] b = return_io b"
| "capture_abm k (p # ps) b = do {
     r \<leftarrow> read_small_text k p 16;
     case r of None \<Rightarrow> capture_abm k ps b
     | Some s \<Rightarrow> return_io (b\<lparr>bb_abm_path := p, bb_has_abm := True, bb_abm_level := number_in s\<rparr>)
   }"

text \<open>The policy between the first brackets, cut to the field.\<close>

definition bracketed :: "string \<Rightarrow> string option" where
  "bracketed s =
     (let i = length (takeWhile (\<lambda>c. c \<noteq> CHR ''['') s); j = length (takeWhile (\<lambda>c. c \<noteq> CHR '']'') s)
      in if i < length s \<and> j < length s \<and> i + 1 < j then Some (take (min (j - i - 1) 31) (drop (i + 1) s)) else None)"

definition capture_aspm :: "kernel \<Rightarrow> bus_baseline \<Rightarrow> bus_baseline io" where
  "capture_aspm k b = do {
     r \<leftarrow> read_small_text k BUS_ASPM 128;
     return_io (case r of None \<Rightarrow> b
       | Some s \<Rightarrow> b\<lparr>bb_aspm := (case bracketed (c_str s) of Some pol \<Rightarrow> pol | None \<Rightarrow> ''default'')\<rparr>)
   }"

fun first_path :: "(string \<Rightarrow> bool io) \<Rightarrow> string list \<Rightarrow> string option io" where
  "first_path test [] = return_io None"
| "first_path test (p # ps) = do { ok \<leftarrow> test p; if ok then return_io (Some p) else first_path test ps }"

definition bus_capture :: "kernel \<Rightarrow> bus_baseline \<Rightarrow> bus_baseline io" where
  "bus_capture k b = do {
     b \<leftarrow> capture_abm k abm_candidates b;
     b \<leftarrow> capture_aspm k b;
     hda \<leftarrow> read_small_text k BUS_HDA 16;
     vm \<leftarrow> read_small_text k BUS_VM_STAT 16;
     carrier \<leftarrow> first_path (sys_access_r k) eth_candidates;
     pci \<leftarrow> first_path (sys_exists k) [BUS_ETH_PCI];
     return_io (b\<lparr>bb_hda := (case hda of None \<Rightarrow> bb_hda b | Some s \<Rightarrow> number_in s),
       bb_vm_stat := (case vm of None \<Rightarrow> bb_vm_stat b | Some s \<Rightarrow> number_in s),
       bb_carrier := (case carrier of None \<Rightarrow> bb_carrier b | Some p \<Rightarrow> p),
       bb_pci_path := (case pci of None \<Rightarrow> bb_pci_path b | Some p \<Rightarrow> p),
       bb_has_pci := (bb_has_pci b \<or> pci \<noteq> None), bb_captured := True\<rparr>)
   }"

definition bus_initialize :: "kernel \<Rightarrow> bus_controller \<Rightarrow> bus_controller io" where
  "bus_initialize k c =
     (if bb_captured (bc_base c) then return_io c
      else do { b \<leftarrow> bus_capture k (bc_base c); return_io (c\<lparr>bc_base := b\<rparr>) })"

section \<open>Applying and restoring\<close>

definition set_aux_pci :: "kernel \<Rightarrow> bool \<Rightarrow> unit io" where
  "set_aux_pci k auto_suspend = io_for (\<lambda>_. True) (\<lambda>dev _. do {
     there \<leftarrow> sys_exists k dev;
     io_when there (do { set_pci_power_control k dev auto_suspend; return_io () })
   }) aux_pci ()"

definition bus_rollback :: "kernel \<Rightarrow> bus_controller \<Rightarrow> bus_controller io" where
  "bus_rollback k c =
     (let b = bc_base c
      in if \<not> bb_captured b then return_io c
         else do {
           io_when (bb_has_abm b) (do { set_display_abm k (bb_abm_path b) (bb_abm_level b); return_io () });
           set_pcie_aspm k (bb_aspm b);
           set_hda_power_save k (bb_hda b);
           set_vm_stat_interval k (bb_vm_stat b);
           io_when (bb_has_pci b) (do { set_pci_power_control k (bb_pci_path b) False; set_aux_pci k False });
           io_when (bc_applied c) (log_event (EvRollback 0));
           return_io (c\<lparr>bc_applied := False\<rparr>)
         })"

definition bus_apply :: "kernel \<Rightarrow> power_profile \<Rightarrow> bus_baseline \<Rightarrow> unit io" where
  "bus_apply k mode b = do {
     io_when (bb_has_abm b) (do { set_display_abm k (bb_abm_path b) (if mode = Balanced then 2 else 3); return_io () });
     set_pcie_aspm k ''powersave'';
     set_hda_power_save k 1;
     set_vm_stat_interval k 10;
     io_when (bb_has_pci b) (do {
       carrier \<leftarrow> is_ethernet_carrier_connected k (bb_carrier b);
       set_pci_power_control k (bb_pci_path b) (\<not> carrier);
       set_aux_pci k True
     })
   }"

definition bus_evaluate :: "kernel \<Rightarrow> bool \<Rightarrow> power_profile \<Rightarrow> bus_controller \<Rightarrow> bus_controller io" where
  "bus_evaluate k on_battery mode c = do {
     c \<leftarrow> bus_initialize k c;
     c \<leftarrow> (if \<not> on_battery \<or> mode = Performance
           then if bc_applied c then bus_rollback k c else return_io c
           else do {
             bus_apply k mode (bc_base c);
             io_when (\<not> bc_applied c) (log_event (EvMitigation 0 ''HardwareBus'' ''BusAndDisplayPowerSave''));
             return_io (c\<lparr>bc_applied := True\<rparr>)
           });
     return_io (c\<lparr>bc_last_on_battery := on_battery, bc_last_mode := mode\<rparr>)
   }"

section \<open>What may be written\<close>

definition bus_files :: "string set" where
  "bus_files =
     {''/sys/class/drm/card1-eDP-1/amdgpu/panel_power_savings'', ''/sys/class/drm/card0-eDP-1/amdgpu/panel_power_savings'',
      ''/sys/module/pcie_aspm/parameters/policy'', ''/sys/module/snd_hda_intel/parameters/power_save'',
      ''/proc/sys/vm/stat_interval'', ''/sys/bus/pci/devices/0000:02:00.0/power/control'',
      ''/sys/bus/pci/devices/0000:02:00.1/power/control'', ''/sys/bus/pci/devices/0000:02:00.2/power/control'',
      ''/sys/bus/pci/devices/0000:02:00.3/power/control'', ''/sys/bus/pci/devices/0000:02:00.4/power/control'',
      ''/sys/bus/pci/devices/0000:06:00.1/power/control''}"

lemma bus_files_of: "bus_files = set abm_candidates \<union> {BUS_ASPM, BUS_HDA, BUS_VM_STAT, power_control BUS_ETH_PCI} \<union> power_control ` set aux_pci"
  by (simp add: bus_files_def abm_candidates_def aux_pci_def power_control_def insert_commute)

definition bus_event :: "event \<Rightarrow> bool" where
  "bus_event e \<longleftrightarrow>
     (case e of EvOpenWrite p ok \<Rightarrow> p \<in> bus_files | EvWrite p d n \<Rightarrow> p \<in> bus_files
      | EvMitigation p c a \<Rightarrow> p = 0 | EvRollback p \<Rightarrow> p = 0 | _ \<Rightarrow> is_read_event e)"

definition bus_ok :: "bus_controller \<Rightarrow> bool" where
  "bus_ok c \<longleftrightarrow> (bb_has_abm (bc_base c) \<longrightarrow> bb_abm_path (bc_base c) \<in> set abm_candidates) \<and>
     (bb_has_pci (bc_base c) \<longrightarrow> bb_pci_path (bc_base c) = BUS_ETH_PCI) \<and> (bc_applied c \<longrightarrow> bb_captured (bc_base c))"

datatype bus_op = BusInitialize | BusEvaluate bool power_profile | BusRollback

definition bus_step :: "kernel \<Rightarrow> bus_op \<Rightarrow> bus_controller \<Rightarrow> bus_controller io" where
  "bus_step k op c =
     (case op of BusInitialize \<Rightarrow> bus_initialize k c
      | BusEvaluate on_battery mode \<Rightarrow> bus_evaluate k on_battery mode c
      | BusRollback \<Rightarrow> bus_rollback k c)"

lemma read_bus_event [simp]: "is_read_event e \<Longrightarrow> bus_event e"
  by (cases e) (auto simp: bus_event_def)

lemma bus_write_event: "p \<in> bus_files \<Longrightarrow> emits bus_event (bus_write k p d)"
  unfolding bus_write_def sys_defs by (auto intro!: io_rules simp: bus_event_def)

lemma read_small_text_event: "emits bus_event (read_small_text k p n)"
  unfolding read_small_text_def sys_read_file_def by (auto intro!: io_rules)

lemma power_control_short: "d = BUS_ETH_PCI \<or> d \<in> set aux_pci \<Longrightarrow> snprintf_cut 160 (power_control d) = power_control d"
  by (auto simp: snprintf_cut_def power_control_def aux_pci_def)

lemma bus_sets:
  "p \<in> set abm_candidates \<Longrightarrow> emits bus_event (set_display_abm k p l)" "emits bus_event (set_pcie_aspm k pol)"
  "emits bus_event (set_hda_power_save k s)" "emits bus_event (set_vm_stat_interval k s)"
  "d = BUS_ETH_PCI \<or> d \<in> set aux_pci \<Longrightarrow> emits bus_event (set_pci_power_control k d a)"
  "emits bus_event (set_aux_pci k a)"
proof -
  show "p \<in> set abm_candidates \<Longrightarrow> emits bus_event (set_display_abm k p l)" and "emits bus_event (set_pcie_aspm k pol)"
    and "emits bus_event (set_hda_power_save k s)" and "emits bus_event (set_vm_stat_interval k s)"
    unfolding set_display_abm_def set_pcie_aspm_def set_hda_power_save_def set_vm_stat_interval_def
    by (auto intro!: io_rules bus_write_event simp: bus_files_of)
  show pci: "d = BUS_ETH_PCI \<or> d \<in> set aux_pci \<Longrightarrow> emits bus_event (set_pci_power_control k d a)" for d
    by (auto simp: set_pci_power_control_def power_control_short bus_files_of intro!: io_rules bus_write_event)
  show "emits bus_event (set_aux_pci k a)"
    unfolding set_aux_pci_def sys_exists_def by (rule emits_for) (auto intro!: io_rules pci)
qed

lemma captured_abm:
  "bb_has_abm b \<longrightarrow> bb_abm_path b \<in> set abm_candidates \<Longrightarrow> set ps \<subseteq> set abm_candidates \<Longrightarrow>
   io_ok bus_event (capture_abm k ps b) (\<lambda>b'. (bb_has_abm b' \<longrightarrow> bb_abm_path b' \<in> set abm_candidates) \<and>
     bb_has_pci b' = bb_has_pci b \<and> bb_pci_path b' = bb_pci_path b)"
  by (induction ps) (auto intro!: io_rules io_ok_return read_small_text_event)

lemma first_path_ok:
  "(\<And>p. emits P (test p)) \<Longrightarrow> io_ok P (first_path test ps) (\<lambda>r. \<forall>p. r = Some p \<longrightarrow> p \<in> set ps)"
proof (induction ps)
  case (Cons p ps)
  then show ?case by (auto intro!: io_rules io_ok_return intro: io_ok_mono)
qed (auto intro: io_ok_return)

lemma bus_capture_ok:
  assumes "bb_has_abm b \<longrightarrow> bb_abm_path b \<in> set abm_candidates" "bb_has_pci b \<longrightarrow> bb_pci_path b = BUS_ETH_PCI"
  shows "io_ok bus_event (bus_capture k b) (\<lambda>b'. bb_captured b' \<and> (bb_has_abm b' \<longrightarrow> bb_abm_path b' \<in> set abm_candidates) \<and>
    (bb_has_pci b' \<longrightarrow> bb_pci_path b' = BUS_ETH_PCI))"
proof -
  have aspm: "io_ok bus_event (capture_aspm k b) (\<lambda>b'. bb_has_abm b' = bb_has_abm b \<and> bb_abm_path b' = bb_abm_path b \<and>
      bb_has_pci b' = bb_has_pci b \<and> bb_pci_path b' = bb_pci_path b)" for b
    unfolding capture_aspm_def by (auto intro!: io_ok_bind_any read_small_text_event io_ok_return split: option.splits)
  have test: "emits bus_event (sys_access_r k p)" "emits bus_event (sys_exists k p)" for p
    unfolding sys_access_r_def sys_exists_def by (auto intro!: io_rules)
  let ?P = "\<lambda>b. (bb_has_abm b \<longrightarrow> bb_abm_path b \<in> set abm_candidates) \<and> (bb_has_pci b \<longrightarrow> bb_pci_path b = BUS_ETH_PCI)"
  have abm': "io_ok bus_event (capture_abm k abm_candidates b) ?P"
    by (rule io_ok_mono [OF captured_abm [OF assms(1) order_refl]]) (use assms(2) in auto)
  have aspm': "io_ok bus_event (capture_aspm k b) ?P" if "?P b" for b
    by (rule io_ok_mono [OF aspm]) (use that in auto)
  have last: "io_ok bus_event (return_io (b\<lparr>bb_hda := hda, bb_vm_stat := vm, bb_carrier := ca,
       bb_pci_path := (case pci of None \<Rightarrow> bb_pci_path b | Some p \<Rightarrow> p),
       bb_has_pci := (bb_has_pci b \<or> pci \<noteq> None), bb_captured := True\<rparr>)) (\<lambda>b'. bb_captured b' \<and> ?P b')"
    if "?P b" "\<forall>p. pci = Some p \<longrightarrow> p \<in> set [BUS_ETH_PCI]" for b hda vm ca pci
    using that by (intro io_ok_return) (cases pci; simp)
  show ?thesis
    unfolding bus_capture_def
    by (rule io_ok_bind [OF abm'], rule io_ok_bind [OF aspm'], assumption,
        rule io_ok_bind_any [OF read_small_text_event], rule io_ok_bind_any [OF read_small_text_event],
        rule io_ok_bind [OF first_path_ok [OF test(1)]], rule io_ok_bind [OF first_path_ok [OF test(2)]], rule last)
qed

lemma bus_initialize_ok:
  "bus_ok c \<Longrightarrow> io_ok bus_event (bus_initialize k c) (\<lambda>c'. bus_ok c' \<and> bb_captured (bc_base c') \<and> bc_applied c' = bc_applied c)"
  unfolding bus_initialize_def bus_ok_def
  by (auto intro!: io_ok_bind [OF bus_capture_ok] io_ok_return)

lemma bus_rollback_ok: "bus_ok c \<Longrightarrow> io_ok bus_event (bus_rollback k c) (\<lambda>c'. bus_ok c' \<and> \<not> bc_applied c' \<and> bc_base c' = bc_base c)"
  unfolding bus_rollback_def Let_def log_event_def
  by (auto intro!: io_rules io_ok_return bus_sets simp: bus_ok_def bus_event_def)

lemma bus_apply_ok: "bus_ok c \<Longrightarrow> emits bus_event (bus_apply k mode (bc_base c))"
  unfolding bus_apply_def is_ethernet_carrier_connected_def
  by (auto intro!: io_rules bus_sets read_small_text_event simp: bus_ok_def)

lemma bus_evaluate_ok:
  assumes "bus_ok c"
  shows "io_ok bus_event (bus_evaluate k on_battery mode c)
    (\<lambda>c'. bus_ok c' \<and> (bc_applied c' \<longleftrightarrow> on_battery \<and> mode \<noteq> Performance))"
  unfolding bus_evaluate_def log_event_def
  by (rule io_ok_bind [OF bus_initialize_ok [OF assms]], rule io_ok_bind [where R = "\<lambda>c'. bus_ok c' \<and> (bc_applied c' \<longleftrightarrow> on_battery \<and> mode \<noteq> Performance)"])
    (auto intro!: io_rules io_ok_return bus_apply_ok io_ok_mono [OF bus_rollback_ok] simp: bus_event_def, auto simp: bus_ok_def)

interpretation bus_machine: calm_machine "bus_step k" bus_ok bus_event for k
proof
  fix c op assume "bus_ok c"
  then show "io_ok bus_event (bus_step k op c) bus_ok"
    by (cases op) (auto simp: bus_step_def intro: io_ok_mono [OF bus_initialize_ok] io_ok_mono [OF bus_rollback_ok]
        io_ok_mono [OF bus_evaluate_ok])
qed

text \<open>Whatever evaluations, captures and releases run, the controller writes only the power files of
  the built-in panel, the PCI link policy, the audio codec, the statistics interval and the fixed list
  of network and auxiliary PCI devices; no disk, no display adapter and no bridge is touched.
\<close>

theorem bus_writes_only_its_files:
  "emits bus_event (io_for (\<lambda>_. True) (bus_step k) ops bus_init)"
  by (rule bus_machine.run_events) (simp add: bus_ok_def bus_init_def)

end
