(* ===== verification/Bus_Trace.thy ===== *)
theory Bus_Trace
  imports Bus_Controller Profile_Trace
begin

text \<open>
  What the bus controller leaves behind: the last content of each of its files after any sequence of
  captures, evaluations and releases.
\<close>

section \<open>The last content of files\<close>

text \<open>\<open>leaves m M\<close>: whatever happened before, \<open>m\<close> leaves the files of \<open>M\<close> with that content and the
  others as they were.\<close>

definition leaves :: "'a io \<Rightarrow> (string \<rightharpoonup> string) \<Rightarrow> bool" where
  "leaves m M \<longleftrightarrow> (\<forall>h. (\<lambda>q. last_write q (snd (run_state m h))) = (\<lambda>q. last_write q h) ++ M)"

lemma leaves_return: "leaves (return_io x) Map.empty"
  by (simp add: leaves_def)

lemma leaves_bind: "leaves m M \<Longrightarrow> (\<And>x. leaves (f x) N) \<Longrightarrow> leaves (m \<bind> f) (M ++ N)"
  by (auto simp: leaves_def split: prod.splits) (metis map_add_assoc snd_conv)

lemma leaves_reads:
  assumes "emits is_read_event m"
  shows "leaves m Map.empty"
  unfolding leaves_def
proof
  fix h
  obtain es where es: "snd (run_state m h) = es @ h" "list_all is_read_event es" using assms unfolding io_ok_def by blast
  have "last_write q (es @ h) = last_write q h" for q
    using es(2)
  proof (induction es)
    case (Cons e es)
    then show ?case by (cases e) auto
  qed simp
  then show "(\<lambda>q. last_write q (snd (run_state m h))) = (\<lambda>q. last_write q h) ++ Map.empty" by (simp add: es(1))
qed

lemma leaves_then: "leaves m M \<Longrightarrow> leaves (do { m; return_io () }) M"
  using leaves_bind [OF _ leaves_return] by fastforce

lemma leaves_when: "(b \<Longrightarrow> leaves m M) \<Longrightarrow> leaves (io_when b m) (if b then M else Map.empty)"
  by (auto simp: io_when_def leaves_return)

lemma leaves_log: "leaves (io_when b (log_event (EvRollback p))) Map.empty"
  by (auto simp: io_when_def leaves_def log_event_def)

text \<open>A system on which the files can be written and the devices do not come and go.\<close>

definition bus_steady :: "kernel \<Rightarrow> bool" where
  "bus_steady k \<longleftrightarrow> (\<forall>p \<in> bus_files. \<forall>h d. k_open_write k h p \<and> 0 < k_write k h p d) \<and>
     (\<forall>h p. k_exists k h p = k_exists k [] p)"

lemma leaves_bus_write:
  "bus_steady k \<Longrightarrow> p \<in> bus_files \<Longrightarrow> p \<noteq> [] \<Longrightarrow> leaves (bus_write k p d) [p \<mapsto> d]"
  by (auto simp: leaves_def bus_write_def sys_defs bus_steady_def fun_eq_iff map_add_def)

lemma leaves_exists:
  assumes "bus_steady k" "leaves (f (k_exists k [] p)) M"
  shows "leaves (sys_exists k p \<bind> f) M"
proof -
  have run: "run_state (sys_exists k p \<bind> f) h = run_state (f (k_exists k [] p)) (EvAccess p # h)" for h
  proof -
    have "k_exists k h p = k_exists k [] p" using assms(1) unfolding bus_steady_def by blast
    then show ?thesis by (simp add: sys_exists_def)
  qed
  have "(\<lambda>q. last_write q (snd (run_state (f (k_exists k [] p)) (EvAccess p # h)))) = (\<lambda>q. last_write q (EvAccess p # h)) ++ M" for h
    using assms(2) unfolding leaves_def by blast
  then show ?thesis unfolding leaves_def run by simp
qed

definition aux_map :: "kernel \<Rightarrow> string list \<Rightarrow> string \<Rightarrow> string \<rightharpoonup> string" where
  "aux_map k devs d = (\<lambda>q. if q \<in> power_control ` set (filter (k_exists k []) devs) then Some d else None)"

lemma leaves_pci:
  "bus_steady k \<Longrightarrow> dev = BUS_ETH_PCI \<or> dev \<in> set aux_pci \<Longrightarrow>
   leaves (set_pci_power_control k dev a) [power_control dev \<mapsto> (if a then ''auto'' else ''on'') @ [NL]]"
proof -
  assume "bus_steady k" and dev: "dev = BUS_ETH_PCI \<or> dev \<in> set aux_pci"
  moreover have "dev \<noteq> []" "power_control dev \<noteq> []" "power_control dev \<in> bus_files"
    using dev by (auto simp: aux_pci_def power_control_def bus_files_of)
  ultimately show ?thesis
    using leaves_bus_write by (auto simp: set_pci_power_control_def power_control_short)
qed

lemma leaves_aux:
  assumes "bus_steady k"
  shows "leaves (set_aux_pci k a) (aux_map k aux_pci ((if a then ''auto'' else ''on'') @ [NL]))"
proof -
  let ?d = "(if a then ''auto'' else ''on'') @ [NL]"
  have one: "leaves (do { there \<leftarrow> sys_exists k dev; io_when there (do { set_pci_power_control k dev a; return_io () }) })
      (aux_map k [dev] ?d)" if "dev \<in> set aux_pci" for dev
  proof -
    have map: "aux_map k [dev] ?d = (if k_exists k [] dev then [power_control dev \<mapsto> ?d] else Map.empty)"
      by (auto simp: aux_map_def fun_eq_iff)
    have "leaves (io_when (k_exists k [] dev) (do { set_pci_power_control k dev a; return_io () })) (aux_map k [dev] ?d)"
      unfolding map by (rule leaves_when, rule leaves_then, rule leaves_pci [OF assms]) (simp add: that)
    then show ?thesis by (rule leaves_exists [OF assms])
  qed
  have "leaves (io_for (\<lambda>_. True) (\<lambda>dev _. do { there \<leftarrow> sys_exists k dev;
      io_when there (do { set_pci_power_control k dev a; return_io () }) }) devs ()) (aux_map k devs ?d)"
    if "set devs \<subseteq> set aux_pci" for devs
    using that
  proof (induction devs)
    case Nil
    have "aux_map k [] ?d = Map.empty" by (simp add: aux_map_def)
    then show ?case by (simp add: leaves_return)
  next
    case (Cons dev devs)
    have "aux_map k [dev] ?d ++ aux_map k devs ?d = aux_map k (dev # devs) ?d"
      by (auto simp: aux_map_def fun_eq_iff map_add_def)
    moreover have "leaves (io_for (\<lambda>_. True) (\<lambda>dev _. do { there \<leftarrow> sys_exists k dev;
        io_when there (do { set_pci_power_control k dev a; return_io () }) }) (dev # devs) ()) (aux_map k [dev] ?d ++ aux_map k devs ?d)"
      unfolding io_for.simps if_True by (rule leaves_bind [OF one]) (use Cons in auto)
    ultimately show ?case by (simp only:)
  qed
  then show ?thesis by (simp add: set_aux_pci_def)
qed

section \<open>The baseline comes back\<close>

text \<open>The files the release writes, with the captured content.\<close>

definition bus_content :: "kernel \<Rightarrow> bus_baseline \<Rightarrow> string \<rightharpoonup> string" where
  "bus_content k b =
     (if bb_has_abm b then [bb_abm_path b \<mapsto> line_of (min (bb_abm_level b) 4)] else Map.empty) ++
     (if bb_aspm b = [] then Map.empty else [BUS_ASPM \<mapsto> snprintf_cut 64 (bb_aspm b @ [NL])]) ++
     [BUS_HDA \<mapsto> line_of (bb_hda b)] ++ [BUS_VM_STAT \<mapsto> line_of (clamp_stat_interval (bb_vm_stat b))] ++
     (if bb_has_pci b then [power_control BUS_ETH_PCI \<mapsto> ''on'' @ [NL]] ++ aux_map k aux_pci (''on'' @ [NL]) else Map.empty)"

lemma leaves_rollback:
  assumes k: "bus_steady k" and c: "bus_ok c" "bb_captured (bc_base c)"
  shows "leaves (bus_rollback k c) (bus_content k (bc_base c))"
proof -
  let ?b = "bc_base c"
  have abm: "leaves (io_when (bb_has_abm ?b) (do { set_display_abm k (bb_abm_path ?b) (bb_abm_level ?b); return_io () }))
      (if bb_has_abm ?b then [bb_abm_path ?b \<mapsto> line_of (min (bb_abm_level ?b) 4)] else Map.empty)"
  proof (rule leaves_when, rule leaves_then)
    assume "bb_has_abm ?b"
    then have "bb_abm_path ?b \<in> set abm_candidates" using c by (simp add: bus_ok_def)
    then have "bb_abm_path ?b \<in> bus_files" "bb_abm_path ?b \<noteq> []" by (auto simp: bus_files_of abm_candidates_def)
    then show "leaves (set_display_abm k (bb_abm_path ?b) (bb_abm_level ?b)) [bb_abm_path ?b \<mapsto> line_of (min (bb_abm_level ?b) 4)]"
      using leaves_bus_write [OF k] by (simp add: set_display_abm_def)
  qed
  have aspm: "leaves (set_pcie_aspm k (bb_aspm ?b))
      (if bb_aspm ?b = [] then Map.empty else [BUS_ASPM \<mapsto> snprintf_cut 64 (bb_aspm ?b @ [NL])])"
    using leaves_bus_write [OF k, of BUS_ASPM] by (simp add: set_pcie_aspm_def bus_files_of leaves_return)
  have hda: "leaves (set_hda_power_save k v) [BUS_HDA \<mapsto> line_of v]" for v
    using leaves_bus_write [OF k, of BUS_HDA] by (simp add: set_hda_power_save_def bus_files_of)
  have vm: "leaves (set_vm_stat_interval k v) [BUS_VM_STAT \<mapsto> line_of (clamp_stat_interval v)]" for v
    using leaves_bus_write [OF k, of BUS_VM_STAT] by (simp add: set_vm_stat_interval_def bus_files_of)
  have pci: "leaves (io_when (bb_has_pci ?b) (do { set_pci_power_control k (bb_pci_path ?b) False; set_aux_pci k False }))
      (if bb_has_pci ?b then [power_control BUS_ETH_PCI \<mapsto> ''on'' @ [NL]] ++ aux_map k aux_pci (''on'' @ [NL]) else Map.empty)"
    using leaves_pci [OF k, of BUS_ETH_PCI False] leaves_aux [OF k, of False] c
    by (intro leaves_when leaves_bind) (auto simp: bus_ok_def)
  have "leaves (bus_rollback k c) ((if bb_has_abm ?b then [bb_abm_path ?b \<mapsto> line_of (min (bb_abm_level ?b) 4)] else Map.empty) ++
     ((if bb_aspm ?b = [] then Map.empty else [BUS_ASPM \<mapsto> snprintf_cut 64 (bb_aspm ?b @ [NL])]) ++
     ([BUS_HDA \<mapsto> line_of (bb_hda ?b)] ++ ([BUS_VM_STAT \<mapsto> line_of (clamp_stat_interval (bb_vm_stat ?b))] ++
     ((if bb_has_pci ?b then [power_control BUS_ETH_PCI \<mapsto> ''on'' @ [NL]] ++ aux_map k aux_pci (''on'' @ [NL]) else Map.empty) ++
     (Map.empty ++ Map.empty))))))"
    unfolding bus_rollback_def Let_def if_not_P [OF not_not [THEN iffD2, OF c(2)]]
    by (intro leaves_bind abm aspm hda vm pci leaves_log leaves_return)
  then show ?thesis by (simp add: bus_content_def map_add_assoc)
qed

text \<open>At rest, every file of the baseline is untouched or holds its captured content.\<close>

definition bus_inv :: "kernel \<Rightarrow> bus_controller \<Rightarrow> history \<Rightarrow> bool" where
  "bus_inv k c h \<longleftrightarrow> bus_ok c \<and>
     (\<not> bb_captured (bc_base c) \<longrightarrow> (\<forall>p. last_write p h = None)) \<and>
     (\<not> bc_applied c \<longrightarrow> (\<forall>p d. bus_content k (bc_base c) p = Some d \<longrightarrow> last_write p h = None \<or> last_write p h = Some d))"

lemma bus_initialize_reads: "emits is_read_event (bus_initialize k c)"
proof -
  have read: "emits is_read_event (read_small_text k p n)" for p n
    unfolding read_small_text_def sys_read_file_def by (auto intro!: io_rules)
  have abm: "emits is_read_event (capture_abm k ps b)" for ps b
    by (induction ps) (auto intro!: io_rules read)
  have path: "emits is_read_event (first_path t ps)" if "\<And>p. emits is_read_event (t p)" for t ps
    by (induction ps) (auto intro!: io_rules that)
  show ?thesis
    unfolding bus_initialize_def bus_capture_def capture_aspm_def
    by (auto intro!: io_rules abm read path simp: sys_access_r_def sys_exists_def)
qed

lemma bus_initialize_inv:
  assumes "bus_inv k c h"
  shows "wp (bus_initialize k c) (\<lambda>c' h'. bus_inv k c' h' \<and> bb_captured (bc_base c')) h"
proof -
  let ?m = "bus_initialize k c"
  have same: "last_write p (snd (run_state ?m h)) = last_write p h" for p
    using leaves_reads [OF bus_initialize_reads, of k c] by (simp add: leaves_def fun_eq_iff)
  have ok: "bus_ok (fst (run_state ?m h)) \<and> bb_captured (bc_base (fst (run_state ?m h))) \<and>
      bc_applied (fst (run_state ?m h)) = bc_applied c"
    using bus_initialize_ok [of c k] assms by (simp add: bus_inv_def io_ok_def)
  show ?thesis
  proof (cases "bb_captured (bc_base c)")
    case True
    then show ?thesis using assms by (simp add: bus_initialize_def wp_simps)
  next
    case False
    then show ?thesis using assms ok same unfolding wp_run bus_inv_def by simp
  qed
qed

lemma bus_rollback_inv:
  assumes "bus_steady k" "bus_inv k c h"
  shows "wp (bus_rollback k c) (bus_inv k) h"
proof (cases "bb_captured (bc_base c)")
  case True
  let ?m = "bus_rollback k c"
  have "bus_ok c" using assms by (simp add: bus_inv_def)
  then have "(\<lambda>q. last_write q (snd (run_state ?m h))) = (\<lambda>q. last_write q h) ++ bus_content k (bc_base c)"
    using leaves_rollback [OF assms(1) _ True] by (simp add: leaves_def)
  moreover have "bus_ok (fst (run_state ?m h)) \<and> \<not> bc_applied (fst (run_state ?m h)) \<and> bc_base (fst (run_state ?m h)) = bc_base c"
    using bus_rollback_ok [OF \<open>bus_ok c\<close>, of k] by (simp add: io_ok_def)
  ultimately show ?thesis
    using True unfolding wp_run bus_inv_def by (auto simp: fun_eq_iff map_add_def)
qed (use assms in \<open>simp add: bus_rollback_def Let_def wp_simps\<close>)

lemma bus_evaluate_inv:
  assumes "bus_steady k" "bus_inv k c h"
  shows "wp (bus_evaluate k on_battery mode c) (bus_inv k) h"
proof -
  have mark: "bus_inv k (c\<lparr>bc_last_on_battery := on_battery, bc_last_mode := mode\<rparr>) h = bus_inv k c h" for c h
    by (simp add: bus_inv_def bus_ok_def)
  have on: "bus_inv k (c\<lparr>bc_applied := True\<rparr>) h" if "bus_ok c" "bb_captured (bc_base c)" for c h
    using that by (simp add: bus_inv_def bus_ok_def)
  have act: "wp (if \<not> on_battery \<or> mode = Performance
           then if bc_applied c' then bus_rollback k c' else return_io c'
           else do {
             bus_apply k mode (bc_base c');
             io_when (\<not> bc_applied c') (log_event (EvMitigation 0 ''HardwareBus'' ''BusAndDisplayPowerSave''));
             return_io (c'\<lparr>bc_applied := True\<rparr>)
           }) (bus_inv k) h'" if "bus_inv k c' h'" "bb_captured (bc_base c')" for c' h'
  proof (rule wp_ifI)
    show "wp (if bc_applied c' then bus_rollback k c' else return_io c') (bus_inv k) h'"
      using that(1) bus_rollback_inv [OF assms(1) that(1)] by (simp add: wp_return)
    have "bus_inv k (c'\<lparr>bc_applied := True\<rparr>) h" for h using that on by (simp add: bus_inv_def)
    then show "wp (do { bus_apply k mode (bc_base c');
             io_when (\<not> bc_applied c') (log_event (EvMitigation 0 ''HardwareBus'' ''BusAndDisplayPowerSave''));
             return_io (c'\<lparr>bc_applied := True\<rparr>) }) (bus_inv k) h'"
      unfolding wp_bind wp_return by (intro wp_any) simp
  qed
  show ?thesis
    unfolding bus_evaluate_def
    by (rule wp_then [OF bus_initialize_inv [OF assms(2)]], rule wp_then, rule act, simp, simp, simp add: wp_return mark)
qed

definition bus_baseline_files :: "kernel \<Rightarrow> bus_controller \<Rightarrow> history \<Rightarrow> bool" where
  "bus_baseline_files k c h \<longleftrightarrow>
     (\<forall>p d. bus_content k (bc_base c) p = Some d \<longrightarrow> last_write p h = None \<or> last_write p h = Some d)"

lemma bus_run_inv:
  assumes "bus_steady k"
  shows "wp (io_for (\<lambda>_. True) (bus_step k) ops bus_init) (bus_inv k) []"
proof (rule wp_for)
  show "bus_inv k bus_init []" by (simp add: bus_inv_def bus_ok_def bus_init_def)
  fix op c h assume "bus_inv k c h"
  then show "wp (bus_step k op c) (bus_inv k) h"
    using assms by (cases op) (auto simp: bus_step_def bus_rollback_inv bus_evaluate_inv intro: wp_mono [OF bus_initialize_inv])
qed

text \<open>C23. Back on mains, back in Performance, or released when the daemon stops, after any sequence of
  evaluations on a system that takes the writes: every file the controller manages is untouched or
  holds its captured content, the brightness level capped at 4 and the statistics interval clamped to
  1..60; the PCI devices are switched to \<^verbatim>\<open>on\<close>, whatever they were before.
\<close>

theorem bus_leaves_no_trace:
  assumes "bus_steady k" "final = BusRollback \<or> final = BusEvaluate False mode \<or> final = BusEvaluate True Performance"
  shows "wp (io_for (\<lambda>_. True) (bus_step k) (ops @ [final]) bus_init)
    (\<lambda>c h. \<not> bc_applied c \<and> bus_baseline_files k c h) []"
proof -
  have rest: "yields (bus_step k final c) (\<lambda>c'. \<not> bc_applied c')" if "bus_ok c" for c
    using assms(2) bus_evaluate_ok [OF that, of k] bus_rollback_ok [OF that, of k]
    by (auto simp: bus_step_def io_ok_def yields_def)
  have last: "wp (bus_step k final c) (\<lambda>c h. bus_inv k c h \<and> \<not> bc_applied c) h" if "bus_inv k c h" for c h
  proof -
    have "wp (bus_step k final c) (bus_inv k) h"
      using assms that by (auto simp: bus_step_def bus_rollback_inv bus_evaluate_inv)
    then show ?thesis using rest [of c] that unfolding wp_run yields_def by (simp add: bus_inv_def)
  qed
  show ?thesis
    unfolding io_for_snoc wp_bind
    by (rule wp_mono [OF bus_run_inv [OF assms(1)]], rule wp_mono, erule last) (simp add: bus_inv_def bus_baseline_files_def)
qed

definition writable_kernel :: kernel where
  "writable_kernel = quiet_kernel\<lparr>k_open_write := (\<lambda>_ _. True), k_write := (\<lambda>_ _ d. 1)\<rparr>"

theorem bus_leaves_no_trace_witness:
  "wp (io_for (\<lambda>_. True) (bus_step writable_kernel) ([BusEvaluate True PowerSaver] @ [BusEvaluate False Balanced]) bus_init)
    (\<lambda>c h. \<not> bc_applied c \<and> bus_baseline_files writable_kernel c h) []"
  by (rule bus_leaves_no_trace) (simp_all add: bus_steady_def writable_kernel_def quiet_kernel_def)

end
