(* ===== verification/Attribution_Delta.thy ===== *)
theory Attribution_Delta
  imports Types
begin

text \<open>
  The samples of the processes and what happened between two of them
  (\<^verbatim>\<open>src/core/types.hpp\<close>, \<^verbatim>\<open>src/policy/attribution_engine.cpp\<close>): the sweep over two samples
  sorted by process number, and the accumulation of a whole window of samples.  The fields of a
  process keep the widths of the bit fields.
\<close>

section \<open>Samples\<close>

record psample =
  sa_pid :: pid
  sa_ppid :: pid
  sa_utime :: u64
  sa_stime :: u64
  sa_voluntary :: u64
  sa_involuntary :: u64
  sa_rss :: u32
  sa_pss :: u32
  sa_minflt :: u32
  sa_majflt :: u32
  sa_core :: "10 word"
  sa_threads :: "16 word"
  sa_nice :: "6 word"
  sa_priority :: "8 word"
  sa_sockets :: "12 word"
  sa_comm :: string
  sa_uid :: u32
  sa_slack :: u64
  sa_read_bytes :: u64
  sa_write_bytes :: u64
  sa_io_calls :: u64
  sa_gfx :: u64
  sa_compute :: u64
  sa_dec :: u64
  sa_enc :: u64
  sa_vram :: u64

definition psample_new :: psample where
  "psample_new = \<lparr>sa_pid = 0, sa_ppid = 0, sa_utime = 0, sa_stime = 0, sa_voluntary = 0, sa_involuntary = 0, sa_rss = 0,
     sa_pss = 0, sa_minflt = 0, sa_majflt = 0, sa_core = - 1, sa_threads = 1, sa_nice = 0, sa_priority = 0, sa_sockets = 0,
     sa_comm = [], sa_uid = 0, sa_slack = 50000, sa_read_bytes = 0, sa_write_bytes = 0, sa_io_calls = 0, sa_gfx = 0,
     sa_compute = 0, sa_dec = 0, sa_enc = 0, sa_vram = 0\<rparr>"

abbreviation "MAX_PROCS \<equiv> (2048 :: nat)"

text \<open>A vector of fixed capacity: what does not fit is dropped, and only counted for a log line.\<close>

definition push_proc :: "'a list \<Rightarrow> 'a \<Rightarrow> 'a list" where
  "push_proc xs x = (if length xs < MAX_PROCS then xs @ [x] else xs)"

lemma push_proc_take: "push_proc (take MAX_PROCS xs) x = take MAX_PROCS (xs @ [x])"
  by (auto simp: push_proc_def)

lemma fold_push_proc: "fold (\<lambda>x xs. push_proc xs x) ys (take MAX_PROCS xs) = take MAX_PROCS (xs @ ys)"
  by (induction ys arbitrary: xs) (simp_all add: push_proc_take del: take_append)

section \<open>Between two samples\<close>

text \<open>A counter that went back counts as unchanged.\<close>

definition grown :: "'a::len word \<Rightarrow> 'a word \<Rightarrow> 'a word" where
  "grown a b = (if a \<le> b then b - a else 0)"

definition cpu_ticks :: "psample \<Rightarrow> u64" where
  "cpu_ticks p = sa_utime p + sa_stime p"

definition gpu_time :: "psample \<Rightarrow> u64" where
  "gpu_time p = sa_gfx p + sa_compute p + sa_dec p + sa_enc p"

definition switches :: "psample \<Rightarrow> u64" where
  "switches p = sa_voluntary p + sa_involuntary p"

definition io_bytes :: "psample \<Rightarrow> u64" where
  "io_bytes p = sa_read_bytes p + sa_write_bytes p"

record pdelta =
  dl_pid :: pid
  dl_cpu_ticks :: u32
  dl_wakeups :: u64
  dl_rss :: u32
  dl_pss :: u32
  dl_minflt :: u32
  dl_majflt :: u32
  dl_core :: "10 word"
  dl_prev_core :: "10 word"
  dl_threads :: "16 word"
  dl_nice :: "6 word"
  dl_priority :: "8 word"
  dl_sockets :: "12 word"
  dl_cross_ccx :: bool
  dl_slack :: u64
  dl_vram :: u64
  dl_comm :: string
  dl_uid :: u32
  dl_gpu_ns :: u64
  dl_io_bytes :: u64
  dl_io_calls :: u64

definition crosses_ccx :: "psample \<Rightarrow> psample \<Rightarrow> bool" where
  "crosses_ccx p1 p2 \<longleftrightarrow>
     0 \<le> sint (sa_core p1) \<and> 0 \<le> sint (sa_core p2) \<and> sint (sa_core p1) div 8 \<noteq> sint (sa_core p2) div 8 \<and>
     0 < grown (cpu_ticks p1) (cpu_ticks p2)"

definition delta_of :: "psample \<Rightarrow> psample \<Rightarrow> pdelta" where
  "delta_of p1 p2 =
     \<lparr>dl_pid = sa_pid p2, dl_cpu_ticks = ucast (grown (cpu_ticks p1) (cpu_ticks p2)),
      dl_wakeups = grown (switches p1) (switches p2),
      dl_rss = (if 0 < sa_rss p2 then sa_rss p2 else sa_rss p1), dl_pss = (if 0 < sa_pss p2 then sa_pss p2 else sa_pss p1),
      dl_minflt = grown (sa_minflt p1) (sa_minflt p2), dl_majflt = grown (sa_majflt p1) (sa_majflt p2),
      dl_core = sa_core p2, dl_prev_core = sa_core p1, dl_threads = sa_threads p2, dl_nice = sa_nice p2,
      dl_priority = sa_priority p2, dl_sockets = max (sa_sockets p1) (sa_sockets p2),
      dl_cross_ccx = crosses_ccx p1 p2, dl_slack = sa_slack p2, dl_vram = sa_vram p2, dl_comm = sa_comm p2, dl_uid = sa_uid p2,
      dl_gpu_ns = grown (gpu_time p1) (gpu_time p2), dl_io_bytes = grown (io_bytes p1) (io_bytes p2),
      dl_io_calls = grown (sa_io_calls p1) (sa_io_calls p2)\<rparr>"

record sweep =
  sw_deltas :: "pdelta list"
  sw_cpu :: u64
  sw_gpu :: u64
  sw_wakeups :: u64

definition sweep_new :: sweep where
  "sweep_new = \<lparr>sw_deltas = [], sw_cpu = 0, sw_gpu = 0, sw_wakeups = 0\<rparr>"

definition sweep_pair :: "psample \<Rightarrow> psample \<Rightarrow> sweep \<Rightarrow> sweep" where
  "sweep_pair p1 p2 s =
     s\<lparr>sw_cpu := sw_cpu s + grown (cpu_ticks p1) (cpu_ticks p2), sw_gpu := sw_gpu s + grown (gpu_time p1) (gpu_time p2),
       sw_wakeups := sw_wakeups s + grown (switches p1) (switches p2), sw_deltas := push_proc (sw_deltas s) (delta_of p1 p2)\<rparr>"

fun two_pointer :: "psample list \<Rightarrow> psample list \<Rightarrow> sweep \<Rightarrow> sweep" where
  "two_pointer [] qs s = s"
| "two_pointer ps [] s = s"
| "two_pointer (p # ps) (q # qs) s =
     (if sa_pid p < sa_pid q then two_pointer ps (q # qs) s
      else if sa_pid q < sa_pid p then two_pointer (p # ps) qs s
      else two_pointer ps qs (sweep_pair p q s))"

section \<open>The sweep finds exactly the common processes\<close>

definition by_pid :: "psample list \<Rightarrow> bool" where
  "by_pid ss \<longleftrightarrow> sorted_wrt (<) (map sa_pid ss)"

lemma by_pid_Cons [simp]: "by_pid (s # ss) \<longleftrightarrow> (\<forall>t \<in> set ss. sa_pid s < sa_pid t) \<and> by_pid ss"
  by (auto simp: by_pid_def)

lemma by_pid_Nil [simp]: "by_pid []"
  by (simp add: by_pid_def)

definition sample_of :: "pid \<Rightarrow> psample list \<Rightarrow> psample option" where
  "sample_of p ss = find (\<lambda>s. sa_pid s = p) ss"

lemma sample_of_simps [simp]:
  "sample_of p [] = None" "sample_of p (s # ss) = (if sa_pid s = p then Some s else sample_of p ss)"
  by (auto simp: sample_of_def)

lemma sample_of_None: "sample_of p ss = None \<longleftrightarrow> p \<notin> sa_pid ` set ss"
  by (induction ss) auto

lemma sample_of_Some: "sample_of p ss = Some s \<Longrightarrow> s \<in> set ss \<and> sa_pid s = p"
  by (induction ss) (auto split: if_splits)

text \<open>The pairs, looked up instead of swept.\<close>

definition common_pairs :: "psample list \<Rightarrow> psample list \<Rightarrow> (psample \<times> psample) list" where
  "common_pairs ps qs = List.map_filter (\<lambda>q. map_option (\<lambda>p. (p, q)) (sample_of (sa_pid q) ps)) qs"

lemma common_pairs_simps:
  "common_pairs ps [] = []"
  "common_pairs ps (q # qs) = (case sample_of (sa_pid q) ps of None \<Rightarrow> common_pairs ps qs | Some p \<Rightarrow> (p, q) # common_pairs ps qs)"
  by (simp_all add: common_pairs_def List.map_filter_simps split: option.split)

lemma common_pairs_drop:
  "\<forall>q \<in> set qs. sa_pid q \<noteq> sa_pid p \<Longrightarrow> common_pairs (p # ps) qs = common_pairs ps qs"
  by (induction qs) (auto simp: common_pairs_simps split: option.split)

lemma common_pairs_empty: "common_pairs [] qs = []"
  by (induction qs) (auto simp: common_pairs_simps)

lemma two_pointer_fold:
  "by_pid ps \<Longrightarrow> by_pid qs \<Longrightarrow> two_pointer ps qs s = fold (\<lambda>(p, q). sweep_pair p q) (common_pairs ps qs) s"
proof (induction ps qs s rule: two_pointer.induct)
  case (3 p ps q qs s)
  consider (lt) "sa_pid p < sa_pid q" | (gt) "sa_pid q < sa_pid p" | (eq) "sa_pid p = sa_pid q" by linarith
  then show ?case
  proof cases
    case lt
    then have "common_pairs (p # ps) (q # qs) = common_pairs ps (q # qs)"
      using 3(5) by (intro common_pairs_drop) auto
    then show ?thesis using 3 lt by simp
  next
    case gt
    have "sa_pid q \<notin> sa_pid ` set (p # ps)" using gt 3(4) by force
    then have "sample_of (sa_pid q) (p # ps) = None" by (simp only: sample_of_None not_False_eq_True)
    then have "common_pairs (p # ps) (q # qs) = common_pairs (p # ps) qs" by (simp only: common_pairs_simps option.case)
    then show ?thesis using 3 gt by simp
  next
    case eq
    have "common_pairs (p # ps) qs = common_pairs ps qs" using 3(5) eq by (intro common_pairs_drop) auto
    then have "common_pairs (p # ps) (q # qs) = (p, q) # common_pairs ps qs" using eq by (simp add: common_pairs_simps)
    then show ?thesis using 3 eq by simp
  qed
qed (simp_all add: common_pairs_simps common_pairs_empty)

lemma sweep_fold:
  "fold (\<lambda>(p, q). sweep_pair p q) prs \<lparr>sw_deltas = take MAX_PROCS ds, sw_cpu = a, sw_gpu = b, sw_wakeups = c\<rparr> =
   \<lparr>sw_deltas = take MAX_PROCS (ds @ map (\<lambda>(p, q). delta_of p q) prs),
    sw_cpu = a + sum_list (map (\<lambda>(p, q). grown (cpu_ticks p) (cpu_ticks q)) prs),
    sw_gpu = b + sum_list (map (\<lambda>(p, q). grown (gpu_time p) (gpu_time q)) prs),
    sw_wakeups = c + sum_list (map (\<lambda>(p, q). grown (switches p) (switches q)) prs)\<rparr>"
  by (induction prs arbitrary: ds a b c) (auto simp: sweep_pair_def push_proc_take add.assoc simp del: take_append)

text \<open>C27. On two samples sorted by process number the sweep yields exactly the processes that are in
  both, in order, each with the differences of its own two entries, the first 2048 of them; the totals
  are the sums over all of them, as a lookup of every process in the other sample would give.
\<close>

theorem two_pointer_is_lookup:
  assumes "by_pid ps" "by_pid qs"
  shows "two_pointer ps qs sweep_new =
    \<lparr>sw_deltas = take 2048 (map (\<lambda>(p, q). delta_of p q) (common_pairs ps qs)),
     sw_cpu = sum_list (map (\<lambda>(p, q). grown (cpu_ticks p) (cpu_ticks q)) (common_pairs ps qs)),
     sw_gpu = sum_list (map (\<lambda>(p, q). grown (gpu_time p) (gpu_time q)) (common_pairs ps qs)),
     sw_wakeups = sum_list (map (\<lambda>(p, q). grown (switches p) (switches q)) (common_pairs ps qs))\<rparr>"
  using sweep_fold [of "common_pairs ps qs" "[]" 0 0 0] by (simp add: two_pointer_fold [OF assms] sweep_new_def)

definition sample_at :: "pid \<Rightarrow> u64 \<Rightarrow> 10 word \<Rightarrow> psample" where
  "sample_at p ticks core = psample_new\<lparr>sa_pid := p, sa_utime := ticks, sa_core := core\<rparr>"

theorem two_pointer_is_lookup_witness:
  "two_pointer [sample_at 4 10 0, sample_at 7 20 1] [sample_at 5 3 2, sample_at 7 50 9] sweep_new =
    \<lparr>sw_deltas = [delta_of (sample_at 7 20 1) (sample_at 7 50 9)], sw_cpu = 30, sw_gpu = 0, sw_wakeups = 0\<rparr>"
  using two_pointer_is_lookup [of "[sample_at 4 10 0, sample_at 7 20 1]" "[sample_at 5 3 2, sample_at 7 50 9]"]
  by (simp add: sample_at_def common_pairs_simps cpu_ticks_def gpu_time_def switches_def grown_def psample_new_def)

end
