(* ===== verification/Attribution_Window.thy ===== *)
theory Attribution_Window
  imports Attribution_Delta
begin

text \<open>
  A window of more than two samples (\<^verbatim>\<open>src/policy/attribution_engine.cpp\<close>): the counters of every process
  are accumulated interval by interval with a sweep over three sorted lists, and the result is
  attributed as one difference from zero.
\<close>

section \<open>Accumulation\<close>

definition fresh_acc :: "psample \<Rightarrow> psample" where
  "fresh_acc c = psample_new\<lparr>sa_pid := sa_pid c, sa_ppid := sa_ppid c, sa_comm := sa_comm c, sa_uid := sa_uid c\<rparr>"

text \<open>What a counter gained in the interval: everything when the process was not there before.\<close>

definition gained :: "('s \<Rightarrow> 'a::len word) \<Rightarrow> 's option \<Rightarrow> 's \<Rightarrow> 'a word" where
  "gained f prev c = (case prev of None \<Rightarrow> f c | Some p \<Rightarrow> grown (f p) (f c))"

definition absorb :: "psample option \<Rightarrow> psample \<Rightarrow> psample \<Rightarrow> psample" where
  "absorb prev c a = a\<lparr>
     sa_core := sa_core c, sa_threads := sa_threads c, sa_nice := sa_nice c, sa_priority := sa_priority c,
     sa_slack := min (sa_slack a) (sa_slack c), sa_pss := max (sa_pss a) (sa_pss c), sa_rss := max (sa_rss a) (sa_rss c),
     sa_sockets := max (sa_sockets a) (sa_sockets c), sa_vram := max (sa_vram a) (sa_vram c),
     sa_utime := sa_utime a + gained sa_utime prev c, sa_stime := sa_stime a + gained sa_stime prev c,
     sa_voluntary := sa_voluntary a + gained sa_voluntary prev c,
     sa_involuntary := sa_involuntary a + gained sa_involuntary prev c,
     sa_read_bytes := sa_read_bytes a + gained sa_read_bytes prev c,
     sa_write_bytes := sa_write_bytes a + gained sa_write_bytes prev c,
     sa_io_calls := sa_io_calls a + gained sa_io_calls prev c,
     sa_minflt := sa_minflt a + gained sa_minflt prev c, sa_majflt := sa_majflt a + gained sa_majflt prev c,
     sa_gfx := sa_gfx a + gained sa_gfx prev c, sa_compute := sa_compute a + gained sa_compute prev c,
     sa_dec := sa_dec a + gained sa_dec prev c, sa_enc := sa_enc a + gained sa_enc prev c\<rparr>"

definition push_all :: "psample list \<Rightarrow> psample list \<Rightarrow> psample list" where
  "push_all xs out = fold (\<lambda>x out. push_proc out x) xs out"

definition head_with :: "pid \<Rightarrow> psample list \<Rightarrow> psample option" where
  "head_with p ss = (case ss of [] \<Rightarrow> None | s # _ \<Rightarrow> if sa_pid s = p then Some s else None)"

text \<open>One interval: the three lists are \<open>prev\<close>, the accumulated entries and the current sample.\<close>

fun merge_interval :: "psample list \<Rightarrow> psample list \<Rightarrow> psample list \<Rightarrow> psample list \<Rightarrow> psample list" where
  "merge_interval prev acc [] out = push_all acc out"
| "merge_interval prev acc (c # cs) out =
     (let before = (\<lambda>s. sa_pid s < sa_pid c);
          prev = dropWhile before prev;
          out = push_all (takeWhile before acc) out;
          acc = dropWhile before acc
      in case head_with (sa_pid c) acc of
           Some a \<Rightarrow> merge_interval prev (tl acc) cs (push_proc out (absorb (head_with (sa_pid c) prev) c a))
         | None \<Rightarrow> merge_interval prev acc cs (push_proc out (absorb (head_with (sa_pid c) prev) c (fresh_acc c))))"

fun accumulate :: "psample list \<Rightarrow> psample list list \<Rightarrow> psample list \<Rightarrow> psample list" where
  "accumulate prev [] acc = acc"
| "accumulate prev (cur # rest) acc = accumulate cur rest (merge_interval prev acc cur [])"

definition zero_base :: "psample \<Rightarrow> psample" where
  "zero_base a = psample_new\<lparr>sa_pid := sa_pid a, sa_ppid := sa_ppid a, sa_comm := sa_comm a, sa_uid := sa_uid a,
     sa_core := sa_core a, sa_threads := sa_threads a, sa_nice := sa_nice a, sa_priority := sa_priority a,
     sa_slack := sa_slack a, sa_pss := sa_pss a, sa_rss := sa_rss a, sa_sockets := sa_sockets a\<rparr>"

text \<open>The samples the attribution of a window compares; \<open>n\<close> is the number of hardware samples.\<close>

definition window_accum :: "nat \<Rightarrow> psample list list \<Rightarrow> psample list" where
  "window_accum n samples = (case take n samples of [] \<Rightarrow> [] | s0 # ss \<Rightarrow> accumulate s0 ss [])"

definition window_pair :: "nat \<Rightarrow> psample list list \<Rightarrow> (psample list \<times> psample list) option" where
  "window_pair n samples =
     (if n = 0 \<or> samples = [] then None
      else if n = 1 \<or> length samples = 1 then Some (hd samples, hd samples)
      else if n = 2 \<and> length samples = 2 then Some (hd samples, last samples)
      else let accs = window_accum n samples in Some (map zero_base accs, accs))"

section \<open>The sweep is a lookup\<close>

text \<open>The same without the capacity.\<close>

fun merged :: "psample list \<Rightarrow> psample list \<Rightarrow> psample list \<Rightarrow> psample list" where
  "merged prev acc [] = acc"
| "merged prev acc (c # cs) =
     (let before = (\<lambda>s. sa_pid s < sa_pid c); prev = dropWhile before prev; acc' = dropWhile before acc
      in takeWhile before acc @
         (case head_with (sa_pid c) acc' of
            Some a \<Rightarrow> absorb (head_with (sa_pid c) prev) c a # merged prev (tl acc') cs
          | None \<Rightarrow> absorb (head_with (sa_pid c) prev) c (fresh_acc c) # merged prev acc' cs))"

lemma push_all_take: "push_all xs (take MAX_PROCS out) = take MAX_PROCS (out @ xs)"
  unfolding push_all_def by (rule fold_push_proc)

lemma merge_interval_merged: "merge_interval prev acc cur (take MAX_PROCS out) = take MAX_PROCS (out @ merged prev acc cur)"
proof (induction cur arbitrary: prev acc out)
  case (Cons c cs)
  show ?case
    by (simp add: Let_def push_all_take push_proc_take Cons.IH split: option.split del: take_append)
qed (simp add: push_all_take del: take_append)

lemma absorb_pid [simp]: "sa_pid (absorb prev c a) = sa_pid a" "sa_pid (fresh_acc c) = sa_pid c" "sa_pid (zero_base a) = sa_pid a"
  by (simp_all add: absorb_def fresh_acc_def zero_base_def)

lemma head_with_pid: "head_with p ss = Some s \<Longrightarrow> sa_pid s = p"
  by (auto simp: head_with_def split: list.splits if_splits)

lemma head_with_sorted:
  assumes "by_pid ss"
  shows "head_with p (dropWhile (\<lambda>s. sa_pid s < p) ss) = sample_of p ss"
  using assms
proof (induction ss)
  case (Cons s ss)
  have "sample_of p ss = None" if "p < sa_pid s"
    unfolding sample_of_None using Cons(2) that by force
  then show ?case using Cons by (auto simp: head_with_def)
qed (simp add: head_with_def)

lemma sample_of_dropWhile: "p \<le> q \<Longrightarrow> sample_of q (dropWhile (\<lambda>s. sa_pid s < p) ss) = sample_of q ss"
  by (induction ss) auto

lemma by_pid_dropWhile: "by_pid ss \<Longrightarrow> by_pid (dropWhile c ss)"
  by (induction ss) auto

lemma sample_of_append: "sample_of p (xs @ ys) = (case sample_of p xs of None \<Rightarrow> sample_of p ys | Some s \<Rightarrow> Some s)"
  by (induction xs) auto

lemma sample_of_takeWhile:
  "by_pid ss \<Longrightarrow> sample_of p (takeWhile (\<lambda>s. sa_pid s < q) ss) = (if p < q then sample_of p ss else None)"
proof (induction ss)
  case (Cons s ss)
  have "sample_of p ss = None" if "p \<le> sa_pid s" unfolding sample_of_None using Cons(2) that by force
  then show ?case using Cons by auto
qed simp

text \<open>The entry of one process after an interval.\<close>

definition interval_entry :: "psample option \<Rightarrow> psample option \<Rightarrow> psample option \<Rightarrow> psample option" where
  "interval_entry prev a cur =
     (case cur of None \<Rightarrow> a | Some c \<Rightarrow> Some (absorb prev c (case a of None \<Rightarrow> fresh_acc c | Some a \<Rightarrow> a)))"

definition pids :: "psample list \<Rightarrow> pid set" where
  "pids ss = sa_pid ` set ss"

lemma pids_simps [simp]: "pids [] = {}" "pids (s # ss) = insert (sa_pid s) (pids ss)" "pids (xs @ ys) = pids xs \<union> pids ys"
  by (auto simp: pids_def)

lemma pids_split: "pids (takeWhile c ss) \<union> pids (dropWhile c ss) = pids ss"
  by (simp flip: pids_simps(3))

lemma sample_of_None_pids: "sample_of p ss = None \<longleftrightarrow> p \<notin> pids ss"
  by (simp add: sample_of_None pids_def)

lemma merged_pids: "pids (merged prev acc cur) = pids acc \<union> pids cur"
proof (induction cur arbitrary: prev acc)
  case (Cons c cs)
  let ?b = "\<lambda>s. sa_pid s < sa_pid c"
  show ?case
  proof (cases "head_with (sa_pid c) (dropWhile ?b acc)")
    case None
    then show ?thesis using Cons.IH pids_split [of ?b acc] by (simp add: Let_def) blast
  next
    case (Some a)
    then obtain as where "dropWhile ?b acc = a # as" "sa_pid a = sa_pid c" by (auto simp: head_with_def split: list.splits if_splits)
    then show ?thesis using Some Cons.IH pids_split [of ?b acc] by (simp add: Let_def) blast
  qed
qed simp

lemma by_pid_append: "by_pid (xs @ ys) \<longleftrightarrow> by_pid xs \<and> by_pid ys \<and> (\<forall>p \<in> pids xs. \<forall>q \<in> pids ys. p < q)"
  by (auto simp: by_pid_def sorted_wrt_append pids_def)

lemma by_pid_Cons_pids: "by_pid (s # ss) \<longleftrightarrow> (\<forall>p \<in> pids ss. sa_pid s < p) \<and> by_pid ss"
  by (auto simp: pids_def)

lemma pids_takeWhile: "p \<in> pids (takeWhile (\<lambda>s. sa_pid s < q) ss) \<Longrightarrow> p < q"
  by (auto simp: pids_def dest: set_takeWhileD)

lemma pids_dropWhile: "by_pid ss \<Longrightarrow> p \<in> pids (dropWhile (\<lambda>s. sa_pid s < q) ss) \<Longrightarrow> q \<le> p"
proof (induction ss)
  case (Cons s ss)
  then show ?case by (cases "sa_pid s < q") (auto simp: pids_def)
qed simp

lemma merged_sorted:
  "by_pid acc \<Longrightarrow> by_pid cur \<Longrightarrow> by_pid (merged prev acc cur)"
proof (induction cur arbitrary: prev acc)
  case (Cons c cs)
  let ?b = "\<lambda>s. sa_pid s < sa_pid c"
  have acc': "by_pid (dropWhile ?b acc)" by (rule by_pid_dropWhile) (rule Cons.prems)
  have tw: "by_pid (takeWhile ?b acc)" using Cons.prems(1) by_pid_append by (metis takeWhile_dropWhile_id)
  have late: "sa_pid c \<le> p" if "p \<in> pids (dropWhile ?b acc)" for p by (rule pids_dropWhile [OF Cons.prems(1) that])
  have small: "p < sa_pid c" if "p \<in> pids (takeWhile ?b acc)" for p by (rule pids_takeWhile [OF that])
  have cs: "by_pid cs" "\<forall>p \<in> pids cs. sa_pid c < p" using Cons.prems(2) by (auto simp: pids_def)
  show ?case
  proof (cases "head_with (sa_pid c) (dropWhile ?b acc)")
    case None
    then have "sample_of (sa_pid c) acc = None" using head_with_sorted [OF Cons.prems(1)] by simp
    then have "sa_pid c \<notin> pids (dropWhile ?b acc)" using pids_split [of ?b acc] by (auto simp: sample_of_None_pids)
    then have "sa_pid c < p" if "p \<in> pids (dropWhile ?b acc)" for p using late [OF that] that by (metis order_le_less)
    then show ?thesis
      using None Cons.IH [OF acc' cs(1)] tw cs(2)
      by (auto simp: Let_def by_pid_append by_pid_Cons_pids merged_pids simp del: by_pid_Cons
          intro: small order.strict_trans [OF small])
  next
    case (Some a)
    then obtain as where as: "dropWhile ?b acc = a # as" "sa_pid a = sa_pid c" by (auto simp: head_with_def split: list.splits if_splits)
    then have "by_pid as" "\<forall>p \<in> pids as. sa_pid c < p" using acc' by (auto simp: pids_def)
    then show ?thesis
      using Some as Cons.IH [of as] cs tw
      by (auto simp: Let_def by_pid_append by_pid_Cons_pids merged_pids simp del: by_pid_Cons
          intro: small order.strict_trans [OF small])
  qed
qed simp

text \<open>One step of the merge: the entry of the current process, and what is left of the others.\<close>

lemma merged_step:
  assumes "by_pid prev" "by_pid acc"
  obtains a as where
    "merged prev acc (c # cs) = takeWhile (\<lambda>s. sa_pid s < sa_pid c) acc @
       absorb (sample_of (sa_pid c) prev) c a # merged (dropWhile (\<lambda>s. sa_pid s < sa_pid c) prev) as cs"
    "a = (case sample_of (sa_pid c) acc of None \<Rightarrow> fresh_acc c | Some a \<Rightarrow> a)" "sa_pid a = sa_pid c"
    "by_pid as" "\<forall>p < sa_pid c. p \<notin> pids as" "\<forall>p > sa_pid c. sample_of p as = sample_of p acc"
proof -
  let ?b = "\<lambda>s. sa_pid s < sa_pid c"
  let ?prev = "dropWhile ?b prev" and ?acc = "dropWhile ?b acc"
  have sorted: "by_pid ?acc" by (rule by_pid_dropWhile) (rule assms(2))
  have heads: "head_with (sa_pid c) ?prev = sample_of (sa_pid c) prev" "head_with (sa_pid c) ?acc = sample_of (sa_pid c) acc"
    using assms by (auto intro: head_with_sorted)
  have low: "p \<notin> pids ?acc" if "p < sa_pid c" for p using pids_dropWhile [OF assms(2)] that by fastforce
  have skip: "sample_of p ?acc = sample_of p acc" if "sa_pid c < p" for p using that by (simp add: sample_of_dropWhile)
  show thesis
  proof (cases "head_with (sa_pid c) ?acc")
    case None
    then show thesis using sorted heads low skip by (intro that [of "fresh_acc c" ?acc]) (auto simp: Let_def)
  next
    case (Some a)
    then obtain as where as: "?acc = a # as" "sa_pid a = sa_pid c" by (auto simp: head_with_def split: list.splits if_splits)
    have "\<forall>p > sa_pid c. sample_of p as = sample_of p acc" using skip as by auto
    moreover have "sample_of (sa_pid c) acc = Some a" using Some heads(2) by simp
    moreover have "by_pid as" "\<forall>p < sa_pid c. p \<notin> pids as" using sorted low as by (auto simp: pids_def)
    ultimately show thesis using Some as heads(1) by (intro that [of a as]) (simp_all add: Let_def)
  qed
qed

lemma merged_lookup:
  assumes "by_pid prev" "by_pid acc" "by_pid cur"
  shows "sample_of p (merged prev acc cur) = interval_entry (sample_of p prev) (sample_of p acc) (sample_of p cur)"
  using assms
proof (induction cur arbitrary: prev acc)
  case Nil
  then show ?case by (simp add: interval_entry_def)
next
  case (Cons c cs)
  let ?b = "\<lambda>s. sa_pid s < sa_pid c"
  obtain a as where m: "merged prev acc (c # cs) = takeWhile ?b acc @
       absorb (sample_of (sa_pid c) prev) c a # merged (dropWhile ?b prev) as cs"
    and a: "a = (case sample_of (sa_pid c) acc of None \<Rightarrow> fresh_acc c | Some a \<Rightarrow> a)" "sa_pid a = sa_pid c"
    and as: "by_pid as" "\<forall>p < sa_pid c. p \<notin> pids as" "\<forall>p > sa_pid c. sample_of p as = sample_of p acc"
    using merged_step [OF Cons.prems(1,2), of c cs] by blast
  have none: "sample_of p cs = None" if "p \<le> sa_pid c" unfolding sample_of_None using Cons.prems(3) that by force
  have before: "sample_of p (takeWhile ?b acc) = (if p < sa_pid c then sample_of p acc else None)"
    by (rule sample_of_takeWhile) (rule Cons.prems(2))
  consider (lt) "p < sa_pid c" | (eq) "p = sa_pid c" | (gt) "sa_pid c < p" by linarith
  then show ?case
  proof cases
    case lt
    have "sample_of p (merged (dropWhile ?b prev) as cs) = None"
      using none as(2) lt by (simp add: sample_of_None_pids merged_pids)
    then show ?thesis unfolding m using before lt none a(2) by (simp add: sample_of_append interval_entry_def split: option.split)
  next
    case eq
    then show ?thesis unfolding m using before a by (simp add: sample_of_append interval_entry_def)
  next
    case gt
    have "sample_of p (merged (dropWhile ?b prev) as cs) = interval_entry (sample_of p prev) (sample_of p acc) (sample_of p cs)"
      using Cons.IH [OF by_pid_dropWhile [OF Cons.prems(1)] as(1), of ?b] Cons.prems(3) gt as(3) by (simp add: sample_of_dropWhile)
    then show ?thesis unfolding m using before gt a(2) by (simp add: sample_of_append)
  qed
qed

section \<open>What the window adds up\<close>

text \<open>The processes of a window, when no interval overflows the vector.\<close>

definition fits :: "psample list list \<Rightarrow> bool" where
  "fits ss \<longleftrightarrow> (\<forall>s \<in> set ss. by_pid s) \<and> card (\<Union> (pids ` set ss)) \<le> MAX_PROCS"

lemma by_pid_length: "by_pid ss \<Longrightarrow> length ss = card (pids ss)"
proof -
  assume "by_pid ss"
  then have "distinct (map sa_pid ss)" by (auto simp: by_pid_def strict_sorted_iff)
  then show ?thesis using distinct_card [of "map sa_pid ss"] by (simp add: pids_def)
qed

lemma finite_pids [simp]: "finite (pids ss)"
  by (simp add: pids_def)

text \<open>The window without the capacity.\<close>

fun accumulated :: "psample list \<Rightarrow> psample list list \<Rightarrow> psample list \<Rightarrow> psample list" where
  "accumulated prev [] acc = acc"
| "accumulated prev (cur # rest) acc = accumulated cur rest (merged prev acc cur)"

lemma accumulate_fits:
  "by_pid acc \<Longrightarrow> (\<forall>s \<in> set ss. by_pid s) \<Longrightarrow> card (pids acc \<union> \<Union> (pids ` set ss)) \<le> MAX_PROCS \<Longrightarrow>
   accumulate prev ss acc = accumulated prev ss acc"
proof (induction ss arbitrary: prev acc)
  case (Cons cur rest)
  let ?m = "merged prev acc cur"
  have sorted: "by_pid ?m" using Cons.prems by (simp add: merged_sorted)
  have all: "card (pids ?m \<union> \<Union> (pids ` set rest)) \<le> MAX_PROCS" using Cons.prems(3) by (simp add: merged_pids Un_assoc)
  have "card (pids ?m) \<le> card (pids ?m \<union> \<Union> (pids ` set rest))" by (rule card_mono) auto
  then have "length ?m \<le> MAX_PROCS" using all by (simp add: by_pid_length [OF sorted])
  then have "merge_interval prev acc cur [] = ?m" using merge_interval_merged [of prev acc cur "[]"] by simp
  then show ?case using Cons.IH [OF sorted _ all] Cons.prems(2) by simp
qed simp

lemma accumulated_sorted: "by_pid acc \<Longrightarrow> (\<forall>s \<in> set ss. by_pid s) \<Longrightarrow> by_pid (accumulated prev ss acc)"
  by (induction ss arbitrary: prev acc) (simp_all add: merged_sorted)

text \<open>The counters of a sample, and those a process accumulates while they only grow.\<close>

definition counters :: "psample \<Rightarrow> (u64 list \<times> u32 list)" where
  "counters s = ([sa_utime s, sa_stime s, sa_voluntary s, sa_involuntary s, sa_read_bytes s, sa_write_bytes s, sa_io_calls s,
     sa_gfx s, sa_compute s, sa_dec s, sa_enc s], [sa_minflt s, sa_majflt s])"

definition grows :: "psample \<Rightarrow> psample \<Rightarrow> bool" where
  "grows x y \<longleftrightarrow> list_all2 (\<le>) (fst (counters x)) (fst (counters y)) \<and> list_all2 (\<le>) (snd (counters x)) (snd (counters y))"

definition counters_since :: "psample \<Rightarrow> psample \<Rightarrow> (u64 list \<times> u32 list)" where
  "counters_since x y = (map2 (-) (fst (counters y)) (fst (counters x)), map2 (-) (snd (counters y)) (snd (counters x)))"

lemma absorb_counters:
  assumes "grows x c" "counters a = counters_since x0 x"
  shows "counters (absorb (Some x) c a) = counters_since x0 c"
  using assms by (auto simp: counters_def counters_since_def grows_def absorb_def gained_def grown_def)

lemma fresh_counters: "counters (fresh_acc c) = counters_since x x"
  by (simp add: counters_def counters_since_def fresh_acc_def psample_new_def)

fun follows :: "pid \<Rightarrow> psample \<Rightarrow> psample list list \<Rightarrow> psample \<Rightarrow> bool" where
  "follows p x [] y \<longleftrightarrow> x = y"
| "follows p x (s # ss) y \<longleftrightarrow> (\<exists>x'. sample_of p s = Some x' \<and> grows x x' \<and> follows p x' ss y)"

lemma accumulated_counters:
  "by_pid prev \<Longrightarrow> by_pid acc \<Longrightarrow> (\<forall>s \<in> set ss. by_pid s) \<Longrightarrow> sample_of p prev = Some x \<Longrightarrow> sample_of p acc = Some a \<Longrightarrow>
   counters a = counters_since x0 x \<Longrightarrow> follows p x ss y \<Longrightarrow>
   \<exists>a'. sample_of p (accumulated prev ss acc) = Some a' \<and> counters a' = counters_since x0 y"
proof (induction ss arbitrary: prev acc x a)
  case (Cons cur rest)
  obtain x' where x': "sample_of p cur = Some x'" "grows x x'" "follows p x' rest y" using Cons.prems(7) by auto
  have cur: "by_pid cur" and rest: "\<forall>s \<in> set rest. by_pid s" using Cons.prems(3) by auto
  have look: "sample_of p (merged prev acc cur) = Some (absorb (Some x) x' a)"
    using merged_lookup [OF Cons.prems(1,2) cur, of p] Cons.prems(4,5) x'(1) by (simp add: interval_entry_def)
  have "counters (absorb (Some x) x' a) = counters_since x0 x'" by (rule absorb_counters [OF x'(2) Cons.prems(6)])
  then show ?case
    using Cons.IH [OF cur merged_sorted [OF Cons.prems(2) cur] rest x'(1) look _ x'(3)] by simp
qed simp

text \<open>The sums the attribution forms do not wrap for a sample.\<close>

definition no_wrap :: "psample \<Rightarrow> bool" where
  "no_wrap s \<longleftrightarrow> uint (sa_utime s) + uint (sa_stime s) < 2 ^ 64 \<and>
     uint (sa_voluntary s) + uint (sa_involuntary s) < 2 ^ 64 \<and>
     uint (sa_read_bytes s) + uint (sa_write_bytes s) < 2 ^ 64 \<and>
     uint (sa_gfx s) + uint (sa_compute s) + uint (sa_dec s) + uint (sa_enc s) < 2 ^ 64"

definition what_happened :: "pdelta \<Rightarrow> u32 \<times> u64 \<times> u64 \<times> u64 \<times> u64 \<times> u32 \<times> u32" where
  "what_happened d = (dl_cpu_ticks d, dl_wakeups d, dl_gpu_ns d, dl_io_bytes d, dl_io_calls d, dl_minflt d, dl_majflt d)"

lemma sum_le_word:
  fixes a :: u64
  assumes "a \<le> a'" "b \<le> b'" "uint a' + uint b' < 2 ^ 64"
  shows "a + b \<le> a' + b'" "uint (a' + b') = uint a' + uint b'"
proof -
  have le: "uint a \<le> uint a'" "uint b \<le> uint b'" using assms(1,2) by (simp_all add: word_le_def)
  show sum: "uint (a' + b') = uint a' + uint b'" using assms(3) by (simp add: uint_plus_if_size word_size)
  have "uint (a + b) = uint a + uint b" using assms(3) le by (simp add: uint_plus_if_size word_size)
  then show "a + b \<le> a' + b'" using sum le by (simp add: word_le_def)
qed

lemma grown_0 [simp]: "grown 0 w = w"
  by (simp add: grown_def)

lemma sums_grow:
  assumes "grows x y" "no_wrap y"
  shows "cpu_ticks x \<le> cpu_ticks y" "switches x \<le> switches y" "io_bytes x \<le> io_bytes y" "gpu_time x \<le> gpu_time y"
proof -
  show "cpu_ticks x \<le> cpu_ticks y" "switches x \<le> switches y" "io_bytes x \<le> io_bytes y"
    using assms by (auto simp: grows_def counters_def no_wrap_def cpu_ticks_def switches_def io_bytes_def intro: sum_le_word(1))
  have "sa_gfx x \<le> sa_gfx y" "sa_compute x \<le> sa_compute y" "sa_dec x \<le> sa_dec y" "sa_enc x \<le> sa_enc y"
    and w: "uint (sa_gfx y) + uint (sa_compute y) + uint (sa_dec y) + uint (sa_enc y) < 2 ^ 64"
    using assms by (auto simp: grows_def counters_def no_wrap_def)
  moreover have pos: "0 \<le> uint (sa_dec y)" "0 \<le> uint (sa_enc y)" by simp_all
  moreover have two: "uint (sa_gfx y + sa_compute y) = uint (sa_gfx y) + uint (sa_compute y)"
    by (rule sum_le_word(2) [OF order_refl order_refl]) (use w pos in linarith)
  moreover have "uint (sa_gfx y + sa_compute y + sa_dec y) = uint (sa_gfx y) + uint (sa_compute y) + uint (sa_dec y)"
    using two w pos by (subst sum_le_word(2) [OF order_refl order_refl]) linarith+
  ultimately show "gpu_time x \<le> gpu_time y"
    unfolding gpu_time_def by (intro sum_le_word(1)) linarith+
qed

lemma since_zero:
  assumes "counters a = counters_since x y" "grows x y" "no_wrap y"
  shows "what_happened (delta_of (zero_base a) a) = what_happened (delta_of x y)"
proof -
  have zero: "cpu_ticks (zero_base a) = 0" "switches (zero_base a) = 0" "io_bytes (zero_base a) = 0" "gpu_time (zero_base a) = 0"
    "sa_io_calls (zero_base a) = 0" "sa_minflt (zero_base a) = 0" "sa_majflt (zero_base a) = 0"
    by (simp_all add: cpu_ticks_def switches_def io_bytes_def gpu_time_def zero_base_def psample_new_def)
  have "cpu_ticks a = cpu_ticks y - cpu_ticks x" "switches a = switches y - switches x"
    "io_bytes a = io_bytes y - io_bytes x" "gpu_time a = gpu_time y - gpu_time x"
    "sa_io_calls a = sa_io_calls y - sa_io_calls x" "sa_minflt a = sa_minflt y - sa_minflt x" "sa_majflt a = sa_majflt y - sa_majflt x"
    using assms(1) by (auto simp: counters_def counters_since_def cpu_ticks_def switches_def io_bytes_def gpu_time_def)
  moreover have "sa_io_calls x \<le> sa_io_calls y" "sa_minflt x \<le> sa_minflt y" "sa_majflt x \<le> sa_majflt y"
    using assms(2) by (auto simp: grows_def counters_def)
  ultimately show ?thesis
    using zero sums_grow [OF assms(2,3)] by (simp add: what_happened_def delta_of_def grown_def)
qed

lemma zero_pairs:
  assumes "by_pid accs"
  shows "common_pairs (map zero_base accs) accs = map (\<lambda>a. (zero_base a, a)) accs"
proof -
  have "sample_of (sa_pid a) (map zero_base accs) = Some (zero_base a)" if "a \<in> set accs" for a
    using assms that by (induction accs) auto
  then have "common_pairs (map zero_base accs) as = map (\<lambda>a. (zero_base a, a)) as" if "set as \<subseteq> set accs" for as
    using that by (induction as) (auto simp: common_pairs_simps)
  then show ?thesis by simp
qed

lemma grows_refl: "grows x x"
  by (simp add: grows_def list.rel_refl)

lemma grows_trans: "grows x y \<Longrightarrow> grows y z \<Longrightarrow> grows x z"
  by (auto simp: grows_def counters_def)

lemma follows_grows: "follows p x ss y \<Longrightarrow> grows x y"
  by (induction ss arbitrary: x) (auto intro: grows_refl grows_trans)

lemma window_accum_fits:
  assumes "fits (s0 # ss)"
  shows "accumulate s0 ss [] = accumulated s0 ss []" "by_pid (accumulated s0 ss [])"
proof -
  have "card (\<Union> (pids ` set ss)) \<le> card (\<Union> (pids ` set (s0 # ss)))" by (rule card_mono) auto
  then show "accumulate s0 ss [] = accumulated s0 ss []"
    using assms by (intro accumulate_fits) (auto simp: fits_def)
  show "by_pid (accumulated s0 ss [])" using assms by (intro accumulated_sorted) (auto simp: fits_def)
qed

lemma window_counters:
  assumes "fits (s0 # ss)" "ss \<noteq> []" "sample_of p s0 = Some x" "follows p x ss y"
  shows "\<exists>a. sample_of p (accumulated s0 ss []) = Some a \<and> counters a = counters_since x y"
proof -
  obtain s1 rest where ss: "ss = s1 # rest" using assms(2) by (cases ss) auto
  obtain x1 where x1: "sample_of p s1 = Some x1" "grows x x1" "follows p x1 rest y" using assms(4) ss by auto
  have sorted: "by_pid s0" "by_pid s1" "\<forall>s \<in> set rest. by_pid s" using assms(1) ss by (auto simp: fits_def)
  have look: "sample_of p (merged s0 [] s1) = Some (absorb (Some x) x1 (fresh_acc x1))"
    using merged_lookup [OF sorted(1) _ sorted(2), of "[]" p] assms(3) x1(1) by (simp add: interval_entry_def)
  have "counters (absorb (Some x) x1 (fresh_acc x1)) = counters_since x x1"
    by (rule absorb_counters [OF x1(2) fresh_counters])
  then show ?thesis
    using accumulated_counters [OF sorted(2) merged_sorted [OF _ sorted(2)] sorted(3) x1(1) look _ x1(3)] by (simp add: ss)
qed

text \<open>C28. A window is counted like its two ends.  When the samples are sorted, at most 2048 processes
  occur, a process is in every sample and its counters only grow, then the difference that the
  attribution of the accumulated window sees for it has the CPU ticks, wakeups, GPU time, I/O and
  page faults of the difference between its last and its first sample.
\<close>

theorem window_counts_end_to_end:
  assumes "fits (s0 # ss)" "2 \<le> length ss" "sample_of p s0 = Some x" "follows p x ss y" "no_wrap y"
  shows "\<exists>zs accs a. window_pair (length (s0 # ss)) (s0 # ss) = Some (zs, accs) \<and> (zero_base a, a) \<in> set (common_pairs zs accs) \<and>
    sa_pid a = p \<and> what_happened (delta_of (zero_base a) a) = what_happened (delta_of x y)"
proof -
  have "ss \<noteq> []" using assms(2) by auto
  then obtain a where a: "sample_of p (accumulated s0 ss []) = Some a" "counters a = counters_since x y"
    using window_counters [OF assms(1) _ assms(3,4)] by blast
  let ?accs = "accumulated s0 ss []"
  have pair: "window_pair (length (s0 # ss)) (s0 # ss) = Some (map zero_base ?accs, ?accs)"
    using assms(2) window_accum_fits [OF assms(1)] by (auto simp: window_pair_def window_accum_def Let_def)
  have "(zero_base a, a) \<in> set (common_pairs (map zero_base ?accs) ?accs)"
    using zero_pairs [OF window_accum_fits(2) [OF assms(1)]] sample_of_Some [OF a(1)] by auto
  then show ?thesis
    using pair a sample_of_Some [OF a(1)] since_zero [OF a(2) follows_grows [OF assms(4)] assms(5)] by blast
qed

definition busy :: "u64 \<Rightarrow> 10 word \<Rightarrow> psample list" where
  "busy ticks core = [sample_at 3 7 0, sample_at 9 ticks core]"

theorem window_counts_end_to_end_witness:
  "\<exists>zs accs a. window_pair (length (busy 10 1 # [busy 12 9, busy 40 2])) (busy 10 1 # [busy 12 9, busy 40 2]) = Some (zs, accs) \<and>
    (zero_base a, a) \<in> set (common_pairs zs accs) \<and> sa_pid a = 9 \<and>
    what_happened (delta_of (zero_base a) a) = what_happened (delta_of (sample_at 9 10 1) (sample_at 9 40 2))"
proof (rule window_counts_end_to_end)
  show "fits (busy 10 1 # [busy 12 9, busy 40 2])"
    by (auto simp: fits_def busy_def sample_at_def psample_new_def)
  show "follows 9 (sample_at 9 10 1) [busy 12 9, busy 40 2] (sample_at 9 40 2)"
    by (simp add: busy_def sample_at_def psample_new_def grows_def counters_def)
qed (simp_all add: busy_def sample_at_def psample_new_def no_wrap_def)

text \<open>The sweep over an accumulated window never sees a migration: the base it compares with has the
  core of the last sample.  So no process of a window of three or more samples is charged for
  crossing core complexes, wherever its samples saw it run.
\<close>

theorem window_hides_migrations:
  assumes "fits (s0 # ss)" "2 \<le> length ss" "window_pair (length (s0 # ss)) (s0 # ss) = Some (zs, accs)"
  shows "list_all (\<lambda>d. \<not> dl_cross_ccx d \<and> dl_prev_core d = dl_core d) (sw_deltas (two_pointer zs accs sweep_new))"
proof -
  have accs: "zs = map zero_base accs" "by_pid accs"
    using assms(2,3) window_accum_fits [OF assms(1)] by (auto simp: window_pair_def window_accum_def Let_def split: if_splits)
  have zs: "by_pid zs" using accs by (simp add: by_pid_def comp_def)
  have "sa_core (zero_base a) = sa_core a" for a by (simp add: zero_base_def)
  then have "\<not> dl_cross_ccx (delta_of (zero_base a) a) \<and> dl_prev_core (delta_of (zero_base a) a) = dl_core (delta_of (zero_base a) a)" for a
    by (simp add: delta_of_def crosses_ccx_def)
  moreover have "sw_deltas (two_pointer zs accs sweep_new) = take MAX_PROCS (map (\<lambda>(p, q). delta_of p q) (common_pairs zs accs))"
    using sweep_fold [of "common_pairs zs accs" "[]" 0 0 0] by (simp add: two_pointer_fold [OF zs accs(2)] sweep_new_def)
  then have "set (sw_deltas (two_pointer zs accs sweep_new)) \<subseteq> (\<lambda>a. delta_of (zero_base a) a) ` set accs"
    using accs by (auto simp: zero_pairs dest!: in_set_takeD)
  ultimately show ?thesis unfolding list_all_iff by blast
qed

theorem window_hides_migrations_witness:
  "crosses_ccx (sample_at 9 12 9) (sample_at 9 40 2) \<and>
   list_all (\<lambda>d. \<not> dl_cross_ccx d \<and> dl_prev_core d = dl_core d)
     (sw_deltas (two_pointer (map zero_base (window_accum 3 [busy 10 1, busy 12 9, busy 40 2]))
       (window_accum 3 [busy 10 1, busy 12 9, busy 40 2]) sweep_new))"
proof
  show "crosses_ccx (sample_at 9 12 9) (sample_at 9 40 2)"
    by (simp add: crosses_ccx_def sample_at_def psample_new_def cpu_ticks_def grown_def)
  have "fits (busy 10 1 # [busy 12 9, busy 40 2])"
    by (auto simp: fits_def busy_def sample_at_def psample_new_def)
  then show "list_all (\<lambda>d. \<not> dl_cross_ccx d \<and> dl_prev_core d = dl_core d)
     (sw_deltas (two_pointer (map zero_base (window_accum 3 [busy 10 1, busy 12 9, busy 40 2]))
       (window_accum 3 [busy 10 1, busy 12 9, busy 40 2]) sweep_new))"
    by (rule window_hides_migrations) (simp_all add: window_pair_def Let_def numeral_3_eq_3)
qed

end
