(* ===== verification/Attribution_Power.thy ===== *)
theory Attribution_Power
  imports Types
begin

text \<open>
  The power of the hardware between two samples (\<^verbatim>\<open>src/policy/attribution_engine.cpp\<close>,
  \<^verbatim>\<open>compute_hardware_power\<close>), in double precision with every rounding.  Names of devices, status
  texts and values that are only copied through for display are left out.  The C library's power
  function is a parameter.
\<close>

section \<open>Samples of the hardware\<close>

record hw_sample =
  hs_time_ns :: int
  hs_power_uw :: "u64 option"
  hs_voltage_uv :: "u64 option"
  hs_current_ua :: "int option"
  hs_energy_now_uwh :: "u64 option"
  hs_energy_full_uwh :: "u64 option"
  hs_energy_design_uwh :: "u64 option"
  hs_capacity_percent :: "u32 option"
  hs_discharging :: bool
  hs_ac_online :: bool
  hs_charge_end :: "u32 option"
  hs_usbc_voltage_uv :: "u64 option"
  hs_usbc_current_ua :: "u64 option"
  hs_rapl_uj :: "u64 option"
  hs_rapl_range_uj :: u64
  hs_cpu_temp_mdeg :: "int option"
  hs_freq_avg_khz :: u32
  hs_freq_min_khz :: u32
  hs_freq_max_khz :: u32
  hs_cores_online :: u32
  hs_cstate_us :: "u64 \<times> u64 \<times> u64 \<times> u64"
  hs_gpu_power_uw :: "u64 option"
  hs_gpu_is_apu :: bool
  hs_gpu_busy :: "u32 option"
  hs_gpu_freq_hz :: "u64 option"
  hs_gpu_temp_mdeg :: "int option"
  hs_gpu_vram_used :: "u64 option"
  hs_nvme_active :: bool
  hs_nvme_temp_mdeg :: "int option"
  hs_read_sectors :: u64
  hs_write_sectors :: u64
  hs_fan_rpm :: "u32 option"
  hs_backlight :: "u32 option"
  hs_backlight_max :: "u32 option"
  hs_aspm_policy :: string
  hs_pmu_instructions :: u64
  hs_pmu_cycles :: u64
  hs_pmu_ipc :: float64
  hs_pmu_llc :: u64
  hs_pmu_branch :: u64

definition hw_sample_new :: hw_sample where
  "hw_sample_new =
     \<lparr>hs_time_ns = 0, hs_power_uw = None, hs_voltage_uv = None, hs_current_ua = None, hs_energy_now_uwh = None,
      hs_energy_full_uwh = None, hs_energy_design_uwh = None, hs_capacity_percent = None, hs_discharging = False,
      hs_ac_online = False, hs_charge_end = None, hs_usbc_voltage_uv = None, hs_usbc_current_ua = None, hs_rapl_uj = None,
      hs_rapl_range_uj = 0, hs_cpu_temp_mdeg = None, hs_freq_avg_khz = 0, hs_freq_min_khz = 0, hs_freq_max_khz = 0,
      hs_cores_online = 0, hs_cstate_us = (0, 0, 0, 0), hs_gpu_power_uw = None, hs_gpu_is_apu = False, hs_gpu_busy = None,
      hs_gpu_freq_hz = None, hs_gpu_temp_mdeg = None, hs_gpu_vram_used = None, hs_nvme_active = False,
      hs_nvme_temp_mdeg = None, hs_read_sectors = 0, hs_write_sectors = 0, hs_fan_rpm = None, hs_backlight = None,
      hs_backlight_max = None, hs_aspm_policy = [], hs_pmu_instructions = 0, hs_pmu_cycles = 0, hs_pmu_ipc = Fin 0,
      hs_pmu_llc = 0, hs_pmu_branch = 0\<rparr>"

record power_breakdown = hw_breakdown +
  pb_ac_online :: bool
  pb_direct_rapl :: bool
  pb_degradation_percent :: float64
  pb_lost_wh :: float64
  pb_energy_now_wh :: float64
  pb_energy_full_wh :: float64
  pb_energy_design_wh :: float64
  pb_voltage_v :: float64
  pb_current_a :: float64
  pb_hours_remaining :: float64
  pb_hours_to_threshold :: float64
  pb_hours_to_full :: float64
  pb_charge_end :: "u32 option"
  pb_conservation :: bool
  pb_usbc_watts :: float64
  pb_freq_min_mhz :: float64
  pb_c1_percent :: float64
  pb_c2_percent :: float64
  pb_gpu_busy :: u32
  pb_gpu_freq_mhz :: float64
  pb_gpu_temp_c :: float64
  pb_gpu_vram_used_mb :: float64
  pb_nvme_temp_c :: float64
  pb_read_mb_per_sec :: float64
  pb_write_mb_per_sec :: float64
  pb_energy_proxy :: float64
  pb_pmu_power_mw :: float64
  pb_waste_ratio :: float64

definition breakdown_new :: power_breakdown where
  "breakdown_new =
     \<lparr>hw_total_system_watts = Fin 0, hw_cpu_package_watts = Fin 0, hw_gpu_watts = Fin 0, hw_display_watts = Fin 0,
      hw_fan_watts = Fin 0, hw_storage_watts = Fin 0, hw_uncore_watts = Fin 0, hw_is_battery_discharging = False,
      hw_is_ac_passthrough = False, hw_battery_capacity_percent = 0, hw_battery_health_percent = Fin 0,
      hw_battery_hours_to_empty = Fin 0, hw_cpu_temp_c = Fin 0, hw_cpu_freq_avg_mhz = Fin 0, hw_cpu_freq_max_mhz = Fin 0,
      hw_fan_rpm = 0, hw_c0_active_percent = Fin 0, hw_c3_deep_percent = Fin 0, hw_display_brightness_percent = Fin 0,
      hw_aspm_policy = [], pb_ac_online = False, pb_direct_rapl = False, pb_degradation_percent = Fin 0,
      pb_lost_wh = Fin 0, pb_energy_now_wh = Fin 0, pb_energy_full_wh = Fin 0, pb_energy_design_wh = Fin 0,
      pb_voltage_v = Fin 0, pb_current_a = Fin 0, pb_hours_remaining = Fin 0, pb_hours_to_threshold = Fin 0,
      pb_hours_to_full = Fin 0, pb_charge_end = None, pb_conservation = False, pb_usbc_watts = Fin 0,
      pb_freq_min_mhz = Fin 0, pb_c1_percent = Fin 0, pb_c2_percent = Fin 0, pb_gpu_busy = 0, pb_gpu_freq_mhz = Fin 0,
      pb_gpu_temp_c = Fin 0, pb_gpu_vram_used_mb = Fin 0, pb_nvme_temp_c = Fin 0, pb_read_mb_per_sec = Fin 0,
      pb_write_mb_per_sec = Fin 0, pb_energy_proxy = Fin 0, pb_pmu_power_mw = Fin 0, pb_waste_ratio = Fin 0\<rparr>"

section \<open>Arithmetic of the C++ library\<close>

abbreviation dbl :: "'a::len word \<Rightarrow> float64" where
  "dbl w \<equiv> fp_of_int Binary64 (uint w)"

abbreviation sub64 :: "float64 \<Rightarrow> float64 \<Rightarrow> float64" where
  "sub64 \<equiv> fp_sub Binary64"

abbreviation std_max :: "float64 \<Rightarrow> float64 \<Rightarrow> float64" where
  "std_max a b \<equiv> (if fp_lt a b then b else a)"

abbreviation std_min :: "float64 \<Rightarrow> float64 \<Rightarrow> float64" where
  "std_min a b \<equiv> (if fp_lt b a then b else a)"

definition went_up :: "u64 \<Rightarrow> u64 \<Rightarrow> u64" where
  "went_up a b = (if a \<le> b then b - a else 0)"

definition value_or :: "'a option \<Rightarrow> 'a \<Rightarrow> 'a" where
  "value_or x d = (case x of None \<Rightarrow> d | Some v \<Rightarrow> v)"

text \<open>\<open>has_value() ? value / unit : 0.0\<close>\<close>

definition scaled :: "u64 option \<Rightarrow> rat \<Rightarrow> float64" where
  "scaled x unit = (case x of None \<Rightarrow> Fin 0 | Some v \<Rightarrow> div64 (dbl v) (Fin unit))"

definition scaled_int :: "int option \<Rightarrow> rat \<Rightarrow> float64" where
  "scaled_int x unit = (case x of None \<Rightarrow> Fin 0 | Some v \<Rightarrow> div64 (fp_of_int Binary64 v) (Fin unit))"

section \<open>Battery\<close>

definition mean_watts :: "u64 option \<Rightarrow> u64 option \<Rightarrow> float64" where
  "mean_watts p1 p2 = (case p2 of None \<Rightarrow> Fin 0
     | Some v \<Rightarrow> div64 (div64 (dbl (value_or p1 v + v)) (Fin 2)) (Fin 1000000))"

definition battery_wear :: "hw_sample \<Rightarrow> power_breakdown \<Rightarrow> power_breakdown" where
  "battery_wear s hw =
     (case (hs_energy_full_uwh s, hs_energy_design_uwh s) of
        (Some full, Some design) \<Rightarrow>
          if 0 < design
          then let health = div64 (mul64 (dbl full) (Fin 100)) (dbl design)
               in hw\<lparr>hw_battery_health_percent := health,
                    pb_degradation_percent := std_max (Fin 0) (sub64 (Fin 100) health),
                    pb_lost_wh := (if full \<le> design then div64 (dbl (design - full)) (Fin 1000000) else Fin 0),
                    pb_energy_design_wh := div64 (dbl design) (Fin 1000000),
                    pb_energy_full_wh := div64 (dbl full) (Fin 1000000)\<rparr>
          else hw\<lparr>hw_battery_health_percent := Fin 100, pb_degradation_percent := Fin 0, pb_lost_wh := Fin 0\<rparr>
      | _ \<Rightarrow> hw\<lparr>hw_battery_health_percent := Fin 100, pb_degradation_percent := Fin 0, pb_lost_wh := Fin 0\<rparr>)"

definition battery_state :: "hw_sample \<Rightarrow> power_breakdown \<Rightarrow> power_breakdown" where
  "battery_state s hw = hw\<lparr>
     pb_energy_now_wh := (if hs_energy_now_uwh s = None then pb_energy_now_wh hw else scaled (hs_energy_now_uwh s) 1000000),
     pb_voltage_v := (if hs_voltage_uv s = None then pb_voltage_v hw else scaled (hs_voltage_uv s) 1000000),
     pb_current_a := (if hs_current_ua s = None then pb_current_a hw else scaled_int (hs_current_ua s) 1000000),
     hw_battery_capacity_percent := value_or (hs_capacity_percent s) 0, pb_charge_end := hs_charge_end s,
     pb_conservation := (pb_conservation hw \<or> (case hs_charge_end s of None \<Rightarrow> False | Some e \<Rightarrow> e \<le> 85))\<rparr>"

definition charge_inflow_by_current :: "hw_sample \<Rightarrow> float64" where
  "charge_inflow_by_current s =
     (case (hs_current_ua s, hs_voltage_uv s) of
        (Some cur, Some v) \<Rightarrow>
          if cur \<noteq> 0 then div64 (mul64 (fp_of_int Binary64 \<bar>cur\<bar>) (dbl v)) (Fin 1000000000000) else Fin 0
      | _ \<Rightarrow> Fin 0)"

definition charge_inflow :: "hw_sample \<Rightarrow> float64" where
  "charge_inflow s =
     (case hs_power_uw s of
        Some p \<Rightarrow> if 100000 < p then div64 (dbl p) (Fin 1000000) else charge_inflow_by_current s
      | None \<Rightarrow> charge_inflow_by_current s)"

definition battery_runtime :: "hw_sample \<Rightarrow> power_breakdown \<Rightarrow> power_breakdown" where
  "battery_runtime s hw =
     (if hs_discharging s
      then (if fp_gt (hw_total_system_watts hw) (lit64 (1 / 10)) \<and> fp_gt (pb_energy_now_wh hw) (Fin 0)
            then let h = div64 (pb_energy_now_wh hw) (hw_total_system_watts hw)
                 in hw\<lparr>hw_battery_hours_to_empty := h, pb_hours_remaining := h\<rparr>
            else hw)
      else let inflow = charge_inflow s
      in if fp_gt inflow (lit64 (1 / 2)) \<and> fp_gt (pb_energy_full_wh hw) (Fin 0)
         then let target = mul64 (pb_energy_full_wh hw)
                    (div64 (case pb_charge_end hw of None \<Rightarrow> Fin 100 | Some e \<Rightarrow> dbl e) (Fin 100));
                  now_wh = pb_energy_now_wh hw
              in hw\<lparr>pb_hours_to_threshold := (if fp_gt target now_wh then div64 (sub64 target now_wh) inflow
                       else pb_hours_to_threshold hw),
                   pb_hours_to_full := (if fp_gt (pb_energy_full_wh hw) now_wh
                       then div64 (sub64 (pb_energy_full_wh hw) now_wh) inflow else pb_hours_to_full hw)\<rparr>
         else hw)"

definition battery_passthrough :: "power_breakdown \<Rightarrow> power_breakdown" where
  "battery_passthrough hw =
     (if pb_ac_online hw \<and> \<not> hw_is_battery_discharging hw \<and>
         (value_or (pb_charge_end hw) 100 \<le> hw_battery_capacity_percent hw \<or> fp_lt (hw_total_system_watts hw) (lit64 (2 / 10)))
      then hw\<lparr>hw_is_ac_passthrough := True\<rparr> else hw)"

definition usbc_flow :: "hw_sample \<Rightarrow> power_breakdown \<Rightarrow> power_breakdown" where
  "usbc_flow s hw =
     (case (hs_usbc_voltage_uv s, hs_usbc_current_ua s) of
        (Some v, Some a) \<Rightarrow> hw\<lparr>pb_usbc_watts := div64 (mul64 (dbl v) (dbl a)) (Fin 1000000000000)\<rparr>
      | _ \<Rightarrow> hw)"

definition battery_section :: "hw_sample \<Rightarrow> hw_sample \<Rightarrow> power_breakdown \<Rightarrow> power_breakdown" where
  "battery_section s1 s2 hw =
     usbc_flow s2 (battery_passthrough (battery_runtime s2 (battery_state s2 (battery_wear s2
       (hw\<lparr>hw_total_system_watts := mean_watts (hs_power_uw s1) (hs_power_uw s2)\<rparr>)))))"

section \<open>Graphics, display, fan, storage\<close>

definition gpu_split :: "bool \<Rightarrow> float64 \<Rightarrow> u32 \<Rightarrow> float64" where
  "gpu_split apu raw busy =
     (if apu
      then let ratio = fp_clamp (div64 (dbl busy) (Fin 100)) (Fin 0) (Fin 1)
           in if 0 < busy
              then std_min (mul64 raw (lit64 (70 / 100))) (add64 (mul64 raw ratio) (lit64 (15 / 100)))
              else lit64 (5 / 100)
      else raw)"

definition gpu_section :: "hw_sample \<Rightarrow> hw_sample \<Rightarrow> power_breakdown \<Rightarrow> power_breakdown" where
  "gpu_section s1 s2 hw =
     (let raw = mean_watts (hs_gpu_power_uw s1) (hs_gpu_power_uw s2); busy = value_or (hs_gpu_busy s2) 0
      in hw\<lparr>pb_gpu_busy := busy, hw_gpu_watts := gpu_split (hs_gpu_is_apu s2) raw busy,
           pb_gpu_freq_mhz := scaled (hs_gpu_freq_hz s2) 1000000, pb_gpu_temp_c := scaled_int (hs_gpu_temp_mdeg s2) 1000,
           pb_gpu_vram_used_mb := scaled (hs_gpu_vram_used s2) 1048576\<rparr>)"

definition display_section :: "(float64 \<Rightarrow> float64 \<Rightarrow> float64) \<Rightarrow> hw_sample \<Rightarrow> power_breakdown \<Rightarrow> power_breakdown" where
  "display_section pow s hw =
     (case (hs_backlight s, hs_backlight_max s) of
        (Some b, Some m) \<Rightarrow>
          if 0 < m
          then let ratio = div64 (dbl b) (dbl m)
               in hw\<lparr>hw_display_brightness_percent := mul64 ratio (Fin 100),
                    hw_display_watts := add64 (lit64 (8 / 10)) (mul64 (lit64 (35 / 10)) (pow ratio (lit64 (12 / 10))))\<rparr>
          else hw
      | _ \<Rightarrow> hw)"

definition fan_section :: "hw_sample \<Rightarrow> power_breakdown \<Rightarrow> power_breakdown" where
  "fan_section s hw =
     (let rpm = value_or (hs_fan_rpm s) 0; ratio = div64 (dbl rpm) (Fin 4200)
      in hw\<lparr>hw_fan_rpm := rpm,
           hw_fan_watts := (if 500 < rpm
             then add64 (lit64 (5 / 100)) (mul64 (lit64 (17 / 10)) (mul64 (mul64 ratio ratio) ratio)) else hw_fan_watts hw)\<rparr>)"

definition disk_rate :: "u64 \<Rightarrow> float64 \<Rightarrow> float64" where
  "disk_rate d sec = div64 (div64 (mul64 (dbl d) (Fin 512)) (Fin 1048576)) sec"

definition storage_section :: "hw_sample \<Rightarrow> hw_sample \<Rightarrow> float64 \<Rightarrow> power_breakdown \<Rightarrow> power_breakdown" where
  "storage_section s1 s2 sec hw =
     (let hw = hw\<lparr>pb_nvme_temp_c := scaled_int (hs_nvme_temp_mdeg s2) 1000\<rparr>
      in if fp_gt sec (Fin 0)
         then let r = disk_rate (went_up (hs_read_sectors s1) (hs_read_sectors s2)) sec;
                  w = disk_rate (went_up (hs_write_sectors s1) (hs_write_sectors s2)) sec
              in hw\<lparr>pb_read_mb_per_sec := r, pb_write_mb_per_sec := w,
                   hw_storage_watts := add64 (if hs_nvme_active s2 then lit64 (35 / 100) else lit64 (5 / 100))
                     (mul64 (add64 r w) (lit64 (12 / 1000)))\<rparr>
         else hw)"

section \<open>Processor\<close>

definition idle_percent :: "float64 \<Rightarrow> float64 \<Rightarrow> float64" where
  "idle_percent us wall = fp_clamp (mul64 (div64 us wall) (Fin 100)) (Fin 0) (Fin 100)"

definition cstate_section :: "hw_sample \<Rightarrow> hw_sample \<Rightarrow> float64 \<Rightarrow> power_breakdown \<Rightarrow> power_breakdown" where
  "cstate_section s1 s2 sec hw =
     (let cores = (if 0 < hs_cores_online s2 then hs_cores_online s2 else 1);
          wall = mul64 (mul64 sec (Fin 1000000)) (dbl cores);
          (p1, a1, b1, c1') = hs_cstate_us s1; (p2, a2, b2, c2') = hs_cstate_us s2;
          d_poll = went_up p1 p2; d_1 = went_up a1 a2; d_2 = went_up b1 b2; d_3 = went_up c1' c2';
          active = std_max (Fin 0) (sub64 wall (dbl (d_poll + d_1 + d_2 + d_3)))
      in if fp_gt wall (Fin 0)
         then hw\<lparr>hw_c0_active_percent := idle_percent active wall, pb_c1_percent := idle_percent (dbl d_1) wall,
              pb_c2_percent := idle_percent (dbl d_2) wall, hw_c3_deep_percent := idle_percent (dbl d_3) wall\<rparr>
         else hw)"

text \<open>The energy between two readings of a counter that wraps at \<open>modulus\<close>, 0 when it is unknown.\<close>

definition rapl_delta :: "u64 \<Rightarrow> u64 \<Rightarrow> u64 \<Rightarrow> u64" where
  "rapl_delta e1 e2 modulus = (if e1 \<le> e2 then e2 - e1 else if e1 < modulus then e2 + (modulus - e1) else 0)"

definition accounted :: "power_breakdown \<Rightarrow> float64" where
  "accounted hw = add64 (add64 (add64 (add64 (hw_gpu_watts hw) (hw_display_watts hw)) (hw_fan_watts hw)) (hw_storage_watts hw))
     (lit64 (12 / 10))"

definition package_section :: "hw_sample \<Rightarrow> hw_sample \<Rightarrow> float64 \<Rightarrow> power_breakdown \<Rightarrow> power_breakdown" where
  "package_section s1 s2 sec hw =
     (let raw = mean_watts (hs_gpu_power_uw s1) (hs_gpu_power_uw s2); sys = hw_total_system_watts hw
      in case (hs_rapl_uj s1, hs_rapl_uj s2, fp_gt sec (Fin 0)) of
           (Some e1, Some e2, True) \<Rightarrow>
             hw\<lparr>pb_direct_rapl := True,
               hw_cpu_package_watts := div64 (div64 (dbl (rapl_delta e1 e2 (hs_rapl_range_uj s2))) (Fin 1000000)) sec\<rparr>
         | _ \<Rightarrow>
             hw\<lparr>pb_direct_rapl := False,
               hw_cpu_package_watts :=
                 (if hs_gpu_is_apu s2 \<and> fp_gt raw (lit64 (1 / 2))
                  then std_max (lit64 (1 / 2)) (sub64 raw (hw_gpu_watts hw))
                  else if fp_gt sys (Fin 0) then std_max (lit64 (1 / 2)) (sub64 sys (accounted hw))
                  else lit64 (35 / 10))\<rparr>)"

definition uncore_section :: "power_breakdown \<Rightarrow> power_breakdown" where
  "uncore_section hw =
     (let sys = hw_total_system_watts hw;
          known = add64 (add64 (add64 (add64 (hw_cpu_package_watts hw) (hw_gpu_watts hw)) (hw_display_watts hw)) (hw_fan_watts hw))
            (hw_storage_watts hw)
      in hw\<lparr>hw_uncore_watts := (if fp_gt sys (Fin 0) then std_max (Fin 0) (sub64 sys known) else lit64 (12 / 10))\<rparr>)"

text \<open>A hardware counter that was not read before counts from zero.\<close>

definition pmu_delta :: "u64 \<Rightarrow> u64 \<Rightarrow> u64" where
  "pmu_delta a b = (if a \<le> b \<and> 0 < a then b - a else b)"

definition pmu_section :: "hw_sample \<Rightarrow> hw_sample \<Rightarrow> float64 \<Rightarrow> power_breakdown \<Rightarrow> power_breakdown" where
  "pmu_section s1 s2 sec hw =
     (let inst = pmu_delta (hs_pmu_instructions s1) (hs_pmu_instructions s2);
          cyc = pmu_delta (hs_pmu_cycles s1) (hs_pmu_cycles s2);
          llc = pmu_delta (hs_pmu_llc s1) (hs_pmu_llc s2);
          bm = pmu_delta (hs_pmu_branch s1) (hs_pmu_branch s2);
          ipc = (if 0 < cyc \<and> 0 < inst then div64 (dbl inst) (dbl cyc) else hs_pmu_ipc s2);
          waste = add64 (mul64 (Fin 200) (dbl llc)) (mul64 (Fin 30) (dbl bm));
          epi = add64 (add64 (mul64 (dbl inst) ipc) (mul64 (Fin 200) (dbl llc))) (mul64 (Fin 30) (dbl bm));
          per = mul64 sec (Fin 1000000)
      in hw\<lparr>pb_energy_proxy := epi,
           pb_waste_ratio := (if fp_gt epi (Fin 0) then fp_clamp (mul64 (div64 waste epi) (Fin 100)) (Fin 0) (Fin 100) else Fin 0),
           pb_pmu_power_mw := (if fp_gt sec (Fin 0) \<and> 0 < inst
             then add64 (add64 (add64 (Fin 500) (div64 (mul64 (mul64 (dbl inst) ipc) (lit64 (15 / 1000))) per))
                    (div64 (mul64 (dbl llc) (Fin 3)) per)) (div64 (mul64 (dbl bm) (lit64 (20 / 100))) per)
             else Fin 0)\<rparr>)"

definition frequency_section :: "hw_sample \<Rightarrow> power_breakdown \<Rightarrow> power_breakdown" where
  "frequency_section s hw = hw\<lparr>
     hw_aspm_policy := (if hs_aspm_policy s = [] then hw_aspm_policy hw else hs_aspm_policy s),
     hw_cpu_temp_c := scaled_int (hs_cpu_temp_mdeg s) 1000, hw_cpu_freq_avg_mhz := div64 (dbl (hs_freq_avg_khz s)) (Fin 1000),
     pb_freq_min_mhz := div64 (dbl (hs_freq_min_khz s)) (Fin 1000), hw_cpu_freq_max_mhz := div64 (dbl (hs_freq_max_khz s)) (Fin 1000)\<rparr>"

definition compute_hardware_power ::
  "(float64 \<Rightarrow> float64 \<Rightarrow> float64) \<Rightarrow> hw_sample \<Rightarrow> hw_sample \<Rightarrow> float64 \<Rightarrow> power_breakdown" where
  "compute_hardware_power pow s1 s2 sec =
     (let hw = breakdown_new\<lparr>hw_is_battery_discharging := hs_discharging s2, pb_ac_online := hs_ac_online s2\<rparr>
      in pmu_section s1 s2 sec (uncore_section (package_section s1 s2 sec (cstate_section s1 s2 sec (frequency_section s2
           (storage_section s1 s2 sec (fan_section s2 (display_section pow s2 (gpu_section s1 s2 (battery_section s1 s2 hw))))))))))"

section \<open>The wrapping energy counter\<close>

text \<open>The energy of an interval is recovered from the counter across its wrap: whatever the counter showed, an
  interval that used less than its range reads back exactly.  The hardware counts modulo the range,
  the difference is computed without it.
\<close>

theorem rapl_wrap_recovers:
  assumes "e < modulus" "used < modulus"
  shows "rapl_delta e (of_int ((uint e + uint used) mod uint modulus)) modulus = used"
proof -
  define k where "k = (uint e + uint used) mod uint modulus"
  have u: "uint e < uint modulus" "uint used < uint modulus" using assms by (simp_all add: word_less_def)
  then have "0 < uint modulus" using uint_ge_0 [of e] by linarith
  then have "0 \<le> k" "k < uint modulus" unfolding k_def by (rule pos_mod_sign, rule pos_mod_bound)
  moreover have "uint modulus < 2 ^ 64" using uint_bounded [of modulus] by simp
  ultimately have k: "uint (of_int k :: u64) = k" by (simp add: uint_word_of_int take_bit_int_eq_self)
  show ?thesis
  proof (cases "uint e + uint used < uint modulus")
    case True
    then have eq: "k = uint e + uint used" using uint_ge_0 [of e] uint_ge_0 [of used] by (simp add: k_def mod_pos_pos_trivial)
    then have "e \<le> of_int k" using uint_ge_0 [of used] k by (simp add: word_le_def del: of_int_add)
    moreover have "(of_int k :: u64) = e + used" using eq by simp
    ultimately show ?thesis unfolding k_def [symmetric] rapl_delta_def by simp
  next
    case False
    then have "k = (uint e + uint used - uint modulus) mod uint modulus" by (simp add: k_def)
    also have "\<dots> = uint e + uint used - uint modulus" using False u by (intro mod_pos_pos_trivial) linarith+
    finally have eq: "k = uint e + uint used - uint modulus" .
    then have "\<not> e \<le> of_int k" using k u by (simp add: word_le_def del: of_int_add of_int_diff)
    moreover have "(of_int k :: u64) = e + used - modulus" using eq by simp
    ultimately show ?thesis using assms unfolding k_def [symmetric] rapl_delta_def by simp
  qed
qed

theorem rapl_wrap_recovers_witness:
  "rapl_delta 262143328000 (of_int ((uint (262143328000 :: u64) + uint (5000000 :: u64)) mod uint (262143328850 :: u64))) 262143328850
     = 5000000"
  by (rule rapl_wrap_recovers) simp_all

end
