(* ===== verification/Top_K.thy ===== *)
theory Top_K
  imports Types "HOL-Library.Multiset"
begin

text \<open>
  The streaming selection of the largest elements (\<^verbatim>\<open>src/core/custom_containers.hpp\<close>, \<^verbatim>\<open>TopKHeap\<close>), over a
  comparison \<open>better\<close> that says which of two elements ranks first.  The heap is the list of its elements;
  of the library's heap the code uses that the front is an element no other is worse than.  Among
  equals the model takes the last one, one of the choices the library has.
\<close>

section \<open>The heap\<close>

fun heap_front :: "('a \<Rightarrow> 'a \<Rightarrow> bool) \<Rightarrow> 'a list \<Rightarrow> 'a option" where
  "heap_front better [] = None"
| "heap_front better (x # xs) =
     (case heap_front better xs of None \<Rightarrow> Some x | Some m \<Rightarrow> if better m x then Some x else Some m)"

definition top_k_push :: "('a \<Rightarrow> 'a \<Rightarrow> bool) \<Rightarrow> nat \<Rightarrow> 'a \<Rightarrow> 'a list \<Rightarrow> 'a list" where
  "top_k_push better k x h =
     (if length h < k then h @ [x]
      else case heap_front better h of None \<Rightarrow> h
           | Some m \<Rightarrow> if better x m then remove1 m h @ [x] else h)"

text \<open>The library's sort, as an insertion sort.\<close>

fun insert_by :: "('a \<Rightarrow> 'a \<Rightarrow> bool) \<Rightarrow> 'a \<Rightarrow> 'a list \<Rightarrow> 'a list" where
  "insert_by better x [] = [x]"
| "insert_by better x (y # ys) = (if better y x then y # insert_by better x ys else x # y # ys)"

definition sort_by :: "('a \<Rightarrow> 'a \<Rightarrow> bool) \<Rightarrow> 'a list \<Rightarrow> 'a list" where
  "sort_by better xs = foldr (insert_by better) xs []"

definition top_k :: "('a \<Rightarrow> 'a \<Rightarrow> bool) \<Rightarrow> nat \<Rightarrow> 'a list \<Rightarrow> 'a list" where
  "top_k better k xs = sort_by better (fold (top_k_push better k) xs [])"

section \<open>Sorting\<close>

lemma mset_insert_by [simp]: "mset (insert_by better x ys) = add_mset x (mset ys)"
  by (induction ys) auto

lemma mset_sort_by [simp]: "mset (sort_by better xs) = mset xs"
  by (induction xs) (auto simp: sort_by_def)

lemma set_sort_by [simp]: "set (sort_by better xs) = set xs"
  by (metis mset_sort_by set_mset_mset)

lemma length_sort_by [simp]: "length (sort_by better xs) = length xs"
  by (metis mset_sort_by size_mset)

text \<open>On elements whose order is that of a key, the result is sorted by the key.\<close>

definition ranks :: "('a \<Rightarrow> 'k::linorder) \<Rightarrow> ('a \<Rightarrow> 'a \<Rightarrow> bool) \<Rightarrow> 'a set \<Rightarrow> bool" where
  "ranks key better A \<longleftrightarrow> (\<forall>x \<in> A. \<forall>y \<in> A. better x y \<longleftrightarrow> key y < key x)"

lemma ranks_subset: "ranks key better A \<Longrightarrow> B \<subseteq> A \<Longrightarrow> ranks key better B"
  by (auto simp: ranks_def)

lemma insert_by_sorted:
  "ranks key better (insert x (set ys)) \<Longrightarrow> sorted_wrt (\<ge>) (map key ys) \<Longrightarrow> sorted_wrt (\<ge>) (map key (insert_by better x ys))"
proof (induction ys)
  case (Cons y ys)
  have IH: "sorted_wrt (\<ge>) (map key (insert_by better x ys))"
    using Cons by (auto intro: ranks_subset)
  have all: "set (insert_by better x ys) = insert x (set ys)" by (metis mset_insert_by set_mset_add_mset_insert set_mset_mset)
  show ?case
  proof (cases "better y x")
    case True
    then have "key x < key y" using Cons.prems(1) by (simp add: ranks_def)
    then show ?thesis using True Cons.prems(2) IH all by auto
  next
    case False
    then have "\<not> key x < key y" using Cons.prems(1) by (simp add: ranks_def)
    then have "key y \<le> key x" by simp
    then show ?thesis using False Cons.prems(2) by (auto intro: order_trans)
  qed
qed simp

lemma sort_by_sorted: "ranks key better (set xs) \<Longrightarrow> sorted_wrt (\<ge>) (map key (sort_by better xs))"
proof (induction xs)
  case (Cons x xs)
  have "sorted_wrt (\<ge>) (map key (sort_by better xs))" using Cons by (auto intro: ranks_subset)
  moreover have "ranks key better (insert x (set (sort_by better xs)))" using Cons.prems by simp
  ultimately show ?case using insert_by_sorted unfolding sort_by_def by fastforce
qed (simp add: sort_by_def)

section \<open>The heap keeps the largest\<close>

lemma front_least:
  "ranks key better (set h) \<Longrightarrow> heap_front better h = Some m \<Longrightarrow> m \<in> set h \<and> (\<forall>x \<in> set h. key m \<le> key x)"
proof (induction h arbitrary: m)
  case (Cons x xs)
  have sub: "ranks key better (set xs)" using Cons.prems(1) by (auto intro: ranks_subset)
  show ?case
  proof (cases "heap_front better xs")
    case None
    then have "xs = []" by (cases xs) (auto split: option.splits if_splits)
    then show ?thesis using Cons.prems by simp
  next
    case (Some n)
    then have n: "n \<in> set xs" "\<forall>x \<in> set xs. key n \<le> key x" using Cons.IH [OF sub Some] by auto
    then have "better n x \<longleftrightarrow> key x < key n" using Cons.prems(1) by (simp add: ranks_def)
    then show ?thesis using Cons.prems(2) Some n by (auto split: if_splits)
  qed
qed simp

lemma heap_front_None: "heap_front better h = None \<longleftrightarrow> h = []"
  by (cases h) (auto split: option.splits)

text \<open>
  The invariant of the stream: with the elements that were turned away, the heap is all that came,
  and nothing that was turned away is larger than what is kept.
\<close>

definition keeps_largest :: "('a \<Rightarrow> 'k::linorder) \<Rightarrow> nat \<Rightarrow> 'a multiset \<Rightarrow> 'a list \<Rightarrow> bool" where
  "keeps_largest key k seen h \<longleftrightarrow>
     (\<exists>away. seen = mset h + away \<and> length h \<le> k \<and> (away \<noteq> {#} \<longrightarrow> length h = k) \<and>
        (\<forall>a \<in># away. \<forall>x \<in> set h. key a \<le> key x))"

lemma push_keeps:
  assumes r: "ranks key better (insert x (set h))" and k: "0 < k" and inv: "keeps_largest key k seen h"
  shows "keeps_largest key k (add_mset x seen) (top_k_push better k x h)"
proof -
  obtain away where a: "seen = mset h + away" "length h \<le> k" "away \<noteq> {#} \<longrightarrow> length h = k"
    "\<forall>a \<in># away. \<forall>x \<in> set h. key a \<le> key x" using inv by (auto simp: keeps_largest_def)
  show ?thesis
  proof (cases "length h < k")
    case True
    then have "away = {#}" using a(3) by auto
    then show ?thesis using True a(1) by (auto simp: keeps_largest_def top_k_push_def intro!: exI [of _ "{#}"])
  next
    case False
    then have full: "length h = k" "h \<noteq> []" using a(2) k by auto
    then obtain m where m: "heap_front better h = Some m" by (cases "heap_front better h") (auto simp: heap_front_None)
    have least: "m \<in> set h" "\<forall>y \<in> set h. key m \<le> key y" using front_least [OF ranks_subset [OF r] m] by auto
    have cmp: "better x m \<longleftrightarrow> key m < key x" using r least(1) by (simp add: ranks_def)
    show ?thesis
    proof (cases "better x m")
      case True
      have "seen + {#x#} = mset (remove1 m h @ [x]) + add_mset m away" using a(1) least(1) by (simp add: add.commute)
      moreover have "length (remove1 m h @ [x]) = k" using least(1) full k by (simp add: length_remove1)
      moreover have "\<forall>b \<in># add_mset m away. \<forall>y \<in> set (remove1 m h @ [x]). key b \<le> key y"
      proof -
        have "\<forall>b \<in># away. key b \<le> key m" using a(4) least(1) by blast
        moreover have "key m < key x" using True cmp by simp
        ultimately have "\<forall>b \<in># away. key b \<le> key x" by (meson less_imp_le order.trans)
        then show ?thesis using a(4) least(2) \<open>key m < key x\<close> set_remove1_subset [of m h] by auto
      qed
      ultimately show ?thesis
        using False m True by (auto simp: keeps_largest_def top_k_push_def intro!: exI [of _ "add_mset m away"])
    next
      case no: False
      then have "\<forall>y \<in> set h. key x \<le> key y" using cmp least(2) by (auto intro: order_trans)
      then show ?thesis
        using False m no a full by (auto simp: keeps_largest_def top_k_push_def intro!: exI [of _ "add_mset x away"])
    qed
  qed
qed

lemma set_top_k_push: "set (top_k_push better k x h) \<subseteq> insert x (set h)"
  by (auto simp: top_k_push_def split: option.splits if_splits dest: set_remove1_subset [THEN subsetD])

lemma fold_keeps:
  assumes "ranks key better (set xs \<union> set h)" "0 < k" "keeps_largest key k seen h"
  shows "keeps_largest key k (mset xs + seen) (fold (top_k_push better k) xs h)"
  using assms
proof (induction xs arbitrary: h seen)
  case (Cons x xs)
  have "keeps_largest key k (add_mset x seen) (top_k_push better k x h)"
    by (rule push_keeps) (use Cons.prems in \<open>auto intro: ranks_subset\<close>)
  moreover have "ranks key better (set xs \<union> set (top_k_push better k x h))"
    by (rule ranks_subset [OF Cons.prems(1)]) (use set_top_k_push [of better k x h] in auto)
  ultimately show ?case using Cons.IH [of "top_k_push better k x h" "add_mset x seen"] Cons.prems(2) by simp
qed simp

lemma sorted_desc_split:
  fixes xs ys :: "'k::linorder list"
  assumes "\<forall>a \<in> set ys. \<forall>x \<in> set xs. a \<le> x" "sorted_wrt (\<ge>) xs"
  shows "take (length xs) (rev (sort (xs @ ys))) = xs"
proof -
  have "sorted (rev xs)" using assms(2) by (simp add: sorted_wrt_rev)
  then have "sort (xs @ ys) = sort ys @ rev xs"
    using assms(1) by (intro properties_for_sort) (auto simp: sorted_append)
  then show ?thesis by simp
qed

text \<open>C32. The stream finds the largest: on elements that are ordered by a key, the heap of capacity \<open>k\<close> gives,
  after any number of elements, exactly the \<open>k\<close> largest keys in descending order, as sorting everything would.
\<close>

theorem top_k_is_sort_take:
  assumes "ranks key better (set xs)" "0 < k"
  shows "map key (top_k better k xs) = take k (rev (sort (map key xs)))"
proof -
  let ?h = "fold (top_k_push better k) xs []"
  have "keeps_largest key k (mset xs + {#}) ?h"
    by (rule fold_keeps) (use assms in \<open>auto simp: keeps_largest_def\<close>)
  then obtain away where a: "mset xs = mset ?h + away" "length ?h \<le> k" "away \<noteq> {#} \<longrightarrow> length ?h = k"
    "\<forall>a \<in># away. \<forall>x \<in> set ?h. key a \<le> key x" by (auto simp: keeps_largest_def)
  obtain ys where ys: "away = mset ys" using ex_mset by metis
  let ?s = "map key (top_k better k xs)"
  have sub: "set ?h \<subseteq> set xs" using a(1) by (metis mset_subset_eq_add_left set_mset_mono set_mset_mset)
  have desc: "sorted_wrt (\<ge>) ?s" unfolding top_k_def by (rule sort_by_sorted) (rule ranks_subset [OF assms(1) sub])
  have "mset (map key xs) = mset (?s @ map key ys)" using a(1) ys by (simp add: top_k_def)
  then have "sort (map key xs) = sort (?s @ map key ys)" by (metis sorted_list_of_multiset_mset)
  moreover have "take (length ?s) (rev (sort (?s @ map key ys))) = ?s"
    by (rule sorted_desc_split) (use a(4) ys desc in \<open>auto simp: top_k_def\<close>)
  ultimately have whole: "take (length ?s) (rev (sort (map key xs))) = ?s" by simp
  show ?thesis
  proof (cases "away = {#}")
    case True
    then have "length ?s = length xs" using a(1) by (metis add.right_neutral length_map length_sort_by size_mset top_k_def)
    then show ?thesis using whole a(2) by (simp add: top_k_def)
  next
    case False
    then show ?thesis using whole a(3) by (simp add: top_k_def)
  qed
qed

theorem top_k_is_sort_take_witness:
  "map (\<lambda>n. n) (top_k (\<lambda>a b. b < a) 2 [3, 9, 4, 7 :: nat]) = take 2 (rev (sort (map (\<lambda>n. n) [3, 9, 4, 7])))"
  by (rule top_k_is_sort_take) (simp_all add: ranks_def)

end
