(* ===== verification/Attribution.thy ===== *)
theory Attribution
  imports Attribution_Window Attribution_Power Top_K Classifier
begin

text \<open>
  The attribution of the power to the processes (\<^verbatim>\<open>src/policy/attribution_engine.cpp\<close>): shares, penalties and
  score of every process, the culprits of each hardware domain, and the ranking of the report.  A
  conversion of a number that the target type cannot hold is undefined, the result \<open>None\<close>.  The texts
  that describe a mechanism are left out, but not the percentages that two of them convert to \<^verbatim>\<open>int\<close>.
\<close>

section \<open>Shares\<close>

datatype cstate = C0_Active | C1_Light | C2_Moderate | C3_Deep

datatype hw_domain = CcxMigration | TimerSlack | WifiRadio | MajorFaults | GpuSilicon | WakeupStorm | CpuCompute | NvmeStorage | Idle

record attributed = proc_power +
  at_uid :: u32
  at_gpu_watts :: float64
  at_io_watts :: float64
  at_fan_watts :: float64
  at_vram_kib :: u64
  at_disk_mb :: float64
  at_nice :: int
  at_priority :: int
  at_minflt :: u64
  at_sockets :: u32
  at_wifi_watts :: float64
  at_dram_watts :: float64
  at_cstate :: cstate
  at_domain :: hw_domain
  at_action :: mitigation_action

text \<open>The GPU time of the interval, which is the divisor of the duty cycle.\<close>

definition gpu_interval :: "float64 \<Rightarrow> u64 option" where
  "gpu_interval sec = map_option (\<lambda>n. if n = 0 then 1000000000 else n) (fp_to_u64 (mul64 sec (Fin 1000000000)))"

definition gpu_share :: "power_breakdown \<Rightarrow> sweep \<Rightarrow> float64 \<Rightarrow> pdelta \<Rightarrow> float64 option" where
  "gpu_share hw sw sec d =
     (if \<not> (0 < sw_gpu sw \<and> 0 < dl_gpu_ns d) then Some (Fin 0)
      else map_option (\<lambda>interval.
        let share = div64 (dbl (dl_gpu_ns d)) (dbl (sw_gpu sw));
            duty = std_min (Fin 1) (div64 (dbl (dl_gpu_ns d)) (dbl interval));
            dyn = (if 0 < pb_gpu_busy hw
                   then mul64 (hw_gpu_watts hw) (fp_clamp (div64 (dbl (pb_gpu_busy hw)) (Fin 100)) (Fin 0) (Fin 1))
                   else mul64 (hw_gpu_watts hw) (std_min (Fin 1) (div64 (dbl (sw_gpu sw)) (dbl interval))))
        in std_min (mul64 dyn share) (mul64 (hw_gpu_watts hw) duty)) (gpu_interval sec))"

definition cpu_share :: "power_breakdown \<Rightarrow> sweep \<Rightarrow> pdelta \<Rightarrow> float64" where
  "cpu_share hw sw d =
     (let dyn = mul64 (hw_cpu_package_watts hw) (lit64 (75 / 100));
          static = mul64 (hw_cpu_package_watts hw) (lit64 (25 / 100));
          n = length (sw_deltas sw);
          each = (if n = 0 then Fin 0 else div64 static (fp_of_int Binary64 (int n)))
      in if 0 < sw_cpu sw \<and> 0 < dl_cpu_ticks d
         then add64 each (mul64 dyn (div64 (dbl (dl_cpu_ticks d)) (dbl (sw_cpu sw)))) else each)"

definition io_cost :: "float64 \<Rightarrow> u64 \<Rightarrow> float64 \<Rightarrow> float64" where
  "io_cost mb majflt iops =
     (let io = add64 (mul64 mb (lit64 (15 / 1000))) (if fp_gt iops (Fin 50) then lit64 (5 / 100) else Fin 0)
      in if 0 < majflt then add64 io (std_min (lit64 (35 / 100)) (mul64 (dbl majflt) (lit64 (3 / 100)))) else io)"

definition wakeup_tax :: "u64 \<Rightarrow> u64 \<Rightarrow> float64" where
  "wakeup_tax wakeups slack =
     (if wakeups \<le> 15 then Fin 0
      else let tax = std_min (lit64 (3 / 2)) (mul64 (dbl wakeups) (lit64 (12 / 10000)))
      in if slack < 50000
         then std_min (lit64 (5 / 2)) (mul64 tax (add64 (Fin 1) (div64 (dbl (50000 - slack)) (Fin 50000)))) else tax)"

definition wifi_cost :: "u32 \<Rightarrow> u64 \<Rightarrow> float64" where
  "wifi_cost sockets wakeups =
     (if 0 < sockets \<and> 10 < wakeups
      then std_min (lit64 (65 / 100)) (add64 (add64 (lit64 (8 / 100)) (mul64 (dbl sockets) (lit64 (2 / 100))))
             (mul64 (dbl wakeups) (lit64 (2 / 10000))))
      else Fin 0)"

definition dram_cost :: "bool \<Rightarrow> u64 \<Rightarrow> float64" where
  "dram_cost cross pss =
     (let base = (if cross then add64 (Fin 0) (lit64 (15 / 100)) else Fin 0)
      in if 100 * 1024 < pss then add64 base (mul64 (div64 (dbl pss) (Fin 1048576)) (lit64 (5 / 100))) else base)"

text \<open>The first pass over the differences.\<close>

definition first_pass :: "power_breakdown \<Rightarrow> sweep \<Rightarrow> float64 \<Rightarrow> pdelta \<Rightarrow> attributed option" where
  "first_pass hw sw sec d =
     (case (fp_to_u64 (div64 (dbl (dl_wakeups d)) sec), fp_to_u64 (div64 (dbl (dl_minflt d)) sec),
            fp_to_u64 (div64 (dbl (dl_majflt d)) sec), gpu_share hw sw sec d) of
        (Some wakeups, Some minflt, Some majflt, Some gpu) \<Rightarrow>
          let mb = div64 (div64 (dbl (dl_io_bytes d)) (Fin 1048576)) sec;
              sockets = ucast (dl_sockets d); pss = ucast (dl_pss d)
          in Some \<lparr>pp_pid = dl_pid d, pp_comm = dl_comm d, pp_cpu_watts = cpu_share hw sw d,
               pp_wakeup_tax_watts = wakeup_tax wakeups (dl_slack d), pp_total_watts = Fin 0, pp_wdi_score = Fin 0,
               pp_wakeups_per_sec = wakeups, pp_is_runaway = False, pp_cpu_core = sint (dl_core d),
               pp_num_threads = ucast (dl_threads d), pp_cross_ccx = dl_cross_ccx d, pp_timerslack_ns = dl_slack d,
               pp_rss_kib = ucast (dl_rss d), pp_pss_kib = pss, pp_majflt_per_sec = majflt, pp_safety_tier = 5,
               at_uid = dl_uid d, at_gpu_watts = gpu,
               at_io_watts = io_cost mb majflt (div64 (dbl (dl_io_calls d)) sec), at_fan_watts = Fin 0,
               at_vram_kib = dl_vram d, at_disk_mb = mb, at_nice = sint (dl_nice d), at_priority = uint (dl_priority d),
               at_minflt = minflt, at_sockets = sockets, at_wifi_watts = wifi_cost sockets wakeups,
               at_dram_watts = dram_cost (dl_cross_ccx d) pss, at_cstate = C3_Deep, at_domain = Idle, at_action = ActNone\<rparr>
      | _ \<Rightarrow> None)"

section \<open>Score and classification\<close>

definition thermal_total :: "attributed list \<Rightarrow> float64" where
  "thermal_total as = fold (\<lambda>a t. add64 t (add64 (pp_cpu_watts a) (at_gpu_watts a))) as (Fin 0)"

definition fan_share :: "power_breakdown \<Rightarrow> float64 \<Rightarrow> attributed \<Rightarrow> float64" where
  "fan_share hw thermal a =
     (if fp_gt (hw_fan_watts hw) (Fin 0) \<and> fp_gt thermal (Fin 0)
      then mul64 (hw_fan_watts hw) (div64 (add64 (pp_cpu_watts a) (at_gpu_watts a)) thermal) else Fin 0)"

definition total_watts :: "attributed \<Rightarrow> float64" where
  "total_watts a = add64 (add64 (add64 (add64 (add64 (add64 (pp_cpu_watts a) (at_gpu_watts a)) (at_io_watts a))
     (pp_wakeup_tax_watts a)) (at_fan_watts a)) (at_wifi_watts a)) (at_dram_watts a)"

definition drain_index :: "attributed \<Rightarrow> float64" where
  "drain_index a =
     (let bonus = (\<lambda>b x. if b then Fin x else Fin 0)
      in add64 (add64 (add64 (add64 (add64 (add64 (add64 (add64 (add64
           (mul64 (pp_cpu_watts a) (Fin 8)) (mul64 (at_gpu_watts a) (Fin 12)))
           (mul64 (dbl (pp_wakeups_per_sec a)) (lit64 (5 / 100)))) (mul64 (at_io_watts a) (Fin 8)))
           (mul64 (at_fan_watts a) (Fin 10))) (mul64 (at_wifi_watts a) (Fin 10))) (mul64 (at_dram_watts a) (Fin 8)))
           (bonus (pp_cross_ccx a) 6)) (bonus (pp_timerslack_ns a < 50000) 5)) (bonus (0 < pp_majflt_per_sec a) 4))"

definition domain_of :: "attributed \<Rightarrow> hw_domain" where
  "domain_of a =
     (let tax = pp_wakeup_tax_watts a; cpu = pp_cpu_watts a; gpu = at_gpu_watts a
      in if pp_cross_ccx a \<and> fp_ge (at_dram_watts a) (lit64 (15 / 100)) then CcxMigration
         else if pp_timerslack_ns a < 50000 \<and> fp_ge tax (lit64 (3 / 10)) then TimerSlack
         else if fp_ge (at_wifi_watts a) (lit64 (2 / 10)) then WifiRadio
         else if 0 < pp_majflt_per_sec a \<and> fp_ge (at_io_watts a) (lit64 (5 / 100)) then MajorFaults
         else if fp_ge gpu (lit64 (1 / 2)) \<and> fp_ge gpu cpu \<and> fp_ge gpu tax then GpuSilicon
         else if fp_ge tax (lit64 (3 / 10)) \<and> fp_ge tax cpu then WakeupStorm
         else if fp_ge cpu (lit64 (4 / 10)) then CpuCompute
         else if fp_ge (at_io_watts a) (lit64 (5 / 100)) \<or> fp_ge (at_disk_mb a) (lit64 (1 / 2)) then NvmeStorage
         else Idle)"

definition cstate_of :: "pdelta \<Rightarrow> attributed \<Rightarrow> cstate" where
  "cstate_of d a =
     (if fp_ge (pp_cpu_watts a) (lit64 (1 / 4)) \<or> 15 < dl_cpu_ticks d then C0_Active
      else if 30 \<le> pp_wakeups_per_sec a \<or> fp_ge (pp_wakeup_tax_watts a) (lit64 (15 / 100)) \<or> pp_timerslack_ns a < 50000 then C1_Light
      else if 5 \<le> pp_wakeups_per_sec a \<or> fp_ge (at_io_watts a) (lit64 (5 / 100)) then C2_Moderate
      else C3_Deep)"

text \<open>
  The percentage that the text of a mechanism shows: the duty cycle of the graphics chip, or the share of the
  processor time.  The cast to \<^verbatim>\<open>int\<close> comes before the cap at one hundred, so a large quotient is undefined.
\<close>

definition duty_percent :: "float64 \<Rightarrow> pdelta \<Rightarrow> int option" where
  "duty_percent sec d = do {
     interval \<leftarrow> gpu_interval sec;
     pct \<leftarrow> fp_to_i32 (div64 (mul64 (dbl (dl_gpu_ns d)) (Fin 100)) (dbl interval));
     Some (min 100 pct)
   }"

definition compute_percent :: "u64 \<Rightarrow> pdelta \<Rightarrow> int option" where
  "compute_percent all_ticks d =
     (if 0 < all_ticks then fp_to_i32 (div64 (mul64 (dbl (dl_cpu_ticks d)) (Fin 100)) (dbl all_ticks)) else Some 100)"

definition shown_percent :: "u64 \<Rightarrow> float64 \<Rightarrow> pdelta \<Rightarrow> hw_domain \<Rightarrow> int option option" where
  "shown_percent all_ticks sec d mech =
     (case mech of
        GpuSilicon \<Rightarrow> map_option Some (duty_percent sec d)
      | CpuCompute \<Rightarrow> map_option Some (compute_percent all_ticks d)
      | _ \<Rightarrow> Some None)"

text \<open>The second pass; the names that may never count as runaways are exempted at its end.\<close>

definition second_pass :: "power_breakdown \<Rightarrow> u64 \<Rightarrow> float64 \<Rightarrow> float64 \<Rightarrow> pdelta \<Rightarrow> attributed \<Rightarrow> attributed option" where
  "second_pass hw all_ticks sec thermal d a =
     (let a = a\<lparr>at_fan_watts := fan_share hw thermal a\<rparr>;
          a = a\<lparr>pp_total_watts := total_watts a, pp_wdi_score := drain_index a\<rparr>;
          a = a\<lparr>pp_is_runaway := (pp_is_runaway a \<or> fp_gt (pp_wdi_score a) (Fin 6) \<or> 500 < pp_wakeups_per_sec a),
                at_domain := domain_of a, at_cstate := cstate_of d a\<rparr>;
          c = classify (c_str (pp_comm a))
      in do {
        shown \<leftarrow> shown_percent all_ticks sec d (at_domain a);
        let a = a\<lparr>pp_safety_tier := tier_code (cl_tier c), at_action := cl_default_action c\<rparr>;
        Some (if cl_tier c = CriticalImmune \<or> cl_tier c = DesktopCore then a\<lparr>pp_is_runaway := False\<rparr> else a)
      })"

fun all_some :: "'a option list \<Rightarrow> 'a list option" where
  "all_some [] = Some []"
| "all_some (x # xs) = (case (x, all_some xs) of (Some y, Some ys) \<Rightarrow> Some (y # ys) | _ \<Rightarrow> None)"

definition attribute_all :: "power_breakdown \<Rightarrow> sweep \<Rightarrow> float64 \<Rightarrow> attributed list option" where
  "attribute_all hw sw sec = do {
     as \<leftarrow> all_some (map (first_pass hw sw sec) (sw_deltas sw));
     all_some (map2 (second_pass hw (sw_cpu sw) sec (thermal_total as)) (sw_deltas sw) as)
   }"

section \<open>The culprits of the domains\<close>

record domain_share =
  ds_pid :: pid
  ds_comm :: string
  ds_watts :: float64
  ds_percent :: float64

datatype culprit_domain = GpuCulprits | WakeupCulprits | FanCulprits | StorageCulprits | WifiCulprits | CcxCulprits | DramCulprits

record domain_culprit =
  dc_domain :: culprit_domain
  dc_watts :: float64
  dc_top :: "domain_share list"

definition select_top :: "(attributed \<Rightarrow> bool) \<Rightarrow> (attributed \<Rightarrow> attributed \<Rightarrow> bool) \<Rightarrow> attributed list \<Rightarrow> attributed list" where
  "select_top keep better as = top_k better 5 (filter keep as)"

abbreviation by_watts :: "(attributed \<Rightarrow> float64) \<Rightarrow> attributed \<Rightarrow> attributed \<Rightarrow> bool" where
  "by_watts f a b \<equiv> fp_gt (f a) (f b)"

definition percent_of :: "float64 \<Rightarrow> float64 \<Rightarrow> float64" where
  "percent_of part whole = mul64 (div64 part whole) (Fin 100)"

definition shares :: "(attributed \<Rightarrow> float64) \<Rightarrow> (attributed \<Rightarrow> float64) \<Rightarrow> attributed list \<Rightarrow> domain_share list" where
  "shares watts pct as = map (\<lambda>a. \<lparr>ds_pid = pp_pid a, ds_comm = pp_comm a, ds_watts = watts a, ds_percent = pct a\<rparr>) as"

text \<open>A domain is listed when it is worth listing and has a culprit.\<close>

definition culprit :: "bool \<Rightarrow> culprit_domain \<Rightarrow> float64 \<Rightarrow> domain_share list \<Rightarrow> domain_culprit list" where
  "culprit worth d watts heads = (if worth \<and> heads \<noteq> [] then [\<lparr>dc_domain = d, dc_watts = watts, dc_top = heads\<rparr>] else [])"

definition sum_where :: "(attributed \<Rightarrow> bool) \<Rightarrow> (attributed \<Rightarrow> float64) \<Rightarrow> attributed list \<Rightarrow> float64" where
  "sum_where keep f as = fold (\<lambda>a t. add64 t (f a)) (filter keep as) (Fin 0)"

definition uses_wifi :: "attributed \<Rightarrow> bool" where
  "uses_wifi a \<longleftrightarrow> fp_gt (at_wifi_watts a) (lit64 (1 / 100)) \<or> 0 < at_sockets a"

definition uses_dram :: "attributed \<Rightarrow> bool" where
  "uses_dram a \<longleftrightarrow> fp_gt (at_dram_watts a) (lit64 (1 / 100)) \<or> 50 * 1024 < pp_pss_kib a"

definition domain_culprits :: "power_breakdown \<Rightarrow> u64 \<Rightarrow> attributed list \<Rightarrow> domain_culprit list" where
  "domain_culprits hw wakeups as =
     culprit (fp_gt (hw_gpu_watts hw) (lit64 (5 / 100))) GpuCulprits (hw_gpu_watts hw)
       (shares at_gpu_watts (\<lambda>a. percent_of (at_gpu_watts a) (hw_gpu_watts hw))
         (select_top (\<lambda>a. fp_gt (at_gpu_watts a) (lit64 (1 / 100))) (by_watts at_gpu_watts) as)) @
     culprit True WakeupCulprits (sum_where (\<lambda>_. True) pp_wakeup_tax_watts as)
       (shares pp_wakeup_tax_watts
         (\<lambda>a. if 0 < wakeups then div64 (mul64 (dbl (pp_wakeups_per_sec a)) (Fin 100)) (dbl wakeups) else Fin 0)
         (select_top (\<lambda>a. 25 < pp_wakeups_per_sec a) (\<lambda>a b. pp_wakeups_per_sec b < pp_wakeups_per_sec a) as)) @
     culprit (fp_gt (hw_fan_watts hw) (lit64 (1 / 10))) FanCulprits (hw_fan_watts hw)
       (shares at_fan_watts (\<lambda>a. percent_of (at_fan_watts a) (hw_fan_watts hw))
         (select_top (\<lambda>a. fp_gt (at_fan_watts a) (lit64 (1 / 100))) (by_watts at_fan_watts) as)) @
     culprit (fp_gt (hw_storage_watts hw) (lit64 (5 / 100))) StorageCulprits (hw_storage_watts hw)
       (shares at_io_watts (\<lambda>_. Fin 0)
         (select_top (\<lambda>a. fp_gt (at_io_watts a) (lit64 (5 / 1000)) \<or> fp_gt (at_disk_mb a) (lit64 (1 / 100))) (by_watts at_io_watts) as)) @
     culprit True WifiCulprits (sum_where uses_wifi at_wifi_watts as)
       (shares at_wifi_watts
         (\<lambda>a. if fp_gt (sum_where uses_wifi at_wifi_watts as) (Fin 0)
              then percent_of (at_wifi_watts a) (sum_where uses_wifi at_wifi_watts as) else Fin 0)
         (select_top uses_wifi (by_watts at_wifi_watts) as)) @
     culprit True CcxCulprits (sum_where pp_cross_ccx (\<lambda>_. lit64 (18 / 100)) as)
       (shares (\<lambda>_. lit64 (18 / 100)) (\<lambda>_. Fin 0) (select_top pp_cross_ccx (by_watts pp_total_watts) as)) @
     culprit True DramCulprits (sum_where uses_dram at_dram_watts as)
       (shares at_dram_watts
         (\<lambda>a. if fp_gt (sum_where uses_dram at_dram_watts as) (Fin 0)
              then percent_of (at_dram_watts a) (sum_where uses_dram at_dram_watts as) else Fin 0)
         (select_top uses_dram (by_watts at_dram_watts) as))"

section \<open>The report\<close>

record attribution_report =
  ar_hardware :: power_breakdown
  ar_top :: "attributed list"
  ar_culprits :: "domain_culprit list"
  ar_monitored :: nat
  ar_wakeups :: u64
  ar_samples :: nat
  ar_energy :: float64
  ar_short :: bool

definition rank :: "nat \<Rightarrow> attributed list \<Rightarrow> attributed list" where
  "rank n as = take (min n TOP_CAPACITY) (sort_by (by_watts pp_wdi_score) as)"

definition system_watts :: "power_breakdown \<Rightarrow> float64" where
  "system_watts hw =
     (if fp_gt (hw_total_system_watts hw) (Fin 0) then hw_total_system_watts hw
      else add64 (add64 (add64 (add64 (add64 (hw_cpu_package_watts hw) (hw_gpu_watts hw)) (hw_display_watts hw)) (hw_fan_watts hw))
             (hw_storage_watts hw)) (hw_uncore_watts hw))"

definition elapsed :: "hw_sample \<Rightarrow> hw_sample \<Rightarrow> float64" where
  "elapsed s1 s2 = div64 (fp_of_int Binary64 (hs_time_ns s2 - hs_time_ns s1)) (Fin 1000000000)"

definition compute_attribution ::
  "(float64 \<Rightarrow> float64 \<Rightarrow> float64) \<Rightarrow> hw_sample \<Rightarrow> hw_sample \<Rightarrow> psample list \<Rightarrow> psample list \<Rightarrow> nat \<Rightarrow>
   attribution_report option" where
  "compute_attribution pow s1 s2 ps1 ps2 n =
     (let sec = (if fp_le (elapsed s1 s2) (lit64 (1 / 1000)) then lit64 (1 / 1000) else elapsed s1 s2);
          hw = compute_hardware_power pow s1 s2 sec;
          sw = two_pointer ps1 ps2 sweep_new
      in case (fp_to_u64 (div64 (dbl (sw_wakeups sw)) sec), attribute_all hw sw sec) of
           (Some wakeups, Some as) \<Rightarrow>
             Some \<lparr>ar_hardware = hw, ar_top = rank n as, ar_culprits = domain_culprits hw wakeups as,
               ar_monitored = length ps2, ar_wakeups = wakeups, ar_samples = 1, ar_energy = mul64 (system_watts hw) sec,
               ar_short = fp_lt sec (Fin 3)\<rparr>
         | _ \<Rightarrow> None)"

section \<open>A window of samples\<close>

text \<open>The mean of the readings there were; without any, the value of the last sample stays.\<close>

definition mean :: "float64 list \<Rightarrow> float64" where
  "mean xs = div64 (fold (\<lambda>x t. add64 t x) xs (Fin 0)) (fp_of_int Binary64 (int (length xs)))"

definition averaged :: "(float64 \<Rightarrow> 'a option) \<Rightarrow> float64 list \<Rightarrow> 'a \<Rightarrow> 'a option" where
  "averaged convert xs old = (if xs = [] then Some old else convert (mean xs))"

definition readings :: "('s \<Rightarrow> 'a option) \<Rightarrow> ('a \<Rightarrow> float64) \<Rightarrow> 's list \<Rightarrow> float64 list" where
  "readings f to_double ss = map to_double (List.map_filter f ss)"

definition fp_to_u32 :: "float64 \<Rightarrow> u32 option" where
  "fp_to_u32 x = map_option of_int (fp_to_int 0 (2 ^ 32 - 1) x)"

abbreviation maybe :: "(float64 \<Rightarrow> 'a option) \<Rightarrow> float64 \<Rightarrow> 'a option option" where
  "maybe convert x \<equiv> map_option Some (convert x)"

definition average_hardware :: "hw_sample list \<Rightarrow> hw_sample \<Rightarrow> hw_sample option" where
  "average_hardware ss last_sample = do {
     p \<leftarrow> averaged (maybe fp_to_u64) (readings hs_power_uw dbl ss) (hs_power_uw last_sample);
     g \<leftarrow> averaged (maybe fp_to_u64) (readings hs_gpu_power_uw dbl ss) (hs_gpu_power_uw last_sample);
     fan \<leftarrow> averaged (maybe fp_to_u32) (readings hs_fan_rpm dbl ss) (hs_fan_rpm last_sample);
     ct \<leftarrow> averaged (maybe fp_to_i32) (readings hs_cpu_temp_mdeg (fp_of_int Binary64) ss) (hs_cpu_temp_mdeg last_sample);
     cf \<leftarrow> averaged fp_to_u32 (readings (\<lambda>s. if 0 < hs_freq_avg_khz s then Some (hs_freq_avg_khz s) else None) dbl ss)
             (hs_freq_avg_khz last_sample);
     gb \<leftarrow> averaged (maybe fp_to_u32) (readings hs_gpu_busy dbl ss) (hs_gpu_busy last_sample);
     gf \<leftarrow> averaged (maybe fp_to_u64) (readings hs_gpu_freq_hz dbl ss) (hs_gpu_freq_hz last_sample);
     gt \<leftarrow> averaged (maybe fp_to_i32) (readings hs_gpu_temp_mdeg (fp_of_int Binary64) ss) (hs_gpu_temp_mdeg last_sample);
     gv \<leftarrow> averaged (maybe fp_to_u64) (readings hs_gpu_vram_used dbl ss) (hs_gpu_vram_used last_sample);
     nt \<leftarrow> averaged (maybe fp_to_i32) (readings hs_nvme_temp_mdeg (fp_of_int Binary64) ss) (hs_nvme_temp_mdeg last_sample);
     Some (last_sample\<lparr>hs_power_uw := p, hs_gpu_power_uw := g, hs_fan_rpm := fan, hs_cpu_temp_mdeg := ct, hs_freq_avg_khz := cf,
       hs_gpu_busy := gb, hs_gpu_freq_hz := gf, hs_gpu_temp_mdeg := gt, hs_gpu_vram_used := gv, hs_nvme_temp_mdeg := nt\<rparr>)
   }"

definition report_new :: attribution_report where
  "report_new = \<lparr>ar_hardware = breakdown_new, ar_top = [], ar_culprits = [], ar_monitored = 0, ar_wakeups = 0, ar_samples = 1,
     ar_energy = Fin 0, ar_short = False\<rparr>"

definition compute_windowed_attribution ::
  "(float64 \<Rightarrow> float64 \<Rightarrow> float64) \<Rightarrow> hw_sample list \<Rightarrow> psample list list \<Rightarrow> nat \<Rightarrow> attribution_report option" where
  "compute_windowed_attribution pow hs pss n =
     (case window_pair (length hs) pss of
        None \<Rightarrow> Some report_new
      | Some (ps1, ps2) \<Rightarrow>
          if length hs = 1 \<or> length pss = 1 then compute_attribution pow (hd hs) (hd hs) ps1 ps2 n
          else if length hs = 2 \<and> length pss = 2 then compute_attribution pow (hd hs) (last hs) ps1 ps2 n
          else do {
            hw_end \<leftarrow> average_hardware hs (last hs);
            r \<leftarrow> compute_attribution pow (hd hs) hw_end ps1 ps2 n;
            let sec = elapsed (hd hs) hw_end;
            Some (r\<lparr>ar_samples := min (length hs) (length pss) - 1, ar_short := fp_lt sec (Fin 3),
              ar_energy := mul64 (system_watts (ar_hardware r)) sec\<rparr>)
          })"

text \<open>What the other components read of it.\<close>

definition report_of_attribution :: "attribution_report \<Rightarrow> report" where
  "report_of_attribution r =
     \<lparr>rp_hardware = hw_breakdown.truncate (ar_hardware r), rp_top = fv_new\<lparr>fv_items := map proc_power.truncate (ar_top r)\<rparr>,
      rp_wakeups_per_sec = ar_wakeups r, rp_current_profile = Balanced, rp_feature_summary_count = 0\<rparr>"

end
