(* ===== verification/Float_Bounds.thy ===== *)
theory Float_Bounds
  imports Types
begin

text \<open>
  Bounds of double-precision values: \<open>in_pow2 k v\<close> says that \<open>v\<close> is a finite double between 0 and
  \<open>2\<^sup>k\<close>.  The rules follow the operations, so that the range of a computed value is read off its
  expression.
\<close>

abbreviation double :: "rat \<Rightarrow> bool" where
  "double x \<equiv> representable 53 (- 1022) x"

lemma double_rnd: "double (rnd 53 (- 1022) x)"
proof (cases "x = 0")
  case True
  then show ?thesis using representable_of_int [of 0 53 "- 1022"] by simp
next
  case False
  define q where "q = quantum 53 (- 1022) x"
  define m where "m = round_half_even (x / pow2 q)"
  have r: "rnd 53 (- 1022) x = of_int m * pow2 q" using False by (simp add: rnd_def q_def m_def Let_def)
  have "\<bar>x\<bar> < pow2 (floor_log2 \<bar>x\<bar> + 1)" using False by (intro floor_log2_bounds) simp
  also have "\<dots> \<le> pow2 (q + 53)" by (intro pow2_mono) (simp add: q_def quantum_def)
  also have "\<dots> = of_int (2 ^ 53) * pow2 q" by (simp add: pow2_add pow2_nat [of 53, simplified])
  finally have "\<bar>x\<bar> / pow2 q \<le> of_int (2 ^ 53)" by (simp add: pos_divide_le_eq)
  then have "x / pow2 q \<le> of_int (2 ^ 53)" "of_int (- (2 ^ 53)) \<le> x / pow2 q"
    by (auto simp: abs_le_iff pos_divide_le_eq pos_le_divide_eq)
  then have "m \<le> 2 ^ 53" "- (2 ^ 53) \<le> m"
    unfolding m_def using round_half_even_mono round_half_even_of_int by metis+
  then show ?thesis unfolding representable_def r by (intro exI [of _ m] exI [of _ q]) (auto simp: q_def quantum_def)
qed

lemma double_pow2: "- 1074 \<le> k \<Longrightarrow> double (pow2 k)"
  unfolding representable_def by (intro exI [of _ 1] exI [of _ k]) simp

lemma round64:
  assumes "0 \<le> x" "x \<le> pow2 1023"
  shows "fp_round Binary64 x = Fin (rnd 53 (- 1022) x)"
  using assms fp_round_in_range [of x Binary64] by (simp add: emin_def)

definition in_pow2 :: "int \<Rightarrow> float64 \<Rightarrow> bool" where
  "in_pow2 k v \<longleftrightarrow> (\<exists>x. v = Fin x \<and> 0 \<le> x \<and> x \<le> pow2 k \<and> double x)"

lemma in_pow2_round:
  assumes "0 \<le> x" "x \<le> pow2 k" "- 1000 \<le> k" "k \<le> 1000"
  shows "in_pow2 k (fp_round Binary64 x)"
proof -
  have "x \<le> pow2 1023" using assms(2) pow2_mono [of k 1023] assms(4) by linarith
  then have "fp_round Binary64 x = Fin (rnd 53 (- 1022) x)" using assms(1) by (rule round64 [rotated])
  moreover have "rnd 53 (- 1022) x \<le> pow2 k" using assms(2,3) by (intro rnd_le_representable double_pow2) auto
  ultimately show ?thesis using assms(1) double_rnd by (auto simp: in_pow2_def intro: rnd_nonneg)
qed

lemma in_pow2_mono: "in_pow2 a v \<Longrightarrow> a \<le> b \<Longrightarrow> in_pow2 b v"
  using pow2_mono [of a b] by (force simp: in_pow2_def)

lemma in_pow2_0 [simp]: "in_pow2 k (Fin 0)"
  using representable_of_int [of 0 53 "- 1022"] by (simp add: in_pow2_def)

lemma in_pow2_add:
  assumes "in_pow2 a v" "in_pow2 b w" "a < k" "b < k" "- 1000 \<le> k" "k \<le> 1000"
  shows "in_pow2 k (add64 v w)"
proof -
  obtain x y where xy: "v = Fin x" "0 \<le> x" "x \<le> pow2 (k - 1)" "w = Fin y" "0 \<le> y" "y \<le> pow2 (k - 1)"
    using assms in_pow2_mono [of a v "k - 1"] in_pow2_mono [of b w "k - 1"] by (auto simp: in_pow2_def)
  have "pow2 k = 2 * pow2 (k - 1)" using pow2_add [of "k - 1" 1] by (simp add: pow2_def)
  then show ?thesis using xy assms(5,6) by (auto intro!: in_pow2_round)
qed

lemma in_pow2_mul:
  assumes "in_pow2 a v" "in_pow2 b w" "a + b \<le> k" "- 1000 \<le> k" "k \<le> 1000"
  shows "in_pow2 k (mul64 v w)"
proof -
  obtain x y where xy: "v = Fin x" "0 \<le> x" "x \<le> pow2 a" "w = Fin y" "0 \<le> y" "y \<le> pow2 b"
    using assms by (auto simp: in_pow2_def)
  have "x * y \<le> pow2 a * pow2 b" using xy by (intro mult_mono) auto
  also have "\<dots> \<le> pow2 k" using pow2_mono [OF assms(3)] by (simp add: pow2_add)
  finally show ?thesis using xy assms(4,5) by (auto intro!: in_pow2_round)
qed

lemma in_pow2_div:
  assumes "in_pow2 a v" "w = Fin y" "pow2 b \<le> y" "a - b \<le> k" "- 1000 \<le> k" "k \<le> 1000"
  shows "in_pow2 k (div64 v w)"
proof -
  obtain x where x: "v = Fin x" "0 \<le> x" "x \<le> pow2 a" using assms(1) by (auto simp: in_pow2_def)
  have y: "0 < y" using assms(3) pow2_pos [of b] by linarith
  have "x / y \<le> pow2 a / pow2 b" using x assms(3) y by (intro frac_le) auto
  also have "\<dots> \<le> pow2 k" using pow2_mono [OF assms(4)] by (simp add: pow2_diff)
  finally show ?thesis using x y assms(2,5,6) by (auto intro!: in_pow2_round)
qed

lemmas in_pow2_div_Fin = in_pow2_div [OF _ refl]

lemma in_pow2_lit: "0 \<le> x \<Longrightarrow> x \<le> pow2 k \<Longrightarrow> - 1000 \<le> k \<Longrightarrow> k \<le> 1000 \<Longrightarrow> in_pow2 k (lit64 x)"
  unfolding lit64_def by (rule in_pow2_round)

lemma in_pow2_of_int: "0 \<le> z \<Longrightarrow> z \<le> 2 ^ n \<Longrightarrow> n \<le> 1000 \<Longrightarrow> in_pow2 (int n) (fp_of_int Binary64 z)"
proof -
  assume "0 \<le> z" "z \<le> 2 ^ n" "n \<le> 1000"
  then have "(of_int z :: rat) \<le> of_int (2 ^ n)" by (simp only: of_int_le_iff)
  then show ?thesis using \<open>0 \<le> z\<close> \<open>n \<le> 1000\<close> unfolding fp_of_int_def by (intro in_pow2_round) (auto simp: pow2_nat)
qed

lemma in_pow2_word: "LENGTH('a) \<le> 1000 \<Longrightarrow> in_pow2 (int LENGTH('a)) (fp_of_int Binary64 (uint (w :: 'a::len word)))"
  by (rule in_pow2_of_int) (use uint_bounded [of w] in \<open>auto simp: less_imp_le\<close>)

lemma in_pow2_min:
  assumes "in_pow2 a v" "in_pow2 b w"
  shows "in_pow2 a (if fp_lt w v then w else v)" "in_pow2 b (if fp_lt w v then w else v)"
  using assms by (auto simp: in_pow2_def)

lemma in_pow2_nonneg: "in_pow2 k v \<Longrightarrow> fp_le (Fin 0) v"
  by (auto simp: in_pow2_def)

lemma fp_min_le:
  assumes "in_pow2 a v" "in_pow2 b w"
  shows "fp_le (if fp_lt w v then w else v) v" "fp_le (if fp_lt w v then w else v) w"
  using assms by (auto simp: in_pow2_def)

lemma fp_le_trans: "fp_le u v \<Longrightarrow> fp_le v w \<Longrightarrow> fp_le u w"
  by (cases u; cases v; cases w) auto

lemma mul_shrinks:
  assumes "in_pow2 k v" "in_pow2 0 w" "k \<le> 1000"
  shows "fp_le (mul64 v w) v"
proof -
  obtain x y where xy: "v = Fin x" "0 \<le> x" "x \<le> pow2 k" "double x" "w = Fin y" "0 \<le> y" "y \<le> 1"
    using assms by (auto simp: in_pow2_def pow2_def)
  have le: "x * y \<le> x" using xy by (simp add: mult_left_le)
  have "x * y \<le> pow2 1023" using le xy pow2_mono [of k 1023] assms(3) by linarith
  then have "mul64 v w = Fin (rnd 53 (- 1022) (x * y))" using xy by (simp add: round64)
  then show ?thesis using rnd_le_representable [OF le xy(4)] xy by simp
qed

lemma min_with_shrunk:
  assumes "in_pow2 a u" "in_pow2 k v" "in_pow2 0 w" "- 1000 \<le> k" "k \<le> 1000"
  shows "fp_le (Fin 0) (if fp_lt (mul64 v w) u then mul64 v w else u)" "fp_le (if fp_lt (mul64 v w) u then mul64 v w else u) v"
proof -
  have m: "in_pow2 k (mul64 v w)" by (rule in_pow2_mul [OF assms(2,3)]) (use assms in simp_all)
  show "fp_le (Fin 0) (if fp_lt (mul64 v w) u then mul64 v w else u)" by (rule in_pow2_nonneg [OF in_pow2_min(1) [OF assms(1) m]])
  show "fp_le (if fp_lt (mul64 v w) u then mul64 v w else u) v"
    by (rule fp_le_trans [OF fp_min_le(2) [OF assms(1) m] mul_shrinks [OF assms(2,3,5)]])
qed

lemma in_pow2_to_int: "in_pow2 k v \<Longrightarrow> k < int n \<Longrightarrow> \<exists>z. fp_to_int 0 (2 ^ n - 1) v = Some z \<and> 0 \<le> z \<and> z < 2 ^ n"
proof -
  assume "in_pow2 k v" "k < int n"
  then obtain x where x: "v = Fin x" "0 \<le> x" "x \<le> pow2 k" by (auto simp: in_pow2_def)
  have "x < pow2 (int n)" using x(3) \<open>k < int n\<close> pow2_less_iff [of k "int n"] by simp
  then have "\<lfloor>x\<rfloor> < 2 ^ n" by (simp add: pow2_nat floor_less_iff)
  then show ?thesis using x by (simp add: rat_trunc_def)
qed

lemma in_pow2_u64: "in_pow2 k v \<Longrightarrow> k < 64 \<Longrightarrow> \<exists>n. fp_to_u64 v = Some n"
  using in_pow2_to_int [of k v 64] by (auto simp: fp_to_u64_def)

end
