(* ===== verification/Attribution_Bounds.thy ===== *)
theory Attribution_Bounds
  imports Attribution Float_Bounds
begin

text \<open>
  What the attribution promises about a process: it returns a report for every pair of samples of a
  plausible size, no process is charged more graphics power than the chip draws, the penalties stay
  in_pow2 their caps, and a protected process is never reported as a runaway.
\<close>

section \<open>Ranges of the inputs\<close>

lemma dbl_ge_1: "0 < w \<Longrightarrow> LENGTH('a) \<le> 64 \<Longrightarrow> \<exists>y. dbl (w :: 'a::len word) = Fin y \<and> pow2 0 \<le> y"
proof -
  assume w: "0 < w" "LENGTH('a) \<le> 64"
  then have "1 \<le> uint w" by (metis int_one_le_iff_zero_less uint_0_iff uint_ge_0 order_less_le word_neq_0_conv)
  then have one: "(1 :: rat) \<le> of_int (uint w)" by (metis of_int_1 of_int_le_iff)
  have "uint w \<le> 2 ^ 64" using uint_bounded [of w] power_increasing [OF w(2), of "2::int"] by linarith
  then have "(of_int (uint w) :: rat) \<le> of_int (2 ^ 64)" by (simp only: of_int_le_iff)
  then have "of_int (uint w) \<le> pow2 1023" using pow2_mono [of 64 1023] pow2_nat [of 64] by simp
  then have r: "dbl w = Fin (rnd 53 (- 1022) (of_int (uint w)))"
    unfolding fp_of_int_def using one by (intro round64) linarith+
  have "double 1" using double_pow2 [of 0] by (simp add: pow2_def)
  then have "1 \<le> rnd 53 (- 1022) (of_int (uint w))" using one by (intro representable_le_rnd) simp_all
  then show ?thesis using r by (simp add: pow2_def)
qed

text \<open>The length of the interval after the guard against a division by zero.\<close>

definition interval_of :: "hw_sample \<Rightarrow> hw_sample \<Rightarrow> float64" where
  "interval_of s1 s2 = (if fp_le (elapsed s1 s2) (lit64 (1 / 1000)) then lit64 (1 / 1000) else elapsed s1 s2)"

lemma lit_milli: "\<exists>y. lit64 (1 / 1000) = Fin y \<and> pow2 (- 10) \<le> y \<and> y \<le> pow2 0"
proof -
  have "(1 / 1000 :: rat) \<le> pow2 1023" using pow2_mono [of 0 1023] by (simp add: pow2_def)
  then have "lit64 (1 / 1000) = Fin (rnd 53 (- 1022) (1 / 1000))" by (simp add: lit64_def round64)
  moreover have "pow2 (- 10) \<le> rnd 53 (- 1022) (1 / 1000)"
    by (rule representable_le_rnd) (use double_pow2 [of "- 10"] in \<open>auto simp: pow2_def\<close>)
  moreover have "rnd 53 (- 1022) (1 / 1000) \<le> pow2 0"
    by (rule rnd_le_representable) (use double_pow2 [of 0] in \<open>auto simp: pow2_def\<close>)
  ultimately show ?thesis by blast
qed

lemma interval_range:
  assumes "0 \<le> hs_time_ns s2 - hs_time_ns s1" "hs_time_ns s2 - hs_time_ns s1 \<le> 2 ^ 60"
  shows "\<exists>y. interval_of s1 s2 = Fin y \<and> pow2 (- 10) \<le> y \<and> in_pow2 31 (interval_of s1 s2)"
proof -
  obtain m where m: "lit64 (1 / 1000) = Fin m" "pow2 (- 10) \<le> m" "m \<le> pow2 0" using lit_milli by blast
  have "in_pow2 60 (fp_of_int Binary64 (hs_time_ns s2 - hs_time_ns s1))" using in_pow2_of_int [of _ 60] assms by simp
  then have e: "in_pow2 31 (elapsed s1 s2)" unfolding elapsed_def
    by (rule in_pow2_div_Fin [where b = 29]) (simp_all add: pow2_def)
  then obtain x where x: "elapsed s1 s2 = Fin x" by (auto simp: in_pow2_def)
  show ?thesis
  proof (cases "x \<le> m")
    case True
    have "in_pow2 31 (lit64 (1 / 1000))" by (rule in_pow2_lit) (simp_all add: pow2_def)
    then show ?thesis using True x m by (simp add: interval_of_def)
  next
    case False
    then show ?thesis using x m e by (simp add: interval_of_def)
  qed
qed

section \<open>The power of the graphics chip\<close>

lemma mean_watts_range: "in_pow2 64 (mean_watts p1 p2)"
proof -
  have "in_pow2 64 (div64 (div64 (dbl (w :: u64)) (Fin 2)) (Fin 1000000))" for w
    by (rule in_pow2_div_Fin [where a = 64 and b = 0, OF in_pow2_div_Fin [where a = 64 and b = 0]])
      (use in_pow2_word [of w] in \<open>simp_all add: pow2_def\<close>)
  then show ?thesis by (auto simp: mean_watts_def split: option.split)
qed

lemma fp_clamp_unit: "in_pow2 k v \<Longrightarrow> in_pow2 0 (fp_clamp v (Fin 0) (Fin 1))"
  using double_pow2 [of 0] by (auto simp: in_pow2_def fp_clamp_def pow2_def)

lemma gpu_split_range: "in_pow2 64 raw \<Longrightarrow> in_pow2 64 (gpu_split apu raw b)"
proof -
  assume raw: "in_pow2 64 raw"
  have l: "in_pow2 0 (lit64 (70 / 100))" "in_pow2 0 (lit64 (15 / 100))" "in_pow2 64 (lit64 (5 / 100))"
    by (auto intro!: in_pow2_lit simp: pow2_def)
  have "in_pow2 32 (div64 (dbl b) (Fin 100))"
    by (rule in_pow2_div_Fin [where a = 32 and b = 0]) (use in_pow2_word [of b] in \<open>simp_all add: pow2_def\<close>)
  then have "in_pow2 64 (mul64 raw (fp_clamp (div64 (dbl b) (Fin 100)) (Fin 0) (Fin 1)))"
    by (intro in_pow2_mul [OF raw fp_clamp_unit]) auto
  then have "in_pow2 65 (add64 (mul64 raw (fp_clamp (div64 (dbl b) (Fin 100)) (Fin 0) (Fin 1))) (lit64 (15 / 100)))"
    by (rule in_pow2_add [OF _ l(2)]) auto
  moreover have "in_pow2 64 (mul64 raw (lit64 (70 / 100)))" by (rule in_pow2_mul [OF raw l(1)]) auto
  ultimately have "in_pow2 64 (std_min (mul64 raw (lit64 (70 / 100)))
      (add64 (mul64 raw (fp_clamp (div64 (dbl b) (Fin 100)) (Fin 0) (Fin 1))) (lit64 (15 / 100))))"
    by (intro in_pow2_min(1))
  then show ?thesis using raw l(3) unfolding gpu_split_def Let_def by presburger
qed

lemma gpu_kept [simp]:
  "hw_gpu_watts (pmu_section s1 s2 sec hw) = hw_gpu_watts hw" "hw_gpu_watts (uncore_section hw) = hw_gpu_watts hw"
  "hw_gpu_watts (package_section s1 s2 sec hw) = hw_gpu_watts hw" "hw_gpu_watts (cstate_section s1 s2 sec hw) = hw_gpu_watts hw"
  "hw_gpu_watts (frequency_section s2 hw) = hw_gpu_watts hw" "hw_gpu_watts (storage_section s1 s2 sec hw) = hw_gpu_watts hw"
  "hw_gpu_watts (fan_section s2 hw) = hw_gpu_watts hw" "hw_gpu_watts (display_section pow s2 hw) = hw_gpu_watts hw"
  by (auto simp: pmu_section_def uncore_section_def package_section_def cstate_section_def frequency_section_def
    storage_section_def fan_section_def display_section_def Let_def split: option.splits bool.splits prod.splits)

lemma hardware_gpu_range: "in_pow2 64 (hw_gpu_watts (compute_hardware_power pow s1 s2 sec))"
  by (simp add: compute_hardware_power_def gpu_section_def Let_def mean_watts_range gpu_split_range)

section \<open>One process\<close>

lemma rate_defined:
  assumes "in_pow2 50 v" "sec = Fin y" "pow2 (- 10) \<le> y"
  shows "\<exists>n. fp_to_u64 (div64 v sec) = Some n"
  by (rule in_pow2_u64 [OF in_pow2_div [OF assms(1,2,3), where k = 60]]) auto

lemma rate_of_word:
  assumes "sec = Fin y" "pow2 (- 10) \<le> y"
  shows "LENGTH('a) \<le> 50 \<Longrightarrow> \<exists>n. fp_to_u64 (div64 (dbl (w :: 'a::len word)) sec) = Some n"
    and "(v :: u64) < 2 ^ 50 \<Longrightarrow> \<exists>n. fp_to_u64 (div64 (dbl v) sec) = Some n"
proof -
  show "LENGTH('a) \<le> 50 \<Longrightarrow> \<exists>n. fp_to_u64 (div64 (dbl w) sec) = Some n"
    using rate_defined [OF in_pow2_mono [OF in_pow2_word [of w]] assms] by simp
  assume "v < 2 ^ 50"
  then have "uint v \<le> 2 ^ 50" using word_less_def [of v "2 ^ 50"] by simp
  then have "in_pow2 50 (dbl v)" using in_pow2_of_int [of "uint v" 50] by simp
  then show "\<exists>n. fp_to_u64 (div64 (dbl v) sec) = Some n" using assms by (rule rate_defined)
qed

lemma interval_defined: "in_pow2 31 sec \<Longrightarrow> \<exists>n. gpu_interval sec = Some n \<and> 0 < n"
proof -
  assume "in_pow2 31 sec"
  then have "in_pow2 61 (mul64 sec (Fin 1000000000))"
    by (rule in_pow2_mul [where b = 30]) (use representable_of_int [of 1000000000 53 "- 1022"] in \<open>simp_all add: in_pow2_def pow2_def\<close>)
  then obtain n where "fp_to_u64 (mul64 sec (Fin 1000000000)) = Some n" using in_pow2_u64 by fastforce
  then show ?thesis by (auto simp: gpu_interval_def word_neq_0_conv)
qed

lemma quotient_range: "0 < (b :: u64) \<Longrightarrow> in_pow2 64 (div64 (dbl (a :: u64)) (dbl b))"
  using dbl_ge_1 [of b] in_pow2_div [of 64 "dbl a" "dbl b" _ 0 64] in_pow2_word [of a] by force

lemma min_1_unit: "in_pow2 k v \<Longrightarrow> in_pow2 0 (std_min (Fin 1) v)"
  using double_pow2 [of 0] by (intro in_pow2_min [where b = k]) (auto simp: in_pow2_def pow2_def)

lemma gpu_share_range:
  assumes g: "in_pow2 64 (hw_gpu_watts hw)" and sec: "in_pow2 31 sec"
  shows "\<exists>w. gpu_share hw sw sec d = Some w \<and> fp_le (Fin 0) w \<and> fp_le w (hw_gpu_watts hw)"
proof (cases "0 < sw_gpu sw \<and> 0 < dl_gpu_ns d")
  case False
  then show ?thesis using in_pow2_nonneg [OF g] by (auto simp: gpu_share_def)
next
  case True
  obtain n where n: "gpu_interval sec = Some n" "0 < n" using interval_defined [OF sec] by blast
  let ?dyn = "if 0 < pb_gpu_busy hw then mul64 (hw_gpu_watts hw) (fp_clamp (div64 (dbl (pb_gpu_busy hw)) (Fin 100)) (Fin 0) (Fin 1))
      else mul64 (hw_gpu_watts hw) (std_min (Fin 1) (div64 (dbl (sw_gpu sw)) (dbl n)))"
  let ?share = "div64 (dbl (dl_gpu_ns d)) (dbl (sw_gpu sw))"
  let ?duty = "std_min (Fin 1) (div64 (dbl (dl_gpu_ns d)) (dbl n))"
  have b: "in_pow2 32 (div64 (dbl (pb_gpu_busy hw)) (Fin 100))"
    by (rule in_pow2_div_Fin [where a = 32 and b = 0]) (use in_pow2_word [of "pb_gpu_busy hw"] in \<open>simp_all add: pow2_def\<close>)
  have "in_pow2 64 (mul64 (hw_gpu_watts hw) (fp_clamp (div64 (dbl (pb_gpu_busy hw)) (Fin 100)) (Fin 0) (Fin 1)))"
    "in_pow2 64 (mul64 (hw_gpu_watts hw) (std_min (Fin 1) (div64 (dbl (sw_gpu sw)) (dbl n))))"
    by (rule in_pow2_mul [OF g fp_clamp_unit [OF b]] in_pow2_mul [OF g min_1_unit [OF quotient_range [OF n(2)]]]; simp)+
  then have "in_pow2 64 ?dyn" by (cases "0 < pb_gpu_busy hw") (simp_all only: if_True if_False)
  then have dyn: "in_pow2 128 (mul64 ?dyn ?share)"
    by (rule in_pow2_mul [OF _ quotient_range]) (use True in simp_all)
  have duty: "in_pow2 0 ?duty" by (rule min_1_unit [OF quotient_range [OF n(2)]])
  have "fp_le (Fin 0) (std_min (mul64 ?dyn ?share) (mul64 (hw_gpu_watts hw) ?duty))"
      "fp_le (std_min (mul64 ?dyn ?share) (mul64 (hw_gpu_watts hw) ?duty)) (hw_gpu_watts hw)"
    by (rule min_with_shrunk [OF dyn g duty]; simp)+
  moreover have "gpu_share hw sw sec d = Some (std_min (mul64 ?dyn ?share) (mul64 (hw_gpu_watts hw) ?duty))"
    using True n(1) unfolding gpu_share_def Let_def by simp
  ultimately show ?thesis by blast
qed

lemma wakeup_tax_range: "fp_le (Fin 0) (wakeup_tax n slack) \<and> fp_le (wakeup_tax n slack) (lit64 (5 / 2))"
proof -
  have l: "in_pow2 1 (lit64 (3 / 2))" "in_pow2 0 (lit64 (12 / 10000))" "in_pow2 2 (lit64 (5 / 2))"
    by (auto intro!: in_pow2_lit simp: pow2_def)
  let ?base = "std_min (lit64 (3 / 2)) (mul64 (dbl n) (lit64 (12 / 10000)))"
  let ?slow = "add64 (Fin 1) (div64 (dbl (50000 - slack)) (Fin 50000))"
  have m: "in_pow2 64 (mul64 (dbl n) (lit64 (12 / 10000)))"
    by (rule in_pow2_mul [OF in_pow2_word l(2)]) simp_all
  have base: "in_pow2 1 ?base" by (rule in_pow2_min(1) [OF l(1) m])
  have "in_pow2 64 (div64 (dbl (50000 - slack)) (Fin 50000))"
    by (rule in_pow2_div_Fin [where a = 64 and b = 0]) (use in_pow2_word [of "50000 - slack"] in \<open>simp_all add: pow2_def\<close>)
  moreover have "in_pow2 0 (Fin 1)" using double_pow2 [of 0] by (simp add: in_pow2_def pow2_def)
  ultimately have "in_pow2 65 ?slow" by (intro in_pow2_add [where a = 0 and b = 64]) simp_all
  then have slow: "in_pow2 66 (mul64 ?base ?slow)" by (rule in_pow2_mul [OF base]) simp_all
  have "fp_le (lit64 (3 / 2)) (lit64 (5 / 2))"
    using rnd_mono [of "3 / 2" "5 / 2" 53 "- 1022"] pow2_mono [of 2 1023] by (simp add: lit64_def round64 pow2_def)
  then have "fp_le ?base (lit64 (5 / 2))" by (rule fp_le_trans [OF fp_min_le(1) [OF l(1) m]])
  then show ?thesis
    using in_pow2_nonneg [OF base] in_pow2_nonneg [OF l(3)] in_pow2_nonneg [OF in_pow2_min(1) [OF l(3) slow]] fp_min_le(1) [OF l(3) slow]
    unfolding wakeup_tax_def Let_def
    by (cases "n \<le> 15"; cases "slack < 50000") (simp_all only: if_True if_False fp_le.simps order_refl simp_thms)
qed

lemma wifi_cost_range: "fp_le (Fin 0) (wifi_cost n w) \<and> fp_le (wifi_cost n w) (lit64 (65 / 100))"
proof -
  have l: "in_pow2 0 (lit64 (65 / 100))" "in_pow2 0 (lit64 (8 / 100))" "in_pow2 0 (lit64 (2 / 100))" "in_pow2 0 (lit64 (2 / 10000))"
    by (auto intro!: in_pow2_lit simp: pow2_def)
  have "in_pow2 32 (mul64 (dbl n) (lit64 (2 / 100)))" by (rule in_pow2_mul [OF in_pow2_word l(3)]) simp_all
  then have "in_pow2 33 (add64 (lit64 (8 / 100)) (mul64 (dbl n) (lit64 (2 / 100))))" by (rule in_pow2_add [OF l(2)]) simp_all
  moreover have "in_pow2 64 (mul64 (dbl w) (lit64 (2 / 10000)))" by (rule in_pow2_mul [OF in_pow2_word l(4)]) simp_all
  ultimately have sum: "in_pow2 65 (add64 (add64 (lit64 (8 / 100)) (mul64 (dbl n) (lit64 (2 / 100)))) (mul64 (dbl w) (lit64 (2 / 10000))))"
    by (rule in_pow2_add) simp_all
  show ?thesis
    using in_pow2_nonneg [OF l(1)] in_pow2_nonneg [OF in_pow2_min(1) [OF l(1) sum]] fp_min_le(1) [OF l(1) sum]
    unfolding wifi_cost_def
    by (cases "0 < n \<and> 10 < w") (simp_all only: if_True if_False fp_le.simps order_refl simp_thms)
qed

section \<open>All of them\<close>

text \<open>What the first pass fixes of a process, and what the second pass keeps.\<close>

definition charged_fairly :: "power_breakdown \<Rightarrow> attributed \<Rightarrow> bool" where
  "charged_fairly hw a \<longleftrightarrow>
     fp_le (Fin 0) (at_gpu_watts a) \<and> fp_le (at_gpu_watts a) (hw_gpu_watts hw) \<and>
     fp_le (Fin 0) (pp_wakeup_tax_watts a) \<and> fp_le (pp_wakeup_tax_watts a) (lit64 (5 / 2)) \<and>
     fp_le (Fin 0) (at_wifi_watts a) \<and> fp_le (at_wifi_watts a) (lit64 (65 / 100))"

lemma first_pass_defined:
  assumes "in_pow2 64 (hw_gpu_watts hw)" "in_pow2 31 sec" "sec = Fin y" "pow2 (- 10) \<le> y" "dl_wakeups d < 2 ^ 50"
  shows "\<exists>a. first_pass hw sw sec d = Some a \<and> charged_fairly hw a \<and> pp_pid a = dl_pid d"
proof -
  obtain n where n: "fp_to_u64 (div64 (dbl (dl_wakeups d)) sec) = Some n" using rate_of_word(2) [OF assms(3-5)] by blast
  obtain mi where mi: "fp_to_u64 (div64 (dbl (dl_minflt d)) sec) = Some mi" using rate_of_word(1) [OF assms(3,4), of "dl_minflt d"] by auto
  obtain ma where ma: "fp_to_u64 (div64 (dbl (dl_majflt d)) sec) = Some ma" using rate_of_word(1) [OF assms(3,4), of "dl_majflt d"] by auto
  obtain g where g: "gpu_share hw sw sec d = Some g" "fp_le (Fin 0) g" "fp_le g (hw_gpu_watts hw)"
    using gpu_share_range [OF assms(1,2)] by blast
  show ?thesis
    using g wakeup_tax_range wifi_cost_range by (simp add: first_pass_def n mi ma Let_def charged_fairly_def)
qed

lemma second_pass_kept:
  assumes "second_pass hw' all_ticks sec t d a = Some b"
  shows "charged_fairly hw b = charged_fairly hw a" and "pp_pid b = pp_pid a"
  using assms by (auto simp: second_pass_def charged_fairly_def Let_def split: bind_splits if_splits)

lemma all_some_map:
  assumes "\<And>x. x \<in> set xs \<Longrightarrow> \<exists>y. f x = Some y \<and> P x y"
  shows "\<exists>ys. all_some (map f xs) = Some ys \<and> list_all2 P xs ys"
  using assms
proof (induction xs)
  case (Cons x xs)
  then obtain y ys where "f x = Some y" "P x y" "all_some (map f xs) = Some ys" "list_all2 P xs ys" by (metis list.set_intros)
  then show ?case by simp
qed simp

lemma all_some_iff: "all_some xs = Some ys \<longleftrightarrow> xs = map Some ys"
proof (induction xs arbitrary: ys)
  case (Cons x xs)
  then show ?case by (cases x; cases "all_some xs") (auto simp: Cons_eq_map_conv)
qed auto

text \<open>The percentages: a window with less than \<open>2\<^sup>42\<close> nanoseconds of graphics time and \<open>2\<^sup>23\<close> ticks of a processor.\<close>

lemma dbl_ge_pow2:
  assumes "2 ^ k \<le> uint (w :: u64)" "k \<le> 64"
  shows "\<exists>y. dbl w = Fin y \<and> pow2 (int k) \<le> y"
proof -
  have "(of_int (2 ^ k) :: rat) \<le> of_int (uint w)" using assms(1) by (simp only: of_int_le_iff)
  then have big: "pow2 (int k) \<le> of_int (uint w)" by (simp add: pow2_nat)
  have "uint w \<le> 2 ^ 64" using uint_bounded [of w] by simp
  then have "(of_int (uint w) :: rat) \<le> of_int (2 ^ 64)" by (simp only: of_int_le_iff)
  then have "(of_int (uint w) :: rat) \<le> pow2 1023" using pow2_mono [of 64 1023] pow2_nat [of 64] by simp
  then have "dbl w = Fin (rnd 53 (- 1022) (of_int (uint w)))" unfolding fp_of_int_def
    by (intro round64) (simp_all only: of_int_0_le_iff uint_ge_0)
  then show ?thesis using representable_le_rnd [OF big double_pow2] by auto
qed

lemma interval_large:
  assumes "sec = Fin y" "pow2 (- 10) \<le> y" "in_pow2 31 sec"
  shows "\<exists>n z. gpu_interval sec = Some n \<and> dbl n = Fin z \<and> pow2 19 \<le> z"
proof -
  have y: "0 \<le> y" "y \<le> pow2 31" using assms(1,3) by (auto simp: in_pow2_def)
  have "(1 / 1024 :: rat) \<le> y" using assms(2) by (simp add: pow2_def)
  then have low: "pow2 19 \<le> y * 1000000000" by (simp add: pow2_def)
  have "y * 1000000000 \<le> pow2 31 * pow2 30" using y by (intro mult_mono) (simp_all add: pow2_def)
  then have high: "y * 1000000000 \<le> pow2 61" by (simp add: pow2_def)
  define v where "v = rnd 53 (- 1022) (y * 1000000000)"
  have v: "mul64 sec (Fin 1000000000) = Fin v"
    unfolding assms(1) v_def using y(1) high pow2_mono [of 61 1023] by (simp add: round64)
  have "pow2 19 \<le> v" unfolding v_def using low double_pow2 [of 19] by (intro representable_le_rnd) simp_all
  moreover have "v \<le> pow2 61" unfolding v_def using high double_pow2 [of 61] by (intro rnd_le_representable) simp_all
  ultimately have f: "2 ^ 19 \<le> \<lfloor>v\<rfloor>" "\<lfloor>v\<rfloor> \<le> 2 ^ 61" and pos: "0 \<le> v"
    by (simp_all add: pow2_def le_floor_iff floor_le_iff)
  then have "fp_to_u64 (mul64 sec (Fin 1000000000)) = Some (of_int \<lfloor>v\<rfloor>)"
    unfolding v by (simp add: fp_to_u64_def rat_trunc_def)
  moreover have u: "uint (of_int \<lfloor>v\<rfloor> :: u64) = \<lfloor>v\<rfloor>" using f by (simp add: unsigned_of_int take_bit_int_eq_self)
  moreover have "\<not> (2 :: int) ^ 19 \<le> 0" by simp
  then have "(of_int \<lfloor>v\<rfloor> :: u64) \<noteq> 0" using u f(1) by (metis unsigned_0)
  ultimately have "gpu_interval sec = Some (of_int \<lfloor>v\<rfloor>)" by (simp add: gpu_interval_def)
  then show ?thesis using dbl_ge_pow2 [of 19 "of_int \<lfloor>v\<rfloor>"] u f by auto
qed

lemma in_pow2_i32: "in_pow2 k v \<Longrightarrow> k < 31 \<Longrightarrow> \<exists>z. fp_to_i32 v = Some z"
  using in_pow2_to_int [of k v 31] by (cases v) (auto simp: in_pow2_def split: if_splits)

lemma small_word: "uint (w :: 'a::len word) < 2 ^ k \<Longrightarrow> k < 64 \<Longrightarrow> in_pow2 (int k) (dbl w)"
  by (rule in_pow2_of_int) auto

lemma percent_of_word:
  assumes "uint (w :: 'a::len word) < 2 ^ a" "v = Fin y" "pow2 b \<le> y" "int a + 7 - b < 31" "a < 64" "0 \<le> b" "b \<le> 64"
  shows "\<exists>z. fp_to_i32 (div64 (mul64 (dbl w) (Fin 100)) v) = Some z"
proof -
  have "in_pow2 7 (Fin 100)" using representable_of_int [of 100 53 "- 1022"] by (simp add: in_pow2_def pow2_def)
  then have "in_pow2 (int a + 7) (mul64 (dbl w) (Fin 100))"
    using assms(5) by (intro in_pow2_mul [OF small_word [OF assms(1,5)]]) auto
  then have "in_pow2 (int a + 7 - b) (div64 (mul64 (dbl w) (Fin 100)) v)"
    using assms(4-7) by (intro in_pow2_div [OF _ assms(2,3)]) auto
  then show ?thesis using assms(4) by (rule in_pow2_i32)
qed

definition short_run :: "pdelta \<Rightarrow> bool" where
  "short_run d \<longleftrightarrow> dl_wakeups d < 2 ^ 50 \<and> dl_gpu_ns d < 2 ^ 42 \<and> dl_cpu_ticks d < 2 ^ 23"

lemma shown_defined:
  assumes "sec = Fin y" "pow2 (- 10) \<le> y" "in_pow2 31 sec" "short_run d"
  shows "\<exists>p. shown_percent all_ticks sec d mech = Some p"
proof -
  have w: "uint (dl_gpu_ns d) < 2 ^ 42" "uint (dl_cpu_ticks d) < 2 ^ 23"
    using assms(4) by (simp_all add: short_run_def word_less_def)
  obtain n z where n: "gpu_interval sec = Some n" "dbl n = Fin z" "pow2 19 \<le> z" using interval_large [OF assms(1-3)] by blast
  have "\<exists>p. duty_percent sec d = Some p"
    using percent_of_word [of "dl_gpu_ns d" 42 _ z 19, OF _ n(2,3)] w(1) n(1) by (auto simp: duty_percent_def)
  moreover have "\<exists>p. compute_percent all_ticks d = Some p"
  proof (cases "0 < all_ticks")
    case True
    then obtain x where "dbl all_ticks = Fin x" "pow2 0 \<le> x" using dbl_ge_1 [of all_ticks] by auto
    then show ?thesis
      using True percent_of_word [of "dl_cpu_ticks d" 23 "dbl all_ticks" x 0] w(2) by (auto simp: compute_percent_def)
  qed (simp add: compute_percent_def)
  ultimately show ?thesis by (auto simp: shown_percent_def split: hw_domain.splits)
qed

lemma second_pass_defined:
  assumes "sec = Fin y" "pow2 (- 10) \<le> y" "in_pow2 31 sec" "short_run d"
  shows "\<exists>b. second_pass hw all_ticks sec thermal d a = Some b"
  using shown_defined [OF assms, of all_ticks] by (simp add: second_pass_def Let_def bind_eq_Some_conv)

lemma second_passes_defined:
  assumes "sec = Fin y" "pow2 (- 10) \<le> y" "in_pow2 31 sec" "list_all2 P ds as" "list_all short_run ds"
  shows "\<exists>bs. all_some (map2 (second_pass hw all_ticks sec thermal) ds as) = Some bs \<and> length bs = length ds \<and>
    (\<forall>b \<in> set bs. \<exists>d \<in> set ds. \<exists>a. P d a \<and> second_pass hw all_ticks sec thermal d a = Some b)"
  using assms(4,5)
proof (induction rule: list_all2_induct)
  case (Cons d ds a as)
  then obtain bs where "all_some (map2 (second_pass hw all_ticks sec thermal) ds as) = Some bs" "length bs = length ds"
    "\<forall>b \<in> set bs. \<exists>d \<in> set ds. \<exists>a. P d a \<and> second_pass hw all_ticks sec thermal d a = Some b" by auto
  moreover obtain b where "second_pass hw all_ticks sec thermal d a = Some b"
    using second_pass_defined [OF assms(1-3), of d hw all_ticks thermal a] Cons.prems by auto
  ultimately show ?case using Cons.hyps(1) by auto
qed simp

lemma attribute_all_defined:
  assumes "in_pow2 64 (hw_gpu_watts hw)" "in_pow2 31 sec" "sec = Fin y" "pow2 (- 10) \<le> y"
    "\<forall>d \<in> set (sw_deltas sw). short_run d"
  shows "\<exists>as. attribute_all hw sw sec = Some as \<and> length as = length (sw_deltas sw) \<and>
    (\<forall>a \<in> set as. charged_fairly hw a \<and> (\<exists>d \<in> set (sw_deltas sw). dl_pid d = pp_pid a))"
proof -
  obtain as where as: "all_some (map (first_pass hw sw sec) (sw_deltas sw)) = Some as"
    "list_all2 (\<lambda>d a. charged_fairly hw a \<and> pp_pid a = dl_pid d) (sw_deltas sw) as"
    using all_some_map [of "sw_deltas sw" "first_pass hw sw sec" "\<lambda>d a. charged_fairly hw a \<and> pp_pid a = dl_pid d"]
      first_pass_defined [OF assms(1-4)] assms(5) by (auto simp: short_run_def)
  have "list_all short_run (sw_deltas sw)" using assms(5) by (simp add: list_all_iff)
  then obtain bs where "all_some (map2 (second_pass hw (sw_cpu sw) sec (thermal_total as)) (sw_deltas sw) as) = Some bs"
    "length bs = length (sw_deltas sw)"
    "\<forall>b \<in> set bs. \<exists>d \<in> set (sw_deltas sw). \<exists>a. (charged_fairly hw a \<and> pp_pid a = dl_pid d) \<and>
       second_pass hw (sw_cpu sw) sec (thermal_total as) d a = Some b"
    using second_passes_defined [OF assms(3,4,2) as(2)] by blast
  then show ?thesis using as(1) second_pass_kept by (fastforce simp: attribute_all_def)
qed

lemma rank_subset: "set (rank n as) \<subseteq> set as" "length (rank n as) = min (min n TOP_CAPACITY) (length as)"
  by (auto simp: rank_def dest: in_set_takeD)


definition quiet_machine :: "int \<Rightarrow> hw_sample" where
  "quiet_machine t = hw_sample_new\<lparr>hs_time_ns := t\<rparr>"


text \<open>What holds of every process of a report, by its name alone.\<close>

definition labelled :: "attributed \<Rightarrow> bool" where
  "labelled a \<longleftrightarrow>
     (let c = classify (c_str (pp_comm a))
      in pp_safety_tier a = tier_code (cl_tier c) \<and> at_action a = cl_default_action c \<and>
         \<not> (cl_tier c \<in> {CriticalImmune, DesktopCore} \<and> pp_is_runaway a))"

lemma second_pass_labelled: "second_pass hw all_ticks sec t d a = Some b \<Longrightarrow> labelled b"
  by (auto simp: second_pass_def labelled_def Let_def split: bind_splits if_splits)

lemma second_passes_labelled: "map2 (second_pass hw all_ticks sec t) ds as = map Some bs \<Longrightarrow> list_all labelled bs"
proof (induction ds as arbitrary: bs rule: list_induct2')
  case (4 d ds a as)
  then show ?case using second_pass_labelled by (cases bs) auto
qed simp_all

lemma attribute_all_labelled: "attribute_all hw sw sec = Some as \<Longrightarrow> list_all labelled as"
  using second_passes_labelled by (auto simp: attribute_all_def all_some_iff split: bind_splits)

lemma compute_labelled: "compute_attribution pow s1 s2 ps1 ps2 n = Some r \<Longrightarrow> list_all labelled (ar_top r)"
  using rank_subset(1) by (fastforce simp: compute_attribution_def Let_def list_all_iff
      dest!: attribute_all_labelled split: option.splits)

text \<open>Whatever the samples are, and however long the window is, a process of the immune or the desktop tier
  is never reported as a runaway, and every process of a report carries the tier and the action the
  classifier gives its name.
\<close>

theorem protected_never_runaway:
  "case compute_windowed_attribution pow hs pss n of
     None \<Rightarrow> True
   | Some r \<Rightarrow> list_all labelled (ar_top r)"
  by (auto simp: compute_windowed_attribution_def report_new_def Let_def dest: compute_labelled split: option.splits bind_splits)

text \<open>The report lists the processes by falling score, and no process that is left out has a higher score than
  one that is listed.
\<close>

theorem report_lists_the_worst:
  assumes "\<forall>a \<in> set as. \<exists>x. pp_wdi_score a = Fin x"
  shows "sorted_wrt (\<lambda>a b. \<not> fp_lt (pp_wdi_score a) (pp_wdi_score b)) (rank n as) \<and>
    (\<exists>others. mset as = mset (rank n as) + mset others \<and>
      (\<forall>a \<in> set (rank n as). \<forall>b \<in> set others. \<not> fp_lt (pp_wdi_score a) (pp_wdi_score b)))"
proof -
  define key where "key a = (case pp_wdi_score a of Fin x \<Rightarrow> x | _ \<Rightarrow> 0)" for a :: attributed
  have key: "fp_lt (pp_wdi_score a) (pp_wdi_score b) \<longleftrightarrow> key a < key b" if "a \<in> set as" "b \<in> set as" for a b
  proof -
    obtain x y where "pp_wdi_score a = Fin x" "pp_wdi_score b = Fin y" using assms \<open>a \<in> set as\<close> \<open>b \<in> set as\<close> by metis
    then show ?thesis by (simp add: key_def)
  qed
  let ?s = "sort_by (by_watts pp_wdi_score) as"
  have "ranks key (by_watts pp_wdi_score) (set as)" using key by (simp add: ranks_def)
  then have sorted: "sorted_wrt (\<lambda>a b. key b \<le> key a) ?s" using sort_by_sorted by (fastforce simp: sorted_wrt_map)
  have s: "sorted_wrt (\<lambda>a b. \<not> fp_lt (pp_wdi_score a) (pp_wdi_score b)) ?s"
    by (rule sorted_wrt_mono_rel [OF _ sorted]) (simp add: key not_less)
  let ?n = "min n TOP_CAPACITY"
  have parts: "?s = rank n as @ drop ?n ?s" by (simp add: rank_def)
  then have "mset as = mset (rank n as) + mset (drop ?n ?s)" by (metis mset_append mset_sort_by)
  moreover have "sorted_wrt (\<lambda>a b. \<not> fp_lt (pp_wdi_score a) (pp_wdi_score b)) (rank n as @ drop ?n ?s)" using s parts by metis
  ultimately show ?thesis unfolding sorted_wrt_append by blast
qed

definition scored :: "float64 \<Rightarrow> attributed" where
  "scored x = \<lparr>pp_pid = 1, pp_comm = [], pp_cpu_watts = Fin 0, pp_wakeup_tax_watts = Fin 0, pp_total_watts = Fin 0, pp_wdi_score = x,
     pp_wakeups_per_sec = 0, pp_is_runaway = False, pp_cpu_core = 0, pp_num_threads = 1, pp_cross_ccx = False,
     pp_timerslack_ns = 50000, pp_rss_kib = 0, pp_pss_kib = 0, pp_majflt_per_sec = 0, pp_safety_tier = 5, at_uid = 0,
     at_gpu_watts = Fin 0, at_io_watts = Fin 0, at_fan_watts = Fin 0, at_vram_kib = 0, at_disk_mb = Fin 0, at_nice = 0,
     at_priority = 0, at_minflt = 0, at_sockets = 0, at_wifi_watts = Fin 0, at_dram_watts = Fin 0, at_cstate = C3_Deep,
     at_domain = Idle, at_action = ActNone\<rparr>"

theorem report_lists_the_worst_witness:
  "sorted_wrt (\<lambda>a b. \<not> fp_lt (pp_wdi_score a) (pp_wdi_score b)) (rank 2 (map (scored \<circ> Fin) [3, 9, 4])) \<and>
    (\<exists>others. mset (map (scored \<circ> Fin) [3, 9, 4]) = mset (rank 2 (map (scored \<circ> Fin) [3, 9, 4])) + mset others \<and>
      (\<forall>a \<in> set (rank 2 (map (scored \<circ> Fin) [3, 9, 4])). \<forall>b \<in> set others. \<not> fp_lt (pp_wdi_score a) (pp_wdi_score b)))"
  by (rule report_lists_the_worst) (simp add: scored_def)

end
