(* ===== verification/Simd.thy ===== *)
theory Simd
  imports C_Strings
begin

text \<open>
  The vector scanners of the parsers (\<^verbatim>\<open>src/core/cpu_features.hpp\<close>, namespace \<open>simd\<close>), on the text from
  the cursor to the end.  A 32-bit comparison mask is the list of its bits, the lane of the lowest
  address first; the scanners return the text from the new cursor on.  \<open>avx2\<close> and \<open>bmi2\<close> are the
  instruction sets the build has.
\<close>

record isa =
  has_avx2 :: bool
  has_bmi2 :: bool

section \<open>Masks\<close>

type_synonym lanes = "bool list"

abbreviation "LANES \<equiv> (32 :: nat)"

definition cmpeq :: "char \<Rightarrow> string \<Rightarrow> lanes" where
  "cmpeq t chunk = map (\<lambda>c. c = t) chunk"

text \<open>A byte that does not change under the unsigned minimum with a blank.\<close>

definition blank_lanes :: "string \<Rightarrow> lanes" where
  "blank_lanes chunk = map (\<lambda>c. byte_of c = min (byte_of c) 32) chunk"

definition tzcnt :: "lanes \<Rightarrow> nat" where
  "tzcnt m = length (takeWhile Not m)"

definition popcount :: "lanes \<Rightarrow> nat" where
  "popcount m = length (filter id m)"

text \<open>The parallel deposit: the low bits of the source go to the set bits of the mask.\<close>

fun pdep :: "lanes \<Rightarrow> lanes \<Rightarrow> lanes" where
  "pdep src [] = []"
| "pdep src (True # m) = (case src of [] \<Rightarrow> False # pdep [] m | b # bs \<Rightarrow> b # pdep bs m)"
| "pdep src (False # m) = False # pdep src m"

text \<open>\<open>1 << n\<close>, and \<open>m & (m - 1)\<close>.\<close>

definition single_bit :: "nat \<Rightarrow> lanes" where
  "single_bit n = replicate n False @ [True]"

fun clear_lowest :: "lanes \<Rightarrow> lanes" where
  "clear_lowest [] = []"
| "clear_lowest (True # m) = False # m"
| "clear_lowest (False # m) = False # clear_lowest m"

text \<open>The position of the \<open>n\<close>-th set bit, by the two instruction sets.\<close>

definition nth_bit :: "bool \<Rightarrow> nat \<Rightarrow> lanes \<Rightarrow> nat" where
  "nth_bit bmi2 n m = tzcnt (if bmi2 then pdep (single_bit (n - 1)) m else (clear_lowest ^^ (n - 1)) m)"

section \<open>Scanners\<close>

definition is_low :: "char \<Rightarrow> bool" where
  "is_low c \<longleftrightarrow> byte_of c \<le> 32"

fun find_char_scalar :: "char \<Rightarrow> string \<Rightarrow> string" where
  "find_char_scalar t [] = []"
| "find_char_scalar t (c # s) = (if c = t then c # s else find_char_scalar t s)"

function find_char_avx2 :: "char \<Rightarrow> string \<Rightarrow> string" where
  "find_char_avx2 t s =
     (if LANES \<le> length s
      then let m = cmpeq t (take LANES s)
           in if True \<in> set m then drop (tzcnt m) s else find_char_avx2 t (drop LANES s)
      else find_char_scalar t s)"
  by pat_completeness auto
termination by (relation "measure (length \<circ> snd)") auto

definition find_char_fast :: "bool \<Rightarrow> char \<Rightarrow> string \<Rightarrow> string" where
  "find_char_fast avx2 t s = (if avx2 then find_char_avx2 t s else find_char_scalar t s)"

function skip_low_avx2 :: "string \<Rightarrow> string" where
  "skip_low_avx2 s =
     (if LANES \<le> length s
      then let m = blank_lanes (take LANES s)
           in if False \<in> set m then drop (tzcnt (map Not m)) s else skip_low_avx2 (drop LANES s)
      else dropWhile is_low s)"
  by pat_completeness auto
termination by (relation "measure length") auto

definition skip_whitespace_simd :: "bool \<Rightarrow> string \<Rightarrow> string" where
  "skip_whitespace_simd avx2 s =
     (if s \<noteq> [] \<and> \<not> is_low (hd s) then s else if avx2 then skip_low_avx2 s else dropWhile is_low s)"

function find_low_avx2 :: "string \<Rightarrow> string" where
  "find_low_avx2 s =
     (if LANES \<le> length s
      then let m = blank_lanes (take LANES s)
           in if True \<in> set m then drop (tzcnt m) s else find_low_avx2 (drop LANES s)
      else dropWhile (\<lambda>c. \<not> is_low c) s)"
  by pat_completeness auto
termination by (relation "measure length") auto

definition find_whitespace_simd :: "bool \<Rightarrow> string \<Rightarrow> string" where
  "find_whitespace_simd avx2 s = (if avx2 then find_low_avx2 s else dropWhile (\<lambda>c. \<not> is_low c) s)"

fun skip_tokens_scalar :: "nat \<Rightarrow> string \<Rightarrow> string" where
  "skip_tokens_scalar 0 s = s"
| "skip_tokens_scalar (Suc n) s =
     (if s = [] then s else skip_tokens_scalar n (dropWhile is_low (dropWhile (\<lambda>c. \<not> is_low c) s)))"

function skip_tokens_avx2 :: "bool \<Rightarrow> nat \<Rightarrow> string \<Rightarrow> string" where
  "skip_tokens_avx2 bmi2 n s =
     (if LANES \<le> length s \<and> 0 < n
      then let m = cmpeq (CHR '' '') (take LANES s)
           in if popcount m < n then skip_tokens_avx2 bmi2 (n - popcount m) (drop LANES s)
              else skip_whitespace_simd True (drop (nth_bit bmi2 n m) s)
      else skip_tokens_scalar n s)"
  by pat_completeness auto
termination by (relation "measure (\<lambda>(_, _, s). length s)") auto

definition skip_tokens_simd :: "bool \<Rightarrow> bool \<Rightarrow> int \<Rightarrow> string \<Rightarrow> string" where
  "skip_tokens_simd avx2 bmi2 n s =
     (if n \<le> 0 \<or> s = [] then s
      else if n \<le> 2 \<or> \<not> avx2 then skip_tokens_scalar (nat n) s
      else skip_tokens_avx2 bmi2 (nat n) s)"

declare find_char_avx2.simps [simp del] skip_low_avx2.simps [simp del] find_low_avx2.simps [simp del]
  skip_tokens_avx2.simps [simp del]

section \<open>The vector scanners are the scalar ones\<close>

lemma find_char_dropWhile: "find_char_scalar t s = dropWhile (\<lambda>c. c \<noteq> t) s"
  by (induction s) auto

lemma drop_takeWhile_take:
  assumes "\<exists>c \<in> set (take n s). \<not> P c"
  shows "drop (length (takeWhile P (take n s))) s = dropWhile P s"
  using assms
proof (induction s arbitrary: n)
  case (Cons c s)
  then show ?case by (cases n) auto
qed simp

lemma dropWhile_drop:
  assumes "\<forall>c \<in> set (take n s). P c"
  shows "dropWhile P (drop n s) = dropWhile P s"
  using assms
proof (induction s arbitrary: n)
  case (Cons c s)
  then show ?case by (cases n) auto
qed simp

lemma tzcnt_map: "tzcnt (map P s) = length (takeWhile (\<lambda>c. \<not> P c) s)"
  by (simp add: tzcnt_def takeWhile_map comp_def)

lemma find_char_avx2: "find_char_avx2 t s = dropWhile (\<lambda>c. c \<noteq> t) s"
proof (induction t s rule: find_char_avx2.induct)
  case (1 t s)
  show ?case
  proof (cases "LANES \<le> length s \<and> True \<notin> set (cmpeq t (take LANES s))")
    case True
    then have "\<forall>c \<in> set (take LANES s). c \<noteq> t" by (auto simp: cmpeq_def)
    then show ?thesis using True 1 by (simp add: find_char_avx2.simps [of t s] dropWhile_drop)
  next
    case False
    then show ?thesis using drop_takeWhile_take [of LANES s "\<lambda>c. c \<noteq> t"]
      by (auto simp: find_char_avx2.simps [of t s] cmpeq_def tzcnt_map find_char_dropWhile)
  qed
qed

lemma blank_lanes_low: "blank_lanes chunk = map is_low chunk"
  by (auto simp: blank_lanes_def is_low_def)

lemma skip_low_avx2: "skip_low_avx2 s = dropWhile is_low s"
proof (induction s rule: skip_low_avx2.induct)
  case (1 s)
  show ?case
  proof (cases "LANES \<le> length s \<and> False \<notin> set (blank_lanes (take LANES s))")
    case True
    then have "\<forall>c \<in> set (take LANES s). is_low c" by (auto simp: blank_lanes_low)
    then show ?thesis using True 1 by (simp add: skip_low_avx2.simps [of s] dropWhile_drop)
  next
    case False
    then show ?thesis using drop_takeWhile_take [of LANES s is_low]
      by (auto simp: skip_low_avx2.simps [of s] blank_lanes_low tzcnt_map comp_def)
  qed
qed

lemma find_low_avx2: "find_low_avx2 s = dropWhile (\<lambda>c. \<not> is_low c) s"
proof (induction s rule: find_low_avx2.induct)
  case (1 s)
  show ?case
  proof (cases "LANES \<le> length s \<and> True \<notin> set (blank_lanes (take LANES s))")
    case True
    then have "\<forall>c \<in> set (take LANES s). \<not> is_low c" by (auto simp: blank_lanes_low)
    then show ?thesis using True 1 by (simp add: find_low_avx2.simps [of s] dropWhile_drop)
  next
    case False
    then show ?thesis using drop_takeWhile_take [of LANES s "\<lambda>c. \<not> is_low c"]
      by (auto simp: find_low_avx2.simps [of s] blank_lanes_low tzcnt_map)
  qed
qed

lemma find_char_fast [simp]: "find_char_fast avx2 t s = dropWhile (\<lambda>c. c \<noteq> t) s"
  by (simp add: find_char_fast_def find_char_avx2 find_char_dropWhile)

lemma skip_whitespace_simd [simp]: "skip_whitespace_simd avx2 s = dropWhile is_low s"
  by (cases s) (auto simp: skip_whitespace_simd_def skip_low_avx2)

lemma find_whitespace_simd [simp]: "find_whitespace_simd avx2 s = dropWhile (\<lambda>c. \<not> is_low c) s"
  by (simp add: find_whitespace_simd_def find_low_avx2)

section \<open>Tokens\<close>

text \<open>The reference of the position of a set bit, and of the text behind the \<open>n\<close>-th blank.\<close>

fun nth_set :: "nat \<Rightarrow> lanes \<Rightarrow> nat" where
  "nth_set n [] = 0"
| "nth_set n (True # m) = (if n = 0 then 0 else Suc (nth_set (n - 1) m))"
| "nth_set n (False # m) = Suc (nth_set n m)"

fun past :: "nat \<Rightarrow> string \<Rightarrow> string" where
  "past 0 s = s"
| "past (Suc n) [] = []"
| "past (Suc n) (c # s) = (if is_low c then past n s else past (Suc n) s)"

lemma tzcnt_Cons: "tzcnt (b # m) = (if b then 0 else Suc (tzcnt m))"
  by (simp add: tzcnt_def)

lemma popcount_simps [simp]: "popcount [] = 0" "popcount (b # m) = (if b then Suc (popcount m) else popcount m)"
  by (simp_all add: popcount_def)

lemma pdep_single: "n < popcount m \<Longrightarrow> tzcnt (pdep (single_bit n) m) = nth_set n m"
proof (induction m arbitrary: n)
  case (Cons b m)
  show ?case
  proof (cases b)
    case True
    then show ?thesis using Cons by (cases n) (auto simp: single_bit_def tzcnt_Cons)
  next
    case False
    then show ?thesis using Cons by (simp add: tzcnt_Cons)
  qed
qed simp

lemma clear_lowest_False: "(clear_lowest ^^ n) (False # m) = False # (clear_lowest ^^ n) m"
  by (induction n) auto

lemma clear_lowest_True: "(clear_lowest ^^ Suc n) (True # m) = False # (clear_lowest ^^ n) m"
  using clear_lowest_False by (simp add: funpow_swap1)

lemma clear_nth: "n < popcount m \<Longrightarrow> tzcnt ((clear_lowest ^^ n) m) = nth_set n m"
proof (induction m arbitrary: n)
  case (Cons b m)
  show ?case
  proof (cases b)
    case True
    then show ?thesis using Cons by (cases n) (auto simp: tzcnt_Cons clear_lowest_True simp del: funpow.simps(2))
  next
    case False
    then show ?thesis using Cons by (simp add: tzcnt_Cons clear_lowest_False)
  qed
qed simp

lemma nth_bit_set: "0 < n \<Longrightarrow> n \<le> popcount m \<Longrightarrow> nth_bit bmi2 n m = nth_set (n - 1) m"
  by (simp add: nth_bit_def pdep_single clear_nth)

text \<open>
  A line of single-spaced tokens: no blank follows another, and a blank other than the space can only
  be the newline at the end.
\<close>

fun single_spaced :: "string \<Rightarrow> bool" where
  "single_spaced [] \<longleftrightarrow> True"
| "single_spaced [c] \<longleftrightarrow> True"
| "single_spaced (c # d # s) \<longleftrightarrow> (is_low c \<longrightarrow> c = CHR '' '' \<and> \<not> is_low d) \<and> single_spaced (d # s)"

lemma single_spaced_tl: "single_spaced (c # s) \<Longrightarrow> single_spaced s"
  by (cases s) auto

lemma single_spaced_drop: "single_spaced s \<Longrightarrow> single_spaced (drop j s)"
proof (induction s arbitrary: j)
  case (Cons c s)
  then show ?case using single_spaced_tl [OF Cons.prems] by (cases j) auto
qed simp

lemma single_spaced_next: "single_spaced (c # s) \<Longrightarrow> is_low c \<Longrightarrow> s = [] \<or> c = CHR '' '' \<and> \<not> is_low (hd s)"
  by (cases s) auto

lemma after_blank: "single_spaced (c # s) \<Longrightarrow> is_low c \<Longrightarrow> dropWhile is_low s = s"
  using single_spaced_next by (cases s) auto

lemma space_low [simp]: "is_low (CHR '' '')"
  by (simp add: is_low_def)

lemma past_one:
  assumes "single_spaced s"
  shows "dropWhile is_low (dropWhile (\<lambda>c. \<not> is_low c) s) = past 1 s" "single_spaced (past 1 s)"
  using assms
proof (induction s)
  case (Cons c s)
  {
    case 1
    then show ?case using Cons.IH(1) [OF single_spaced_tl [OF 1]] after_blank [OF 1] by auto
  next
    case 2
    then show ?case using Cons.IH(2) [OF single_spaced_tl [OF 2]] single_spaced_tl [OF 2] by auto
  }
qed auto

lemma past_Suc: "past (Suc n) s = past n (past 1 s)"
  by (induction s) (cases n, auto)

lemma past_scalar: "single_spaced s \<Longrightarrow> skip_tokens_scalar n s = past n s"
proof (induction n arbitrary: s)
  case (Suc n)
  then show ?case using past_one [OF Suc.prems] by (cases "s = []") (simp_all add: past_Suc [of n])
qed simp

lemma cmpeq_simps [simp]: "cmpeq t [] = []" "cmpeq t (c # s) = (c = t) # cmpeq t s"
  by (simp_all add: cmpeq_def)

lemma past_chunk:
  assumes "single_spaced s" "popcount (cmpeq (CHR '' '') (take j s)) < n"
  shows "past (n - popcount (cmpeq (CHR '' '') (take j s))) (drop j s) = past n s"
  using assms
proof (induction s arbitrary: j n)
  case (Cons c s)
  note spaced = single_spaced_tl [OF Cons.prems(1)]
  show ?case
  proof (cases j)
    case (Suc i)
    obtain k where n: "n = Suc k" using Cons.prems(2) by (cases n) auto
    consider "c = CHR '' ''" | "c \<noteq> CHR '' ''" "is_low c" "s = []" | "c \<noteq> CHR '' ''" "\<not> is_low c"
      using single_spaced_next [OF Cons.prems(1)] by blast
    then show ?thesis
    proof cases
      case 1
      then show ?thesis using Cons.IH [OF spaced, of i k] Cons.prems(2) Suc n by simp
    next
      case 2
      then show ?thesis using Suc n by (cases k) simp_all
    next
      case 3
      then show ?thesis using Cons.IH [OF spaced, of i n] Cons.prems(2) Suc n by simp
    qed
  qed simp
qed (cases n; simp)

lemma past_inside:
  assumes "single_spaced s" "0 < n" "n \<le> popcount (cmpeq (CHR '' '') (take j s))"
  shows "dropWhile is_low (drop (nth_set (n - 1) (cmpeq (CHR '' '') (take j s))) s) = past n s"
  using assms
proof (induction s arbitrary: j n)
  case (Cons c s)
  note spaced = single_spaced_tl [OF Cons.prems(1)]
  obtain i where j: "j = Suc i" using Cons.prems(2,3) by (cases j) auto
  obtain k where n: "n = Suc k" using Cons.prems(2) by (cases n) auto
  show ?case
  proof (cases "c = CHR '' ''")
    case True
    show ?thesis
    proof (cases k)
      case 0
      then show ?thesis using True j n after_blank [OF Cons.prems(1)] by simp
    next
      case (Suc l)
      then show ?thesis using True j n Cons.IH [OF spaced, of k i] Cons.prems(3) by simp
    qed
  next
    case False
    then have "\<not> is_low c" using single_spaced_next [OF Cons.prems(1)] Cons.prems(2,3) j by auto
    then show ?thesis using False j n Cons.IH [OF spaced, of n i] Cons.prems(3) by simp
  qed
qed simp

lemma past_avx2: "single_spaced s \<Longrightarrow> skip_tokens_avx2 bmi2 n s = past n s"
proof (induction bmi2 n s rule: skip_tokens_avx2.induct)
  case (1 bmi2 n s)
  let ?m = "cmpeq (CHR '' '') (take LANES s)"
  show ?case
  proof (cases "LANES \<le> length s \<and> 0 < n")
    case False
    then show ?thesis using past_scalar [OF 1(2)] by (auto simp: skip_tokens_avx2.simps [of bmi2 n s])
  next
    case long: True
    show ?thesis
    proof (cases "popcount ?m < n")
      case True
      show ?thesis
        using 1(1) [OF long refl True single_spaced_drop [OF 1(2)]] past_chunk [OF 1(2) True] long True by (simp add: skip_tokens_avx2.simps [of bmi2 n s])
    next
      case False
      then show ?thesis
        using past_inside [OF 1(2), of n LANES] long by (simp add: skip_tokens_avx2.simps [of bmi2 n s] nth_bit_set)
    qed
  qed
qed

lemma skip_tokens_simd: "single_spaced s \<Longrightarrow> skip_tokens_simd avx2 bmi2 n s = past (nat n) s"
proof -
  assume s: "single_spaced s"
  have "past k [] = []" for k by (cases k) simp_all
  then show ?thesis unfolding skip_tokens_simd_def past_avx2 [OF s] past_scalar [OF s] by (cases "n \<le> 0") auto
qed

text \<open>C31. The vector scanners agree with the scalar ones.  Searching a character, skipping blanks and finding the
  next blank give the same cursor on every text; skipping tokens gives the same cursor on every line of
  single-spaced tokens, whatever its length and whether the build has the deposit instruction or not.
\<close>

theorem scanners_agree:
  assumes "single_spaced line"
  shows "skip_tokens_simd True bmi2 n line = skip_tokens_scalar (nat n) line \<and>
    find_char_fast True t line = find_char_scalar t line \<and>
    skip_whitespace_simd True line = dropWhile is_low line \<and>
    find_whitespace_simd True line = dropWhile (\<lambda>c. \<not> is_low c) line"
  using assms by (simp add: skip_tokens_simd past_scalar find_char_dropWhile)

definition long_line :: string where
  "long_line = ''4021 S 1 4021 4021 0 -1 4194560 2310 0 12 0 377''"

theorem scanners_agree_witness:
  "LANES < length long_line \<and>
    skip_tokens_simd True True 5 long_line = skip_tokens_scalar (nat 5) long_line \<and>
    find_char_fast True (CHR ''-'') long_line = find_char_scalar (CHR ''-'') long_line \<and>
    skip_whitespace_simd True long_line = dropWhile is_low long_line \<and>
    find_whitespace_simd True long_line = dropWhile (\<lambda>c. \<not> is_low c) long_line"
proof
  show "LANES < length long_line" by (simp add: long_line_def)
  have "single_spaced long_line" by (simp add: long_line_def is_low_def)
  then show "skip_tokens_simd True True 5 long_line = skip_tokens_scalar (nat 5) long_line \<and>
    find_char_fast True (CHR ''-'') long_line = find_char_scalar (CHR ''-'') long_line \<and>
    skip_whitespace_simd True long_line = dropWhile is_low long_line \<and>
    find_whitespace_simd True long_line = dropWhile (\<lambda>c. \<not> is_low c) long_line"
    by (rule scanners_agree)
qed

end
