(* ===== verification/Proc_Parse.thy ===== *)
theory Proc_Parse
  imports Simd Attribution_Delta Containers
begin

text \<open>
  The readers of the process records under \<^verbatim>\<open>/proc\<close> (\<^verbatim>\<open>src/proc/process_analyzer.cpp\<close>), on the bytes that
  were read.  A number that overflows a signed type is undefined, the result \<open>None\<close>; unsigned numbers
  wrap, and a field keeps the low bits of what is assigned to it, as the bit fields of the structure do.
\<close>

section \<open>Samples with the notes of the scan\<close>

record scanned = psample +
  sa_pinned_fd :: int
  sa_io_perm :: bool

definition scanned_new :: scanned where
  "scanned_new = psample.extend psample_new \<lparr>sa_pinned_fd = - 1, sa_io_perm = True\<rparr>"

section \<open>Numbers\<close>

definition parse_u64_fast :: "string \<Rightarrow> u64 \<times> string" where
  "parse_u64_fast s = (let (d, r) = span_digits s in (digits_val 0 d, r))"

definition parse_i32_fast :: "string \<Rightarrow> (int \<times> string) option" where
  "parse_i32_fast s =
     (if s = [] then Some (0, [])
      else let neg = (hd s = CHR ''-''); (d, r) = span_digits (if neg then tl s else s); v = digits_val (0 :: int) d
      in if 2 ^ 31 \<le> v then None else Some (if neg then - v else v, r))"

text \<open>\<open>std::from_chars\<close> for an unsigned type: no digits and a value out of range are errors.\<close>

definition from_chars :: "string \<Rightarrow> ('a::len word \<times> string) option" where
  "from_chars s =
     (let (d, r) = span_digits s; v = digits_val (0 :: int) d
      in if d = [] \<or> 2 ^ LENGTH('a) \<le> v then None else Some (of_int v, r))"

section \<open>\<^verbatim>\<open>stat\<close>\<close>

text \<open>The last closing parenthesis, as the text that starts at it.\<close>

function last_close :: "isa \<Rightarrow> string \<Rightarrow> string" where
  "last_close i s =
     (let next_close = find_char_fast (has_avx2 i) (CHR '')'') (tl s)
      in if next_close = [] then s else last_close i next_close)"
  by pat_completeness auto
termination
proof (relation "measure (length \<circ> snd)")
  fix i :: isa and s x :: string
  assume "x = find_char_fast (has_avx2 i) (CHR '')'') (tl s)" "x \<noteq> []"
  then have "length x \<le> length (tl s)" "tl s \<noteq> []" using length_dropWhile_le [of _ "tl s"] by auto
  then show "((i, x), i, s) \<in> measure (length \<circ> snd)" by (cases s) auto
qed simp

declare last_close.simps [simp del]

abbreviation skip_low :: "isa \<Rightarrow> string \<Rightarrow> string" where
  "skip_low i \<equiv> skip_whitespace_simd (has_avx2 i)"

abbreviation skip_tokens :: "isa \<Rightarrow> int \<Rightarrow> string \<Rightarrow> string" where
  "skip_tokens i \<equiv> skip_tokens_simd (has_avx2 i) (has_bmi2 i)"

text \<open>The fields behind the name, from the state on.\<close>

definition stat_fields :: "isa \<Rightarrow> string \<Rightarrow> scanned \<Rightarrow> scanned option" where
  "stat_fields i s p =
     (let s = skip_low i s; s = skip_low i (tl s)
      in case parse_i32_fast s of None \<Rightarrow> None
       | Some (ppid, s) \<Rightarrow>
         let s = skip_tokens i 5 (skip_low i s); (minflt, s) = parse_u64_fast s;
             s = skip_tokens i 1 (skip_low i s); (majflt, s) = parse_u64_fast s;
             s = skip_tokens i 1 (skip_low i s); (utime, s) = parse_u64_fast s;
             (stime, s) = parse_u64_fast (skip_low i s)
         in case parse_i32_fast (skip_tokens i 2 (skip_low i s)) of None \<Rightarrow> None
          | Some (priority, s) \<Rightarrow>
            (case parse_i32_fast (skip_low i s) of None \<Rightarrow> None
             | Some (nice, s) \<Rightarrow>
               let (threads, s) = parse_u64_fast (skip_low i s); s = skip_tokens i 18 (skip_low i s);
                   p = p\<lparr>sa_ppid := ppid, sa_minflt := ucast minflt, sa_majflt := ucast majflt, sa_utime := utime,
                         sa_stime := stime, sa_priority := of_int priority, sa_nice := of_int nice,
                         sa_threads := ucast threads\<rparr>
               in if s = [] then Some p
                  else map_option (\<lambda>(core, _). p\<lparr>sa_core := of_int core\<rparr>) (parse_i32_fast s)))"

definition parse_proc_stat :: "isa \<Rightarrow> string \<Rightarrow> scanned \<Rightarrow> (bool \<times> scanned) option" where
  "parse_proc_stat i content p =
     (let open_paren = find_char_fast (has_avx2 i) (CHR ''('') content
      in if open_paren = [] then Some (False, p)
         else case parse_i32_fast (take (length content - length open_paren) content) of None \<Rightarrow> None
          | Some (pid, _) \<Rightarrow>
            let p = p\<lparr>sa_pid := pid\<rparr>; close_paren = find_char_fast (has_avx2 i) (CHR '')'') (tl open_paren)
            in if close_paren = [] then Some (False, p)
               else let close_paren = last_close i close_paren;
                        comm = take (length (tl open_paren) - length close_paren) (tl open_paren)
               in map_option (Pair True) (stat_fields i (tl close_paren) (p\<lparr>sa_comm := comm_of comm\<rparr>)))"

section \<open>The records of lines\<close>

text \<open>The number behind the first \<open>n\<close> bytes of a line, and behind its colon.\<close>

definition number_at :: "isa \<Rightarrow> nat \<Rightarrow> string \<Rightarrow> 'a::len word option" where
  "number_at i n line = map_option fst (from_chars (skip_low i (drop n line)))"

definition number_after_colon :: "isa \<Rightarrow> string \<Rightarrow> 'a::len word option" where
  "number_after_colon i line =
     (let colon = find_char_fast (has_avx2 i) (CHR '':'') line
      in if colon = [] then None else map_option fst (from_chars (skip_low i (tl colon))))"

definition updated :: "'v option \<Rightarrow> ('v \<Rightarrow> 's \<Rightarrow> 's) \<Rightarrow> 's \<Rightarrow> 's" where
  "updated v upd s = (case v of None \<Rightarrow> s | Some x \<Rightarrow> upd x s)"

definition status_line :: "isa \<Rightarrow> string \<Rightarrow> scanned \<Rightarrow> scanned" where
  "status_line i line p =
     (if starts_with line ''Uid:'' then updated (number_at i 4 line) (\<lambda>v p. p\<lparr>sa_uid := v\<rparr>) p
      else if starts_with line ''voluntary_ctxt_switches:''
      then updated (number_at i 24 line) (\<lambda>v p. p\<lparr>sa_voluntary := v\<rparr>) p
      else if starts_with line ''nonvoluntary_ctxt_switches:''
      then updated (number_at i 27 line) (\<lambda>v p. p\<lparr>sa_involuntary := v\<rparr>) p
      else p)"

definition parse_proc_status :: "isa \<Rightarrow> string \<Rightarrow> scanned \<Rightarrow> scanned" where
  "parse_proc_status i content p = fold (status_line i) (lines_of content) p"

definition io_line :: "isa \<Rightarrow> string \<Rightarrow> scanned \<Rightarrow> scanned" where
  "io_line i line p =
     (if starts_with line ''read_bytes:'' then updated (number_at i 11 line) (\<lambda>v p. p\<lparr>sa_read_bytes := v\<rparr>) p
      else if starts_with line ''write_bytes:'' then updated (number_at i 12 line) (\<lambda>v p. p\<lparr>sa_write_bytes := v\<rparr>) p
      else if starts_with line ''syscr:'' \<or> starts_with line ''syscw:''
      then updated (number_after_colon i line) (\<lambda>v p. p\<lparr>sa_io_calls := sa_io_calls p + v\<rparr>) p
      else p)"

definition parse_proc_io :: "isa \<Rightarrow> string \<Rightarrow> scanned \<Rightarrow> scanned" where
  "parse_proc_io i content p = fold (io_line i) (lines_of content) p"

definition drm_line :: "isa \<Rightarrow> string \<Rightarrow> scanned \<Rightarrow> scanned" where
  "drm_line i line p =
     (if starts_with line ''drm-engine-gfx:'' then updated (number_at i 15 line) (\<lambda>v p. p\<lparr>sa_gfx := sa_gfx p + v\<rparr>) p
      else if starts_with line ''drm-engine-compute:''
      then updated (number_at i 19 line) (\<lambda>v p. p\<lparr>sa_compute := sa_compute p + v\<rparr>) p
      else if starts_with line ''drm-engine-dec:'' then updated (number_at i 15 line) (\<lambda>v p. p\<lparr>sa_dec := sa_dec p + v\<rparr>) p
      else if starts_with line ''drm-engine-enc:'' then updated (number_at i 15 line) (\<lambda>v p. p\<lparr>sa_enc := sa_enc p + v\<rparr>) p
      else if starts_with line ''drm-memory-vram:'' \<or> starts_with line ''drm-resident-vram:''
      then updated (number_after_colon i line) (\<lambda>v p. if sa_vram p < v then p\<lparr>sa_vram := v\<rparr> else p) p
      else p)"

text \<open>This reader reports success whatever it found.\<close>

definition parse_drm_fdinfo :: "isa \<Rightarrow> string \<Rightarrow> scanned \<Rightarrow> bool \<times> scanned" where
  "parse_drm_fdinfo i content p = (True, fold (drm_line i) (lines_of content) p)"

definition parse_proc_statm :: "isa \<Rightarrow> string \<Rightarrow> scanned \<Rightarrow> bool \<times> scanned" where
  "parse_proc_statm i content p =
     (let s = skip_low i (find_whitespace_simd (has_avx2 i) (skip_low i content))
      in case (from_chars s :: (u64 \<times> string) option) of None \<Rightarrow> (False, p)
       | Some (resident, s) \<Rightarrow>
         (case (from_chars (skip_low i s) :: (u64 \<times> string) option) of None \<Rightarrow> (False, p)
          | Some (shared, _) \<Rightarrow>
            (True, p\<lparr>sa_rss := ucast (resident * 4),
                     sa_pss := ucast ((if shared \<le> resident then (resident - shared) + shared div 2 else resident) * 4)\<rparr>)))"

section \<open>Reading back a record\<close>

text \<open>What the kernel prints behind the name: tokens between single spaces, a newline at the end.\<close>

fun words_line :: "string list \<Rightarrow> string" where
  "words_line [] = []"
| "words_line [t] = t @ [NL]"
| "words_line (t # u # ts) = t @ CHR '' '' # words_line (u # ts)"

definition token :: "string \<Rightarrow> bool" where
  "token t \<longleftrightarrow> t \<noteq> [] \<and> list_all (\<lambda>c. \<not> is_low c) t"

lemma spaced_Cons: "words_line (t # ts) = t @ (if ts = [] then [NL] else CHR '' '' # words_line ts)"
  by (cases ts) auto

lemma spaced_ne: "list_all token ts \<Longrightarrow> ts \<noteq> [] \<Longrightarrow> words_line ts \<noteq> [] \<and> \<not> is_low (hd (words_line ts))"
proof (cases ts)
  case (Cons t us)
  then show "list_all token ts \<Longrightarrow> ?thesis" by (cases t) (auto simp: spaced_Cons token_def)
qed simp

lemma NL_low [simp]: "is_low NL"
  by (simp add: is_low_def)

lemma single_spaced_token:
  "list_all (\<lambda>c. \<not> is_low c) t \<Longrightarrow> t \<noteq> [] \<Longrightarrow> single_spaced (c # s) \<Longrightarrow> is_low c \<Longrightarrow> single_spaced (t @ c # s)"
proof (induction t)
  case (Cons d t)
  then show ?case by (cases t) auto
qed simp

lemma single_spaced_spaced: "list_all token ts \<Longrightarrow> single_spaced (words_line ts)"
proof (induction ts)
  case (Cons t ts)
  show ?case
  proof (cases "ts = []")
    case True
    then show ?thesis using Cons by (simp add: single_spaced_token token_def)
  next
    case False
    then have "single_spaced (CHR '' '' # words_line ts)" using Cons spaced_ne [of ts] by (cases "words_line ts") auto
    then show ?thesis using Cons False by (simp add: spaced_Cons single_spaced_token token_def)
  qed
qed simp

lemma past_token: "list_all (\<lambda>c. \<not> is_low c) t \<Longrightarrow> is_low c \<Longrightarrow> past (Suc n) (t @ c # s) = past n s"
  by (induction t) auto

lemma past_Nil [simp]: "past n [] = []"
  by (cases n) auto

lemma past_spaced: "list_all token ts \<Longrightarrow> past n (words_line ts) = words_line (drop n ts)"
proof (induction n arbitrary: ts)
  case (Suc n)
  then show ?case by (cases ts) (auto simp: spaced_Cons past_token token_def)
qed simp

lemma skip_spaced: "list_all token ts \<Longrightarrow> skip_tokens_simd a b k (words_line ts) = words_line (drop (nat k) ts)"
  by (simp add: skip_tokens_simd single_spaced_spaced past_spaced)

lemma low_spaced: "list_all token ts \<Longrightarrow> dropWhile is_low (words_line ts) = words_line ts"
  using spaced_ne [of ts] by (cases "ts = []"; cases "words_line ts") auto

text \<open>Reading a number at the front, and the blank behind it.\<close>

abbreviation behind :: "string list \<Rightarrow> string" where
  "behind ts \<equiv> (if ts = [] then [NL] else CHR '' '' # words_line ts)"

lemma low_behind [simp]: "list_all token ts \<Longrightarrow> dropWhile is_low (behind ts) = words_line ts"
  using low_spaced [of ts] by (auto simp: is_low_def)

lemma behind_no_digit: "behind ts = [] \<or> \<not> is_digit (hd (behind ts))"
  by (simp add: is_digit_def)

lemma digits_behind: "span_digits (show_nat n @ behind ts) = (show_nat n, behind ts)"
  by (intro span_digits_append behind_no_digit) (simp add: list_all_show_nat)

lemma parse_u64_spaced: "parse_u64_fast (words_line (show_nat n # ts)) = (of_nat n, behind ts)"
  unfolding spaced_Cons parse_u64_fast_def digits_behind by (simp add: digits_val_show_nat)

lemma parse_i32_fast_show:
  assumes "- (2 ^ 31) < v" "v < 2 ^ 31" "r = [] \<or> \<not> is_digit (hd r)"
  shows "parse_i32_fast (show_int v @ r) = Some (v, r)"
proof -
  have span: "span_digits (show_nat n @ r) = (show_nat n, r)" for n
    using assms(3) by (intro span_digits_append) (simp_all add: list_all_show_nat)
  show ?thesis
  proof (cases "v < 0")
    case True
    then have "digits_val (0 :: int) (show_nat (nat (- v))) = - v" by (simp add: digits_val_show_nat)
    then show ?thesis using True assms span [of "nat (- v)"] unfolding parse_i32_fast_def show_int_def by simp
  next
    case False
    obtain c d where cd: "show_nat (nat v) = c # d" by (cases "show_nat (nat v)") auto
    then have "is_digit c" using show_nat_digits [of c "nat v"] by simp
    then have "c \<noteq> CHR ''-''" by (auto simp: is_digit_def)
    moreover have "digits_val (0 :: int) (show_nat (nat v)) = v" using False by (simp add: digits_val_show_nat)
    ultimately show ?thesis
      using False assms span [of "nat v"] cd unfolding parse_i32_fast_def show_int_def by (simp add: Let_def)
  qed
qed

lemma parse_i32_spaced: "- (2 ^ 31) < v \<Longrightarrow> v < 2 ^ 31 \<Longrightarrow> parse_i32_fast (words_line (show_int v # ts)) = Some (v, behind ts)"
  unfolding spaced_Cons by (rule parse_i32_fast_show [OF _ _ behind_no_digit])

lemma token_show_nat [simp]: "token (show_nat n)"
  using show_nat_digits [of _ n] by (fastforce simp: token_def list_all_iff is_digit_def is_low_def)

lemma token_show_int [simp]: "token (show_int v)"
  using token_show_nat by (auto simp: show_int_def token_def is_low_def)

text \<open>
  The fields of a record the daemon reads, among the fields it skips: five before the minor faults, one
  before the major faults, one before the user time, two before the priority, eighteen before the core,
  and whatever newer kernels append.
\<close>

record stat_entry =
  se_pid :: int
  se_comm :: string
  se_state :: char
  se_ppid :: int
  se_minflt :: nat
  se_majflt :: nat
  se_utime :: nat
  se_stime :: nat
  se_priority :: int
  se_nice :: int
  se_threads :: nat
  se_core :: int

definition stat_tokens :: "stat_entry \<Rightarrow> string list list \<Rightarrow> string list" where
  "stat_tokens e g =
     [[se_state e], show_int (se_ppid e)] @ g ! 0 @ [show_nat (se_minflt e)] @ g ! 1 @ [show_nat (se_majflt e)] @ g ! 2 @
     [show_nat (se_utime e), show_nat (se_stime e)] @ g ! 3 @
     [show_int (se_priority e), show_int (se_nice e), show_nat (se_threads e)] @ g ! 4 @ [show_int (se_core e)] @ g ! 5"

definition stat_text :: "stat_entry \<Rightarrow> string list list \<Rightarrow> string" where
  "stat_text e g = show_int (se_pid e) @ '' ('' @ se_comm e @ '') '' @ words_line (stat_tokens e g)"

definition is_i32 :: "int \<Rightarrow> bool" where
  "is_i32 v \<longleftrightarrow> - (2 ^ 31) < v \<and> v < 2 ^ 31"

definition plausible :: "stat_entry \<Rightarrow> string list list \<Rightarrow> bool" where
  "plausible e g \<longleftrightarrow>
     is_i32 (se_pid e) \<and> is_i32 (se_ppid e) \<and> is_i32 (se_priority e) \<and> is_i32 (se_nice e) \<and> is_i32 (se_core e) \<and>
     \<not> is_low (se_state e) \<and> se_state e \<noteq> CHR '')'' \<and> map length (take 5 g) = [5, 1, 1, 2, 18] \<and> length g = 6 \<and>
     list_all (list_all (\<lambda>t. token t \<and> CHR '')'' \<notin> set t)) g"

definition filled :: "stat_entry \<Rightarrow> scanned \<Rightarrow> scanned" where
  "filled e p = p\<lparr>sa_pid := se_pid e, sa_comm := comm_of (se_comm e), sa_ppid := se_ppid e,
     sa_minflt := of_nat (se_minflt e), sa_majflt := of_nat (se_majflt e), sa_utime := of_nat (se_utime e),
     sa_stime := of_nat (se_stime e), sa_priority := of_int (se_priority e), sa_nice := of_int (se_nice e),
     sa_threads := of_nat (se_threads e), sa_core := of_int (se_core e)\<rparr>"

lemma ucast_of_nat_words: "LENGTH('b) \<le> LENGTH('a) \<Longrightarrow> ucast (of_nat n :: 'a::len word) = (of_nat n :: 'b::len word)"
  by (simp add: unsigned_of_nat word_of_nat_eq_iff take_bit_take_bit min_absorb1)

lemma stat_fields_recovers:
  assumes "plausible e g"
  shows "stat_fields i (CHR '' '' # words_line (stat_tokens e g)) p =
    Some (p\<lparr>sa_ppid := se_ppid e, sa_minflt := of_nat (se_minflt e), sa_majflt := of_nat (se_majflt e),
      sa_utime := of_nat (se_utime e), sa_stime := of_nat (se_stime e), sa_priority := of_int (se_priority e),
      sa_nice := of_int (se_nice e), sa_threads := of_nat (se_threads e), sa_core := of_int (se_core e)\<rparr>)"
proof -
  obtain g0 g1 g2 g3 g4 g5 where g: "g = [g0, g1, g2, g3, g4, g5]" "length g0 = 5" "length g1 = 1" "length g2 = 1"
    "length g3 = 2" "length g4 = 18"
    using assms by (auto simp: plausible_def length_Suc_conv numeral_eq_Suc)
  have tok: "list_all token g0" "list_all token g1" "list_all token g2" "list_all token g3" "list_all token g4" "list_all token g5"
    "token [se_state e]"
    using assms unfolding plausible_def g by (auto simp: list_all_iff token_def)
  have num: "parse_i32_fast (words_line (show_int (se_ppid e) # ts)) = Some (se_ppid e, behind ts)"
    "parse_i32_fast (words_line (show_int (se_priority e) # ts)) = Some (se_priority e, behind ts)"
    "parse_i32_fast (words_line (show_int (se_nice e) # ts)) = Some (se_nice e, behind ts)"
    "parse_i32_fast (words_line (show_int (se_core e) # ts)) = Some (se_core e, behind ts)" for ts
    using assms parse_i32_spaced unfolding plausible_def is_i32_def by blast+
  define t6 where "t6 = show_int (se_core e) # g5"
  define t5 where "t5 = show_int (se_priority e) # show_int (se_nice e) # show_nat (se_threads e) # g4 @ t6"
  define t4 where "t4 = show_nat (se_utime e) # show_nat (se_stime e) # g3 @ t5"
  define t3 where "t3 = show_nat (se_majflt e) # g2 @ t4"
  define t2 where "t2 = show_nat (se_minflt e) # g1 @ t3"
  define t1 where "t1 = show_int (se_ppid e) # g0 @ t2"
  have t: "stat_tokens e g = [se_state e] # t1"
    by (simp add: stat_tokens_def g t1_def t2_def t3_def t4_def t5_def t6_def)
  have all: "list_all token t6" "list_all token t5" "list_all token t4" "list_all token t3" "list_all token t2" "list_all token t1"
    by (simp_all add: t1_def t2_def t3_def t4_def t5_def t6_def tok)
  have first: "dropWhile is_low (CHR '' '' # words_line ([se_state e] # t1)) = se_state e # CHR '' '' # words_line t1"
    "dropWhile is_low (CHR '' '' # words_line t1) = words_line t1"
    using tok(7) low_spaced [OF all(6)] by (simp_all add: token_def spaced_Cons t1_def)
  have drops: "skip_tokens i 5 (words_line (g0 @ t2)) = words_line t2" "skip_tokens i 1 (words_line (g1 @ t3)) = words_line t3"
    "skip_tokens i 1 (words_line (g2 @ t4)) = words_line t4" "skip_tokens i 2 (words_line (g3 @ t5)) = words_line t5"
    "skip_tokens i 18 (words_line (g4 @ t6)) = words_line t6"
    using tok all g by (simp_all add: skip_spaced)
  have reads: "parse_i32_fast (words_line t1) = Some (se_ppid e, behind (g0 @ t2))"
    "parse_u64_fast (words_line t2) = (of_nat (se_minflt e), behind (g1 @ t3))"
    "parse_u64_fast (words_line t3) = (of_nat (se_majflt e), behind (g2 @ t4))"
    "parse_u64_fast (words_line t4) = (of_nat (se_utime e), behind (show_nat (se_stime e) # g3 @ t5))"
    "parse_u64_fast (words_line (show_nat (se_stime e) # g3 @ t5)) = (of_nat (se_stime e), behind (g3 @ t5))"
    "parse_i32_fast (words_line t5) = Some (se_priority e, behind (show_int (se_nice e) # show_nat (se_threads e) # g4 @ t6))"
    "parse_i32_fast (words_line (show_int (se_nice e) # show_nat (se_threads e) # g4 @ t6)) =
       Some (se_nice e, behind (show_nat (se_threads e) # g4 @ t6))"
    "parse_u64_fast (words_line (show_nat (se_threads e) # g4 @ t6)) = (of_nat (se_threads e), behind (g4 @ t6))"
    "parse_i32_fast (words_line t6) = Some (se_core e, behind g5)"
    unfolding t1_def t2_def t3_def t4_def t5_def t6_def by (rule num parse_u64_spaced)+
  have blanks: "skip_low i (behind (g0 @ t2)) = words_line (g0 @ t2)" "skip_low i (behind (g1 @ t3)) = words_line (g1 @ t3)"
    "skip_low i (behind (g2 @ t4)) = words_line (g2 @ t4)"
    "skip_low i (behind (show_nat (se_stime e) # g3 @ t5)) = words_line (show_nat (se_stime e) # g3 @ t5)"
    "skip_low i (behind (g3 @ t5)) = words_line (g3 @ t5)"
    "skip_low i (behind (show_int (se_nice e) # show_nat (se_threads e) # g4 @ t6)) =
       words_line (show_int (se_nice e) # show_nat (se_threads e) # g4 @ t6)"
    "skip_low i (behind (show_nat (se_threads e) # g4 @ t6)) = words_line (show_nat (se_threads e) # g4 @ t6)"
    "skip_low i (behind (g4 @ t6)) = words_line (g4 @ t6)"
    unfolding skip_whitespace_simd by (rule low_behind; simp add: tok all)+
  have ne: "words_line t6 \<noteq> []" using spaced_ne [OF all(1)] by (simp add: t6_def)
  have state: "skip_low i (CHR '' '' # words_line (stat_tokens e g)) = se_state e # CHR '' '' # words_line t1"
    "skip_low i (tl (se_state e # CHR '' '' # words_line t1)) = words_line t1"
    unfolding t skip_whitespace_simd list.sel by (rule first)+
  show ?thesis
    unfolding stat_fields_def Let_def state reads blanks drops option.case prod.case
    using ne by (simp add: ucast_of_nat_words)
qed

lemma skip_until: "t \<notin> set v \<Longrightarrow> dropWhile (\<lambda>c. c \<noteq> t) (v @ t # s) = t # s"
  by (induction v) auto

lemma last_close_here: "CHR '')'' \<notin> set r \<Longrightarrow> last_close i (c # r) = c # r"
  by (subst last_close.simps) (simp add: dropWhile_eq_Nil_conv) 

lemma last_close_later:
  assumes "CHR '')'' \<notin> set r"
  shows "last_close i (c # u @ CHR '')'' # r) = CHR '')'' # r"
proof (induction u arbitrary: c rule: length_induct)
  case (1 u)
  show ?case
  proof (cases "CHR '')'' \<in> set u")
    case True
    then obtain v w where u: "u = v @ CHR '')'' # w" "CHR '')'' \<notin> set v" by (meson split_list_first)
    then have "last_close i (c # u @ CHR '')'' # r) = last_close i (CHR '')'' # w @ CHR '')'' # r)"
      by (subst last_close.simps) (simp add: skip_until)
    then show ?thesis using 1 u by simp
  next
    case False
    then show ?thesis using last_close_here [OF assms] by (subst last_close.simps) (simp add: skip_until)
  qed
qed

lemma close_of_comm:
  assumes "CHR '')'' \<notin> set r"
  shows "last_close i (dropWhile (\<lambda>c. c \<noteq> CHR '')'') (comm @ CHR '')'' # r)) = CHR '')'' # r"
proof (cases "CHR '')'' \<in> set comm")
  case True
  then obtain v w where "comm = v @ CHR '')'' # w" "CHR '')'' \<notin> set v" by (meson split_list_first)
  then show ?thesis using last_close_later [OF assms] by (simp add: skip_until)
next
  case False
  then show ?thesis using last_close_here [OF assms] by (simp add: skip_until)
qed

lemma spaced_no_close: "list_all (\<lambda>t. CHR '')'' \<notin> set t) ts \<Longrightarrow> CHR '')'' \<notin> set (words_line ts)"
  by (induction ts) (auto simp: spaced_Cons)

lemma show_no_paren [simp]:
  "CHR '')'' \<notin> set (show_nat n)" "CHR ''('' \<notin> set (show_nat n)" "CHR '')'' \<notin> set (show_int v)" "CHR ''('' \<notin> set (show_int v)"
proof -
  have "c \<in> set (show_nat n) \<Longrightarrow> c \<noteq> CHR '')'' \<and> c \<noteq> CHR ''(''" for c n
    using show_nat_digits [of c n] by (auto simp: is_digit_def)
  then show "CHR '')'' \<notin> set (show_nat n)" "CHR ''('' \<notin> set (show_nat n)" "CHR '')'' \<notin> set (show_int v)"
    "CHR ''('' \<notin> set (show_int v)" by (auto simp: show_int_def)
qed

lemma stat_tokens_no_close: "plausible e g \<Longrightarrow> list_all (\<lambda>t. CHR '')'' \<notin> set t) (stat_tokens e g)"
proof -
  assume a: "plausible e g"
  then have "length g = 6" "list_all (list_all (\<lambda>t. CHR '')'' \<notin> set t)) g" by (auto simp: plausible_def list_all_iff)
  then have "j < 6 \<Longrightarrow> list_all (\<lambda>t. CHR '')'' \<notin> set t) (g ! j)" for j by (simp add: list_all_length)
  then show ?thesis using a by (auto simp: stat_tokens_def plausible_def)
qed

lemma stat_text_parsed:
  assumes "plausible e g"
  shows "parse_proc_stat i (stat_text e g) p = Some (True, filled e p)"
proof -
  let ?rest = "CHR '' '' # words_line (stat_tokens e g)"
  let ?tail = "se_comm e @ CHR '')'' # ?rest"
  have whole: "stat_text e g = show_int (se_pid e) @ CHR '' '' # CHR ''('' # ?tail" by (simp add: stat_text_def)
  have no_close: "CHR '')'' \<notin> set ?rest"
    using spaced_no_close [OF stat_tokens_no_close [OF assms]] by simp
  have front: "find_char_fast a (CHR ''('') (stat_text e g) = CHR ''('' # ?tail" for a
  proof -
    have "stat_text e g = (show_int (se_pid e) @ [CHR '' '']) @ CHR ''('' # ?tail" by (simp add: whole)
    moreover have "CHR ''('' \<notin> set (show_int (se_pid e) @ [CHR '' ''])" by simp
    ultimately show ?thesis unfolding find_char_fast by (metis skip_until)
  qed
  have "take (length (stat_text e g) - length (CHR ''('' # ?tail)) (stat_text e g) = show_int (se_pid e) @ '' ''"
    by (simp add: whole)
  then have num: "parse_i32_fast (take (length (stat_text e g) - length (CHR ''('' # ?tail)) (stat_text e g)) = Some (se_pid e, '' '')"
    using assms parse_i32_fast_show [of "se_pid e" "'' ''"] by (simp add: plausible_def is_i32_def is_digit_def)
  have close: "last_close i (find_char_fast a (CHR '')'') ?tail) = CHR '')'' # ?rest" for a
    unfolding find_char_fast by (rule close_of_comm [OF no_close])
  have some: "find_char_fast a (CHR '')'') ?tail \<noteq> []" for a unfolding find_char_fast by (auto simp: dropWhile_eq_Nil_conv)
  have comm: "take (length ?tail - length (CHR '')'' # ?rest)) ?tail = se_comm e" by simp
  show ?thesis
    unfolding parse_proc_stat_def Let_def front num list.sel option.case prod.case close comm stat_fields_recovers [OF assms]
    using some by (simp add: filled_def)
qed

text \<open>C30. A process record is read back.  Whatever the name of the process is - blanks and parentheses in it
  included - and whatever the skipped fields are, the reader recovers the number, the name (cut to its
  fifteen bytes), the parent, the faults, the times, the priority, the niceness, the threads and the core,
  each in the width of its field.
\<close>

theorem stat_record_recovers:
  assumes "plausible e g"
  shows "parse_proc_stat i (stat_text e g) p = Some (True, filled e p)"
  using assms by (rule stat_text_parsed)

definition example_entry :: stat_entry where
  "example_entry = \<lparr>se_pid = 4021, se_comm = ''a) (b'', se_state = CHR ''S'', se_ppid = 1, se_minflt = 2310, se_majflt = 12,
     se_utime = 377, se_stime = 41, se_priority = 20, se_nice = - 5, se_threads = 9, se_core = 11\<rparr>"

definition example_gaps :: "string list list" where
  "example_gaps = [replicate 5 ''4021'', [''0''], [''0''], [''0'', ''0''], replicate 18 ''123456'', [''0'', ''0'']]"

theorem stat_record_recovers_witness:
  "parse_proc_stat \<lparr>has_avx2 = True, has_bmi2 = True\<rparr> (stat_text example_entry example_gaps) scanned_new =
     Some (True, filled example_entry scanned_new)"
  by (rule stat_record_recovers)
    (simp add: plausible_def example_entry_def example_gaps_def is_i32_def is_low_def token_def numeral_eq_Suc)

end
