(* ===== verification/Proc_Capture.thy ===== *)
theory Proc_Capture
  imports Proc_Parse Attribution_Delta Actuators
begin

text \<open>
  The scan of \<^verbatim>\<open>/proc\<close> into a sample of all processes (\<^verbatim>\<open>src/proc/process_analyzer.cpp\<close>), with what it
  reuses of the sample before.  A text that leads to an undefined conversion makes the whole scan the
  result \<open>None\<close>.  The overload that fills a vector differs only in having no capacity.
\<close>

section \<open>State and helpers\<close>

abbreviation "MAX_KTHREADS \<equiv> (512 :: nat)"

record analyzer =
  an_root :: string
  an_kthreads :: "int list"
  an_pass :: u64

definition analyzer_new :: "string \<Rightarrow> analyzer" where
  "analyzer_new root_dir = \<lparr>an_root = take 63 root_dir, an_kthreads = [], an_pass = 0\<rparr>"

text \<open>\<open>open\<close>, one \<open>read\<close> into a buffer of \<open>max_len\<close> bytes with its terminator, \<open>close\<close>; an empty file counts as a failure.\<close>

definition read_to_buf :: "kernel \<Rightarrow> string \<Rightarrow> nat \<Rightarrow> string option io" where
  "read_to_buf k path max_len =
     (if max_len \<le> 1 then return_io None
      else do {
        r \<leftarrow> sys_read_file k path (max_len - 1);
        return_io (case r of None \<Rightarrow> None | Some s \<Rightarrow> if s = [] then None else Some s)
      })"

definition pid_path :: "analyzer \<Rightarrow> int \<Rightarrow> string \<Rightarrow> string" where
  "pid_path an p leaf = an_root an @ ''/'' @ show_int p @ ''/'' @ leaf"

text \<open>The searches of the library in a sorted range.\<close>

definition lower_bound :: "('a \<Rightarrow> int) \<Rightarrow> int \<Rightarrow> 'a list \<Rightarrow> nat" where
  "lower_bound f x xs = length (takeWhile (\<lambda>a. f a < x) xs)"

definition sorted_find :: "('a \<Rightarrow> int) \<Rightarrow> int \<Rightarrow> 'a list \<Rightarrow> 'a option" where
  "sorted_find f x xs =
     (case drop (lower_bound f x xs) xs of [] \<Rightarrow> None | a # _ \<Rightarrow> if f a = x then Some a else None)"

definition remember_kthread :: "int \<Rightarrow> int list \<Rightarrow> int list" where
  "remember_kthread p ks =
     (if sorted_find id p ks = None \<and> length ks < MAX_KTHREADS
      then take (lower_bound id p ks) ks @ p # drop (lower_bound id p ks) ks else ks)"

text \<open>The name of an entry as a process number; the leading digit is not zero.\<close>

definition leads_number :: "string \<Rightarrow> bool" where
  "leads_number name \<longleftrightarrow> (case name of [] \<Rightarrow> False | c # _ \<Rightarrow> 49 \<le> byte_of c \<and> byte_of c \<le> 57)"

section \<open>Descriptors of a process\<close>

record fd_scan =
  fs_sample :: scanned
  fs_drm :: bool
  fs_sockets :: u32

definition ephemeral :: "scanned \<Rightarrow> bool" where
  "ephemeral p \<longleftrightarrow>
     sa_utime p + sa_stime p < 20 \<and> sa_voluntary p < 50 \<or> sa_threads p = 1 \<and> sa_io_calls p = 0 \<and> sa_minflt p = 0"

text \<open>The descriptor of the graphics node that an earlier scan found, or that there is none.\<close>

definition pinned_node :: "isa \<Rightarrow> kernel \<Rightarrow> analyzer \<Rightarrow> int \<Rightarrow> scanned \<Rightarrow> scanned \<Rightarrow> (bool \<times> scanned) io" where
  "pinned_node i k an p prev s =
     (if 0 \<le> sa_pinned_fd prev
      then do {
        r \<leftarrow> read_to_buf k (pid_path an p (''fdinfo/'' @ show_int (sa_pinned_fd prev))) 2048;
        return_io (case r of None \<Rightarrow> (False, s)
          | Some content \<Rightarrow>
              let (ok, s) = parse_drm_fdinfo i content s
              in if ok then (True, s\<lparr>sa_pinned_fd := sa_pinned_fd prev\<rparr>) else (False, s))
      }
      else if sa_pinned_fd prev = - 2 then return_io (True, s\<lparr>sa_pinned_fd := - 2\<rparr>)
      else return_io (False, s\<lparr>sa_pinned_fd := - 1\<rparr>))"

text \<open>Whether the scan of the descriptors is left out this time.\<close>

definition scan_not_due :: "u64 \<Rightarrow> bool \<Rightarrow> scanned \<Rightarrow> scanned \<Rightarrow> bool" where
  "scan_not_due pass drm prev s \<longleftrightarrow>
     (drm \<or> sa_pinned_fd prev \<le> 0) \<and>
     (sa_utime prev = sa_utime s \<and> sa_stime prev = sa_stime s \<and> sa_io_calls prev = sa_io_calls s \<or>
      (if sa_sockets prev = 0 then pass mod 10 \<noteq> 0 else pass mod 8 \<noteq> 0))"

text \<open>One entry of the descriptor directory; the second result stops the walk over the portion.\<close>

definition scan_fd :: "isa \<Rightarrow> kernel \<Rightarrow> analyzer \<Rightarrow> int \<Rightarrow> string \<times> entry_type \<Rightarrow> fd_scan \<Rightarrow> (bool \<times> fd_scan) io" where
  "scan_fd i k an p e st =
     (let (name, ty) = e
      in if \<not> (name \<noteq> [] \<and> is_digit (hd name)) \<or> (ty \<noteq> EntryLink \<and> ty \<noteq> EntryUnknown) then return_io (False, st)
         else do {
           r \<leftarrow> sys_readlink k (pid_path an p (''fd/'' @ name)) 63;
           (case r of None \<Rightarrow> return_io (False, st)
            | Some target \<Rightarrow>
                if starts_with target ''socket:[''
                then let st = st\<lparr>fs_sockets := fs_sockets st + 1\<rparr> in return_io (fs_drm st \<and> 32 \<le> fs_sockets st, st)
                else if \<not> fs_drm st \<and> starts_with target ''/dev/dri/''
                then do {
                  c \<leftarrow> read_to_buf k (pid_path an p (''fdinfo/'' @ name)) 2048;
                  return_io (False, case c of None \<Rightarrow> st
                    | Some content \<Rightarrow>
                        let (ok, s) = parse_drm_fdinfo i content (fs_sample st); st = st\<lparr>fs_sample := s\<rparr>;
                            v = digits_val (0 :: int) (fst (span_digits name))
                        in if ok \<and> v < 2 ^ 31 then st\<lparr>fs_sample := s\<lparr>sa_pinned_fd := v\<rparr>, fs_drm := True\<rparr> else st)
                }
                else return_io (False, st))
         })"

fun scan_fds :: "isa \<Rightarrow> kernel \<Rightarrow> analyzer \<Rightarrow> int \<Rightarrow> (string \<times> entry_type) list \<Rightarrow> fd_scan \<Rightarrow> fd_scan io" where
  "scan_fds i k an p [] st = return_io st"
| "scan_fds i k an p (e # es) st = do {
     (stop, st) \<leftarrow> scan_fd i k an p e st;
     if stop then return_io st else scan_fds i k an p es st
   }"

text \<open>The portions of the directory, of which there are \<open>n\<close>.\<close>

fun scan_portions :: "isa \<Rightarrow> kernel \<Rightarrow> analyzer \<Rightarrow> int \<Rightarrow> nat \<Rightarrow> fd_scan \<Rightarrow> fd_scan io" where
  "scan_portions i k an p 0 st = do { _ \<leftarrow> sys_getdents_end (pid_path an p ''fd''); return_io st }"
| "scan_portions i k an p (Suc n) st = do {
     es \<leftarrow> sys_getdents k (pid_path an p ''fd'');
     if es = [] then return_io st
     else do {
       st \<leftarrow> scan_fds i k an p es st;
       if fs_drm st \<and> 32 \<le> fs_sockets st then return_io st else scan_portions i k an p n st
     }
   }"

definition scan_directory :: "isa \<Rightarrow> kernel \<Rightarrow> analyzer \<Rightarrow> int \<Rightarrow> bool \<Rightarrow> scanned \<Rightarrow> scanned io" where
  "scan_directory i k an p drm s = do {
     r \<leftarrow> sys_open_dents k (pid_path an p ''fd'');
     (case r of None \<Rightarrow> return_io s
      | Some n \<Rightarrow> do {
          st \<leftarrow> scan_portions i k an p n \<lparr>fs_sample = s, fs_drm = drm, fs_sockets = 0\<rparr>;
          let s = (fs_sample st)\<lparr>sa_sockets := ucast (fs_sockets st)\<rparr>;
          return_io (if \<not> fs_drm st \<and> sa_pinned_fd s < 0 then s\<lparr>sa_pinned_fd := - 2\<rparr> else s)
        })
   }"

definition inspect_pid_fds :: "isa \<Rightarrow> kernel \<Rightarrow> analyzer \<Rightarrow> int \<Rightarrow> scanned option \<Rightarrow> scanned \<Rightarrow> scanned io" where
  "inspect_pid_fds i k an p prev s =
     (case prev of
        None \<Rightarrow> if ephemeral s then return_io (s\<lparr>sa_sockets := 0, sa_pinned_fd := - 1\<rparr>) else scan_directory i k an p False s
      | Some q \<Rightarrow> do {
          (drm, s) \<leftarrow> pinned_node i k an p q s;
          let s = s\<lparr>sa_sockets := sa_sockets q\<rparr>;
          if scan_not_due (an_pass an) drm q s then return_io s else scan_directory i k an p drm s
        })"

section \<open>One process\<close>

text \<open>A process whose times did not move keeps everything that is costly to read.\<close>

definition keep_all :: "scanned \<Rightarrow> scanned \<Rightarrow> scanned" where
  "keep_all q s = s\<lparr>sa_uid := sa_uid q, sa_voluntary := sa_voluntary q, sa_involuntary := sa_involuntary q,
     sa_read_bytes := sa_read_bytes q, sa_write_bytes := sa_write_bytes q, sa_io_calls := sa_io_calls q,
     sa_gfx := sa_gfx q, sa_compute := sa_compute q, sa_dec := sa_dec q, sa_enc := sa_enc q, sa_vram := sa_vram q,
     sa_slack := sa_slack q, sa_pss := sa_pss q, sa_rss := sa_rss q, sa_nice := sa_nice q, sa_priority := sa_priority q,
     sa_sockets := sa_sockets q, sa_pinned_fd := sa_pinned_fd q, sa_io_perm := sa_io_perm q\<rparr>"

definition unmoved :: "scanned option \<Rightarrow> scanned \<Rightarrow> bool" where
  "unmoved prev s = (case prev of None \<Rightarrow> False | Some q \<Rightarrow> sa_utime s = sa_utime q \<and> sa_stime s = sa_stime q)"

text \<open>The time since the sample before is below two ticks.\<close>

definition low_delta :: "scanned \<Rightarrow> scanned \<Rightarrow> bool" where
  "low_delta q s \<longleftrightarrow> grown (sa_utime q + sa_stime q) (sa_utime s + sa_stime s) < 2"

definition read_status :: "isa \<Rightarrow> kernel \<Rightarrow> analyzer \<Rightarrow> int \<Rightarrow> scanned \<Rightarrow> scanned io" where
  "read_status i k an p s = do {
     r \<leftarrow> read_to_buf k (pid_path an p ''status'') 2048;
     return_io (case r of None \<Rightarrow> s | Some c \<Rightarrow> parse_proc_status i c s)
   }"

definition fresh_io :: "isa \<Rightarrow> kernel \<Rightarrow> analyzer \<Rightarrow> int \<Rightarrow> scanned \<Rightarrow> scanned io" where
  "fresh_io i k an p s = do {
     r \<leftarrow> read_to_buf k (pid_path an p ''io'') 2048;
     return_io (case r of None \<Rightarrow> s\<lparr>sa_io_perm := False\<rparr> | Some c \<Rightarrow> parse_proc_io i c s)
   }"

definition read_io :: "isa \<Rightarrow> kernel \<Rightarrow> analyzer \<Rightarrow> int \<Rightarrow> scanned option \<Rightarrow> scanned \<Rightarrow> scanned io" where
  "read_io i k an p prev s =
     (case prev of
        None \<Rightarrow> fresh_io i k an p s
      | Some q \<Rightarrow>
          if \<not> sa_io_perm q then return_io (s\<lparr>sa_io_perm := False\<rparr>)
          else if low_delta q s \<and> an_pass an mod 2 = 1
          then return_io (s\<lparr>sa_read_bytes := sa_read_bytes q, sa_write_bytes := sa_write_bytes q,
            sa_io_calls := sa_io_calls q, sa_io_perm := sa_io_perm q\<rparr>)
          else fresh_io i k an p s)"

definition fresh_memory :: "isa \<Rightarrow> kernel \<Rightarrow> analyzer \<Rightarrow> int \<Rightarrow> scanned \<Rightarrow> scanned io" where
  "fresh_memory i k an p s = do {
     r \<leftarrow> read_to_buf k (pid_path an p ''statm'') 2048;
     return_io (case r of None \<Rightarrow> s | Some c \<Rightarrow> snd (parse_proc_statm i c s))
   }"

definition read_memory :: "isa \<Rightarrow> kernel \<Rightarrow> analyzer \<Rightarrow> int \<Rightarrow> scanned option \<Rightarrow> scanned \<Rightarrow> scanned io" where
  "read_memory i k an p prev s =
     (case prev of
        None \<Rightarrow> fresh_memory i k an p s
      | Some q \<Rightarrow> if low_delta q s \<and> an_pass an mod 2 = 0 then return_io (s\<lparr>sa_pss := sa_pss q, sa_rss := sa_rss q\<rparr>)
                  else fresh_memory i k an p s)"

definition fresh_slack :: "kernel \<Rightarrow> analyzer \<Rightarrow> int \<Rightarrow> scanned \<Rightarrow> scanned io" where
  "fresh_slack k an p s = do {
     r \<leftarrow> read_to_buf k (pid_path an p ''timerslack_ns'') 2048;
     return_io (case r of None \<Rightarrow> s
       | Some c \<Rightarrow> (case (from_chars c :: (u64 \<times> string) option) of None \<Rightarrow> s | Some (v, _) \<Rightarrow> s\<lparr>sa_slack := v\<rparr>))
   }"

definition read_slack :: "kernel \<Rightarrow> analyzer \<Rightarrow> int \<Rightarrow> scanned option \<Rightarrow> scanned \<Rightarrow> scanned io" where
  "read_slack k an p prev s =
     (case prev of None \<Rightarrow> fresh_slack k an p s
      | Some q \<Rightarrow> if 0 < sa_slack q then return_io (s\<lparr>sa_slack := sa_slack q\<rparr>) else fresh_slack k an p s)"

definition read_details :: "isa \<Rightarrow> kernel \<Rightarrow> analyzer \<Rightarrow> int \<Rightarrow> scanned option \<Rightarrow> scanned \<Rightarrow> scanned io" where
  "read_details i k an p prev s = do {
     s \<leftarrow> read_status i k an p s;
     s \<leftarrow> read_io i k an p prev s;
     s \<leftarrow> read_memory i k an p prev s;
     s \<leftarrow> read_slack k an p prev s;
     inspect_pid_fds i k an p prev s
   }"

section \<open>The whole scan\<close>

type_synonym scan_state = "analyzer \<times> scanned list"

text \<open>What becomes of a process whose record was read.\<close>

definition take_process :: "isa \<Rightarrow> kernel \<Rightarrow> scanned list option \<Rightarrow> int \<Rightarrow> scanned \<Rightarrow> scan_state \<Rightarrow> scan_state io" where
  "take_process i k prevs p s st =
     (let (an, out) = st
      in if sa_ppid s = 2
         then return_io (an\<lparr>an_kthreads := remember_kthread p (an_kthreads an)\<rparr>, push_proc out s)
         else let prev = (case prevs of None \<Rightarrow> None | Some qs \<Rightarrow> sorted_find sa_pid (sa_pid s) qs)
         in if unmoved prev s then return_io (an, push_proc out (keep_all (the prev) s))
            else do {
              s \<leftarrow> read_details i k an p prev s;
              return_io (an, push_proc out s)
            })"

definition scan_entry :: "isa \<Rightarrow> kernel \<Rightarrow> scanned list option \<Rightarrow> string \<times> entry_type \<Rightarrow> scan_state option \<Rightarrow> scan_state option io" where
  "scan_entry i k prevs e st0 =
     (case st0 of None \<Rightarrow> return_io None
      | Some (an, out) \<Rightarrow>
        let (name, ty) = e; v = digits_val (0 :: int) (fst (span_digits name))
        in if (ty \<noteq> EntryDir \<and> ty \<noteq> EntryUnknown) \<or> \<not> leads_number name then return_io (Some (an, out))
           else if 2 ^ 31 \<le> v then return_io None
           else if snd (span_digits name) \<noteq> [] \<or> sorted_find id v (an_kthreads an) \<noteq> None then return_io (Some (an, out))
           else do {
             r \<leftarrow> read_to_buf k (pid_path an v ''stat'') 2048;
             (case r of None \<Rightarrow> return_io (Some (an, out))
              | Some content \<Rightarrow>
                (case parse_proc_stat i content (scanned_new\<lparr>sa_pid := v\<rparr>) of
                   None \<Rightarrow> return_io None
                 | Some (False, _) \<Rightarrow> return_io (Some (an, out))
                 | Some (True, s) \<Rightarrow> do { st \<leftarrow> take_process i k prevs v s (an, out); return_io (Some st) }))
           })"

fun scan_root :: "isa \<Rightarrow> kernel \<Rightarrow> scanned list option \<Rightarrow> string \<Rightarrow> nat \<Rightarrow> scan_state option \<Rightarrow> scan_state option io" where
  "scan_root i k prevs root_dir 0 st = do { _ \<leftarrow> sys_getdents_end root_dir; return_io st }"
| "scan_root i k prevs root_dir (Suc n) st = do {
     es \<leftarrow> sys_getdents k root_dir;
     if es = [] then return_io st
     else do {
       st \<leftarrow> io_for (\<lambda>_. True) (scan_entry i k prevs) es st;
       scan_root i k prevs root_dir n st
     }
   }"

definition capture_active_processes ::
  "isa \<Rightarrow> kernel \<Rightarrow> scanned list option \<Rightarrow> analyzer \<Rightarrow> (analyzer \<times> scanned list) option io" where
  "capture_active_processes i k prevs an0 =
     (let an = an0\<lparr>an_pass := an_pass an0 + 1\<rparr>
      in do {
        r \<leftarrow> sys_open_dents k (an_root an);
        (case r of None \<Rightarrow> return_io (Some (an, []))
         | Some n \<Rightarrow> do {
             st \<leftarrow> scan_root i k prevs (an_root an) n (Some (an, []));
             return_io (map_option (\<lambda>(an, out). (an, sort_key sa_pid out)) st)
           })
      })"

text \<open>The reading of one process by its number, without what an earlier sample knows; nothing of the program calls it.\<close>

definition plain_io :: "isa \<Rightarrow> kernel \<Rightarrow> analyzer \<Rightarrow> int \<Rightarrow> scanned \<Rightarrow> scanned io" where
  "plain_io i k an p s = do {
     r \<leftarrow> read_to_buf k (pid_path an p ''io'') 2048;
     return_io (case r of None \<Rightarrow> s | Some c \<Rightarrow> parse_proc_io i c s)
   }"

definition read_pid_details :: "isa \<Rightarrow> kernel \<Rightarrow> analyzer \<Rightarrow> int \<Rightarrow> scanned \<Rightarrow> (bool \<times> scanned) option io" where
  "read_pid_details i k an p s = do {
     r \<leftarrow> read_to_buf k (pid_path an p ''stat'') 2048;
     (case r of None \<Rightarrow> return_io (Some (False, s))
      | Some content \<Rightarrow>
        (case parse_proc_stat i content s of
           None \<Rightarrow> return_io None
         | Some (False, s) \<Rightarrow> return_io (Some (False, s))
         | Some (True, s) \<Rightarrow>
             if sa_ppid s = 2 then return_io (Some (True, s))
             else do {
               s \<leftarrow> read_status i k an p s;
               s \<leftarrow> plain_io i k an p s;
               s \<leftarrow> fresh_memory i k an p s;
               return_io (Some (True, s))
             }))
   }"

end
