(* ===== verification/Proc_Scan.thy ===== *)
theory Proc_Scan
  imports Proc_Capture Machines
begin

text \<open>
  What the scan of the processes is sure of: it only reads, its result is ordered by process number as
  the attribution needs it, and what it never reads again.
\<close>

section \<open>Scanning only reads\<close>

definition elsewhere :: "string \<Rightarrow> event \<Rightarrow> bool" where
  "elsewhere d e \<longleftrightarrow> is_read_event e \<and> (case e of EvOpenDir p \<Rightarrow> p \<noteq> d | EvGetDents p _ \<Rightarrow> p \<noteq> d | _ \<Rightarrow> True)"

lemma elsewhere_simps [simp]:
  "elsewhere d (EvReadFile p)" "elsewhere d (EvReadLink p)" "elsewhere d (EvOpenDir p) \<longleftrightarrow> p \<noteq> d"
  "elsewhere d (EvGetDents p es) \<longleftrightarrow> p \<noteq> d"
  by (simp_all add: elsewhere_def)

lemma pid_path_below [simp]: "pid_path an p leaf \<noteq> an_root an"
  by (simp add: pid_path_def)

lemma read_to_buf_ok: "(\<And>c. Q (Some c)) \<Longrightarrow> Q None \<Longrightarrow> io_ok (elsewhere d) (read_to_buf k path n) Q"
  unfolding read_to_buf_def sys_defs
  by (intro io_ok_if io_ok_return io_ok_bind [where R = "\<lambda>_. True"] io_ok_syscall) (auto split: option.split)

lemma emits_read_to_buf [io_specs]: "emits (elsewhere d) (read_to_buf k path n)"
  by (rule read_to_buf_ok) auto

text \<open>The readers keep the number and the parent of a process.\<close>

definition same_process :: "scanned \<Rightarrow> scanned \<Rightarrow> bool" where
  "same_process s t \<longleftrightarrow> sa_pid t = sa_pid s \<and> sa_ppid t = sa_ppid s"

lemma same_refl [simp]: "same_process s s"
  by (simp add: same_process_def)

lemma same_trans: "same_process s t \<Longrightarrow> same_process t u \<Longrightarrow> same_process s u"
  by (simp add: same_process_def)

lemma same_fold: "(\<And>x t. same_process t (f x t)) \<Longrightarrow> same_process s (fold f xs s)"
  by (induction xs arbitrary: s) (auto intro: same_trans)

lemma same_updated: "(\<And>x. same_process s (upd x s)) \<Longrightarrow> same_process s (updated v upd s)"
  by (simp add: updated_def split: option.split)

lemma same_parsers:
  "same_process s (parse_proc_status i c s)" "same_process s (parse_proc_io i c s)"
  "same_process s (snd (parse_drm_fdinfo i c s))" "same_process s (snd (parse_proc_statm i c s))"
proof -
  have "same_process s (status_line i l s)" "same_process s (io_line i l s)" "same_process s (drm_line i l s)" for l s
    unfolding status_line_def io_line_def drm_line_def
    by (simp_all add: same_updated same_process_def updated_def split: option.split)
  then show "same_process s (parse_proc_status i c s)" "same_process s (parse_proc_io i c s)"
    "same_process s (snd (parse_drm_fdinfo i c s))"
    unfolding parse_proc_status_def parse_proc_io_def parse_drm_fdinfo_def by (simp_all add: same_fold)
  show "same_process s (snd (parse_proc_statm i c s))"
    by (simp add: parse_proc_statm_def same_process_def Let_def split: option.split prod.split)
qed

lemma same_drm: "parse_drm_fdinfo i c s = (b, t) \<Longrightarrow> same_process s t"
  using same_parsers(3) [where i = i and c = c and s = s] by simp

lemma scan_fd_ok: "io_ok (elsewhere (an_root an)) (scan_fd i k an p e st) (\<lambda>(_, st'). same_process (fs_sample st) (fs_sample st'))"
  unfolding scan_fd_def Let_def sys_defs
  by (intro io_rules io_ok_bind_any emits_syscall)
    (auto simp: Let_def same_process_def dest!: same_drm intro!: emits_read_to_buf split: option.split prod.split)

lemma scan_fds_ok: "io_ok (elsewhere (an_root an)) (scan_fds i k an p es st) (\<lambda>st'. same_process (fs_sample st) (fs_sample st'))"
proof (induction es arbitrary: st)
  case (Cons e es)
  show ?case unfolding scan_fds.simps
  proof (rule io_ok_bind [OF scan_fd_ok], rule io_ok_prod, rule io_ok_if)
    fix x :: "bool \<times> fd_scan" and b st' assume "case x of (_, st') \<Rightarrow> same_process (fs_sample st) (fs_sample st')" "x = (b, st')"
    then have s: "same_process (fs_sample st) (fs_sample st')" by simp
    then show "io_ok (elsewhere (an_root an)) (return_io st') (\<lambda>st'. same_process (fs_sample st) (fs_sample st'))" by auto
    show "io_ok (elsewhere (an_root an)) (scan_fds i k an p es st') (\<lambda>st'. same_process (fs_sample st) (fs_sample st'))"
      by (rule io_ok_mono [OF Cons]) (auto intro: same_trans [OF s])
  qed
qed auto

lemma scan_portions_ok:
  "io_ok (elsewhere (an_root an)) (scan_portions i k an p n st) (\<lambda>st'. same_process (fs_sample st) (fs_sample st'))"
proof (induction n arbitrary: st)
  case 0
  show ?case unfolding scan_portions.simps sys_defs by (rule io_ok_bind_any) (auto intro!: emits_syscall)
next
  case (Suc n)
  show ?case unfolding scan_portions.simps sys_defs
  proof (rule io_ok_bind_any, rule emits_syscall, simp, rule io_ok_if, rule io_ok_return, simp,
      rule io_ok_bind [OF scan_fds_ok], rule io_ok_if, rule io_ok_return, assumption)
    fix st' :: fd_scan assume s: "same_process (fs_sample st) (fs_sample st')"
    show "io_ok (elsewhere (an_root an)) (scan_portions i k an p n st') (\<lambda>st'. same_process (fs_sample st) (fs_sample st'))"
      by (rule io_ok_mono [OF Suc]) (auto intro: same_trans [OF s])
  qed
qed

lemma scan_directory_ok: "io_ok (elsewhere (an_root an)) (scan_directory i k an p drm s) (same_process s)"
  unfolding scan_directory_def sys_defs
proof (rule io_ok_bind_any, rule emits_syscall, simp, rule io_ok_option, rule io_ok_return, simp)
  fix n
  show "io_ok (elsewhere (an_root an))
      (scan_portions i k an p n \<lparr>fs_sample = s, fs_drm = drm, fs_sockets = 0\<rparr> \<bind> (\<lambda>st.
        let s = (fs_sample st)\<lparr>sa_sockets := ucast (fs_sockets st)\<rparr>
        in return_io (if \<not> fs_drm st \<and> sa_pinned_fd s < 0 then s\<lparr>sa_pinned_fd := - 2\<rparr> else s))) (same_process s)"
    by (rule io_ok_bind [OF scan_portions_ok]) (auto simp: Let_def same_process_def intro!: io_ok_return)
qed

lemma pinned_node_ok: "io_ok (elsewhere (an_root an)) (pinned_node i k an p q s) (\<lambda>(_, t). same_process s t)"
  unfolding pinned_node_def
  by (intro io_ok_if io_ok_bind_any emits_read_to_buf io_ok_return)
    (auto simp: same_process_def Let_def dest!: same_drm split: option.split prod.split)

lemma inspect_ok: "io_ok (elsewhere (an_root an)) (inspect_pid_fds i k an p prev s) (same_process s)"
  unfolding inspect_pid_fds_def
proof (rule io_ok_option, rule io_ok_if, rule io_ok_return, simp add: same_process_def, rule scan_directory_ok,
    rule io_ok_bind [OF pinned_node_ok], rule io_ok_prod, unfold Let_def, rule io_ok_if)
  fix x :: "bool \<times> scanned" and b t q assume "case x of (_, t) \<Rightarrow> same_process s t" "x = (b, t)"
  then have s: "same_process s (t\<lparr>sa_sockets := sa_sockets q\<rparr>)" by (simp add: same_process_def)
  then show "io_ok (elsewhere (an_root an)) (return_io (t\<lparr>sa_sockets := sa_sockets q\<rparr>)) (same_process s)" by (rule io_ok_return)
  show "io_ok (elsewhere (an_root an)) (scan_directory i k an p b (t\<lparr>sa_sockets := sa_sockets q\<rparr>)) (same_process s)"
    by (rule io_ok_mono [OF scan_directory_ok]) (auto intro: same_trans [OF s])
qed

lemma reader_ok:
  "(\<And>c. same_process s (f c)) \<Longrightarrow> same_process s t \<Longrightarrow>
   io_ok (elsewhere d) (do { r \<leftarrow> read_to_buf k path n; return_io (case r of None \<Rightarrow> t | Some c \<Rightarrow> f c) }) (same_process s)"
  by (rule io_ok_bind_any [OF emits_read_to_buf]) (auto intro!: io_ok_return split: option.split)

lemma readers_ok:
  "io_ok (elsewhere d) (read_status i k an p s) (same_process s)" "io_ok (elsewhere d) (read_io i k an p prev s) (same_process s)"
  "io_ok (elsewhere d) (read_memory i k an p prev s) (same_process s)" "io_ok (elsewhere d) (read_slack k an p prev s) (same_process s)"
proof -
  have io: "io_ok (elsewhere d) (fresh_io i k an p s) (same_process s)" unfolding fresh_io_def
    by (rule reader_ok) (simp_all add: same_parsers, simp add: same_process_def)
  have mem: "io_ok (elsewhere d) (fresh_memory i k an p s) (same_process s)" unfolding fresh_memory_def
    by (rule reader_ok) (simp_all add: same_parsers)
  have slack: "io_ok (elsewhere d) (fresh_slack k an p s) (same_process s)" unfolding fresh_slack_def
    by (rule reader_ok) (simp_all add: same_process_def split: option.split)
  show "io_ok (elsewhere d) (read_status i k an p s) (same_process s)" unfolding read_status_def
    by (rule reader_ok) (simp_all add: same_parsers)
  show "io_ok (elsewhere d) (read_io i k an p prev s) (same_process s)" unfolding read_io_def
    by (intro io_ok_option io_ok_if io_ok_return io) (simp_all add: same_process_def)
  show "io_ok (elsewhere d) (read_memory i k an p prev s) (same_process s)" unfolding read_memory_def
    by (intro io_ok_option io_ok_if io_ok_return mem) (simp_all add: same_process_def)
  show "io_ok (elsewhere d) (read_slack k an p prev s) (same_process s)" unfolding read_slack_def
    by (intro io_ok_option io_ok_if io_ok_return slack) (simp_all add: same_process_def)
qed

lemma same_then:
  "io_ok P m (same_process s) \<Longrightarrow> (\<And>t. io_ok P (f t) (same_process t)) \<Longrightarrow> io_ok P (m \<bind> f) (same_process s)"
  by (erule io_ok_bind) (rule io_ok_mono, assumption, auto intro: same_trans)

lemma read_details_ok: "io_ok (elsewhere (an_root an)) (read_details i k an p prev s) (same_process s)"
  unfolding read_details_def
  by (rule same_then [OF readers_ok(1)], rule same_then [OF readers_ok(2)], rule same_then [OF readers_ok(3)],
      rule same_then [OF readers_ok(4)], rule inspect_ok)

section \<open>The table of kernel threads\<close>

definition kthreads_ok :: "analyzer \<Rightarrow> bool" where
  "kthreads_ok an \<longleftrightarrow> sorted_wrt (<) (an_kthreads an) \<and> length (an_kthreads an) \<le> MAX_KTHREADS"

lemma sorted_find_None:
  assumes "sorted_wrt (\<lambda>a b. f a \<le> f b) xs"
  shows "sorted_find f x xs = None \<longleftrightarrow> (\<forall>a \<in> set xs. f a \<noteq> x)"
  using assms
proof (induction xs)
  case (Cons a xs)
  then show ?case by (cases "f a < x") (auto simp: sorted_find_def lower_bound_def)
qed (simp add: sorted_find_def)

lemma insert_at_bound:
  assumes "sorted_wrt (<) ks" "p \<notin> set ks"
  shows "sorted_wrt (<) (take (lower_bound id p ks) ks @ p # drop (lower_bound id p ks) ks)"
  using assms
proof (induction ks)
  case (Cons a ks)
  then show ?case by (cases "a < p") (auto simp: lower_bound_def dest: in_set_takeD in_set_dropD)
qed (simp add: lower_bound_def)

lemma remember_ok: "kthreads_ok an \<Longrightarrow> kthreads_ok (an\<lparr>an_kthreads := remember_kthread p (an_kthreads an)\<rparr>)"
proof -
  assume ok: "kthreads_ok an"
  then have "sorted_wrt (\<lambda>a b. id a \<le> id b) (an_kthreads an)"
    unfolding kthreads_ok_def by (auto elim: sorted_wrt_mono_rel [rotated])
  then show ?thesis
    using ok sorted_find_None [of id "an_kthreads an" p] insert_at_bound [of "an_kthreads an" p]
    by (auto simp: kthreads_ok_def remember_kthread_def)
qed

section \<open>The listing\<close>

definition number_of :: "string \<Rightarrow> int" where
  "number_of name = digits_val (0 :: int) (fst (span_digits name))"

definition names_process :: "string \<Rightarrow> bool" where
  "names_process name \<longleftrightarrow> leads_number name \<and> snd (span_digits name) = []"

lemma show_of_digits:
  assumes "list_all is_digit s" "s \<noteq> []" "hd s \<noteq> CHR ''0''"
  shows "0 < digits_val (0 :: nat) s \<and> show_nat (digits_val 0 s) = s"
  using assms
proof (induction s rule: rev_induct)
  case (snoc c s)
  have c: "is_digit c" using snoc.prems by simp
  then have d: "digit_val c < 10" "digit_char (digit_val c) = c" by (auto simp: digit_char_def digit_val_def is_digit_def)
  show ?case
  proof (cases "s = []")
    case True
    moreover have "byte_of c = 48 \<Longrightarrow> c = CHR ''0''" using of_char_eq_iff [where 'a = nat, of c "CHR ''0''"] by simp
    ultimately have "digit_val c \<noteq> 0" using snoc.prems c by (auto simp: digit_val_def is_digit_def)
    then show ?thesis using True d by (simp add: show_nat.simps [of "digit_val c"])
  next
    case False
    then have s: "0 < digits_val (0 :: nat) s" "show_nat (digits_val 0 s) = s" using snoc by auto
    then show ?thesis using d by (simp add: digits_val_append show_nat.simps [of "digits_val 0 s * 10 + digit_val c"])
  qed
qed simp

lemma name_of_number:
  assumes "names_process name"
  shows "0 < number_of name" "show_int (number_of name) = name"
proof -
  have digits: "list_all is_digit name" "fst (span_digits name) = name"
    using assms by (auto simp: names_process_def span_digits_def dropWhile_eq_Nil_conv list_all_iff)
  moreover have "name \<noteq> []" "hd name \<noteq> CHR ''0''"
    using assms by (auto simp: names_process_def leads_number_def split: list.splits)
  ultimately have "0 < digits_val (0 :: nat) name" "show_nat (digits_val 0 name) = name" using show_of_digits by auto
  then show "0 < number_of name" "show_int (number_of name) = name"
    using digits by (simp_all add: number_of_def digits_val_of_nat show_int_def)
qed

lemma number_of_inj: "names_process a \<Longrightarrow> names_process b \<Longrightarrow> number_of a = number_of b \<Longrightarrow> a = b"
  using name_of_number(2) by metis

text \<open>The record of a process is what the kernel documents, and about that process.\<close>

definition tells_record :: "kernel \<Rightarrow> string \<Rightarrow> bool" where
  "tells_record k root_dir \<longleftrightarrow>
     (\<forall>h p c. k_read_file k h (root_dir @ ''/'' @ show_int p @ ''/stat'') 2047 = Some c \<longrightarrow>
        (\<exists>e g. plausible e g \<and> se_pid e = p \<and> take 2047 c = stat_text e g))"

text \<open>What a directory has listed since it was last opened; it lists no name twice, and no number that is not a process number.\<close>

fun listed :: "string \<Rightarrow> history \<Rightarrow> string list" where
  "listed d [] = []"
| "listed d (EvOpenDir p # h) = (if p = d then [] else listed d h)"
| "listed d (EvGetDents p es # h) = (if p = d then map fst es @ listed d h else listed d h)"
| "listed d (e # h) = listed d h"

definition lists_once :: "kernel \<Rightarrow> string \<Rightarrow> bool" where
  "lists_once k d \<longleftrightarrow>
     (\<forall>h. distinct (listed d h) \<longrightarrow> distinct (map fst (k_getdents k h d) @ listed d h) \<and>
        (\<forall>n \<in> fst ` set (k_getdents k h d). number_of n < 2 ^ 31))"

lemma listed_elsewhere: "elsewhere d e \<Longrightarrow> listed d (e # h) = listed d h"
  by (cases e) auto

section \<open>The invariant of the scan\<close>

definition scan_good :: "string \<Rightarrow> string set \<Rightarrow> scan_state option \<Rightarrow> bool" where
  "scan_good root_dir A st \<longleftrightarrow>
     (case st of None \<Rightarrow> False
      | Some (an, out) \<Rightarrow> an_root an = root_dir \<and> kthreads_ok an \<and> length out \<le> MAX_PROCS \<and> distinct (map sa_pid out) \<and>
          sa_pid ` set out \<subseteq> number_of ` {n \<in> A. names_process n})"

lemma scan_good_None [simp]: "\<not> scan_good d A None"
  by (simp add: scan_good_def)

lemma scan_good_mono: "scan_good d A st \<Longrightarrow> A \<subseteq> B \<Longrightarrow> scan_good d B st"
  unfolding scan_good_def by (cases st) (auto simp del: subset_image_iff elim!: subset_trans [OF _ image_mono])

lemma scan_good_push:
  assumes "scan_good d A (Some (an, out))" "n \<notin> A" "names_process n" "sa_pid s = number_of n" "kthreads_ok an'" "an_root an' = d"
  shows "scan_good d (insert n A) (Some (an', push_proc out s))"
proof -
  have out: "sa_pid ` set out \<subseteq> number_of ` {n \<in> A. names_process n}" "distinct (map sa_pid out)" "length out \<le> MAX_PROCS"
    using assms(1) by (auto simp: scan_good_def)
  have "number_of n \<notin> number_of ` {n \<in> A. names_process n}" using assms(2,3) number_of_inj by auto
  then have "sa_pid s \<notin> sa_pid ` set out" using out(1) assms(4) by auto
  then show ?thesis using out assms(3-6) by (auto simp: scan_good_def push_proc_def)
qed

lemma take_process_ok:
  assumes good: "scan_good d A (Some (an, out))" and n: "n \<notin> A" "names_process n" "sa_pid s = number_of n"
  shows "io_ok (elsewhere d) (take_process i k prevs p s (an, out)) (\<lambda>st. scan_good d (insert n A) (Some st))"
proof -
  have an: "kthreads_ok an" "an_root an = d" using good by (simp_all add: scan_good_def)
  note push = scan_good_push [OF good n(1,2)]
  have keep: "sa_pid (keep_all q s) = number_of n" for q using n(3) by (simp add: keep_all_def)
  have read: "io_ok (elsewhere d) (read_details i k an p prev s) (same_process s)" for prev using read_details_ok [of an i k p prev s] an(2) by simp
  show ?thesis
    unfolding take_process_def prod.case Let_def
    by (intro io_ok_if io_ok_return push n(3) keep an io_ok_bind [OF read])
      (use an n(3) in \<open>auto intro: push remember_ok simp: same_process_def\<close>)
qed

lemma scan_entry_ok:
  assumes good: "scan_good d A st0" and n: "fst e \<notin> A" "number_of (fst e) < 2 ^ 31" and tells: "tells_record k d"
  shows "io_ok (elsewhere d) (scan_entry i k prevs e st0) (scan_good d (insert (fst e) A))"
proof -
  obtain an out name ty where st: "st0 = Some (an, out)" "e = (name, ty)" using good by (metis prod.exhaust option.exhaust scan_good_None)
  have keep: "scan_good d (insert name A) (Some (an, out))" by (rule scan_good_mono [OF good [unfolded st]]) auto
  have an: "an_root an = d" using good st by (simp add: scan_good_def)
  let ?v = "digits_val (0 :: int) (fst (span_digits name))"
  have v: "?v = number_of name" "\<not> 2 ^ 31 \<le> ?v" using n(2) st by (simp_all add: number_of_def)
  show ?thesis
    unfolding scan_entry_def st option.case prod.case Let_def fst_conv
  proof (rule io_ok_if, rule io_ok_return, rule keep, rule io_ok_if)
    show "2 ^ 31 \<le> ?v \<Longrightarrow> io_ok (elsewhere d) (return_io None) (scan_good d (insert name A))" using v(2) by blast
  next
    assume a: "\<not> (ty \<noteq> EntryDir \<and> ty \<noteq> EntryUnknown \<or> \<not> leads_number name)"
    define about where "about r \<longleftrightarrow> (case r of None \<Rightarrow> True | Some c \<Rightarrow> \<exists>e g. plausible e g \<and> se_pid e = ?v \<and> c = stat_text e g)" for r
    have content: "io_ok (elsewhere d) (read_to_buf k (pid_path an ?v ''stat'') 2048) about"
      unfolding read_to_buf_def sys_read_file_def
      by (simp, rule io_ok_bind [where R = about], rule io_ok_syscall)
        (use tells an in \<open>auto simp: about_def tells_record_def pid_path_def intro!: io_ok_return split: option.split\<close>)
    show "io_ok (elsewhere d) (if snd (span_digits name) \<noteq> [] \<or> sorted_find id ?v (an_kthreads an) \<noteq> None
        then return_io (Some (an, out))
        else read_to_buf k (pid_path an ?v ''stat'') 2048 \<bind> (\<lambda>r. case r of None \<Rightarrow> return_io (Some (an, out))
        | Some content \<Rightarrow> (case parse_proc_stat i content (scanned_new\<lparr>sa_pid := ?v\<rparr>) of None \<Rightarrow> return_io None
          | Some (True, s) \<Rightarrow> take_process i k prevs ?v s (an, out) \<bind> (\<lambda>st. return_io (Some st))
          | Some (False, _) \<Rightarrow> return_io (Some (an, out)))))
        (scan_good d (insert name A))"
    proof (rule io_ok_if, rule io_ok_return, rule keep, rule io_ok_bind [OF content], rule io_ok_option, rule io_ok_return, rule keep)
      fix r c assume c: "about r" "r = Some c" and digits: "\<not> (snd (span_digits name) \<noteq> [] \<or> sorted_find id ?v (an_kthreads an) \<noteq> None)"
      have name: "names_process name" using a digits by (simp add: names_process_def)
      obtain en g where en: "plausible en g" "se_pid en = ?v" "c = stat_text en g" using c by (auto simp: about_def)
      let ?s = "filled en (scanned_new\<lparr>sa_pid := ?v\<rparr>)"
      have "sa_pid ?s = number_of name" using en(2) v(1) by (simp add: filled_def)
      then have "io_ok (elsewhere d) (take_process i k prevs ?v ?s (an, out)) (\<lambda>st. scan_good d (insert name A) (Some st))"
        by (rule take_process_ok [OF good [unfolded st] _ name, rotated]) (use n st in simp)
      then show "io_ok (elsewhere d) (case parse_proc_stat i c (scanned_new\<lparr>sa_pid := ?v\<rparr>) of None \<Rightarrow> return_io None
          | Some (True, s) \<Rightarrow> take_process i k prevs ?v s (an, out) \<bind> (\<lambda>st. return_io (Some st))
          | Some (False, _) \<Rightarrow> return_io (Some (an, out))) (scan_good d (insert name A))"
        unfolding en(3) stat_text_parsed [OF en(1)] option.case prod.case bool.case
        by (rule io_ok_bind) (rule io_ok_return)
    qed
  qed
qed

lemma scan_entries_ok:
  assumes "scan_good d A st" "distinct (map fst es)" "fst ` set es \<inter> A = {}" "tells_record k d" "\<forall>n \<in> fst ` set es. number_of n < 2 ^ 31"
  shows "io_ok (elsewhere d) (io_for (\<lambda>_. True) (scan_entry i k prevs) es st) (scan_good d (fst ` set es \<union> A))"
  using assms
proof (induction es arbitrary: A st)
  case (Cons e es)
  have step: "io_ok (elsewhere d) (scan_entry i k prevs e st) (scan_good d (insert (fst e) A))"
    by (rule scan_entry_ok) (use Cons.prems in auto)
  have rest: "io_ok (elsewhere d) (io_for (\<lambda>_. True) (scan_entry i k prevs) es st') (scan_good d (fst ` set es \<union> insert (fst e) A))"
    if "scan_good d (insert (fst e) A) st'" for st'
    using Cons.prems by (intro Cons.IH that) auto
  show ?case using io_ok_bind [OF step rest] by simp
qed (simp add: io_ok_return)

lemma scan_root_ok:
  assumes "lists_once k d" "tells_record k d" "distinct (listed d h)" "scan_good d (set (listed d h)) st"
  shows "wp (scan_root i k prevs d n st) (\<lambda>st h'. scan_good d (set (listed d h')) st) h"
  using assms(3,4)
proof (induction n arbitrary: st h)
  case 0
  then show ?case by (simp add: sys_getdents_end_def wp_simps)
next
  case (Suc n)
  let ?es = "k_getdents k h d"
  let ?h = "EvGetDents d ?es # h"
  have once: "distinct (map fst ?es @ listed d h)" "\<forall>n \<in> fst ` set ?es. number_of n < 2 ^ 31" using assms(1) Suc.prems(1) unfolding lists_once_def by blast+
  have entries: "io_ok (elsewhere d) (io_for (\<lambda>_. True) (scan_entry i k prevs) ?es st) (scan_good d (set (listed d ?h)))"
    using scan_entries_ok [OF Suc.prems(2) _ _ assms(2) once(2)] once(1) by auto
  have "wp (io_for (\<lambda>_. True) (scan_entry i k prevs) ?es st)
      (\<lambda>st h'. scan_good d (set (listed d ?h)) st \<and> listed d h' = listed d ?h) ?h"
    by (rule wp_emits [OF entries]) (simp_all add: listed_elsewhere)
  then have loop: "wp (io_for (\<lambda>_. True) (scan_entry i k prevs) ?es st \<bind> (\<lambda>st. scan_root i k prevs d n st))
      (\<lambda>st h'. scan_good d (set (listed d h')) st) ?h"
    by (rule wp_then) (use once in \<open>simp add: Suc.IH\<close>)
  show ?case unfolding scan_root.simps sys_getdents_def wp_bind wp_syscall
    by (rule wp_ifI) (use Suc.prems loop in \<open>simp_all add: wp_return\<close>)
qed

text \<open>What a scan hands on: ordered by number, within the capacity, with the table of kernel threads in order.\<close>

definition sample_ready :: "string \<Rightarrow> (analyzer \<times> scanned list) option \<Rightarrow> bool" where
  "sample_ready d r \<longleftrightarrow>
     (case r of None \<Rightarrow> False
      | Some (an, out) \<Rightarrow> an_root an = d \<and> by_pid (map psample.truncate out) \<and> length out \<le> MAX_PROCS \<and> kthreads_ok an)"

lemma by_pid_truncate: "by_pid (map psample.truncate out) \<longleftrightarrow> sorted_wrt (<) (map sa_pid out)"
  by (simp add: by_pid_def comp_def psample.truncate_def)

lemma sort_ready:
  assumes "scan_good d A st"
  shows "sample_ready d (map_option (\<lambda>(an, out). (an, sort_key sa_pid out)) st)"
proof (cases st)
  case (Some s)
  obtain an out where s: "s = (an, out)" by (cases s)
  then have "distinct (map sa_pid (sort_key sa_pid out))"
    using assms Some by (auto simp: scan_good_def distinct_map)
  then have "sorted_wrt (<) (map sa_pid (sort_key sa_pid out))" by (simp add: strict_sorted_iff)
  then show ?thesis using assms Some s by (simp add: sample_ready_def by_pid_truncate scan_good_def)
qed (use assms in simp)

lemma capture_ready:
  assumes "lists_once k (an_root an)" "tells_record k (an_root an)" "kthreads_ok an"
  shows "wp (capture_active_processes i k prevs an) (\<lambda>r _. sample_ready (an_root an) r) h"
proof -
  let ?an = "an\<lparr>an_pass := an_pass an + 1\<rparr>"
  have start: "scan_good (an_root an) {} (Some (?an, []))"
    using assms(3) by (simp add: scan_good_def kthreads_ok_def)
  have scan: "wp (scan_root i k prevs (an_root an) n (Some (?an, []))) (\<lambda>st _. \<exists>A. scan_good (an_root an) A st)
      (EvOpenDir (an_root an) # h)" for n
    by (rule wp_mono [OF scan_root_ok [OF assms(1,2)]]) (use start in auto)
  have tail: "wp (scan_root i k prevs (an_root an) n (Some (?an, [])) \<bind>
      (\<lambda>st. return_io (map_option (\<lambda>(an, out). (an, sort_key sa_pid out)) st))) (\<lambda>r _. sample_ready (an_root an) r) (EvOpenDir (an_root an) # h)" for n
    by (rule wp_then [OF scan]) (auto simp: wp_return intro: sort_ready)
  have none: "sample_ready (an_root an) (Some (?an, []))" using assms(3) by (simp add: sample_ready_def kthreads_ok_def)
  show ?thesis
    unfolding capture_active_processes_def Let_def sys_open_dents_def wp_bind wp_syscall
    by (cases "k_open_dents k h (an_root an)") (use none tail in \<open>simp_all add: wp_return wp_bind\<close>)
qed

lemma emits_bool: "emits P m \<Longrightarrow> emits P n \<Longrightarrow> emits P (case b of True \<Rightarrow> m | False \<Rightarrow> n)"
  by (cases b) auto

lemma reads_elsewhere: "io_ok (elsewhere d) m Q \<Longrightarrow> emits is_read_event m"
  by (erule io_ok_mono) (auto simp: elsewhere_def)

lemma capture_reads: "emits is_read_event (capture_active_processes i k prevs an)"
proof -
  have take: "emits is_read_event (take_process i k prevs p s st)" for p s st
    unfolding take_process_def Let_def by (intro io_rules reads_elsewhere [OF read_details_ok]) auto
  have entry: "emits is_read_event (scan_entry i k prevs e st)" for e st
    unfolding scan_entry_def Let_def
  proof (cases st)
    case (Some x)
    show "emits is_read_event (case st of None \<Rightarrow> return_io None | Some (an, out) \<Rightarrow> case e of (name, ty) \<Rightarrow>
        if (ty \<noteq> EntryDir \<and> ty \<noteq> EntryUnknown) \<or> \<not> leads_number name then return_io (Some (an, out))
        else if 2 ^ 31 \<le> digits_val (0 :: int) (fst (span_digits name)) then return_io None
        else if snd (span_digits name) \<noteq> [] \<or> sorted_find id (digits_val (0 :: int) (fst (span_digits name))) (an_kthreads an) \<noteq> None
        then return_io (Some (an, out))
        else read_to_buf k (pid_path an (digits_val (0 :: int) (fst (span_digits name))) ''stat'') 2048 \<bind> (\<lambda>r. case r of
            None \<Rightarrow> return_io (Some (an, out))
          | Some content \<Rightarrow> (case parse_proc_stat i content (scanned_new\<lparr>sa_pid := digits_val (0 :: int) (fst (span_digits name))\<rparr>) of
              None \<Rightarrow> return_io None
            | Some (True, s) \<Rightarrow> take_process i k prevs (digits_val (0 :: int) (fst (span_digits name))) s (an, out) \<bind>
                (\<lambda>st. return_io (Some st))
            | Some (False, _) \<Rightarrow> return_io (Some (an, out)))))"
      by (intro io_rules reads_elsewhere [OF emits_read_to_buf] emits_bool take) auto
  qed (auto intro!: io_rules)
  have "emits is_read_event (scan_root i k prevs d n st)" for d n st
    by (induction n arbitrary: st) (auto intro!: io_rules entry simp: sys_defs)
  then show ?thesis unfolding capture_active_processes_def Let_def sys_open_dents_def by (auto intro!: io_rules)
qed

section \<open>From the scan to the attribution\<close>

text \<open>Two scans, the second with the first as its memory, as the daemon makes them.\<close>

definition two_captures :: "isa \<Rightarrow> kernel \<Rightarrow> analyzer \<Rightarrow> (scanned list \<times> scanned list) option io" where
  "two_captures i k an = do {
     r1 \<leftarrow> capture_active_processes i k None an;
     (case r1 of None \<Rightarrow> return_io None
      | Some (an1, out1) \<Rightarrow> do {
          r2 \<leftarrow> capture_active_processes i k (Some out1) an1;
          return_io (map_option (\<lambda>(an2, out2). (out1, out2)) r2)
        })
   }"

definition lookup_sweep :: "psample list \<Rightarrow> psample list \<Rightarrow> sweep" where
  "lookup_sweep ps qs =
    \<lparr>sw_deltas = map (\<lambda>(p, q). delta_of p q) (common_pairs ps qs),
     sw_cpu = sum_list (map (\<lambda>(p, q). grown (cpu_ticks p) (cpu_ticks q)) (common_pairs ps qs)),
     sw_gpu = sum_list (map (\<lambda>(p, q). grown (gpu_time p) (gpu_time q)) (common_pairs ps qs)),
     sw_wakeups = sum_list (map (\<lambda>(p, q). grown (switches p) (switches q)) (common_pairs ps qs))\<rparr>"

lemma sweep_is_lookup:
  assumes "by_pid ps" "by_pid qs" "length qs \<le> MAX_PROCS"
  shows "two_pointer ps qs sweep_new = lookup_sweep ps qs"
proof -
  have "length (common_pairs ps qs) \<le> length qs" by (induction qs) (auto simp: common_pairs_simps split: option.split)
  then show ?thesis
    using sweep_fold [of "common_pairs ps qs" "[]" 0 0 0] assms(3)
    by (simp add: two_pointer_fold [OF assms(1,2)] sweep_new_def lookup_sweep_def)
qed

text \<open>C29. What two scans hand to the attribution is what its sweep needs.  On a system that lists no process twice
  and whose records begin with the number of their process, both samples are strictly ordered by number,
  and the two-pointer sweep over them charges exactly the processes that are in both, each with its own
  difference, and loses none.
\<close>

theorem scans_feed_attribution:
  assumes "lists_once k (an_root an)" "tells_record k (an_root an)" "kthreads_ok an"
  shows "wp (two_captures i k an)
    (\<lambda>r _. case r of None \<Rightarrow> False
       | Some (out1, out2) \<Rightarrow>
           let ps = map psample.truncate out1; qs = map psample.truncate out2
           in by_pid ps \<and> by_pid qs \<and> two_pointer ps qs sweep_new = lookup_sweep ps qs) h"
  unfolding two_captures_def
proof (rule wp_then [OF capture_ready [OF assms]])
  fix r1 h1 assume r1: "sample_ready (an_root an) r1"
  show "wp (case r1 of None \<Rightarrow> return_io None
      | Some (an1, out1) \<Rightarrow> capture_active_processes i k (Some out1) an1 \<bind>
          (\<lambda>r2. return_io (map_option (\<lambda>(an2, out2). (out1, out2)) r2)))
    (\<lambda>r _. case r of None \<Rightarrow> False
       | Some (out1, out2) \<Rightarrow>
           let ps = map psample.truncate out1; qs = map psample.truncate out2
           in by_pid ps \<and> by_pid qs \<and> two_pointer ps qs sweep_new = lookup_sweep ps qs) h1"
  proof (cases r1)
    case (Some s)
    obtain an1 out1 where s: "s = (an1, out1)" by (cases s)
    then have one: "an_root an1 = an_root an" "by_pid (map psample.truncate out1)" "kthreads_ok an1"
      using r1 Some by (simp_all add: sample_ready_def)
    have "wp (capture_active_processes i k (Some out1) an1) (\<lambda>r _. sample_ready (an_root an1) r) h1"
      by (rule capture_ready) (use assms one in simp_all)
    then show ?thesis
      unfolding Some s option.case prod.case
      by (rule wp_then) (use one sweep_is_lookup in \<open>auto simp: wp_return sample_ready_def Let_def split: option.splits\<close>)
  qed (use r1 in \<open>simp add: sample_ready_def\<close>)
qed

lemma digit_chars: "char_of (48 :: nat) = CHR ''0''" "char_of (49 :: nat) = CHR ''1''" "char_of (50 :: nat) = CHR ''2''"
  "char_of (52 :: nat) = CHR ''4''" "char_of (55 :: nat) = CHR ''7''"
  by code_simp+

definition one_process_kernel :: kernel where
  "one_process_kernel = quiet_kernel\<lparr>
     k_open_dents := (\<lambda>_ d. if d = ''/proc'' then Some 1 else None),
     k_getdents := (\<lambda>h d. if d = ''/proc'' \<and> listed d h = [] then [(''4021'', EntryDir), (''meminfo'', EntryRegular)] else []),
     k_read_file := (\<lambda>_ p _. if p = ''/proc/4021/stat'' then Some (stat_text example_entry example_gaps) else None)\<rparr>"

lemma four_digits: "show_int 4021 = ''4021''"
  by (simp add: show_int_def show_nat.simps digit_char_def digit_chars)

lemma show_int_4021: "show_int p = ''4021'' \<Longrightarrow> p = 4021"
proof -
  assume "show_int p = ''4021''"
  then have "show_int p = show_nat 4021" by (simp add: show_nat.simps digit_char_def digit_chars)
  moreover have "CHR ''-'' \<notin> set (show_nat 4021)" by (simp add: show_nat.simps digit_char_def digit_chars)
  ultimately have "\<not> p < 0" by (metis list.set_intros(1) show_int_def)
  then have "0 \<le> p" "show_nat (nat p) = show_nat 4021" using \<open>show_int p = show_nat 4021\<close> by (simp_all add: show_int_def)
  then show "p = 4021" by (metis digits_val_show_nat nat_int nat_eq_iff2 of_nat_numeral)
qed

lemma example_plausible: "plausible example_entry example_gaps"
  by (simp add: plausible_def example_entry_def example_gaps_def is_i32_def is_low_def token_def numeral_eq_Suc)

lemma length_spaced: "length (words_line ts) = (\<Sum>t \<leftarrow> ts. length t + 1)"
  by (induction ts rule: words_line.induct) auto

lemma example_text_short: "length (stat_text example_entry example_gaps) \<le> 2047"
  by code_simp

lemma number_small: "number_of ''4021'' < 2 ^ 31" "number_of ''meminfo'' < 2 ^ 31"
  by (simp_all add: number_of_def span_digits_def is_digit_def digit_val_def)

lemma one_process_tells: "tells_record one_process_kernel ''/proc''"
proof -
  have num: "p = 4021" if "''/proc'' @ ''/'' @ show_int p @ ''/stat'' = ''/proc/4021/stat''" for p
  proof -
    have "show_int p @ ''/stat'' = ''4021'' @ ''/stat''" using that by simp
    then show "p = 4021" by (intro show_int_4021) (simp only: append_same_eq)
  qed
  have "take 2047 (stat_text example_entry example_gaps) = stat_text example_entry example_gaps"
    using example_text_short by simp
  moreover have "se_pid example_entry = 4021" by (simp add: example_entry_def)
  ultimately show ?thesis
    using num example_plausible by (fastforce simp: tells_record_def one_process_kernel_def split: if_splits)
qed

theorem scans_feed_attribution_witness:
  "wp (two_captures \<lparr>has_avx2 = True, has_bmi2 = True\<rparr> one_process_kernel (analyzer_new ''/proc''))
    (\<lambda>r _. case r of None \<Rightarrow> False
       | Some (out1, out2) \<Rightarrow>
           let ps = map psample.truncate out1; qs = map psample.truncate out2
           in by_pid ps \<and> by_pid qs \<and> two_pointer ps qs sweep_new = lookup_sweep ps qs) []"
proof (rule scans_feed_attribution)
  show "lists_once one_process_kernel (an_root (analyzer_new ''/proc''))"
    by (auto simp: lists_once_def one_process_kernel_def analyzer_new_def number_small [simplified] split: if_splits)
  show "tells_record one_process_kernel (an_root (analyzer_new ''/proc''))"
    using one_process_tells by (simp add: analyzer_new_def)
  show "kthreads_ok (analyzer_new ''/proc'')" by (simp add: kthreads_ok_def analyzer_new_def)
qed

section \<open>What is never read again\<close>

lemma starts_with_front: "starts_with s (p @ q) \<Longrightarrow> starts_with s p"
proof -
  assume "starts_with s (p @ q)"
  then have "take (length p) (take (length p + length q) s) = p" by (simp add: starts_with_def)
  then show ?thesis by (simp add: starts_with_def)
qed

text \<open>A descriptor that once belonged to the graphics driver is never checked again.  As long as the record of
  the descriptor can be read, whatever it is now, the scan keeps it as the graphics node of the process:
  when no line of it is about the driver, the process is credited with no graphics time and its other
  descriptors are not searched for a node.
\<close>

theorem pinned_descriptor_never_checked:
  assumes "0 \<le> sa_pinned_fd q"
    and "\<forall>h. k_read_file k h (pid_path an p (''fdinfo/'' @ show_int (sa_pinned_fd q))) 2047 = Some content"
    and "content \<noteq> []" "\<forall>l \<in> set (lines_of (take 2047 content)). \<not> starts_with l ''drm-''"
  shows "yields (pinned_node i k an p q s) (\<lambda>r. r = (True, s\<lparr>sa_pinned_fd := sa_pinned_fd q\<rparr>))"
proof -
  have no: "drm_line i l t = t" if "\<not> starts_with l ''drm-''" for l t
  proof -
    have "\<not> starts_with l (''drm-'' @ u)" for u using that starts_with_front by blast
    from this [of "''engine-gfx:''"] this [of "''engine-compute:''"] this [of "''engine-dec:''"] this [of "''engine-enc:''"]
      this [of "''memory-vram:''"] this [of "''resident-vram:''"]
    show ?thesis unfolding drm_line_def append.simps by presburger
  qed
  have "fold (drm_line i) ls t = t" if "\<forall>l \<in> set ls. \<not> starts_with l ''drm-''" for ls t
    using that no by (induction ls) auto
  then have "parse_drm_fdinfo i (take 2047 content) s = (True, s)" using assms(4) by (simp add: parse_drm_fdinfo_def)
  then show ?thesis
    using assms(1-3) by (simp add: yields_def pinned_node_def read_to_buf_def sys_read_file_def)
qed

definition reused_descriptor_kernel :: kernel where
  "reused_descriptor_kernel = quiet_kernel\<lparr>k_read_file := (\<lambda>_ p _. if p = ''/proc/4021/fdinfo/17'' then Some ''pos: 0'' else None)\<rparr>"

theorem pinned_descriptor_never_checked_witness:
  "yields (pinned_node \<lparr>has_avx2 = True, has_bmi2 = True\<rparr> reused_descriptor_kernel (analyzer_new ''/proc'') 4021
      (scanned_new\<lparr>sa_pinned_fd := 17\<rparr>) scanned_new)
    (\<lambda>r. r = (True, scanned_new\<lparr>sa_pinned_fd := sa_pinned_fd (scanned_new\<lparr>sa_pinned_fd := 17\<rparr>)\<rparr>))"
proof (rule pinned_descriptor_never_checked)
  show "\<forall>h. k_read_file reused_descriptor_kernel h (pid_path (analyzer_new ''/proc'') 4021
      (''fdinfo/'' @ show_int (sa_pinned_fd (scanned_new\<lparr>sa_pinned_fd := 17\<rparr>)))) 2047 = Some ''pos: 0''"
    by (simp add: reused_descriptor_kernel_def pid_path_def analyzer_new_def show_int_def show_nat.simps digit_char_def digit_chars)
  show "\<forall>l \<in> set (lines_of (take 2047 ''pos: 0'')). \<not> starts_with l ''drm-''"
    by (simp add: lines_of.simps take_line_def drop_line_def starts_with_def)
qed simp_all

text \<open>
  The slack of the timers, likewise: after the first scan it is the slack of the sample before.
\<close>

lemma slack_never_refreshed: "0 < sa_slack q \<Longrightarrow> read_slack k an p (Some q) s = return_io (s\<lparr>sa_slack := sa_slack q\<rparr>)"
  by (simp add: read_slack_def)

end
