(* ===== verification/Hw_Parse.thy ===== *)
theory Hw_Parse
  imports Proc_Parse Attribution_Power
begin

text \<open>
  Readers of the hardware probe (\<^verbatim>\<open>src/hw/hardware_probe.cpp\<close>): numbers and texts of small files, the battery's
  record, the link status of a PCI device, the statistics of a disk.
\<close>

section \<open>The sample\<close>

text \<open>
  A whole sample of the hardware (\<^verbatim>\<open>src/core/types.hpp\<close>); its first part is what the attribution reads.
\<close>

record peripheral_battery =
  pe_name :: string
  pe_capacity :: u32
  pe_charging :: bool

record probed = hw_sample +
  hx_voltage_min_uv :: "u64 option"
  hx_cycle_count :: "u32 option"
  hx_level :: string
  hx_technology :: string
  hx_model :: string
  hx_manufacturer :: string
  hx_serial :: string
  hx_charge_start :: "u32 option"
  hx_behaviour :: string
  hx_usbc_vmax_uv :: "u64 option"
  hx_usbc_cmax_ua :: "u64 option"
  hx_usbc_type :: string
  hx_usbc_online :: bool
  hx_peripherals :: "peripheral_battery list"
  hx_rapl_core_uj :: "u64 option"
  hx_rapl_dram_uj :: "u64 option"
  hx_governor :: string
  hx_gpu_label :: string
  hx_vddgfx_mv :: "u32 option"
  hx_vddsoc_mv :: "u32 option"
  hx_vram_total :: "u64 option"
  hx_link_speed :: string
  hx_link_width :: "u32 option"
  hx_nvme_sensor1_mdeg :: "int option"
  hx_io_ticks_ms :: u64
  hx_fan_pwm :: "u32 option"
  hx_chassis_mdeg :: "int option"
  hx_kbdlight :: "u32 option"
  hx_bluetooth :: "bool option"
  hx_wifi_active :: bool
  hx_wifi_temp_mdeg :: "int option"
  hx_energy_proxy :: float64
  hx_waste_ratio :: float64
  hx_core_vid_mv :: "u32 option"
  hx_link_gen :: u8
  hx_link_lanes :: u8

definition probed_new :: probed where
  "probed_new = hw_sample.extend hw_sample_new
     \<lparr>hx_voltage_min_uv = None, hx_cycle_count = None, hx_level = [], hx_technology = [], hx_model = [], hx_manufacturer = [],
      hx_serial = [], hx_charge_start = None, hx_behaviour = [], hx_usbc_vmax_uv = None, hx_usbc_cmax_ua = None,
      hx_usbc_type = [], hx_usbc_online = False, hx_peripherals = [], hx_rapl_core_uj = None, hx_rapl_dram_uj = None,
      hx_governor = [], hx_gpu_label = [], hx_vddgfx_mv = None, hx_vddsoc_mv = None, hx_vram_total = None, hx_link_speed = [],
      hx_link_width = None, hx_nvme_sensor1_mdeg = None, hx_io_ticks_ms = 0, hx_fan_pwm = None, hx_chassis_mdeg = None,
      hx_kbdlight = None, hx_bluetooth = None, hx_wifi_active = False, hx_wifi_temp_mdeg = None, hx_energy_proxy = Fin 0,
      hx_waste_ratio = Fin 0, hx_core_vid_mv = None, hx_link_gen = 0, hx_link_lanes = 0\<rparr>"

section \<open>Numbers\<close>

text \<open>\<open>std::from_chars\<close> for a signed type of \<open>w\<close> bits; it takes no plus sign.\<close>

definition from_chars_signed :: "nat \<Rightarrow> string \<Rightarrow> int option" where
  "from_chars_signed w s =
     (let neg = starts_with s ''-''; (d, r) = span_digits (if neg then tl s else s); v = digits_val (0 :: int) d;
          z = (if neg then - v else v)
      in if d = [] \<or> z < - (2 ^ (w - 1)) \<or> 2 ^ (w - 1) \<le> z then None else Some z)"

definition from_chars_value :: "string \<Rightarrow> 'a::len word option" where
  "from_chars_value s = map_option fst (from_chars s)"

definition skip_leading :: "string \<Rightarrow> string" where
  "skip_leading s = dropWhile (\<lambda>c. c = CHR '' '' \<or> c = TAB \<or> c = NL) s"

definition trim_sv :: "string \<Rightarrow> string" where
  "trim_sv s =
     (let ws = (\<lambda>c. c = CHR '' '' \<or> c = TAB \<or> c = CR \<or> c = NL)
      in rev (dropWhile ws (rev (dropWhile ws s))))"

text \<open>Assignment to a \<open>FixedString<n>\<close>, as the text it then holds.\<close>

definition fixed_text :: "nat \<Rightarrow> string \<Rightarrow> string" where
  "fixed_text n s = take (n - 1) s"

section \<open>The battery's record\<close>

text \<open>
  The magnitude of a current; for the least 64-bit value, whose negation is undefined, the wrapped one.
\<close>

definition magnitude :: "int \<Rightarrow> u64" where
  "magnitude i = of_int (if i < 0 then - i else i)"

definition power_of :: "u64 \<Rightarrow> int \<Rightarrow> u64" where
  "power_of v i = (v * magnitude i) div 1000000"

definition uevent_value :: "string \<Rightarrow> probed \<Rightarrow> probed" where
  "uevent_value kv s =
     (if starts_with kv ''STATUS='' then s\<lparr>hs_discharging := (trim_sv (drop 7 kv) = ''Discharging'')\<rparr>
      else if starts_with kv ''SERIAL_NUMBER='' then s\<lparr>hx_serial := fixed_text 24 (trim_sv (drop 14 kv))\<rparr>
      else if starts_with kv ''VOLTAGE_NOW=''
      then updated (from_chars_value (drop 12 kv)) (\<lambda>v s. s\<lparr>hs_voltage_uv := Some v\<rparr>) s
      else if starts_with kv ''VOLTAGE_MIN_DESIGN=''
      then updated (from_chars_value (drop 19 kv)) (\<lambda>v s. s\<lparr>hx_voltage_min_uv := Some v\<rparr>) s
      else if starts_with kv ''CURRENT_NOW=''
      then updated (from_chars_signed 64 (drop 12 kv)) (\<lambda>v s. s\<lparr>hs_current_ua := Some v\<rparr>) s
      else if starts_with kv ''CAPACITY=''
      then updated (from_chars_value (drop 9 kv)) (\<lambda>v s. s\<lparr>hs_capacity_percent := Some v\<rparr>) s
      else if starts_with kv ''CAPACITY_LEVEL='' then s\<lparr>hx_level := fixed_text 16 (trim_sv (drop 15 kv))\<rparr>
      else if starts_with kv ''CYCLE_COUNT=''
      then updated (from_chars_value (drop 12 kv)) (\<lambda>v s. s\<lparr>hx_cycle_count := Some v\<rparr>) s
      else if starts_with kv ''POWER_NOW=''
      then updated (from_chars_value (drop 10 kv)) (\<lambda>v s. s\<lparr>hs_power_uw := Some v\<rparr>) s
      else if starts_with kv ''ENERGY_NOW=''
      then updated (from_chars_value (drop 11 kv)) (\<lambda>v s. s\<lparr>hs_energy_now_uwh := Some v\<rparr>) s
      else if starts_with kv ''ENERGY_FULL=''
      then updated (from_chars_value (drop 12 kv)) (\<lambda>v s. s\<lparr>hs_energy_full_uwh := Some v\<rparr>) s
      else if starts_with kv ''ENERGY_FULL_DESIGN=''
      then updated (from_chars_value (drop 19 kv)) (\<lambda>v s. s\<lparr>hs_energy_design_uwh := Some v\<rparr>) s
      else if starts_with kv ''MODEL_NAME='' then s\<lparr>hx_model := fixed_text 32 (trim_sv (drop 11 kv))\<rparr>
      else if starts_with kv ''MANUFACTURER='' then s\<lparr>hx_manufacturer := fixed_text 24 (trim_sv (drop 13 kv))\<rparr>
      else if starts_with kv ''TECHNOLOGY='' then s\<lparr>hx_technology := fixed_text 16 (trim_sv (drop 11 kv))\<rparr>
      else s)"

definition uevent_line :: "string \<Rightarrow> probed \<Rightarrow> probed" where
  "uevent_line line s =
     (if length line \<le> 13 \<or> \<not> starts_with line ''POWER_SUPPLY_'' then s else uevent_value (drop 13 line) s)"

definition derive_power :: "probed \<Rightarrow> probed" where
  "derive_power s =
     (case (hs_power_uw s, hs_voltage_uv s, hs_current_ua s) of
        (None, Some v, Some i) \<Rightarrow> s\<lparr>hs_power_uw := Some (power_of v i)\<rparr>
      | _ \<Rightarrow> s)"

definition parse_battery_uevent_buf :: "string \<Rightarrow> probed \<Rightarrow> probed" where
  "parse_battery_uevent_buf content s = derive_power (fold uevent_line (lines_of content) s)"

section \<open>The link of a PCI device\<close>

text \<open>The bytes of the configuration space; an access outside of it would be undefined, the result \<open>None\<close>.\<close>

definition byte_at :: "nat list \<Rightarrow> nat \<Rightarrow> nat option" where
  "byte_at bs i = (if i < length bs then Some (bs ! i) else None)"

definition half_at :: "nat list \<Rightarrow> nat \<Rightarrow> nat option" where
  "half_at bs i = do { lo \<leftarrow> byte_at bs i; hi \<leftarrow> byte_at bs (i + 1); Some (lo + 256 * hi) }"

text \<open>The walk along the chain of capabilities, of which there are \<open>hops\<close> steps left.\<close>

fun walk_capabilities :: "nat list \<Rightarrow> nat \<Rightarrow> nat \<Rightarrow> (u8 \<times> u8) option" where
  "walk_capabilities bs 0 cap_ptr = Some (0, 0)"
| "walk_capabilities bs (Suc hops) cap_ptr =
     (if \<not> (64 \<le> cap_ptr \<and> cap_ptr + 20 \<le> length bs) then Some (0, 0)
      else do {
        cap_id \<leftarrow> byte_at bs cap_ptr;
        (if cap_id = 16
         then do {
           link \<leftarrow> half_at bs (cap_ptr + 18);
           Some (of_nat (link mod 16), of_nat (link div 16 mod 64))
         }
         else do { next_ptr \<leftarrow> byte_at bs (cap_ptr + 1); walk_capabilities bs hops next_ptr })
      })"

definition decode_pcie_link_status :: "nat list \<Rightarrow> (u8 \<times> u8) option" where
  "decode_pcie_link_status bs =
     (if length bs < 64 then Some (0, 0)
      else do {
        status \<leftarrow> half_at bs 6;
        (if status div 16 mod 2 = 0 then Some (0, 0)
         else do { cap_ptr \<leftarrow> byte_at bs 52; walk_capabilities bs 48 cap_ptr })
      })"

section \<open>The statistics of a disk\<close>

definition set_block_token :: "nat \<Rightarrow> u64 \<Rightarrow> probed \<Rightarrow> probed" where
  "set_block_token idx v s =
     (if idx = 2 then s\<lparr>hs_read_sectors := v\<rparr>
      else if idx = 6 then s\<lparr>hs_write_sectors := v\<rparr>
      else if idx = 9 then s\<lparr>hx_io_ticks_ms := v\<rparr> else s)"

text \<open>The tokens from the one with index \<open>10 - n\<close> on.\<close>

fun block_tokens :: "nat \<Rightarrow> string \<Rightarrow> probed \<Rightarrow> probed" where
  "block_tokens 0 p s = s"
| "block_tokens (Suc n) p s =
     (if p = [] then s
      else let p = dropWhile (\<lambda>c. c = CHR '' '' \<or> c = TAB) p;
               in_token = (\<lambda>c. c \<noteq> CHR '' '' \<and> c \<noteq> TAB \<and> c \<noteq> NL)
           in block_tokens n (dropWhile in_token p)
                (updated (from_chars_value (takeWhile in_token p)) (set_block_token (9 - n)) s))"

definition parse_block_stat :: "string \<Rightarrow> probed \<Rightarrow> probed" where
  "parse_block_stat content s = block_tokens 10 content s"

end
