(* ===== verification/Hw_Probe.thy ===== *)
theory Hw_Probe
  imports Hw_Parse Actuators
begin

text \<open>
  The hardware probe (\<^verbatim>\<open>src/hw/hardware_probe.cpp\<close>): which files it finds, the descriptors it keeps open on
  them, and the sample it takes, with what it reads only on some passes and repeats in between.
  A descriptor is the path it was opened on; reading through it reads the file's content at that time.
\<close>

section \<open>State\<close>

text \<open>The files the probe keeps a descriptor of, in the order it closes them.\<close>

datatype slot =
    BatteryUevent | BatteryPower | BatteryStatus | BatteryVoltage | BatteryCurrent | EnergyNow | EnergyFull | EnergyDesign
  | CycleCount | Capacity | AcOnline | ThresholdStart | ThresholdEnd | ChargeBehaviour
  | UsbcVoltage | UsbcCurrent | UsbcOnline | UsbcType | UsbcVmax | UsbcCmax
  | RaplPackage | RaplCore | RaplDram | CpuTemp | CpuGovernor
  | GpuPower | GpuTemp | GpuFreq | GpuIn0 | GpuIn1 | GpuBusy | VramUsed | VramTotal | LinkSpeed | LinkWidth
  | NvmeStatus | NvmeTemp1 | NvmeTemp2 | BlockStat
  | FanRpm | FanPwm | ChassisTemp | Kbdlight | Bluetooth | BacklightCur | BacklightMax
  | WifiStatus | WifiTemp | AspmPolicy

text \<open>What the battery reported last.\<close>

record battery_cache =
  bk_discharging :: bool
  bk_power :: "u64 option"
  bk_current :: "int option"
  bk_voltage :: "u64 option"
  bk_energy_now :: "u64 option"
  bk_capacity :: "u32 option"
  bk_energy_full :: "u64 option"
  bk_energy_design :: "u64 option"
  bk_cycles :: "u32 option"
  bk_voltage_min :: "u64 option"
  bk_level :: string
  bk_technology :: string
  bk_model :: string
  bk_manufacturer :: string
  bk_serial :: string

record cache =
  ca_ac_online :: bool
  ca_ac_transition :: bool
  ca_static :: bool
  ca_battery :: battery_cache
  ca_start :: "u32 option"
  ca_end :: "u32 option"
  ca_behaviour :: string
  ca_usbc_type :: string
  ca_kbdlight :: u32
  ca_bluetooth :: bool
  ca_fan_rpm :: "u32 option"
  ca_fan_pwm :: "u32 option"
  ca_chassis :: "int option"
  ca_wifi_temp :: "int option"
  ca_aspm :: string
  ca_aspm_read :: bool
  ca_nvme1 :: "int option"
  ca_nvme2 :: "int option"

record peripheral =
  pf_name :: string
  pf_capacity_path :: string
  pf_status_path :: string
  pf_capacity_fd :: "string option"
  pf_status_fd :: "string option"

record probe =
  pr_sysfs :: string
  pr_battery_dir :: string
  pr_ac_dir :: string
  pr_usbc_dir :: string
  pr_drm_dir :: string
  pr_backlight_dir :: string
  pr_path :: "slot \<Rightarrow> string"
  pr_fd :: "slot \<Rightarrow> string option"
  pr_rapl_range :: u64
  pr_gpu_ppt :: bool
  pr_gpu_label :: string
  pr_peripherals :: "peripheral list"
  pr_freq_fds :: "string list"
  pr_cstate_fds :: "string option list list"
  pr_pmu :: "bool list list"
  pr_gpu_config :: "string option"
  pr_nvme_config :: "string option"
  pr_msr :: bool
  pr_counter :: u64
  pr_cache :: cache

definition battery_cache_new :: battery_cache where
  "battery_cache_new =
     \<lparr>bk_discharging = False, bk_power = None, bk_current = None, bk_voltage = None, bk_energy_now = None, bk_capacity = None,
      bk_energy_full = None, bk_energy_design = None, bk_cycles = None, bk_voltage_min = None, bk_level = [],
      bk_technology = [], bk_model = [], bk_manufacturer = [], bk_serial = []\<rparr>"

definition cache_new :: cache where
  "cache_new =
     \<lparr>ca_ac_online = False, ca_ac_transition = False, ca_static = False, ca_battery = battery_cache_new, ca_start = None,
      ca_end = None, ca_behaviour = [], ca_usbc_type = [], ca_kbdlight = 0, ca_bluetooth = False, ca_fan_rpm = None,
      ca_fan_pwm = None, ca_chassis = None, ca_wifi_temp = None, ca_aspm = [], ca_aspm_read = False, ca_nvme1 = None,
      ca_nvme2 = None\<rparr>"

definition probe_blank :: "string \<Rightarrow> probe" where
  "probe_blank sysfs =
     \<lparr>pr_sysfs = sysfs, pr_battery_dir = [], pr_ac_dir = [], pr_usbc_dir = [], pr_drm_dir = [], pr_backlight_dir = [],
      pr_path = (\<lambda>_. []), pr_fd = (\<lambda>_. None), pr_rapl_range = 0, pr_gpu_ppt = False, pr_gpu_label = [],
      pr_peripherals = [], pr_freq_fds = [], pr_cstate_fds = [], pr_pmu = [], pr_gpu_config = None, pr_nvme_config = None,
      pr_msr = False, pr_counter = 0, pr_cache = cache_new\<rparr>"

definition with_cache :: "(cache \<Rightarrow> cache) \<Rightarrow> probe \<Rightarrow> probe" where
  "with_cache f p = p\<lparr>pr_cache := f (pr_cache p)\<rparr>"

definition set_path :: "slot \<Rightarrow> string \<Rightarrow> probe \<Rightarrow> probe" where
  "set_path sl path p = p\<lparr>pr_path := (pr_path p)(sl := path)\<rparr>"

abbreviation below :: "string \<Rightarrow> string \<Rightarrow> string" where
  "below dir leaf \<equiv> dir @ ''/'' @ leaf"

text \<open>
  Moving a probe takes the files and descriptors; the range of the energy counter, the pass counter and what
  was read before are not taken along.
\<close>

definition probe_moved :: "probe \<Rightarrow> probe" where
  "probe_moved other = other\<lparr>pr_rapl_range := 0, pr_counter := 0, pr_cache := cache_new\<rparr>"

section \<open>Reading through a descriptor\<close>

definition read_number_fd :: "kernel \<Rightarrow> nat \<Rightarrow> (string \<Rightarrow> 'a option) \<Rightarrow> string option \<Rightarrow> 'a option io" where
  "read_number_fd k n convert fd =
     (case fd of None \<Rightarrow> return_io None
      | Some path \<Rightarrow> do {
          r \<leftarrow> sys_read_file k path n;
          return_io (case r of None \<Rightarrow> None | Some s \<Rightarrow> if s = [] then None else convert (skip_leading s))
        })"

definition read_uint64_fd :: "kernel \<Rightarrow> string option \<Rightarrow> u64 option io" where
  "read_uint64_fd k fd = read_number_fd k 63 from_chars_value fd"

definition read_int64_fd :: "kernel \<Rightarrow> string option \<Rightarrow> int option io" where
  "read_int64_fd k fd = read_number_fd k 63 (from_chars_signed 64) fd"

definition read_uint32_fd :: "kernel \<Rightarrow> string option \<Rightarrow> u32 option io" where
  "read_uint32_fd k fd = read_number_fd k 31 from_chars_value fd"

definition read_int32_fd :: "kernel \<Rightarrow> string option \<Rightarrow> int option io" where
  "read_int32_fd k fd = read_number_fd k 31 (from_chars_signed 32) fd"

text \<open>The text of a buffer of \<open>n\<close> bytes, without the blanks and line ends behind it, up to a terminator in it.\<close>

definition read_string_buf :: "kernel \<Rightarrow> nat \<Rightarrow> string option \<Rightarrow> string option io" where
  "read_string_buf k n fd =
     (case fd of None \<Rightarrow> return_io None
      | Some path \<Rightarrow> do {
          r \<leftarrow> sys_read_file k path (n - 1);
          return_io (case r of None \<Rightarrow> None
            | Some s \<Rightarrow> if s = [] then None
                else Some (c_str (rev (dropWhile (\<lambda>c. c = NL \<or> c = CR \<or> c = CHR '' '') (rev s)))))
        })"

abbreviation text_or_empty :: "string option \<Rightarrow> string" where
  "text_or_empty r \<equiv> (case r of None \<Rightarrow> [] | Some s \<Rightarrow> s)"

text \<open>A read that happens only when there is a descriptor; otherwise the old value stays.\<close>

definition read_if :: "string option \<Rightarrow> 'a io \<Rightarrow> 'a \<Rightarrow> 'a io" where
  "read_if fd m old = (if fd = None then return_io old else m)"

section \<open>Descriptors\<close>

definition close_if :: "string option \<Rightarrow> unit io" where
  "close_if fd = (case fd of None \<Rightarrow> return_io () | Some path \<Rightarrow> sys_close_fd path)"

text \<open>The slots in the order they are closed, up to the processor's, and from the graphics' on.\<close>

definition front_slots :: "slot list" where
  "front_slots = [BatteryUevent, BatteryPower, BatteryStatus, BatteryVoltage, BatteryCurrent, EnergyNow, EnergyFull, EnergyDesign,
     CycleCount, Capacity, AcOnline, ThresholdStart, ThresholdEnd, ChargeBehaviour, UsbcVoltage, UsbcCurrent, UsbcOnline,
     UsbcType, UsbcVmax, UsbcCmax]"

definition cpu_slots :: "slot list" where
  "cpu_slots = [RaplPackage, RaplCore, RaplDram, CpuTemp, CpuGovernor]"

definition rear_slots :: "slot list" where
  "rear_slots = [GpuPower, GpuTemp, GpuFreq, GpuIn0, GpuIn1, GpuBusy, VramUsed, VramTotal, LinkSpeed, LinkWidth,
     NvmeStatus, NvmeTemp1, NvmeTemp2, BlockStat, FanRpm, FanPwm, ChassisTemp, Kbdlight, Bluetooth, BacklightCur, BacklightMax,
     WifiStatus, WifiTemp, AspmPolicy]"

definition io_each :: "('a \<Rightarrow> unit io) \<Rightarrow> 'a list \<Rightarrow> unit io" where
  "io_each f xs = io_for (\<lambda>_. True) (\<lambda>x _. f x) xs ()"

definition perf_name :: "nat \<Rightarrow> string" where
  "perf_name cpu = ''perf cpu '' @ show_nat cpu"

definition close_fds :: "probe \<Rightarrow> probe io" where
  "close_fds p = do {
     io_each (\<lambda>sl. close_if (pr_fd p sl)) front_slots;
     io_each (\<lambda>q. do { close_if (pf_capacity_fd q); close_if (pf_status_fd q) }) (pr_peripherals p);
     io_each (\<lambda>sl. close_if (pr_fd p sl)) cpu_slots;
     io_each sys_close_fd (pr_freq_fds p);
     io_each close_if (concat (pr_cstate_fds p));
     io_each (\<lambda>sl. close_if (pr_fd p sl)) rear_slots;
     io_each (\<lambda>(cpu, fds). io_each (\<lambda>b. if b then sys_close_fd (perf_name cpu) else return_io ()) fds)
       (enumerate 0 (pr_pmu p));
     close_if (pr_gpu_config p);
     close_if (pr_nvme_config p);
     (if pr_msr p then sys_close_fd ''/dev/cpu/0/msr'' else return_io ());
     return_io (p\<lparr>pr_fd := (\<lambda>_. None),
       pr_peripherals := map (\<lambda>q. q\<lparr>pf_capacity_fd := None, pf_status_fd := None\<rparr>) (pr_peripherals p),
       pr_freq_fds := [], pr_cstate_fds := [], pr_pmu := [], pr_gpu_config := None, pr_nvme_config := None, pr_msr := False\<rparr>)
   }"

definition open_ro :: "kernel \<Rightarrow> string \<Rightarrow> string option io" where
  "open_ro k path =
     (if path = [] then return_io None
      else do { ok \<leftarrow> sys_open_ro k path; return_io (if ok then Some path else None) })"

definition open_slot :: "kernel \<Rightarrow> slot \<Rightarrow> string \<Rightarrow> probe \<Rightarrow> probe io" where
  "open_slot k sl path p = do { fd \<leftarrow> open_ro k path; return_io (p\<lparr>pr_fd := (pr_fd p)(sl := fd)\<rparr>) }"

text \<open>Slots whose path the discovery recorded.\<close>

definition open_recorded :: "kernel \<Rightarrow> slot list \<Rightarrow> probe \<Rightarrow> probe io" where
  "open_recorded k = io_for (\<lambda>_. True) (\<lambda>sl p. open_slot k sl (pr_path p sl) p)"

definition open_below :: "kernel \<Rightarrow> string \<Rightarrow> (slot \<times> string) list \<Rightarrow> probe \<Rightarrow> probe io" where
  "open_below k dir = io_for (\<lambda>_. True) (\<lambda>(sl, leaf) p. open_slot k sl (below dir leaf) p)"

definition open_power :: "kernel \<Rightarrow> probe \<Rightarrow> probe io" where
  "open_power k p = do {
     p \<leftarrow> open_recorded k [BatteryUevent] p;
     p \<leftarrow> (if pr_battery_dir p = [] then return_io p
          else do {
            p \<leftarrow> open_below k (pr_battery_dir p)
              [(BatteryPower, ''power_now''), (BatteryStatus, ''status''), (BatteryVoltage, ''voltage_now''),
               (BatteryCurrent, ''current_now''), (EnergyNow, ''energy_now''), (EnergyFull, ''energy_full''),
               (EnergyDesign, ''energy_full_design''), (CycleCount, ''cycle_count''), (Capacity, ''capacity'')] p;
            open_recorded k [ThresholdStart, ThresholdEnd, ChargeBehaviour] p
          });
     p \<leftarrow> (if pr_ac_dir p = [] then return_io p else open_below k (pr_ac_dir p) [(AcOnline, ''online'')] p);
     (if pr_usbc_dir p = [] then return_io p
      else do {
        p \<leftarrow> open_below k (pr_usbc_dir p)
          [(UsbcVoltage, ''voltage_now''), (UsbcCurrent, ''current_now''), (UsbcOnline, ''online'')] p;
        open_recorded k [UsbcType, UsbcVmax, UsbcCmax] p
      })
   }"

definition open_peripheral :: "kernel \<Rightarrow> peripheral \<Rightarrow> peripheral io" where
  "open_peripheral k q = do {
     c \<leftarrow> open_ro k (pf_capacity_path q);
     s \<leftarrow> open_ro k (pf_status_path q);
     return_io (q\<lparr>pf_capacity_fd := c, pf_status_fd := s\<rparr>)
   }"

fun io_map :: "('a \<Rightarrow> 'b io) \<Rightarrow> 'a list \<Rightarrow> 'b list io" where
  "io_map f [] = return_io []"
| "io_map f (x # xs) = do { y \<leftarrow> f x; ys \<leftarrow> io_map f xs; return_io (y # ys) }"

text \<open>One processor: its frequency and the four idle states; the walk ends at the first one that does not exist.\<close>

fun open_cpus :: "kernel \<Rightarrow> string \<Rightarrow> nat list \<Rightarrow> probe \<Rightarrow> probe io" where
  "open_cpus k base [] p = return_io p"
| "open_cpus k base (i # is) p = do {
     let dir = below base (''cpu'' @ show_nat i);
     there \<leftarrow> sys_exists k dir;
     if \<not> there then return_io p
     else do {
       f \<leftarrow> open_ro k (below dir ''cpufreq/scaling_cur_freq'');
       states \<leftarrow> io_map (\<lambda>s. open_ro k (below dir (''cpuidle/state'' @ show_nat s @ ''/time''))) [0, 1, 2, 3];
       open_cpus k base is (p\<lparr>pr_freq_fds := pr_freq_fds p @ (case f of None \<Rightarrow> [] | Some x \<Rightarrow> [x]),
         pr_cstate_fds := pr_cstate_fds p @ [states]\<rparr>)
     }
   }"

definition open_cpu_files :: "kernel \<Rightarrow> probe \<Rightarrow> probe io" where
  "open_cpu_files k p = do {
     let base = below (pr_sysfs p) ''devices/system/cpu'';
     there \<leftarrow> sys_exists k base;
     if there then open_cpus k base [0..<256] p else return_io p
   }"

text \<open>
  The counters of one processor, in the order instructions, cycles, cache misses, branch misses; without the
  first of them the walk over the processors stops.
\<close>

abbreviation "MAX_PMU_CPUS \<equiv> (64 :: nat)"

fun open_counters :: "kernel \<Rightarrow> nat list \<Rightarrow> bool list list \<Rightarrow> bool list list io" where
  "open_counters k [] acc = return_io acc"
| "open_counters k (c # cs) acc = do {
     fds \<leftarrow> io_map (sys_perf_open k c) [0, 1, 2, 3];
     if \<not> hd fds then do {
       io_each (\<lambda>b. if b then sys_close_fd (perf_name c) else return_io ()) (tl fds);
       return_io acc
     }
     else open_counters k cs (acc @ [fds])
   }"

definition init_pmu_counters :: "kernel \<Rightarrow> probe \<Rightarrow> probe io" where
  "init_pmu_counters k p =
     (if k_online_cpus k \<le> 0 then return_io (p\<lparr>pr_pmu := []\<rparr>)
      else do {
        fds \<leftarrow> open_counters k [0..<min (nat (k_online_cpus k)) MAX_PMU_CPUS] [];
        return_io (p\<lparr>pr_pmu := fds\<rparr>)
      })"

definition open_config :: "kernel \<Rightarrow> string \<Rightarrow> string option io" where
  "open_config k path = do { there \<leftarrow> sys_exists k path; if there then open_ro k path else return_io None }"

text \<open>The directory of a path, as \<open>parent_path\<close> gives it.\<close>

definition parent_path :: "string \<Rightarrow> string" where
  "parent_path s = rev (drop 1 (dropWhile (\<lambda>c. c \<noteq> CHR ''/'') (rev s)))"

definition init_pcie_binary_configs :: "kernel \<Rightarrow> probe \<Rightarrow> probe io" where
  "init_pcie_binary_configs k p = do {
     p \<leftarrow> (if pr_drm_dir p = [] then return_io p
          else do { c \<leftarrow> open_config k (below (pr_drm_dir p) ''config''); return_io (p\<lparr>pr_gpu_config := c\<rparr>) });
     (if pr_path p NvmeStatus = [] then return_io p
      else do {
        c \<leftarrow> open_config k (below (parent_path (parent_path (pr_path p NvmeStatus))) ''config'');
        return_io (p\<lparr>pr_nvme_config := c\<rparr>)
      })
   }"

definition init_msr_telemetry :: "kernel \<Rightarrow> probe \<Rightarrow> probe io" where
  "init_msr_telemetry k p = do { ok \<leftarrow> sys_open_ro k ''/dev/cpu/0/msr''; return_io (p\<lparr>pr_msr := ok\<rparr>) }"

definition open_display :: "kernel \<Rightarrow> probe \<Rightarrow> probe io" where
  "open_display k p =
     (if pr_backlight_dir p = [] then return_io p
      else do {
        let dir = pr_backlight_dir p;
        actual \<leftarrow> sys_exists k (below dir ''actual_brightness'');
        p \<leftarrow> open_slot k BacklightCur (below dir (if actual then ''actual_brightness'' else ''brightness'')) p;
        open_slot k BacklightMax (below dir ''max_brightness'') p
      })"

definition open_persistent_fds :: "kernel \<Rightarrow> probe \<Rightarrow> probe io" where
  "open_persistent_fds k p = do {
     p \<leftarrow> close_fds p;
     p \<leftarrow> open_power k p;
     qs \<leftarrow> io_map (open_peripheral k) (pr_peripherals p);
     let p = p\<lparr>pr_peripherals := qs\<rparr>;
     p \<leftarrow> open_recorded k cpu_slots p;
     p \<leftarrow> open_cpu_files k p;
     p \<leftarrow> open_recorded k [GpuPower, GpuTemp, GpuFreq, GpuIn0, GpuIn1] p;
     p \<leftarrow> (if pr_drm_dir p = [] then return_io p
          else open_below k (pr_drm_dir p)
            [(GpuBusy, ''gpu_busy_percent''), (VramUsed, ''mem_info_vram_used''), (VramTotal, ''mem_info_vram_total''),
             (LinkSpeed, ''current_link_speed''), (LinkWidth, ''current_link_width'')] p);
     p \<leftarrow> open_recorded k [NvmeStatus, NvmeTemp1, NvmeTemp2, BlockStat, FanRpm, FanPwm, ChassisTemp, Kbdlight, Bluetooth] p;
     p \<leftarrow> open_display k p;
     p \<leftarrow> open_recorded k [WifiStatus, WifiTemp, AspmPolicy] p;
     p \<leftarrow> init_pmu_counters k p;
     p \<leftarrow> init_pcie_binary_configs k p;
     init_msr_telemetry k p
   }"

text \<open>
  Assigning a moved probe: the old descriptors are closed, and the range, the pass counter and what was read
  before stay those of the probe assigned to.
\<close>

definition probe_assigned :: "probe \<Rightarrow> probe \<Rightarrow> probe io" where
  "probe_assigned p other = do {
     p \<leftarrow> close_fds p;
     return_io (other\<lparr>pr_rapl_range := pr_rapl_range p, pr_counter := pr_counter p, pr_cache := pr_cache p\<rparr>)
   }"

section \<open>Discovery\<close>

definition dir_names :: "kernel \<Rightarrow> string \<Rightarrow> string list io" where
  "dir_names k dir = do { r \<leftarrow> sys_opendir k dir; return_io (case r of None \<Rightarrow> [] | Some ns \<Rightarrow> ns) }"

text \<open>A directory that may be missing is walked entry by entry; \<open>f\<close> says whether to go on.\<close>

fun walk :: "(string \<Rightarrow> probe \<Rightarrow> (bool \<times> probe) io) \<Rightarrow> string list \<Rightarrow> probe \<Rightarrow> probe io" where
  "walk f [] p = return_io p"
| "walk f (n # ns) p = do { (more, p) \<leftarrow> f n p; if more then walk f ns p else return_io p }"

definition walk_dir :: "kernel \<Rightarrow> string \<Rightarrow> (string \<Rightarrow> probe \<Rightarrow> (bool \<times> probe) io) \<Rightarrow> probe \<Rightarrow> probe io" where
  "walk_dir k dir f p = do {
     there \<leftarrow> sys_exists k dir;
     (if \<not> there then return_io p else do { ns \<leftarrow> dir_names k dir; walk f ns p })
   }"

definition if_exists :: "kernel \<Rightarrow> string \<Rightarrow> (probe \<Rightarrow> probe) \<Rightarrow> probe \<Rightarrow> probe io" where
  "if_exists k path f p = do { there \<leftarrow> sys_exists k path; return_io (if there then f p else p) }"

text \<open>The first of two names that exists, recorded in a slot.\<close>

definition either_name :: "kernel \<Rightarrow> slot \<Rightarrow> string \<Rightarrow> string \<Rightarrow> probe \<Rightarrow> probe io" where
  "either_name k sl a b p = do {
     there \<leftarrow> sys_exists k a;
     let path = (if there then a else b);
     if_exists k path (set_path sl path) p
   }"

definition found_battery :: "kernel \<Rightarrow> string \<Rightarrow> probe \<Rightarrow> probe io" where
  "found_battery k dir p = do {
     let p = set_path BatteryUevent (below dir ''uevent'') (p\<lparr>pr_battery_dir := dir\<rparr>);
     p \<leftarrow> either_name k ThresholdStart (below dir ''charge_control_start_threshold'') (below dir ''charge_start_threshold'') p;
     p \<leftarrow> either_name k ThresholdEnd (below dir ''charge_control_end_threshold'') (below dir ''charge_stop_threshold'') p;
     if_exists k (below dir ''charge_behaviour'') (set_path ChargeBehaviour (below dir ''charge_behaviour'')) p
   }"

definition found_usbc :: "kernel \<Rightarrow> string \<Rightarrow> probe \<Rightarrow> probe io" where
  "found_usbc k dir p = do {
     fd \<leftarrow> open_ro k (below dir ''online'');
     (case fd of None \<Rightarrow> return_io p
      | Some on_file \<Rightarrow> do {
          v \<leftarrow> read_uint32_fd k fd;
          sys_close_fd on_file;
          (if v = Some 1 \<or> pr_usbc_dir p = []
           then do {
             p \<leftarrow> if_exists k (below dir ''usb_type'') (set_path UsbcType (below dir ''usb_type'')) (p\<lparr>pr_usbc_dir := dir\<rparr>);
             p \<leftarrow> if_exists k (below dir ''voltage_max'') (set_path UsbcVmax (below dir ''voltage_max'')) p;
             if_exists k (below dir ''current_max'') (set_path UsbcCmax (below dir ''current_max'')) p
           }
           else return_io p)
        })
   }"

definition found_peripheral :: "kernel \<Rightarrow> string \<Rightarrow> string \<Rightarrow> probe \<Rightarrow> probe io" where
  "found_peripheral k dir name p = do {
     there \<leftarrow> sys_exists k (below dir ''capacity'');
     (if \<not> there then return_io p
      else do {
        st \<leftarrow> sys_exists k (below dir ''status'');
        return_io (p\<lparr>pr_peripherals := pr_peripherals p @ [\<lparr>pf_name = fixed_text 32 name, pf_capacity_path = below dir ''capacity'',
          pf_status_path = (if st then below dir ''status'' else []), pf_capacity_fd = None, pf_status_fd = None\<rparr>]\<rparr>)
      })
   }"

abbreviation "MAX_PERIPHERALS \<equiv> (4 :: nat)"

definition power_supply :: "kernel \<Rightarrow> string \<Rightarrow> string \<Rightarrow> probe \<Rightarrow> probe io" where
  "power_supply k base name p =
     (let dir = below base name
      in if starts_with name ''BAT'' \<and> pr_battery_dir p = [] then found_battery k dir p
         else if name = ''AC'' \<and> pr_ac_dir p = [] then return_io (p\<lparr>pr_ac_dir := dir\<rparr>)
         else if starts_with name ''ucsi-source-psy-'' then found_usbc k dir p
         else if name \<noteq> ''AC'' \<and> length (pr_peripherals p) < MAX_PERIPHERALS then found_peripheral k dir name p
         else return_io p)"

definition discover_power :: "kernel \<Rightarrow> probe \<Rightarrow> probe io" where
  "discover_power k p = do {
     io_each (\<lambda>q. do { close_if (pf_capacity_fd q); close_if (pf_status_fd q) }) (pr_peripherals p);
     let base = below (pr_sysfs p) ''class/power_supply'';
     walk_dir k base (\<lambda>n p. do { p \<leftarrow> power_supply k base n p; return_io (True, p) }) (p\<lparr>pr_peripherals := []\<rparr>)
   }"

definition discover_rapl :: "kernel \<Rightarrow> probe \<Rightarrow> probe io" where
  "discover_rapl k p = do {
     let dir = below (pr_sysfs p) ''class/powercap/intel-rapl'';
     there \<leftarrow> sys_exists k dir;
     pkg \<leftarrow> (if there then sys_exists k (below dir ''intel-rapl:0/energy_uj'') else return_io False);
     (if \<not> pkg then return_io p
      else do {
        let p = set_path RaplPackage (below dir ''intel-rapl:0/energy_uj'') p;
        fd \<leftarrow> open_ro k (below dir ''intel-rapl:0/max_energy_range_uj'');
        p \<leftarrow> (case fd of None \<Rightarrow> return_io p
             | Some path \<Rightarrow> do {
                 r \<leftarrow> read_string_buf k 64 fd;
                 sys_close_fd path;
                 return_io (let t = text_or_empty r in if t = [] then p else p\<lparr>pr_rapl_range := fst (strtoul t)\<rparr>)
               });
        p \<leftarrow> if_exists k (below dir ''intel-rapl:0/intel-rapl:0:0/energy_uj'')
               (set_path RaplCore (below dir ''intel-rapl:0/intel-rapl:0:0/energy_uj'')) p;
        if_exists k (below dir ''intel-rapl:0/intel-rapl:0:1/energy_uj'')
          (set_path RaplDram (below dir ''intel-rapl:0/intel-rapl:0:1/energy_uj'')) p
      })
   }"

definition set_if_empty :: "slot \<Rightarrow> string \<Rightarrow> probe \<Rightarrow> probe" where
  "set_if_empty sl path p = (if pr_path p sl = [] then set_path sl path p else p)"

definition found_gpu :: "kernel \<Rightarrow> string \<Rightarrow> probe \<Rightarrow> probe io" where
  "found_gpu k dir p = do {
     p \<leftarrow> (if pr_path p GpuPower \<noteq> [] then return_io p
          else do {
            input \<leftarrow> sys_exists k (below dir ''power1_input'');
            p \<leftarrow> (if input then return_io (set_path GpuPower (below dir ''power1_input'') p)
                 else if_exists k (below dir ''power1_average'') (set_path GpuPower (below dir ''power1_average'')) p);
            lbl \<leftarrow> sys_exists k (below dir ''power1_label'');
            fd \<leftarrow> (if lbl then open_ro k (below dir ''power1_label'') else return_io None);
            (case fd of None \<Rightarrow> return_io p
             | Some path \<Rightarrow> do {
                 r \<leftarrow> read_string_buf k 16 fd;
                 sys_close_fd path;
                 return_io (case r of None \<Rightarrow> p
                   | Some t \<Rightarrow> let p = p\<lparr>pr_gpu_label := fixed_text 16 (trim_sv t)\<rparr>
                       in if pr_gpu_label p = ''PPT'' then p\<lparr>pr_gpu_ppt := True\<rparr> else p)
               })
          });
     return_io (set_if_empty GpuIn1 (below dir ''in1_input'') (set_if_empty GpuIn0 (below dir ''in0_input'')
       (set_if_empty GpuFreq (below dir ''freq1_input'') (set_if_empty GpuTemp (below dir ''temp1_input'') p))))
   }"

definition hwmon_entry :: "kernel \<Rightarrow> string \<Rightarrow> probe \<Rightarrow> probe io" where
  "hwmon_entry k dir p = do {
     fd \<leftarrow> open_ro k (below dir ''name'');
     (case fd of None \<Rightarrow> return_io p
      | Some path \<Rightarrow> do {
          r \<leftarrow> read_string_buf k 64 fd;
          sys_close_fd path;
          let h = text_or_empty r;
          (if (h = ''k10temp'' \<or> h = ''coretemp'') \<and> pr_path p CpuTemp = []
           then return_io (set_path CpuTemp (below dir ''temp1_input'') p)
           else if h = ''amdgpu'' \<or> str_contains h ''nvidia'' \<or> str_contains h ''nouveau'' then found_gpu k dir p
           else if h = ''nvme'' \<and> pr_path p NvmeTemp1 = []
           then return_io (set_path NvmeTemp2 (below dir ''temp2_input'') (set_path NvmeTemp1 (below dir ''temp1_input'') p))
           else if (h = ''thinkpad'' \<or> str_contains h ''smm'') \<and> pr_path p FanRpm = []
           then return_io (set_path ChassisTemp (below dir ''temp1_input'') (set_path FanPwm (below dir ''pwm1'')
                  (set_path FanRpm (below dir ''fan1_input'') p)))
           else if (str_contains h ''wifi'' \<or> str_contains h ''iwl'') \<and> pr_path p WifiTemp = []
           then return_io (set_path WifiTemp (below dir ''temp1_input'') p)
           else return_io p)
        })
   }"

definition discover_hwmon :: "kernel \<Rightarrow> probe \<Rightarrow> probe io" where
  "discover_hwmon k p =
     (let base = below (pr_sysfs p) ''class/hwmon''
      in walk_dir k base (\<lambda>n p. do { p \<leftarrow> hwmon_entry k (below base n) p; return_io (True, p) }) p)"

definition discover_drm :: "kernel \<Rightarrow> probe \<Rightarrow> probe io" where
  "discover_drm k p =
     (let base = below (pr_sysfs p) ''class/drm''
      in walk_dir k base (\<lambda>n p.
           if starts_with n ''card'' \<and> CHR ''-'' \<notin> set n
           then do {
             let dev = below (below base n) ''device'';
             there \<leftarrow> sys_exists k (below dev ''gpu_busy_percent'');
             return_io (if there then (False, p\<lparr>pr_drm_dir := dev\<rparr>) else (True, p))
           }
           else return_io (True, p)) p)"

definition discover_storage :: "kernel \<Rightarrow> probe \<Rightarrow> probe io" where
  "discover_storage k p = do {
     let base = below (pr_sysfs p) ''class/nvme'';
     p \<leftarrow> walk_dir k base (\<lambda>n p. do {
            let st = below (below base n) ''device/power/runtime_status'';
            there \<leftarrow> sys_exists k st;
            return_io (if there then (False, set_path NvmeStatus st p) else (True, p))
          }) p;
     nvme \<leftarrow> sys_exists k ''/sys/block/nvme0n1/stat'';
     (if nvme then return_io (set_path BlockStat ''/sys/block/nvme0n1/stat'' p)
      else if_exists k ''/sys/block/sda/stat'' (set_path BlockStat ''/sys/block/sda/stat'') p)
   }"

definition discover_backlight :: "kernel \<Rightarrow> probe \<Rightarrow> probe io" where
  "discover_backlight k p =
     (let base = below (pr_sysfs p) ''class/backlight''
      in walk_dir k base (\<lambda>n p. do {
           let dir = below base n;
           b \<leftarrow> sys_exists k (below dir ''brightness'');
           a \<leftarrow> (if b then return_io True else sys_exists k (below dir ''actual_brightness''));
           return_io (if a then (False, p\<lparr>pr_backlight_dir := dir\<rparr>) else (True, p))
         }) p)"

definition discover_fixed :: "kernel \<Rightarrow> probe \<Rightarrow> probe io" where
  "discover_fixed k p = do {
     let p = set_path CpuGovernor (below (pr_sysfs p) ''devices/system/cpu/cpu0/cpufreq/scaling_governor'') p;
     p \<leftarrow> if_exists k ''/proc/acpi/ibm/kbdlight'' (set_path Kbdlight ''/proc/acpi/ibm/kbdlight'') p;
     p \<leftarrow> if_exists k ''/proc/acpi/ibm/bluetooth'' (set_path Bluetooth ''/proc/acpi/ibm/bluetooth'') p;
     p \<leftarrow> if_exists k ''/sys/class/net/wlan0/device/power/runtime_status''
            (set_path WifiStatus ''/sys/class/net/wlan0/device/power/runtime_status'') p;
     if_exists k ''/sys/module/pcie_aspm/parameters/policy'' (set_path AspmPolicy ''/sys/module/pcie_aspm/parameters/policy'') p
   }"

definition refresh_device_paths :: "kernel \<Rightarrow> probe \<Rightarrow> probe io" where
  "refresh_device_paths k p = do {
     p \<leftarrow> discover_power k p;
     p \<leftarrow> discover_rapl k p;
     p \<leftarrow> discover_hwmon k p;
     p \<leftarrow> discover_drm k p;
     p \<leftarrow> discover_storage k p;
     p \<leftarrow> discover_backlight k p;
     p \<leftarrow> discover_fixed k p;
     open_persistent_fds k p
   }"

definition probe_new :: "kernel \<Rightarrow> string \<Rightarrow> probe io" where
  "probe_new k sysfs = refresh_device_paths k (probe_blank sysfs)"

section \<open>A sample\<close>

text \<open>The state and the sample so far, through the sections of the capture in their order.\<close>

type_synonym capture = "probe \<times> probed"

abbreviation on_pass :: "probe \<Rightarrow> u64 \<Rightarrow> u64 \<Rightarrow> bool" where
  "on_pass p n r \<equiv> pr_counter p mod n = r"

subsection \<open>Battery and supply\<close>

definition ac_check :: "kernel \<Rightarrow> capture \<Rightarrow> capture io" where
  "ac_check k = (\<lambda>(p, s).
     if pr_fd p AcOnline = None then return_io (p, s)
     else do {
       p \<leftarrow> (if \<not> ca_static (pr_cache p) \<or> on_pass p 4 1
            then do {
              v \<leftarrow> read_uint32_fd k (pr_fd p AcOnline);
              let new_ac = (v = Some 1);
              return_io (with_cache (\<lambda>c. c\<lparr>ca_ac_transition := ca_static c \<and> new_ac \<noteq> ca_ac_online c, ca_ac_online := new_ac\<rparr>) p)
            }
            else return_io p);
       return_io (p, s\<lparr>hs_ac_online := ca_ac_online (pr_cache p)\<rparr>)
     })"

definition battery_of :: "probed \<Rightarrow> battery_cache" where
  "battery_of s =
     \<lparr>bk_discharging = hs_discharging s, bk_power = hs_power_uw s, bk_current = hs_current_ua s, bk_voltage = hs_voltage_uv s,
      bk_energy_now = hs_energy_now_uwh s, bk_capacity = hs_capacity_percent s, bk_energy_full = hs_energy_full_uwh s,
      bk_energy_design = hs_energy_design_uwh s, bk_cycles = hx_cycle_count s, bk_voltage_min = hx_voltage_min_uv s,
      bk_level = hx_level s, bk_technology = hx_technology s, bk_model = hx_model s, bk_manufacturer = hx_manufacturer s,
      bk_serial = hx_serial s\<rparr>"

definition replay_battery :: "battery_cache \<Rightarrow> probed \<Rightarrow> probed" where
  "replay_battery b s = s\<lparr>hs_discharging := bk_discharging b, hs_power_uw := bk_power b, hs_current_ua := bk_current b,
     hs_voltage_uv := bk_voltage b, hs_energy_now_uwh := bk_energy_now b, hs_capacity_percent := bk_capacity b,
     hs_energy_full_uwh := bk_energy_full b, hs_energy_design_uwh := bk_energy_design b, hx_cycle_count := bk_cycles b,
     hx_voltage_min_uv := bk_voltage_min b, hx_level := bk_level b, hx_technology := bk_technology b, hx_model := bk_model b,
     hx_manufacturer := bk_manufacturer b, hx_serial := bk_serial b\<rparr>"

text \<open>Whether the battery's record is left unread on this pass.\<close>

definition skip_battery :: "probe \<Rightarrow> probed \<Rightarrow> bool" where
  "skip_battery p s =
     (if \<not> ca_static (pr_cache p) then False
      else if hs_ac_online s \<and> \<not> bk_discharging (ca_battery (pr_cache p)) then \<not> on_pass p 30 1
      else \<not> on_pass p 8 1)"

definition battery_by_record :: "kernel \<Rightarrow> string \<Rightarrow> capture \<Rightarrow> capture io" where
  "battery_by_record k path = (\<lambda>(p, s).
     if skip_battery p s then return_io (p, replay_battery (ca_battery (pr_cache p)) s)
     else do {
       r \<leftarrow> sys_read_file k path 1023;
       return_io (case r of None \<Rightarrow> (p, s)
         | Some content \<Rightarrow>
             if content = [] then (p, s)
             else let s = parse_battery_uevent_buf content s
                  in (with_cache (\<lambda>c. c\<lparr>ca_battery := battery_of s, ca_static := True\<rparr>) p, s))
     })"

definition with_battery :: "(battery_cache \<Rightarrow> battery_cache) \<Rightarrow> probe \<Rightarrow> probe" where
  "with_battery f = with_cache (\<lambda>c. c\<lparr>ca_battery := f (ca_battery c)\<rparr>)"

text \<open>The same from the single files, where there is no record.\<close>

definition power_by_files :: "kernel \<Rightarrow> probe \<Rightarrow> probed \<Rightarrow> probed io" where
  "power_by_files k p s =
     (if pr_fd p BatteryPower \<noteq> None
      then do { w \<leftarrow> read_uint64_fd k (pr_fd p BatteryPower); return_io (s\<lparr>hs_power_uw := w\<rparr>) }
      else if pr_fd p BatteryVoltage \<noteq> None \<and> pr_fd p BatteryCurrent \<noteq> None
      then do {
        v \<leftarrow> read_uint64_fd k (pr_fd p BatteryVoltage);
        i \<leftarrow> read_int64_fd k (pr_fd p BatteryCurrent);
        return_io (case (v, i) of
            (Some v', Some i') \<Rightarrow> s\<lparr>hs_voltage_uv := v, hs_current_ua := i, hs_power_uw := Some (power_of v' i')\<rparr>
          | _ \<Rightarrow> s)
      }
      else return_io s)"

definition refresh_static :: "kernel \<Rightarrow> probe \<Rightarrow> probe io" where
  "refresh_static k p =
     (if \<not> ca_static (pr_cache p) \<or> on_pass p 30 1
      then do {
        let b = ca_battery (pr_cache p);
        f \<leftarrow> read_if (pr_fd p EnergyFull) (read_uint64_fd k (pr_fd p EnergyFull)) (bk_energy_full b);
        d \<leftarrow> read_if (pr_fd p EnergyDesign) (read_uint64_fd k (pr_fd p EnergyDesign)) (bk_energy_design b);
        c \<leftarrow> read_if (pr_fd p CycleCount) (read_uint32_fd k (pr_fd p CycleCount)) (bk_cycles b);
        return_io (with_cache (\<lambda>x. x\<lparr>ca_static := True\<rparr>)
          (with_battery (\<lambda>b. b\<lparr>bk_energy_full := f, bk_energy_design := d, bk_cycles := c\<rparr>) p))
      }
      else return_io p)"

definition battery_detail :: "kernel \<Rightarrow> capture \<Rightarrow> capture io" where
  "battery_detail k = (\<lambda>(p, s). do {
     s \<leftarrow> power_by_files k p s;
     v \<leftarrow> (if hs_voltage_uv s = None then read_if (pr_fd p BatteryVoltage) (read_uint64_fd k (pr_fd p BatteryVoltage)) None
          else return_io (hs_voltage_uv s));
     i \<leftarrow> (if hs_current_ua s = None then read_if (pr_fd p BatteryCurrent) (read_int64_fd k (pr_fd p BatteryCurrent)) None
          else return_io (hs_current_ua s));
     let s = s\<lparr>hs_voltage_uv := v, hs_current_ua := i\<rparr>;
     e \<leftarrow> read_if (pr_fd p EnergyNow) (read_uint64_fd k (pr_fd p EnergyNow)) (bk_energy_now (ca_battery (pr_cache p)));
     let p = with_battery (\<lambda>b. b\<lparr>bk_energy_now := e,
               bk_voltage := (if pr_fd p BatteryVoltage \<noteq> None then hs_voltage_uv s else bk_voltage b)\<rparr>) p;
     let s = s\<lparr>hs_energy_now_uwh := e\<rparr>;
     p \<leftarrow> refresh_static k p;
     cap \<leftarrow> read_if (pr_fd p Capacity) (read_uint32_fd k (pr_fd p Capacity)) (hs_capacity_percent s);
     return_io (p, s\<lparr>hs_capacity_percent := cap\<rparr>)
   })"

definition battery_by_files :: "kernel \<Rightarrow> capture \<Rightarrow> capture io" where
  "battery_by_files k = (\<lambda>(p, s). do {
     st \<leftarrow> read_string_buf k 32 (pr_fd p BatteryStatus);
     let s = (case st of None \<Rightarrow> s | Some t \<Rightarrow> s\<lparr>hs_discharging := starts_with t ''Discharging''\<rparr>);
     (p, s) \<leftarrow> (if hs_ac_online s \<and> \<not> hs_discharging s \<and> ca_static (pr_cache p) \<and> \<not> on_pass p 30 1
       then return_io (p, s\<lparr>hs_energy_now_uwh := bk_energy_now (ca_battery (pr_cache p)),
                            hs_voltage_uv := bk_voltage (ca_battery (pr_cache p))\<rparr>)
       else battery_detail k (p, s));
     let b = ca_battery (pr_cache p);
     return_io (p, s\<lparr>hs_energy_full_uwh := bk_energy_full b, hs_energy_design_uwh := bk_energy_design b, hx_cycle_count := bk_cycles b\<rparr>)
   })"

definition battery_rail :: "kernel \<Rightarrow> capture \<Rightarrow> capture io" where
  "battery_rail k = (\<lambda>(p, s). case pr_fd p BatteryUevent of
       Some path \<Rightarrow> battery_by_record k path (p, s) | None \<Rightarrow> battery_by_files k (p, s))"

text \<open>The charge thresholds.\<close>

definition poll_thresholds :: "probe \<Rightarrow> bool" where
  "poll_thresholds p \<longleftrightarrow>
     \<not> ca_static (pr_cache p) \<or> ca_ac_transition (pr_cache p) \<or> (pr_fd p AcOnline = None \<and> on_pass p 8 1)"

definition threshold_check :: "kernel \<Rightarrow> capture \<Rightarrow> capture io" where
  "threshold_check k = (\<lambda>(p, s).
     let c = pr_cache p
     in if \<not> poll_thresholds p
        then return_io (p, s\<lparr>hx_charge_start := ca_start c, hs_charge_end := ca_end c, hx_behaviour := ca_behaviour c\<rparr>)
        else do {
          a \<leftarrow> read_if (pr_fd p ThresholdStart) (read_uint32_fd k (pr_fd p ThresholdStart)) (ca_start c);
          e \<leftarrow> read_if (pr_fd p ThresholdEnd) (read_uint32_fd k (pr_fd p ThresholdEnd)) (ca_end c);
          b \<leftarrow> read_string_buf k 32 (pr_fd p ChargeBehaviour);
          let s = s\<lparr>hx_charge_start := a, hs_charge_end := e\<rparr>;
          let p = with_cache (\<lambda>c. c\<lparr>ca_start := a, ca_end := e\<rparr>) p;
          return_io (if pr_fd p ChargeBehaviour = None then (p, s\<lparr>hx_behaviour := ca_behaviour c\<rparr>)
            else case b of None \<Rightarrow> (p, s)
              | Some t \<Rightarrow> let t = fixed_text 32 (trim_sv t) in (with_cache (\<lambda>c. c\<lparr>ca_behaviour := t\<rparr>) p, s\<lparr>hx_behaviour := t\<rparr>))
        })"

definition usbc_check :: "kernel \<Rightarrow> capture \<Rightarrow> capture io" where
  "usbc_check k = (\<lambda>(p, s).
     if pr_fd p UsbcOnline = None then return_io (p, s)
     else do {
       on \<leftarrow> read_uint32_fd k (pr_fd p UsbcOnline);
       v \<leftarrow> read_if (pr_fd p UsbcVoltage) (read_uint64_fd k (pr_fd p UsbcVoltage)) None;
       i \<leftarrow> read_if (pr_fd p UsbcCurrent) (read_uint64_fd k (pr_fd p UsbcCurrent)) None;
       vm \<leftarrow> read_if (pr_fd p UsbcVmax) (read_uint64_fd k (pr_fd p UsbcVmax)) None;
       im \<leftarrow> read_if (pr_fd p UsbcCmax) (read_uint64_fd k (pr_fd p UsbcCmax)) None;
       t \<leftarrow> read_string_buf k 32 (pr_fd p UsbcType);
       let s = s\<lparr>hx_usbc_online := (on = Some 1), hs_usbc_voltage_uv := v, hs_usbc_current_ua := i, hx_usbc_vmax_uv := vm,
                 hx_usbc_cmax_ua := im\<rparr>;
       return_io (if pr_fd p UsbcType = None then (p, s\<lparr>hx_usbc_type := ca_usbc_type (pr_cache p)\<rparr>)
         else case t of None \<Rightarrow> (p, s)
           | Some t \<Rightarrow> let t = fixed_text 32 (trim_sv t) in (with_cache (\<lambda>c. c\<lparr>ca_usbc_type := t\<rparr>) p, s\<lparr>hx_usbc_type := t\<rparr>))
     })"

definition read_peripheral :: "kernel \<Rightarrow> peripheral \<Rightarrow> probed \<Rightarrow> probed io" where
  "read_peripheral k q s =
     (if pf_capacity_fd q = None then return_io s
      else do {
        cap \<leftarrow> read_uint32_fd k (pf_capacity_fd q);
        (case cap of None \<Rightarrow> return_io s
         | Some c \<Rightarrow> do {
             st \<leftarrow> read_string_buf k 16 (pf_status_fd q);
             let pb = \<lparr>pe_name = pf_name q, pe_capacity = c, pe_charging = (case st of None \<Rightarrow> False | Some t \<Rightarrow> starts_with t ''Charging'')\<rparr>;
             return_io (if length (hx_peripherals s) < MAX_PERIPHERALS then s\<lparr>hx_peripherals := hx_peripherals s @ [pb]\<rparr> else s)
           })
      })"

definition peripheral_check :: "kernel \<Rightarrow> capture \<Rightarrow> capture io" where
  "peripheral_check k = (\<lambda>(p, s). do {
     s \<leftarrow> io_for (\<lambda>_. True) (read_peripheral k) (pr_peripherals p) s;
     return_io (p, s)
   })"

subsection \<open>The other subsystems\<close>

text \<open>Frequencies in kHz of the processors that told one: their number, sum, least and greatest.\<close>

definition freq_step :: "kernel \<Rightarrow> string \<Rightarrow> u32 \<times> u64 \<times> u32 \<times> u32 \<Rightarrow> (u32 \<times> u64 \<times> u32 \<times> u32) io" where
  "freq_step k path = (\<lambda>(n, t, lo, hi). do {
     v \<leftarrow> read_uint32_fd k (Some path);
     return_io (case v of None \<Rightarrow> (n, t, lo, hi)
       | Some f \<Rightarrow> if f = 0 then (n, t, lo, hi) else (n + 1, t + ucast f, min lo f, max hi f))
   })"

definition cpu_frequencies :: "kernel \<Rightarrow> probe \<Rightarrow> probed \<Rightarrow> probed io" where
  "cpu_frequencies k p s = do {
     (n, t, lo, hi) \<leftarrow> io_for (\<lambda>_. True) (freq_step k) (pr_freq_fds p) (0, 0, - 1, 0);
     let s = (if n = 0 then s
              else s\<lparr>hs_cores_online := n, hs_freq_min_khz := lo, hs_freq_max_khz := hi,
                     hs_freq_avg_khz := ucast (t div ucast n)\<rparr>);
     return_io (if hs_cores_online s = 0
       then s\<lparr>hs_cores_online := (if 0 < k_online_cpus k then of_int (k_online_cpus k) else 1)\<rparr> else s)
   }"

definition add_state :: "nat \<Rightarrow> u64 \<Rightarrow> u64 \<times> u64 \<times> u64 \<times> u64 \<Rightarrow> u64 \<times> u64 \<times> u64 \<times> u64" where
  "add_state i v = (\<lambda>(a, b, c, d).
     if i = 0 then (a + v, b, c, d) else if i = 1 then (a, b + v, c, d) else if i = 2 then (a, b, c + v, d) else (a, b, c, d + v))"

definition idle_states :: "kernel \<Rightarrow> probe \<Rightarrow> probed \<Rightarrow> probed io" where
  "idle_states k p s =
     io_for (\<lambda>_. True) (\<lambda>states. io_for (\<lambda>_. True) (\<lambda>(i, fd) s. do {
         v \<leftarrow> read_uint64_fd k fd;
         return_io (case v of None \<Rightarrow> s | Some us \<Rightarrow> s\<lparr>hs_cstate_us := add_state i us (hs_cstate_us s)\<rparr>)
       }) (enumerate 0 states)) (pr_cstate_fds p) s"

definition cpu_metrics :: "kernel \<Rightarrow> capture \<Rightarrow> capture io" where
  "cpu_metrics k = (\<lambda>(p, s). do {
     pkg \<leftarrow> read_uint64_fd k (pr_fd p RaplPackage);
     core \<leftarrow> read_uint64_fd k (pr_fd p RaplCore);
     dram \<leftarrow> read_uint64_fd k (pr_fd p RaplDram);
     temp \<leftarrow> read_int32_fd k (pr_fd p CpuTemp);
     gov \<leftarrow> read_string_buf k 16 (pr_fd p CpuGovernor);
     let s = s\<lparr>hs_rapl_uj := pkg, hx_rapl_core_uj := core, hx_rapl_dram_uj := dram, hs_rapl_range_uj := pr_rapl_range p,
               hs_cpu_temp_mdeg := temp, hx_governor := text_or_empty gov\<rparr>;
     s \<leftarrow> cpu_frequencies k p s;
     s \<leftarrow> idle_states k p s;
     return_io (p, s)
   })"

definition gpu_metrics :: "kernel \<Rightarrow> capture \<Rightarrow> capture io" where
  "gpu_metrics k = (\<lambda>(p, s). do {
     let s = s\<lparr>hs_gpu_is_apu := pr_gpu_ppt p, hx_gpu_label := take 15 (pr_gpu_label p)\<rparr>;
     w \<leftarrow> read_uint64_fd k (pr_fd p GpuPower);
     t \<leftarrow> read_int32_fd k (pr_fd p GpuTemp);
     f \<leftarrow> read_uint64_fd k (pr_fd p GpuFreq);
     a \<leftarrow> read_uint32_fd k (pr_fd p GpuIn0);
     b \<leftarrow> read_uint32_fd k (pr_fd p GpuIn1);
     busy \<leftarrow> read_uint32_fd k (pr_fd p GpuBusy);
     u \<leftarrow> read_uint64_fd k (pr_fd p VramUsed);
     v \<leftarrow> read_uint64_fd k (pr_fd p VramTotal);
     l \<leftarrow> read_string_buf k 32 (pr_fd p LinkSpeed);
     lw \<leftarrow> read_uint32_fd k (pr_fd p LinkWidth);
     return_io (p, s\<lparr>hs_gpu_power_uw := w, hs_gpu_temp_mdeg := t, hs_gpu_freq_hz := f, hx_vddgfx_mv := a, hx_vddsoc_mv := b,
       hs_gpu_busy := busy, hs_gpu_vram_used := u, hx_vram_total := v, hx_link_speed := text_or_empty l, hx_link_width := lw\<rparr>)
   })"

definition storage_metrics :: "kernel \<Rightarrow> capture \<Rightarrow> capture io" where
  "storage_metrics k = (\<lambda>(p, s). do {
     st \<leftarrow> read_string_buf k 32 (pr_fd p NvmeStatus);
     let s = (case st of None \<Rightarrow> s | Some t \<Rightarrow> s\<lparr>hs_nvme_active := starts_with t ''active''\<rparr>);
     p \<leftarrow> (if hs_nvme_active s \<and> on_pass p 30 10
          then do {
            a \<leftarrow> read_if (pr_fd p NvmeTemp1) (read_int32_fd k (pr_fd p NvmeTemp1)) (ca_nvme1 (pr_cache p));
            b \<leftarrow> read_if (pr_fd p NvmeTemp2) (read_int32_fd k (pr_fd p NvmeTemp2)) (ca_nvme2 (pr_cache p));
            return_io (with_cache (\<lambda>c. c\<lparr>ca_nvme1 := a, ca_nvme2 := b\<rparr>) p)
          }
          else return_io p);
     let s = s\<lparr>hs_nvme_temp_mdeg := ca_nvme1 (pr_cache p), hx_nvme_sensor1_mdeg := ca_nvme2 (pr_cache p)\<rparr>;
     (case pr_fd p BlockStat of None \<Rightarrow> return_io (p, s)
      | Some path \<Rightarrow> do {
          r \<leftarrow> sys_read_file k path 255;
          return_io (p, case r of None \<Rightarrow> s | Some content \<Rightarrow> parse_block_stat content s)
        })
   })"

text \<open>Sensors behind the slow embedded controller, at most one of them on most passes.\<close>

definition fan_sensors :: "kernel \<Rightarrow> capture \<Rightarrow> capture io" where
  "fan_sensors k = (\<lambda>(p, s). do {
     let c = pr_cache p;
     rpm \<leftarrow> (if ca_fan_rpm c = None \<or> on_pass p 6 1
            then read_if (pr_fd p FanRpm) (read_uint32_fd k (pr_fd p FanRpm)) (ca_fan_rpm c) else return_io (ca_fan_rpm c));
     pwm \<leftarrow> (if ca_fan_pwm c = None \<or> on_pass p 30 3
            then read_if (pr_fd p FanPwm) (read_uint32_fd k (pr_fd p FanPwm)) (ca_fan_pwm c) else return_io (ca_fan_pwm c));
     temp \<leftarrow> (if ca_chassis c = None \<or> on_pass p 30 9
             then read_if (pr_fd p ChassisTemp) (read_int32_fd k (pr_fd p ChassisTemp)) (ca_chassis c) else return_io (ca_chassis c));
     return_io (with_cache (\<lambda>c. c\<lparr>ca_fan_rpm := rpm, ca_fan_pwm := pwm, ca_chassis := temp\<rparr>) p,
       s\<lparr>hs_fan_rpm := rpm, hx_fan_pwm := pwm, hx_chassis_mdeg := temp\<rparr>)
   })"

definition kbdlight_of :: "string \<Rightarrow> u32 option" where
  "kbdlight_of t = Option.bind (strstr t (''status:'' @ [TAB])) (\<lambda>r. from_chars_value (drop 8 r))"

definition panel_sensors :: "kernel \<Rightarrow> capture \<Rightarrow> capture io" where
  "panel_sensors k = (\<lambda>(p, s). do {
     (p, s) \<leftarrow> (if pr_fd p Kbdlight = None then return_io (p, s)
       else do {
         t \<leftarrow> (if on_pass p 30 15 then read_string_buf k 64 (pr_fd p Kbdlight) else return_io None);
         let p = with_cache (\<lambda>c. updated (Option.bind t kbdlight_of) (\<lambda>v c. c\<lparr>ca_kbdlight := v\<rparr>) c) p;
         return_io (p, s\<lparr>hx_kbdlight := Some (ca_kbdlight (pr_cache p))\<rparr>)
       });
     (if pr_fd p Bluetooth = None then return_io (p, s)
      else do {
        t \<leftarrow> (if on_pass p 30 21 then read_string_buf k 64 (pr_fd p Bluetooth) else return_io None);
        let p = with_cache (\<lambda>c. updated t (\<lambda>t c. c\<lparr>ca_bluetooth := str_contains t ''enabled''\<rparr>) c) p;
        return_io (p, s\<lparr>hx_bluetooth := Some (ca_bluetooth (pr_cache p))\<rparr>)
      })
   })"

definition display_wireless :: "kernel \<Rightarrow> capture \<Rightarrow> capture io" where
  "display_wireless k = (\<lambda>(p, s). do {
     b \<leftarrow> read_uint32_fd k (pr_fd p BacklightCur);
     m \<leftarrow> read_uint32_fd k (pr_fd p BacklightMax);
     st \<leftarrow> read_string_buf k 32 (pr_fd p WifiStatus);
     let s = s\<lparr>hs_backlight := b, hs_backlight_max := m\<rparr>;
     let s = (case st of None \<Rightarrow> s | Some t \<Rightarrow> s\<lparr>hx_wifi_active := starts_with t ''active''\<rparr>);
     p \<leftarrow> (if on_pass p 5 1 \<or> ca_wifi_temp (pr_cache p) = None
          then do {
            t \<leftarrow> read_if (pr_fd p WifiTemp) (read_int32_fd k (pr_fd p WifiTemp)) (ca_wifi_temp (pr_cache p));
            let p = with_cache (\<lambda>c. c\<lparr>ca_wifi_temp := t\<rparr>) p;
            (if pr_fd p AspmPolicy = None \<or> ca_aspm_read (pr_cache p) then return_io p
             else do {
               r \<leftarrow> read_string_buf k 32 (pr_fd p AspmPolicy);
               return_io (with_cache (\<lambda>c. c\<lparr>ca_aspm := text_or_empty r, ca_aspm_read := True\<rparr>) p)
             })
          }
          else return_io p);
     return_io (p, s\<lparr>hx_wifi_temp_mdeg := ca_wifi_temp (pr_cache p), hs_aspm_policy := ca_aspm (pr_cache p)\<rparr>)
   })"

subsection \<open>Counters and registers\<close>

definition add_counter :: "nat \<Rightarrow> u64 \<Rightarrow> probed \<Rightarrow> probed" where
  "add_counter ev v s =
     (if ev = 0 then s\<lparr>hs_pmu_instructions := hs_pmu_instructions s + v\<rparr>
      else if ev = 1 then s\<lparr>hs_pmu_cycles := hs_pmu_cycles s + v\<rparr>
      else if ev = 2 then s\<lparr>hs_pmu_llc := hs_pmu_llc s + v\<rparr>
      else s\<lparr>hs_pmu_branch := hs_pmu_branch s + v\<rparr>)"

definition read_counters :: "kernel \<Rightarrow> probe \<Rightarrow> probed \<Rightarrow> probed io" where
  "read_counters k p s =
     io_for (\<lambda>_. True) (\<lambda>(cpu, fds). io_for (\<lambda>_. True) (\<lambda>(ev, opened) s.
         if \<not> opened then return_io s
         else do { v \<leftarrow> sys_perf_read k cpu ev; return_io (case v of None \<Rightarrow> s | Some v \<Rightarrow> add_counter ev v s) })
       (enumerate 0 fds)) (enumerate 0 (pr_pmu p)) s"

definition stall_cost :: "probed \<Rightarrow> float64" where
  "stall_cost s = add64 (mul64 (Fin 200) (dbl (hs_pmu_llc s))) (mul64 (Fin 30) (dbl (hs_pmu_branch s)))"

definition energy_proxy :: "probed \<Rightarrow> probed" where
  "energy_proxy s =
     (let s = (if 0 < hs_pmu_cycles s \<and> 0 < hs_pmu_instructions s
               then s\<lparr>hs_pmu_ipc := div64 (dbl (hs_pmu_instructions s)) (dbl (hs_pmu_cycles s))\<rparr> else s)
      in if hs_pmu_instructions s = 0 then s
         else let epi = add64 (add64 (mul64 (dbl (hs_pmu_instructions s)) (hs_pmu_ipc s)) (mul64 (Fin 200) (dbl (hs_pmu_llc s))))
                          (mul64 (Fin 30) (dbl (hs_pmu_branch s)))
              in s\<lparr>hx_energy_proxy := epi,
                   hx_waste_ratio := (if fp_gt epi (Fin 0) then fp_clamp (mul64 (div64 (stall_cost s) epi) (Fin 100)) (Fin 0) (Fin 100)
                                      else Fin 0)\<rparr>)"

text \<open>The generation of a link from the text of its speed.\<close>

definition link_generation :: "string \<Rightarrow> u8 option" where
  "link_generation t =
     (if str_contains t ''16.0'' then Some 4 else if str_contains t ''8.0'' then Some 3 else if str_contains t ''5.0'' then Some 2
      else if str_contains t ''2.5'' then Some 1 else if str_contains t ''32.0'' then Some 5 else None)"

text \<open>\<open>None\<close> would be an access outside the bytes read.\<close>

definition read_pcie_binary_link_status :: "kernel \<Rightarrow> string option \<Rightarrow> (u8 \<times> u8) option io" where
  "read_pcie_binary_link_status k fd =
     (case fd of None \<Rightarrow> return_io (Some (0, 0))
      | Some path \<Rightarrow> do {
          r \<leftarrow> sys_read_file k path 256;
          return_io (case r of None \<Rightarrow> Some (0, 0)
            | Some s \<Rightarrow> if 64 < length s then decode_pcie_link_status (map byte_of s) else Some (0, 0))
        })"

definition pcie_link :: "kernel \<Rightarrow> probe \<Rightarrow> probed \<Rightarrow> probed option io" where
  "pcie_link k p s = do {
     r \<leftarrow> (if pr_gpu_config p = None then return_io (Some (0, 0)) else read_pcie_binary_link_status k (pr_gpu_config p));
     (case r of None \<Rightarrow> return_io None
      | Some (g, l) \<Rightarrow> do {
          let s = (if 0 < g then s\<lparr>hx_link_gen := g, hx_link_lanes := l\<rparr> else s);
          t \<leftarrow> (if hx_link_gen s = 0 then read_string_buf k 32 (pr_fd p LinkSpeed) else return_io None);
          let s = updated (Option.bind t link_generation) (\<lambda>g s. s\<lparr>hx_link_gen := g\<rparr>) s;
          w \<leftarrow> (if hx_link_lanes s = 0 then read_uint32_fd k (pr_fd p LinkWidth) else return_io None);
          return_io (Some (updated w (\<lambda>w s. s\<lparr>hx_link_lanes := ucast w\<rparr>) s))
        })
   }"

definition core_voltage :: "u64 \<Rightarrow> u32 option" where
  "core_voltage msr =
     (let vid = (msr div 16384) mod 256; mv = 1550 - uint vid * 625 div 100
      in if 0 < vid \<and> 200 < mv \<and> mv < 2000 then Some (of_int mv) else None)"

definition core_vid :: "kernel \<Rightarrow> probe \<Rightarrow> probed \<Rightarrow> probed io" where
  "core_vid k p s = do {
     v \<leftarrow> (if pr_msr p then sys_msr k 0xC0010064 else return_io None);
     let s = updated (Option.bind v core_voltage) (\<lambda>mv s. s\<lparr>hx_core_vid_mv := Some mv\<rparr>) s;
     return_io (if hx_core_vid_mv s = None \<and> hx_vddgfx_mv s \<noteq> None then s\<lparr>hx_core_vid_mv := hx_vddgfx_mv s\<rparr> else s)
   }"

definition capture_subsystems :: "kernel \<Rightarrow> capture \<Rightarrow> capture option io" where
  "capture_subsystems k c = do {
     c \<leftarrow> cpu_metrics k c;
     c \<leftarrow> gpu_metrics k c;
     c \<leftarrow> storage_metrics k c;
     c \<leftarrow> fan_sensors k c;
     c \<leftarrow> panel_sensors k c;
     (p, s) \<leftarrow> display_wireless k c;
     s \<leftarrow> read_counters k p s;
     r \<leftarrow> pcie_link k p (energy_proxy s);
     (case r of None \<Rightarrow> return_io None
      | Some s \<Rightarrow> do { s \<leftarrow> core_vid k p s; return_io (Some (p, s)) })
   }"

definition begin_capture :: "kernel \<Rightarrow> probe \<Rightarrow> capture io" where
  "begin_capture k p = do {
     t \<leftarrow> sys_now_boot k;
     return_io (p\<lparr>pr_counter := pr_counter p + 1\<rparr>, probed_new\<lparr>hs_time_ns := t\<rparr>)
   }"

definition capture_sample :: "kernel \<Rightarrow> probe \<Rightarrow> capture option io" where
  "capture_sample k p = do {
     c \<leftarrow> begin_capture k p;
     c \<leftarrow> ac_check k c;
     c \<leftarrow> battery_rail k c;
     c \<leftarrow> threshold_check k c;
     c \<leftarrow> usbc_check k c;
     c \<leftarrow> peripheral_check k c;
     capture_subsystems k c
   }"

definition capture_sample_desktop :: "kernel \<Rightarrow> probe \<Rightarrow> capture option io" where
  "capture_sample_desktop k p = do {
     (p, s) \<leftarrow> begin_capture k p;
     capture_subsystems k (p, s\<lparr>hs_ac_online := True, hs_discharging := False\<rparr>)
   }"

end
