(* ===== verification/Hw_Safety.thy ===== *)
theory Hw_Safety
  imports Hw_Probe Machines
begin

text \<open>
  What the hardware probe is sure of: a sample only reads and never leaves the bytes it read, whatever the
  devices answer, and what the probe misses.
\<close>

section \<open>The link decoder\<close>

lemma byte_at_some: "i < length bs \<Longrightarrow> byte_at bs i = Some (bs ! i)"
  by (simp add: byte_at_def)

lemma half_at_some: "i + 1 < length bs \<Longrightarrow> \<exists>v. half_at bs i = Some v"
  by (simp add: half_at_def byte_at_def)

lemma small_u8: "n < 256 \<Longrightarrow> uint (of_nat n :: u8) = int n"
  by (simp add: unsigned_of_nat take_bit_nat_eq_self)

definition link_ok :: "(u8 \<times> u8) option \<Rightarrow> bool" where
  "link_ok r \<longleftrightarrow> (\<exists>g l. r = Some (g, l) \<and> uint g < 16 \<and> uint l < 64)"

lemma link_ok_zero [simp]: "link_ok (Some (0, 0))"
  by (simp add: link_ok_def)

lemma walk_capabilities_ok: "link_ok (walk_capabilities bs hops c)"
proof (induction hops arbitrary: c)
  case (Suc hops)
  show ?case
  proof (cases "64 \<le> c \<and> c + 20 \<le> length bs")
    case True
    obtain link where link: "half_at bs (c + 18) = Some link" using half_at_some [of "c + 18" bs] True by auto
    have "link_ok (Some (of_nat (link mod 16), of_nat (link div 16 mod 64)))"
      by (simp add: link_ok_def small_u8)
    then show ?thesis using True link Suc by (simp add: byte_at_some)
  qed simp
qed simp

lemma decode_ok: "link_ok (decode_pcie_link_status bs)"
proof (cases "length bs < 64")
  case False
  then obtain status where "half_at bs 6 = Some status" using half_at_some [of 6 bs] by auto
  then show ?thesis using False walk_capabilities_ok by (simp add: decode_pcie_link_status_def byte_at_some)
qed (simp add: decode_pcie_link_status_def)

section \<open>A sample only reads\<close>

text \<open>A capture changes nothing of the probe but its pass counter and what it remembers.\<close>

definition same_files :: "probe \<Rightarrow> probe \<Rightarrow> bool" where
  "same_files p q \<longleftrightarrow> (\<exists>c. q = p\<lparr>pr_cache := c\<rparr>)"

lemma same_files_refl [simp]: "same_files p p"
  unfolding same_files_def by (rule exI [of _ "pr_cache p"]) simp

lemma same_files_trans: "same_files p q \<Longrightarrow> same_files q r \<Longrightarrow> same_files p r"
  by (auto simp: same_files_def)

lemma same_files_cache [simp]:
  "same_files p (with_cache f p)" "same_files p (with_battery g p)" "same_files p q \<Longrightarrow> same_files p (with_cache f q)"
  "same_files p q \<Longrightarrow> same_files p (with_battery g q)"
  "same_files p (p\<lparr>pr_cache := c\<rparr>)"
  by (auto simp: same_files_def with_cache_def with_battery_def)

abbreviation samples :: "capture io \<Rightarrow> probe \<Rightarrow> bool" where
  "samples m p \<equiv> io_ok is_read_event m (\<lambda>c. same_files p (fst c))"

lemma emits_read_number [io_specs]: "emits is_read_event (read_number_fd k n f fd)"
  unfolding read_number_fd_def sys_defs by (intro io_rules) auto

lemma emits_read_string [io_specs]: "emits is_read_event (read_string_buf k n fd)"
  unfolding read_string_buf_def sys_defs by (intro io_rules) auto

lemma emits_numbers [io_specs]:
  "emits is_read_event (read_uint64_fd k fd)" "emits is_read_event (read_int64_fd k fd)"
  "emits is_read_event (read_uint32_fd k fd)" "emits is_read_event (read_int32_fd k fd)"
  unfolding read_uint64_fd_def read_int64_fd_def read_uint32_fd_def read_int32_fd_def by (rule emits_read_number)+

lemma emits_read_if [io_specs]: "emits P m \<Longrightarrow> emits P (read_if fd m old)"
  unfolding read_if_def by (intro io_rules) auto

lemma samples_then:
  "samples m p \<Longrightarrow> (\<And>q s. same_files p q \<Longrightarrow> samples (f (q, s)) q) \<Longrightarrow> samples (m \<bind> f) p"
  by (erule io_ok_bind) (force intro: io_ok_mono same_files_trans)

lemma samples_ac: "samples (ac_check k (p, s)) p"
  unfolding ac_check_def prod.case Let_def
  by (rule io_ok_if, (auto)[1], rule io_ok_bind [where R = "same_files p"])
    (auto intro!: io_rules io_specs)

lemma samples_record: "samples (battery_by_record k path (p, s)) p"
  unfolding battery_by_record_def prod.case sys_defs
  by (intro io_ok_if io_ok_return io_ok_bind_any emits_syscall) (auto simp: Let_def split: option.split)

lemma samples_detail: "samples (battery_detail k (p, s)) p"
proof -
  have power: "emits is_read_event (power_by_files k p s)" for p s
    unfolding power_by_files_def by (intro io_rules io_specs) (rule TrueI)+
  have maybe: "emits is_read_event (if b then read_if fd (read_uint64_fd k fd') x else return_io y)" for b fd fd' x y
    by (auto intro!: io_specs)
  have maybe': "emits is_read_event (if b then read_if fd (read_int64_fd k fd') x else return_io y)" for b fd fd' x y
    by (auto intro!: io_specs)
  have static: "io_ok is_read_event (refresh_static k p) (same_files p)" for p
    unfolding refresh_static_def Let_def by (intro io_rules io_specs) auto
  show ?thesis
    unfolding battery_detail_def prod.case Let_def
    by (rule io_ok_bind_any [OF power], rule io_ok_bind_any [OF maybe], rule io_ok_bind_any [OF maybe'], rule io_ok_bind_any,
        rule io_specs, rule io_specs, rule io_ok_bind [OF static], rule io_ok_bind_any, rule io_specs, rule io_specs,
        rule io_ok_return)
      (auto intro: same_files_trans [OF same_files_cache(2)])
qed

lemma samples_files: "samples (battery_by_files k (p, s)) p"
proof -
  have step: "samples (if b then return_io (p, t) else battery_detail k (p, t')) p" for b t t'
    by (intro io_ok_if io_ok_return samples_detail) simp
  show ?thesis
    unfolding battery_by_files_def prod.case Let_def
    by (rule io_ok_bind_any [OF emits_read_string], rule samples_then [OF step]) (auto intro: io_ok_return)
qed

lemma samples_battery: "samples (battery_rail k (p, s)) p"
  unfolding battery_rail_def prod.case by (intro io_ok_option samples_record samples_files)

lemma samples_thresholds: "samples (threshold_check k (p, s)) p"
  unfolding threshold_check_def prod.case Let_def
  by (intro io_ok_if io_ok_return io_ok_bind_any io_specs) (auto simp: Let_def split: option.split)

text \<open>What the sections behind the thresholds leave alone: the state of the supply and the thresholds.\<close>

definition supply_state :: "probe \<Rightarrow> bool \<times> bool \<times> bool \<times> u32 option \<times> u32 option" where
  "supply_state p = (let c = pr_cache p in (ca_static c, ca_ac_online c, ca_ac_transition c, ca_start c, ca_end c))"

definition thresholds :: "probed \<Rightarrow> u32 option \<times> u32 option" where
  "thresholds s = (hx_charge_start s, hs_charge_end s)"

definition keeps :: "capture \<Rightarrow> capture \<Rightarrow> bool" where
  "keeps c d \<longleftrightarrow> same_files (fst c) (fst d) \<and> supply_state (fst d) = supply_state (fst c) \<and> thresholds (snd d) = thresholds (snd c)"

lemma keeps_trans: "keeps c d \<Longrightarrow> keeps d e \<Longrightarrow> keeps c e"
  by (auto simp: keeps_def intro: same_files_trans)

abbreviation keeping :: "capture io \<Rightarrow> capture \<Rightarrow> bool" where
  "keeping m c \<equiv> io_ok is_read_event m (keeps c)"

abbreviation unaltered :: "probed io \<Rightarrow> probed \<Rightarrow> bool" where
  "unaltered m s \<equiv> io_ok is_read_event m (\<lambda>t. thresholds t = thresholds s)"

lemma unaltered_for:
  assumes "\<And>x s. unaltered (f x s) s"
  shows "unaltered (io_for (\<lambda>_. True) f xs s) s"
proof (rule io_ok_for [where Q = "\<lambda>t. thresholds t = thresholds s"])
  fix x t assume "thresholds t = thresholds s"
  then show "unaltered (f x t) s" using assms [of x t] by simp
qed simp

lemmas keeps_defs = keeps_def supply_state_def thresholds_def with_cache_def updated_def Let_def

lemma keeping_then: "keeping m c \<Longrightarrow> (\<And>d. keeping (f d) d) \<Longrightarrow> keeping (m \<bind> f) c"
  by (erule io_ok_bind) (force intro: io_ok_mono keeps_trans)

lemma keeping_usbc: "keeping (usbc_check k c) c"
  unfolding usbc_check_def Let_def
  by (cases c, simp only: prod.case, intro io_ok_if io_ok_return io_ok_bind_any io_specs) (auto simp: keeps_defs split: option.split)

lemma keeping_peripherals: "keeping (peripheral_check k c) c"
proof -
  have one: "unaltered (read_peripheral k q s) s" for q s
    unfolding read_peripheral_def Let_def
    by (intro io_ok_if io_ok_return io_ok_bind_any io_ok_option io_specs) (auto simp: thresholds_def)
  show ?thesis
    unfolding peripheral_check_def
    by (cases c, simp only: prod.case, rule io_ok_bind [OF unaltered_for [OF one]], rule io_ok_return) (simp add: keeps_defs)
qed

lemma keeping_cpu: "keeping (cpu_metrics k c) c"
proof -
  have freq: "unaltered (cpu_frequencies k p s) s" for p s
    unfolding cpu_frequencies_def Let_def
    by (rule io_ok_bind_any, auto intro!: io_rules io_specs simp: freq_step_def) (auto simp: thresholds_def)
  have idle: "unaltered (idle_states k p s) s" for p s
    unfolding idle_states_def
    by (rule unaltered_for, rule unaltered_for) (auto intro!: io_ok_bind_any io_specs simp: thresholds_def split: option.split)
  show ?thesis
    unfolding cpu_metrics_def Let_def
    by (cases c, simp only: prod.case, rule io_ok_bind_any, rule io_specs, rule io_ok_bind_any, rule io_specs, rule io_ok_bind_any,
        rule io_specs, rule io_ok_bind_any, rule io_specs, rule io_ok_bind_any, rule io_specs, rule io_ok_bind [OF freq],
        rule io_ok_bind [OF idle], rule io_ok_return) (simp add: keeps_defs)
qed

lemma keeping_gpu: "keeping (gpu_metrics k c) c"
  unfolding gpu_metrics_def Let_def
  by (cases c, simp only: prod.case, intro io_ok_bind_any io_specs io_ok_return) (simp add: keeps_defs)

text \<open>A step that only renews what is remembered of some sensors.\<close>

definition renews :: "probe \<Rightarrow> probe \<Rightarrow> bool" where
  "renews p q \<longleftrightarrow> same_files p q \<and> supply_state q = supply_state p"

lemma renews_cache: "renews p p" "supply_state (with_cache f p) = supply_state p \<Longrightarrow> renews p (with_cache f p)"
  by (simp_all add: renews_def)

lemma thresholds_block: "thresholds (block_tokens n t s) = thresholds s"
  by (induction n t s rule: block_tokens.induct)
    (auto simp: Let_def updated_def set_block_token_def thresholds_def split: option.split)

lemma keeping_storage: "keeping (storage_metrics k c) c"
proof -
  have temps: "io_ok is_read_event (if b
       then do {
         x \<leftarrow> read_if fd (read_int32_fd k fd) u;
         y \<leftarrow> read_if fe (read_int32_fd k fe) v;
         return_io (with_cache (\<lambda>c. c\<lparr>ca_nvme1 := x, ca_nvme2 := y\<rparr>) p)
       }
       else return_io p) (renews p)" for b fd fe u v p
    by (intro io_ok_if io_ok_bind_any io_specs io_ok_return renews_cache) (simp add: keeps_defs)
  show ?thesis
    unfolding storage_metrics_def Let_def
    by (cases c, simp only: prod.case, rule io_ok_bind_any [OF emits_read_string], rule io_ok_bind [OF temps])
      (auto intro!: io_rules simp: sys_defs renews_def keeps_defs parse_block_stat_def thresholds_block [unfolded thresholds_def, simplified] split: option.split)
qed

lemma keeping_fan: "keeping (fan_sensors k c) c"
  unfolding fan_sensors_def Let_def
  by (cases c, simp only: prod.case, intro io_ok_bind_any io_ok_if io_specs io_ok_return) (simp_all add: keeps_defs)

lemma keeping_panel: "keeping (panel_sensors k c) c"
  unfolding panel_sensors_def Let_def
  by (cases c, simp only: prod.case, rule keeping_then)
    (auto intro!: io_ok_if io_ok_bind_any io_specs io_ok_return simp: keeps_defs split: option.split)

lemma keeping_display: "keeping (display_wireless k c) c"
proof -
  have temps: "io_ok is_read_event (if b
       then do {
         t \<leftarrow> read_if fd (read_int32_fd k fd) u;
         if pr_fd (with_cache (\<lambda>c. c\<lparr>ca_wifi_temp := t\<rparr>) p) AspmPolicy = None \<or>
            ca_aspm_read (pr_cache (with_cache (\<lambda>c. c\<lparr>ca_wifi_temp := t\<rparr>) p))
         then return_io (with_cache (\<lambda>c. c\<lparr>ca_wifi_temp := t\<rparr>) p)
         else do {
           r \<leftarrow> read_string_buf k 32 (pr_fd (with_cache (\<lambda>c. c\<lparr>ca_wifi_temp := t\<rparr>) p) AspmPolicy);
           return_io (with_cache (\<lambda>c. c\<lparr>ca_aspm := text_or_empty r, ca_aspm_read := True\<rparr>) (with_cache (\<lambda>c. c\<lparr>ca_wifi_temp := t\<rparr>) p))
         }
       }
       else return_io p) (renews p)" for b fd u p
    by (intro io_ok_if io_ok_bind_any io_specs io_ok_return) (simp_all add: renews_def keeps_defs)
  show ?thesis
    unfolding display_wireless_def Let_def
    by (cases c, simp only: prod.case, rule io_ok_bind_any [OF emits_numbers(3)], rule io_ok_bind_any [OF emits_numbers(3)],
        rule io_ok_bind_any [OF emits_read_string], rule io_ok_bind [OF temps], rule io_ok_return)
      (auto simp: renews_def keeps_defs split: option.split)
qed

lemma unaltered_counters: "unaltered (read_counters k p s) s"
  unfolding read_counters_def sys_defs
  by (rule unaltered_for, simp only: split_def, rule unaltered_for)
    (auto intro!: io_rules simp: add_counter_def thresholds_def split: option.split)

lemma thresholds_proxy [simp]: "thresholds (energy_proxy s) = thresholds s"
  by (simp add: energy_proxy_def thresholds_def Let_def)

lemma pcie_link_ok: "io_ok is_read_event (pcie_link k p s) (\<lambda>r. \<exists>t. r = Some t \<and> thresholds t = thresholds s)"
proof -
  have "io_ok is_read_event (read_pcie_binary_link_status k fd) link_ok" for fd
    unfolding read_pcie_binary_link_status_def sys_defs
    by (intro io_ok_option io_ok_return io_ok_bind_any emits_syscall) (auto simp: decode_ok split: option.split)
  then have r: "io_ok is_read_event (if pr_gpu_config p = None then return_io (Some (0, 0))
      else read_pcie_binary_link_status k (pr_gpu_config p)) link_ok"
    by (intro io_ok_if io_ok_return) auto
  show ?thesis
    unfolding pcie_link_def Let_def
    by (rule io_ok_bind [OF r], rule io_ok_option)
      (auto simp: link_ok_def thresholds_def updated_def intro!: io_rules io_specs split: option.split)
qed

lemma unaltered_core_vid: "unaltered (core_vid k p s) s"
  unfolding core_vid_def sys_defs Let_def
  by (intro io_ok_bind_any io_rules) (auto simp: thresholds_def updated_def split: option.split)

definition kept :: "capture \<Rightarrow> capture option \<Rightarrow> bool" where
  "kept c r \<longleftrightarrow> (\<exists>d. r = Some d \<and> keeps c d)"

lemma kept_then:
  "keeping m c \<Longrightarrow> (\<And>d. io_ok is_read_event (f d) (kept d)) \<Longrightarrow> io_ok is_read_event (m \<bind> f) (kept c)"
  by (erule io_ok_bind) (force simp: kept_def intro: io_ok_mono keeps_trans)

lemma subsystems_ok: "io_ok is_read_event (capture_subsystems k c) (kept c)"
proof -
  have rest: "io_ok is_read_event (read_counters k p s \<bind> (\<lambda>s. pcie_link k p (energy_proxy s) \<bind> (\<lambda>r. case r of
        None \<Rightarrow> return_io None | Some s \<Rightarrow> core_vid k p s \<bind> (\<lambda>s. return_io (Some (p, s)))))) (kept (p, s))" for p s
    by (rule io_ok_bind [OF unaltered_counters], rule io_ok_bind [OF pcie_link_ok], rule io_ok_option, simp,
        rule io_ok_bind [OF unaltered_core_vid]) (auto simp: kept_def keeps_def)
  show ?thesis
    unfolding capture_subsystems_def
    by (rule kept_then [OF keeping_cpu], rule kept_then [OF keeping_gpu], rule kept_then [OF keeping_storage],
        rule kept_then [OF keeping_fan], rule kept_then [OF keeping_panel], rule kept_then [OF keeping_display])
      (use rest in \<open>simp add: split_paired_all\<close>)
qed

lemma capture_result:
  "io_ok is_read_event (capture_sample k p)
    (\<lambda>r. \<exists>c s. r = Some (p\<lparr>pr_counter := pr_counter p + 1, pr_cache := c\<rparr>, s))"
proof -
  let ?p = "p\<lparr>pr_counter := pr_counter p + 1\<rparr>"
  let ?Q = "\<lambda>p r. \<exists>q t. r = Some (q :: probe, t :: probed) \<and> same_files p q"
  have chain: "io_ok is_read_event (m \<bind> f) (?Q p)"
    if "samples m p" "\<And>q s. io_ok is_read_event (f (q, s)) (?Q q)" for m :: "capture io" and f p
    by (rule io_ok_bind [OF that(1)]) (use that(2) in \<open>force intro: io_ok_mono same_files_trans\<close>)
  have begin_ok: "samples (begin_capture k p) ?p"
    unfolding begin_capture_def sys_defs by (auto intro!: io_ok_bind_any emits_syscall)
  have rest: "io_ok is_read_event (do { c \<leftarrow> usbc_check k c; c \<leftarrow> peripheral_check k c; capture_subsystems k c }) (?Q (fst c))" for c
    by (rule io_ok_mono [OF kept_then [OF keeping_usbc kept_then [OF keeping_peripherals subsystems_ok]]])
      (auto simp: kept_def keeps_def)
  have "io_ok is_read_event (capture_sample k p) (?Q ?p)"
    unfolding capture_sample_def
    by (rule chain [OF begin_ok], rule chain [OF samples_ac], rule chain [OF samples_battery], rule chain [OF samples_thresholds])
      (use rest in force)
  then show ?thesis by (rule io_ok_mono) (auto simp: same_files_def)
qed

text \<open>C33. Taking a sample of the hardware is safe.  Whatever the devices answer, however malformed the configuration
  space of a PCI device is (loops in its chain of capabilities included), the capture ends, only reads, never
  accesses a byte it did not read, and changes of the probe nothing but its pass counter and what it remembers.
\<close>

theorem hardware_sample_safe:
  "io_ok is_read_event (capture_sample k p)
    (\<lambda>r. \<exists>c s. r = Some (p\<lparr>pr_counter := pr_counter p + 1, pr_cache := c\<rparr>, s))"
  by (rule capture_result)

section \<open>The charge thresholds\<close>

fun samples_in_row :: "kernel \<Rightarrow> nat \<Rightarrow> probe \<Rightarrow> probed list option io" where
  "samples_in_row k 0 p = return_io (Some [])"
| "samples_in_row k (Suc n) p = do {
     r \<leftarrow> capture_sample k p;
     (case r of None \<Rightarrow> return_io None
      | Some (p, s) \<Rightarrow> do { rs \<leftarrow> samples_in_row k n p; return_io (map_option (Cons s) rs) })
   }"

text \<open>The supply answers the same all the time, and the battery's record can be read.\<close>

definition steady :: "kernel \<Rightarrow> string \<Rightarrow> string \<Rightarrow> string \<Rightarrow> bool" where
  "steady k ac answer bat \<longleftrightarrow>
     (\<forall>h. k_read_file k h ac 31 = Some answer \<and> (\<exists>c. c \<noteq> [] \<and> k_read_file k h bat 1023 = Some c))"

definition online_of :: "string \<Rightarrow> bool" where
  "online_of answer \<longleftrightarrow> answer \<noteq> [] \<and> from_chars_value (skip_leading (take 31 answer)) = Some (1 :: u32)"

text \<open>Nothing read of the thresholds and no change of the supply seen; after the first check the supply is known.\<close>

definition unread :: "string \<Rightarrow> string \<Rightarrow> probe \<Rightarrow> bool" where
  "unread ac bat p \<longleftrightarrow> pr_fd p AcOnline = Some ac \<and> pr_fd p BatteryUevent = Some bat \<and>
     ca_start (pr_cache p) = None \<and> ca_end (pr_cache p) = None \<and> \<not> ca_ac_transition (pr_cache p)"

definition supply_known :: "bool \<Rightarrow> probe \<Rightarrow> bool" where
  "supply_known on p \<longleftrightarrow> ca_ac_online (pr_cache p) = on"

lemma yields_io_ok: "io_ok P m Q \<Longrightarrow> yields m Q"
  by (simp add: io_ok_def yields_def)

lemma read_supply:
  assumes "steady k ac answer bat"
  shows "yields (read_uint32_fd k (Some ac)) (\<lambda>v. v = Some 1 \<longleftrightarrow> online_of answer)"
  using assms by (auto simp: yields_def read_uint32_fd_def read_number_fd_def sys_read_file_def steady_def online_of_def)

lemma unread_ac:
  assumes "steady k ac answer bat" "unread ac bat p" "ca_static (pr_cache p) \<longrightarrow> supply_known (online_of answer) p"
  shows "yields (ac_check k (p, s)) (\<lambda>(q, t). unread ac bat q \<and> supply_known (online_of answer) q)"
proof -
  have ac: "pr_fd p AcOnline = Some ac" using assms(2) by (simp add: unread_def)
  show ?thesis
  proof (cases "\<not> ca_static (pr_cache p) \<or> on_pass p 4 1")
    case True
    then show ?thesis
      unfolding ac_check_def prod.case ac Let_def
      by (simp, intro yields_bind [OF read_supply [OF assms(1)]])
        (use assms(2,3) in \<open>auto simp: unread_def supply_known_def with_cache_def\<close>)
  next
    case False
    then show ?thesis using assms(2,3) by (simp add: ac_check_def ac)
  qed
qed

lemma unread_battery:
  assumes "steady k ac answer bat" "unread ac bat p" "supply_known on p"
  shows "yields (battery_rail k (p, s)) (\<lambda>(q, t). unread ac bat q \<and> supply_known on q \<and> ca_static (pr_cache q))"
proof -
  have bat: "pr_fd p BatteryUevent = Some bat" using assms(2) by (simp add: unread_def)
  have static: "skip_battery p s \<Longrightarrow> ca_static (pr_cache p)" by (auto simp: skip_battery_def split: if_splits)
  have c: "k_read_file k h bat 1023 \<noteq> None" "k_read_file k h bat 1023 \<noteq> Some []" for h
    using assms(1) by (metis steady_def option.distinct(1), metis steady_def option.inject)
  show ?thesis
    unfolding battery_rail_def prod.case bat option.case battery_by_record_def
    using static assms(2,3)
    by (auto simp: yields_def sys_read_file_def unread_def supply_known_def with_cache_def Let_def c split: option.split)
qed

lemma unread_thresholds:
  assumes "unread ac bat q" "ca_static (pr_cache q)"
  shows "threshold_check k (q, t) = return_io (q, t\<lparr>hx_charge_start := None, hs_charge_end := None,
     hx_behaviour := ca_behaviour (pr_cache q)\<rparr>)"
  using assms by (simp add: threshold_check_def poll_thresholds_def unread_def)

lemma sample_without_thresholds:
  assumes "steady k ac answer bat" "unread ac bat p" "ca_static (pr_cache p) \<longrightarrow> supply_known (online_of answer) p"
  shows "yields (capture_sample k p) (\<lambda>r. \<exists>q s. r = Some (q, s) \<and> unread ac bat q \<and> supply_known (online_of answer) q \<and>
     thresholds s = (None, None))"
proof -
  have rest: "io_ok is_read_event (do { c \<leftarrow> usbc_check k c; c \<leftarrow> peripheral_check k c; capture_subsystems k c }) (kept c)" for c
    by (rule kept_then [OF keeping_usbc kept_then [OF keeping_peripherals subsystems_ok]])
  have tail: "yields (do { c \<leftarrow> threshold_check k (q, t); c \<leftarrow> usbc_check k c; c \<leftarrow> peripheral_check k c; capture_subsystems k c })
      (\<lambda>r. \<exists>q s. r = Some (q, s) \<and> unread ac bat q \<and> supply_known (online_of answer) q \<and> thresholds s = (None, None))"
    if q: "unread ac bat q" "supply_known (online_of answer) q" "ca_static (pr_cache q)" for q t
  proof -
    let ?t = "t\<lparr>hx_charge_start := None, hs_charge_end := None, hx_behaviour := ca_behaviour (pr_cache q)\<rparr>"
    have "yields (do { c \<leftarrow> usbc_check k (q, ?t); c \<leftarrow> peripheral_check k c; capture_subsystems k c }) (kept (q, ?t))"
      by (rule yields_io_ok [OF rest])
    then show ?thesis
      unfolding unread_thresholds [OF q(1,3)] using q
      by (fastforce simp: yields_def kept_def keeps_def same_files_def supply_state_def thresholds_def unread_def supply_known_def Let_def)
  qed
  have begin_keeps: "yields (begin_capture k p)
      (\<lambda>(q, s). unread ac bat q \<and> (ca_static (pr_cache q) \<longrightarrow> supply_known (online_of answer) q))"
    using assms(2,3) by (simp add: begin_capture_def sys_defs yields_def unread_def supply_known_def)
  show ?thesis
    unfolding capture_sample_def
    by (rule yields_bind [OF begin_keeps], clarify, rule yields_bind [OF unread_ac [OF assms(1)]], simp, simp, clarify,
        rule yields_bind [OF unread_battery [OF assms(1)]], simp, simp, clarify, rule tail)
qed

text \<open>C34. The charge thresholds are not read at the start.  A fresh probe whose battery record can be read learns the
  thresholds only from a change of the supply: as long as the supply answers the same, every sample, the first
  included, reports that the battery has no thresholds, although their files are open.
\<close>

theorem thresholds_missed_until_supply_changes:
  assumes "steady k ac answer bat" "pr_fd p AcOnline = Some ac" "pr_fd p BatteryUevent = Some bat" "pr_cache p = cache_new"
  shows "yields (samples_in_row k n p) (\<lambda>r. \<exists>ss. r = Some ss \<and> length ss = n \<and>
     list_all (\<lambda>s. hx_charge_start s = None \<and> hs_charge_end s = None) ss)"
proof -
  have "yields (samples_in_row k n p) (\<lambda>r. \<exists>ss. r = Some ss \<and> length ss = n \<and>
      list_all (\<lambda>s. hx_charge_start s = None \<and> hs_charge_end s = None) ss)"
    if "unread ac bat p" "ca_static (pr_cache p) \<longrightarrow> supply_known (online_of answer) p" for p
    using that
  proof (induction n arbitrary: p)
    case (Suc n)
    show ?case
      unfolding samples_in_row.simps
    proof (rule yields_bind [OF sample_without_thresholds [OF assms(1) Suc.prems]], clarify, simp only: option.case prod.case)
      fix q s assume q: "unread ac bat q" "supply_known (online_of answer) q" "thresholds s = (None, None)"
      show "yields (samples_in_row k n q \<bind> (\<lambda>rs. return_io (map_option (Cons s) rs)))
          (\<lambda>r. \<exists>ss. r = Some ss \<and> length ss = Suc n \<and> list_all (\<lambda>s. hx_charge_start s = None \<and> hs_charge_end s = None) ss)"
        by (rule yields_bind [OF Suc.IH]) (use q in \<open>auto simp: thresholds_def\<close>)
    qed
  qed simp
  then show ?thesis using assms(2-4) by (simp add: unread_def cache_new_def)
qed

definition laptop_probe :: probe where
  "laptop_probe = (probe_blank ''/sys'')\<lparr>pr_fd := [AcOnline \<mapsto> ''/sys/class/power_supply/AC/online'',
     BatteryUevent \<mapsto> ''/sys/class/power_supply/BAT0/uevent'',
     ThresholdEnd \<mapsto> ''/sys/class/power_supply/BAT0/charge_control_end_threshold'']\<rparr>"

definition laptop_kernel :: kernel where
  "laptop_kernel = quiet_kernel\<lparr>k_read_file := (\<lambda>_ p _.
     if p = ''/sys/class/power_supply/AC/online'' then Some ''1''
     else if p = ''/sys/class/power_supply/BAT0/uevent'' then Some ''POWER_SUPPLY_CAPACITY=79''
     else if p = ''/sys/class/power_supply/BAT0/charge_control_end_threshold'' then Some ''80''
     else None)\<rparr>"

theorem thresholds_missed_until_supply_changes_witness:
  "yields (samples_in_row laptop_kernel 100 laptop_probe) (\<lambda>r. \<exists>ss. r = Some ss \<and> length ss = 100 \<and>
     list_all (\<lambda>s. hx_charge_start s = None \<and> hs_charge_end s = None) ss)"
proof (rule thresholds_missed_until_supply_changes)
  show "steady laptop_kernel ''/sys/class/power_supply/AC/online'' ''1'' ''/sys/class/power_supply/BAT0/uevent''"
    by (simp add: steady_def laptop_kernel_def)
qed (simp_all add: laptop_probe_def probe_blank_def)

section \<open>A second discovery\<close>

text \<open>The rescan on a hangup signal makes the battery a peripheral.  Once a battery is known, the next discovery
  no longer takes its directory for the battery's but adds it, under its own name, to the batteries of connected
  devices.
\<close>

theorem rescan_lists_battery_as_peripheral:
  assumes "pr_battery_dir p \<noteq> []" "starts_with name ''BAT''" "\<forall>h. k_exists k h (below (below base name) ''capacity'')"
    and "length (pr_peripherals p) < 4"
  shows "yields (power_supply k base name p) (\<lambda>q. pr_battery_dir q = pr_battery_dir p \<and>
     map pf_name (pr_peripherals q) = map pf_name (pr_peripherals p) @ [take 31 name])"
proof -
  have "\<not> starts_with name ''ucsi-source-psy-''" "name \<noteq> ''AC''" using assms(2) by (auto simp: starts_with_iff)
  then have "power_supply k base name p = found_peripheral k (below base name) name p"
    using assms(1,2,4) by (simp add: power_supply_def Let_def)
  then show ?thesis
    using assms(3) by (simp add: yields_def found_peripheral_def sys_exists_def fixed_text_def)
qed

theorem rescan_lists_battery_as_peripheral_witness:
  "yields (power_supply (quiet_kernel\<lparr>k_exists := (\<lambda>_ _. True)\<rparr>) ''/sys/class/power_supply'' ''BAT0''
      ((probe_blank ''/sys'')\<lparr>pr_battery_dir := ''/sys/class/power_supply/BAT0''\<rparr>))
    (\<lambda>q. pr_battery_dir q = pr_battery_dir ((probe_blank ''/sys'')\<lparr>pr_battery_dir := ''/sys/class/power_supply/BAT0''\<rparr>) \<and>
      map pf_name (pr_peripherals q) =
        map pf_name (pr_peripherals ((probe_blank ''/sys'')\<lparr>pr_battery_dir := ''/sys/class/power_supply/BAT0''\<rparr>)) @ [take 31 ''BAT0''])"
  by (rule rescan_lists_battery_as_peripheral) (simp_all add: probe_blank_def starts_with_def)

text \<open>
  A moved probe has no range for its energy counter, so the next wrap of the counter is taken for a reset.
\<close>

lemma moved_probe_forgets_range: "pr_rapl_range (probe_moved p) = 0" "pr_fd (probe_moved p) = pr_fd p"
  by (simp_all add: probe_moved_def)

end
