(* ===== verification/Daemon.thy ===== *)
theory Daemon
  imports Ipc Fan_Curve Features Window_Governor Pressure_Guard Bus_Controller Disk_Guard Attribution Proc_Capture Hw_Probe
begin

text \<open>
  The main loop of the daemon (\<^verbatim>\<open>src/core/daemon_runner.cpp\<close>): it owns the components, wakes up on its timer, a signal, a
  stall of the memory or a datagram, takes samples in two depths, drives the components with them and
  publishes what it saw; and the commands that other processes send it.
\<close>

section \<open>The report\<close>

text \<open>The report the daemon keeps: the attribution and the status of the features.\<close>

record cached = attribution_report +
  ch_profile :: power_profile
  ch_summaries :: nat

definition cached_new :: cached where
  "cached_new = \<lparr>ar_hardware = breakdown_new, ar_top = [], ar_culprits = [], ar_monitored = 0, ar_wakeups = 0, ar_samples = 1,
     ar_energy = Fin 0, ar_short = False, ch_profile = Balanced, ch_summaries = 0\<rparr>"

definition cached_report :: "cached \<Rightarrow> report" where
  "cached_report c = (report_of_attribution (attribution_report.truncate c))
     \<lparr>rp_current_profile := ch_profile c, rp_feature_summary_count := of_nat (ch_summaries c)\<rparr>"

section \<open>What the daemon lives in\<close>

text \<open>
  The instruction set, the library's \<open>pow\<close>, the path of the spline evaluation; the content of the two shared files when
  they are mapped, the bytes of the state block in memory; and the two report texts, which are left out.
\<close>

record outside =
  ou_isa :: isa
  ou_pow :: "float64 \<Rightarrow> float64 \<Rightarrow> float64"
  ou_path :: eval_path
  ou_block :: "history \<Rightarrow> shared_state"
  ou_ring :: "history \<Rightarrow> history_point ring"
  ou_bytes :: "shared_state \<Rightarrow> string"
  ou_briefing :: "cached \<Rightarrow> string"
  ou_telemetry :: "cached \<Rightarrow> pressure_sample \<Rightarrow> string"

section \<open>State\<close>

text \<open>When the next sweep is due.\<close>

record cadence =
  cd_tick :: u64
  cd_deadline :: u64
  cd_interactive :: bool
  cd_watts :: float64
  cd_early :: u64

record daemon =
  dn_period :: float64
  dn_locked :: bool
  dn_running :: bool
  dn_cycle :: cycle
  dn_fan :: fan_engine
  dn_governor :: governor
  dn_guard :: guard
  dn_bus :: bus_controller
  dn_disk :: disk_guard
  dn_analyzer :: analyzer
  dn_probe :: probe
  dn_procs :: "scanned list"
  dn_report :: cached
  dn_hw :: probed
  dn_hw_light :: probed
  dn_hw_deep :: probed
  dn_baseline :: bool
  dn_local :: shared_state
  dn_shm :: "shared_state option"
  dn_ring :: "history_point ring option"
  dn_logged_profile :: power_profile
  dn_logged_discharging :: bool
  dn_logged_percent :: u8
  dn_epoll :: bool
  dn_timer :: bool
  dn_signals :: bool
  dn_psi :: bool
  dn_cadence :: cadence
  dn_interval :: float64
  dn_profiled :: "u64 option"

abbreviation dn_globals :: "daemon \<Rightarrow> globals" where
  "dn_globals d \<equiv> cy_globals (dn_cycle d)"

abbreviation dn_effective :: "daemon \<Rightarrow> power_profile" where
  "dn_effective d \<equiv> gl_effective_profile (dn_globals d)"

abbreviation dn_hardware :: "daemon \<Rightarrow> power_breakdown" where
  "dn_hardware d \<equiv> ar_hardware (dn_report d)"

text \<open>Whether the memory guard keeps swap from filling, which the engines ask.\<close>

abbreviation dn_hold :: "daemon \<Rightarrow> bool" where
  "dn_hold d \<equiv> gd_suspend_swap_feed (dn_guard d)"

definition with_engine :: "(engine \<Rightarrow> engine) \<Rightarrow> daemon \<Rightarrow> daemon" where
  "with_engine f d = d\<lparr>dn_cycle := (dn_cycle d)\<lparr>cy_engine := f (cy_engine (dn_cycle d))\<rparr>\<rparr>"

definition with_cadence :: "(cadence \<Rightarrow> cadence) \<Rightarrow> daemon \<Rightarrow> daemon" where
  "with_cadence f d = d\<lparr>dn_cadence := f (dn_cadence d)\<rparr>"

text \<open>The cache of the processor's topology is the engine's; the governor is lent it.\<close>

definition with_governor :: "(governor \<Rightarrow> governor io) \<Rightarrow> daemon \<Rightarrow> daemon io" where
  "with_governor f d = do {
     gv \<leftarrow> f ((dn_governor d)\<lparr>gv_topology := en_topology (cy_engine (dn_cycle d))\<rparr>);
     return_io (with_engine (\<lambda>e. e\<lparr>en_topology := gv_topology gv\<rparr>) (d\<lparr>dn_governor := gv\<rparr>))
   }"

text \<open>A step of the engine of the profiles.\<close>

definition run_engine :: "engine_step \<Rightarrow> daemon \<Rightarrow> daemon option io" where
  "run_engine step d = do {
     r \<leftarrow> step (cy_engine (dn_cycle d));
     return_io (map_option (\<lambda>e. with_engine (\<lambda>_. e) d) r)
   }"

section \<open>Shared memory\<close>

definition SHARED_STATE_SHM_PATH :: string where
  "SHARED_STATE_SHM_PATH = ''/dev/shm/wattcurb_state.shm''"

definition HISTORY_SHM_PATH :: string where
  "HISTORY_SHM_PATH = ''/dev/shm/wattcurb_history.shm''"

text \<open>An open file becomes a mapping of the given size, or is closed again.\<close>

definition map_file :: "kernel \<Rightarrow> string \<Rightarrow> (history \<Rightarrow> 'a) \<Rightarrow> 'a option io" where
  "map_file k path content = do {
     sys_setup k (''fchmod 0644 '' @ path);
     sized \<leftarrow> sys_setup k (''ftruncate '' @ path);
     if \<not> sized then do { sys_close_fd path; return_io None }
     else do {
       mapped \<leftarrow> sys_setup k (''mmap '' @ path);
       if \<not> mapped then do { sys_close_fd path; return_io None }
       else do { h \<leftarrow> State_Monad.get; return_io (Some (content h)) }
     }
   }"

definition setup_shm :: "kernel \<Rightarrow> outside \<Rightarrow> daemon \<Rightarrow> daemon io" where
  "setup_shm k u d =
     (if dn_shm d \<noteq> None then return_io d
      else do {
        old \<leftarrow> sys_open_fd k SHARED_STATE_SHM_PATH;
        fd \<leftarrow> (if old then return_io True
              else do { sys_unlink k SHARED_STATE_SHM_PATH; sys_open_fd k SHARED_STATE_SHM_PATH });
        if \<not> fd then return_io d
        else do { r \<leftarrow> map_file k SHARED_STATE_SHM_PATH (ou_block u); return_io (d\<lparr>dn_shm := r\<rparr>) }
      })"

text \<open>A history file of another size is replaced.\<close>

definition HISTORY_BYTES :: int where
  [code_consts]: "HISTORY_BYTES = 1935424"

definition setup_history_shm :: "kernel \<Rightarrow> outside \<Rightarrow> daemon \<Rightarrow> daemon io" where
  "setup_history_shm k u d =
     (if dn_ring d \<noteq> None then return_io d
      else do {
        old \<leftarrow> sys_open_fd k HISTORY_SHM_PATH;
        st \<leftarrow> (if old then sys_stat k HISTORY_SHM_PATH else return_io None);
        kept \<leftarrow> (case st of None \<Rightarrow> return_io old
                | Some s \<Rightarrow> if st_size s = HISTORY_BYTES then return_io True
                    else do { sys_close_fd HISTORY_SHM_PATH; sys_unlink k HISTORY_SHM_PATH; return_io False });
        fd \<leftarrow> (if kept then return_io True else sys_open_fd k HISTORY_SHM_PATH);
        if \<not> fd then return_io d
        else do { r \<leftarrow> map_file k HISTORY_SHM_PATH (ou_ring u); return_io (d\<lparr>dn_ring := r\<rparr>) }
      })"

text \<open>The state block: both copies are renewed, the shared one if there is one.\<close>

definition publish :: "kernel \<Rightarrow> outside \<Rightarrow> daemon \<Rightarrow> daemon option io" where
  "publish k u d = do {
     d \<leftarrow> setup_shm k u d;
     let r = cached_report (dn_report d);
     return_io (do {
       l \<leftarrow> update_from_report r (dn_local d);
       s \<leftarrow> (case dn_shm d of None \<Rightarrow> Some None | Some s \<Rightarrow> map_option Some (update_from_report r s));
       Some (d\<lparr>dn_local := l, dn_shm := s\<rparr>)
     })
   }"

text \<open>Conversions of the point of the history; \<open>None\<close> is one out of range, which is undefined.\<close>

definition watts_u16 :: "float64 \<Rightarrow> u16 option" where
  "watts_u16 w = map_option of_int (fp_to_int 0 65535 (mul64 w (Fin 1000)))"

definition small :: "float64 \<Rightarrow> 'a::len word option" where
  "small x = (map_option of_int (fp_to_int 0 (2 ^ LENGTH('a) - 1) x))"

definition used_mb :: "u64 \<Rightarrow> u64 \<Rightarrow> u16" where
  "used_mb whole rest = (if rest < whole then ucast ((whole - rest) div 1024) else 0)"

definition memory_fields :: "pressure_sample \<Rightarrow> cached \<Rightarrow> history_point \<Rightarrow> history_point" where
  "memory_fields s c pt = pt\<lparr>hp_mem_used_mb := used_mb (ms_mem_total_kb s) (ms_mem_available_kb s),
     hp_swap_used_mb := used_mb (ms_swap_total_kb s) (ms_swap_free_kb s),
     hp_top_proc_pss_mb := (case ar_top c of [] \<Rightarrow> 0 | p # _ \<Rightarrow> ucast (pp_pss_kib p div 1024))\<rparr>"

definition history_of :: "u64 \<Rightarrow> cached \<Rightarrow> history_point option" where
  "history_of now c = do {
     let h = ar_hardware c;
     total_mw \<leftarrow> milliwatts (effective_total_watts (hw_breakdown.truncate h));
     cpu \<leftarrow> watts_u16 (hw_cpu_package_watts h);
     gpu \<leftarrow> watts_u16 (hw_gpu_watts h);
     temp \<leftarrow> small (hw_cpu_temp_c h);
     freq \<leftarrow> small (hw_cpu_freq_avg_mhz h);
     c3 \<leftarrow> small (hw_c3_deep_percent h);
     Some \<lparr>hp_timestamp_sec = now, hp_total_system_mw = total_mw, hp_cpu_package_mw = cpu, hp_gpu_mw = gpu,
       hp_cpu_temp_c = temp, hp_cpu_freq_mhz = freq, hp_battery_percent = ucast (hw_battery_capacity_percent h),
       hp_battery_state = (if hw_is_ac_passthrough h then 2 else if hw_is_battery_discharging h then 1 else 0),
       hp_power_profile_mode = of_nat (profile_code (ch_profile c)), hp_cstate_c3_percent = c3,
       hp_active_mitigations = of_nat (ch_summaries c), hp_mem_used_mb = 0, hp_swap_used_mb = 0, hp_top_proc_pss_mb = 0\<rparr>
   }"

text \<open>The memory guard's last sample, or a fresh one when it has none.\<close>

definition memory_sample :: "kernel \<Rightarrow> guard \<Rightarrow> pressure_sample io" where
  "memory_sample k g =
     (if ms_mem_total_kb (gd_last g) \<noteq> 0 then return_io (gd_last g)
      else do { r \<leftarrow> guard_sample k g; return_io (case r of None \<Rightarrow> gd_last g | Some s \<Rightarrow> s) })"

text \<open>
  A point is written at the index the file holds; one outside the ring would be a write outside the mapping.  The daemon
  goes on with the ring as the last store of \<open>ring_stages\<close> leaves it; a reader in another process may find any of the
  stages before.
\<close>

definition ring_store :: "'p \<Rightarrow> 'p ring \<Rightarrow> 'p ring option" where
  "ring_store pt r = (if rg_head r < rg_cap r then Some (last (ring_stages pt r)) else None)"

definition export_history :: "kernel \<Rightarrow> outside \<Rightarrow> daemon \<Rightarrow> daemon option io" where
  "export_history k u d = do {
     d \<leftarrow> setup_history_shm k u d;
     (case dn_ring d of None \<Rightarrow> return_io (Some d)
      | Some r \<Rightarrow> do {
          now \<leftarrow> sys_now_real k;
          m \<leftarrow> memory_sample k (dn_guard d);
          return_io (do {
            pt \<leftarrow> history_of now (dn_report d);
            r \<leftarrow> ring_store (memory_fields m (dn_report d) pt) r;
            Some (d\<lparr>dn_ring := Some r\<rparr>)
          })
        })
   }"

section \<open>Alerts\<close>

definition battery_alerts :: "daemon \<Rightarrow> daemon io" where
  "battery_alerts d = do {
     let cur = hw_is_battery_discharging (dn_hardware d);
     io_when (cur \<noteq> dn_logged_discharging d) (log_event (EvAlert ''AC''));
     let pct = (ucast (hw_battery_capacity_percent (dn_hardware d)) :: u8);
     (if pct \<le> 20 \<and> 20 < dn_logged_percent d then log_event (EvAlert ''BATTERY low'')
      else if pct \<le> 10 \<and> 10 < dn_logged_percent d then log_event (EvAlert ''BATTERY critical'')
      else return_io ());
     return_io (d\<lparr>dn_logged_discharging := cur, dn_logged_percent := pct\<rparr>)
   }"

section \<open>Cadence\<close>

abbreviation "EARLY_SWEEP_COOLDOWN_MS \<equiv> (15000 :: u64)"
abbreviation "LEASE_MS \<equiv> (4500 :: u64)"

definition is_spike :: "bool \<Rightarrow> float64 \<Rightarrow> float64 \<Rightarrow> float64 \<Rightarrow> bool" where
  "is_spike on_battery pkg sys delta =
     (if on_battery then fp_le (Fin 10) pkg \<or> fp_le (Fin 18) sys \<or> fp_le (Fin 8) delta
      else fp_le (Fin 16) pkg \<or> fp_le (Fin 30) sys \<or> fp_le (Fin 12) delta)"

text \<open>Whether the readings of a light probe start an early sweep.\<close>

definition probe_spike :: "u64 \<Rightarrow> power_breakdown \<Rightarrow> cadence \<Rightarrow> bool \<times> cadence" where
  "probe_spike now_ms h c =
     (let sys = hw_total_system_watts h;
          delta = (if fp_le (cd_watts c) sys then sub64 sys (cd_watts c) else Fin 0);
          early = is_spike (hw_is_battery_discharging h) (hw_cpu_package_watts h) sys delta \<and>
                  EARLY_SWEEP_COOLDOWN_MS \<le> now_ms - cd_early c
      in (early, c\<lparr>cd_watts := sys, cd_early := (if early then now_ms else cd_early c)\<rparr>))"

definition lease_expired :: "u64 \<Rightarrow> cadence \<Rightarrow> bool" where
  "lease_expired now_ms c \<longleftrightarrow> cd_interactive c \<and> cd_deadline c \<le> now_ms"

definition end_lease :: "cadence \<Rightarrow> cadence" where
  "end_lease c = c\<lparr>cd_interactive := False, cd_tick := 0\<rparr>"

text \<open>A tick: \<open>True\<close> when it is one for a deep sweep.\<close>

definition next_tick :: "cadence \<Rightarrow> bool \<times> cadence" where
  "next_tick c =
     (if cd_interactive c then (True, c)
      else let c = c\<lparr>cd_tick := cd_tick c + 1\<rparr> in (cd_tick c mod 6 = 0, c))"

definition arm_timer :: "kernel \<Rightarrow> float64 \<Rightarrow> daemon \<Rightarrow> (bool \<times> daemon) option io" where
  "arm_timer k sec d =
     (if \<not> dn_timer d then return_io (Some (False, d))
      else let d = d\<lparr>dn_interval := sec\<rparr>
           in case fp_to_int (- (2 ^ 63)) (2 ^ 63 - 1) sec of None \<Rightarrow> return_io None
              | Some s \<Rightarrow>
                  (case fp_to_int (- (2 ^ 63)) (2 ^ 63 - 1) (mul64 (sub64 sec (fp_of_int Binary64 s)) (Fin 1000000000)) of
                     None \<Rightarrow> return_io None
                   | Some ns \<Rightarrow> do { ok \<leftarrow> sys_arm_timer k (if 0 < s then s else 10) ns; return_io (Some (ok, d)) }))"

text \<open>A client's lease: the first one switches to the short interval.\<close>

definition take_lease :: "kernel \<Rightarrow> daemon \<Rightarrow> (bool \<times> daemon) option io" where
  "take_lease k d = do {
     now_ms \<leftarrow> sys_now_ms k;
     let began = \<not> cd_interactive (dn_cadence d);
     let d = with_cadence (\<lambda>c. c\<lparr>cd_deadline := now_ms + LEASE_MS, cd_interactive := True\<rparr>) d;
     if began then do { r \<leftarrow> arm_timer k (Fin 2) d; return_io (map_option (\<lambda>(_, d). (True, d)) r) }
     else return_io (Some (False, d))
   }"

end
