(* ===== verification/Daemon_Loop.thy ===== *)
theory Daemon_Loop
  imports Daemon
begin

text \<open>
  The cycles of the daemon, the commands it answers, its start, its wake-ups and its end
  (\<^verbatim>\<open>src/core/daemon_runner.cpp\<close>).
\<close>

section \<open>Light probe\<close>

text \<open>The hardware only; the interval is taken to be ten seconds.\<close>

definition light_power :: "outside \<Rightarrow> probed \<Rightarrow> probed \<Rightarrow> power_breakdown" where
  "light_power u prev cur = compute_hardware_power (ou_pow u) (hw_sample.truncate prev) (hw_sample.truncate cur) (Fin 10)"

definition light_probe :: "kernel \<Rightarrow> outside \<Rightarrow> daemon \<Rightarrow> (bool \<times> daemon) option io" where
  "light_probe k u d = then_some (capture_sample k (dn_probe d)) (\<lambda>(p, cur).
     let c = dn_report d;
         d = d\<lparr>dn_probe := p, dn_report := c\<lparr>ar_hardware := light_power u (dn_hw_light d) cur\<rparr>\<rparr>
     in then_some (publish k u d) (\<lambda>d. then_some (export_history k u d) (\<lambda>d. do {
          d \<leftarrow> battery_alerts d;
          now_ms \<leftarrow> sys_now_ms k;
          let (early, cd) = probe_spike now_ms (dn_hardware d) (dn_cadence d);
          return_io (Some (early, d\<lparr>dn_cadence := cd, dn_hw := cur, dn_hw_light := cur\<rparr>))
        })))"

section \<open>Deep sweep\<close>

definition take_baseline :: "kernel \<Rightarrow> outside \<Rightarrow> daemon \<Rightarrow> daemon option io" where
  "take_baseline k u d = then_some (capture_sample k (dn_probe d)) (\<lambda>(p, cur).
     then_some (capture_active_processes (ou_isa u) k None (dn_analyzer d)) (\<lambda>(an, ps).
       return_io (Some (d\<lparr>dn_probe := p, dn_hw := cur, dn_hw_light := cur, dn_hw_deep := cur, dn_analyzer := an,
         dn_procs := ps, dn_baseline := True\<rparr>))))"

text \<open>The features work on the fresh report, which then carries their status.\<close>

definition drive_features :: "kernel \<Rightarrow> daemon \<Rightarrow> daemon option io" where
  "drive_features k d =
     (let h = dn_hardware d
      in then_some (feature_evaluate k (dn_fan d) (dn_hold d) (cached_report (dn_report d)) (hw_is_battery_discharging h)
             (dbl (hw_battery_capacity_percent h)) (dn_cycle d)) (\<lambda>c.
           return_io (Some (d\<lparr>dn_cycle := c,
             dn_report := (dn_report d)\<lparr>ch_profile := ms_profile (cy_status c), ch_summaries := ms_summaries (cy_status c)\<rparr>\<rparr>))))"

definition log_profile :: "daemon \<Rightarrow> daemon io" where
  "log_profile d = do {
     let cur = ch_profile (dn_report d);
     io_when (cur \<noteq> dn_logged_profile d) (log_event (EvAlert ''PROFILE''));
     return_io (d\<lparr>dn_logged_profile := cur\<rparr>)
   }"

abbreviation attributed_between :: "outside \<Rightarrow> probed \<Rightarrow> probed \<Rightarrow> scanned list \<Rightarrow> scanned list \<Rightarrow> attribution_report option" where
  "attributed_between u s1 s2 ps1 ps2 \<equiv> compute_attribution (ou_pow u) (hw_sample.truncate s1) (hw_sample.truncate s2)
     (map psample.truncate ps1) (map psample.truncate ps2) 20"

definition deep_sweep :: "kernel \<Rightarrow> outside \<Rightarrow> daemon \<Rightarrow> daemon option io" where
  "deep_sweep k u d =
     (if \<not> dn_baseline d then take_baseline k u d
      else then_some (capture_sample k (dn_probe d)) (\<lambda>(p, cur).
        then_some (capture_active_processes (ou_isa u) k (Some (dn_procs d)) (dn_analyzer d)) (\<lambda>(an, ps).
          (case attributed_between u (dn_hw_deep d) cur (dn_procs d) ps of
             None \<Rightarrow> return_io None
           | Some r \<Rightarrow>
             let d = d\<lparr>dn_probe := p, dn_analyzer := an,
                       dn_report := attribution_report.extend r \<lparr>ch_profile = Balanced, ch_summaries = 0\<rparr>\<rparr>
             in then_some (drive_features k d) (\<lambda>d. then_some (publish k u d) (\<lambda>d. then_some (export_history k u d) (\<lambda>d. do {
                  d \<leftarrow> battery_alerts d;
                  d \<leftarrow> log_profile d;
                  return_io (Some (d\<lparr>dn_hw := cur, dn_hw_light := cur, dn_hw_deep := cur, dn_procs := ps\<rparr>))
                })))))))"

section \<open>One observation\<close>

text \<open>After the lease: a deep sweep for a client, else a light probe with a deep sweep on every sixth tick.\<close>

definition background_sweep :: "kernel \<Rightarrow> outside \<Rightarrow> daemon \<Rightarrow> daemon option io" where
  "background_sweep k u d = then_some (light_probe k u d) (\<lambda>(early, d).
     if \<not> early then return_io (Some d)
     else do {
       log_event (EvAlert ''ADAPTIVE'');
       then_some (deep_sweep k u d) (\<lambda>d. return_io (Some (with_cadence (\<lambda>c. c\<lparr>cd_tick := 0\<rparr>) d)))
     })"

definition sweep :: "kernel \<Rightarrow> outside \<Rightarrow> daemon \<Rightarrow> daemon option io" where
  "sweep k u d =
     (let (deep, c) = next_tick (dn_cadence d); d = d\<lparr>dn_cadence := c\<rparr>
      in if deep then deep_sweep k u d else background_sweep k u d)"

definition check_lease :: "kernel \<Rightarrow> daemon \<Rightarrow> daemon option io" where
  "check_lease k d = do {
     now_ms \<leftarrow> sys_now_ms k;
     if lease_expired now_ms (dn_cadence d)
     then do { r \<leftarrow> arm_timer k (Fin 10) (with_cadence end_lease d); return_io (map_option snd r) }
     else return_io (Some d)
   }"

definition drive_guard :: "kernel \<Rightarrow> daemon \<Rightarrow> daemon option io" where
  "drive_guard k d = then_some
     (guard_evaluate (dn_globals d) k (cached_report (dn_report d)) (sn_pid (gv_active (dn_governor d))) (dn_effective d) (dn_guard d))
     (\<lambda>g. return_io (Some (d\<lparr>dn_guard := g\<rparr>)))"

text \<open>Every half an hour the profile of the daemon itself is due; without the profiler that only leaves a line in the log.\<close>

definition dump_profile :: "kernel \<Rightarrow> u64 \<Rightarrow> daemon \<Rightarrow> daemon io" where
  "dump_profile k now_sec d = do {
     start \<leftarrow> (case dn_profiled d of Some t \<Rightarrow> return_io t | None \<Rightarrow> sys_now_real k);
     if start + 1800 \<le> now_sec
     then do { log_event (EvAlert ''PROFILER''); return_io (d\<lparr>dn_profiled := Some now_sec\<rparr>) }
     else return_io (d\<lparr>dn_profiled := Some start\<rparr>)
   }"

text \<open>What follows every sweep: the guards, the governor and the buses.\<close>

definition drive_policies :: "kernel \<Rightarrow> daemon \<Rightarrow> daemon option io" where
  "drive_policies k d = then_some (drive_guard k d) (\<lambda>d. do {
     now_sec \<leftarrow> sys_now_real k;
     d \<leftarrow> with_governor (evaluate_hysteresis (dn_globals d) k now_sec (dn_effective d)) d;
     b \<leftarrow> bus_evaluate k (hs_discharging (dn_hw d)) (dn_effective d) (dn_bus d);
     (_, g) \<leftarrow> disk_evaluate k (dn_disk d);
     d \<leftarrow> dump_profile k now_sec (d\<lparr>dn_bus := b, dn_disk := g\<rparr>);
     return_io (Some d)
   })"

definition observation :: "kernel \<Rightarrow> outside \<Rightarrow> daemon \<Rightarrow> daemon option io" where
  "observation k u d = then_some (check_lease k d) (\<lambda>d. then_some (sweep k u d) (drive_policies k))"

section \<open>Who may command\<close>

record cred =
  cr_pid :: pid
  cr_uid :: u32

definition ALLOWED_CLIENTS :: "string list" where
  [code_consts]: "ALLOWED_CLIENTS = [''/usr/local/bin/wattcurb'', ''/usr/local/bin/wattcurb-tray'', ''/usr/local/bin/wattcurb-dashboard'',
     ''/usr/bin/wattcurb'', ''/usr/bin/wattcurb-tray'', ''/usr/bin/wattcurb-dashboard'']"

definition exe_link :: "pid \<Rightarrow> string" where
  "exe_link p = ''/proc/'' @ show_int p @ ''/exe''"

text \<open>Owned by root, and not writable by the group or others.\<close>

definition trusted_file :: "stat_t \<Rightarrow> bool" where
  "trusted_file st \<longleftrightarrow> st_uid st = 0 \<and> and (st_mode st) 18 = 0"

definition peer_is_authorized_client :: "kernel \<Rightarrow> cred \<Rightarrow> bool io" where
  "peer_is_authorized_client k cr =
     (if cr_pid cr \<le> 0 then return_io False
      else if cr_uid cr = 0 then return_io True
      else do {
        r \<leftarrow> sys_readlink k (exe_link (cr_pid cr)) 255;
        (case r of None \<Rightarrow> return_io False
         | Some exe \<Rightarrow>
             if exe = [] \<or> c_str exe \<notin> set ALLOWED_CLIENTS then return_io False
             else do { st \<leftarrow> sys_stat k (c_str exe); return_io (case st of None \<Rightarrow> False | Some st \<Rightarrow> trusted_file st) })
      })"

text \<open>The sender of a datagram: its name is read for the log, and whether it may command; without credentials it may not.\<close>

definition authorize :: "kernel \<Rightarrow> cred option \<Rightarrow> bool io" where
  "authorize k c =
     (case c of None \<Rightarrow> return_io False
      | Some cr \<Rightarrow>
          if cr_pid cr \<le> 0 then return_io False
          else do { sys_read_file k (''/proc/'' @ show_int (cr_pid cr) @ ''/comm'') 47; peer_is_authorized_client k cr })"

section \<open>Persistence of the profile\<close>

definition PROFILE_STATE_DIR :: string where
  "PROFILE_STATE_DIR = ''/var/lib/wattcurb''"

definition PROFILE_STATE_PATH :: string where
  "PROFILE_STATE_PATH = ''/var/lib/wattcurb/power_profile_mode''"

definition persist_profile_mode :: "kernel \<Rightarrow> string \<Rightarrow> unit io" where
  "persist_profile_mode k mode = do {
     sys_mkdir k PROFILE_STATE_DIR;
     fd \<leftarrow> sys_open_write k PROFILE_STATE_PATH;
     if \<not> fd then return_io ()
     else do { sys_write k PROFILE_STATE_PATH mode; sys_write k PROFILE_STATE_PATH [NL]; return_io () }
   }"

definition load_profile_mode :: "kernel \<Rightarrow> string io" where
  "load_profile_mode k = do {
     r \<leftarrow> sys_read_file k PROFILE_STATE_PATH 31;
     return_io (case r of None \<Rightarrow> [] | Some s \<Rightarrow> s)
   }"

definition profile_word :: "power_profile \<Rightarrow> string" where
  "profile_word m = (case m of Performance \<Rightarrow> ''performance'' | Balanced \<Rightarrow> ''balanced'' | PowerSaver \<Rightarrow> ''save''
     | UltraEndurance \<Rightarrow> ''ultra'')"

definition profile_of_text :: "string \<Rightarrow> power_profile" where
  "profile_of_text s =
     (if str_contains s ''performance'' then Performance else if str_contains s ''ultra'' then UltraEndurance
      else if str_contains s ''save'' then PowerSaver else Balanced)"

section \<open>Commands\<close>

datatype command =
    Briefing | FullTelemetry | SetProfile | Interactive | Rescan | ActiveWindow | WindowMinimized | WindowRestored
  | WindowState | SetFanCurves | GetFanCurves | ReloadFanCurves | GetProfileReport | StateBlock

text \<open>The first test of the chain that holds; some look for a word anywhere in the datagram.\<close>

definition command_of :: "string \<Rightarrow> command" where
  "command_of req =
     (if str_contains req ''BRIEFING'' then Briefing
      else if str_contains req ''FULL_TELEMETRY'' then FullTelemetry
      else if starts_with req ''PROFILE '' \<and> 9 \<le> length req then SetProfile
      else if str_contains req ''INTERACTIVE'' \<or> str_contains req ''HEARTBEAT'' then Interactive
      else if str_contains req ''RESCAN'' then Rescan
      else if starts_with req ''ACTIVE_WINDOW '' then ActiveWindow
      else if starts_with req ''WINDOW_MINIMIZED '' then WindowMinimized
      else if starts_with req ''WINDOW_RESTORED '' then WindowRestored
      else if starts_with req ''WINDOW_STATE '' then WindowState
      else if starts_with req ''SET_FAN_CURVES'' then SetFanCurves
      else if starts_with req ''GET_FAN_CURVES'' then GetFanCurves
      else if starts_with req ''RELOAD_FAN_CURVES'' then ReloadFanCurves
      else if starts_with req ''GET_PROFILE_REPORT'' then GetProfileReport
      else StateBlock)"

text \<open>The numbers that \<open>sscanf\<close> finds with a format of \<open>n\<close> of them.\<close>

fun scan_ints :: "nat \<Rightarrow> string \<Rightarrow> i32 list" where
  "scan_ints 0 s = []"
| "scan_ints (Suc n) s = (case scan_int s of None \<Rightarrow> [] | Some (v, r) \<Rightarrow> v # scan_ints n r)"

definition nth_or :: "'a \<Rightarrow> 'a list \<Rightarrow> nat \<Rightarrow> 'a" where
  "nth_or z xs i = (if i < length xs then xs ! i else z)"

definition window_comm :: "string \<Rightarrow> string" where
  "window_comm s = (case scan_int s of None \<Rightarrow> [] | Some (_, r) \<Rightarrow> take 63 (takeWhile (\<lambda>c. \<not> is_space c) (skip_space r)))"

abbreviation "ACK \<equiv> ''OK'' @ [NL]"
abbreviation "DENIED \<equiv> ''ERROR: not an authorized WattCurb client (REF-REQ-111)'' @ [NL]"

definition deny :: "daemon \<Rightarrow> daemon option io" where
  "deny d = do { sys_reply DENIED; log_event (EvAlert ''DENY''); return_io (Some d) }"

definition acknowledged :: "daemon option io \<Rightarrow> daemon option io" where
  "acknowledged m = then_some m (\<lambda>d. do { sys_reply ACK; return_io (Some d) })"

text \<open>The chosen profile, from its digit.\<close>

definition profile_of_digit :: "char \<Rightarrow> power_profile option" where
  "profile_of_digit c =
     (case int (byte_of c) - 48 of z \<Rightarrow>
        if z = 0 then Some Performance else if z = 1 then Some Balanced else if z = 2 then Some PowerSaver
        else if z = 3 then Some UltraEndurance else None)"

definition choose_profile :: "kernel \<Rightarrow> outside \<Rightarrow> power_profile \<Rightarrow> daemon \<Rightarrow> daemon option io" where
  "choose_profile k u m d = do {
     let code = (of_nat (profile_code m) :: u8);
     let d = d\<lparr>dn_cycle := with_features (set_override_profile (Some m)) (dn_cycle d),
               dn_local := (dn_local d)\<lparr>ss_power_profile_mode := code\<rparr>,
               dn_report := (dn_report d)\<lparr>ch_profile := m\<rparr>,
               dn_shm := map_option (update_profile_mode code) (dn_shm d)\<rparr>;
     then_some (run_engine (apply_power_profile k (dn_hold d) m) d) (\<lambda>d. do {
       log_event (EvAlert ''PROFILE'');
       persist_profile_mode k (profile_word m);
       observation k u (d\<lparr>dn_logged_profile := m\<rparr>)
     })
   }"

abbreviation "REJECTED \<equiv> ''ERROR: Only UltraEndurance is permitted when battery <= 5% (REF-REQ-094)'' @ [NL]"

definition set_profile :: "kernel \<Rightarrow> outside \<Rightarrow> bool \<Rightarrow> string \<Rightarrow> daemon \<Rightarrow> daemon option io" where
  "set_profile k u authorized req d =
     (if \<not> authorized then deny d
      else case profile_of_digit (req ! 8) of
        None \<Rightarrow> acknowledged (return_io (Some d))
      | Some m \<Rightarrow>
          if m \<noteq> UltraEndurance \<and> hw_is_battery_discharging (dn_hardware d) \<and> hw_battery_capacity_percent (dn_hardware d) \<le> 5
          then do { sys_reply REJECTED; log_event (EvAlert ''BATTERY''); return_io (Some d) }
          else acknowledged (choose_profile k u m d))"

definition invalid :: "string \<Rightarrow> daemon \<Rightarrow> daemon option io" where
  "invalid msg d = do { sys_reply (''ERR: '' @ msg @ [NL]); return_io (Some d) }"

text \<open>A command of the windows: it needs that many numbers and a process number above one.\<close>

definition window_command ::
  "nat \<Rightarrow> string \<Rightarrow> i32 list \<Rightarrow> (pid \<Rightarrow> governor \<Rightarrow> governor io) \<Rightarrow> daemon \<Rightarrow> daemon option io" where
  "window_command need msg ns act d =
     (if need \<le> length ns \<and> 1 < nth_or 0 ns 0
      then acknowledged (do { d \<leftarrow> with_governor (act (nth_or 0 ns 0)) d; return_io (Some d) })
      else invalid msg d)"

text \<open>A state change of a window, at the time it is handled.\<close>

definition window_changed :: "kernel \<Rightarrow> daemon \<Rightarrow> bool \<Rightarrow> bool \<Rightarrow> bool \<Rightarrow> pid \<Rightarrow> governor \<Rightarrow> governor io" where
  "window_changed k d minimized active audio p gv = do {
     now_sec \<leftarrow> sys_now_real k;
     on_window_state_changed (dn_globals d) k p minimized active now_sec (dn_effective d) audio gv
   }"

definition live_rpm :: "kernel \<Rightarrow> u32 \<Rightarrow> u32 io" where
  "live_rpm k old = do {
     r \<leftarrow> sys_read_file k ''/proc/acpi/ibm/fan'' 255;
     return_io (case Option.bind r (\<lambda>s. strstr (c_str s) ''speed:'') of None \<Rightarrow> old
       | Some t \<Rightarrow> (let (v, rest) = strtoul (drop 6 t) in if length rest < length (drop 6 t) then ucast v else old))
   }"

text \<open>Curves that a client sends: they are kept, stored, and the fan is driven by them.\<close>

definition set_fan_curves :: "kernel \<Rightarrow> outside \<Rightarrow> bool \<Rightarrow> string \<Rightarrow> daemon \<Rightarrow> daemon option io" where
  "set_fan_curves k u authorized req d =
     (if \<not> authorized then deny d
      else let payload = dropWhile (\<lambda>c. c = CHR '' '' \<or> c = NL \<or> c = CR) (drop 14 req);
               (ok, fan) = deserialize_curves (ou_path u) payload (dn_fan d);
               d = d\<lparr>dn_fan := fan\<rparr>;
               e = cy_engine (dn_cycle d);
               t = hw_cpu_temp_c (dn_hardware d)
           in if \<not> ok
              then do { log_event (EvAlert ''FAN''); sys_reply (''ERROR: failed to parse fan curves'' @ [NL]); return_io (Some d) }
              else do {
                save_to_file k [] fan;
                then_some (apply_fan_for_temp (en_globals e) k fan t (dn_effective d) (en_platform e)) (\<lambda>(level, pl). do {
                  rpm \<leftarrow> live_rpm k (hw_fan_rpm (dn_hardware d));
                  sys_reply (''OK LEVEL='' @ show_int level @ '' RPM='' @ show_nat (unat rpm) @ '' TEMP='' @ show_fixed1 t @
                    '' PROFILE='' @ show_nat (profile_code (dn_effective d)) @ [NL]);
                  log_event (EvAlert ''FAN'');
                  return_io (Some (with_engine (\<lambda>e. e\<lparr>en_platform := pl\<rparr>) d))
                })
              })"

definition full_telemetry :: "kernel \<Rightarrow> outside \<Rightarrow> daemon \<Rightarrow> daemon option io" where
  "full_telemetry k u d = then_some (take_lease k d) (\<lambda>(_, d). do {
     m \<leftarrow> memory_sample k (dn_guard d);
     sys_reply (ou_telemetry u (dn_report d) m);
     return_io (Some d)
   })"

definition handle_command :: "kernel \<Rightarrow> outside \<Rightarrow> bool \<Rightarrow> string \<Rightarrow> daemon \<Rightarrow> daemon option io" where
  "handle_command k u authorized req d =
     (let args = (\<lambda>n. c_str (drop n req))
      in case command_of req of
           Briefing \<Rightarrow> do { sys_reply (ou_briefing u (dn_report d)); return_io (Some d) }
         | FullTelemetry \<Rightarrow> full_telemetry k u d
         | SetProfile \<Rightarrow> set_profile k u authorized req d
         | Interactive \<Rightarrow> acknowledged (then_some (take_lease k d) (\<lambda>(began, d). if began then deep_sweep k u d else return_io (Some d)))
         | Rescan \<Rightarrow> acknowledged (then_some (take_lease k d) (\<lambda>(_, d). deep_sweep k u d))
         | ActiveWindow \<Rightarrow> window_command 1 ''Invalid PID'' (scan_ints 1 (args 14))
             (\<lambda>p gv. do { (_, gv) \<leftarrow> engage_active_window (dn_globals d) k p (window_comm (args 14)) gv; return_io gv }) d
         | WindowMinimized \<Rightarrow>
             (let ns = scan_ints 2 (args 17) in window_command 1 ''Invalid PID'' ns (window_changed k d True False (nth_or 0 ns 1 \<noteq> 0)) d)
         | WindowRestored \<Rightarrow> window_command 1 ''Invalid PID'' (scan_ints 1 (args 16)) (window_changed k d False True False) d
         | WindowState \<Rightarrow>
             (let ns = scan_ints 4 (args 13)
              in window_command 3 ''Invalid Window State'' ns
                   (window_changed k d (nth_or 0 ns 1 \<noteq> 0) (nth_or 0 ns 2 \<noteq> 0) (nth_or 0 ns 3 \<noteq> 0)) d)
         | SetFanCurves \<Rightarrow> set_fan_curves k u authorized req d
         | GetFanCurves \<Rightarrow> do { sys_reply (ACK @ serialize_curves (dn_fan d)); return_io (Some d) }
         | ReloadFanCurves \<Rightarrow> do {
             (_, fan) \<leftarrow> load_from_file (ou_path u) k [] (dn_fan d);
             sys_reply ACK;
             return_io (Some (d\<lparr>dn_fan := fan\<rparr>))
           }
         | GetProfileReport \<Rightarrow> do {
             sys_reply (''No profile data captured (Profiler may be disabled or uninitialized).'' @ [NL]);
             return_io (Some d)
           }
         | StateBlock \<Rightarrow> do { sys_reply (ou_bytes u (dn_local d)); return_io (Some d) })"

text \<open>At most 4095 bytes of a datagram arrive; an empty one is ignored.\<close>

definition handle_ipc_datagram :: "kernel \<Rightarrow> outside \<Rightarrow> string \<Rightarrow> cred option \<Rightarrow> daemon \<Rightarrow> daemon option io" where
  "handle_ipc_datagram k u msg c d =
     (if msg = [] then return_io (Some d)
      else do { authorized \<leftarrow> authorize k c; handle_command k u authorized (take 4095 msg) d })"

section \<open>Start\<close>

definition setup_timer :: "kernel \<Rightarrow> daemon \<Rightarrow> (bool \<times> daemon) option io" where
  "setup_timer k d = do {
     fd \<leftarrow> sys_setup k ''timerfd_create'';
     if \<not> fd then return_io (Some (False, d\<lparr>dn_timer := False\<rparr>))
     else do { sys_setup k ''prctl(PR_SET_TIMERSLACK)''; arm_timer k (dn_period d) (d\<lparr>dn_timer := True\<rparr>) }
   }"

definition setup_signals :: "kernel \<Rightarrow> daemon \<Rightarrow> (bool \<times> daemon) io" where
  "setup_signals k d = do {
     masked \<leftarrow> sys_setup k ''sigprocmask'';
     if \<not> masked then return_io (False, d)
     else do { fd \<leftarrow> sys_setup k ''signalfd''; return_io (fd, d\<lparr>dn_signals := fd\<rparr>) }
   }"

definition setup_memory_guard :: "kernel \<Rightarrow> daemon \<Rightarrow> daemon io" where
  "setup_memory_guard k d = do {
     (ok, g) \<leftarrow> guard_initialize (dn_globals d) k (dn_guard d);
     let d = d\<lparr>dn_guard := g\<rparr>;
     if \<not> ok then do { log_event (EvAlert ''MEMORY''); return_io d }
     else do { io_when (\<not> gd_psi_fd g) (log_event (EvAlert ''MEMORY'')); return_io (d\<lparr>dn_psi := gd_psi_fd g\<rparr>) }
   }"

text \<open>The descriptors the daemon waits on.\<close>

definition setup_waiting :: "kernel \<Rightarrow> daemon \<Rightarrow> (bool \<times> daemon) io" where
  "setup_waiting k d = do {
     ep \<leftarrow> sys_setup k ''epoll_create1'';
     let d = d\<lparr>dn_epoll := ep\<rparr>;
     a \<leftarrow> (if ep then sys_setup k ''epoll_ctl timer'' else return_io False);
     b \<leftarrow> (if a then sys_setup k ''epoll_ctl signals'' else return_io False);
     if \<not> b then return_io (False, d)
     else do {
       (if dn_locked d then do { sys_setup k ''epoll_ctl socket''; return_io () } else return_io ());
       d \<leftarrow> setup_memory_guard k d;
       watched \<leftarrow> (if dn_psi d then sys_setup k ''epoll_ctl pressure'' else return_io False);
       return_io (True, d\<lparr>dn_psi := watched\<rparr>)
     }
   }"

text \<open>The profile of the last run is restored before anything is waited for.\<close>

definition restore_profile :: "kernel \<Rightarrow> daemon \<Rightarrow> daemon option io" where
  "restore_profile k d = do {
     s \<leftarrow> load_profile_mode k;
     let m = profile_of_text s;
     let code = (of_nat (profile_code m) :: u8);
     let d = d\<lparr>dn_local := (dn_local d)\<lparr>ss_power_profile_mode := code\<rparr>,
               dn_cycle := with_features (set_override_profile (Some m)) (dn_cycle d)\<rparr>;
     t \<leftarrow> repair_orphaned_affinity_masks (dn_globals d) k (en_topology (cy_engine (dn_cycle d)));
     then_some (run_engine (apply_power_profile k (dn_hold d) m) (with_engine (\<lambda>e. e\<lparr>en_topology := t\<rparr>) d)) (\<lambda>d.
       return_io (Some (d\<lparr>dn_shm := map_option (update_profile_mode code) (dn_shm d), dn_logged_profile := m, dn_logged_percent := 100\<rparr>)))
   }"

definition daemon_initialize :: "kernel \<Rightarrow> outside \<Rightarrow> daemon \<Rightarrow> (bool \<times> daemon) option io" where
  "daemon_initialize k u d =
     (if \<not> dn_locked d then return_io (Some (False, d))
      else do {
        sys_open_fd k ''/var/log/wattcurb/audit.log'';
        d \<leftarrow> setup_shm k u d;
        d \<leftarrow> setup_history_shm k u d;
        then_some (run_engine (capture_hardware_baseline k) d) (\<lambda>d. do {
          b \<leftarrow> bus_initialize k (dn_bus d);
          fan \<leftarrow> Fan_Curve.initialize (ou_path u) k (dn_fan d);
          (_, fan) \<leftarrow> load_from_file (ou_path u) k [] fan;
          then_some (restore_profile k (d\<lparr>dn_bus := b, dn_fan := fan\<rparr>)) (\<lambda>d.
            then_some (setup_timer k d) (\<lambda>(ok, d).
              if \<not> ok then return_io (Some (False, d))
              else do {
                (ok, d) \<leftarrow> setup_signals k d;
                if \<not> ok then return_io (Some (False, d))
                else do { r \<leftarrow> setup_waiting k d; return_io (Some r) }
              }))
        })
      })"

section \<open>Running\<close>

datatype wake = Expired | Signalled int | MemoryStall | Message string "cred option"

abbreviation "SIGHUP \<equiv> (1 :: int)"
abbreviation "SIGINT \<equiv> (2 :: int)"
abbreviation "SIGTERM \<equiv> (15 :: int)"

definition handle_wake :: "kernel \<Rightarrow> outside \<Rightarrow> wake \<Rightarrow> daemon \<Rightarrow> daemon option io" where
  "handle_wake k u w d =
     (case w of
        Expired \<Rightarrow> observation k u d
      | Signalled s \<Rightarrow>
          if s = SIGINT \<or> s = SIGTERM then do { log_event (EvAlert ''LIFECYCLE''); return_io (Some (d\<lparr>dn_running := False\<rparr>)) }
          else if s = SIGHUP then do { p \<leftarrow> refresh_device_paths k (dn_probe d); return_io (Some (d\<lparr>dn_probe := p\<rparr>)) }
          else return_io (Some d)
      | MemoryStall \<Rightarrow> if dn_psi d then drive_guard k d else return_io (Some d)
      | Message msg c \<Rightarrow> if dn_locked d then handle_ipc_datagram k u msg c d else return_io (Some d))"

definition wake_step :: "kernel \<Rightarrow> outside \<Rightarrow> wake \<Rightarrow> daemon option \<Rightarrow> daemon option io" where
  "wake_step k u w d = (case d of None \<Rightarrow> return_io None | Some d \<Rightarrow> handle_wake k u w d)"

text \<open>The wake-ups come in batches; all of a batch are handled before the loop looks whether it should end.\<close>

fun run_batches :: "kernel \<Rightarrow> outside \<Rightarrow> wake list list \<Rightarrow> daemon option \<Rightarrow> daemon option io" where
  "run_batches k u [] d = return_io d"
| "run_batches k u (ws # wss) d =
     (case d of None \<Rightarrow> return_io None
      | Some s \<Rightarrow> if \<not> dn_running s then return_io d else io_for (\<lambda>_. True) (wake_step k u) ws d \<bind> run_batches k u wss)"

text \<open>The start, the first look at the machine, and the wake-ups until the end; whether it could start.\<close>

definition daemon_run :: "kernel \<Rightarrow> outside \<Rightarrow> wake list list \<Rightarrow> daemon \<Rightarrow> (bool \<times> daemon) option io" where
  "daemon_run k u wss d =
     then_some (if dn_epoll d then return_io (Some (True, d)) else daemon_initialize k u d) (\<lambda>(ok, d).
       if \<not> ok then return_io (Some (False, d))
       else do {
         log_event (EvAlert ''LIFECYCLE'');
         then_some (take_baseline k u (d\<lparr>dn_running := True\<rparr>)) (\<lambda>d. do {
           sys_sleep 500;
           then_some (observation k u d) (\<lambda>d. do {
             r \<leftarrow> run_batches k u wss (Some d);
             return_io (map_option (Pair True) r)
           })
         })
       })"

section \<open>Construction and destruction\<close>

definition engine_new :: "bool \<Rightarrow> engine" where
  "engine_new sandbox = \<lparr>en_globals = \<lparr>gl_sandbox = sandbox, gl_audio_active = False, gl_audio_owners = [],
     gl_effective_profile = Balanced, gl_audio_pm_qos = False\<rparr>, en_base = baseline_init, en_statics = statics_init,
     en_platform = platform_init, en_topology = None\<rparr>"

definition state_block_new :: shared_state where
  "state_block_new =
     (let c = \<lparr>sc_comm = replicate 16 NUL, sc_pid = 0, sc_drain_mw = 0, sc_domain_id = 0, sc_tier = 0, sc_rss_mb = 0,
               sc_pss_mb = 0, sc_majflt_s = 0\<rparr>
      in \<lparr>ss_seq_version = 0, ss_system_drain_mw = 0, ss_battery_percent = 0, ss_battery_state = 0, ss_time_to_empty_min = 0,
          ss_active_mitigations = 0, ss_cpu_drain_mw = 0, ss_gpu_drain_mw = 0, ss_wakeups_per_sec = 0, ss_cpu_temp_c = 0,
          ss_fan_rpm = 0, ss_cstate_c3_percent = 0, ss_battery_health_percent = 0, ss_power_profile_mode = 0,
          ss_cpu_freq_mhz = 0, ss_culprits = [c, c]\<rparr>)"

definition daemon_new :: "kernel \<Rightarrow> outside \<Rightarrow> bool \<Rightarrow> float64 \<Rightarrow> bool \<Rightarrow> daemon io" where
  "daemon_new k u sandbox period locked = do {
     p \<leftarrow> probe_new k ''/sys'';
     return_io \<lparr>dn_period = (if fp_lt (Fin 0) period then period else Fin 10), dn_locked = locked, dn_running = False,
       dn_cycle = \<lparr>cy_engine = engine_new sandbox, cy_features = features_init, cy_watch = watchdog_init, cy_status = status_init\<rparr>,
       dn_fan = fan_engine_new (ou_path u), dn_governor = governor_init None, dn_guard = guard_init, dn_bus = bus_init,
       dn_disk = disk_guard_init, dn_analyzer = analyzer_new ''/proc'', dn_probe = p, dn_procs = [], dn_report = cached_new,
       dn_hw = probed_new, dn_hw_light = probed_new, dn_hw_deep = probed_new, dn_baseline = False, dn_local = state_block_new,
       dn_shm = None, dn_ring = None, dn_logged_profile = Balanced, dn_logged_discharging = False, dn_logged_percent = 100,
       dn_epoll = False, dn_timer = False, dn_signals = False, dn_psi = False,
       dn_cadence = \<lparr>cd_tick = 0, cd_deadline = 0, cd_interactive = False, cd_watts = Fin 0, cd_early = 0\<rparr>,
       dn_interval = Fin 10, dn_profiled = None\<rparr>
   }"

text \<open>Mappings and descriptors.\<close>

definition cleanup_descriptors :: "daemon \<Rightarrow> daemon io" where
  "cleanup_descriptors d = do {
     io_when (dn_shm d \<noteq> None) (sys_close_fd SHARED_STATE_SHM_PATH);
     io_when (dn_ring d \<noteq> None) (sys_close_fd HISTORY_SHM_PATH);
     io_when (dn_epoll d) (sys_close_fd ''epoll'');
     io_when (dn_timer d) (sys_close_fd ''timer'');
     io_when (dn_signals d) (sys_close_fd ''signals'');
     return_io (d\<lparr>dn_shm := None, dn_ring := None, dn_epoll := False, dn_timer := False, dn_signals := False\<rparr>)
   }"

text \<open>What the daemon applied is taken back, the state of processes before that of the hardware.\<close>

definition release_processes :: "kernel \<Rightarrow> daemon \<Rightarrow> daemon io" where
  "release_processes k d = do {
     f \<leftarrow> rollback_all_tracked (dn_globals d) k (cy_features (dn_cycle d));
     return_io (d\<lparr>dn_cycle := (dn_cycle d)\<lparr>cy_features := f\<rparr>\<rparr>)
   }"

definition release_guard :: "kernel \<Rightarrow> daemon \<Rightarrow> daemon io" where
  "release_guard k d = do { g \<leftarrow> guard_shutdown (dn_globals d) k (dn_guard d); return_io (d\<lparr>dn_guard := g\<rparr>) }"

definition release_windows :: "kernel \<Rightarrow> daemon \<Rightarrow> daemon io" where
  "release_windows k d = with_governor (governor_rollback (dn_globals d) k) d"

definition release_bus :: "kernel \<Rightarrow> daemon \<Rightarrow> daemon io" where
  "release_bus k d = do { b \<leftarrow> bus_rollback k (dn_bus d); return_io (d\<lparr>dn_bus := b\<rparr>) }"

definition daemon_stop :: "kernel \<Rightarrow> daemon \<Rightarrow> daemon io" where
  "daemon_stop k d = release_windows k (d\<lparr>dn_running := False\<rparr>)"

text \<open>The destructor, and those of the members, the last member first.\<close>

definition destroy_members :: "kernel \<Rightarrow> daemon \<Rightarrow> daemon io" where
  "destroy_members k d = do {
     d \<leftarrow> release_bus k d;
     d \<leftarrow> release_guard k d;
     d \<leftarrow> release_windows k d;
     d \<leftarrow> release_processes k d;
     p \<leftarrow> close_fds (dn_probe d);
     io_when (dn_locked d) (sys_close_fd ''lock'');
     return_io (d\<lparr>dn_probe := p, dn_locked := False\<rparr>)
   }"

definition daemon_destroy :: "kernel \<Rightarrow> daemon \<Rightarrow> daemon option io" where
  "daemon_destroy k d = do {
     d \<leftarrow> daemon_stop k d;
     d \<leftarrow> release_processes k d;
     d \<leftarrow> release_guard k d;
     d \<leftarrow> release_windows k d;
     d \<leftarrow> release_bus k d;
     then_some (run_engine (restore_hardware_baseline k) d) (\<lambda>d. do {
       d \<leftarrow> cleanup_descriptors d;
       d \<leftarrow> destroy_members k d;
       return_io (Some d)
     })
   }"

end
