(* ===== verification/Daemon_Safety.thy ===== *)
theory Daemon_Safety
  imports Daemon_Loop Hw_Safety Feature_Release Window_Release
begin

text \<open>
  Who may command the daemon: what is refused, and what is not asked for.
\<close>

section \<open>Refusal\<close>

definition refusal_event :: "event \<Rightarrow> bool" where
  "refusal_event e \<longleftrightarrow> is_read_event e \<or> e = EvReply DENIED \<or> e = EvAlert ''DENY''"

text \<open>A sender that cannot be a client: no credentials, or neither root nor one of the installed programs as root owns them.\<close>

definition stranger :: "kernel \<Rightarrow> cred option \<Rightarrow> bool" where
  "stranger k c \<longleftrightarrow>
     (\<forall>cr. c = Some cr \<longrightarrow> 0 < cr_pid cr \<longrightarrow> cr_uid cr \<noteq> 0 \<and>
        ((\<forall>h exe. k_readlink k h (exe_link (cr_pid cr)) = Some exe \<longrightarrow> c_str (take 255 exe) \<notin> set ALLOWED_CLIENTS) \<or>
         (\<forall>h p st. p \<in> set ALLOWED_CLIENTS \<longrightarrow> k_stat k h p = Some st \<longrightarrow> \<not> trusted_file st)))"

lemma stranger_refused: "stranger k c \<Longrightarrow> io_ok is_read_event (authorize k c) (\<lambda>b. \<not> b)"
proof (cases c)
  case (Some cr)
  assume s: "stranger k c"
  show ?thesis
  proof (cases "0 < cr_pid cr")
    case True
    have uid: "cr_uid cr \<noteq> 0" using s True by (simp add: stranger_def Some)
    have peer: "io_ok is_read_event (peer_is_authorized_client k cr) (\<lambda>b. \<not> b)"
    proof (cases "\<forall>h exe. k_readlink k h (exe_link (cr_pid cr)) = Some exe \<longrightarrow> c_str (take 255 exe) \<notin> set ALLOWED_CLIENTS")
      case listed: True
      show ?thesis
        unfolding peer_is_authorized_client_def sys_readlink_def using uid listed
        by (intro io_ok_if io_ok_return io_ok_bind [where R = "\<lambda>r. \<forall>exe. r = Some exe \<longrightarrow> c_str exe \<notin> set ALLOWED_CLIENTS"] io_ok_syscall)
          (auto split: option.splits intro!: io_ok_return)
    next
      case False
      then have st: "p \<in> set ALLOWED_CLIENTS \<Longrightarrow> k_stat k h p = Some st \<Longrightarrow> \<not> trusted_file st" for h p st
        using s True by (auto simp: stranger_def Some)
      have "io_ok is_read_event (do { st \<leftarrow> sys_stat k p; return_io (case st of None \<Rightarrow> False | Some st \<Rightarrow> trusted_file st) }) (\<lambda>b. \<not> b)"
        if "p \<in> set ALLOWED_CLIENTS" for p
        unfolding sys_stat_def
        by (rule io_ok_bind [where R = "\<lambda>r. \<forall>st. r = Some st \<longrightarrow> \<not> trusted_file st"])
          (auto intro!: io_ok_syscall st [OF that] split: option.splits)
      then show ?thesis
        unfolding peer_is_authorized_client_def sys_readlink_def using uid
        by (intro io_ok_if io_ok_return io_ok_bind [where R = "\<lambda>r. True"] io_ok_syscall)
          (auto split: option.splits intro!: io_ok_return io_ok_if)
    qed
    show ?thesis
      unfolding authorize_def sys_read_file_def Some using True
      by (auto intro!: io_ok_bind [where R = "\<lambda>_. True"] io_ok_syscall peer)
  qed (simp add: authorize_def Some io_ok_return)
qed (simp add: authorize_def io_ok_return)

lemma deny_ok: "io_ok refusal_event (deny d) (\<lambda>r. r = Some d)"
  unfolding deny_def sys_defs by (intro io_ok_bind [where R = "\<lambda>_. True"] io_ok_syscall io_ok_return) (auto simp: refusal_event_def)

lemma io_ok_weaken: "io_ok P m Q \<Longrightarrow> (\<And>e. P e \<Longrightarrow> P' e) \<Longrightarrow> (\<And>x. Q x \<Longrightarrow> Q' x) \<Longrightarrow> io_ok P' m Q'"
  unfolding io_ok_def by (metis list.pred_mono_strong)

text \<open>C35. Nobody but an installed client or root commands the power profile or the fan.  A datagram that asks for a
  profile or sends fan curves, from a sender without credentials, or from one that is not root and whose program is not
  one of the six installed ones or is writable by others, leaves the whole state of the daemon as it is; all that happens
  is that some files are read, the refusal is sent back and logged.
\<close>

theorem strangers_refused:
  assumes "command_of (take 4095 msg) \<in> {SetProfile, SetFanCurves}" "stranger k c"
  shows "io_ok refusal_event (handle_ipc_datagram k u msg c d) (\<lambda>r. r = Some d)"
proof -
  have "io_ok refusal_event (authorize k c) (\<lambda>b. \<not> b)"
    by (rule io_ok_weaken [OF stranger_refused [OF assms(2)]]) (auto simp: refusal_event_def)
  moreover have "io_ok refusal_event (handle_command k u b (take 4095 msg) d) (\<lambda>r. r = Some d)" if "\<not> b" for b
    using assms(1) that deny_ok by (auto simp: handle_command_def set_profile_def set_fan_curves_def)
  ultimately show ?thesis
    unfolding handle_ipc_datagram_def by (auto intro!: io_ok_if io_ok_return io_ok_bind)
qed

text \<open>A quiet surrounding, for the examples: an empty history, and report texts that are empty.\<close>

definition point_zero :: history_point where
  "point_zero = \<lparr>hp_timestamp_sec = 0, hp_total_system_mw = 0, hp_cpu_package_mw = 0, hp_gpu_mw = 0, hp_cpu_temp_c = 0,
     hp_cpu_freq_mhz = 0, hp_battery_percent = 0, hp_battery_state = 0, hp_power_profile_mode = 0, hp_cstate_c3_percent = 0,
     hp_active_mitigations = 0, hp_mem_used_mb = 0, hp_swap_used_mb = 0, hp_top_proc_pss_mb = 0\<rparr>"

definition quiet_outside :: outside where
  "quiet_outside = \<lparr>ou_isa = \<lparr>has_avx2 = True, has_bmi2 = True\<rparr>, ou_pow = (\<lambda>x y. x),
     ou_path = ScalarPath, ou_block = (\<lambda>_. state_block_new), ou_ring = (\<lambda>_. ring_new RING_CAPACITY point_zero),
     ou_bytes = (\<lambda>_. []), ou_briefing = (\<lambda>_. []), ou_telemetry = (\<lambda>_ _. [])\<rparr>"

definition desktop_daemon :: daemon where
  "desktop_daemon =
     \<lparr>dn_period = Fin 3, dn_locked = True, dn_running = True,
      dn_cycle = \<lparr>cy_engine = engine_new False, cy_features = features_init, cy_watch = watchdog_init, cy_status = status_init\<rparr>,
      dn_fan = fan_engine_new ScalarPath, dn_governor = governor_init None, dn_guard = guard_init, dn_bus = bus_init,
      dn_disk = disk_guard_init, dn_analyzer = analyzer_new ''/proc'', dn_probe = probe_blank ''/sys'', dn_procs = [],
      dn_report = cached_new, dn_hw = probed_new, dn_hw_light = probed_new, dn_hw_deep = probed_new, dn_baseline = True,
      dn_local = state_block_new, dn_shm = None, dn_ring = None, dn_logged_profile = Balanced, dn_logged_discharging = False,
      dn_logged_percent = 100, dn_epoll = True, dn_timer = True, dn_signals = True, dn_psi = False,
      dn_cadence = \<lparr>cd_tick = 1, cd_deadline = 0, cd_interactive = False, cd_watts = Fin 0, cd_early = 0\<rparr>, dn_interval = Fin 3,
      dn_profiled = None\<rparr>"

definition script_kernel :: kernel where
  "script_kernel = quiet_kernel\<lparr>k_readlink := (\<lambda>_ _. Some ''/usr/bin/python3'')\<rparr>"

text \<open>An audit's script that asks for UltraEndurance.\<close>

theorem strangers_refused_witness:
  "io_ok refusal_event (handle_ipc_datagram script_kernel quiet_outside ''PROFILE 3'' (Some \<lparr>cr_pid = 4242, cr_uid = 1000\<rparr>)
     desktop_daemon) (\<lambda>r. r = Some desktop_daemon)"
proof (rule strangers_refused)
  show "command_of (take 4095 ''PROFILE 3'') \<in> {SetProfile, SetFanCurves}"
    by (simp add: command_of_def starts_with_def)
  have "c_str (take 255 ''/usr/bin/python3'') \<notin> set ALLOWED_CLIENTS" by code_simp
  then show "stranger script_kernel (Some \<lparr>cr_pid = 4242, cr_uid = 1000\<rparr>)"
    by (simp add: stranger_def script_kernel_def)
qed

section \<open>Commands that ask for nothing\<close>

lemma contains_chars: "str_contains s p \<Longrightarrow> set p \<subseteq> set s"
proof (induction s)
  case (Cons c s)
  then show ?case by (fastforce simp: starts_with_iff dest!: arg_cong [where f = set])
qed simp

lemma digits_of_int: "0 \<le> p \<Longrightarrow> show_int p = show_nat (nat p)"
  by (simp add: show_int_def)

lemma shown_digits: "c \<in> set (show_nat n) \<Longrightarrow> is_digit c"
  using list_all_show_nat by (auto simp: list_all_iff)

lemma scan_shown: "0 \<le> p \<Longrightarrow> p < 2 ^ 31 \<Longrightarrow> scan_int (show_int p) = Some (p, [])"
  using strtol_show_nat [of "nat p" "[]"] show_nat_ne [of "nat p"]
  by (simp add: scan_int_def digits_of_int wrap_i32_def signed_take_bit_int_eq_self)

lemma shown_c_str: "0 \<le> p \<Longrightarrow> c_str (show_int p) = show_int p"
  using shown_digits [of NUL "nat p"] by (auto simp: digits_of_int is_digit_def intro!: c_str_id)

lemma active_window_command:
  assumes "0 \<le> p" "p < 2 ^ 31"
  shows "command_of (take 4095 (''ACTIVE_WINDOW '' @ show_int p)) = ActiveWindow"
    "take 4095 (''ACTIVE_WINDOW '' @ show_int p) = ''ACTIVE_WINDOW '' @ show_int p"
proof -
  have "length (show_nat (nat p)) \<le> 10" using assms by (intro length_show_nat) auto
  then show t: "take 4095 (''ACTIVE_WINDOW '' @ show_int p) = ''ACTIVE_WINDOW '' @ show_int p"
    using assms by (simp add: digits_of_int)
  have letters: "c \<notin> set (''ACTIVE_WINDOW '' @ show_int p)" if "c \<in> {CHR ''G'', CHR ''U'', CHR ''R'', CHR ''H'', CHR ''S''}" for c
    using that shown_digits [of c "nat p"] assms by (auto simp: digits_of_int is_digit_def)
  have no: "\<not> str_contains (''ACTIVE_WINDOW '' @ show_int p) w" if "c \<in> set w" "c \<in> {CHR ''G'', CHR ''U'', CHR ''R'', CHR ''H'', CHR ''S''}" for c w
    using contains_chars letters that by blast
  show "command_of (take 4095 (''ACTIVE_WINDOW '' @ show_int p)) = ActiveWindow"
    unfolding t command_of_def
    by (simp only: no [of "CHR ''G''" "''BRIEFING''"] no [of "CHR ''U''" "''FULL_TELEMETRY''"] no [of "CHR ''R''" "''INTERACTIVE''"]
        no [of "CHR ''R''" "''HEARTBEAT''"] no [of "CHR ''S''" "''RESCAN''"] if_False list.set insert_iff simp_thms starts_with_append)
      (simp add: starts_with_def)
qed

lemma ext_own: "emits (\<lambda>_. True) (is_own_process k p)"
  unfolding is_own_process_def sys_defs by (auto intro!: io_rules)

lemma ext_elevate: "emits (\<lambda>_. True) (elevate_window g k p gv)"
  unfolding elevate_window_def Let_def sys_defs pin_c0_latency_def
  by (auto intro!: io_rules emits_actuators io_ok_weaken [OF gentle_topology])

lemma ext_snapshot: "emits (\<lambda>_. True) (capture_snapshot k p)"
  unfolding capture_snapshot_def Window_Governor.read_slack_def sys_defs by (auto intro!: io_rules)

lemma engage_raises:
  assumes "p \<noteq> k_self k" "\<And>h. k_getppid k h \<noteq> p" "1 < p" "\<not> gl_sandbox g" "\<not> (sn_active (gv_active gv) \<and> sn_pid (gv_active gv) = p)"
  shows "does (\<lambda>e. e = EvSetPriority p (- 10)) (engage_active_window g k p comm gv)"
proof -
  have own: "io_ok (\<lambda>_. True) (is_own_process k p) (\<lambda>own. \<not> own)"
    unfolding is_own_process_def sys_getppid_def using assms(1-3)
    by (auto intro!: io_ok_bind [where R = "\<lambda>q. q \<noteq> p"] io_ok_syscall)
  have "does (\<lambda>e. e = EvSetPriority p (- 10)) (elevate_window g k p gv')" for gv'
    unfolding elevate_window_def Let_def io_when_def using assms(4) 
    by (auto intro!: does_first does_syscall io_rules emits_actuators io_ok_weaken [OF gentle_topology]
        simp: sys_defs pin_c0_latency_def)
  then have "does (\<lambda>e. e = EvSetPriority p (- 10)) (elevate_window g k p gv')" for gv' .
  note raise = this
  show ?thesis
    unfolding engage_active_window_def
    by (rule does_then [OF own], simp only: if_False assms(5), rule does_bind_any [OF ext_release],
        rule does_bind_any [OF ext_snapshot], rule does_first [OF raise])
      (auto intro!: io_rules ext_unthrottle simp: log_event_def)
qed

lemma ext_then: "emits P m \<Longrightarrow> (\<And>x. emits P (f x)) \<Longrightarrow> emits P (then_some m f)"
  unfolding then_some_def by (auto intro!: io_rules split: option.split)

lemma ext_topology: "emits (\<lambda>_. True) (get_cluster_topology k cache)"
  by (rule io_ok_weaken [OF gentle_topology]) auto

lemma ext_engage: "emits (\<lambda>_. True) (engage_active_window g k p comm gv)"
  unfolding engage_active_window_def pin_c0_latency_def sys_defs
  by (auto intro!: io_rules ext_own ext_release ext_snapshot ext_elevate ext_unthrottle)

text \<open>C36. Anyone may raise a process.  Whoever sends the datagram, without any credentials, the daemon answers
  \<^verbatim>\<open>ACTIVE_WINDOW <pid>\<close> by giving that process the priority of the foreground window, -10, although raising a
  priority is reserved to root; only the daemon itself, its parent and the process that has it already are left out.
\<close>

theorem anyone_raises_priority:
  assumes "1 < p" "p < 2 ^ 31" "p \<noteq> k_self k" "\<forall>h. k_getppid k h \<noteq> p" "dn_locked d" "\<not> gl_sandbox (dn_globals d)"
    and "\<not> (sn_active (gv_active (dn_governor d)) \<and> sn_pid (gv_active (dn_governor d)) = p)"
  shows "does (\<lambda>e. e = EvSetPriority p (- 10)) (handle_wake k u (Message (''ACTIVE_WINDOW '' @ show_int p) None) d)"
proof -
  have p: "0 \<le> p" using assms(1) by simp
  let ?act = "\<lambda>p gv. do { (_, gv) \<leftarrow> engage_active_window (dn_globals d) k p (window_comm (show_int p)) gv; return_io gv }"
  have shape: "handle_wake k u (Message (''ACTIVE_WINDOW '' @ show_int p) None) d =
      acknowledged (do { d \<leftarrow> with_governor (?act p) d; return_io (Some d) })"
    using assms(1,2,5) active_window_command [OF p assms(2)] scan_shown [OF p assms(2)] shown_c_str [OF p]
    by (simp add: handle_wake_def handle_ipc_datagram_def authorize_def handle_command_def window_command_def nth_or_def
        numeral_eq_Suc)
  have "does (\<lambda>e. e = EvSetPriority p (- 10)) (?act p gv)"
    if "gv_active gv = gv_active (dn_governor d)" for gv
    by (rule does_first [OF engage_raises]) (use assms that in \<open>auto intro!: io_rules\<close>)
  note raise = this
  have "does (\<lambda>e. e = EvSetPriority p (- 10)) (with_governor (?act p) d)"
    unfolding with_governor_def by (rule does_first, rule raise) (auto intro!: io_rules)
  then show ?thesis
    unfolding shape acknowledged_def then_some_def
    by (intro does_first) (auto intro!: io_rules simp: sys_reply_def split: option.split)
qed

theorem anyone_raises_priority_witness:
  "does (\<lambda>e. e = EvSetPriority 4242 (- 10))
     (handle_wake quiet_kernel quiet_outside (Message (''ACTIVE_WINDOW '' @ show_int 4242) None) desktop_daemon)"
  by (rule anyone_raises_priority)
    (simp_all add: desktop_daemon_def engine_new_def governor_init_def snapshot_init_def quiet_kernel_def)

end
