(* ===== verification/Daemon_Cadence.thy ===== *)
theory Daemon_Cadence
  imports Daemon_Safety Proc_Scan
begin

text \<open>
  When the daemon looks, and what a light look leaves alone: the frame of every operation of the loop, the
  deep sweep that is never more than six observations away.
\<close>

section \<open>Frames\<close>

abbreviation if_some :: "('a \<Rightarrow> bool) \<Rightarrow> 'a option \<Rightarrow> bool" where
  "if_some P \<equiv> (\<lambda>r. \<forall>x. r = Some x \<longrightarrow> P x)"

lemma then_if_some:
  "yields m (if_some R) \<Longrightarrow> (\<And>x. R x \<Longrightarrow> yields (f x) (if_some Q)) \<Longrightarrow> yields (then_some m f) (if_some Q)"
  by (rule yields_then [where R = R]) auto

lemma yields_mono: "yields m Q \<Longrightarrow> (\<And>x. Q x \<Longrightarrow> Q' x) \<Longrightarrow> yields m Q'"
  by (simp add: yields_def)

lemma yields_option: "(r = None \<Longrightarrow> yields a Q) \<Longrightarrow> (\<And>x. r = Some x \<Longrightarrow> yields (f x) Q) \<Longrightarrow> yields (case r of None \<Rightarrow> a | Some x \<Rightarrow> f x) Q"
  by (cases r) auto

lemma yields_if: "(b \<Longrightarrow> yields x Q) \<Longrightarrow> (\<not> b \<Longrightarrow> yields y Q) \<Longrightarrow> yields (if b then x else y) Q"
  by simp

lemma yields_syscall: "(\<And>h. Q (f h)) \<Longrightarrow> yields (syscall f ev) Q"
  by (simp add: yields_def)

lemma yields_get: "(\<And>h. Q h) \<Longrightarrow> yields State_Monad.get Q"
  by (simp add: yields_def State_Monad.get_def)

text \<open>What the loop's decisions read and the daemon's engines work on.\<close>

type_synonym drivers = "cycle \<times> fan_engine \<times> governor \<times> guard \<times> bus_controller \<times> disk_guard"

definition drivers :: "daemon \<Rightarrow> drivers" where
  "drivers d = (dn_cycle d, dn_fan d, dn_governor d, dn_guard d, dn_bus d, dn_disk d)"

definition samplers :: "daemon \<Rightarrow> analyzer \<times> peripheral list \<times> bool" where
  "samplers d = (dn_analyzer d, pr_peripherals (dn_probe d), dn_locked d)"

definition mapped_content :: "outside \<Rightarrow> history_point ring option \<Rightarrow> history_point ring option \<Rightarrow> bool" where
  "mapped_content u old new \<longleftrightarrow> new = old \<or> new = None \<or> (\<exists>h. new = Some (ou_ring u h))"

lemma map_file_content: "yields (map_file k path content) (\<lambda>r. r = None \<or> (\<exists>h. r = Some (content h)))"
  unfolding map_file_def by (intro yields_any yields_if) (auto intro!: yields_any)

lemma frame_shm: "yields (setup_shm k u d) (\<lambda>d'. \<exists>s. d' = d\<lparr>dn_shm := s\<rparr>)"
proof -
  have "\<exists>s. d = d\<lparr>dn_shm := s\<rparr>" by (rule exI [of _ "dn_shm d"]) simp
  then show ?thesis
    unfolding setup_shm_def Let_def by (intro yields_if yields_any) auto
qed

lemma frame_ring: "yields (setup_history_shm k u d) (\<lambda>d'. \<exists>r. d' = d\<lparr>dn_ring := r\<rparr> \<and> mapped_content u (dn_ring d) r)"
proof -
  have same: "\<exists>r. d = d\<lparr>dn_ring := r\<rparr> \<and> mapped_content u (dn_ring d) r"
    by (rule exI [of _ "dn_ring d"]) (simp add: mapped_content_def)
  have tail: "yields (map_file k HISTORY_SHM_PATH (ou_ring u) \<bind> (\<lambda>r. return_io (d\<lparr>dn_ring := r\<rparr>)))
      (\<lambda>d'. \<exists>r. d' = d\<lparr>dn_ring := r\<rparr> \<and> mapped_content u (dn_ring d) r)"
    by (rule yields_bind [OF map_file_content]) (auto simp: mapped_content_def)
  show ?thesis
    unfolding setup_history_shm_def by (intro yields_if yields_any tail) (use same in auto)
qed

lemma update_mode: "update_from_report r s = Some s' \<Longrightarrow> ss_power_profile_mode s' = of_nat (profile_code (rp_current_profile r))"
  by (auto simp: update_from_report_def Let_def split: Option.bind_splits)

lemma frame_publish:
  "yields (publish k u d) (if_some (\<lambda>d'. \<exists>l s. d' = d\<lparr>dn_local := l, dn_shm := s\<rparr> \<and>
     ss_power_profile_mode l = of_nat (profile_code (ch_profile (dn_report d)))))"
  unfolding publish_def Let_def
proof (rule yields_bind [OF frame_shm], elim exE)
  fix d' s assume "d' = d\<lparr>dn_shm := s\<rparr>"
  then show "yields (return_io (do { l \<leftarrow> update_from_report (cached_report (dn_report d')) (dn_local d');
         s \<leftarrow> (case dn_shm d' of None \<Rightarrow> Some None | Some s \<Rightarrow> map_option Some (update_from_report (cached_report (dn_report d')) s));
         Some (d'\<lparr>dn_local := l, dn_shm := s\<rparr>) }))
      (if_some (\<lambda>d'. \<exists>l s. d' = d\<lparr>dn_local := l, dn_shm := s\<rparr> \<and>
        ss_power_profile_mode l = of_nat (profile_code (ch_profile (dn_report d)))))"
    by (auto dest!: update_mode simp: cached_report_def split: Option.bind_splits)
qed

lemma frame_alerts: "yields (battery_alerts d) (\<lambda>d'. \<exists>b n. d' = d\<lparr>dn_logged_discharging := b, dn_logged_percent := n\<rparr>)"
  unfolding battery_alerts_def Let_def by (intro yields_any) auto

text \<open>A point of the history: the ring is the mapped one with one point more, or there is none.\<close>

definition ring_grown :: "outside \<Rightarrow> history_point ring option \<Rightarrow> history_point ring option \<Rightarrow> bool" where
  "ring_grown u old new \<longleftrightarrow> new = None \<or> (\<exists>r pt. mapped_content u old (Some r) \<and> rg_head r < rg_cap r \<and> new = Some (ring_append pt r))"

lemma frame_export: "yields (export_history k u d) (if_some (\<lambda>d'. \<exists>r. d' = d\<lparr>dn_ring := r\<rparr> \<and> ring_grown u (dn_ring d) r))"
  unfolding export_history_def
proof (rule yields_bind [OF frame_ring], elim exE conjE)
  fix d' r assume d': "d' = d\<lparr>dn_ring := r\<rparr>" and r: "mapped_content u (dn_ring d) r"
  show "yields (case dn_ring d' of None \<Rightarrow> return_io (Some d')
      | Some r \<Rightarrow> do {
          now \<leftarrow> sys_now_real k;
          m \<leftarrow> memory_sample k (dn_guard d');
          return_io (do {
            pt \<leftarrow> history_of now (dn_report d');
            r \<leftarrow> ring_store (memory_fields m (dn_report d') pt) r;
            Some (d'\<lparr>dn_ring := Some r\<rparr>) }) })
      (if_some (\<lambda>d'. \<exists>r. d' = d\<lparr>dn_ring := r\<rparr> \<and> ring_grown u (dn_ring d) r))"
  proof (rule yields_option)
    assume "dn_ring d' = None"
    then show "yields (return_io (Some d')) (if_some (\<lambda>d'. \<exists>r. d' = d\<lparr>dn_ring := r\<rparr> \<and> ring_grown u (dn_ring d) r))"
      using d' by (auto simp: ring_grown_def)
  next
    fix x assume "dn_ring d' = Some x"
    then have x: "mapped_content u (dn_ring d) (Some x)" using r d' by simp
    show "yields (do { now \<leftarrow> sys_now_real k; m \<leftarrow> memory_sample k (dn_guard d');
        return_io (do { pt \<leftarrow> history_of now (dn_report d'); r \<leftarrow> ring_store (memory_fields m (dn_report d') pt) x;
            Some (d'\<lparr>dn_ring := Some r\<rparr>) }) })
      (if_some (\<lambda>d'. \<exists>r. d' = d\<lparr>dn_ring := r\<rparr> \<and> ring_grown u (dn_ring d) r))"
      using x d' by (intro yields_any) (auto simp: ring_store_def last_ring_stages ring_grown_def split: Option.bind_splits if_splits)
  qed
qed

text \<open>A light probe: of the whole daemon only what it saw, published and logged, and when it looks again.\<close>

definition light_frame :: "kernel \<Rightarrow> outside \<Rightarrow> daemon \<Rightarrow> bool \<Rightarrow> daemon \<Rightarrow> bool" where
  "light_frame k u d early d' \<longleftrightarrow> drivers d' = drivers d \<and> samplers d' = samplers d \<and>
     ch_profile (dn_report d') = ch_profile (dn_report d) \<and>
     ss_power_profile_mode (dn_local d') = of_nat (profile_code (ch_profile (dn_report d))) \<and>
     ring_grown u (dn_ring d) (dn_ring d') \<and>
     (\<exists>h hw. (early, dn_cadence d') = probe_spike (k_now_ms k h) hw (dn_cadence d))"

lemma sample_frame:
  "yields (capture_sample k p) (if_some (\<lambda>(q, s). pr_peripherals q = pr_peripherals p))"
  using yields_io_ok [OF capture_result] by (rule yields_mono) auto

lemma frame_light: "yields (light_probe k u d) (if_some (\<lambda>(early, d'). light_frame k u d early d'))"
  unfolding light_probe_def Let_def
proof (rule then_if_some [OF sample_frame], clarify)
  fix p :: probe and cur :: probed assume p: "pr_peripherals p = pr_peripherals (dn_probe d)"
  define d0 where "d0 = d\<lparr>dn_probe := p, dn_report := (dn_report d)\<lparr>ar_hardware := light_power u (dn_hw_light d) cur\<rparr>\<rparr>"
  have tail: "yields (do { now_ms \<leftarrow> sys_now_ms k;
        case probe_spike now_ms (dn_hardware x) (dn_cadence x) of (early, cd) \<Rightarrow>
          return_io (Some (early, x\<lparr>dn_cadence := cd, dn_hw := cur, dn_hw_light := cur\<rparr>)) })
      (if_some (\<lambda>(early, d'). light_frame k u d early d'))"
    if "drivers x = drivers d" "samplers x = samplers d" "ch_profile (dn_report x) = ch_profile (dn_report d)"
      "ss_power_profile_mode (dn_local x) = of_nat (profile_code (ch_profile (dn_report d)))"
      "ring_grown u (dn_ring d) (dn_ring x)" "dn_cadence x = dn_cadence d" for x
    unfolding sys_now_ms_def
  proof (rule yields_bind [OF yields_syscall [where Q = "\<lambda>n. \<exists>h. n = k_now_ms k h"]])
    fix n assume "\<exists>h. n = k_now_ms k h"
    then obtain h where n: "n = k_now_ms k h" ..
    show "yields (case probe_spike n (dn_hardware x) (dn_cadence x) of (early, cd) \<Rightarrow>
          return_io (Some (early, x\<lparr>dn_cadence := cd, dn_hw := cur, dn_hw_light := cur\<rparr>)))
        (if_some (\<lambda>(early, d'). light_frame k u d early d'))"
      using that n by (auto simp: light_frame_def drivers_def samplers_def split: prod.split) (metis)+
  qed auto
  show "yields (then_some (publish k u d0) (\<lambda>d. then_some (export_history k u d) (\<lambda>d. do {
        d \<leftarrow> battery_alerts d; now_ms \<leftarrow> sys_now_ms k;
        case probe_spike now_ms (dn_hardware d) (dn_cadence d) of (early, cd) \<Rightarrow>
          return_io (Some (early, d\<lparr>dn_cadence := cd, dn_hw := cur, dn_hw_light := cur\<rparr>)) })))
      (if_some (\<lambda>(early, d'). light_frame k u d early d'))"
    by (rule then_if_some [OF frame_publish], elim exE conjE, rule then_if_some [OF frame_export], elim exE conjE,
        rule yields_bind [OF frame_alerts], elim exE, rule tail)
      (use p in \<open>auto simp: d0_def drivers_def samplers_def\<close>)
qed

section \<open>How often the processes are read\<close>

abbreviation passes :: "daemon \<Rightarrow> u64" where
  "passes d \<equiv> an_pass (dn_analyzer d)"

definition pass_is :: "u64 \<Rightarrow> (analyzer \<times> scanned list) option \<Rightarrow> bool" where
  "pass_is n st \<longleftrightarrow> (case st of None \<Rightarrow> True | Some (an, out) \<Rightarrow> an_pass an = n)"

lemma pass_is_simps [simp]: "pass_is n None" "pass_is n (Some (an, out)) \<longleftrightarrow> an_pass an = n"
  by (simp_all add: pass_is_def)

lemma pass_take: "yields (take_process i k prevs p s (an, out)) (\<lambda>st. pass_is (an_pass an) (Some st))"
  unfolding take_process_def Let_def prod.case by (intro yields_if yields_any) auto

lemma pass_entry:
  assumes "pass_is n st"
  shows "yields (scan_entry i k prevs e st) (pass_is n)"
proof (cases st)
  case (Some x)
  obtain an out name ty where x: "x = (an, out)" and e: "e = (name, ty)" by (metis surj_pair)
  have n: "an_pass an = n" using assms Some x by simp
  have took: "yields (take_process i k prevs p s (an, out) \<bind> (\<lambda>st. return_io (Some st))) (pass_is n)" for p s
    by (rule yields_bind [OF pass_take]) (use n in auto)
  show ?thesis
    unfolding scan_entry_def Some x e option.case prod.case Let_def
  proof (intro yields_if yields_any yields_option)
    fix content r assume "parse_proc_stat i content (scanned_new\<lparr>sa_pid := digits_val 0 (fst (span_digits name))\<rparr>) = Some r"
    show "yields (case r of (True, s) \<Rightarrow> take_process i k prevs (digits_val 0 (fst (span_digits name))) s (an, out) \<bind> (\<lambda>st. return_io (Some st))
        | (False, s) \<Rightarrow> return_io (Some (an, out))) (pass_is n)"
      using took n by (cases r rule: prod.exhaust) (auto split: bool.split)
  qed (use n in simp_all)
qed (simp add: scan_entry_def)

lemma pass_root: "pass_is n st \<Longrightarrow> yields (scan_root i k prevs d m st) (pass_is n)"
proof (induction m arbitrary: st)
  case (Suc m)
  have "yields (io_for (\<lambda>_. True) (scan_entry i k prevs) es st) (pass_is n)" for es
    by (rule yields_for) (use Suc.prems pass_entry in auto)
  then have "yields (io_for (\<lambda>_. True) (scan_entry i k prevs) es st \<bind> scan_root i k prevs d m) (pass_is n)" for es
    by (rule yields_bind) (rule Suc.IH)
  then show ?case
    unfolding scan_root.simps by - (rule yields_any, intro yields_if, use Suc.prems in auto)
qed (auto intro: yields_any)

lemma capture_pass:
  "yields (capture_active_processes i k prevs an) (if_some (\<lambda>(an', out). an_pass an' = an_pass an + 1))"
proof -
  have "yields (scan_root i k prevs d n (Some (an\<lparr>an_pass := an_pass an + 1\<rparr>, []))) (pass_is (an_pass an + 1))" for d n
    by (rule pass_root) simp
  then have "yields (scan_root i k prevs d n (Some (an\<lparr>an_pass := an_pass an + 1\<rparr>, [])) \<bind>
      (\<lambda>st. return_io (map_option (\<lambda>(an, out). (an, sort_key sa_pid out)) st))) (if_some (\<lambda>(an', out). an_pass an' = an_pass an + 1))" for d n
    by (rule yields_bind) auto
  then show ?thesis
    unfolding capture_active_processes_def Let_def by - (rule yields_any, intro yields_option, auto)
qed

lemma frame_features: "yields (drive_features k d) (if_some (\<lambda>d'. \<exists>c r. d' = d\<lparr>dn_cycle := c, dn_report := r\<rparr>))"
  unfolding drive_features_def Let_def
  by (rule then_if_some [where R = "\<lambda>_. True"]) (auto simp: yields_def)

lemma frame_logged: "yields (log_profile d) (\<lambda>d'. \<exists>m. d' = d\<lparr>dn_logged_profile := m\<rparr>)"
  unfolding log_profile_def Let_def by (intro yields_any) auto

abbreviation swept :: "daemon \<Rightarrow> daemon \<Rightarrow> bool" where
  "swept d d' \<equiv> dn_cadence d' = dn_cadence d \<and> passes d' = passes d + 1"

lemma frame_baseline: "yields (take_baseline k u d) (if_some (swept d))"
  unfolding take_baseline_def
  by (rule then_if_some [where R = "\<lambda>_. True"], simp add: yields_def, clarify, rule then_if_some [OF capture_pass]) auto

lemma frame_deep: "yields (deep_sweep k u d) (if_some (swept d))"
proof (cases "dn_baseline d")
  case True
  have tail: "yields (then_some (drive_features k e) (\<lambda>d. then_some (publish k u d) (\<lambda>d. then_some (export_history k u d) (\<lambda>d. do {
       d \<leftarrow> battery_alerts d;
       d \<leftarrow> log_profile d;
       return_io (Some (d\<lparr>dn_hw := cur, dn_hw_light := cur, dn_hw_deep := cur, dn_procs := ps\<rparr>))
     })))) (if_some (swept d))" if "dn_cadence e = dn_cadence d" "passes e = passes d + 1" for e cur ps
    by (rule then_if_some [OF frame_features], elim exE, rule then_if_some [OF frame_publish], elim exE conjE,
        rule then_if_some [OF frame_export], elim exE conjE, rule yields_bind [OF frame_alerts], elim exE,
        rule yields_bind [OF frame_logged], elim exE) (simp add: that)
  have step: "yields (case attributed_between u (dn_hw_deep d) cur (dn_procs d) ps of None \<Rightarrow> return_io None
       | Some r \<Rightarrow>
         let d = d\<lparr>dn_probe := p, dn_analyzer := an, dn_report := attribution_report.extend r \<lparr>ch_profile = Balanced, ch_summaries = 0\<rparr>\<rparr>
         in then_some (drive_features k d) (\<lambda>d. then_some (publish k u d) (\<lambda>d. then_some (export_history k u d) (\<lambda>d. do {
              d \<leftarrow> battery_alerts d;
              d \<leftarrow> log_profile d;
              return_io (Some (d\<lparr>dn_hw := cur, dn_hw_light := cur, dn_hw_deep := cur, dn_procs := ps\<rparr>))
            })))) (if_some (swept d))" if "an_pass an = passes d + 1" for p an cur ps
    unfolding Let_def by (rule yields_option) (simp, rule tail, simp_all add: that)
  show ?thesis
    unfolding deep_sweep_def using True
    by (simp only: not_True_eq_False if_False)
      (rule then_if_some [where R = "\<lambda>_. True"], simp add: yields_def, clarify, rule then_if_some [OF capture_pass], clarify, rule step)
qed (simp add: deep_sweep_def frame_baseline)

text \<open>What arming the timer leaves alone, and what the end of a lease may change besides.\<close>

definition unsampled :: "daemon \<Rightarrow> daemon \<Rightarrow> bool" where
  "unsampled d d' \<longleftrightarrow> drivers d' = drivers d \<and> samplers d' = samplers d \<and> dn_report d' = dn_report d \<and> dn_ring d' = dn_ring d \<and>
     dn_baseline d' = dn_baseline d \<and> dn_local d' = dn_local d"

definition lease_checked :: "daemon \<Rightarrow> daemon \<Rightarrow> bool" where
  "lease_checked d d' \<longleftrightarrow> unsampled d d' \<and>
     (dn_cadence d' = dn_cadence d \<or> cd_interactive (dn_cadence d) \<and> dn_cadence d' = end_lease (dn_cadence d))"

lemma frame_arm: "yields (arm_timer k sec d) (if_some (\<lambda>(ok, d'). unsampled d d' \<and> dn_cadence d' = dn_cadence d))"
  unfolding arm_timer_def Let_def
  by (intro yields_if yields_option) (auto intro!: yields_any simp: unsampled_def drivers_def samplers_def)

lemma frame_lease: "yields (check_lease k d) (if_some (lease_checked d))"
  unfolding check_lease_def
proof (rule yields_any, rule yields_if)
  fix now_ms assume e: "lease_expired now_ms (dn_cadence d)"
  show "yields (arm_timer k (Fin 10) (with_cadence end_lease d) \<bind> (\<lambda>r. return_io (map_option snd r))) (if_some (lease_checked d))"
    by (rule yields_bind [OF frame_arm])
      (use e in \<open>auto simp: lease_checked_def unsampled_def drivers_def samplers_def with_cadence_def lease_expired_def\<close>)
qed (simp add: lease_checked_def unsampled_def)

lemma frame_dump: "yields (dump_profile k t d) (\<lambda>d'. \<exists>w. d' = d\<lparr>dn_profiled := w\<rparr>)"
  unfolding dump_profile_def by (rule yields_any, rule yields_if) (auto intro!: yields_any)

lemma frame_governor:
  "yields (with_governor f d) (\<lambda>d'. \<exists>g t. d' = with_engine (\<lambda>e. e\<lparr>en_topology := t\<rparr>) (d\<lparr>dn_governor := g\<rparr>))"
  unfolding with_governor_def by (rule yields_any) auto

text \<open>What the policies leave alone: only what they keep themselves, and the cache of the topology, may change.\<close>

definition policies_done :: "daemon \<Rightarrow> daemon \<Rightarrow> bool" where
  "policies_done d d' \<longleftrightarrow> dn_cadence d' = dn_cadence d \<and> samplers d' = samplers d \<and> dn_report d' = dn_report d \<and>
     dn_ring d' = dn_ring d \<and> dn_fan d' = dn_fan d \<and> dn_globals d' = dn_globals d \<and>
     cy_features (dn_cycle d') = cy_features (dn_cycle d) \<and> dn_local d' = dn_local d"

lemma frame_policies: "yields (drive_policies k d) (if_some (policies_done d))"
  unfolding drive_policies_def
proof (rule then_if_some [where R = "\<lambda>d'. \<exists>g. d' = d\<lparr>dn_guard := g\<rparr>"])
  show "yields (drive_guard k d) (if_some (\<lambda>d'. \<exists>g. d' = d\<lparr>dn_guard := g\<rparr>))"
    unfolding drive_guard_def by (rule then_if_some [where R = "\<lambda>_. True"]) (auto simp: yields_def)
next
  fix d1 assume "\<exists>g. d1 = d\<lparr>dn_guard := g\<rparr>"
  then obtain g where d1: "d1 = d\<lparr>dn_guard := g\<rparr>" ..
  show "yields (do {
     now_sec \<leftarrow> sys_now_real k;
     d \<leftarrow> with_governor (evaluate_hysteresis (dn_globals d1) k now_sec (dn_effective d1)) d1;
     b \<leftarrow> bus_evaluate k (hs_discharging (dn_hw d)) (dn_effective d) (dn_bus d);
     (_, g) \<leftarrow> disk_evaluate k (dn_disk d);
     d \<leftarrow> dump_profile k now_sec (d\<lparr>dn_bus := b, dn_disk := g\<rparr>);
     return_io (Some d)
   }) (if_some (policies_done d))"
    by (rule yields_any, rule yields_bind [OF frame_governor], elim exE, rule yields_any, rule yields_any, clarify,
        rule yields_bind [OF frame_dump], elim exE) (simp add: d1 with_engine_def policies_done_def samplers_def)
qed

section \<open>At least every sixth observation reads the processes\<close>

text \<open>How many observations since the last sweep, as the counter of ticks shows it.\<close>

definition ticks_since :: "daemon \<Rightarrow> nat" where
  "ticks_since d = (if cd_interactive (dn_cadence d) then 0 else unat (cd_tick (dn_cadence d) mod 6))"

lemma ticks_below: "ticks_since d < 6"
  by (simp add: ticks_since_def unat_mod)

lemma tick_on:
  fixes t :: u64
  assumes "(t + 1) mod 6 \<noteq> 0"
  shows "unat ((t + 1) mod 6) = unat (t mod 6) + 1"
proof -
  have "1 + t \<noteq> 0" using assms by (auto simp: add.commute)
  then have "unat (t + 1) = unat t + 1" using unatSuc [of t] by (simp add: add.commute)
  moreover have "unat ((t + 1) mod 6) \<noteq> 0" using assms by (simp add: unat_eq_zero)
  ultimately show ?thesis by (simp add: unat_mod mod_Suc split: if_splits)
qed

lemma spike_ticks: "(e, c') = probe_spike n h c \<Longrightarrow> cd_tick c' = cd_tick c \<and> cd_interactive c' = cd_interactive c"
  by (simp add: probe_spike_def Let_def)

lemma light_passes: "light_frame k u d early d' \<Longrightarrow> passes d' = passes d"
  by (simp add: light_frame_def samplers_def)

lemma light_ticks: "light_frame k u d early d' \<Longrightarrow> ticks_since d' = ticks_since d"
  unfolding light_frame_def ticks_since_def using spike_ticks by fastforce

definition swept_or_later :: "nat \<Rightarrow> u64 \<Rightarrow> daemon \<Rightarrow> bool" where
  "swept_or_later n p d' \<longleftrightarrow> passes d' = p + 1 \<or> passes d' = p \<and> ticks_since d' = n"

lemma background_sweeps: "yields (background_sweep k u d) (if_some (swept_or_later (ticks_since d) (passes d)))"
  unfolding background_sweep_def
proof (rule then_if_some [OF frame_light], clarify)
  fix early d' assume light: "light_frame k u d early d'"
  have "yields (then_some (deep_sweep k u d') (\<lambda>d. return_io (Some (with_cadence (\<lambda>c. c\<lparr>cd_tick := 0\<rparr>) d))))
      (if_some (swept_or_later (ticks_since d) (passes d)))"
    by (rule then_if_some [OF frame_deep]) (simp add: swept_or_later_def with_cadence_def light_passes [OF light])
  then show "yields (if \<not> early then return_io (Some d')
      else do {
        log_event (EvAlert ''ADAPTIVE'');
        then_some (deep_sweep k u d') (\<lambda>d. return_io (Some (with_cadence (\<lambda>c. c\<lparr>cd_tick := 0\<rparr>) d)))
      }) (if_some (swept_or_later (ticks_since d) (passes d)))"
    by - (rule yields_if, simp add: swept_or_later_def light_passes [OF light] light_ticks [OF light], rule yields_any)
qed

lemma sweeps: "yields (sweep k u d) (if_some (swept_or_later (ticks_since d + 1) (passes d)))"
proof (cases "fst (next_tick (dn_cadence d))")
  case True
  then show ?thesis
    unfolding sweep_def Let_def case_prod_beta
    by simp (rule yields_mono [OF frame_deep], simp add: swept_or_later_def)
next
  case False
  define e where "e = d\<lparr>dn_cadence := snd (next_tick (dn_cadence d))\<rparr>"
  have "ticks_since e = ticks_since d + 1"
    using False tick_on [of "cd_tick (dn_cadence d)"]
    by (auto simp: e_def next_tick_def ticks_since_def Let_def split: if_splits)
  then have "yields (background_sweep k u e) (if_some (swept_or_later (ticks_since d + 1) (passes d)))"
    using background_sweeps [of k u e] by (simp add: e_def)
  then show ?thesis
    unfolding sweep_def Let_def case_prod_beta using False by (simp add: e_def)
qed

lemma lease_ticks: "lease_checked d d' \<Longrightarrow> ticks_since d' = ticks_since d \<and> passes d' = passes d"
  by (auto simp: lease_checked_def unsampled_def samplers_def ticks_since_def end_lease_def)

lemma observation_sweeps: "yields (observation k u d) (if_some (swept_or_later (ticks_since d + 1) (passes d)))"
  unfolding observation_def
proof (rule then_if_some [OF frame_lease])
  fix d1 assume "lease_checked d d1"
  then have l: "ticks_since d1 = ticks_since d" "passes d1 = passes d" by (simp_all add: lease_ticks)
  have "yields (drive_policies k d2) (if_some (swept_or_later (ticks_since d + 1) (passes d)))"
    if "swept_or_later (ticks_since d + 1) (passes d) d2" for d2
    by (rule yields_mono [OF frame_policies])
      (use that in \<open>auto simp: policies_done_def samplers_def swept_or_later_def ticks_since_def\<close>)
  then show "yields (then_some (sweep k u d1) (drive_policies k)) (if_some (swept_or_later (ticks_since d + 1) (passes d)))"
    by - (rule then_if_some [OF sweeps [of k u d1, unfolded l]])
qed

text \<open>The observations of as many ticks.\<close>

fun observations :: "kernel \<Rightarrow> outside \<Rightarrow> nat \<Rightarrow> daemon \<Rightarrow> daemon option io" where
  "observations k u 0 d = return_io (Some d)"
| "observations k u (Suc n) d = then_some (observation k u d) (observations k u n)"

lemma observations_sweep:
  "yields (observations k u n d) (if_some (\<lambda>d'. \<exists>m \<le> n. passes d' = passes d + of_nat m \<and> (m = 0 \<longrightarrow> ticks_since d' = ticks_since d + n)))"
proof (induction n arbitrary: d)
  case (Suc n)
  show ?case
    unfolding observations.simps
  proof (rule then_if_some [OF observation_sweeps])
    fix d1 assume one: "swept_or_later (ticks_since d + 1) (passes d) d1"
    show "yields (observations k u n d1)
        (if_some (\<lambda>d'. \<exists>m \<le> Suc n. passes d' = passes d + of_nat m \<and> (m = 0 \<longrightarrow> ticks_since d' = ticks_since d + Suc n)))"
    proof (rule yields_mono [OF Suc.IH [of d1]], intro allI impI)
      fix r d' assume "if_some (\<lambda>d'. \<exists>m \<le> n. passes d' = passes d1 + of_nat m \<and> (m = 0 \<longrightarrow> ticks_since d' = ticks_since d1 + n)) r" "r = Some d'"
      then obtain m where m: "m \<le> n" "passes d' = passes d1 + of_nat m" "m = 0 \<longrightarrow> ticks_since d' = ticks_since d1 + n" by blast
      show "\<exists>m \<le> Suc n. passes d' = passes d + of_nat m \<and> (m = 0 \<longrightarrow> ticks_since d' = ticks_since d + Suc n)"
      proof (cases "passes d1 = passes d + 1")
        case True
        then show ?thesis using m by (intro exI [of _ "Suc m"]) simp
      next
        case False
        then show ?thesis using m one by (intro exI [of _ m]) (simp add: swept_or_later_def)
      qed
    qed
  qed
qed simp

text \<open>C39. The processes are never out of sight for long.  Whatever the state of the daemon, of its leases and of its
  counters, and whatever the machine answers, of any six observations in a row at least one and at most six read the
  processes, the short cadence of a client, an early sweep and the wrap of the counter of ticks included.
\<close>

theorem deep_within_six:
  "yields (observations k u 6 d)
     (\<lambda>r. \<forall>d'. r = Some d' \<longrightarrow> (\<exists>n. 1 \<le> n \<and> n \<le> 6 \<and> an_pass (dn_analyzer d') = an_pass (dn_analyzer d) + of_nat n))"
proof (rule yields_mono [OF observations_sweep], intro allI impI)
  fix r d' assume "if_some (\<lambda>d'. \<exists>m \<le> 6. passes d' = passes d + of_nat m \<and> (m = 0 \<longrightarrow> ticks_since d' = ticks_since d + 6)) r" "r = Some d'"
  then obtain m where "m \<le> 6" "passes d' = passes d + of_nat m" "m = 0 \<longrightarrow> ticks_since d' = ticks_since d + 6" by blast
  then show "\<exists>n. 1 \<le> n \<and> n \<le> 6 \<and> passes d' = passes d + of_nat n"
    using ticks_below [of d'] by (intro exI [of _ m]) (cases m, auto)
qed

theorem deep_within_six_witness:
  "yields (observations quiet_kernel quiet_outside 6 desktop_daemon)
     (\<lambda>r. \<forall>d'. r = Some d' \<longrightarrow>
       (\<exists>n. 1 \<le> n \<and> n \<le> 6 \<and> an_pass (dn_analyzer d') = an_pass (dn_analyzer desktop_daemon) + of_nat n))"
  by (rule deep_within_six)

end
