(* ===== verification/Daemon_State.thy ===== *)
theory Daemon_State
  imports Daemon_Cadence
begin

text \<open>
  What every wake-up of the daemon keeps, whatever the clients send: the fan's tables, the ledger of the features, the
  ring of the history, and that the published profile is the one of the report.
\<close>

section \<open>The history, as far as a law of it goes\<close>

text \<open>A law of rings that a further point does not break; the file may be mapped at any time.\<close>

locale history_law =
  fixes R :: "history_point ring \<Rightarrow> bool"
  assumes append_law: "R r \<Longrightarrow> rg_head r < rg_cap r \<Longrightarrow> R (ring_append pt r)"
begin

lemma mapped_law:
  "(\<And>h. R (ou_ring u h)) \<Longrightarrow> (\<forall>r. old = Some r \<longrightarrow> R r) \<Longrightarrow> mapped_content u old new \<Longrightarrow> (\<forall>r. new = Some r \<longrightarrow> R r)"
  by (auto simp: mapped_content_def)

lemma grown_law:
  "(\<And>h. R (ou_ring u h)) \<Longrightarrow> (\<forall>r. old = Some r \<longrightarrow> R r) \<Longrightarrow> ring_grown u old new \<Longrightarrow> (\<forall>r. new = Some r \<longrightarrow> R r)"
  unfolding ring_grown_def using mapped_law [of u old] append_law by blast

end

section \<open>The state\<close>

text \<open>The part that the laws speak of.\<close>

definition kept_part :: "daemon \<Rightarrow> fan_engine \<times> tracked list \<times> history_point ring option" where
  "kept_part d = (dn_fan d, table (dn_cycle d), dn_ring d)"

definition in_step :: "daemon \<Rightarrow> bool" where
  "in_step d \<longleftrightarrow> ss_power_profile_mode (dn_local d) = of_nat (profile_code (ch_profile (dn_report d)))"

definition daemon_ok :: "(history_point ring \<Rightarrow> bool) \<Rightarrow> daemon \<Rightarrow> bool" where
  "daemon_ok R d \<longleftrightarrow> fe_ok (dn_fan d) \<and> ledger_ok (table (dn_cycle d)) \<and> (\<forall>r. dn_ring d = Some r \<longrightarrow> R r)"

lemma ok_kept: "kept_part d' = kept_part d \<Longrightarrow> daemon_ok R d' = daemon_ok R d"
  by (simp add: kept_part_def daemon_ok_def)

lemma lease_kept: "lease_checked d d' \<Longrightarrow> kept_part d' = kept_part d \<and> dn_baseline d' = dn_baseline d \<and> in_step d' = in_step d"
  by (auto simp: lease_checked_def unsampled_def drivers_def kept_part_def in_step_def)

lemma policies_kept: "policies_done d d' \<Longrightarrow> kept_part d' = kept_part d \<and> in_step d' = in_step d"
  by (simp add: policies_done_def kept_part_def in_step_def)

lemma loaded_ok:
  assumes "fe_ok e"
  shows "yields (load_from_file path k name e) (\<lambda>(ok, e'). fe_ok e')"
proof -
  have tried: "yields (try_load path k name e) (\<lambda>(ok, e'). fe_ok e')" if "fe_ok e" for name e
    unfolding try_load_def using that fe_ok_deserialize [OF that]
    by (auto intro!: yields_any split: option.split prod.split) (metis snd_conv)+
  then show ?thesis
    unfolding load_from_file_def using assms
    by (auto intro!: tried yields_any [where m = "sys_getenv _ _"] yields_any [where m = "resolve_user_config_path _"]
        yields_bind [OF tried])
qed

lemma initialized_ok: "fe_ok e \<Longrightarrow> yields (Fan_Curve.initialize path k e) fe_ok"
  unfolding initialize_def by (rule yields_bind [OF loaded_ok]) auto

section \<open>Every wake-up\<close>

lemma features_kept:
  assumes "ledger_ok (table (dn_cycle d))"
  shows "yields (drive_features k d) (if_some (\<lambda>d'. \<exists>c r. d' = d\<lparr>dn_cycle := c, dn_report := r\<rparr> \<and> ledger_ok (table c)))"
  unfolding drive_features_def Let_def by (rule then_if_some [OF evaluate_ledger [OF assms]]) auto

lemma baseline_kept: "yields (take_baseline k u d) (if_some (\<lambda>d'. kept_part d' = kept_part d \<and> in_step d' = in_step d \<and> dn_baseline d'))"
  unfolding take_baseline_def
  by (rule then_if_some [where R = "\<lambda>_. True"], simp add: yields_def, clarify, rule then_if_some [where R = "\<lambda>_. True"],
      simp add: yields_def, clarify) (simp add: kept_part_def in_step_def)

context history_law
begin

lemma publish_keeps: "daemon_ok R d \<Longrightarrow> yields (publish k u d) (if_some (\<lambda>d'. daemon_ok R d' \<and> in_step d'))"
  by (rule yields_mono [OF frame_publish]) (auto simp: daemon_ok_def in_step_def)

lemma export_keeps:
  assumes mapped: "\<And>h. R (ou_ring u h)" and ok: "daemon_ok R d \<and> in_step d"
  shows "yields (export_history k u d) (if_some (\<lambda>d'. daemon_ok R d' \<and> in_step d'))"
proof (rule yields_mono [OF frame_export], intro allI impI)
  fix ro d' assume "if_some (\<lambda>d'. \<exists>r. d' = d\<lparr>dn_ring := r\<rparr> \<and> ring_grown u (dn_ring d) r) ro" "ro = Some d'"
  then obtain r where d': "d' = d\<lparr>dn_ring := r\<rparr>" and r: "ring_grown u (dn_ring d) r" by blast
  have "\<forall>x. r = Some x \<longrightarrow> R x" by (rule grown_law [OF mapped _ r]) (use ok in \<open>simp add: daemon_ok_def\<close>)
  then show "daemon_ok R d' \<and> in_step d'" using ok by (simp add: d' daemon_ok_def in_step_def)
qed

lemma alerts_keep:
  "daemon_ok R d \<and> in_step d \<Longrightarrow> yields (battery_alerts d) (\<lambda>d'. daemon_ok R d' \<and> in_step d')"
  "daemon_ok R d \<and> in_step d \<Longrightarrow> yields (log_profile d) (\<lambda>d'. daemon_ok R d' \<and> in_step d')"
  by (rule yields_mono [OF frame_alerts], auto simp: daemon_ok_def in_step_def)
    (rule yields_mono [OF frame_logged], auto simp: daemon_ok_def in_step_def)

lemma tail_keeps:
  assumes mapped: "\<And>h. R (ou_ring u h)" and ok: "daemon_ok R e"
  shows "yields (then_some (drive_features k e) (\<lambda>d. then_some (publish k u d) (\<lambda>d. then_some (export_history k u d) (\<lambda>d. do {
       d \<leftarrow> battery_alerts d;
       d \<leftarrow> log_profile d;
       return_io (Some (d\<lparr>dn_hw := cur, dn_hw_light := cur, dn_hw_deep := cur, dn_procs := ps\<rparr>))
     })))) (if_some (\<lambda>d'. daemon_ok R d' \<and> in_step d'))"
proof -
  have l: "ledger_ok (table (dn_cycle e))" using ok by (simp add: daemon_ok_def)
  have "yields (drive_features k e) (if_some (daemon_ok R))"
    by (rule yields_mono [OF features_kept [OF l]]) (use ok in \<open>auto simp: daemon_ok_def\<close>)
  note first = this
  show ?thesis
    by (rule then_if_some [OF first], rule then_if_some [OF publish_keeps], assumption,
        rule then_if_some [OF export_keeps [OF mapped]], assumption, rule yields_bind [OF alerts_keep(1)], assumption,
        rule yields_bind [OF alerts_keep(2)], assumption) (simp add: daemon_ok_def in_step_def)
qed

lemma deep_keeps:
  assumes mapped: "\<And>h. R (ou_ring u h)" and ok: "daemon_ok R d"
  shows "yields (deep_sweep k u d) (if_some (\<lambda>d'. daemon_ok R d' \<and> (dn_baseline d \<or> in_step d \<longrightarrow> in_step d')))"
proof (cases "dn_baseline d")
  case True
  have step: "yields (case attributed_between u (dn_hw_deep d) cur (dn_procs d) ps of None \<Rightarrow> return_io None
       | Some r \<Rightarrow>
         let d = d\<lparr>dn_probe := p, dn_analyzer := an, dn_report := attribution_report.extend r \<lparr>ch_profile = Balanced, ch_summaries = 0\<rparr>\<rparr>
         in then_some (drive_features k d) (\<lambda>d. then_some (publish k u d) (\<lambda>d. then_some (export_history k u d) (\<lambda>d. do {
              d \<leftarrow> battery_alerts d;
              d \<leftarrow> log_profile d;
              return_io (Some (d\<lparr>dn_hw := cur, dn_hw_light := cur, dn_hw_deep := cur, dn_procs := ps\<rparr>))
            })))) (if_some (\<lambda>d'. daemon_ok R d' \<and> in_step d'))" for p an cur ps
    unfolding Let_def
    by (rule yields_option, simp, rule tail_keeps [OF mapped]) (use ok in \<open>simp add: daemon_ok_def\<close>)
  have "yields (deep_sweep k u d) (if_some (\<lambda>d'. daemon_ok R d' \<and> in_step d'))"
    unfolding deep_sweep_def using True
    by (simp only: not_True_eq_False if_False)
      (rule then_if_some [where R = "\<lambda>_. True"], simp add: yields_def, clarify,
       rule then_if_some [where R = "\<lambda>_. True"], simp add: yields_def, clarify, rule step)
  then show ?thesis by (rule yields_mono) simp
next
  case False
  have "yields (take_baseline k u d) (if_some (\<lambda>d'. daemon_ok R d' \<and> (in_step d \<longrightarrow> in_step d')))"
  proof (rule yields_mono [OF baseline_kept], intro allI impI)
    fix r d' assume "if_some (\<lambda>d'. kept_part d' = kept_part d \<and> in_step d' = in_step d \<and> dn_baseline d') r" "r = Some d'"
    then have "kept_part d' = kept_part d" "in_step d' = in_step d" by blast+
    then show "daemon_ok R d' \<and> (in_step d \<longrightarrow> in_step d')" using ok ok_kept by blast
  qed
  then show ?thesis using False by (simp add: deep_sweep_def)
qed

lemma light_keeps:
  assumes mapped: "\<And>h. R (ou_ring u h)" and ok: "daemon_ok R d" and f: "light_frame k u d early d'"
  shows "daemon_ok R d' \<and> in_step d'"
  using f ok grown_law [OF mapped] by (auto simp: light_frame_def daemon_ok_def in_step_def drivers_def)

lemma sweep_keeps:
  assumes mapped: "\<And>h. R (ou_ring u h)" and ok: "daemon_ok R d" and b: "dn_baseline d \<or> in_step d"
  shows "yields (sweep k u d) (if_some (\<lambda>d'. daemon_ok R d' \<and> in_step d'))"
proof -
  define e where "e = d\<lparr>dn_cadence := snd (next_tick (dn_cadence d))\<rparr>"
  have e: "daemon_ok R e" "dn_baseline e \<or> in_step e" using ok b by (simp_all add: e_def daemon_ok_def in_step_def)
  have deep: "yields (deep_sweep k u e) (if_some (\<lambda>d'. daemon_ok R d' \<and> in_step d'))"
    by (rule yields_mono [OF deep_keeps [OF mapped e(1)]]) (use e(2) in auto)
  have "yields (background_sweep k u e) (if_some (\<lambda>d'. daemon_ok R d' \<and> in_step d'))"
    unfolding background_sweep_def
  proof (rule then_if_some [OF frame_light], clarify)
    fix early d' assume "light_frame k u e early d'"
    then have l: "daemon_ok R d'" "in_step d'" using light_keeps [OF mapped e(1)] by blast+
    have "yields (then_some (deep_sweep k u d') (\<lambda>d. return_io (Some (with_cadence (\<lambda>c. c\<lparr>cd_tick := 0\<rparr>) d))))
        (if_some (\<lambda>d'. daemon_ok R d' \<and> in_step d'))"
      by (rule then_if_some [OF deep_keeps [OF mapped l(1)]])
        (use l(2) in \<open>simp add: daemon_ok_def in_step_def with_cadence_def\<close>)
    then show "yields (if \<not> early then return_io (Some d')
        else do {
          log_event (EvAlert ''ADAPTIVE'');
          then_some (deep_sweep k u d') (\<lambda>d. return_io (Some (with_cadence (\<lambda>c. c\<lparr>cd_tick := 0\<rparr>) d)))
        }) (if_some (\<lambda>d'. daemon_ok R d' \<and> in_step d'))"
      by - (rule yields_if, simp add: l, rule yields_any)
  qed
  with deep show ?thesis
    unfolding sweep_def Let_def case_prod_beta by (simp add: e_def)
qed

lemma observation_keeps:
  assumes mapped: "\<And>h. R (ou_ring u h)" and ok: "daemon_ok R d" and b: "dn_baseline d \<or> in_step d"
  shows "yields (observation k u d) (if_some (\<lambda>d'. daemon_ok R d' \<and> in_step d'))"
  unfolding observation_def
proof (rule then_if_some [OF frame_lease])
  fix d1 assume "lease_checked d d1"
  then have l: "daemon_ok R d1" "dn_baseline d1 \<or> in_step d1" using ok b lease_kept ok_kept by metis+
  have p: "yields (drive_policies k d2) (if_some (\<lambda>d'. daemon_ok R d' \<and> in_step d'))" if "daemon_ok R d2 \<and> in_step d2" for d2
  proof (rule yields_mono [OF frame_policies], intro allI impI)
    fix r d' assume "if_some (policies_done d2) r" "r = Some d'"
    then have "kept_part d' = kept_part d2" "in_step d' = in_step d2" using policies_kept by blast+
    then show "daemon_ok R d' \<and> in_step d'" using that ok_kept by blast
  qed
  show "yields (then_some (sweep k u d1) (drive_policies k)) (if_some (\<lambda>d'. daemon_ok R d' \<and> in_step d'))"
    by (rule then_if_some [OF sweep_keeps [OF mapped l] p])
qed

end

text \<open>What a client may change besides.\<close>

lemma frame_take: "yields (take_lease k d) (if_some (\<lambda>(began, d'). unsampled d d'))"
  unfolding take_lease_def Let_def
proof (rule yields_any, rule yields_if)
  fix now_ms
  let ?d = "with_cadence (\<lambda>c. c\<lparr>cd_deadline := now_ms + LEASE_MS, cd_interactive := True\<rparr>) d"
  have same: "unsampled d ?d" by (simp add: unsampled_def drivers_def samplers_def with_cadence_def)
  show "yields (arm_timer k (Fin 2) ?d \<bind> (\<lambda>r. return_io (map_option (\<lambda>(_, d). (True, d)) r))) (if_some (\<lambda>(began, d'). unsampled d d'))"
    by (rule yields_bind [OF frame_arm]) (use same in \<open>auto simp: unsampled_def\<close>)
  show "yields (return_io (Some (False, ?d))) (if_some (\<lambda>(began, d'). unsampled d d'))" using same by simp
qed

lemma unsampled_kept: "unsampled d d' \<Longrightarrow> kept_part d' = kept_part d \<and> in_step d' = in_step d"
  by (simp add: unsampled_def drivers_def kept_part_def in_step_def)

lemma frame_engine: "yields (run_engine st d) (if_some (\<lambda>d'. \<exists>e. d' = with_engine (\<lambda>_. e) d))"
  unfolding run_engine_def by (rule yields_any) auto

abbreviation good :: "(history_point ring \<Rightarrow> bool) \<Rightarrow> daemon \<Rightarrow> bool" where
  "good R d \<equiv> daemon_ok R d \<and> in_step d"

lemma good_engine: "good R d \<Longrightarrow> good R (with_engine f d)"
  by (simp add: with_engine_def daemon_ok_def in_step_def)

lemma ack_keeps: "yields m (if_some Q) \<Longrightarrow> yields (acknowledged m) (if_some Q)"
  unfolding acknowledged_def by (erule then_if_some) (rule yields_any, simp)

lemma windows_keep: "good R d \<Longrightarrow> yields (window_command n msg ns act d) (if_some (good R))"
  unfolding window_command_def invalid_def
proof (rule yields_if)
  assume d: "good R d"
  show "yields (acknowledged (do { d \<leftarrow> with_governor (act (nth_or 0 ns 0)) d; return_io (Some d) })) (if_some (good R))"
    by (rule ack_keeps, rule yields_bind [OF frame_governor], elim exE)
      (use d in \<open>simp add: with_engine_def daemon_ok_def in_step_def\<close>)
qed (rule yields_any, simp)

lemma fan_keeps_good: "good R d \<Longrightarrow> yields (set_fan_curves k u authorized req d) (if_some (good R))"
proof -
  assume d: "good R d"
  have e: "good R (d\<lparr>dn_fan := snd (deserialize_curves path s (dn_fan d))\<rparr>)" for path s
    using d fe_ok_deserialize [of "dn_fan d"] by (simp add: daemon_ok_def in_step_def)
  have f: "good R (with_engine h (d\<lparr>dn_fan := snd (deserialize_curves path s (dn_fan d))\<rparr>))" for h path s
    by (rule good_engine [OF e])
  show ?thesis
    unfolding set_fan_curves_def deny_def Let_def case_prod_beta
    by (intro yields_if yields_any then_if_some [where R = "\<lambda>_. True"]) (use d e f in \<open>auto simp: yields_def\<close>)
qed

context history_law
begin

lemma profile_keeps:
  assumes mapped: "\<And>h. R (ou_ring u h)" and ok: "good R d"
  shows "yields (set_profile k u authorized req d) (if_some (good R))"
proof -
  have choose: "yields (choose_profile k u m d) (if_some (good R))" for m
    unfolding choose_profile_def Let_def
  proof (rule then_if_some [OF frame_engine], elim exE, intro yields_any)
    fix d1 e assume d1: "d1 = with_engine (\<lambda>_. e) (d\<lparr>dn_cycle := with_features (set_override_profile (Some m)) (dn_cycle d),
        dn_local := (dn_local d)\<lparr>ss_power_profile_mode := (of_nat (profile_code m) :: u8)\<rparr>,
        dn_report := (dn_report d)\<lparr>ch_profile := m\<rparr>,
        dn_shm := map_option (update_profile_mode (of_nat (profile_code m) :: u8)) (dn_shm d)\<rparr>)"
    have "good R (d1\<lparr>dn_logged_profile := m\<rparr>)"
      using ok unfolding d1 by (simp add: with_engine_def daemon_ok_def in_step_def with_features_def set_override_profile_def)
    then show "yields (observation k u (d1\<lparr>dn_logged_profile := m\<rparr>)) (if_some (good R))"
      using observation_keeps [OF mapped] by blast
  qed
  show ?thesis
    unfolding set_profile_def deny_def
    by (intro yields_if yields_any yields_option ack_keeps choose) (use ok in auto)
qed

lemma command_keeps:
  assumes mapped: "\<And>h. R (ou_ring u h)" and ok: "good R d"
  shows "yields (handle_command k u authorized req d) (if_some (good R))"
proof -
  have taken: "good R d'" if "unsampled d d'" for d' using unsampled_kept [OF that] ok ok_kept by blast
  have deep: "yields (deep_sweep k u d') (if_some (good R))" if "good R d'" for d'
    by (rule yields_mono [OF deep_keeps [OF mapped]]) (use that in auto)
  have same: "yields (return_io (Some d)) (if_some (good R))" using ok by simp
  have lease: "yields (acknowledged (then_some (take_lease k d) (\<lambda>(began, d). if f began then deep_sweep k u d else return_io (Some d))))
      (if_some (good R))" for f
    by (rule ack_keeps, rule then_if_some [OF frame_take], clarify, rule yields_if) (use taken deep in auto)
  have telemetry: "yields (full_telemetry k u d) (if_some (good R))"
    unfolding full_telemetry_def by (rule then_if_some [OF frame_take]) (use taken in \<open>auto intro!: yields_any\<close>)
  have reload: "yields (load_from_file path k name (dn_fan d) \<bind> (\<lambda>(_, fan). do { sys_reply ACK; return_io (Some (d\<lparr>dn_fan := fan\<rparr>)) }))
      (if_some (good R))" for path name
    by (rule yields_bind [OF loaded_ok]) (use ok in \<open>auto intro!: yields_any simp: daemon_ok_def in_step_def\<close>)
  show ?thesis
    using telemetry windows_keep [OF ok] fan_keeps_good [OF ok] profile_keeps [OF mapped ok] reload lease [of "\<lambda>b. b"] lease [of "\<lambda>_. True"] same
    unfolding handle_command_def Let_def by (cases "command_of req") (auto intro!: yields_any [where m = "sys_reply _"])
qed

lemma wake_keeps:
  assumes mapped: "\<And>h. R (ou_ring u h)" and ok: "good R d"
  shows "yields (handle_wake k u w d) (if_some (good R))"
proof (cases w)
  case Expired
  then show ?thesis using observation_keeps [OF mapped] ok by (simp add: handle_wake_def)
next
  case (Signalled s)
  have "yields (refresh_device_paths k (dn_probe d) \<bind> (\<lambda>p. return_io (Some (d\<lparr>dn_probe := p\<rparr>)))) (if_some (good R))"
    by (rule yields_any) (use ok in \<open>simp add: daemon_ok_def in_step_def\<close>)
  then show ?thesis
    using ok by (auto simp: handle_wake_def Signalled daemon_ok_def in_step_def intro!: yields_any [where m = "log_event _"])
next
  case MemoryStall
  have "yields (drive_guard k d) (if_some (good R))"
    unfolding drive_guard_def
    by (rule then_if_some [where R = "\<lambda>_. True"]) (use ok in \<open>auto simp: yields_def daemon_ok_def in_step_def\<close>)
  then show ?thesis using ok by (simp add: handle_wake_def MemoryStall)
next
  case (Message msg c)
  have "yields (handle_ipc_datagram k u msg c d) (if_some (good R))"
    unfolding handle_ipc_datagram_def
    by (intro yields_if yields_any command_keeps [OF mapped ok]) (use ok in simp)
  then show ?thesis using ok by (simp add: handle_wake_def Message)
qed

end

section \<open>The start\<close>

lemma restored_ok: "daemon_ok R d \<Longrightarrow> yields (restore_profile k d) (if_some (daemon_ok R))"
  unfolding restore_profile_def Let_def
  by (rule yields_any, rule yields_any, rule then_if_some [OF frame_engine])
    (auto simp: daemon_ok_def with_engine_def with_features_def set_override_profile_def)

lemma timer_ok: "daemon_ok R d \<Longrightarrow> yields (setup_timer k d) (if_some (\<lambda>(ok, d'). daemon_ok R d'))"
proof -
  assume d: "daemon_ok R d"
  have "yields (arm_timer k sec (d\<lparr>dn_timer := True\<rparr>)) (if_some (\<lambda>(ok, d'). daemon_ok R d'))" for sec
    by (rule yields_mono [OF frame_arm]) (use d in \<open>auto simp: unsampled_def drivers_def daemon_ok_def\<close>)
  then show ?thesis
    unfolding setup_timer_def using d by (auto intro!: yields_any [where m = "sys_setup _ _"] simp: daemon_ok_def)
qed

lemma signals_ok: "daemon_ok R d \<Longrightarrow> yields (setup_signals k d) (\<lambda>(ok, d'). daemon_ok R d')"
  unfolding setup_signals_def by (auto intro!: yields_any simp: daemon_ok_def)

lemma guard_set_up: "daemon_ok R d \<Longrightarrow> yields (setup_memory_guard k d) (daemon_ok R)"
  unfolding setup_memory_guard_def Let_def
  by (rule yields_any) (auto intro!: yields_any split: prod.split simp: daemon_ok_def)

lemma waiting_ok: "daemon_ok R d \<Longrightarrow> yields (setup_waiting k d) (\<lambda>(ok, d'). daemon_ok R d')"
  unfolding setup_waiting_def Let_def
  by (rule yields_any, rule yields_any, rule yields_any, rule yields_if, simp add: daemon_ok_def, rule yields_any,
      rule yields_bind [OF guard_set_up [where R = R]], simp add: daemon_ok_def, rule yields_any)
    (simp add: daemon_ok_def)

context history_law
begin

lemma initialized:
  assumes mapped: "\<And>h. R (ou_ring u h)" and ok: "daemon_ok R d"
  shows "yields (daemon_initialize k u d) (if_some (\<lambda>(ok, d'). daemon_ok R d'))"
proof -
  have shm: "yields (setup_shm k u d) (daemon_ok R)"
    by (rule yields_mono [OF frame_shm]) (use ok in \<open>auto simp: daemon_ok_def\<close>)
  have ring: "yields (setup_history_shm k u d) (daemon_ok R)" if "daemon_ok R d" for d
    by (rule yields_mono [OF frame_ring])
      (use that mapped_law [OF mapped] in \<open>fastforce simp: daemon_ok_def\<close>)
  have engine: "yields (run_engine st d) (if_some (daemon_ok R))" if "daemon_ok R d" for st d
    by (rule yields_mono [OF frame_engine]) (use that in \<open>auto simp: daemon_ok_def with_engine_def\<close>)
  have waits: "yields (do { (ok, d) \<leftarrow> setup_signals k d;
        if \<not> ok then return_io (Some (False, d)) else do { r \<leftarrow> setup_waiting k d; return_io (Some r) } })
      (if_some (\<lambda>(ok, d'). daemon_ok R d'))" if "daemon_ok R d" for d
    by (rule yields_bind [OF signals_ok [OF that]], clarify, rule yields_if, simp, rule yields_bind [OF waiting_ok], assumption)
      auto
  have fans: "yields (do {
        b \<leftarrow> bus_initialize k (dn_bus d);
        fan \<leftarrow> Fan_Curve.initialize (ou_path u) k (dn_fan d);
        (_, fan) \<leftarrow> load_from_file (ou_path u) k [] fan;
        then_some (restore_profile k (d\<lparr>dn_bus := b, dn_fan := fan\<rparr>)) (\<lambda>d. then_some (setup_timer k d) (\<lambda>(ok, d).
          if \<not> ok then return_io (Some (False, d))
          else do { (ok, d) \<leftarrow> setup_signals k d;
            if \<not> ok then return_io (Some (False, d)) else do { r \<leftarrow> setup_waiting k d; return_io (Some r) } })) })
      (if_some (\<lambda>(ok, d'). daemon_ok R d'))" if "daemon_ok R d" for d
    by (rule yields_any, rule yields_bind [OF initialized_ok], use that in \<open>simp add: daemon_ok_def\<close>,
        rule yields_bind [OF loaded_ok], assumption, clarify, rule then_if_some [OF restored_ok [where R = R]],
        use that in \<open>simp add: daemon_ok_def\<close>, rule then_if_some [OF timer_ok [where R = R]], assumption, clarify,
        rule yields_if, simp, rule waits)
  show ?thesis
    unfolding daemon_initialize_def
    by (rule yields_if, use ok in simp, rule yields_any, rule yields_bind [OF shm], rule yields_bind [OF ring], assumption,
        rule then_if_some [OF engine], assumption, rule fans)
qed

lemma batches_keep:
  assumes mapped: "\<And>h. R (ou_ring u h)"
  shows "if_some (good R) s \<Longrightarrow> yields (run_batches k u wss s) (if_some (good R))"
proof (induction wss arbitrary: s)
  case (Cons ws wss)
  have "yields (wake_step k u w s) (if_some (good R))" if "if_some (good R) s" for w s
    using that wake_keeps [OF mapped] by (cases s) (auto simp: wake_step_def)
  then have "yields (io_for (\<lambda>_. True) (wake_step k u) ws s) (if_some (good R))"
    using Cons.prems by - (rule yields_for, auto)
  then have "yields (io_for (\<lambda>_. True) (wake_step k u) ws s \<bind> run_batches k u wss) (if_some (good R))"
    by (rule yields_bind) (rule Cons.IH)
  then show ?case using Cons.prems by (cases s) auto
qed simp

lemma run_keeps:
  assumes mapped: "\<And>h. R (ou_ring u h)" and ok: "daemon_ok R d"
  shows "yields (daemon_run k u wss d) (if_some (\<lambda>(started, d'). started \<longrightarrow> good R d'))"
proof -
  have start: "yields (if dn_epoll d then return_io (Some (True, d)) else daemon_initialize k u d) (if_some (\<lambda>(ok, d'). daemon_ok R d'))"
    using initialized [OF mapped ok] ok by simp
  have first: "yields (take_baseline k u (e\<lparr>dn_running := True\<rparr>)) (if_some (\<lambda>d'. daemon_ok R d' \<and> dn_baseline d'))" if "daemon_ok R e" for e
  proof (rule yields_mono [OF baseline_kept], intro allI impI)
    fix r d' assume "if_some (\<lambda>d'. kept_part d' = kept_part (e\<lparr>dn_running := True\<rparr>) \<and> in_step d' = in_step (e\<lparr>dn_running := True\<rparr>) \<and> dn_baseline d') r" "r = Some d'"
    then have "kept_part d' = kept_part e" "dn_baseline d'" by (simp_all add: kept_part_def)
    then show "daemon_ok R d' \<and> dn_baseline d'" using that ok_kept by blast
  qed
  have rest: "yields (then_some (observation k u e) (\<lambda>d. do { r \<leftarrow> run_batches k u wss (Some d); return_io (map_option (Pair True) r) }))
      (if_some (\<lambda>(started, d'). started \<longrightarrow> good R d'))" if "daemon_ok R e \<and> dn_baseline e" for e
    by (rule then_if_some [OF observation_keeps [OF mapped]], use that in simp, use that in simp,
        rule yields_bind [OF batches_keep [OF mapped]]) auto
  show ?thesis
    unfolding daemon_run_def
    by (rule then_if_some [OF start], clarify, rule yields_if, simp, rule yields_any, rule then_if_some [OF first], assumption,
        rule yields_any, rule rest)
qed

lemma life_keeps:
  assumes mapped: "\<And>h. R (ou_ring u h)"
  shows "yields (daemon_new k u sandbox period locked \<bind> daemon_run k u wss) (if_some (\<lambda>(started, d). started \<longrightarrow> good R d))"
proof (rule yields_bind [OF _ run_keeps [OF mapped]])
  show "yields (daemon_new k u sandbox period locked) (daemon_ok R)"
    unfolding daemon_new_def by (rule yields_any) (simp add: daemon_ok_def features_init_def fe_ok_new)
qed

end

section \<open>A sound and a torn history\<close>

definition sound_ring :: "history_point ring \<Rightarrow> bool" where
  "sound_ring r \<longleftrightarrow> ring_ok r \<and> rg_cap r = RING_CAPACITY"

definition torn_ring :: "history_point ring \<Rightarrow> bool" where
  "torn_ring r \<longleftrightarrow> odd (uint (rg_seq r)) \<and> rg_head r < rg_cap r \<and> length (rg_entries r) = rg_cap r"

lemma uint_plus2: "even (uint ((w :: u64) + 2)) = even (uint w)"
  by (simp add: uint_word_ariths dvd_mod_iff)

interpretation sound: history_law sound_ring
  by unfold_locales (auto simp: sound_ring_def, simp add: ring_append_def Let_def)

interpretation torn: history_law torn_ring
  by unfold_locales (simp add: torn_ring_def ring_append_def Let_def uint_plus2)

lemma torn_blind: "torn_ring r \<Longrightarrow> ring_read_snapshot m r = None"
proof -
  assume "torn_ring r"
  then have "ring_read_loop n m r = None" for n by (induction n) (simp_all add: torn_ring_def)
  then show ?thesis by (simp add: ring_read_snapshot_def)
qed

lemma torn_turned:
  assumes "torn_ring r"
  shows "ring_read_snapshot m r = None \<and>
    (0 < m \<longrightarrow> (\<forall>stage \<in> set (butlast (ring_stages pt r)). ring_read_snapshot m stage = Some (ring_copy m stage)) \<and>
      (rg_count r = rg_cap r \<longrightarrow> (\<exists>older. ring_read_snapshot m (ring_stages pt r ! 1) = Some (pt # older)))) \<and>
    ring_read_snapshot m (last (ring_stages pt r)) = None"
proof -
  have t: "odd (uint (rg_seq r))" "rg_head r < rg_cap r" "length (rg_entries r) = rg_cap r"
    using assms by (simp_all add: torn_ring_def)
  have "torn_ring (last (ring_stages pt r))" unfolding last_ring_stages using torn.append_law [OF assms t(2)] .
  with assms have "ring_read_snapshot m r = None" "ring_read_snapshot m (last (ring_stages pt r)) = None"
    by (simp_all add: torn_blind)
  then show ?thesis
    using ring_torn_stage_read [OF t(1)] ring_torn_full_read [OF t(1) _ _ t(2,3)] by blast
qed

text \<open>C37. The whole life of a daemon keeps its state well formed.  From its construction through the start, the profile
  of the last run, the restored fan curves, and any batches of wake-ups, with any datagrams of any senders in between,
  the fan's tables stay in range, the ledger of the features holds at most 128 headroom caps, one per process, the
  history in memory is a ring of 60480 points that its readers accept, and the published profile is the one of the kept
  report; provided the history file holds such a ring, as a new one does, when it is mapped.
\<close>

theorem daemon_stays_well_formed:
  assumes "\<And>h. sound_ring (ou_ring u h)"
  shows "yields (daemon_new k u sandbox period locked \<bind> daemon_run k u wss)
    (\<lambda>r. \<forall>d. r = Some (True, d) \<longrightarrow> fe_ok (dn_fan d) \<and> ledger_ok (ft_tracked (cy_features (dn_cycle d))) \<and>
       (\<forall>ring. dn_ring d = Some ring \<longrightarrow> sound_ring ring) \<and>
       ss_power_profile_mode (dn_local d) = of_nat (profile_code (ch_profile (dn_report d))))"
  by (rule yields_mono [OF sound.life_keeps [OF assms]]) (auto simp: daemon_ok_def in_step_def)

text \<open>A machine on which the daemon can start: its files open and everything can be set up.\<close>

definition open_kernel :: kernel where
  "open_kernel = quiet_kernel\<lparr>k_setup := (\<lambda>_ _. True), k_arm_timer := (\<lambda>_ _ _. True), k_open_write := (\<lambda>_ _. True),
     k_open_dents := (\<lambda>_ _. Some 1)\<rparr>"

theorem daemon_stays_well_formed_witness:
  "yields (daemon_new open_kernel quiet_outside False (Fin 3) True \<bind>
       daemon_run open_kernel quiet_outside [[Expired, Message ''PROFILE 3'' (Some \<lparr>cr_pid = 1, cr_uid = 0\<rparr>)], [Signalled SIGHUP]])
    (\<lambda>r. \<forall>d. r = Some (True, d) \<longrightarrow> fe_ok (dn_fan d) \<and> ledger_ok (ft_tracked (cy_features (dn_cycle d))) \<and>
       (\<forall>ring. dn_ring d = Some ring \<longrightarrow> sound_ring ring) \<and>
       ss_power_profile_mode (dn_local d) = of_nat (profile_code (ch_profile (dn_report d))))"
proof (rule daemon_stays_well_formed)
  fix h
  have "0 < RING_CAPACITY" by (simp add: code_consts)
  then show "sound_ring (ou_ring quiet_outside h)"
    using ring_ok_new by (auto simp: quiet_outside_def sound_ring_def) (simp add: ring_new_def)
qed

text \<open>C38. A history that was torn is read the wrong way round.  If the daemon was killed while it wrote a point, the file
  that the next one maps has an odd sequence number, and every point adds two to it.  So for the whole life of that
  daemon, whatever happens, a reader that comes while the daemon is not writing gets nothing, not a single point; and in
  the middle of the next append of any point, at every stage between its first store and its last, the number is even
  and a reader is served what the stores have left so far: on a full ring, after the second store, the newest point as
  the oldest of the history.  After the last store the ring is closed to readers again.
\<close>

theorem torn_history_turned_around:
  assumes "\<And>h. torn_ring (ou_ring u h)"
  shows "yields (daemon_new k u sandbox period locked \<bind> daemon_run k u wss)
    (\<lambda>r. \<forall>d ring. r = Some (True, d) \<longrightarrow> dn_ring d = Some ring \<longrightarrow>
       ring_read_snapshot m ring = None \<and>
       (0 < m \<longrightarrow>
         (\<forall>stage \<in> set (butlast (ring_stages pt ring)). ring_read_snapshot m stage = Some (ring_copy m stage)) \<and>
         (rg_count ring = rg_cap ring \<longrightarrow> (\<exists>older. ring_read_snapshot m (ring_stages pt ring ! 1) = Some (pt # older)))) \<and>
       ring_read_snapshot m (last (ring_stages pt ring)) = None)"
  by (rule yields_mono [OF torn.life_keeps [OF assms]]) (auto simp: daemon_ok_def dest!: torn_turned [where m = m and pt = pt])

definition torn_outside :: outside where
  "torn_outside = quiet_outside\<lparr>ou_ring := (\<lambda>_. (ring_new RING_CAPACITY point_zero)\<lparr>rg_seq := 41\<rparr>)\<rparr>"

theorem torn_history_turned_around_witness:
  "yields (daemon_new open_kernel torn_outside False (Fin 3) True \<bind> daemon_run open_kernel torn_outside [[Expired], [Expired]])
    (\<lambda>r. \<forall>d ring. r = Some (True, d) \<longrightarrow> dn_ring d = Some ring \<longrightarrow>
       ring_read_snapshot 1440 ring = None \<and>
       (0 < (1440 :: nat) \<longrightarrow>
         (\<forall>stage \<in> set (butlast (ring_stages point_zero ring)). ring_read_snapshot 1440 stage = Some (ring_copy 1440 stage)) \<and>
         (rg_count ring = rg_cap ring \<longrightarrow>
           (\<exists>older. ring_read_snapshot 1440 (ring_stages point_zero ring ! 1) = Some (point_zero # older)))) \<and>
       ring_read_snapshot 1440 (last (ring_stages point_zero ring)) = None)"
  by (rule torn_history_turned_around) (simp add: torn_outside_def torn_ring_def ring_new_def code_consts)

end
