(* ===== verification/Daemon_Profile.thy ===== *)
theory Daemon_Profile
  imports Daemon_State
begin

text \<open>
  A profile that is applied and published but not yet followed: the steps of a profile never touch what the guards,
  the governor and the buses ask for.
\<close>

section \<open>What the steps of a profile leave alone\<close>

definition keeps_globals :: "engine_step \<Rightarrow> bool" where
  "keeps_globals st \<longleftrightarrow> (\<forall>e. yields (st e) (if_some (\<lambda>e'. en_globals e' = en_globals e)))"

lemma keeps_globals_steps:
  "keeps_globals (step_io f)" "keeps_globals (step_base fb)" "keeps_globals (step_statics fs)" "keeps_globals (step_wifi fw)"
  "keeps_globals (step_platform fp)" "keeps_globals (step_smu fm)" "keeps_globals (step_set ft)"
  "keeps_globals (step_backlight_cap k x)"
  unfolding keeps_globals_def step_io_def step_base_def step_statics_def step_wifi_def step_platform_def step_smu_def
    step_set_def step_backlight_cap_def
  by (auto intro!: yields_any)

lemma keeps_globals_when: "keeps_globals st \<Longrightarrow> keeps_globals (step_when c st)"
  by (simp add: keeps_globals_def step_when_def)

lemma keeps_globals_of: "(\<And>e. keeps_globals (f e)) \<Longrightarrow> keeps_globals (step_of f)"
  by (simp add: keeps_globals_def step_of_def)

lemma keeps_globalsD: "keeps_globals st \<Longrightarrow> en_globals e = g \<Longrightarrow> yields (st e) (if_some (\<lambda>e'. en_globals e' = g))"
  unfolding keeps_globals_def by blast

lemma keeps_globals_run: "list_all keeps_globals sts \<Longrightarrow> keeps_globals (run_steps sts)"
proof (induction sts)
  case (Cons st sts)
  then have st: "keeps_globals st" and rest: "keeps_globals (run_steps sts)" by simp_all
  show ?case
    unfolding keeps_globals_def run_steps.simps
  proof (rule allI, rule yields_bind [OF keeps_globalsD [OF st refl]])
    fix e :: engine and r :: "engine option" assume r: "if_some (\<lambda>e'. en_globals e' = en_globals e) r"
    show "yields (case r of None \<Rightarrow> return_io None | Some e \<Rightarrow> run_steps sts e) (if_some (\<lambda>e'. en_globals e' = en_globals e))"
      by (rule yields_option, simp, rule keeps_globalsD [OF rest]) (use r in blast)
  qed
qed (simp add: keeps_globals_def)

lemmas keeps_globals_rules = keeps_globals_steps keeps_globals_when keeps_globals_of keeps_globals_run

lemma keeps_globals_capture: "keeps_globals (capture_hardware_baseline k)"
  unfolding keeps_globals_def capture_hardware_baseline_def
  by (auto intro!: yields_any)

lemma keeps_globals_undo: "st \<in> set (undo_ultra_endurance k) \<Longrightarrow> keeps_globals st"
  unfolding undo_ultra_endurance_def by (auto intro!: keeps_globals_rules)

lemma keeps_globals_release: "keeps_globals (release_performance_unleash k)"
  unfolding release_performance_unleash_def by (rule keeps_globals_run) (simp add: keeps_globals_rules)

lemma keeps_globals_profile: "st \<in> set (profile_steps k hold m) \<Longrightarrow> keeps_globals st"
  unfolding profile_steps_def performance_steps_def balanced_steps_def power_saver_steps_def ultra_endurance_steps_def
  by (auto intro!: keeps_globals_rules keeps_globals_release intro: keeps_globals_undo split: power_profile.splits)

lemma keeps_globals_apply: "keeps_globals (apply_power_profile k hold m)"
  unfolding apply_power_profile_def
  by (rule keeps_globals_run)
    (auto simp: list_all_iff intro!: keeps_globals_rules keeps_globals_capture intro: keeps_globals_profile)

lemma frame_apply:
  "yields (run_engine (apply_power_profile k hold m) d) (if_some (\<lambda>d'. \<exists>e. d' = with_engine (\<lambda>_. e) d \<and> en_globals e = dn_globals d))"
  unfolding run_engine_def
  by (rule yields_bind [OF keeps_globals_apply [unfolded keeps_globals_def, rule_format]]) auto

section \<open>An observation in the cooldown\<close>

text \<open>No tick for a deep sweep, no client, and the last early sweep less than fifteen seconds ago.\<close>

definition resting :: "kernel \<Rightarrow> cadence \<Rightarrow> bool" where
  "resting k c \<longleftrightarrow> \<not> cd_interactive c \<and> (cd_tick c + 1) mod 6 \<noteq> 0 \<and> (\<forall>h. k_now_ms k h - cd_early c < EARLY_SWEEP_COOLDOWN_MS)"

lemma resting_observation:
  assumes "resting k (dn_cadence d)"
  shows "yields (observation k u d) (if_some (\<lambda>d'. dn_globals d' = dn_globals d \<and> passes d' = passes d \<and>
    cy_features (dn_cycle d') = cy_features (dn_cycle d) \<and>
    ss_power_profile_mode (dn_local d') = of_nat (profile_code (ch_profile (dn_report d)))))"
  unfolding observation_def
proof (rule then_if_some [OF frame_lease])
  let ?Q = "\<lambda>d'. dn_globals d' = dn_globals d \<and> passes d' = passes d \<and> cy_features (dn_cycle d') = cy_features (dn_cycle d) \<and>
    ss_power_profile_mode (dn_local d') = of_nat (profile_code (ch_profile (dn_report d)))"
  fix d1 assume "lease_checked d d1"
  then have d1: "drivers d1 = drivers d" "samplers d1 = samplers d" "dn_report d1 = dn_report d" "dn_cadence d1 = dn_cadence d"
    using assms by (auto simp: lease_checked_def unsampled_def resting_def)
  define e where "e = d1\<lparr>dn_cadence := (dn_cadence d1)\<lparr>cd_tick := cd_tick (dn_cadence d1) + 1\<rparr>\<rparr>"
  have shape: "sweep k u d1 = background_sweep k u e"
    using assms d1(4) by (simp add: sweep_def next_tick_def resting_def e_def)
  have "yields (background_sweep k u e) (if_some ?Q)"
    unfolding background_sweep_def
  proof (rule then_if_some [OF frame_light], clarify)
    fix early d2 assume l: "light_frame k u e early d2"
    then obtain h hw where "(early, dn_cadence d2) = probe_spike (k_now_ms k h) hw (dn_cadence e)" by (auto simp: light_frame_def)
    then have "\<not> early" using assms d1(4) by (auto simp: probe_spike_def Let_def resting_def e_def not_le)
    moreover have "?Q d2" using l d1 by (auto simp: light_frame_def e_def drivers_def samplers_def)
    ultimately show "yields (if \<not> early then return_io (Some d2)
        else do {
          log_event (EvAlert ''ADAPTIVE'');
          then_some (deep_sweep k u d2) (\<lambda>d. return_io (Some (with_cadence (\<lambda>c. c\<lparr>cd_tick := 0\<rparr>) d)))
        }) (if_some ?Q)" by simp
  qed
  then have swept: "yields (sweep k u d1) (if_some ?Q)" by (simp only: shape)
  have "yields (drive_policies k d2) (if_some ?Q)" if "?Q d2" for d2
    by (rule yields_mono [OF frame_policies]) (use that in \<open>auto simp: policies_done_def samplers_def\<close>)
  then show "yields (then_some (sweep k u d1) (drive_policies k)) (if_some ?Q)"
    by - (rule then_if_some [OF swept])
qed

section \<open>The command of a client\<close>

lemma digit_of_profile: "profile_of_digit c = Some m \<Longrightarrow> c \<in> {CHR ''0'', CHR ''1'', CHR ''2'', CHR ''3''}"
proof -
  assume "profile_of_digit c = Some m"
  then have "byte_of c \<in> {48, 49, 50, 51}" by (auto simp: profile_of_digit_def split: if_splits)
  moreover have "char_of (48 :: nat) = CHR ''0''" "char_of (49 :: nat) = CHR ''1''" "char_of (50 :: nat) = CHR ''2''"
    "char_of (51 :: nat) = CHR ''3''" by code_simp+
  moreover have "c = char_of (byte_of c)" by simp
  ultimately show ?thesis by (metis insert_iff empty_iff)
qed

lemma profile_command: "profile_of_digit c = Some m \<Longrightarrow> command_of (take 4095 (''PROFILE '' @ [c])) = SetProfile"
  by (drule digit_of_profile) (auto simp: command_of_def starts_with_def)

lemma root_authorized: "0 < cr_pid cr \<Longrightarrow> cr_uid cr = 0 \<Longrightarrow> yields (authorize k (Some cr)) (\<lambda>b. b)"
  by (auto simp: authorize_def peer_is_authorized_client_def intro!: yields_any)

text \<open>C40. A profile that a client chooses is announced, but not followed.  Between two deep sweeps, root's
  \<^verbatim>\<open>PROFILE <n>\<close> is recorded as the user's choice and published as the current profile, and an observation is made at
  once; yet the profile that the memory guard, the window governor and the bus controller go by is afterwards still the
  one from before the command.
\<close>

theorem chosen_profile_not_followed:
  assumes "profile_of_digit c = Some m" "\<not> hw_is_battery_discharging (dn_hardware d)" "dn_locked d"
    and "0 < cr_pid cr" "cr_uid cr = 0" "resting k (dn_cadence d)"
  shows "yields (handle_wake k u (Message (''PROFILE '' @ [c]) (Some cr)) d)
    (\<lambda>r. \<forall>d'. r = Some d' \<longrightarrow> ft_override (cy_features (dn_cycle d')) = Some m \<and>
       ss_power_profile_mode (dn_local d') = of_nat (profile_code m) \<and>
       gl_effective_profile (cy_globals (dn_cycle d')) = gl_effective_profile (cy_globals (dn_cycle d)))"
    (is "yields _ ?Q")
proof -
  have req: "take 4095 (''PROFILE '' @ [c]) = ''PROFILE '' @ [c]" by simp
  let ?P = "\<lambda>d'. ft_override (cy_features (dn_cycle d')) = Some m \<and>
       ss_power_profile_mode (dn_local d') = of_nat (profile_code m) \<and>
       gl_effective_profile (cy_globals (dn_cycle d')) = gl_effective_profile (cy_globals (dn_cycle d))"
  have observe: "yields (observation k u d1) ?Q"
    if d1: "ft_override (cy_features (dn_cycle d1)) = Some m" "dn_globals d1 = dn_globals d"
      "ch_profile (dn_report d1) = m" "dn_cadence d1 = dn_cadence d" for d1
  proof (rule yields_mono [OF resting_observation])
    show "resting k (dn_cadence d1)" using assms(6) d1(4) by simp
    fix r assume r: "if_some (\<lambda>d'. dn_globals d' = dn_globals d1 \<and> passes d' = passes d1 \<and>
      cy_features (dn_cycle d') = cy_features (dn_cycle d1) \<and>
      ss_power_profile_mode (dn_local d') = of_nat (profile_code (ch_profile (dn_report d1)))) r"
    show "?Q r"
    proof (intro allI impI)
      fix d' assume "r = Some d'"
      with r have "dn_globals d' = dn_globals d1 \<and> cy_features (dn_cycle d') = cy_features (dn_cycle d1) \<and>
        ss_power_profile_mode (dn_local d') = of_nat (profile_code (ch_profile (dn_report d1)))" by blast
      then show "?P d'" by (simp add: d1)
    qed
  qed
  have chosen: "yields (choose_profile k u m d) ?Q"
    unfolding choose_profile_def Let_def
    by (rule then_if_some [OF frame_apply], elim exE conjE, rule yields_any, rule yields_any, rule observe)
      (simp_all add: with_engine_def with_features_def set_override_profile_def)
  have "handle_command k u b (''PROFILE '' @ [c]) d = acknowledged (choose_profile k u m d)" if b for b
    unfolding handle_command_def Let_def profile_command [OF assms(1), unfolded req] command.case set_profile_def
    using assms(1,2) that by simp
  then have cmd: "yields (handle_command k u b (''PROFILE '' @ [c]) d) ?Q" if b for b
    by (simp only: that) (rule ack_keeps [OF chosen])
  have "yields (handle_ipc_datagram k u (''PROFILE '' @ [c]) (Some cr) d) ?Q"
    unfolding handle_ipc_datagram_def req
    by (simp only: append_is_Nil_conv list.distinct if_False simp_thms) (rule yields_bind [OF root_authorized [OF assms(4,5)]], rule cmd)
  then show ?thesis using assms(3) by (simp add: handle_wake_def)
qed

theorem chosen_profile_not_followed_witness:
  "yields (handle_wake open_kernel quiet_outside (Message (''PROFILE '' @ [CHR ''3'']) (Some \<lparr>cr_pid = 4242, cr_uid = 0\<rparr>)) desktop_daemon)
    (\<lambda>r. \<forall>d'. r = Some d' \<longrightarrow> ft_override (cy_features (dn_cycle d')) = Some UltraEndurance \<and>
       ss_power_profile_mode (dn_local d') = of_nat (profile_code UltraEndurance) \<and>
       gl_effective_profile (cy_globals (dn_cycle d')) = gl_effective_profile (cy_globals (dn_cycle desktop_daemon)))"
proof (rule chosen_profile_not_followed)
  show "profile_of_digit (CHR ''3'') = Some UltraEndurance" by code_simp
  show "resting open_kernel (dn_cadence desktop_daemon)"
    by (simp add: resting_def open_kernel_def quiet_kernel_def desktop_daemon_def)
  show "\<not> hw_is_battery_discharging (dn_hardware desktop_daemon)"
    by (simp add: desktop_daemon_def cached_new_def breakdown_new_def)
qed (simp_all add: desktop_daemon_def)

end
