(* ===== verification/Spec2Isabelle.thy ===== *)
theory Spec2Isabelle
  imports Ipc Platform Swap_Expander Pageout Targeted_Reclaim Hygiene Pressure_Guard Disk_Guard Netlink Profile_Trace Feature_Release Window_Release Coordinator Bus_Trace Attribution_Bounds Proc_Scan Hw_Safety Daemon_Profile
begin

text \<open>
  A model of WattCurb, a Linux daemon that lowers the power draw of a laptop and keeps it usable under
  memory and disk pressure, with the theorems that make its parts correct.  The theories follow the
  C++ sources under \<^verbatim>\<open>src/\<close>; the paths below are relative to \<^verbatim>\<open>src/src/\<close>.

  \<^bold>\<open>The program.\<close>  The daemon samples processes and hardware into a report (\<^verbatim>\<open>core/types.hpp\<close>),
  publishes a summary in shared memory (\<^verbatim>\<open>ipc/\<close>), and hands the report to its engines: the feature
  manager (\<^verbatim>\<open>policy/battery_feature.cpp\<close>) slows and caps processes, the mitigation engine
  (\<^verbatim>\<open>policy/mitigation_engine.cpp\<close>) sets the hardware for a power profile, the memory pressure guard
  and its engines (\<^verbatim>\<open>policy/memory_pressure_guard.cpp\<close>, swap, pageout, hygiene, targeted reclaim) and
  the disk pressure guard free memory and space, and the window governor
  (\<^verbatim>\<open>policy/window_aware_governor.cpp\<close>) follows the windows of the desktop.

  \<^bold>\<open>How the code is modelled.\<close>  Unsigned integers are words of their width; signed values the code does
  not overflow are \<open>int\<close>; \<open>double\<close> and \<open>float\<close> are the executable IEEE values of \<open>Floats\<close>; a structure
  is a record, an enumeration a datatype; a fixed vector is a list with its capacity tested where the
  code tests it.  Everything outside the daemon is the record \<open>kernel\<close> of \<open>Os_Interface\<close>: one function
  per call, each a function of the whole history of calls, so a theorem about every \<open>kernel\<close> holds for
  every environment.  Code that makes calls is a state transformer over that history (the library's
  state monad), in the order of the code; static variables of the C++ files are records passed along.
  Undefined conversions (a float out of range cast to an integer) are the value \<open>None\<close>.

  \<^bold>\<open>The theories.\<close>
  \<^item> \<open>Prelude\<close>, \<open>Floats\<close>, \<open>C_Strings\<close>: words, characters, IEEE arithmetic, the C library's string and
    number readers.  \<open>Os_Interface\<close>, \<open>Machines\<close>: system calls, the calculi \<open>io_ok\<close> (what a computation
    may do and returns), \<open>wp\<close> (what holds of the history afterwards), \<open>yields\<close> and \<open>does\<close> (what it is
    sure to return and to do), and the locales \<open>io_machine\<close>, \<open>calm_machine\<close> and \<open>paced\<close>, the contracts
    of an engine driven in any order and of an engine with a cooldown.
  \<^item> \<open>Containers\<close> (\<^verbatim>\<open>core/custom_containers.hpp\<close>), \<open>Types\<close> (\<^verbatim>\<open>core/types.hpp\<close>), \<open>Ipc\<close> (the history ring,
    its append as a whole and store by store, and the sequence-locked state block from whatever version the mapped
    block has: safe from an even one, torn from an odd one), \<open>Classifier\<close> (\<^verbatim>\<open>policy/process_classifier.cpp\<close>).
  \<^item> \<open>Actuators\<close>, \<open>Platform\<close>, \<open>Netlink\<close>, \<open>Desktop\<close>, \<open>Knobs\<close>, \<open>Peripherals\<close>, \<open>Topology\<close>, \<open>Profiles\<close>: the
    mitigation engine, from the process actuators and their shields over the knobs of each device to
    the sequences of a profile change.  \<open>Knob_Effects\<close> states what a knob may do as a locale, which
    \<open>Profile_Safety\<close> interprets; \<open>Profile_Trace\<close> follows four knobs through any sequence of changes.
  \<^item> \<open>Fan_Curve\<close> (\<^verbatim>\<open>policy/fan_curve_engine.cpp\<close>): spline, vector form, parser and queries.
  \<^item> \<open>Swap_Tier\<close>, \<open>Swap_Expander\<close>, \<open>Pageout\<close>, \<open>Low_Memory\<close>, \<open>Pressure_Sample\<close>, \<open>Targeted_Reclaim\<close>, \<open>Hygiene\<close>,
    \<open>Pressure_Guard\<close>: the memory engines and the guard that drives them.  What \<open>Hygiene\<close> may delete
    and what the guard gives back are predicates of the calls and the system's answers alone (\<open>deletions_ok\<close>;
    \<open>cpu_low\<close>, \<open>io_low\<close>, \<open>capped\<close>).  \<open>Disk_Guard\<close>: the disk guard.
  \<^item> \<open>Features\<close> with \<open>Feature_Ledger\<close> and \<open>Feature_Release\<close>: the feature manager, what it records and whom
    it leaves alone, and what it gives back.
  \<^item> \<open>Window_Governor\<close> with \<open>Window_Safety\<close> and \<open>Window_Release\<close>: the latency request and the window
    governor, its table and limits, and what it gives back.
  \<^item> \<open>Bus_Controller\<close> with \<open>Bus_Trace\<close> (\<^verbatim>\<open>policy/hardware_bus_controller.cpp\<close>): the power settings of the
    panel, the buses and a few devices, and what they hold after any sequence of changes.
  \<^item> \<open>Mitigation\<close> with \<open>Mitigation_Release\<close> (\<^verbatim>\<open>policy/mitigation_engine.cpp\<close>, \<^verbatim>\<open>evaluate_and_actuate\<close>,
    \<^verbatim>\<open>rollback_all\<close>): the engine's own ladder and table, and a demotion that its release does not undo;
    \<open>Coordinator\<close> (\<^verbatim>\<open>policy/unified_rollback_coordinator.cpp\<close>): the release of everything in one call.
  \<^item> The attribution engine (\<^verbatim>\<open>policy/attribution_engine.cpp\<close>): \<open>Attribution_Delta\<close> (the samples and the sweep over
    two of them, equal to a lookup), \<open>Attribution_Window\<close> (the accumulation of a longer window, its counters and the
    migrations it loses), \<open>Attribution_Power\<close> (the power of the hardware, the wrapping energy counter), \<open>Top_K\<close>
    (\<^verbatim>\<open>core/custom_containers.hpp\<close>, the streaming selection, equal to a sort), \<open>Attribution\<close> (shares, score, classes,
    culprits, ranking and report) and \<open>Attribution_Bounds\<close> (no conversion overflows on plausible samples, the bounds
    of every charge, the immunity of the protected tiers) over \<open>Float_Bounds\<close>, the ranges of double-precision values.
    A sum of counters wraps as the 64-bit addition of the code does; texts are left out, but not the two percentages
    that are converted to integers for them, since the conversions can be undefined.
  \<^item> The process analyzer (\<^verbatim>\<open>proc/process_analyzer.cpp\<close>): \<open>Simd\<close> (\<^verbatim>\<open>core/cpu_features.hpp\<close>, the vector scanners,
    equal to the scalar ones), \<open>Proc_Parse\<close> (the readers of a process's records, a record of which is read back
    whatever the name of the process), \<open>Proc_Capture\<close> (the scan of the listing, the descriptors, the pacing and what is
    reused of the sample before) and \<open>Proc_Scan\<close> (a scan only reads; its order is what the attribution's sweep needs;
    what is never read again).  The instruction set is a parameter; a directory is read in a bounded number of portions
    that the kernel chooses when it is opened.
  \<^item> The hardware probe (\<^verbatim>\<open>hw/hardware_probe.cpp\<close>): \<open>Hw_Parse\<close> (the battery's record, the link of a PCI device,
    the statistics of a disk), \<open>Hw_Probe\<close> (the discovery, the descriptors, each section of a sample and what it reads
    only on some passes) and \<open>Hw_Safety\<close> (a sample only reads and stays within the bytes read; thresholds that are
    never read).  A descriptor is the path it was opened on.
  \<^item> The daemon (\<^verbatim>\<open>core/daemon_runner.cpp\<close>), which owns all of the above: \<open>Daemon\<close> (its state, the two shared
    files, the point of the history, the cadence and the leases), \<open>Daemon_Loop\<close> (the light and the deep cycle, who
    may command, every command, the start, the wake-ups and the end), \<open>Daemon_Safety\<close> (what is refused to
    strangers and what is not), \<open>Daemon_Cadence\<close> (what each step leaves alone, and how often the processes are read),
    \<open>Daemon_State\<close> (what a whole run keeps; the locale \<open>history_law\<close>, a law of the ring that an append keeps, is
    interpreted for a sound and for a torn history) and \<open>Daemon_Profile\<close>
    (a chosen profile that the components do not follow yet).  \<open>None\<close>
    is a conversion or a write that is undefined in C++.
  \<^bold>\<open>What is shown.\<close>  Invariants over any sequence of operations (tables, ledgers, descriptors, swap
  space); safety of what an engine may do (only the knobs, only candidates, only checked files, never
  a user application); bounds (budgets, cooldowns, spaced passes); round trips and equivalences of
  parsers and encoders with what they read and write; refinement of rings and strings; what a release
  is sure to give back; and the places where the code does not do what its comments promise, each
  stated as a theorem about what it does.

  \<^bold>\<open>Bounds and fuel.\<close>  Loops over directories, tables and reports are recursion over their lists.  The
  ancestry walk has the code's depth of eight; the read loop over a process's map ends after the number
  of reads that the environment gives for that file; retries of the sequence lock have the code's
  budget.  No other fuel is used; the remaining recursive functions are structural or have a measure.

  \<^bold>\<open>Not modelled.\<close>  The texts of log lines, summaries and descriptors and the two report texts the daemon
  sends; the entry point (\<^verbatim>\<open>main.cpp\<close>), translations, report formatting, the tray and the dashboard,
  which are input and output or glue around the parts above.  Hooks that
  exist for the tests (other paths, reset functions) are left out.
\<close>

end
